(* ===== verification/Prelude.thy ===== *)
theory Prelude
  imports
    Main
    "HOL-Library.AList"
    "HOL-Library.Char_ord"
    "HOL-Library.List_Lexorder"
    "HOL-Library.Multiset"
    "HOL-Library.Product_Lexorder"
    "HOL-Library.Word"
begin

text \<open>
  Shared vocabulary of the development: results of fallible code, JSON values, UTF-8 strings,
  saturating machine arithmetic, association lists standing for hash maps, and the list lemmas
  that several components use. Nothing here is specific to one component.
\<close>

named_theorems frame_simps \<open>fields an operation leaves alone\<close>
named_theorems inv_intros \<open>preservation rules of the invariants\<close>

section \<open>Results\<close>

text \<open>
  A Rust \<open>Result<T, E>\<close> is \<open>'e + 'a\<close>: \<open>Inl\<close> the error, \<open>Inr\<close> the value. The question mark
  operator is \<open>rbind\<close>.
\<close>

primrec rbind :: "'e + 'a \<Rightarrow> ('a \<Rightarrow> 'e + 'b) \<Rightarrow> 'e + 'b" where
  "rbind (Inl e) f = Inl e"
| "rbind (Inr x) f = f x"

primrec is_ok :: "'e + 'a \<Rightarrow> bool" where
  "is_ok (Inl e) = False"
| "is_ok (Inr x) = True"

primrec map_err :: "('e \<Rightarrow> 'f) \<Rightarrow> 'e + 'a \<Rightarrow> 'f + 'a" where
  "map_err g (Inl e) = Inl (g e)"
| "map_err g (Inr x) = Inr x"

definition ok_or :: "'a option \<Rightarrow> 'e \<Rightarrow> 'e + 'a" where
  "ok_or v e = (case v of None \<Rightarrow> Inl e | Some x \<Rightarrow> Inr x)"

lemma rbind_Inr_iff [simp]: "rbind m f = Inr y \<longleftrightarrow> (\<exists>x. m = Inr x \<and> f x = Inr y)"
  by (cases m) auto

lemma rbind_Inl_iff: "rbind m f = Inl e \<longleftrightarrow> m = Inl e \<or> (\<exists>x. m = Inr x \<and> f x = Inl e)"
  by (cases m) auto

lemma is_ok_iff: "is_ok m \<longleftrightarrow> (\<exists>x. m = Inr x)"
  by (cases m) auto

lemma map_err_Inr_iff [simp]: "map_err g m = Inr x \<longleftrightarrow> m = Inr x"
  by (cases m) auto

lemma ok_or_Inr_iff [simp]: "ok_or v e = Inr x \<longleftrightarrow> v = Some x"
  by (cases v) (auto simp: ok_or_def)

section \<open>Machine arithmetic\<close>

text \<open>
  \<open>usize\<close> and \<open>u64\<close> counters that only saturate are natural numbers bounded by
  \<open>2 ^ 64 - 1\<close>; \<open>i64\<close> times and positions are integers in the signed 64-bit range. Counters
  that wrap are \<open>64 word\<close>.
\<close>

type_synonym u64 = "64 word"

definition usize_max :: nat where
  "usize_max = 18446744073709551615"

definition u32_max :: nat where
  "u32_max = 4294967295"

definition i64_max :: int where
  "i64_max = 9223372036854775807"

definition i64_min :: int where
  "i64_min = - 9223372036854775808"

definition usize_add :: "nat \<Rightarrow> nat \<Rightarrow> nat" where
  "usize_add a b = min usize_max (a + b)"

definition checked_add :: "nat \<Rightarrow> nat \<Rightarrow> nat option" where
  "checked_add a b = (if a + b \<le> usize_max then Some (a + b) else None)"

definition checked_sub :: "nat \<Rightarrow> nat \<Rightarrow> nat option" where
  "checked_sub a b = (if b \<le> a then Some (a - b) else None)"

definition i64_add :: "int \<Rightarrow> int \<Rightarrow> int" where
  "i64_add a b = max i64_min (min i64_max (a + b))"

definition i64_mul :: "int \<Rightarrow> int \<Rightarrow> int" where
  "i64_mul a b = max i64_min (min i64_max (a * b))"

lemma usize_add_le_max: "usize_add a b \<le> usize_max"
  by (simp add: usize_add_def)

lemma usize_add_eq: "a + b \<le> usize_max \<Longrightarrow> usize_add a b = a + b"
  by (simp add: usize_add_def)

lemma usize_add_below: "usize_add a b \<le> c \<Longrightarrow> c < usize_max \<Longrightarrow> a + b \<le> c"
  by (auto simp: usize_add_def min_def split: if_splits)

lemma i64_add_le_max: "i64_add a b \<le> i64_max"
  by (simp add: i64_add_def i64_max_def i64_min_def)

lemma i64_add_eq: "i64_min \<le> a + b \<Longrightarrow> a + b \<le> i64_max \<Longrightarrow> i64_add a b = a + b"
  by (simp add: i64_add_def)

lemma i64_add_mono: "a \<le> b \<Longrightarrow> i64_add a c \<le> i64_add b c"
  by (auto simp: i64_add_def)

lemma i64_add_nonneg_ge: "0 \<le> c \<Longrightarrow> a \<le> i64_max \<Longrightarrow> a \<le> i64_add a c"
  by (auto simp: i64_add_def)

lemma i64_add_le_sum: "0 \<le> a \<Longrightarrow> 0 \<le> c \<Longrightarrow> i64_add a c \<le> a + c"
  by (auto simp: i64_add_def i64_min_def)

lemma i64_add_less_imp: "0 \<le> a \<Longrightarrow> 0 \<le> c \<Longrightarrow> i64_add a c \<le> t \<Longrightarrow> t < i64_max \<Longrightarrow> a + c \<le> t"
  by (auto simp: i64_add_def i64_min_def min_def max_def split: if_splits)

section \<open>Strings\<close>

text \<open>
  A Rust string is its UTF-8 bytes, one \<^typ>\<open>char\<close> per byte, so \<open>length\<close> is \<open>str::len\<close>.
  \<open>utf8_chars\<close> cuts it into its scalar values, each the list of its bytes; the code's
  \<open>chars()\<close>, \<open>trim\<close> and \<open>char::is_control\<close> go through it.
\<close>

definition byte_of :: "char \<Rightarrow> nat" where
  "byte_of c = of_char c"

definition is_continuation :: "char \<Rightarrow> bool" where
  "is_continuation c \<longleftrightarrow> 128 \<le> byte_of c \<and> byte_of c < 192"

lemma dropWhile_shorter [termination_simp]: "length (dropWhile P xs) < Suc (length xs)"
  by (simp add: le_imp_less_Suc length_dropWhile_le)

fun utf8_chars :: "string \<Rightarrow> string list" where
  "utf8_chars [] = []"
| "utf8_chars (c # cs) =
     (c # takeWhile is_continuation cs) # utf8_chars (dropWhile is_continuation cs)"

definition is_control :: "string \<Rightarrow> bool" where
  "is_control s = (case map byte_of s of
       [b] \<Rightarrow> b < 32 \<or> b = 127
     | [b, d] \<Rightarrow> b = 194 \<and> 128 \<le> d \<and> d < 160
     | _ \<Rightarrow> False)"

definition is_white :: "string \<Rightarrow> bool" where
  "is_white s = (case map byte_of s of
       [b] \<Rightarrow> (9 \<le> b \<and> b \<le> 13) \<or> b = 32
     | [b, d] \<Rightarrow> b = 194 \<and> (d = 133 \<or> d = 160)
     | [b, d, e] \<Rightarrow>
           (b = 225 \<and> d = 154 \<and> e = 128)
         \<or> (b = 226 \<and> d = 128 \<and> ((128 \<le> e \<and> e \<le> 138) \<or> e = 168 \<or> e = 169 \<or> e = 175))
         \<or> (b = 226 \<and> d = 129 \<and> e = 159)
         \<or> (b = 227 \<and> d = 128 \<and> e = 128)
     | _ \<Rightarrow> False)"

definition str_trim :: "string \<Rightarrow> string" where
  "str_trim s =
     concat (rev (dropWhile is_white (rev (dropWhile is_white (utf8_chars s)))))"

definition char_count :: "string \<Rightarrow> nat" where
  "char_count s = length (utf8_chars s)"

definition is_blank :: "string \<Rightarrow> bool" where
  "is_blank s \<longleftrightarrow> str_trim s = []"

definition is_ascii_alnum :: "char \<Rightarrow> bool" where
  "is_ascii_alnum c \<longleftrightarrow>
     (48 \<le> byte_of c \<and> byte_of c \<le> 57)
   \<or> (65 \<le> byte_of c \<and> byte_of c \<le> 90)
   \<or> (97 \<le> byte_of c \<and> byte_of c \<le> 122)"

definition ascii_lower :: "char \<Rightarrow> char" where
  "ascii_lower c = (if 65 \<le> byte_of c \<and> byte_of c \<le> 90 then char_of (byte_of c + 32) else c)"

definition starts_with :: "string \<Rightarrow> string \<Rightarrow> bool" where
  "starts_with s p \<longleftrightarrow> take (length p) s = p"

text \<open>\<open>str::split\<close> at one byte, the text before the first one in \<open>acc\<close> reversed.\<close>

fun split_at_char :: "char \<Rightarrow> string \<Rightarrow> string \<Rightarrow> string list" where
  "split_at_char c acc [] = [rev acc]"
| "split_at_char c acc (x # xs) =
     (if x = c then rev acc # split_at_char c [] xs else split_at_char c (x # acc) xs)"

definition ends_with :: "string \<Rightarrow> string \<Rightarrow> bool" where
  "ends_with s p \<longleftrightarrow> length p \<le> length s \<and> drop (length s - length p) s = p"

lemma ends_with_append [simp]: "ends_with (s @ p) p"
  by (simp add: ends_with_def)

lemma concat_utf8_chars: "concat (utf8_chars s) = s"
  by (induction s rule: utf8_chars.induct) auto

lemma utf8_chars_nonempty: "c \<in> set (utf8_chars s) \<Longrightarrow> c \<noteq> []"
  by (induction s rule: utf8_chars.induct) auto

lemma char_count_le_length: "char_count s \<le> length s"
  unfolding char_count_def
  by (induction s rule: utf8_chars.induct)
    (auto intro: order_trans length_dropWhile_le)

lemma starts_with_Nil [simp]: "starts_with s []"
  by (simp add: starts_with_def)

lemma starts_with_append [simp]: "starts_with (p @ s) p"
  by (simp add: starts_with_def)

text \<open>Decimal digits, as \<open>format!\<close> prints an unsigned integer and a signed one.\<close>

definition digit_char :: "nat \<Rightarrow> char" where
  "digit_char d = char_of (48 + d)"

fun show_nat :: "nat \<Rightarrow> string" where
  "show_nat n = (if n < 10 then [digit_char n] else show_nat (n div 10) @ [digit_char (n mod 10)])"

declare show_nat.simps [simp del]

definition show_int :: "int \<Rightarrow> string" where
  "show_int n = (if n < 0 then ''-'' @ show_nat (nat (- n)) else show_nat (nat n))"

lemma digit_char_inj: "a < 10 \<Longrightarrow> b < 10 \<Longrightarrow> digit_char a = digit_char b \<longleftrightarrow> a = b"
  by (simp add: digit_char_def char_of_eq_iff take_bit_nat_eq_self)

lemma show_nat_nonempty: "show_nat n \<noteq> []"
  by (subst show_nat.simps) simp

lemma show_nat_inj: "show_nat a = show_nat b \<longleftrightarrow> a = b"
proof
  show "show_nat a = show_nat b \<Longrightarrow> a = b"
  proof (induction a arbitrary: b rule: show_nat.induct)
    case (1 a)
    show ?case
    proof (cases "a < 10 \<or> b < 10")
      case True
      then show ?thesis
        using 1(2) show_nat_nonempty [of "a div 10"] show_nat_nonempty [of "b div 10"]
        by (auto simp: show_nat.simps [of a] show_nat.simps [of b] digit_char_inj split: if_splits)
    next
      case False
      then have "show_nat (a div 10) @ [digit_char (a mod 10)] = show_nat (b div 10) @ [digit_char (b mod 10)]"
        using 1(2) by (simp add: show_nat.simps [of a] show_nat.simps [of b])
      then have "a div 10 = b div 10" "a mod 10 = b mod 10"
        using 1(1) False by (auto simp: digit_char_inj)
      then show ?thesis by (metis div_mult_mod_eq)
    qed
  qed
qed simp

section \<open>JSON\<close>

text \<open>
  \<open>serde_json::Value\<close>. An object is its key/value list, the first pair of a key being the one
  a lookup sees; a number that is not an integer keeps its text.
\<close>

datatype json =
    JNull
  | JBool bool
  | JInt int
  | JFloat string
  | JStr string
  | JArr "json list"
  | JObj "(string \<times> json) list"

fun jget :: "string \<Rightarrow> json \<Rightarrow> json option" where
  "jget k (JObj kvs) = map_of kvs k"
| "jget _ _ = None"

fun jstr :: "json \<Rightarrow> string option" where
  "jstr (JStr s) = Some s"
| "jstr _ = None"

fun jarr :: "json \<Rightarrow> json list option" where
  "jarr (JArr vs) = Some vs"
| "jarr _ = None"

fun jbool :: "json \<Rightarrow> bool option" where
  "jbool (JBool b) = Some b"
| "jbool _ = None"

definition jget_str :: "string \<Rightarrow> json \<Rightarrow> string option" where
  "jget_str k v = Option.bind (jget k v) jstr"

section \<open>Lists\<close>

text \<open>
  \<open>Iterator::position\<close> and \<open>Iterator::rposition\<close>.
\<close>

fun position :: "('a \<Rightarrow> bool) \<Rightarrow> 'a list \<Rightarrow> nat option" where
  "position P [] = None"
| "position P (x # xs) = (if P x then Some 0 else map_option Suc (position P xs))"

definition remove_nth :: "nat \<Rightarrow> 'a list \<Rightarrow> 'a list" where
  "remove_nth i xs = take i xs @ drop (Suc i) xs"

text \<open>\<open>iter_mut().find(p)\<close> followed by an update of the element found.\<close>

fun update_first :: "('a \<Rightarrow> bool) \<Rightarrow> ('a \<Rightarrow> 'a) \<Rightarrow> 'a list \<Rightarrow> 'a list" where
  "update_first P f [] = []"
| "update_first P f (x # xs) = (if P x then f x # xs else x # update_first P f xs)"

text \<open>Keep the first occurrence of every element, in order.\<close>

fun dedup :: "'a list \<Rightarrow> 'a list" where
  "dedup [] = []"
| "dedup (x # xs) = x # filter (\<lambda>y. y \<noteq> x) (dedup xs)"

lemma position_None_iff: "position P xs = None \<longleftrightarrow> (\<forall>x \<in> set xs. \<not> P x)"
  by (induction xs) auto

lemma position_SomeD: "position P xs = Some i \<Longrightarrow> i < length xs \<and> P (xs ! i)"
  by (induction xs arbitrary: i) (auto split: if_splits)

lemma position_first: "position P xs = Some i \<Longrightarrow> j < i \<Longrightarrow> \<not> P (xs ! j)"
  by (induction xs arbitrary: i j) (auto split: if_splits simp: nth_Cons split: nat.splits)

lemma position_less [dest]: "position P xs = Some i \<Longrightarrow> i < length xs"
  by (auto dest: position_SomeD)

lemma remove_nth_Cons_0 [simp]: "remove_nth 0 (x # xs) = xs"
  by (simp add: remove_nth_def)

lemma remove_nth_Cons_Suc [simp]: "remove_nth (Suc i) (x # xs) = x # remove_nth i xs"
  by (simp add: remove_nth_def)

lemma mset_remove_nth: "i < length xs \<Longrightarrow> add_mset (xs ! i) (mset (remove_nth i xs)) = mset xs"
  by (metis add_mset_add_single mset.simps(2) mset_append remove_nth_def id_take_nth_drop
      union_mset_add_mset_right)

lemma set_remove_nth: "set (remove_nth i xs) \<subseteq> set xs"
  by (auto simp: remove_nth_def dest: in_set_takeD in_set_dropD)

lemma length_remove_nth: "i < length xs \<Longrightarrow> length (remove_nth i xs) = length xs - 1"
  by (simp add: remove_nth_def)

lemma update_first_none: "\<forall>x \<in> set xs. \<not> P x \<Longrightarrow> update_first P f xs = xs"
  by (induction xs) auto

lemma length_update_first [simp]: "length (update_first P f xs) = length xs"
  by (induction xs) auto

lemma map_update_first: "(\<And>x. g (f x) = g x) \<Longrightarrow> map g (update_first P f xs) = map g xs"
  by (induction xs) auto

lemma sorted_le_last: "sorted xs \<Longrightarrow> x \<in> set xs \<Longrightarrow> x \<le> last xs"
  by (induction xs) auto

lemma set_dedup [simp]: "set (dedup xs) = set xs"
  by (induction xs) auto

lemma distinct_dedup [simp]: "distinct (dedup xs)"
  by (induction xs) auto

lemma distinct_map_filter_id: "distinct (map f xs) \<Longrightarrow> distinct (map f (filter P xs))"
  by (induction xs) auto

lemma update_first_distinct:
  "distinct (map key xs) \<Longrightarrow>
   update_first (\<lambda>x. key x = k) f xs = map (\<lambda>x. if key x = k then f x else x) xs"
  by (induction xs) (auto intro!: map_idI [symmetric] simp: image_iff)

lemma find_distinct:
  "distinct (map key xs) \<Longrightarrow> x \<in> set xs \<Longrightarrow> find (\<lambda>y. key y = key x) xs = Some x"
  by (induction xs) auto

lemma find_append: "find P (xs @ ys) = (case find P xs of None \<Rightarrow> find P ys | Some x \<Rightarrow> Some x)"
  by (induction xs) auto

lemma find_SomeD: "find P xs = Some x \<Longrightarrow> x \<in> set xs \<and> P x"
  by (induction xs) (auto split: if_splits)

section \<open>Association lists as hash maps\<close>

text \<open>
  A \<open>HashMap\<close> whose iteration the code uses is an association list with distinct keys;
  \<open>map_of\<close> is its lookup, \<open>AList.update\<close> its \<open>insert\<close>. The iteration order of the code is
  unspecified: it is the order of the list here, and no property depends on it unless it says so.
\<close>

definition adelete :: "'k \<Rightarrow> ('k \<times> 'v) list \<Rightarrow> ('k \<times> 'v) list" where
  "adelete k m = filter (\<lambda>p. fst p \<noteq> k) m"

lemma map_of_adelete [simp]: "map_of (adelete k m) = (map_of m)(k := None)"
  by (induction m) (auto simp: adelete_def)

lemma distinct_adelete [intro]: "distinct (map fst m) \<Longrightarrow> distinct (map fst (adelete k m))"
  by (simp add: adelete_def distinct_map_filter_id)

lemma map_of_filter_key:
  "distinct (map fst m) \<Longrightarrow>
   map_of (filter (\<lambda>(k, v). P k v) m) k =
     (case map_of m k of None \<Rightarrow> None | Some v \<Rightarrow> if P k v then Some v else None)"
  by (induction m) (auto split: option.splits simp: map_of_eq_None_iff image_iff)

text \<open>A \<open>BTreeMap\<close> is an association list sorted by key; \<open>btree_insert\<close> is its \<open>insert\<close>.\<close>

fun btree_insert :: "'k::linorder \<Rightarrow> 'v \<Rightarrow> ('k \<times> 'v) list \<Rightarrow> ('k \<times> 'v) list" where
  "btree_insert k v [] = [(k, v)]"
| "btree_insert k v ((k', v') # m) =
     (if k < k' then (k, v) # (k', v') # m
      else if k = k' then (k, v) # m
      else (k', v') # btree_insert k v m)"

lemma map_of_btree_insert [simp]: "map_of (btree_insert k v m) = (map_of m)(k \<mapsto> v)"
  by (induction m) auto

definition sorted_keys :: "('k::linorder \<times> 'v) list \<Rightarrow> bool" where
  "sorted_keys m \<longleftrightarrow> sorted_wrt (<) (map fst m)"

lemma sorted_keys_Nil [simp]: "sorted_keys []"
  by (simp add: sorted_keys_def)

lemma sorted_keys_Cons [simp]: "sorted_keys (p # m) \<longleftrightarrow> (\<forall>q \<in> set m. fst p < fst q) \<and> sorted_keys m"
  by (auto simp: sorted_keys_def)

lemma sorted_keys_filter [intro]: "sorted_keys m \<Longrightarrow> sorted_keys (filter P m)"
  by (induction m) auto

lemma sorted_keys_drop [intro]: "sorted_keys m \<Longrightarrow> sorted_keys (drop n m)"
  by (simp add: sorted_keys_def drop_map [symmetric] sorted_wrt_drop)

lemma sorted_keys_adelete [intro]: "sorted_keys m \<Longrightarrow> sorted_keys (adelete k m)"
  by (auto simp: adelete_def)

lemma sorted_keys_distinct: "sorted_keys m \<Longrightarrow> distinct (map fst m)"
  by (induction m) auto

lemma btree_insert_members: "set (btree_insert k v m) \<subseteq> insert (k, v) (set m)"
  by (induction m) (auto split: if_splits)

lemma sorted_keys_btree_insert [intro]: "sorted_keys m \<Longrightarrow> sorted_keys (btree_insert k v m)"
proof (induction m)
  case (Cons p m)
  then show ?case
    using btree_insert_members [of k v m] by (cases p) fastforce
qed simp

lemma length_btree_insert: "length (btree_insert k v m) \<le> Suc (length m)"
  by (induction m) auto

lemma length_btree_insert_present:
  assumes "sorted_keys m" and "map_of m k \<noteq> None" shows "length (btree_insert k v m) = length m"
  using assms
proof (induction m)
  case (Cons p m)
  obtain a b where p: "p = (a, b)" by fastforce
  have "\<not> k < a"
    using Cons.prems by (auto simp: p split: if_splits dest!: map_of_SomeD)
  then show ?case
    using Cons by (auto simp: p split: if_splits)
qed simp

lemma btree_insert_front: "\<forall>q \<in> set m. k < fst q \<Longrightarrow> btree_insert k v m = (k, v) # m"
  by (cases m) auto

end
