(* ===== verification/Folder_Defaults.thy ===== *)
theory Folder_Defaults
  imports Prelude
begin

text \<open>
  \<^verbatim>\<open>src/src/session_folders/defaults.rs\<close> and the identity check of
  \<^verbatim>\<open>src/src/review_directory.rs\<close>: the sparse per-field defaults of a sidebar folder. A missing
  field inherits, a null field stops inheritance. A \<open>BTreeMap<DefaultKey, Option<String>>\<close> is a
  partial function over the seven keys. Error texts are the source's; the text serde_json adds after
  \<^verbatim>\<open>invalid directory defaults: \<close> is not modelled.
\<close>

datatype default_key =
    Project
  | Machine
  | RuntimeMachine
  | Provider
  | Preset
  | ReviewDirectory
  | LanguageServers

text \<open>The derived order of the keys, which is the iteration order of the map.\<close>

definition default_keys :: "default_key list" where
  "default_keys =
     [Project, Machine, RuntimeMachine, Provider, Preset, ReviewDirectory, LanguageServers]"

fun key_name :: "default_key \<Rightarrow> string" where
  "key_name Project = ''project''"
| "key_name Machine = ''machine''"
| "key_name RuntimeMachine = ''runtime_machine''"
| "key_name Provider = ''provider''"
| "key_name Preset = ''preset''"
| "key_name ReviewDirectory = ''review_directory''"
| "key_name LanguageServers = ''language_servers''"

fun key_debug :: "default_key \<Rightarrow> string" where
  "key_debug Project = ''Project''"
| "key_debug Machine = ''Machine''"
| "key_debug RuntimeMachine = ''RuntimeMachine''"
| "key_debug Provider = ''Provider''"
| "key_debug Preset = ''Preset''"
| "key_debug ReviewDirectory = ''ReviewDirectory''"
| "key_debug LanguageServers = ''LanguageServers''"

definition key_of_name :: "string \<Rightarrow> default_key option" where
  "key_of_name s = find (\<lambda>k. key_name k = s) default_keys"

type_synonym folder_defaults = "default_key \<Rightarrow> string option option"

definition no_defaults :: folder_defaults where
  "no_defaults = (\<lambda>_. None)"

definition defaults_eq :: "folder_defaults \<Rightarrow> folder_defaults \<Rightarrow> bool" where
  "defaults_eq a b \<longleftrightarrow> list_all (\<lambda>k. a k = b k) default_keys"

text \<open>\<open>str::split("::")\<close>.\<close>

fun split_colons :: "string \<Rightarrow> string \<Rightarrow> string list" where
  "split_colons acc (c # d # cs) =
     (if c = CHR '':'' \<and> d = CHR '':'' then rev acc # split_colons [] cs
      else split_colons (c # acc) (d # cs))"
| "split_colons acc [c] = [rev (c # acc)]"
| "split_colons acc [] = [rev acc]"

definition review_directory_valid :: "string \<Rightarrow> bool" where
  "review_directory_valid value \<longleftrightarrow>
     value \<noteq> [] \<and> length value \<le> 1024 \<and> \<not> list_ex is_control (utf8_chars value)
   \<and> (value = ''project''
      \<or> (let parts = split_colons [] value in
           list_all (\<lambda>p. p \<noteq> []) parts
         \<and> (case parts of
               [a, b] \<Rightarrow> a = ''session''
             | [a, b, c] \<Rightarrow> a = ''workspace''
             | [a, b, c, d] \<Rightarrow> a = ''worktree''
             | _ \<Rightarrow> False)))"

text \<open>\<open>split_once('/')\<close> with both halves required to be non-empty.\<close>

definition is_qualified_preset :: "string \<Rightarrow> bool" where
  "is_qualified_preset value \<longleftrightarrow>
     (case position (\<lambda>c. c = CHR ''/'') value of
        None \<Rightarrow> False
      | Some i \<Rightarrow> take i value \<noteq> [] \<and> drop (Suc i) value \<noteq> [])"

definition check_default :: "default_key \<Rightarrow> string option \<Rightarrow> string + unit" where
  "check_default key v =
     (case v of
        None \<Rightarrow> Inr ()
      | Some value \<Rightarrow>
          if key = ReviewDirectory then
            (if \<not> review_directory_valid value then Inl ''invalid Review directory identity''
             else Inr ())
          else if key = LanguageServers then
            (if value \<noteq> ''on'' \<and> value \<noteq> ''off''
             then Inl ''project language servers must be on or off'' else Inr ())
          else if (key = Machine \<or> key = RuntimeMachine) \<and> value = ''local'' then
            Inl ''directory defaults require an enrolled Machine id, not the legacy local sentinel''
          else if value = [] \<or> 256 < length value \<or> list_ex is_control (utf8_chars value) then
            Inl (''invalid directory default '' @ key_debug key)
          else if key = Preset \<and> \<not> is_qualified_preset value then
            Inl ''preset must be provider/preset''
          else Inr ())"

fun check_defaults :: "folder_defaults \<Rightarrow> default_key list \<Rightarrow> string + unit" where
  "check_defaults d [] = Inr ()"
| "check_defaults d (k # ks) =
     (case d k of
        None \<Rightarrow> check_defaults d ks
      | Some v \<Rightarrow> rbind (check_default k v) (\<lambda>_. check_defaults d ks))"

text \<open>\<open>serde_json::from_value\<close> into the map: a closed object of nullable strings.\<close>

fun decode_default_fields :: "(string \<times> json) list \<Rightarrow> folder_defaults option" where
  "decode_default_fields [] = Some no_defaults"
| "decode_default_fields ((name, v) # rest) =
     (case (key_of_name name, decode_default_fields rest) of
        (Some k, Some d) \<Rightarrow>
          (case v of
             JNull \<Rightarrow> Some (d(k := Some None))
           | JStr s \<Rightarrow> Some (d(k := Some (Some s)))
           | _ \<Rightarrow> None)
      | _ \<Rightarrow> None)"

definition parse_defaults :: "json \<Rightarrow> string + folder_defaults" where
  "parse_defaults v =
     (case v of
        JObj kvs \<Rightarrow>
          (case decode_default_fields kvs of
             None \<Rightarrow> Inl ''invalid directory defaults: ''
           | Some d \<Rightarrow> rbind (check_defaults d default_keys) (\<lambda>_. Inr d))
      | _ \<Rightarrow> Inl ''invalid directory defaults: '')"

definition parse_create :: "json \<Rightarrow> string + folder_defaults" where
  "parse_create args =
     (case jget ''defaults'' args of
        None \<Rightarrow> Inr no_defaults
      | Some v \<Rightarrow> parse_defaults v)"

text \<open>
  Reading stored defaults drops the fields a newer release introduced, then validates the rest.
\<close>

definition parse_stored :: "json \<Rightarrow> string + folder_defaults" where
  "parse_stored v =
     (case v of
        JObj kvs \<Rightarrow> parse_defaults (JObj (filter (\<lambda>(k, _). key_of_name k \<noteq> None) kvs))
      | _ \<Rightarrow> Inl ''invalid stored directory defaults'')"

text \<open>
  The fields written back: unknown previous fields survive, known fields are replaced. The previous
  text is given parsed; parsing and printing JSON is serde_json's.
\<close>

definition defaults_json :: "folder_defaults \<Rightarrow> (string \<times> json) list" where
  "defaults_json d = concat (map (\<lambda>k. case d k of
       None \<Rightarrow> []
     | Some None \<Rightarrow> [(key_name k, JNull)]
     | Some (Some s) \<Rightarrow> [(key_name k, JStr s)]) default_keys)"

definition stored_fields :: "folder_defaults \<Rightarrow> (string \<times> json) list \<Rightarrow> (string \<times> json) list" where
  "stored_fields d previous =
     filter (\<lambda>(k, _). key_of_name k = None) previous @ defaults_json d"

text \<open>The vector of keys of an \<open>inherit\<close> argument.\<close>

fun parse_keys :: "json list \<Rightarrow> default_key list option" where
  "parse_keys [] = Some []"
| "parse_keys (v # vs) =
     (case Option.bind (jstr v) key_of_name of
        None \<Rightarrow> None
      | Some k \<Rightarrow> map_option ((#) k) (parse_keys vs))"

section \<open>Lemmas\<close>

lemma in_default_keys [simp]: "k \<in> set default_keys"
  by (cases k) (simp_all add: default_keys_def)

lemma distinct_default_keys [simp]: "distinct default_keys"
  by (simp add: default_keys_def)

text \<open>The keys are enumerable, so functions over them, and with them whole folders, are compared
  by evaluation.\<close>

instantiation default_key :: enum
begin

definition enum_default_key :: "default_key list" where
  "enum_default_key = default_keys"

definition enum_all_default_key :: "(default_key \<Rightarrow> bool) \<Rightarrow> bool" where
  "enum_all_default_key P = list_all P default_keys"

definition enum_ex_default_key :: "(default_key \<Rightarrow> bool) \<Rightarrow> bool" where
  "enum_ex_default_key P = list_ex P default_keys"

instance
  by standard
    (auto simp: enum_default_key_def enum_all_default_key_def enum_ex_default_key_def
      list_all_iff list_ex_iff)

end

lemma defaults_eq_iff: "defaults_eq a b \<longleftrightarrow> a = b"
  by (auto simp: defaults_eq_def list_all_iff)

lemma key_of_name_name [simp]: "key_of_name (key_name k) = Some k"
  by (cases k) (simp_all add: key_of_name_def default_keys_def)

lemma key_of_nameD: "key_of_name s = Some k \<Longrightarrow> s = key_name k"
  by (auto simp: key_of_name_def dest: find_SomeD)

lemma check_defaults_ok:
  "check_defaults d ks = Inr () \<longleftrightarrow>
     (\<forall>k \<in> set ks. \<forall>v. d k = Some v \<longrightarrow> check_default k v = Inr ())"
  by (induction ks) (auto split: option.splits)

lemma parse_defaults_valid:
  assumes "parse_defaults v = Inr d" and "d k = Some w"
  shows "check_default k w = Inr ()"
  using assms by (auto simp: parse_defaults_def check_defaults_ok split: json.splits option.splits)

lemma decode_defaults_json_aux:
  "distinct ks \<Longrightarrow>
   decode_default_fields (concat (map (\<lambda>k. case d k of
       None \<Rightarrow> []
     | Some None \<Rightarrow> [(key_name k, JNull)]
     | Some (Some s) \<Rightarrow> [(key_name k, JStr s)]) ks)) =
   Some (\<lambda>k. if k \<in> set ks then d k else None)"
  by (induction ks) (auto simp: no_defaults_def fun_eq_iff split: option.splits)

lemma decode_defaults_json: "decode_default_fields (defaults_json d) = Some d"
  by (simp add: defaults_json_def decode_defaults_json_aux)

lemma defaults_json_known: "(s, v) \<in> set (defaults_json d) \<Longrightarrow> key_of_name s \<noteq> None"
  by (auto simp: defaults_json_def split: option.splits)

text \<open>What is written to storage reads back as the same defaults, whatever unknown fields a
  newer release had left there, and those unknown fields are all still present, unchanged.\<close>

theorem stored_defaults_roundtrip:
  assumes "check_defaults d default_keys = Inr ()"
  shows "parse_stored (JObj (stored_fields d previous)) = Inr d
       \<and> filter (\<lambda>(k, _). key_of_name k = None) (stored_fields d previous)
         = filter (\<lambda>(k, _). key_of_name k = None) previous"
proof -
  have none: "filter (\<lambda>(k, _). key_of_name k \<noteq> None) (filter (\<lambda>(k, _). key_of_name k = None) previous) = []"
    by (auto simp: filter_empty_conv)
  have all: "filter (\<lambda>(k, _). key_of_name k \<noteq> None) (defaults_json d) = defaults_json d"
    by (rule filter_True) (auto dest: defaults_json_known)
  have known: "filter (\<lambda>(k, _). key_of_name k \<noteq> None) (stored_fields d previous) = defaults_json d"
    unfolding stored_fields_def filter_append none all by simp
  have unknown: "filter (\<lambda>(k, _). key_of_name k = None) (defaults_json d) = []"
    by (auto simp: filter_empty_conv dest: defaults_json_known)
  have "parse_stored (JObj (stored_fields d previous)) = Inr d"
    using assms by (simp only: parse_stored_def json.case known parse_defaults_def
        decode_defaults_json option.case rbind.simps)
  moreover have "filter (\<lambda>(k, _). key_of_name k = None) (stored_fields d previous)
      = filter (\<lambda>(k, _). key_of_name k = None) previous"
    unfolding stored_fields_def filter_append unknown filter_filter by simp
  ultimately show ?thesis by blast
qed

theorem stored_defaults_roundtrip_witness:
  "parse_stored (JObj (stored_fields
       (no_defaults(Machine := Some (Some ''m1''), Preset := Some None)) [(''later'', JInt 3)]))
     = Inr (no_defaults(Machine := Some (Some ''m1''), Preset := Some None))
   \<and> filter (\<lambda>(k, _). key_of_name k = None) (stored_fields
       (no_defaults(Machine := Some (Some ''m1''), Preset := Some None)) [(''later'', JInt 3)])
     = filter (\<lambda>(k, _). key_of_name k = None) [(''later'', JInt 3)]"
  by (rule stored_defaults_roundtrip) code_simp

end
