(* ===== verification/Session_Order.thy ===== *)
theory Session_Order
  imports Prelude
begin

text \<open>
  The reorderings of the code: \<open>merge_session_order\<close> of \<^verbatim>\<open>src/src/model.rs\<close>, used for the session
  list, its sync mutation and folder siblings, and \<open>sort_by_id_order\<close> of \<^verbatim>\<open>src/src/core.rs\<close>, used for
  queues, drafts and review tabs.
\<close>

section \<open>merge_session_order\<close>

text \<open>
  Every slot of a named id takes the next named id; \<open>None\<close> is the panic of the code's \<open>expect\<close>
  when the named ids run out, which happens only when the existing order repeats an id.
\<close>

fun fill_named :: "string list \<Rightarrow> string list \<Rightarrow> string list \<Rightarrow> string list option" where
  "fill_named named [] next_ids = Some []"
| "fill_named named (x # xs) next_ids =
     (if x \<in> set named
      then (case next_ids of
              [] \<Rightarrow> None
            | n # ns \<Rightarrow> map_option ((#) n) (fill_named named xs ns))
      else map_option ((#) x) (fill_named named xs next_ids))"

definition merge_session_order :: "string list \<Rightarrow> string list \<Rightarrow> string list option" where
  "merge_session_order existing submitted =
     (let submitted = dedup submitted;
          named = filter (\<lambda>id. id \<in> set existing) submitted
      in map_option (\<lambda>merged. merged @ filter (\<lambda>id. id \<notin> set existing) submitted)
           (fill_named named existing named))"

section \<open>sort_by_id_order\<close>

text \<open>
  The sort key of an item is the position of its id in \<open>order\<close>, \<open>usize::MAX\<close> when absent;
  \<open>sort_by_key\<close> is stable, as \<^const>\<open>sort_key\<close> is.
\<close>

definition order_rank :: "string list \<Rightarrow> string \<Rightarrow> nat" where
  "order_rank order i = (case position (\<lambda>x. x = i) order of None \<Rightarrow> usize_max | Some k \<Rightarrow> k)"

definition sort_by_id_order :: "('a \<Rightarrow> string) \<Rightarrow> string list \<Rightarrow> 'a list \<Rightarrow> 'a list" where
  "sort_by_id_order id_of order items = sort_key (\<lambda>item. order_rank order (id_of item)) items"

section \<open>Lemmas\<close>

lemma fill_named_spec:
  assumes "length ns = length (filter (\<lambda>x. x \<in> set named) xs)" and "set ns \<subseteq> set named"
  shows "\<exists>ys. fill_named named xs ns = Some ys \<and> length ys = length xs
       \<and> filter (\<lambda>x. x \<in> set named) ys = ns
       \<and> filter (\<lambda>x. x \<notin> set named) ys = filter (\<lambda>x. x \<notin> set named) xs
       \<and> (\<forall>i < length xs. xs ! i \<notin> set named \<longrightarrow> ys ! i = xs ! i)"
  using assms
proof (induction xs arbitrary: ns)
  case Nil
  then show ?case by simp
next
  case (Cons x xs)
  show ?case
  proof (cases "x \<in> set named")
    case True
    with Cons.prems obtain n ms where "ns = n # ms" "n \<in> set named" "set ms \<subseteq> set named"
      "length ms = length (filter (\<lambda>x. x \<in> set named) xs)"
      by (cases ns) auto
    with True Cons.IH [of ms] show ?thesis by (auto simp: nth_Cons split: nat.splits)
  next
    case False
    with Cons.prems Cons.IH [of ns] show ?thesis by (auto simp: nth_Cons split: nat.splits)
  qed
qed

lemma mset_filter_split: "mset (filter P xs) + mset (filter (\<lambda>x. \<not> P x) xs) = mset xs"
  by (induction xs) auto

lemma length_named:
  fixes submitted :: "string list"
  assumes "distinct existing"
  defines "named \<equiv> filter (\<lambda>x. x \<in> set existing) (dedup submitted)"
  shows "length named = length (filter (\<lambda>x. x \<in> set named) existing)"
proof -
  have "set (filter (\<lambda>x. x \<in> set named) existing) = set named"
    by (auto simp: named_def)
  with assms show ?thesis
    by (metis distinct_card distinct_dedup distinct_filter named_def)
qed

lemma merge_session_order_spec:
  fixes submitted :: "string list"
  assumes "distinct existing"
  defines "named \<equiv> filter (\<lambda>x. x \<in> set existing) (dedup submitted)"
  defines "fresh \<equiv> filter (\<lambda>x. x \<notin> set existing) (dedup submitted)"
  obtains ys where "merge_session_order existing submitted = Some (ys @ fresh)"
    "length ys = length existing" "filter (\<lambda>x. x \<in> set named) ys = named"
    "\<And>i. i < length existing \<Longrightarrow> existing ! i \<notin> set submitted \<Longrightarrow> ys ! i = existing ! i"
    "mset ys = mset existing"
proof -
  have len: "length named = length (filter (\<lambda>x. x \<in> set named) existing)"
    unfolding named_def by (rule length_named [OF assms(1)])
  obtain ys where ys: "fill_named named existing named = Some ys" "length ys = length existing"
    "filter (\<lambda>x. x \<in> set named) ys = named"
    "filter (\<lambda>x. x \<notin> set named) ys = filter (\<lambda>x. x \<notin> set named) existing"
    "\<forall>i < length existing. existing ! i \<notin> set named \<longrightarrow> ys ! i = existing ! i"
    using fill_named_spec [OF len] by blast
  have "mset (filter (\<lambda>x. x \<in> set named) existing) = mset named"
    using assms(1) by (intro set_eq_iff_mset_eq_distinct [THEN iffD1]) (auto simp: named_def)
  with ys have "mset ys = mset existing"
    by (metis mset_filter_split)
  moreover have "merge_session_order existing submitted = Some (ys @ fresh)"
    using ys(1) by (simp add: merge_session_order_def named_def fresh_def Let_def)
  ultimately show thesis
    using ys that by (auto simp: named_def)
qed

text \<open>Reordering the session list never loses, duplicates or invents an id: every existing id
  survives exactly once, an id the client did not name keeps its slot, the named ids appear in the
  submitted order, and unknown ids go to the end in submitted order without repetition.\<close>

theorem merge_session_order_preserves:
  assumes "distinct existing"
  shows "\<exists>ys. merge_session_order existing submitted
            = Some (ys @ filter (\<lambda>x. x \<notin> set existing) (dedup submitted))
         \<and> mset ys = mset existing
         \<and> (\<forall>i < length existing. existing ! i \<notin> set submitted \<longrightarrow> ys ! i = existing ! i)
         \<and> filter (\<lambda>x. x \<in> set submitted) ys
           = filter (\<lambda>x. x \<in> set existing) (dedup submitted)"
proof -
  obtain ys where ys: "merge_session_order existing submitted
            = Some (ys @ filter (\<lambda>x. x \<notin> set existing) (dedup submitted))"
    "filter (\<lambda>x. x \<in> set (filter (\<lambda>x. x \<in> set existing) (dedup submitted))) ys
       = filter (\<lambda>x. x \<in> set existing) (dedup submitted)"
    "\<And>i. i < length existing \<Longrightarrow> existing ! i \<notin> set submitted \<Longrightarrow> ys ! i = existing ! i"
    "mset ys = mset existing"
    using merge_session_order_spec [OF assms] by blast
  have "filter (\<lambda>x. x \<in> set submitted) ys
      = filter (\<lambda>x. x \<in> set (filter (\<lambda>x. x \<in> set existing) (dedup submitted))) ys"
    using mset_eq_setD [OF ys(4)] by (intro filter_cong) auto
  with ys show ?thesis by auto
qed

theorem merge_session_order_preserves_witness:
  "merge_session_order [''a'', ''b'', ''c''] [''c'', ''x'', ''a'', ''c'']
     = Some [''c'', ''b'', ''a'', ''x''] \<and>
   (\<exists>ys. Some [''c'', ''b'', ''a'', ''x''] = Some (ys @ [''x'']) \<and> mset ys = mset [''a'', ''b'', ''c''])"
proof -
  have run: "merge_session_order [''a'', ''b'', ''c''] [''c'', ''x'', ''a'', ''c'']
      = Some [''c'', ''b'', ''a'', ''x'']"
    by (simp add: merge_session_order_def Let_def)
  have "distinct [''a'', ''b'', ''c'']" by simp
  from merge_session_order_preserves [OF this, of "[''c'', ''x'', ''a'', ''c'']"] run
  show ?thesis by simp
qed

lemma mset_sort_by_id_order [simp]: "mset (sort_by_id_order id_of order items) = mset items"
  by (simp add: sort_by_id_order_def)

lemma set_sort_by_id_order [simp]: "set (sort_by_id_order id_of order items) = set items"
  by (simp add: sort_by_id_order_def)

lemma length_sort_by_id_order [simp]: "length (sort_by_id_order id_of order items) = length items"
  by (simp add: sort_by_id_order_def)

end
