(* ===== verification/Session_Folders.thy ===== *)
theory Session_Folders
  imports Folder_Defaults Session_Order
begin

text \<open>
  \<^verbatim>\<open>src/src/session_folders.rs\<close>: the sidebar's folder tree. A folder belongs to one owner, nests
  through its parent id, is ordered by position among its siblings and may bind one project label.
  \<open>placement\<close> holds the explicit moves of sessions. A mutation returns the new tree or an error
  text; every error of the code is raised before its first write, so an error carries no state.
\<close>

section \<open>Data\<close>

definition FOLDER_NAME_MAX_CHARS :: nat where "FOLDER_NAME_MAX_CHARS = 80"
definition FOLDER_KEY_MAX_BYTES :: nat where "FOLDER_KEY_MAX_BYTES = 200"
definition FOLDER_CAP :: nat where "FOLDER_CAP = 512"
definition TOP_LEVEL :: string where "TOP_LEVEL = []"

type_synonym folder_owner = "string option"

record session_folder =
  f_id :: string
  f_owner :: folder_owner
  f_name :: string
  f_parent :: "string option"
  f_position :: int
  f_project :: "string option"
  f_defaults :: folder_defaults
  f_trashed :: "int option"

record folder_actor =
  user_id :: folder_owner
  sees_all :: bool

definition local_actor :: folder_actor where
  "local_actor = \<lparr>user_id = None, sees_all = True\<rparr>"

record folder_effects =
  replaced_owner :: "folder_owner option"
  eff_placements :: "(string \<times> string option) list"

text \<open>
  The observation cell is an \<open>Arc\<close> compared by identity; a fresh one is a number not used before.
\<close>

record session_folders =
  folders :: "session_folder list"
  placement :: "(string \<times> string) list"
  observation :: nat

definition empty_folders :: session_folders where
  "empty_folders = \<lparr>folders = [], placement = [], observation = 0\<rparr>"

definition observe :: "session_folders \<Rightarrow> nat" where
  "observe t = observation t"

definition observation_current :: "nat \<Rightarrow> session_folders \<Rightarrow> bool" where
  "observation_current w t \<longleftrightarrow> w = observation t"

definition changed :: "session_folders \<Rightarrow> session_folders" where
  "changed t = t\<lparr>observation := Suc (observation t)\<rparr>"

section \<open>Argument parsing\<close>

definition valid_key :: "string \<Rightarrow> bool" where
  "valid_key value \<longleftrightarrow>
     value \<noteq> [] \<and> length value \<le> FOLDER_KEY_MAX_BYTES
   \<and> list_all (\<lambda>c. is_ascii_alnum c \<or> c \<in> set ''-_.:'') value"

definition key_arg :: "json \<Rightarrow> string \<Rightarrow> string + string" where
  "key_arg args key =
     (case jget_str key args of
        None \<Rightarrow> Inl (''missing '' @ key)
      | Some value \<Rightarrow>
          if \<not> valid_key value then Inl (''invalid '' @ key) else Inr value)"

definition optional_key_arg :: "json \<Rightarrow> string \<Rightarrow> string + string option" where
  "optional_key_arg args key =
     (case jget key args of
        None \<Rightarrow> Inr None
      | Some JNull \<Rightarrow> Inr None
      | Some (JStr value) \<Rightarrow>
          if valid_key value then Inr (Some value) else Inl (''invalid '' @ key)
      | Some _ \<Rightarrow> Inl (''invalid '' @ key))"

definition name_arg :: "json \<Rightarrow> string + string" where
  "name_arg args =
     (let name = str_trim (case jget_str ''name'' args of None \<Rightarrow> [] | Some s \<Rightarrow> s) in
      if name = [] then Inl ''folder name cannot be empty''
      else if FOLDER_NAME_MAX_CHARS < char_count name then Inl ''folder name is too long''
      else if list_ex is_control (utf8_chars name)
      then Inl ''folder name contains control characters''
      else Inr name)"

definition project_arg :: "json \<Rightarrow> string + string option" where
  "project_arg args =
     (case jget ''project'' args of
        None \<Rightarrow> Inr None
      | Some JNull \<Rightarrow> Inr None
      | Some (JStr v) \<Rightarrow>
          (let value = str_trim v in
           if value = [] then Inr None
           else if FOLDER_KEY_MAX_BYTES < length value \<or> list_ex is_control (utf8_chars value)
           then Inl ''invalid project''
           else Inr (Some value))
      | Some _ \<Rightarrow> Inl ''invalid project'')"

section \<open>Lookups\<close>

definition find_folder :: "session_folder list \<Rightarrow> string \<Rightarrow> session_folder option" where
  "find_folder fs fid = find (\<lambda>f. f_id f = fid) fs"

definition can_touch :: "folder_actor \<Rightarrow> session_folder \<Rightarrow> bool" where
  "can_touch actor f \<longleftrightarrow> sees_all actor \<or> f_owner f = user_id actor"

definition touchable ::
    "session_folder list \<Rightarrow> folder_actor \<Rightarrow> string \<Rightarrow> string + session_folder" where
  "touchable fs actor fid =
     (case find_folder fs fid of
        None \<Rightarrow> Inl ''unknown folder''
      | Some f \<Rightarrow>
          if \<not> can_touch actor f then Inl ''not allowed to change this folder'' else Inr f)"

definition quoted :: "string \<Rightarrow> string" where
  "quoted s = CHR 0x22 # s @ [CHR 0x22]"

definition live_touchable ::
    "session_folder list \<Rightarrow> folder_actor \<Rightarrow> string \<Rightarrow> string + session_folder" where
  "live_touchable fs actor fid =
     rbind (touchable fs actor fid) (\<lambda>f.
       if f_trashed f \<noteq> None then Inl (quoted (f_name f) @ '' is in Trash; restore it first'')
       else Inr f)"

definition resolve_parent ::
    "session_folder list \<Rightarrow> folder_actor \<Rightarrow> string option \<Rightarrow> string + string option" where
  "resolve_parent fs actor parent =
     (case parent of
        None \<Rightarrow> Inr None
      | Some fid \<Rightarrow>
          rbind (map_err (\<lambda>_. ''unknown parent folder'') (live_touchable fs actor fid))
            (\<lambda>_. Inr (Some fid)))"

definition is_trashed :: "session_folder list \<Rightarrow> string \<Rightarrow> bool" where
  "is_trashed fs fid = (case find_folder fs fid of None \<Rightarrow> False | Some f \<Rightarrow> f_trashed f \<noteq> None)"

definition folder_parent :: "session_folder list \<Rightarrow> string \<Rightarrow> string option" where
  "folder_parent fs fid = Option.bind (find_folder fs fid) f_parent"

text \<open>The bounded walk of \<open>is_descendant\<close>: one more step than there are folders.\<close>

fun is_descendant_walk ::
    "session_folder list \<Rightarrow> nat \<Rightarrow> string option \<Rightarrow> string \<Rightarrow> bool" where
  "is_descendant_walk fs 0 cursor ancestor = False"
| "is_descendant_walk fs (Suc n) None ancestor = False"
| "is_descendant_walk fs (Suc n) (Some fid) ancestor =
     (fid = ancestor \<or> is_descendant_walk fs n (folder_parent fs fid) ancestor)"

definition is_descendant :: "session_folder list \<Rightarrow> string option \<Rightarrow> string \<Rightarrow> bool" where
  "is_descendant fs candidate ancestor =
     is_descendant_walk fs (Suc (length fs)) candidate ancestor"

fun nearest_live_walk :: "session_folder list \<Rightarrow> nat \<Rightarrow> string option \<Rightarrow> string option" where
  "nearest_live_walk fs 0 cursor = None"
| "nearest_live_walk fs (Suc n) None = None"
| "nearest_live_walk fs (Suc n) (Some fid) =
     (case find_folder fs fid of
        None \<Rightarrow> None
      | Some f \<Rightarrow>
          if f_trashed f = None then Some (f_id f) else nearest_live_walk fs n (f_parent f))"

definition nearest_live :: "session_folder list \<Rightarrow> string option \<Rightarrow> string option" where
  "nearest_live fs fid = nearest_live_walk fs (Suc (length fs)) fid"

definition next_position ::
    "session_folder list \<Rightarrow> folder_owner \<Rightarrow> string option \<Rightarrow> int" where
  "next_position fs owner parent =
     (let siblings = filter (\<lambda>f. f_owner f = owner \<and> f_parent f = parent) fs;
          ends = map (\<lambda>f. i64_add (f_position f) 1) siblings
      in if ends = [] then 0 else fold max (tl ends) (hd ends))"

definition project_taken ::
    "session_folder list \<Rightarrow> folder_owner \<Rightarrow> string \<Rightarrow> string \<Rightarrow> bool" where
  "project_taken fs owner project except =
     list_ex (\<lambda>f. f_id f \<noteq> except \<and> f_trashed f = None \<and> f_owner f = owner
                \<and> f_project f = Some project) fs"

definition folders_of :: "session_folder list \<Rightarrow> folder_owner \<Rightarrow> session_folder list" where
  "folders_of fs owner = filter (\<lambda>f. f_owner f = owner) fs"

definition position_sorted :: "session_folder list \<Rightarrow> session_folder list" where
  "position_sorted fs = sort_key (\<lambda>f. (f_position f, f_id f)) fs"

definition placement_of :: "session_folders \<Rightarrow> string \<Rightarrow> string option" where
  "placement_of t session = map_of (placement t) session"

definition visible_to :: "folder_actor \<Rightarrow> session_folder \<Rightarrow> bool" where
  "visible_to actor f \<longleftrightarrow> sees_all actor \<or> f_owner f = None \<or> f_owner f = user_id actor"

definition bound_folder ::
    "session_folder list \<Rightarrow> folder_actor \<Rightarrow> string option \<Rightarrow> session_folder option" where
  "bound_folder fs actor project =
     find (\<lambda>f. visible_to actor f \<and> project \<noteq> None \<and> f_trashed f = None \<and> f_project f = project) fs"

definition effective_folder ::
    "session_folders \<Rightarrow> string \<Rightarrow> folder_actor \<Rightarrow> string option \<Rightarrow> string + string option option" where
  "effective_folder t session actor project =
     (let by_project =
            (case bound_folder (folders t) actor project of
               None \<Rightarrow> Inr None
             | Some f \<Rightarrow>
                 rbind (touchable (folders t) actor (f_id f)) (\<lambda>_. Inr (Some (Some (f_id f)))))
      in case placement_of t session of
           None \<Rightarrow> by_project
         | Some placed \<Rightarrow>
             if placed = TOP_LEVEL then Inr (Some None)
             else (case find (\<lambda>f. visible_to actor f \<and> f_id f = placed) (folders t) of
                     None \<Rightarrow> by_project
                   | Some f \<Rightarrow>
                       rbind (touchable (folders t) actor (f_id f))
                         (\<lambda>_. Inr (Some (Some placed)))))"

definition display_folder ::
    "session_folders \<Rightarrow> folder_actor \<Rightarrow> string \<Rightarrow> string option \<Rightarrow> string option" where
  "display_folder t actor session project =
     (let by_project = map_option f_id (bound_folder (folders t) actor project)
      in case placement_of t session of
           None \<Rightarrow> by_project
         | Some placed \<Rightarrow>
             if placed = TOP_LEVEL then None
             else if list_ex (\<lambda>f. visible_to actor f \<and> f_id f = placed) (folders t)
             then Some placed
             else by_project)"

section \<open>Subtrees\<close>

text \<open>
  One round of \<open>subtree\<close> appends the children of the entry at the index; the loop stops at the end
  of the list, or once the list is longer than the folder set (a corrupt tree with a cycle).
\<close>

definition push_children :: "session_folder list \<Rightarrow> string \<Rightarrow> string list \<Rightarrow> string list" where
  "push_children fs parent out =
     fold (\<lambda>f out. if f_parent f = Some parent \<and> f_id f \<notin> set out then out @ [f_id f] else out) fs out"

function subtree_loop :: "session_folder list \<Rightarrow> string list \<Rightarrow> nat \<Rightarrow> string list" where
  "subtree_loop fs out index =
     (if index < length out \<and> length out \<le> length fs
      then subtree_loop fs (push_children fs (out ! index) out) (Suc index)
      else out)"
  by pat_completeness auto
termination
  by (relation "measure (\<lambda>(fs, out, index). length fs - index)") auto

declare subtree_loop.simps [simp del]

definition subtree :: "session_folder list \<Rightarrow> string \<Rightarrow> string list" where
  "subtree fs fid = subtree_loop fs [fid] 0"

fun all_touchable ::
    "session_folder list \<Rightarrow> folder_actor \<Rightarrow> string list \<Rightarrow> string + unit" where
  "all_touchable fs actor [] = Inr ()"
| "all_touchable fs actor (x # xs) =
     rbind (touchable fs actor x) (\<lambda>_. all_touchable fs actor xs)"

definition owned_subtree ::
    "session_folder list \<Rightarrow> folder_actor \<Rightarrow> string \<Rightarrow> string + string list" where
  "owned_subtree fs actor fid =
     (let below = subtree fs fid in
      rbind (map_err (\<lambda>_. ''this folder contains a folder you cannot change'')
               (all_touchable fs actor below))
        (\<lambda>_. Inr below))"

definition owners_of :: "session_folder list \<Rightarrow> string list \<Rightarrow> folder_owner list" where
  "owners_of fs ids =
     fold (\<lambda>f owners. if f_owner f \<in> set owners then owners else owners @ [f_owner f])
       (filter (\<lambda>f. f_id f \<in> set ids) fs) []"

text \<open>Append the elements not yet in the accumulator.\<close>

definition push_new :: "string list \<Rightarrow> string list \<Rightarrow> string list" where
  "push_new xs acc = fold (\<lambda>x acc. if x \<in> set acc then acc else acc @ [x]) xs acc"

section \<open>Trash, restore and purge\<close>

fun check_trashed ::
    "session_folder list \<Rightarrow> folder_actor \<Rightarrow> string list \<Rightarrow> string + unit" where
  "check_trashed fs actor [] = Inr ()"
| "check_trashed fs actor (x # xs) =
     rbind (touchable fs actor x) (\<lambda>f.
       if f_trashed f = None then Inl ''Only items in Trash can be deleted permanently''
       else rbind (owned_subtree fs actor x) (\<lambda>_. check_trashed fs actor xs))"

fun trash_collect ::
    "session_folder list \<Rightarrow> folder_actor \<Rightarrow> string list \<Rightarrow> string list \<Rightarrow> string + string list" where
  "trash_collect fs actor [] acc = Inr acc"
| "trash_collect fs actor (x # xs) acc =
     rbind (touchable fs actor x) (\<lambda>f.
       if f_trashed f \<noteq> None then Inl (quoted (f_name f) @ '' is already in Trash'')
       else rbind (owned_subtree fs actor x) (\<lambda>below.
         trash_collect fs actor xs
           (push_new (filter (\<lambda>b. \<not> is_trashed fs b) below) acc)))"

definition stamp_trashed ::
    "string list \<Rightarrow> int option \<Rightarrow> session_folder list \<Rightarrow> session_folder list" where
  "stamp_trashed ids v fs =
     map (\<lambda>f. if f_id f \<in> set ids then f\<lparr>f_trashed := v\<rparr> else f) fs"

definition trash ::
    "session_folders \<Rightarrow> folder_actor \<Rightarrow> string list \<Rightarrow> int
     \<Rightarrow> string + ((string list \<times> folder_owner list) \<times> session_folders)" where
  "trash t actor ids now_ms =
     rbind (trash_collect (folders t) actor ids []) (\<lambda>trashed.
       let fs = stamp_trashed trashed (Some now_ms) (folders t)
       in Inr ((trashed, owners_of fs trashed), (changed t)\<lparr>folders := fs\<rparr>))"

text \<open>The ids restored with the ids named, in order.\<close>

fun restore_collect ::
    "session_folder list \<Rightarrow> folder_actor \<Rightarrow> string list \<Rightarrow> string list \<Rightarrow> string + string list" where
  "restore_collect fs actor [] acc = Inr acc"
| "restore_collect fs actor (x # xs) acc =
     rbind (touchable fs actor x) (\<lambda>f.
       if f_trashed f = None then Inl (quoted (f_name f) @ '' is not in Trash'')
       else rbind (owned_subtree fs actor x) (\<lambda>below.
         restore_collect fs actor xs
           (push_new (filter (\<lambda>b. is_trashed fs b) below) acc)))"

definition parent_stays :: "session_folder list \<Rightarrow> string list \<Rightarrow> string option \<Rightarrow> bool" where
  "parent_stays fs restored parent =
     (case parent of
        None \<Rightarrow> False
      | Some p \<Rightarrow> find_folder fs p = None \<or> (is_trashed fs p \<and> p \<notin> set restored))"

definition reparent_root ::
    "string list \<Rightarrow> string \<Rightarrow> session_folder list \<times> string list
     \<Rightarrow> session_folder list \<times> string list" where
  "reparent_root restored fid s =
     (let (fs, notes) = s; parent = folder_parent fs fid in
      if \<not> parent_stays fs restored parent then s
      else
        (let target = nearest_live fs parent;
             owner = Option.bind (find_folder fs fid) f_owner;
             pos = next_position fs owner target;
             name = (case Option.bind target (find_folder fs) of
                       None \<Rightarrow> ''Global'' | Some f \<Rightarrow> f_name f)
         in case find_folder fs fid of
              None \<Rightarrow> s
            | Some f \<Rightarrow>
                (update_first (\<lambda>f. f_id f = fid) (\<lambda>f. f\<lparr>f_parent := target, f_position := pos\<rparr>) fs,
                 notes @ [quoted (f_name f) @ '' was restored to '' @ name
                          @ ''; its original parent is not available.''])))"

type_synonym taken_set = "(folder_owner \<times> string) list"

definition live_projects :: "session_folder list \<Rightarrow> taken_set" where
  "live_projects fs =
     map (\<lambda>f. (f_owner f, the (f_project f)))
       (filter (\<lambda>f. f_trashed f = None \<and> f_project f \<noteq> None) fs)"

definition claim_project ::
    "string \<Rightarrow> (session_folder list \<times> taken_set) \<times> string list
     \<Rightarrow> (session_folder list \<times> taken_set) \<times> string list" where
  "claim_project fid s =
     (let ((fs, taken), notes) = s in
      case find_folder fs fid of
        None \<Rightarrow> s
      | Some f \<Rightarrow>
          (case f_project f of
             None \<Rightarrow> s
           | Some project \<Rightarrow>
               if (f_owner f, project) \<notin> set taken
               then ((fs, (f_owner f, project) # taken), notes)
               else ((update_first (\<lambda>f. f_id f = fid) (\<lambda>f. f\<lparr>f_project := None\<rparr>) fs, taken),
                     notes @ [quoted (f_name f) @ '' no longer auto-files '' @ quoted project
                              @ ''; another folder holds that project now.''])))"

definition restore ::
    "session_folders \<Rightarrow> folder_actor \<Rightarrow> string list
     \<Rightarrow> string + ((string list \<times> folder_owner list \<times> string list) \<times> session_folders)" where
  "restore t actor ids =
     rbind (restore_collect (folders t) actor ids []) (\<lambda>restored.
       let (fs1, notes1) = fold (reparent_root restored) ids (folders t, []);
           ((fs2, _), notes2) = fold claim_project restored ((fs1, live_projects fs1), notes1);
           fs3 = position_sorted (stamp_trashed restored None fs2)
       in Inr ((restored, owners_of fs3 restored, notes2), (changed t)\<lparr>folders := fs3\<rparr>))"

fun purge_collect ::
    "session_folder list \<Rightarrow> folder_actor \<Rightarrow> string list \<Rightarrow> string list \<Rightarrow> string list \<Rightarrow> string list" where
  "purge_collect fs actor occupied [] acc = acc"
| "purge_collect fs actor occupied (x # xs) acc =
     (case touchable fs actor x of
        Inl _ \<Rightarrow> purge_collect fs actor occupied xs acc
      | Inr f \<Rightarrow>
          if f_trashed f = None then purge_collect fs actor occupied xs acc
          else
            (case owned_subtree fs actor x of
               Inl _ \<Rightarrow> purge_collect fs actor occupied xs acc
             | Inr below \<Rightarrow>
                 if list_ex (\<lambda>b. b \<in> set occupied \<or> \<not> is_trashed fs b) below
                 then purge_collect fs actor occupied xs acc
                 else purge_collect fs actor occupied xs (push_new below acc)))"

definition purge ::
    "session_folders \<Rightarrow> folder_actor \<Rightarrow> string list \<Rightarrow> string list
     \<Rightarrow> (string list \<times> folder_owner list) \<times> session_folders" where
  "purge t actor ids occupied =
     (let removed = purge_collect (folders t) actor occupied ids [];
          owners = owners_of (folders t) removed;
          t = (if removed \<noteq> [] then changed t else t)
      in ((removed, owners),
          t\<lparr>folders := filter (\<lambda>f. f_id f \<notin> set removed) (folders t),
            placement := filter (\<lambda>p. snd p \<notin> set removed) (placement t)\<rparr>))"

definition trashed_folders :: "session_folders \<Rightarrow> session_folder list" where
  "trashed_folders t = filter (\<lambda>f. f_trashed f \<noteq> None) (folders t)"

definition pin ::
    "session_folders \<Rightarrow> (string \<times> string option) list
     \<Rightarrow> (string \<times> string option) list \<times> session_folders" where
  "pin t pins =
     (let t = (if pins \<noteq> [] then changed t else t);
          target = (\<lambda>p. case snd p of None \<Rightarrow> TOP_LEVEL | Some f \<Rightarrow> f)
      in (map (\<lambda>p. (fst p, Some (target p))) pins,
          t\<lparr>placement := fold (\<lambda>p m. AList.update (fst p) (target p) m) pins (placement t)\<rparr>))"

definition set_folders :: "session_folders \<Rightarrow> session_folder list \<Rightarrow> session_folders" where
  "set_folders t fs = (changed t)\<lparr>folders := position_sorted fs\<rparr>"

definition restore_placement :: "session_folders \<Rightarrow> string \<Rightarrow> string \<Rightarrow> session_folders" where
  "restore_placement t session fid =
     (changed t)\<lparr>placement := AList.update session fid (placement t)\<rparr>"

definition forget_session :: "session_folders \<Rightarrow> string \<Rightarrow> session_folders" where
  "forget_session t session =
     (if map_of (placement t) session \<noteq> None
      then (changed t)\<lparr>placement := adelete session (placement t)\<rparr>
      else t)"

section \<open>Default resolution\<close>

record resolved_defaults =
  r_values :: folder_defaults
  r_sources :: "default_key \<Rightarrow> string option"

definition no_resolved :: resolved_defaults where
  "no_resolved = \<lparr>r_values = no_defaults, r_sources = (\<lambda>_. None)\<rparr>"

definition local_defaults :: "session_folder \<Rightarrow> folder_defaults" where
  "local_defaults f =
     (case f_project f of
        None \<Rightarrow> f_defaults f
      | Some project \<Rightarrow>
          (if f_defaults f Project = None
           then (f_defaults f)(Project := Some (Some project)) else f_defaults f))"

text \<open>\<open>BTreeMap::entry\<close> on a vacant key: the nearer folder wins.\<close>

definition add_vacant :: "session_folder \<Rightarrow> resolved_defaults \<Rightarrow> resolved_defaults" where
  "add_vacant f r =
     \<lparr>r_values = (\<lambda>k. case r_values r k of None \<Rightarrow> local_defaults f k | Some v \<Rightarrow> Some v),
      r_sources = (\<lambda>k. if r_values r k = None \<and> local_defaults f k \<noteq> None
                     then Some (f_id f) else r_sources r k)\<rparr>"

definition unseen_ids :: "session_folder list \<Rightarrow> string list \<Rightarrow> session_folder option \<Rightarrow> nat" where
  "unseen_ids fs seen cursor =
     card ((set (map f_id fs) \<union> (case cursor of None \<Rightarrow> {} | Some f \<Rightarrow> {f_id f})) - set seen)"

function resolve_walk ::
    "session_folder list \<Rightarrow> folder_owner \<Rightarrow> string list \<Rightarrow> session_folder option
     \<Rightarrow> resolved_defaults \<Rightarrow> string + resolved_defaults" where
  "resolve_walk fs owner seen cursor result =
     (case cursor of
        None \<Rightarrow> Inr result
      | Some f \<Rightarrow>
          if f_owner f \<noteq> owner \<or> f_id f \<in> set seen then Inl ''invalid directory ancestry''
          else
            (case f_parent f of
               None \<Rightarrow> resolve_walk fs owner (f_id f # seen) None (add_vacant f result)
             | Some p \<Rightarrow>
                 (case find_folder fs p of
                    None \<Rightarrow> Inl ''unknown parent directory''
                  | Some g \<Rightarrow>
                      resolve_walk fs owner (f_id f # seen) (Some g) (add_vacant f result))))"
  by pat_completeness auto
termination
proof (relation "measure (\<lambda>(fs, owner, seen, cursor, result).
      unseen_ids fs seen cursor + (if cursor = None then 0 else 1))", goal_cases)
  case 1
  show ?case by simp
next
  case (2 fs owner seen cursor result f)
  have "card (set (map f_id fs) - set (f_id f # seen)) \<le> card (insert (f_id f) (set (map f_id fs)) - set seen)"
    by (rule card_mono) auto
  with 2 show ?case by (simp add: unseen_ids_def)
next
  case (3 fs owner seen cursor result f p g)
  then have "f_id g \<in> set (map f_id fs)"
    by (auto simp: find_folder_def dest: find_SomeD)
  then have "set (map f_id fs) \<union> {f_id g} - set (f_id f # seen)
      \<subset> insert (f_id f) (set (map f_id fs)) - set seen"
    using 3 by auto
  then have "card (set (map f_id fs) \<union> {f_id g} - set (f_id f # seen))
      < card (insert (f_id f) (set (map f_id fs)) - set seen)"
    by (rule psubset_card_mono [rotated]) auto
  with 3 show ?case by (simp add: unseen_ids_def)
qed

declare resolve_walk.simps [simp del]

definition resolve_defaults ::
    "session_folders \<Rightarrow> folder_actor \<Rightarrow> string \<Rightarrow> string + resolved_defaults" where
  "resolve_defaults t actor fid =
     rbind (touchable (folders t) actor fid) (\<lambda>first.
       resolve_walk (folders t) (f_owner first) [] (Some first) no_resolved)"

section \<open>Client mutations\<close>

type_synonym mutation_result = "string + (folder_effects \<times> session_folders)"

definition replaced :: "folder_owner \<Rightarrow> folder_effects" where
  "replaced owner = \<lparr>replaced_owner = Some owner, eff_placements = []\<rparr>"

text \<open>The update of one folder found by id, the common tail of several mutations.\<close>

definition edit_folder ::
    "session_folders \<Rightarrow> string \<Rightarrow> (session_folder \<Rightarrow> session_folder) \<Rightarrow> session_folders" where
  "edit_folder t fid g = t\<lparr>folders := update_first (\<lambda>f. f_id f = fid) g (folders t)\<rparr>"

definition apply_defaults :: "session_folders \<Rightarrow> folder_actor \<Rightarrow> json \<Rightarrow> mutation_result" where
  "apply_defaults t actor args =
     rbind (key_arg args ''id'') (\<lambda>fid.
     rbind (ok_or (jget ''values'' args) ''missing values'') (\<lambda>vals.
     rbind (parse_defaults vals) (\<lambda>patch.
     rbind (case jget ''inherit'' args of
              None \<Rightarrow> Inr []
            | Some v \<Rightarrow> ok_or (Option.bind (jarr v) parse_keys) ''invalid inherit fields'') (\<lambda>inherit.
     if list_ex (\<lambda>k. patch k \<noteq> None) inherit
     then Inl ''a default cannot be set and inherited together''
     else rbind (live_touchable (folders t) actor fid) (\<lambda>f.
       Inr (replaced (f_owner f),
            edit_folder t fid (\<lambda>f. f\<lparr>f_defaults :=
              (\<lambda>k. case patch k of
                     Some v \<Rightarrow> Some v
                   | None \<Rightarrow> if k \<in> set inherit then None else f_defaults f k)\<rparr>)))))))"

definition apply_create :: "session_folders \<Rightarrow> folder_actor \<Rightarrow> json \<Rightarrow> mutation_result" where
  "apply_create t actor args =
     rbind (key_arg args ''id'') (\<lambda>fid.
     rbind (name_arg args) (\<lambda>name.
     rbind (rbind (optional_key_arg args ''parent'') (resolve_parent (folders t) actor)) (\<lambda>parent.
     rbind (project_arg args) (\<lambda>project.
     rbind (parse_create args) (\<lambda>defaults.
     if find_folder (folders t) fid \<noteq> None then Inl ''folder id already exists''
     else if FOLDER_CAP \<le> length (folders_of (folders t) (user_id actor)) then Inl ''too many folders''
     else if (case project of None \<Rightarrow> False
              | Some p \<Rightarrow> project_taken (folders t) (user_id actor) p fid)
     then Inl ''another folder already holds this project''
     else Inr (replaced (user_id actor),
               t\<lparr>folders := folders t @
                 [\<lparr>f_id = fid, f_owner = user_id actor, f_name = name, f_parent = parent,
                   f_position = next_position (folders t) (user_id actor) parent,
                   f_project = project, f_defaults = defaults, f_trashed = None\<rparr>]\<rparr>))))))"

definition apply_rename :: "session_folders \<Rightarrow> folder_actor \<Rightarrow> json \<Rightarrow> mutation_result" where
  "apply_rename t actor args =
     rbind (key_arg args ''id'') (\<lambda>fid.
     rbind (name_arg args) (\<lambda>name.
     rbind (live_touchable (folders t) actor fid) (\<lambda>f.
       Inr (replaced (f_owner f), edit_folder t fid (\<lambda>f. f\<lparr>f_name := name\<rparr>)))))"

definition apply_move :: "session_folders \<Rightarrow> folder_actor \<Rightarrow> json \<Rightarrow> mutation_result" where
  "apply_move t actor args =
     rbind (key_arg args ''id'') (\<lambda>fid.
     rbind (rbind (optional_key_arg args ''parent'') (resolve_parent (folders t) actor)) (\<lambda>parent.
     rbind (live_touchable (folders t) actor fid) (\<lambda>f.
       if is_descendant (folders t) parent fid then Inl ''a folder cannot move into itself''
       else Inr (replaced (f_owner f),
                 edit_folder t fid (\<lambda>g. g\<lparr>f_parent := parent,
                   f_position := next_position (folders t) (f_owner f) parent\<rparr>)))))"

definition apply_bind :: "session_folders \<Rightarrow> folder_actor \<Rightarrow> json \<Rightarrow> mutation_result" where
  "apply_bind t actor args =
     rbind (key_arg args ''id'') (\<lambda>fid.
     rbind (project_arg args) (\<lambda>project.
     rbind (live_touchable (folders t) actor fid) (\<lambda>f.
       if (case project of None \<Rightarrow> False | Some p \<Rightarrow> project_taken (folders t) (f_owner f) p fid)
       then Inl ''another folder already holds this project''
       else Inr (replaced (f_owner f), edit_folder t fid (\<lambda>f. f\<lparr>f_project := project\<rparr>)))))"

fun renumber :: "nat \<Rightarrow> string list \<Rightarrow> session_folder list \<Rightarrow> session_folder list" where
  "renumber i [] fs = fs"
| "renumber i (x # xs) fs =
     renumber (Suc i) xs (update_first (\<lambda>f. f_id f = x) (\<lambda>f. f\<lparr>f_position := min i64_max (int i)\<rparr>) fs)"

definition siblings :: "session_folder list \<Rightarrow> string option \<Rightarrow> folder_owner \<Rightarrow> session_folder list" where
  "siblings fs parent owner =
     position_sorted (filter (\<lambda>f. f_parent f = parent \<and> f_owner f = owner) fs)"

text \<open>The panic of \<open>merge_session_order\<close> on repeated ids is the outer \<open>None\<close>.\<close>

definition apply_reorder :: "session_folders \<Rightarrow> folder_actor \<Rightarrow> json \<Rightarrow> mutation_result option" where
  "apply_reorder t actor args =
     (case rbind (rbind (optional_key_arg args ''parent'') (resolve_parent (folders t) actor)) (\<lambda>parent.
             rbind (ok_or (Option.bind (jget ''order'' args) jarr) ''reorder: missing order'') (\<lambda>vs.
               Inr (parent, List.map_filter jstr vs))) of
        Inl e \<Rightarrow> Some (Inl e)
      | Inr (parent, submitted) \<Rightarrow>
          (let existing = map f_id (siblings (folders t) parent (user_id actor));
               submitted = filter (\<lambda>x. x \<in> set existing) submitted
           in map_option (\<lambda>merged.
                Inr (replaced (user_id actor),
                     t\<lparr>folders := position_sorted (renumber 0 merged (folders t))\<rparr>))
                (merge_session_order existing submitted)))"

definition apply_place :: "session_folders \<Rightarrow> folder_actor \<Rightarrow> json \<Rightarrow> mutation_result" where
  "apply_place t actor args =
     rbind (optional_key_arg args ''folder'') (\<lambda>folder.
     rbind (case folder of None \<Rightarrow> Inr ()
            | Some fid \<Rightarrow> rbind (live_touchable (folders t) actor fid) (\<lambda>_. Inr ())) (\<lambda>_.
     rbind (ok_or (Option.bind (jget ''session_ids'' args) jarr) ''place: missing session_ids'') (\<lambda>vs.
       let ids = filter (\<lambda>s. s \<noteq> []) (List.map_filter jstr vs);
           target = (case folder of None \<Rightarrow> TOP_LEVEL | Some f \<Rightarrow> f)
       in Inr (\<lparr>replaced_owner = None, eff_placements = map (\<lambda>s. (s, Some target)) ids\<rparr>,
               t\<lparr>placement := fold (\<lambda>s m. AList.update s target m) ids (placement t)\<rparr>))))"

text \<open>
  The children of a removed folder, in their order, take the parent and the positions after its
  children; the code writes them through mutable references, one per child.
\<close>

fun step_up :: "string option \<Rightarrow> int \<Rightarrow> string list \<Rightarrow> session_folder list \<Rightarrow> session_folder list" where
  "step_up parent next_pos [] fs = fs"
| "step_up parent next_pos (x # xs) fs =
     step_up parent (i64_add next_pos 1) xs
       (update_first (\<lambda>f. f_id f = x) (\<lambda>f. f\<lparr>f_parent := parent, f_position := next_pos\<rparr>) fs)"

definition apply_remove :: "session_folders \<Rightarrow> folder_actor \<Rightarrow> json \<Rightarrow> mutation_result" where
  "apply_remove t actor args =
     rbind (key_arg args ''id'') (\<lambda>fid.
     rbind (live_touchable (folders t) actor fid) (\<lambda>removed.
       let owner = f_owner removed; parent = f_parent removed;
           children = map f_id (position_sorted (filter (\<lambda>f. f_parent f = Some fid) (folders t)));
           fs = step_up parent (next_position (folders t) owner parent) children (folders t);
           fs = filter (\<lambda>f. f_id f \<noteq> fid) fs;
           moved = sort (map fst (filter (\<lambda>p. snd p = fid) (placement t)));
           target = (case parent of None \<Rightarrow> TOP_LEVEL | Some p \<Rightarrow> p)
       in Inr (\<lparr>replaced_owner = Some owner, eff_placements = map (\<lambda>s. (s, Some target)) moved\<rparr>,
               t\<lparr>folders := position_sorted fs,
                 placement := fold (\<lambda>s m. AList.update s target m) moved (placement t)\<rparr>)))"

definition touches_language_servers :: "json \<Rightarrow> bool" where
  "touches_language_servers args \<longleftrightarrow>
     Option.bind (jget ''values'' args) (jget ''language_servers'') \<noteq> None
   \<or> (case Option.bind (jget ''inherit'' args) jarr of
        None \<Rightarrow> False
      | Some ks \<Rightarrow> list_ex (\<lambda>k. k = JStr ''language_servers'') ks)"

definition policy_change :: "string \<Rightarrow> json \<Rightarrow> bool" where
  "policy_change mutation args \<longleftrightarrow>
     mutation \<noteq> ''rename'' \<and> (mutation \<noteq> ''defaults'' \<or> touches_language_servers args)"

definition dispatch_mutation ::
    "session_folders \<Rightarrow> folder_actor \<Rightarrow> string \<Rightarrow> json \<Rightarrow> mutation_result option" where
  "dispatch_mutation t actor mutation args =
     (if mutation = ''defaults'' then Some (apply_defaults t actor args)
      else if mutation = ''create'' then Some (apply_create t actor args)
      else if mutation = ''rename'' then Some (apply_rename t actor args)
      else if mutation = ''move'' then Some (apply_move t actor args)
      else if mutation = ''reorder'' then apply_reorder t actor args
      else if mutation = ''bind'' then Some (apply_bind t actor args)
      else if mutation = ''place'' then Some (apply_place t actor args)
      else if mutation = ''remove'' then Some (apply_remove t actor args)
      else Some (Inl (''unknown folders mutation '' @ mutation)))"

definition apply_mutation ::
    "session_folders \<Rightarrow> folder_actor \<Rightarrow> string \<Rightarrow> json \<Rightarrow> mutation_result option" where
  "apply_mutation t actor mutation args =
     map_option (\<lambda>r. case r of
         Inl e \<Rightarrow> Inl e
       | Inr (eff, t') \<Rightarrow>
           Inr (eff, if policy_change mutation args then changed t' else t'))
       (dispatch_mutation t actor mutation args)"

definition is_replayed_create :: "session_folders \<Rightarrow> folder_actor \<Rightarrow> json \<Rightarrow> bool" where
  "is_replayed_create t actor args =
     (case (key_arg args ''id'', name_arg args, optional_key_arg args ''parent'',
            project_arg args, parse_create args) of
        (Inr fid, Inr name, Inr parent, Inr project, Inr defaults) \<Rightarrow>
          (case find_folder (folders t) fid of
             None \<Rightarrow> False
           | Some f \<Rightarrow> f_owner f = user_id actor \<and> f_name f = name \<and> f_parent f = parent
               \<and> f_project f = project \<and> defaults_eq (f_defaults f) defaults)
      | _ \<Rightarrow> False)"

text \<open>The placements of the sync value: sessions filed in a folder that still exists, or pinned to
  the top level, in session order.\<close>

definition value_placements :: "session_folders \<Rightarrow> (string \<times> string) list" where
  "value_placements t =
     sort (filter (\<lambda>p. snd p = TOP_LEVEL \<or> snd p \<in> set (map f_id (folders t))) (placement t))"

end
