(* ===== verification/Folder_Invariants.thy ===== *)
theory Folder_Invariants
  imports Session_Folders
begin

text \<open>
  The well-formedness of the folder tree and its preservation by every mutation: ids are unique,
  every parent exists, the parent relation has no cycle, a live folder never hangs below a trashed
  one, and no two live folders of an owner bind the same project.
\<close>

section \<open>The parent relation\<close>

definition parent_rel :: "session_folder list \<Rightarrow> (string \<times> string) set" where
  "parent_rel fs = {(f_id f, p) | f p. f \<in> set fs \<and> f_parent f = Some p}"

definition ids :: "session_folder list \<Rightarrow> string set" where
  "ids fs = f_id ` set fs"

definition ids_distinct :: "session_folder list \<Rightarrow> bool" where
  "ids_distinct fs \<longleftrightarrow> distinct (map f_id fs)"

definition parents_exist :: "session_folder list \<Rightarrow> bool" where
  "parents_exist fs \<longleftrightarrow> (\<forall>f \<in> set fs. \<forall>p. f_parent f = Some p \<longrightarrow> p \<in> ids fs)"

definition live_parents :: "session_folder list \<Rightarrow> bool" where
  "live_parents fs \<longleftrightarrow>
     (\<forall>f \<in> set fs. \<forall>g \<in> set fs.
        f_trashed f = None \<and> f_parent f = Some (f_id g) \<longrightarrow> f_trashed g = None)"

definition projects_unique :: "session_folder list \<Rightarrow> bool" where
  "projects_unique fs \<longleftrightarrow>
     (\<forall>f \<in> set fs. \<forall>g \<in> set fs.
        f_trashed f = None \<and> f_trashed g = None \<and> f_owner f = f_owner g
      \<and> f_project f \<noteq> None \<and> f_project f = f_project g \<longrightarrow> f_id f = f_id g)"

definition tree_ok :: "session_folder list \<Rightarrow> bool" where
  "tree_ok fs \<longleftrightarrow>
     ids_distinct fs \<and> parents_exist fs \<and> acyclic (parent_rel fs) \<and> live_parents fs \<and> projects_unique fs"

lemma tree_okD:
  assumes "tree_ok fs"
  shows "ids_distinct fs" "parents_exist fs" "acyclic (parent_rel fs)" "live_parents fs"
    "projects_unique fs"
  using assms by (simp_all add: tree_ok_def)

lemma parent_relI: "f \<in> set fs \<Longrightarrow> f_parent f = Some p \<Longrightarrow> (f_id f, p) \<in> parent_rel fs"
  unfolding parent_rel_def by blast

lemma in_idsI [intro]: "f \<in> set fs \<Longrightarrow> f_id f \<in> ids fs"
  by (simp add: ids_def)

lemma find_folder_Some:
  assumes "ids_distinct fs"
  shows "find_folder fs x = Some f \<longleftrightarrow> f \<in> set fs \<and> f_id f = x"
proof
  assume "find_folder fs x = Some f"
  then show "f \<in> set fs \<and> f_id f = x"
    by (auto simp: find_folder_def dest: find_SomeD)
next
  assume "f \<in> set fs \<and> f_id f = x"
  with find_distinct [of f_id fs f] assms show "find_folder fs x = Some f"
    by (auto simp: find_folder_def ids_distinct_def)
qed

lemma find_folderD: "find_folder fs x = Some f \<Longrightarrow> f \<in> set fs \<and> f_id f = x"
  by (auto simp: find_folder_def dest: find_SomeD)

lemma find_folder_None: "find_folder fs x = None \<longleftrightarrow> x \<notin> ids fs"
  by (auto simp: find_folder_def find_None_iff ids_def)

lemma same_id_eq: "ids_distinct fs \<Longrightarrow> f \<in> set fs \<Longrightarrow> g \<in> set fs \<Longrightarrow> f_id f = f_id g \<Longrightarrow> f = g"
  by (auto simp: ids_distinct_def distinct_map dest: inj_onD)

lemma is_trashed_iff:
  "ids_distinct fs \<Longrightarrow> f \<in> set fs \<Longrightarrow> is_trashed fs (f_id f) \<longleftrightarrow> f_trashed f \<noteq> None"
  by (simp add: is_trashed_def find_folder_Some [THEN iffD2])

lemma folder_parent_rel:
  "ids_distinct fs \<Longrightarrow> folder_parent fs x = Some p \<longleftrightarrow> (x, p) \<in> parent_rel fs"
  by (auto simp: folder_parent_def parent_rel_def find_folder_Some bind_eq_Some_conv)

lemma parent_rel_image: "parent_rel fs = (\<lambda>f. (f_id f, the (f_parent f))) ` {f \<in> set fs. f_parent f \<noteq> None}"
  by (auto simp: parent_rel_def)

lemma finite_parent_rel [simp]: "finite (parent_rel fs)"
  by (simp add: parent_rel_image)

lemma card_parent_rel: "card (parent_rel fs) \<le> length fs"
proof -
  have "card (parent_rel fs) \<le> card {f \<in> set fs. f_parent f \<noteq> None}"
    unfolding parent_rel_image by (rule card_image_le) simp
  also have "\<dots> \<le> card (set fs)" by (rule card_mono) auto
  finally show ?thesis using card_length [of fs] by simp
qed

lemma parent_rel_dom: "(x, y) \<in> parent_rel fs \<Longrightarrow> x \<in> ids fs"
  by (auto simp: parent_rel_def)

lemma parent_rel_ran: "parents_exist fs \<Longrightarrow> (x, y) \<in> parent_rel fs \<Longrightarrow> y \<in> ids fs"
  by (auto simp: parent_rel_def parents_exist_def)

text \<open>The bounded walk decides reachability along parents, cycles or not.\<close>

lemma descendant_walk_iff:
  "ids_distinct fs \<Longrightarrow>
   is_descendant_walk fs n (Some x) a \<longleftrightarrow> (\<exists>k < n. (x, a) \<in> parent_rel fs ^^ k)"
proof (induction n arbitrary: x)
  case 0
  then show ?case by simp
next
  case (Suc n)
  have walk: "is_descendant_walk fs n (folder_parent fs x) a
      \<longleftrightarrow> (\<exists>p. (x, p) \<in> parent_rel fs \<and> (\<exists>k < n. (p, a) \<in> parent_rel fs ^^ k))"
  proof (cases "folder_parent fs x")
    case None
    then have "\<not> (\<exists>p. (x, p) \<in> parent_rel fs)"
      using folder_parent_rel [OF Suc.prems, of x] by auto
    with None show ?thesis by (cases n) auto
  next
    case (Some p)
    then have "(x, q) \<in> parent_rel fs \<longleftrightarrow> q = p" for q
      using folder_parent_rel [OF Suc.prems, of x q] by auto
    with Some Suc show ?thesis by auto
  qed
  have "(\<exists>k < Suc n. (x, a) \<in> parent_rel fs ^^ k)
      \<longleftrightarrow> x = a \<or> (\<exists>k < n. (x, a) \<in> parent_rel fs ^^ Suc k)"
    unfolding Ex_less_Suc2 by auto
  also have "\<dots> \<longleftrightarrow> x = a \<or> (\<exists>p. (x, p) \<in> parent_rel fs \<and> (\<exists>k < n. (p, a) \<in> parent_rel fs ^^ k))"
    by (meson relpow_Suc_D2 relpow_Suc_I2)
  finally show ?case using walk by auto
qed

lemma is_descendant_iff:
  assumes "ids_distinct fs"
  shows "is_descendant fs (Some x) a \<longleftrightarrow> (x, a) \<in> (parent_rel fs)\<^sup>*"
proof
  assume "is_descendant fs (Some x) a"
  then show "(x, a) \<in> (parent_rel fs)\<^sup>*"
    unfolding is_descendant_def descendant_walk_iff [OF assms] by (auto simp: rtrancl_power)
next
  assume "(x, a) \<in> (parent_rel fs)\<^sup>*"
  then obtain k where "(x, a) \<in> parent_rel fs ^^ k"
    by (auto simp: rtrancl_power)
  then obtain j where "j \<le> card (parent_rel fs)" "(x, a) \<in> parent_rel fs ^^ j"
    using relpow_finite_bounded [of "parent_rel fs" k] by auto
  with card_parent_rel [of fs] show "is_descendant fs (Some x) a"
    unfolding is_descendant_def descendant_walk_iff [OF assms]
    by (meson le_imp_less_Suc le_trans)
qed

lemma is_descendant_None [simp]: "\<not> is_descendant fs None a"
  by (simp add: is_descendant_def)

section \<open>Subtrees\<close>

lemma push_children_spec:
  "\<exists>ext. push_children fs p out = out @ ext
       \<and> set ext = {f_id f | f. f \<in> set fs \<and> f_parent f = Some p} - set out \<and> distinct ext"
  unfolding push_children_def
proof (induction fs arbitrary: out)
  case Nil
  then show ?case by simp
next
  case (Cons f fs)
  show ?case
  proof (cases "f_parent f = Some p \<and> f_id f \<notin> set out")
    case True
    with Cons.IH [of "out @ [f_id f]"] obtain ext where
      "fold (\<lambda>f out. if f_parent f = Some p \<and> f_id f \<notin> set out then out @ [f_id f] else out) fs (out @ [f_id f])
         = (out @ [f_id f]) @ ext"
      "set ext = {f_id f | f. f \<in> set fs \<and> f_parent f = Some p} - set (out @ [f_id f])" "distinct ext"
      by blast
    with True show ?thesis by (intro exI [of _ "f_id f # ext"]) auto
  next
    case False
    with Cons.IH [of out] show ?thesis by auto
  qed
qed

definition subtree_inv :: "session_folder list \<Rightarrow> string \<Rightarrow> string list \<Rightarrow> nat \<Rightarrow> bool" where
  "subtree_inv fs r out index \<longleftrightarrow>
     distinct out \<and> r \<in> set out \<and> set out \<subseteq> ids fs \<inter> {x. (x, r) \<in> (parent_rel fs)\<^sup>*}
   \<and> (\<forall>i < index. i < length out \<longrightarrow> (\<forall>x. (x, out ! i) \<in> parent_rel fs \<longrightarrow> x \<in> set out))"

lemma subtree_inv_step:
  assumes "subtree_inv fs r out index" and "index < length out"
  shows "subtree_inv fs r (push_children fs (out ! index) out) (Suc index)"
proof -
  obtain ext where ext: "push_children fs (out ! index) out = out @ ext"
    "set ext = {f_id f | f. f \<in> set fs \<and> f_parent f = Some (out ! index)} - set out" "distinct ext"
    using push_children_spec by blast
  have top: "(out ! index, r) \<in> (parent_rel fs)\<^sup>*"
    using assms nth_mem by (auto simp: subtree_inv_def)
  then have "set ext \<subseteq> ids fs \<inter> {x. (x, r) \<in> (parent_rel fs)\<^sup>*}"
    unfolding ext(2) by (auto simp: parent_rel_def intro: converse_rtrancl_into_rtrancl)
  moreover have "x \<in> set (out @ ext)" if "(x, out ! i) \<in> parent_rel fs" "i < Suc index" for i x
  proof (cases "i = index")
    case True
    with that(1) ext(2) show ?thesis by (auto simp: parent_rel_def)
  next
    case False
    with that(2) have "i < index" by simp
    moreover from this assms(2) have "i < length out" by simp
    ultimately have "x \<in> set out"
      using that(1) assms(1) unfolding subtree_inv_def by blast
    then show ?thesis by simp
  qed
  ultimately show ?thesis
    using assms ext by (auto simp: subtree_inv_def nth_append)
qed

lemma subtree_loop_inv:
  "subtree_inv fs r out index \<Longrightarrow>
   \<exists>index'. subtree_inv fs r (subtree_loop fs out index) index'
     \<and> length (subtree_loop fs out index) \<le> index'"
proof (induction fs out index rule: subtree_loop.induct)
  case (1 fs out index)
  show ?case
  proof (cases "index < length out \<and> length out \<le> length fs")
    case True
    with 1 subtree_inv_step [of fs r out index] show ?thesis
      by (subst subtree_loop.simps, subst (2) subtree_loop.simps) simp
  next
    case False
    have "length out = card (set out)"
      using "1.prems" by (simp add: subtree_inv_def distinct_card)
    also have "\<dots> \<le> card (ids fs)"
      using "1.prems" by (intro card_mono) (auto simp: subtree_inv_def ids_def)
    also have "\<dots> \<le> length fs"
      unfolding ids_def using card_image_le [of "set fs" f_id] card_length [of fs] by simp
    finally have "length out \<le> index" using False by simp
    with False "1.prems" show ?thesis
      by (subst subtree_loop.simps, subst (2) subtree_loop.simps) auto
  qed
qed

lemma subtree_exact:
  assumes "r \<in> ids fs"
  shows "set (subtree fs r) = {x. (x, r) \<in> (parent_rel fs)\<^sup>*}" and "distinct (subtree fs r)"
proof -
  have "subtree_inv fs r [r] 0"
    using assms by (auto simp: subtree_inv_def)
  then obtain n where inv: "subtree_inv fs r (subtree fs r) n" and len: "length (subtree fs r) \<le> n"
    using subtree_loop_inv unfolding subtree_def by blast
  have closed: "x \<in> set (subtree fs r)" if "(x, y) \<in> parent_rel fs" "y \<in> set (subtree fs r)" for x y
  proof -
    from that(2) obtain i where "i < length (subtree fs r)" "y = subtree fs r ! i"
      by (auto simp: in_set_conv_nth)
    moreover from this len have "i < n" by simp
    ultimately show ?thesis using that(1) inv unfolding subtree_inv_def by blast
  qed
  have "x \<in> set (subtree fs r)" if "(x, r) \<in> (parent_rel fs)\<^sup>*" for x
    using that
  proof (induction rule: converse_rtrancl_induct)
    case base
    show ?case using inv by (simp add: subtree_inv_def)
  next
    case (step y z)
    then show ?case by (blast intro: closed)
  qed
  with inv show "set (subtree fs r) = {x. (x, r) \<in> (parent_rel fs)\<^sup>*}" "distinct (subtree fs r)"
    by (auto simp: subtree_inv_def)
qed

lemma subtree_self: "r \<in> ids fs \<Longrightarrow> r \<in> set (subtree fs r)"
  by (simp add: subtree_exact)

lemma subtree_closed:
  "r \<in> ids fs \<Longrightarrow> (x, y) \<in> parent_rel fs \<Longrightarrow> y \<in> set (subtree fs r) \<Longrightarrow> x \<in> set (subtree fs r)"
  by (auto simp: subtree_exact intro: converse_rtrancl_into_rtrancl)

lemma subtree_up:
  assumes "r \<in> ids fs" "(x, y) \<in> parent_rel fs" "ids_distinct fs" "x \<in> set (subtree fs r)" "x \<noteq> r"
  shows "y \<in> set (subtree fs r)"
proof -
  from assms(1,4,5) obtain z where "(x, z) \<in> parent_rel fs" "(z, r) \<in> (parent_rel fs)\<^sup>*"
    by (auto simp: subtree_exact elim: converse_rtranclE)
  moreover from this(1) assms(2) have "z = y"
    using folder_parent_rel [OF assms(3)] by (metis option.inject)
  ultimately show ?thesis using assms(1) by (simp add: subtree_exact)
qed

lemma subtree_in_ids:
  assumes "r \<in> ids fs" "x \<in> set (subtree fs r)"
  shows "x \<in> ids fs"
proof -
  from assms have "(x, r) \<in> (parent_rel fs)\<^sup>*" by (simp add: subtree_exact)
  then show ?thesis by (rule converse_rtranclE) (use assms(1) parent_rel_dom in auto)
qed

lemma touchable_InrD:
  "touchable fs actor x = Inr f \<Longrightarrow> f \<in> set fs \<and> f_id f = x \<and> can_touch actor f"
  by (auto simp: touchable_def dest: find_folderD split: option.splits if_splits)

lemma live_touchable_InrD:
  "live_touchable fs actor x = Inr f \<Longrightarrow> f \<in> set fs \<and> f_id f = x \<and> can_touch actor f \<and> f_trashed f = None"
  by (auto simp: live_touchable_def dest: touchable_InrD split: if_splits)

lemma resolve_parent_InrD:
  "resolve_parent fs actor parent = Inr q \<Longrightarrow>
   q = parent \<and> (\<forall>p. parent = Some p \<longrightarrow>
      (\<exists>f \<in> set fs. f_id f = p \<and> f_trashed f = None \<and> can_touch actor f))"
  by (auto simp: resolve_parent_def dest: live_touchable_InrD split: option.splits)

lemma all_touchable_Inr:
  "all_touchable fs actor xs = Inr () \<longleftrightarrow> (\<forall>x \<in> set xs. \<exists>f. touchable fs actor x = Inr f)"
  by (induction xs) auto

lemma owned_subtree_InrD:
  "owned_subtree fs actor x = Inr below \<Longrightarrow>
   below = subtree fs x \<and> (\<forall>y \<in> set below. \<exists>f \<in> set fs. f_id f = y \<and> can_touch actor f)"
  by (auto simp: owned_subtree_def Let_def all_touchable_Inr dest!: touchable_InrD)

lemma set_push_new [simp]: "set (push_new xs acc) = set acc \<union> set xs"
  unfolding push_new_def by (induction xs arbitrary: acc) auto

lemma distinct_push_new: "distinct acc \<Longrightarrow> distinct (push_new xs acc)"
  unfolding push_new_def by (induction xs arbitrary: acc) auto

section \<open>What the invariant depends on\<close>

definition shape ::
    "session_folder \<Rightarrow> string \<times> folder_owner \<times> string option \<times> string option \<times> int option" where
  "shape f = (f_id f, f_owner f, f_parent f, f_project f, f_trashed f)"

lemma ids_shape: "ids fs = fst ` shape ` set fs"
  by (auto simp: ids_def shape_def image_image)

lemma ids_distinct_shape: "ids_distinct fs \<longleftrightarrow> distinct (map fst (map shape fs))"
  by (simp add: ids_distinct_def shape_def comp_def)

lemma parent_rel_shape: "parent_rel fs = {(i, p) | i w p pr t. (i, w, Some p, pr, t) \<in> shape ` set fs}"
proof (rule set_eqI)
  fix e show "e \<in> parent_rel fs \<longleftrightarrow> e \<in> {(i, p) | i w p pr t. (i, w, Some p, pr, t) \<in> shape ` set fs}"
  proof
    assume "e \<in> parent_rel fs"
    then obtain f p where f: "f \<in> set fs" "f_parent f = Some p" "e = (f_id f, p)"
      by (auto simp: parent_rel_def)
    then have "(f_id f, f_owner f, Some p, f_project f, f_trashed f) \<in> shape ` set fs"
      by (metis imageI shape_def)
    with f(3) show "e \<in> {(i, p) | i w p pr t. (i, w, Some p, pr, t) \<in> shape ` set fs}" by blast
  next
    assume "e \<in> {(i, p) | i w p pr t. (i, w, Some p, pr, t) \<in> shape ` set fs}"
    then show "e \<in> parent_rel fs" by (auto simp: parent_rel_def shape_def)
  qed
qed

lemma parents_exist_rel: "parents_exist fs \<longleftrightarrow> snd ` parent_rel fs \<subseteq> ids fs"
  by (force simp: parents_exist_def parent_rel_def)

lemma live_parents_shape:
  "live_parents fs \<longleftrightarrow>
     (\<forall>(i, w, p, pr, t) \<in> shape ` set fs. \<forall>(i', w', p', pr', t') \<in> shape ` set fs.
        t = None \<and> p = Some i' \<longrightarrow> t' = None)"
  by (auto simp: live_parents_def shape_def)

lemma projects_unique_shape:
  "projects_unique fs \<longleftrightarrow>
     (\<forall>(i, w, p, pr, t) \<in> shape ` set fs. \<forall>(i', w', p', pr', t') \<in> shape ` set fs.
        t = None \<and> t' = None \<and> w = w' \<and> pr \<noteq> None \<and> pr = pr' \<longrightarrow> i = i')"
  by (auto simp: projects_unique_def shape_def)

lemma tree_ok_shape:
  assumes "mset (map shape fs) = mset (map shape fs')"
  shows "tree_ok fs \<longleftrightarrow> tree_ok fs'"
proof -
  have "shape ` set fs = shape ` set fs'"
    using mset_eq_setD [OF assms] by simp
  moreover have "ids_distinct fs \<longleftrightarrow> ids_distinct fs'"
    unfolding ids_distinct_shape using assms
    by (intro mset_eq_imp_distinct_iff) (simp only: mset_map)
  ultimately show ?thesis
    unfolding tree_ok_def parents_exist_rel ids_shape parent_rel_shape live_parents_shape
      projects_unique_shape by simp
qed

lemma tree_ok_position_sorted [simp]: "tree_ok (position_sorted fs) \<longleftrightarrow> tree_ok fs"
  by (rule tree_ok_shape) (simp add: position_sorted_def)

lemma set_position_sorted [simp]: "set (position_sorted fs) = set fs"
  by (simp add: position_sorted_def)

lemma ids_position_sorted [simp]: "ids (position_sorted fs) = ids fs"
  by (simp add: ids_def)

lemma tree_ok_edit:
  "tree_ok fs \<Longrightarrow> (\<And>f. shape (g f) = shape f) \<Longrightarrow> tree_ok (update_first P g fs)"
  by (subst tree_ok_shape [of _ fs]) (simp_all add: map_update_first)

lemma ids_update_first: "(\<And>f. f_id (g f) = f_id f) \<Longrightarrow> ids (update_first P g fs) = ids fs"
  unfolding ids_def by (metis list.set_map map_update_first)

section \<open>Moving one folder\<close>

definition reparent :: "string \<Rightarrow> string option \<Rightarrow> int \<Rightarrow> session_folder list \<Rightarrow> session_folder list" where
  "reparent x q pos fs =
     update_first (\<lambda>f. f_id f = x) (\<lambda>f. f\<lparr>f_parent := q, f_position := pos\<rparr>) fs"

lemma reparent_map:
  "ids_distinct fs \<Longrightarrow>
   reparent x q pos fs = map (\<lambda>f. if f_id f = x then f\<lparr>f_parent := q, f_position := pos\<rparr> else f) fs"
  by (simp add: reparent_def update_first_distinct ids_distinct_def)

lemma ids_reparent [simp]: "ids (reparent x q pos fs) = ids fs"
  by (simp add: reparent_def ids_update_first)

lemma ids_distinct_reparent [simp]: "ids_distinct (reparent x q pos fs) \<longleftrightarrow> ids_distinct fs"
  by (simp add: reparent_def ids_distinct_def map_update_first)

lemma parent_rel_reparent:
  "ids_distinct fs \<Longrightarrow>
   parent_rel (reparent x q pos fs) \<subseteq> parent_rel fs \<union> {(x, p) | p. q = Some p}"
  by (auto simp: parent_rel_def reparent_map)

lemma parent_rel_reparent_other:
  "ids_distinct fs \<Longrightarrow>
   parent_rel (reparent x q pos fs) \<subseteq> {(a, b) \<in> parent_rel fs. a \<noteq> x} \<union> {(x, p) | p. q = Some p}"
  by (auto simp: parent_rel_def reparent_map)

lemma acyclic_reparent:
  assumes "ids_distinct fs" "acyclic (parent_rel fs)"
    and "\<And>p. q = Some p \<Longrightarrow> (p, x) \<notin> (parent_rel fs)\<^sup>*"
  shows "acyclic (parent_rel (reparent x q pos fs))"
proof (cases q)
  case None
  with assms parent_rel_reparent [OF assms(1), of x q pos] show ?thesis
    by (auto intro: acyclic_subset)
next
  case (Some p)
  with assms have "acyclic (insert (x, p) (parent_rel fs))"
    by (simp add: acyclic_insert)
  moreover have "parent_rel (reparent x q pos fs) \<subseteq> insert (x, p) (parent_rel fs)"
    using parent_rel_reparent [OF assms(1), of x q pos] Some by auto
  ultimately show ?thesis by (rule acyclic_subset)
qed

definition proj_key :: "session_folder \<Rightarrow> string \<times> folder_owner \<times> string option \<times> int option" where
  "proj_key f = (f_id f, f_owner f, f_project f, f_trashed f)"

definition pairwise_ok :: "(string \<times> folder_owner \<times> string option \<times> int option) list \<Rightarrow> bool" where
  "pairwise_ok ks \<longleftrightarrow> (\<forall>(i, w, pr, t) \<in> set ks. \<forall>(i', w', pr', t') \<in> set ks.
      t = None \<and> t' = None \<and> w = w' \<and> pr \<noteq> None \<and> pr = pr' \<longrightarrow> i = i')"

lemma projects_unique_update_first:
  assumes "\<And>f. f_id (g f) = f_id f \<and> f_owner (g f) = f_owner f \<and> f_project (g f) = f_project f
             \<and> f_trashed (g f) = f_trashed f"
  shows "projects_unique (update_first P g fs) \<longleftrightarrow> projects_unique fs"
proof -
  have key: "projects_unique xs \<longleftrightarrow> pairwise_ok (map proj_key xs)" for xs
    unfolding pairwise_ok_def projects_unique_def proj_key_def by (simp only: set_map ball_simps prod.case)
  have "map proj_key (update_first P g fs) = map proj_key fs"
    using assms by (intro map_update_first) (simp add: proj_key_def)
  then show ?thesis by (simp only: key)
qed

lemma reparent_ok:
  assumes "tree_ok fs"
    and live: "\<And>p. q = Some p \<Longrightarrow> \<exists>f \<in> set fs. f_id f = p \<and> f_trashed f = None"
    and no_cycle: "\<And>p. q = Some p \<Longrightarrow> (p, x) \<notin> (parent_rel fs)\<^sup>*"
  shows "tree_ok (reparent x q pos fs)"
proof -
  note ok = tree_okD [OF assms(1)]
  have "parents_exist (reparent x q pos fs)"
    unfolding parents_exist_rel
  proof
    fix b assume "b \<in> snd ` parent_rel (reparent x q pos fs)"
    then obtain a where "(a, b) \<in> parent_rel (reparent x q pos fs)" by auto
    then have "(a, b) \<in> parent_rel fs \<union> {(x, p) | p. q = Some p}"
      using parent_rel_reparent [OF ok(1), of x q pos] by blast
    then show "b \<in> ids (reparent x q pos fs)"
    proof
      assume "(a, b) \<in> parent_rel fs"
      then show ?thesis using parent_rel_ran [OF ok(2)] by simp
    qed (use live in auto)
  qed
  moreover have "live_parents (reparent x q pos fs)"
    unfolding live_parents_def
  proof (intro ballI impI)
    fix f g assume fg: "f \<in> set (reparent x q pos fs)" "g \<in> set (reparent x q pos fs)"
      "f_trashed f = None \<and> f_parent f = Some (f_id g)"
    then obtain f0 g0 where old: "f0 \<in> set fs" "g0 \<in> set fs" "f_id g = f_id g0" "f_trashed g = f_trashed g0"
      "f_trashed f = f_trashed f0" "f_parent f = (if f_id f0 = x then q else f_parent f0)"
      unfolding reparent_map [OF ok(1)] by (auto split: if_splits)
    show "f_trashed g = None"
    proof (cases "f_id f0 = x")
      case True
      with old fg live obtain h where "h \<in> set fs" "f_id h = f_id g0" "f_trashed h = None" by auto
      with old same_id_eq [OF ok(1), of h g0] show ?thesis by simp
    next
      case False
      with old(3,5,6) fg(3) have "f_trashed f0 = None \<and> f_parent f0 = Some (f_id g0)" by simp
      with old(1,2) ok(4) have "f_trashed g0 = None" unfolding live_parents_def by blast
      with old(4) show ?thesis by simp
    qed
  qed
  moreover have "projects_unique (reparent x q pos fs)"
    using ok(5) unfolding reparent_def by (subst projects_unique_update_first) auto
  ultimately show ?thesis
    unfolding tree_ok_def
    using ok(1) acyclic_reparent [OF ok(1,3) no_cycle, of q pos] by (simp only: ids_distinct_reparent simp_thms)
qed

section \<open>Dropping and adding folders\<close>

lemma tree_ok_filter:
  assumes ok: "tree_ok fs"
    and closed: "\<And>f g. f \<in> set fs \<Longrightarrow> g \<in> set fs \<Longrightarrow> P f \<Longrightarrow> f_parent f = Some (f_id g) \<Longrightarrow> P g"
  shows "tree_ok (filter P fs)"
proof -
  note t = tree_okD [OF ok]
  have sub: "set (filter P fs) \<subseteq> set fs" by auto
  have "ids_distinct (filter P fs)"
    using t(1) by (simp add: ids_distinct_def distinct_map_filter_id)
  moreover have "parents_exist (filter P fs)"
    unfolding parents_exist_def
  proof (intro ballI allI impI)
    fix f p assume f: "f \<in> set (filter P fs)" "f_parent f = Some p"
    with t(2) have "p \<in> ids fs" unfolding parents_exist_def by auto
    then obtain g where g: "g \<in> set fs" "f_id g = p" by (auto simp: ids_def)
    with f closed [of f g] have "P g" by simp
    with g show "p \<in> ids (filter P fs)" by (auto simp: ids_def)
  qed
  moreover have "parent_rel (filter P fs) \<subseteq> parent_rel fs"
    by (auto simp: parent_rel_def)
  then have "acyclic (parent_rel (filter P fs))"
    using t(3) by (rule acyclic_subset [rotated])
  moreover have "live_parents (filter P fs)"
    using t(4) sub unfolding live_parents_def by (meson subsetD)
  moreover have "projects_unique (filter P fs)"
    using t(5) sub unfolding projects_unique_def by (meson subsetD)
  ultimately show ?thesis by (simp add: tree_ok_def)
qed

lemma tree_ok_append:
  assumes ok: "tree_ok fs" and new: "f_id n \<notin> ids fs"
    and parent: "\<And>p. f_parent n = Some p \<Longrightarrow> \<exists>g \<in> set fs. f_id g = p \<and> f_trashed g = None"
    and live: "f_trashed n = None"
    and project: "\<And>p. f_project n = Some p \<Longrightarrow> \<not> project_taken fs (f_owner n) p (f_id n)"
  shows "tree_ok (fs @ [n])"
proof -
  note t = tree_okD [OF ok]
  have "ids_distinct (fs @ [n])"
    using t(1) new by (auto simp: ids_distinct_def ids_def)
  moreover have "parents_exist (fs @ [n])"
    using t(2) parent by (fastforce simp: parents_exist_def ids_def)
  moreover have "acyclic (parent_rel (fs @ [n]))"
  proof -
    have not_ran: "(a, f_id n) \<notin> parent_rel fs" for a
      using new parent_rel_ran [OF t(2)] by blast
    then have up: "(p, f_id n) \<notin> (parent_rel fs)\<^sup>*" if "p \<noteq> f_id n" for p
      using that by (metis rtranclE)
    have "parent_rel (fs @ [n]) \<subseteq> insert (f_id n, the (f_parent n)) (parent_rel fs)"
      by (auto simp: parent_rel_def)
    moreover have "parent_rel (fs @ [n]) \<subseteq> parent_rel fs" if "f_parent n = None"
      using that by (auto simp: parent_rel_def)
    moreover have "acyclic (insert (f_id n, p) (parent_rel fs))" if "f_parent n = Some p" for p
    proof -
      have "p \<noteq> f_id n" using parent [OF that] new by (metis in_idsI)
      with t(3) up show ?thesis by (simp add: acyclic_insert)
    qed
    ultimately show ?thesis
      using t(3) by (cases "f_parent n") (auto intro: acyclic_subset)
  qed
  moreover have "live_parents (fs @ [n])"
    unfolding live_parents_def
  proof (intro ballI impI)
    fix f g assume a: "f \<in> set (fs @ [n])" "g \<in> set (fs @ [n])"
      "f_trashed f = None \<and> f_parent f = Some (f_id g)"
    show "f_trashed g = None"
    proof (cases "g = n")
      case False
      then have g: "g \<in> set fs" using a(2) by simp
      show ?thesis
      proof (cases "f = n")
        case True
        with a(3) parent obtain h where "h \<in> set fs" "f_id h = f_id g" "f_trashed h = None" by auto
        with g same_id_eq [OF t(1), of h g] show ?thesis by simp
      next
        case False
        with a(1) have "f \<in> set fs" by simp
        with a(3) g t(4) show ?thesis unfolding live_parents_def by blast
      qed
    qed (simp add: live)
  qed
  moreover have "projects_unique (fs @ [n])"
  proof -
    have clash: "f_id f = f_id n" if "f \<in> set fs" "f_trashed f = None" "f_owner f = f_owner n"
      "f_project n \<noteq> None" "f_project f = f_project n" for f
    proof (rule ccontr)
      assume ne: "f_id f \<noteq> f_id n"
      from that(4) obtain p where p: "f_project n = Some p" by blast
      have "project_taken fs (f_owner n) p (f_id n)"
        unfolding project_taken_def list_ex_iff using that p ne by (intro bexI [of _ f]) simp_all
      with project [OF p] show False ..
    qed
    show ?thesis
      unfolding projects_unique_def
    proof (intro ballI impI)
      fix f g assume a: "f \<in> set (fs @ [n])" "g \<in> set (fs @ [n])"
        "f_trashed f = None \<and> f_trashed g = None \<and> f_owner f = f_owner g
         \<and> f_project f \<noteq> None \<and> f_project f = f_project g"
      show "f_id f = f_id g"
      proof (cases "f = n")
        case True
        show ?thesis
        proof (cases "g = n")
          case False
          with a(2) have "g \<in> set fs" by simp
          moreover from a(3) True have "f_owner g = f_owner n" "f_trashed g = None" "f_project n \<noteq> None"
            "f_project g = f_project n" by metis+
          ultimately have "f_id g = f_id n" using clash by blast
          with True show ?thesis by metis
        qed (simp add: True)
      next
        case False
        then have f: "f \<in> set fs" using a(1) by simp
        show ?thesis
        proof (cases "g = n")
          case True
          with a(3) have "f_owner f = f_owner n" "f_trashed f = None" "f_project n \<noteq> None"
            "f_project f = f_project n" by metis+
          with f clash True show ?thesis by blast
        next
          case False
          with a(2) have "g \<in> set fs" by simp
          with f a(3) t(5) show ?thesis unfolding projects_unique_def by blast
        qed
      qed
    qed
  qed
  ultimately show ?thesis by (simp add: tree_ok_def)
qed

section \<open>Mutations\<close>

lemma apply_rename_ok:
  "tree_ok (folders t) \<Longrightarrow> apply_rename t actor args = Inr (eff, t') \<Longrightarrow> tree_ok (folders t')"
  by (auto simp: apply_rename_def edit_folder_def shape_def intro!: tree_ok_edit)

lemma apply_defaults_ok:
  "tree_ok (folders t) \<Longrightarrow> apply_defaults t actor args = Inr (eff, t') \<Longrightarrow> tree_ok (folders t')"
  by (auto simp: apply_defaults_def edit_folder_def shape_def intro!: tree_ok_edit split: if_splits)

lemma apply_create_ok:
  assumes "tree_ok (folders t)" "apply_create t actor args = Inr (eff, t')"
  shows "tree_ok (folders t')"
proof -
  from assms(2) obtain fid name parent project defaults where
    parent: "resolve_parent (folders t) actor parent = Inr parent" and
    fresh: "find_folder (folders t) fid = None" and
    free: "\<not> (case project of None \<Rightarrow> False | Some p \<Rightarrow> project_taken (folders t) (user_id actor) p fid)" and
    t': "folders t' = folders t @
          [\<lparr>f_id = fid, f_owner = user_id actor, f_name = name, f_parent = parent,
            f_position = next_position (folders t) (user_id actor) parent,
            f_project = project, f_defaults = defaults, f_trashed = None\<rparr>]"
    by (auto simp: apply_create_def split: if_splits) (metis resolve_parent_InrD)
  show ?thesis
    unfolding t' using assms(1)
  proof (rule tree_ok_append)
    show "f_id \<lparr>f_id = fid, f_owner = user_id actor, f_name = name, f_parent = parent,
            f_position = next_position (folders t) (user_id actor) parent,
            f_project = project, f_defaults = defaults, f_trashed = None\<rparr> \<notin> ids (folders t)"
      using fresh by (simp add: find_folder_None)
  qed (use parent free in \<open>auto dest!: resolve_parent_InrD\<close>)
qed

lemma apply_move_ok:
  assumes "tree_ok (folders t)" "apply_move t actor args = Inr (eff, t')"
  shows "tree_ok (folders t')"
proof -
  from assms(2) obtain fid q parent f where
    "key_arg args ''id'' = Inr fid" "live_touchable (folders t) actor fid = Inr f" and
    res: "resolve_parent (folders t) actor q = Inr parent" and
    free: "\<not> is_descendant (folders t) parent fid" and
    "t' = edit_folder t fid (\<lambda>g. g\<lparr>f_parent := parent,
            f_position := next_position (folders t) (f_owner f) parent\<rparr>)"
    unfolding apply_move_def by (auto split: if_splits)
  then have t': "folders t' = reparent fid parent (next_position (folders t) (f_owner f) parent) (folders t)"
    by (simp add: edit_folder_def reparent_def)
  show ?thesis
    unfolding t' using assms(1)
  proof (rule reparent_ok)
    fix p assume p: "parent = Some p"
    with res show "\<exists>f \<in> set (folders t). f_id f = p \<and> f_trashed f = None"
      by (auto dest!: resolve_parent_InrD)
    from p free is_descendant_iff [OF tree_okD(1) [OF assms(1)]]
    show "(p, fid) \<notin> (parent_rel (folders t))\<^sup>*" by simp
  qed
qed

end
