(* ===== verification/Folder_Safety.thy ===== *)
theory Folder_Safety
  imports Folder_Invariants
begin

text \<open>
  Every mutation of the folder tree, and every Trash operation, keeps the tree well formed, and the
  Trash operations do exactly what their comments promise.
\<close>

section \<open>Edits that keep the structure\<close>

definition struct_key :: "session_folder \<Rightarrow> string \<times> string option \<times> int option" where
  "struct_key f = (f_id f, f_parent f, f_trashed f)"

lemma structure_cong:
  assumes "map struct_key fs = map struct_key fs'"
  shows "ids fs = ids fs'" "ids_distinct fs \<longleftrightarrow> ids_distinct fs'" "parent_rel fs = parent_rel fs'"
    "parents_exist fs \<longleftrightarrow> parents_exist fs'" "live_parents fs \<longleftrightarrow> live_parents fs'"
proof -
  have key: "P xs = Q (map struct_key xs)" if "\<And>xs. P xs = Q (map struct_key xs)" for P Q and xs
    using that .
  have ids: "ids xs = fst ` set (map struct_key xs)" for xs
    by (simp add: ids_def struct_key_def image_image)
  have dist: "ids_distinct xs \<longleftrightarrow> distinct (map fst (map struct_key xs))" for xs
    by (simp add: ids_distinct_def struct_key_def comp_def)
  have rel: "parent_rel xs = {(i, p) | i p t. (i, Some p, t) \<in> set (map struct_key xs)}" for xs
  proof (rule set_eqI)
    fix e show "e \<in> parent_rel xs \<longleftrightarrow> e \<in> {(i, p) | i p t. (i, Some p, t) \<in> set (map struct_key xs)}"
      by (auto simp: parent_rel_def struct_key_def) (metis (mono_tags, lifting) imageI)
  qed
  have live: "live_parents xs \<longleftrightarrow> (\<forall>(i, p, t) \<in> set (map struct_key xs).
      \<forall>(i', p', t') \<in> set (map struct_key xs). t = None \<and> p = Some i' \<longrightarrow> t' = None)" for xs
    by (simp only: live_parents_def struct_key_def set_map ball_simps prod.case)
  show "ids fs = ids fs'" "ids_distinct fs \<longleftrightarrow> ids_distinct fs'" "parent_rel fs = parent_rel fs'"
    "parents_exist fs \<longleftrightarrow> parents_exist fs'" "live_parents fs \<longleftrightarrow> live_parents fs'"
    unfolding parents_exist_rel by (simp_all only: ids dist rel live assms)
qed

definition set_project :: "string \<Rightarrow> string option \<Rightarrow> session_folder list \<Rightarrow> session_folder list" where
  "set_project x v fs = update_first (\<lambda>f. f_id f = x) (\<lambda>f. f\<lparr>f_project := v\<rparr>) fs"

lemma struct_set_project: "map struct_key (set_project x v fs) = map struct_key fs"
  by (simp add: set_project_def map_update_first struct_key_def)

lemma set_project_map:
  "ids_distinct fs \<Longrightarrow> set_project x v fs = map (\<lambda>f. if f_id f = x then f\<lparr>f_project := v\<rparr> else f) fs"
  by (simp add: set_project_def update_first_distinct ids_distinct_def)

text \<open>Uniqueness of bindings among the folders that are live or listed.\<close>

definition claimed :: "string set \<Rightarrow> session_folder \<Rightarrow> bool" where
  "claimed S f \<longleftrightarrow> f_trashed f = None \<or> f_id f \<in> S"

definition unique_on :: "string set \<Rightarrow> session_folder list \<Rightarrow> bool" where
  "unique_on S fs \<longleftrightarrow> (\<forall>f \<in> set fs. \<forall>g \<in> set fs. \<forall>p.
     claimed S f \<longrightarrow> claimed S g \<longrightarrow> f_owner f = f_owner g \<longrightarrow>
     f_project f = Some p \<longrightarrow> f_project g = Some p \<longrightarrow> f_id f = f_id g)"

lemma unique_on_empty: "unique_on {} fs \<longleftrightarrow> projects_unique fs"
proof -
  have "(a \<noteq> None \<and> a = b) \<longleftrightarrow> (\<exists>p. a = Some p \<and> b = Some p)" for a b :: "string option"
    by (cases a) auto
  then show ?thesis
    unfolding unique_on_def projects_unique_def claimed_def by (simp only: empty_iff simp_thms) blast
qed

lemma unique_on_set_project:
  assumes d: "ids_distinct fs" and u: "unique_on S fs" and x: "h \<in> set fs"
    and free: "\<And>p g. v = Some p \<Longrightarrow> g \<in> set fs \<Longrightarrow> f_id g \<noteq> f_id h \<Longrightarrow> claimed S g \<Longrightarrow>
        f_owner g = f_owner h \<Longrightarrow> f_project g \<noteq> Some p"
  shows "unique_on (insert (f_id h) S) (set_project (f_id h) v fs)"
  unfolding unique_on_def
proof (intro ballI allI impI)
  let ?new = "\<lambda>f. if f_id f = f_id h then f\<lparr>f_project := v\<rparr> else f"
  fix f' g' p
  assume a: "f' \<in> set (set_project (f_id h) v fs)" "g' \<in> set (set_project (f_id h) v fs)"
    "claimed (insert (f_id h) S) f'" "claimed (insert (f_id h) S) g'" "f_owner f' = f_owner g'"
    "f_project f' = Some p" "f_project g' = Some p"
  from a(1,2) obtain f g where fg: "f \<in> set fs" "f' = ?new f" "g \<in> set fs" "g' = ?new g"
    unfolding set_project_map [OF d] by auto
  have other: False if "k \<in> set fs" "f_id k \<noteq> f_id h" "claimed (insert (f_id h) S) k"
      "f_owner k = f_owner h" "f_project k = Some p" "v = Some p" for k
    using free [of p k] that by (auto simp: claimed_def)
  show "f_id f' = f_id g'"
  proof (cases "f_id f = f_id h")
    case True
    then have fh: "f = h" using same_id_eq [OF d fg(1) x] by simp
    show ?thesis
    proof (cases "f_id g = f_id h")
      case False
      with a fg fh other [of g] show ?thesis by simp
    qed (use fg True in simp)
  next
    case False
    show ?thesis
    proof (cases "f_id g = f_id h")
      case True
      then have "g = h" using same_id_eq [OF d fg(3) x] by simp
      with False a fg other [of f] show ?thesis by simp
    next
      case g: False
      with False a(3-7) fg u show ?thesis
        unfolding unique_on_def claimed_def by (metis insert_iff)
    qed
  qed
qed

lemma apply_bind_ok:
  assumes "tree_ok (folders t)" "apply_bind t actor args = Inr (eff, t')"
  shows "tree_ok (folders t')"
proof -
  note ok = tree_okD [OF assms(1)]
  from assms(2) obtain fid project f where
    f: "live_touchable (folders t) actor fid = Inr f" and
    free: "\<not> (case project of None \<Rightarrow> False | Some p \<Rightarrow> project_taken (folders t) (f_owner f) p fid)" and
    "t' = edit_folder t fid (\<lambda>f. f\<lparr>f_project := project\<rparr>)"
    by (auto simp: apply_bind_def split: if_splits)
  then have t': "folders t' = set_project fid project (folders t)"
    by (simp add: edit_folder_def set_project_def)
  note fD = live_touchable_InrD [OF f]
  have "unique_on (insert (f_id f) {}) (set_project (f_id f) project (folders t))"
  proof (rule unique_on_set_project)
    fix p g assume p: "project = Some p" and g: "g \<in> set (folders t)" "f_id g \<noteq> f_id f" "claimed {} g"
      "f_owner g = f_owner f"
    from p free have "\<not> project_taken (folders t) (f_owner f) p fid" by simp
    with g fD show "f_project g \<noteq> Some p"
      by (auto simp: project_taken_def list_ex_iff claimed_def)
  qed (use ok fD in \<open>auto simp: unique_on_empty\<close>)
  then have "projects_unique (folders t')"
    using fD unfolding t' unique_on_empty [symmetric] unique_on_def claimed_def by blast
  then show ?thesis
    using ok structure_cong [OF struct_set_project, of fid project "folders t"]
    unfolding tree_ok_def t' by (simp only: simp_thms)
qed

section \<open>Reordering and removal\<close>

lemma renumber_shape: "map shape (renumber i xs fs) = map shape fs"
  by (induction xs arbitrary: i fs) (simp_all add: map_update_first shape_def)

lemma apply_reorder_ok:
  assumes "tree_ok (folders t)" "apply_reorder t actor args = Some (Inr (eff, t'))"
  shows "tree_ok (folders t')"
proof -
  from assms(2) obtain merged where "folders t' = position_sorted (renumber 0 merged (folders t))"
    by (auto simp: apply_reorder_def Let_def split: sum.splits prod.splits)
  then show ?thesis
    using assms(1) tree_ok_shape [of "renumber 0 merged (folders t)" "folders t"]
    by (simp only: tree_ok_position_sorted renumber_shape)
qed

lemma distinct_siblings: "ids_distinct fs \<Longrightarrow> distinct (map f_id (siblings fs parent owner))"
  unfolding siblings_def position_sorted_def ids_distinct_def
  by (simp add: distinct_map distinct_map_filter_id inj_on_def)

lemma apply_reorder_total:
  assumes "ids_distinct (folders t)"
  shows "apply_reorder t actor args \<noteq> None"
proof -
  have "merge_session_order (map f_id (siblings (folders t) parent w)) sub \<noteq> None" for parent w sub
    using merge_session_order_spec [OF distinct_siblings [OF assms], of parent w sub]
    by (metis option.distinct(1))
  then show ?thesis
    by (auto simp: apply_reorder_def Let_def split: sum.splits)
qed

lemma apply_place_ok:
  "tree_ok (folders t) \<Longrightarrow> apply_place t actor args = Inr (eff, t') \<Longrightarrow> tree_ok (folders t')"
  by (auto simp: apply_place_def Let_def)

lemma parent_rel_reparent_keep:
  "ids_distinct fs \<Longrightarrow> (a, b) \<in> parent_rel fs \<Longrightarrow> a \<noteq> x \<Longrightarrow> (a, b) \<in> parent_rel (reparent x q pos fs)"
  by (force simp: parent_rel_def reparent_map)

lemma trash_key_reparent:
  "map (\<lambda>f. (f_id f, f_owner f, f_project f, f_trashed f)) (reparent x q pos fs)
   = map (\<lambda>f. (f_id f, f_owner f, f_project f, f_trashed f)) fs"
  by (simp add: reparent_def map_update_first)

definition live_id :: "session_folder list \<Rightarrow> string \<Rightarrow> bool" where
  "live_id fs x \<longleftrightarrow> (\<exists>f \<in> set fs. f_id f = x \<and> f_trashed f = None)"

lemma live_id_reparent [simp]: "live_id (reparent x q pos fs) y \<longleftrightarrow> live_id fs y"
proof -
  have "live_id xs y \<longleftrightarrow> (\<exists>(i, w, pr, t) \<in> set (map (\<lambda>f. (f_id f, f_owner f, f_project f, f_trashed f)) xs).
      i = y \<and> t = None)" for xs
    by (simp add: live_id_def)
  then show ?thesis by (simp only: trash_key_reparent)
qed

lemma step_up_reparent:
  "step_up q pos (x # xs) fs = step_up q (i64_add pos 1) xs (reparent x q pos fs)"
  by (simp add: reparent_def)

lemma step_up_ok:
  assumes "tree_ok fs" "\<And>p. q = Some p \<Longrightarrow> live_id fs p \<and> (r, p) \<in> parent_rel fs"
    and "\<And>x. x \<in> set xs \<Longrightarrow> (x, r) \<in> parent_rel fs" and "distinct xs"
  shows "tree_ok (step_up q pos xs fs)"
    and "{a. (a, r) \<in> parent_rel (step_up q pos xs fs)} \<subseteq> {a. (a, r) \<in> parent_rel fs} - set xs"
    and "ids (step_up q pos xs fs) = ids fs"
proof -
  have "tree_ok (step_up q pos xs fs)
      \<and> {a. (a, r) \<in> parent_rel (step_up q pos xs fs)} \<subseteq> {a. (a, r) \<in> parent_rel fs} - set xs
      \<and> ids (step_up q pos xs fs) = ids fs"
    using assms
  proof (induction xs arbitrary: pos fs)
    case Nil
    then show ?case by simp
  next
    case (Cons x xs)
    note d = tree_okD(1) [OF Cons.prems(1)] and ac = tree_okD(3) [OF Cons.prems(1)]
    have xr: "(x, r) \<in> parent_rel fs" using Cons.prems(3) by simp
    have not_up: "(p, x) \<notin> (parent_rel fs)\<^sup>*" if "q = Some p" for p
    proof
      assume "(p, x) \<in> (parent_rel fs)\<^sup>*"
      with xr have "(p, r) \<in> (parent_rel fs)\<^sup>*" by simp
      moreover from Cons.prems(2) [OF that] have "(r, p) \<in> parent_rel fs" ..
      ultimately have "(r, r) \<in> (parent_rel fs)\<^sup>+" by (rule rtrancl_into_trancl2 [rotated])
      with ac show False by (simp add: acyclic_def)
    qed
    have q_ne: "q \<noteq> Some r"
      using Cons.prems(2) ac by (auto simp: acyclic_def)
    have ok1: "tree_ok (reparent x q pos fs)"
    proof (rule reparent_ok [OF Cons.prems(1)])
      fix p assume "q = Some p"
      with Cons.prems(2) show "\<exists>f \<in> set fs. f_id f = p \<and> f_trashed f = None"
        unfolding live_id_def by blast
    qed (rule not_up)
    have rx: "r \<noteq> x" using xr ac by (auto simp: acyclic_def)
    have gone: "{a. (a, r) \<in> parent_rel (reparent x q pos fs)} \<subseteq> {a. (a, r) \<in> parent_rel fs} - {x}"
      using parent_rel_reparent_other [OF d, of x q pos] q_ne by blast
    have "tree_ok (step_up q (i64_add pos 1) xs (reparent x q pos fs))
      \<and> {a. (a, r) \<in> parent_rel (step_up q (i64_add pos 1) xs (reparent x q pos fs))}
          \<subseteq> {a. (a, r) \<in> parent_rel (reparent x q pos fs)} - set xs
      \<and> ids (step_up q (i64_add pos 1) xs (reparent x q pos fs)) = ids (reparent x q pos fs)"
    proof (rule Cons.IH [OF ok1])
      fix p assume "q = Some p"
      from Cons.prems(2) [OF this] rx
      show "live_id (reparent x q pos fs) p \<and> (r, p) \<in> parent_rel (reparent x q pos fs)"
        by (simp add: parent_rel_reparent_keep d)
    next
      fix y assume "y \<in> set xs"
      with Cons.prems(3,4) show "(y, r) \<in> parent_rel (reparent x q pos fs)"
        by (auto intro!: parent_rel_reparent_keep [OF d])
    qed (use Cons.prems(4) in simp)
    with gone show ?case unfolding step_up_reparent by auto
  qed
  then show "tree_ok (step_up q pos xs fs)"
    "{a. (a, r) \<in> parent_rel (step_up q pos xs fs)} \<subseteq> {a. (a, r) \<in> parent_rel fs} - set xs"
    "ids (step_up q pos xs fs) = ids fs" by simp_all
qed

lemma children_exact:
  "set (map f_id (position_sorted (filter (\<lambda>f. f_parent f = Some r) fs))) = {a. (a, r) \<in> parent_rel fs}"
  by (auto simp: parent_rel_def)

lemma distinct_children:
  "ids_distinct fs \<Longrightarrow> distinct (map f_id (position_sorted (filter P fs)))"
  unfolding position_sorted_def ids_distinct_def by (simp add: distinct_map inj_on_def)

lemma no_child_left:
  "{a. (a, r) \<in> R'} \<subseteq> {a. (a, r) \<in> R} - K \<Longrightarrow> K = {a. (a, r) \<in> R} \<Longrightarrow> (a, r) \<notin> R'"
  by blast

lemma remove_tree_ok:
  assumes ok: "tree_ok fs" and r: "h \<in> set fs" "f_trashed h = None"
  shows "tree_ok (filter (\<lambda>f. f_id f \<noteq> f_id h)
      (step_up (f_parent h) pos
        (map f_id (position_sorted (filter (\<lambda>f. f_parent f = Some (f_id h)) fs))) fs))"
    (is "tree_ok (filter _ (step_up _ _ ?kids fs))")
proof -
  note d = tree_okD [OF ok]
  have up: "live_id fs p \<and> (f_id h, p) \<in> parent_rel fs" if "f_parent h = Some p" for p
  proof
    show rel: "(f_id h, p) \<in> parent_rel fs" using that r(1) by (metis parent_relI)
    from parent_rel_ran [OF d(2) rel] obtain g where "g \<in> set fs" "f_id g = p" by (auto simp: ids_def)
    with that r d(4) show "live_id fs p" unfolding live_parents_def live_id_def by blast
  qed
  have kids: "(x, f_id h) \<in> parent_rel fs" if "x \<in> set ?kids" for x
    using that unfolding children_exact by simp
  note s = step_up_ok [OF ok up kids distinct_children [OF d(1)], where pos = pos]
  show ?thesis
  proof (rule tree_ok_filter [OF s(1)])
    fix f g assume "f \<in> set (step_up (f_parent h) pos ?kids fs)" "f_parent f = Some (f_id g)"
    then have rel: "(f_id f, f_id g) \<in> parent_rel (step_up (f_parent h) pos ?kids fs)"
      by (rule parent_relI)
    have none: "(a, f_id h) \<notin> parent_rel (step_up (f_parent h) pos ?kids fs)" for a
      by (rule no_child_left [OF s(2) children_exact])
    show "f_id g \<noteq> f_id h"
    proof
      assume eq: "f_id g = f_id h"
      show False using rel none [of "f_id f"] unfolding eq by (rule notE [rotated])
    qed
  qed
qed

lemma apply_remove_ok:
  assumes "tree_ok (folders t)" "apply_remove t actor args = Inr (eff, t')"
  shows "tree_ok (folders t')"
proof -
  from assms(2) obtain fid h where h: "live_touchable (folders t) actor fid = Inr h" and
    t': "folders t' = position_sorted (filter (\<lambda>f. f_id f \<noteq> fid)
      (step_up (f_parent h) (next_position (folders t) (f_owner h) (f_parent h))
        (map f_id (position_sorted (filter (\<lambda>f. f_parent f = Some fid) (folders t)))) (folders t)))"
    by (auto simp: apply_remove_def Let_def)
  from live_touchable_InrD [OF h] have "h \<in> set (folders t)" "f_trashed h = None" "f_id h = fid" by blast+
  with remove_tree_ok [OF assms(1), of h] show ?thesis
    unfolding t' tree_ok_position_sorted by metis
qed

lemma dispatch_mutation_ok:
  assumes "tree_ok (folders t)" "dispatch_mutation t actor m args = Some (Inr (eff, t'))"
  shows "tree_ok (folders t')"
  using assms unfolding dispatch_mutation_def
  by (auto split: if_splits intro: apply_defaults_ok apply_create_ok apply_rename_ok apply_move_ok
      apply_reorder_ok apply_bind_ok apply_place_ok apply_remove_ok)

lemma apply_mutation_ok:
  assumes "tree_ok (folders t)" "apply_mutation t actor m args = Some (Inr (eff, t'))"
  shows "tree_ok (folders t')"
proof -
  from assms(2) obtain r where r: "dispatch_mutation t actor m args = Some r"
    by (auto simp: apply_mutation_def)
  with assms(2) obtain t1 where "r = Inr (eff, t1)" "folders t' = folders t1"
    by (cases r) (auto simp: apply_mutation_def changed_def split: if_split_asm)
  with r dispatch_mutation_ok [OF assms(1)] show ?thesis by simp
qed

lemma apply_mutation_total: "ids_distinct (folders t) \<Longrightarrow> apply_mutation t actor m args \<noteq> None"
  using apply_reorder_total by (auto simp: apply_mutation_def dispatch_mutation_def)

end
