(* ===== verification/Folder_Trash.thy ===== *)
theory Folder_Trash
  imports Folder_Safety
begin

text \<open>
  The Trash of the folder tree: what moving to Trash, restoring and deleting for good do to it.
\<close>

section \<open>Stamping\<close>

lemma pairs_of_image:
  "{(a f, p) | f p. f \<in> S \<and> b f = Some p} = {e. (fst e, Some (snd e)) \<in> (\<lambda>f. (a f, b f)) ` S}"
proof (rule set_eqI)
  fix e :: "'a \<times> 'b"
  obtain i p where e: "e = (i, p)" by (cases e)
  have "(i, Some p) \<in> (\<lambda>f. (a f, b f)) ` S \<longleftrightarrow> (\<exists>f. f \<in> S \<and> i = a f \<and> b f = Some p)"
    unfolding image_iff prod.inject Bex_def by metis
  then show "e \<in> {(a f, p) | f p. f \<in> S \<and> b f = Some p}
      \<longleftrightarrow> e \<in> {e. (fst e, Some (snd e)) \<in> (\<lambda>f. (a f, b f)) ` S}"
    unfolding e mem_Collect_eq fst_conv snd_conv by blast
qed

lemma stamp_fields:
  "parent_rel (stamp_trashed T v fs) = parent_rel fs" "ids (stamp_trashed T v fs) = ids fs"
  "ids_distinct (stamp_trashed T v fs) \<longleftrightarrow> ids_distinct fs"
proof -
  have "map (\<lambda>f. (f_id f, f_parent f)) (stamp_trashed T v fs) = map (\<lambda>f. (f_id f, f_parent f)) fs"
    by (simp add: stamp_trashed_def)
  then have key: "P (map (\<lambda>f. (f_id f, f_parent f)) (stamp_trashed T v fs))
      = P (map (\<lambda>f. (f_id f, f_parent f)) fs)" for P :: "(string \<times> string option) list \<Rightarrow> 'a"
    by (rule arg_cong)
  have rel: "parent_rel xs = {e. (fst e, Some (snd e)) \<in> set (map (\<lambda>f. (f_id f, f_parent f)) xs)}" for xs
    unfolding parent_rel_def set_map by (rule pairs_of_image)
  show "parent_rel (stamp_trashed T v fs) = parent_rel fs"
    by (simp only: rel key)
  have "ids xs = fst ` set (map (\<lambda>f. (f_id f, f_parent f)) xs)" for xs
    by (simp add: ids_def image_image)
  then show "ids (stamp_trashed T v fs) = ids fs" by (simp only: key)
  have "ids_distinct xs \<longleftrightarrow> distinct (map fst (map (\<lambda>f. (f_id f, f_parent f)) xs))" for xs
    by (simp add: ids_distinct_def comp_def)
  then show "ids_distinct (stamp_trashed T v fs) \<longleftrightarrow> ids_distinct fs" by (simp only: key)
qed

lemma in_stamp:
  "f' \<in> set (stamp_trashed T v fs) \<longleftrightarrow>
   (\<exists>f \<in> set fs. f' = (if f_id f \<in> set T then f\<lparr>f_trashed := v\<rparr> else f))"
  by (auto simp: stamp_trashed_def)

lemma in_stampE:
  assumes "f' \<in> set (stamp_trashed T v fs)"
  obtains f where "f \<in> set fs" "f_id f' = f_id f" "f_owner f' = f_owner f" "f_parent f' = f_parent f"
    "f_project f' = f_project f" "f_trashed f' = (if f_id f \<in> set T then v else f_trashed f)"
proof -
  from assms obtain f where f: "f \<in> set fs" "f' = (if f_id f \<in> set T then f\<lparr>f_trashed := v\<rparr> else f)"
    unfolding in_stamp by blast
  show thesis by (rule that [OF f(1)]) (simp_all add: f(2))
qed

lemma tree_ok_stamp:
  assumes ok: "ids_distinct fs" "parents_exist fs" "acyclic (parent_rel fs)"
    and up: "\<And>f g. f \<in> set fs \<Longrightarrow> g \<in> set fs \<Longrightarrow> f_parent f = Some (f_id g) \<Longrightarrow>
        (if f_id f \<in> set T then v else f_trashed f) = None \<Longrightarrow>
        (if f_id g \<in> set T then v else f_trashed g) = None"
    and uniq: "\<And>f g. f \<in> set fs \<Longrightarrow> g \<in> set fs \<Longrightarrow> f_owner f = f_owner g \<Longrightarrow>
        f_project f \<noteq> None \<Longrightarrow> f_project f = f_project g \<Longrightarrow>
        (if f_id f \<in> set T then v else f_trashed f) = None \<Longrightarrow>
        (if f_id g \<in> set T then v else f_trashed g) = None \<Longrightarrow> f_id f = f_id g"
  shows "tree_ok (stamp_trashed T v fs)"
proof -
  have "live_parents (stamp_trashed T v fs)"
    unfolding live_parents_def
  proof (intro ballI impI)
    fix f' g' assume a: "f' \<in> set (stamp_trashed T v fs)" "g' \<in> set (stamp_trashed T v fs)"
      "f_trashed f' = None \<and> f_parent f' = Some (f_id g')"
    from in_stampE [OF a(1)] obtain f where f: "f \<in> set fs" "f_parent f' = f_parent f"
      "f_trashed f' = (if f_id f \<in> set T then v else f_trashed f)" by metis
    from in_stampE [OF a(2)] obtain g where g: "g \<in> set fs" "f_id g' = f_id g"
      "f_trashed g' = (if f_id g \<in> set T then v else f_trashed g)" by metis
    have "f_parent f = Some (f_id g)" using a(3) f(2) g(2) by (metis (no_types))
    moreover have "(if f_id f \<in> set T then v else f_trashed f) = None" using a(3) f(3) by (metis (no_types))
    ultimately show "f_trashed g' = None" unfolding g(3) by (rule up [OF f(1) g(1)])
  qed
  moreover have "projects_unique (stamp_trashed T v fs)"
    unfolding projects_unique_def
  proof (intro ballI impI)
    fix f' g' assume a: "f' \<in> set (stamp_trashed T v fs)" "g' \<in> set (stamp_trashed T v fs)"
      "f_trashed f' = None \<and> f_trashed g' = None \<and> f_owner f' = f_owner g'
       \<and> f_project f' \<noteq> None \<and> f_project f' = f_project g'"
    show "f_id f' = f_id g'"
      by (rule in_stampE [OF a(1)], rule in_stampE [OF a(2)]) (metis (no_types) a(3) uniq)
  qed
  moreover have "parents_exist (stamp_trashed T v fs)"
    using ok(2) unfolding parents_exist_rel stamp_fields .
  ultimately show ?thesis
    using ok by (simp add: tree_ok_def stamp_fields)
qed

section \<open>Moving to Trash\<close>

lemma trash_collect_spec:
  "trash_collect fs actor xs acc = Inr res \<Longrightarrow>
   set res = set acc \<union> {b. \<not> is_trashed fs b \<and> (\<exists>x \<in> set xs. b \<in> set (subtree fs x))}
   \<and> (\<forall>x \<in> set xs. \<exists>f \<in> set fs. f_id f = x \<and> can_touch actor f \<and> f_trashed f = None)"
proof (induction xs arbitrary: acc)
  case Nil
  then show ?case by simp
next
  case (Cons x xs)
  from Cons.prems obtain f below where f: "touchable fs actor x = Inr f" "f_trashed f = None"
    and b: "owned_subtree fs actor x = Inr below"
    and rest: "trash_collect fs actor xs (push_new (filter (\<lambda>b. \<not> is_trashed fs b) below) acc) = Inr res"
    by (auto split: if_splits)
  from owned_subtree_InrD [OF b] have "below = subtree fs x" by simp
  with Cons.IH [OF rest] touchable_InrD [OF f(1)] f(2) show ?case by auto
qed

lemma trash_spec:
  assumes ok: "tree_ok (folders t)" and run: "trash t actor xs now = Inr ((T, owners), t')"
  shows "folders t' = stamp_trashed T (Some now) (folders t)"
    and "set T = {b. \<not> is_trashed (folders t) b
           \<and> (\<exists>x \<in> set xs. (b, x) \<in> (parent_rel (folders t))\<^sup>*)}"
    and "\<forall>x \<in> set xs. \<exists>f \<in> set (folders t). f_id f = x \<and> can_touch actor f \<and> f_trashed f = None"
proof -
  from run have c: "trash_collect (folders t) actor xs [] = Inr T"
    and t': "folders t' = stamp_trashed T (Some now) (folders t)"
    by (auto simp: trash_def Let_def changed_def)
  note s = trash_collect_spec [OF c]
  from s show named: "\<forall>x \<in> set xs. \<exists>f \<in> set (folders t). f_id f = x \<and> can_touch actor f \<and> f_trashed f = None"
    by blast
  then have "set (subtree (folders t) x) = {b. (b, x) \<in> (parent_rel (folders t))\<^sup>*}" if "x \<in> set xs" for x
    using that subtree_exact(1) [of x "folders t"] by (auto simp: ids_def)
  with s show "set T = {b. \<not> is_trashed (folders t) b
           \<and> (\<exists>x \<in> set xs. (b, x) \<in> (parent_rel (folders t))\<^sup>*)}" by auto
  show "folders t' = stamp_trashed T (Some now) (folders t)" by (rule t')
qed

lemma trash_ok:
  assumes ok: "tree_ok (folders t)" and run: "trash t actor xs now = Inr ((T, owners), t')"
  shows "tree_ok (folders t')"
proof -
  note d = tree_okD [OF ok] and s = trash_spec [OF ok run]
  show ?thesis
    unfolding s(1)
  proof (rule tree_ok_stamp [OF d(1-3)])
    fix f g assume fg: "f \<in> set (folders t)" "g \<in> set (folders t)" "f_parent f = Some (f_id g)"
      and live: "(if f_id f \<in> set T then Some now else f_trashed f) = None"
    then have f: "f_id f \<notin> set T" "f_trashed f = None" by (auto split: if_splits)
    have rel: "(f_id f, f_id g) \<in> parent_rel (folders t)" by (rule parent_relI [OF fg(1,3)])
    have "f_trashed g = None" using d(4) fg f(2) unfolding live_parents_def by blast
    moreover have "f_id g \<notin> set T"
    proof
      assume "f_id g \<in> set T"
      then obtain x where "x \<in> set xs" "(f_id g, x) \<in> (parent_rel (folders t))\<^sup>*" unfolding s(2) by blast
      with rel have "(f_id f, x) \<in> (parent_rel (folders t))\<^sup>*" by (blast intro: converse_rtrancl_into_rtrancl)
      moreover have "\<not> is_trashed (folders t) (f_id f)" using is_trashed_iff [OF d(1) fg(1)] f(2) by simp
      ultimately have "f_id f \<in> set T" unfolding s(2) using \<open>x \<in> set xs\<close> by blast
      with f(1) show False ..
    qed
    ultimately show "(if f_id g \<in> set T then Some now else f_trashed g) = None" by simp
  next
    fix f g assume fg: "f \<in> set (folders t)" "g \<in> set (folders t)" "f_owner f = f_owner g"
        "f_project f \<noteq> None" "f_project f = f_project g"
      and "(if f_id f \<in> set T then Some now else f_trashed f) = None"
        "(if f_id g \<in> set T then Some now else f_trashed g) = None"
    then have "f_trashed f = None" "f_trashed g = None" by (auto split: if_splits)
    with fg d(5) show "f_id f = f_id g" unfolding projects_unique_def by blast
  qed
qed

section \<open>Deleting for good\<close>

lemma purge_collect_spec:
  "set (purge_collect fs actor occ xs acc) =
     set acc \<union> {b. \<exists>x \<in> set xs. \<exists>f. touchable fs actor x = Inr f \<and> f_trashed f \<noteq> None
        \<and> is_ok (owned_subtree fs actor x)
        \<and> (\<forall>y \<in> set (subtree fs x). y \<notin> set occ \<and> is_trashed fs y)
        \<and> b \<in> set (subtree fs x)}"
proof (induction xs arbitrary: acc)
  case Nil
  then show ?case by simp
next
  case (Cons x xs)
  show ?case
  proof (cases "touchable fs actor x")
    case (Inl e)
    then show ?thesis using Cons.IH by simp
  next
    case touch: (Inr f)
    show ?thesis
    proof (cases "owned_subtree fs actor x")
      case (Inl e)
      then show ?thesis using Cons.IH touch by simp
    next
      case (Inr below)
      then have b: "below = subtree fs x" by (simp add: owned_subtree_InrD)
      show ?thesis
        using Cons.IH touch Inr unfolding b by (auto simp: list_ex_iff)
    qed
  qed
qed

lemma purge_spec:
  assumes ok: "tree_ok (folders t)" and run: "purge t actor xs occ = ((R, owners), t')"
  shows "folders t' = filter (\<lambda>f. f_id f \<notin> set R) (folders t)"
    and "placement t' = filter (\<lambda>p. snd p \<notin> set R) (placement t)"
    and "\<And>y. y \<in> set R \<Longrightarrow> y \<notin> set occ \<and> is_trashed (folders t) y
           \<and> (\<exists>f \<in> set (folders t). f_id f = y \<and> can_touch actor f)
           \<and> (\<exists>x \<in> set xs. (y, x) \<in> (parent_rel (folders t))\<^sup>*)"
    and "\<And>x y. (x, y) \<in> parent_rel (folders t) \<Longrightarrow> y \<in> set R \<Longrightarrow> x \<in> set R"
proof -
  let ?fs = "folders t"
  from run have R: "R = purge_collect ?fs actor occ xs []"
    and t': "folders t' = filter (\<lambda>f. f_id f \<notin> set R) ?fs"
      "placement t' = filter (\<lambda>p. snd p \<notin> set R) (placement t)"
    by (auto simp: purge_def Let_def changed_def)
  show "folders t' = filter (\<lambda>f. f_id f \<notin> set R) ?fs"
    "placement t' = filter (\<lambda>p. snd p \<notin> set R) (placement t)" by (fact t')+
  note s = purge_collect_spec [of ?fs actor occ xs "[]", folded R]
  have root: "\<exists>x \<in> set xs. x \<in> ids ?fs \<and> is_ok (owned_subtree ?fs actor x)
      \<and> (\<forall>y \<in> set (subtree ?fs x). y \<notin> set occ \<and> is_trashed ?fs y \<and> y \<in> set R) \<and> y \<in> set (subtree ?fs x)"
    if "y \<in> set R" for y
  proof -
    from that s obtain x f where x: "x \<in> set xs" "touchable ?fs actor x = Inr f" "f_trashed f \<noteq> None"
      "is_ok (owned_subtree ?fs actor x)"
      "\<forall>y \<in> set (subtree ?fs x). y \<notin> set occ \<and> is_trashed ?fs y" "y \<in> set (subtree ?fs x)"
      by auto
    with touchable_InrD [OF x(2)] s have "x \<in> ids ?fs" "\<forall>y \<in> set (subtree ?fs x). y \<in> set R" by auto
    with x show ?thesis by blast
  qed
  show "x \<in> set R" if "(x, y) \<in> parent_rel ?fs" "y \<in> set R" for x y
    using root [OF that(2)] subtree_closed [OF _ that(1)] by blast
  show "y \<notin> set occ \<and> is_trashed ?fs y \<and> (\<exists>f \<in> set ?fs. f_id f = y \<and> can_touch actor f)
      \<and> (\<exists>x \<in> set xs. (y, x) \<in> (parent_rel ?fs)\<^sup>*)" if "y \<in> set R" for y
  proof -
    from root [OF that] obtain x where x: "x \<in> set xs" "x \<in> ids ?fs" "is_ok (owned_subtree ?fs actor x)"
      "y \<notin> set occ" "is_trashed ?fs y" "y \<in> set (subtree ?fs x)" by blast
    then obtain below where "owned_subtree ?fs actor x = Inr below" by (auto simp: is_ok_iff)
    from owned_subtree_InrD [OF this] x subtree_exact(1) [OF x(2)] show ?thesis by blast
  qed
qed

lemma purge_ok:
  assumes ok: "tree_ok (folders t)" and run: "purge t actor xs occ = ((R, owners), t')"
  shows "tree_ok (folders t')"
  unfolding purge_spec(1) [OF assms]
proof (rule tree_ok_filter [OF ok])
  fix f g assume "f \<in> set (folders t)" "f_id f \<notin> set R" "f_parent f = Some (f_id g)"
  with purge_spec(4) [OF assms, of "f_id f" "f_id g"] show "f_id g \<notin> set R"
    by (blast intro: parent_relI)
qed

end
