(* ===== verification/Folder_Restore.thy ===== *)
theory Folder_Restore
  imports Folder_Trash
begin

text \<open>
  Restoring folders from Trash: the roots named find a live parent, every restored folder keeps or
  loses its project binding, and the tree stays well formed.
\<close>

section \<open>What is restored\<close>

lemma restore_collect_spec:
  "restore_collect fs actor xs acc = Inr res \<Longrightarrow>
   set res = set acc \<union> {b. is_trashed fs b \<and> (\<exists>x \<in> set xs. b \<in> set (subtree fs x))}
   \<and> (\<forall>x \<in> set xs. \<exists>f \<in> set fs. f_id f = x \<and> can_touch actor f \<and> f_trashed f \<noteq> None)"
proof (induction xs arbitrary: acc)
  case Nil
  then show ?case by simp
next
  case (Cons x xs)
  from Cons.prems obtain f below where f: "touchable fs actor x = Inr f" "f_trashed f \<noteq> None"
    and b: "owned_subtree fs actor x = Inr below"
    and rest: "restore_collect fs actor xs (push_new (filter (\<lambda>b. is_trashed fs b) below) acc) = Inr res"
    by (auto split: if_splits)
  from owned_subtree_InrD [OF b] have "below = subtree fs x" by simp
  with Cons.IH [OF rest] touchable_InrD [OF f(1)] f(2) show ?case by auto
qed

section \<open>Finding a live parent\<close>

lemma nearest_live_walk_spec:
  "ids_distinct fs \<Longrightarrow> nearest_live_walk fs n (Some p) = Some q \<Longrightarrow>
   live_id fs q \<and> (p, q) \<in> (parent_rel fs)\<^sup>*"
proof (induction n arbitrary: p)
  case 0
  then show ?case by simp
next
  case (Suc n)
  from Suc.prems(2) obtain f where f: "find_folder fs p = Some f" by (auto split: option.splits)
  note fD = find_folderD [OF f]
  show ?case
  proof (cases "f_trashed f = None")
    case True
    with Suc.prems(2) f fD show ?thesis by (auto simp: live_id_def)
  next
    case False
    with Suc.prems(2) f have walk: "nearest_live_walk fs n (f_parent f) = Some q" by simp
    then obtain r where r: "f_parent f = Some r" by (cases "f_parent f"; cases n) auto
    with fD have "(p, r) \<in> parent_rel fs" by (metis parent_relI)
    with Suc.IH [OF Suc.prems(1)] walk r show ?thesis
      by (metis converse_rtrancl_into_rtrancl)
  qed
qed

lemma nearest_live_spec:
  "ids_distinct fs \<Longrightarrow> nearest_live fs c = Some q \<Longrightarrow>
   \<exists>p. c = Some p \<and> live_id fs q \<and> (p, q) \<in> (parent_rel fs)\<^sup>*"
  unfolding nearest_live_def by (cases c) (auto dest: nearest_live_walk_spec simp del: nearest_live_walk.simps(3))

lemma reparent_root_cases:
  obtains "fst (reparent_root R x (fs, msgs)) = fs" "\<not> parent_stays fs R (folder_parent fs x)"
  | "fst (reparent_root R x (fs, msgs)) = fs" "find_folder fs x = None"
  | pos where "fst (reparent_root R x (fs, msgs)) = reparent x (nearest_live fs (folder_parent fs x)) pos fs"
      "parent_stays fs R (folder_parent fs x)"
proof (cases "parent_stays fs R (folder_parent fs x)")
  case False
  then show thesis using that(1) by (simp add: reparent_root_def Let_def)
next
  case True
  show thesis
  proof (cases "find_folder fs x")
    case None
    with True show thesis using that(2) by (simp add: reparent_root_def Let_def)
  next
    case (Some f)
    with True show thesis
      using that(3) by (simp add: reparent_root_def Let_def reparent_def split: prod.splits)
  qed
qed

text \<open>A parent that a restored folder may have: none, a live one, or one restored with it.\<close>

definition settled :: "string list \<Rightarrow> session_folder list \<Rightarrow> string \<Rightarrow> bool" where
  "settled R fs x \<longleftrightarrow> (\<forall>p. (x, p) \<in> parent_rel fs \<longrightarrow> live_id fs p \<or> p \<in> set R)"

definition trash_key :: "session_folder \<Rightarrow> string \<times> folder_owner \<times> string option \<times> int option" where
  "trash_key f = (f_id f, f_owner f, f_project f, f_trashed f)"

lemma reparent_trash_key: "map trash_key (reparent x q pos fs) = map trash_key fs"
  by (simp add: reparent_def map_update_first trash_key_def)

lemma reparent_root_step:
  assumes ok: "tree_ok fs" and fs'_def: "fs' = fst (reparent_root R x (fs, msgs))"
  shows "tree_ok fs'" "settled R fs' x" "map trash_key fs' = map trash_key fs"
    "y \<noteq> x \<Longrightarrow> settled R fs y \<Longrightarrow> settled R fs' y"
proof -
  note d = tree_okD [OF ok]
  have "tree_ok fs' \<and> settled R fs' x \<and> map trash_key fs' = map trash_key fs
      \<and> (y \<noteq> x \<longrightarrow> settled R fs y \<longrightarrow> settled R fs' y)"
  proof (rule reparent_root_cases [of R x fs msgs, folded fs'_def])
    assume same: "fs' = fs" and stays: "\<not> parent_stays fs R (folder_parent fs x)"
    have "live_id fs p \<or> p \<in> set R" if rel: "(x, p) \<in> parent_rel fs" for p
    proof -
      from rel have fp: "folder_parent fs x = Some p" by (simp only: folder_parent_rel [OF d(1)])
      from parent_rel_ran [OF d(2) rel] obtain g where g: "g \<in> set fs" "f_id g = p" by (auto simp: ids_def)
      then have fg: "find_folder fs p = Some g" by (simp only: find_folder_Some [OF d(1)])
      from stays fp fg have "\<not> is_trashed fs p \<or> p \<in> set R"
        by (auto simp: parent_stays_def)
      with is_trashed_iff [OF d(1) g(1)] g show ?thesis by (auto simp: live_id_def)
    qed
    then show ?thesis using ok by (simp add: same settled_def)
  next
    assume same: "fs' = fs" and none: "find_folder fs x = None"
    from none have "x \<notin> ids fs" by (rule find_folder_None [THEN iffD1])
    then have "(x, p) \<notin> parent_rel fs" for p by (metis parent_rel_dom)
    then have "settled R fs x" by (simp add: settled_def)
    then show ?thesis unfolding same using ok by blast
  next
    fix pos
    let ?q = "nearest_live fs (folder_parent fs x)"
    assume new: "fs' = reparent x ?q pos fs"
    have up: "live_id fs p \<and> (x, p) \<in> (parent_rel fs)\<^sup>+" if q: "?q = Some p" for p
    proof -
      from nearest_live_spec [OF d(1) q] obtain r where
        r: "folder_parent fs x = Some r" "live_id fs p" "(r, p) \<in> (parent_rel fs)\<^sup>*" by blast
      from r(1) have "(x, r) \<in> parent_rel fs" by (simp only: folder_parent_rel [OF d(1)])
      with r show ?thesis by (metis rtrancl_into_trancl2)
    qed
    have "tree_ok fs'"
      unfolding new
    proof (rule reparent_ok [OF ok])
      fix p assume q: "?q = Some p"
      from up [OF q] show "\<exists>f \<in> set fs. f_id f = p \<and> f_trashed f = None"
        unfolding live_id_def by blast
      show "(p, x) \<notin> (parent_rel fs)\<^sup>*"
      proof
        assume "(p, x) \<in> (parent_rel fs)\<^sup>*"
        with up [OF q] have "(x, x) \<in> (parent_rel fs)\<^sup>+" by (metis trancl_rtrancl_trancl)
        with d(3) show False unfolding acyclic_def by blast
      qed
    qed
    moreover have "live_id fs p" if "(x, p) \<in> parent_rel fs'" for p
      using parent_rel_reparent_other [OF d(1), of x ?q pos] that up unfolding new by blast
    then have "settled R fs' x" by (simp add: settled_def new)
    moreover have "settled R fs' y" if "y \<noteq> x" "settled R fs y"
      using parent_rel_reparent_other [OF d(1), of x ?q pos] that
      unfolding settled_def new live_id_reparent by blast
    ultimately show ?thesis by (simp add: new reparent_trash_key)
  qed
  then show "tree_ok fs'" "settled R fs' x" "map trash_key fs' = map trash_key fs"
    "y \<noteq> x \<Longrightarrow> settled R fs y \<Longrightarrow> settled R fs' y" by simp_all
qed

lemma reparent_roots:
  assumes "tree_ok fs" "\<And>y. y \<in> S \<Longrightarrow> y \<notin> set xs \<Longrightarrow> settled R fs y"
  shows "tree_ok (fst (fold (reparent_root R) xs (fs, msgs)))
    \<and> map trash_key (fst (fold (reparent_root R) xs (fs, msgs))) = map trash_key fs
    \<and> (\<forall>y \<in> S. settled R (fst (fold (reparent_root R) xs (fs, msgs))) y)"
  using assms
proof (induction xs arbitrary: fs msgs)
  case Nil
  then show ?case by simp
next
  case (Cons x xs)
  obtain fs' msgs' where r: "reparent_root R x (fs, msgs) = (fs', msgs')" by fastforce
  note step = reparent_root_step [OF Cons.prems(1), of fs' R x msgs, unfolded r fst_conv, OF refl]
  have "tree_ok (fst (fold (reparent_root R) xs (fs', msgs')))
    \<and> map trash_key (fst (fold (reparent_root R) xs (fs', msgs'))) = map trash_key fs'
    \<and> (\<forall>y \<in> S. settled R (fst (fold (reparent_root R) xs (fs', msgs'))) y)"
  proof (rule Cons.IH [OF step(1)])
    fix y assume y: "y \<in> S" "y \<notin> set xs"
    show "settled R fs' y"
    proof (cases "y = x")
      case True
      with step(2) show ?thesis by simp
    next
      case False
      then have "settled R fs y" using Cons.prems(2) y by simp
      with False show ?thesis by (rule step(4))
    qed
  qed
  then show ?case by (simp add: r step(3))
qed

section \<open>Project bindings\<close>

lemma unique_on_insert:
  assumes u: "unique_on S fs"
    and free: "\<And>h g p. h \<in> set fs \<Longrightarrow> f_id h = x \<Longrightarrow> f_project h = Some p \<Longrightarrow> g \<in> set fs \<Longrightarrow>
        claimed S g \<Longrightarrow> f_owner g = f_owner h \<Longrightarrow> f_project g = Some p \<Longrightarrow> f_id g = x"
  shows "unique_on (insert x S) fs"
  unfolding unique_on_def
proof (intro ballI allI impI)
  fix f g p assume a: "f \<in> set fs" "g \<in> set fs" "claimed (insert x S) f" "claimed (insert x S) g"
    "f_owner f = f_owner g" "f_project f = Some p" "f_project g = Some p"
  from a(3) consider "f_id f = x" | "claimed S f" by (auto simp: claimed_def)
  then show "f_id f = f_id g"
  proof cases
    case 1
    from a(4) consider "f_id g = x" | "claimed S g" by (auto simp: claimed_def)
    then show ?thesis
    proof cases
      case g: 2
      from 1 free [OF a(1) 1 a(6) a(2) g a(5) [symmetric] a(7)] show ?thesis by (rule trans [OF _ sym])
    next
      case g: 1
      show ?thesis by (rule trans [OF 1 g [symmetric]])
    qed
  next
    case 2
    from a(4) consider "f_id g = x" | "claimed S g" by (auto simp: claimed_def)
    then show ?thesis
    proof cases
      case 1
      from free [OF a(2) 1 a(7) a(1) 2 a(5) a(6)] 1 show ?thesis by (rule trans [OF _ sym])
    next
      case g: 2
      with 2 a(1,2,5-7) u show ?thesis unfolding unique_on_def by blast
    qed
  qed
qed

text \<open>Every binding of a claimed folder is in the set of taken ones.\<close>

definition taken_ok :: "string set \<Rightarrow> taken_set \<Rightarrow> session_folder list \<Rightarrow> bool" where
  "taken_ok S taken fs \<longleftrightarrow>
     (\<forall>f \<in> set fs. \<forall>p. claimed S f \<longrightarrow> f_project f = Some p \<longrightarrow> (f_owner f, p) \<in> set taken)"

lemma taken_live: "taken_ok {} (live_projects fs) fs"
proof -
  have "(f_owner f, p) \<in> set (live_projects fs)"
    if "f \<in> set fs" "f_trashed f = None" "f_project f = Some p" for f p
    using that by (auto simp: live_projects_def image_iff intro!: exI [of _ f])
  then show ?thesis by (auto simp: taken_ok_def claimed_def)
qed

lemma set_project_None_claims:
  assumes d: "ids_distinct fs" and u: "unique_on S fs" and t: "taken_ok S taken fs"
  shows "unique_on (insert x S) (set_project x None fs)" "taken_ok (insert x S) taken (set_project x None fs)"
proof -
  have old: "claimed S f \<and> f \<in> set fs" if "f \<in> set (set_project x None fs)" "claimed (insert x S) f"
      "f_project f = Some p" for f p
  proof -
    from that(1) obtain g where g: "g \<in> set fs" "f = (if f_id g = x then g\<lparr>f_project := None\<rparr> else g)"
      unfolding set_project_map [OF d] by auto
    have "f_id g \<noteq> x" using that(3) unfolding g(2) by (cases "f_id g = x") simp_all
    then show ?thesis using g that(2) by (auto simp: claimed_def)
  qed
  show "unique_on (insert x S) (set_project x None fs)"
    unfolding unique_on_def by (intro ballI allI impI) (use u old in \<open>unfold unique_on_def, blast\<close>)
  show "taken_ok (insert x S) taken (set_project x None fs)"
    unfolding taken_ok_def by (intro ballI allI impI) (use t old in \<open>unfold taken_ok_def, blast\<close>)
qed

lemma claim_project_step:
  assumes d: "ids_distinct fs" and u: "unique_on S fs" and t: "taken_ok S taken fs"
    and run: "claim_project x ((fs, taken), msgs) = ((fs', taken'), msgs')"
  shows "unique_on (insert x S) fs' \<and> taken_ok (insert x S) taken' fs'
       \<and> map struct_key fs' = map struct_key fs"
proof (cases "find_folder fs x")
  case None
  then have no: "x \<notin> ids fs" by (rule find_folder_None [THEN iffD1])
  then have ne: "f_id f \<noteq> x" if "f \<in> set fs" for f using that by (auto simp: ids_def)
  from None run have same: "fs' = fs" "taken' = taken" by (simp_all add: claim_project_def)
  have "unique_on (insert x S) fs"
    by (rule unique_on_insert [OF u]) (use ne in blast)
  moreover have "taken_ok (insert x S) taken fs"
    using t ne unfolding taken_ok_def claimed_def by blast
  ultimately show ?thesis unfolding same by blast
next
  case (Some h)
  note hD = find_folderD [OF Some]
  have only: "g = h" if "g \<in> set fs" "f_id g = x" for g
    using same_id_eq [OF d that(1), of h] hD that(2) by simp
  show ?thesis
  proof (cases "f_project h")
    case None
    with Some run have same: "fs' = fs" "taken' = taken" by (simp_all add: claim_project_def)
    have "unique_on (insert x S) fs"
      by (rule unique_on_insert [OF u]) (use only None in simp)
    moreover have "taken_ok (insert x S) taken fs"
      using t only None unfolding taken_ok_def claimed_def by (metis insert_iff option.distinct(1))
    ultimately show ?thesis by (simp add: same)
  next
    case p: (Some p)
    show ?thesis
    proof (cases "(f_owner h, p) \<in> set taken")
      case True
      with Some p run have same: "fs' = set_project x None fs" "taken' = taken"
        by (simp_all add: claim_project_def set_project_def)
      show ?thesis
        using set_project_None_claims [OF d u t, of x] by (simp add: same struct_set_project)
    next
      case False
      with Some p run have same: "fs' = fs" "taken' = (f_owner h, p) # taken"
        by (auto simp: claim_project_def)
      have "unique_on (insert x S) fs"
      proof (rule unique_on_insert [OF u])
        fix k g q assume a: "k \<in> set fs" "f_id k = x" "f_project k = Some q" "g \<in> set fs" "claimed S g"
          "f_owner g = f_owner k" "f_project g = Some q"
        from only [OF a(1,2)] p a(3) have k: "k = h" "q = p" by simp_all
        from t a(4,5,7) have "(f_owner g, q) \<in> set taken" unfolding taken_ok_def by blast
        with False a(6) k show "f_id g = x" by simp
      qed
      moreover have "taken_ok (insert x S) ((f_owner h, p) # taken) fs"
        unfolding taken_ok_def
      proof (intro ballI allI impI)
        fix f q assume f: "f \<in> set fs" "claimed (insert x S) f" "f_project f = Some q"
        show "(f_owner f, q) \<in> set ((f_owner h, p) # taken)"
        proof (cases "f_id f = x")
          case True
          with only f p show ?thesis by simp
        next
          case False
          with f(2) have "claimed S f" by (simp add: claimed_def)
          with t f show ?thesis unfolding taken_ok_def by simp
        qed
      qed
      ultimately show ?thesis by (simp add: same)
    qed
  qed
qed

lemma claim_projects:
  assumes "ids_distinct fs" "unique_on S fs" "taken_ok S taken fs"
    and "fold claim_project xs ((fs, taken), msgs) = ((fs', taken'), msgs')"
  shows "unique_on (set xs \<union> S) fs' \<and> map struct_key fs' = map struct_key fs"
  using assms
proof (induction xs arbitrary: fs taken msgs S)
  case Nil
  then show ?case by simp
next
  case (Cons x xs)
  obtain fs1 taken1 msgs1 where r: "claim_project x ((fs, taken), msgs) = ((fs1, taken1), msgs1)"
    by (metis prod.exhaust)
  note step = claim_project_step [OF Cons.prems(1-3) r]
  have "ids_distinct fs1" using step Cons.prems(1) structure_cong(2) by blast
  from Cons.IH [OF this, of "insert x S" taken1 msgs1] step Cons.prems(4) r
  show ?case by simp
qed

section \<open>Restoring\<close>

lemma restore_spec:
  assumes ok: "tree_ok (folders t)" and run: "restore t actor xs = Inr ((R, owners, msgs), t')"
  shows "tree_ok (folders t')"
    and "set R = {b. is_trashed (folders t) b \<and> (\<exists>x \<in> set xs. (b, x) \<in> (parent_rel (folders t))\<^sup>*)}"
    and "\<forall>x \<in> set xs. \<exists>f \<in> set (folders t). f_id f = x \<and> can_touch actor f \<and> f_trashed f \<noteq> None"
    and "mset (map (\<lambda>f. (f_id f, f_trashed f)) (folders t'))
       = mset (map (\<lambda>f. (f_id f, if f_id f \<in> set R then None else f_trashed f)) (folders t))"
proof -
  let ?fs = "folders t"
  note d = tree_okD [OF ok]
  from run obtain R' where c': "restore_collect ?fs actor xs [] = Inr R'"
    by (cases "restore_collect ?fs actor xs []") (simp_all add: restore_def)
  with run have "R' = R" by (simp add: restore_def Let_def split: prod.splits)
  with c' have c: "restore_collect ?fs actor xs [] = Inr R" by simp
  obtain fs1 msgs1 where s1: "fold (reparent_root R) xs (?fs, []) = (fs1, msgs1)" by fastforce
  obtain fs2 taken2 msgs2 where
    s2: "fold claim_project R ((fs1, live_projects fs1), msgs1) = ((fs2, taken2), msgs2)"
    by (metis prod.exhaust)
  from run have t': "folders t' = position_sorted (stamp_trashed R None fs2)"
    by (auto simp: restore_def Let_def changed_def c s1 s2)
  note col = restore_collect_spec [OF c]
  from col show named: "\<forall>x \<in> set xs. \<exists>f \<in> set ?fs. f_id f = x \<and> can_touch actor f \<and> f_trashed f \<noteq> None"
    by blast
  then have in_ids: "x \<in> ids ?fs" if "x \<in> set xs" for x using that by (auto simp: ids_def)
  have sub: "set (subtree ?fs x) = {b. (b, x) \<in> (parent_rel ?fs)\<^sup>*}" if "x \<in> set xs" for x
    by (rule subtree_exact(1) [OF in_ids [OF that]])
  from col sub show R: "set R = {b. is_trashed ?fs b \<and> (\<exists>x \<in> set xs. (b, x) \<in> (parent_rel ?fs)\<^sup>*)}"
    by auto
  have start: "settled R ?fs y" if y: "y \<in> set R" "y \<notin> set xs" for y
    unfolding settled_def
  proof (intro allI impI)
    fix p assume rel: "(y, p) \<in> parent_rel ?fs"
    from parent_rel_ran [OF d(2) rel] obtain g where g: "g \<in> set ?fs" "f_id g = p" by (auto simp: ids_def)
    from y(1) obtain x where x: "x \<in> set xs" "(y, x) \<in> (parent_rel ?fs)\<^sup>*" unfolding R by blast
    with sub have "y \<in> set (subtree ?fs x)" "y \<noteq> x" using y(2) by auto
    then have "p \<in> set (subtree ?fs x)" by (rule subtree_up [OF in_ids [OF x(1)] rel d(1)])
    with sub x(1) have up: "(p, x) \<in> (parent_rel ?fs)\<^sup>*" by simp
    show "live_id ?fs p \<or> p \<in> set R"
    proof (cases "is_trashed ?fs p")
      case True
      with up x(1) show ?thesis unfolding R by blast
    next
      case False
      with is_trashed_iff [OF d(1) g(1)] g show ?thesis by (auto simp: live_id_def)
    qed
  qed
  have first: "tree_ok fs1 \<and> map trash_key fs1 = map trash_key ?fs \<and> (\<forall>y \<in> set R. settled R fs1 y)"
    using reparent_roots [OF ok, of "set R" xs R "[]"] start s1 by simp
  note d1 = tree_okD [OF conjunct1 [OF first]]
  have "unique_on (set R \<union> {}) fs2 \<and> map struct_key fs2 = map struct_key fs1"
    by (rule claim_projects [OF d1(1) _ taken_live s2]) (use d1(5) in \<open>simp add: unique_on_empty\<close>)
  then have uniq: "unique_on (set R) fs2" and st: "map struct_key fs2 = map struct_key fs1" by simp_all
  note sc = structure_cong [OF st]
  have live_eq: "live_id fs2 p \<longleftrightarrow> live_id fs1 p" for p
  proof -
    have "live_id xs p \<longleftrightarrow> (\<exists>(i, q, v) \<in> set (map struct_key xs). i = p \<and> v = None)" for xs
      by (simp add: live_id_def struct_key_def)
    then show ?thesis by (simp only: st)
  qed
  have d2: "ids_distinct fs2" "parents_exist fs2" "acyclic (parent_rel fs2)" "live_parents fs2"
    unfolding sc by (fact d1)+
  have "tree_ok (stamp_trashed R None fs2)"
  proof (rule tree_ok_stamp [OF d2(1-3)])
    fix f g assume fg: "f \<in> set fs2" "g \<in> set fs2" "f_parent f = Some (f_id g)"
      and live: "(if f_id f \<in> set R then None else f_trashed f) = None"
    show "(if f_id g \<in> set R then None else f_trashed g) = None"
    proof (cases "f_id f \<in> set R")
      case True
      have "(f_id f, f_id g) \<in> parent_rel fs1" using parent_relI [OF fg(1,3)] unfolding sc .
      with True first have "live_id fs1 (f_id g) \<or> f_id g \<in> set R" unfolding settled_def by blast
      moreover have "f_trashed g = None" if "live_id fs2 (f_id g)"
      proof -
        from that obtain k where "k \<in> set fs2" "f_id k = f_id g" "f_trashed k = None"
          unfolding live_id_def by blast
        with same_id_eq [OF d2(1), of k g] fg(2) show ?thesis by simp
      qed
      ultimately show ?thesis using live_eq by auto
    next
      case False
      with live have "f_trashed f = None" by simp
      with fg d2(4) have "f_trashed g = None" unfolding live_parents_def by blast
      then show ?thesis by simp
    qed
  next
    fix f g assume fg: "f \<in> set fs2" "g \<in> set fs2" "f_owner f = f_owner g"
        "f_project f \<noteq> None" "f_project f = f_project g"
      and live: "(if f_id f \<in> set R then None else f_trashed f) = None"
        "(if f_id g \<in> set R then None else f_trashed g) = None"
    from fg(4) obtain p where p: "f_project f = Some p" by blast
    with fg(5) have "f_project g = Some p" by (rule trans [OF sym])
    moreover have "claimed (set R) f" "claimed (set R) g"
      using live by (auto simp: claimed_def split: if_split_asm)
    ultimately show "f_id f = f_id g" using uniq fg(1-3) p unfolding unique_on_def by blast
  qed
  then show "tree_ok (folders t')" by (simp add: t')
  have ids_of: "map (\<lambda>f. (f_id f, f_trashed f)) fs2 = map (\<lambda>f. (f_id f, f_trashed f)) ?fs"
  proof -
    have "map (\<lambda>f. (f_id f, f_trashed f)) fs2 = map (\<lambda>(i, p, v). (i, v)) (map struct_key fs2)"
      by (simp add: struct_key_def)
    also have "\<dots> = map (\<lambda>(i, w, p, v). (i, v)) (map trash_key fs1)"
      by (simp add: st struct_key_def trash_key_def)
    also have "\<dots> = map (\<lambda>f. (f_id f, f_trashed f)) ?fs"
      using first by (simp add: trash_key_def)
    finally show ?thesis .
  qed
  have "map (\<lambda>f. (f_id f, f_trashed f)) (stamp_trashed R None fs2)
      = map (\<lambda>(i, v). (i, if i \<in> set R then None else v)) (map (\<lambda>f. (f_id f, f_trashed f)) fs2)"
    by (simp add: stamp_trashed_def)
  also have "\<dots> = map (\<lambda>f. (f_id f, if f_id f \<in> set R then None else f_trashed f)) ?fs"
    unfolding ids_of by (simp add: comp_def)
  finally have eq: "map (\<lambda>f. (f_id f, f_trashed f)) (stamp_trashed R None fs2)
      = map (\<lambda>f. (f_id f, if f_id f \<in> set R then None else f_trashed f)) ?fs" .
  show "mset (map (\<lambda>f. (f_id f, f_trashed f)) (folders t'))
      = mset (map (\<lambda>f. (f_id f, if f_id f \<in> set R then None else f_trashed f)) ?fs)"
    unfolding eq [symmetric] t' position_sorted_def mset_map by simp
qed

end
