(* ===== verification/Folder_Resolution.thy ===== *)
theory Folder_Resolution
  imports Folder_Restore
begin

text \<open>
  Default resolution against its specification: the folder's ancestry from the leaf to the root, each
  key taking the value of the nearest folder that says something about it. Also who may change what,
  and the replay check of a creation.
\<close>

section \<open>Ancestries\<close>

inductive lineage :: "session_folder list \<Rightarrow> session_folder \<Rightarrow> session_folder list \<Rightarrow> bool"
  for fs :: "session_folder list" where
  root: "f_parent f = None \<Longrightarrow> lineage fs f [f]"
| up: "f_parent f = Some p \<Longrightarrow> find_folder fs p = Some g \<Longrightarrow> lineage fs g path \<Longrightarrow> lineage fs f (f # path)"

inductive_cases lineageE: "lineage fs f path"

lemma lineage_exists:
  assumes ok: "ids_distinct fs" "parents_exist fs" "acyclic (parent_rel fs)"
  shows "f \<in> set fs \<Longrightarrow> \<exists>path. lineage fs f path"
proof -
  have wf: "wf ((parent_rel fs)\<inverse>)"
    by (rule finite_acyclic_wf_converse) (simp_all add: ok(3))
  have "\<forall>f \<in> set fs. f_id f = x \<longrightarrow> (\<exists>path. lineage fs f path)" for x
    using wf
  proof (induction x rule: wf_induct_rule)
    case (less x)
    show ?case
    proof (intro ballI impI)
      fix f assume f: "f \<in> set fs" "f_id f = x"
      show "\<exists>path. lineage fs f path"
      proof (cases "f_parent f")
        case None
        then show ?thesis by (blast intro: lineage.root)
      next
        case (Some p)
        have rel: "(x, p) \<in> parent_rel fs" using parent_relI [OF f(1) Some] f(2) by simp
        from parent_rel_ran [OF ok(2) rel] obtain g where g: "g \<in> set fs" "f_id g = p" by (auto simp: ids_def)
        from less [of p] rel g obtain path where "lineage fs g path" by blast
        moreover have "find_folder fs p = Some g" using g by (simp only: find_folder_Some [OF ok(1)])
        ultimately show ?thesis using Some by (blast intro: lineage.up)
      qed
    qed
  qed
  then show "f \<in> set fs \<Longrightarrow> \<exists>path. lineage fs f path" by blast
qed

lemma lineage_above:
  assumes "lineage fs f path"
  shows "f \<in> set fs \<Longrightarrow> set path \<subseteq> set fs \<and> path \<noteq> [] \<and> hd path = f
    \<and> (\<forall>h \<in> set (tl path). (f_id f, f_id h) \<in> (parent_rel fs)\<^sup>+)"
  using assms
proof induction
  case (root f)
  then show ?case by simp
next
  case (up f p g path)
  note gD = find_folderD [OF up(2)]
  with up have IH: "set path \<subseteq> set fs" "path \<noteq> []" "hd path = g"
    "\<forall>h \<in> set (tl path). (p, f_id h) \<in> (parent_rel fs)\<^sup>+" by auto
  have rel: "(f_id f, p) \<in> parent_rel fs" by (rule parent_relI [OF up(5) up(1)])
  have "(f_id f, f_id h) \<in> (parent_rel fs)\<^sup>+" if h: "h \<in> set path" for h
  proof (cases "h = g")
    case True
    with gD rel show ?thesis by auto
  next
    case False
    with h IH(2,3) have "h \<in> set (tl path)" by (cases path) auto
    with IH(4) rel show ?thesis by (meson trancl_into_trancl2)
  qed
  with IH up(5) show ?case by simp
qed

text \<open>The first folder of a path that says something about a key.\<close>

definition nearest_default ::
    "session_folder list \<Rightarrow> default_key \<Rightarrow> session_folder option" where
  "nearest_default path k = find (\<lambda>f. local_defaults f k \<noteq> None) path"

definition add_path :: "session_folder list \<Rightarrow> resolved_defaults \<Rightarrow> resolved_defaults" where
  "add_path path r = fold add_vacant path r"

lemma add_path_at:
  "r_values (add_path path r) k =
     (case r_values r k of Some v \<Rightarrow> Some v
      | None \<Rightarrow> Option.bind (nearest_default path k) (\<lambda>f. local_defaults f k))
   \<and> r_sources (add_path path r) k =
     (if r_values r k \<noteq> None then r_sources r k
      else case nearest_default path k of None \<Rightarrow> r_sources r k | Some f \<Rightarrow> Some (f_id f))"
proof (induction path arbitrary: r)
  case Nil
  then show ?case by (auto simp: add_path_def nearest_default_def split: option.splits)
next
  case (Cons f path)
  have "add_path (f # path) r = add_path path (add_vacant f r)" by (simp add: add_path_def)
  then show ?case
    using Cons.IH [of "add_vacant f r"]
    by (auto simp: add_vacant_def nearest_default_def split: option.splits)
qed

lemma resolve_walk_lineage:
  assumes "lineage fs f path" and ac: "acyclic (parent_rel fs)"
  shows "f \<in> set fs \<Longrightarrow> \<forall>g \<in> set path. f_owner g = owner \<Longrightarrow> f_id ` set path \<inter> set seen = {} \<Longrightarrow>
    resolve_walk fs owner seen (Some f) r = Inr (add_path path r)"
  using assms(1)
proof (induction arbitrary: seen r)
  case (root f)
  then show ?case
    by (subst resolve_walk.simps, subst resolve_walk.simps) (simp add: add_path_def)
next
  case (up f p g path)
  note gD = find_folderD [OF up(2)]
  have whole: "lineage fs f (f # path)" using up(1-3) by (rule lineage.up)
  from lineage_above [OF whole up(5)] have "(f_id f, f_id h) \<in> (parent_rel fs)\<^sup>+" if "h \<in> set path" for h
    using that by simp
  with ac have "f_id h \<noteq> f_id f" if "h \<in> set path" for h
    using that unfolding acyclic_def by (metis (no_types))
  then have "f_id f \<notin> f_id ` set path" by (metis imageE)
  moreover have "f_id ` set path \<inter> set seen = {}" using up(7) by auto
  ultimately have "f_id ` set path \<inter> set (f_id f # seen) = {}" by simp
  with up gD have "resolve_walk fs owner (f_id f # seen) (Some g) (add_vacant f r)
      = Inr (add_path path (add_vacant f r))" by simp
  with up(1,2,6,7) show ?case by (subst resolve_walk.simps) (simp add: add_path_def)
qed

lemma resolve_lineage:
  assumes ok: "tree_ok (folders t)" and f: "touchable (folders t) actor x = Inr f"
    and path: "lineage (folders t) f path" and owner: "\<forall>g \<in> set path. f_owner g = f_owner f"
  shows "resolve_defaults t actor x = Inr (add_path path no_resolved)"
proof -
  from touchable_InrD [OF f] have "f \<in> set (folders t)" by blast
  from resolve_walk_lineage [OF path tree_okD(3) [OF ok] this owner, of "[]"] f
  show ?thesis by (simp add: resolve_defaults_def)
qed

section \<open>Foreign folders\<close>

lemma update_first_other: "g \<in> set fs \<Longrightarrow> \<not> P g \<Longrightarrow> g \<in> set (update_first P h fs)"
  by (induction fs) auto

lemma edit_folder_other:
  "g \<in> set (folders t) \<Longrightarrow> f_id g \<noteq> x \<Longrightarrow> g \<in> set (folders (edit_folder t x h))"
  by (simp add: edit_folder_def update_first_other)

lemma foreign_id:
  assumes "ids_distinct (folders t)" "g \<in> set (folders t)" "\<not> can_touch actor g"
    "live_touchable (folders t) actor x = Inr f"
  shows "f_id g \<noteq> x"
  using assms same_id_eq [OF assms(1,2), of f] live_touchable_InrD [OF assms(4)] by auto

lemma renumber_other: "g \<in> set fs \<Longrightarrow> f_id g \<notin> set xs \<Longrightarrow> g \<in> set (renumber i xs fs)"
  by (induction xs arbitrary: i fs) (simp_all add: update_first_other)

lemma merge_filtered_set:
  assumes "distinct existing" "merge_session_order existing (filter (\<lambda>x. x \<in> set existing) sub) = Some ys"
  shows "set ys = set existing"
proof -
  obtain zs where z: "merge_session_order existing (filter (\<lambda>x. x \<in> set existing) sub)
      = Some (zs @ filter (\<lambda>x. x \<notin> set existing) (dedup (filter (\<lambda>x. x \<in> set existing) sub)))"
    "mset zs = mset existing"
    using merge_session_order_spec [OF assms(1)] by metis
  have "filter (\<lambda>x. x \<notin> set existing) (dedup (filter (\<lambda>x. x \<in> set existing) sub)) = []"
    by (auto simp: filter_empty_conv)
  with z assms(2) show ?thesis using mset_eq_setD [OF z(2)] by simp
qed

lemma apply_reorder_other:
  assumes d: "ids_distinct (folders t)" and g: "g \<in> set (folders t)" "\<not> can_touch actor g"
    and run: "apply_reorder t actor args = Some (Inr (eff, t'))"
  shows "g \<in> set (folders t')"
proof -
  from run obtain parent sub merged where
    m: "merge_session_order (map f_id (siblings (folders t) parent (user_id actor)))
          (filter (\<lambda>x. x \<in> set (map f_id (siblings (folders t) parent (user_id actor)))) sub) = Some merged"
    and t': "folders t' = position_sorted (renumber 0 merged (folders t))"
    by (auto simp: apply_reorder_def Let_def split: sum.splits prod.splits)
  have "f_id g \<notin> set merged"
  proof
    assume "f_id g \<in> set merged"
    then have "f_id g \<in> set (map f_id (siblings (folders t) parent (user_id actor)))"
      using merge_filtered_set [OF distinct_siblings [OF d] m] by simp
    then obtain h where h: "h \<in> set (folders t)" "f_owner h = user_id actor" "f_id h = f_id g"
      by (auto simp: siblings_def)
    with same_id_eq [OF d h(1) g(1)] have "f_owner g = user_id actor" by simp
    with g(2) show False by (simp add: can_touch_def)
  qed
  with g(1) show ?thesis by (simp add: t' renumber_other)
qed

lemma step_up_other: "g \<in> set fs \<Longrightarrow> f_id g \<notin> set xs \<Longrightarrow> g \<in> set (step_up q pos xs fs)"
  by (induction xs arbitrary: pos fs) (simp_all add: update_first_other)

lemma apply_remove_other:
  assumes d: "ids_distinct (folders t)" and g: "g \<in> set (folders t)" "\<not> can_touch actor g"
    and run: "apply_remove t actor args = Inr (eff, t')"
    and stay: "\<And>p. key_arg args ''id'' = Inr p \<Longrightarrow> f_parent g \<noteq> Some p"
  shows "g \<in> set (folders t')"
proof -
  from run obtain fid h where k: "key_arg args ''id'' = Inr fid" and
    h: "live_touchable (folders t) actor fid = Inr h" and
    t': "folders t' = position_sorted (filter (\<lambda>f. f_id f \<noteq> fid)
      (step_up (f_parent h) (next_position (folders t) (f_owner h) (f_parent h))
        (map f_id (position_sorted (filter (\<lambda>f. f_parent f = Some fid) (folders t)))) (folders t)))"
    by (auto simp: apply_remove_def Let_def)
  have ne: "f_id g \<noteq> fid" by (rule foreign_id [OF d g h])
  have "f_id g \<notin> set (map f_id (position_sorted (filter (\<lambda>f. f_parent f = Some fid) (folders t))))"
  proof
    assume "f_id g \<in> set (map f_id (position_sorted (filter (\<lambda>f. f_parent f = Some fid) (folders t))))"
    then obtain c where c: "c \<in> set (folders t)" "f_parent c = Some fid" "f_id c = f_id g" by auto
    with same_id_eq [OF d c(1) g(1) c(3)] stay [OF k] show False by simp
  qed
  with g(1) ne show ?thesis by (simp add: t' step_up_other)
qed

lemma apply_mutation_other:
  assumes d: "ids_distinct (folders t)" and g: "g \<in> set (folders t)" "\<not> can_touch actor g"
    and stay: "\<And>p. m = ''remove'' \<Longrightarrow> key_arg args ''id'' = Inr p \<Longrightarrow> f_parent g \<noteq> Some p"
    and run: "apply_mutation t actor m args = Some (Inr (eff, t'))"
  shows "g \<in> set (folders t')"
proof -
  from run obtain r where r: "dispatch_mutation t actor m args = Some r"
    by (auto simp: apply_mutation_def)
  with run obtain t1 where t1: "r = Inr (eff, t1)" "folders t' = folders t1"
    by (cases r) (auto simp: apply_mutation_def changed_def split: if_split_asm)
  have edits: "g \<in> set (folders (edit_folder t x h))"
    if "live_touchable (folders t) actor x = Inr f" for x f h
    using foreign_id [OF d g that] g(1) by (simp add: edit_folder_other)
  have "g \<in> set (folders t1)"
    using r [unfolded t1(1) dispatch_mutation_def]
  proof (simp split: if_split_asm, goal_cases)
    case 1 then show ?case by (auto simp: apply_defaults_def split: if_splits intro: edits)
  next
    case 2 then show ?case using g(1) by (auto simp: apply_create_def split: if_splits)
  next
    case 3 then show ?case by (auto simp: apply_rename_def intro: edits)
  next
    case 4 then show ?case by (auto simp: apply_move_def split: if_splits intro: edits)
  next
    case 5
    from 5(2) show ?case by (rule apply_reorder_other [OF d g])
  next
    case 6 then show ?case by (auto simp: apply_bind_def split: if_splits intro: edits)
  next
    case 7 then show ?case using g(1) by (auto simp: apply_place_def Let_def)
  next
    case 8
    from 8(2) show ?case by (rule apply_remove_other [OF d g]) (use stay 8 in simp)
  qed
  then show ?thesis by (simp add: t1(2))
qed

end
