(* ===== verification/Folder_Properties.thy ===== *)
theory Folder_Properties
  imports Folder_Resolution
begin

text \<open>
  The properties of the folder tree, each with a witness on a small tree: \<open>a\<close> at the top with
  \<open>b\<close> below and \<open>c\<close> below that, \<open>b\<close> and \<open>c\<close> in Trash, all of one owner.
\<close>

definition demo_folder :: "string \<Rightarrow> string option \<Rightarrow> int option \<Rightarrow> session_folder" where
  "demo_folder i parent trashed =
     \<lparr>f_id = i, f_owner = Some ''u'', f_name = i, f_parent = parent, f_position = 0,
      f_project = None, f_defaults = no_defaults, f_trashed = trashed\<rparr>"

definition demo_live :: session_folders where
  "demo_live = \<lparr>folders = [demo_folder ''a'' None None, demo_folder ''b'' (Some ''a'') None,
      demo_folder ''c'' (Some ''b'') None], placement = [(''s1'', ''c'')], observation = 0\<rparr>"

definition demo_trash :: session_folders where
  "demo_trash = \<lparr>folders = [demo_folder ''a'' None None, demo_folder ''b'' (Some ''a'') (Some 7),
      demo_folder ''c'' (Some ''b'') (Some 7)], placement = [(''s1'', ''c'')], observation = 0\<rparr>"

definition demo_actor :: folder_actor where
  "demo_actor = \<lparr>user_id = Some ''u'', sees_all = False\<rparr>"

lemma tree_ok_Nil: "tree_ok []"
  by (simp add: tree_ok_def ids_distinct_def parents_exist_def parent_rel_def acyclic_def
      live_parents_def projects_unique_def)

lemma tree_ok_demo_live: "tree_ok (folders demo_live)"
proof -
  have "tree_ok (([] @ [demo_folder ''a'' None None]) @ [demo_folder ''b'' (Some ''a'') None])"
    by (rule tree_ok_append, rule tree_ok_append) (simp_all add: tree_ok_Nil demo_folder_def ids_def)
  then have "tree_ok (([demo_folder ''a'' None None, demo_folder ''b'' (Some ''a'') None])
      @ [demo_folder ''c'' (Some ''b'') None])"
    by (intro tree_ok_append) (simp_all add: demo_folder_def ids_def)
  then show ?thesis by (simp add: demo_live_def)
qed

lemma tree_ok_demo_trash: "tree_ok (folders demo_trash)"
proof -
  have "trash demo_live demo_actor [''b''] 7 = Inr (([''b'', ''c''], [Some ''u'']), changed demo_trash)"
    by code_simp
  from trash_ok [OF tree_ok_demo_live this] show ?thesis by (simp add: changed_def)
qed

text \<open>C3: a client mutation of the folder tree always answers, never panics, and a mutation that
  is accepted leaves a well-formed tree: unique ids, existing parents, no cycle, no live folder
  below a trashed one, and no project bound by two live folders of one owner.\<close>

theorem folder_mutations_keep_tree:
  assumes "tree_ok (folders t)"
  shows "\<exists>r. apply_mutation t actor m args = Some r
           \<and> (\<forall>eff t'. r = Inr (eff, t') \<longrightarrow> tree_ok (folders t'))"
proof -
  have "apply_mutation t actor m args \<noteq> None"
    by (rule apply_mutation_total) (rule tree_okD(1) [OF assms])
  then obtain r where r: "apply_mutation t actor m args = Some r" by blast
  moreover have "tree_ok (folders t')" if "r = Inr (eff, t')" for eff t'
    using apply_mutation_ok [OF assms] r that by simp
  ultimately show ?thesis by blast
qed

theorem folder_mutations_keep_tree_witness:
  "\<exists>r. apply_mutation demo_live demo_actor ''remove'' (JObj [(''id'', JStr ''b'')]) = Some r
     \<and> (\<forall>eff t'. r = Inr (eff, t') \<longrightarrow> tree_ok (folders t'))"
  by (rule folder_mutations_keep_tree [OF tree_ok_demo_live])

text \<open>C4: a folder move with good arguments is refused exactly when it would close a cycle, and
  otherwise hangs the folder below the requested parent.\<close>

theorem move_refuses_exactly_cycles:
  assumes "tree_ok (folders t)" and "key_arg args ''id'' = Inr fid"
    and "rbind (optional_key_arg args ''parent'') (resolve_parent (folders t) actor) = Inr parent"
    and "live_touchable (folders t) actor fid = Inr f"
  shows "case apply_move t actor args of
           Inl e \<Rightarrow> \<exists>p. parent = Some p \<and> (p, fid) \<in> (parent_rel (folders t))\<^sup>*
         | Inr (eff, t') \<Rightarrow>
             (\<forall>p. parent = Some p \<longrightarrow> (p, fid) \<notin> (parent_rel (folders t))\<^sup>*)
           \<and> folder_parent (folders t') fid = parent"
proof -
  note d = tree_okD(1) [OF assms(1)] and fD = live_touchable_InrD [OF assms(4)]
  have desc: "is_descendant (folders t) parent fid
      \<longleftrightarrow> (\<exists>p. parent = Some p \<and> (p, fid) \<in> (parent_rel (folders t))\<^sup>*)"
    by (cases parent) (simp_all add: is_descendant_iff [OF d])
  have "find_folder (reparent fid parent pos (folders t)) fid
      = Some (f\<lparr>f_parent := parent, f_position := pos\<rparr>)" for pos
  proof -
    have "f\<lparr>f_parent := parent, f_position := pos\<rparr> \<in> set (reparent fid parent pos (folders t))"
      unfolding reparent_map [OF d] set_map using fD by (intro image_eqI [of _ _ f]) simp_all
    moreover have "ids_distinct (reparent fid parent pos (folders t))" using d by simp
    ultimately show ?thesis using fD by (simp add: find_folder_Some)
  qed
  then have "folder_parent (reparent fid parent pos (folders t)) fid = parent" for pos
    by (simp add: folder_parent_def)
  then show ?thesis
    using assms(2-4) desc by (auto simp: apply_move_def edit_folder_def reparent_def)
qed

theorem move_refuses_exactly_cycles_witness:
  "case apply_move demo_live demo_actor (JObj [(''id'', JStr ''a''), (''parent'', JStr ''c'')]) of
     Inl e \<Rightarrow> \<exists>p. Some ''c'' = Some p \<and> (p, ''a'') \<in> (parent_rel (folders demo_live))\<^sup>*
   | Inr (eff, t') \<Rightarrow>
       (\<forall>p. Some ''c'' = Some p \<longrightarrow> (p, ''a'') \<notin> (parent_rel (folders demo_live))\<^sup>*)
     \<and> folder_parent (folders t') ''a'' = Some ''c''"
proof (rule move_refuses_exactly_cycles [OF tree_ok_demo_live])
  show "key_arg (JObj [(''id'', JStr ''a''), (''parent'', JStr ''c'')]) ''id'' = Inr ''a''" by code_simp
  show "rbind (optional_key_arg (JObj [(''id'', JStr ''a''), (''parent'', JStr ''c'')]) ''parent'')
      (resolve_parent (folders demo_live) demo_actor) = Inr (Some ''c'')" by code_simp
  show "live_touchable (folders demo_live) demo_actor ''a'' = Inr (demo_folder ''a'' None None)" by code_simp
qed

text \<open>Moving folders to Trash takes exactly the live part of the subtrees named: every folder
  there gets the time stamp, every other folder stays as it is, and the tree stays well formed. The
  folders named were live and the actor's to change.\<close>

theorem trash_takes_live_subtrees:
  assumes "tree_ok (folders t)" and "trash t actor xs now = Inr ((T, owners), t')"
  shows "tree_ok (folders t')
    \<and> set T = {b. \<not> is_trashed (folders t) b \<and> (\<exists>x \<in> set xs. (b, x) \<in> (parent_rel (folders t))\<^sup>*)}
    \<and> folders t' = map (\<lambda>f. if f_id f \<in> set T then f\<lparr>f_trashed := Some now\<rparr> else f) (folders t)
    \<and> (\<forall>x \<in> set xs. \<exists>f \<in> set (folders t). f_id f = x \<and> can_touch actor f \<and> f_trashed f = None)"
  using trash_ok [OF assms] trash_spec [OF assms] by (simp add: stamp_trashed_def)

theorem trash_takes_live_subtrees_witness:
  "trash demo_live demo_actor [''b''] 7 = Inr (([''b'', ''c''], [Some ''u'']), changed demo_trash) \<and>
   tree_ok (folders (changed demo_trash))
   \<and> set [''b'', ''c''] = {b. \<not> is_trashed (folders demo_live) b
        \<and> (\<exists>x \<in> set [''b'']. (b, x) \<in> (parent_rel (folders demo_live))\<^sup>*)}"
proof -
  have run: "trash demo_live demo_actor [''b''] 7 = Inr (([''b'', ''c''], [Some ''u'']), changed demo_trash)"
    by code_simp
  from trash_takes_live_subtrees [OF tree_ok_demo_live run] run show ?thesis by blast
qed

text \<open>restoring folders brings back exactly the trashed part of the subtrees named, leaves the
  Trash state of every other folder alone, and yields a well-formed tree: a root whose parent is not
  restored with it moves below its nearest live ancestor, and a project bound meanwhile by another
  folder is given up.\<close>

theorem restore_brings_back_subtrees:
  assumes "tree_ok (folders t)" and "restore t actor xs = Inr ((R, owners, msgs), t')"
  shows "tree_ok (folders t')
    \<and> set R = {b. is_trashed (folders t) b \<and> (\<exists>x \<in> set xs. (b, x) \<in> (parent_rel (folders t))\<^sup>*)}
    \<and> mset (map (\<lambda>f. (f_id f, f_trashed f)) (folders t'))
      = mset (map (\<lambda>f. (f_id f, if f_id f \<in> set R then None else f_trashed f)) (folders t))
    \<and> (\<forall>x \<in> set xs. \<exists>f \<in> set (folders t). f_id f = x \<and> can_touch actor f \<and> f_trashed f \<noteq> None)"
  using restore_spec [OF assms] by blast

theorem restore_brings_back_subtrees_witness:
  "\<exists>msgs t'. restore demo_trash demo_actor [''c''] = Inr (([''c''], [Some ''u''], msgs), t')
     \<and> tree_ok (folders t') \<and> folder_parent (folders t') ''c'' = Some ''a''"
proof -
  obtain R owners msgs t' where run: "restore demo_trash demo_actor [''c''] = Inr ((R, owners, msgs), t')"
    and "R = [''c'']" "owners = [Some ''u'']" "folder_parent (folders t') ''c'' = Some ''a''"
  proof -
    have "(case restore demo_trash demo_actor [''c''] of Inl e \<Rightarrow> False
       | Inr ((R, owners, msgs), t') \<Rightarrow> R = [''c''] \<and> owners = [Some ''u'']
           \<and> folder_parent (folders t') ''c'' = Some ''a'')" by code_simp
    then show thesis using that by (auto split: sum.splits prod.splits)
  qed
  with restore_brings_back_subtrees [OF tree_ok_demo_trash run] show ?thesis by blast
qed

text \<open>deleting folders for good removes only folders that are in Trash, that the actor may
  change, that lie below one of the folders named and that hold nothing; a removed folder takes its
  whole subtree along, the remaining tree is well formed and every other folder and placement is
  untouched.\<close>

theorem purge_removes_only_empty_trash:
  assumes "tree_ok (folders t)" and "purge t actor xs occupied = ((R, owners), t')"
  shows "tree_ok (folders t')
    \<and> folders t' = filter (\<lambda>f. f_id f \<notin> set R) (folders t)
    \<and> placement t' = filter (\<lambda>p. snd p \<notin> set R) (placement t)
    \<and> (\<forall>y \<in> set R. y \<notin> set occupied \<and> is_trashed (folders t) y
         \<and> (\<exists>f \<in> set (folders t). f_id f = y \<and> can_touch actor f)
         \<and> (\<exists>x \<in> set xs. (y, x) \<in> (parent_rel (folders t))\<^sup>*)
         \<and> (\<forall>z. (z, y) \<in> (parent_rel (folders t))\<^sup>* \<longrightarrow> z \<in> set R))"
proof -
  have "z \<in> set R" if "(z, y) \<in> (parent_rel (folders t))\<^sup>*" "y \<in> set R" for z y
    using that by (induction rule: converse_rtrancl_induct) (blast intro: purge_spec(4) [OF assms])+
  with purge_ok [OF assms] purge_spec(1-3) [OF assms] show ?thesis by blast
qed

theorem purge_removes_only_empty_trash_witness:
  "\<exists>R owners t'. purge demo_trash demo_actor [''b''] [] = ((R, owners), t')
     \<and> R = [''b'', ''c''] \<and> tree_ok (folders t') \<and> placement t' = []"
proof -
  obtain R owners t' where run: "purge demo_trash demo_actor [''b''] [] = ((R, owners), t')"
    by (metis prod.exhaust)
  have "fst (fst (purge demo_trash demo_actor [''b''] [])) = [''b'', ''c'']
      \<and> placement (snd (purge demo_trash demo_actor [''b''] [])) = []" by code_simp
  then have "R = [''b'', ''c'']" "placement t' = []" by (simp_all add: run)
  with purge_removes_only_empty_trash [OF tree_ok_demo_trash run] run show ?thesis by blast
qed

text \<open>the defaults of a folder resolve field by field to the nearest folder of its ancestry
  that says something about the field, with that folder named as the source, for every well-formed
  tree whose ancestry has one owner; resolution never fails there.\<close>

theorem defaults_resolve_to_nearest:
  assumes "tree_ok (folders t)" and "touchable (folders t) actor x = Inr f"
    and "\<forall>g \<in> set (folders t). f_owner g = f_owner f"
  shows "\<exists>path r. lineage (folders t) f path \<and> resolve_defaults t actor x = Inr r
    \<and> (\<forall>k. case find (\<lambda>g. local_defaults g k \<noteq> None) path of
           None \<Rightarrow> r_values r k = None \<and> r_sources r k = None
         | Some g \<Rightarrow> r_values r k = local_defaults g k \<and> r_sources r k = Some (f_id g))"
proof -
  note d = tree_okD [OF assms(1)]
  from touchable_InrD [OF assms(2)] have f: "f \<in> set (folders t)" by blast
  from lineage_exists [OF d(1-3) f] obtain path where path: "lineage (folders t) f path" ..
  have "\<forall>g \<in> set path. f_owner g = f_owner f"
    using lineage_above [OF path f] assms(3) by blast
  from resolve_lineage [OF assms(1,2) path this]
  have run: "resolve_defaults t actor x = Inr (add_path path no_resolved)" .
  have "case find (\<lambda>g. local_defaults g k \<noteq> None) path of
           None \<Rightarrow> r_values (add_path path no_resolved) k = None
             \<and> r_sources (add_path path no_resolved) k = None
         | Some g \<Rightarrow> r_values (add_path path no_resolved) k = local_defaults g k
             \<and> r_sources (add_path path no_resolved) k = Some (f_id g)" for k
    using add_path_at [of path no_resolved k]
    by (simp add: no_resolved_def no_defaults_def nearest_default_def split: option.splits)
  with path run show ?thesis by blast
qed

theorem defaults_resolve_to_nearest_witness:
  "\<exists>path r. lineage (folders demo_live) (demo_folder ''c'' (Some ''b'') None) path
    \<and> resolve_defaults demo_live demo_actor ''c'' = Inr r
    \<and> (\<forall>k. case find (\<lambda>g. local_defaults g k \<noteq> None) path of
           None \<Rightarrow> r_values r k = None \<and> r_sources r k = None
         | Some g \<Rightarrow> r_values r k = local_defaults g k \<and> r_sources r k = Some (f_id g))"
  by (rule defaults_resolve_to_nearest [OF tree_ok_demo_live]) code_simp+

text \<open>a mutation never changes a folder its actor may not change, except that removing a
  folder lifts the folders directly below it.\<close>

theorem foreign_folders_unchanged:
  assumes "tree_ok (folders t)" and "apply_mutation t actor m args = Some (Inr (eff, t'))"
    and "g \<in> set (folders t)" and "\<not> can_touch actor g"
    and "m = ''remove'' \<longrightarrow> (\<forall>p. key_arg args ''id'' = Inr p \<longrightarrow> f_parent g \<noteq> Some p)"
  shows "g \<in> set (folders t')"
  using apply_mutation_other [OF tree_okD(1) [OF assms(1)] assms(3,4) _ assms(2)] assms(5) by blast

theorem foreign_folders_unchanged_witness:
  "\<exists>eff t'. apply_mutation (demo_live\<lparr>folders := demo_folder ''z'' None None # []\<rparr>)
       \<lparr>user_id = None, sees_all = False\<rparr> ''create''
       (JObj [(''id'', JStr ''n''), (''name'', JStr ''New'')]) = Some (Inr (eff, t'))
     \<and> demo_folder ''z'' None None \<in> set (folders t')"
proof -
  let ?t = "demo_live\<lparr>folders := demo_folder ''z'' None None # []\<rparr>"
  let ?a = "\<lparr>user_id = None, sees_all = False\<rparr>"
  have "case apply_mutation ?t ?a ''create'' (JObj [(''id'', JStr ''n''), (''name'', JStr ''New'')]) of
      Some (Inr _) \<Rightarrow> True | _ \<Rightarrow> False" by code_simp
  then obtain eff t' where run: "apply_mutation ?t ?a ''create''
      (JObj [(''id'', JStr ''n''), (''name'', JStr ''New'')]) = Some (Inr (eff, t'))"
    by (auto split: option.splits sum.splits)
  have "tree_ok ([] @ [demo_folder ''z'' None None])"
    by (rule tree_ok_append) (simp_all add: tree_ok_Nil demo_folder_def ids_def)
  then have "tree_ok (folders ?t)" by simp
  from foreign_folders_unchanged [OF this run, of "demo_folder ''z'' None None"] run
  show ?thesis by (simp add: can_touch_def demo_folder_def)
qed

text \<open>Once a creation is accepted, the same request is recognised as a replay and a second
  application is refused, so a resent creation never makes a second folder.\<close>

theorem create_replay_recognised:
  assumes "apply_create t actor args = Inr (eff, t')"
  shows "is_replayed_create t' actor args \<and> \<not> is_replayed_create t actor args
       \<and> \<not> is_ok (apply_create t' actor args) \<and> length (folders t') = Suc (length (folders t))"
proof -
  from assms obtain fid name raw parent project defaults where
    args: "key_arg args ''id'' = Inr fid" "name_arg args = Inr name"
      "optional_key_arg args ''parent'' = Inr raw" "resolve_parent (folders t) actor raw = Inr parent"
      "project_arg args = Inr project" "parse_create args = Inr defaults"
    and fresh: "find_folder (folders t) fid = None"
    and t': "folders t' = folders t @
          [\<lparr>f_id = fid, f_owner = user_id actor, f_name = name, f_parent = parent,
            f_position = next_position (folders t) (user_id actor) parent,
            f_project = project, f_defaults = defaults, f_trashed = None\<rparr>]"
    by (auto simp: apply_create_def split: if_splits)
  have raw: "raw = parent" using resolve_parent_InrD [OF args(4)] by simp
  have found: "find_folder (folders t') fid = Some \<lparr>f_id = fid, f_owner = user_id actor, f_name = name,
      f_parent = parent, f_position = next_position (folders t) (user_id actor) parent,
      f_project = project, f_defaults = defaults, f_trashed = None\<rparr>"
    using fresh unfolding t' find_folder_def by (simp add: find_append)
  have "is_replayed_create t' actor args"
    using args found raw by (simp add: is_replayed_create_def defaults_eq_iff)
  moreover have "\<not> is_replayed_create t actor args"
    using args fresh by (simp add: is_replayed_create_def)
  moreover have "\<not> is_ok (apply_create t' actor args)"
    using args found by (auto simp: apply_create_def is_ok_iff)
  ultimately show ?thesis by (simp add: t')
qed

theorem create_replay_recognised_witness:
  "\<exists>eff t'. apply_create demo_live demo_actor (JObj [(''id'', JStr ''n''), (''name'', JStr ''New'')]) = Inr (eff, t')
     \<and> is_replayed_create t' demo_actor (JObj [(''id'', JStr ''n''), (''name'', JStr ''New'')])"
proof -
  have "is_ok (apply_create demo_live demo_actor (JObj [(''id'', JStr ''n''), (''name'', JStr ''New'')]))"
    by code_simp
  then obtain eff t' where
    "apply_create demo_live demo_actor (JObj [(''id'', JStr ''n''), (''name'', JStr ''New'')]) = Inr (eff, t')"
    by (auto simp: is_ok_iff)
  with create_replay_recognised [OF this] show ?thesis by blast
qed

end
