(* ===== verification/Folder_Projection.thy ===== *)
theory Folder_Projection
  imports Folder_Properties
begin

text \<open>
  The sync value of the folder tree and its projection to one principal
  (\<open>SessionFolders::value\<close> and \<open>project_folders_value\<close> of \<^verbatim>\<open>src/src/session_folders.rs\<close>), with the
  fields serde writes for a folder.
\<close>

definition opt_str :: "string option \<Rightarrow> json" where
  "opt_str v = (case v of None \<Rightarrow> JNull | Some s \<Rightarrow> JStr s)"

definition folder_json :: "session_folder \<Rightarrow> json" where
  "folder_json f = JObj (
     [(''id'', JStr (f_id f))]
   @ (case f_owner f of None \<Rightarrow> [] | Some w \<Rightarrow> [(''owner'', JStr w)])
   @ [(''name'', JStr (f_name f)), (''parent'', opt_str (f_parent f)),
      (''position'', JInt (f_position f)), (''project'', opt_str (f_project f))]
   @ (if defaults_json (f_defaults f) = [] then []
      else [(''defaults'', JObj (defaults_json (f_defaults f)))])
   @ (case f_trashed f of None \<Rightarrow> [] | Some ms \<Rightarrow> [(''trashed_at_ms'', JInt ms)]))"

definition folders_value :: "session_folders \<Rightarrow> json" where
  "folders_value t = JObj
     [(''folders'', JArr (map folder_json (folders t))),
      (''placement'', JObj (map (\<lambda>p. (fst p, JStr (snd p))) (value_placements t)))]"

fun strip_owner :: "json \<Rightarrow> json" where
  "strip_owner (JObj kvs) = JObj (adelete ''owner'' kvs)"
| "strip_owner v = v"

fun kept_id :: "json \<Rightarrow> string option" where
  "kept_id (JObj kvs) = jget_str ''id'' (JObj (adelete ''owner'' kvs))"
| "kept_id _ = None"

fun jobj :: "json \<Rightarrow> (string \<times> json) list option" where
  "jobj (JObj kvs) = Some kvs"
| "jobj _ = None"

definition project_folders_value ::
    "json \<Rightarrow> string list \<Rightarrow> (string option \<Rightarrow> bool) \<Rightarrow> json" where
  "project_folders_value v visible_sessions can_see =
     (case v of
        JObj _ \<Rightarrow>
          (let kept = (case Option.bind (jget ''folders'' v) jarr of
                         None \<Rightarrow> []
                       | Some fs \<Rightarrow> filter (\<lambda>f. can_see (jget_str ''owner'' f)) fs);
               kept_ids = List.map_filter kept_id kept;
               placed = (case Option.bind (jget ''placement'' v) jobj of
                           None \<Rightarrow> []
                         | Some kvs \<Rightarrow>
                             filter (\<lambda>(session, folder). session \<in> set visible_sessions
                               \<and> (case jstr folder of None \<Rightarrow> False
                                  | Some f \<Rightarrow> f = TOP_LEVEL \<or> f \<in> set kept_ids)) kvs)
           in JObj [(''folders'', JArr (map strip_owner kept)), (''placement'', JObj placed)])
      | _ \<Rightarrow> v)"

lemma folder_json_owner: "jget_str ''owner'' (folder_json f) = f_owner f"
  by (simp add: folder_json_def jget_str_def split: option.splits)

lemma folder_json_kept: "kept_id (folder_json f) = Some (f_id f)"
  by (simp add: folder_json_def jget_str_def adelete_def)

lemma map_filter_kept: "List.map_filter kept_id (map folder_json fs) = map f_id fs"
  by (induction fs) (simp_all add: folder_json_kept)

lemma owner_filter:
  "filter (\<lambda>j. P (jget_str ''owner'' j)) (map folder_json fs) = map folder_json (filter (\<lambda>f. P (f_owner f)) fs)"
  by (simp add: filter_map comp_def folder_json_owner)

lemma strip_owner_folder: "jget ''owner'' (strip_owner (folder_json f)) = None"
  by (simp add: folder_json_def)

lemma projected_value:
  "project_folders_value (folders_value t) visible can_see = JObj
     [(''folders'', JArr (map (strip_owner \<circ> folder_json) (filter (\<lambda>f. can_see (f_owner f)) (folders t)))),
      (''placement'', JObj (map (\<lambda>p. (fst p, JStr (snd p)))
        (filter (\<lambda>p. fst p \<in> set visible
           \<and> (snd p = TOP_LEVEL \<or> snd p \<in> f_id ` set (filter (\<lambda>f. can_see (f_owner f)) (folders t))))
         (value_placements t))))]"
  by (simp add: project_folders_value_def folders_value_def folder_json_owner map_filter_kept filter_map comp_def
      Let_def)

text \<open>What a principal is shown of the folder tree holds exactly the folders it may see, none of
  them with its owner, and exactly the stored placements of sessions it may see into those folders
  or the top level; no hidden folder id appears as the target of a placement.\<close>

theorem projection_hides_foreign_folders:
  "\<exists>fs ps. project_folders_value (folders_value t) visible can_see
       = JObj [(''folders'', JArr fs), (''placement'', JObj ps)]
     \<and> map kept_id fs = map (Some \<circ> f_id) (filter (\<lambda>f. can_see (f_owner f)) (folders t))
     \<and> (\<forall>j \<in> set fs. jget ''owner'' j = None)
     \<and> set ps = {(s, JStr f) | s f. s \<in> set visible \<and> (s, f) \<in> set (placement t)
          \<and> (f = TOP_LEVEL \<or> (\<exists>g \<in> set (folders t). f_id g = f \<and> can_see (f_owner g)))}"
proof -
  let ?kept = "filter (\<lambda>f. can_see (f_owner f)) (folders t)"
  have strip: "kept_id (strip_owner (folder_json f)) = Some (f_id f)" for f
    by (simp add: folder_json_def jget_str_def adelete_def)
  have ids: "map kept_id (map (strip_owner \<circ> folder_json) ?kept) = map (Some \<circ> f_id) ?kept"
    by (simp add: strip)
  have own: "\<forall>j \<in> set (map (strip_owner \<circ> folder_json) ?kept). jget ''owner'' j = None"
    by (simp add: strip_owner_folder)
  have ps: "set (map (\<lambda>p. (fst p, JStr (snd p)))
        (filter (\<lambda>p. fst p \<in> set visible \<and> (snd p = TOP_LEVEL \<or> snd p \<in> f_id ` set ?kept))
         (value_placements t)))
      = {(s, JStr f) | s f. s \<in> set visible \<and> (s, f) \<in> set (placement t)
          \<and> (f = TOP_LEVEL \<or> (\<exists>g \<in> set (folders t). f_id g = f \<and> can_see (f_owner g)))}"
    by (auto simp: value_placements_def image_iff)
  from projected_value ids own ps show ?thesis by blast
qed

theorem projection_hides_foreign_folders_witness:
  "project_folders_value (folders_value demo_live) [''s1''] (\<lambda>w. w = Some ''u'')
     = JObj [(''folders'', JArr (map (strip_owner \<circ> folder_json) (folders demo_live))),
             (''placement'', JObj [(''s1'', JStr ''c'')])] \<and>
   (\<exists>fs ps. project_folders_value (folders_value demo_live) [''s1''] (\<lambda>w. w = Some ''u'')
       = JObj [(''folders'', JArr fs), (''placement'', JObj ps)] \<and> (\<forall>j \<in> set fs. jget ''owner'' j = None))"
proof
  show "project_folders_value (folders_value demo_live) [''s1''] (\<lambda>w. w = Some ''u'')
     = JObj [(''folders'', JArr (map (strip_owner \<circ> folder_json) (folders demo_live))),
             (''placement'', JObj [(''s1'', JStr ''c'')])]" by code_simp
  show "\<exists>fs ps. project_folders_value (folders_value demo_live) [''s1''] (\<lambda>w. w = Some ''u'')
       = JObj [(''folders'', JArr fs), (''placement'', JObj ps)] \<and> (\<forall>j \<in> set fs. jget ''owner'' j = None)"
    using projection_hides_foreign_folders [of demo_live "[''s1'']" "\<lambda>w. w = Some ''u''"] by blast
qed

end
