(* ===== verification/Transcript.thy ===== *)
theory Transcript
  imports Prelude
begin

text \<open>
  The transcript model: events and statuses of \<^verbatim>\<open>src/src/agent_model.rs\<close>, the envelope, its size
  estimates, the hot tail and the history page of \<^verbatim>\<open>src/src/model.rs\<close>, and the token accounting
  of \<^verbatim>\<open>src/components/wire/src/runtime_wire.rs\<close>. The length of a value serialized by serde_json is
  the parameter \<open>ser\<close>, \<open>None\<close> where serialization fails.
\<close>

section \<open>Events\<close>

datatype status = Starting | Running | Busy | Exited | Crashed | Interrupted

record turn_usage =
  total_tokens :: nat
  input_tokens :: nat
  output_tokens :: nat
  cached_input_tokens :: "nat option"
  uncached_input_tokens :: "nat option"
  cache_write_tokens :: "nat option"
  reasoning_tokens :: "nat option"

datatype event =
    Update json
  | PermissionRequest string json json
  | PermissionResolved string "string option"
  | Lifecycle status "string option"
  | TurnEnd string "turn_usage option"

record envelope =
  e_session :: string
  e_seq :: nat
  e_event :: event
  e_cmid :: "string option"

definition NON_ACTIVITY_SESSION_UPDATES :: "string list" where
  "NON_ACTIVITY_SESSION_UPDATES =
     [''available_commands_update'', ''current_mode_update'', ''config_option_update'',
      ''usage_update'', ''session_info_update'']"

definition counts_as_activity :: "event \<Rightarrow> bool" where
  "counts_as_activity ev =
     (case ev of
        Lifecycle _ _ \<Rightarrow> False
      | Update update \<Rightarrow>
          \<not> (case jget_str ''sessionUpdate'' update of
                None \<Rightarrow> False
              | Some kind \<Rightarrow> kind \<in> set NON_ACTIVITY_SESSION_UPDATES)
      | _ \<Rightarrow> True)"

section \<open>Token accounting\<close>

text \<open>The usage an ACP adapter reports, a struct of the protocol crate; all counters are \<open>u64\<close>.\<close>

record acp_usage =
  a_total :: nat
  a_input :: nat
  a_output :: nat
  a_cached_read :: "nat option"
  a_cached_write :: "nat option"
  a_thought :: "nat option"

definition opt_gt :: "nat option \<Rightarrow> nat \<Rightarrow> bool" where
  "opt_gt v n = (case v of None \<Rightarrow> False | Some t \<Rightarrow> n < t)"

definition from_acp :: "acp_usage \<Rightarrow> turn_usage option" where
  "from_acp u =
     (let total = a_total u; outp = a_output u; read = a_cached_read u; wr = a_cached_write u in
      Option.bind (checked_sub total outp) (\<lambda>inp.
      Option.bind (checked_add (a_input u) (case read of None \<Rightarrow> 0 | Some r \<Rightarrow> r)) (\<lambda>d.
      Option.bind (checked_add d (case wr of None \<Rightarrow> 0 | Some w \<Rightarrow> w)) (\<lambda>disjoint.
        if (a_input u \<noteq> inp \<and> disjoint \<noteq> inp)
           \<or> opt_gt read inp
           \<or> opt_gt wr (inp - (case read of None \<Rightarrow> 0 | Some r \<Rightarrow> r))
           \<or> opt_gt (a_thought u) outp
           \<or> 9007199254740991 < total
        then None
        else Some \<lparr>total_tokens = total, input_tokens = inp, output_tokens = outp,
                   cached_input_tokens = read, uncached_input_tokens = map_option (\<lambda>t. inp - t) read,
                   cache_write_tokens = wr, reasoning_tokens = a_thought u\<rparr>))))"

section \<open>Size estimates\<close>

fun estimated_json_bytes :: "json \<Rightarrow> nat" where
  "estimated_json_bytes JNull = 4"
| "estimated_json_bytes (JBool _) = 5"
| "estimated_json_bytes (JInt _) = 24"
| "estimated_json_bytes (JFloat _) = 24"
| "estimated_json_bytes (JStr s) = usize_add (length s) 2"
| "estimated_json_bytes (JArr vs) =
     fold (\<lambda>v size. usize_add (usize_add size (estimated_json_bytes v)) 1) vs 2"
| "estimated_json_bytes (JObj kvs) =
     fold (\<lambda>p size. usize_add (usize_add (usize_add size (length (fst p)))
        (estimated_json_bytes (snd p))) 4) kvs 2"

definition opt_len :: "string option \<Rightarrow> nat" where
  "opt_len v = (case v of None \<Rightarrow> 0 | Some s \<Rightarrow> length s)"

definition estimated_envelope_bytes :: "(event \<Rightarrow> nat option) \<Rightarrow> envelope \<Rightarrow> nat" where
  "estimated_envelope_bytes ser e =
     (let base = usize_add (usize_add (length (e_session e)) (opt_len (e_cmid e))) 64 in
      case e_event e of
        Update update \<Rightarrow> usize_add base (estimated_json_bytes update)
      | ev \<Rightarrow> usize_add base (case ser ev of None \<Rightarrow> 256 | Some n \<Rightarrow> n))"

section \<open>The hot tail\<close>

definition HISTORY_MAX_BYTES :: nat where "HISTORY_MAX_BYTES = 512 * 1024"
definition HOT_TAIL :: nat where "HOT_TAIL = 1000"
definition HOT_TAIL_TRIM_BATCH :: nat where "HOT_TAIL_TRIM_BATCH = 200"
definition HOT_TAIL_MAX_BYTES :: nat where "HOT_TAIL_MAX_BYTES = 1024 * 1024"

text \<open>The retention loop: drop the oldest envelope while over budget and more than one is left.\<close>

function trim_loop :: "(envelope \<Rightarrow> nat) \<Rightarrow> envelope list \<Rightarrow> nat \<Rightarrow> nat \<Rightarrow> nat \<Rightarrow> nat \<times> nat" where
  "trim_loop size_of log max_bytes retained drop_count =
     (if max_bytes < retained \<and> drop_count + 1 < length log
      then trim_loop size_of log max_bytes (retained - size_of (log ! drop_count)) (drop_count + 1)
      else (retained, drop_count))"
  by pat_completeness auto
termination
  by (relation "measure (\<lambda>(size_of, log, max_bytes, retained, drop_count). length log - drop_count)") auto

declare trim_loop.simps [simp del]

definition trim_hot_log ::
    "(envelope \<Rightarrow> nat) \<Rightarrow> envelope list \<Rightarrow> nat \<Rightarrow> bool \<Rightarrow> nat \<Rightarrow> bool \<times> envelope list \<times> nat" where
  "trim_hot_log size_of log log_bytes trim_count_batch max_bytes =
     (let first = (if trim_count_batch \<and> HOT_TAIL + HOT_TAIL_TRIM_BATCH < length log
                   then min HOT_TAIL_TRIM_BATCH (length log - 1) else 0);
          retained = fold (\<lambda>e r. r - size_of e) (take first log) log_bytes;
          (retained, drop_count) = trim_loop size_of log max_bytes retained first
      in if drop_count = 0 then (False, log, log_bytes)
         else (True, drop drop_count log, retained))"

section \<open>History pages\<close>

text \<open>
  The loop of \<open>bound_history_page\<close> over the indices from the newest event down; \<open>acc\<close> is the
  part of the page already taken.
\<close>

fun page_loop :: "(envelope \<Rightarrow> nat) \<Rightarrow> envelope list \<Rightarrow> nat \<Rightarrow> envelope list \<Rightarrow> envelope list" where
  "page_loop len [] used acc = acc"
| "page_loop len (e # older) used acc =
     (if 0 < used \<and> HISTORY_MAX_BYTES < usize_add used (len e) then acc
      else page_loop len older (usize_add used (len e)) (e # acc))"

definition bound_history_page :: "(envelope \<Rightarrow> nat option) \<Rightarrow> envelope list \<Rightarrow> envelope list" where
  "bound_history_page ser events =
     page_loop (\<lambda>e. case ser e of None \<Rightarrow> 0 | Some n \<Rightarrow> n) (rev events) 0 []"

section \<open>Question page titles\<close>

definition title_mark :: "string \<Rightarrow> bool" where
  "title_mark c \<longleftrightarrow>
     c \<in> {''#'', ''>'', ''*'', ''+'', ''-'', ''.'', [CHR 0x60], '' '', [CHR 0x09]}
   \<or> (case c of [b] \<Rightarrow> 48 \<le> byte_of b \<and> byte_of b \<le> 57 | _ \<Rightarrow> False)"

text \<open>\<open>split_whitespace\<close> over scalar values: the maximal runs without white space.\<close>

fun split_white :: "string list \<Rightarrow> string list \<Rightarrow> string list list" where
  "split_white word [] = (if word = [] then [] else [rev word])"
| "split_white word (c # cs) =
     (if is_white c then (if word = [] then [] else [rev word]) @ split_white [] cs
      else split_white (c # word) cs)"

fun join_words :: "string list list \<Rightarrow> string list" where
  "join_words [] = []"
| "join_words [w] = w"
| "join_words (w # ws) = w @ ['' ''] @ join_words ws"

definition ellipsis :: string where
  "ellipsis = [CHR 0xE2, CHR 0x80, CHR 0xA6]"

definition trim_end_chars :: "string list \<Rightarrow> string list" where
  "trim_end_chars cs = rev (dropWhile is_white (rev cs))"

text \<open>The decimal digits \<open>ordinal\<close> prints as are the parameter \<open>show_ordinal\<close>.\<close>

definition question_summary_title :: "(nat \<Rightarrow> string) \<Rightarrow> string \<Rightarrow> nat \<Rightarrow> string" where
  "question_summary_title show_ordinal t ordinal =
     (let compact = join_words (split_white [] (utf8_chars t));
          trimmed = rev (dropWhile title_mark (rev (dropWhile title_mark compact)))
      in if trimmed = [] then ''Page '' @ show_ordinal ordinal
         else if length trimmed \<le> 72 then concat trimmed
         else concat (trim_end_chars (take 72 trimmed)) @ ellipsis)"

section \<open>Lemmas\<close>

lemma from_acp_reconciles:
  assumes "from_acp u = Some t"
  shows "input_tokens t + output_tokens t = total_tokens t"
    and "total_tokens t = a_total u" "output_tokens t = a_output u"
    and "a_input u = input_tokens t
       \<or> a_input u + (case a_cached_read u of None \<Rightarrow> 0 | Some r \<Rightarrow> r)
           + (case a_cached_write u of None \<Rightarrow> 0 | Some w \<Rightarrow> w) = input_tokens t"
    and "cached_input_tokens t = Some c \<Longrightarrow>
           c \<le> input_tokens t \<and> uncached_input_tokens t = Some (input_tokens t - c)"
    and "cached_input_tokens t = None \<Longrightarrow> uncached_input_tokens t = None"
    and "cache_write_tokens t = Some w \<Longrightarrow>
           (case cached_input_tokens t of None \<Rightarrow> 0 | Some r \<Rightarrow> r) + w \<le> input_tokens t"
    and "reasoning_tokens t = Some q \<Longrightarrow> q \<le> output_tokens t"
    and "total_tokens t \<le> 2 ^ 53 - 1"
proof -
  from assms obtain inp d disjoint where
    s: "checked_sub (a_total u) (a_output u) = Some inp"
      "checked_add (a_input u) (case a_cached_read u of None \<Rightarrow> 0 | Some r \<Rightarrow> r) = Some d"
      "checked_add d (case a_cached_write u of None \<Rightarrow> 0 | Some w \<Rightarrow> w) = Some disjoint"
    and ok: "a_input u = inp \<or> disjoint = inp" "\<not> opt_gt (a_cached_read u) inp"
      "\<not> opt_gt (a_cached_write u) (inp - (case a_cached_read u of None \<Rightarrow> 0 | Some r \<Rightarrow> r))"
      "\<not> opt_gt (a_thought u) (a_output u)" "a_total u \<le> 9007199254740991"
    and t: "t = \<lparr>total_tokens = a_total u, input_tokens = inp, output_tokens = a_output u,
        cached_input_tokens = a_cached_read u,
        uncached_input_tokens = map_option (\<lambda>t. inp - t) (a_cached_read u),
        cache_write_tokens = a_cached_write u, reasoning_tokens = a_thought u\<rparr>"
    unfolding from_acp_def Let_def by (auto simp: bind_eq_Some_conv split: if_splits)
  show "input_tokens t + output_tokens t = total_tokens t" "total_tokens t = a_total u"
    "output_tokens t = a_output u" "total_tokens t \<le> 2 ^ 53 - 1"
    using s ok by (auto simp: t checked_sub_def split: if_splits)
  show "a_input u = input_tokens t
       \<or> a_input u + (case a_cached_read u of None \<Rightarrow> 0 | Some r \<Rightarrow> r)
           + (case a_cached_write u of None \<Rightarrow> 0 | Some w \<Rightarrow> w) = input_tokens t"
    using s ok by (auto simp: t checked_add_def split: if_splits)
  show "cached_input_tokens t = Some c \<Longrightarrow>
           c \<le> input_tokens t \<and> uncached_input_tokens t = Some (input_tokens t - c)"
    "cached_input_tokens t = None \<Longrightarrow> uncached_input_tokens t = None"
    "reasoning_tokens t = Some q \<Longrightarrow> q \<le> output_tokens t"
    using ok by (auto simp: t opt_gt_def)
  show "cache_write_tokens t = Some w \<Longrightarrow>
           (case cached_input_tokens t of None \<Rightarrow> 0 | Some r \<Rightarrow> r) + w \<le> input_tokens t"
    using ok by (auto simp: t opt_gt_def split: option.splits)
qed

lemma estimated_json_bytes_le_max: "estimated_json_bytes v \<le> usize_max"
proof -
  have f: "fold (\<lambda>x s. usize_add (g s x) k) xs b \<le> usize_max" if "b \<le> usize_max"
    for g :: "nat \<Rightarrow> 'a \<Rightarrow> nat" and xs k b
    using that by (induction xs arbitrary: b) (simp_all add: usize_add_le_max)
  have small: "2 \<le> usize_max" "4 \<le> usize_max" "5 \<le> usize_max" "24 \<le> usize_max"
    by (simp_all add: usize_max_def)
  show ?thesis
    by (cases v) (auto simp: usize_add_le_max small intro!: f)
qed

lemma trim_loop_spec:
  assumes "trim_loop size_of log max_bytes retained k = (r, d)" and "k < length log"
    and "retained = sum_list (map size_of (drop k log))"
  shows "k \<le> d \<and> d < length log \<and> r = sum_list (map size_of (drop d log))
    \<and> (r \<le> max_bytes \<or> d = length log - 1)
    \<and> (\<forall>j. k \<le> j \<and> j < d \<longrightarrow> max_bytes < sum_list (map size_of (drop j log)))"
  using assms
proof (induction size_of log max_bytes retained k rule: trim_loop.induct)
  case (1 size_of log max_bytes retained k)
  show ?case
  proof (cases "max_bytes < retained \<and> k + 1 < length log")
    case True
    have "drop k log = log ! k # drop (k + 1) log"
      using "1.prems"(2) by (simp add: Cons_nth_drop_Suc)
    then have a1: "retained - size_of (log ! k) = sum_list (map size_of (drop (k + 1) log))"
      by (simp add: "1.prems"(3))
    have a2: "trim_loop size_of log max_bytes (retained - size_of (log ! k)) (k + 1) = (r, d)"
      using "1.prems"(1) True by (subst (asm) trim_loop.simps) simp
    have IH: "k + 1 \<le> d \<and> d < length log \<and> r = sum_list (map size_of (drop d log))
      \<and> (r \<le> max_bytes \<or> d = length log - 1)
      \<and> (\<forall>j. k + 1 \<le> j \<and> j < d \<longrightarrow> max_bytes < sum_list (map size_of (drop j log)))"
      by (rule "1.IH" [OF True a2 conjunct2 [OF True] a1])
    have "max_bytes < sum_list (map size_of (drop j log))" if "k \<le> j" "j < d" for j
      using IH True "1.prems"(3) that by (cases "j = k") auto
    moreover from IH have "k \<le> d" by simp
    ultimately show ?thesis using IH by blast
  next
    case False
    with 1 show ?thesis by (subst (asm) trim_loop.simps) auto
  qed
qed

lemma fold_minus:
  "fold (\<lambda>e r. r - size_of e) xs (sum_list (map size_of xs) + n) = (n :: nat)"
  by (induction xs) simp_all

lemma page_loop_spec:
  assumes pos: "\<And>e. e \<in> set xs \<union> set acc \<Longrightarrow> 0 < len e"
    and acc: "used = min usize_max (sum_list (map len acc))" "sum_list (map len acc) \<le> HISTORY_MAX_BYTES \<or> length acc = 1"
  shows "\<exists>ys. rev xs @ acc = ys @ page_loop len xs used acc
    \<and> (xs @ acc \<noteq> [] \<longrightarrow> page_loop len xs used acc \<noteq> [])
    \<and> (sum_list (map len (page_loop len xs used acc)) \<le> HISTORY_MAX_BYTES
       \<or> length (page_loop len xs used acc) = 1)
    \<and> (ys \<noteq> [] \<longrightarrow> HISTORY_MAX_BYTES < len (last ys) + sum_list (map len (page_loop len xs used acc)))"
  using assms
proof (induction xs arbitrary: used acc)
  case Nil
  then show ?case by simp
next
  case (Cons e older)
  have lim: "HISTORY_MAX_BYTES < usize_max" by (simp add: HISTORY_MAX_BYTES_def usize_max_def)
  show ?case
  proof (cases "0 < used \<and> HISTORY_MAX_BYTES < usize_add used (len e)")
    case True
    then have "HISTORY_MAX_BYTES < len e + sum_list (map len acc)"
      using Cons.prems(2) by (auto simp: usize_add_def)
    moreover have "acc \<noteq> []" using True Cons.prems(2) by auto
    ultimately show ?thesis using True Cons.prems(3)
      by (intro exI [of _ "rev (e # older)"]) simp
  next
    case False
    have used': "usize_add used (len e) = min usize_max (sum_list (map len (e # acc)))"
      using Cons.prems(2) by (auto simp: usize_add_def)
    have small: "sum_list (map len (e # acc)) \<le> HISTORY_MAX_BYTES \<or> length (e # acc) = 1"
    proof (cases "acc = []")
      case True
      then show ?thesis by simp
    next
      case ne: False
      then obtain a as where "acc = a # as" by (cases acc) auto
      with Cons.prems(1) [of a] Cons.prems(2) lim have "0 < used" by (auto simp: usize_max_def)
      with False have "usize_add used (len e) \<le> HISTORY_MAX_BYTES" by simp
      then show ?thesis unfolding used' using lim by (auto simp: min_def split: if_splits)
    qed
    from Cons.IH [OF _ used' small] Cons.prems(1) obtain ys where
      "rev older @ e # acc = ys @ page_loop len older (usize_add used (len e)) (e # acc)
       \<and> page_loop len older (usize_add used (len e)) (e # acc) \<noteq> []
       \<and> (sum_list (map len (page_loop len older (usize_add used (len e)) (e # acc))) \<le> HISTORY_MAX_BYTES
         \<or> length (page_loop len older (usize_add used (len e)) (e # acc)) = 1)
       \<and> (ys \<noteq> [] \<longrightarrow> HISTORY_MAX_BYTES < len (last ys)
           + sum_list (map len (page_loop len older (usize_add used (len e)) (e # acc))))"
      by auto
    moreover have "page_loop len (e # older) used acc = page_loop len older (usize_add used (len e)) (e # acc)"
      using False by (simp only: page_loop.simps if_False)
    moreover have "rev (e # older) @ acc = rev older @ e # acc" by simp
    ultimately show ?thesis by metis
  qed
qed

text \<open>Trimming the hot tail drops only the oldest events, never the newest one, keeps the byte
  counter exact, and stops as soon as the rest fits the budget; it reports whether it dropped
  anything.\<close>

theorem hot_tail_trim_exact:
  assumes "log_bytes = sum_list (map size_of log)" and "log \<noteq> []"
    and "trim_hot_log size_of log log_bytes batch max_bytes = (dropped, log', bytes')"
  shows "\<exists>old. log = old @ log' \<and> log' \<noteq> [] \<and> bytes' = sum_list (map size_of log')
    \<and> (dropped \<longleftrightarrow> old \<noteq> [])
    \<and> (bytes' \<le> max_bytes \<or> length log' = 1)
    \<and> (\<not> batch \<longrightarrow> (\<forall>k < length old. max_bytes < sum_list (map size_of (drop k log))))"
proof -
  define first where "first = (if batch \<and> HOT_TAIL + HOT_TAIL_TRIM_BATCH < length log
      then min HOT_TAIL_TRIM_BATCH (length log - 1) else 0)"
  have first: "first < length log"
    using assms(2) by (auto simp: first_def HOT_TAIL_def HOT_TAIL_TRIM_BATCH_def)
  have "log_bytes = sum_list (map size_of (take first log)) + sum_list (map size_of (drop first log))"
    unfolding assms(1) by (metis append_take_drop_id map_append sum_list_append)
  then have kept: "fold (\<lambda>e r. r - size_of e) (take first log) log_bytes = sum_list (map size_of (drop first log))"
    by (simp add: fold_minus)
  obtain r d where run: "trim_loop size_of log max_bytes (sum_list (map size_of (drop first log))) first = (r, d)"
    by fastforce
  note spec = trim_loop_spec [OF run first refl]
  have res: "(dropped, log', bytes') = (if d = 0 then (False, log, log_bytes) else (True, drop d log, r))"
    using assms(3) run kept by (simp add: trim_hot_log_def first_def [symmetric] Let_def)
  have split: "log = take d log @ drop d log" by simp
  have eq: "log' = drop d log \<and> bytes' = r \<and> (dropped \<longleftrightarrow> d \<noteq> 0)"
    using res spec assms(1) by (auto split: if_splits)
  have len: "length (take d log) = d" using spec by simp
  have fit: "r \<le> max_bytes \<or> length (drop d log) = 1"
  proof -
    have "length (drop d log) = 1" if "d = length log - 1" using spec that by simp
    with spec show ?thesis by blast
  qed
  have sum: "r = sum_list (map size_of (drop d log))" using spec by blast
  have over: "max_bytes < sum_list (map size_of (drop k log))" if "\<not> batch" "k < d" for k
    using spec that by (simp add: first_def)
  show ?thesis
  proof (intro exI [of _ "take d log"] conjI)
    show "log = take d log @ log'" "log' \<noteq> []" "dropped \<longleftrightarrow> take d log \<noteq> []" using eq spec by auto
    show "bytes' = sum_list (map size_of log')" "bytes' \<le> max_bytes \<or> length log' = 1"
      using eq fit sum by simp_all
    show "\<not> batch \<longrightarrow> (\<forall>k < length (take d log). max_bytes < sum_list (map size_of (drop k log)))"
      using over unfolding len by blast
  qed
qed

theorem hot_tail_trim_exact_witness:
  "\<exists>dropped log' bytes'. trim_hot_log (\<lambda>_. 10) (replicate 3 \<lparr>e_session = ''s'', e_seq = 0,
        e_event = TurnEnd ''end'' None, e_cmid = None\<rparr>) 30 True 15 = (dropped, log', bytes')
     \<and> bytes' = sum_list (map (\<lambda>_. 10) log') \<and> log' \<noteq> []"
proof -
  let ?log = "replicate 3 \<lparr>e_session = ''s'', e_seq = 0, e_event = TurnEnd ''end'' None, e_cmid = None\<rparr>"
  obtain dropped log' bytes' where
    run: "trim_hot_log (\<lambda>_. 10) ?log 30 True 15 = (dropped, log', bytes')" by (metis prod.exhaust)
  have "30 = sum_list (map (\<lambda>_. 10) ?log)" "?log \<noteq> []" by (simp_all add: numeral_eq_Suc)
  from hot_tail_trim_exact [OF this run] run show ?thesis by blast
qed

text \<open>a history page is a newest suffix of the events, never empty when there are events, within
  the byte budget unless it is a single oversized event, and as long as the budget allows.\<close>

theorem history_page_longest_suffix:
  assumes "\<And>e. e \<in> set events \<Longrightarrow> \<exists>n > 0. ser e = Some n"
  defines "len \<equiv> \<lambda>e. case ser e of None \<Rightarrow> 0 | Some n \<Rightarrow> n"
  shows "\<exists>older. events = older @ bound_history_page ser events
    \<and> (events \<noteq> [] \<longrightarrow> bound_history_page ser events \<noteq> [])
    \<and> (sum_list (map len (bound_history_page ser events)) \<le> HISTORY_MAX_BYTES
       \<or> length (bound_history_page ser events) = 1)
    \<and> (older \<noteq> [] \<longrightarrow>
         HISTORY_MAX_BYTES < len (last older) + sum_list (map len (bound_history_page ser events)))"
proof -
  have "0 < len e" if "e \<in> set (rev events) \<union> set []" for e
    using assms(1) [of e] that by (auto simp: len_def)
  from page_loop_spec [of "rev events" "[]" len 0, OF this] show ?thesis
    by (simp add: bound_history_page_def len_def)
qed

definition demo_events :: "envelope list" where
  "demo_events = map (\<lambda>n. \<lparr>e_session = ''s'', e_seq = n, e_event = TurnEnd ''end'' None, e_cmid = None\<rparr>) [0, 1, 2]"

definition demo_ser :: "envelope \<Rightarrow> nat option" where
  "demo_ser e = Some (if e_seq e = 1 then 600000 else 7)"

theorem history_page_longest_suffix_witness:
  "map e_seq (bound_history_page demo_ser demo_events) = [2]
   \<and> (\<exists>older. demo_events = older @ bound_history_page demo_ser demo_events)"
proof
  show "map e_seq (bound_history_page demo_ser demo_events) = [2]"
    by (simp add: demo_ser_def demo_events_def bound_history_page_def HISTORY_MAX_BYTES_def usize_add_def
        usize_max_def)
  have "\<And>e. e \<in> set demo_events \<Longrightarrow> \<exists>n > 0. demo_ser e = Some n"
    by (simp add: demo_ser_def)
  from history_page_longest_suffix [where events = demo_events and ser = demo_ser, OF this]
  show "\<exists>older. demo_events = older @ bound_history_page demo_ser demo_events" by blast
qed

text \<open>token usage accepted from an adapter reconciles: input and output add up to the reported
  total, cached and uncached input split the input, cache writes fit beside cache reads, reasoning
  is part of the output, and every count is a safe integer of a JavaScript client.\<close>

theorem turn_usage_reconciles:
  assumes "from_acp u = Some t"
  shows "input_tokens t + output_tokens t = total_tokens t \<and> total_tokens t = a_total u
    \<and> (\<forall>c. cached_input_tokens t = Some c \<longrightarrow>
         (\<exists>d. uncached_input_tokens t = Some d \<and> c + d = input_tokens t))
    \<and> (\<forall>w. cache_write_tokens t = Some w \<longrightarrow>
         (case cached_input_tokens t of None \<Rightarrow> 0 | Some r \<Rightarrow> r) + w \<le> input_tokens t)
    \<and> (\<forall>q. reasoning_tokens t = Some q \<longrightarrow> q \<le> output_tokens t)
    \<and> total_tokens t \<le> 2 ^ 53 - 1"
  using from_acp_reconciles [OF assms] by force

definition demo_usage :: acp_usage where
  "demo_usage = \<lparr>a_total = 1110, a_input = 80, a_output = 110, a_cached_read = Some 900,
     a_cached_write = Some 20, a_thought = Some 50\<rparr>"

theorem turn_usage_reconciles_witness:
  "\<exists>t. from_acp demo_usage = Some t
     \<and> input_tokens t = 1000 \<and> input_tokens t + output_tokens t = total_tokens t"
proof -
  have "map_option input_tokens (from_acp demo_usage) = Some 1000"
    by (simp add: demo_usage_def from_acp_def checked_add_def checked_sub_def usize_max_def opt_gt_def)
  then obtain t where t: "from_acp demo_usage = Some t" "input_tokens t = 1000"
    unfolding map_option_eq_Some by blast
  from turn_usage_reconciles [OF t(1)] t show ?thesis by blast
qed

end
