(* ===== verification/Fifo_Sink.thy ===== *)
theory Fifo_Sink
  imports Prelude
begin

text \<open>
  The interface of a bounded first-in first-out channel: the write-behind sink of the store and the
  per-session dispatch channel both provide it. A send either takes the item to the end or refuses it
  and leaves the contents alone; a receive takes the front.
\<close>

datatype 'w channel_op = Send 'w | Recv

locale fifo_sink =
  fixes inv :: "'q \<Rightarrow> bool"
    and items :: "'q \<Rightarrow> 'w list"
    and send :: "'w \<Rightarrow> 'q \<Rightarrow> bool \<times> 'q"
    and recv :: "'q \<Rightarrow> 'w option \<times> 'q"
  assumes inv_send: "inv q \<Longrightarrow> inv (snd (send w q))"
    and inv_recv: "inv q \<Longrightarrow> inv (snd (recv q))"
    and items_send: "inv q \<Longrightarrow>
          items (snd (send w q)) = (if fst (send w q) then items q @ [w] else items q)"
    and items_recv: "inv q \<Longrightarrow>
          (case fst (recv q) of
             None \<Rightarrow> items q = [] \<and> items (snd (recv q)) = []
           | Some w \<Rightarrow> items q = w # items (snd (recv q)))"
begin

text \<open>A run returns the accepted items, the received items and the final state.\<close>

primrec run :: "'w channel_op list \<Rightarrow> 'q \<Rightarrow> 'w list \<times> 'w list \<times> 'q" where
  "run [] q = ([], [], q)"
| "run (ev # evs) q =
     (case ev of
        Send w \<Rightarrow>
          (case run evs (snd (send w q)) of
             (accepted, received, q') \<Rightarrow> (if fst (send w q) then w # accepted else accepted, received, q'))
      | Recv \<Rightarrow>
          (case run evs (snd (recv q)) of
             (accepted, received, q') \<Rightarrow>
               (accepted, case fst (recv q) of None \<Rightarrow> received | Some w \<Rightarrow> w # received, q')))"

lemma run_fifo:
  "inv q \<Longrightarrow> run evs q = (accepted, received, q') \<Longrightarrow>
   inv q' \<and> items q @ accepted = received @ items q'"
proof (induction evs arbitrary: q accepted received q')
  case Nil
  then show ?case by simp
next
  case (Cons ev evs)
  show ?case
  proof (cases ev)
    case (Send w)
    obtain a r q1 where r: "run evs (snd (send w q)) = (a, r, q1)" by (metis prod.exhaust)
    from Cons.IH [OF inv_send [OF Cons.prems(1)] r] items_send [OF Cons.prems(1), of w] Cons.prems(2) Send r
    show ?thesis by (auto split: if_splits)
  next
    case Recv
    obtain a r q1 where r: "run evs (snd (recv q)) = (a, r, q1)" by (metis prod.exhaust)
    from Cons.IH [OF inv_recv [OF Cons.prems(1)] r] items_recv [OF Cons.prems(1)] Cons.prems(2) Recv r
    show ?thesis by (auto split: option.splits)
  qed
qed

lemma run_from_empty:
  assumes "inv q" "items q = []" "run evs q = (accepted, received, q')"
  shows "accepted = received @ items q'"
  using run_fifo [OF assms(1,3)] assms(2) by simp

end

text \<open>A bounded sink never holds more than its measure allows.\<close>

locale bounded_fifo_sink = fifo_sink inv items send recv
  for inv :: "'q \<Rightarrow> bool" and items :: "'q \<Rightarrow> 'w list"
    and send :: "'w \<Rightarrow> 'q \<Rightarrow> bool \<times> 'q" and recv :: "'q \<Rightarrow> 'w option \<times> 'q" +
  fixes load :: "'q \<Rightarrow> nat" and limit :: nat
  assumes load_limit: "inv q \<Longrightarrow> load q \<le> limit"
begin

lemma run_bounded: "inv q \<Longrightarrow> run evs q = (accepted, received, q') \<Longrightarrow> load q' \<le> limit"
  using run_fifo load_limit by blast

end

end
