(* ===== verification/Persist_Queue.thy ===== *)
theory Persist_Queue
  imports Transcript Fifo_Sink
begin

text \<open>
  \<^verbatim>\<open>src/src/core/persistence_queue.rs\<close>: the write-behind queue between the Hub and its store. A
  write is admitted against a slot budget and a byte budget, with reserves for the writes that are not
  streamed updates and one slot for an oversized one. The health counters are atomics of wrapping
  machine words. The queued write is the type \<open>'w\<close>; its estimated size and whether it is a streamed
  update are computed by the sender.
\<close>

section \<open>Stored writes\<close>

text \<open>
  \<open>StoreWrite\<close> of \<^verbatim>\<open>src/src/core.rs\<close>: the session metadata and the notification record it may carry
  are the types \<open>'m\<close> and \<open>'o\<close>, a queued message is \<open>'g\<close>, a folder \<open>'f\<close>.
\<close>

datatype ('m, 'o, 'g, 'f) store_write =
    InsertSession 'm
  | AppendEvent envelope
  | UpdateStatus string status
  | RecordOccurrence 'o
  | RecordSessionError string string int string
  | UpdateTitle string string
  | UpdateCwd string string "string option"
  | ReloadProvider 'm
  | SetAgentSessionId string "string option"
  | UpdateConfigOptions string json
  | UpdateConfigPreferences string json
  | ClearEvents string int
  | DeleteSession string
  | UpdatePending string "'g list" "'g list"
  | UpdateWorkspaceOrder string "string list"
  | UpdateSessionOrder "string list"
  | ReplaceSessionFolders "string option" "'f list"
  | UpdateSessionPlacement "(string \<times> string option) list"
  | SetSessionsTrashed "string list" "int option"
  | UpdateMobileReviewState string json
  | UpsertWakeup string int string
  | DeleteWakeup string
  | PutSetting string json

text \<open>
  The estimate of a queued message's size is the parameter \<open>msg_size\<close> (see the queue's theory); the
  serialized length of an event and of a whole write, \<open>None\<close> where serialization fails, are \<open>ser\<close>
  and \<open>ser_write\<close>.
\<close>

definition estimated_store_write_bytes ::
    "(event \<Rightarrow> nat option) \<Rightarrow> ('g \<Rightarrow> nat \<Rightarrow> nat) \<Rightarrow> (('m, 'o, 'g, 'f) store_write \<Rightarrow> nat option)
     \<Rightarrow> ('m, 'o, 'g, 'f) store_write \<Rightarrow> nat" where
  "estimated_store_write_bytes ser msg_size ser_write w =
     (case w of
        AppendEvent e \<Rightarrow> estimated_envelope_bytes ser e
      | UpdateConfigOptions _ options \<Rightarrow> usize_add (estimated_json_bytes options) 128
      | UpdateConfigPreferences _ preferences \<Rightarrow> usize_add (estimated_json_bytes preferences) 128
      | UpdateMobileReviewState _ v \<Rightarrow> usize_add (estimated_json_bytes v) 128
      | UpdatePending session queue drafts \<Rightarrow>
          fold msg_size (queue @ drafts) (usize_add (length session) 64)
      | UpsertWakeup session _ prompt \<Rightarrow> usize_add (usize_add (length session) (length prompt)) 32
      | RecordSessionError eid session _ message \<Rightarrow>
          usize_add (usize_add (usize_add (length message) (length eid)) (length session)) 64
      | _ \<Rightarrow> (case ser_write w of None \<Rightarrow> usize_max | Some n \<Rightarrow> usize_add n 64))"

definition is_critical :: "('m, 'o, 'g, 'f) store_write \<Rightarrow> bool" where
  "is_critical w =
     (case w of
        AppendEvent e \<Rightarrow> (case e_event e of Update _ \<Rightarrow> False | _ \<Rightarrow> True)
      | _ \<Rightarrow> True)"

section \<open>Health\<close>

record health =
  h_pending :: u64
  h_pending_bytes :: u64
  h_dropped :: u64
  h_failed_batches :: u64
  h_degraded :: bool
  h_last_error :: "string option"

definition new_health :: health where
  "new_health = \<lparr>h_pending = 0, h_pending_bytes = 0, h_dropped = 0, h_failed_batches = 0,
     h_degraded = False, h_last_error = None\<rparr>"

definition is_healthy :: "health \<Rightarrow> bool" where
  "is_healthy h \<longleftrightarrow> \<not> h_degraded h"

definition mark_failed_batch :: "health \<Rightarrow> health" where
  "mark_failed_batch h = h\<lparr>h_failed_batches := h_failed_batches h + 1, h_degraded := True,
     h_last_error := Some ''database write retries exhausted''\<rparr>"

definition rejected :: "string \<Rightarrow> nat \<Rightarrow> health \<Rightarrow> health" where
  "rejected reason n h = h\<lparr>h_dropped := h_dropped h + of_nat n, h_degraded := True,
     h_last_error := Some reason\<rparr>"

definition queued :: "nat \<Rightarrow> health \<Rightarrow> health" where
  "queued bytes h = h\<lparr>h_pending := h_pending h + 1, h_pending_bytes := h_pending_bytes h + of_nat bytes\<rparr>"

definition consumed :: "nat \<Rightarrow> health \<Rightarrow> health" where
  "consumed bytes h = h\<lparr>h_pending := h_pending h - 1, h_pending_bytes := h_pending_bytes h - of_nat bytes\<rparr>"

section \<open>The queue\<close>

definition NORMAL_BYTES :: nat where "NORMAL_BYTES = 8388608"
definition RESERVED_BYTES :: nat where "RESERVED_BYTES = 262144"
definition RESERVED_SLOTS :: nat where "RESERVED_SLOTS = 64"
definition MAX_FRAME_BYTES :: nat where "MAX_FRAME_BYTES = 33554432"
definition MAX_SINGLE_BYTES :: nat where "MAX_SINGLE_BYTES = 2 * MAX_FRAME_BYTES"

datatype charge = Normal | Reserved | Oversized

record 'w entry =
  en_write :: 'w
  en_bytes :: nat
  en_charge :: charge

record 'w queue_state =
  q_entries :: "'w entry list"
  q_normal_bytes :: nat
  q_reserved_bytes :: nat
  q_oversized :: bool
  q_closed :: bool

definition new_queue :: "'w queue_state" where
  "new_queue = \<lparr>q_entries = [], q_normal_bytes = 0, q_reserved_bytes = 0, q_oversized = False,
     q_closed = False\<rparr>"

definition charge_for :: "'w queue_state \<Rightarrow> nat \<Rightarrow> bool \<Rightarrow> nat \<Rightarrow> string + charge" where
  "charge_for s bytes critical capacity =
     (if q_closed s then Inl ''persistence admission closed''
      else if usize_add capacity (if critical then RESERVED_SLOTS else 0) \<le> length (q_entries s)
      then Inl ''persistence queue count budget exhausted''
      else if MAX_SINGLE_BYTES < bytes then Inl ''persistence intent exceeds single-item budget''
      else if NORMAL_BYTES < bytes then
        (if q_oversized s then Inl ''persistence oversized slot occupied'' else Inr Oversized)
      else if usize_add (q_normal_bytes s) bytes \<le> NORMAL_BYTES then Inr Normal
      else if critical \<and> usize_add (q_reserved_bytes s) bytes \<le> RESERVED_BYTES then Inr Reserved
      else Inl ''persistence queue byte budget exhausted'')"

definition queue_push :: "'w entry \<Rightarrow> 'w queue_state \<Rightarrow> 'w queue_state" where
  "queue_push e s =
     (let s = (case en_charge e of
                 Normal \<Rightarrow> s\<lparr>q_normal_bytes := q_normal_bytes s + en_bytes e\<rparr>
               | Reserved \<Rightarrow> s\<lparr>q_reserved_bytes := q_reserved_bytes s + en_bytes e\<rparr>
               | Oversized \<Rightarrow> s\<lparr>q_oversized := True\<rparr>)
      in s\<lparr>q_entries := q_entries s @ [e]\<rparr>)"

definition queue_pop :: "'w queue_state \<Rightarrow> health \<Rightarrow> 'w option \<times> 'w queue_state \<times> health" where
  "queue_pop s h =
     (case q_entries s of
        [] \<Rightarrow> (None, s, h)
      | e # es \<Rightarrow>
          (let s = s\<lparr>q_entries := es\<rparr>;
               s = (case en_charge e of
                      Normal \<Rightarrow> s\<lparr>q_normal_bytes := q_normal_bytes s - en_bytes e\<rparr>
                    | Reserved \<Rightarrow> s\<lparr>q_reserved_bytes := q_reserved_bytes s - en_bytes e\<rparr>
                    | Oversized \<Rightarrow> s\<lparr>q_oversized := False\<rparr>)
           in (Some (en_write e), s, consumed (en_bytes e) h)))"

text \<open>The state shared by the senders and the receiver.\<close>

record 'w shared =
  sh_state :: "'w queue_state"
  sh_health :: health
  sh_senders :: nat
  sh_capacity :: nat

definition channel :: "nat \<Rightarrow> health \<Rightarrow> 'w shared option" where
  "channel capacity h =
     (if capacity = 0 then None
      else Some \<lparr>sh_state = new_queue, sh_health = h, sh_senders = 1, sh_capacity = capacity\<rparr>)"

definition sink_send :: "('w \<Rightarrow> nat) \<Rightarrow> ('w \<Rightarrow> bool) \<Rightarrow> 'w \<Rightarrow> 'w shared \<Rightarrow> bool \<times> 'w shared" where
  "sink_send size_of critical w sh =
     (let bytes = size_of w in
      case charge_for (sh_state sh) bytes (critical w) (sh_capacity sh) of
        Inl reason \<Rightarrow> (False, sh\<lparr>sh_health := rejected reason 1 (sh_health sh)\<rparr>)
      | Inr ch \<Rightarrow>
          (True, sh\<lparr>sh_health := queued bytes (sh_health sh),
                    sh_state := queue_push \<lparr>en_write = w, en_bytes = bytes, en_charge = ch\<rparr> (sh_state sh)\<rparr>))"

definition close_state :: "'w shared \<Rightarrow> 'w shared" where
  "close_state sh = sh\<lparr>sh_state := (sh_state sh)\<lparr>q_closed := True\<rparr>\<rparr>"

definition sink_clone :: "'w shared \<Rightarrow> 'w shared" where
  "sink_clone sh = sh\<lparr>sh_senders := sh_senders sh + 1\<rparr>"

definition sink_drop :: "'w shared \<Rightarrow> 'w shared" where
  "sink_drop sh =
     (let sh' = sh\<lparr>sh_senders := sh_senders sh - 1\<rparr>
      in if sh_senders sh = 1 then close_state sh' else sh')"

datatype recv_error = Disconnected | Empty

definition try_recv :: "'w shared \<Rightarrow> (recv_error + 'w) \<times> 'w shared" where
  "try_recv sh =
     (case queue_pop (sh_state sh) (sh_health sh) of
        (v, s, h) \<Rightarrow>
          (ok_or v (if q_closed (sh_state sh) then Disconnected else Empty),
           sh\<lparr>sh_state := s, sh_health := h\<rparr>))"

fun drain_all :: "nat \<Rightarrow> 'w queue_state \<Rightarrow> health \<Rightarrow> 'w queue_state \<times> health" where
  "drain_all 0 s h = (s, h)"
| "drain_all (Suc n) s h =
     (case queue_pop s h of
        (None, s', h') \<Rightarrow> (s', h')
      | (Some _, s', h') \<Rightarrow> drain_all n s' h')"

definition receiver_drop :: "'w shared \<Rightarrow> 'w shared" where
  "receiver_drop sh =
     (let sh = close_state sh;
          dropped = length (q_entries (sh_state sh));
          (s, h) = drain_all (Suc dropped) (sh_state sh) (sh_health sh);
          h = (if 0 < dropped then rejected ''persistence receiver dropped before drain'' dropped h else h)
      in sh\<lparr>sh_state := s, sh_health := h\<rparr>)"

section \<open>What the queue keeps\<close>

definition bytes_of :: "charge \<Rightarrow> 'w entry list \<Rightarrow> nat" where
  "bytes_of c es = sum_list (map en_bytes (filter (\<lambda>e. en_charge e = c) es))"

definition queue_inv :: "nat \<Rightarrow> 'w queue_state \<Rightarrow> bool" where
  "queue_inv capacity s \<longleftrightarrow>
     length (q_entries s) \<le> usize_add capacity RESERVED_SLOTS
   \<and> q_normal_bytes s = bytes_of Normal (q_entries s) \<and> q_normal_bytes s \<le> NORMAL_BYTES
   \<and> q_reserved_bytes s = bytes_of Reserved (q_entries s) \<and> q_reserved_bytes s \<le> RESERVED_BYTES
   \<and> length (filter (\<lambda>e. en_charge e = Oversized) (q_entries s)) = (if q_oversized s then 1 else 0)
   \<and> (\<forall>e \<in> set (q_entries s). en_bytes e \<le> MAX_SINGLE_BYTES)"

definition shared_inv :: "'w shared \<Rightarrow> bool" where
  "shared_inv sh \<longleftrightarrow>
     queue_inv (sh_capacity sh) (sh_state sh)
   \<and> h_pending (sh_health sh) = of_nat (length (q_entries (sh_state sh)))
   \<and> h_pending_bytes (sh_health sh) = of_nat (sum_list (map en_bytes (q_entries (sh_state sh))))"

definition contents :: "'w shared \<Rightarrow> 'w list" where
  "contents sh = map en_write (q_entries (sh_state sh))"

definition load :: "'w shared \<Rightarrow> nat" where
  "load sh = sum_list (map en_bytes (q_entries (sh_state sh)))"

lemmas queue_consts = NORMAL_BYTES_def RESERVED_BYTES_def RESERVED_SLOTS_def MAX_FRAME_BYTES_def
  MAX_SINGLE_BYTES_def usize_max_def

lemma bytes_of_append [simp]: "bytes_of c (xs @ ys) = bytes_of c xs + bytes_of c ys"
  by (simp add: bytes_of_def)

lemma bytes_of_Cons [simp]: "bytes_of c (e # es) = (if en_charge e = c then en_bytes e else 0) + bytes_of c es"
  by (simp add: bytes_of_def)

lemma bytes_of_Nil [simp]: "bytes_of c [] = 0"
  by (simp add: bytes_of_def)

lemma bytes_split:
  "sum_list (map en_bytes es) = bytes_of Normal es + bytes_of Reserved es + bytes_of Oversized es"
proof (induction es)
  case (Cons e es)
  then show ?case by (cases "en_charge e") simp_all
qed simp

lemma oversized_bound:
  "\<forall>e \<in> set es. en_bytes e \<le> m \<Longrightarrow>
   bytes_of Oversized es \<le> length (filter (\<lambda>e. en_charge e = Oversized) es) * m"
  by (induction es) auto

lemma queue_load:
  assumes "queue_inv capacity s"
  shows "sum_list (map en_bytes (q_entries s)) \<le> NORMAL_BYTES + RESERVED_BYTES + MAX_SINGLE_BYTES"
proof -
  have "bytes_of Oversized (q_entries s) \<le> MAX_SINGLE_BYTES"
    using oversized_bound [of "q_entries s" MAX_SINGLE_BYTES] assms
    by (auto simp: queue_inv_def split: if_splits)
  with assms show ?thesis unfolding bytes_split by (auto simp: queue_inv_def)
qed

lemma usize_add_fits: "usize_add a b \<le> n \<Longrightarrow> n < usize_max \<Longrightarrow> a + b \<le> n"
  by (rule usize_add_below)

lemma charge_push_inv:
  assumes inv: "queue_inv capacity s" and ch: "charge_for s bytes critical capacity = Inr c"
  shows "queue_inv capacity (queue_push \<lparr>en_write = w, en_bytes = bytes, en_charge = c\<rparr> s)"
proof -
  have lim: "NORMAL_BYTES < usize_max" "RESERVED_BYTES < usize_max" by (simp_all add: queue_consts)
  have "length (q_entries s) < usize_add capacity (if critical then RESERVED_SLOTS else 0)"
    "bytes \<le> MAX_SINGLE_BYTES"
    using ch by (auto simp: charge_for_def split: if_splits)
  moreover have "usize_add capacity (if critical then RESERVED_SLOTS else 0) \<le> usize_add capacity RESERVED_SLOTS"
    by (auto simp: usize_add_def)
  moreover have "c = Normal \<Longrightarrow> q_normal_bytes s + bytes \<le> NORMAL_BYTES"
    "c = Reserved \<Longrightarrow> q_reserved_bytes s + bytes \<le> RESERVED_BYTES"
    "c = Oversized \<Longrightarrow> \<not> q_oversized s"
    using ch lim by (auto simp: charge_for_def split: if_splits dest: usize_add_fits)
  ultimately show ?thesis
    using inv by (cases c) (auto simp: queue_inv_def queue_push_def)
qed

lemma queue_pop_cases:
  obtains "q_entries s = []" "queue_pop s h = (None, s, h)"
  | e es where "q_entries s = e # es"
      "queue_pop s h = (Some (en_write e),
         (case en_charge e of
            Normal \<Rightarrow> s\<lparr>q_entries := es, q_normal_bytes := q_normal_bytes s - en_bytes e\<rparr>
          | Reserved \<Rightarrow> s\<lparr>q_entries := es, q_reserved_bytes := q_reserved_bytes s - en_bytes e\<rparr>
          | Oversized \<Rightarrow> s\<lparr>q_entries := es, q_oversized := False\<rparr>), consumed (en_bytes e) h)"
proof (cases "q_entries s")
  case Nil
  then show thesis using that(1) by (simp add: queue_pop_def)
next
  case (Cons e es)
  then show thesis
    using that(2) [OF Cons] by (cases "en_charge e") (simp_all add: queue_pop_def Let_def)
qed

lemma queue_pop_inv:
  assumes inv: "queue_inv capacity s" and pop: "queue_pop s h = (v, s', h')"
  shows "queue_inv capacity s'
    \<and> q_closed s' = q_closed s
    \<and> (v = None \<longrightarrow> q_entries s = [] \<and> s' = s \<and> h' = h)
    \<and> (\<forall>w. v = Some w \<longrightarrow> (\<exists>e. q_entries s = e # q_entries s' \<and> w = en_write e \<and> h' = consumed (en_bytes e) h))"
proof (rule queue_pop_cases [of s h])
  assume "q_entries s = []" "queue_pop s h = (None, s, h)"
  with assms show ?thesis by simp
next
  fix e es assume es: "q_entries s = e # es" and run: "queue_pop s h = (Some (en_write e),
         (case en_charge e of
            Normal \<Rightarrow> s\<lparr>q_entries := es, q_normal_bytes := q_normal_bytes s - en_bytes e\<rparr>
          | Reserved \<Rightarrow> s\<lparr>q_entries := es, q_reserved_bytes := q_reserved_bytes s - en_bytes e\<rparr>
          | Oversized \<Rightarrow> s\<lparr>q_entries := es, q_oversized := False\<rparr>), consumed (en_bytes e) h)"
  have "length es \<le> usize_add capacity RESERVED_SLOTS" using inv es by (simp add: queue_inv_def)
  with inv es pop run show ?thesis
    by (cases "en_charge e") (auto simp: queue_inv_def split: if_splits)
qed

lemma sink_send_spec:
  assumes inv: "shared_inv sh"
  shows "shared_inv (snd (sink_send size_of critical w sh))"
    and "contents (snd (sink_send size_of critical w sh))
       = (if fst (sink_send size_of critical w sh) then contents sh @ [w] else contents sh)"
proof -
  let ?s = "sh_state sh" and ?cap = "sh_capacity sh"
  have "shared_inv (snd (sink_send size_of critical w sh))
    \<and> contents (snd (sink_send size_of critical w sh))
       = (if fst (sink_send size_of critical w sh) then contents sh @ [w] else contents sh)"
  proof (cases "charge_for ?s (size_of w) (critical w) ?cap")
    case (Inl e)
    with inv show ?thesis by (simp add: sink_send_def shared_inv_def contents_def rejected_def Let_def)
  next
    case (Inr c)
    have ent: "q_entries (queue_push e ?s) = q_entries ?s @ [e]" for e
      by (simp add: queue_push_def Let_def split: charge.splits)
    from Inr inv charge_push_inv [OF _ Inr, of w] show ?thesis
      by (simp add: sink_send_def shared_inv_def contents_def queued_def ent Let_def ac_simps)
  qed
  then show "shared_inv (snd (sink_send size_of critical w sh))"
    "contents (snd (sink_send size_of critical w sh))
       = (if fst (sink_send size_of critical w sh) then contents sh @ [w] else contents sh)" by blast+
qed

definition recv_step :: "'w shared \<Rightarrow> 'w option \<times> 'w shared" where
  "recv_step sh = (case try_recv sh of (r, sh') \<Rightarrow> (case r of Inl _ \<Rightarrow> None | Inr w \<Rightarrow> Some w, sh'))"

lemma recv_step_spec:
  assumes inv: "shared_inv sh"
  shows "shared_inv (snd (recv_step sh))"
    and "case fst (recv_step sh) of
           None \<Rightarrow> contents sh = [] \<and> contents (snd (recv_step sh)) = []
         | Some w \<Rightarrow> contents sh = w # contents (snd (recv_step sh))"
proof -
  obtain v s h where pop: "queue_pop (sh_state sh) (sh_health sh) = (v, s, h)" by (metis prod.exhaust)
  have q: "queue_inv (sh_capacity sh) (sh_state sh)" using inv by (simp add: shared_inv_def)
  note spec = queue_pop_inv [OF q pop]
  have step: "recv_step sh = (v, sh\<lparr>sh_state := s, sh_health := h\<rparr>)"
    using pop by (cases v) (simp_all add: recv_step_def try_recv_def ok_or_def)
  have "shared_inv (sh\<lparr>sh_state := s, sh_health := h\<rparr>)"
  proof (cases v)
    case None
    with spec inv show ?thesis by simp
  next
    case (Some w)
    with spec obtain e where "q_entries (sh_state sh) = e # q_entries s" "h = consumed (en_bytes e) (sh_health sh)"
      by blast
    with spec inv show ?thesis by (simp add: shared_inv_def consumed_def)
  qed
  then show "shared_inv (snd (recv_step sh))" by (simp add: step)
  show "case fst (recv_step sh) of
           None \<Rightarrow> contents sh = [] \<and> contents (snd (recv_step sh)) = []
         | Some w \<Rightarrow> contents sh = w # contents (snd (recv_step sh))"
    using spec by (cases v) (auto simp: step contents_def)
qed

lemma shared_load: "shared_inv sh \<Longrightarrow> load sh \<le> NORMAL_BYTES + RESERVED_BYTES + MAX_SINGLE_BYTES"
  by (auto simp: load_def shared_inv_def dest: queue_load)

interpretation store_sink: bounded_fifo_sink shared_inv contents "sink_send size_of critical" recv_step
    load "NORMAL_BYTES + RESERVED_BYTES + MAX_SINGLE_BYTES" for size_of critical
  by unfold_locales (simp_all add: sink_send_spec recv_step_spec shared_load)

section \<open>Properties\<close>

text \<open>C6: the write-behind queue is first in, first out and loses nothing: over any sequence of sends
  and receives from an empty queue, the writes accepted are exactly the writes received, in order,
  followed by the writes still queued.\<close>

theorem store_sink_fifo:
  assumes "channel capacity new_health = Some sh"
    and "store_sink.run size_of critical evs sh = (accepted, received, sh')"
  shows "accepted = received @ contents sh'"
proof (rule store_sink.run_from_empty [OF _ _ assms(2)])
  show "shared_inv sh" "contents sh = []"
    using assms(1) by (auto simp: channel_def shared_inv_def queue_inv_def new_queue_def new_health_def
        contents_def split: if_splits)
qed

definition demo_sink :: "string list \<Rightarrow> u64 \<Rightarrow> string shared" where
  "demo_sink ws dropped =
     \<lparr>sh_state = \<lparr>q_entries = map (\<lambda>w. \<lparr>en_write = w, en_bytes = length w, en_charge = Normal\<rparr>) ws,
        q_normal_bytes = sum_list (map length ws), q_reserved_bytes = 0, q_oversized = False, q_closed = False\<rparr>,
      sh_health = \<lparr>h_pending = of_nat (length ws), h_pending_bytes = of_nat (sum_list (map length ws)),
        h_dropped = dropped, h_failed_batches = 0, h_degraded = (dropped \<noteq> 0),
        h_last_error = (if dropped = 0 then None else Some ''persistence queue count budget exhausted'')\<rparr>,
      sh_senders = 1, sh_capacity = 1\<rparr>"

lemma demo_sink_steps:
  "sink_send length (\<lambda>_. False) ''a'' (demo_sink [] 0) = (True, demo_sink [''a''] 0)"
  "sink_send length (\<lambda>_. False) ''b'' (demo_sink [''a''] 0) = (False, demo_sink [''a''] 1)"
  "recv_step (demo_sink [''a''] 1) = (Some ''a'', demo_sink [] 1)"
  "sink_send length (\<lambda>_. False) ''c'' (demo_sink [] 1) = (True, demo_sink [''c''] 1)"
  by (simp_all add: demo_sink_def sink_send_def charge_for_def usize_add_def queue_consts rejected_def
      queued_def consumed_def queue_push_def recv_step_def try_recv_def queue_pop_def ok_or_def Let_def)

theorem store_sink_fifo_witness:
  "channel 1 new_health = Some (demo_sink [] 0) \<and>
   store_sink.run length (\<lambda>_. False) [Send ''a'', Send ''b'', Recv, Send ''c''] (demo_sink [] 0)
     = ([''a'', ''c''], [''a''], demo_sink [''c''] 1) \<and>
   [''a'', ''c''] = [''a''] @ contents (demo_sink [''c''] 1)"
proof -
  have ch: "channel 1 new_health = Some (demo_sink [] 0)"
    by (simp add: channel_def demo_sink_def new_queue_def new_health_def)
  have run: "store_sink.run length (\<lambda>_. False) [Send ''a'', Send ''b'', Recv, Send ''c''] (demo_sink [] 0)
     = ([''a'', ''c''], [''a''], demo_sink [''c''] 1)"
    by (simp add: demo_sink_steps)
  from store_sink_fifo [OF ch run] ch run show ?thesis by blast
qed

text \<open>C28: whatever is sent and received, the queue stays within its budgets: at most the capacity and
  64 reserved slots, 8 MiB of normal and 256 KiB of reserved bytes and one oversized write, and the
  health counters show exactly the number and the bytes of the queued writes, without wrap-around.\<close>

theorem store_sink_budgets:
  assumes "channel capacity new_health = Some sh"
    and "store_sink.run size_of critical evs sh = (accepted, received, sh')"
  shows "queue_inv (sh_capacity sh') (sh_state sh')
    \<and> load sh' \<le> NORMAL_BYTES + RESERVED_BYTES + MAX_SINGLE_BYTES
    \<and> unat (h_pending (sh_health sh')) = length (contents sh')
    \<and> unat (h_pending_bytes (sh_health sh')) = load sh'"
proof -
  have "shared_inv sh"
    using assms(1) by (auto simp: channel_def shared_inv_def queue_inv_def new_queue_def new_health_def
        split: if_splits)
  with store_sink.run_fifo [OF _ assms(2)] have inv: "shared_inv sh'" by blast
  have load: "load sh' \<le> NORMAL_BYTES + RESERVED_BYTES + MAX_SINGLE_BYTES"
    by (rule store_sink.load_limit [OF inv])
  then have "load sh' < 2 ^ 64" by (simp add: queue_consts)
  moreover have "length (contents sh') < 2 ^ 64"
    using inv by (simp add: shared_inv_def queue_inv_def contents_def usize_add_def usize_max_def)
  ultimately show ?thesis
    using inv load by (simp add: shared_inv_def contents_def load_def unsigned_of_nat take_bit_nat_eq_self)
qed

theorem store_sink_budgets_witness:
  "queue_inv (sh_capacity (demo_sink [''c''] 1)) (sh_state (demo_sink [''c''] 1)) \<and>
   unat (h_pending (sh_health (demo_sink [''c''] 1))) = length (contents (demo_sink [''c''] 1))"
proof -
  have ch: "channel 1 new_health = Some (demo_sink [] 0)"
    by (simp add: channel_def demo_sink_def new_queue_def new_health_def)
  have run: "store_sink.run length (\<lambda>_. False) [Send ''a'', Send ''b'', Recv, Send ''c''] (demo_sink [] 0)
     = ([''a'', ''c''], [''a''], demo_sink [''c''] 1)"
    by (simp add: demo_sink_steps)
  from store_sink_budgets [OF ch run] show ?thesis by blast
qed

text \<open>A streamed update never takes a slot or a byte of the reserve, and a critical write of at most
  256 KiB is still admitted while no reserved byte and fewer slots than the capacity with its
  reserve are in use, however full the normal budget is.\<close>

theorem reserve_kept_for_critical:
  assumes "\<not> q_closed (sh_state sh)" and "sh_capacity sh + RESERVED_SLOTS \<le> usize_max"
  shows "(fst (sink_send size_of critical w sh) \<and> \<not> critical w \<longrightarrow>
            length (q_entries (sh_state sh)) < sh_capacity sh
          \<and> q_reserved_bytes (sh_state (snd (sink_send size_of critical w sh))) = q_reserved_bytes (sh_state sh))
    \<and> (critical w \<and> size_of w \<le> RESERVED_BYTES \<and> q_reserved_bytes (sh_state sh) = 0
         \<and> length (q_entries (sh_state sh)) < sh_capacity sh + RESERVED_SLOTS \<longrightarrow>
            fst (sink_send size_of critical w sh))"
proof (intro conjI impI)
  assume a: "fst (sink_send size_of critical w sh) \<and> \<not> critical w"
  then obtain c where c: "charge_for (sh_state sh) (size_of w) (critical w) (sh_capacity sh) = Inr c"
    by (cases "charge_for (sh_state sh) (size_of w) (critical w) (sh_capacity sh)")
      (auto simp: sink_send_def)
  show "length (q_entries (sh_state sh)) < sh_capacity sh"
    using c a assms by (auto simp: charge_for_def usize_add_def split: if_splits)
  have "c \<noteq> Reserved" using c a by (auto simp: charge_for_def split: if_splits)
  then show "q_reserved_bytes (sh_state (snd (sink_send size_of critical w sh))) = q_reserved_bytes (sh_state sh)"
    using c by (cases c) (simp_all add: sink_send_def queue_push_def Let_def)
next
  assume "critical w \<and> size_of w \<le> RESERVED_BYTES \<and> q_reserved_bytes (sh_state sh) = 0
         \<and> length (q_entries (sh_state sh)) < sh_capacity sh + RESERVED_SLOTS"
  with assms have "\<exists>c. charge_for (sh_state sh) (size_of w) (critical w) (sh_capacity sh) = Inr c"
    by (auto simp: charge_for_def usize_add_def queue_consts)
  then show "fst (sink_send size_of critical w sh)" by (auto simp: sink_send_def Let_def)
qed

theorem reserve_kept_for_critical_witness:
  "fst (sink_send length (\<lambda>w. w = ''x'') ''x'' (demo_sink [''a''] 0))"
  using reserve_kept_for_critical [of "demo_sink [''a''] 0" length "\<lambda>w. w = ''x''" "''x''"]
  by (simp add: demo_sink_def queue_consts)

lemma drain_all_spec:
  assumes "queue_inv capacity s" "length (q_entries s) \<le> n" "drain_all (Suc n) s h = (s', h')"
  shows "q_entries s' = [] \<and> queue_inv capacity s' \<and> q_closed s' = q_closed s
    \<and> h_pending h' = h_pending h - of_nat (length (q_entries s))
    \<and> h_pending_bytes h' = h_pending_bytes h - of_nat (sum_list (map en_bytes (q_entries s)))
    \<and> h_dropped h' = h_dropped h"
  using assms
proof (induction n arbitrary: s h)
  case 0
  then show ?case by (auto simp: queue_pop_def)
next
  case (Suc n)
  obtain v s1 h1 where pop: "queue_pop s h = (v, s1, h1)" by (metis prod.exhaust)
  note spec = queue_pop_inv [OF Suc.prems(1) pop]
  show ?case
  proof (cases v)
    case None
    with spec Suc.prems(1,3) pop show ?thesis by simp
  next
    case (Some w)
    with spec obtain e where e: "q_entries s = e # q_entries s1" "h1 = consumed (en_bytes e) h" by blast
    from Suc.prems(3) pop Some have rest: "drain_all (Suc n) s1 h1 = (s', h')" by simp
    have "length (q_entries s1) \<le> n" using Suc.prems(2) e(1) by simp
    from Suc.IH [OF _ this rest] spec e show ?thesis
      by (simp add: consumed_def algebra_simps)
  qed
qed

text \<open>Closing admission never cancels an accepted write: a closed queue refuses every further
  send, keeps handing out its writes in order, and reports the end only when it is empty; a
  receiver dropped before the drain instead counts every write still queued as dropped.\<close>

theorem close_drains:
  assumes "shared_inv sh"
  shows "contents (close_state sh) = contents sh
    \<and> (case try_recv (close_state sh) of
         (Inr w, sh') \<Rightarrow> contents sh = w # contents sh' \<and> q_closed (sh_state sh')
       | (Inl e, sh') \<Rightarrow> e = Disconnected \<and> contents sh = [])
    \<and> \<not> fst (sink_send size_of critical w (close_state sh))
    \<and> contents (receiver_drop sh) = [] \<and> h_pending (sh_health (receiver_drop sh)) = 0
    \<and> h_pending_bytes (sh_health (receiver_drop sh)) = 0
    \<and> h_dropped (sh_health (receiver_drop sh)) = h_dropped (sh_health sh) + of_nat (length (contents sh))"
proof (intro conjI)
  have cinv: "shared_inv (close_state sh)"
    using assms by (simp add: shared_inv_def close_state_def queue_inv_def)
  then have q: "queue_inv (sh_capacity (close_state sh)) (sh_state (close_state sh))"
    by (simp add: shared_inv_def)
  show "contents (close_state sh) = contents sh" by (simp add: contents_def close_state_def)
  show "\<not> fst (sink_send size_of critical w (close_state sh))"
    by (simp add: sink_send_def charge_for_def close_state_def Let_def)
  obtain v s h where pop: "queue_pop (sh_state (close_state sh)) (sh_health (close_state sh)) = (v, s, h)"
    by (metis prod.exhaust)
  have closed: "q_closed (sh_state (close_state sh))" by (simp add: close_state_def)
  have recv: "try_recv (close_state sh)
      = (ok_or v Disconnected, (close_state sh)\<lparr>sh_state := s, sh_health := h\<rparr>)"
    using pop closed by (simp add: try_recv_def)
  from queue_pop_inv [OF q pop] closed
  show "case try_recv (close_state sh) of
         (Inr w, sh') \<Rightarrow> contents sh = w # contents sh' \<and> q_closed (sh_state sh')
       | (Inl e, sh') \<Rightarrow> e = Disconnected \<and> contents sh = []"
    unfolding recv by (cases v) (auto simp: ok_or_def contents_def close_state_def)
  let ?n = "length (q_entries (sh_state (close_state sh)))"
  obtain s' h' where run: "drain_all (Suc ?n) (sh_state (close_state sh)) (sh_health (close_state sh)) = (s', h')"
    by (metis prod.exhaust)
  note spec = drain_all_spec [OF q order_refl run]
  have eq: "receiver_drop sh = (close_state sh)\<lparr>sh_state := s', sh_health :=
      if 0 < ?n then rejected ''persistence receiver dropped before drain'' ?n h' else h'\<rparr>"
    using run by (simp add: receiver_drop_def Let_def)
  show "contents (receiver_drop sh) = []" "h_pending (sh_health (receiver_drop sh)) = 0"
    "h_pending_bytes (sh_health (receiver_drop sh)) = 0"
    "h_dropped (sh_health (receiver_drop sh)) = h_dropped (sh_health sh) + of_nat (length (contents sh))"
    using spec cinv unfolding eq
    by (simp_all add: contents_def shared_inv_def rejected_def) (simp_all add: close_state_def)
qed

theorem close_drains_witness:
  "contents (receiver_drop (demo_sink [''a''] 0)) = []
   \<and> h_dropped (sh_health (receiver_drop (demo_sink [''a''] 0)))
     = h_dropped (sh_health (demo_sink [''a''] 0)) + of_nat (length (contents (demo_sink [''a''] 0)))"
proof -
  have "shared_inv (demo_sink [''a''] 0)"
    by (simp add: demo_sink_def shared_inv_def queue_inv_def bytes_of_def queue_consts usize_add_def)
  from close_drains [OF this, of length "\<lambda>_. False" "''b''"] show ?thesis by blast
qed

end
