(* ===== verification/Usage_Limiter.thy ===== *)
theory Usage_Limiter
  imports Prelude
begin

text \<open>
  \<^verbatim>\<open>src/src/usage/limiter.rs\<close>: the durable admission budget of quota collections. Every time is
  epoch milliseconds in a signed 64-bit integer. The maps keyed by provider or account are association
  lists; the journal on disk is explicit, and whether a save succeeds, fails before the rename or
  fails after it is an argument of every operation that saves.
\<close>

section \<open>State\<close>

definition QUICK_RETRIES :: nat where "QUICK_RETRIES = 2"
definition QUICK_RETRY_MS :: int where "QUICK_RETRY_MS = 60000"
definition RETAIN_MS :: int where "RETAIN_MS = 3600000"

text \<open>The four configuration keys, in milliseconds.\<close>

record limiter_config =
  c_window :: int
  c_count :: int
  c_interval :: int
  c_backoff_max :: int

text \<open>The bounds of the schema (\<^verbatim>\<open>src/src/config/schema.rs\<close>).\<close>

definition config_ok :: "limiter_config \<Rightarrow> bool" where
  "config_ok c \<longleftrightarrow>
     120000 \<le> c_window c \<and> c_window c \<le> 3600000 \<and> 1 \<le> c_count c \<and> c_count c \<le> 10
   \<and> 300000 \<le> c_interval c \<and> c_interval c \<le> 3600000
   \<and> 3600000 \<le> c_backoff_max c \<and> c_backoff_max c \<le> 86400000"

definition default_config :: limiter_config where
  "default_config = \<lparr>c_window = 120000, c_count = 2, c_interval = 300000, c_backoff_max = 3600000\<rparr>"

record account =
  last_attempt_ms :: int
  next_allowed_ms :: int
  failures :: nat

definition no_account :: account where
  "no_account = \<lparr>last_attempt_ms = 0, next_allowed_ms = 0, failures = 0\<rparr>"

record durable =
  d_schema :: nat
  startup_after_ms :: int
  providers :: "(string \<times> int list) list"
  accounts :: "(string \<times> account) list"
  provider_backoff :: "(string \<times> account) list"

text \<open>The journal file: no path at all, or what reading and parsing it gives.\<close>

datatype journal = No_path | Missing | Unreadable | Corrupt | Parsed durable

record limiter =
  l_durable :: durable
  l_active :: "string set"
  l_failed_closed :: bool
  l_auth_failed :: "string set"
  l_disk :: journal

record budget =
  b_last_attempt_ms :: int
  b_next_allowed_ms :: int

definition retry_at_ms :: "budget \<Rightarrow> int \<Rightarrow> int" where
  "retry_at_ms b now =
     (if b_next_allowed_ms b = i64_max then i64_add now 60000 else b_next_allowed_ms b)"

datatype outcome = Success | Unused | Failure | Throttled | Authentication | LocalFailure

text \<open>
  What a save did: without a path, or with the rename and both syncs done, it succeeded; a failure
  leaves the old journal or, after the rename, the new one.
\<close>

datatype save_result = Saved | Failed_old | Failed_new

definition written :: "durable \<Rightarrow> journal \<Rightarrow> journal" where
  "written v j = (case j of No_path \<Rightarrow> No_path | _ \<Rightarrow> Parsed v)"

definition save :: "save_result \<Rightarrow> durable \<Rightarrow> limiter \<Rightarrow> bool \<times> limiter" where
  "save r v l =
     (case r of
        Saved \<Rightarrow> (True, l\<lparr>l_disk := written v (l_disk l)\<rparr>)
      | Failed_old \<Rightarrow> (False, l)
      | Failed_new \<Rightarrow> (False, l\<lparr>l_disk := written v (l_disk l)\<rparr>))"

section \<open>Opening the journal\<close>

definition empty_durable :: "int \<Rightarrow> durable" where
  "empty_durable startup =
     \<lparr>d_schema = 1, startup_after_ms = startup, providers = [], accounts = [], provider_backoff = []\<rparr>"

definition times_ok :: "int list \<Rightarrow> bool" where
  "times_ok ts \<longleftrightarrow> list_all (\<lambda>t. 0 \<le> t) ts \<and> sorted ts"

definition account_ok :: "account \<Rightarrow> bool" where
  "account_ok a \<longleftrightarrow> 0 \<le> last_attempt_ms a \<and> last_attempt_ms a \<le> next_allowed_ms a"

definition durable_ok :: "durable \<Rightarrow> bool" where
  "durable_ok d \<longleftrightarrow>
     d_schema d = 1 \<and> 0 \<le> startup_after_ms d
   \<and> list_all (\<lambda>p. times_ok (snd p)) (providers d)
   \<and> list_all (\<lambda>p. account_ok (snd p)) (accounts d)
   \<and> list_all (\<lambda>p. account_ok (snd p)) (provider_backoff d)"

definition open_limiter :: "journal \<Rightarrow> int \<Rightarrow> save_result \<Rightarrow> limiter" where
  "open_limiter j now r =
     (let failed = (case j of Unreadable \<Rightarrow> True | Corrupt \<Rightarrow> True | Parsed d \<Rightarrow> \<not> durable_ok d
                    | _ \<Rightarrow> False);
          d = (case j of
                 Parsed d \<Rightarrow> if durable_ok d then d else empty_durable now
               | Missing \<Rightarrow> empty_durable (now + 300000)
               | No_path \<Rightarrow> empty_durable 0
               | _ \<Rightarrow> empty_durable now);
          l = \<lparr>l_durable = d, l_active = {}, l_failed_closed = failed, l_auth_failed = {}, l_disk = j\<rparr>
      in if failed then l
         else (let (saved, l) = save r d l in if saved then l else l\<lparr>l_failed_closed := True\<rparr>))"

section \<open>Admission\<close>

definition spacing :: "limiter_config \<Rightarrow> int" where
  "spacing c = (c_window c + c_count c - 1) div c_count c"

definition slot_next :: "limiter_config \<Rightarrow> account \<Rightarrow> bool \<Rightarrow> int" where
  "slot_next c slot polling =
     (if polling \<and> 1 \<le> failures slot \<and> failures slot \<le> QUICK_RETRIES then next_allowed_ms slot
      else if polling then max (next_allowed_ms slot) (i64_add (last_attempt_ms slot) (c_interval c))
      else if 0 < failures slot then next_allowed_ms slot
      else 0)"

definition attempts_next :: "limiter_config \<Rightarrow> int list \<Rightarrow> int \<Rightarrow> int \<Rightarrow> int" where
  "attempts_next c attempts now next =
     (let next = (if attempts = [] then next else max next (i64_add (last attempts) (spacing c)));
          recent = filter (\<lambda>t. now < i64_add t (c_window c)) attempts;
          n = nat (c_count c)
      in if n \<le> length recent
         then max next (i64_add (recent ! (length recent - n)) (c_window c))
         else next)"

definition budget_of :: "limiter_config \<Rightarrow> limiter \<Rightarrow> string \<Rightarrow> string \<Rightarrow> int \<Rightarrow> bool \<Rightarrow> budget" where
  "budget_of c l provider acct now polling =
     (let d = l_durable l;
          slot = map_of (accounts d) acct;
          next = max (case slot of None \<Rightarrow> 0 | Some s \<Rightarrow> slot_next c s polling) (startup_after_ms d);
          next = (case map_of (provider_backoff d) provider of
                    None \<Rightarrow> next | Some b \<Rightarrow> max next (next_allowed_ms b));
          next = (case map_of (providers d) provider of
                    None \<Rightarrow> next | Some attempts \<Rightarrow> attempts_next c attempts now next);
          next = (if l_failed_closed l then i64_max
                  else if provider \<in> l_active l then max next (i64_add now 1000)
                  else next)
      in \<lparr>b_last_attempt_ms = (case slot of None \<Rightarrow> 0 | Some s \<Rightarrow> last_attempt_ms s),
          b_next_allowed_ms = next\<rparr>)"

definition view :: "limiter_config \<Rightarrow> limiter \<Rightarrow> string \<Rightarrow> string \<Rightarrow> int \<Rightarrow> budget" where
  "view c l provider acct now = budget_of c l provider acct now True"

definition or_default :: "account option \<Rightarrow> account" where
  "or_default a = (case a of None \<Rightarrow> no_account | Some s \<Rightarrow> s)"

definition charge_start :: "limiter_config \<Rightarrow> durable \<Rightarrow> string \<Rightarrow> string \<Rightarrow> int \<Rightarrow> durable" where
  "charge_start c d provider acct now =
     (let starts = filter (\<lambda>t. now < i64_add t RETAIN_MS)
            (case map_of (providers d) provider of None \<Rightarrow> [] | Some ts \<Rightarrow> ts) @ [now];
          slot = or_default (map_of (accounts d) acct);
          slot = slot\<lparr>last_attempt_ms := now,
            next_allowed_ms := max (next_allowed_ms slot) (i64_add now (c_interval c))\<rparr>
      in d\<lparr>providers := AList.update provider starts (providers d),
           accounts := AList.update acct slot (accounts d)\<rparr>)"

text \<open>\<open>Inr ()\<close> is the permit for the provider and account named.\<close>

definition start_with ::
    "limiter_config \<Rightarrow> limiter \<Rightarrow> string \<Rightarrow> string \<Rightarrow> int \<Rightarrow> bool \<Rightarrow> save_result
     \<Rightarrow> (budget + unit) \<times> limiter" where
  "start_with c l provider acct now polling r =
     (let b = budget_of c l provider acct now polling in
      if now < b_next_allowed_ms b then (Inl b, l)
      else
        (let next = charge_start c (l_durable l) provider acct now;
             (saved, l') = save r next l
         in if \<not> saved
            then (Inl (b\<lparr>b_next_allowed_ms := i64_max\<rparr>), l'\<lparr>l_failed_closed := True\<rparr>)
            else (Inr (), l'\<lparr>l_durable := next, l_active := insert provider (l_active l)\<rparr>)))"

definition start where "start c l provider acct now r = start_with c l provider acct now True r"
definition start_action where "start_action c l provider acct now r = start_with c l provider acct now False r"

section \<open>Outcomes\<close>

definition is_failure :: "outcome \<Rightarrow> bool" where
  "is_failure oc \<longleftrightarrow> oc \<in> {Failure, Throttled, Authentication, LocalFailure}"

definition bump :: "outcome \<Rightarrow> nat \<Rightarrow> nat" where
  "bump oc n =
     (let n = min u32_max (n + 1) in if oc = Throttled then max n (QUICK_RETRIES + 1) else n)"

text \<open>The exponent of a backoff, at most ten doublings.\<close>

definition backoff_factor :: "nat \<Rightarrow> int" where
  "backoff_factor n = 2 ^ (min (n - QUICK_RETRIES) 10)"

definition max_backoff :: "limiter_config \<Rightarrow> int" where
  "max_backoff c = max (c_backoff_max c) (c_interval c)"

definition finish_slot :: "limiter_config \<Rightarrow> outcome \<Rightarrow> int \<Rightarrow> account \<Rightarrow> account" where
  "finish_slot c oc now slot =
     (if oc = Success then slot\<lparr>failures := 0\<rparr>
      else if oc = Unused then slot
      else
        (let slot = slot\<lparr>failures := bump oc (failures slot)\<rparr> in
         if oc \<noteq> Authentication \<and> failures slot \<le> QUICK_RETRIES
         then slot\<lparr>next_allowed_ms :=
                max (i64_add now (i64_mul QUICK_RETRY_MS (int (failures slot)))) (last_attempt_ms slot)\<rparr>
         else
           (let backoff = (if oc = Authentication then max_backoff c
                           else min (i64_mul (c_interval c) (backoff_factor (failures slot))) (max_backoff c))
            in slot\<lparr>next_allowed_ms := max (next_allowed_ms slot) (i64_add now backoff)\<rparr>)))"

definition finish_backoff :: "limiter_config \<Rightarrow> outcome \<Rightarrow> int \<Rightarrow> account \<Rightarrow> account" where
  "finish_backoff c oc now b =
     (if oc = Success then b\<lparr>failures := 0\<rparr>
      else if oc = Failure \<or> oc = Throttled then
        (let b = b\<lparr>failures := bump oc (failures b)\<rparr> in
         if QUICK_RETRIES < failures b
         then b\<lparr>next_allowed_ms :=
                i64_add now (min (i64_mul (c_window c) (backoff_factor (failures b))) (max_backoff c))\<rparr>
         else b)
      else b)"

definition finish ::
    "limiter_config \<Rightarrow> limiter \<Rightarrow> string \<Rightarrow> string \<Rightarrow> outcome \<Rightarrow> int \<Rightarrow> save_result \<Rightarrow> limiter" where
  "finish c l provider acct oc now r =
     (let auth = (if oc = Authentication then insert acct (l_auth_failed l)
                  else if oc \<noteq> Unused then l_auth_failed l - {acct} else l_auth_failed l);
          d = l_durable l;
          d = d\<lparr>accounts := AList.update acct (finish_slot c oc now (or_default (map_of (accounts d) acct))) (accounts d),
                provider_backoff := AList.update provider
                  (finish_backoff c oc now (or_default (map_of (provider_backoff d) provider))) (provider_backoff d)\<rparr>;
          (saved, l) = save r d (l\<lparr>l_auth_failed := auth, l_durable := d\<rparr>);
          l = (if saved then l else l\<lparr>l_failed_closed := True\<rparr>)
      in l\<lparr>l_active := l_active l - {provider}\<rparr>)"

text \<open>A permit dropped without an outcome is charged as a failure at the clock of the drop.\<close>

definition permit_drop ::
    "limiter_config \<Rightarrow> limiter \<Rightarrow> string \<Rightarrow> string \<Rightarrow> bool \<Rightarrow> int \<Rightarrow> save_result \<Rightarrow> limiter" where
  "permit_drop c l provider acct finished now r =
     (if finished then l else finish c l provider acct Failure now r)"

definition account_failures :: "limiter \<Rightarrow> string \<Rightarrow> nat" where
  "account_failures l acct = (case map_of (accounts (l_durable l)) acct of None \<Rightarrow> 0 | Some s \<Rightarrow> failures s)"

definition credentials_changed ::
    "limiter_config \<Rightarrow> limiter \<Rightarrow> string \<Rightarrow> save_result \<Rightarrow> bool \<times> limiter" where
  "credentials_changed c l acct r =
     (if l_failed_closed l \<or> acct \<notin> l_auth_failed l then (False, l)
      else
        (let l = l\<lparr>l_auth_failed := l_auth_failed l - {acct}\<rparr>; d = l_durable l in
         case map_of (accounts d) acct of
           None \<Rightarrow> (False, l)
         | Some slot \<Rightarrow>
             (let next = d\<lparr>accounts := AList.update acct (slot\<lparr>failures := 0,
                    next_allowed_ms := i64_add (last_attempt_ms slot) (c_interval c)\<rparr>) (accounts d)\<rparr>;
                  (saved, l') = save r next l
              in if saved then (True, l'\<lparr>l_durable := next\<rparr>)
                 else (False, l'\<lparr>l_failed_closed := True\<rparr>))))"

end
