(* ===== verification/Usage_Pacing.thy ===== *)
theory Usage_Pacing
  imports Usage_Limiter
begin

text \<open>
  What the quota limiter guarantees over any history of starts, outcomes, credential changes,
  restarts from its journal and live configuration changes, whatever the clock does: the pacing of
  every provider, one collector at a time, and bounded backoff.
\<close>

section \<open>Histories\<close>

datatype limiter_event =
    Start string string int bool save_result
  | Finish string string outcome int save_result
  | Credentials string save_result
  | Restart int save_result
  | Reconfigure limiter_config

type_synonym start_log = "(string \<times> int \<times> limiter_config) list"

text \<open>A finish needs the permit of a start of this process; a start that succeeds is logged.\<close>

fun limiter_step ::
    "limiter_event \<Rightarrow> limiter_config \<times> limiter \<times> start_log \<Rightarrow> limiter_config \<times> limiter \<times> start_log" where
  "limiter_step (Start p a now polling r) (c, l, log) =
     (case start_with c l p a now polling r of
        (res, l') \<Rightarrow> (c, l', if is_ok res then log @ [(p, now, c)] else log))"
| "limiter_step (Finish p a oc now r) (c, l, log) =
     (if p \<in> l_active l then (c, finish c l p a oc now r, log) else (c, l, log))"
| "limiter_step (Credentials a r) (c, l, log) = (c, snd (credentials_changed c l a r), log)"
| "limiter_step (Restart now r) (c, l, log) = (c, open_limiter (l_disk l) now r, log)"
| "limiter_step (Reconfigure c') (c, l, log) = (c', l, log)"

definition event_ok :: "limiter_event \<Rightarrow> bool" where
  "event_ok ev =
     (case ev of
        Start _ _ now _ _ \<Rightarrow> 0 \<le> now \<and> now < i64_max
      | Reconfigure c \<Rightarrow> config_ok c
      | _ \<Rightarrow> True)"

definition starts_of :: "string \<Rightarrow> start_log \<Rightarrow> int list" where
  "starts_of p log = map (\<lambda>e. fst (snd e)) (filter (\<lambda>e. fst e = p) log)"

definition paced :: "start_log \<Rightarrow> bool" where
  "paced log \<longleftrightarrow> (\<forall>pre p now c post. log = pre @ (p, now, c) # post \<longrightarrow>
     (\<forall>t \<in> set (starts_of p pre). t + spacing c \<le> now)
   \<and> length (filter (\<lambda>t. now < t + c_window c) (starts_of p pre)) < nat (c_count c))"

section \<open>The journal covers the history\<close>

definition covers :: "int list \<Rightarrow> int list \<Rightarrow> bool" where
  "covers hist ts \<longleftrightarrow> times_ok ts \<and>
     (\<forall>t \<in> set hist. ts \<noteq> [] \<and> t \<le> last ts \<and> (t \<in> set ts \<or> t + RETAIN_MS \<le> last ts))"

definition attempts_of :: "durable \<Rightarrow> string \<Rightarrow> int list" where
  "attempts_of d p = (case map_of (providers d) p of None \<Rightarrow> [] | Some ts \<Rightarrow> ts)"

definition journal_covers :: "start_log \<Rightarrow> durable \<Rightarrow> bool" where
  "journal_covers log d \<longleftrightarrow> (\<forall>p. covers (starts_of p log) (attempts_of d p))"

definition limiter_inv :: "limiter_config \<times> limiter \<times> start_log \<Rightarrow> bool" where
  "limiter_inv s = (case s of (c, l, log) \<Rightarrow>
     config_ok c \<and> paced log \<and> (\<forall>p. sorted_wrt (<) (starts_of p log))
   \<and> (journal_covers log (l_durable l) \<and> (\<exists>d. l_disk l = Parsed d \<and> journal_covers log d)
      \<or> l_failed_closed l \<and> l_active l = {} \<and> l_disk l \<noteq> No_path
        \<and> (l_disk l = Missing \<longrightarrow> log = [])
        \<and> (\<forall>d. l_disk l = Parsed d \<and> durable_ok d \<longrightarrow> journal_covers log d)))"

lemma starts_of_Nil [simp]: "starts_of p [] = []"
  by (simp add: starts_of_def)

lemma starts_of_snoc [simp]:
  "starts_of p (log @ [(q, now, c)]) = (if p = q then starts_of p log @ [now] else starts_of p log)"
  by (simp add: starts_of_def)

lemma paced_Nil [simp]: "paced []"
  by (simp add: paced_def)

lemma paced_snoc:
  assumes "paced log" "\<forall>t \<in> set (starts_of p log). t + spacing c \<le> now"
    and "length (filter (\<lambda>t. now < t + c_window c) (starts_of p log)) < nat (c_count c)"
  shows "paced (log @ [(p, now, c)])"
  unfolding paced_def
proof (intro allI impI)
  fix pre q now' c' post assume split: "log @ [(p, now, c)] = pre @ (q, now', c') # post"
  show "(\<forall>t \<in> set (starts_of q pre). t + spacing c' \<le> now')
      \<and> length (filter (\<lambda>t. now' < t + c_window c') (starts_of q pre)) < nat (c_count c')"
  proof (cases post rule: rev_cases)
    case Nil
    with split assms show ?thesis by simp
  next
    case (snoc post' e)
    with split have "log = pre @ (q, now', c') # post'" by simp
    with assms(1) show ?thesis unfolding paced_def by blast
  qed
qed

lemma spacing_pos: "config_ok c \<Longrightarrow> 1 \<le> spacing c"
proof -
  assume c: "config_ok c"
  then have "c_count c \<le> c_window c + c_count c - 1" "0 < c_count c" by (auto simp: config_ok_def)
  then have "c_count c div c_count c \<le> (c_window c + c_count c - 1) div c_count c"
    by (intro zdiv_mono1) auto
  with \<open>0 < c_count c\<close> show ?thesis by (simp add: spacing_def)
qed

lemma i64_add_below: "i64_add a b \<le> now \<Longrightarrow> now < i64_max \<Longrightarrow> a + b \<le> now"
  by (auto simp: i64_add_def min_def max_def split: if_splits)

lemma i64_add_above: "now < i64_add a b \<Longrightarrow> 0 \<le> now \<Longrightarrow> now < a + b"
  by (auto simp: i64_add_def i64_min_def min_def max_def split: if_splits)

lemma i64_add_above_iff:
  "0 \<le> now \<Longrightarrow> now < i64_max \<Longrightarrow> now < i64_add a b \<longleftrightarrow> now < a + b"
  using i64_add_above [of now a b] i64_add_below [of a b now] by force

section \<open>A start\<close>

lemma attempts_next_ge: "next \<le> attempts_next c ts now next"
  by (auto simp: attempts_next_def Let_def)

lemma attempts_next_le:
  assumes le: "attempts_next c ts now next \<le> now" and now: "0 \<le> now" "now < i64_max" and c: "1 \<le> c_count c"
  shows "(ts \<noteq> [] \<longrightarrow> last ts + spacing c \<le> now)
    \<and> length (filter (\<lambda>t. now < t + c_window c) ts) < nat (c_count c)"
proof
  let ?rec = "filter (\<lambda>t. now < i64_add t (c_window c)) ts"
  have "ts \<noteq> [] \<Longrightarrow> i64_add (last ts) (spacing c) \<le> now"
    using le by (auto simp: attempts_next_def Let_def split: if_splits)
  then show "ts \<noteq> [] \<longrightarrow> last ts + spacing c \<le> now" using now(2) by (blast intro: i64_add_below)
  have "length ?rec < nat (c_count c)"
  proof (rule ccontr)
    assume full: "\<not> length ?rec < nat (c_count c)"
    then have i: "length ?rec - nat (c_count c) < length ?rec" using c by auto
    have "i64_add (?rec ! (length ?rec - nat (c_count c))) (c_window c) \<le> now"
      using le full by (auto simp: attempts_next_def Let_def split: if_splits)
    moreover have "?rec ! (length ?rec - nat (c_count c)) \<in> set ?rec" using i by (rule nth_mem)
    ultimately show False by auto
  qed
  then show "length (filter (\<lambda>t. now < t + c_window c) ts) < nat (c_count c)"
    using now by (simp add: i64_add_above_iff)
qed

lemma budget_allows:
  assumes "b_next_allowed_ms (budget_of c l p a now polling) \<le> now" "0 \<le> now" "now < i64_max" "1 \<le> c_count c"
  shows "\<not> l_failed_closed l" "p \<notin> l_active l"
    and "attempts_of (l_durable l) p \<noteq> [] \<Longrightarrow> last (attempts_of (l_durable l) p) + spacing c \<le> now"
    and "length (filter (\<lambda>t. now < t + c_window c) (attempts_of (l_durable l) p)) < nat (c_count c)"
proof -
  show nf: "\<not> l_failed_closed l"
    using assms(1,3) by (auto simp: budget_of_def Let_def)
  have "now < i64_add now 1000"
    using assms(2,3) by (simp add: i64_add_def i64_max_def i64_min_def)
  then show na: "p \<notin> l_active l"
    using assms(1) nf by (auto simp: budget_of_def Let_def)
  have "(attempts_of (l_durable l) p \<noteq> [] \<longrightarrow> last (attempts_of (l_durable l) p) + spacing c \<le> now)
    \<and> length (filter (\<lambda>t. now < t + c_window c) (attempts_of (l_durable l) p)) < nat (c_count c)"
  proof (cases "map_of (providers (l_durable l)) p")
    case None
    with assms(4) show ?thesis by (simp add: attempts_of_def)
  next
    case (Some ts)
    then obtain nx where "attempts_next c ts now nx \<le> now"
      using assms(1) nf na by (auto simp: budget_of_def Let_def)
    from attempts_next_le [OF this assms(2-4)] Some show ?thesis by (simp add: attempts_of_def)
  qed
  then show "attempts_of (l_durable l) p \<noteq> [] \<Longrightarrow> last (attempts_of (l_durable l) p) + spacing c \<le> now"
    "length (filter (\<lambda>t. now < t + c_window c) (attempts_of (l_durable l) p)) < nat (c_count c)" by blast+
qed

lemma attempts_charge_start:
  "attempts_of (charge_start c d p a now) q =
     (if q = p then filter (\<lambda>t. now < i64_add t RETAIN_MS) (attempts_of d p) @ [now] else attempts_of d q)"
  by (simp add: attempts_of_def charge_start_def Let_def update_conv')

lemma covers_charge:
  assumes cov: "covers hist ts" and now: "0 \<le> now" "now < i64_max" and le: "\<forall>t \<in> set ts. t \<le> now"
  shows "covers (hist @ [now]) (filter (\<lambda>t. now < i64_add t RETAIN_MS) ts @ [now])"
    and "covers hist (filter (\<lambda>t. now < i64_add t RETAIN_MS) ts @ [now])"
proof -
  let ?ts = "filter (\<lambda>t. now < i64_add t RETAIN_MS) ts @ [now]"
  have ok: "times_ok ?ts"
    using cov now le by (auto simp: covers_def times_ok_def sorted_append sorted_filter [of "\<lambda>x. x"] list_all_iff
        sorted_wrt_filter)
  have "t \<le> now \<and> (t \<in> set ?ts \<or> t + RETAIN_MS \<le> now)" if "t \<in> set hist" for t
  proof (cases "t \<in> set ts")
    case True
    then show ?thesis using le now i64_add_above_iff [OF now, of t RETAIN_MS] by auto
  next
    case False
    with cov that have "ts \<noteq> []" "t \<le> last ts" "t + RETAIN_MS \<le> last ts" by (auto simp: covers_def)
    moreover from \<open>ts \<noteq> []\<close> have "last ts \<le> now" using le by simp
    ultimately show ?thesis by simp
  qed
  with ok show "covers (hist @ [now]) ?ts" "covers hist ?ts" by (auto simp: covers_def)
qed

lemma sorted_last_max: "times_ok ts \<Longrightarrow> t \<in> set ts \<Longrightarrow> t \<le> last ts"
  by (induction ts) (auto simp: times_ok_def)

text \<open>Every recent start of the history is a recent attempt of the journal.\<close>

lemma recent_history:
  assumes cov: "covers hist ts" and dist: "sorted_wrt (<) hist" and c: "config_ok c"
    and last: "ts \<noteq> [] \<Longrightarrow> last ts + spacing c \<le> now"
    and few: "length (filter (\<lambda>t. now < t + c_window c) ts) < nat (c_count c)"
  shows "\<forall>t \<in> set hist. t + spacing c \<le> now"
    and "length (filter (\<lambda>t. now < t + c_window c) hist) < nat (c_count c)"
proof -
  show "\<forall>t \<in> set hist. t + spacing c \<le> now"
    using cov last by (fastforce simp: covers_def)
  have sub: "set (filter (\<lambda>t. now < t + c_window c) hist) \<subseteq> set (filter (\<lambda>t. now < t + c_window c) ts)"
  proof
    fix t assume "t \<in> set (filter (\<lambda>t. now < t + c_window c) hist)"
    then have t: "t \<in> set hist" "now < t + c_window c" by auto
    have "t \<in> set ts"
    proof (rule ccontr)
      assume "t \<notin> set ts"
      with cov t(1) have "ts \<noteq> []" "t + RETAIN_MS \<le> last ts" by (auto simp: covers_def)
      with last t(2) spacing_pos [OF c] c show False by (auto simp: config_ok_def RETAIN_MS_def)
    qed
    with t show "t \<in> set (filter (\<lambda>t. now < t + c_window c) ts)" by simp
  qed
  have "distinct hist" using dist by (simp add: strict_sorted_iff)
  then have "length (filter (\<lambda>t. now < t + c_window c) hist)
      = card (set (filter (\<lambda>t. now < t + c_window c) hist))"
    by (simp add: distinct_card [symmetric])
  also have "\<dots> \<le> card (set (filter (\<lambda>t. now < t + c_window c) ts))"
    using sub by (rule card_mono [rotated]) simp
  also have "\<dots> \<le> length (filter (\<lambda>t. now < t + c_window c) ts)" by (rule card_length)
  finally show "length (filter (\<lambda>t. now < t + c_window c) hist) < nat (c_count c)" using few by simp
qed

section \<open>Every step keeps the invariant\<close>

lemma start_with_cases:
  assumes "start_with c l p a now polling r = (res, l')"
  obtains b where "res = Inl b" "l' = l"
  | "b_next_allowed_ms (budget_of c l p a now polling) \<le> now" "res = Inr ()"
      "l' = l\<lparr>l_disk := written (charge_start c (l_durable l) p a now) (l_disk l),
         l_durable := charge_start c (l_durable l) p a now, l_active := insert p (l_active l)\<rparr>"
  | b where "b_next_allowed_ms (budget_of c l p a now polling) \<le> now" "res = Inl b"
      "l' = l\<lparr>l_failed_closed := True\<rparr>"
  | b where "b_next_allowed_ms (budget_of c l p a now polling) \<le> now" "res = Inl b"
      "l' = l\<lparr>l_disk := written (charge_start c (l_durable l) p a now) (l_disk l), l_failed_closed := True\<rparr>"
proof (cases "now < b_next_allowed_ms (budget_of c l p a now polling)")
  case True
  with assms that(1) show thesis by (auto simp: start_with_def Let_def)
next
  case False
  then have le: "b_next_allowed_ms (budget_of c l p a now polling) \<le> now" by simp
  show thesis
  proof (cases r)
    case Saved
    with assms le that(2) show thesis by (simp add: start_with_def save_def Let_def)
  next
    case Failed_old
    with assms le that(3) show thesis by (auto simp: start_with_def save_def Let_def)
  next
    case Failed_new
    with assms le that(4) show thesis by (auto simp: start_with_def save_def Let_def)
  qed
qed

lemma journal_covers_Nil: "journal_covers log d \<Longrightarrow> journal_covers [] d"
  by (auto simp: journal_covers_def covers_def)

lemma journal_covers_charge:
  assumes cov: "journal_covers log d" and now: "0 \<le> now" "now < i64_max"
    and last: "attempts_of d p \<noteq> [] \<Longrightarrow> last (attempts_of d p) \<le> now"
  shows "journal_covers (log @ [(p, now, c')]) (charge_start c d p a now)"
    and "journal_covers log (charge_start c d p a now)"
proof -
  have p: "covers (starts_of p log) (attempts_of d p)" using cov by (simp add: journal_covers_def)
  have "\<forall>t \<in> set (attempts_of d p). t \<le> now"
  proof
    fix t assume t: "t \<in> set (attempts_of d p)"
    then have "t \<le> last (attempts_of d p)" using p by (auto simp: covers_def intro: sorted_last_max)
    moreover have "last (attempts_of d p) \<le> now" using last t by (cases "attempts_of d p") auto
    ultimately show "t \<le> now" by simp
  qed
  from covers_charge [OF p now this] cov
  show "journal_covers (log @ [(p, now, c')]) (charge_start c d p a now)"
    "journal_covers log (charge_start c d p a now)"
    by (simp_all add: journal_covers_def attempts_charge_start)
qed

lemma start_inv:
  assumes inv: "limiter_inv (c, l, log)" and now: "0 \<le> now" "now < i64_max"
  shows "limiter_inv (limiter_step (Start p a now polling r) (c, l, log))"
proof -
  obtain res l' where run: "start_with c l p a now polling r = (res, l')" by fastforce
  have c: "config_ok c" "1 \<le> c_count c" using inv by (auto simp: limiter_inv_def config_ok_def)
  have admitted: "journal_covers log (l_durable l) \<and> (\<exists>d. l_disk l = Parsed d)
      \<and> journal_covers (log @ [(p, now, c)]) (charge_start c (l_durable l) p a now)
      \<and> journal_covers log (charge_start c (l_durable l) p a now)
      \<and> paced (log @ [(p, now, c)]) \<and> (\<forall>q. sorted_wrt (<) (starts_of q (log @ [(p, now, c)])))"
    if le: "b_next_allowed_ms (budget_of c l p a now polling) \<le> now"
  proof -
    note ba = budget_allows [OF le now c(2)]
    from ba(1) inv have cov: "journal_covers log (l_durable l)" "\<exists>d. l_disk l = Parsed d"
      by (auto simp: limiter_inv_def)
    have last: "last (attempts_of (l_durable l) p) \<le> now" if "attempts_of (l_durable l) p \<noteq> []"
      using ba(3) [OF that] spacing_pos [OF c(1)] by simp
    have covp: "covers (starts_of p log) (attempts_of (l_durable l) p)"
      using cov(1) by (simp add: journal_covers_def)
    have dist: "sorted_wrt (<) (starts_of q log)" for q using inv by (simp add: limiter_inv_def)
    note rh = recent_history [OF covp dist c(1) ba(3,4)]
    have "paced (log @ [(p, now, c)])"
      by (rule paced_snoc) (use inv rh in \<open>auto simp: limiter_inv_def\<close>)
    moreover have "\<forall>t \<in> set (starts_of p log). t < now" using rh(1) spacing_pos [OF c(1)] by force
    then have "sorted_wrt (<) (starts_of q (log @ [(p, now, c)]))" for q
      using dist [of q] by (auto simp: sorted_wrt_append)
    ultimately show ?thesis using cov journal_covers_charge [OF cov(1) now last] by blast
  qed
  from run show ?thesis
  proof (cases rule: start_with_cases)
    case 1
    with inv run show ?thesis by simp
  next
    case 2
    from admitted [OF 2(1)] inv 2(2,3) run show ?thesis
      by (auto simp: limiter_inv_def written_def)
  next
    case 3
    with inv run show ?thesis by (auto simp: limiter_inv_def)
  next
    case 4
    from admitted [OF 4(1)] inv 4(2,3) run show ?thesis
      by (auto simp: limiter_inv_def written_def)
  qed
qed

lemma journal_covers_cong: "providers d = providers d' \<Longrightarrow> journal_covers log d = journal_covers log d'"
  by (simp add: journal_covers_def attempts_of_def)

lemma finish_state:
  "\<exists>d. providers d = providers (l_durable l) \<and> l_durable (finish c l p a oc now r) = d
     \<and> l_active (finish c l p a oc now r) = l_active l - {p}
     \<and> (l_disk (finish c l p a oc now r) = l_disk l \<and> r = Failed_old
        \<or> l_disk (finish c l p a oc now r) = written d (l_disk l) \<and> r \<noteq> Failed_old)
     \<and> (l_failed_closed (finish c l p a oc now r) \<longleftrightarrow> l_failed_closed l \<or> r \<noteq> Saved)"
  by (cases r) (simp_all add: finish_def save_def Let_def)

lemma finish_inv:
  assumes inv: "limiter_inv (c, l, log)"
  shows "limiter_inv (limiter_step (Finish p a oc now r) (c, l, log))"
proof (cases "p \<in> l_active l")
  case False
  with inv show ?thesis by simp
next
  case True
  with inv obtain dk where cov: "journal_covers log (l_durable l)" "l_disk l = Parsed dk" "journal_covers log dk"
    by (auto simp: limiter_inv_def)
  obtain d where d: "providers d = providers (l_durable l)" "l_durable (finish c l p a oc now r) = d"
    "l_disk (finish c l p a oc now r) = l_disk l \<or> l_disk (finish c l p a oc now r) = written d (l_disk l)"
    using finish_state by metis
  have "journal_covers log d" using journal_covers_cong [OF d(1)] cov(1) by simp
  moreover from this d(3) cov have "\<exists>d. l_disk (finish c l p a oc now r) = Parsed d \<and> journal_covers log d"
    by (auto simp: written_def)
  ultimately show ?thesis using inv True d(2) by (simp add: limiter_inv_def)
qed

lemma credentials_state:
  "\<exists>d. providers d = providers (l_durable l)
     \<and> l_durable (snd (credentials_changed c l a r)) = d
     \<and> l_active (snd (credentials_changed c l a r)) = l_active l
     \<and> (l_disk (snd (credentials_changed c l a r)) = l_disk l
        \<or> (\<exists>d'. providers d' = providers (l_durable l)
             \<and> l_disk (snd (credentials_changed c l a r)) = written d' (l_disk l)))
     \<and> (l_failed_closed l \<longrightarrow> credentials_changed c l a r = (False, l))"
proof (cases "map_of (accounts (l_durable l)) a")
  case None
  then show ?thesis by (simp add: credentials_changed_def Let_def)
next
  case (Some slot)
  define d' where "d' = (l_durable l)\<lparr>accounts := AList.update a (slot\<lparr>failures := 0,
      next_allowed_ms := i64_add (last_attempt_ms slot) (c_interval c)\<rparr>) (accounts (l_durable l))\<rparr>"
  have p: "providers d' = providers (l_durable l)" by (simp add: d'_def)
  show ?thesis
  proof (cases "l_failed_closed l \<or> a \<notin> l_auth_failed l")
    case True
    then show ?thesis by (simp add: credentials_changed_def)
  next
    case False
    have dur: "l_durable (l\<lparr>l_auth_failed := X\<rparr>) = l_durable l" for X by simp
    from False Some have run: "credentials_changed c l a r =
        (case save r d' (l\<lparr>l_auth_failed := l_auth_failed l - {a}\<rparr>) of (saved, l') \<Rightarrow>
           if saved then (True, l'\<lparr>l_durable := d'\<rparr>) else (False, l'\<lparr>l_failed_closed := True\<rparr>))"
      unfolding credentials_changed_def d'_def Let_def dur by simp
    show ?thesis unfolding run using p False by (cases r) (auto simp: save_def)
  qed
qed

lemma credentials_inv:
  assumes inv: "limiter_inv (c, l, log)"
  shows "limiter_inv (limiter_step (Credentials a r) (c, l, log))"
proof (cases "l_failed_closed l")
  case True
  with credentials_state [of l c a r] inv show ?thesis by simp
next
  case False
  with inv obtain dk where cov: "journal_covers log (l_durable l)" "l_disk l = Parsed dk" "journal_covers log dk"
    by (auto simp: limiter_inv_def)
  let ?l = "snd (credentials_changed c l a r)"
  from credentials_state [of l c a r] obtain d d' where d: "providers d = providers (l_durable l)"
    "l_durable ?l = d" "l_disk ?l = l_disk l \<or> providers d' = providers (l_durable l) \<and> l_disk ?l = written d' (l_disk l)"
    by blast
  have "journal_covers log d" using journal_covers_cong [OF d(1)] cov(1) by simp
  moreover have "\<exists>d. l_disk ?l = Parsed d \<and> journal_covers log d"
    using d(3) cov journal_covers_cong [of d' "l_durable l" log] by (auto simp: written_def)
  ultimately show ?thesis using inv d(2) by (simp add: limiter_inv_def)
qed

lemma journal_covers_empty: "journal_covers [] (empty_durable s)"
  by (simp add: journal_covers_def covers_def attempts_of_def empty_durable_def times_ok_def)

lemma journal_covers_valid: "durable_ok d \<Longrightarrow> journal_covers [] d"
  by (auto simp: journal_covers_def covers_def attempts_of_def durable_ok_def list_all_iff times_ok_def
      split: option.splits dest!: map_of_SomeD)

lemma open_valid:
  "durable_ok d \<Longrightarrow> open_limiter (Parsed d) now r =
     (let (saved, l) = save r d \<lparr>l_durable = d, l_active = {}, l_failed_closed = False,
        l_auth_failed = {}, l_disk = Parsed d\<rparr> in if saved then l else l\<lparr>l_failed_closed := True\<rparr>)"
  by (simp add: open_limiter_def Let_def)

lemma open_refused:
  "j = Unreadable \<or> j = Corrupt \<or> (\<exists>d. j = Parsed d \<and> \<not> durable_ok d) \<Longrightarrow>
   l_failed_closed (open_limiter j now r) \<and> l_active (open_limiter j now r) = {}
   \<and> l_disk (open_limiter j now r) = j"
  by (auto simp: open_limiter_def Let_def)

lemma open_inv:
  assumes j: "j \<noteq> No_path" and c: "config_ok c" and log: "paced log" "\<forall>p. sorted_wrt (<) (starts_of p log)"
    and missing: "j = Missing \<longrightarrow> log = []"
    and cov: "\<And>d. j = Parsed d \<Longrightarrow> durable_ok d \<Longrightarrow> journal_covers log d"
  shows "limiter_inv (c, open_limiter j now r, log)"
proof (cases "j = Unreadable \<or> j = Corrupt \<or> (\<exists>d. j = Parsed d \<and> \<not> durable_ok d)")
  case True
  from open_refused [OF True] True j c log show ?thesis by (auto simp: limiter_inv_def)
next
  case False
  then consider d where "j = Parsed d" "durable_ok d" | "j = Missing" using j by (cases j) auto
  then show ?thesis
  proof cases
    case 1
    from cov [OF 1] c log 1 show ?thesis
      by (cases r) (auto simp: open_valid limiter_inv_def save_def written_def)
  next
    case 2
    have "limiter_inv (c, open_limiter Missing now r, [])"
      using c journal_covers_empty [of "now + 300000"]
      by (cases r) (auto simp: open_limiter_def limiter_inv_def save_def written_def Let_def)
    with 2 missing show ?thesis by simp
  qed
qed

lemma restart_inv:
  assumes inv: "limiter_inv (c, l, log)"
  shows "limiter_inv (limiter_step (Restart now r) (c, l, log))"
  using inv unfolding limiter_step.simps
  by (intro open_inv) (auto simp: limiter_inv_def)

lemma step_inv:
  assumes "limiter_inv s" "event_ok ev"
  shows "limiter_inv (limiter_step ev s)"
proof -
  obtain c l log where s: "s = (c, l, log)" by (cases s) auto
  show ?thesis
  proof (cases ev)
    case (Start p a now polling r)
    with assms show ?thesis unfolding s by (auto simp: event_ok_def intro!: start_inv simp del: limiter_step.simps)
  next
    case (Finish p a oc now r)
    with assms(1) show ?thesis unfolding s by (simp add: finish_inv del: limiter_step.simps)
  next
    case (Credentials a r)
    with assms(1) show ?thesis unfolding s by (simp add: credentials_inv del: limiter_step.simps)
  next
    case (Restart now r)
    with assms(1) show ?thesis unfolding s by (simp add: restart_inv del: limiter_step.simps)
  next
    case (Reconfigure c')
    with assms show ?thesis unfolding s by (simp add: limiter_inv_def event_ok_def)
  qed
qed

lemma run_inv: "limiter_inv s \<Longrightarrow> list_all event_ok evs \<Longrightarrow> limiter_inv (fold limiter_step evs s)"
  by (induction evs arbitrary: s) (simp_all add: step_inv)

section \<open>Properties\<close>

text \<open>C29: over any history of starts, outcomes, credential changes, restarts from the journal, failed
  saves and live configuration changes, and whatever the clock does, every collection of a provider
  starts at least the configured spacing after all its earlier ones, and no rolling window of a
  provider ever holds more starts than configured, counting those before a restart.\<close>

theorem provider_starts_paced:
  assumes "config_ok c" and "j \<noteq> No_path" and "list_all event_ok evs"
    and "fold limiter_step evs (c, open_limiter j now r, []) = (c', l', log)"
    and "log = pre @ (p, at_ms, conf) # post"
  shows "(\<forall>t \<in> set (starts_of p pre). t + spacing conf \<le> at_ms)
    \<and> length (filter (\<lambda>t. at_ms < t + c_window conf) (starts_of p pre)) + 1 \<le> nat (c_count conf)"
proof -
  have "limiter_inv (c, open_limiter j now r, [])"
    by (rule open_inv) (use assms(1,2) journal_covers_valid in auto)
  from run_inv [OF this assms(3)] have "paced log" by (simp add: assms(4) limiter_inv_def)
  with assms(5) show ?thesis unfolding paced_def by (metis Suc_eq_plus1 Suc_leI)
qed

definition demo_limiter_run :: "limiter_event list" where
  "demo_limiter_run =
     [Start ''anthropic'' ''lynx'' 301000 True Saved, Start ''anthropic'' ''otter'' 302000 True Saved,
      Finish ''anthropic'' ''lynx'' Success 303000 Saved, Restart 303500 Saved,
      Start ''anthropic'' ''otter'' 361000 True Saved]"

theorem provider_starts_paced_witness:
  "\<exists>c' l' log. fold limiter_step demo_limiter_run (default_config, open_limiter Missing 0 Saved, []) = (c', l', log)
     \<and> log = [(''anthropic'', 301000, default_config), (''anthropic'', 361000, default_config)]
     \<and> 301000 + spacing default_config \<le> (361000 :: int)"
proof -
  obtain c' l' log where
    run: "fold limiter_step demo_limiter_run (default_config, open_limiter Missing 0 Saved, []) = (c', l', log)"
    by (metis prod.exhaust)
  have "snd (snd (fold limiter_step demo_limiter_run (default_config, open_limiter Missing 0 Saved, [])))
      = [(''anthropic'', 301000, default_config), (''anthropic'', 361000, default_config)]"
    by code_simp
  then have log: "log = [(''anthropic'', 301000, default_config)] @ (''anthropic'', 361000, default_config) # []"
    by (simp add: run)
  have "config_ok default_config" "Missing \<noteq> No_path" "list_all event_ok demo_limiter_run" by code_simp+
  from provider_starts_paced [OF this run log] log run show ?thesis by (auto simp: starts_of_def)
qed



section \<open>Backoff\<close>

lemma backoff_le: "config_ok c \<Longrightarrow> 0 \<le> now \<Longrightarrow> i64_add now (min x (max_backoff c)) \<le> i64_add now (max_backoff c)"
  by (auto simp: i64_add_def)

text \<open>A failed collection never waits longer than the configured maximum: after any outcome the
  account's next start is at most the later of what it was and the maximum backoff from now, the
  first two failures retry within one and two minutes, a success clears the failure count, and the
  provider itself pauses only after the quick retries are used up.\<close>

theorem failure_backoff_bounded:
  assumes "config_ok c" and "0 \<le> now"
  shows "next_allowed_ms (finish_slot c oc now slot)
       \<le> max (max (next_allowed_ms slot) (last_attempt_ms slot)) (i64_add now (max_backoff c))
    \<and> (oc = Success \<longrightarrow> failures (finish_slot c oc now slot) = 0)
    \<and> (oc = Failure \<and> failures slot < QUICK_RETRIES \<longrightarrow>
         next_allowed_ms (finish_slot c oc now slot)
         = max (i64_add now (60000 * int (failures slot + 1))) (last_attempt_ms slot))
    \<and> (next_allowed_ms (finish_backoff c oc now b) \<noteq> next_allowed_ms b \<longrightarrow>
         QUICK_RETRIES < failures (finish_backoff c oc now b)
       \<and> next_allowed_ms (finish_backoff c oc now b) \<le> i64_add now (max_backoff c))"
proof (intro conjI impI)
  have long: "120000 \<le> max_backoff c" using assms(1) by (auto simp: max_backoff_def config_ok_def)
  have quick: "i64_add now (i64_mul QUICK_RETRY_MS (int n)) \<le> i64_add now (max_backoff c)" if "n \<le> QUICK_RETRIES" for n
    using that long by (auto simp: i64_add_def i64_mul_def QUICK_RETRY_MS_def QUICK_RETRIES_def i64_max_def i64_min_def)
  have step: "i64_add now (min x (max_backoff c)) \<le> i64_add now (max_backoff c)" for x
    by (rule backoff_le [OF assms])
  show "next_allowed_ms (finish_slot c oc now slot)
       \<le> max (max (next_allowed_ms slot) (last_attempt_ms slot)) (i64_add now (max_backoff c))"
    using quick [of "bump oc (failures slot)"] step [of "i64_mul (c_interval c) (backoff_factor (bump oc (failures slot)))"]
    by (auto simp: finish_slot_def Let_def max_def split: if_splits)
  show "oc = Success \<Longrightarrow> failures (finish_slot c oc now slot) = 0"
    by (simp add: finish_slot_def)
  show "next_allowed_ms (finish_slot c oc now slot)
         = max (i64_add now (60000 * int (failures slot + 1))) (last_attempt_ms slot)"
    if "oc = Failure \<and> failures slot < QUICK_RETRIES"
  proof -
    from that have "bump oc (failures slot) = failures slot + 1"
      by (simp add: bump_def u32_max_def QUICK_RETRIES_def)
    moreover have "i64_mul QUICK_RETRY_MS (int (failures slot + 1)) = 60000 * int (failures slot + 1)"
      using that by (auto simp: i64_mul_def QUICK_RETRY_MS_def QUICK_RETRIES_def i64_max_def i64_min_def)
    ultimately show ?thesis using that by (simp add: finish_slot_def Let_def)
  qed
  show "QUICK_RETRIES < failures (finish_backoff c oc now b)"
    "next_allowed_ms (finish_backoff c oc now b) \<le> i64_add now (max_backoff c)"
    if "next_allowed_ms (finish_backoff c oc now b) \<noteq> next_allowed_ms b"
    using that step by (auto simp: finish_backoff_def Let_def split: if_splits)
qed

theorem failure_backoff_bounded_witness:
  "next_allowed_ms (finish_slot default_config Failure 1000 no_account)
     = max (i64_add 1000 (60000 * int (failures no_account + 1))) (last_attempt_ms no_account)
   \<and> next_allowed_ms (finish_slot default_config Authentication 2000 no_account)
     \<le> max (max (next_allowed_ms no_account) (last_attempt_ms no_account)) (i64_add 2000 (max_backoff default_config))"
proof -
  have c: "config_ok default_config" "(0 :: int) \<le> 1000" "(0 :: int) \<le> 2000"
    by (simp_all add: config_ok_def default_config_def)
  have "failures no_account < QUICK_RETRIES" by (simp add: no_account_def QUICK_RETRIES_def)
  with failure_backoff_bounded [OF c(1,2), of Failure no_account no_account]
    failure_backoff_bounded [OF c(1,3), of Authentication no_account no_account]
  show ?thesis by simp
qed

end
