(* ===== verification/Managed_Request.thy ===== *)
theory Managed_Request
  imports Transcript
begin

text \<open>
  The input contract of managed calls: \<^verbatim>\<open>src/components/wire/src/managed_calls.rs\<close> and the
  request side of \<^verbatim>\<open>src/components/wire/src/managed_calls/review.rs\<close>. The serialized length of a JSON
  value, JSON decoding, JSON printing and SHA-256 belong to libraries and are parameters.
\<close>

section \<open>Identifiers, labels and paths\<close>

definition MAX_REQUEST_BYTES :: nat where "MAX_REQUEST_BYTES = 256 * 1024"
definition MAX_IMAGES :: nat where "MAX_IMAGES = 4"

definition valid_id :: "string \<Rightarrow> bool" where
  "valid_id value \<longleftrightarrow>
     value \<noteq> [] \<and> length value \<le> 128
   \<and> list_all (\<lambda>b. is_ascii_alnum b \<or> b \<in> set ''-_.'') value"

text \<open>Labels are a \<open>BTreeMap\<close>: an association list in key order.\<close>

type_synonym labels = "(string \<times> string) list"

definition valid_labels :: "labels \<Rightarrow> bool" where
  "valid_labels ls \<longleftrightarrow>
     length ls \<le> 8
   \<and> list_all (\<lambda>(key, value). valid_id key \<and> length key \<le> 32 \<and> length value \<le> 256
        \<and> \<not> list_ex is_control (utf8_chars value)) ls"

definition plain_part :: "string \<Rightarrow> bool" where
  "plain_part p \<longleftrightarrow> p \<noteq> [] \<and> p \<noteq> ''.'' \<and> p \<noteq> ''..''"

definition absolute_root :: "string \<Rightarrow> bool" where
  "absolute_root value \<longleftrightarrow>
     starts_with value ''/'' \<and> length value \<le> 4096
   \<and> \<not> list_ex is_control (utf8_chars value)
   \<and> (value = ''/'' \<or> list_all plain_part (split_at_char (CHR ''/'') [] (drop 1 value)))"

definition relative_file :: "string \<Rightarrow> bool" where
  "relative_file value \<longleftrightarrow>
     value \<noteq> [] \<and> length value \<le> 4096 \<and> \<not> starts_with value ''/''
   \<and> \<not> list_ex (\<lambda>c. c = CHR 0x5C \<or> c = CHR 0x00 \<or> c = CHR '':'') value
   \<and> \<not> list_ex is_control (utf8_chars value)
   \<and> list_all plain_part (split_at_char (CHR ''/'') [] value)"

section \<open>Requests\<close>

datatype purpose = Review | DesignReview | Analysis | ImageGenerate | ImageEdit
datatype access = ReadOnly
datatype context_scope = CurrentWorktree
datatype conversation = Fresh | Continue string
datatype output_format = TextOutput | JsonSchema json

datatype runtime_profile = ImageV1 | ReadOnlyV1

definition is_image :: "purpose \<Rightarrow> bool" where
  "is_image p \<longleftrightarrow> p = ImageGenerate \<or> p = ImageEdit"

definition profile :: "purpose \<Rightarrow> runtime_profile" where
  "profile p = (if is_image p then ImageV1 else ReadOnlyV1)"

record call_context =
  cx_scope :: context_scope
  cx_files :: "string list"
  cx_root :: "string option"

record request =
  rq_schema :: nat
  rq_request_id :: string
  rq_purpose :: purpose
  rq_instruction :: string
  rq_context :: call_context
  rq_access :: access
  rq_conversation :: conversation
  rq_output :: output_format
  rq_labels :: labels

datatype input_error =
    RequestTooLarge
  | InvalidJson
  | InvalidContract
  | UnsupportedSchema
  | InvalidRequestId
  | InvalidInstruction
  | InvalidContext
  | InvalidConversation
  | InvalidLabels
  | InvalidOutput

fun is_text :: "output_format \<Rightarrow> bool" where
  "is_text TextOutput = True"
| "is_text (JsonSchema _) = False"

fun jis_obj :: "json \<Rightarrow> bool" where
  "jis_obj (JObj _) = True"
| "jis_obj _ = False"

fun jis_str :: "json \<Rightarrow> bool" where
  "jis_str (JStr _) = True"
| "jis_str _ = False"

definition local_reference :: "json \<Rightarrow> bool" where
  "local_reference v = (case jstr v of None \<Rightarrow> True | Some r \<Rightarrow> starts_with r ''#'')"

fun bounded_schema :: "json \<Rightarrow> nat \<Rightarrow> bool" where
  "bounded_schema (JObj kvs) depth =
     (depth \<le> 32 \<and> list_all (\<lambda>p.
        \<not> (fst p = ''$id'' \<and> jis_str (snd p))
      \<and> (fst p \<in> {''$ref'', ''$dynamicRef'', ''$recursiveRef''} \<longrightarrow> local_reference (snd p))
      \<and> bounded_schema (snd p) (depth + 1)) kvs)"
| "bounded_schema (JArr vs) depth = (depth \<le> 32 \<and> list_all (\<lambda>v. bounded_schema v (depth + 1)) vs)"
| "bounded_schema _ depth = (depth \<le> 32)"

definition output_ok :: "(json \<Rightarrow> nat option) \<Rightarrow> output_format \<Rightarrow> bool" where
  "output_ok ser fmt =
     (case fmt of
        TextOutput \<Rightarrow> True
      | JsonSchema schema \<Rightarrow>
          jis_obj schema
        \<and> (case ser schema of None \<Rightarrow> False | Some n \<Rightarrow> n \<le> 64 * 1024)
        \<and> bounded_schema schema 0)"

section \<open>Canonical JSON\<close>

text \<open>
  \<open>sorted\<close> of \<open>canonical_digest\<close>: the members of every object in key order. The keys of a serde_json
  map are distinct, so sorting the members is sorting the keys and looking them up.
\<close>

fun sorted_json :: "json \<Rightarrow> json" where
  "sorted_json (JObj kvs) = JObj (sort_key fst (map (\<lambda>p. (fst p, sorted_json (snd p))) kvs))"
| "sorted_json (JArr vs) = JArr (map sorted_json vs)"
| "sorted_json JNull = JNull"
| "sorted_json (JBool b) = JBool b"
| "sorted_json (JInt i) = JInt i"
| "sorted_json (JFloat s) = JFloat s"
| "sorted_json (JStr s) = JStr s"

definition canonical_digest :: "(json \<Rightarrow> string) \<Rightarrow> (string \<Rightarrow> string) \<Rightarrow> json \<Rightarrow> string" where
  "canonical_digest print sha256_hex v = ''sha256:'' @ sha256_hex (print (sorted_json v))"

section \<open>Reviews\<close>

definition TASK :: string where "TASK = ''review_task''"
definition BASE :: string where "BASE = ''review_base''"
definition REUSE :: string where "REUSE = ''review_reuse''"
definition NOTIFY :: string where "NOTIFY = ''notify''"

definition is_hexdigit :: "char \<Rightarrow> bool" where
  "is_hexdigit c \<longleftrightarrow>
     (48 \<le> byte_of c \<and> byte_of c \<le> 57) \<or> (65 \<le> byte_of c \<and> byte_of c \<le> 70)
   \<or> (97 \<le> byte_of c \<and> byte_of c \<le> 102)"

definition valid_base :: "string \<Rightarrow> bool" where
  "valid_base base \<longleftrightarrow> (length base = 40 \<or> length base = 64) \<and> list_all is_hexdigit base"

definition jstrs :: "string list \<Rightarrow> json" where
  "jstrs ss = JArr (map JStr ss)"

definition typed :: "string \<Rightarrow> json" where
  "typed t = JObj [(''type'', JStr t)]"

definition output_schema :: json where
  "output_schema = JObj
     [(''type'', JStr ''object''),
      (''properties'', JObj
        [(''review_complete'', typed ''boolean''),
         (''verdict'', JObj [(''type'', JStr ''string''),
            (''enum'', jstrs [''approve'', ''needs-attention'', ''incomplete''])]),
         (''summary'', typed ''string''),
         (''findings'', JObj [(''type'', JStr ''array''), (''items'', JObj
            [(''type'', JStr ''object''),
             (''properties'', JObj
               [(''severity'', JObj [(''type'', JStr ''string''),
                   (''enum'', jstrs [''critical'', ''high'', ''medium'', ''low''])]),
                (''title'', typed ''string''), (''body'', typed ''string''), (''file'', typed ''string''),
                (''line_start'', typed ''integer''), (''line_end'', typed ''integer'')]),
             (''required'', jstrs [''severity'', ''title'', ''body'', ''file'', ''line_start'', ''line_end'']),
             (''additionalProperties'', JBool False)])])]),
      (''required'', jstrs [''review_complete'', ''verdict'', ''summary'', ''findings'']),
      (''additionalProperties'', JBool False)]"

text \<open>Equality of serde_json values ignores the order of members.\<close>

definition json_eq :: "json \<Rightarrow> json \<Rightarrow> bool" where
  "json_eq a b \<longleftrightarrow> sorted_json a = sorted_json b"

definition review_ok :: "request \<Rightarrow> bool" where
  "review_ok r =
     (let ls = rq_labels r in
      if \<not> list_ex (\<lambda>k. map_of ls k \<noteq> None) [TASK, BASE, REUSE] then True
      else (rq_purpose r = Review \<or> rq_purpose r = DesignReview)
         \<and> cx_root (rq_context r) \<noteq> None
         \<and> (case rq_output r of TextOutput \<Rightarrow> False | JsonSchema schema \<Rightarrow> json_eq schema output_schema)
         \<and> (case map_of ls TASK of None \<Rightarrow> False | Some task \<Rightarrow> valid_id task)
         \<and> (case map_of ls BASE of None \<Rightarrow> False | Some base \<Rightarrow> valid_base base)
         \<and> (case map_of ls REUSE of None \<Rightarrow> False | Some reuse \<Rightarrow> reuse = ''true'' \<or> reuse = ''false''))"

definition input_contract :: "string \<Rightarrow> string" where
  "input_contract base =
    ''Review input contract: compare the current immutable snapshot against base commit ''
    @ base
    @ ''. First confirm that commit exists in the snapshot repository; if it does not, stop ''
    @ ''without reviewing and report review_complete=false and verdict=incomplete naming the ''
    @ ''missing base. Read files from the current snapshot, not the source checkout. All ''
    @ ''requirements and external evidence must be supplied in this request or captured ''
    @ ''files; do not consult mutable external paths or branch refs. Return JSON matching ''
    @ ''the supplied output schema. Report review_complete=false and verdict=incomplete only ''
    @ ''if a required input, such as a referenced requirement, design or file, is missing ''
    @ ''from this request and the captured files, or you could not read the changed code. ''
    @ ''This is a static review: project toolchains, installed dependencies and browsers may ''
    @ ''be unavailable in the snapshot, and a check you cannot execute does not make the ''
    @ ''review incomplete; name it in the summary instead. A completed review may still have ''
    @ ''findings and verdict=needs-attention.''"

definition newline :: string where "newline = [CHR 0x0A]"

definition review_prompt :: "request \<Rightarrow> string option" where
  "review_prompt r =
     map_option (\<lambda>base.
       if ends_with (rq_instruction r) (input_contract base) then rq_instruction r
       else rq_instruction r @ newline @ input_contract base)
     (map_of (rq_labels r) BASE)"

text \<open>The JSON text of the file list is the parameter \<open>show_files\<close>.\<close>

definition request_prompt :: "(string list \<Rightarrow> string) \<Rightarrow> request \<Rightarrow> string" where
  "request_prompt show_files r =
     (case review_prompt r of
        Some p \<Rightarrow> p
      | None \<Rightarrow>
          if \<not> is_image (rq_purpose r) then rq_instruction r
          else ''Use native image generation to ''
             @ (if rq_purpose r = ImageEdit then ''edit'' else ''generate'')
             @ '' the requested image. Return the generated image through the native tool, with a brief ''
             @ ''final caption. Do not substitute code, an SVG, a URL or a claim of success. Input image ''
             @ ''paths relative to this workspace: '' @ show_files (cx_files (rq_context r)) @ ''.'' @ newline
             @ rq_instruction r)"

section \<open>Validation\<close>

definition request_validate :: "(json \<Rightarrow> nat option) \<Rightarrow> request \<Rightarrow> input_error + unit" where
  "request_validate ser r =
     (let files = cx_files (rq_context r) in
      if rq_schema r \<noteq> 1 then Inl UnsupportedSchema
      else if \<not> valid_id (rq_request_id r) then Inl InvalidRequestId
      else if \<not> review_ok r then Inl InvalidContext
      else if is_blank (rq_instruction r) \<or> 128 * 1024 < length (rq_instruction r)
              \<or> CHR 0x00 \<in> set (rq_instruction r)
      then Inl InvalidInstruction
      else if 32 < length files
              \<or> (case cx_root (rq_context r) of None \<Rightarrow> False
                 | Some root \<Rightarrow> \<not> absolute_root root \<or> root = ''/'')
              \<or> list_ex (\<lambda>f. \<not> relative_file f) files
              \<or> length (remdups files) \<noteq> length files
      then Inl InvalidContext
      else if (case rq_conversation r of Fresh \<Rightarrow> False | Continue child \<Rightarrow> \<not> valid_id child)
      then Inl InvalidConversation
      else if \<not> valid_labels (rq_labels r) then Inl InvalidLabels
      else if \<not> output_ok ser (rq_output r) then Inl InvalidOutput
      else if is_image (rq_purpose r)
              \<and> (\<not> is_text (rq_output r) \<or> MAX_IMAGES < length files
                 \<or> (rq_purpose r = ImageEdit \<and> files = [] \<and> rq_conversation r = Fresh))
      then Inl InvalidContext
      else Inr ())"

text \<open>Decoding of the closed request type is serde's: the parameter \<open>decode\<close>.\<close>

definition request_parse ::
    "(string \<Rightarrow> input_error + request) \<Rightarrow> (json \<Rightarrow> nat option) \<Rightarrow> string \<Rightarrow> input_error + request" where
  "request_parse decode ser bytes =
     (if MAX_REQUEST_BYTES < length bytes then Inl RequestTooLarge
      else rbind (decode bytes) (\<lambda>r. rbind (request_validate ser r) (\<lambda>_. Inr r)))"

section \<open>Lemmas\<close>

fun wf_json :: "json \<Rightarrow> bool" where
  "wf_json (JObj kvs) = (distinct (map fst kvs) \<and> list_all (\<lambda>p. wf_json (snd p)) kvs)"
| "wf_json (JArr vs) = list_all wf_json vs"
| "wf_json _ = True"

text \<open>Two values that differ in the order of object members, at any depth.\<close>

inductive reordered :: "json \<Rightarrow> json \<Rightarrow> bool" where
  same: "reordered v v"
| members: "mset kvs = mset kvs' \<Longrightarrow> reordered (JObj kvs) (JObj kvs')"
| inside: "reordered v v' \<Longrightarrow> reordered (JObj (pre @ (k, v) # post)) (JObj (pre @ (k, v') # post))"
| element: "reordered v v' \<Longrightarrow> reordered (JArr (pre @ v # post)) (JArr (pre @ v' # post))"
| step: "reordered u v \<Longrightarrow> reordered v w \<Longrightarrow> reordered u w"

lemma sorted_members:
  assumes "distinct (map fst kvs)" "mset kvs = mset kvs'"
  shows "sort_key fst (map (\<lambda>p. (fst p, f (snd p))) kvs) = sort_key fst (map (\<lambda>p. (fst p, f (snd p))) kvs')"
proof -
  let ?g = "\<lambda>p. (fst p, f (snd p))"
  have "mset (map ?g kvs) = mset (map ?g kvs')" using assms(2) by simp
  moreover have "inj_on fst (set (map ?g kvs))"
    using assms(1) by (auto simp: inj_on_def distinct_map)
  ultimately show ?thesis
    by (intro sort_key_inj_key_eq) simp_all
qed

lemma reordered_sorted: "reordered v w \<Longrightarrow> wf_json v \<Longrightarrow> sorted_json v = sorted_json w \<and> wf_json w"
proof (induction rule: reordered.induct)
  case (members kvs kvs')
  have "distinct (map fst kvs')"
    using members by (metis mset_eq_imp_distinct_iff mset_map wf_json.simps(1))
  moreover have "set kvs = set kvs'" using members(1) by (rule mset_eq_setD)
  moreover have "sorted_json (JObj kvs) = sorted_json (JObj kvs')"
    using sorted_members [of kvs kvs' sorted_json] members by simp
  ultimately show ?case using members(2) by (simp add: list_all_iff)
qed auto

lemma split_at_char_parts: "concat (map (\<lambda>p. c # p) (split_at_char c acc s)) = c # rev acc @ s"
  by (induction c acc s rule: split_at_char.induct) simp_all

text \<open>Lexical resolution of path parts against a directory, as a list of names.\<close>

fun resolve_path :: "string list \<Rightarrow> string list \<Rightarrow> string list" where
  "resolve_path dir [] = dir"
| "resolve_path dir (p # ps) =
     resolve_path (if p = [] \<or> p = ''.'' then dir else if p = ''..'' then butlast dir else dir @ [p]) ps"

lemma resolve_plain: "list_all plain_part ps \<Longrightarrow> resolve_path dir ps = dir @ ps"
  by (induction ps arbitrary: dir) (simp_all add: plain_part_def)

lemma split_at_char_nonempty: "split_at_char c acc s \<noteq> []"
  by (induction c acc s rule: split_at_char.induct) simp_all

lemma request_validate_files:
  "request_validate ser r = Inr () \<Longrightarrow> f \<in> set (cx_files (rq_context r)) \<Longrightarrow> relative_file f"
  by (auto simp: request_validate_def Let_def list_ex_iff split: if_splits)

section \<open>Properties\<close>

text \<open>the files of an accepted request stay below the worktree: each one resolves, part by part and
  with dot-dot meaning the parent, to a path strictly below whatever directory it is resolved
  against, no two are the same, and there are at most 32.\<close>

theorem request_files_contained:
  assumes "request_validate ser r = Inr ()"
  shows "length (cx_files (rq_context r)) \<le> 32 \<and> distinct (cx_files (rq_context r))
    \<and> (\<forall>f \<in> set (cx_files (rq_context r)). \<exists>below. below \<noteq> []
         \<and> resolve_path dir (split_at_char (CHR ''/'') [] f) = dir @ below)"
proof (intro conjI ballI)
  show "length (cx_files (rq_context r)) \<le> 32"
    using assms by (auto simp: request_validate_def Let_def split: if_splits)
  have "length (remdups (cx_files (rq_context r))) = length (cx_files (rq_context r))"
    using assms by (auto simp: request_validate_def Let_def split: if_splits)
  then show "distinct (cx_files (rq_context r))"
    by (metis length_remdups_eq remdups_id_iff_distinct)
  fix f assume "f \<in> set (cx_files (rq_context r))"
  with assms have "relative_file f" by (rule request_validate_files)
  then have "resolve_path dir (split_at_char (CHR ''/'') [] f) = dir @ split_at_char (CHR ''/'') [] f"
    by (intro resolve_plain) (simp add: relative_file_def)
  with split_at_char_nonempty show "\<exists>below. below \<noteq> []
      \<and> resolve_path dir (split_at_char (CHR ''/'') [] f) = dir @ below" by blast
qed

definition demo_request :: request where
  "demo_request = \<lparr>rq_schema = 1, rq_request_id = ''op'', rq_purpose = Analysis, rq_instruction = ''Look'',
     rq_context = \<lparr>cx_scope = CurrentWorktree, cx_files = [''src/a.rs'', ''b''], cx_root = Some ''/tasks/p''\<rparr>,
     rq_access = ReadOnly, rq_conversation = Fresh, rq_output = TextOutput, rq_labels = []\<rparr>"

theorem request_files_contained_witness:
  "distinct (cx_files (rq_context demo_request)) \<and>
   (\<exists>below. below \<noteq> []
      \<and> resolve_path [''tasks''] (split_at_char (CHR ''/'') [] ''src/a.rs'') = [''tasks''] @ below)"
proof -
  have "is_blank ''Look'' = False" "review_ok demo_request" "relative_file ''src/a.rs''" "relative_file ''b''"
    "absolute_root ''/tasks/p''" "valid_id ''op''"
    by (simp_all add: is_blank_def str_trim_def is_continuation_def is_white_def is_control_def byte_of_def
        review_ok_def demo_request_def relative_file_def absolute_root_def starts_with_def plain_part_def
        valid_id_def is_ascii_alnum_def)
  then have "request_validate (\<lambda>_. Some 1) demo_request = Inr ()"
    by (simp add: request_validate_def demo_request_def valid_labels_def output_ok_def is_image_def)
  from request_files_contained [OF this, of "[''tasks'']"] show ?thesis
    by (simp add: demo_request_def)
qed

text \<open>C35: the canonical digest of a JSON value depends only on its meaning: two values that differ in
  the order of object members at any depth have the same digest, whatever the printer and the hash.\<close>

theorem canonical_digest_ignores_member_order:
  assumes "reordered v w" and "wf_json v"
  shows "canonical_digest print sha v = canonical_digest print sha w"
  using reordered_sorted [OF assms] by (simp add: canonical_digest_def)

theorem canonical_digest_ignores_member_order_witness:
  "canonical_digest (\<lambda>j. case j of JObj fs \<Rightarrow> concat (map fst fs) | _ \<Rightarrow> []) (\<lambda>b. b) (JObj [(''b'', JArr [JObj [(''x'', JInt 1), (''a'', JNull)]]), (''a'', JBool True)])
   = canonical_digest (\<lambda>j. case j of JObj fs \<Rightarrow> concat (map fst fs) | _ \<Rightarrow> []) (\<lambda>b. b) (JObj [(''a'', JBool True), (''b'', JArr [JObj [(''a'', JNull), (''x'', JInt 1)]])])"
proof (rule canonical_digest_ignores_member_order)
  have "reordered (JArr ([] @ JObj [(''x'', JInt 1), (''a'', JNull)] # []))
      (JArr ([] @ JObj [(''a'', JNull), (''x'', JInt 1)] # []))"
    by (rule reordered.element, rule reordered.members) simp
  from reordered.inside [OF this, of "[]" "''b''" "[(''a'', JBool True)]"]
  have inner: "reordered (JObj [(''b'', JArr [JObj [(''x'', JInt 1), (''a'', JNull)]]), (''a'', JBool True)])
      (JObj [(''b'', JArr [JObj [(''a'', JNull), (''x'', JInt 1)]]), (''a'', JBool True)])"
    by (simp only: append_Nil)
  have outer: "reordered (JObj [(''b'', JArr [JObj [(''a'', JNull), (''x'', JInt 1)]]), (''a'', JBool True)])
      (JObj [(''a'', JBool True), (''b'', JArr [JObj [(''a'', JNull), (''x'', JInt 1)]])])"
    by (rule reordered.members) simp
  show "reordered (JObj [(''b'', JArr [JObj [(''x'', JInt 1), (''a'', JNull)]]), (''a'', JBool True)])
      (JObj [(''a'', JBool True), (''b'', JArr [JObj [(''a'', JNull), (''x'', JInt 1)]])])"
    by (rule reordered.step [OF inner outer])
qed simp

end
