(* ===== verification/Managed_Call.thy ===== *)
theory Managed_Call
  imports Managed_Request
begin

text \<open>
  \<^verbatim>\<open>src/components/wire/src/managed_calls/lifecycle.rs\<close>: the durable record of a managed call, which
  replacements of it are accepted, and the review reuse rules of
  \<^verbatim>\<open>src/components/wire/src/managed_calls/review.rs\<close> that read it.
\<close>

section \<open>States\<close>

datatype call_state =
    Queued | Starting | Running | WaitingInput | Stopping | Completed | Failed | Cancelled

definition terminal :: "call_state \<Rightarrow> bool" where
  "terminal s \<longleftrightarrow> s = Completed \<or> s = Failed \<or> s = Cancelled"

fun state_code :: "call_state \<Rightarrow> string" where
  "state_code Queued = ''queued''"
| "state_code Starting = ''starting''"
| "state_code Running = ''running''"
| "state_code WaitingInput = ''waiting_input''"
| "state_code Stopping = ''stopping''"
| "state_code Completed = ''completed''"
| "state_code Failed = ''failed''"
| "state_code Cancelled = ''cancelled''"

definition permits :: "call_state \<Rightarrow> call_state \<Rightarrow> bool" where
  "permits s next \<longleftrightarrow> \<not> terminal s \<and>
     (case s of
        Queued \<Rightarrow> next \<in> {Starting, Cancelled, Failed}
      | Starting \<Rightarrow> next \<in> {Running, Stopping, Failed, Completed}
      | Running \<Rightarrow> next \<in> {WaitingInput, Stopping, Completed, Failed}
      | WaitingInput \<Rightarrow> next \<in> {Running, Stopping, Completed, Failed}
      | Stopping \<Rightarrow> next \<in> {Completed, Failed, Cancelled}
      | _ \<Rightarrow> False)"

section \<open>Records\<close>

record call_placement =
  service_id :: string
  parent_session_id :: string
  parent_revision :: string
  machine_id :: string
  workspace_id :: string
  p_cwd :: string

definition same_location :: "call_placement \<Rightarrow> call_placement \<Rightarrow> bool" where
  "same_location a b \<longleftrightarrow>
     service_id a = service_id b \<and> parent_session_id a = parent_session_id b
   \<and> machine_id a = machine_id b \<and> workspace_id a = workspace_id b \<and> p_cwd a = p_cwd b"

definition placement_ok :: "call_placement \<Rightarrow> bool" where
  "placement_ok p \<longleftrightarrow>
     list_all valid_id [service_id p, parent_session_id p, machine_id p, workspace_id p]
   \<and> parent_revision p \<noteq> [] \<and> length (parent_revision p) \<le> 256
   \<and> starts_with (p_cwd p) ''/'' \<and> length (p_cwd p) \<le> 4096 \<and> CHR 0x00 \<notin> set (p_cwd p)"

record call_error =
  err_code :: string
  err_detail :: "string option"

definition new_call_error :: "string \<Rightarrow> string option \<Rightarrow> call_error" where
  "new_call_error code detail =
     \<lparr>err_code = code, err_detail = map_option (\<lambda>d. concat (take 512 (utf8_chars d))) detail\<rparr>"

definition call_error_ok :: "call_error \<Rightarrow> bool" where
  "call_error_ok e \<longleftrightarrow>
     err_code e \<noteq> [] \<and> length (err_code e) \<le> 64
   \<and> list_all (\<lambda>b. (97 \<le> byte_of b \<and> byte_of b \<le> 122) \<or> b = CHR ''_'') (err_code e)
   \<and> (case err_detail e of None \<Rightarrow> True | Some d \<Rightarrow> char_count d \<le> 512)"

record call_record =
  c_schema :: nat
  call_id :: string
  request_id :: string
  request_digest :: string
  c_provider :: string
  c_purpose :: purpose
  c_access :: access
  c_labels :: labels
  c_placement :: call_placement
  child_session_id :: string
  c_state :: call_state
  revision :: nat
  created_at_ms :: int
  updated_at_ms :: int
  started_at_ms :: "int option"
  finished_at_ms :: "int option"
  configuration :: "(string \<times> string) list option"
  provider_account_id :: "string option"
  input_revision :: "string option"
  c_result :: "json option"
  runtime_machine_id :: "string option"
  provider_version :: "string option"
  provider_generation_digest :: "string option"
  child_cursor :: "nat option"
  cancel_requested_at_ms :: "int option"
  c_error :: "call_error option"
  c_preset :: "string option"
  c_selection :: "string option"

definition once :: "'a option \<Rightarrow> 'a option \<Rightarrow> bool" where
  "once previous next \<longleftrightarrow> previous = None \<or> previous = next"

definition all_opt :: "('a \<Rightarrow> bool) \<Rightarrow> 'a option \<Rightarrow> bool" where
  "all_opt P v = (case v of None \<Rightarrow> True | Some x \<Rightarrow> P x)"

definition valid_digest :: "string \<Rightarrow> bool" where
  "valid_digest value \<longleftrightarrow>
     starts_with value ''sha256:''
   \<and> length (drop 7 value) = 64
   \<and> list_all (\<lambda>b. is_hexdigit b \<and> \<not> (65 \<le> byte_of b \<and> byte_of b \<le> 90)) (drop 7 value)"

text \<open>\<open>pointer("/a/b")\<close> with two names that are no array indices.\<close>

definition jpointer2 :: "string \<Rightarrow> string \<Rightarrow> json \<Rightarrow> json option" where
  "jpointer2 a b v = Option.bind (jget a v) (jget b)"

definition record_ok :: "(json \<Rightarrow> nat option) \<Rightarrow> call_record \<Rightarrow> bool" where
  "record_ok ser r \<longleftrightarrow>
     c_schema r = 1
   \<and> valid_id (call_id r) \<and> valid_id (request_id r) \<and> valid_id (child_session_id r)
   \<and> placement_ok (c_placement r)
   \<and> (c_provider r = ''codex'' \<or> c_provider r = ''claude-code'')
   \<and> valid_labels (c_labels r)
   \<and> valid_digest (request_digest r)
   \<and> 0 < revision r \<and> int (revision r) \<le> i64_max
   \<and> 0 \<le> created_at_ms r \<and> created_at_ms r \<le> updated_at_ms r
   \<and> all_opt (\<lambda>t. created_at_ms r \<le> t \<and> t \<le> updated_at_ms r) (started_at_ms r)
   \<and> all_opt (\<lambda>t. terminal (c_state r)
        \<and> (case started_at_ms r of None \<Rightarrow> created_at_ms r | Some s \<Rightarrow> s) \<le> t \<and> t \<le> updated_at_ms r)
       (finished_at_ms r)
   \<and> all_opt (\<lambda>vs. length vs \<le> 3 \<and> list_all (\<lambda>(k, v).
        k \<in> {''model'', ''reasoning_effort'', ''effort''} \<and> length v \<le> 256) vs) (configuration r)
   \<and> all_opt valid_digest (input_revision r)
   \<and> (c_state r \<noteq> Completed \<or> (c_result r \<noteq> None \<and> input_revision r \<noteq> None))
   \<and> all_opt (\<lambda>v. all_opt (\<lambda>n. n \<le> 1024 * 1024) (ser v) \<and> ser v \<noteq> None) (c_result r)
   \<and> all_opt valid_id (runtime_machine_id r)
   \<and> all_opt (\<lambda>v. v \<noteq> [] \<and> length v \<le> 64) (provider_version r)
   \<and> all_opt (\<lambda>d. d \<noteq> [] \<and> length d \<le> 128) (provider_generation_digest r)
   \<and> all_opt call_error_ok (c_error r)
   \<and> (c_error r = None \<or> c_state r = Failed \<or> c_state r = Cancelled)
   \<and> all_opt (\<lambda>p. p \<noteq> [] \<and> length p \<le> 128) (c_preset r)
   \<and> all_opt (\<lambda>s. s = ''explicit'' \<or> s = ''auto'') (c_selection r)"

definition reuse_evidence :: "call_record \<Rightarrow> bool" where
  "reuse_evidence r \<longleftrightarrow>
     child_cursor r = None
   \<and> (case c_result r of
        None \<Rightarrow> False
      | Some v \<Rightarrow>
          (case Option.bind (jpointer2 ''reused_from'' ''call_id'' v) jstr of
             None \<Rightarrow> False | Some i \<Rightarrow> valid_id i))"

definition accepts :: "(json \<Rightarrow> nat option) \<Rightarrow> call_record \<Rightarrow> call_record \<Rightarrow> bool" where
  "accepts ser r n \<longleftrightarrow>
     record_ok ser r \<and> record_ok ser n
   \<and> (\<not> (c_state r = Starting \<and> c_state n = Completed) \<or> reuse_evidence n)
   \<and> permits (c_state r) (c_state n)
   \<and> call_id r = call_id n \<and> request_id r = request_id n \<and> request_digest r = request_digest n
   \<and> c_provider r = c_provider n \<and> c_purpose r = c_purpose n \<and> c_access r = c_access n
   \<and> c_labels r = c_labels n \<and> c_placement r = c_placement n
   \<and> child_session_id r = child_session_id n \<and> created_at_ms r = created_at_ms n
   \<and> updated_at_ms r \<le> updated_at_ms n
   \<and> checked_add (revision r) 1 = Some (revision n)
   \<and> once (input_revision r) (input_revision n)
   \<and> once (started_at_ms r) (started_at_ms n)
   \<and> once (finished_at_ms r) (finished_at_ms n)
   \<and> once (configuration r) (configuration n)
   \<and> once (provider_account_id r) (provider_account_id n)
   \<and> once (runtime_machine_id r) (runtime_machine_id n)
   \<and> c_preset r = c_preset n \<and> c_selection r = c_selection n
   \<and> once (provider_version r) (provider_version n)
   \<and> once (provider_generation_digest r) (provider_generation_digest n)
   \<and> once (child_cursor r) (child_cursor n)
   \<and> once (cancel_requested_at_ms r) (cancel_requested_at_ms n)
   \<and> once (c_result r) (c_result n)"

definition accepts_cancel_request :: "call_record \<Rightarrow> call_record \<Rightarrow> bool" where
  "accepts_cancel_request r n \<longleftrightarrow>
     \<not> terminal (c_state r) \<and> cancel_requested_at_ms r = None
   \<and> cancel_requested_at_ms n \<noteq> None \<and> updated_at_ms r \<le> updated_at_ms n
   \<and> r\<lparr>revision := usize_add (revision r) 1, updated_at_ms := updated_at_ms n,
       cancel_requested_at_ms := cancel_requested_at_ms n\<rparr> = n"

section \<open>The list projection\<close>

record call_summary =
  s_record :: call_record
  s_has_result :: bool
  s_usage :: "turn_usage option"
  s_reused_from :: "string option"
  s_reused_child :: "string option"
  s_cancel_requested :: bool
  s_verdict :: "string option"
  s_finding_count :: "nat option"

text \<open>
  The summary copies the record's other fields; \<open>s_record\<close> is the record with the two fields the
  summary leaves out, the result and the generation digest, and the child cursor, request digest
  and stop time, erased. \<open>decode_usage\<close> is serde's reading of the usage value.
\<close>

definition summary :: "(json \<Rightarrow> turn_usage option) \<Rightarrow> call_record \<Rightarrow> call_summary" where
  "summary decode_usage r =
     \<lparr>s_record = r\<lparr>c_result := None, request_digest := [], provider_generation_digest := None,
        child_cursor := None, cancel_requested_at_ms := None\<rparr>,
      s_has_result = (c_result r \<noteq> None),
      s_usage = Option.bind (Option.bind (c_result r) (jget ''usage'')) decode_usage,
      s_reused_from = Option.bind (Option.bind (c_result r) (jpointer2 ''reused_from'' ''call_id'')) jstr,
      s_reused_child = Option.bind (Option.bind (c_result r) (jpointer2 ''reused_from'' ''child_session_id'')) jstr,
      s_cancel_requested = (cancel_requested_at_ms r \<noteq> None),
      s_verdict = (case Option.bind (Option.bind (c_result r) (jpointer2 ''structured'' ''verdict'')) jstr of
                     None \<Rightarrow> None | Some v \<Rightarrow> if length v \<le> 64 then Some v else None),
      s_finding_count = map_option length
        (Option.bind (Option.bind (c_result r) (jpointer2 ''structured'' ''findings'')) jarr)\<rparr>"

section \<open>Review reuse\<close>

definition review_complete :: "call_record \<Rightarrow> bool" where
  "review_complete r \<longleftrightarrow>
     c_state r = Completed
   \<and> (case c_result r of
        None \<Rightarrow> False
      | Some v \<Rightarrow>
          jpointer2 ''structured'' ''review_complete'' v = Some (JBool True)
        \<and> (case Option.bind (jpointer2 ''structured'' ''verdict'' v) jstr of
             None \<Rightarrow> False | Some d \<Rightarrow> d = ''approve'' \<or> d = ''needs-attention'')
        \<and> jget ''truncated'' v \<noteq> Some (JBool True))"

definition opt_json :: "('a \<Rightarrow> json) \<Rightarrow> 'a option \<Rightarrow> json" where
  "opt_json f v = (case v of None \<Rightarrow> JNull | Some x \<Rightarrow> f x)"

definition purpose_json :: "purpose \<Rightarrow> json" where
  "purpose_json p = JStr (case p of
       Review \<Rightarrow> ''review'' | DesignReview \<Rightarrow> ''design_review'' | Analysis \<Rightarrow> ''analysis''
     | ImageGenerate \<Rightarrow> ''image_generate'' | ImageEdit \<Rightarrow> ''image_edit'')"

definition placement_json :: "call_placement \<Rightarrow> json" where
  "placement_json p = JObj
     [(''service_id'', JStr (service_id p)), (''parent_session_id'', JStr (parent_session_id p)),
      (''parent_revision'', JStr (parent_revision p)), (''machine_id'', JStr (machine_id p)),
      (''workspace_id'', JStr (workspace_id p)), (''cwd'', JStr (p_cwd p))]"

definition output_json :: "output_format \<Rightarrow> json" where
  "output_json fmt =
     (case fmt of
        TextOutput \<Rightarrow> JObj [(''format'', JStr ''text'')]
      | JsonSchema schema \<Rightarrow> JObj [(''format'', JStr ''json_schema''), (''schema'', schema)])"

definition identity_json ::
    "(string list \<Rightarrow> string) \<Rightarrow> request \<Rightarrow> call_record \<Rightarrow> string \<Rightarrow> string \<Rightarrow> nat option \<Rightarrow> json" where
  "identity_json show_files rq r inp acct authentication_generation = JObj
     [(''schema'', JInt 1),
      (''task'', opt_json JStr (map_of (rq_labels rq) TASK)),
      (''base'', opt_json JStr (map_of (rq_labels rq) BASE)),
      (''placement'', placement_json (c_placement r)),
      (''root'', opt_json JStr (cx_root (rq_context rq))),
      (''input_revision'', JStr inp),
      (''purpose'', purpose_json (rq_purpose rq)),
      (''instruction'', JStr (request_prompt show_files rq)),
      (''output'', output_json (rq_output rq)),
      (''provider'', JStr (c_provider r)),
      (''generation'', opt_json JStr (provider_generation_digest r)),
      (''runtime'', opt_json JStr (runtime_machine_id r)),
      (''preset'', opt_json JStr (c_preset r)),
      (''account'', JStr acct),
      (''authentication_generation'', opt_json (\<lambda>n. JInt (int n)) authentication_generation)]"

definition review_identity ::
    "(json \<Rightarrow> string) \<Rightarrow> (string list \<Rightarrow> string) \<Rightarrow> request \<Rightarrow> call_record \<Rightarrow> string \<Rightarrow> string
     \<Rightarrow> nat option \<Rightarrow> string option" where
  "review_identity digest show_files rq r inp acct auth =
     (if map_of (rq_labels rq) REUSE \<noteq> Some ''true'' \<or> rq_conversation rq \<noteq> Fresh \<or> \<not> review_ok rq
      then None
      else Some (digest (identity_json show_files rq r inp acct auth)))"

section \<open>Histories of a record\<close>

text \<open>A stored record is replaced only by an accepted successor or a recorded stop request.\<close>

inductive call_step :: "(json \<Rightarrow> nat option) \<Rightarrow> call_record \<Rightarrow> call_record \<Rightarrow> bool"
  for ser :: "json \<Rightarrow> nat option" where
  advance: "accepts ser r n \<Longrightarrow> call_step ser r n"
| stop_requested: "record_ok ser r \<Longrightarrow> record_ok ser n \<Longrightarrow> accepts_cancel_request r n \<Longrightarrow> call_step ser r n"

inductive call_path :: "(json \<Rightarrow> nat option) \<Rightarrow> call_record \<Rightarrow> call_record list \<Rightarrow> call_record \<Rightarrow> bool"
  for ser :: "json \<Rightarrow> nat option" where
  stay: "call_path ser r [r] r"
| extend: "call_path ser r hist m \<Longrightarrow> call_step ser m n \<Longrightarrow> call_path ser r (hist @ [n]) n"

inductive_cases call_stepE: "call_step ser r n"

text \<open>The fields that identify a call and say where it runs.\<close>

definition identity_of where
  "identity_of r =
     (call_id r, request_id r, request_digest r, c_provider r, c_purpose r, c_access r, c_labels r,
      c_placement r, child_session_id r, created_at_ms r, c_preset r, c_selection r)"

definition write_once :: "call_record \<Rightarrow> call_record \<Rightarrow> bool" where
  "write_once r n \<longleftrightarrow>
     once (input_revision r) (input_revision n) \<and> once (started_at_ms r) (started_at_ms n)
   \<and> once (finished_at_ms r) (finished_at_ms n) \<and> once (configuration r) (configuration n)
   \<and> once (provider_account_id r) (provider_account_id n) \<and> once (runtime_machine_id r) (runtime_machine_id n)
   \<and> once (provider_version r) (provider_version n)
   \<and> once (provider_generation_digest r) (provider_generation_digest n)
   \<and> once (child_cursor r) (child_cursor n) \<and> once (cancel_requested_at_ms r) (cancel_requested_at_ms n)
   \<and> once (c_result r) (c_result n)"

lemma once_trans: "once a b \<Longrightarrow> once b c \<Longrightarrow> once a c"
  by (auto simp: once_def)

lemma write_once_refl: "write_once r r"
  by (simp add: write_once_def once_def)

lemma write_once_trans: "write_once a b \<Longrightarrow> write_once b c \<Longrightarrow> write_once a c"
  unfolding write_once_def by (elim conjE, intro conjI; erule (1) once_trans)

lemma accepts_step:
  assumes "accepts ser r n"
  shows "identity_of n = identity_of r" "write_once r n" "revision n = revision r + 1"
    "permits (c_state r) (c_state n)" "updated_at_ms r \<le> updated_at_ms n" "record_ok ser n"
    "c_state r = Starting \<and> c_state n = Completed \<longrightarrow> reuse_evidence n"
  using assms by (auto simp: accepts_def identity_of_def write_once_def checked_add_def split: if_splits)

lemma cancel_step:
  assumes "accepts_cancel_request r n" "record_ok ser r"
  shows "identity_of n = identity_of r" "write_once r n" "revision n = revision r + 1"
    "c_state n = c_state r" "\<not> terminal (c_state r)" "updated_at_ms r \<le> updated_at_ms n"
proof -
  have c: "\<not> terminal (c_state r)" "cancel_requested_at_ms r = None" "updated_at_ms r \<le> updated_at_ms n"
    "r\<lparr>revision := usize_add (revision r) 1, updated_at_ms := updated_at_ms n,
       cancel_requested_at_ms := cancel_requested_at_ms n\<rparr> = n"
    using assms(1) by (simp_all add: accepts_cancel_request_def)
  have "revision r + 1 \<le> usize_max"
    using assms(2) by (auto simp: record_ok_def i64_max_def usize_max_def)
  then have rev: "usize_add (revision r) 1 = revision r + 1" by (rule usize_add_eq)
  obtain u v where n: "n = r\<lparr>revision := revision r + 1, updated_at_ms := u, cancel_requested_at_ms := v\<rparr>"
    by (rule that [OF c(4) [unfolded rev, symmetric]])
  show "identity_of n = identity_of r" "write_once r n" "revision n = revision r + 1" "c_state n = c_state r"
    using c(2) by (simp_all add: n identity_of_def write_once_def once_def)
  show "\<not> terminal (c_state r)" "updated_at_ms r \<le> updated_at_ms n" by (rule c)+
qed

lemma call_step_frame:
  assumes "call_step ser r n"
  shows "identity_of n = identity_of r \<and> write_once r n \<and> revision n = revision r + 1
    \<and> updated_at_ms r \<le> updated_at_ms n \<and> \<not> terminal (c_state r)
    \<and> (permits (c_state r) (c_state n) \<or> c_state n = c_state r) \<and> record_ok ser n"
  using assms
proof (cases rule: call_step.cases)
  case advance
  with accepts_step [OF advance] show ?thesis by (simp add: permits_def)
next
  case stop_requested
  with cancel_step [OF stop_requested(3,1)] show ?thesis by simp
qed

text \<open>How far a state is from an effect: a launch is claimed once, leaving the queue for good.\<close>

definition phase :: "call_state \<Rightarrow> nat" where
  "phase s = (case s of Queued \<Rightarrow> 0 | Starting \<Rightarrow> 1 | Running \<Rightarrow> 2 | WaitingInput \<Rightarrow> 2 | Stopping \<Rightarrow> 3 | _ \<Rightarrow> 4)"

lemma permits_phase: "permits s n \<Longrightarrow> phase s \<le> phase n \<and> (n = Starting \<longrightarrow> s = Queued) \<and> n \<noteq> Queued"
  by (cases s) (auto simp: permits_def phase_def)

lemma call_path_last: "call_path ser r hist n \<Longrightarrow> hist \<noteq> [] \<and> hd hist = r \<and> last hist = n"
  by (induction rule: call_path.induct) auto

lemma call_path_frame:
  assumes "call_path ser r hist n"
  shows "identity_of n = identity_of r \<and> write_once r n \<and> revision n + 1 = revision r + length hist
    \<and> updated_at_ms r \<le> updated_at_ms n \<and> phase (c_state r) \<le> phase (c_state n)
    \<and> (record_ok ser r \<longrightarrow> record_ok ser n)
    \<and> (\<forall>m \<in> set (butlast hist). \<not> terminal (c_state m))"
  using assms
proof induction
  case (stay r)
  show ?case by (simp add: write_once_refl)
next
  case (extend r hist m n)
  note step = call_step_frame [OF extend(2)] and l = call_path_last [OF extend(1)]
  have "\<forall>k \<in> set hist. \<not> terminal (c_state k)"
    using extend(3) step l by (metis append_butlast_last_id insert_iff set_append Un_iff list.set(2)
        empty_iff list.set(1))
  moreover have "phase (c_state m) \<le> phase (c_state n)" using step permits_phase by fastforce
  ultimately show ?case
    using extend(3) step write_once_trans by (simp add: l) (metis le_trans)
qed

section \<open>Properties\<close>

text \<open>Whatever replacements of a stored call record are accepted, the call keeps its request, its
  placement and its child conversation, every write-once observation keeps its value, the revision
  counts the replacements one by one, time does not run backwards, and the record stays valid; in
  particular a completed call has its result and its input snapshot.\<close>

theorem call_history_keeps_identity:
  assumes "call_path ser r hist n" and "record_ok ser r"
  shows "identity_of n = identity_of r \<and> write_once r n
    \<and> revision n + 1 = revision r + length hist \<and> updated_at_ms r \<le> updated_at_ms n \<and> record_ok ser n
    \<and> (c_state n = Completed \<longrightarrow> c_result n \<noteq> None \<and> input_revision n \<noteq> None)"
  using call_path_frame [OF assms(1)] assms(2) by (auto simp: record_ok_def)

text \<open>a terminal state is final and a launch is never claimed twice: no record in a history has a
  successor once it is completed, failed or cancelled, the state never returns to the queue after
  leaving it, and it enters the starting state at most once.\<close>

theorem launch_claimed_once:
  assumes "call_path ser r hist n"
  shows "(terminal (c_state n) \<longrightarrow> (\<forall>k. \<not> call_step ser n k))
    \<and> (\<forall>m \<in> set (butlast hist). \<not> terminal (c_state m))
    \<and> (\<forall>i j. i < j \<and> j < length hist \<longrightarrow> phase (c_state (hist ! i)) \<le> phase (c_state (hist ! j)))
    \<and> (\<forall>i j. Suc i < j \<and> j < length hist \<and> c_state (hist ! Suc i) = Starting \<and> c_state (hist ! i) \<noteq> Starting
         \<longrightarrow> \<not> (c_state (hist ! j) = Starting \<and> c_state (hist ! (j - 1)) \<noteq> Starting))"
proof -
  have mono: "sorted (map (\<lambda>m. phase (c_state m)) hist)"
    and entry: "\<forall>j. 0 < j \<and> j < length hist \<and> c_state (hist ! j) = Starting \<and> c_state (hist ! (j - 1)) \<noteq> Starting
        \<longrightarrow> c_state (hist ! (j - 1)) = Queued"
    using assms
  proof induction
    case (stay r)
    { case 1 then show ?case by simp }
    { case 2 then show ?case by simp }
  next
    case (extend r hist m n)
    note step = call_step_frame [OF extend(2)] and l = call_path_last [OF extend(1)]
    have up: "phase (c_state m) \<le> phase (c_state n)" using step permits_phase by fastforce
    have top: "phase (c_state k) \<le> phase (c_state m)" if "k \<in> set hist" for k
      using sorted_le_last [OF extend(3), of "phase (c_state k)"] that l by (simp add: last_map)
    { case 1
      show ?case using extend(3) top up by (fastforce simp: sorted_append) }
    { case 2
      have "c_state m = Queued" if "c_state n = Starting" "c_state m \<noteq> Starting"
        using step that permits_phase by metis
      with extend(4) l show ?case
        by (auto simp: nth_append last_conv_nth less_Suc_eq split: if_splits) }
  qed
  have le: "phase (c_state (hist ! i)) \<le> phase (c_state (hist ! j))" if "i < j" "j < length hist" for i j
    using mono that by (auto simp: sorted_iff_nth_mono)
  have "\<not> (c_state (hist ! j) = Starting \<and> c_state (hist ! (j - 1)) \<noteq> Starting)"
    if "Suc i < j" "j < length hist" "c_state (hist ! Suc i) = Starting" for i j
  proof
    assume a: "c_state (hist ! j) = Starting \<and> c_state (hist ! (j - 1)) \<noteq> Starting"
    with entry that have q: "c_state (hist ! (j - 1)) = Queued" by (metis gr_implies_not0 neq0_conv)
    have "Suc i \<noteq> j - 1" using a that(3) by metis
    then have "Suc i < j - 1" using that(1) by simp
    have "j - 1 < length hist" using that(2) by simp
    from le [OF \<open>Suc i < j - 1\<close> this] that(3) q show False by (simp add: phase_def)
  qed
  moreover have "\<not> call_step ser n k" if "terminal (c_state n)" for k
    using call_step_frame [of ser n k] that by blast
  moreover note call_path_frame [OF assms] le
  ultimately show ?thesis by blast
qed

text \<open>A call that is starting completes directly only when its result names the earlier call it
  reuses and no prompt was ever sent to its child; otherwise it has to be seen running.\<close>

theorem direct_completion_needs_reuse:
  assumes "call_step ser r n" and "c_state r = Starting" and "c_state n = Completed"
  shows "child_cursor n = None \<and> (\<exists>v i. c_result n = Some v
    \<and> jpointer2 ''reused_from'' ''call_id'' v = Some (JStr i) \<and> valid_id i)"
  using assms(1)
proof (cases rule: call_step.cases)
  case advance
  have str: "jstr j = Some i \<Longrightarrow> j = JStr i" for j i by (cases j) auto
  from accepts_step(7) [OF advance] assms(2,3) have "reuse_evidence n" by simp
  then show ?thesis
    by (auto simp: reuse_evidence_def bind_eq_Some_conv split: option.splits dest!: str)
next
  case stop_requested
  with cancel_step(4) [OF stop_requested(3,1)] assms(2,3) show ?thesis by simp
qed

definition demo_digest :: string where
  "demo_digest = ''sha256:'' @ replicate 64 (CHR ''a'')"

definition demo_call :: "call_state \<Rightarrow> nat \<Rightarrow> call_record" where
  "demo_call s k =
     \<lparr>c_schema = 1, call_id = ''call-1'', request_id = ''r-1'', request_digest = demo_digest,
      c_provider = ''codex'', c_purpose = Review, c_access = ReadOnly, c_labels = [],
      c_placement = \<lparr>service_id = ''svc'', parent_session_id = ''p'', parent_revision = ''b'',
        machine_id = ''m'', workspace_id = ''w'', p_cwd = ''/t''\<rparr>,
      child_session_id = ''child'', c_state = s, revision = k, created_at_ms = 1, updated_at_ms = 1,
      started_at_ms = None, finished_at_ms = None, configuration = None, provider_account_id = None,
      input_revision = (if s = Completed then Some demo_digest else None),
      c_result = (if s = Completed then Some (JObj [(''reused_from'', JObj [(''call_id'', JStr ''old'')])]) else None),
      runtime_machine_id = None, provider_version = None, provider_generation_digest = None,
      child_cursor = None, cancel_requested_at_ms = None, c_error = None, c_preset = None, c_selection = None\<rparr>"

lemma demo_call_ok:
  assumes "0 < k" "k \<le> 3"
  shows "record_ok (\<lambda>_. Some 1) (demo_call s k)"
proof -
  have d: "valid_digest demo_digest"
    by (simp add: valid_digest_def demo_digest_def starts_with_def is_hexdigit_def byte_of_def list_all_iff)
  have i: "valid_id ''call-1''" "valid_id ''r-1''" "valid_id ''child''" "valid_id ''svc''" "valid_id ''p''"
    "valid_id ''m''" "valid_id ''w''"
    by (simp_all add: valid_id_def is_ascii_alnum_def byte_of_def)
  then show ?thesis
    using assms d by (auto simp: record_ok_def demo_call_def placement_ok_def starts_with_def valid_labels_def
        all_opt_def i64_max_def)
qed

lemma demo_accepts:
  "accepts (\<lambda>_. Some 1) (demo_call Queued 1) (demo_call Starting 2)"
  "accepts (\<lambda>_. Some 1) (demo_call Starting 2) (demo_call Completed 3)"
proof -
  have "reuse_evidence (demo_call Completed 3)"
    by (simp add: reuse_evidence_def demo_call_def jpointer2_def valid_id_def is_ascii_alnum_def byte_of_def)
  then show "accepts (\<lambda>_. Some 1) (demo_call Queued 1) (demo_call Starting 2)"
    "accepts (\<lambda>_. Some 1) (demo_call Starting 2) (demo_call Completed 3)"
    using demo_call_ok [of 1 Queued] demo_call_ok [of 2 Starting] demo_call_ok [of 3 Completed]
    by (simp_all add: accepts_def permits_def terminal_def once_def checked_add_def usize_max_def)
      (simp_all add: demo_call_def)
qed

lemma demo_path:
  "call_path (\<lambda>_. Some 1) (demo_call Queued 1)
     ([demo_call Queued 1] @ [demo_call Starting 2] @ [demo_call Completed 3]) (demo_call Completed 3)"
proof -
  have "call_path (\<lambda>_. Some 1) (demo_call Queued 1) ([demo_call Queued 1] @ [demo_call Starting 2]) (demo_call Starting 2)"
    by (rule call_path.extend [OF call_path.stay call_step.advance [OF demo_accepts(1)]])
  from call_path.extend [OF this call_step.advance [OF demo_accepts(2)]] show ?thesis by simp
qed

theorem call_history_keeps_identity_witness:
  "identity_of (demo_call Completed 3) = identity_of (demo_call Queued 1)
   \<and> c_result (demo_call Completed 3) \<noteq> None"
  using call_history_keeps_identity [OF demo_path demo_call_ok [of 1 Queued]] by (simp add: demo_call_def)

theorem launch_claimed_once_witness:
  "\<forall>k. \<not> call_step (\<lambda>_. Some 1) (demo_call Completed 3) k"
  using launch_claimed_once [OF demo_path] by (simp add: terminal_def demo_call_def)

theorem direct_completion_needs_reuse_witness:
  "child_cursor (demo_call Completed 3) = None \<and> (\<exists>v i. c_result (demo_call Completed 3) = Some v
    \<and> jpointer2 ''reused_from'' ''call_id'' v = Some (JStr i) \<and> valid_id i)"
  by (rule direct_completion_needs_reuse [OF call_step.advance [OF demo_accepts(2)]]) (simp_all add: demo_call_def)

text \<open>the reuse identity of a review exists only for a fresh request that opts in with a complete
  review contract, and it does not depend on the request id, nor on display labels or the call's
  own ids, state, revision, times and results.\<close>

theorem review_identity_ignores_display:
  assumes "review_identity digest show_files rq r inp acct auth = Some d"
    and "rq_purpose rq' = rq_purpose rq" and "rq_instruction rq' = rq_instruction rq"
    and "rq_context rq' = rq_context rq" and "rq_conversation rq' = rq_conversation rq"
    and "rq_output rq' = rq_output rq"
    and "\<forall>k \<in> {TASK, BASE, REUSE}. map_of (rq_labels rq') k = map_of (rq_labels rq) k"
    and "c_placement r' = c_placement r" and "c_provider r' = c_provider r"
    and "provider_generation_digest r' = provider_generation_digest r"
    and "runtime_machine_id r' = runtime_machine_id r" and "c_preset r' = c_preset r"
  shows "review_identity digest show_files rq' r' inp acct auth = Some d
    \<and> rq_conversation rq = Fresh \<and> map_of (rq_labels rq) REUSE = Some ''true''
    \<and> (rq_purpose rq = Review \<or> rq_purpose rq = DesignReview)
    \<and> (\<exists>task base. map_of (rq_labels rq) TASK = Some task \<and> valid_id task
         \<and> map_of (rq_labels rq) BASE = Some base \<and> valid_base base)"
proof
  have labels: "map_of (rq_labels rq') TASK = map_of (rq_labels rq) TASK"
    "map_of (rq_labels rq') BASE = map_of (rq_labels rq) BASE"
    "map_of (rq_labels rq') REUSE = map_of (rq_labels rq) REUSE" using assms(7) by simp_all
  have "review_ok rq' = review_ok rq"
    unfolding review_ok_def Let_def using assms(2,4,6) labels by simp
  moreover have "request_prompt show_files rq' = request_prompt show_files rq"
    unfolding request_prompt_def review_prompt_def assms(2) assms(3) assms(4) labels ..
  moreover from this have "identity_json show_files rq' r' inp acct auth = identity_json show_files rq r inp acct auth"
    unfolding identity_json_def using assms(2,4,6,8-12) labels by simp
  ultimately show "review_identity digest show_files rq' r' inp acct auth = Some d"
    using assms(1,5) labels(3) unfolding review_identity_def by (simp split: if_split_asm)
  have "rq_conversation rq = Fresh" "map_of (rq_labels rq) REUSE = Some ''true''" "review_ok rq"
    using assms(1) by (auto simp: review_identity_def split: if_splits)
  then show "rq_conversation rq = Fresh \<and> map_of (rq_labels rq) REUSE = Some ''true''
    \<and> (rq_purpose rq = Review \<or> rq_purpose rq = DesignReview)
    \<and> (\<exists>task base. map_of (rq_labels rq) TASK = Some task \<and> valid_id task
         \<and> map_of (rq_labels rq) BASE = Some base \<and> valid_base base)"
    by (auto simp: review_ok_def Let_def split: option.splits)
qed

definition demo_review :: "string \<Rightarrow> request" where
  "demo_review title = \<lparr>rq_schema = 1, rq_request_id = title, rq_purpose = Review, rq_instruction = ''Look'',
     rq_context = \<lparr>cx_scope = CurrentWorktree, cx_files = [], cx_root = Some ''/tasks/p''\<rparr>,
     rq_access = ReadOnly, rq_conversation = Fresh, rq_output = JsonSchema output_schema,
     rq_labels = [(BASE, replicate 40 (CHR ''a'')), (REUSE, ''true''), (TASK, ''t''), (''title'', title)]\<rparr>"

theorem review_identity_ignores_display_witness:
  "review_identity (\<lambda>_. ''d'') (\<lambda>_. []) (demo_review ''y'') (demo_call Running 3) ''i'' ''acct'' None = Some ''d''"
proof -
  have "review_ok (demo_review ''x'')"
    by (simp add: review_ok_def demo_review_def TASK_def BASE_def REUSE_def json_eq_def valid_id_def
        is_ascii_alnum_def byte_of_def valid_base_def is_hexdigit_def list_all_iff)
  then have one: "review_identity (\<lambda>_. ''d'') (\<lambda>_. []) (demo_review ''x'') (demo_call Queued 1) ''i'' ''acct'' None = Some ''d''"
    by (simp add: review_identity_def demo_review_def TASK_def BASE_def REUSE_def)
  have same: "\<forall>k \<in> {TASK, BASE, REUSE}. map_of (rq_labels (demo_review ''y'')) k = map_of (rq_labels (demo_review ''x'')) k"
    by (simp add: demo_review_def TASK_def BASE_def REUSE_def)
  show ?thesis
    using review_identity_ignores_display [OF one, of "demo_review ''y''" "demo_call Running 3"] same
    by (simp add: demo_review_def demo_call_def)
qed

end
