(* ===== verification/Anchor_Index.thy ===== *)
theory Anchor_Index
  imports Prelude
begin

text \<open>
  The bounded least-recently-used index of transcript anchors,
  \<^verbatim>\<open>src/src/transcript_anchors.rs\<close>: every subagent and every call owns one transcript row, and
  the index remembers that row's sequence number by session and anchor key. The specification is a
  list of keys in order of use, oldest first; the code's two tables implement it.
\<close>

section \<open>Anchor keys\<close>

definition CALL_ANCHOR_UPDATE :: string where "CALL_ANCHOR_UPDATE = ''cowboy_call_anchor''"
definition SUBAGENT_UPDATE :: string where "SUBAGENT_UPDATE = ''cowboy_subagent''"
definition SUBAGENT_PREFIX :: string where "SUBAGENT_PREFIX = ''subagent:''"
definition CALL_PREFIX :: string where "CALL_PREFIX = ''call:''"
definition INDEX_CAPACITY :: nat where "INDEX_CAPACITY = 16384"
definition ID_MAX_BYTES :: nat where "ID_MAX_BYTES = 256"

definition valid_anchor_id :: "string \<Rightarrow> bool" where
  "valid_anchor_id s \<longleftrightarrow> s \<noteq> [] \<and> length s \<le> ID_MAX_BYTES \<and> \<not> list_ex is_control (utf8_chars s)"

definition anchor_key :: "json \<Rightarrow> string option" where
  "anchor_key update =
     (case jget_str ''sessionUpdate'' update of
        None \<Rightarrow> None
      | Some kind \<Rightarrow>
          (let named = (\<lambda>field prefix.
               case jget_str field update of
                 None \<Rightarrow> None
               | Some i \<Rightarrow> if valid_anchor_id i then Some (prefix @ i) else None)
           in if kind = SUBAGENT_UPDATE then named ''sessionId'' SUBAGENT_PREFIX
              else if kind = CALL_ANCHOR_UPDATE then named ''callId'' CALL_PREFIX
              else None))"

section \<open>The index\<close>

text \<open>
  \<open>ai_entries\<close> is the \<open>HashMap\<close> from anchor to its sequence number and its last tick;
  \<open>ai_order\<close> is the \<open>BTreeMap\<close> from tick to anchor, kept in ascending order of its keys. Ticks are
  the code's wrapping \<open>u64\<close>.
\<close>

type_synonym anchor = "string \<times> string"

record anchor_index =
  ai_capacity :: nat
  ai_tick :: u64
  ai_entries :: "(anchor \<times> (nat \<times> u64)) list"
  ai_order :: "(u64 \<times> anchor) list"

definition with_capacity :: "nat \<Rightarrow> anchor_index" where
  "with_capacity n = \<lparr>ai_capacity = max n 1, ai_tick = 0, ai_entries = [], ai_order = []\<rparr>"

definition default_index :: anchor_index where
  "default_index = with_capacity INDEX_CAPACITY"

definition touch :: "anchor \<Rightarrow> anchor_index \<Rightarrow> nat option \<times> anchor_index" where
  "touch a ix =
     (let tick = ai_tick ix + 1 in
      case map_of (ai_entries ix) a of
        None \<Rightarrow> (None, ix)
      | Some (sq, previous) \<Rightarrow>
          (Some sq, ix\<lparr>ai_entries := AList.update a (sq, tick) (ai_entries ix), ai_tick := tick,
             ai_order := btree_insert tick a (adelete previous (ai_order ix))\<rparr>))"

definition anchor_get :: "string \<Rightarrow> string \<Rightarrow> anchor_index \<Rightarrow> nat option \<times> anchor_index" where
  "anchor_get session key ix = touch (session, key) ix"

definition anchor_contains :: "string \<Rightarrow> string \<Rightarrow> anchor_index \<Rightarrow> bool" where
  "anchor_contains session key ix \<longleftrightarrow> map_of (ai_entries ix) (session, key) \<noteq> None"

text \<open>The eviction loop stops when there is room or when the order table is empty.\<close>

function evict :: "anchor_index \<Rightarrow> anchor_index" where
  "evict ix =
     (if ai_capacity ix \<le> length (ai_entries ix)
      then (case ai_order ix of
              [] \<Rightarrow> ix
            | (_, oldest) # order \<Rightarrow>
                evict (ix\<lparr>ai_order := order, ai_entries := adelete oldest (ai_entries ix)\<rparr>))
      else ix)"
  by pat_completeness auto
termination
  by (relation "measure (\<lambda>ix. length (ai_order ix))") auto

declare evict.simps [simp del]

definition anchor_insert :: "string \<Rightarrow> string \<Rightarrow> nat \<Rightarrow> anchor_index \<Rightarrow> anchor_index" where
  "anchor_insert session key sq ix =
     (let a = (session, key) in
      case map_of (ai_entries ix) a of
        Some (_, tick) \<Rightarrow> snd (touch a (ix\<lparr>ai_entries := AList.update a (sq, tick) (ai_entries ix)\<rparr>))
      | None \<Rightarrow>
          (let ix = evict ix; tick = ai_tick ix + 1
           in ix\<lparr>ai_tick := tick, ai_order := btree_insert tick a (ai_order ix),
                 ai_entries := AList.update a (sq, tick) (ai_entries ix)\<rparr>))"

definition anchor_remove :: "string \<Rightarrow> string \<Rightarrow> anchor_index \<Rightarrow> anchor_index" where
  "anchor_remove session key ix =
     (case map_of (ai_entries ix) (session, key) of
        None \<Rightarrow> ix
      | Some (_, tick) \<Rightarrow>
          ix\<lparr>ai_entries := adelete (session, key) (ai_entries ix), ai_order := adelete tick (ai_order ix)\<rparr>)"

definition remove_session :: "string \<Rightarrow> anchor_index \<Rightarrow> anchor_index" where
  "remove_session session ix =
     ix\<lparr>ai_entries := filter (\<lambda>e. fst (fst e) \<noteq> session) (ai_entries ix),
        ai_order := filter (\<lambda>e. fst (snd e) \<noteq> session) (ai_order ix)\<rparr>"

section \<open>Specification: anchors in order of use\<close>

type_synonym lru = "(anchor \<times> nat) list"

definition lru_of :: "anchor_index \<Rightarrow> lru" where
  "lru_of ix = map (\<lambda>(_, a). (a, fst (the (map_of (ai_entries ix) a)))) (ai_order ix)"

definition lru_get :: "anchor \<Rightarrow> lru \<Rightarrow> nat option \<times> lru" where
  "lru_get a l = (case map_of l a of None \<Rightarrow> (None, l) | Some sq \<Rightarrow> (Some sq, adelete a l @ [(a, sq)]))"

definition lru_insert :: "nat \<Rightarrow> anchor \<Rightarrow> nat \<Rightarrow> lru \<Rightarrow> lru" where
  "lru_insert capacity a sq l =
     (if map_of l a \<noteq> None then adelete a l @ [(a, sq)]
      else drop (Suc (length l) - capacity) l @ [(a, sq)])"

text \<open>The two tables agree: same anchors, ticks unique, ascending and not yet wrapped.\<close>

definition index_inv :: "anchor_index \<Rightarrow> bool" where
  "index_inv ix \<longleftrightarrow>
     0 < ai_capacity ix \<and> length (ai_order ix) \<le> ai_capacity ix
   \<and> distinct (map fst (ai_entries ix))
   \<and> sorted_wrt (<) (map fst (ai_order ix))
   \<and> (\<forall>t \<in> fst ` set (ai_order ix). t \<le> ai_tick ix)
   \<and> distinct (map snd (ai_order ix))
   \<and> (\<forall>a t. (t, a) \<in> set (ai_order ix) \<longleftrightarrow> (\<exists>sq. map_of (ai_entries ix) a = Some (sq, t)))
   \<and> length (ai_entries ix) = length (ai_order ix)"


section \<open>The tables implement the list\<close>

lemma btree_insert_last:
  "(\<And>t. t \<in> fst ` set m \<Longrightarrow> t < k) \<Longrightarrow> btree_insert k v m = m @ [(k, v)]"
  by (induction m) force+

lemma sorted_wrt_filter: "sorted_wrt P (map fst m) \<Longrightarrow> sorted_wrt P (map fst (filter Q m))"
  by (induction m) auto

lemma sorted_wrt_less_distinct: "sorted_wrt (<) (map fst m) \<Longrightarrow> distinct (map fst (m :: ('k::linorder \<times> 'v) list))"
  by (induction m) auto

lemma index_rel:
  "index_inv ix \<Longrightarrow> (t, a) \<in> set (ai_order ix) \<longleftrightarrow> (\<exists>sq. map_of (ai_entries ix) a = Some (sq, t))"
  unfolding index_inv_def by (elim conjE allE [of _ a]) blast

lemma index_dom:
  assumes "index_inv ix"
  shows "a \<in> snd ` set (ai_order ix) \<longleftrightarrow> map_of (ai_entries ix) a \<noteq> None"
proof
  assume "a \<in> snd ` set (ai_order ix)"
  then obtain t where "(t, a) \<in> set (ai_order ix)" by force
  then show "map_of (ai_entries ix) a \<noteq> None" using index_rel [OF assms] by auto
next
  assume "map_of (ai_entries ix) a \<noteq> None"
  then obtain sq t where "map_of (ai_entries ix) a = Some (sq, t)" by force
  then have "(t, a) \<in> set (ai_order ix)" using index_rel [OF assms] by blast
  then show "a \<in> snd ` set (ai_order ix)" by force
qed

lemma map_of_lru:
  assumes "index_inv ix"
  shows "map_of (lru_of ix) a = map_option fst (map_of (ai_entries ix) a)"
proof -
  let ?f = "\<lambda>a. fst (the (map_of (ai_entries ix) a))"
  have "map_of (map (\<lambda>(t, b). (b, ?f b)) m) a = (if a \<in> snd ` set m then Some (?f a) else None)" for m :: "(u64 \<times> anchor) list"
    by (induction m) auto
  then show ?thesis using index_dom [OF assms, of a] by (cases "map_of (ai_entries ix) a") (auto simp: lru_of_def)
qed

lemma order_entry:
  assumes "index_inv ix" and "(t, a) \<in> set (ai_order ix)" and "(t', a') \<in> set (ai_order ix)"
  shows "t = t' \<longleftrightarrow> a = a'"
proof -
  have d: "distinct (map fst (ai_order ix))" and i: "inj_on snd (set (ai_order ix))"
    using assms(1) sorted_wrt_less_distinct by (auto simp: index_inv_def distinct_map)
  show ?thesis
    using eq_key_imp_eq_value [OF d assms(2), of a'] assms(3) inj_onD [OF i _ assms(2,3)] by auto
qed

lemma filter_tick_anchor:
  assumes "index_inv ix" and "map_of (ai_entries ix) a = Some (sq, t)"
  shows "adelete t (ai_order ix) = filter (\<lambda>e. snd e \<noteq> a) (ai_order ix)"
proof -
  have ta: "(t, a) \<in> set (ai_order ix)" using assms(2) index_rel [OF assms(1)] by blast
  show ?thesis unfolding adelete_def
  proof (rule filter_cong [OF refl])
    fix e assume "e \<in> set (ai_order ix)"
    then have "(fst e, snd e) \<in> set (ai_order ix)" by simp
    from order_entry [OF assms(1) this ta] show "(fst e \<noteq> t) = (snd e \<noteq> a)" by simp
  qed
qed

lemma lru_map_cong:
  assumes "\<And>t b. (t, b) \<in> set m \<Longrightarrow> map_of e b = map_of e' b"
  shows "map (\<lambda>(_, b). (b, fst (the (map_of e b)))) m = map (\<lambda>(_, b). (b, fst (the (map_of e' b)))) m"
  using assms by (intro map_cong) auto

lemma adelete_lru: "adelete a (map (\<lambda>(_, b). (b, f b)) m) = map (\<lambda>(_, b). (b, f b)) (filter (\<lambda>e. snd e \<noteq> a) m)"
  by (induction m) (auto simp: adelete_def)

text \<open>Putting an anchor at the newest tick: the step every operation ends with.\<close>

lemma newest:
  assumes inv: "index_inv ix"
    and tick: "ai_tick ix < ai_tick ix + 1"
    and len: "length (filter (\<lambda>e. snd e \<noteq> a) (ai_order ix)) < ai_capacity ix"
    and ix': "ix' = ix\<lparr>ai_entries := AList.update a (sq, ai_tick ix + 1) (ai_entries ix),
     ai_tick := ai_tick ix + 1,
     ai_order := filter (\<lambda>e. snd e \<noteq> a) (ai_order ix) @ [(ai_tick ix + 1, a)]\<rparr>"
  shows "index_inv ix' \<and> lru_of ix' = adelete a (lru_of ix) @ [(a, sq)]"
proof
  let ?O = "filter (\<lambda>e. snd e \<noteq> a) (ai_order ix)"
  have below: "t \<le> ai_tick ix" if "t \<in> fst ` set ?O" for t
    using that inv by (auto simp: index_inv_def)
  have len_eq: "length (AList.update a v (ai_entries ix)) = Suc (length ?O)" for v
  proof -
    have d: "distinct (map fst (AList.update a v (ai_entries ix)))"
      using inv by (simp add: index_inv_def AList.distinct_update)
    have "length (AList.update a v (ai_entries ix)) = card (fst ` set (AList.update a v (ai_entries ix)))"
      by (metis d distinct_card length_map list.set_map)
    also have "fst ` set (AList.update a v (ai_entries ix)) = insert a (fst ` set (ai_entries ix))"
      by (simp add: AList.dom_update)
    also have "\<dots> = insert a (snd ` set ?O)"
    proof -
      have "b \<in> fst ` set (ai_entries ix) \<longleftrightarrow> b \<in> snd ` set (ai_order ix)" for b
        using index_dom [OF inv, of b] map_of_eq_None_iff [of "ai_entries ix" b] by metis
      then have "fst ` set (ai_entries ix) = snd ` set (ai_order ix)" by (rule set_eqI)
      moreover have "insert a (snd ` set (ai_order ix)) = insert a (snd ` set ?O)" by auto
      ultimately show ?thesis by simp
    qed
    also have "card \<dots> = Suc (card (set (map snd ?O)))" by (auto intro!: card_insert_disjoint)
    also have "card (set (map snd ?O)) = length ?O"
      using inv distinct_card [of "map snd ?O"] by (auto simp: index_inv_def distinct_map_filter_id)
    finally show ?thesis .
  qed
  have ran: "(t, b) \<in> set (?O @ [(ai_tick ix + 1, a)]) \<longleftrightarrow>
      (\<exists>s. map_of (AList.update a (sq, ai_tick ix + 1) (ai_entries ix)) b = Some (s, t))" for t b
    using index_rel [OF inv, of t b] by (auto simp: AList.update_conv')
  have srt: "sorted_wrt (<) (map fst (?O @ [(ai_tick ix + 1, a)]))"
  proof -
    have "\<forall>t \<in> fst ` set ?O. t < ai_tick ix + 1" using below tick by (meson order_le_less_trans)
    then show ?thesis using inv sorted_wrt_filter by (auto simp: index_inv_def sorted_wrt_append)
  qed
  have dsn: "distinct (map snd (?O @ [(ai_tick ix + 1, a)]))"
    using inv by (auto simp: index_inv_def distinct_map_filter_id)
  have tks: "\<forall>t \<in> fst ` set (?O @ [(ai_tick ix + 1, a)]). t \<le> ai_tick ix + 1"
    using below tick by force
  show "index_inv ix'"
    unfolding index_inv_def ix'
    using inv len ran srt dsn tks len_eq
    by (simp add: index_inv_def AList.distinct_update)
  have "lru_of ix' = map (\<lambda>(_, b). (b, fst (the (map_of (AList.update a (sq, ai_tick ix + 1) (ai_entries ix)) b)))) ?O @ [(a, sq)]"
    by (simp add: lru_of_def ix' AList.update_conv')
  also have "map (\<lambda>(_, b). (b, fst (the (map_of (AList.update a (sq, ai_tick ix + 1) (ai_entries ix)) b)))) ?O = adelete a (lru_of ix)"
    unfolding lru_of_def adelete_lru by (rule lru_map_cong) (auto simp: AList.update_conv')
  finally show "lru_of ix' = adelete a (lru_of ix) @ [(a, sq)]" .
qed


lemma length_filter_less: "x \<in> set m \<Longrightarrow> \<not> P x \<Longrightarrow> length (filter P m) < length m"
  by (induction m) (auto simp: le_imp_less_Suc)

lemma touch_spec:
  assumes inv: "index_inv ix" and tick: "ai_tick ix < ai_tick ix + 1"
  shows "index_inv (snd (touch a ix))
    \<and> fst (touch a ix) = fst (lru_get a (lru_of ix)) \<and> lru_of (snd (touch a ix)) = snd (lru_get a (lru_of ix))"
proof (cases "map_of (ai_entries ix) a")
  case None
  then show ?thesis using inv map_of_lru [OF inv, of a] by (simp add: touch_def lru_get_def)
next
  case (Some e)
  obtain sq t where e: "e = (sq, t)" by force
  let ?O = "filter (\<lambda>e. snd e \<noteq> a) (ai_order ix)"
  have mem: "(t, a) \<in> set (ai_order ix)" using Some e index_rel [OF inv] by blast
  have "length ?O < length (ai_order ix)" by (rule length_filter_less [OF mem]) simp
  then have len: "length ?O < ai_capacity ix" using inv by (auto simp: index_inv_def)
  have "\<And>u. u \<in> fst ` set ?O \<Longrightarrow> u < ai_tick ix + 1"
    using inv tick by (auto simp: index_inv_def intro: order_le_less_trans)
  then have order: "btree_insert (ai_tick ix + 1) a (adelete t (ai_order ix)) = ?O @ [(ai_tick ix + 1, a)]"
    using btree_insert_last [of ?O "ai_tick ix + 1" a] filter_tick_anchor [OF inv, of a sq t] Some e by simp
  have "snd (touch a ix) = ix\<lparr>ai_entries := AList.update a (sq, ai_tick ix + 1) (ai_entries ix),
     ai_tick := ai_tick ix + 1, ai_order := ?O @ [(ai_tick ix + 1, a)]\<rparr>"
    using Some e order by (simp add: touch_def Let_def)
  from newest [OF inv tick len this] show ?thesis
    using Some e map_of_lru [OF inv, of a] by (simp add: touch_def lru_get_def Let_def)
qed

lemma touch_fst: "fst (touch a ix) = map_option fst (map_of (ai_entries ix) a)"
  by (simp add: touch_def Let_def split: option.split prod.split)

lemma touch_frame [simp]: "ai_capacity (snd (touch a ix)) = ai_capacity ix"
  by (simp add: touch_def Let_def split: option.split prod.split)

lemma length_lru [simp]: "length (lru_of ix) = length (ai_order ix)"
  by (simp add: lru_of_def)

lemma evict_spec:
  assumes inv: "index_inv ix"
  shows "index_inv (evict ix) \<and> lru_of (evict ix) = drop (Suc (length (lru_of ix)) - ai_capacity ix) (lru_of ix)
    \<and> ai_capacity (evict ix) = ai_capacity ix \<and> ai_tick (evict ix) = ai_tick ix
    \<and> length (ai_order (evict ix)) < ai_capacity ix"
proof (cases "ai_capacity ix \<le> length (ai_entries ix)")
  case False
  then have "evict ix = ix" by (simp add: evict.simps [of ix])
  then show ?thesis using inv False by (auto simp: index_inv_def)
next
  case True
  then have len: "length (ai_order ix) = ai_capacity ix" "0 < ai_capacity ix"
    using inv by (auto simp: index_inv_def)
  then obtain t a order where order: "ai_order ix = (t, a) # order" by (cases "ai_order ix") auto
  let ?ix = "ix\<lparr>ai_order := order, ai_entries := adelete a (ai_entries ix)\<rparr>"
  have sub: "set order \<subseteq> set (ai_order ix)" by (simp add: order subset_insertI)
  have notin: "a \<notin> snd ` set order" using inv by (auto simp: index_inv_def order)
  obtain sq where sq: "map_of (ai_entries ix) a = Some (sq, t)"
    using index_rel [OF inv, of t a] by (auto simp: order)
  have rel: "(u, b) \<in> set order \<longleftrightarrow> (\<exists>s. map_of (adelete a (ai_entries ix)) b = Some (s, u))" for u b
  proof (cases "b = a")
    case True
    then show ?thesis using notin by force
  next
    case False
    then show ?thesis using index_rel [OF inv, of u b] by (auto simp: order)
  qed
  have dl: "length (adelete a (ai_entries ix)) = length order"
  proof -
    have d: "distinct (map fst (ai_entries ix))" using inv by (simp add: index_inv_def)
    from sq have "a \<in> fst ` set (ai_entries ix)" by (metis map_of_eq_None_iff not_None_eq)
    then have "card (fst ` set (adelete a (ai_entries ix))) = card (fst ` set (ai_entries ix)) - 1"
      by (subst card_Diff_singleton [symmetric]) (auto simp: adelete_def intro!: arg_cong [where f = card])
    then have "length (adelete a (ai_entries ix)) = length (ai_entries ix) - 1"
      using distinct_card [OF d] distinct_card [OF distinct_adelete [OF d, of a]] by simp
    then show ?thesis using inv by (simp add: index_inv_def order)
  qed
  have inv': "index_inv ?ix"
    unfolding index_inv_def
    using inv rel dl order by (auto simp: index_inv_def distinct_adelete simp del: map_of_adelete)
  have "evict ix = evict ?ix" using True by (simp add: evict.simps [of ix] order)
  also have "\<dots> = ?ix" using dl len order by (simp add: evict.simps [of ?ix])
  finally have ev: "evict ix = ?ix" .
  have "lru_of ?ix = drop 1 (lru_of ix)"
    unfolding lru_of_def using order notin by (auto intro!: map_cong) force
  then show ?thesis using inv' len order by (simp add: ev)
qed


lemma length_update_present:
  "map_of m k \<noteq> None \<Longrightarrow> length (AList.update k v m) = length m"
  by (induction m) auto

lemma insert_spec:
  assumes inv: "index_inv ix" and tick: "ai_tick ix < ai_tick ix + 1"
  shows "index_inv (anchor_insert session key sq ix)
    \<and> lru_of (anchor_insert session key sq ix) = lru_insert (ai_capacity ix) (session, key) sq (lru_of ix)
    \<and> ai_capacity (anchor_insert session key sq ix) = ai_capacity ix"
proof (cases "map_of (ai_entries ix) (session, key)")
  case None
  let ?a = "(session, key)" and ?e = "evict ix"
  have e: "index_inv ?e" "lru_of ?e = drop (Suc (length (lru_of ix)) - ai_capacity ix) (lru_of ix)"
    "ai_capacity ?e = ai_capacity ix" "ai_tick ?e = ai_tick ix" "length (ai_order ?e) < ai_capacity ix"
    using evict_spec [OF inv] by blast+
  have no_a: "?a \<notin> fst ` set (lru_of ix)"
    using None map_of_lru [OF inv, of ?a] by (metis map_of_eq_None_iff option.simps(8))
  then have no_e: "?a \<notin> fst ` set (lru_of ?e)" unfolding e(2) by (auto dest: in_set_dropD)
  then have "?a \<notin> snd ` set (ai_order ?e)" by (force simp: lru_of_def)
  then have same: "filter (\<lambda>x. snd x \<noteq> ?a) (ai_order ?e) = ai_order ?e" by (force simp: filter_id_conv)
  have "\<And>u. u \<in> fst ` set (ai_order ?e) \<Longrightarrow> u < ai_tick ix + 1"
    using e(1) tick unfolding e(4) [symmetric] by (auto simp: index_inv_def intro: order_le_less_trans)
  then have b: "btree_insert (ai_tick ix + 1) ?a (ai_order ?e) = ai_order ?e @ [(ai_tick ix + 1, ?a)]"
    by (rule btree_insert_last)
  have i: "anchor_insert session key sq ix = ?e\<lparr>ai_entries := AList.update ?a (sq, ai_tick ?e + 1) (ai_entries ?e),
     ai_tick := ai_tick ?e + 1, ai_order := filter (\<lambda>x. snd x \<noteq> ?a) (ai_order ?e) @ [(ai_tick ?e + 1, ?a)]\<rparr>"
    using None b e(4) same by (simp add: anchor_insert_def Let_def)
  have "adelete ?a (lru_of ?e) = lru_of ?e"
    using no_e by (force simp: adelete_def filter_id_conv)
  then show ?thesis
    using newest [OF e(1) _ _ i] tick e(2-5) same None map_of_lru [OF inv, of ?a] i
    by (simp add: lru_insert_def)
next
  case (Some e)
  let ?a = "(session, key)"
  obtain sq0 t where e: "e = (sq0, t)" by force
  let ?ix = "ix\<lparr>ai_entries := AList.update ?a (sq, t) (ai_entries ix)\<rparr>"
  have rel: "(u, b) \<in> set (ai_order ix) \<longleftrightarrow> (\<exists>s. map_of (AList.update ?a (sq, t) (ai_entries ix)) b = Some (s, u))" for u b
    using index_rel [OF inv, of u b] Some e by (auto simp: AList.update_conv')
  have inv': "index_inv ?ix"
    unfolding index_inv_def
    using inv rel Some by (auto simp: index_inv_def AList.distinct_update length_update_present)
  have "map_of (lru_of ?ix) ?a = Some sq" using map_of_lru [OF inv', of ?a] by (simp add: AList.update_conv')
  moreover have "adelete ?a (lru_of ?ix) = adelete ?a (lru_of ix)"
    unfolding lru_of_def adelete_lru by (auto simp: AList.update_conv')
  moreover have "anchor_insert session key sq ix = snd (touch ?a ?ix)"
    using Some e by (simp add: anchor_insert_def Let_def)
  ultimately show ?thesis
    using touch_spec [OF inv', of ?a] tick Some map_of_lru [OF inv, of ?a]
    by (simp add: lru_get_def lru_insert_def)
qed


lemma length_filter_keys:
  "distinct (map f xs) \<Longrightarrow> length (filter (\<lambda>x. P (f x)) xs) = card {y \<in> f ` set xs. P y}"
proof (induction xs)
  case (Cons x xs)
  have "{y \<in> f ` set (x # xs). P y} = (if P (f x) then insert (f x) {y \<in> f ` set xs. P y} else {y \<in> f ` set xs. P y})"
    by auto
  then show ?case using Cons by auto
qed simp

lemma index_keys:
  assumes "index_inv ix" shows "fst ` set (ai_entries ix) = snd ` set (ai_order ix)"
proof (rule set_eqI)
  show "b \<in> fst ` set (ai_entries ix) \<longleftrightarrow> b \<in> snd ` set (ai_order ix)" for b
    using index_dom [OF assms, of b] map_of_eq_None_iff [of "ai_entries ix" b] by metis
qed

lemma map_of_filter_keys: "map_of (filter (\<lambda>e. P (fst e)) m) b = (if P b then map_of m b else None)"
  by (induction m) auto

lemma filtered_index:
  assumes inv: "index_inv ix" and P: "\<And>t a. (t, a) \<in> set (ai_order ix) \<Longrightarrow> Q (t, a) = P a"
    and ix': "ix' = ix\<lparr>ai_entries := filter (\<lambda>e. P (fst e)) (ai_entries ix), ai_order := filter Q (ai_order ix)\<rparr>"
  shows "index_inv ix' \<and> lru_of ix' = filter (\<lambda>e. P (fst e)) (lru_of ix) \<and> ai_capacity ix' = ai_capacity ix"
proof -
  let ?E = "filter (\<lambda>e. P (fst e)) (ai_entries ix)" and ?O = "filter (\<lambda>e. P (snd e)) (ai_order ix)"
  have fil: "filter Q (ai_order ix) = ?O"
    using P by (intro filter_cong) force+
  have d: "distinct (map fst (ai_entries ix))" "distinct (map snd (ai_order ix))"
    using inv by (simp_all add: index_inv_def)
  have len: "length ?E = length ?O"
    using length_filter_keys [OF d(1), of P] length_filter_keys [OF d(2), of P] index_keys [OF inv] by simp
  have rel: "(u, b) \<in> set ?O \<longleftrightarrow> (\<exists>s. map_of ?E b = Some (s, u))" for u b
    using index_rel [OF inv, of u b] by (auto simp: map_of_filter_keys)
  have short: "length ?O \<le> ai_capacity ix"
    using inv unfolding index_inv_def by (meson length_filter_le le_trans)
  have idx: "index_inv ix'"
    unfolding index_inv_def ix' fil
    using inv rel len short by (auto simp: index_inv_def distinct_map_filter_id sorted_wrt_filter)
  have "lru_of ix' = map (\<lambda>(_, b). (b, fst (the (map_of ?E b)))) ?O" by (simp add: lru_of_def ix' fil)
  also have "\<dots> = map (\<lambda>(_, b). (b, fst (the (map_of (ai_entries ix) b)))) ?O"
    by (rule lru_map_cong) (simp add: map_of_filter_keys)
  also have "\<dots> = filter (\<lambda>e. P (fst e)) (lru_of ix)"
    by (auto simp: lru_of_def filter_map o_def intro!: arg_cong [where f = "map _"] filter_cong)
  finally show ?thesis using idx by (simp add: ix')
qed

lemma remove_spec:
  assumes inv: "index_inv ix"
  shows "index_inv (anchor_remove session key ix)
    \<and> lru_of (anchor_remove session key ix) = adelete (session, key) (lru_of ix)
    \<and> ai_capacity (anchor_remove session key ix) = ai_capacity ix"
proof (cases "map_of (ai_entries ix) (session, key)")
  case None
  then have "(session, key) \<notin> fst ` set (lru_of ix)"
    using map_of_lru [OF inv, of "(session, key)"] by (metis map_of_eq_None_iff option.simps(8))
  then have "adelete (session, key) (lru_of ix) = lru_of ix" by (force simp: adelete_def filter_id_conv)
  then show ?thesis using None inv by (simp add: anchor_remove_def)
next
  case (Some e)
  obtain sq t where e: "e = (sq, t)" by force
  then have ta: "(t, (session, key)) \<in> set (ai_order ix)" using Some index_rel [OF inv] by blast
  show ?thesis
    unfolding adelete_def [of _ "lru_of ix"]
  proof (rule filtered_index [OF inv])
    show "anchor_remove session key ix = ix\<lparr>ai_entries := filter (\<lambda>e. fst e \<noteq> (session, key)) (ai_entries ix),
       ai_order := filter (\<lambda>e. fst e \<noteq> t) (ai_order ix)\<rparr>"
      using Some e by (simp add: anchor_remove_def adelete_def)
    show "(fst (u, b) \<noteq> t) = (b \<noteq> (session, key))" if "(u, b) \<in> set (ai_order ix)" for u b
      using order_entry [OF inv that ta] by simp
  qed
qed

lemma remove_session_spec:
  assumes inv: "index_inv ix"
  shows "index_inv (remove_session session ix)
    \<and> lru_of (remove_session session ix) = filter (\<lambda>e. fst (fst e) \<noteq> session) (lru_of ix)
    \<and> ai_capacity (remove_session session ix) = ai_capacity ix"
  by (rule filtered_index [OF inv, where Q = "\<lambda>e. fst (snd e) \<noteq> session"]) (simp_all add: remove_session_def)

section \<open>Runs\<close>

datatype anchor_op = AGet anchor | AInsert anchor nat | ARemove anchor | ARemoveSession string

primrec anchor_step :: "anchor_op \<Rightarrow> anchor_index \<Rightarrow> nat option \<times> anchor_index" where
  "anchor_step (AGet a) ix = anchor_get (fst a) (snd a) ix"
| "anchor_step (AInsert a sq) ix = (None, anchor_insert (fst a) (snd a) sq ix)"
| "anchor_step (ARemove a) ix = (None, anchor_remove (fst a) (snd a) ix)"
| "anchor_step (ARemoveSession s) ix = (None, remove_session s ix)"

primrec lru_step :: "nat \<Rightarrow> anchor_op \<Rightarrow> lru \<Rightarrow> nat option \<times> lru" where
  "lru_step n (AGet a) l = lru_get a l"
| "lru_step n (AInsert a sq) l = (None, lru_insert n a sq l)"
| "lru_step n (ARemove a) l = (None, adelete a l)"
| "lru_step n (ARemoveSession s) l = (None, filter (\<lambda>e. fst (fst e) \<noteq> s) l)"

primrec run_steps :: "('o \<Rightarrow> 's \<Rightarrow> 'r \<times> 's) \<Rightarrow> 'o list \<Rightarrow> 's \<Rightarrow> 'r list \<times> 's" where
  "run_steps step [] s = ([], s)"
| "run_steps step (op # ops) s =
     (let (r, s') = step op s; (rs, s'') = run_steps step ops s' in (r # rs, s''))"

lemma step_refines:
  assumes "index_inv ix" and "ai_tick ix < ai_tick ix + 1"
  shows "index_inv (snd (anchor_step op ix)) \<and> ai_capacity (snd (anchor_step op ix)) = ai_capacity ix
    \<and> fst (anchor_step op ix) = fst (lru_step (ai_capacity ix) op (lru_of ix))
    \<and> lru_of (snd (anchor_step op ix)) = snd (lru_step (ai_capacity ix) op (lru_of ix))"
  using touch_spec [OF assms] insert_spec [OF assms] remove_spec [OF assms(1)] remove_session_spec [OF assms(1)]
  by (cases op) (simp_all add: anchor_get_def)

lemma step_tick:
  assumes "index_inv ix"
  shows "ai_tick (snd (anchor_step op ix)) = ai_tick ix \<or> ai_tick (snd (anchor_step op ix)) = ai_tick ix + 1"
  using evict_spec [OF assms]
  by (cases op) (auto simp: anchor_get_def touch_def anchor_insert_def anchor_remove_def remove_session_def
      Let_def split: option.split)


lemma word_suc_less: "unat t + 1 < 2 ^ 64 \<Longrightarrow> t < t + (1 :: u64)"
  by (simp add: word_less_nat_alt unat_word_ariths)

lemma run_refines:
  assumes "index_inv ix" and "unat (ai_tick ix) + length ops < 2 ^ 64"
    and "run_steps anchor_step ops ix = (rs, ix')"
  shows "index_inv ix' \<and> ai_capacity ix' = ai_capacity ix
    \<and> run_steps (lru_step (ai_capacity ix)) ops (lru_of ix) = (rs, lru_of ix')"
  using assms
proof (induction ops arbitrary: ix rs)
  case Nil
  then show ?case by simp
next
  case (Cons op ops)
  obtain r ix1 where s: "anchor_step op ix = (r, ix1)" by force
  obtain rs1 where rs: "run_steps anchor_step ops ix1 = (rs1, ix')" "rs = r # rs1"
    using Cons.prems(3) s by (auto split: prod.splits)
  have tick: "ai_tick ix < ai_tick ix + 1" using Cons.prems(2) by (intro word_suc_less) simp
  have st: "index_inv ix1" "ai_capacity ix1 = ai_capacity ix"
    "lru_step (ai_capacity ix) op (lru_of ix) = (r, lru_of ix1)"
    using step_refines [OF Cons.prems(1) tick, of op] s by (auto simp: prod_eq_iff)
  have "unat (ai_tick ix1) \<le> unat (ai_tick ix) + 1"
    using step_tick [OF Cons.prems(1), of op] s Cons.prems(2) by (auto simp: unat_word_ariths)
  then have "unat (ai_tick ix1) + length ops < 2 ^ 64" using Cons.prems(2) by simp
  from Cons.IH [OF st(1) this rs(1)] st show ?case by (simp add: rs(2))
qed


text \<open>An anchor near the end of the list survives the insertions that follow.\<close>

definition recent :: "anchor \<Rightarrow> nat \<Rightarrow> nat \<Rightarrow> lru \<Rightarrow> bool" where
  "recent a sq k l \<longleftrightarrow> (\<exists>pre post. l = pre @ (a, sq) # post \<and> a \<notin> fst ` set pre \<and> a \<notin> fst ` set post \<and> length post \<le> k)"

lemma recent_get: "recent a sq k l \<Longrightarrow> map_of l a = Some sq"
  unfolding recent_def
proof (elim exE conjE)
  fix pre post assume "l = pre @ (a, sq) # post" and "a \<notin> fst ` set pre"
  moreover from this(2) have "map_of pre a = None" by (rule map_of_eq_None_iff [THEN iffD2])
  ultimately show "map_of l a = Some sq" by (simp add: map_add_def)
qed

lemma recent_start: "recent a sq 0 (adelete a l @ [(a, sq)])"
  unfolding recent_def by (rule exI [of _ "adelete a l"], rule exI [of _ "[]"]) (auto simp: adelete_def)

lemma recent_insert:
  assumes "recent a sq k l" and "b \<noteq> a" and "Suc k < capacity"
  shows "recent a sq (Suc k) (lru_insert capacity b s l)"
proof -
  obtain pre post where l: "l = pre @ (a, sq) # post" and n: "a \<notin> fst ` set pre" "a \<notin> fst ` set post" "length post \<le> k"
    using assms(1) by (auto simp: recent_def)
  show ?thesis
  proof (cases "map_of l b")
    case None
    have "drop (Suc (length l) - capacity) l = drop (Suc (length l) - capacity) pre @ (a, sq) # post"
      using assms(3) n(3) by (auto simp: l)
    then show ?thesis using None n assms(2) unfolding recent_def
      by (intro exI [of _ "drop (Suc (length l) - capacity) pre"] exI [of _ "post @ [(b, s)]"])
        (auto simp: lru_insert_def dest: in_set_dropD)
  next
    case (Some v)
    have short: "length (adelete b post) \<le> length post" by (simp add: adelete_def)
    have "lru_insert capacity b s l = adelete b pre @ (a, sq) # (adelete b post @ [(b, s)])"
      using Some assms(2) by (auto simp: lru_insert_def adelete_def l)
    moreover have "a \<notin> fst ` set (adelete b pre)" "a \<notin> fst ` set (adelete b post @ [(b, s)])"
      using n assms(2) by (auto simp: adelete_def)
    moreover have "length (adelete b post @ [(b, s)]) \<le> Suc k" using short n(3) by simp
    ultimately show ?thesis unfolding recent_def by blast
  qed
qed

text \<open>C36: over any sequence of lookups, insertions, removals and session removals shorter than the
  tick counter's range, the anchor index answers and retains exactly what a bounded
  least-recently-used list does, and holds at most its capacity.\<close>

theorem anchor_index_refines_lru:
  assumes "length ops < 2 ^ 64" and "run_steps anchor_step ops (with_capacity n) = (rs, ix)"
  shows "run_steps (lru_step (max n 1)) ops [] = (rs, lru_of ix)
    \<and> (\<forall>a. map_of (lru_of ix) a = map_option fst (map_of (ai_entries ix) a))
    \<and> length (ai_entries ix) \<le> max n 1"
proof -
  have "index_inv (with_capacity n)" by (simp add: index_inv_def with_capacity_def)
  from run_refines [OF this _ assms(2)] assms(1)
  have r: "index_inv ix" "ai_capacity ix = max n 1" "run_steps (lru_step (max n 1)) ops [] = (rs, lru_of ix)"
    by (simp_all add: with_capacity_def lru_of_def)
  from r(1,2) have "length (ai_entries ix) \<le> max n 1" by (auto simp: index_inv_def)
  with r(1,3) map_of_lru [OF r(1)] show ?thesis by blast
qed

theorem anchor_index_refines_lru_witness:
  "run_steps anchor_step [AInsert (''s'', ''a'') 1, AInsert (''s'', ''b'') 2, AGet (''s'', ''a''), AInsert (''s'', ''c'') 3,
     AGet (''s'', ''b''), AGet (''s'', ''a'')] (with_capacity 2)
   = ([None, None, Some 1, None, None, Some 1],
      snd (run_steps anchor_step [AInsert (''s'', ''a'') 1, AInsert (''s'', ''b'') 2, AGet (''s'', ''a''),
        AInsert (''s'', ''c'') 3, AGet (''s'', ''b''), AGet (''s'', ''a'')] (with_capacity 2)))"
proof -
  let ?ops = "[AInsert (''s'', ''a'') 1, AInsert (''s'', ''b'') 2, AGet (''s'', ''a''), AInsert (''s'', ''c'') 3,
     AGet (''s'', ''b''), AGet (''s'', ''a'')]"
  obtain rs ix where r: "run_steps anchor_step ?ops (with_capacity 2) = (rs, ix)" by force
  have "length ?ops < 2 ^ 64" by simp
  from anchor_index_refines_lru [OF this r]
  have "run_steps (lru_step (max 2 1)) ?ops [] = (rs, lru_of ix)" by (rule conjunct1)
  then have "rs = [None, None, Some 1, None, None, Some 1]"
    by (simp add: lru_get_def lru_insert_def adelete_def)
  with r show ?thesis by simp
qed

lemma inserts_recent:
  assumes "index_inv ix" and "unat (ai_tick ix) + length others < 2 ^ 64" and "recent a sq k (lru_of ix)"
    and "a \<notin> fst ` set others" and "k + length others < ai_capacity ix"
  shows "let ix' = fold (\<lambda>(b, s). anchor_insert (fst b) (snd b) s) others ix in
    index_inv ix' \<and> unat (ai_tick ix') \<le> unat (ai_tick ix) + length others
    \<and> recent a sq (k + length others) (lru_of ix')"
  using assms
proof (induction others arbitrary: ix k)
  case Nil
  then show ?case by (simp add: Let_def)
next
  case (Cons o1 others)
  obtain b s where o1: "o1 = (b, s)" by (cases o1)
  let ?ix = "anchor_insert (fst b) (snd b) s ix"
  have tick: "ai_tick ix < ai_tick ix + 1" using Cons.prems(2) by (intro word_suc_less) simp
  have i: "index_inv ?ix" "lru_of ?ix = lru_insert (ai_capacity ix) b s (lru_of ix)" "ai_capacity ?ix = ai_capacity ix"
    using insert_spec [OF Cons.prems(1) tick, of "fst b" "snd b" s] by auto
  have t: "unat (ai_tick ?ix) \<le> unat (ai_tick ix) + 1"
    using step_tick [OF Cons.prems(1), of "AInsert b s"] Cons.prems(2) by (auto simp: unat_word_ariths)
  have "recent a sq (Suc k) (lru_of ?ix)"
    unfolding i(2) using Cons.prems(3-5) o1 by (intro recent_insert) auto
  from Cons.IH [OF i(1) _ this] t Cons.prems(2,4,5) i(3) show ?case
    by (simp add: o1 Let_def)
qed

text \<open>An anchor that was just looked up is not evicted by fewer insertions of other anchors than
  the index has places.\<close>

theorem anchor_kept_while_recent:
  assumes "index_inv ix" and "unat (ai_tick ix) + length others + 1 < 2 ^ 64"
    and "fst (anchor_get (fst a) (snd a) ix) = Some sq"
    and "a \<notin> fst ` set others" and "length others < ai_capacity ix"
  shows "fst (anchor_get (fst a) (snd a)
     (fold (\<lambda>(b, s). anchor_insert (fst b) (snd b) s) others (snd (anchor_get (fst a) (snd a) ix)))) = Some sq"
proof -
  let ?ix = "snd (anchor_get (fst a) (snd a) ix)"
  have tick: "ai_tick ix < ai_tick ix + 1" using assms(2) by (intro word_suc_less) simp
  have g: "index_inv ?ix" "lru_of ?ix = snd (lru_get a (lru_of ix))" "fst (lru_get a (lru_of ix)) = Some sq"
    "ai_capacity ?ix = ai_capacity ix"
    using touch_spec [OF assms(1) tick, of a] assms(3) by (simp_all add: anchor_get_def)
  have t: "unat (ai_tick ?ix) \<le> unat (ai_tick ix) + 1"
    using step_tick [OF assms(1), of "AGet a"] assms(2) by (auto simp: unat_word_ariths)
  have "recent a sq 0 (lru_of ?ix)"
    unfolding g(2) using g(3) recent_start by (auto simp: lru_get_def split: option.splits)
  from inserts_recent [OF g(1) _ this assms(4)] t assms(2,5) g(4)
  have f: "index_inv (fold (\<lambda>(b, s). anchor_insert (fst b) (snd b) s) others ?ix)"
    "recent a sq (length others) (lru_of (fold (\<lambda>(b, s). anchor_insert (fst b) (snd b) s) others ?ix))"
    by (simp_all add: Let_def)
  from map_of_lru [OF f(1), of a] recent_get [OF f(2)] show ?thesis
    by (simp add: anchor_get_def touch_fst)
qed

definition demo_index :: anchor_index where
  "demo_index = \<lparr>ai_capacity = 2, ai_tick = 2, ai_entries = [((''s'', ''a''), (1, 1)), ((''s'', ''b''), (2, 2))],
      ai_order = [(1, (''s'', ''a'')), (2, (''s'', ''b''))]\<rparr>"

theorem anchor_kept_while_recent_witness:
  "fst (anchor_get ''s'' ''a'' (fold (\<lambda>(b, s). anchor_insert (fst b) (snd b) s) [((''s'', ''c''), 3)]
     (snd (anchor_get ''s'' ''a'' demo_index)))) = Some 1"
proof -
  have "index_inv (with_capacity 2)" by (simp add: index_inv_def with_capacity_def)
  moreover have "run_steps anchor_step [AInsert (''s'', ''a'') 1, AInsert (''s'', ''b'') 2] (with_capacity 2)
      = ([None, None], demo_index)"
    by (simp add: with_capacity_def anchor_insert_def evict.simps demo_index_def Let_def)
  ultimately have "index_inv demo_index"
    using run_refines [of "with_capacity 2" "[AInsert (''s'', ''a'') 1, AInsert (''s'', ''b'') 2]" "[None, None]" demo_index]
    by (simp add: with_capacity_def)
  from anchor_kept_while_recent [OF this, of "[((''s'', ''c''), 3)]" "(''s'', ''a'')" 1]
  show ?thesis by (simp add: anchor_get_def touch_fst demo_index_def)
qed

end
