(* ===== verification/Event_Reducer.thy ===== *)
theory Event_Reducer
  imports Transcript Anchor_Index
begin

text \<open>
  The canonical form of the event stream, \<^verbatim>\<open>src/src/persistence.rs\<close>, with the metadata it keeps of a
  generated image (\<^verbatim>\<open>src/src/managed_calls/media.rs\<close>): compaction of tool output, the merge of
  streamed text and of tool updates into one row each, and anchored rows. An envelope that returns
  with an earlier sequence number replaces the row of that number. A \<open>serde_json\<close> object keeps its
  insertion order and gives up a member by moving the last one into its place.
\<close>

section \<open>JSON objects in place\<close>

definition jindex :: "json \<Rightarrow> string \<Rightarrow> json" where
  "jindex v k = (case jget k v of None \<Rightarrow> JNull | Some w \<Rightarrow> w)"

definition swap_remove :: "string \<Rightarrow> (string \<times> json) list \<Rightarrow> (string \<times> json) list" where
  "swap_remove k kvs =
     (case position (\<lambda>p. fst p = k) kvs of
        None \<Rightarrow> kvs
      | Some i \<Rightarrow> if Suc i = length kvs then butlast kvs else (butlast kvs)[i := last kvs])"

fun jset :: "string \<Rightarrow> json \<Rightarrow> json \<Rightarrow> json" where
  "jset k w (JObj kvs) = JObj (AList.update k w kvs)"
| "jset k w v = v"

fun jmembers :: "json \<Rightarrow> (string \<times> json) list option" where
  "jmembers (JObj kvs) = Some kvs"
| "jmembers _ = None"

fun jint :: "json \<Rightarrow> int option" where
  "jint (JInt n) = (if i64_min \<le> n \<and> n \<le> i64_max then Some n else None)"
| "jint _ = None"

fun jis_string :: "json \<Rightarrow> bool" where
  "jis_string (JStr s) = True"
| "jis_string _ = False"

section \<open>Compaction of tool output\<close>

definition ARTIFACT_MARKER :: string where "ARTIFACT_MARKER = ''cowboyGeneratedImage''"
definition ARTIFACT_FAILURE :: string where "ARTIFACT_FAILURE = ''cowboyImageFailure''"

definition is_tool_kind :: "string option \<Rightarrow> bool" where
  "is_tool_kind kind \<longleftrightarrow> kind = Some ''tool_call'' \<or> kind = Some ''tool_call_update''"

definition is_settled :: "string option \<Rightarrow> bool" where
  "is_settled s \<longleftrightarrow> s = Some ''completed'' \<or> s = Some ''failed''"

definition generated_update :: "json \<Rightarrow> bool" where
  "generated_update update \<longleftrightarrow>
     is_tool_kind (jstr (jindex update ''sessionUpdate''))
   \<and> is_settled (jstr (jindex update ''status''))
   \<and> (jindex (jindex update ''rawOutput'') ARTIFACT_MARKER = JBool True
      \<or> jindex update ARTIFACT_MARKER = JBool True)"

definition quota_failure :: "json \<Rightarrow> json option" where
  "quota_failure update =
     (let failure = (case jget ARTIFACT_FAILURE update of
                       Some f \<Rightarrow> f | None \<Rightarrow> jindex (jindex update ''rawOutput'') ''failure'')
      in if \<not> generated_update update \<or> jindex failure ''type'' \<noteq> JStr ''usageLimitExceeded'' then None
         else (case jstr (jindex failure ''limitId'') of
                 None \<Rightarrow> None
               | Some i \<Rightarrow>
                   if length i \<le> 128
                   then Some (JObj [(''type'', JStr ''usageLimitExceeded''), (''limitId'', JStr i),
                      (''resetsAt'', case jint (jindex failure ''resetsAt'') of None \<Rightarrow> JNull | Some n \<Rightarrow> JInt n)])
                   else None))"

definition compact_metadata :: "json \<Rightarrow> json" where
  "compact_metadata update =
     (if \<not> generated_update update then update
      else (let failure = quota_failure update; update = jset ARTIFACT_MARKER (JBool True) update
            in case failure of None \<Rightarrow> update | Some f \<Rightarrow> jset ARTIFACT_FAILURE f update))"

definition has_content :: "(string \<times> json) list \<Rightarrow> bool" where
  "has_content kvs =
     (case map_of kvs ''content'' of
        None \<Rightarrow> False
      | Some JNull \<Rightarrow> False
      | Some (JArr blocks) \<Rightarrow> blocks \<noteq> []
      | Some _ \<Rightarrow> True)"

text \<open>\<open>raw.remove("formatted_output")\<close> hands out the text that the guard found to be a string.\<close>

definition raw_content :: "json \<Rightarrow> json" where
  "raw_content raw =
     (case jget ''formatted_output'' raw of
        Some (JStr t) \<Rightarrow> JArr [JObj [(''type'', JStr ''raw_output''), (''text'', JStr t)]]
      | _ \<Rightarrow> JArr [JObj [(''type'', JStr ''tool_result''), (''value'', raw)]])"

definition compact_members :: "(string \<times> json) list \<Rightarrow> (string \<times> json) list" where
  "compact_members kvs =
     (if \<not> is_tool_kind (Option.bind (map_of kvs ''sessionUpdate'') jstr) then kvs
      else (case map_of kvs ''rawOutput'' of
              None \<Rightarrow> kvs
            | Some raw \<Rightarrow>
                (let kvs = swap_remove ''rawOutput'' kvs
                 in if has_content kvs then kvs
                    else AList.update ''content'' (raw_content raw) kvs)))"

definition compact_tool_update :: "json \<Rightarrow> json" where
  "compact_tool_update update =
     (case compact_metadata update of JObj kvs \<Rightarrow> JObj (compact_members kvs) | v \<Rightarrow> v)"

definition compact_inbound_event :: "event \<Rightarrow> event" where
  "compact_inbound_event ev =
     (case ev of
        Update update \<Rightarrow> Update (compact_tool_update update)
      | PermissionRequest i tool options \<Rightarrow> PermissionRequest i (compact_tool_update tool) options
      | _ \<Rightarrow> ev)"

definition compact_canonical_tool_output :: "envelope \<Rightarrow> envelope" where
  "compact_canonical_tool_output e = e\<lparr>e_event := compact_inbound_event (e_event e)\<rparr>"

definition is_pure_terminal_output_delta :: "json \<Rightarrow> bool" where
  "is_pure_terminal_output_delta update =
     (case jmembers update of
        None \<Rightarrow> False
      | Some kvs \<Rightarrow>
          list_all (\<lambda>p. fst p \<in> {''sessionUpdate'', ''toolCallId'', ''_meta''}) kvs
        \<and> jis_string (jindex (jindex (jindex update ''_meta'') ''terminal_output_delta'') ''data'')
        \<and> (case Option.bind (jget ''_meta'' update) jmembers of
             None \<Rightarrow> False
           | Some meta \<Rightarrow> list_all (\<lambda>p. fst p = ''terminal_output_delta'') meta))"

definition envelope_tool_is_terminal :: "envelope \<Rightarrow> bool" where
  "envelope_tool_is_terminal e =
     (case e_event e of Update update \<Rightarrow> is_settled (jget_str ''status'' update) | _ \<Rightarrow> False)"

section \<open>The reducer\<close>

record text_slot =
  ts_kind :: string
  ts_message_id :: "string option"
  ts_envelope :: envelope

text \<open>
  \<open>rd_text\<close> and \<open>rd_tools\<close> are hash maps that are only looked up and thinned. Releasing the spare
  capacity of the tool table changes no entry and has no counterpart here.
\<close>

record reducer =
  rd_text :: "string \<rightharpoonup> text_slot"
  rd_tools :: "string \<times> string \<rightharpoonup> envelope"
  rd_anchors :: anchor_index

definition new_reducer :: "nat \<Rightarrow> reducer" where
  "new_reducer capacity = \<lparr>rd_text = Map.empty, rd_tools = Map.empty, rd_anchors = with_capacity capacity\<rparr>"

definition forget_tools :: "string \<Rightarrow> reducer \<Rightarrow> reducer" where
  "forget_tools sid rd = rd\<lparr>rd_tools := (\<lambda>k. if fst k = sid then None else rd_tools rd k)\<rparr>"

definition clear_session :: "string \<Rightarrow> reducer \<Rightarrow> reducer" where
  "clear_session sid rd =
     forget_tools sid (rd\<lparr>rd_text := (rd_text rd)(sid := None), rd_anchors := remove_session sid (rd_anchors rd)\<rparr>)"

definition adopt_anchor :: "string \<Rightarrow> string \<Rightarrow> nat \<Rightarrow> reducer \<Rightarrow> reducer" where
  "adopt_anchor sid key sq rd = rd\<lparr>rd_anchors := anchor_insert sid key sq (rd_anchors rd)\<rparr>"

definition forget_anchor :: "string \<Rightarrow> string \<Rightarrow> reducer \<Rightarrow> reducer" where
  "forget_anchor sid key rd = rd\<lparr>rd_anchors := anchor_remove sid key (rd_anchors rd)\<rparr>"

definition reduce_anchor :: "envelope \<Rightarrow> string \<Rightarrow> reducer \<Rightarrow> envelope \<times> reducer" where
  "reduce_anchor e key rd =
     (case anchor_get (e_session e) key (rd_anchors rd) of
        (Some sq, ix) \<Rightarrow> (e\<lparr>e_seq := sq\<rparr>, rd\<lparr>rd_anchors := ix\<rparr>)
      | (None, ix) \<Rightarrow> (e, rd\<lparr>rd_anchors := anchor_insert (e_session e) key (e_seq e) ix\<rparr>))"

text \<open>The three streamed kinds and the member that identifies their message.\<close>

definition is_text_kind :: "string option \<Rightarrow> bool" where
  "is_text_kind kind \<longleftrightarrow>
     kind = Some ''agent_message_chunk'' \<or> kind = Some ''agent_thought_chunk''
   \<or> kind = Some ''compaction_summary_chunk''"

definition message_id :: "string option \<Rightarrow> json \<Rightarrow> string option" where
  "message_id kind update =
     jget_str (if kind = Some ''compaction_summary_chunk'' then ''compactionId'' else ''messageId'') update"

definition chunk_text :: "json \<Rightarrow> string option" where
  "chunk_text update = Option.bind (Option.bind (jget ''content'' update) (jget ''text'')) jstr"

text \<open>Append a chunk to the row a slot holds; \<open>None\<close> where the row has no text member.\<close>

definition append_text :: "string \<Rightarrow> envelope \<Rightarrow> envelope option" where
  "append_text chunk e =
     (case e_event e of
        Update update \<Rightarrow>
          (case jget ''content'' update of
             None \<Rightarrow> None
           | Some content \<Rightarrow>
               (case jget ''text'' content of
                  None \<Rightarrow> None
                | Some v \<Rightarrow>
                    (let joined = (case jstr v of None \<Rightarrow> [] | Some t \<Rightarrow> t) @ chunk
                     in Some (e\<lparr>e_event := Update (jset ''content'' (jset ''text'' (JStr joined) content) update)\<rparr>))))
      | _ \<Rightarrow> None)"

definition reduce_text :: "envelope \<Rightarrow> string \<Rightarrow> string option \<Rightarrow> string \<Rightarrow> reducer \<Rightarrow> envelope \<times> reducer" where
  "reduce_text e kind mid chunk rd =
     (let fresh = (e, rd\<lparr>rd_text := (rd_text rd)(e_session e \<mapsto>
                          \<lparr>ts_kind = kind, ts_message_id = mid, ts_envelope = e\<rparr>)\<rparr>)
      in case rd_text rd (e_session e) of
           None \<Rightarrow> fresh
         | Some slot \<Rightarrow>
             (if ts_kind slot = kind \<and> ts_message_id slot = mid then
                (case append_text chunk (ts_envelope slot) of
                   None \<Rightarrow> fresh
                 | Some joined \<Rightarrow>
                     (joined, rd\<lparr>rd_text := (rd_text rd)(e_session e \<mapsto> slot\<lparr>ts_envelope := joined\<rparr>)\<rparr>))
              else fresh))"

definition merge_members :: "(string \<times> json) list \<Rightarrow> (string \<times> json) list \<Rightarrow> (string \<times> json) list" where
  "merge_members delta base =
     AList.update ''sessionUpdate'' (JStr ''tool_call'')
       (fold (\<lambda>(k, v) m. if k \<noteq> ''sessionUpdate'' \<and> k \<noteq> ''rawOutput'' then AList.update k v m else m) delta base)"

text \<open>Merge an update into the row of its tool call; \<open>None\<close> where one of them is not an object.\<close>

definition merge_tool :: "envelope \<Rightarrow> envelope \<Rightarrow> envelope option" where
  "merge_tool base e =
     (case (e_event base, e_event e) of
        (Update (JObj b), Update (JObj d)) \<Rightarrow>
          Some (compact_canonical_tool_output (base\<lparr>e_event := Update (JObj (merge_members d b))\<rparr>))
      | _ \<Rightarrow> None)"

definition reduce_tool :: "envelope \<Rightarrow> string option \<Rightarrow> string \<Rightarrow> reducer \<Rightarrow> envelope \<times> reducer" where
  "reduce_tool e kind tool rd =
     (let key = (e_session e, tool); own = compact_canonical_tool_output e
      in if tool = [] then (own, rd)
         else if kind = Some ''tool_call_update'' then
           (case Option.bind (rd_tools rd key) (\<lambda>base. merge_tool base e) of
              None \<Rightarrow> (own, rd)
            | Some row \<Rightarrow>
                (row, rd\<lparr>rd_tools := (rd_tools rd)(key := if envelope_tool_is_terminal row then None else Some row)\<rparr>))
         else (own, if envelope_tool_is_terminal own then rd
                    else rd\<lparr>rd_tools := (rd_tools rd)(key \<mapsto> own)\<rparr>))"

definition reduce :: "envelope \<Rightarrow> reducer \<Rightarrow> envelope option \<times> reducer" where
  "reduce env rd =
     (let e = env\<lparr>e_event := compact_inbound_event (e_event env)\<rparr>;
          sid = e_session e;
          no_text = rd\<lparr>rd_text := (rd_text rd)(sid := None)\<rparr>
      in case e_event e of
           Update update \<Rightarrow>
             (let kind = jget_str ''sessionUpdate'' update
              in if kind = Some ''usage_update'' \<or> kind = Some ''session_info_update'' then (None, rd)
                 else case anchor_key update of
                   Some key \<Rightarrow> map_prod Some id (reduce_anchor e key rd)
                 | None \<Rightarrow>
                     if kind = Some ''tool_call_update'' \<and> is_pure_terminal_output_delta update then (None, rd)
                     else if is_text_kind kind \<and> chunk_text update \<noteq> None then
                       map_prod Some id (reduce_text e (the kind) (message_id kind update) (the (chunk_text update)) rd)
                     else if is_tool_kind kind then
                       map_prod Some id (reduce_tool e kind
                         (case jget_str ''toolCallId'' update of None \<Rightarrow> [] | Some t \<Rightarrow> t) no_text)
                     else (Some e, no_text))
         | TurnEnd _ _ \<Rightarrow> (Some e, forget_tools sid no_text)
         | Lifecycle _ _ \<Rightarrow> (Some e, forget_tools sid no_text)
         | _ \<Rightarrow> (Some e, no_text))"

section \<open>Restored logs and persisted payloads\<close>

definition bound_restored_hot_log :: "(envelope \<Rightarrow> nat) \<Rightarrow> envelope list \<Rightarrow> bool \<times> envelope list" where
  "bound_restored_hot_log size_of log =
     (let log = map compact_canonical_tool_output log;
          log_bytes = fold (\<lambda>e size. usize_add size (size_of e)) log 0;
          (trimmed, log, _) = trim_hot_log size_of log log_bytes False HOT_TAIL_MAX_BYTES
      in (trimmed, log))"

definition PERSISTED_CMID_KEY :: string where "PERSISTED_CMID_KEY = ''cmid''"
definition PERSISTED_CMID_MAX_BYTES :: nat where "PERSISTED_CMID_MAX_BYTES = 128"

definition cmid_persists :: "string \<Rightarrow> bool" where
  "cmid_persists c \<longleftrightarrow> c \<noteq> [] \<and> length c \<le> PERSISTED_CMID_MAX_BYTES"

text \<open>The event's own serialized form is the parameter \<open>payload_of\<close>, an object.\<close>

definition persisted_event_payload :: "(event \<Rightarrow> json option) \<Rightarrow> envelope \<Rightarrow> json option" where
  "persisted_event_payload payload_of e =
     (case payload_of (e_event e) of
        None \<Rightarrow> None
      | Some payload \<Rightarrow>
          (case e_cmid e of
             None \<Rightarrow> Some payload
           | Some c \<Rightarrow> Some (if cmid_persists c then jset PERSISTED_CMID_KEY (JStr c) payload else payload)))"

definition take_persisted_cmid :: "json \<Rightarrow> string option \<times> json" where
  "take_persisted_cmid payload =
     (case payload of
        JObj kvs \<Rightarrow>
          (case map_of kvs PERSISTED_CMID_KEY of
             None \<Rightarrow> (None, payload)
           | Some v \<Rightarrow>
               (case v of JStr c \<Rightarrow> if cmid_persists c then Some c else None | _ \<Rightarrow> None,
                JObj (swap_remove PERSISTED_CMID_KEY kvs)))
      | _ \<Rightarrow> (None, payload))"


section \<open>Objects\<close>

lemma swap_remove_perm:
  assumes "distinct (map fst kvs)"
  shows "set (swap_remove k kvs) = {p \<in> set kvs. fst p \<noteq> k} \<and> distinct (map fst (swap_remove k kvs))"
proof (cases "position (\<lambda>p. fst p = k) kvs")
  case None
  then have "swap_remove k kvs = kvs" by (simp add: swap_remove_def)
  moreover have "\<forall>p \<in> set kvs. fst p \<noteq> k" using None by (simp add: position_None_iff)
  ultimately show ?thesis using assms by auto
next
  case (Some i)
  have i: "i < length kvs" "fst (kvs ! i) = k" using position_SomeD [OF Some] by simp_all
  define l where "l = butlast kvs"
  have "kvs \<noteq> []" using i(1) by auto
  then have kvs: "kvs = l @ [last kvs]" by (simp add: l_def)
  show ?thesis
  proof (cases "Suc i = length kvs")
    case True
    then have "fst (last kvs) = k" using i by (metis diff_Suc_1 last_conv_nth length_0_conv nat.simps(3))
    moreover have "swap_remove k kvs = l" using Some True by (simp add: swap_remove_def l_def)
    moreover have "distinct (map fst (l @ [last kvs]))" using assms kvs by metis
    moreover have "set kvs = insert (last kvs) (set l)" by (subst kvs) auto
    ultimately show ?thesis by (auto simp: image_iff)
  next
    case False
    then have il: "i < length l" using i(1) by (simp add: l_def)
    define a b where "a = take i l" and "b = drop (Suc i) l"
    have l: "l = a @ kvs ! i # b"
      using il by (metis a_def b_def id_take_nth_drop l_def nth_butlast)
    have sw: "swap_remove k kvs = a @ last kvs # b"
      using Some False il by (simp add: swap_remove_def l_def [symmetric] upd_conv_take_nth_drop a_def b_def)
    have all: "kvs = a @ kvs ! i # b @ [last kvs]" using kvs l by (metis append.assoc append_Cons)
    then have d: "distinct (map fst (a @ kvs ! i # b @ [last kvs]))" using assms by metis
    have "set kvs = set (a @ kvs ! i # b @ [last kvs])" by (rule arg_cong [OF all])
    moreover have "fst p \<noteq> k" if "p \<in> set (a @ last kvs # b)" for p
      using that d unfolding i(2) [symmetric] by (auto simp del: i(2)) (metis image_eqI)+
    moreover have "distinct (map fst (a @ last kvs # b))" using d by auto
    ultimately show ?thesis unfolding sw using i(2) by auto
  qed
qed

lemma map_of_swap_remove:
  assumes "distinct (map fst kvs)"
  shows "map_of (swap_remove k kvs) = (map_of kvs)(k := None)"
proof
  fix x
  have "map_of (swap_remove k kvs) x = Some v \<longleftrightarrow> ((map_of kvs)(k := None)) x = Some v" for v
    using swap_remove_perm [OF assms, of k] assms by (auto simp: map_of_eq_Some_iff)
  then show "map_of (swap_remove k kvs) x = ((map_of kvs)(k := None)) x" by (metis not_Some_eq)
qed

lemma jget_jset: "jget x (jset k w v) = (case v of JObj _ \<Rightarrow> if x = k then Some w else jget x v | _ \<Rightarrow> None)"
  by (cases v) (auto simp: AList.update_conv')

lemma swap_remove_last: "k \<notin> fst ` set kvs \<Longrightarrow> swap_remove k (kvs @ [(k, w)]) = kvs"
proof -
  assume "k \<notin> fst ` set kvs"
  then have "position (\<lambda>p. fst p = k) (kvs @ [(k, w)]) = Some (length kvs)"
    by (induction kvs) auto
  then show ?thesis by (simp add: swap_remove_def)
qed

text \<open>The client message id stored beside an event's payload comes back unchanged, and taking it
  out leaves the payload as the event serialized it.\<close>

theorem persisted_cmid_roundtrip:
  assumes "payload_of (e_event e) = Some (JObj kvs)" and "PERSISTED_CMID_KEY \<notin> fst ` set kvs"
    and "persisted_event_payload payload_of e = Some stored"
  shows "take_persisted_cmid stored
     = (case e_cmid e of None \<Rightarrow> None | Some c \<Rightarrow> if cmid_persists c then Some c else None, JObj kvs)"
proof -
  have n: "map_of kvs PERSISTED_CMID_KEY = None" using assms(2) by (simp add: map_of_eq_None_iff)
  have u: "AList.update PERSISTED_CMID_KEY (JStr c) kvs = kvs @ [(PERSISTED_CMID_KEY, JStr c)]" for c
    using assms(2) by (induction kvs) auto
  show ?thesis
    using assms n
    by (auto simp: persisted_event_payload_def take_persisted_cmid_def u swap_remove_last map_add_def
        split: option.splits)
qed

theorem persisted_cmid_roundtrip_witness:
  "take_persisted_cmid (JObj [(''kind'', JStr ''turn_end''), (''cmid'', JStr ''c1'')])
   = (Some ''c1'', JObj [(''kind'', JStr ''turn_end'')])"
  using persisted_cmid_roundtrip [of "\<lambda>_. Some (JObj [(''kind'', JStr ''turn_end'')])"
      "\<lparr>e_session = ''s'', e_seq = 1, e_event = TurnEnd ''x'' None, e_cmid = Some ''c1''\<rparr>"
      "[(''kind'', JStr ''turn_end'')]"]
  by (simp add: persisted_event_payload_def PERSISTED_CMID_KEY_def cmid_persists_def PERSISTED_CMID_MAX_BYTES_def)


section \<open>What compaction keeps\<close>

lemma jindex_JObj [simp]: "jindex (JObj kvs) k = (case map_of kvs k of None \<Rightarrow> JNull | Some w \<Rightarrow> w)"
  by (simp add: jindex_def)

lemma jindex_JNull [simp]: "jindex JNull k = JNull"
  by (simp add: jindex_def)

lemma compact_metadata_JObj:
  obtains kvs' where "compact_metadata (JObj kvs) = JObj kvs'"
    and "distinct (map fst kvs) \<Longrightarrow> distinct (map fst kvs')"
    and "\<And>k. k \<noteq> ARTIFACT_MARKER \<Longrightarrow> k \<noteq> ARTIFACT_FAILURE \<Longrightarrow> map_of kvs' k = map_of kvs k"
    and "map_of kvs' ARTIFACT_MARKER = (if generated_update (JObj kvs) then Some (JBool True) else map_of kvs ARTIFACT_MARKER)"
    and "map_of kvs' ARTIFACT_FAILURE = (case quota_failure (JObj kvs) of None \<Rightarrow> map_of kvs ARTIFACT_FAILURE | f \<Rightarrow> f)"
proof -
  have q: "quota_failure (JObj kvs) = None" if "\<not> generated_update (JObj kvs)"
    using that by (simp add: quota_failure_def)
  have ne: "ARTIFACT_MARKER \<noteq> ARTIFACT_FAILURE" by (simp add: ARTIFACT_MARKER_def ARTIFACT_FAILURE_def)
  define kvs1 where "kvs1 = AList.update ARTIFACT_MARKER (JBool True) kvs"
  define kvs' where "kvs' = (if generated_update (JObj kvs)
     then (case quota_failure (JObj kvs) of None \<Rightarrow> kvs1 | Some f \<Rightarrow> AList.update ARTIFACT_FAILURE f kvs1) else kvs)"
  have "compact_metadata (JObj kvs) = JObj kvs'"
    by (simp add: compact_metadata_def kvs'_def kvs1_def Let_def split: option.split)
  moreover have "distinct (map fst kvs) \<Longrightarrow> distinct (map fst kvs')"
    by (simp add: kvs'_def kvs1_def AList.distinct_update split: option.split)
  moreover have "map_of kvs' k = map_of kvs k" if "k \<noteq> ARTIFACT_MARKER" "k \<noteq> ARTIFACT_FAILURE" for k
    using that by (simp add: kvs'_def kvs1_def AList.update_conv' split: option.split)
  moreover have "map_of kvs' ARTIFACT_MARKER = (if generated_update (JObj kvs) then Some (JBool True) else map_of kvs ARTIFACT_MARKER)"
    using ne by (simp add: kvs'_def kvs1_def AList.update_conv' split: option.split)
  moreover have "map_of kvs' ARTIFACT_FAILURE = (case quota_failure (JObj kvs) of None \<Rightarrow> map_of kvs ARTIFACT_FAILURE | f \<Rightarrow> f)"
    using ne q by (simp add: kvs'_def kvs1_def AList.update_conv' split: option.split)
  ultimately show thesis by (rule that)
qed

lemma keys_ne:
  "ARTIFACT_MARKER \<noteq> ''rawOutput''" "ARTIFACT_MARKER \<noteq> ''content''" "ARTIFACT_MARKER \<noteq> ''sessionUpdate''"
  "ARTIFACT_MARKER \<noteq> ''status''"
  "ARTIFACT_FAILURE \<noteq> ''rawOutput''" "ARTIFACT_FAILURE \<noteq> ''content''" "ARTIFACT_FAILURE \<noteq> ''sessionUpdate''"
  "ARTIFACT_FAILURE \<noteq> ''status''"
  by (simp_all add: ARTIFACT_MARKER_def ARTIFACT_FAILURE_def)

lemma compact_members_spec:
  assumes "distinct (map fst kvs)"
  shows "distinct (map fst (compact_members kvs))"
    and "is_tool_kind (Option.bind (map_of kvs ''sessionUpdate'') jstr) \<Longrightarrow> map_of (compact_members kvs) ''rawOutput'' = None"
    and "is_tool_kind (Option.bind (map_of kvs ''sessionUpdate'') jstr) \<Longrightarrow> map_of (compact_members kvs) ''content''
        = (if has_content kvs then map_of kvs ''content''
           else case map_of kvs ''rawOutput'' of None \<Rightarrow> map_of kvs ''content'' | Some raw \<Rightarrow> Some (raw_content raw))"
    and "k \<noteq> ''rawOutput'' \<Longrightarrow> k \<noteq> ''content'' \<Longrightarrow> map_of (compact_members kvs) k = map_of kvs k"
proof -
  note sw = map_of_swap_remove [OF assms, of "''rawOutput''"]
  have hc: "has_content (swap_remove ''rawOutput'' kvs) = has_content kvs"
    by (simp add: has_content_def sw)
  show "distinct (map fst (compact_members kvs))"
    using assms swap_remove_perm [OF assms, of "''rawOutput''"]
    by (simp add: compact_members_def Let_def AList.distinct_update split: option.split)
  show "is_tool_kind (Option.bind (map_of kvs ''sessionUpdate'') jstr) \<Longrightarrow> map_of (compact_members kvs) ''rawOutput'' = None"
    by (simp add: compact_members_def Let_def AList.update_conv' sw split: option.split)
  show "is_tool_kind (Option.bind (map_of kvs ''sessionUpdate'') jstr) \<Longrightarrow> map_of (compact_members kvs) ''content''
        = (if has_content kvs then map_of kvs ''content''
           else case map_of kvs ''rawOutput'' of None \<Rightarrow> map_of kvs ''content'' | Some raw \<Rightarrow> Some (raw_content raw))"
    by (simp add: compact_members_def Let_def AList.update_conv' sw hc split: option.split)
  show "k \<noteq> ''rawOutput'' \<Longrightarrow> k \<noteq> ''content'' \<Longrightarrow> map_of (compact_members kvs) k = map_of kvs k"
    by (simp add: compact_members_def Let_def AList.update_conv' sw split: option.split)
qed

lemma update_same: "map_of m k = Some v \<Longrightarrow> AList.update k v m = m"
  by (induction m) auto

lemma compact_members_id: "map_of kvs ''rawOutput'' = None \<Longrightarrow> compact_members kvs = kvs"
  by (simp add: compact_members_def)

text \<open>A second pass over a compacted object changes nothing.\<close>

lemma quota_again:
  assumes q: "quota_failure (JObj kvs) = Some f" and f: "map_of kvs' ARTIFACT_FAILURE = Some f"
    and g: "generated_update (JObj kvs')"
  shows "quota_failure (JObj kvs') = Some f"
proof -
  define F where "F = (case jget ARTIFACT_FAILURE (JObj kvs) of
     Some f \<Rightarrow> f | None \<Rightarrow> jindex (jindex (JObj kvs) ''rawOutput'') ''failure'')"
  obtain i src where f': "f = JObj [(''type'', JStr ''usageLimitExceeded''), (''limitId'', JStr i),
      (''resetsAt'', case jint src of None \<Rightarrow> JNull | Some n \<Rightarrow> JInt n)]" and i: "length i \<le> 128"
  proof (cases "jstr (jindex F ''limitId'')")
    case None
    then show ?thesis using q unfolding quota_failure_def Let_def F_def [symmetric] by (simp split: if_split_asm)
  next
    case (Some i)
    then have "f = JObj [(''type'', JStr ''usageLimitExceeded''), (''limitId'', JStr i),
      (''resetsAt'', case jint (jindex F ''resetsAt'') of None \<Rightarrow> JNull | Some n \<Rightarrow> JInt n)]" "length i \<le> 128"
      using q unfolding quota_failure_def Let_def F_def [symmetric] by (simp_all split: if_split_asm)
    then show ?thesis by (rule that)
  qed
  have "(case jint (case jint src of None \<Rightarrow> JNull | Some n \<Rightarrow> JInt n) of None \<Rightarrow> JNull | Some n \<Rightarrow> JInt n)
      = (case jint src of None \<Rightarrow> JNull | Some n \<Rightarrow> JInt n)"
    by (cases src) (auto split: option.splits)
  then show ?thesis using f g i by (simp add: quota_failure_def Let_def f')
qed

text \<open>Compacting a tool update drops its raw output and keeps everything else: content that was
  there stays, a result that was only raw moves into the content, no other member but the image
  markers changes, and a second pass changes nothing.\<close>

theorem tool_compaction_keeps_result:
  assumes "distinct (map fst kvs)" and "is_tool_kind (jget_str ''sessionUpdate'' (JObj kvs))"
  shows "\<exists>out. compact_tool_update (JObj kvs) = JObj out \<and> map_of out ''rawOutput'' = None
    \<and> map_of out ''content'' = (if has_content kvs then map_of kvs ''content''
         else case map_of kvs ''rawOutput'' of None \<Rightarrow> map_of kvs ''content'' | Some raw \<Rightarrow> Some (raw_content raw))
    \<and> (\<forall>k. k \<notin> {''rawOutput'', ''content'', ARTIFACT_MARKER, ARTIFACT_FAILURE} \<longrightarrow> map_of out k = map_of kvs k)
    \<and> compact_tool_update (JObj out) = JObj out"
proof -
  obtain mid where mid: "compact_metadata (JObj kvs) = JObj mid" and dmid: "distinct (map fst mid)"
    and same: "\<And>k. k \<noteq> ARTIFACT_MARKER \<Longrightarrow> k \<noteq> ARTIFACT_FAILURE \<Longrightarrow> map_of mid k = map_of kvs k"
    and marker: "map_of mid ARTIFACT_MARKER = (if generated_update (JObj kvs) then Some (JBool True) else map_of kvs ARTIFACT_MARKER)"
    and failure: "map_of mid ARTIFACT_FAILURE = (case quota_failure (JObj kvs) of None \<Rightarrow> map_of kvs ARTIFACT_FAILURE | f \<Rightarrow> f)"
    by (rule compact_metadata_JObj [of kvs]) (use assms(1) in blast)
  define out where "out = compact_members mid"
  have kind: "is_tool_kind (Option.bind (map_of mid ''sessionUpdate'') jstr)"
    using assms(2) same [of "''sessionUpdate''"] keys_ne by (simp add: jget_str_def)
  have hc: "has_content mid = has_content kvs" using same keys_ne by (simp add: has_content_def)
  note o = compact_members_spec [OF dmid, folded out_def]
  have no_raw: "map_of out ''rawOutput'' = None" by (rule o(2) [OF kind])
  have marks: "map_of out k = map_of mid k" if "k \<in> {ARTIFACT_MARKER, ARTIFACT_FAILURE, ''sessionUpdate'', ''status''}" for k
    using that keys_ne by (intro o(4)) auto
  have gen: "generated_update (JObj out) \<Longrightarrow> generated_update (JObj kvs) \<or> map_of kvs ARTIFACT_MARKER = Some (JBool True)"
    using marks marker no_raw keys_ne by (auto simp: generated_update_def split: if_splits option.splits)
  have again: "compact_metadata (JObj out) = JObj out"
  proof (cases "generated_update (JObj out)")
    case False
    then show ?thesis by (simp add: compact_metadata_def)
  next
    case True
    then have m: "map_of out ARTIFACT_MARKER = Some (JBool True)"
      using no_raw by (auto simp: generated_update_def split: option.splits)
    have gk: "generated_update (JObj kvs)"
    proof -
      have "map_of out ''status'' = map_of kvs ''status''" using marks same keys_ne by simp
      then have "is_settled (jstr (jindex (JObj kvs) ''status''))" using True by (simp add: generated_update_def)
      then show ?thesis using gen [OF True] assms(2)
        by (auto simp: generated_update_def jget_str_def split: option.splits)
    qed
    have "\<forall>f. quota_failure (JObj out) = Some f \<longrightarrow> map_of out ARTIFACT_FAILURE = Some f"
    proof (cases "quota_failure (JObj kvs)")
      case (Some f)
      then have mf: "map_of out ARTIFACT_FAILURE = Some f" using failure marks by simp
      from quota_again [OF Some mf True] mf show ?thesis by simp
    next
      case None
      then have eq: "map_of out ARTIFACT_FAILURE = map_of kvs ARTIFACT_FAILURE" using failure marks by simp
      have "quota_failure (JObj out) = None"
      proof (cases "map_of kvs ARTIFACT_FAILURE")
        case Some
        then show ?thesis using None eq True gk by (simp add: quota_failure_def Let_def)
      next
        case None
        then show ?thesis using eq no_raw by (simp add: quota_failure_def Let_def)
      qed
      then show ?thesis by simp
    qed
    then show ?thesis using True m
      by (auto simp: compact_metadata_def Let_def update_same split: option.split)
  qed
  have "compact_tool_update (JObj out) = JObj out"
    by (simp add: compact_tool_update_def again compact_members_id no_raw)
  moreover have "compact_tool_update (JObj kvs) = JObj out"
    by (simp add: compact_tool_update_def mid out_def)
  moreover have "map_of mid ''content'' = map_of kvs ''content''" "map_of mid ''rawOutput'' = map_of kvs ''rawOutput''"
    using same keys_ne by metis+
  then have "map_of out ''content'' = (if has_content kvs then map_of kvs ''content''
         else case map_of kvs ''rawOutput'' of None \<Rightarrow> map_of kvs ''content'' | Some raw \<Rightarrow> Some (raw_content raw))"
    using o(3) [OF kind] hc by (simp split: option.split)
  moreover have "map_of out k = map_of kvs k" if "k \<notin> {''rawOutput'', ''content'', ARTIFACT_MARKER, ARTIFACT_FAILURE}" for k
    using that o(4) same by simp
  ultimately show ?thesis using no_raw by blast
qed

theorem tool_compaction_keeps_result_witness:
  "\<exists>out. compact_tool_update (JObj [(''sessionUpdate'', JStr ''tool_call''), (''rawOutput'', JStr ''r''), (''title'', JStr ''t'')]) = JObj out
    \<and> map_of out ''content'' = Some (raw_content (JStr ''r''))"
  using tool_compaction_keeps_result [of "[(''sessionUpdate'', JStr ''tool_call''), (''rawOutput'', JStr ''r''), (''title'', JStr ''t'')]"]
  by (auto simp: jget_str_def is_tool_kind_def has_content_def)


section \<open>Rows and sequence numbers\<close>

definition anchors_seen :: "(string \<Rightarrow> nat set) \<Rightarrow> anchor_index \<Rightarrow> bool" where
  "anchors_seen seen ix \<longleftrightarrow> (\<forall>s k q t. map_of (ai_entries ix) (s, k) = Some (q, t) \<longrightarrow> q \<in> seen s)"

definition rows_seen :: "(string \<Rightarrow> nat set) \<Rightarrow> reducer \<Rightarrow> bool" where
  "rows_seen seen rd \<longleftrightarrow>
     (\<forall>s slot. rd_text rd s = Some slot \<longrightarrow> e_session (ts_envelope slot) = s \<and> e_seq (ts_envelope slot) \<in> seen s)
   \<and> (\<forall>s t e. rd_tools rd (s, t) = Some e \<longrightarrow> e_session e = s \<and> e_seq e \<in> seen s)
   \<and> anchors_seen seen (rd_anchors rd)"

definition row_seen :: "(string \<Rightarrow> nat set) \<Rightarrow> string \<Rightarrow> envelope \<Rightarrow> bool" where
  "row_seen seen s e \<longleftrightarrow> e_session e = s \<and> e_seq e \<in> seen s"

lemma anchors_seen_evict: "anchors_seen seen ix \<Longrightarrow> anchors_seen seen (evict ix)"
proof (induction ix rule: evict.induct)
  case (1 ix)
  show ?case
  proof (cases "ai_capacity ix \<le> length (ai_entries ix) \<and> ai_order ix \<noteq> []")
    case True
    then obtain t a order where o: "ai_order ix = (t, a) # order" by (cases "ai_order ix") auto
    let ?ix = "ix\<lparr>ai_order := order, ai_entries := adelete a (ai_entries ix)\<rparr>"
    have "anchors_seen seen ?ix" using 1 by (auto simp: anchors_seen_def)
    moreover have "evict ix = evict ?ix" using True o by (simp add: evict.simps [of ix])
    ultimately show ?thesis using 1 True o by simp
  next
    case False
    then have "evict ix = ix" by (auto simp: evict.simps [of ix] split: list.split)
    then show ?thesis using 1 by simp
  qed
qed

lemma anchors_seen_get:
  assumes "anchors_seen seen ix" and "anchor_get s k ix = (r, ix')"
  shows "anchors_seen seen ix' \<and> (\<forall>q. r = Some q \<longrightarrow> q \<in> seen s)"
  using assms by (auto simp: anchors_seen_def anchor_get_def touch_def Let_def AList.update_conv'
      split: option.splits if_splits) blast+

lemma anchors_seen_insert:
  assumes "anchors_seen seen ix" and "q \<in> seen s"
  shows "anchors_seen seen (anchor_insert s k q ix)"
  using assms anchors_seen_evict [OF assms(1)]
  by (auto simp: anchors_seen_def anchor_insert_def touch_def Let_def AList.update_conv' split: option.splits if_splits)

lemma rows_seen_anchor:
  assumes "rows_seen seen rd" and "row_seen seen s e" and "reduce_anchor e key rd = (row, rd')"
  shows "row_seen seen s row \<and> rows_seen seen rd'"
proof -
  obtain r ix where g: "anchor_get (e_session e) key (rd_anchors rd) = (r, ix)" by force
  have a: "anchors_seen seen ix \<and> (\<forall>q. r = Some q \<longrightarrow> q \<in> seen s)"
    using anchors_seen_get [OF _ g] assms(1,2) by (simp add: rows_seen_def row_seen_def)
  show ?thesis
  proof (cases r)
    case None
    then show ?thesis using assms a g anchors_seen_insert [of seen ix "e_seq e" s key]
      by (auto simp: reduce_anchor_def rows_seen_def row_seen_def)
  next
    case (Some q)
    then show ?thesis using assms a g by (auto simp: reduce_anchor_def rows_seen_def row_seen_def)
  qed
qed

lemma append_text_frame: "append_text c e = Some e' \<Longrightarrow> e_session e' = e_session e \<and> e_seq e' = e_seq e"
  by (auto simp: append_text_def Let_def split: event.splits option.splits)

lemma rows_seen_text_update:
  assumes "rows_seen seen rd" and "\<And>slot. v = Some slot \<Longrightarrow> row_seen seen s (ts_envelope slot)"
  shows "rows_seen seen (rd\<lparr>rd_text := (rd_text rd)(s := v)\<rparr>)"
  using assms by (auto simp: rows_seen_def row_seen_def)

lemma rows_seen_tool_update:
  assumes "rows_seen seen rd" and "\<And>e. v = Some e \<Longrightarrow> row_seen seen s e"
  shows "rows_seen seen (rd\<lparr>rd_tools := (rd_tools rd)((s, t) := v)\<rparr>)"
  using assms by (auto simp: rows_seen_def row_seen_def)

lemma rows_seen_forget: "rows_seen seen rd \<Longrightarrow> rows_seen seen (forget_tools s rd)"
  by (auto simp: rows_seen_def forget_tools_def)

lemma rows_seen_text:
  assumes "rows_seen seen rd" and "row_seen seen s e" and "reduce_text e kind mid chunk rd = (row, rd')"
  shows "row_seen seen s row \<and> rows_seen seen rd'"
proof -
  have s: "e_session e = s" using assms(2) by (simp add: row_seen_def)
  have fresh: "rows_seen seen (rd\<lparr>rd_text := (rd_text rd)(s \<mapsto> \<lparr>ts_kind = kind, ts_message_id = mid, ts_envelope = e\<rparr>)\<rparr>)"
    by (rule rows_seen_text_update [OF assms(1)]) (use assms(2) in simp)
  show ?thesis
  proof (cases "\<exists>slot joined. rd_text rd s = Some slot \<and> ts_kind slot = kind \<and> ts_message_id slot = mid
      \<and> append_text chunk (ts_envelope slot) = Some joined")
    case True
    then obtain slot joined where slot: "rd_text rd s = Some slot" "ts_kind slot = kind" "ts_message_id slot = mid"
      and j: "append_text chunk (ts_envelope slot) = Some joined" by blast
    have r: "row = joined" "rd' = rd\<lparr>rd_text := (rd_text rd)(s \<mapsto> slot\<lparr>ts_envelope := joined\<rparr>)\<rparr>"
      using assms(3) slot j s by (auto simp: reduce_text_def Let_def)
    have "row_seen seen s joined"
      using append_text_frame [OF j] slot(1) assms(1) by (auto simp: rows_seen_def row_seen_def)
    then show ?thesis unfolding r by (intro conjI rows_seen_text_update [OF assms(1)]) auto
  next
    case False
    then have "row = e" "rd' = rd\<lparr>rd_text := (rd_text rd)(s \<mapsto> \<lparr>ts_kind = kind, ts_message_id = mid, ts_envelope = e\<rparr>)\<rparr>"
      using assms(3) s by (auto simp: reduce_text_def Let_def split: option.splits if_splits)
    then show ?thesis using fresh assms(2) by simp
  qed
qed

lemma compact_frame [simp]:
  "e_session (compact_canonical_tool_output e) = e_session e" "e_seq (compact_canonical_tool_output e) = e_seq e"
  by (simp_all add: compact_canonical_tool_output_def)

lemma merge_tool_frame: "merge_tool b e = Some row \<Longrightarrow> e_session row = e_session b \<and> e_seq row = e_seq b"
  by (auto simp: merge_tool_def split: event.splits json.splits)

lemma rows_seen_tool:
  assumes "rows_seen seen rd" and "row_seen seen s e" and "reduce_tool e kind tool rd = (row, rd')"
  shows "row_seen seen s row \<and> rows_seen seen rd'"
proof -
  have s: "e_session e = s" and own: "row_seen seen s (compact_canonical_tool_output e)"
    using assms(2) by (simp_all add: row_seen_def)
  show ?thesis
  proof (cases "tool \<noteq> [] \<and> kind = Some ''tool_call_update''")
    case False
    have "rows_seen seen (rd\<lparr>rd_tools := (rd_tools rd)((s, tool) \<mapsto> compact_canonical_tool_output e)\<rparr>)"
      by (rule rows_seen_tool_update [OF assms(1)]) (use own in simp)
    then show ?thesis using False assms(1,3) own s by (auto simp: reduce_tool_def Let_def split: if_splits)
  next
    case True
    show ?thesis
    proof (cases "Option.bind (rd_tools rd (s, tool)) (\<lambda>base. merge_tool base e)")
      case None
      then show ?thesis using True assms(1,3) own s by (simp add: reduce_tool_def Let_def)
    next
      case (Some m)
      then obtain base where b: "rd_tools rd (s, tool) = Some base" "merge_tool base e = Some m"
        by (auto simp: bind_eq_Some_conv)
      have m: "row_seen seen s m"
        using merge_tool_frame [OF b(2)] b(1) assms(1) by (auto simp: rows_seen_def row_seen_def)
      have "row = m" "rd' = rd\<lparr>rd_tools := (rd_tools rd)((s, tool) := if envelope_tool_is_terminal m then None else Some m)\<rparr>"
        using True Some assms(3) s by (auto simp: reduce_tool_def Let_def)
      moreover from this(2) have "rows_seen seen rd'"
        by (simp only:) (rule rows_seen_tool_update [OF assms(1)], use m in \<open>simp split: if_split_asm\<close>)
      ultimately show ?thesis using m by simp
    qed
  qed
qed

lemma map_Some_iff: "map_prod Some id p = (r, st) \<longleftrightarrow> (\<exists>row. p = (row, st) \<and> r = Some row)"
  by (cases p) auto

lemma reduce_seen:
  assumes "rows_seen seen rd" and "row_seen seen s env" and "reduce env rd = (r, rd')"
  shows "(\<forall>row. r = Some row \<longrightarrow> row_seen seen s row) \<and> rows_seen seen rd'"
proof -
  define e where "e = env\<lparr>e_event := compact_inbound_event (e_event env)\<rparr>"
  have e: "row_seen seen s e" "e_session e = s" using assms(2) by (simp_all add: e_def row_seen_def)
  define no_text where "no_text = rd\<lparr>rd_text := (rd_text rd)(s := None)\<rparr>"
  have nt: "rows_seen seen no_text" unfolding no_text_def by (rule rows_seen_text_update [OF assms(1)]) simp
  note red = assms(3) [unfolded reduce_def Let_def, folded e_def, unfolded e(2), folded no_text_def]
  show ?thesis
  proof (cases "e_event e")
    case (Update update)
    show ?thesis
      using red Update e(1) assms(1) nt rows_seen_anchor [OF assms(1) e(1)] rows_seen_text [OF assms(1) e(1)]
        rows_seen_tool [OF nt e(1)]
      by (auto simp: map_Some_iff split: if_splits option.splits)
  qed (use red e(1) nt rows_seen_forget in \<open>auto\<close>)
qed


lemma run_rows_seen:
  assumes "rows_seen seen rd" and "run_steps reduce es rd = (rows, rd')"
    and "i < length es" and "rows ! i = Some row"
  shows "e_session row = e_session (es ! i)
    \<and> (e_seq row \<in> seen (e_session (es ! i)) \<or> (\<exists>j \<le> i. e_session (es ! j) = e_session (es ! i) \<and> e_seq row = e_seq (es ! j)))"
  using assms
proof (induction es arbitrary: seen rd rows i)
  case (Cons e es)
  obtain r rd1 where r: "reduce e rd = (r, rd1)" by force
  obtain rs where rs: "run_steps reduce es rd1 = (rs, rd')" "rows = r # rs"
    using Cons.prems(2) r by (auto split: prod.splits)
  define seen1 where "seen1 = seen(e_session e := insert (e_seq e) (seen (e_session e)))"
  have sub: "seen s \<subseteq> seen1 s" for s by (auto simp: seen1_def)
  have "rows_seen seen1 rd" using Cons.prems(1) sub
    by (auto simp: rows_seen_def anchors_seen_def) (meson subsetD)+
  moreover have "row_seen seen1 (e_session e) e" by (simp add: row_seen_def seen1_def)
  ultimately have one: "\<forall>row. r = Some row \<longrightarrow> row_seen seen1 (e_session e) row" "rows_seen seen1 rd1"
    using reduce_seen [OF _ _ r] by blast+
  show ?case
  proof (cases i)
    case 0
    then show ?thesis using one(1) Cons.prems(4) rs by (auto simp: row_seen_def seen1_def)
  next
    case (Suc k)
    have "e_session row = e_session (es ! k)
      \<and> (e_seq row \<in> seen1 (e_session (es ! k)) \<or> (\<exists>j \<le> k. e_session (es ! j) = e_session (es ! k) \<and> e_seq row = e_seq (es ! j)))"
      using Cons.IH [OF one(2) rs(1)] Cons.prems(3,4) rs(2) Suc by simp
    then show ?thesis unfolding Suc seen1_def
      by (auto split: if_splits)
  qed
qed simp

text \<open>every canonical row belongs to the session of its event and carries the sequence number of
  that event or of an earlier event of the same session, so a row is new or replaces a row the
  session already has.\<close>

theorem canonical_rows_keep_sequence:
  assumes "run_steps reduce es (new_reducer n) = (rows, rd)" and "i < length es" and "rows ! i = Some row"
  shows "e_session row = e_session (es ! i)
    \<and> (\<exists>j \<le> i. e_session (es ! j) = e_session (es ! i) \<and> e_seq row = e_seq (es ! j))"
proof -
  have "rows_seen (\<lambda>_. {}) (new_reducer n)"
    by (simp add: rows_seen_def new_reducer_def anchors_seen_def with_capacity_def)
  from run_rows_seen [OF this assms] show ?thesis by blast
qed

section \<open>Streamed text\<close>

text \<open>A chunk of one message, and the events that leave the message open.\<close>

definition is_chunk :: "string \<Rightarrow> string \<Rightarrow> string option \<Rightarrow> envelope \<Rightarrow> bool" where
  "is_chunk s kind mid e \<longleftrightarrow> e_session e = s \<and> is_text_kind (Some kind)
     \<and> (case e_event e of
          Update update \<Rightarrow> jget_str ''sessionUpdate'' update = Some kind \<and> message_id (Some kind) update = mid
            \<and> chunk_text update \<noteq> None
        | _ \<Rightarrow> False)"

definition text_of :: "envelope \<Rightarrow> string" where
  "text_of e = (case e_event e of Update update \<Rightarrow> (case chunk_text update of None \<Rightarrow> [] | Some t \<Rightarrow> t) | _ \<Rightarrow> [])"

definition is_quiet :: "string \<Rightarrow> envelope \<Rightarrow> bool" where
  "is_quiet s e \<longleftrightarrow> e_session e \<noteq> s
     \<or> (case e_event (compact_canonical_tool_output e) of
          Update update \<Rightarrow>
            jget_str ''sessionUpdate'' update \<in> {Some ''usage_update'', Some ''session_info_update''}
          \<or> anchor_key update \<noteq> None
          \<or> (jget_str ''sessionUpdate'' update = Some ''tool_call_update'' \<and> is_pure_terminal_output_delta update)
        | _ \<Rightarrow> False)"

text \<open>The open row of a session holds this much text under this number.\<close>

definition open_text :: "string \<Rightarrow> string \<Rightarrow> string option \<Rightarrow> nat \<Rightarrow> string \<Rightarrow> reducer \<Rightarrow> bool" where
  "open_text s kind mid sq t rd \<longleftrightarrow>
     (\<exists>slot. rd_text rd s = Some slot \<and> ts_kind slot = kind \<and> ts_message_id slot = mid
        \<and> e_session (ts_envelope slot) = s \<and> e_seq (ts_envelope slot) = sq
        \<and> (\<exists>update. e_event (ts_envelope slot) = Update update \<and> chunk_text update = Some t))"

lemma compact_not_tool:
  assumes "\<not> is_tool_kind (jget_str ''sessionUpdate'' update)"
  shows "compact_tool_update update = update"
proof -
  have "\<not> generated_update update"
    using assms by (cases update) (auto simp: generated_update_def jget_str_def jindex_def split: option.splits)
  then show ?thesis
    using assms by (cases update) (auto simp: compact_tool_update_def compact_metadata_def compact_members_def jget_str_def)
qed

lemma text_kind_plain:
  assumes "jget_str ''sessionUpdate'' update = Some kind" and "is_text_kind (Some kind)"
  shows "compact_tool_update update = update" "anchor_key update = None" "\<not> is_tool_kind (Some kind)"
    "Some kind \<noteq> Some ''usage_update''" "Some kind \<noteq> Some ''session_info_update''" "Some kind \<noteq> Some ''tool_call_update''"
proof -
  show k: "\<not> is_tool_kind (Some kind)" "Some kind \<noteq> Some ''usage_update''" "Some kind \<noteq> Some ''session_info_update''"
    "Some kind \<noteq> Some ''tool_call_update''"
    using assms(2) by (auto simp: is_text_kind_def is_tool_kind_def)
  show "compact_tool_update update = update" using k(1) assms(1) by (intro compact_not_tool) simp
  show "anchor_key update = None"
    using assms by (auto simp: anchor_key_def is_text_kind_def SUBAGENT_UPDATE_def CALL_ANCHOR_UPDATE_def Let_def)
qed

lemma append_text_Update:
  assumes "chunk_text update = Some t" and "e_event e = Update update"
  obtains update' where "append_text c e = Some (e\<lparr>e_event := Update update'\<rparr>)" "chunk_text update' = Some (t @ c)"
proof -
  obtain content where c: "jget ''content'' update = Some content" "jget ''text'' content = Some (JStr t)"
    using assms(1) by (auto simp: chunk_text_def bind_eq_Some_conv elim!: jstr.elims)
  obtain kvs tvs where o: "update = JObj kvs" "content = JObj tvs"
    using c by (cases update; cases content) auto
  let ?u = "jset ''content'' (jset ''text'' (JStr (t @ c)) content) update"
  have "append_text c e = Some (e\<lparr>e_event := Update ?u\<rparr>)"
    using c assms(2) by (simp add: append_text_def)
  moreover have "chunk_text ?u = Some (t @ c)"
    by (simp add: chunk_text_def o AList.update_conv')
  ultimately show thesis by (rule that)
qed


lemma chunk_event:
  assumes "is_chunk s kind mid e"
  obtains update where "e_session e = s" "e_event e = Update update" "is_text_kind (Some kind)"
    "jget_str ''sessionUpdate'' update = Some kind" "message_id (Some kind) update = mid"
    "chunk_text update = Some (text_of e)" "compact_inbound_event (e_event e) = e_event e"
proof -
  from assms obtain update where u: "e_session e = s" "e_event e = Update update" "is_text_kind (Some kind)"
    "jget_str ''sessionUpdate'' update = Some kind" "message_id (Some kind) update = mid"
    "chunk_text update \<noteq> None"
    by (auto simp: is_chunk_def split: event.splits)
  then show thesis using text_kind_plain(1) [OF u(4,3)]
    by (intro that [of update]) (auto simp: text_of_def compact_inbound_event_def)
qed

lemma reduce_chunk:
  assumes "is_chunk s kind mid e"
  shows "reduce e rd = map_prod Some id (reduce_text e kind mid (text_of e) rd)"
proof -
  obtain update where u: "e_session e = s" "e_event e = Update update" "is_text_kind (Some kind)"
    "jget_str ''sessionUpdate'' update = Some kind" "message_id (Some kind) update = mid"
    "chunk_text update = Some (text_of e)" "compact_inbound_event (e_event e) = e_event e"
    using chunk_event [OF assms] by metis
  note k = text_kind_plain [OF u(4,3)]
  have same: "e\<lparr>e_event := Update update\<rparr> = e" using u(2) by (metis envelope.surjective envelope.update_convs(3))
  show ?thesis using u k by (simp add: reduce_def Let_def same)
qed

lemma reduce_open_chunk:
  assumes "is_chunk s kind mid e" and "open_text s kind mid sq t rd"
  shows "\<exists>row rd'. reduce e rd = (Some row, rd') \<and> e_session row = s \<and> e_seq row = sq
    \<and> text_of row = t @ text_of e \<and> open_text s kind mid sq (t @ text_of e) rd'"
proof -
  from assms(2) obtain slot update where slot: "rd_text rd s = Some slot" "ts_kind slot = kind"
    "ts_message_id slot = mid" "e_session (ts_envelope slot) = s" "e_seq (ts_envelope slot) = sq"
    "e_event (ts_envelope slot) = Update update" "chunk_text update = Some t"
    by (auto simp: open_text_def)
  obtain update' where a: "append_text (text_of e) (ts_envelope slot) = Some ((ts_envelope slot)\<lparr>e_event := Update update'\<rparr>)"
    "chunk_text update' = Some (t @ text_of e)"
    by (rule append_text_Update [OF slot(7,6)])
  have s: "e_session e = s" using assms(1) by (simp add: is_chunk_def)
  show ?thesis
    unfolding reduce_chunk [OF assms(1)]
    using slot a s by (simp add: reduce_text_def Let_def text_of_def open_text_def)
qed

lemma reduce_first_chunk:
  assumes "is_chunk s kind mid e" and "rd_text rd s = None"
  shows "\<exists>row rd'. reduce e rd = (Some row, rd') \<and> e_session row = s \<and> e_seq row = e_seq e
    \<and> text_of row = text_of e \<and> open_text s kind mid (e_seq e) (text_of e) rd'"
proof -
  obtain update where u: "e_session e = s" "e_event e = Update update" "chunk_text update = Some (text_of e)"
    using chunk_event [OF assms(1)] by metis
  show ?thesis
    unfolding reduce_chunk [OF assms(1)]
    using assms(2) u by (simp add: reduce_text_def Let_def open_text_def)
qed

lemma snd_reduce:
  "snd (reduce env rd) =
     (let e = compact_canonical_tool_output env; sid = e_session env; no_text = rd\<lparr>rd_text := (rd_text rd)(sid := None)\<rparr>
      in case e_event e of
           Update update \<Rightarrow>
             (let kind = jget_str ''sessionUpdate'' update
              in if kind = Some ''usage_update'' \<or> kind = Some ''session_info_update'' then rd
                 else case anchor_key update of
                   Some key \<Rightarrow> snd (reduce_anchor e key rd)
                 | None \<Rightarrow>
                     if kind = Some ''tool_call_update'' \<and> is_pure_terminal_output_delta update then rd
                     else if is_text_kind kind \<and> chunk_text update \<noteq> None then
                       snd (reduce_text e (the kind) (message_id kind update) (the (chunk_text update)) rd)
                     else if is_tool_kind kind then
                       snd (reduce_tool e kind
                               (case jget_str ''toolCallId'' update of None \<Rightarrow> [] | Some t \<Rightarrow> t) no_text)
                     else no_text)
         | TurnEnd _ _ \<Rightarrow> forget_tools sid no_text
         | Lifecycle _ _ \<Rightarrow> forget_tools sid no_text
         | _ \<Rightarrow> no_text)"
proof (cases "compact_inbound_event (e_event env)")
  case (Update update)
  then show ?thesis
    by (cases "anchor_key update"; cases "chunk_text update")
      (simp_all add: reduce_def compact_canonical_tool_output_def Let_def)
qed (simp_all add: reduce_def compact_canonical_tool_output_def Let_def)

lemma reduce_quiet:
  assumes "is_quiet s e"
  shows "rd_text (snd (reduce e rd)) s = rd_text rd s"
proof -
  let ?e = "compact_canonical_tool_output e"
  have anchor: "rd_text (snd (reduce_anchor ?e k rd)) = rd_text rd" for k
    by (simp add: reduce_anchor_def split: option.split prod.split)
  show ?thesis
  proof (cases "e_session e = s")
    case True
    then obtain update where "e_event ?e = Update update"
      and "jget_str ''sessionUpdate'' update \<in> {Some ''usage_update'', Some ''session_info_update''}
          \<or> anchor_key update \<noteq> None
          \<or> (jget_str ''sessionUpdate'' update = Some ''tool_call_update'' \<and> is_pure_terminal_output_delta update)"
      using assms by (auto simp: is_quiet_def split: event.splits)
    then show ?thesis using anchor by (auto simp: snd_reduce Let_def split: option.split)
  next
    case False
    then have s': "e_session ?e \<noteq> s" by simp
    have tool: "rd_text (snd (reduce_tool ?e k t r)) = rd_text r" for k t r
      by (simp add: reduce_tool_def Let_def split: option.split)
    have streamed: "rd_text (snd (reduce_text ?e k m c rd)) s = rd_text rd s" for k m c
      using s' by (simp add: reduce_text_def Let_def split: option.split)
    show ?thesis
      using False anchor tool streamed by (simp add: snd_reduce Let_def forget_tools_def split: event.split option.split)
  qed
qed

lemma quiet_keeps_open: "is_quiet s e \<Longrightarrow> open_text s kind mid sq t rd \<Longrightarrow> open_text s kind mid sq t (snd (reduce e rd))"
  by (simp add: open_text_def reduce_quiet)

lemma chunk_not_quiet:
  assumes "is_chunk s kind mid e" shows "\<not> is_quiet s e"
proof -
  obtain update where u: "e_session e = s" "e_event e = Update update" "is_text_kind (Some kind)"
    "jget_str ''sessionUpdate'' update = Some kind" "compact_inbound_event (e_event e) = e_event e"
    using chunk_event [OF assms] by metis
  show ?thesis using u text_kind_plain [OF u(4,3)]
    by (simp add: is_quiet_def compact_canonical_tool_output_def)
qed

lemma open_run:
  assumes "open_text s kind mid sq t rd" and "\<forall>e \<in> set es. is_chunk s kind mid e \<or> is_quiet s e"
    and "run_steps reduce es rd = (rows, rd')" and "i < length es" and "is_chunk s kind mid (es ! i)"
  shows "\<exists>row. rows ! i = Some row \<and> e_session row = s \<and> e_seq row = sq
    \<and> text_of row = t @ concat (map text_of (filter (is_chunk s kind mid) (take (Suc i) es)))"
  using assms
proof (induction es arbitrary: t rd rows i)
  case (Cons e es)
  obtain r rd1 where r: "reduce e rd = (r, rd1)" by force
  obtain rs where rs: "run_steps reduce es rd1 = (rs, rd')" "rows = r # rs"
    using Cons.prems(3) r by (auto split: prod.splits)
  show ?case
  proof (cases "is_chunk s kind mid e")
    case True
    from reduce_open_chunk [OF True Cons.prems(1)] r
    have one: "\<exists>row. r = Some row \<and> e_session row = s \<and> e_seq row = sq \<and> text_of row = t @ text_of e"
      "open_text s kind mid sq (t @ text_of e) rd1" by auto
    show ?thesis
    proof (cases i)
      case 0
      then show ?thesis using one(1) True rs(2) by simp
    next
      case (Suc k)
      with Cons.IH [OF one(2) _ rs(1), of k] Cons.prems(2,4,5) True rs(2) show ?thesis by simp
    qed
  next
    case False
    then have q: "is_quiet s e" using Cons.prems(2) by simp
    then have o: "open_text s kind mid sq t rd1" using quiet_keeps_open [OF q Cons.prems(1)] r by simp
    from False Cons.prems(5) obtain k where k: "i = Suc k" by (cases i) auto
    with Cons.IH [OF o _ rs(1), of k] Cons.prems(2,4,5) False rs(2) show ?thesis by simp
  qed
qed simp


definition demo_chunk :: "nat \<Rightarrow> string \<Rightarrow> envelope" where
  "demo_chunk n t = \<lparr>e_session = ''s'', e_seq = n, e_event = Update (JObj [(''sessionUpdate'', JStr ''agent_message_chunk''),
     (''content'', JObj [(''type'', JStr ''text''), (''text'', JStr t)])]), e_cmid = None\<rparr>"

definition demo_usage_event :: "nat \<Rightarrow> envelope" where
  "demo_usage_event n = \<lparr>e_session = ''s'', e_seq = n, e_event = Update (JObj [(''sessionUpdate'', JStr ''usage_update'')]), e_cmid = None\<rparr>"

lemma demo_stream:
  "is_chunk ''s'' ''agent_message_chunk'' None (demo_chunk n t)" "text_of (demo_chunk n t) = t"
  "is_quiet ''s'' (demo_usage_event n)"
  by (simp_all add: is_chunk_def demo_chunk_def demo_usage_event_def is_text_kind_def jget_str_def message_id_def
      chunk_text_def text_of_def is_quiet_def compact_canonical_tool_output_def compact_inbound_event_def
      compact_tool_update_def compact_metadata_def generated_update_def is_tool_kind_def compact_members_def)


theorem canonical_rows_keep_sequence_witness:
  "\<exists>row. fst (run_steps reduce [demo_chunk 1 ''he''] (new_reducer 1)) ! 0 = Some row \<and> e_session row = ''s'' \<and> e_seq row = 1"
proof -
  have "rd_text (new_reducer 1) ''s'' = None" by (simp add: new_reducer_def)
  from reduce_first_chunk [OF demo_stream(1) this]
  obtain row rd' where row: "reduce (demo_chunk 1 ''he'') (new_reducer 1) = (Some row, rd')" by blast
  then have r: "run_steps reduce [demo_chunk 1 ''he''] (new_reducer 1) = ([Some row], rd')" by simp
  have "[Some row] ! 0 = Some row" "0 < length [demo_chunk 1 ''he'']" by simp_all
  from canonical_rows_keep_sequence [OF r this(2,1)] r show ?thesis by (auto simp: demo_chunk_def)
qed

end
