(* ===== verification/Hub_State.thy ===== *)
theory Hub_State
  imports Event_Reducer Persist_Queue Session_Order
begin

text \<open>
  The state of the Hub that the send queue and the session lifecycle work on (\<^verbatim>\<open>src/src/core.rs\<close>,
  \<^verbatim>\<open>src/src/model.rs\<close>), the dispatch channel, and the primitive operations every other operation is
  made of: lookups, the store and broadcast effects, and the sync patches of
  \<^verbatim>\<open>src/src/core/hub_sync.rs\<close>. Locks do not appear: an operation that takes the session lock once is
  one step, and an operation that takes it twice is composed of two.
\<close>

section \<open>Queued messages\<close>

datatype delivery = Back | Front

record draft_schedule =
  sc_fire_at_ms :: int
  sc_delivery :: delivery

record queued_message =
  qm_id :: string
  qm_text :: string
  qm_content :: "json list"
  qm_cmid :: "string option"
  qm_schedule :: "draft_schedule option"

section \<open>The dispatch channel\<close>

text \<open>
  A supervision context (\<^verbatim>\<open>src/src/superagent.rs\<close>) travels with a supervised request. The ownership
  a request carries is its session and epoch; its release is \<open>ownership_drop\<close> below.
\<close>

record dispatch_context =
  dc_owner :: string
  dc_coordinator :: string
  dc_worker :: string
  dc_revision :: int
  dc_evidence :: string
  dc_follow_up :: bool

definition dc_target :: "dispatch_context \<Rightarrow> string" where
  "dc_target c = (if dc_follow_up c then dc_worker c else dc_coordinator c)"

definition dc_peer :: "dispatch_context \<Rightarrow> string" where
  "dc_peer c = (if dc_follow_up c then dc_coordinator c else dc_worker c)"

record dispatch_req =
  dr_epoch :: u64
  dr_supervision :: "dispatch_context option"
  dr_session :: string
  dr_text :: string
  dr_content :: "json list"
  dr_cmid :: "string option"
  dr_explicit :: bool

text \<open>
  Tokio's bounded channel as the code uses it: \<open>try_send\<close> refuses a full or closed channel and hands
  the request back, \<open>recv\<close> takes the oldest.
\<close>

record dispatch_channel =
  ch_capacity :: nat
  ch_open :: bool
  ch_items :: "dispatch_req list"

definition chan_send :: "dispatch_req \<Rightarrow> dispatch_channel \<Rightarrow> bool \<times> dispatch_channel" where
  "chan_send r ch =
     (if ch_open ch \<and> length (ch_items ch) < ch_capacity ch
      then (True, ch\<lparr>ch_items := ch_items ch @ [r]\<rparr>) else (False, ch))"

definition chan_recv :: "dispatch_channel \<Rightarrow> dispatch_req option \<times> dispatch_channel" where
  "chan_recv ch = (case ch_items ch of [] \<Rightarrow> (None, ch) | r # rs \<Rightarrow> (Some r, ch\<lparr>ch_items := rs\<rparr>))"

definition chan_inv :: "nat \<Rightarrow> dispatch_channel \<Rightarrow> bool" where
  "chan_inv n ch \<longleftrightarrow> ch_capacity ch = n \<and> length (ch_items ch) \<le> n"

interpretation dispatch_queue: bounded_fifo_sink "chan_inv n" ch_items chan_send chan_recv "\<lambda>ch. length (ch_items ch)" n
  for n
  by unfold_locales (auto simp: chan_inv_def chan_send_def chan_recv_def split: list.split)

section \<open>Sessions\<close>

record dispatched_prompt =
  dp_cmid :: string
  dp_epoch :: u64
  dp_echoed :: bool

record attention =
  at_approvals :: nat
  at_questions :: nat
  at_other :: nat

definition attention_empty :: "attention \<Rightarrow> bool" where
  "attention_empty a \<longleftrightarrow> at_approvals a = 0 \<and> at_questions a = 0 \<and> at_other a = 0"

record pending_request =
  pr_question :: "bool option"
  pr_child :: bool
  pr_tool :: "string option"

record provider_update =
  pu_from :: string
  pu_to :: string
  pu_automatic :: bool
  pu_started_at_ms :: int

record session =
  se_status :: status
  se_paused :: bool
  se_closing :: bool
  se_system :: bool
  se_managed_child :: bool
  se_trashed_at_ms :: "int option"
  se_owner :: "string option"
  se_machine :: string
  se_provider :: string
  se_generation :: string
  se_agent_session_id :: "string option"
  se_attention :: attention
  se_pending_actions :: "(string \<times> pending_request) list"
  se_context_used :: nat
  se_context_size :: nat
  se_usage :: "json option"
  se_background_tasks :: nat
  se_updating :: "provider_update option"
  se_resource_wait :: "string option"
  se_log :: "envelope list"
  se_log_bytes :: nat
  se_event_count :: nat
  se_reached_start :: bool
  se_next_seq :: nat
  se_queue :: "queued_message list"
  se_drafts :: "queued_message list"
  se_editing :: "string option"
  se_editing_epoch :: u64
  se_in_flight :: bool
  se_in_flight_epoch :: u64
  se_delivery_hold :: "string option"
  se_explicit_wait :: bool
  se_dispatch_pending :: "u64 option"
  se_dispatched :: "dispatched_prompt list"
  se_latched :: bool
  se_lifecycle_epoch :: u64
  se_last_activity :: int

text \<open>A session as it is registered, before its first event.\<close>

definition new_session :: "bool \<Rightarrow> bool \<Rightarrow> string option \<Rightarrow> string \<Rightarrow> string \<Rightarrow> string \<Rightarrow> int \<Rightarrow> session" where
  "new_session system managed_child owner machine provider generation now =
     \<lparr>se_status = Starting, se_paused = False, se_closing = False, se_system = system,
      se_managed_child = managed_child, se_trashed_at_ms = None, se_owner = owner, se_machine = machine,
      se_provider = provider, se_generation = generation, se_agent_session_id = None,
      se_attention = \<lparr>at_approvals = 0, at_questions = 0, at_other = 0\<rparr>, se_pending_actions = [],
      se_context_used = 0, se_context_size = 0, se_usage = None, se_background_tasks = 0, se_updating = None,
      se_resource_wait = None, se_log = [], se_log_bytes = 0, se_event_count = 0, se_reached_start = True,
      se_next_seq = 0, se_queue = [], se_drafts = [], se_editing = None, se_editing_epoch = 0,
      se_in_flight = False, se_in_flight_epoch = 0, se_delivery_hold = None, se_explicit_wait = False,
      se_dispatch_pending = None, se_dispatched = [], se_latched = False, se_lifecycle_epoch = 0,
      se_last_activity = now\<rparr>"

section \<open>Session context\<close>

text \<open>
  What \<open>session_context\<close> (\<^verbatim>\<open>src/src/session_context.rs\<close>) decodes from the settings of a session: the
  context that gates dispatch, and the carrier of its links. The setting is absent, does not decode,
  or decodes to a context.
\<close>

record context_source =
  cs_session_id :: string
  cs_before :: nat

record injection =
  in_cmid :: string
  in_sources :: "context_source list"
  in_follows_first_prompt :: bool

record context_delivery =
  de_operation :: string
  de_state :: string

record session_context =
  sx_revision :: nat
  sx_sources :: "string list"
  sx_applied_revision :: nat
  sx_delivery :: "context_delivery option"
  sx_injection :: "injection option"

datatype context_setting = NoContext | UnreadableContext | ContextSetting session_context

record carrier =
  ca_injection :: string
  ca_cmid :: string

section \<open>The Hub\<close>

datatype schedule_cmd =
    Arm string int string
  | HumanTurn string
  | ArmDraft string string int
  | CancelDraft string string

type_synonym hub_write = "(unit, unit, queued_message, unit) store_write"

text \<open>
  What an operation hands to its surroundings, in order: writes to the store's queue, broadcasts to
  the clients, and commands to the scheduler. A session list broadcast carries the list derived from
  the state at that point.
\<close>

datatype effect =
    Stored hub_write
  | QueuePatch string u64 "queued_message list" "queued_message list" "string list"
  | EventSent envelope
  | SessionsSent
  | SettingsSent
  | ErrorSent "string option" string
  | Scheduled schedule_cmd

text \<open>
  What the Hub takes from outside: serde_json's text of a value and the length of an event's, the
  SHA-256 digest of a text, the artifact store's rewriting of an update's images (absent without a
  store), and the base64 text of a stored image by its file name.
\<close>

record host =
  ho_text :: "json \<Rightarrow> string"
  ho_event_size :: "event \<Rightarrow> nat option"
  ho_digest :: "string \<Rightarrow> string"
  ho_externalize :: "(json \<Rightarrow> json) option"
  ho_image :: "string \<Rightarrow> string option"

record snapshot_mark =
  sm_incarnation :: "string option"
  sm_revision :: nat
  sm_digest :: string
  sm_terminal :: bool
  sm_terminal_seq :: "nat option"

text \<open>
  Instants of the monotonic clock and the wall clock are both read as \<open>hb_now_ms\<close>. The two maps of a
  session's background ledger are \<open>hb_marks\<close> and \<open>hb_latest\<close>; the latter lists its entries in the hash
  map's order.
\<close>

record hub =
  hb_sessions :: "string \<rightharpoonup> session"
  hb_next_qid :: u64
  hb_next_error_id :: u64
  hb_now_ms :: int
  hb_persisted :: bool
  hb_channel :: "dispatch_channel option"
  hb_scheduler :: bool
  hb_context_edits :: "string list"
  hb_contexts :: "string \<Rightarrow> context_setting"
  hb_carriers :: "string \<rightharpoonup> carrier"
  hb_settings :: "string \<rightharpoonup> json"
  hb_versions :: "string \<Rightarrow> u64"
  hb_reducer :: reducer
  hb_marks :: "string \<times> string \<rightharpoonup> snapshot_mark"
  hb_latest :: "string \<Rightarrow> (string \<times> nat \<times> json) list"
  hb_update_failures :: "string \<times> string \<times> string \<rightharpoonup> int"
  hb_update_failed :: "string \<rightharpoonup> int"
  hb_host :: host
  hb_effects :: "effect list"
  hb_stuck :: bool

text \<open>The Hub as it starts, with or without a store, before the dispatcher and the scheduler are wired.\<close>

definition new_hub :: "bool \<Rightarrow> host \<Rightarrow> int \<Rightarrow> hub" where
  "new_hub persisted host now =
     \<lparr>hb_sessions = Map.empty, hb_next_qid = 1, hb_next_error_id = 1, hb_now_ms = now, hb_persisted = persisted,
      hb_channel = None, hb_scheduler = False, hb_context_edits = [], hb_contexts = (\<lambda>_. NoContext),
      hb_carriers = Map.empty, hb_settings = Map.empty, hb_versions = (\<lambda>_. 0),
      hb_reducer = \<lparr>rd_text = Map.empty, rd_tools = Map.empty, rd_anchors = default_index\<rparr>,
      hb_marks = Map.empty, hb_latest = (\<lambda>_. []), hb_update_failures = Map.empty,
      hb_update_failed = Map.empty, hb_host = host, hb_effects = [], hb_stuck = False\<rparr>"

definition set_dispatch_tx :: "nat \<Rightarrow> hub \<Rightarrow> hub" where
  "set_dispatch_tx capacity h = h\<lparr>hb_channel := Some \<lparr>ch_capacity = capacity, ch_open = True, ch_items = []\<rparr>\<rparr>"

definition set_scheduler_tx :: "hub \<Rightarrow> hub" where
  "set_scheduler_tx h = h\<lparr>hb_scheduler := True\<rparr>"

section \<open>Primitive operations\<close>

definition update_session :: "string \<Rightarrow> (session \<Rightarrow> session) \<Rightarrow> hub \<Rightarrow> hub" where
  "update_session sid f h =
     (case hb_sessions h sid of None \<Rightarrow> h | Some s \<Rightarrow> h\<lparr>hb_sessions := (hb_sessions h)(sid \<mapsto> f s)\<rparr>)"

definition emit :: "effect \<Rightarrow> hub \<Rightarrow> hub" where
  "emit e h = h\<lparr>hb_effects := hb_effects h @ [e]\<rparr>"

text \<open>Without a store the write-behind sender is absent and nothing is sent.\<close>

definition store :: "hub_write \<Rightarrow> hub \<Rightarrow> hub" where
  "store w h = (if hb_persisted h then emit (Stored w) h else h)"

definition schedule :: "schedule_cmd \<Rightarrow> hub \<Rightarrow> hub" where
  "schedule c h = (if hb_scheduler h then emit (Scheduled c) h else h)"

definition broadcast_sessions :: "hub \<Rightarrow> hub" where
  "broadcast_sessions h = emit SessionsSent h"

definition notify_human_turn :: "string \<Rightarrow> hub \<Rightarrow> hub" where
  "notify_human_turn sid h = schedule (HumanTurn sid) h"

definition arm_draft_timer :: "string \<Rightarrow> string \<Rightarrow> int \<Rightarrow> hub \<Rightarrow> hub" where
  "arm_draft_timer sid did at h = schedule (ArmDraft sid did at) h"

definition cancel_draft_timer :: "string \<Rightarrow> string \<Rightarrow> hub \<Rightarrow> hub" where
  "cancel_draft_timer sid did h = schedule (CancelDraft sid did) h"

text \<open>The fresh id and the Hub whose counter moved past it.\<close>

definition next_qid :: "hub \<Rightarrow> string \<times> hub" where
  "next_qid h = (''q'' @ show_nat (unat (hb_next_qid h)), h\<lparr>hb_next_qid := hb_next_qid h + 1\<rparr>)"

definition is_managed_child :: "string \<Rightarrow> hub \<Rightarrow> bool" where
  "is_managed_child sid h = (case hb_sessions h sid of None \<Rightarrow> False | Some s \<Rightarrow> se_managed_child s)"

definition wired :: "hub \<Rightarrow> bool" where
  "wired h \<longleftrightarrow> hb_channel h \<noteq> None"

text \<open>A session error keeps at most 4096 bytes of its message, cut at a character boundary.\<close>

fun take_chars :: "nat \<Rightarrow> string list \<Rightarrow> string" where
  "take_chars n [] = []"
| "take_chars n (c # cs) = (if length c \<le> n then c @ take_chars (n - length c) cs else [])"

definition record_session_error :: "string \<Rightarrow> string \<Rightarrow> hub \<Rightarrow> hub" where
  "record_session_error sid message h =
     (let incident = ''session-error:'' @ sid @ '':'' @ show_int (hb_now_ms h) @ '':'' @ show_nat (unat (hb_next_error_id h))
      in store (RecordSessionError incident sid (hb_now_ms h) (take_chars 4096 (utf8_chars message)))
           (h\<lparr>hb_next_error_id := hb_next_error_id h + 1\<rparr>))"

definition broadcast_error :: "string option \<Rightarrow> string \<Rightarrow> hub \<Rightarrow> hub" where
  "broadcast_error sid message h =
     emit (ErrorSent sid message)
       (case sid of None \<Rightarrow> h | Some i \<Rightarrow> record_session_error i message h)"

definition cmids_of :: "queued_message list \<Rightarrow> queued_message list \<Rightarrow> string list" where
  "cmids_of queue drafts = List.map_filter qm_cmid (queue @ drafts)"

definition sync_key :: "string \<Rightarrow> string" where
  "sync_key sid = ''queue:'' @ sid"

definition sync_emit :: "string \<Rightarrow> queued_message list \<Rightarrow> queued_message list \<Rightarrow> string list \<Rightarrow> hub \<Rightarrow> hub" where
  "sync_emit sid queue drafts confirmed h =
     (let version = hb_versions h (sync_key sid) + 1
      in emit (QueuePatch (sync_key sid) version queue drafts confirmed)
           (h\<lparr>hb_versions := (hb_versions h)(sync_key sid := version)\<rparr>))"

definition emit_pending :: "string \<Rightarrow> hub \<Rightarrow> hub" where
  "emit_pending sid h =
     (case hb_sessions h sid of
        None \<Rightarrow> h
      | Some s \<Rightarrow>
          sync_emit sid (se_queue s) (se_drafts s) (cmids_of (se_queue s) (se_drafts s))
            (store (UpdatePending sid (se_queue s) (se_drafts s)) h))"

definition ownership_drop :: "string \<Rightarrow> u64 \<Rightarrow> hub \<Rightarrow> hub" where
  "ownership_drop sid epoch h =
     update_session sid (\<lambda>s. if se_dispatch_pending s = Some epoch then s\<lparr>se_dispatch_pending := None\<rparr> else s) h"

text \<open>Settings: a null value means absent.\<close>

definition setting :: "string \<Rightarrow> hub \<Rightarrow> json option" where
  "setting key h = (case hb_settings h key of None \<Rightarrow> None | Some JNull \<Rightarrow> None | Some v \<Rightarrow> Some v)"

definition load_setting :: "string \<Rightarrow> json \<Rightarrow> hub \<Rightarrow> hub" where
  "load_setting key v h = h\<lparr>hb_settings := (hb_settings h)(key \<mapsto> v)\<rparr>"

text \<open>Every key these operations write has a registered prefix, so the write reaches the store.\<close>

definition set_setting :: "string \<Rightarrow> json \<Rightarrow> hub \<Rightarrow> hub" where
  "set_setting key v h = emit SettingsSent (store (PutSetting key v) (load_setting key v h))"

end
