(* ===== verification/Hub_Push.thy ===== *)
theory Hub_Push
  imports Hub_State
begin

text \<open>
  Appending an event to a session: \<open>push_tagged\<close> of \<^verbatim>\<open>src/src/core/hub_events.rs\<close> with the pieces it
  calls in \<^verbatim>\<open>src/src/core.rs\<close> (permission answers, subagent snapshots), \<open>PendingActions\<close> of
  \<^verbatim>\<open>src/src/core/session_attention.rs\<close>, the prompt's origin of \<^verbatim>\<open>src/src/prompt_origin.rs\<close> and the
  snapshot verdicts of \<^verbatim>\<open>src/src/transcript_anchors.rs\<close>.
  That the log stays sorted by sequence number below the next one is part of the session invariant of
  the theory of moves.
\<close>

section \<open>Prompt identities and origins\<close>

definition LEGACY_AUTO_CONTINUE_PREFIX :: string where "LEGACY_AUTO_CONTINUE_PREFIX = ''__cont__''"
definition SCHED_PREFIX :: string where "SCHED_PREFIX = ''__sched__''"
definition WAKEUP_PREFIX :: string where "WAKEUP_PREFIX = ''__wake__''"
definition CALL_NOTICE_PREFIX :: string where "CALL_NOTICE_PREFIX = ''call-notice:''"
definition MANAGED_CALL_CMID_PREFIX :: string where "MANAGED_CALL_CMID_PREFIX = ''managed-call:''"
definition SUPERAGENT_PREFIX :: string where "SUPERAGENT_PREFIX = ''cowboy-superagent:''"

datatype prompt_actor = Human | Cowboy | Agent

record prompt_origin =
  po_actor :: prompt_actor
  po_source :: string
  po_provider :: "string option"

definition human_composer :: prompt_origin where
  "human_composer = \<lparr>po_actor = Human, po_source = ''composer'', po_provider = None\<rparr>"

definition cowboy_origin :: "string \<Rightarrow> prompt_origin" where
  "cowboy_origin source = \<lparr>po_actor = Cowboy, po_source = source, po_provider = None\<rparr>"

definition is_human :: "prompt_origin \<Rightarrow> bool" where
  "is_human po \<longleftrightarrow> po_actor po = Human"

definition is_hex_digit :: "char \<Rightarrow> bool" where
  "is_hex_digit c \<longleftrightarrow>
     (48 \<le> byte_of c \<and> byte_of c \<le> 57) \<or> (65 \<le> byte_of c \<and> byte_of c \<le> 70) \<or> (97 \<le> byte_of c \<and> byte_of c \<le> 102)"

definition is_agent_message_id :: "string \<Rightarrow> bool" where
  "is_agent_message_id c \<longleftrightarrow>
     starts_with c ''agent-'' \<and> length (drop 6 c) = 64 \<and> list_all is_hex_digit (drop 6 c)"

definition origin_from_cmid :: "string option \<Rightarrow> prompt_origin" where
  "origin_from_cmid cmid =
     (case cmid of
        None \<Rightarrow> human_composer
      | Some c \<Rightarrow>
          if starts_with c LEGACY_AUTO_CONTINUE_PREFIX then cowboy_origin ''auto-resume''
          else if starts_with c WAKEUP_PREFIX \<or> starts_with c SCHED_PREFIX then cowboy_origin ''schedule''
          else if starts_with c CALL_NOTICE_PREFIX \<or> starts_with c ''managed-call:'' then cowboy_origin ''managed_call''
          else if starts_with c ''cowboy-superagent:'' then cowboy_origin ''superagent''
          else if is_agent_message_id c then cowboy_origin ''agent_message''
          else human_composer)"

fun actor_name :: "prompt_actor \<Rightarrow> string" where
  "actor_name Human = ''human''"
| "actor_name Cowboy = ''cowboy''"
| "actor_name Agent = ''agent''"

definition origin_value :: "prompt_origin \<Rightarrow> json" where
  "origin_value po =
     JObj ([(''actor'', JStr (actor_name (po_actor po))), (''source'', JStr (po_source po))]
           @ (case po_provider po of None \<Rightarrow> [] | Some p \<Rightarrow> [(''provider'', JStr p)]))"

definition apply_prompt_origin :: "prompt_origin \<Rightarrow> json \<Rightarrow> json" where
  "apply_prompt_origin po update =
     (let update = jset ''promptOrigin'' (origin_value po) update
      in if is_human po then update else jset ''autoResumed'' (JBool True) update)"

definition annotate_dispatched_prompt :: "session \<Rightarrow> string option \<Rightarrow> event \<Rightarrow> event" where
  "annotate_dispatched_prompt s cmid ev =
     (case cmid of
        None \<Rightarrow> ev
      | Some c \<Rightarrow>
          if c \<notin> dp_cmid ` set (se_dispatched s) \<or> is_human (origin_from_cmid (Some c)) then ev
          else case ev of
            Update update \<Rightarrow>
              (if jindex update ''sessionUpdate'' = JStr ''user_message_chunk''
               then Update (apply_prompt_origin (origin_from_cmid (Some c)) update) else ev)
          | _ \<Rightarrow> ev)"

section \<open>Pending requests\<close>

definition request_of :: "json \<Rightarrow> pending_request" where
  "request_of tool_call =
     (let input = jindex tool_call ''rawInput''; cowboy = jindex tool_call ''_cowboy''
      in \<lparr>pr_question = Some (jget ''elicitation'' cowboy \<noteq> None
                              \<or> (jis_string (jindex input ''question'') \<and> jarr (jindex input ''options'') \<noteq> None)),
          pr_child = (case jget ''subagent'' cowboy of None \<Rightarrow> False | Some v \<Rightarrow> jmembers v \<noteq> None),
          pr_tool = jstr (jindex tool_call ''toolCallId'')\<rparr>)"

definition observe_event :: "event \<Rightarrow> (string \<times> pending_request) list \<Rightarrow> (string \<times> pending_request) list" where
  "observe_event ev pending =
     (case ev of
        PermissionRequest rid tool_call _ \<Rightarrow> AList.update rid (request_of tool_call) pending
      | PermissionResolved rid _ \<Rightarrow> adelete rid pending
      | TurnEnd _ _ \<Rightarrow> filter (\<lambda>p. pr_child (snd p)) pending
      | Lifecycle st _ \<Rightarrow> if st \<in> {Exited, Crashed, Interrupted} then [] else pending
      | Update update \<Rightarrow>
          (let kind = jindex update ''sessionUpdate'';
               tool = jstr (jindex update ''toolCallId'');
               settled = (kind = JStr ''tool_call_update''
                          \<and> jstr (jindex update ''status'') \<in> {Some ''completed'', Some ''failed''}
                          \<and> tool \<noteq> None);
               pending = (if settled then filter (\<lambda>p. pr_tool (snd p) \<noteq> tool) pending else pending)
           in if kind = JStr ''context_cleared'' then [] else pending))"

definition reconcile :: "string list \<Rightarrow> (string \<times> pending_request) list \<Rightarrow> (string \<times> pending_request) list" where
  "reconcile ids pending =
     fold (\<lambda>i acc. if map_of acc i = None
                   then AList.update i \<lparr>pr_question = None, pr_child = True, pr_tool = None\<rparr> acc else acc)
       ids (filter (\<lambda>p. fst p \<in> set ids) pending)"

definition attention_of :: "(string \<times> pending_request) list \<Rightarrow> attention" where
  "attention_of pending =
     (let questions = length (filter (\<lambda>p. pr_question (snd p) = Some True) pending);
          other = length (filter (\<lambda>p. pr_question (snd p) = None) pending)
      in \<lparr>at_approvals = length pending - questions - other, at_questions = questions, at_other = other\<rparr>)"

definition about_request :: "string \<Rightarrow> event \<Rightarrow> bool option" where
  "about_request rid ev =
     (case ev of
        PermissionResolved seen _ \<Rightarrow> if seen = rid then Some True else None
      | PermissionRequest seen _ _ \<Rightarrow> if seen = rid then Some False else None
      | _ \<Rightarrow> None)"

definition permission_already_resolved :: "event list \<Rightarrow> string \<Rightarrow> bool" where
  "permission_already_resolved events rid =
     (case List.map_filter (about_request rid) (rev events) of [] \<Rightarrow> False | b # _ \<Rightarrow> b)"

definition reconcile_session_attention :: "string \<Rightarrow> string list \<Rightarrow> hub \<Rightarrow> hub" where
  "reconcile_session_attention sid ids h =
     (case hb_sessions h sid of
        None \<Rightarrow> h
      | Some s \<Rightarrow>
          (let recovered = fold (\<lambda>e pending.
                 case e_event e of
                   PermissionRequest rid _ _ \<Rightarrow>
                     if rid \<in> set ids \<and> map_of pending rid = None then observe_event (e_event e) pending else pending
                 | _ \<Rightarrow> pending) (rev (se_log s)) (se_pending_actions s);
               pending = reconcile ids recovered;
               h' = update_session sid (\<lambda>s. s\<lparr>se_pending_actions := pending, se_attention := attention_of pending\<rparr>) h
           in if se_attention s \<noteq> attention_of pending then broadcast_sessions h' else h'))"

section \<open>Subagent snapshots\<close>

fun jnat :: "json \<Rightarrow> nat option" where
  "jnat (JInt n) = (if 0 \<le> n \<and> n < 2 ^ 64 then Some (nat n) else None)"
| "jnat _ = None"

definition jget_nat :: "string \<Rightarrow> json \<Rightarrow> nat option" where
  "jget_nat k v = Option.bind (jget k v) jnat"

definition subagent_terminal :: "json \<Rightarrow> bool" where
  "subagent_terminal update \<longleftrightarrow> jget_str ''state'' update = Some ''idle''"

definition or_zero :: "nat option \<Rightarrow> nat" where
  "or_zero v = (case v of None \<Rightarrow> 0 | Some n \<Rightarrow> n)"

definition snapshot_order :: "json \<Rightarrow> nat \<times> nat" where
  "snapshot_order update = (or_zero (jget_nat ''observedSeq'' update), or_zero (jget_nat ''revision'' update))"

definition snapshot_digest :: "host \<Rightarrow> json \<Rightarrow> string" where
  "snapshot_digest host update =
     ho_digest host (ho_text host
       (case update of
          JObj kvs \<Rightarrow> JObj (swap_remove ''terminalSeq'' (swap_remove ''incarnation'' (swap_remove ''observedSeq'' kvs)))
        | _ \<Rightarrow> update))"

definition mark_of :: "host \<Rightarrow> json \<Rightarrow> snapshot_mark" where
  "mark_of host update =
     \<lparr>sm_incarnation = jget_str ''incarnation'' update,
      sm_revision = or_zero (jget_nat ''revision'' update),
      sm_digest = snapshot_digest host update,
      sm_terminal = subagent_terminal update,
      sm_terminal_seq =
        (case jget ''terminalSeq'' update of
           Some v \<Rightarrow> jnat v
         | None \<Rightarrow> if subagent_terminal update then jget_nat ''observedSeq'' update else None)\<rparr>"

datatype verdict = VAccept | VDuplicate | VConflict | VStale

definition judge_snapshot :: "snapshot_mark option \<Rightarrow> snapshot_mark \<Rightarrow> verdict" where
  "judge_snapshot previous nxt =
     (case previous of
        None \<Rightarrow> VAccept
      | Some p \<Rightarrow>
          if sm_incarnation p \<noteq> sm_incarnation nxt then VAccept
          else if sm_revision p < sm_revision nxt then VAccept
          else if sm_revision nxt < sm_revision p then VStale
          else if sm_digest p = sm_digest nxt then VDuplicate
          else VConflict)"

datatype subagent_ending = Working | Ended | AlreadyEnded "nat option"

definition accept_subagent_snapshot :: "string \<Rightarrow> string \<Rightarrow> json \<Rightarrow> hub \<Rightarrow> subagent_ending option \<times> hub" where
  "accept_subagent_snapshot sid child update h =
     (let mark = mark_of (hb_host h) update;
          previous = hb_marks h (sid, child);
          ending = (if \<not> sm_terminal mark then Working
                    else case previous of
                      Some p \<Rightarrow> if sm_terminal p then AlreadyEnded (sm_terminal_seq p) else Ended
                    | None \<Rightarrow> Ended)
      in if judge_snapshot previous mark \<in> {VDuplicate, VStale} then (None, h)
         else (Some ending, h\<lparr>hb_marks := (hb_marks h)((sid, child) \<mapsto> mark)\<rparr>))"

definition settle_subagent_mark :: "string \<Rightarrow> string \<Rightarrow> json \<Rightarrow> hub \<Rightarrow> hub" where
  "settle_subagent_mark sid child update h =
     (case hb_marks h (sid, child) of
        None \<Rightarrow> h
      | Some m \<Rightarrow>
          h\<lparr>hb_marks := (hb_marks h)((sid, child) \<mapsto> m\<lparr>sm_terminal_seq := jget_nat ''terminalSeq'' update\<rparr>)\<rparr>)"

definition BACKGROUND_LATEST_PER_SESSION :: nat where "BACKGROUND_LATEST_PER_SESSION = 512"

text \<open>The first entry with the least key, as \<open>min_by_key\<close> returns it.\<close>

definition forget_key :: "string \<times> nat \<times> json \<Rightarrow> bool \<times> nat \<times> nat" where
  "forget_key p = (let update = snd (snd p) in (\<not> subagent_terminal update, snapshot_order update))"

fun key_less :: "bool \<times> nat \<times> nat \<Rightarrow> bool \<times> nat \<times> nat \<Rightarrow> bool" where
  "key_less (a, b, c) (a', b', c') \<longleftrightarrow> a < a' \<or> (a = a' \<and> (b < b' \<or> (b = b' \<and> c < c')))"

fun least_entry :: "(string \<times> nat \<times> json) list \<Rightarrow> (string \<times> nat \<times> json) option" where
  "least_entry [] = None"
| "least_entry (p # ps) =
     (case least_entry ps of None \<Rightarrow> Some p
      | Some q \<Rightarrow> if key_less (forget_key q) (forget_key p) then Some q else Some p)"

definition record_subagent_observation :: "string \<Rightarrow> string \<Rightarrow> nat \<Rightarrow> json \<Rightarrow> hub \<Rightarrow> hub" where
  "record_subagent_observation sid child anchor_seq update h =
     (let latest = AList.update child (anchor_seq, update) (hb_latest h sid);
          latest = (if BACKGROUND_LATEST_PER_SESSION < length latest
                    then (case least_entry latest of None \<Rightarrow> latest | Some victim \<Rightarrow> adelete (fst victim) latest)
                    else latest)
      in h\<lparr>hb_latest := (hb_latest h)(sid := latest)\<rparr>)"

definition live_subagent_child :: "event \<Rightarrow> string option" where
  "live_subagent_child ev =
     (case ev of
        Update update \<Rightarrow>
          (if jget_str ''sessionUpdate'' update = Some SUBAGENT_UPDATE
           then (case jget_str ''sessionId'' update of
                   None \<Rightarrow> None
                 | Some child \<Rightarrow> if valid_anchor_id child then Some child else None)
           else None)
      | _ \<Rightarrow> None)"

section \<open>Appending an event\<close>

definition HOT_TAIL_IDLE_MAX_BYTES :: nat where "HOT_TAIL_IDLE_MAX_BYTES = 512 * 1024"

definition hot_tail_budget_bytes :: "status \<Rightarrow> nat" where
  "hot_tail_budget_bytes st = (if st = Busy then HOT_TAIL_MAX_BYTES else HOT_TAIL_IDLE_MAX_BYTES)"

definition update_kind :: "envelope \<Rightarrow> string option" where
  "update_kind e = (case e_event e of Update update \<Rightarrow> jget_str ''sessionUpdate'' update | _ \<Rightarrow> None)"

definition is_user_message_chunk :: "envelope \<Rightarrow> bool" where
  "is_user_message_chunk e \<longleftrightarrow> update_kind e = Some ''user_message_chunk''"

definition prepare_attention_event :: "host \<Rightarrow> event \<Rightarrow> event" where
  "prepare_attention_event host ev =
     (case (compact_inbound_event ev, ho_externalize host) of
        (Update update, Some externalize) \<Rightarrow> Update (externalize update)
      | (ev', _) \<Rightarrow> ev')"

definition stamp_snapshot :: "subagent_ending option \<Rightarrow> nat \<Rightarrow> event \<Rightarrow> event" where
  "stamp_snapshot ending sq ev =
     (case ev of
        Update update \<Rightarrow>
          (let update = jset ''observedSeq'' (JInt (int sq)) update
           in Update (case ending of
                Some Ended \<Rightarrow> jset ''terminalSeq'' (JInt (int sq)) update
              | Some (AlreadyEnded (Some terminal)) \<Rightarrow> jset ''terminalSeq'' (JInt (int terminal)) update
              | _ \<Rightarrow> update))
      | _ \<Rightarrow> ev)"

text \<open>The canonical row replaces the row of its sequence number, is appended when it is new, or is gone from the tail.\<close>

definition fold_canonical :: "(envelope \<Rightarrow> nat) \<Rightarrow> nat \<Rightarrow> envelope \<Rightarrow> session \<Rightarrow> session" where
  "fold_canonical size_of sq canonical s =
     (case position (\<lambda>e. e_seq e = e_seq canonical) (se_log s) of
        Some i \<Rightarrow>
          s\<lparr>se_log := (se_log s)[i := canonical],
            se_log_bytes := usize_add (se_log_bytes s - size_of (se_log s ! i)) (size_of canonical)\<rparr>
      | None \<Rightarrow>
          if e_seq canonical = sq
          then s\<lparr>se_log := se_log s @ [canonical],
                 se_log_bytes := usize_add (se_log_bytes s) (size_of canonical),
                 se_event_count := usize_add (se_event_count s) 1\<rparr>
          else s)"

definition trim_session :: "(envelope \<Rightarrow> nat) \<Rightarrow> session \<Rightarrow> session" where
  "trim_session size_of s =
     (let (trimmed, log, bytes) =
            trim_hot_log size_of (se_log s) (se_log_bytes s) True (hot_tail_budget_bytes (se_status s));
          s = s\<lparr>se_log := log, se_log_bytes := bytes\<rparr>
      in if trimmed then s\<lparr>se_reached_start := False\<rparr> else s)"

definition mark_echoed :: "envelope \<Rightarrow> dispatched_prompt list \<Rightarrow> dispatched_prompt list" where
  "mark_echoed e dispatched =
     (case e_cmid e of
        None \<Rightarrow> dispatched
      | Some c \<Rightarrow>
          if is_user_message_chunk e
          then update_first (\<lambda>p. dp_cmid p = c) (\<lambda>p. p\<lparr>dp_echoed := True\<rparr>) dispatched
          else dispatched)"

definition answered_before :: "session \<Rightarrow> event \<Rightarrow> bool" where
  "answered_before s ev \<longleftrightarrow>
     (case ev of
        PermissionResolved rid _ \<Rightarrow> permission_already_resolved (map e_event (se_log s)) rid
      | _ \<Rightarrow> False)"

text \<open>
  One session's part of a push, under the session lock: the new session, the reducer, the envelope
  that is stored and sent, and the canonical sequence number of the row it changed.
\<close>

definition note_event :: "int \<Rightarrow> event \<Rightarrow> session \<Rightarrow> session" where
  "note_event now ev s =
     (let pending = observe_event ev (se_pending_actions s)
      in s\<lparr>se_pending_actions := pending, se_attention := attention_of pending,
           se_next_seq := se_next_seq s + 1,
           se_last_activity := (if counts_as_activity ev then now else se_last_activity s)\<rparr>)"

definition envelope_for :: "string \<Rightarrow> string option \<Rightarrow> subagent_ending option \<Rightarrow> event \<Rightarrow> string option \<Rightarrow> nat \<Rightarrow> envelope" where
  "envelope_for sid child ending ev cmid sq =
     \<lparr>e_session = sid, e_seq = sq,
      e_event = (if child \<noteq> None then stamp_snapshot ending sq ev else ev), e_cmid = cmid\<rparr>"

definition note_echo :: "envelope \<Rightarrow> session \<Rightarrow> session" where
  "note_echo e s = s\<lparr>se_dispatched := mark_echoed e (se_dispatched s)\<rparr>"

definition record_row :: "(envelope \<Rightarrow> nat) \<Rightarrow> nat \<Rightarrow> envelope option \<Rightarrow> bool \<Rightarrow> session \<Rightarrow> session" where
  "record_row size_of sq canonical persisted s =
     (let s = (case canonical of None \<Rightarrow> s | Some c \<Rightarrow> fold_canonical size_of sq c s)
      in if persisted then trim_session size_of s else s)"

definition apply_event ::
    "hub \<Rightarrow> string \<Rightarrow> string option \<Rightarrow> subagent_ending option \<Rightarrow> event \<Rightarrow> string option \<Rightarrow> session
     \<Rightarrow> session \<times> reducer \<times> envelope \<times> nat option" where
  "apply_event h sid child ending ev cmid s =
     (let e = envelope_for sid child ending ev cmid (se_next_seq s);
          (canonical, rd) = reduce e (hb_reducer h)
      in (record_row (estimated_envelope_bytes (ho_event_size (hb_host h))) (se_next_seq s) canonical
            (hb_persisted h) (note_echo e (note_event (hb_now_ms h) ev s)),
          rd, e, map_option e_seq canonical))"

definition publish_event :: "session \<Rightarrow> envelope \<Rightarrow> bool \<Rightarrow> hub \<Rightarrow> hub" where
  "publish_event s e attention_changed h =
     (let h = store (AppendEvent e) h;
          h = (if is_user_message_chunk e \<and> se_agent_session_id s \<noteq> None
               then store (SetAgentSessionId (e_session e) (se_agent_session_id s)) h else h);
          h = emit (EventSent e) h
      in if attention_changed then broadcast_sessions h else h)"

definition settle_snapshot :: "string \<Rightarrow> string option \<Rightarrow> envelope \<Rightarrow> nat option \<Rightarrow> hub \<Rightarrow> hub" where
  "settle_snapshot sid child e anchor h =
     (case (child, e_event e) of
        (Some c, Update update) \<Rightarrow>
          (let h = settle_subagent_mark sid c update h
           in case anchor of None \<Rightarrow> h | Some a \<Rightarrow> record_subagent_observation sid c a update h)
      | _ \<Rightarrow> h)"

definition append_event :: "string \<Rightarrow> string option \<Rightarrow> subagent_ending option \<Rightarrow> event \<Rightarrow> string option \<Rightarrow> hub \<Rightarrow> hub" where
  "append_event sid child ending ev cmid h =
     (case hb_sessions h sid of
        None \<Rightarrow> h
      | Some s \<Rightarrow>
          (let ev = annotate_dispatched_prompt s cmid ev
           in if answered_before s ev then h
              else (let (s', rd, e, anchor) = apply_event h sid child ending ev cmid s
                    in publish_event s' e (se_attention s \<noteq> se_attention s')
                         (settle_snapshot sid child e anchor
                           (update_session sid (\<lambda>_. s') (h\<lparr>hb_reducer := rd\<rparr>))))))"

definition push_tagged :: "string \<Rightarrow> event \<Rightarrow> string option \<Rightarrow> hub \<Rightarrow> hub" where
  "push_tagged sid ev cmid h =
     (let ev = prepare_attention_event (hb_host h) ev
      in case (live_subagent_child ev, ev) of
           (Some child, Update update) \<Rightarrow>
             (case accept_subagent_snapshot sid child update h of
                (None, h') \<Rightarrow> h'
              | (Some ending, h') \<Rightarrow> append_event sid (Some child) (Some ending) ev cmid h')
         | _ \<Rightarrow> append_event sid None None ev cmid h)"

definition push :: "string \<Rightarrow> event \<Rightarrow> hub \<Rightarrow> hub" where
  "push sid ev h = push_tagged sid ev None h"

end
