(* ===== verification/Send_Queue.thy ===== *)
theory Send_Queue
  imports Hub_Push Hub_Context
begin

text \<open>
  The send queue of \<^verbatim>\<open>src/src/core/hub_queue.rs\<close> with the dispatch bookkeeping of
  \<^verbatim>\<open>src/src/core/hub_superagent.rs\<close>: when a queued prompt may go to its agent, how it is claimed and
  handed to the dispatcher, and what happens when it comes back. The draft operations and the status
  changes that drive the queue are in the theories above this one. A prompt that the full channel
  refuses is put back while the channel's lock is held; for a supervised prompt that path asks for the
  lock again and never returns, which the flag \<open>hb_stuck\<close> records.
\<close>

section \<open>Identities\<close>

definition is_client_cmid :: "string \<Rightarrow> bool" where
  "is_client_cmid c \<longleftrightarrow> c \<noteq> [] \<and> \<not> starts_with c ''__'' \<and> \<not> starts_with c ''cowboy-''"

definition is_authored_cmid :: "string \<Rightarrow> bool" where
  "is_authored_cmid c \<longleftrightarrow>
     is_client_cmid c \<and> \<not> starts_with c MANAGED_CALL_CMID_PREFIX \<and> \<not> starts_with c CALL_NOTICE_PREFIX"

definition tracks_delivery :: "string \<Rightarrow> bool" where
  "tracks_delivery c \<longleftrightarrow> is_client_cmid c \<or> starts_with c ''cowboy-superagent:''"

definition queued_cmid :: "string \<Rightarrow> queued_message list \<Rightarrow> bool" where
  "queued_cmid c ms \<longleftrightarrow> list_ex (\<lambda>m. qm_cmid m = Some c) ms"

definition prompt_already_accepted :: "session \<Rightarrow> string \<Rightarrow> bool" where
  "prompt_already_accepted s c \<longleftrightarrow>
     queued_cmid c (se_queue s)
   \<or> (tracks_delivery c
      \<and> (list_ex (\<lambda>p. dp_cmid p = c) (se_dispatched s) \<or> list_ex (\<lambda>e. e_cmid e = Some c) (se_log s)))"

section \<open>Claiming the session\<close>

definition note_dispatched :: "string option \<Rightarrow> session \<Rightarrow> session" where
  "note_dispatched cmid s =
     (case cmid of
        None \<Rightarrow> s
      | Some c \<Rightarrow>
          if \<not> tracks_delivery c \<or> list_ex (\<lambda>p. dp_cmid p = c) (se_dispatched s) then s
          else (let kept = (if 64 \<le> length (se_dispatched s) then tl (se_dispatched s) else se_dispatched s)
                in s\<lparr>se_dispatched := kept @ [\<lparr>dp_cmid = c, dp_epoch = se_in_flight_epoch s, dp_echoed = False\<rparr>]\<rparr>))"

definition claim_guard :: "session \<Rightarrow> session" where
  "claim_guard s =
     (let epoch = se_in_flight_epoch s + 1
      in s\<lparr>se_in_flight_epoch := epoch, se_in_flight := True, se_dispatch_pending := Some epoch\<rparr>)"

definition claim :: "string option \<Rightarrow> session \<Rightarrow> session" where
  "claim cmid s = note_dispatched cmid (claim_guard s)"

definition request_for :: "string \<Rightarrow> session \<Rightarrow> string \<Rightarrow> json list \<Rightarrow> string option \<Rightarrow> bool \<Rightarrow> dispatch_req" where
  "request_for sid s text content cmid explicit =
     \<lparr>dr_epoch = se_in_flight_epoch s, dr_supervision = None, dr_session = sid, dr_text = text,
      dr_content = content, dr_cmid = cmid, dr_explicit = explicit\<rparr>"

definition ready :: "bool \<Rightarrow> session \<Rightarrow> bool" where
  "ready allow_revive s \<longleftrightarrow>
     (if allow_revive then se_status s \<in> {Running, Exited, Crashed, Interrupted} else se_status s = Running)
   \<and> \<not> se_in_flight s \<and> se_dispatch_pending s = None \<and> se_delivery_hold s = None"

datatype drain_verdict = Dispatch | Trashed | NotReady | Paused | EmptyQueue | ContextHold | Editing

definition drain_decision :: "session \<Rightarrow> bool \<Rightarrow> bool \<Rightarrow> (string option \<Rightarrow> bool) \<Rightarrow> drain_verdict" where
  "drain_decision s allow_revive manual context_allows =
     (if se_trashed_at_ms s \<noteq> None then Trashed
      else if \<not> ready allow_revive s then NotReady
      else if \<not> manual \<and> se_paused s then Paused
      else case se_queue s of
        [] \<Rightarrow> EmptyQueue
      | head # _ \<Rightarrow>
          if \<not> context_allows (qm_cmid head) then ContextHold
          else if \<not> manual \<and> se_editing s \<noteq> None then Editing
          else Dispatch)"

section \<open>Handing a prompt to the dispatcher\<close>

definition plain_message :: "string \<Rightarrow> string \<Rightarrow> json list \<Rightarrow> string option \<Rightarrow> queued_message" where
  "plain_message i text content cmid =
     \<lparr>qm_id = i, qm_text = text, qm_content = content, qm_cmid = cmid, qm_schedule = None\<rparr>"

text \<open>\<open>Vec<String>::join\<close> with a line break.\<close>

fun join_lines :: "string list \<Rightarrow> string" where
  "join_lines [] = []"
| "join_lines [l] = l"
| "join_lines (l # ls) = l @ newline @ join_lines ls"

definition free_guard :: "session \<Rightarrow> session" where
  "free_guard s = s\<lparr>se_in_flight := False, se_dispatch_pending := None\<rparr>"

definition forget_dispatched :: "string option \<Rightarrow> session \<Rightarrow> session" where
  "forget_dispatched cmid s =
     (case cmid of
        None \<Rightarrow> s
      | Some c \<Rightarrow> s\<lparr>se_dispatched := filter (\<lambda>p. dp_cmid p \<noteq> c) (se_dispatched s)\<rparr>)"

definition insert_front :: "queued_message \<Rightarrow> session \<Rightarrow> session" where
  "insert_front m s = s\<lparr>se_queue := m # se_queue s\<rparr>"

definition insert_back :: "queued_message \<Rightarrow> session \<Rightarrow> session" where
  "insert_back m s = s\<lparr>se_queue := se_queue s @ [m]\<rparr>"

definition returned_text :: "json list \<Rightarrow> json list \<Rightarrow> string \<Rightarrow> string" where
  "returned_text original content text =
     (if length content < length original
      then join_lines (List.map_filter (jget_str ''text'') content) else text)"

definition return_prompt :: "string \<Rightarrow> string \<Rightarrow> json list \<Rightarrow> string option \<Rightarrow> hub \<Rightarrow> hub" where
  "return_prompt sid text original cmid h =
     (let content = without_preamble h sid cmid original;
          text = returned_text original content text
      in case hb_sessions h sid of
           None \<Rightarrow> h
         | Some s \<Rightarrow>
             (let h = update_session sid (\<lambda>s. forget_dispatched cmid (free_guard s)) h
              in if (case cmid of None \<Rightarrow> False | Some c \<Rightarrow> queued_cmid c (se_queue s)) then h
                 else (let (i, h) = next_qid h
                       in emit_pending sid
                            (update_session sid (insert_front (plain_message i text content cmid)) h))))"

definition is_supervised :: "string option \<Rightarrow> bool" where
  "is_supervised cmid \<longleftrightarrow> (case cmid of None \<Rightarrow> False | Some c \<Rightarrow> starts_with c SUPERAGENT_PREFIX)"

definition record_no_replay :: "string \<Rightarrow> string option \<Rightarrow> hub \<Rightarrow> hub" where
  "record_no_replay sid cmid h =
     record_session_error sid
       (''Super-agent delivery returned without replay: '' @ (case cmid of None \<Rightarrow> [] | Some c \<Rightarrow> c)) h"

definition abandon_guard :: "string option \<Rightarrow> session \<Rightarrow> session" where
  "abandon_guard cmid s =
     (if list_ex (\<lambda>p. Some (dp_cmid p) = cmid \<and> dp_epoch p = se_in_flight_epoch s) (se_dispatched s)
      then free_guard s else s)"

definition send_dispatch :: "dispatch_req \<Rightarrow> hub \<Rightarrow> hub" where
  "send_dispatch req h =
     (let sid = dr_session req in
      case hb_channel h of
        None \<Rightarrow> ownership_drop sid (dr_epoch req) h
      | Some ch \<Rightarrow>
          (case chan_send req ch of
             (True, ch') \<Rightarrow> h\<lparr>hb_channel := Some ch'\<rparr>
           | (False, _) \<Rightarrow>
               if is_supervised (dr_cmid req)
               then update_session sid (abandon_guard (dr_cmid req)) (record_no_replay sid (dr_cmid req) h)
                      \<lparr>hb_stuck := True\<rparr>
               else ownership_drop sid (dr_epoch req)
                      (broadcast_error (Some sid) ''dispatch queue is full; prompt remains queued''
                        (return_prompt sid (dr_text req) (dr_content req) (dr_cmid req) h))))"

section \<open>Draining\<close>

definition take_head :: "queued_message \<Rightarrow> session \<Rightarrow> session" where
  "take_head head s = claim (qm_cmid head) (s\<lparr>se_queue := tl (se_queue s), se_explicit_wait := False\<rparr>)"

definition drain_head :: "string \<Rightarrow> bool \<Rightarrow> bool \<Rightarrow> hub \<Rightarrow> hub" where
  "drain_head sid allow_revive manual h =
     (if hb_stuck h \<or> \<not> wired h then h
      else case hb_sessions h sid of
        None \<Rightarrow> h
      | Some s \<Rightarrow>
          if drain_decision s allow_revive manual (context_allows_dispatch h sid) \<noteq> Dispatch then h
          else (let head = hd (se_queue s); s' = take_head head s
                in send_dispatch (request_for sid s' (qm_text head) (qm_content head) (qm_cmid head) manual)
                     (emit_pending sid (update_session sid (take_head head) h))))"

definition try_drain :: "string \<Rightarrow> hub \<Rightarrow> hub" where
  "try_drain sid h = drain_head sid False False h"

definition drain_now :: "string \<Rightarrow> hub \<Rightarrow> hub" where
  "drain_now sid h = drain_head sid True True h"

definition retry_resource_wait :: "string \<Rightarrow> hub \<Rightarrow> hub" where
  "retry_resource_wait sid h = drain_head sid True False h"

definition RESOURCE_WAIT_PREFIX :: string where "RESOURCE_WAIT_PREFIX = ''session_resource_wait:''"

definition set_explicit_wait :: "string \<Rightarrow> bool \<Rightarrow> hub \<Rightarrow> hub" where
  "set_explicit_wait sid explicit h =
     (let h = update_session sid (\<lambda>s. s\<lparr>se_explicit_wait := explicit\<rparr>) h;
          key = RESOURCE_WAIT_PREFIX @ sid
      in case setting key h of
           Some (JObj wait) \<Rightarrow>
             (if (case Option.bind (jget ''explicit'' (JObj wait)) jbool of None \<Rightarrow> False | Some b \<Rightarrow> b) \<noteq> explicit
              then set_setting key (jset ''explicit'' (JBool explicit) (JObj wait)) h else h)
         | _ \<Rightarrow> h)"

definition clear_in_flight :: "string \<Rightarrow> hub \<Rightarrow> hub" where
  "clear_in_flight sid h = try_drain sid (update_session sid free_guard h)"

definition finish_turn :: "session \<Rightarrow> session" where
  "finish_turn s = s\<lparr>se_in_flight := False, se_dispatch_pending := None, se_latched := True\<rparr>"

definition complete_turn :: "string \<Rightarrow> hub \<Rightarrow> hub" where
  "complete_turn sid h =
     (case hb_sessions h sid of
        None \<Rightarrow> h
      | Some s \<Rightarrow>
          if se_latched s \<or> se_dispatch_pending s \<noteq> None then h
          else try_drain sid (update_session sid finish_turn h))"

definition reconcile_runtime_idle :: "string \<Rightarrow> u64 \<Rightarrow> hub \<Rightarrow> hub" where
  "reconcile_runtime_idle sid expected h =
     (case hb_sessions h sid of
        None \<Rightarrow> h
      | Some s \<Rightarrow>
          if se_status s \<noteq> Running \<or> \<not> se_in_flight s \<or> se_in_flight_epoch s \<noteq> expected
             \<or> se_dispatch_pending s \<noteq> None then h
          else try_drain sid (update_session sid finish_turn h))"

definition abandon_superagent_prompt :: "string \<Rightarrow> string \<Rightarrow> hub \<Rightarrow> hub" where
  "abandon_superagent_prompt sid c h = try_drain sid (update_session sid (abandon_guard (Some c)) h)"

definition requeue_prompt :: "string \<Rightarrow> string \<Rightarrow> json list \<Rightarrow> string option \<Rightarrow> hub \<Rightarrow> hub" where
  "requeue_prompt sid text content cmid h =
     (case cmid of
        Some c \<Rightarrow>
          if starts_with c SUPERAGENT_PREFIX then abandon_superagent_prompt sid c (record_no_replay sid cmid h)
          else return_prompt sid text content cmid h
      | None \<Rightarrow> return_prompt sid text content cmid h)"

definition DELIVERY_HOLD_PREFIX :: string where "DELIVERY_HOLD_PREFIX = ''session_delivery_hold:''"

definition publish_delivery_hold :: "string \<Rightarrow> string option \<Rightarrow> hub \<Rightarrow> hub" where
  "publish_delivery_hold sid operation h =
     (case hb_sessions h sid of
        None \<Rightarrow> h
      | Some _ \<Rightarrow>
          (let h = broadcast_sessions
                     (load_setting (DELIVERY_HOLD_PREFIX @ sid) (case operation of None \<Rightarrow> JNull | Some t \<Rightarrow> JStr t)
                       (update_session sid (\<lambda>s. s\<lparr>se_delivery_hold := operation\<rparr>) h))
           in if operation = None then try_drain sid h else h))"

definition dispatch_interrupt_once :: "string \<Rightarrow> string \<Rightarrow> string \<Rightarrow> json list \<Rightarrow> hub \<Rightarrow> bool \<times> hub" where
  "dispatch_interrupt_once sid operation text content h =
     (if hb_stuck h \<or> \<not> wired h then (False, h)
      else case hb_sessions h sid of
        None \<Rightarrow> (False, h)
      | Some s \<Rightarrow>
          if se_delivery_hold s \<noteq> Some operation \<or> \<not> context_allows_dispatch h sid (Some operation)
             \<or> se_status s \<noteq> Running \<or> se_in_flight s \<or> se_dispatch_pending s \<noteq> None then (False, h)
          else if prompt_already_accepted s operation then (True, h)
          else (let s' = claim (Some operation) s
                in (True, send_dispatch (request_for sid s' text content (Some operation) True)
                            (update_session sid (claim (Some operation)) h))))"

section \<open>Submitting\<close>

definition confirm_delivered :: "string \<Rightarrow> string \<Rightarrow> hub \<Rightarrow> hub" where
  "confirm_delivered sid c h =
     (case hb_sessions h sid of
        None \<Rightarrow> h
      | Some s \<Rightarrow>
          if \<not> queued_cmid c (se_queue s @ se_drafts s)
             \<and> \<not> list_ex (\<lambda>p. dp_cmid p = c \<and> dp_echoed p) (se_dispatched s)
             \<and> \<not> list_ex (\<lambda>e. e_cmid e = Some c \<and> is_user_message_chunk e) (se_log s) then h
          else (let confirmed = cmids_of (se_queue s) (se_drafts s)
                in sync_emit sid (se_queue s) (se_drafts s)
                     (if c \<in> set confirmed then confirmed else confirmed @ [c]) h))"

definition accepted_cmid :: "session \<Rightarrow> string option \<Rightarrow> bool" where
  "accepted_cmid s cmid \<longleftrightarrow> (case cmid of None \<Rightarrow> False | Some c \<Rightarrow> prompt_already_accepted s c)"

definition claim_and_send :: "string \<Rightarrow> string \<Rightarrow> json list \<Rightarrow> string option \<Rightarrow> session \<Rightarrow> hub \<Rightarrow> hub" where
  "claim_and_send sid text content cmid s h =
     send_dispatch (request_for sid (claim cmid s) text content cmid True) (update_session sid (claim cmid) h)"

definition enqueue :: "bool \<Rightarrow> string \<Rightarrow> string \<Rightarrow> json list \<Rightarrow> string option \<Rightarrow> hub \<Rightarrow> hub" where
  "enqueue front sid text content cmid h =
     (let (i, h) = next_qid h; m = plain_message i text content cmid
      in emit_pending sid (update_session sid (if front then insert_front m else insert_back m) h))"

definition submit_inner ::
    "string \<Rightarrow> string \<Rightarrow> json list \<Rightarrow> string option \<Rightarrow> bool \<Rightarrow> bool \<Rightarrow> hub \<Rightarrow> hub" where
  "submit_inner sid text content cmid managed front h =
     (if \<not> managed \<and> is_managed_child sid h
      then broadcast_error (Some sid) (''This child conversation is controlled by its parent'' @ [CHR 0x27] @ ''s managed call'') h
      else
        (let h = (if is_human (origin_from_cmid cmid) then notify_human_turn sid h else h)
         in if hb_stuck h then h
            else case hb_sessions h sid of
              None \<Rightarrow> h
            | Some s \<Rightarrow>
                if accepted_cmid s cmid then confirm_delivered sid (the cmid) h
                else if wired h \<and> \<not> se_paused s \<and> se_trashed_at_ms s = None \<and> ready True s
                        \<and> se_queue s = [] \<and> context_allows_dispatch h sid cmid
                then claim_and_send sid text content cmid s h
                else enqueue front sid text content cmid h))"

definition submit :: "string \<Rightarrow> string \<Rightarrow> json list \<Rightarrow> string option \<Rightarrow> hub \<Rightarrow> hub" where
  "submit sid text content cmid h = submit_inner sid text content cmid False False h"

definition submit_context :: "string \<Rightarrow> string \<Rightarrow> json list \<Rightarrow> string \<Rightarrow> hub \<Rightarrow> hub" where
  "submit_context sid text content c h =
     drain_head sid True False (submit_inner sid text content (Some c) False True h)"

definition submit_managed_prompt :: "string \<Rightarrow> string \<Rightarrow> string \<Rightarrow> hub \<Rightarrow> hub" where
  "submit_managed_prompt sid call_id text h =
     submit_inner sid text [] (Some (MANAGED_CALL_CMID_PREFIX @ call_id)) True False h"

definition submit_call_notice :: "string \<Rightarrow> string \<Rightarrow> string \<Rightarrow> hub \<Rightarrow> hub" where
  "submit_call_notice sid call_id text h =
     submit_inner sid text [] (Some (CALL_NOTICE_PREFIX @ call_id)) False False h"

definition force_submit_once ::
    "string \<Rightarrow> string \<Rightarrow> json list \<Rightarrow> string option \<Rightarrow> bool \<Rightarrow> hub \<Rightarrow> bool option \<times> hub" where
  "force_submit_once sid text content cmid interrupt_on_busy h =
     (if is_managed_child sid h \<or> hb_stuck h then (None, h)
      else case hb_sessions h sid of
        None \<Rightarrow> (None, h)
      | Some s \<Rightarrow>
          if accepted_cmid s cmid then (None, confirm_delivered sid (the cmid) h)
          else if wired h \<and> ready True s \<and> se_queue s = [] \<and> context_allows_dispatch h sid cmid
          then (Some False, claim_and_send sid text content cmid s h)
          else (Some (interrupt_on_busy \<and> context_allows_dispatch h sid cmid),
                enqueue True sid text content cmid h))"

definition force_submit ::
    "string \<Rightarrow> string \<Rightarrow> json list \<Rightarrow> string option \<Rightarrow> bool \<Rightarrow> hub \<Rightarrow> bool \<times> hub" where
  "force_submit sid text content cmid interrupt_on_busy h =
     (case force_submit_once sid text content cmid interrupt_on_busy h of
        (None, h') \<Rightarrow> (False, h')
      | (Some b, h') \<Rightarrow> (b, h'))"

end
