(* ===== verification/Draft_Queue.thy ===== *)
theory Draft_Queue
  imports Send_Queue
begin

text \<open>
  Editing the queue and the drafts: the rest of \<^verbatim>\<open>src/src/core/hub_queue.rs\<close>. Every operation changes
  one session under the lock (a draft move changes two), re-sends the lists, and tries the drain where
  the code does. A scheduled draft fires in two lock steps, \<open>take_fired_draft\<close> and \<open>land_fired_draft\<close>.
\<close>

section \<open>The queue\<close>

definition with_id :: "string \<Rightarrow> queued_message \<Rightarrow> bool" where
  "with_id i m \<longleftrightarrow> qm_id m = i"

definition has_id :: "string \<Rightarrow> queued_message list \<Rightarrow> bool" where
  "has_id i ms \<longleftrightarrow> list_ex (with_id i) ms"

definition drop_id :: "string \<Rightarrow> queued_message list \<Rightarrow> queued_message list" where
  "drop_id i ms = filter (\<lambda>m. \<not> with_id i m) ms"

definition release_editing :: "string \<Rightarrow> session \<Rightarrow> session" where
  "release_editing i s = (if se_editing s = Some i then s\<lparr>se_editing := None\<rparr> else s)"

definition drop_queued :: "string \<Rightarrow> session \<Rightarrow> session" where
  "drop_queued i s = release_editing i (s\<lparr>se_queue := drop_id i (se_queue s)\<rparr>)"

definition remove_queued :: "string \<Rightarrow> string \<Rightarrow> hub \<Rightarrow> bool \<times> hub" where
  "remove_queued sid i h =
     (case hb_sessions h sid of
        None \<Rightarrow> (False, h)
      | Some s \<Rightarrow> (has_id i (se_queue s), try_drain sid (emit_pending sid (update_session sid (drop_queued i) h))))"

definition drop_queued_cmid :: "string \<Rightarrow> session \<Rightarrow> session" where
  "drop_queued_cmid c s = s\<lparr>se_queue := filter (\<lambda>m. qm_cmid m \<noteq> Some c) (se_queue s)\<rparr>"

definition remove_queued_by_cmid :: "string \<Rightarrow> string \<Rightarrow> hub \<Rightarrow> bool \<times> hub" where
  "remove_queued_by_cmid sid c h =
     (case hb_sessions h sid of
        None \<Rightarrow> (False, h)
      | Some s \<Rightarrow>
          if queued_cmid c (se_queue s)
          then (True, try_drain sid (emit_pending sid (update_session sid (drop_queued_cmid c) h)))
          else (False, h))"

definition rewrite :: "string \<Rightarrow> json list \<Rightarrow> queued_message \<Rightarrow> queued_message" where
  "rewrite text content m = m\<lparr>qm_text := text, qm_content := content\<rparr>"

definition edit_in_queue :: "string \<Rightarrow> string \<Rightarrow> json list \<Rightarrow> session \<Rightarrow> session" where
  "edit_in_queue i text content s =
     (if is_blank text \<and> content = [] then drop_queued i s
      else s\<lparr>se_queue := update_first (with_id i) (rewrite text content) (se_queue s)\<rparr>)"

definition edit_queued :: "string \<Rightarrow> string \<Rightarrow> string \<Rightarrow> json list \<Rightarrow> hub \<Rightarrow> bool \<times> hub" where
  "edit_queued sid i text content h =
     (case hb_sessions h sid of
        None \<Rightarrow> (False, h)
      | Some s \<Rightarrow>
          (has_id i (se_queue s),
           try_drain sid (emit_pending sid (update_session sid (edit_in_queue i text content) h))))"

definition wipe_queue :: "session \<Rightarrow> session" where
  "wipe_queue s = s\<lparr>se_queue := [], se_editing := None\<rparr>"

definition clear_queue :: "string \<Rightarrow> hub \<Rightarrow> hub" where
  "clear_queue sid h =
     (case hb_sessions h sid of None \<Rightarrow> h | Some _ \<Rightarrow> emit_pending sid (update_session sid wipe_queue h))"

definition move_to_front :: "string \<Rightarrow> session \<Rightarrow> session" where
  "move_to_front i s =
     (case position (with_id i) (se_queue s) of
        None \<Rightarrow> s
      | Some k \<Rightarrow> s\<lparr>se_queue := se_queue s ! k # remove_nth k (se_queue s)\<rparr>)"

definition request_send_queued :: "string \<Rightarrow> string \<Rightarrow> hub \<Rightarrow> hub" where
  "request_send_queued sid i h =
     (if is_managed_child sid h then h
      else case hb_sessions h sid of
        None \<Rightarrow> h
      | Some s \<Rightarrow>
          if has_id i (se_queue s)
          then drain_head sid True True (emit_pending sid (update_session sid (move_to_front i) h))
          else h)"

definition park_queued :: "string \<Rightarrow> session \<Rightarrow> session" where
  "park_queued i s =
     (case position (with_id i) (se_queue s) of
        None \<Rightarrow> s
      | Some k \<Rightarrow>
          (let m = se_queue s ! k
           in release_editing i (s\<lparr>se_queue := remove_nth k (se_queue s), se_drafts := se_drafts s @ [m]\<rparr>)))"

definition queued_to_draft :: "string \<Rightarrow> string \<Rightarrow> hub \<Rightarrow> hub" where
  "queued_to_draft sid i h =
     (case hb_sessions h sid of
        None \<Rightarrow> h
      | Some s \<Rightarrow>
          if has_id i (se_queue s)
          then try_drain sid (emit_pending sid (update_session sid (park_queued i) h)) else h)"

definition hold_editing :: "string option \<Rightarrow> session \<Rightarrow> session" where
  "hold_editing i s = s\<lparr>se_editing_epoch := se_editing_epoch s + 1, se_editing := i\<rparr>"

definition set_queue_editing :: "string \<Rightarrow> string option \<Rightarrow> hub \<Rightarrow> u64 \<times> hub" where
  "set_queue_editing sid i h =
     (case hb_sessions h sid of
        None \<Rightarrow> (0, h)
      | Some s \<Rightarrow>
          (let h = update_session sid (hold_editing i) h
           in (se_editing_epoch s + 1, if i = None then try_drain sid h else h)))"

definition release_queue_editing_if_epoch :: "string \<Rightarrow> string \<Rightarrow> u64 \<Rightarrow> hub \<Rightarrow> bool \<times> hub" where
  "release_queue_editing_if_epoch sid i epoch h =
     (case hb_sessions h sid of
        None \<Rightarrow> (False, h)
      | Some s \<Rightarrow>
          if se_editing_epoch s \<noteq> epoch \<or> se_editing s \<noteq> Some i then (False, h)
          else (True, try_drain sid (update_session sid (hold_editing None) h)))"

definition sort_queue :: "string list \<Rightarrow> session \<Rightarrow> session" where
  "sort_queue order s = s\<lparr>se_queue := sort_by_id_order qm_id order (se_queue s)\<rparr>"

definition reorder_queue :: "string \<Rightarrow> string list \<Rightarrow> hub \<Rightarrow> hub" where
  "reorder_queue sid order h =
     (case hb_sessions h sid of
        None \<Rightarrow> h
      | Some _ \<Rightarrow> try_drain sid (emit_pending sid (update_session sid (sort_queue order) h)))"

section \<open>Drafts\<close>

definition set_drafts :: "(queued_message list \<Rightarrow> queued_message list) \<Rightarrow> session \<Rightarrow> session" where
  "set_drafts f s = s\<lparr>se_drafts := f (se_drafts s)\<rparr>"

definition add_draft :: "string \<Rightarrow> string \<Rightarrow> json list \<Rightarrow> string option \<Rightarrow> hub \<Rightarrow> hub" where
  "add_draft sid text content cmid h =
     (case hb_sessions h sid of
        None \<Rightarrow> h
      | Some s \<Rightarrow>
          if (case cmid of None \<Rightarrow> False | Some c \<Rightarrow> queued_cmid c (se_drafts s))
          then confirm_delivered sid (the cmid) h
          else (let (i, h) = next_qid h
                in emit_pending sid
                     (update_session sid (set_drafts (\<lambda>ds. ds @ [plain_message i text content cmid])) h)))"

definition draft_position :: "string option \<Rightarrow> string option \<Rightarrow> queued_message list \<Rightarrow> nat option" where
  "draft_position i cmid ds =
     (case Option.bind i (\<lambda>i. position (with_id i) ds) of
        Some k \<Rightarrow> Some k
      | None \<Rightarrow> Option.bind cmid (\<lambda>c. position (\<lambda>m. qm_cmid m = Some c) ds))"

definition reschedule :: "string \<Rightarrow> json list \<Rightarrow> draft_schedule \<Rightarrow> queued_message \<Rightarrow> queued_message" where
  "reschedule text content sc m =
     (if is_blank text \<and> content = [] then m else rewrite text content m)\<lparr>qm_schedule := Some sc\<rparr>"

definition schedule_draft ::
    "string \<Rightarrow> string option \<Rightarrow> string option \<Rightarrow> string \<Rightarrow> json list \<Rightarrow> int \<Rightarrow> delivery \<Rightarrow> hub \<Rightarrow> hub" where
  "schedule_draft sid i cmid text content fire_at_ms delivery h =
     (case hb_sessions h sid of
        None \<Rightarrow> h
      | Some s \<Rightarrow>
          (let sc = \<lparr>sc_fire_at_ms = fire_at_ms, sc_delivery = delivery\<rparr>;
               (did, h) =
                 (case draft_position i cmid (se_drafts s) of
                    Some k \<Rightarrow>
                      (qm_id (se_drafts s ! k),
                       update_session sid (set_drafts (\<lambda>ds. ds[k := reschedule text content sc (ds ! k)])) h)
                  | None \<Rightarrow>
                      (let (did, h) = next_qid h;
                           m = (plain_message did text content cmid)\<lparr>qm_schedule := Some sc\<rparr>
                       in (did, update_session sid (set_drafts (\<lambda>ds. ds @ [m])) h)))
           in arm_draft_timer sid did fire_at_ms (broadcast_sessions (emit_pending sid h))))"

definition scheduled :: "queued_message \<Rightarrow> bool" where
  "scheduled m \<longleftrightarrow> qm_schedule m \<noteq> None"

definition unschedule :: "queued_message \<Rightarrow> queued_message" where
  "unschedule m = m\<lparr>qm_schedule := None\<rparr>"

definition unschedule_draft :: "string \<Rightarrow> string \<Rightarrow> hub \<Rightarrow> hub" where
  "unschedule_draft sid i h =
     (case hb_sessions h sid of
        None \<Rightarrow> h
      | Some s \<Rightarrow>
          (case find (with_id i) (se_drafts s) of
             None \<Rightarrow> h
           | Some m \<Rightarrow>
               if scheduled m
               then cancel_draft_timer sid i
                      (broadcast_sessions (emit_pending sid
                        (update_session sid (set_drafts (update_first (with_id i) unschedule)) h)))
               else h))"

definition had_schedule :: "string \<Rightarrow> queued_message list \<Rightarrow> bool" where
  "had_schedule i ds \<longleftrightarrow> list_ex (\<lambda>m. with_id i m \<and> scheduled m) ds"

definition settle_unscheduled :: "string \<Rightarrow> string \<Rightarrow> bool \<Rightarrow> hub \<Rightarrow> hub" where
  "settle_unscheduled sid i unscheduled h =
     (if unscheduled then broadcast_sessions (cancel_draft_timer sid i h) else h)"

definition edit_draft :: "string \<Rightarrow> string \<Rightarrow> string \<Rightarrow> json list \<Rightarrow> hub \<Rightarrow> bool \<times> hub" where
  "edit_draft sid i text content h =
     (case hb_sessions h sid of
        None \<Rightarrow> (False, h)
      | Some s \<Rightarrow>
          (has_id i (se_drafts s),
           if is_blank text \<and> content = []
           then settle_unscheduled sid i (had_schedule i (se_drafts s))
                  (emit_pending sid (update_session sid (set_drafts (drop_id i)) h))
           else emit_pending sid
                  (update_session sid (set_drafts (update_first (with_id i) (rewrite text content))) h)))"

definition remove_draft_if_unchanged :: "string \<Rightarrow> string \<Rightarrow> string \<Rightarrow> json list \<Rightarrow> hub \<Rightarrow> bool \<times> hub" where
  "remove_draft_if_unchanged sid identity text content h =
     (case hb_sessions h sid of
        None \<Rightarrow> (False, h)
      | Some s \<Rightarrow>
          (case position (\<lambda>m. qm_cmid m = Some identity \<or> qm_id m = identity) (se_drafts s) of
             None \<Rightarrow> (False, h)
           | Some k \<Rightarrow>
               (let row = se_drafts s ! k
                in if scheduled row \<or> qm_text row \<noteq> text \<or> \<not> list_all2 json_eq (qm_content row) content then (False, h)
                   else (True, emit_pending sid (update_session sid (set_drafts (remove_nth k)) h)))))"

definition remove_draft :: "string \<Rightarrow> string \<Rightarrow> hub \<Rightarrow> bool \<times> hub" where
  "remove_draft sid i h =
     (case hb_sessions h sid of
        None \<Rightarrow> (False, h)
      | Some s \<Rightarrow>
          (has_id i (se_drafts s),
           settle_unscheduled sid i (had_schedule i (se_drafts s))
             (emit_pending sid (update_session sid (set_drafts (drop_id i)) h))))"

definition move_draft :: "string \<Rightarrow> string \<Rightarrow> string \<Rightarrow> hub \<Rightarrow> hub" where
  "move_draft source i destination h =
     (if source = destination \<or> hb_sessions h destination = None then h
      else case hb_sessions h source of
        None \<Rightarrow> h
      | Some s \<Rightarrow>
          (case position (with_id i) (se_drafts s) of
             None \<Rightarrow> h
           | Some k \<Rightarrow>
               (let m = se_drafts s ! k;
                    h = emit_pending destination (emit_pending source
                          (update_session destination (set_drafts (\<lambda>ds. ds @ [m]))
                            (update_session source (set_drafts (remove_nth k)) h)))
                in case qm_schedule m of
                     None \<Rightarrow> h
                   | Some sc \<Rightarrow>
                       broadcast_sessions (arm_draft_timer destination i (sc_fire_at_ms sc)
                         (cancel_draft_timer source i h)))))"

definition clear_drafts :: "string \<Rightarrow> hub \<Rightarrow> hub" where
  "clear_drafts sid h =
     (case hb_sessions h sid of
        None \<Rightarrow> h
      | Some s \<Rightarrow>
          (let armed = map qm_id (filter scheduled (se_drafts s));
               h = fold (\<lambda>did h. cancel_draft_timer sid did h) armed
                     (emit_pending sid (update_session sid (set_drafts (\<lambda>_. [])) h))
           in if armed = [] then h else broadcast_sessions h))"

definition or_else :: "'a option \<Rightarrow> 'a option \<Rightarrow> 'a option" where
  "or_else a b = (case a of None \<Rightarrow> b | Some x \<Rightarrow> Some x)"

definition activate_draft :: "string \<Rightarrow> string \<Rightarrow> string option \<Rightarrow> hub \<Rightarrow> hub" where
  "activate_draft sid i cmid h =
     (if is_managed_child sid h then h
      else case hb_sessions h sid of
        None \<Rightarrow> h
      | Some s \<Rightarrow>
          (case position (with_id i) (se_drafts s) of
             None \<Rightarrow> h
           | Some k \<Rightarrow>
               (let m = se_drafts s ! k;
                    h = emit_pending sid (update_session sid (set_drafts (remove_nth k)) h);
                    h = (if scheduled m then broadcast_sessions (cancel_draft_timer sid i h) else h)
                in submit sid (qm_text m) (qm_content m) (or_else cmid (qm_cmid m)) h)))"

definition activate_one :: "string \<Rightarrow> queued_message \<Rightarrow> hub \<Rightarrow> hub" where
  "activate_one sid m h =
     (if hb_stuck h then h
      else submit sid (qm_text m) (qm_content m) (qm_cmid m)
             (if scheduled m then cancel_draft_timer sid (qm_id m) h else h))"

definition activate_all_drafts :: "string \<Rightarrow> hub \<Rightarrow> hub" where
  "activate_all_drafts sid h =
     (if is_managed_child sid h then h
      else case hb_sessions h sid of
        None \<Rightarrow> h
      | Some s \<Rightarrow>
          if se_drafts s = [] then h
          else (let h = fold (activate_one sid) (se_drafts s)
                          (emit_pending sid (update_session sid (set_drafts (\<lambda>_. [])) h))
                in if list_ex scheduled (se_drafts s) \<and> \<not> hb_stuck h then broadcast_sessions h else h))"

definition sort_drafts :: "string list \<Rightarrow> queued_message list \<Rightarrow> queued_message list" where
  "sort_drafts order ds = sort_by_id_order qm_id order ds"

definition reorder_drafts :: "string \<Rightarrow> string list \<Rightarrow> hub \<Rightarrow> hub" where
  "reorder_drafts sid order h =
     (case hb_sessions h sid of
        None \<Rightarrow> h
      | Some _ \<Rightarrow> emit_pending sid (update_session sid (set_drafts (sort_drafts order)) h))"

section \<open>Scheduled drafts\<close>

definition take_fired_draft :: "string \<Rightarrow> string \<Rightarrow> hub \<Rightarrow> queued_message option \<times> hub" where
  "take_fired_draft sid did h =
     (if is_managed_child sid h then (None, h)
      else case hb_sessions h sid of
        None \<Rightarrow> (None, h)
      | Some s \<Rightarrow>
          if se_trashed_at_ms s \<noteq> None then (None, h)
          else (case position (with_id did) (se_drafts s) of
             None \<Rightarrow> (None, h)
           | Some k \<Rightarrow>
               (Some (se_drafts s ! k),
                broadcast_sessions (emit_pending sid (update_session sid (set_drafts (remove_nth k)) h)))))"

definition fired_cmid :: "string \<Rightarrow> string \<Rightarrow> string" where
  "fired_cmid sid did = SCHED_PREFIX @ sid @ ''-'' @ did"

definition lands_in_front :: "queued_message \<Rightarrow> bool" where
  "lands_in_front m \<longleftrightarrow> (case qm_schedule m of None \<Rightarrow> False | Some sc \<Rightarrow> sc_delivery sc = Front)"

definition land_fired_draft :: "string \<Rightarrow> string \<Rightarrow> queued_message \<Rightarrow> hub \<Rightarrow> hub" where
  "land_fired_draft sid did m h =
     (let cmid = fired_cmid sid did in
      if hb_stuck h then h
      else case hb_sessions h sid of
        None \<Rightarrow> h
      | Some s \<Rightarrow>
          if queued_cmid cmid (se_queue s) then h
          else if wired h \<and> \<not> se_paused s \<and> ready True s \<and> se_queue s = []
                  \<and> context_allows_dispatch h sid (Some cmid)
          then send_dispatch
                 (request_for sid (claim_guard s) (qm_text m) (qm_content m) (Some cmid) False)
                 (update_session sid claim_guard h)
          else enqueue (lands_in_front m) sid (qm_text m) (qm_content m) (Some cmid) h)"

definition fire_scheduled_draft :: "string \<Rightarrow> string \<Rightarrow> hub \<Rightarrow> hub" where
  "fire_scheduled_draft sid did h =
     (case take_fired_draft sid did h of
        (None, h') \<Rightarrow> h'
      | (Some m, h') \<Rightarrow> land_fired_draft sid did m h')"

end
