(* ===== verification/Turn_Lifecycle.thy ===== *)
theory Turn_Lifecycle
  imports Draft_Queue
begin

text \<open>
  What drives the send queue: status changes, pause, context edits, resets and the transcript
  (\<^verbatim>\<open>src/src/core.rs\<close>), supervised deliveries (\<^verbatim>\<open>src/src/core/hub_superagent.rs\<close>), and the retry of the
  last turn, which re-reads the prompt from the log.
\<close>

section \<open>Status\<close>

text \<open>One session's part of a status change.\<close>

definition is_dead :: "status \<Rightarrow> bool" where
  "is_dead st \<longleftrightarrow> st \<in> {Exited, Crashed, Interrupted}"

text \<open>A fresh Busy edge rearms the completion latch; a completed or dead turn releases the guard once.\<close>

definition open_turn :: "status \<Rightarrow> session \<Rightarrow> session" where
  "open_turn st s = (if st = Busy \<and> se_status s \<noteq> Busy then s\<lparr>se_latched := False\<rparr> else s)"

definition turn_over :: "status \<Rightarrow> session \<Rightarrow> bool" where
  "turn_over st s \<longleftrightarrow> (se_status s = Busy \<and> st = Running \<and> \<not> se_latched s) \<or> is_dead st"

definition close_turn :: "status \<Rightarrow> session \<Rightarrow> session" where
  "close_turn st s = (if turn_over st s \<and> se_dispatch_pending s = None then finish_turn s else s)"

definition cross_edge :: "status \<Rightarrow> session \<Rightarrow> session" where
  "cross_edge st s =
     s\<lparr>se_lifecycle_epoch := (if se_status s \<noteq> st then se_lifecycle_epoch s + 1 else se_lifecycle_epoch s),
       se_background_tasks := (if st \<in> {Starting, Exited, Interrupted} then 0 else se_background_tasks s),
       se_updating := (if st \<noteq> Starting then None else se_updating s),
       se_status := st\<rparr>"

definition enter_status :: "status \<Rightarrow> session \<Rightarrow> session" where
  "enter_status st s = cross_edge st (close_turn st (open_turn st s))"

definition settle_update :: "string \<Rightarrow> status \<Rightarrow> session \<Rightarrow> hub \<Rightarrow> hub" where
  "settle_update sid st s h =
     (case (if st = Starting then None else se_updating s) of
        None \<Rightarrow> h
      | Some u \<Rightarrow>
          if st = Crashed then
            (if pu_automatic u
             then h\<lparr>hb_update_failures := (hb_update_failures h)((se_machine s, se_provider s, se_generation s) \<mapsto> hb_now_ms h),
                    hb_update_failed := (hb_update_failed h)(sid \<mapsto> hb_now_ms h)\<rparr>
             else h)
          else h\<lparr>hb_update_failed := (hb_update_failed h)(sid := None)\<rparr>)"

definition set_status_if_revision ::
    "string \<Rightarrow> (status \<times> u64) option \<Rightarrow> status \<Rightarrow> string option \<Rightarrow> hub \<Rightarrow> bool \<times> hub" where
  "set_status_if_revision sid expected st detail h =
     (case hb_sessions h sid of
        None \<Rightarrow> (False, h)
      | Some s \<Rightarrow>
          if expected \<noteq> None \<and> expected \<noteq> Some (se_status s, se_lifecycle_epoch s) then (False, h)
          else (True,
                try_drain sid (broadcast_sessions (push sid (Lifecycle st detail)
                  (store (UpdateStatus sid st)
                    (settle_update sid st s (update_session sid (enter_status st) h)))))))"

definition set_status :: "string \<Rightarrow> status \<Rightarrow> string option \<Rightarrow> hub \<Rightarrow> hub" where
  "set_status sid st detail h = snd (set_status_if_revision sid None st detail h)"

definition status_revision :: "string \<Rightarrow> hub \<Rightarrow> (status \<times> u64) option" where
  "status_revision sid h = map_option (\<lambda>s. (se_status s, se_lifecycle_epoch s)) (hb_sessions h sid)"

text \<open>The turn's end as a transport reports it is a pushed event followed by \<open>complete_turn\<close>.\<close>

definition QUEUE_PAUSED_PREFIX :: string where "QUEUE_PAUSED_PREFIX = ''session_queue_paused:''"

definition set_paused :: "string \<Rightarrow> bool \<Rightarrow> hub \<Rightarrow> hub" where
  "set_paused sid paused h =
     (case hb_sessions h sid of
        None \<Rightarrow> h
      | Some s \<Rightarrow>
          if se_paused s = paused then h
          else (let h = broadcast_sessions (set_setting (QUEUE_PAUSED_PREFIX @ sid) (JBool paused)
                          (update_session sid (\<lambda>s. s\<lparr>se_paused := paused\<rparr>) h))
                in if paused then h else try_drain sid h))"

definition set_closing :: "string \<Rightarrow> bool \<Rightarrow> hub \<Rightarrow> hub" where
  "set_closing sid closing h =
     (case hb_sessions h sid of
        None \<Rightarrow> h
      | Some s \<Rightarrow>
          if se_closing s = closing then h
          else broadcast_sessions (update_session sid (\<lambda>s. s\<lparr>se_closing := closing\<rparr>) h))"

definition set_resource_wait :: "string \<Rightarrow> string option \<Rightarrow> hub \<Rightarrow> hub" where
  "set_resource_wait sid reason h =
     (case hb_sessions h sid of
        None \<Rightarrow> h
      | Some s \<Rightarrow>
          if se_resource_wait s = reason then h
          else broadcast_sessions (update_session sid (\<lambda>s. s\<lparr>se_resource_wait := reason\<rparr>) h))"

definition set_background_tasks :: "string \<Rightarrow> nat \<Rightarrow> hub \<Rightarrow> hub" where
  "set_background_tasks sid n h =
     (case hb_sessions h sid of
        None \<Rightarrow> h
      | Some s \<Rightarrow>
          if se_background_tasks s = n then h
          else broadcast_sessions (update_session sid (\<lambda>s. s\<lparr>se_background_tasks := n\<rparr>) h))"

definition set_session_usage :: "string \<Rightarrow> nat \<Rightarrow> nat \<Rightarrow> json \<Rightarrow> hub \<Rightarrow> hub" where
  "set_session_usage sid used window usage h =
     (case hb_sessions h sid of
        None \<Rightarrow> h
      | Some s \<Rightarrow>
          if se_usage s = Some usage then h
          else broadcast_sessions (update_session sid
                 (\<lambda>s. s\<lparr>se_context_used := used, se_context_size := window, se_usage := Some usage\<rparr>) h))"

section \<open>Context edits\<close>

text \<open>The success value stands for the guard; dropping it is \<open>end_context_edit\<close>.\<close>

definition begin_context_edit :: "string \<Rightarrow> bool \<Rightarrow> hub \<Rightarrow> (string + unit) \<times> hub" where
  "begin_context_edit sid allow_queued h =
     (case hb_sessions h sid of
        None \<Rightarrow> (Inl ''Session unavailable'', h)
      | Some s \<Rightarrow>
          if (\<not> allow_queued \<and> se_queue s \<noteq> []) \<or> se_dispatch_pending s \<noteq> None \<or> se_delivery_hold s \<noteq> None
          then (Inl ''Wait for the current submission, or clear the pending context to release queued messages'', h)
          else if sid \<in> set (hb_context_edits h) then (Inl ''A context edit is already being saved'', h)
          else (Inr (), h\<lparr>hb_context_edits := sid # hb_context_edits h\<rparr>))"

definition end_context_edit :: "string \<Rightarrow> hub \<Rightarrow> hub" where
  "end_context_edit sid h = try_drain sid (h\<lparr>hb_context_edits := removeAll sid (hb_context_edits h)\<rparr>)"

definition has_queued_cmid :: "string \<Rightarrow> string \<Rightarrow> hub \<Rightarrow> bool" where
  "has_queued_cmid sid c h \<longleftrightarrow> (case hb_sessions h sid of None \<Rightarrow> False | Some s \<Rightarrow> queued_cmid c (se_queue s))"

definition context_state_changed :: "string \<Rightarrow> hub \<Rightarrow> hub" where
  "context_state_changed sid h = try_drain sid h"

section \<open>Resets\<close>

text \<open>The fork record that \<open>prepare_context_reset\<close> discards first belongs to the session forks.\<close>

definition reset_context :: "session \<Rightarrow> session" where
  "reset_context s =
     s\<lparr>se_agent_session_id := None, se_in_flight := (se_dispatch_pending s \<noteq> None), se_context_used := 0,
       se_context_size := 0, se_usage := None, se_background_tasks := 0\<rparr>"

definition has_usage :: "session \<Rightarrow> bool" where
  "has_usage s \<longleftrightarrow> se_context_used s \<noteq> 0 \<or> se_context_size s \<noteq> 0 \<or> se_usage s \<noteq> None \<or> se_background_tasks s \<noteq> 0"

definition prepare_context_reset :: "(hub \<Rightarrow> hub) \<Rightarrow> string \<Rightarrow> hub \<Rightarrow> hub" where
  "prepare_context_reset discard_native_fork sid h =
     (let h = discard_native_fork h;
          changed = (case hb_sessions h sid of None \<Rightarrow> False | Some s \<Rightarrow> has_usage s);
          h = update_session sid reset_context h
      in store (SetAgentSessionId sid None) (if changed then broadcast_sessions h else h))"

definition wipe_log :: "session \<Rightarrow> session" where
  "wipe_log s = s\<lparr>se_log := [], se_log_bytes := 0, se_event_count := 0, se_reached_start := True\<rparr>"

definition clear_transcript :: "string \<Rightarrow> hub \<Rightarrow> hub" where
  "clear_transcript sid h =
     (case hb_sessions h sid of
        None \<Rightarrow> h
      | Some _ \<Rightarrow>
          (let h = update_session sid wipe_log h
           in store (ClearEvents sid (hb_now_ms h))
                (h\<lparr>hb_reducer := clear_session sid (hb_reducer h),
                   hb_marks := (\<lambda>k. if fst k = sid then None else hb_marks h k),
                   hb_latest := (hb_latest h)(sid := [])\<rparr>)))"

definition mark_context_cleared :: "string \<Rightarrow> hub \<Rightarrow> hub" where
  "mark_context_cleared sid h =
     push sid (Update (JObj [(''sessionUpdate'', JStr ''context_cleared''), (''at'', JInt (hb_now_ms h))])) h"

section \<open>Wakeups\<close>

definition schedule_wakeup :: "string \<Rightarrow> int \<Rightarrow> string \<Rightarrow> hub \<Rightarrow> hub" where
  "schedule_wakeup sid delay_seconds prompt h =
     (let fire_at = hb_now_ms h + min (max delay_seconds 60) 3600 * 1000
      in store (UpsertWakeup sid fire_at prompt) (schedule (Arm sid fire_at prompt) h))"

definition rearm_wakeup :: "string \<Rightarrow> int \<Rightarrow> string \<Rightarrow> hub \<Rightarrow> hub" where
  "rearm_wakeup sid fire_at prompt h = schedule (Arm sid fire_at prompt) h"

definition clear_persisted_wakeup :: "string \<Rightarrow> hub \<Rightarrow> hub" where
  "clear_persisted_wakeup sid h = store (DeleteWakeup sid) h"

section \<open>Supervised deliveries\<close>

definition supervision_peer_ok :: "dispatch_context \<Rightarrow> session \<Rightarrow> session \<Rightarrow> bool" where
  "supervision_peer_ok c target p \<longleftrightarrow>
     \<not> se_paused p \<and> \<not> se_closing p \<and> se_trashed_at_ms p = None \<and> se_status p \<in> {Running, Busy}
   \<and> attention_empty (se_attention p) \<and> se_queue p = [] \<and> se_owner p = Some (dc_owner c)
   \<and> se_owner target = se_owner p"

definition supervision_target_ok :: "hub \<Rightarrow> string \<Rightarrow> string \<Rightarrow> session \<Rightarrow> bool" where
  "supervision_target_ok h sid c s \<longleftrightarrow>
     \<not> se_paused s \<and> \<not> se_system s \<and> \<not> se_closing s \<and> se_trashed_at_ms s = None \<and> se_queue s = []
   \<and> ready False s \<and> context_allows_dispatch h sid (Some c) \<and> \<not> prompt_already_accepted s c"

text \<open>\<open>try_reserve\<close> takes a slot first; the reserved slot makes the send succeed.\<close>

definition dispatch_superagent_once ::
    "string \<Rightarrow> string \<Rightarrow> string \<Rightarrow> dispatch_context \<Rightarrow> hub \<Rightarrow> bool \<times> hub" where
  "dispatch_superagent_once sid text c context h =
     (if is_managed_child sid h \<or> is_managed_child (dc_peer context) h \<or> hb_stuck h then (False, h)
      else case hb_channel h of
        None \<Rightarrow> (False, h)
      | Some ch \<Rightarrow>
          if \<not> (ch_open ch \<and> length (ch_items ch) < ch_capacity ch) then (False, h)
          else if dc_target context \<noteq> sid then (False, h)
          else (case (hb_sessions h (dc_peer context), hb_sessions h sid) of
             (Some p, Some s) \<Rightarrow>
               if \<not> supervision_peer_ok context s p \<or> \<not> supervision_target_ok h sid c s then (False, h)
               else (let s' = claim (Some c) s;
                         req = (request_for sid s' text [] (Some c) False)\<lparr>dr_supervision := Some context\<rparr>
                     in (True, (update_session sid (claim (Some c)) h)
                                 \<lparr>hb_channel := Some (ch\<lparr>ch_items := ch_items ch @ [req]\<rparr>)\<rparr>))
           | _ \<Rightarrow> (False, h)))"

definition supervision_party_ok :: "dispatch_context \<Rightarrow> session \<Rightarrow> bool" where
  "supervision_party_ok c s \<longleftrightarrow>
     se_owner s = Some (dc_owner c) \<and> \<not> se_paused s \<and> \<not> se_closing s \<and> \<not> se_system s \<and> \<not> se_managed_child s
   \<and> se_trashed_at_ms s = None \<and> attention_empty (se_attention s) \<and> se_queue s = []
   \<and> se_status s \<in> {Running, Busy}"

definition superagent_dispatch_current :: "dispatch_context \<Rightarrow> string \<Rightarrow> hub \<Rightarrow> bool" where
  "superagent_dispatch_current c cmid h \<longleftrightarrow>
     list_all (\<lambda>i. case hb_sessions h i of None \<Rightarrow> False | Some s \<Rightarrow> supervision_party_ok c s) [dc_target c, dc_peer c]
   \<and> (case hb_sessions h (dc_target c) of
        None \<Rightarrow> False
      | Some s \<Rightarrow>
          se_status s = Running \<and> se_dispatch_pending s = Some (se_in_flight_epoch s)
          \<and> list_ex (\<lambda>p. dp_cmid p = cmid \<and> dp_epoch p = se_in_flight_epoch s) (se_dispatched s))"

section \<open>Retrying the last turn\<close>

definition user_block :: "envelope \<Rightarrow> json option" where
  "user_block e =
     (if is_user_message_chunk e
      then (case e_event e of Update update \<Rightarrow> Some (jindex update ''content'') | _ \<Rightarrow> None)
      else None)"

text \<open>The newest run of user chunks, oldest first.\<close>

definition last_user_group :: "envelope list \<Rightarrow> envelope list" where
  "last_user_group log =
     rev (takeWhile (\<lambda>e. user_block e \<noteq> None) (dropWhile (\<lambda>e. user_block e = None) (rev log)))"

record last_prompt =
  lp_text :: string
  lp_content :: "json list"
  lp_cmid :: "string option"

definition is_text_block :: "json \<Rightarrow> bool" where
  "is_text_block block \<longleftrightarrow> (case jget_str ''type'' block of None \<Rightarrow> True | Some kind \<Rightarrow> kind = ''text'')"

definition last_user_prompt :: "envelope list \<Rightarrow> last_prompt" where
  "last_user_prompt log =
     (let group = last_user_group log; blocks = List.map_filter user_block group
      in \<lparr>lp_text = concat (List.map_filter (jget_str ''text'') blocks),
          lp_content = (if list_all is_text_block blocks then [] else blocks),
          lp_cmid = (case List.map_filter e_cmid group of [] \<Rightarrow> None | c # _ \<Rightarrow> Some c)\<rparr>)"

definition attachment_signature :: "json list \<Rightarrow> (string \<times> string) list" where
  "attachment_signature content =
     (let field = (\<lambda>name block. case jget_str name block of None \<Rightarrow> [] | Some v \<Rightarrow> v)
      in map (\<lambda>block. (field ''type'' block, field ''mimeType'' block))
           (filter (\<lambda>block. \<not> is_text_block block) content))"

definition ARTIFACT_PATH :: string where "ARTIFACT_PATH = ''/api/artifacts/''"

definition restore_image :: "host \<Rightarrow> json \<Rightarrow> string + json" where
  "restore_image host block =
     (case block of
        JObj kvs \<Rightarrow>
          if jget_str ''type'' block \<noteq> Some ''image'' \<or> jget ''data'' block \<noteq> None then Inr block
          else (case jget_str ''url'' block of
             None \<Rightarrow> Inr block
           | Some url \<Rightarrow>
               if \<not> starts_with url ARTIFACT_PATH then Inr block
               else (case ho_image host (drop (length ARTIFACT_PATH) url) of
                  None \<Rightarrow> Inl url
                | Some data \<Rightarrow> Inr (jset ''data'' (JStr data) (JObj (swap_remove ''url'' kvs)))))
      | _ \<Rightarrow> Inr block)"

primrec restore_externalized_images :: "host \<Rightarrow> json list \<Rightarrow> string + json list" where
  "restore_externalized_images host [] = Inr []"
| "restore_externalized_images host (b # bs) =
     rbind (restore_image host b) (\<lambda>b'. rbind (restore_externalized_images host bs) (\<lambda>bs'. Inr (b' # bs')))"

definition retry_cmid_of :: "string \<Rightarrow> nat \<Rightarrow> string" where
  "retry_cmid_of sid sq = ''cowboy-retry:'' @ sid @ '':'' @ show_nat sq"

definition same_prompt :: "last_prompt \<Rightarrow> queued_message \<Rightarrow> bool" where
  "same_prompt lp m \<longleftrightarrow>
     (lp_cmid lp \<noteq> None \<and> qm_cmid m = lp_cmid lp)
   \<or> (if is_blank (lp_text lp) then attachment_signature (qm_content m) = attachment_signature (lp_content lp)
      else qm_text m = lp_text lp)"

definition retry_lost_attachment :: "string \<Rightarrow> status \<Rightarrow> hub \<Rightarrow> hub" where
  "retry_lost_attachment sid st h =
     (if is_dead st
      then set_status sid st
             (Some ''Retry needs an attachment that is no longer stored; send the prompt again with the file.'') h
      else h)"

definition retry_turn :: "string \<Rightarrow> hub \<Rightarrow> hub" where
  "retry_turn sid h =
     (if is_managed_child sid h then h
      else case hb_sessions h sid of
        None \<Rightarrow> h
      | Some s \<Rightarrow>
          (case find is_user_message_chunk (rev (se_log s)) of
             None \<Rightarrow> drain_head sid True True h
           | Some e \<Rightarrow>
               (let retry_cmid = retry_cmid_of sid (e_seq e); lp = last_user_prompt (se_log s)
                in if se_in_flight s \<or> queued_cmid retry_cmid (se_queue s) then h
                   else if is_blank (lp_text lp) \<and> lp_content lp = [] then h
                   else case find (same_prompt lp) (se_queue s) of
                     Some m \<Rightarrow> request_send_queued sid (qm_id m) h
                   | None \<Rightarrow>
                       (case restore_externalized_images (hb_host h) (lp_content lp) of
                          Inl _ \<Rightarrow> retry_lost_attachment sid (se_status s) h
                        | Inr content \<Rightarrow>
                            drain_head sid True True
                              (snd (force_submit sid (lp_text lp) content (Some retry_cmid) True h))))))"

section \<open>Observing a managed turn\<close>

text \<open>The pending request at a sequence number still waits unless a later resolution names its id.\<close>

fun resolved_after :: "string option \<Rightarrow> nat \<Rightarrow> envelope list \<Rightarrow> bool" where
  "resolved_after asked sq [] = False"
| "resolved_after asked sq (e # es) =
     (case (e_event e, asked) of
        (PermissionRequest rid _ _, None) \<Rightarrow> resolved_after (if e_seq e = sq then Some rid else None) sq es
      | (PermissionResolved rid _, Some a) \<Rightarrow> if rid = a then True else resolved_after asked sq es
      | _ \<Rightarrow> resolved_after asked sq es)"

definition permission_pending :: "string \<Rightarrow> nat \<Rightarrow> hub \<Rightarrow> bool" where
  "permission_pending sid sq h =
     (case hb_sessions h sid of None \<Rightarrow> False | Some s \<Rightarrow> \<not> resolved_after None sq (se_log s))"

record managed_turn =
  mt_prompted :: bool
  mt_stop_reason :: "string option"
  mt_final_text :: string
  mt_images :: "json list"
  mt_usage :: "turn_usage option"
  mt_status :: status

text \<open>Advisory kinds leave the reply alone; every other kind starts it over.\<close>

definition advisory_kinds :: "string list" where
  "advisory_kinds =
     [''agent_thought_chunk'', ''usage_update'', ''available_commands_update'', ''current_mode_update'',
      ''config_option_update'', ''notice'']"

definition turn_chunk :: "json \<Rightarrow> managed_turn \<times> string option \<Rightarrow> managed_turn \<times> string option" where
  "turn_chunk update = (\<lambda>(t, message_id).
     let next_id = jget_str ''messageId'' update;
         kept = (if next_id \<noteq> None \<and> message_id \<noteq> next_id then [] else mt_final_text t);
         text = (case Option.bind (jget ''content'' update) (jget_str ''text'') of None \<Rightarrow> [] | Some v \<Rightarrow> v)
     in (t\<lparr>mt_final_text := kept @ text\<rparr>, if next_id \<noteq> None then next_id else message_id))"

definition turn_update :: "json \<Rightarrow> managed_turn \<times> string option \<Rightarrow> managed_turn \<times> string option" where
  "turn_update update = (\<lambda>(t, message_id).
     let t = (if generated_update update then t\<lparr>mt_images := mt_images t @ [update]\<rparr> else t)
     in case jget_str ''sessionUpdate'' update of
          None \<Rightarrow> (t, message_id)
        | Some kind \<Rightarrow>
            if kind = ''user_message_chunk'' then (t\<lparr>mt_prompted := True\<rparr>, message_id)
            else if kind = ''agent_message_chunk'' then turn_chunk update (t, message_id)
            else if kind \<in> set advisory_kinds then (t, message_id)
            else (t\<lparr>mt_final_text := []\<rparr>, None))"

fun turn_walk :: "envelope list \<Rightarrow> managed_turn \<times> string option \<Rightarrow> managed_turn" where
  "turn_walk [] acc = fst acc"
| "turn_walk (e # es) acc =
     (case e_event e of
        Update update \<Rightarrow> turn_walk es (turn_update update acc)
      | TurnEnd reason usage \<Rightarrow> (fst acc)\<lparr>mt_stop_reason := Some reason, mt_usage := usage\<rparr>
      | _ \<Rightarrow> turn_walk es acc)"

definition managed_prompt_queued :: "session \<Rightarrow> bool" where
  "managed_prompt_queued s \<longleftrightarrow>
     list_ex (\<lambda>m. case qm_cmid m of None \<Rightarrow> False | Some c \<Rightarrow> starts_with c MANAGED_CALL_CMID_PREFIX) (se_queue s)"

definition observe_managed_turn :: "string \<Rightarrow> nat \<Rightarrow> hub \<Rightarrow> managed_turn option" where
  "observe_managed_turn sid after_seq h =
     (case hb_sessions h sid of
        None \<Rightarrow> None
      | Some s \<Rightarrow>
          Some (turn_walk (filter (\<lambda>e. after_seq < e_seq e) (se_log s))
            (\<lparr>mt_prompted = (se_in_flight s \<or> managed_prompt_queued s), mt_stop_reason = None,
              mt_final_text = [], mt_images = [], mt_usage = None, mt_status = se_status s\<rparr>, None)))"

end
