(* ===== verification/Hub_Moves.thy ===== *)
theory Hub_Moves
  imports Turn_Lifecycle
begin

text \<open>
  The abstract specification of dispatch: what may happen to a Hub as seen from its sessions, its
  dispatch channel and its context fences. Five moves: one that touches none of these, a quiet edit of
  one session, raising and lowering a context fence, and sending a request, whose guard states when a
  prompt may be handed to the dispatcher. Every operation of the detailed model is shown to be a
  sequence of moves, so what holds of the moves holds of the program. \<open>hub_invariant\<close> is the interface
  between the two.
\<close>

section \<open>The core and well-formed sessions\<close>

definition hub_core ::
    "hub \<Rightarrow> (string \<rightharpoonup> session) \<times> dispatch_channel option \<times> string list \<times> (string \<Rightarrow> context_setting) \<times> bool" where
  "hub_core h = (hb_sessions h, hb_channel h, hb_context_edits h, hb_contexts h, hb_stuck h)"

definition guard_ok :: "session \<Rightarrow> bool" where
  "guard_ok s \<longleftrightarrow>
     se_dispatch_pending s = None \<or> (se_in_flight s \<and> se_dispatch_pending s = Some (se_in_flight_epoch s))"

definition window_ok :: "session \<Rightarrow> bool" where
  "window_ok s \<longleftrightarrow> length (se_dispatched s) \<le> 64 \<and> distinct (map dp_cmid (se_dispatched s))"

definition queue_plain :: "session \<Rightarrow> bool" where
  "queue_plain s \<longleftrightarrow> list_all (\<lambda>m. qm_schedule m = None) (se_queue s)"

definition log_ok :: "session \<Rightarrow> bool" where
  "log_ok s \<longleftrightarrow>
     sorted_wrt (<) (map e_seq (se_log s)) \<and> list_all (\<lambda>e. e_seq e < se_next_seq s) (se_log s)"

definition session_wf :: "session \<Rightarrow> bool" where
  "session_wf s \<longleftrightarrow> guard_ok s \<and> window_ok s \<and> queue_plain s \<and> log_ok s"

text \<open>A quiet edit never raises the dispatch guard and keeps the session well formed.\<close>

definition quiet :: "session \<Rightarrow> session \<Rightarrow> bool" where
  "quiet s s' \<longleftrightarrow>
     (se_dispatch_pending s' = None \<or> se_dispatch_pending s' = se_dispatch_pending s)
   \<and> (session_wf s \<longrightarrow> session_wf s')"

text \<open>
  A prompt may be handed over only to an idle session that runs or can be revived, whose hold is its
  own, through the context fence; without an explicit request of the user also not past a pause or an
  open edit. The one automatic prompt that does not look at the trash is a fired draft, which looked
  when it left the drafts.
\<close>

definition is_fired :: "string \<Rightarrow> string option \<Rightarrow> bool" where
  "is_fired sid k \<longleftrightarrow> (case k of None \<Rightarrow> False | Some c \<Rightarrow> starts_with c (SCHED_PREFIX @ sid))"

definition may_dispatch :: "hub \<Rightarrow> string \<Rightarrow> session \<Rightarrow> dispatch_req \<Rightarrow> bool" where
  "may_dispatch h sid s r \<longleftrightarrow>
     dr_session r = sid \<and> \<not> se_in_flight s \<and> se_dispatch_pending s = None
   \<and> se_status s \<in> {Running, Exited, Crashed, Interrupted}
   \<and> (se_delivery_hold s = None \<or> se_delivery_hold s = dr_cmid r)
   \<and> (se_paused s \<longrightarrow> dr_explicit r)
   \<and> (se_editing s \<noteq> None \<longrightarrow> dr_explicit r \<or> se_queue s = [])
   \<and> (se_trashed_at_ms s \<noteq> None \<longrightarrow> dr_explicit r \<or> is_fired sid (dr_cmid r))
   \<and> context_allows_dispatch h sid (dr_cmid r)"

definition claims :: "dispatch_req \<Rightarrow> session \<Rightarrow> session \<Rightarrow> bool" where
  "claims r s s' \<longleftrightarrow>
     dr_epoch r = se_in_flight_epoch s + 1 \<and> se_in_flight s' \<and> se_in_flight_epoch s' = dr_epoch r
   \<and> se_dispatch_pending s' = Some (dr_epoch r) \<and> (session_wf s \<longrightarrow> session_wf s')"

section \<open>Moves\<close>

inductive hub_move :: "hub \<Rightarrow> hub \<Rightarrow> bool" where
  Frame: "hub_core h' = hub_core h \<Longrightarrow> hub_move h h'"
| Edit: "hb_sessions h sid = Some s \<Longrightarrow> quiet s s' \<Longrightarrow>
    hub_move h (h\<lparr>hb_sessions := (hb_sessions h)(sid \<mapsto> s')\<rparr>)"
| Raise: "hb_sessions h sid = Some s \<Longrightarrow> se_dispatch_pending s = None \<Longrightarrow> se_delivery_hold s = None \<Longrightarrow>
    sid \<notin> set (hb_context_edits h) \<Longrightarrow>
    hub_move h (h\<lparr>hb_context_edits := sid # hb_context_edits h\<rparr>)"
| Lower: "hub_move h (h\<lparr>hb_context_edits := removeAll sid (hb_context_edits h)\<rparr>)"
| Sent: "hb_sessions h sid = Some s \<Longrightarrow> hb_channel h = Some ch \<Longrightarrow> may_dispatch h sid s r \<Longrightarrow>
    claims r s s' \<Longrightarrow> chan_send r ch = (True, ch') \<Longrightarrow>
    hub_move h (h\<lparr>hb_sessions := (hb_sessions h)(sid \<mapsto> s'), hb_channel := Some ch'\<rparr>)"
| Wedged: "hb_sessions h sid = Some s \<Longrightarrow> hb_channel h = Some ch \<Longrightarrow> may_dispatch h sid s r \<Longrightarrow>
    is_supervised (dr_cmid r) \<Longrightarrow> fst (chan_send r ch) = False \<Longrightarrow> (session_wf s \<longrightarrow> session_wf s') \<Longrightarrow>
    hub_move h (h\<lparr>hb_sessions := (hb_sessions h)(sid \<mapsto> s'), hb_stuck := True\<rparr>)"

inductive_cases hub_moveE: "hub_move h h'"

abbreviation moves :: "hub \<Rightarrow> hub \<Rightarrow> bool" where
  "moves \<equiv> hub_move\<^sup>*\<^sup>*"

locale hub_invariant =
  fixes I :: "hub \<Rightarrow> bool"
  assumes move: "hub_move h h' \<Longrightarrow> I h \<Longrightarrow> I h'"
begin

lemma moves_keep: "moves h h' \<Longrightarrow> I h \<Longrightarrow> I h'"
  by (induction rule: rtranclp_induct) (auto intro: move)

end

named_theorems moves_intros
named_theorems quiet_intros

section \<open>The primitive operations are moves\<close>

lemma hub_core_emit [simp]: "hub_core (emit e h) = hub_core h"
  by (simp add: hub_core_def emit_def)

lemma hub_core_store [simp]: "hub_core (store w h) = hub_core h"
  by (simp add: store_def)

lemma hub_core_schedule [simp]: "hub_core (schedule c h) = hub_core h"
  by (simp add: schedule_def)

lemma hub_core_broadcast_sessions [simp]: "hub_core (broadcast_sessions h) = hub_core h"
  by (simp add: broadcast_sessions_def)

lemma hub_core_timers [simp]:
  "hub_core (notify_human_turn sid h) = hub_core h"
  "hub_core (arm_draft_timer sid i t h) = hub_core h"
  "hub_core (cancel_draft_timer sid i h) = hub_core h"
  by (simp_all add: notify_human_turn_def arm_draft_timer_def cancel_draft_timer_def)

lemma hub_core_cancel_all [simp]:
  "hub_core (fold (\<lambda>i h. cancel_draft_timer sid i h) is h) = hub_core h"
  by (induction "is" arbitrary: h) auto

lemma hub_core_record_session_error [simp]: "hub_core (record_session_error sid m h) = hub_core h"
  by (simp add: record_session_error_def Let_def) (simp add: hub_core_def)

lemma hub_core_broadcast_error [simp]: "hub_core (broadcast_error sid m h) = hub_core h"
  by (simp add: broadcast_error_def split: option.split)

lemma hub_core_sync_emit [simp]: "hub_core (sync_emit sid q d c h) = hub_core h"
  by (simp add: sync_emit_def Let_def) (simp add: hub_core_def)

lemma hub_core_emit_pending [simp]: "hub_core (emit_pending sid h) = hub_core h"
  by (simp add: emit_pending_def split: option.split)

lemma hub_core_load_setting [simp]: "hub_core (load_setting k v h) = hub_core h"
  by (simp add: load_setting_def hub_core_def)

lemma hub_core_set_setting [simp]: "hub_core (set_setting k v h) = hub_core h"
  by (simp add: set_setting_def)

lemma hub_core_next_qid [simp]: "hub_core (snd (next_qid h)) = hub_core h"
  by (simp add: next_qid_def hub_core_def)

lemma hub_core_reducer [simp]: "hub_core (h\<lparr>hb_reducer := rd\<rparr>) = hub_core h"
  by (simp add: hub_core_def)

lemma hub_core_settle_update [simp]: "hub_core (settle_update sid st s h) = hub_core h"
  by (simp add: settle_update_def hub_core_def split: option.split)

lemma hub_core_accept [simp]: "hub_core (snd (accept_subagent_snapshot sid child u h)) = hub_core h"
  by (simp add: accept_subagent_snapshot_def Let_def hub_core_def)

lemma hub_core_settle_snapshot [simp]: "hub_core (settle_snapshot sid child e anchor h) = hub_core h"
  by (simp add: settle_snapshot_def settle_subagent_mark_def record_subagent_observation_def Let_def hub_core_def
      split: option.split event.split)

lemma hub_core_publish_event [simp]: "hub_core (publish_event s e changed h) = hub_core h"
  by (simp add: publish_event_def Let_def)

lemma hub_core_confirm_delivered [simp]: "hub_core (confirm_delivered sid c h) = hub_core h"
  by (simp add: confirm_delivered_def Let_def split: option.split)

lemma hub_core_iff:
  "hub_core h' = hub_core h \<longleftrightarrow>
     hb_sessions h' = hb_sessions h \<and> hb_channel h' = hb_channel h \<and> hb_context_edits h' = hb_context_edits h
   \<and> hb_contexts h' = hb_contexts h \<and> hb_stuck h' = hb_stuck h"
  by (simp add: hub_core_def)

lemma moves_frame: "moves h g \<Longrightarrow> hub_core g' = hub_core g \<Longrightarrow> moves h g'"
  by (meson Frame rtranclp.rtrancl_into_rtrancl)

lemma moves_trans: "moves h g \<Longrightarrow> moves g g' \<Longrightarrow> moves h g'"
  by (rule rtranclp_trans)

lemma moves_update:
  assumes "moves h g" and "\<And>s. hb_sessions g sid = Some s \<Longrightarrow> quiet s (f s)"
  shows "moves h (update_session sid f g)"
proof (cases "hb_sessions g sid")
  case None
  then show ?thesis using assms(1) by (simp add: update_session_def)
next
  case (Some s)
  have "hub_move g (update_session sid f g)"
    using Edit [OF Some assms(2) [OF Some]] Some by (simp add: update_session_def)
  then show ?thesis using assms(1) by (rule rtranclp.rtrancl_into_rtrancl [rotated])
qed

lemma moves_refl [moves_intros]: "moves h h"
  by simp

lemma moves_frames [moves_intros]:
  "moves h g \<Longrightarrow> moves h (emit e g)"
  "moves h g \<Longrightarrow> moves h (store w g)"
  "moves h g \<Longrightarrow> moves h (broadcast_sessions g)"
  "moves h g \<Longrightarrow> moves h (notify_human_turn sid g)"
  "moves h g \<Longrightarrow> moves h (arm_draft_timer sid i t g)"
  "moves h g \<Longrightarrow> moves h (cancel_draft_timer sid i g)"
  "moves h g \<Longrightarrow> moves h (fold (\<lambda>i h. cancel_draft_timer sid i h) is g)"
  "moves h g \<Longrightarrow> moves h (record_session_error sid m g)"
  "moves h g \<Longrightarrow> moves h (broadcast_error who m g)"
  "moves h g \<Longrightarrow> moves h (sync_emit sid q d c g)"
  "moves h g \<Longrightarrow> moves h (emit_pending sid g)"
  "moves h g \<Longrightarrow> moves h (load_setting k v g)"
  "moves h g \<Longrightarrow> moves h (set_setting k v g)"
  "moves h g \<Longrightarrow> moves h (snd (next_qid g))"
  "moves h g \<Longrightarrow> moves h (settle_update sid st s g)"
  "moves h g \<Longrightarrow> moves h (publish_event s ev changed g)"
  "moves h g \<Longrightarrow> moves h (settle_snapshot sid child ev anchor g)"
  "moves h g \<Longrightarrow> moves h (confirm_delivered sid k g)"
  "moves h g \<Longrightarrow> moves h (schedule sc g)"
  by (erule moves_frame, simp)+

declare moves_update [moves_intros]

end
