(* ===== verification/Hub_Refinement.thy ===== *)
theory Hub_Refinement
  imports Hub_Moves
begin

text \<open>
  Every operation of the send queue and the session lifecycle is a sequence of moves of the abstract
  specification. First the edits of one session are shown quiet, then a send is shown to be one move or
  a quiet edit, then the operations follow by composition.
\<close>

section \<open>Quiet edits\<close>

lemma quiet_refl [quiet_intros]: "quiet s s"
  by (simp add: quiet_def)

lemma quiet_trans: "quiet s t \<Longrightarrow> quiet t u \<Longrightarrow> quiet s u"
  by (auto simp: quiet_def)

text \<open>An edit that leaves the guard, the window, the queue and the log alone is quiet.\<close>

lemma quiet_other:
  assumes "se_in_flight s' = se_in_flight s" "se_in_flight_epoch s' = se_in_flight_epoch s"
    "se_dispatch_pending s' = se_dispatch_pending s" "se_dispatched s' = se_dispatched s"
    "se_queue s' = se_queue s" "se_log s' = se_log s" "se_next_seq s' = se_next_seq s"
  shows "quiet s s'"
  using assms by (simp add: quiet_def session_wf_def guard_ok_def window_ok_def queue_plain_def log_ok_def)

text \<open>The same for an edit that also thins or reorders the queue.\<close>

lemma quiet_queue:
  assumes "se_in_flight s' = se_in_flight s" "se_in_flight_epoch s' = se_in_flight_epoch s"
    "se_dispatch_pending s' = se_dispatch_pending s" "se_dispatched s' = se_dispatched s"
    "queue_plain s \<Longrightarrow> queue_plain s'" "se_log s' = se_log s" "se_next_seq s' = se_next_seq s"
  shows "quiet s s'"
  using assms by (simp add: quiet_def session_wf_def guard_ok_def window_ok_def log_ok_def)

lemma queue_plain_subset: "queue_plain s \<Longrightarrow> set (se_queue s') \<subseteq> set (se_queue s) \<Longrightarrow> queue_plain s'"
  by (auto simp: queue_plain_def list_all_iff)

text \<open>An edit of the guard that lowers it.\<close>

lemma quiet_guard:
  assumes "se_dispatch_pending s' = None" "se_dispatched s' = se_dispatched s"
    "se_queue s' = se_queue s" "se_log s' = se_log s" "se_next_seq s' = se_next_seq s"
  shows "quiet s s'"
  using assms by (simp add: quiet_def session_wf_def guard_ok_def window_ok_def queue_plain_def log_ok_def)

lemma quiet_free_guard [quiet_intros]: "quiet s (free_guard s)"
  by (rule quiet_guard) (simp_all add: free_guard_def)

lemma quiet_finish_turn [quiet_intros]: "quiet s (finish_turn s)"
  by (rule quiet_guard) (simp_all add: finish_turn_def)

lemma quiet_drop_pending [quiet_intros]:
  "quiet s (if se_dispatch_pending s = Some e then s\<lparr>se_dispatch_pending := None\<rparr> else s)"
  by (simp add: quiet_refl quiet_guard)

lemma quiet_abandon_guard [quiet_intros]: "quiet s (abandon_guard cmid s)"
  by (simp add: abandon_guard_def quiet_refl quiet_free_guard)

lemma distinct_map_filter_window:
  "distinct (map f xs) \<Longrightarrow> distinct (map f (filter P xs))"
  by (induction xs) auto

lemma quiet_forget_dispatched [quiet_intros]: "quiet s (forget_dispatched cmid s)"
proof (cases cmid)
  case None
  then show ?thesis by (simp add: forget_dispatched_def quiet_refl)
next
  case (Some c)
  have "window_ok s \<Longrightarrow> window_ok (forget_dispatched cmid s)"
    by (auto simp: Some forget_dispatched_def window_ok_def distinct_map_filter_window
        intro: le_trans [OF length_filter_le])
  then show ?thesis
    by (simp add: Some quiet_def session_wf_def guard_ok_def queue_plain_def log_ok_def forget_dispatched_def)
qed

lemma quiet_insert_front [quiet_intros]: "qm_schedule m = None \<Longrightarrow> quiet s (insert_front m s)"
  by (rule quiet_queue) (simp_all add: insert_front_def queue_plain_def)

lemma quiet_insert_back [quiet_intros]: "qm_schedule m = None \<Longrightarrow> quiet s (insert_back m s)"
  by (rule quiet_queue) (simp_all add: insert_back_def queue_plain_def)

lemma plain_message_schedule [simp]: "qm_schedule (plain_message i t c k) = None"
  by (simp add: plain_message_def)

lemma quiet_release_editing [quiet_intros]: "quiet s (release_editing i s)"
  by (rule quiet_other) (simp_all add: release_editing_def)

lemma quiet_thin_queue:
  "set q \<subseteq> set (se_queue s) \<Longrightarrow> quiet s (s\<lparr>se_queue := q\<rparr>)"
  by (rule quiet_queue) (simp_all add: queue_plain_subset)

lemma quiet_drop_queued [quiet_intros]: "quiet s (drop_queued i s)"
  unfolding drop_queued_def
  by (rule quiet_trans [OF quiet_thin_queue quiet_release_editing]) (auto simp: drop_id_def)

lemma quiet_drop_queued_cmid [quiet_intros]: "quiet s (drop_queued_cmid c s)"
  unfolding drop_queued_cmid_def by (rule quiet_thin_queue) auto

lemma list_all_update_first:
  "list_all P xs \<Longrightarrow> (\<And>x. P x \<Longrightarrow> P (f x)) \<Longrightarrow> list_all P (update_first Q f xs)"
  by (induction xs) auto

lemma quiet_edit_in_queue [quiet_intros]: "quiet s (edit_in_queue i t c s)"
proof -
  have "quiet s (s\<lparr>se_queue := update_first (with_id i) (rewrite t c) (se_queue s)\<rparr>)"
    by (rule quiet_queue) (simp_all add: queue_plain_def list_all_update_first rewrite_def)
  then show ?thesis by (simp add: edit_in_queue_def quiet_drop_queued)
qed

lemma quiet_wipe_queue [quiet_intros]: "quiet s (wipe_queue s)"
  by (rule quiet_queue) (simp_all add: wipe_queue_def queue_plain_def)

lemma quiet_move_to_front [quiet_intros]: "quiet s (move_to_front i s)"
proof (cases "position (with_id i) (se_queue s)")
  case None
  then show ?thesis by (simp add: move_to_front_def quiet_refl)
next
  case (Some k)
  then show ?thesis
    using position_less [OF Some] set_remove_nth [of k "se_queue s"]
    by (auto simp: move_to_front_def intro!: quiet_thin_queue)
qed

lemma quiet_set_drafts [quiet_intros]: "quiet s (set_drafts f s)"
  by (rule quiet_other) (simp_all add: set_drafts_def)

lemma quiet_park_queued [quiet_intros]: "quiet s (park_queued i s)"
proof (cases "position (with_id i) (se_queue s)")
  case None
  then show ?thesis by (simp add: park_queued_def quiet_refl)
next
  case (Some k)
  have "quiet s (s\<lparr>se_queue := remove_nth k (se_queue s), se_drafts := se_drafts s @ [se_queue s ! k]\<rparr>)"
    by (rule quiet_queue) (simp_all add: queue_plain_subset set_remove_nth)
  then show ?thesis
    by (simp add: Some park_queued_def Let_def quiet_trans [OF _ quiet_release_editing])
qed

lemma quiet_hold_editing [quiet_intros]: "quiet s (hold_editing i s)"
  by (rule quiet_other) (simp_all add: hold_editing_def)

lemma quiet_sort_queue [quiet_intros]: "quiet s (sort_queue order s)"
  unfolding sort_queue_def by (rule quiet_thin_queue) (simp add: sort_by_id_order_def)

lemma quiet_fields [quiet_intros]:
  "quiet s (s\<lparr>se_paused := b\<rparr>)"
  "quiet s (s\<lparr>se_closing := b\<rparr>)"
  "quiet s (s\<lparr>se_explicit_wait := b\<rparr>)"
  "quiet s (s\<lparr>se_delivery_hold := v\<rparr>)"
  "quiet s (s\<lparr>se_resource_wait := v\<rparr>)"
  "quiet s (s\<lparr>se_background_tasks := n\<rparr>)"
  "quiet s (s\<lparr>se_context_used := n, se_context_size := n', se_usage := u\<rparr>)"
  "quiet s (s\<lparr>se_pending_actions := p, se_attention := a\<rparr>)"
  by (rule quiet_other; simp)+

lemma quiet_wipe_log [quiet_intros]: "quiet s (wipe_log s)"
  by (simp add: quiet_def wipe_log_def session_wf_def guard_ok_def window_ok_def queue_plain_def log_ok_def)

lemma quiet_reset_context [quiet_intros]: "quiet s (reset_context s)"
  by (auto simp: quiet_def reset_context_def session_wf_def guard_ok_def window_ok_def queue_plain_def log_ok_def)

lemma quiet_enter_status [quiet_intros]: "quiet s (enter_status st s)"
proof -
  have "quiet s (open_turn st s)" by (rule quiet_other) (simp_all add: open_turn_def)
  moreover have "quiet t (close_turn st t)" for t by (simp add: close_turn_def quiet_refl quiet_finish_turn)
  moreover have "quiet t (cross_edge st t)" for t by (rule quiet_other) (simp_all add: cross_edge_def)
  ultimately show ?thesis unfolding enter_status_def by (blast intro: quiet_trans)
qed

section \<open>Pushing an event is quiet\<close>

lemma map_dp_cmid_mark_echoed [simp]: "map dp_cmid (mark_echoed e ds) = map dp_cmid ds"
proof -
  have "map dp_cmid (update_first Q (\<lambda>p. p\<lparr>dp_echoed := True\<rparr>) ds) = map dp_cmid ds" for Q
    by (induction ds) auto
  then show ?thesis by (simp add: mark_echoed_def split: option.split)
qed

lemma length_mark_echoed [simp]: "length (mark_echoed e ds) = length ds"
  by (metis length_map map_dp_cmid_mark_echoed)

lemma map_list_update_same: "f y = f (xs ! i) \<Longrightarrow> map f (xs[i := y]) = map f xs"
  by (metis list_update_id map_update)

lemma position_holds: "position P xs = Some k \<Longrightarrow> P (xs ! k)"
  by (induction xs arbitrary: k) (auto split: if_splits)

lemma log_ok_iff:
  "log_ok s \<longleftrightarrow> sorted_wrt (<) (map e_seq (se_log s)) \<and> (\<forall>q \<in> set (map e_seq (se_log s)). q < se_next_seq s)"
  by (auto simp: log_ok_def list_all_iff)

lemma log_ok_fold_canonical:
  assumes "sorted_wrt (<) (map e_seq (se_log s))" "\<forall>q \<in> set (map e_seq (se_log s)). q < sq"
    "se_next_seq s = Suc sq"
  shows "log_ok (fold_canonical size_of sq c s)"
proof (cases "position (\<lambda>e. e_seq e = e_seq c) (se_log s)")
  case None
  then show ?thesis using assms
    by (auto simp: fold_canonical_def log_ok_iff sorted_wrt_append)
next
  case (Some i)
  then have "map e_seq ((se_log s)[i := c]) = map e_seq (se_log s)"
    using position_holds [OF Some] by (simp only: map_list_update_same)
  then show ?thesis using assms Some
    by (auto simp: fold_canonical_def log_ok_iff)
qed

lemma trim_hot_log_drop:
  assumes "trim_hot_log size_of log bytes batch limit = (t, log', bytes')"
  obtains k where "log' = drop k log"
proof -
  have "log' = log \<or> (\<exists>k. log' = drop k log)"
    using assms by (auto simp: trim_hot_log_def Let_def split: prod.splits if_splits)
  then show ?thesis by (metis drop0 that)
qed

lemma sorted_wrt_drop_map: "sorted_wrt P (map f xs) \<Longrightarrow> sorted_wrt P (map f (drop k xs))"
  by (metis append_take_drop_id map_append sorted_wrt_append)

lemma quiet_trim_session [quiet_intros]: "quiet s (trim_session size_of s)"
proof -
  obtain t log' bytes' where r: "trim_hot_log size_of (se_log s) (se_log_bytes s) True
      (hot_tail_budget_bytes (se_status s)) = (t, log', bytes')" by (metis prod.exhaust)
  then obtain k where k: "log' = drop k (se_log s)" by (rule trim_hot_log_drop)
  have "log_ok s \<Longrightarrow> log_ok (trim_session size_of s)"
    by (auto simp: trim_session_def r k log_ok_iff sorted_wrt_drop_map Let_def dest: in_set_dropD)
  then show ?thesis
    by (auto simp: quiet_def session_wf_def guard_ok_def window_ok_def queue_plain_def trim_session_def r Let_def)
qed

lemma fold_canonical_fields [simp]:
  "se_in_flight (fold_canonical z q c s) = se_in_flight s"
  "se_in_flight_epoch (fold_canonical z q c s) = se_in_flight_epoch s"
  "se_dispatch_pending (fold_canonical z q c s) = se_dispatch_pending s"
  "se_dispatched (fold_canonical z q c s) = se_dispatched s"
  "se_queue (fold_canonical z q c s) = se_queue s"
  by (simp_all add: fold_canonical_def split: option.split)

lemma note_event_fields [simp]:
  "se_in_flight (note_event t ev s) = se_in_flight s"
  "se_in_flight_epoch (note_event t ev s) = se_in_flight_epoch s"
  "se_dispatch_pending (note_event t ev s) = se_dispatch_pending s"
  "se_dispatched (note_event t ev s) = se_dispatched s"
  "se_queue (note_event t ev s) = se_queue s"
  "se_log (note_event t ev s) = se_log s"
  "se_next_seq (note_event t ev s) = Suc (se_next_seq s)"
  by (simp_all add: note_event_def Let_def)

lemma note_echo_fields [simp]:
  "se_in_flight (note_echo e s) = se_in_flight s"
  "se_in_flight_epoch (note_echo e s) = se_in_flight_epoch s"
  "se_dispatch_pending (note_echo e s) = se_dispatch_pending s"
  "map dp_cmid (se_dispatched (note_echo e s)) = map dp_cmid (se_dispatched s)"
  "length (se_dispatched (note_echo e s)) = length (se_dispatched s)"
  "se_queue (note_echo e s) = se_queue s"
  "se_log (note_echo e s) = se_log s"
  "se_next_seq (note_echo e s) = se_next_seq s"
  by (simp_all add: note_echo_def)

lemma quiet_record:
  "quiet s (record_row z (se_next_seq s) canonical persisted (note_echo e (note_event t ev s)))"
proof -
  define s2 where "s2 = note_echo e (note_event t ev s)"
  define s3 where "s3 = (case canonical of None \<Rightarrow> s2 | Some c \<Rightarrow> fold_canonical z (se_next_seq s) c s2)"
  have "log_ok s \<Longrightarrow> log_ok s3"
  proof (cases canonical)
    case None
    then show "log_ok s \<Longrightarrow> log_ok s3" by (auto simp: s3_def s2_def log_ok_iff less_SucI)
  next
    case (Some c)
    assume ok: "log_ok s"
    have "log_ok (fold_canonical z (se_next_seq s) c s2)"
      by (rule log_ok_fold_canonical) (use ok in \<open>simp_all add: s2_def log_ok_iff\<close>)
    then show "log_ok s3" by (simp add: s3_def Some)
  qed
  moreover have "window_ok s3 = window_ok s"
    by (cases canonical) (simp_all add: s3_def s2_def window_ok_def)
  moreover have "guard_ok s3 = guard_ok s" "queue_plain s3 = queue_plain s"
      "se_dispatch_pending s3 = se_dispatch_pending s"
    by (cases canonical; simp add: s3_def s2_def guard_ok_def queue_plain_def)+
  ultimately have "quiet s s3" by (simp add: quiet_def session_wf_def)
  moreover have "record_row z (se_next_seq s) canonical persisted s2 = (if persisted then trim_session z s3 else s3)"
    by (simp add: record_row_def s3_def)
  ultimately show ?thesis
    unfolding s2_def [symmetric] by (simp add: quiet_trans [OF _ quiet_trim_session])
qed

lemma quiet_apply_event:
  "apply_event h sid child ending ev cmid s = (s', rd, e, anchor) \<Longrightarrow> quiet s s'"
  by (auto simp: apply_event_def Let_def quiet_record split: prod.splits)

lemma moves_append_event [moves_intros]:
  assumes "moves h g"
  shows "moves h (append_event sid child ending ev cmid g)"
proof (cases "hb_sessions g sid")
  case None
  then show ?thesis using assms by (simp add: append_event_def)
next
  case (Some s)
  let ?ev = "annotate_dispatched_prompt s cmid ev"
  obtain s' rd e anchor where ap: "apply_event g sid child ending ?ev cmid s = (s', rd, e, anchor)"
    by (metis prod.exhaust)
  have "moves h (g\<lparr>hb_reducer := rd\<rparr>)" using assms by (rule moves_frame) simp
  then have "moves h (update_session sid (\<lambda>_. s') (g\<lparr>hb_reducer := rd\<rparr>))"
    by (rule moves_update) (simp add: Some quiet_apply_event [OF ap])
  then show ?thesis
    by (simp add: append_event_def Some Let_def ap assms moves_frames)
qed

lemma moves_push_tagged [moves_intros]:
  assumes "moves h g"
  shows "moves h (push_tagged sid ev cmid g)"
proof -
  have accept: "moves h (snd (accept_subagent_snapshot sid child u g))" for child u
    using assms by (rule moves_frame) simp
  show ?thesis
    using accept
    by (auto simp: push_tagged_def Let_def assms
        intro!: moves_append_event split: option.split event.split prod.split) (metis snd_conv)+
qed

lemma moves_push [moves_intros]: "moves h g \<Longrightarrow> moves h (push sid ev g)"
  by (simp add: push_def moves_push_tagged)

section \<open>Sending is one move, or none\<close>

lemma claim_guard_fields [simp]:
  "se_in_flight (claim_guard s)"
  "se_in_flight_epoch (claim_guard s) = se_in_flight_epoch s + 1"
  "se_dispatch_pending (claim_guard s) = Some (se_in_flight_epoch s + 1)"
  "se_dispatched (claim_guard s) = se_dispatched s"
  "se_queue (claim_guard s) = se_queue s"
  "se_log (claim_guard s) = se_log s"
  "se_next_seq (claim_guard s) = se_next_seq s"
  by (simp_all add: claim_guard_def Let_def)

lemma note_dispatched_fields [simp]:
  "se_in_flight (note_dispatched c s) = se_in_flight s"
  "se_in_flight_epoch (note_dispatched c s) = se_in_flight_epoch s"
  "se_dispatch_pending (note_dispatched c s) = se_dispatch_pending s"
  "se_queue (note_dispatched c s) = se_queue s"
  "se_log (note_dispatched c s) = se_log s"
  "se_next_seq (note_dispatched c s) = se_next_seq s"
  by (simp_all add: note_dispatched_def Let_def split: option.split)

lemma window_ok_note_dispatched:
  assumes "window_ok s" shows "window_ok (note_dispatched c s)"
proof -
  have "distinct (map dp_cmid (tl xs))" if "distinct (map dp_cmid xs)" for xs :: "dispatched_prompt list"
    using that by (cases xs) auto
  moreover have "x \<in> set (tl xs) \<Longrightarrow> x \<in> set xs" for x and xs :: "dispatched_prompt list"
    by (cases xs) auto
  ultimately show ?thesis using assms
    by (auto simp: note_dispatched_def window_ok_def Let_def list_ex_iff split: option.split)
qed

lemma session_wf_claim: "session_wf s \<Longrightarrow> session_wf (claim c s)"
  using window_ok_note_dispatched [of "claim_guard s"]
  by (simp add: claim_def session_wf_def guard_ok_def queue_plain_def log_ok_def window_ok_def)

lemma session_wf_claim_guard: "session_wf s \<Longrightarrow> session_wf (claim_guard s)"
  by (simp add: session_wf_def guard_ok_def queue_plain_def log_ok_def window_ok_def)

lemma claims_claim: "claims (request_for sid (claim k s) t c k' x) s (claim k s)"
  by (simp add: claims_def request_for_def session_wf_claim) (simp add: claim_def)

lemma claims_claim_guard: "claims (request_for sid (claim_guard s) t c k' x) s (claim_guard s)"
  by (simp add: claims_def request_for_def session_wf_claim_guard)

lemma take_head_quiet_part: "quiet s (s\<lparr>se_queue := tl (se_queue s), se_explicit_wait := False\<rparr>)"
  by (rule quiet_queue; cases "se_queue s"; simp add: queue_plain_def)

lemma claims_take_head:
  "claims (request_for sid (take_head m s) t c k' x) s (take_head m s)"
proof -
  let ?s = "s\<lparr>se_queue := tl (se_queue s), se_explicit_wait := False\<rparr>"
  have "session_wf s \<Longrightarrow> session_wf (take_head m s)"
    using take_head_quiet_part [of s] by (simp add: take_head_def quiet_def session_wf_claim)
  then show ?thesis
    using claims_claim [of sid "qm_cmid m" ?s t c k' x] by (simp add: claims_def take_head_def)
qed

lemma claim_session [simp]:
  "dr_session (request_for sid s t c k x) = sid"
  "dr_cmid (request_for sid s t c k x) = k"
  "dr_explicit (request_for sid s t c k x) = x"
  "dr_text (request_for sid s t c k x) = t"
  "dr_content (request_for sid s t c k x) = c"
  "dr_supervision (request_for sid s t c k x) = None"
  by (simp_all add: request_for_def)

lemma moves_return_prompt_from:
  assumes "hb_sessions g sid = Some s"
    and "moves h (update_session sid (\<lambda>s. forget_dispatched k (free_guard s)) g)"
  shows "moves h (return_prompt sid t c k g)"
proof -
  let ?g = "update_session sid (\<lambda>s. forget_dispatched k (free_guard s)) g"
  obtain i g2 where q: "next_qid ?g = (i, g2)" by (metis prod.exhaust)
  have "moves h g2" using assms(2) by (rule moves_frame) (metis hub_core_next_qid q snd_conv)
  then have "moves h (emit_pending sid (update_session sid (insert_front (plain_message i line blocks k)) g2))"
    for line blocks by (intro moves_frames moves_update quiet_insert_front) simp_all
  then show ?thesis using assms by (simp add: return_prompt_def Let_def q)
qed

lemma moves_ownership_drop [moves_intros]: "moves h g \<Longrightarrow> moves h (ownership_drop sid e g)"
  unfolding ownership_drop_def by (rule moves_update, assumption) (rule quiet_drop_pending)

lemma update_session_sessions:
  "hb_sessions g sid = Some s \<Longrightarrow> hb_sessions (update_session sid f g) = (hb_sessions g)(sid \<mapsto> f s)"
  by (simp add: update_session_def)

lemma update_session_other [simp]:
  "hb_channel (update_session sid f g) = hb_channel g"
  "hb_context_edits (update_session sid f g) = hb_context_edits g"
  "hb_contexts (update_session sid f g) = hb_contexts g"
  "hb_stuck (update_session sid f g) = hb_stuck g"
  by (simp_all add: update_session_def split: option.split)

lemma record_no_replay_core [simp]: "hub_core (record_no_replay sid k h) = hub_core h"
  by (simp add: record_no_replay_def)

lemma moves_send_dispatch:
  assumes m: "moves h g" and s: "hb_sessions g sid = Some s" and ch: "hb_channel g = Some ch"
    and may: "may_dispatch g sid s r" and cl: "claims r s s'"
    and g': "hub_core g' = hub_core (update_session sid (\<lambda>_. s') g)"
  shows "moves h (send_dispatch r g')"
proof -
  have core: "hb_sessions g' = (hb_sessions g)(sid \<mapsto> s')" "hb_channel g' = Some ch"
      "hb_context_edits g' = hb_context_edits g" "hb_contexts g' = hb_contexts g" "hb_stuck g' = hb_stuck g"
    using g' s ch by (simp_all add: hub_core_iff update_session_sessions)
  have sid: "dr_session r = sid" using may by (simp add: may_dispatch_def)
  show ?thesis
  proof (cases "chan_send r ch")
    case (Pair sent ch')
    show ?thesis
    proof (cases sent)
      case True
      have "hub_move g (g\<lparr>hb_sessions := (hb_sessions g)(sid \<mapsto> s'), hb_channel := Some ch'\<rparr>)"
        using Sent [OF s ch may cl] Pair True by simp
      with m have "moves h (g\<lparr>hb_sessions := (hb_sessions g)(sid \<mapsto> s'), hb_channel := Some ch'\<rparr>)"
        by (rule rtranclp.rtrancl_into_rtrancl)
      then show ?thesis
        by (rule moves_frame) (simp add: send_dispatch_def core Pair True hub_core_iff)
    next
      case False
      show ?thesis
      proof (cases "is_supervised (dr_cmid r)")
        case True
        have wf: "session_wf s \<longrightarrow> session_wf (abandon_guard (dr_cmid r) s')"
          using cl quiet_abandon_guard [of s' "dr_cmid r"] by (simp add: claims_def quiet_def)
        have "hub_move g (g\<lparr>hb_sessions := (hb_sessions g)(sid \<mapsto> abandon_guard (dr_cmid r) s'), hb_stuck := True\<rparr>)"
          using Wedged [OF s ch may True _ wf] Pair False by simp
        with m have "moves h (g\<lparr>hb_sessions := (hb_sessions g)(sid \<mapsto> abandon_guard (dr_cmid r) s'), hb_stuck := True\<rparr>)"
          by (rule rtranclp.rtrancl_into_rtrancl)
        moreover have "hb_sessions (record_no_replay sid (dr_cmid r) g') = hb_sessions g'"
          "hb_channel (record_no_replay sid (dr_cmid r) g') = hb_channel g'"
          "hb_context_edits (record_no_replay sid (dr_cmid r) g') = hb_context_edits g'"
          "hb_contexts (record_no_replay sid (dr_cmid r) g') = hb_contexts g'"
          using record_no_replay_core [of sid "dr_cmid r" g'] by (simp_all only: hub_core_iff)
        ultimately show ?thesis
          using True
          by (elim moves_frame) (simp add: send_dispatch_def core ch Pair False sid hub_core_iff update_session_def)
      next
        case unsupervised: False
        let ?f = "\<lambda>s. forget_dispatched (dr_cmid r) (free_guard s)"
        have "quiet s (?f s')"
          using cl quiet_trans [OF quiet_free_guard quiet_forget_dispatched, of s' "dr_cmid r"]
          by (cases "dr_cmid r") (auto simp: quiet_def claims_def forget_dispatched_def free_guard_def)
        then have "moves h (update_session sid (\<lambda>_. ?f s') g)"
          using moves_update [OF m, of sid "\<lambda>_. ?f s'"] s by simp
        then have "moves h (update_session sid ?f g')"
          by (rule moves_frame) (simp add: hub_core_iff core s ch update_session_sessions)
        then have "moves h (return_prompt sid (dr_text r) (dr_content r) (dr_cmid r) g')"
          by (rule moves_return_prompt_from [rotated]) (simp add: core)
        then show ?thesis
          using unsupervised
          by (simp add: send_dispatch_def core Pair False sid moves_frames moves_ownership_drop)
      qed
    qed
  qed
qed

section \<open>The operations of the send queue\<close>

lemma context_allows_dispatch_core:
  "hub_core g' = hub_core g \<Longrightarrow> context_allows_dispatch g' sid k = context_allows_dispatch g sid k"
  by (simp add: context_allows_dispatch_def allows_dispatch_def read_context_def hub_core_iff)

lemma drain_decision_dispatch:
  assumes "drain_decision s revive manual allows = Dispatch"
  shows "ready revive s" "se_trashed_at_ms s = None" "se_paused s \<longrightarrow> manual"
    "se_editing s \<noteq> None \<longrightarrow> manual" "se_queue s \<noteq> []" "allows (qm_cmid (hd (se_queue s)))"
  using assms by (auto simp: drain_decision_def split: if_splits list.splits)

lemma may_dispatch_request:
  assumes "ready revive s" "se_paused s \<longrightarrow> x" "context_allows_dispatch h sid k"
    and "se_editing s \<noteq> None \<longrightarrow> x \<or> se_queue s = []" "se_trashed_at_ms s \<noteq> None \<longrightarrow> x \<or> is_fired sid k"
  shows "may_dispatch h sid s (request_for sid s' t c k x)"
  using assms by (auto simp: may_dispatch_def ready_def split: if_splits)

lemma moves_drain_head [moves_intros]:
  assumes m: "moves h g" shows "moves h (drain_head sid revive manual g)"
proof (cases "hb_stuck g \<or> \<not> wired g \<or> hb_sessions g sid = None")
  case True
  then show ?thesis using m by (auto simp: drain_head_def)
next
  case False
  then obtain s ch where s: "hb_sessions g sid = Some s" and ch: "hb_channel g = Some ch"
    by (auto simp: wired_def)
  show ?thesis
  proof (cases "drain_decision s revive manual (context_allows_dispatch g sid) = Dispatch")
    case True
    note d = drain_decision_dispatch [OF True]
    let ?head = "hd (se_queue s)"
    have may: "may_dispatch g sid s
        (request_for sid (take_head ?head s) (qm_text ?head) (qm_content ?head) (qm_cmid ?head) manual)"
      by (rule may_dispatch_request [OF d(1,3,6)]) (use d(2,4) in auto)
    have "moves h (send_dispatch
        (request_for sid (take_head ?head s) (qm_text ?head) (qm_content ?head) (qm_cmid ?head) manual)
        (emit_pending sid (update_session sid (take_head ?head) g)))"
      by (rule moves_send_dispatch [OF m s ch may claims_take_head]) (simp add: update_session_def s)
    then show ?thesis using False s True by (simp add: drain_head_def Let_def)
  qed (use False s m in \<open>simp add: drain_head_def\<close>)
qed

lemma moves_drains [moves_intros]:
  "moves h g \<Longrightarrow> moves h (try_drain sid g)"
  "moves h g \<Longrightarrow> moves h (drain_now sid g)"
  "moves h g \<Longrightarrow> moves h (retry_resource_wait sid g)"
  "moves h g \<Longrightarrow> moves h (context_state_changed sid g)"
  by (simp_all add: try_drain_def drain_now_def retry_resource_wait_def context_state_changed_def moves_drain_head)

lemma moves_claim_and_send [moves_intros]:
  assumes m: "moves h g" and s: "hb_sessions g sid = Some s" and "wired g"
    and may: "may_dispatch g sid s (request_for sid (claim k s) t c k True)"
  shows "moves h (claim_and_send sid t c k s g)"
proof -
  obtain ch where ch: "hb_channel g = Some ch" using assms(3) by (auto simp: wired_def)
  show ?thesis unfolding claim_and_send_def
    by (rule moves_send_dispatch [OF m s ch may claims_claim]) (simp add: update_session_def s)
qed

lemma moves_enqueue [moves_intros]:
  assumes "moves h g" shows "moves h (enqueue front sid t c k g)"
proof -
  obtain i g2 where q: "next_qid g = (i, g2)" by (metis prod.exhaust)
  have "moves h g2" using assms by (rule moves_frame) (metis hub_core_next_qid q snd_conv)
  then show ?thesis
    by (simp add: enqueue_def q Let_def moves_frames moves_update quiet_insert_front quiet_insert_back)
qed

lemma moves_set_explicit_wait [moves_intros]: "moves h g \<Longrightarrow> moves h (set_explicit_wait sid b g)"
  by (simp add: set_explicit_wait_def Let_def moves_frames moves_update quiet_fields split: option.split json.split)

lemma moves_guard_ops [moves_intros]:
  "moves h g \<Longrightarrow> moves h (clear_in_flight sid g)"
  "moves h g \<Longrightarrow> moves h (complete_turn sid g)"
  "moves h g \<Longrightarrow> moves h (reconcile_runtime_idle sid n g)"
  "moves h g \<Longrightarrow> moves h (abandon_superagent_prompt sid k g)"
  by (simp_all add: clear_in_flight_def complete_turn_def reconcile_runtime_idle_def abandon_superagent_prompt_def
      moves_drains moves_update quiet_free_guard quiet_finish_turn quiet_abandon_guard split: option.split)

lemma moves_return_prompt [moves_intros]:
  assumes "moves h g" shows "moves h (return_prompt sid t c k g)"
proof (cases "hb_sessions g sid")
  case None
  then show ?thesis using assms by (simp add: return_prompt_def Let_def)
next
  case (Some s)
  then show ?thesis
    by (rule moves_return_prompt_from)
      (intro moves_update assms quiet_trans [OF quiet_free_guard quiet_forget_dispatched])
qed

lemma moves_requeue_prompt [moves_intros]: "moves h g \<Longrightarrow> moves h (requeue_prompt sid t c k g)"
  by (simp add: requeue_prompt_def record_no_replay_def moves_guard_ops moves_frames moves_return_prompt
      split: option.split)

lemma moves_publish_delivery_hold [moves_intros]: "moves h g \<Longrightarrow> moves h (publish_delivery_hold sid v g)"
  by (simp add: publish_delivery_hold_def Let_def moves_drains moves_frames moves_update quiet_fields
      split: option.split)

lemma moves_dispatch_interrupt_once [moves_intros]:
  assumes m: "moves h g" shows "moves h (snd (dispatch_interrupt_once sid operation t c g))"
proof (cases "hb_sessions g sid")
  case None
  then show ?thesis using m by (simp add: dispatch_interrupt_once_def)
next
  case (Some s)
  let ?send = "send_dispatch (request_for sid (claim (Some operation) s) t c (Some operation) True)
      (update_session sid (claim (Some operation)) g)"
  have "moves h ?send"
    if "\<not> (hb_stuck g \<or> \<not> wired g)"
      "\<not> (se_delivery_hold s \<noteq> Some operation \<or> \<not> context_allows_dispatch g sid (Some operation)
          \<or> se_status s \<noteq> Running \<or> se_in_flight s \<or> se_dispatch_pending s \<noteq> None)"
  proof -
    note prems = that
    obtain ch where ch: "hb_channel g = Some ch" using prems(1) by (auto simp: wired_def)
    have may: "may_dispatch g sid s (request_for sid (claim (Some operation) s) t c (Some operation) True)"
      using prems(2) by (simp add: may_dispatch_def)
    show ?thesis
      by (rule moves_send_dispatch [OF m Some ch may claims_claim]) (simp add: update_session_def Some)
  qed
  then show ?thesis using m Some by (auto simp: dispatch_interrupt_once_def Let_def)
qed

lemma moves_submit_inner [moves_intros]:
  assumes m: "moves h g" shows "moves h (submit_inner sid t c k managed front g)"
proof -
  define g1 where "g1 = (if is_human (origin_from_cmid k) then notify_human_turn sid g else g)"
  have g1: "moves h g1" using m by (simp add: g1_def moves_frames)
  show ?thesis
  proof (cases "\<not> managed \<and> is_managed_child sid g \<or> hb_stuck g1 \<or> hb_sessions g1 sid = None")
    case True
    then show ?thesis using m g1
      by (auto simp: submit_inner_def Let_def g1_def [symmetric] moves_frames)
  next
    case False
    then obtain s where s: "hb_sessions g1 sid = Some s" by auto
    have "moves h (claim_and_send sid t c k s g1)"
      if "wired g1" "\<not> se_paused s" "ready True s" "context_allows_dispatch g1 sid k"
      by (rule moves_claim_and_send [OF g1 s that(1) may_dispatch_request [OF that(3) _ that(4)]])
        (simp_all add: that)
    then show ?thesis using False s g1
      by (auto simp: submit_inner_def Let_def g1_def [symmetric] moves_frames moves_enqueue)
  qed
qed

lemma moves_submits [moves_intros]:
  "moves h g \<Longrightarrow> moves h (submit sid t c k g)"
  "moves h g \<Longrightarrow> moves h (submit_context sid t c i g)"
  "moves h g \<Longrightarrow> moves h (submit_managed_prompt sid i t g)"
  "moves h g \<Longrightarrow> moves h (submit_call_notice sid i t g)"
  by (simp_all add: submit_def submit_context_def submit_managed_prompt_def submit_call_notice_def
      moves_submit_inner moves_drain_head)

lemma moves_force_submit_once [moves_intros]:
  assumes m: "moves h g" shows "moves h (snd (force_submit_once sid t c k interrupt g))"
proof (cases "is_managed_child sid g \<or> hb_stuck g \<or> hb_sessions g sid = None")
  case True
  then show ?thesis using m by (auto simp: force_submit_once_def)
next
  case False
  then obtain s where s: "hb_sessions g sid = Some s" by auto
  have "moves h (claim_and_send sid t c k s g)"
    if "wired g" "ready True s" "context_allows_dispatch g sid k"
    by (rule moves_claim_and_send [OF m s that(1) may_dispatch_request [OF that(2) _ that(3)]]) simp_all
  then show ?thesis using False s m
    by (auto simp: force_submit_once_def moves_frames moves_enqueue)
qed

lemma moves_force_submit [moves_intros]: "moves h g \<Longrightarrow> moves h (snd (force_submit sid t c k interrupt g))"
  using moves_force_submit_once [of h g sid t c k interrupt]
  by (cases "force_submit_once sid t c k interrupt g") (auto simp: force_submit_def split: option.split)

section \<open>The operations on rows\<close>

lemma moves_if_None: "moves h g \<Longrightarrow> (\<And>s. hb_sessions g sid = Some s \<Longrightarrow> moves h (f s)) \<Longrightarrow>
    moves h (case hb_sessions g sid of None \<Rightarrow> g | Some s \<Rightarrow> f s)"
  by (simp split: option.split)

lemmas row_edits =
  quiet_drop_queued quiet_drop_queued_cmid quiet_edit_in_queue quiet_wipe_queue quiet_move_to_front
  quiet_park_queued quiet_hold_editing quiet_sort_queue quiet_set_drafts

lemma moves_queue_rows [moves_intros]:
  "moves h g \<Longrightarrow> moves h (snd (remove_queued sid i g))"
  "moves h g \<Longrightarrow> moves h (snd (remove_queued_by_cmid sid i g))"
  "moves h g \<Longrightarrow> moves h (snd (edit_queued sid i t c g))"
  "moves h g \<Longrightarrow> moves h (clear_queue sid g)"
  "moves h g \<Longrightarrow> moves h (request_send_queued sid i g)"
  "moves h g \<Longrightarrow> moves h (queued_to_draft sid i g)"
  "moves h g \<Longrightarrow> moves h (snd (set_queue_editing sid v g))"
  "moves h g \<Longrightarrow> moves h (snd (release_queue_editing_if_epoch sid i n g))"
  "moves h g \<Longrightarrow> moves h (reorder_queue sid order g)"
  by (simp_all add: remove_queued_def remove_queued_by_cmid_def edit_queued_def clear_queue_def
      request_send_queued_def queued_to_draft_def set_queue_editing_def release_queue_editing_if_epoch_def
      reorder_queue_def Let_def moves_drains moves_drain_head moves_frames moves_update row_edits
      split: option.split)

lemma moves_settle_unscheduled [moves_intros]: "moves h g \<Longrightarrow> moves h (settle_unscheduled sid i b g)"
  by (simp add: settle_unscheduled_def moves_frames)

lemma moves_add_draft [moves_intros]:
  assumes "moves h g" shows "moves h (add_draft sid t c k g)"
proof -
  obtain i g2 where q: "next_qid g = (i, g2)" by (metis prod.exhaust)
  have "moves h g2" using assms by (rule moves_frame) (metis hub_core_next_qid q snd_conv)
  then show ?thesis
    by (simp add: add_draft_def q Let_def assms moves_frames moves_update quiet_set_drafts split: option.split)
qed

lemma moves_schedule_draft [moves_intros]:
  assumes "moves h g" shows "moves h (schedule_draft sid i k t c at d g)"
proof -
  obtain did g2 where q: "next_qid g = (did, g2)" by (metis prod.exhaust)
  have "moves h g2" using assms by (rule moves_frame) (metis hub_core_next_qid q snd_conv)
  then show ?thesis
    by (simp add: schedule_draft_def q Let_def assms moves_frames moves_update quiet_set_drafts
        split: option.split prod.split)
qed

lemma moves_draft_rows [moves_intros]:
  "moves h g \<Longrightarrow> moves h (unschedule_draft sid i g)"
  "moves h g \<Longrightarrow> moves h (snd (edit_draft sid i t c g))"
  "moves h g \<Longrightarrow> moves h (snd (remove_draft_if_unchanged sid i t c g))"
  "moves h g \<Longrightarrow> moves h (snd (remove_draft sid i g))"
  "moves h g \<Longrightarrow> moves h (move_draft sid i sid' g)"
  "moves h g \<Longrightarrow> moves h (clear_drafts sid g)"
  "moves h g \<Longrightarrow> moves h (activate_draft sid i k g)"
  "moves h g \<Longrightarrow> moves h (reorder_drafts sid order g)"
  by (simp_all add: unschedule_draft_def edit_draft_def remove_draft_if_unchanged_def remove_draft_def
      move_draft_def clear_drafts_def activate_draft_def reorder_drafts_def Let_def moves_settle_unscheduled
      moves_submits moves_frames moves_update quiet_set_drafts split: option.split)

lemma moves_activate_one [moves_intros]: "moves h g \<Longrightarrow> moves h (activate_one sid m g)"
  by (simp add: activate_one_def moves_submits moves_frames)

lemma moves_activate_fold [moves_intros]: "moves h g \<Longrightarrow> moves h (fold (activate_one sid) ms g)"
  by (induction ms arbitrary: g) (simp_all add: moves_activate_one)

lemma moves_activate_all_drafts [moves_intros]: "moves h g \<Longrightarrow> moves h (activate_all_drafts sid g)"
  by (simp add: activate_all_drafts_def Let_def moves_activate_fold moves_frames moves_update quiet_set_drafts
      split: option.split)

lemma moves_take_fired_draft [moves_intros]: "moves h g \<Longrightarrow> moves h (snd (take_fired_draft sid i g))"
  by (simp add: take_fired_draft_def moves_frames moves_update quiet_set_drafts split: option.split)

lemma moves_land_fired_draft [moves_intros]:
  assumes m: "moves h g" shows "moves h (land_fired_draft sid i d g)"
proof (cases "hb_stuck g \<or> hb_sessions g sid = None")
  case True
  then show ?thesis using m by (auto simp: land_fired_draft_def Let_def)
next
  case False
  then obtain s where s: "hb_sessions g sid = Some s" by auto
  let ?k = "Some (fired_cmid sid i)"
  have "moves h (send_dispatch (request_for sid (claim_guard s) (qm_text d) (qm_content d) ?k False)
      (update_session sid claim_guard g))"
    if *: "wired g" "\<not> se_paused s" "ready True s" "context_allows_dispatch g sid ?k" "se_queue s = []"
  proof -
    obtain ch where ch: "hb_channel g = Some ch" using *(1) by (auto simp: wired_def)
    show ?thesis
      by (rule moves_send_dispatch [OF m s ch may_dispatch_request [OF *(3) _ *(4)] claims_claim_guard])
        (simp_all add: * update_session_def s is_fired_def fired_cmid_def starts_with_def)
  qed
  then show ?thesis using False s m
    by (auto simp: land_fired_draft_def Let_def moves_enqueue)
qed

lemma moves_fire_scheduled_draft [moves_intros]:
  assumes "moves h g" shows "moves h (fire_scheduled_draft sid i g)"
  using moves_take_fired_draft [OF assms, of sid i]
  by (cases "take_fired_draft sid i g")
    (auto simp: fire_scheduled_draft_def moves_land_fired_draft split: option.split)

section \<open>The lifecycle\<close>

lemma moves_set_status_if_revision [moves_intros]:
  "moves h g \<Longrightarrow> moves h (snd (set_status_if_revision sid expected st detail g))"
  by (simp add: set_status_if_revision_def moves_drains moves_frames moves_push moves_update quiet_enter_status
      split: option.split)

lemma moves_set_status [moves_intros]: "moves h g \<Longrightarrow> moves h (set_status sid st detail g)"
  by (simp add: set_status_def moves_set_status_if_revision)

lemma moves_setters [moves_intros]:
  "moves h g \<Longrightarrow> moves h (set_paused sid b g)"
  "moves h g \<Longrightarrow> moves h (set_closing sid b g)"
  "moves h g \<Longrightarrow> moves h (set_resource_wait sid v g)"
  "moves h g \<Longrightarrow> moves h (set_background_tasks sid n g)"
  "moves h g \<Longrightarrow> moves h (set_session_usage sid n n' u g)"
  "moves h g \<Longrightarrow> moves h (reconcile_session_attention sid ids g)"
  by (simp_all add: set_paused_def set_closing_def set_resource_wait_def set_background_tasks_def
      set_session_usage_def reconcile_session_attention_def Let_def moves_drains moves_frames moves_update
      quiet_fields split: option.split)

lemma moves_begin_context_edit [moves_intros]:
  assumes "moves h g" shows "moves h (snd (begin_context_edit sid allow g))"
proof (cases "is_ok (fst (begin_context_edit sid allow g))")
  case True
  then obtain s where "hb_sessions g sid = Some s" "se_dispatch_pending s = None" "se_delivery_hold s = None"
      "sid \<notin> set (hb_context_edits g)"
      "snd (begin_context_edit sid allow g) = g\<lparr>hb_context_edits := sid # hb_context_edits g\<rparr>"
    by (auto simp: begin_context_edit_def split: option.splits if_splits)
  then show ?thesis using assms by (metis Raise rtranclp.rtrancl_into_rtrancl)
next
  case False
  then have "snd (begin_context_edit sid allow g) = g"
    by (auto simp: begin_context_edit_def split: option.splits if_splits)
  then show ?thesis using assms by simp
qed

lemma moves_end_context_edit [moves_intros]:
  assumes "moves h g" shows "moves h (end_context_edit sid g)"
  unfolding end_context_edit_def
  by (rule moves_drains(1), rule rtranclp.rtrancl_into_rtrancl [OF assms Lower])

lemma moves_clear_transcript [moves_intros]:
  assumes "moves h g" shows "moves h (clear_transcript sid g)"
proof -
  let ?g = "update_session sid wipe_log g"
  have "moves h ?g" using assms by (intro moves_update quiet_wipe_log)
  then have "moves h (?g\<lparr>hb_reducer := rd, hb_marks := ms, hb_latest := l\<rparr>)" for rd ms l
    by (rule moves_frame) (simp add: hub_core_def)
  then show ?thesis using assms
    by (simp add: clear_transcript_def Let_def moves_frames split: option.split)
qed

lemma moves_prepare_context_reset [moves_intros]:
  assumes "moves h g" and "hub_core (discard g) = hub_core g"
  shows "moves h (prepare_context_reset discard sid g)"
  using moves_frame [OF assms]
  by (simp add: prepare_context_reset_def Let_def moves_frames moves_update quiet_reset_context)

lemma moves_more [moves_intros]:
  "moves h g \<Longrightarrow> moves h (mark_context_cleared sid g)"
  "moves h g \<Longrightarrow> moves h (schedule_wakeup sid n t g)"
  "moves h g \<Longrightarrow> moves h (rearm_wakeup sid n t g)"
  "moves h g \<Longrightarrow> moves h (clear_persisted_wakeup sid g)"
  by (simp_all add: mark_context_cleared_def schedule_wakeup_def rearm_wakeup_def clear_persisted_wakeup_def
      Let_def moves_push moves_frames)

lemma moves_dispatch_superagent_once [moves_intros]:
  assumes m: "moves h g" shows "moves h (snd (dispatch_superagent_once sid t k context g))"
proof (cases "fst (dispatch_superagent_once sid t k context g)")
  case True
  then obtain ch p s where ch: "hb_channel g = Some ch" "ch_open ch" "length (ch_items ch) < ch_capacity ch"
    and s: "hb_sessions g sid = Some s" and ok: "supervision_target_ok g sid k s"
    and g': "snd (dispatch_superagent_once sid t k context g) =
      (update_session sid (claim (Some k)) g)\<lparr>hb_channel := Some (ch\<lparr>ch_items := ch_items ch
         @ [(request_for sid (claim (Some k) s) t [] (Some k) False)\<lparr>dr_supervision := Some context\<rparr>]\<rparr>)\<rparr>"
    by (auto simp: dispatch_superagent_once_def Let_def split: option.splits if_splits)
  let ?r = "(request_for sid (claim (Some k) s) t [] (Some k) False)\<lparr>dr_supervision := Some context\<rparr>"
  have may: "may_dispatch g sid s ?r"
    using ok by (auto simp: supervision_target_ok_def may_dispatch_def ready_def request_for_def)
  have cl: "claims ?r s (claim (Some k) s)"
    using claims_claim [of sid "Some k" s t "[]" "Some k" False] by (simp add: claims_def)
  have "chan_send ?r ch = (True, ch\<lparr>ch_items := ch_items ch @ [?r]\<rparr>)"
    using ch by (simp add: chan_send_def)
  from rtranclp.rtrancl_into_rtrancl [OF m Sent [OF s ch(1) may cl this]] show ?thesis
    unfolding g' by (simp add: update_session_def s)
next
  case False
  then have "snd (dispatch_superagent_once sid t k context g) = g"
    by (auto simp: dispatch_superagent_once_def Let_def split: option.splits if_splits)
  then show ?thesis using m by simp
qed

lemma moves_retry_turn [moves_intros]: "moves h g \<Longrightarrow> moves h (retry_turn sid g)"
  by (simp add: retry_turn_def retry_lost_attachment_def Let_def moves_drain_head moves_queue_rows
      moves_force_submit moves_set_status split: option.split sum.split)

end
