(* ===== verification/Hub_Steps.thy ===== *)
theory Hub_Steps
  imports Hub_Refinement
begin

text \<open>
  One step of the Hub is one operation; a system adds the dispatcher, which takes requests from the
  channel, holds them while it prepares the agent, and drops them. The properties here hold for every
  sequence of operations in every order: well-formed sessions, guarded dispatch, owned guards and
  undisturbed context edits.
\<close>

section \<open>Operations\<close>

datatype turn_op =
    OPush string event "string option"
  | OStatus string "(status \<times> u64) option" status "string option"
  | OClosing string bool
  | OResourceWait string "string option"
  | OBackground string nat
  | OUsage string nat nat json
  | OAttention string "string list"
  | OAbandonSuperagent string string
  | OClearInFlight string
  | OCompleteTurn string
  | ORuntimeIdle string u64
  | ORequeue string string "json list" "string option"
  | OClearTranscript string
  | OContextCleared string
  | OTime int

datatype send_op =
    OPaused string bool
  | OSubmit string string "json list" "string option"
  | OSubmitContext string string "json list" string
  | OManagedPrompt string string string
  | OCallNotice string string string
  | OForceSubmit string string "json list" "string option" bool
  | OInterrupt string string string "json list"
  | ODeliveryHold string "string option"
  | OSuperagent string string string dispatch_context
  | ODrainNow string
  | ORetryWait string
  | OExplicitWait string bool
  | OSendQueued string string
  | ORetryTurn string
  | OConfirm string string

datatype row_op =
    ORemoveQueued string string
  | ORemoveCmid string string
  | OEditQueued string string string "json list"
  | OClearQueue string
  | OQueuedToDraft string string
  | OEditing string "string option"
  | OReleaseEditing string string u64
  | OReorderQueue string "string list"
  | OBeginContextEdit string bool
  | OEndContextEdit string
  | OContextChanged string

datatype draft_op =
    OAddDraft string string "json list" "string option"
  | OScheduleDraft string "string option" "string option" string "json list" int delivery
  | OUnscheduleDraft string string
  | OEditDraft string string string "json list"
  | ORemoveUnchanged string string string "json list"
  | ORemoveDraft string string
  | OMoveDraft string string string
  | OClearDrafts string
  | OActivateDraft string string "string option"
  | OActivateAll string
  | OReorderDrafts string "string list"
  | OTakeFired string string
  | OLandFired string string queued_message
  | OScheduleWakeup string int string
  | ORearmWakeup string int string
  | OClearWakeup string

datatype hub_op = Turn turn_op | Send send_op | Row row_op | Draft draft_op

definition advance_clock :: "int \<Rightarrow> hub \<Rightarrow> hub" where
  "advance_clock t h = h\<lparr>hb_now_ms := t\<rparr>"

primrec turn_step :: "turn_op \<Rightarrow> hub \<Rightarrow> hub" where
  "turn_step (OPush sid ev k) h = push_tagged sid ev k h"
| "turn_step (OStatus sid expected st detail) h = snd (set_status_if_revision sid expected st detail h)"
| "turn_step (OClosing sid b) h = set_closing sid b h"
| "turn_step (OResourceWait sid v) h = set_resource_wait sid v h"
| "turn_step (OBackground sid n) h = set_background_tasks sid n h"
| "turn_step (OUsage sid n m u) h = set_session_usage sid n m u h"
| "turn_step (OAttention sid ids) h = reconcile_session_attention sid ids h"
| "turn_step (OAbandonSuperagent sid k) h = abandon_superagent_prompt sid k h"
| "turn_step (OClearInFlight sid) h = clear_in_flight sid h"
| "turn_step (OCompleteTurn sid) h = complete_turn sid h"
| "turn_step (ORuntimeIdle sid n) h = reconcile_runtime_idle sid n h"
| "turn_step (ORequeue sid t c k) h = requeue_prompt sid t c k h"
| "turn_step (OClearTranscript sid) h = clear_transcript sid h"
| "turn_step (OContextCleared sid) h = mark_context_cleared sid h"
| "turn_step (OTime t) h = advance_clock t h"

primrec send_step :: "send_op \<Rightarrow> hub \<Rightarrow> hub" where
  "send_step (OPaused sid b) h = set_paused sid b h"
| "send_step (OSubmit sid t c k) h = submit sid t c k h"
| "send_step (OSubmitContext sid t c k) h = submit_context sid t c k h"
| "send_step (OManagedPrompt sid i t) h = submit_managed_prompt sid i t h"
| "send_step (OCallNotice sid i t) h = submit_call_notice sid i t h"
| "send_step (OForceSubmit sid t c k b) h = snd (force_submit_once sid t c k b h)"
| "send_step (OInterrupt sid op t c) h = snd (dispatch_interrupt_once sid op t c h)"
| "send_step (ODeliveryHold sid v) h = publish_delivery_hold sid v h"
| "send_step (OSuperagent sid t k context) h = snd (dispatch_superagent_once sid t k context h)"
| "send_step (ODrainNow sid) h = drain_now sid h"
| "send_step (ORetryWait sid) h = retry_resource_wait sid h"
| "send_step (OExplicitWait sid b) h = set_explicit_wait sid b h"
| "send_step (OSendQueued sid i) h = request_send_queued sid i h"
| "send_step (ORetryTurn sid) h = retry_turn sid h"
| "send_step (OConfirm sid k) h = confirm_delivered sid k h"

primrec row_step :: "row_op \<Rightarrow> hub \<Rightarrow> hub" where
  "row_step (ORemoveQueued sid i) h = snd (remove_queued sid i h)"
| "row_step (ORemoveCmid sid k) h = snd (remove_queued_by_cmid sid k h)"
| "row_step (OEditQueued sid i t c) h = snd (edit_queued sid i t c h)"
| "row_step (OClearQueue sid) h = clear_queue sid h"
| "row_step (OQueuedToDraft sid i) h = queued_to_draft sid i h"
| "row_step (OEditing sid v) h = snd (set_queue_editing sid v h)"
| "row_step (OReleaseEditing sid i n) h = snd (release_queue_editing_if_epoch sid i n h)"
| "row_step (OReorderQueue sid order) h = reorder_queue sid order h"
| "row_step (OBeginContextEdit sid b) h = snd (begin_context_edit sid b h)"
| "row_step (OEndContextEdit sid) h = end_context_edit sid h"
| "row_step (OContextChanged sid) h = context_state_changed sid h"

primrec draft_step :: "draft_op \<Rightarrow> hub \<Rightarrow> hub" where
  "draft_step (OAddDraft sid t c k) h = add_draft sid t c k h"
| "draft_step (OScheduleDraft sid i k t c at d) h = schedule_draft sid i k t c at d h"
| "draft_step (OUnscheduleDraft sid i) h = unschedule_draft sid i h"
| "draft_step (OEditDraft sid i t c) h = snd (edit_draft sid i t c h)"
| "draft_step (ORemoveUnchanged sid i t c) h = snd (remove_draft_if_unchanged sid i t c h)"
| "draft_step (ORemoveDraft sid i) h = snd (remove_draft sid i h)"
| "draft_step (OMoveDraft sid i sid') h = move_draft sid i sid' h"
| "draft_step (OClearDrafts sid) h = clear_drafts sid h"
| "draft_step (OActivateDraft sid i k) h = activate_draft sid i k h"
| "draft_step (OActivateAll sid) h = activate_all_drafts sid h"
| "draft_step (OReorderDrafts sid order) h = reorder_drafts sid order h"
| "draft_step (OTakeFired sid i) h = snd (take_fired_draft sid i h)"
| "draft_step (OLandFired sid i m) h = land_fired_draft sid i m h"
| "draft_step (OScheduleWakeup sid d t) h = schedule_wakeup sid d t h"
| "draft_step (ORearmWakeup sid at t) h = rearm_wakeup sid at t h"
| "draft_step (OClearWakeup sid) h = clear_persisted_wakeup sid h"

primrec hub_step :: "hub_op \<Rightarrow> hub \<Rightarrow> hub" where
  "hub_step (Turn op) h = turn_step op h"
| "hub_step (Send op) h = send_step op h"
| "hub_step (Row op) h = row_step op h"
| "hub_step (Draft op) h = draft_step op h"

definition hub_run :: "hub_op list \<Rightarrow> hub \<Rightarrow> hub" where
  "hub_run ops h = fold hub_step ops h"

section \<open>Operations are moves\<close>

lemma moves_advance_clock: "moves h g \<Longrightarrow> moves h (advance_clock t g)"
  by (erule moves_frame) (simp add: advance_clock_def hub_core_def)

lemma turn_step_moves: "moves h (turn_step op h)"
  by (cases op; simp only: turn_step.simps; intro moves_push_tagged moves_set_status_if_revision moves_setters
      moves_guard_ops moves_requeue_prompt moves_clear_transcript moves_more moves_advance_clock moves_refl)

lemma send_step_moves: "moves h (send_step op h)"
  by (cases op; simp only: send_step.simps; intro moves_setters moves_submits moves_force_submit_once
      moves_dispatch_interrupt_once moves_publish_delivery_hold moves_dispatch_superagent_once moves_drains
      moves_set_explicit_wait moves_queue_rows moves_retry_turn moves_frames moves_refl)

lemma row_step_moves: "moves h (row_step op h)"
  by (cases op; simp only: row_step.simps; intro moves_queue_rows moves_begin_context_edit
      moves_end_context_edit moves_drains moves_refl)

lemma draft_step_moves: "moves h (draft_step op h)"
  by (cases op; simp only: draft_step.simps; intro moves_add_draft moves_schedule_draft moves_draft_rows
      moves_activate_all_drafts moves_take_fired_draft moves_land_fired_draft moves_more moves_refl)

lemma hub_step_moves: "moves h (hub_step op h)"
  by (cases op) (simp_all add: turn_step_moves send_step_moves row_step_moves draft_step_moves)

lemma hub_run_moves: "moves h (hub_run ops h)"
  unfolding hub_run_def
proof (induction ops arbitrary: h)
  case (Cons op ops)
  show ?case using moves_trans [OF hub_step_moves Cons.IH] by simp
qed simp

end
