(* ===== verification/Hub_Safety.thy ===== *)
theory Hub_Safety
  imports Hub_Steps
begin

text \<open>
  What holds of the Hub after every sequence of operations: each property is an invariant of the moves,
  an interpretation of the interface \<open>hub_invariant\<close>, and reaches the operations through the refinement.
\<close>

section \<open>A Hub to try things on\<close>

definition demo_host :: host where
  "demo_host = \<lparr>ho_text = (\<lambda>_. []), ho_event_size = (\<lambda>_. None), ho_digest = id, ho_externalize = None, ho_image = (\<lambda>_. None)\<rparr>"

definition demo_session :: session where
  "demo_session = (new_session False False (Some ''owner'') ''local'' ''codex'' ''digest'' 0)\<lparr>se_status := Running\<rparr>"

definition demo_hub :: "nat \<Rightarrow> hub" where
  "demo_hub capacity =
     (set_dispatch_tx capacity (new_hub False demo_host 0))\<lparr>hb_sessions := [''s'' \<mapsto> demo_session]\<rparr>"

lemma session_wf_new_session: "session_wf (new_session sy mc ow m p g t)"
  by (simp add: session_wf_def guard_ok_def window_ok_def queue_plain_def log_ok_def new_session_def)

lemma session_wf_demo: "session_wf demo_session"
  using session_wf_new_session [of False False "Some ''owner''" "''local''" "''codex''" "''digest''" 0]
  by (simp add: demo_session_def session_wf_def guard_ok_def window_ok_def queue_plain_def log_ok_def)

section \<open>Well-formed sessions\<close>

definition hub_wf :: "hub \<Rightarrow> bool" where
  "hub_wf h \<longleftrightarrow> (\<forall>sid s. hb_sessions h sid = Some s \<longrightarrow> session_wf s)"

lemma hub_wf_update: "hub_wf h \<Longrightarrow> session_wf s \<Longrightarrow> hub_sessions = (hb_sessions h)(sid \<mapsto> s) \<Longrightarrow>
    hb_sessions h' = hub_sessions \<Longrightarrow> hub_wf h'"
  by (simp add: hub_wf_def)

lemma hub_wf_cong: "hub_wf h \<Longrightarrow> hb_sessions h' = hb_sessions h \<Longrightarrow> hub_wf h'"
  by (simp add: hub_wf_def)

lemma hub_wf_at: "hub_wf h \<Longrightarrow> hb_sessions h sid = Some s \<Longrightarrow> session_wf s"
  by (simp add: hub_wf_def)

interpretation wf: hub_invariant hub_wf
proof
  fix h h' assume m: "hub_move h h'" and I: "hub_wf h"
  show "hub_wf h'"
    using m
  proof (cases rule: hub_move.cases)
    case Frame
    then show ?thesis by (simp add: hub_wf_cong [OF I] hub_core_iff)
  next
    case (Edit sid s s')
    have "session_wf s'" using hub_wf_at [OF I Edit(2)] Edit(3) by (simp add: quiet_def)
    then show ?thesis by (rule hub_wf_update [OF I _ refl]) (simp add: Edit(1))
  next
    case Raise
    then show ?thesis by (simp add: hub_wf_cong [OF I])
  next
    case Lower
    then show ?thesis by (simp add: hub_wf_cong [OF I])
  next
    case (Sent sid s ch r s' ch')
    have "session_wf s'" using hub_wf_at [OF I Sent(2)] Sent(5) by (simp add: claims_def)
    then show ?thesis by (rule hub_wf_update [OF I _ refl]) (simp add: Sent(1))
  next
    case (Wedged sid s ch r s')
    have "session_wf s'" using hub_wf_at [OF I Wedged(2)] Wedged(7) by simp
    then show ?thesis by (rule hub_wf_update [OF I _ refl]) (simp add: Wedged(1))
  qed
qed

section \<open>Guarded dispatch\<close>

definition channel_items :: "hub \<Rightarrow> dispatch_req list" where
  "channel_items h = (case hb_channel h of None \<Rightarrow> [] | Some ch \<Rightarrow> ch_items ch)"

definition sent_after :: "hub \<Rightarrow> hub \<Rightarrow> bool" where
  "sent_after h0 h \<longleftrightarrow> moves h0 h \<and>
     (\<forall>r \<in> set (channel_items h). r \<in> set (channel_items h0)
        \<or> (\<exists>g s. moves h0 g \<and> hb_sessions g (dr_session r) = Some s \<and> may_dispatch g (dr_session r) s r))"

lemma chan_send_items: "chan_send r ch = (True, ch') \<Longrightarrow> ch_items ch' = ch_items ch @ [r]"
  by (auto simp: chan_send_def split: if_splits)

interpretation history: hub_invariant "sent_after h0" for h0
proof
  fix h h' assume m: "hub_move h h'" and I: "sent_after h0 h"
  have "moves h0 h'" using I m by (auto simp: sent_after_def)
  moreover have "\<forall>r \<in> set (channel_items h'). r \<in> set (channel_items h)
      \<or> (\<exists>s. hb_sessions h (dr_session r) = Some s \<and> may_dispatch h (dr_session r) s r)"
    using m
  proof (cases rule: hub_move.cases)
    case (Sent sid s ch r s' ch')
    then show ?thesis
      by (auto simp: channel_items_def chan_send_items [OF Sent(6)] may_dispatch_def)
  qed (auto simp: channel_items_def hub_core_iff)
  ultimately show "sent_after h0 h'"
    using I unfolding sent_after_def by blast
qed

section \<open>Context edits\<close>

definition fence_ok :: "hub \<Rightarrow> bool" where
  "fence_ok h \<longleftrightarrow>
     (\<forall>sid \<in> set (hb_context_edits h). \<forall>s. hb_sessions h sid = Some s \<longrightarrow> se_dispatch_pending s = None)"

interpretation fence: hub_invariant fence_ok
proof
  fix h h' assume "hub_move h h'" "fence_ok h"
  then show "fence_ok h'"
    by (cases rule: hub_move.cases)
      (auto simp: fence_ok_def hub_core_iff quiet_def may_dispatch_def context_allows_dispatch_def)
qed

section \<open>The dispatcher\<close>

text \<open>
  The dispatcher task takes requests and holds them through its preflight; dropping the last handle of a
  request releases its ownership.
\<close>

record system =
  sy_hub :: hub
  sy_held :: "dispatch_req list"

datatype system_op = HubOp hub_op | TakeRequest | DropRequest nat

definition take_request :: "system \<Rightarrow> system" where
  "take_request y =
     (case hb_channel (sy_hub y) of
        None \<Rightarrow> y
      | Some ch \<Rightarrow>
          (case chan_recv ch of
             (None, _) \<Rightarrow> y
           | (Some r, ch') \<Rightarrow>
               y\<lparr>sy_hub := (sy_hub y)\<lparr>hb_channel := Some ch'\<rparr>, sy_held := sy_held y @ [r]\<rparr>))"

definition drop_request :: "nat \<Rightarrow> system \<Rightarrow> system" where
  "drop_request i y =
     (if i < length (sy_held y)
      then (let r = sy_held y ! i
            in y\<lparr>sy_hub := ownership_drop (dr_session r) (dr_epoch r) (sy_hub y),
                 sy_held := remove_nth i (sy_held y)\<rparr>)
      else y)"

primrec system_step :: "system_op \<Rightarrow> system \<Rightarrow> system" where
  "system_step (HubOp op) y = y\<lparr>sy_hub := hub_step op (sy_hub y)\<rparr>"
| "system_step TakeRequest y = take_request y"
| "system_step (DropRequest i) y = drop_request i y"

definition system_run :: "system_op list \<Rightarrow> system \<Rightarrow> system" where
  "system_run ops y = fold system_step ops y"

definition owned :: "dispatch_req list \<Rightarrow> string \<Rightarrow> u64 \<Rightarrow> bool" where
  "owned rs sid e \<longleftrightarrow> list_ex (\<lambda>r. dr_session r = sid \<and> dr_epoch r = e) rs"

definition guards_owned :: "dispatch_req list \<Rightarrow> hub \<Rightarrow> bool" where
  "guards_owned held h \<longleftrightarrow> hb_stuck h \<or>
     (\<forall>sid s e. hb_sessions h sid = Some s \<longrightarrow> se_dispatch_pending s = Some e \<longrightarrow>
        owned (channel_items h @ held) sid e)"

interpretation owners: hub_invariant "guards_owned held" for held
proof
  fix h h' assume m: "hub_move h h'" and I: "guards_owned held h"
  show "guards_owned held h'"
    using m
  proof (cases rule: hub_move.cases)
    case (Sent sid s ch r s' ch')
    have items: "channel_items h' = channel_items h @ [r]"
      using Sent chan_send_items [OF Sent(6)] by (simp add: channel_items_def)
    have new: "se_dispatch_pending s' = Some (dr_epoch r)" "dr_session r = sid"
      using Sent by (auto simp: claims_def may_dispatch_def)
    show ?thesis
      using I new unfolding guards_owned_def items
      by (auto simp: Sent(1) owned_def split: if_splits)
  next
    case (Edit sid s s')
    then show ?thesis using I
      by (auto simp: guards_owned_def quiet_def channel_items_def split: if_splits)
  qed (use I in \<open>auto simp: guards_owned_def hub_core_iff channel_items_def\<close>)
qed

lemma channel_items_ownership_drop [simp]: "channel_items (ownership_drop sid e h) = channel_items h"
  by (simp add: channel_items_def ownership_drop_def)

lemma owned_remove:
  assumes "owned rs sid e" "i < length rs" "\<not> (dr_session (rs ! i) = sid \<and> dr_epoch (rs ! i) = e)"
  shows "owned (remove_nth i rs) sid e"
proof -
  have "set rs \<subseteq> insert (rs ! i) (set (remove_nth i rs))"
    using id_take_nth_drop [OF assms(2)] by (auto simp: remove_nth_def) (metis Un_iff insert_iff list.simps(15) set_append)
  then show ?thesis using assms(1,3) by (auto simp: owned_def list_ex_iff)
qed

lemma owned_append: "owned (xs @ ys) sid e \<longleftrightarrow> owned xs sid e \<or> owned ys sid e"
  by (simp add: owned_def)

lemma guards_owned_step:
  assumes I: "guards_owned (sy_held y) (sy_hub y)"
  shows "guards_owned (sy_held (system_step op y)) (sy_hub (system_step op y))"
proof (cases op)
  case (HubOp hop)
  then show ?thesis using owners.moves_keep [OF hub_step_moves I] by simp
next
  case TakeRequest
  show ?thesis
  proof (cases "hb_channel (sy_hub y)")
    case None
    then show ?thesis using I TakeRequest by (simp add: take_request_def)
  next
    case (Some ch)
    then show ?thesis using I TakeRequest
      by (cases "ch_items ch")
        (auto simp: take_request_def chan_recv_def guards_owned_def channel_items_def owned_append owned_def)
  qed
next
  case (DropRequest i)
  show ?thesis
  proof (cases "i < length (sy_held y)")
    case False
    then show ?thesis using I DropRequest by (simp add: drop_request_def)
  next
    case True
    let ?r = "sy_held y ! i" and ?h = "sy_hub y"
    have "owned (channel_items ?h @ remove_nth i (sy_held y)) sid e"
      if stuck: "\<not> hb_stuck ?h"
        and s: "hb_sessions (ownership_drop (dr_session ?r) (dr_epoch ?r) ?h) sid = Some s"
        and e: "se_dispatch_pending s = Some e" for sid s e
    proof -
      obtain s0 where s0: "hb_sessions ?h sid = Some s0" "se_dispatch_pending s0 = Some e"
        "\<not> (dr_session ?r = sid \<and> dr_epoch ?r = e)"
        using s e
        by (cases "hb_sessions ?h (dr_session ?r)"; cases "sid = dr_session ?r")
          (auto simp: ownership_drop_def update_session_def split: if_splits)
      have "owned (channel_items ?h) sid e \<or> owned (sy_held y) sid e"
        using I stuck s0(1,2) unfolding guards_owned_def owned_append by blast
      then show ?thesis using owned_remove [OF _ True] s0(3) by (auto simp: owned_append)
    qed
    then show ?thesis
      using True DropRequest
      by (auto simp: drop_request_def Let_def guards_owned_def) (simp_all add: ownership_drop_def)
  qed
qed

lemma guards_owned_run:
  "guards_owned (sy_held y) (sy_hub y) \<Longrightarrow>
   guards_owned (sy_held (system_run ops y)) (sy_hub (system_run ops y))"
  unfolding system_run_def by (induction ops arbitrary: y) (simp_all add: guards_owned_step)

end
