(* ===== verification/Hub_Delivery.thy ===== *)
theory Hub_Delivery
  imports Hub_Safety
begin

text \<open>
  What the queue delivers: a drain with room sends the head and only the head, a refused head comes back
  to the front, a resubmitted prompt is not run again, stale reports change nothing, and an idle session
  works its queue off in order, one prompt per turn.
\<close>

section \<open>Frames\<close>

lemmas core_simps [simp] =
  hub_core_emit [unfolded hub_core_iff] hub_core_store [unfolded hub_core_iff]
  hub_core_schedule [unfolded hub_core_iff] hub_core_broadcast_sessions [unfolded hub_core_iff]
  hub_core_timers [unfolded hub_core_iff] hub_core_record_session_error [unfolded hub_core_iff]
  hub_core_broadcast_error [unfolded hub_core_iff] hub_core_sync_emit [unfolded hub_core_iff]
  hub_core_emit_pending [unfolded hub_core_iff] hub_core_set_setting [unfolded hub_core_iff]
  hub_core_next_qid [unfolded hub_core_iff] hub_core_settle_update [unfolded hub_core_iff]
  hub_core_accept [unfolded hub_core_iff] hub_core_settle_snapshot [unfolded hub_core_iff]
  hub_core_publish_event [unfolded hub_core_iff] hub_core_confirm_delivered [unfolded hub_core_iff]

text \<open>The part of a session that decides about delivery.\<close>

definition delivery_view ::
    "session \<Rightarrow> status \<times> bool \<times> int option \<times> string option \<times> string option \<times> bool \<times> u64 \<times> u64 option
      \<times> queued_message list \<times> bool" where
  "delivery_view s =
     (se_status s, se_paused s, se_trashed_at_ms s, se_delivery_hold s, se_editing s, se_in_flight s,
      se_in_flight_epoch s, se_dispatch_pending s, se_queue s, se_latched s)"

lemma delivery_view_iff:
  "delivery_view s' = delivery_view s \<longleftrightarrow>
     se_status s' = se_status s \<and> se_paused s' = se_paused s \<and> se_trashed_at_ms s' = se_trashed_at_ms s
   \<and> se_delivery_hold s' = se_delivery_hold s \<and> se_editing s' = se_editing s \<and> se_in_flight s' = se_in_flight s
   \<and> se_in_flight_epoch s' = se_in_flight_epoch s \<and> se_dispatch_pending s' = se_dispatch_pending s
   \<and> se_queue s' = se_queue s \<and> se_latched s' = se_latched s"
  by (simp add: delivery_view_def)

lemma delivery_view_note_event: "delivery_view (note_event t ev s) = delivery_view s"
  by (simp add: delivery_view_iff note_event_def Let_def)

lemma delivery_view_note_echo: "delivery_view (note_echo e s) = delivery_view s"
  by (simp add: delivery_view_iff note_echo_def)

lemma delivery_view_fold_canonical: "delivery_view (fold_canonical z q c s) = delivery_view s"
  by (simp add: delivery_view_iff fold_canonical_def split: option.split)

lemma delivery_view_trim_session: "delivery_view (trim_session z s) = delivery_view s"
  by (simp add: delivery_view_iff trim_session_def Let_def split: prod.split)

lemma delivery_view_apply_event:
  "apply_event h sid child ending ev k s = (s', rd, e, a) \<Longrightarrow> delivery_view s' = delivery_view s"
  by (auto simp: apply_event_def record_row_def Let_def delivery_view_trim_session delivery_view_fold_canonical
      delivery_view_note_echo delivery_view_note_event split: prod.splits option.splits)

text \<open>Pushing an event to a session leaves the delivery view of every session alone.\<close>

lemma append_event_view:
  assumes "hb_sessions h sid' = Some s"
  shows "\<exists>s'. hb_sessions (append_event sid child ending ev k h) sid' = Some s' \<and> delivery_view s' = delivery_view s"
proof (cases "hb_sessions h sid")
  case None
  then show ?thesis using assms by (simp add: append_event_def)
next
  case (Some s0)
  let ?ev = "annotate_dispatched_prompt s0 k ev"
  obtain s1 rd e a where ap: "apply_event h sid child ending ?ev k s0 = (s1, rd, e, a)" by (metis prod.exhaust)
  have out: "append_event sid child ending ev k h =
      (if answered_before s0 ?ev then h
       else publish_event s1 e (se_attention s0 \<noteq> se_attention s1)
              (settle_snapshot sid child e a (update_session sid (\<lambda>_. s1) (h\<lparr>hb_reducer := rd\<rparr>))))"
    by (simp add: append_event_def Some Let_def ap)
  show ?thesis
  proof (cases "sid' = sid")
    case True
    then have "s0 = s" using assms Some by simp
    then show ?thesis unfolding out
      using assms Some delivery_view_apply_event [OF ap] True by (simp add: update_session_def)
  next
    case False
    then show ?thesis unfolding out using assms Some by (simp add: update_session_def)
  qed
qed

lemma append_event_frame [simp]:
  "hb_channel (append_event sid child ending ev k h) = hb_channel h"
  "hb_context_edits (append_event sid child ending ev k h) = hb_context_edits h"
  "hb_contexts (append_event sid child ending ev k h) = hb_contexts h"
  "hb_stuck (append_event sid child ending ev k h) = hb_stuck h"
  by (simp_all add: append_event_def Let_def split: option.split prod.split)

lemma push_lifecycle: "push sid (Lifecycle st d) h = append_event sid None None (Lifecycle st d) None h"
  by (simp add: push_def push_tagged_def prepare_attention_event_def compact_inbound_event_def
      live_subagent_child_def Let_def split: option.split)

section \<open>Sending\<close>

definition room :: "hub \<Rightarrow> bool" where
  "room h \<longleftrightarrow> (case hb_channel h of None \<Rightarrow> False | Some ch \<Rightarrow> ch_open ch \<and> length (ch_items ch) < ch_capacity ch)"

lemma send_dispatch_room:
  assumes "room h"
  shows "hb_sessions (send_dispatch r h) = hb_sessions h"
    "channel_items (send_dispatch r h) = channel_items h @ [r]"
    "hb_stuck (send_dispatch r h) = hb_stuck h"
    "hb_context_edits (send_dispatch r h) = hb_context_edits h"
    "hb_contexts (send_dispatch r h) = hb_contexts h"
  using assms
  by (auto simp: room_def send_dispatch_def chan_send_def channel_items_def Let_def split: option.splits)

lemma send_dispatch_channel:
  "hb_channel h = Some ch \<Longrightarrow> ch_open ch \<Longrightarrow> length (ch_items ch) < ch_capacity ch \<Longrightarrow>
   hb_channel (send_dispatch r h) = Some (ch\<lparr>ch_items := ch_items ch @ [r]\<rparr>)"
  by (simp add: send_dispatch_def chan_send_def Let_def)

lemma room_frame [simp]:
  "room (emit_pending sid h) = room h" "room (update_session sid f h) = room h"
  by (simp_all add: room_def)

lemma channel_items_frame [simp]:
  "channel_items (emit_pending sid h) = channel_items h" "channel_items (update_session sid f h) = channel_items h"
  by (simp_all add: channel_items_def)

text \<open>A drain that may dispatch, with room: the head goes out and nothing else changes in the session.\<close>

lemma drain_sends:
  assumes "\<not> hb_stuck h" "room h" "hb_sessions h sid = Some s"
    and "drain_decision s revive manual (context_allows_dispatch h sid) = Dispatch" "se_queue s = m # q"
  shows "hb_sessions (drain_head sid revive manual h) = (hb_sessions h)(sid \<mapsto> take_head m s)"
    "channel_items (drain_head sid revive manual h) =
       channel_items h @ [request_for sid (take_head m s) (qm_text m) (qm_content m) (qm_cmid m) manual]"
proof -
  have "wired h" using assms(2) by (simp add: wired_def room_def split: option.splits)
  then show "hb_sessions (drain_head sid revive manual h) = (hb_sessions h)(sid \<mapsto> take_head m s)"
    "channel_items (drain_head sid revive manual h) =
       channel_items h @ [request_for sid (take_head m s) (qm_text m) (qm_content m) (qm_cmid m) manual]"
    using assms by (simp_all add: drain_head_def Let_def send_dispatch_room update_session_sessions)
qed

lemma drain_holds:
  assumes "hb_sessions h sid = Some s"
    and "drain_decision s revive manual (context_allows_dispatch h sid) \<noteq> Dispatch"
  shows "drain_head sid revive manual h = h"
  using assms by (simp add: drain_head_def)

lemma take_head_queue: "se_queue (take_head m s) = tl (se_queue s)"
  by (simp add: take_head_def claim_def)

text \<open>The request a drain makes of the head of the queue, from the epoch of the guard it finds.\<close>

definition head_request :: "string \<Rightarrow> u64 \<Rightarrow> queued_message \<Rightarrow> bool \<Rightarrow> dispatch_req" where
  "head_request sid epoch m explicit =
     \<lparr>dr_epoch = epoch + 1, dr_supervision = None, dr_session = sid, dr_text = qm_text m,
      dr_content = qm_content m, dr_cmid = qm_cmid m, dr_explicit = explicit\<rparr>"

lemma request_for_take_head:
  "request_for sid (take_head m s) (qm_text m) (qm_content m) (qm_cmid m) x = head_request sid (se_in_flight_epoch s) m x"
  by (simp add: request_for_def head_request_def take_head_def claim_def)

lemma take_head_view:
  "se_in_flight (take_head m s)" "se_in_flight_epoch (take_head m s) = se_in_flight_epoch s + 1"
  "se_dispatch_pending (take_head m s) = Some (se_in_flight_epoch s + 1)"
  "se_status (take_head m s) = se_status s" "se_paused (take_head m s) = se_paused s"
  "se_trashed_at_ms (take_head m s) = se_trashed_at_ms s"
  "se_delivery_hold (take_head m s) = se_delivery_hold s" "se_editing (take_head m s) = se_editing s"
  "se_latched (take_head m s) = se_latched s"
  by (simp_all add: take_head_def claim_def note_dispatched_def claim_guard_def Let_def split: option.split)

lemma drain_decision_view:
  "delivery_view s' = delivery_view s \<Longrightarrow> drain_decision s' revive manual a = drain_decision s revive manual a"
  by (simp add: delivery_view_iff drain_decision_def ready_def cong: if_cong list.case_cong)

lemma enter_status_fields:
  "se_status (enter_status st s) = st"
  "se_queue (enter_status st s) = se_queue s"
  "se_paused (enter_status st s) = se_paused s"
  "se_trashed_at_ms (enter_status st s) = se_trashed_at_ms s"
  "se_delivery_hold (enter_status st s) = se_delivery_hold s"
  "se_editing (enter_status st s) = se_editing s"
  "se_in_flight_epoch (enter_status st s) = se_in_flight_epoch s"
  "se_dispatch_pending (enter_status st s) = se_dispatch_pending s"
  by (simp_all add: enter_status_def cross_edge_def close_turn_def open_turn_def finish_turn_def)

lemma enter_status_busy:
  "se_in_flight (enter_status Busy s) = se_in_flight s"
  "se_latched (enter_status Busy s) = (se_latched s \<and> se_status s = Busy)"
  by (simp_all add: enter_status_def cross_edge_def close_turn_def open_turn_def turn_over_def is_dead_def)

lemma enter_status_running:
  "se_in_flight (enter_status Running s) =
     (se_in_flight s \<and> \<not> (se_status s = Busy \<and> \<not> se_latched s \<and> se_dispatch_pending s = None))"
  "se_latched (enter_status Running s) =
     (se_latched s \<or> (se_status s = Busy \<and> se_dispatch_pending s = None))"
  by (auto simp: enter_status_def cross_edge_def close_turn_def open_turn_def turn_over_def is_dead_def finish_turn_def)

lemma set_status_then_drain:
  assumes "hb_sessions h sid = Some s"
  obtains g s' where "set_status sid st d h = try_drain sid g" "hb_sessions g sid = Some s'"
    "delivery_view s' = delivery_view (enter_status st s)" "hb_channel g = hb_channel h"
    "hb_context_edits g = hb_context_edits h" "hb_contexts g = hb_contexts h" "hb_stuck g = hb_stuck h"
proof -
  define g0 where "g0 = store (UpdateStatus sid st) (settle_update sid st s (update_session sid (enter_status st) h))"
  have g0: "hb_sessions g0 sid = Some (enter_status st s)"
    by (simp add: g0_def update_session_sessions [OF assms])
  obtain s' where s': "hb_sessions (push sid (Lifecycle st d) g0) sid = Some s'"
      "delivery_view s' = delivery_view (enter_status st s)"
    unfolding push_lifecycle using append_event_view [OF g0] by blast
  show ?thesis
  proof (rule that)
    show "set_status sid st d h = try_drain sid (broadcast_sessions (push sid (Lifecycle st d) g0))"
      by (simp add: set_status_def set_status_if_revision_def assms g0_def)
    show "hb_sessions (broadcast_sessions (push sid (Lifecycle st d) g0)) sid = Some s'" using s' by simp
    show "delivery_view s' = delivery_view (enter_status st s)" by (rule s')
  qed (simp_all add: push_lifecycle g0_def)
qed

lemma context_allows_cong:
  "hb_context_edits g = hb_context_edits h \<Longrightarrow> hb_contexts g = hb_contexts h \<Longrightarrow>
   context_allows_dispatch g sid = context_allows_dispatch h sid"
  by (rule ext) (simp add: context_allows_dispatch_def allows_dispatch_def read_context_def)

lemma context_allows_update [simp]:
  "context_allows_dispatch (update_session sid f h) = context_allows_dispatch h"
  by (intro ext fun_cong [OF context_allows_cong]) simp_all

lemma room_channel: "hb_channel g = hb_channel h \<Longrightarrow> room g = room h"
  by (simp add: room_def)

lemma channel_items_channel: "hb_channel g = hb_channel h \<Longrightarrow> channel_items g = channel_items h"
  by (simp add: channel_items_def)

section \<open>The end of a turn\<close>

text \<open>A session whose queue may go on once its turn is over.\<close>

definition flowing :: "hub \<Rightarrow> string \<Rightarrow> session \<Rightarrow> bool" where
  "flowing h sid s \<longleftrightarrow>
     \<not> hb_stuck h \<and> \<not> se_paused s \<and> se_trashed_at_ms s = None \<and> se_delivery_hold s = None
   \<and> se_editing s = None \<and> se_dispatch_pending s = None
   \<and> list_all (\<lambda>m. context_allows_dispatch h sid (qm_cmid m)) (se_queue s)"

lemma flowing_dispatches:
  assumes "flowing h sid s" "se_status s = Running" "\<not> se_in_flight s" "se_queue s = m # q"
  shows "drain_decision s False False (context_allows_dispatch h sid) = Dispatch"
  using assms by (simp add: flowing_def drain_decision_def ready_def)

lemma flowing_sends:
  assumes "flowing h sid s" "se_status s = Running" "\<not> se_in_flight s" "se_queue s = m # q" "room h"
    "hb_sessions h sid = Some s"
  shows "hb_sessions (try_drain sid h) = (hb_sessions h)(sid \<mapsto> take_head m s)"
    "channel_items (try_drain sid h) = channel_items h @ [head_request sid (se_in_flight_epoch s) m False]"
  using drain_sends [OF _ assms(5,6) flowing_dispatches [OF assms(1-4)] assms(4)] assms(1)
  by (simp_all add: try_drain_def flowing_def request_for_take_head)

lemma turn_end_both_orders:
  assumes s: "hb_sessions h sid = Some s" and fl: "flowing h sid s" and r: "room h"
    and busy: "se_status s = Busy" "\<not> se_latched s" and q: "se_queue s = m # q"
  shows "channel_items (complete_turn sid (set_status sid Running d h)) =
           channel_items h @ [head_request sid (se_in_flight_epoch s) m False]"
    and "channel_items (set_status sid Running d (complete_turn sid h)) =
           channel_items h @ [head_request sid (se_in_flight_epoch s) m False]"
proof -
  obtain g s' where g: "set_status sid Running d h = try_drain sid g" "hb_sessions g sid = Some s'"
    "delivery_view s' = delivery_view (enter_status Running s)" "hb_channel g = hb_channel h"
    "hb_context_edits g = hb_context_edits h" "hb_contexts g = hb_contexts h" "hb_stuck g = hb_stuck h"
    by (rule set_status_then_drain [OF s, of Running d])
  have v: "se_status s' = Running" "\<not> se_in_flight s'" "se_queue s' = m # q" "se_latched s'"
      "se_in_flight_epoch s' = se_in_flight_epoch s" "flowing g sid s'"
    using g(3) fl busy q context_allows_cong [OF g(5,6)] g(7)
    by (simp_all add: delivery_view_iff enter_status_fields enter_status_running flowing_def)
  note sent = flowing_sends [OF v(6) v(1-3) _ g(2)]
  have "complete_turn sid (try_drain sid g) = try_drain sid g"
    using sent(1) r room_channel [OF g(4)] by (simp add: complete_turn_def take_head_view v(4))
  then show "channel_items (complete_turn sid (set_status sid Running d h)) =
      channel_items h @ [head_request sid (se_in_flight_epoch s) m False]"
    using sent(2) r room_channel [OF g(4)] channel_items_channel [OF g(4)] v(5) by (simp add: g(1))
next
  let ?h = "update_session sid finish_turn h"
  have h1: "hb_sessions ?h sid = Some (finish_turn s)" by (simp add: update_session_sessions [OF s])
  have "complete_turn sid h = ?h"
    using s fl busy drain_holds [OF h1, of False False]
    by (simp add: complete_turn_def flowing_def try_drain_def drain_decision_def ready_def finish_turn_def)
  moreover obtain g s' where g: "set_status sid Running d ?h = try_drain sid g" "hb_sessions g sid = Some s'"
    "delivery_view s' = delivery_view (enter_status Running (finish_turn s))" "hb_channel g = hb_channel ?h"
    "hb_context_edits g = hb_context_edits ?h" "hb_contexts g = hb_contexts ?h" "hb_stuck g = hb_stuck ?h"
    by (rule set_status_then_drain [OF h1, of Running d])
  moreover have v: "se_status s' = Running" "\<not> se_in_flight s'" "se_queue s' = m # q"
      "se_in_flight_epoch s' = se_in_flight_epoch s" "flowing g sid s'"
    using g(3) fl busy q context_allows_cong [OF g(5,6)] g(7)
    by (simp_all add: delivery_view_iff enter_status_fields enter_status_running flowing_def finish_turn_def)
  ultimately show "channel_items (set_status sid Running d (complete_turn sid h)) =
      channel_items h @ [head_request sid (se_in_flight_epoch s) m False]"
    using flowing_sends(2) [OF v(5) v(1-3) _ g(2)] r room_channel [OF g(4)] channel_items_channel [OF g(4)]
    by simp
qed

section \<open>Working the queue off\<close>

text \<open>
  One turn of a session: the dispatcher takes the request, hands it over and drops it, the worker starts
  its turn and ends it.
\<close>

definition turn_cycle :: "string \<Rightarrow> system \<Rightarrow> system" where
  "turn_cycle sid y =
     system_run
       [TakeRequest, DropRequest 0, HubOp (Turn (OStatus sid None Busy None)),
        HubOp (Turn (OStatus sid None Running None))] y"

definition ready_channel :: "hub \<Rightarrow> dispatch_req list \<Rightarrow> bool" where
  "ready_channel h rs \<longleftrightarrow>
     (case hb_channel h of None \<Rightarrow> False | Some ch \<Rightarrow> ch_open ch \<and> 0 < ch_capacity ch \<and> ch_items ch = rs)"

definition calm :: "session \<Rightarrow> bool" where
  "calm s \<longleftrightarrow> \<not> se_paused s \<and> se_trashed_at_ms s = None \<and> se_delivery_hold s = None \<and> se_editing s = None"

definition delivering :: "string \<Rightarrow> queued_message list \<Rightarrow> u64 \<Rightarrow> dispatch_req list \<Rightarrow> bool \<Rightarrow> system \<Rightarrow> bool" where
  "delivering sid q epoch rs flight y \<longleftrightarrow>
     sy_held y = [] \<and> ready_channel (sy_hub y) rs \<and> \<not> hb_stuck (sy_hub y)
   \<and> list_all (\<lambda>m. context_allows_dispatch (sy_hub y) sid (qm_cmid m)) q
   \<and> (\<exists>s. hb_sessions (sy_hub y) sid = Some s \<and> calm s \<and> se_status s = Running \<and> se_queue s = q
         \<and> se_in_flight_epoch s = epoch \<and> se_in_flight s = flight
         \<and> se_dispatch_pending s = (if flight then Some epoch else None))"

lemma ready_channel_room: "ready_channel h [] \<Longrightarrow> room h"
  by (auto simp: ready_channel_def room_def split: option.splits)

lemma ready_channel_items: "ready_channel h rs \<Longrightarrow> channel_items h = rs"
  by (auto simp: ready_channel_def channel_items_def split: option.splits)

lemma ready_channel_channel: "hb_channel g = hb_channel h \<Longrightarrow> ready_channel g rs = ready_channel h rs"
  by (simp add: ready_channel_def)

lemma drain_ready_channel:
  assumes "flowing h sid s" "se_status s = Running" "\<not> se_in_flight s" "se_queue s = m # q"
    "hb_sessions h sid = Some s" "ready_channel h []"
  shows "ready_channel (try_drain sid h) [head_request sid (se_in_flight_epoch s) m False]"
    "hb_stuck (try_drain sid h) = hb_stuck h"
    "context_allows_dispatch (try_drain sid h) = context_allows_dispatch h"
proof -
  have r: "room h" by (rule ready_channel_room [OF assms(6)])
  then have "wired h" by (simp add: wired_def room_def split: option.splits)
  then have t: "try_drain sid h = send_dispatch (head_request sid (se_in_flight_epoch s) m False)
      (emit_pending sid (update_session sid (take_head m) h))"
    using assms flowing_dispatches [OF assms(1-4)]
    by (simp add: try_drain_def drain_head_def Let_def flowing_def request_for_take_head)
  show "hb_stuck (try_drain sid h) = hb_stuck h" using r by (simp add: t send_dispatch_room)
  show "context_allows_dispatch (try_drain sid h) = context_allows_dispatch h"
    using r by (intro ext fun_cong [OF context_allows_cong]) (simp_all add: t send_dispatch_room)
  show "ready_channel (try_drain sid h) [head_request sid (se_in_flight_epoch s) m False]"
    using assms(6) by (auto simp: t ready_channel_def send_dispatch_channel split: option.splits)
qed

lemma delivering_drain:
  assumes "delivering sid q epoch [] False \<lparr>sy_hub = h, sy_held = []\<rparr>"
  shows "delivering sid (tl q) (if q = [] then epoch else epoch + 1)
      (if q = [] then [] else [head_request sid epoch (hd q) False]) (q \<noteq> [])
      \<lparr>sy_hub = try_drain sid h, sy_held = []\<rparr>"
proof -
  obtain s where s: "hb_sessions h sid = Some s" "calm s" "se_status s = Running" "se_queue s = q"
    "se_in_flight_epoch s = epoch" "\<not> se_in_flight s" "se_dispatch_pending s = None"
    and ch: "ready_channel h []" "\<not> hb_stuck h"
    and ok: "list_all (\<lambda>m. context_allows_dispatch h sid (qm_cmid m)) q"
    using assms by (auto simp: delivering_def)
  show ?thesis
  proof (cases q)
    case Nil
    then have "drain_decision s False False (context_allows_dispatch h sid) \<noteq> Dispatch"
      using s(4) by (simp add: drain_decision_def)
    then have "try_drain sid h = h" using s(1) by (simp add: try_drain_def drain_holds)
    then show ?thesis using assms Nil by simp
  next
    case (Cons m q')
    have fl: "flowing h sid s" using s ch ok by (simp add: flowing_def calm_def)
    have q: "se_queue s = m # q'" using s(4) Cons by simp
    note sent = flowing_sends [OF fl s(3,6) q ready_channel_room [OF ch(1)] s(1)]
      and after = drain_ready_channel [OF fl s(3,6) q s(1) ch(1)]
    have "calm (take_head m s)" using s(2) by (simp add: calm_def take_head_view)
    then show ?thesis
      using sent after ch ok s Cons
      by (simp add: delivering_def take_head_view take_head_queue)
  qed
qed

text \<open>The view of a session between the parts of a turn.\<close>

definition holding :: "string \<Rightarrow> queued_message list \<Rightarrow> u64 \<Rightarrow> status \<Rightarrow> hub \<Rightarrow> bool" where
  "holding sid q epoch st h \<longleftrightarrow>
     ready_channel h [] \<and> \<not> hb_stuck h \<and> list_all (\<lambda>m. context_allows_dispatch h sid (qm_cmid m)) q
   \<and> (\<exists>s. hb_sessions h sid = Some s \<and> calm s \<and> se_status s = st \<and> se_queue s = q
         \<and> se_in_flight_epoch s = epoch \<and> se_in_flight s \<and> se_dispatch_pending s = None
         \<and> (st = Busy \<longrightarrow> \<not> se_latched s))"

lemma handover:
  assumes "delivering sid q epoch [r] True y" "dr_session r = sid" "dr_epoch r = epoch"
  shows "\<exists>h. system_run [TakeRequest, DropRequest 0] y = \<lparr>sy_hub = h, sy_held = []\<rparr> \<and> holding sid q epoch Running h"
proof -
  obtain h where y: "y = \<lparr>sy_hub = h, sy_held = []\<rparr>"
    using assms(1) by (cases y) (auto simp: delivering_def)
  obtain s ch where s: "hb_sessions h sid = Some s" "calm s" "se_status s = Running" "se_queue s = q"
    "se_in_flight_epoch s = epoch" "se_in_flight s" "se_dispatch_pending s = Some epoch"
    and ch: "hb_channel h = Some ch" "ch_open ch" "0 < ch_capacity ch" "ch_items ch = [r]"
    and st: "\<not> hb_stuck h"
    and ok: "list_all (\<lambda>m. context_allows_dispatch h sid (qm_cmid m)) q"
    using assms(1) by (auto simp: delivering_def ready_channel_def y split: option.splits)
  let ?h1 = "h\<lparr>hb_channel := Some (ch\<lparr>ch_items := []\<rparr>)\<rparr>"
  let ?h2 = "ownership_drop sid epoch ?h1"
  have run: "system_run [TakeRequest, DropRequest 0] y = \<lparr>sy_hub = ?h2, sy_held = []\<rparr>"
    by (simp add: system_run_def take_request_def drop_request_def chan_recv_def y ch remove_nth_def assms)
  have "context_allows_dispatch ?h1 = context_allows_dispatch h"
    by (intro ext fun_cong [OF context_allows_cong]) simp_all
  then have "holding sid q epoch Running ?h2"
    using s ch st ok by (simp add: holding_def ownership_drop_def update_session_sessions ready_channel_def calm_def)
  with run show ?thesis by blast
qed

lemma start_turn:
  assumes "holding sid q epoch Running h"
  shows "holding sid q epoch Busy (set_status sid Busy d h)"
proof -
  obtain s where s: "hb_sessions h sid = Some s" "calm s" "se_status s = Running" "se_queue s = q"
    "se_in_flight_epoch s = epoch" "se_in_flight s" "se_dispatch_pending s = None"
    using assms by (auto simp: holding_def)
  obtain g s' where g: "set_status sid Busy d h = try_drain sid g" "hb_sessions g sid = Some s'"
    "delivery_view s' = delivery_view (enter_status Busy s)" "hb_channel g = hb_channel h"
    "hb_context_edits g = hb_context_edits h" "hb_contexts g = hb_contexts h" "hb_stuck g = hb_stuck h"
    by (rule set_status_then_drain [OF s(1), of Busy d])
  note v = g(3) [unfolded delivery_view_iff enter_status_fields enter_status_busy]
  have "try_drain sid g = g"
    using g(2) v by (simp add: try_drain_def drain_holds drain_decision_def ready_def)
  then show ?thesis
    using assms g s v context_allows_cong [OF g(5,6)] ready_channel_channel [OF g(4)]
    by (simp add: holding_def calm_def)
qed

lemma end_turn:
  assumes "holding sid q epoch Busy h"
  shows "delivering sid (tl q) (if q = [] then epoch else epoch + 1)
      (if q = [] then [] else [head_request sid epoch (hd q) False]) (q \<noteq> [])
      \<lparr>sy_hub = set_status sid Running d h, sy_held = []\<rparr>"
proof -
  obtain s where s: "hb_sessions h sid = Some s" "calm s" "se_status s = Busy" "se_queue s = q"
    "se_in_flight_epoch s = epoch" "se_in_flight s" "se_dispatch_pending s = None" "\<not> se_latched s"
    using assms by (auto simp: holding_def)
  obtain g s' where g: "set_status sid Running d h = try_drain sid g" "hb_sessions g sid = Some s'"
    "delivery_view s' = delivery_view (enter_status Running s)" "hb_channel g = hb_channel h"
    "hb_context_edits g = hb_context_edits h" "hb_contexts g = hb_contexts h" "hb_stuck g = hb_stuck h"
    by (rule set_status_then_drain [OF s(1), of Running d])
  note v = g(3) [unfolded delivery_view_iff enter_status_fields enter_status_running]
  have "delivering sid q epoch [] False \<lparr>sy_hub = g, sy_held = []\<rparr>"
    using assms g s v context_allows_cong [OF g(5,6)] ready_channel_channel [OF g(4)]
    by (simp add: delivering_def holding_def calm_def)
  from delivering_drain [OF this] show ?thesis by (simp add: g(1))
qed

lemma turn_cycle_delivers:
  assumes "delivering sid q epoch [r] True y" "dr_session r = sid" "dr_epoch r = epoch"
  shows "delivering sid (tl q) (if q = [] then epoch else epoch + 1)
      (if q = [] then [] else [head_request sid epoch (hd q) False]) (q \<noteq> []) (turn_cycle sid y)"
proof -
  obtain h where h: "system_run [TakeRequest, DropRequest 0] y = \<lparr>sy_hub = h, sy_held = []\<rparr>"
    "holding sid q epoch Running h" using handover [OF assms] by blast
  have "turn_cycle sid y = \<lparr>sy_hub = set_status sid Running None (set_status sid Busy None h), sy_held = []\<rparr>"
    using h(1) by (simp add: turn_cycle_def system_run_def set_status_def)
  then show ?thesis using end_turn [OF start_turn [OF h(2)]] by simp
qed

text \<open>The state after \<open>k\<close> turns, once the first prompt has gone out.\<close>

lemma turn_cycles_deliver:
  assumes "delivering sid (tl q) (epoch + 1) [head_request sid epoch (hd q) False] True y" "k < length q"
  shows "delivering sid (drop (Suc k) q) (epoch + 1 + of_nat k)
      [head_request sid (epoch + of_nat k) (q ! k) False] True ((turn_cycle sid ^^ k) y)"
  using assms(2)
proof (induction k)
  case 0
  then show ?case using assms(1) by (cases q) (simp_all add: drop_Suc)
next
  case (Suc k)
  let ?r = "head_request sid (epoch + of_nat k) (q ! k) False"
  have d: "drop (Suc k) q \<noteq> []" "hd (drop (Suc k) q) = q ! Suc k" "tl (drop (Suc k) q) = drop (Suc (Suc k)) q"
    using Suc.prems by (simp, simp add: hd_drop_conv_nth, simp add: drop_Suc tl_drop)
  have "delivering sid (drop (Suc k) q) (epoch + 1 + of_nat k) [?r] True ((turn_cycle sid ^^ k) y)"
    using Suc by simp
  from turn_cycle_delivers [OF this] show ?case
    using d by (simp add: head_request_def add.commute add.left_commute)
qed

section \<open>Accepting a prompt once\<close>

lemma client_cmid_unsupervised: "is_client_cmid k \<Longrightarrow> \<not> is_supervised (Some k)"
proof -
  have "starts_with k SUPERAGENT_PREFIX \<Longrightarrow> starts_with k ''cowboy-''"
    unfolding starts_with_def SUPERAGENT_PREFIX_def by (drule arg_cong [of _ _ "take 7"]) (simp add: take_take)
  then show "is_client_cmid k \<Longrightarrow> \<not> is_supervised (Some k)"
    by (auto simp: is_client_cmid_def is_supervised_def)
qed

lemma note_dispatched_noted:
  "tracks_delivery k \<Longrightarrow> list_ex (\<lambda>p. dp_cmid p = k) (se_dispatched (note_dispatched (Some k) s))"
  by (simp add: note_dispatched_def Let_def)

lemma claim_accepts: "is_client_cmid k \<Longrightarrow> prompt_already_accepted (claim (Some k) s) k"
  using note_dispatched_noted [of k "claim_guard s"]
  by (simp add: prompt_already_accepted_def claim_def tracks_delivery_def)

lemma queued_accepts: "queued_cmid k (se_queue s) \<Longrightarrow> prompt_already_accepted s k"
  by (simp add: prompt_already_accepted_def)

lemma queued_cmid_simps [simp]:
  "queued_cmid k (m # ms) \<longleftrightarrow> qm_cmid m = Some k \<or> queued_cmid k ms"
  "queued_cmid k (ms @ ns) \<longleftrightarrow> queued_cmid k ms \<or> queued_cmid k ns"
  by (simp_all add: queued_cmid_def)

lemma plain_message_cmid [simp]: "qm_cmid (plain_message i t c k) = k"
  by (simp add: plain_message_def)

lemma next_qid_frame [simp]: "next_qid h = (i, g) \<Longrightarrow> hb_sessions g = hb_sessions h \<and> hb_channel g = hb_channel h
    \<and> hb_stuck g = hb_stuck h"
  by (auto simp: next_qid_def)

definition returned :: "string option \<Rightarrow> session \<Rightarrow> session" where
  "returned k s = forget_dispatched k (free_guard s)"

lemma returned_fields [simp]:
  "se_queue (returned k s) = se_queue s" "\<not> se_in_flight (returned k s)" "se_dispatch_pending (returned k s) = None"
  by (simp_all add: returned_def forget_dispatched_def free_guard_def split: option.split)

lemma return_prompt_dup:
  assumes "hb_sessions h sid = Some s" "queued_cmid k (se_queue s)"
  shows "hb_sessions (return_prompt sid t c (Some k) h) sid = Some (returned (Some k) s)"
  using assms by (simp add: return_prompt_def Let_def update_session_def returned_def)

lemma return_prompt_new:
  assumes "hb_sessions h sid = Some s" "case k of None \<Rightarrow> True | Some c \<Rightarrow> \<not> queued_cmid c (se_queue s)"
  obtains i where "hb_sessions (return_prompt sid t c k h) sid =
      Some (insert_front (plain_message i (returned_text c (without_preamble h sid k c) t) (without_preamble h sid k c) k)
              (returned k s))"
proof -
  let ?g = "update_session sid (\<lambda>s. forget_dispatched k (free_guard s)) h"
  obtain i g2 where q: "next_qid ?g = (i, g2)" by (metis prod.exhaust)
  have "hb_sessions g2 sid = Some (returned k s)"
    using next_qid_frame [OF q] assms(1) by (simp add: update_session_sessions returned_def)
  then show ?thesis
    using assms q by (intro that [of i]) (simp add: return_prompt_def Let_def update_session_sessions split: option.splits)
qed

lemma ownership_drop_session:
  "hb_sessions h sid = Some s \<Longrightarrow> se_dispatch_pending s = None \<Longrightarrow> hb_sessions (ownership_drop sid e h) = hb_sessions h"
  by (auto simp: ownership_drop_def update_session_def)

lemma send_dispatch_refused:
  assumes "\<not> room h" "hb_channel h \<noteq> None" "\<not> is_supervised (dr_cmid r)" "hb_sessions h (dr_session r) = Some s"
    and ret: "hb_sessions (return_prompt (dr_session r) (dr_text r) (dr_content r) (dr_cmid r) h) (dr_session r) = Some s'"
    and "se_dispatch_pending s' = None"
  shows "hb_sessions (send_dispatch r h) =
      hb_sessions (return_prompt (dr_session r) (dr_text r) (dr_content r) (dr_cmid r) h)"
    "hb_channel (send_dispatch r h) = hb_channel (return_prompt (dr_session r) (dr_text r) (dr_content r) (dr_cmid r) h)"
    "ErrorSent (Some (dr_session r)) ''dispatch queue is full; prompt remains queued'' \<in> set (hb_effects (send_dispatch r h))"
proof -
  let ?g = "broadcast_error (Some (dr_session r)) ''dispatch queue is full; prompt remains queued''
      (return_prompt (dr_session r) (dr_text r) (dr_content r) (dr_cmid r) h)"
  have eq: "send_dispatch r h = ownership_drop (dr_session r) (dr_epoch r) ?g"
    using assms(1-3) by (auto simp: send_dispatch_def room_def chan_send_def Let_def split: option.splits)
  show "hb_sessions (send_dispatch r h) =
      hb_sessions (return_prompt (dr_session r) (dr_text r) (dr_content r) (dr_cmid r) h)"
    using ownership_drop_session [of ?g "dr_session r" s' "dr_epoch r"] ret assms(6) by (simp add: eq)
  show "hb_channel (send_dispatch r h) = hb_channel (return_prompt (dr_session r) (dr_text r) (dr_content r) (dr_cmid r) h)"
    by (simp add: eq ownership_drop_def)
  have "hb_effects (ownership_drop sid e h') = hb_effects h'" for sid e h'
    by (simp add: ownership_drop_def update_session_def split: option.split)
  then show "ErrorSent (Some (dr_session r)) ''dispatch queue is full; prompt remains queued''
      \<in> set (hb_effects (send_dispatch r h))"
    by (simp add: eq broadcast_error_def emit_def)
qed

lemma return_prompt_channel [simp]: "hb_channel (return_prompt sid t c k h) = hb_channel h"
proof -
  obtain i g2 where q: "next_qid (update_session sid (\<lambda>s. forget_dispatched k (free_guard s)) h) = (i, g2)"
    by (metis prod.exhaust)
  then show ?thesis using next_qid_frame [OF q]
    by (simp add: return_prompt_def Let_def split: option.split)
qed

lemma return_prompt_accepts:
  assumes "hb_sessions h sid = Some s"
  shows "\<exists>s'. hb_sessions (return_prompt sid t c (Some k) h) sid = Some s' \<and> queued_cmid k (se_queue s')
      \<and> se_dispatch_pending s' = None"
proof (cases "queued_cmid k (se_queue s)")
  case True
  then show ?thesis using return_prompt_dup [OF assms True] by simp
next
  case False
  then obtain i where "hb_sessions (return_prompt sid t c (Some k) h) sid =
      Some (insert_front (plain_message i (returned_text c (without_preamble h sid (Some k) c) t)
              (without_preamble h sid (Some k) c) (Some k)) (returned (Some k) s))"
    using return_prompt_new [OF assms, of "Some k" t c] by auto
  then show ?thesis by (simp add: insert_front_def)
qed

lemma send_accepts:
  assumes "is_client_cmid k" "wired h" "hb_sessions h sid = Some s" "prompt_already_accepted s k"
  shows "\<exists>s'. hb_sessions (send_dispatch (request_for sid s0 t c (Some k) x) h) sid = Some s'
      \<and> prompt_already_accepted s' k"
proof (cases "room h")
  case True
  then show ?thesis using assms by (simp add: send_dispatch_room)
next
  case False
  let ?r = "request_for sid s0 t c (Some k) x"
  obtain s' where s': "hb_sessions (return_prompt sid t c (Some k) h) sid = Some s'" "queued_cmid k (se_queue s')"
    "se_dispatch_pending s' = None" using return_prompt_accepts [OF assms(3)] by blast
  have "hb_sessions (send_dispatch ?r h) = hb_sessions (return_prompt sid t c (Some k) h)"
    using send_dispatch_refused(1) [OF False, of ?r] assms(2,3) s' client_cmid_unsupervised [OF assms(1)]
    by (simp add: wired_def)
  then show ?thesis using s' by (auto intro: queued_accepts)
qed

lemma enqueue_accepts:
  assumes "hb_sessions h sid = Some s"
  shows "\<exists>s'. hb_sessions (enqueue front sid t c (Some k) h) sid = Some s' \<and> prompt_already_accepted s' k"
proof -
  obtain i g where q: "next_qid h = (i, g)" by (metis prod.exhaust)
  then have "hb_sessions g sid = Some s" using next_qid_frame [OF q] assms by simp
  then show ?thesis
    using q by (auto simp: enqueue_def Let_def update_session_sessions insert_front_def insert_back_def queued_accepts)
qed

lemma submit_accepts:
  assumes "is_client_cmid k" "\<not> is_managed_child sid h" "\<not> hb_stuck h" "hb_sessions h sid = Some s"
  shows "\<exists>s'. hb_sessions (submit sid t c (Some k) h) sid = Some s' \<and> prompt_already_accepted s' k"
proof -
  define g where "g = (if is_human (origin_from_cmid (Some k)) then notify_human_turn sid h else h)"
  have g: "hb_sessions g sid = Some s" "\<not> hb_stuck g" using assms by (simp_all add: g_def)
  have sub: "submit sid t c (Some k) h =
      (if prompt_already_accepted s k then confirm_delivered sid k g
       else if wired g \<and> \<not> se_paused s \<and> se_trashed_at_ms s = None \<and> ready True s
                \<and> se_queue s = [] \<and> context_allows_dispatch g sid (Some k)
       then claim_and_send sid t c (Some k) s g else enqueue False sid t c (Some k) g)"
    using assms(2) g by (simp add: submit_def submit_inner_def Let_def g_def [symmetric] accepted_cmid_def)
  have "\<exists>s'. hb_sessions (claim_and_send sid t c (Some k) s g) sid = Some s' \<and> prompt_already_accepted s' k"
    if "wired g"
    unfolding claim_and_send_def
    by (rule send_accepts [OF assms(1) _ _ claim_accepts [OF assms(1), of s]])
      (use that g in \<open>simp_all add: wired_def update_session_sessions\<close>)
  then show ?thesis using g enqueue_accepts [OF g(1)] by (auto simp: sub)
qed

lemma submit_accepted_frame:
  assumes "\<And>s. hb_sessions h sid = Some s \<Longrightarrow> is_managed_child sid h \<or> hb_stuck h \<or> prompt_already_accepted s k"
  shows "hb_sessions (submit sid t c (Some k) h) = hb_sessions h"
    "hb_channel (submit sid t c (Some k) h) = hb_channel h"
  using assms
  by (auto simp: submit_def submit_inner_def Let_def accepted_cmid_def split: option.split)

section \<open>Errors\<close>

lemma without_preamble_short: "length blocks \<le> 1 \<Longrightarrow> without_preamble h sid k blocks = blocks"
  by (simp add: without_preamble_def)

end
