(* ===== verification/Hub_Properties.thy ===== *)
theory Hub_Properties
  imports Hub_Delivery
begin

text \<open>
  The properties of the Hub that hold over all its operations, with a demonstration of each on a small
  Hub with one session.
\<close>

section \<open>The demonstration\<close>

definition demo_submit :: hub_op where
  "demo_submit = Send (OSubmit ''s'' ''hi'' [] (Some ''c1''))"

lemma demo_fields [simp]:
  "hb_sessions (demo_hub n) ''s'' = Some demo_session"
  "hb_channel (demo_hub n) = Some \<lparr>ch_capacity = n, ch_open = True, ch_items = []\<rparr>"
  "hb_context_edits (demo_hub n) = []" "\<not> hb_stuck (demo_hub n)" "hb_contexts (demo_hub n) = (\<lambda>_. NoContext)"
  by (simp_all add: demo_hub_def set_dispatch_tx_def new_hub_def)

lemma demo_session_fields [simp]:
  "se_status demo_session = Running" "\<not> se_paused demo_session" "se_trashed_at_ms demo_session = None"
  "\<not> se_managed_child demo_session" "se_queue demo_session = []" "\<not> se_in_flight demo_session"
  "se_dispatch_pending demo_session = None" "se_delivery_hold demo_session = None"
  "se_editing demo_session = None" "se_dispatched demo_session = []" "se_log demo_session = []"
  "\<not> se_latched demo_session" "se_in_flight_epoch demo_session = 0"
  by (simp_all add: demo_session_def new_session_def)

lemma demo_only: "hb_sessions (demo_hub n) sid = Some s \<Longrightarrow> s = demo_session"
  by (simp add: demo_hub_def split: if_splits)

lemma demo_room: "room (demo_hub 1)"
  by (simp add: room_def)

lemma no_context_allows: "hb_contexts h sid = NoContext \<Longrightarrow> allows_dispatch h sid k"
  by (simp add: allows_dispatch_def read_context_def no_context_def validate_sources_def MAX_SOURCES_def
      unresolved_def known_receipt_def)

lemma demo_submit_sends:
  "channel_items (hub_run [demo_submit] (demo_hub 1)) =
     [request_for ''s'' (claim (Some ''c1'') demo_session) ''hi'' [] (Some ''c1'') True]"
  "hb_sessions (hub_run [demo_submit] (demo_hub 1)) ''s'' = Some (claim (Some ''c1'') demo_session)"
  "\<not> hb_stuck (hub_run [demo_submit] (demo_hub 1))"
proof -
  define g where "g = notify_human_turn ''s'' (demo_hub 1)"
  have g: "hb_sessions g ''s'' = Some demo_session" "hb_channel g = hb_channel (demo_hub 1)" "\<not> hb_stuck g"
      "context_allows_dispatch g ''s'' k" for k
    by (simp_all add: g_def context_allows_dispatch_def no_context_allows)
  have "hub_run [demo_submit] (demo_hub 1) =
      (if is_human (origin_from_cmid (Some ''c1''))
       then claim_and_send ''s'' ''hi'' [] (Some ''c1'') demo_session g else hub_run [demo_submit] (demo_hub 1))"
    using g
    by (simp add: hub_run_def demo_submit_def submit_def submit_inner_def Let_def is_managed_child_def g_def [symmetric]
        accepted_cmid_def prompt_already_accepted_def queued_cmid_def wired_def ready_def del: One_nat_def)
  moreover have "is_human (origin_from_cmid (Some ''c1''))"
    by (simp add: origin_from_cmid_def starts_with_def is_human_def human_composer_def is_agent_message_id_def
        LEGACY_AUTO_CONTINUE_PREFIX_def WAKEUP_PREFIX_def SCHED_PREFIX_def CALL_NOTICE_PREFIX_def)
  ultimately have run: "hub_run [demo_submit] (demo_hub 1) = claim_and_send ''s'' ''hi'' [] (Some ''c1'') demo_session g"
    by simp
  have room: "room g" using demo_room g(2) by (simp add: room_def)
  show "channel_items (hub_run [demo_submit] (demo_hub 1)) =
      [request_for ''s'' (claim (Some ''c1'') demo_session) ''hi'' [] (Some ''c1'') True]"
    using room channel_items_channel [OF g(2)]
    by (simp add: run claim_and_send_def send_dispatch_room channel_items_def [of "demo_hub 1"] del: One_nat_def)
  show "hb_sessions (hub_run [demo_submit] (demo_hub 1)) ''s'' = Some (claim (Some ''c1'') demo_session)"
    using room g by (simp add: run claim_and_send_def send_dispatch_room update_session_sessions del: One_nat_def)
  show "\<not> hb_stuck (hub_run [demo_submit] (demo_hub 1))"
    using room g by (simp add: run claim_and_send_def send_dispatch_room del: One_nat_def)
qed

section \<open>Properties\<close>

text \<open>C1: Every session stays well formed whatever operations run in whatever order: a raised dispatch
  guard belongs to the prompt in flight, the delivery window holds at most 64 distinct prompts, no queued
  message carries a schedule, and the log is sorted by sequence number below the next one.\<close>

theorem operations_keep_sessions_wf:
  assumes "\<And>sid s. hb_sessions h sid = Some s \<Longrightarrow> session_wf s"
    and "hb_sessions (hub_run ops h) sid = Some s"
  shows "guard_ok s \<and> window_ok s \<and> queue_plain s \<and> log_ok s"
proof -
  have "hub_wf h" unfolding hub_wf_def using assms(1) by blast
  from hub_wf_at [OF wf.moves_keep [OF hub_run_moves this] assms(2)] show ?thesis
    by (simp only: session_wf_def)
qed

theorem operations_keep_sessions_wf_witness:
  "guard_ok (claim (Some ''c1'') demo_session) \<and> window_ok (claim (Some ''c1'') demo_session)
   \<and> queue_plain (claim (Some ''c1'') demo_session) \<and> log_ok (claim (Some ''c1'') demo_session)"
  by (rule operations_keep_sessions_wf [OF _ demo_submit_sends(2)]) (metis demo_only session_wf_demo)



text \<open>C31: While a context edit of a session is being saved, no prompt of that session is between the queue
  and its runtime, whatever else happens meanwhile.\<close>

theorem context_edit_excludes_dispatch:
  assumes "hb_context_edits h = []" and "sid \<in> set (hb_context_edits (hub_run ops h))"
    and "hb_sessions (hub_run ops h) sid = Some s"
  shows "se_dispatch_pending s = None"
proof -
  have "fence_ok h" using assms(1) by (simp add: fence_ok_def)
  from fence.moves_keep [OF hub_run_moves this] assms(2,3) show ?thesis
    by (auto simp: fence_ok_def)
qed

theorem context_edit_excludes_dispatch_witness:
  "se_dispatch_pending demo_session = None"
  by (rule context_edit_excludes_dispatch [of "demo_hub 1" "''s''" "[Row (OBeginContextEdit ''s'' False)]"])
    (simp_all add: hub_run_def begin_context_edit_def)

text \<open>A raised dispatch guard is never leaked: as long as it stands, the request that raised it is still
  in the channel or in the dispatcher's hands, so dropping the requests frees every session.\<close>

theorem dispatch_guard_is_owned:
  assumes "\<And>sid s. hb_sessions (sy_hub y) sid = Some s \<Longrightarrow> se_dispatch_pending s = None"
    and "\<not> hb_stuck (sy_hub (system_run ops y))"
    and "hb_sessions (sy_hub (system_run ops y)) sid = Some s" and "se_dispatch_pending s = Some e"
  shows "\<exists>r \<in> set (channel_items (sy_hub (system_run ops y)) @ sy_held (system_run ops y)).
           dr_session r = sid \<and> dr_epoch r = e"
proof -
  have "guards_owned (sy_held y) (sy_hub y)" using assms(1) by (fastforce simp: guards_owned_def)
  from guards_owned_run [OF this, of ops] assms(2-4) show ?thesis
    unfolding guards_owned_def owned_def list_ex_iff by blast
qed

theorem dispatch_guard_is_owned_witness:
  "\<exists>r \<in> set (channel_items (sy_hub (system_run [HubOp demo_submit] \<lparr>sy_hub = demo_hub 1, sy_held = []\<rparr>))
        @ sy_held (system_run [HubOp demo_submit] \<lparr>sy_hub = demo_hub 1, sy_held = []\<rparr>)).
     dr_session r = ''s'' \<and> dr_epoch r = 1"
proof (rule dispatch_guard_is_owned)
  fix sid s assume "hb_sessions (sy_hub \<lparr>sy_hub = demo_hub 1, sy_held = []\<rparr>) sid = Some s"
  then show "se_dispatch_pending s = None" using demo_only by fastforce
next
  show "\<not> hb_stuck (sy_hub (system_run [HubOp demo_submit] \<lparr>sy_hub = demo_hub 1, sy_held = []\<rparr>))"
    using demo_submit_sends(3) by (simp add: system_run_def hub_run_def)
  show "hb_sessions (sy_hub (system_run [HubOp demo_submit] \<lparr>sy_hub = demo_hub 1, sy_held = []\<rparr>)) ''s''
      = Some (claim (Some ''c1'') demo_session)"
    using demo_submit_sends(2) by (simp add: system_run_def hub_run_def)
  show "se_dispatch_pending (claim (Some ''c1'') demo_session) = Some 1"
    by (simp add: claim_def)
qed

section \<open>Delivery\<close>

definition demo_message :: "string \<Rightarrow> queued_message" where
  "demo_message k = plain_message (CHR ''q'' # k) k [] (Some k)"

definition demo_queue :: "nat \<Rightarrow> status \<Rightarrow> hub" where
  "demo_queue n st =
     (demo_hub n)\<lparr>hb_sessions := [''s'' \<mapsto> demo_session\<lparr>se_status := st, se_in_flight := (st = Busy),
        se_queue := [demo_message ''a'', demo_message ''b'']\<rparr>]\<rparr>"

lemma demo_queue_fields [simp]:
  "hb_sessions (demo_queue n st) ''s'' = Some (demo_session\<lparr>se_status := st, se_in_flight := (st = Busy),
        se_queue := [demo_message ''a'', demo_message ''b'']\<rparr>)"
  "hb_channel (demo_queue n st) = Some \<lparr>ch_capacity = n, ch_open = True, ch_items = []\<rparr>"
  "hb_context_edits (demo_queue n st) = []" "\<not> hb_stuck (demo_queue n st)"
  "hb_contexts (demo_queue n st) = (\<lambda>_. NoContext)"
  by (simp_all add: demo_queue_def)

lemma demo_message_cmid [simp]: "qm_cmid (demo_message k) = Some k"
  by (simp add: demo_message_def)

lemma demo_queue_allows: "context_allows_dispatch (demo_queue n st) sid k"
  by (simp add: context_allows_dispatch_def no_context_allows)

lemma demo_flowing:
  "flowing (demo_queue n st) ''s'' (demo_session\<lparr>se_status := st, se_in_flight := (st = Busy),
        se_queue := [demo_message ''a'', demo_message ''b'']\<rparr>)"
  by (simp add: flowing_def demo_queue_allows)

text \<open>The end of a turn is reported twice, as the turn's end and as the idle status; in either order the
  two reports together hand over exactly one queued prompt.\<close>

theorem turn_end_sends_next_once:
  assumes "hb_sessions h sid = Some s" and "flowing h sid s" and "room h"
    and "se_status s = Busy" and "\<not> se_latched s" and "se_queue s = m # q"
  shows "channel_items (complete_turn sid (set_status sid Running d h)) =
           channel_items h @ [head_request sid (se_in_flight_epoch s) m False]
       \<and> channel_items (set_status sid Running d (complete_turn sid h)) =
           channel_items h @ [head_request sid (se_in_flight_epoch s) m False]"
  using turn_end_both_orders [OF assms] by blast

theorem turn_end_sends_next_once_witness:
  "channel_items (complete_turn ''s'' (set_status ''s'' Running None (demo_queue 1 Busy))) =
     [head_request ''s'' 0 (demo_message ''a'') False]
   \<and> channel_items (set_status ''s'' Running None (complete_turn ''s'' (demo_queue 1 Busy))) =
     [head_request ''s'' 0 (demo_message ''a'') False]"
  using turn_end_sends_next_once [OF _ demo_flowing, of 1 Busy "demo_message ''a''" "[demo_message ''b'']" None]
  by (simp add: room_def channel_items_def [of "demo_queue _ _"])

text \<open>C10: An idle session works its whole queue off: after the first drain and k turns the prompt number
  k is the one request in the channel and the rest waits behind it in order; after as many turns as there
  were prompts the queue and the channel are empty and the session is idle.\<close>

theorem queue_drains_in_order:
  assumes s: "hb_sessions h sid = Some s" and fl: "flowing h sid s" and idle: "se_status s = Running" "\<not> se_in_flight s"
    and ch: "ready_channel h []" and q: "se_queue s \<noteq> []" and k: "k < length (se_queue s)"
  shows "channel_items (sy_hub ((turn_cycle sid ^^ k) \<lparr>sy_hub = try_drain sid h, sy_held = []\<rparr>))
           = [head_request sid (se_in_flight_epoch s + of_nat k) (se_queue s ! k) False]
       \<and> map_option se_queue (hb_sessions (sy_hub ((turn_cycle sid ^^ k) \<lparr>sy_hub = try_drain sid h, sy_held = []\<rparr>)) sid)
           = Some (drop (Suc k) (se_queue s))
       \<and> channel_items (sy_hub ((turn_cycle sid ^^ length (se_queue s)) \<lparr>sy_hub = try_drain sid h, sy_held = []\<rparr>)) = []
       \<and> map_option (\<lambda>s'. (se_queue s', se_in_flight s'))
           (hb_sessions (sy_hub ((turn_cycle sid ^^ length (se_queue s)) \<lparr>sy_hub = try_drain sid h, sy_held = []\<rparr>)) sid)
           = Some ([], False)"
proof -
  let ?y = "\<lparr>sy_hub = try_drain sid h, sy_held = []\<rparr>" and ?q = "se_queue s" and ?e = "se_in_flight_epoch s"
  have "delivering sid ?q ?e [] False \<lparr>sy_hub = h, sy_held = []\<rparr>"
    using s fl idle ch by (simp add: delivering_def flowing_def calm_def)
  from delivering_drain [OF this]
  have start: "delivering sid (tl ?q) (?e + 1) [head_request sid ?e (hd ?q) False] True ?y" using q by simp
  note cycles = turn_cycles_deliver [OF start]
  obtain n where n: "length ?q = Suc n" using q by (cases ?q) auto
  have "delivering sid (drop (Suc n) ?q) (?e + 1 + of_nat n)
      [head_request sid (?e + of_nat n) (?q ! n) False] True ((turn_cycle sid ^^ n) ?y)"
    using cycles [of n] n by simp
  from turn_cycle_delivers [OF this]
  have last: "delivering sid [] (?e + 1 + of_nat n) [] False ((turn_cycle sid ^^ length ?q) ?y)"
    using n by (simp add: head_request_def add.commute add.left_commute)
  show ?thesis
    using cycles [OF k] last ready_channel_items unfolding delivering_def by auto
qed

theorem queue_drains_in_order_witness:
  "channel_items (sy_hub ((turn_cycle ''s'' ^^ 1) \<lparr>sy_hub = try_drain ''s'' (demo_queue 1 Running), sy_held = []\<rparr>))
     = [head_request ''s'' 1 (demo_message ''b'') False]"
  using queue_drains_in_order [OF _ demo_flowing, of 1 Running 1] by (simp add: ready_channel_def)



text \<open>A drain that meets a full channel loses nothing: the prompt is back at the front of the queue, the
  guard is free again, the channel is as it was, and the clients are told.\<close>

theorem full_channel_keeps_prompt:
  assumes st: "\<not> hb_stuck h" and ch: "hb_channel h \<noteq> None" "\<not> room h" and s: "hb_sessions h sid = Some s"
    and d: "drain_decision s revive manual (context_allows_dispatch h sid) = Dispatch" and q: "se_queue s = m # q"
    and own: "\<not> is_supervised (qm_cmid m)" and fresh: "qm_cmid m = None \<or> \<not> queued_cmid (the (qm_cmid m)) q"
  shows "\<exists>s' m'. hb_sessions (drain_head sid revive manual h) sid = Some s'
       \<and> se_queue s' = m' # q \<and> qm_cmid m' = qm_cmid m
       \<and> (length (qm_content m) \<le> 1 \<longrightarrow> qm_text m' = qm_text m \<and> qm_content m' = qm_content m)
       \<and> \<not> se_in_flight s' \<and> se_dispatch_pending s' = None
       \<and> hb_channel (drain_head sid revive manual h) = hb_channel h
       \<and> ErrorSent (Some sid) ''dispatch queue is full; prompt remains queued''
           \<in> set (hb_effects (drain_head sid revive manual h))"
proof -
  let ?g = "emit_pending sid (update_session sid (take_head m) h)"
  let ?r = "head_request sid (se_in_flight_epoch s) m manual"
  have dr: "drain_head sid revive manual h = send_dispatch ?r ?g"
    using st ch(1) s d q by (simp add: drain_head_def wired_def Let_def request_for_take_head)
  have g: "hb_sessions ?g sid = Some (take_head m s)" by (simp add: update_session_sessions [OF s])
  have "case qm_cmid m of None \<Rightarrow> True | Some c \<Rightarrow> \<not> queued_cmid c (se_queue (take_head m s))"
    using fresh q by (auto simp: take_head_queue split: option.split)
  then obtain m' where m': "m' = plain_message (qm_id m')
        (returned_text (qm_content m) (without_preamble ?g sid (qm_cmid m) (qm_content m)) (qm_text m))
        (without_preamble ?g sid (qm_cmid m) (qm_content m)) (qm_cmid m)"
    and ret: "hb_sessions (return_prompt sid (qm_text m) (qm_content m) (qm_cmid m) ?g) sid =
      Some (insert_front m' (returned (qm_cmid m) (take_head m s)))"
    using return_prompt_new [OF g, of "qm_cmid m" "qm_text m" "qm_content m"]
    by (metis plain_message_def queued_message.select_convs(1))
  let ?s' = "insert_front m' (returned (qm_cmid m) (take_head m s))"
  have fields: "se_queue ?s' = m' # q" "\<not> se_in_flight ?s'" "se_dispatch_pending ?s' = None"
    using q returned_fields [of "qm_cmid m" "take_head m s"] by (simp_all add: insert_front_def take_head_queue)
  have same: "qm_cmid m' = qm_cmid m"
      "length (qm_content m) \<le> 1 \<Longrightarrow> qm_text m' = qm_text m \<and> qm_content m' = qm_content m"
    by (subst m', simp add: plain_message_def)
      (subst m', subst (2) m', simp add: plain_message_def returned_text_def without_preamble_short)
  have refused: "hb_sessions (send_dispatch ?r ?g) sid = Some ?s'" "hb_channel (send_dispatch ?r ?g) = hb_channel h"
      "ErrorSent (Some sid) ''dispatch queue is full; prompt remains queued'' \<in> set (hb_effects (send_dispatch ?r ?g))"
    using send_dispatch_refused [of ?g ?r "take_head m s" ?s'] ch own g ret fields(3)
    by (simp_all add: head_request_def)
  show ?thesis unfolding dr using refused fields same by blast
qed

theorem full_channel_keeps_prompt_witness:
  "\<exists>s' m'. hb_sessions (drain_head ''s'' False False (demo_queue 0 Running)) ''s'' = Some s'
     \<and> se_queue s' = m' # [demo_message ''b''] \<and> qm_cmid m' = Some ''a'' \<and> \<not> se_in_flight s'"
proof -
  let ?s = "demo_session\<lparr>se_status := Running, se_in_flight := False,
        se_queue := [demo_message ''a'', demo_message ''b'']\<rparr>"
  have "\<not> is_supervised (Some ''a'')" by (simp add: is_supervised_def starts_with_def SUPERAGENT_PREFIX_def)
  then show ?thesis
    using full_channel_keeps_prompt [of "demo_queue 0 Running" "''s''" ?s False False "demo_message ''a''" "[demo_message ''b'']"]
    by (fastforce simp: room_def drain_decision_def ready_def demo_queue_allows queued_cmid_def)
qed

section \<open>The preamble\<close>

definition demo_injection :: injection where
  "demo_injection = \<lparr>in_cmid = ''c1'', in_sources = [\<lparr>cs_session_id = ''s'', cs_before = 7\<rparr>], in_follows_first_prompt = False\<rparr>"

definition demo_linked :: hub where
  "demo_linked = (demo_hub 1)\<lparr>hb_contexts := (\<lambda>_. ContextSetting
     \<lparr>sx_revision = 1, sx_sources = [''s''], sx_applied_revision = 1, sx_delivery = None, sx_injection = Some demo_injection\<rparr>)\<rparr>"

lemma demo_preamble: "preamble demo_linked ''s'' (Some ''c1'') = Inr (Some (preamble_text demo_linked demo_injection))"
proof -
  have "valid_id ''s''" by (simp add: valid_id_def is_ascii_alnum_def byte_of_def)
  then have "read_context demo_linked ''s'' = Inr \<lparr>sx_revision = 1, sx_sources = [''s''], sx_applied_revision = 1,
      sx_delivery = None, sx_injection = Some demo_injection\<rparr>"
    by (simp add: read_context_def demo_linked_def validate_sources_def MAX_SOURCES_def known_receipt_def Let_def)
  moreover have "linked_accessible demo_linked (se_owner demo_session) \<lparr>cs_session_id = ''s'', cs_before = 7\<rparr>"
    "hb_sessions demo_linked ''s'' = Some demo_session"
    by (simp_all add: linked_accessible_def demo_linked_def demo_session_def new_session_def)
  ultimately show ?thesis
    by (simp add: preamble_def demo_injection_def unresolved_def Let_def)
qed

text \<open>A dispatch adds the preamble and a requeue takes exactly that block away again.\<close>

theorem preamble_requeue_roundtrip:
  assumes "prompt_content h sid cmid blocks = Inr sent" and "blocks \<noteq> []"
  shows "without_preamble h sid cmid sent = blocks"
  using assms
  by (auto simp: prompt_content_def without_preamble_def is_preamble_text_block
      split: option.splits dest: is_preamble_Some)

theorem preamble_requeue_roundtrip_witness:
  "without_preamble demo_linked ''s'' (Some ''c1'')
     [text_block (preamble_text demo_linked demo_injection), text_block ''hi''] = [text_block ''hi'']"
  by (rule preamble_requeue_roundtrip) (simp_all add: prompt_content_def demo_preamble)

end
