(* ===== verification/Hub_Findings.thy ===== *)
theory Hub_Findings
  imports Hub_Delivery
begin

text \<open>
  Behaviours of the send queue that differ from what its comments say, each stated on the model: a
  scheduled draft that is already taken lands in a session trashed in between; a row removed by its
  message id leaves the editing hold on a row that is gone; a supervised prompt that the full channel
  refuses never comes back from \<open>send_dispatch\<close>.
\<close>

text \<open>
  \<open>fire_scheduled_draft\<close> checks the Trash in the lock step that takes the draft. The second lock step
  does not check again, so a session trashed between the two still sends the draft.
\<close>

lemma fired_draft_reaches_trashed_session:
  assumes "hb_sessions h sid = Some s" and "se_trashed_at_ms s = Some at"
    and "room h" and "\<not> hb_stuck h" and "\<not> se_paused s" and "ready True s" and "se_queue s = []"
    and "context_allows_dispatch h sid (Some (fired_cmid sid did))"
  shows "channel_items (land_fired_draft sid did m h) =
           channel_items h @ [request_for sid (claim_guard s) (qm_text m) (qm_content m) (Some (fired_cmid sid did)) False]"
proof -
  have "wired h" using assms(3) by (auto simp: room_def wired_def split: option.splits)
  moreover have "room (update_session sid claim_guard h)"
    "channel_items (update_session sid claim_guard h) = channel_items h"
    using assms(1,3) by (simp_all add: room_def channel_items_def update_session_def)
  ultimately show ?thesis using assms
    by (simp add: land_fired_draft_def Let_def queued_cmid_def send_dispatch_room)
qed

text \<open>\<open>remove_queued\<close> gives up the editing hold of the row it removes; \<open>remove_queued_by_cmid\<close> does not.\<close>

lemma removed_by_cmid_keeps_hold:
  assumes "se_editing s = Some (qm_id m)" and "se_queue s = [m, n]" and "qm_id n \<noteq> qm_id m"
    and "qm_cmid m = Some c" and "qm_cmid n \<noteq> Some c"
  shows "se_queue (drop_queued_cmid c s) = [n] \<and> se_editing (drop_queued_cmid c s) = Some (qm_id m)
       \<and> drain_decision (drop_queued_cmid c s) revive False ctx \<noteq> Dispatch
       \<and> se_queue (drop_queued (qm_id m) s) = [n] \<and> se_editing (drop_queued (qm_id m) s) = None"
  using assms
  by (simp add: drop_queued_cmid_def drop_queued_def drop_id_def with_id_def release_editing_def drain_decision_def)

text \<open>The channel's lock is held over the requeue, whose drain asks for it again.\<close>

lemma supervised_refusal_never_returns:
  assumes "hb_channel h = Some ch" and "\<not> room h" and "dr_cmid req = Some c" and "starts_with c SUPERAGENT_PREFIX"
  shows "hb_stuck (send_dispatch req h)"
  using assms by (auto simp: send_dispatch_def chan_send_def room_def is_supervised_def Let_def)

end
