(* ===== verification/Scheduler.thy ===== *)
theory Scheduler
  imports Turn_Lifecycle
begin

text \<open>
  The scheduler task of \<^verbatim>\<open>src/src/scheduler.rs\<close>: one pending wakeup per session and one timer per
  scheduled draft, fired into the Hub, with the guard against wakeups that re-arm themselves. The
  pending table is an association list in the order the hash map would be walked. A \<open>Tick\<close> is the
  sleep's end at a given time. Proved here: the guard's bound, exactly.
\<close>

section \<open>Timers\<close>

definition MIN_DELAY_S :: int where "MIN_DELAY_S = 60"
definition MAX_DELAY_S :: int where "MAX_DELAY_S = 3600"
definition MAX_CONSECUTIVE_FIRES :: nat where "MAX_CONSECUTIVE_FIRES = 100"

datatype timer_key = WakeKey string | DraftKey string string

datatype timer_action = FireWakeup string string | FireDraft string string

record timer =
  tm_at :: int
  tm_action :: timer_action

record scheduler =
  sd_pending :: "(timer_key \<times> timer) list"
  sd_fires :: "string \<rightharpoonup> nat"

definition new_scheduler :: scheduler where
  "new_scheduler = \<lparr>sd_pending = [], sd_fires = Map.empty\<rparr>"

definition fire_at_from_delay :: "int \<Rightarrow> int \<Rightarrow> int" where
  "fire_at_from_delay now delay_seconds = now + min (max delay_seconds MIN_DELAY_S) MAX_DELAY_S * 1000"

definition arm :: "timer_key \<Rightarrow> timer \<Rightarrow> scheduler \<Rightarrow> scheduler" where
  "arm k t sd = sd\<lparr>sd_pending := AList.update k t (sd_pending sd)\<rparr>"

primrec on_command :: "schedule_cmd \<Rightarrow> scheduler \<Rightarrow> scheduler" where
  "on_command (Arm sid at prompt) sd = arm (WakeKey sid) \<lparr>tm_at = at, tm_action = FireWakeup sid prompt\<rparr> sd"
| "on_command (HumanTurn sid) sd = sd\<lparr>sd_fires := (sd_fires sd)(sid := None)\<rparr>"
| "on_command (ArmDraft sid did at) sd = arm (DraftKey sid did) \<lparr>tm_at = at, tm_action = FireDraft sid did\<rparr> sd"
| "on_command (CancelDraft sid did) sd = sd\<lparr>sd_pending := adelete (DraftKey sid did) (sd_pending sd)\<rparr>"

text \<open>The delay to the next fire; the subtraction is the code's on \<open>i64\<close>, which wraps in a release build.\<close>

definition i64_wrapping_sub :: "int \<Rightarrow> int \<Rightarrow> int" where
  "i64_wrapping_sub a b = sint (word_of_int a - word_of_int b :: 64 word)"

definition delay_of :: "int \<Rightarrow> timer \<Rightarrow> int" where
  "delay_of now t = max 0 (i64_wrapping_sub (tm_at t) now)"

definition next_delay :: "int \<Rightarrow> scheduler \<Rightarrow> int option" where
  "next_delay now sd =
     (case map (\<lambda>p. delay_of now (snd p)) (sd_pending sd) of
        [] \<Rightarrow> None
      | d # ds \<Rightarrow> Some (fold min ds d))"

section \<open>Firing\<close>

datatype firing = FiredWakeup string | DroppedWakeup string | FiredDraft string string

definition fires_of :: "scheduler \<Rightarrow> string \<Rightarrow> nat" where
  "fires_of sd sid = (case sd_fires sd sid of None \<Rightarrow> 0 | Some n \<Rightarrow> n)"

definition wake_cmid :: "string \<Rightarrow> int \<Rightarrow> string" where
  "wake_cmid sid now = WAKEUP_PREFIX @ sid @ ''-'' @ show_int now"

type_synonym scheduler_state = "scheduler \<times> hub \<times> firing list"

definition fire_wakeup :: "int \<Rightarrow> string \<Rightarrow> string \<Rightarrow> scheduler_state \<Rightarrow> scheduler_state" where
  "fire_wakeup now sid prompt = (\<lambda>(sd, h, out).
     let h = clear_persisted_wakeup sid h;
         n = fires_of sd sid + 1;
         sd = sd\<lparr>sd_fires := (sd_fires sd)(sid \<mapsto> n)\<rparr>
     in if MAX_CONSECUTIVE_FIRES < n then (sd, h, out @ [DroppedWakeup sid])
        else (sd, submit sid prompt [] (Some (wake_cmid sid now)) h, out @ [FiredWakeup sid]))"

definition fire_key :: "int \<Rightarrow> timer_key \<Rightarrow> scheduler_state \<Rightarrow> scheduler_state" where
  "fire_key now k = (\<lambda>(sd, h, out).
     case map_of (sd_pending sd) k of
       None \<Rightarrow> (sd, h, out)
     | Some t \<Rightarrow>
         (let sd = sd\<lparr>sd_pending := adelete k (sd_pending sd)\<rparr>
          in case tm_action t of
               FireWakeup sid prompt \<Rightarrow> fire_wakeup now sid prompt (sd, h, out)
             | FireDraft sid did \<Rightarrow> (sd, fire_scheduled_draft sid did h, out @ [FiredDraft sid did])))"

definition due_keys :: "int \<Rightarrow> scheduler \<Rightarrow> timer_key list" where
  "due_keys now sd = map fst (filter (\<lambda>p. tm_at (snd p) \<le> now) (sd_pending sd))"

definition fire_due :: "int \<Rightarrow> scheduler_state \<Rightarrow> scheduler_state" where
  "fire_due now st = fold (fire_key now) (due_keys now (fst st)) st"

datatype scheduler_event = Command schedule_cmd | Tick int | HubChange "hub \<Rightarrow> hub"

primrec scheduler_step :: "scheduler_event \<Rightarrow> scheduler_state \<Rightarrow> scheduler_state" where
  "scheduler_step (Command c) st = (on_command c (fst st), snd st)"
| "scheduler_step (Tick now) st = fire_due now st"
| "scheduler_step (HubChange f) st = (fst st, f (fst (snd st)), snd (snd st))"

definition scheduler_run :: "scheduler_event list \<Rightarrow> scheduler_state \<Rightarrow> scheduler_state" where
  "scheduler_run evs st = fold scheduler_step evs st"

section \<open>The guard\<close>

definition fired :: "string \<Rightarrow> firing list \<Rightarrow> nat" where
  "fired sid out = length (filter (\<lambda>x. x = FiredWakeup sid) out)"

definition consumed_wakeups :: "string \<Rightarrow> firing list \<Rightarrow> nat" where
  "consumed_wakeups sid out = length (filter (\<lambda>x. x = FiredWakeup sid \<or> x = DroppedWakeup sid) out)"

text \<open>
  While no human turn arrives, the counter grows by the consumed wakeups from its value \<open>f0\<close> at the
  start, and exactly those below the cap fired.
\<close>

definition guard_inv :: "string \<Rightarrow> nat \<Rightarrow> scheduler_state \<Rightarrow> bool" where
  "guard_inv sid f0 = (\<lambda>(sd, h, out).
     fires_of sd sid = f0 + consumed_wakeups sid out
   \<and> fired sid out = min (MAX_CONSECUTIVE_FIRES - f0) (consumed_wakeups sid out))"

lemma guard_inv_fire_wakeup:
  assumes "guard_inv sid f0 st" shows "guard_inv sid f0 (fire_wakeup now sid' prompt st)"
proof (cases st)
  case (fields sd h out)
  show ?thesis
  proof (cases "sid' = sid")
    case True
    then show ?thesis using assms
      by (auto simp: fields guard_inv_def fire_wakeup_def fires_of_def fired_def consumed_wakeups_def
          MAX_CONSECUTIVE_FIRES_def Let_def split: option.splits)
  next
    case False
    then show ?thesis using assms
      by (auto simp: fields guard_inv_def fire_wakeup_def fires_of_def fired_def consumed_wakeups_def Let_def)
  qed
qed

lemma guard_inv_fire_key:
  assumes "guard_inv sid f0 st" shows "guard_inv sid f0 (fire_key now k st)"
proof (cases st)
  case (fields sd h out)
  have "guard_inv sid f0 (sd\<lparr>sd_pending := p\<rparr>, h', out)" for p h'
    using assms by (simp add: fields guard_inv_def fires_of_def)
  then show ?thesis using assms guard_inv_fire_wakeup
    by (auto simp: fields fire_key_def Let_def split: option.split timer_action.split)
      (auto simp: guard_inv_def fires_of_def fired_def consumed_wakeups_def)
qed

lemma guard_inv_fire_due: "guard_inv sid f0 st \<Longrightarrow> guard_inv sid f0 (fire_due now st)"
  unfolding fire_due_def
proof (induction "due_keys now (fst st)" arbitrary: st rule: list.induct)
  case Nil
  then show ?case by simp
next
  case (Cons k ks)
  have "guard_inv sid f0 st' \<Longrightarrow> guard_inv sid f0 (fold (fire_key now) ks' st')" for ks' st'
    by (induction ks' arbitrary: st') (simp_all add: guard_inv_fire_key)
  then show ?case using Cons.prems by blast
qed

lemma guard_inv_command:
  "c \<noteq> HumanTurn sid \<Longrightarrow> guard_inv sid f0 st \<Longrightarrow> guard_inv sid f0 (on_command c (fst st), snd st)"
  by (cases c; cases st) (auto simp: guard_inv_def arm_def fires_of_def)

lemma guard_inv_run:
  "Command (HumanTurn sid) \<notin> set evs \<Longrightarrow> guard_inv sid f0 st \<Longrightarrow> guard_inv sid f0 (scheduler_run evs st)"
  unfolding scheduler_run_def
proof (induction evs arbitrary: st)
  case (Cons ev evs)
  have "guard_inv sid f0 (scheduler_step ev st)"
  proof (cases ev)
    case (Command c)
    then show ?thesis using Cons.prems guard_inv_command [of c sid f0 st] by auto
  next
    case (Tick now)
    then show ?thesis using Cons.prems guard_inv_fire_due by simp
  next
    case (HubChange f)
    then show ?thesis using Cons.prems by (cases st) (simp add: guard_inv_def)
  qed
  then show ?case using Cons by simp
qed simp

lemma wake_cmid_not_human: "\<not> is_human (origin_from_cmid (Some (wake_cmid sid now)))"
  by (simp add: wake_cmid_def origin_from_cmid_def starts_with_def WAKEUP_PREFIX_def is_human_def cowboy_origin_def
      LEGACY_AUTO_CONTINUE_PREFIX_def)

text \<open>Between two human turns a session's wakeups fire at most a hundred times, counted on from where the
  guard stood, and below that cap every consumed wakeup fires, whatever timers, drafts and changes of the
  Hub come in between; a fired wakeup itself is never taken for a human turn.\<close>

theorem wakeup_guard_exact:
  assumes "Command (HumanTurn sid) \<notin> set evs" and "scheduler_run evs (sd, h, []) = (sd', h', out)"
  shows "fired sid out = min (MAX_CONSECUTIVE_FIRES - fires_of sd sid) (consumed_wakeups sid out)
       \<and> fires_of sd' sid = fires_of sd sid + consumed_wakeups sid out
       \<and> \<not> is_human (origin_from_cmid (Some (wake_cmid sid now)))"
proof -
  have "guard_inv sid (fires_of sd sid) (sd, h, [])"
    by (simp add: guard_inv_def fired_def consumed_wakeups_def)
  from guard_inv_run [OF assms(1) this] assms(2) wake_cmid_not_human show ?thesis
    by (simp add: guard_inv_def)
qed

theorem wakeup_guard_exact_witness:
  "\<exists>h' sd'. scheduler_run [Command (Arm ''s'' 0 ''go''), Tick 1]
       (new_scheduler, new_hub False \<lparr>ho_text = (\<lambda>_. []), ho_event_size = (\<lambda>_. None), ho_digest = id,
          ho_externalize = None, ho_image = (\<lambda>_. None)\<rparr> 0, []) = (sd', h', [FiredWakeup ''s''])
     \<and> fired ''s'' [FiredWakeup ''s''] = min 100 1"
proof -
  let ?h = "new_hub False \<lparr>ho_text = (\<lambda>_. []), ho_event_size = (\<lambda>_. None), ho_digest = id,
          ho_externalize = None, ho_image = (\<lambda>_. None)\<rparr> 0"
  let ?evs = "[Command (Arm ''s'' 0 ''go''), Tick 1]"
  obtain sd' h' out where run: "scheduler_run ?evs (new_scheduler, ?h, []) = (sd', h', out)" by (metis prod.exhaust)
  then have out: "out = [FiredWakeup ''s'']"
    by (auto simp: scheduler_run_def new_scheduler_def arm_def fire_due_def due_keys_def fire_key_def
        fire_wakeup_def fires_of_def MAX_CONSECUTIVE_FIRES_def adelete_def Let_def)
  have "Command (HumanTurn ''s'') \<notin> set ?evs" by simp
  from wakeup_guard_exact [OF this run, of 0] have "fired ''s'' out = min 100 (consumed_wakeups ''s'' out)"
    by (simp add: MAX_CONSECUTIVE_FIRES_def new_scheduler_def fires_of_def)
  then show ?thesis using run out by (simp add: consumed_wakeups_def)
qed

text \<open>
  Fire times are taken from clients as they come. The earliest representable one is long due, yet its
  delay wraps to the largest there is.
\<close>

lemma earliest_fire_time_waits_longest:
  "i64_min \<le> 1 \<and> delay_of 1 \<lparr>tm_at = i64_min, tm_action = a\<rparr> = i64_max"
  by (simp add: delay_of_def i64_wrapping_sub_def i64_min_def i64_max_def)

end
