(* ===== verification/Operation_Budget.thy ===== *)
theory Operation_Budget
  imports Prelude
begin

text \<open>
  The admission budget of one operation (\<^verbatim>\<open>src/src/operation_budget.rs\<close>): one deadline on the monotonic
  clock and one on the wall clock, both fixed when the request is received. A sample of the clocks is an
  argument of every operation that reads them. Instants and durations count nanoseconds; wall times are
  \<open>i64\<close> milliseconds. Proved here: the exact condition under which a budget is still open after any
  sequence of checks, and that the intersection of two budgets is never wider than either.
\<close>

section \<open>Samples and budgets\<close>

record time_sample =
  ts_monotonic :: int
  ts_wall_ms :: int

record operation_budget =
  ob_received :: int
  ob_deadline :: int
  ob_expires_at_ms :: int
  ob_wall_high_water :: int
  ob_expired :: bool

definition NANOS_PER_MS :: int where "NANOS_PER_MS = 1000000"

definition i64_sub :: "int \<Rightarrow> int \<Rightarrow> int" where
  "i64_sub a b = max i64_min (min i64_max (a - b))"

text \<open>\<open>deadline_ms\<close> with a cap in nanoseconds.\<close>

definition deadline_ms :: "time_sample \<Rightarrow> nat \<Rightarrow> int" where
  "deadline_ms s cap = i64_add (ts_wall_ms s) (min i64_max (int cap div NANOS_PER_MS))"

definition new_budget :: "int \<Rightarrow> nat \<Rightarrow> time_sample \<Rightarrow> operation_budget" where
  "new_budget expires_at_ms cap received =
     (let remaining = max 0 (i64_sub expires_at_ms (ts_wall_ms received));
          budget = min (remaining * NANOS_PER_MS) (int cap)
      in \<lparr>ob_received = ts_monotonic received, ob_deadline = ts_monotonic received + budget,
          ob_expires_at_ms = expires_at_ms, ob_wall_high_water = ts_wall_ms received,
          ob_expired = (ts_wall_ms received \<le> 0 \<or> remaining = 0)\<rparr>)"

definition check_at :: "time_sample \<Rightarrow> operation_budget \<Rightarrow> bool \<times> operation_budget" where
  "check_at now b =
     (let previous_wall = ob_wall_high_water b;
          b = b\<lparr>ob_wall_high_water := max previous_wall (ts_wall_ms now)\<rparr>;
          b = (if ts_monotonic now < ob_received b \<or> ob_deadline b \<le> ts_monotonic now \<or> ts_wall_ms now \<le> 0
                  \<or> ts_wall_ms now < previous_wall \<or> ob_expires_at_ms b \<le> ts_wall_ms now
               then b\<lparr>ob_expired := True\<rparr> else b)
      in (ob_expired b, b))"

text \<open>\<open>remaining\<close> reads the clock twice: for the check and for the difference.\<close>

definition remaining :: "time_sample \<Rightarrow> time_sample \<Rightarrow> operation_budget \<Rightarrow> int \<times> operation_budget" where
  "remaining now later b =
     (case check_at now b of
        (True, b) \<Rightarrow> (0, b)
      | (False, b) \<Rightarrow> (max 0 (ob_deadline b - ts_monotonic later), b))"

text \<open>Both budgets are checked, each at its own sample.\<close>

definition intersect :: "time_sample \<Rightarrow> time_sample \<Rightarrow> operation_budget \<Rightarrow> operation_budget \<Rightarrow> operation_budget" where
  "intersect now later a b =
     (let (ea, a) = check_at now a; (eb, b) = check_at later b
      in \<lparr>ob_received = max (ob_received a) (ob_received b), ob_deadline = min (ob_deadline a) (ob_deadline b),
          ob_expires_at_ms = min (ob_expires_at_ms a) (ob_expires_at_ms b),
          ob_wall_high_water = max (ob_wall_high_water a) (ob_wall_high_water b),
          ob_expired = (ea \<or> eb)\<rparr>)"

section \<open>Checks in sequence\<close>

text \<open>The wall clock did not step back at any of the samples, counted from the high water.\<close>

fun wall_advances :: "int \<Rightarrow> time_sample list \<Rightarrow> bool" where
  "wall_advances w [] \<longleftrightarrow> True"
| "wall_advances w (s # ss) \<longleftrightarrow> w \<le> ts_wall_ms s \<and> wall_advances (ts_wall_ms s) ss"

definition within :: "operation_budget \<Rightarrow> time_sample \<Rightarrow> bool" where
  "within b s \<longleftrightarrow>
     ob_received b \<le> ts_monotonic s \<and> ts_monotonic s < ob_deadline b
   \<and> 0 < ts_wall_ms s \<and> ts_wall_ms s < ob_expires_at_ms b"

definition after_checks :: "time_sample list \<Rightarrow> operation_budget \<Rightarrow> operation_budget" where
  "after_checks ss b = fold (\<lambda>s b. snd (check_at s b)) ss b"

definition still_open :: "operation_budget \<Rightarrow> time_sample list \<Rightarrow> bool" where
  "still_open b ss \<longleftrightarrow> \<not> ob_expired (after_checks ss b)"

lemma check_at_fst [simp]: "fst (check_at s b) = ob_expired (snd (check_at s b))"
  by (simp add: check_at_def Let_def)

lemma check_at_open:
  "ob_expired (snd (check_at s b)) \<longleftrightarrow> ob_expired b \<or> \<not> within b s \<or> ts_wall_ms s < ob_wall_high_water b"
  by (auto simp: check_at_def within_def Let_def)

lemma check_at_frame [simp]:
  "ob_received (snd (check_at s b)) = ob_received b" "ob_deadline (snd (check_at s b)) = ob_deadline b"
  "ob_expires_at_ms (snd (check_at s b)) = ob_expires_at_ms b"
  "ob_wall_high_water (snd (check_at s b)) = max (ob_wall_high_water b) (ts_wall_ms s)"
  by (simp_all add: check_at_def Let_def)

lemma within_check [simp]: "within (snd (check_at t b)) s = within b s"
  by (simp add: within_def)

lemma after_checks_simps [simp]:
  "after_checks [] b = b" "after_checks (s # ss) b = after_checks ss (snd (check_at s b))"
  by (simp_all add: after_checks_def)

lemma after_checks_frame [simp]:
  "ob_received (after_checks ss b) = ob_received b" "ob_deadline (after_checks ss b) = ob_deadline b"
  "ob_expires_at_ms (after_checks ss b) = ob_expires_at_ms b"
  by (induction ss arbitrary: b) simp_all

lemma expired_forever: "ob_expired b \<Longrightarrow> ob_expired (after_checks ss b)"
  by (induction ss arbitrary: b) (simp_all add: check_at_open)

lemma wall_advances_mono: "wall_advances w ss \<Longrightarrow> v \<le> w \<Longrightarrow> wall_advances v ss"
  by (cases ss) auto

lemma still_open_exact:
  "still_open b ss \<longleftrightarrow> \<not> ob_expired b \<and> list_all (within b) ss \<and> wall_advances (ob_wall_high_water b) ss"
  unfolding still_open_def
proof (induction ss arbitrary: b)
  case (Cons s ss)
  let ?b = "snd (check_at s b)"
  have IH: "\<not> ob_expired (after_checks ss ?b)
      \<longleftrightarrow> \<not> ob_expired ?b \<and> list_all (within b) ss \<and> wall_advances (max (ob_wall_high_water b) (ts_wall_ms s)) ss"
    using Cons.IH [of ?b] by simp
  show ?case
  proof (cases "ts_wall_ms s < ob_wall_high_water b")
    case False
    then have "max (ob_wall_high_water b) (ts_wall_ms s) = ts_wall_ms s" by simp
    then show ?thesis using IH False by (auto simp: check_at_open)
  next
    case True
    then show ?thesis using IH by (auto simp: check_at_open)
  qed
qed simp

lemma intersect_fields [simp]:
  "ob_received (intersect s t a b) = max (ob_received a) (ob_received b)"
  "ob_deadline (intersect s t a b) = min (ob_deadline a) (ob_deadline b)"
  "ob_expires_at_ms (intersect s t a b) = min (ob_expires_at_ms a) (ob_expires_at_ms b)"
  "ob_wall_high_water (intersect s t a b) =
     max (max (ob_wall_high_water a) (ts_wall_ms s)) (max (ob_wall_high_water b) (ts_wall_ms t))"
  "ob_expired (intersect s t a b) \<longleftrightarrow> ob_expired (snd (check_at s a)) \<or> ob_expired (snd (check_at t b))"
  by (simp_all add: intersect_def Let_def split_beta)

lemma within_intersect: "within (intersect s t a b) u \<longleftrightarrow> within a u \<and> within b u"
  by (auto simp: within_def)

section \<open>Properties\<close>

text \<open>A budget is a fixed window: however often it is checked, it is open exactly as long as every check
  fell between the receipt and the deadline, before the expiry on a positive wall clock that never stepped
  back; the window is no longer than the cap nor than what the expiry left at the receipt.\<close>

theorem budget_window_exact:
  "still_open (new_budget expires cap received) ss
     \<longleftrightarrow> 0 < ts_wall_ms received \<and> 0 < i64_sub expires (ts_wall_ms received)
       \<and> wall_advances (ts_wall_ms received) ss
       \<and> (\<forall>s \<in> set ss. ts_monotonic received \<le> ts_monotonic s
            \<and> ts_monotonic s - ts_monotonic received
                < min (i64_sub expires (ts_wall_ms received) * NANOS_PER_MS) (int cap)
            \<and> 0 < ts_wall_ms s \<and> ts_wall_ms s < expires)"
  unfolding still_open_exact
  by (auto simp: new_budget_def Let_def within_def list_all_iff max_def)

theorem budget_window_exact_witness:
  "still_open (new_budget 1000 5000000000 \<lparr>ts_monotonic = 7, ts_wall_ms = 400\<rparr>)
     [\<lparr>ts_monotonic = 8, ts_wall_ms = 999\<rparr>]
   \<and> \<not> still_open (new_budget 1000 5000000000 \<lparr>ts_monotonic = 7, ts_wall_ms = 400\<rparr>)
     [\<lparr>ts_monotonic = 8, ts_wall_ms = 1000\<rparr>]"
  unfolding budget_window_exact
  by (simp add: i64_sub_def i64_min_def i64_max_def NANOS_PER_MS_def)

text \<open>Consuming two budgets together never widens either: whatever checks follow, the intersection is
  open only if both originals would have been open under the same checks.\<close>

theorem intersection_never_wider:
  assumes "still_open (intersect s t a b) ss"
  shows "still_open a (s # ss) \<and> still_open b (t # ss)"
proof -
  have "list_all (within a) ss" "list_all (within b) ss"
    using assms by (auto simp: still_open_exact list_all_iff within_intersect)
  moreover have "wall_advances (max (ob_wall_high_water a) (ts_wall_ms s)) ss"
    "wall_advances (max (ob_wall_high_water b) (ts_wall_ms t)) ss"
    using assms by (auto simp: still_open_exact intro: wall_advances_mono)
  moreover have "\<not> ob_expired (snd (check_at s a))" "\<not> ob_expired (snd (check_at t b))"
    using assms by (auto simp: still_open_exact)
  ultimately show ?thesis
    unfolding still_open_exact by (auto simp: check_at_open max_def)
qed

theorem intersection_never_wider_witness:
  "still_open (new_budget 1000 5000000000 \<lparr>ts_monotonic = 7, ts_wall_ms = 400\<rparr>)
     [\<lparr>ts_monotonic = 9, ts_wall_ms = 500\<rparr>, \<lparr>ts_monotonic = 10, ts_wall_ms = 600\<rparr>]"
proof -
  have "still_open (intersect \<lparr>ts_monotonic = 9, ts_wall_ms = 500\<rparr> \<lparr>ts_monotonic = 9, ts_wall_ms = 500\<rparr>
      (new_budget 1000 5000000000 \<lparr>ts_monotonic = 7, ts_wall_ms = 400\<rparr>)
      (new_budget 900 4000000000 \<lparr>ts_monotonic = 8, ts_wall_ms = 450\<rparr>)) [\<lparr>ts_monotonic = 10, ts_wall_ms = 600\<rparr>]"
    unfolding still_open_exact
    by (simp add: check_at_open within_def new_budget_def i64_sub_def i64_min_def i64_max_def NANOS_PER_MS_def)
  from intersection_never_wider [OF this] show ?thesis by blast
qed

end
