(* ===== verification/Machine_Manifest.thy ===== *)
theory Machine_Manifest
  imports Prelude
begin

text \<open>
  What a Machine is meant to run (\<^verbatim>\<open>src/src/machine_convergence.rs\<close>): the signed component manifest, the
  Service's Plugin document, how both are accepted and re-read in place, and the Service-wide freeze. The
  component types are those of \<^verbatim>\<open>src/components/wire/src/machine_protocol.rs\<close>. JSON decoding, URL parsing and
  the contents of files are arguments. Proved here: what an accepted manifest guarantees and that a
  rejected document changes nothing but the reported error.
\<close>

section \<open>Components\<close>

datatype component_kind =
    MachineHost | AcpRuntime | ProviderAdapter | ProviderCli | CodeAdapter | ZedAdapter | ZedServer | ManagedNode

datatype component_state = Missing | Downloading | Staged | Active | Draining | RollingBack | FailedState

record component_id =
  ci_kind :: component_kind
  ci_slot :: string

record deletion_reader =
  dr_reader_schema :: nat
  dr_writer_schema :: nat

datatype artifact_format = Raw | TarGz

record desired_component =
  dk_id :: component_id
  dk_version :: string
  dk_generation :: string
  dk_artifact_url :: string
  dk_digest :: string
  dk_artifact_format :: artifact_format
  dk_entrypoint :: "string option"
  dk_signature :: "string option"
  dk_deletion_journal :: "deletion_reader option"
  dk_probe :: "(string list \<times> nat) option"
  dk_automatic :: bool

text \<open>Of an inventory and a summary, the fields convergence reads.\<close>

record component_inventory =
  iv_id :: component_id
  iv_state :: component_state
  iv_version :: string
  iv_generation :: string
  iv_digest :: string
  iv_rollback_generation :: "string option"
  iv_active_leases :: nat

record machine_summary =
  ms_id :: string
  ms_connected :: bool
  ms_components :: "component_inventory list"

datatype convergence_state = Pending | WaitingDrain | Retrying | Verifying | Blocked | Frozen

record component_convergence =
  cc_id :: component_id
  cc_state :: convergence_state
  cc_attempts :: nat
  cc_next_attempt_at_ms :: "int option"
  cc_detail :: "string option"

definition same_digest :: "string \<Rightarrow> string \<Rightarrow> bool" where
  "same_digest a b \<longleftrightarrow> map ascii_lower a = map ascii_lower b"

section \<open>The manifest\<close>

primrec kind_label :: "component_kind \<Rightarrow> string" where
  "kind_label MachineHost = ''MachineHost''"
| "kind_label AcpRuntime = ''AcpRuntime''"
| "kind_label ProviderAdapter = ''ProviderAdapter''"
| "kind_label ProviderCli = ''ProviderCli''"
| "kind_label CodeAdapter = ''CodeAdapter''"
| "kind_label ZedAdapter = ''ZedAdapter''"
| "kind_label ZedServer = ''ZedServer''"
| "kind_label ManagedNode = ''ManagedNode''"

definition component_label :: "component_id \<Rightarrow> string" where
  "component_label i = (if ci_slot i = [] then kind_label (ci_kind i) else kind_label (ci_kind i) @ ''/'' @ ci_slot i)"

definition validate_session_deletion_declaration :: "desired_component \<Rightarrow> string + unit" where
  "validate_session_deletion_declaration c =
     (case dk_deletion_journal c of
        None \<Rightarrow> Inr ()
      | Some reader \<Rightarrow>
          if ci_kind (dk_id c) \<noteq> MachineHost \<or> ci_slot (dk_id c) \<noteq> []
          then Inl ''Session deletion declaration requires the singleton Machine host''
          else if dr_reader_schema reader \<noteq> 1 \<or> dr_writer_schema reader \<noteq> 0
          then Inl ''Session deletion declaration requires schema-1 reader and disabled writer''
          else Inr ())"

definition is_ascii_hex :: "char \<Rightarrow> bool" where
  "is_ascii_hex c \<longleftrightarrow>
     (48 \<le> byte_of c \<and> byte_of c \<le> 57) \<or> (65 \<le> byte_of c \<and> byte_of c \<le> 70) \<or> (97 \<le> byte_of c \<and> byte_of c \<le> 102)"

text \<open>A parsed URL is its scheme and its host.\<close>

type_synonym url_parser = "string \<Rightarrow> string + string \<times> string option"

definition check_component :: "url_parser \<Rightarrow> component_id list \<Rightarrow> desired_component \<Rightarrow> string + unit" where
  "check_component url_of seen c =
     (let label = component_label (dk_id c) in
      rbind (map_err (\<lambda>e. label @ '': '' @ e) (validate_session_deletion_declaration c)) (\<lambda>_.
        if dk_id c \<in> set seen then Inl (label @ '': duplicate component'')
        else if is_blank (dk_version c) then Inl (label @ '': empty version'')
        else if is_blank (case dk_signature c of None \<Rightarrow> [] | Some s \<Rightarrow> s) then Inl (label @ '': unsigned component'')
        else if length (dk_digest c) \<noteq> 64 \<or> \<not> list_all is_ascii_hex (dk_digest c)
        then Inl (label @ '': digest must be a SHA-256 hex digest'')
        else rbind (map_err (\<lambda>e. label @ '': artifact URL: '' @ e) (url_of (dk_artifact_url c))) (\<lambda>(scheme, host).
          if scheme \<noteq> ''https''
             \<and> \<not> (scheme = ''http'' \<and> host \<in> {Some ''127.0.0.1'', Some ''::1'', Some ''localhost''})
          then Inl (label @ '': artifact must use HTTPS'')
          else if dk_automatic c \<and> dk_probe c = None
          then Inl (label @ '': automatic activation requires a health probe'')
          else Inr ())))"

fun check_components :: "url_parser \<Rightarrow> component_id list \<Rightarrow> desired_component list \<Rightarrow> string + unit" where
  "check_components url_of seen [] = Inr ()"
| "check_components url_of seen (c # cs) =
     rbind (check_component url_of seen c) (\<lambda>_. check_components url_of (dk_id c # seen) cs)"

definition parse_manifest ::
    "(string \<Rightarrow> string + desired_component list) \<Rightarrow> url_parser \<Rightarrow> string \<Rightarrow> string + desired_component list" where
  "parse_manifest decode url_of bytes =
     rbind (map_err (\<lambda>e. ''parsing manifest: '' @ e) (decode bytes)) (\<lambda>cs.
     rbind (check_components url_of [] cs) (\<lambda>_. Inr cs))"

section \<open>Documents re-read in place\<close>

record 'a document =
  gn_generation :: nat
  gn_value :: 'a
  gn_loaded_at_ms :: int
  gn_error :: "string option"

definition reload_document :: "string + 'a \<Rightarrow> int \<Rightarrow> 'a document \<Rightarrow> (string + nat option) \<times> 'a document" where
  "reload_document outcome now current =
     (case outcome of
        Inr v \<Rightarrow>
          if v = gn_value current
          then (Inr None,
                if gn_error current \<noteq> None then current\<lparr>gn_loaded_at_ms := now, gn_error := None\<rparr> else current)
          else (let g = usize_add (gn_generation current) 1
                in (Inr (Some g), \<lparr>gn_generation = g, gn_value = v, gn_loaded_at_ms = now, gn_error = None\<rparr>))
      | Inl e \<Rightarrow> (Inl e, current\<lparr>gn_error := Some e\<rparr>))"

datatype file_read = Absent | IoError string | Contents string

text \<open>A Controller without a manifest path keeps its empty set.\<close>

definition reload_components ::
    "(string \<Rightarrow> string + desired_component list) \<Rightarrow> url_parser \<Rightarrow> string option \<Rightarrow> file_read \<Rightarrow> int
     \<Rightarrow> desired_component list document \<Rightarrow> (string + nat option) \<times> desired_component list document" where
  "reload_components decode url_of path file now current =
     (case path of
        None \<Rightarrow> (Inr None, current)
      | Some p \<Rightarrow>
          reload_document
            (case file of
               Contents bytes \<Rightarrow> parse_manifest decode url_of bytes
             | IoError e \<Rightarrow> Inl (''reading '' @ p @ '': '' @ e)
             | Absent \<Rightarrow> Inl (''reading '' @ p @ '': No such file or directory (os error 2)''))
            now current)"

datatype unlisted_policy = Keep | Uninstall

record machine_plugins =
  mp_plugins :: "string list"
  mp_unlisted :: unlisted_policy

record plugin_desired_state =
  pd_schema :: nat
  pd_machines :: "(string \<times> machine_plugins) list"

definition no_plugins :: plugin_desired_state where
  "no_plugins = \<lparr>pd_schema = 1, pd_machines = []\<rparr>"

definition machine_entry :: "plugin_desired_state \<Rightarrow> string \<Rightarrow> machine_plugins option" where
  "machine_entry d m = map_of (pd_machines d) m"

definition manages :: "plugin_desired_state \<Rightarrow> string \<Rightarrow> bool" where
  "manages d m \<longleftrightarrow> machine_entry d m \<noteq> None"

definition plugin_char :: "char \<Rightarrow> bool" where
  "plugin_char c \<longleftrightarrow>
     (97 \<le> byte_of c \<and> byte_of c \<le> 122) \<or> (48 \<le> byte_of c \<and> byte_of c \<le> 57) \<or> c = CHR ''-''"

definition plugin_id_ok :: "string \<Rightarrow> bool" where
  "plugin_id_ok p \<longleftrightarrow> \<not> is_blank p \<and> list_all plugin_char p"

text \<open>The first refused declaration names the error; \<open>shown\<close> is the debug form of a string.\<close>

fun check_machines :: "(string \<Rightarrow> string) \<Rightarrow> (string \<times> machine_plugins) list \<Rightarrow> string + unit" where
  "check_machines shown [] = Inr ()"
| "check_machines shown ((m, d) # ms) =
     (if is_blank m then Inl ''empty Machine id''
      else case find (\<lambda>p. \<not> plugin_id_ok p) (mp_plugins d) of
        Some p \<Rightarrow> Inl (m @ '': invalid Plugin id '' @ shown p)
      | None \<Rightarrow> check_machines shown ms)"

definition parse_plugin_desired_state ::
    "(string \<Rightarrow> string + plugin_desired_state) \<Rightarrow> (string \<Rightarrow> string) \<Rightarrow> string \<Rightarrow> string + plugin_desired_state" where
  "parse_plugin_desired_state decode shown bytes =
     rbind (map_err (\<lambda>e. ''parsing document: '' @ e) (decode bytes)) (\<lambda>d.
       if pd_schema d \<noteq> 1 then Inl (''unsupported document schema '' @ show_nat (pd_schema d))
       else rbind (check_machines shown (pd_machines d)) (\<lambda>_. Inr d))"

definition reload_plugins ::
    "(string \<Rightarrow> string + plugin_desired_state) \<Rightarrow> (string \<Rightarrow> string) \<Rightarrow> string \<Rightarrow> file_read \<Rightarrow> int
     \<Rightarrow> plugin_desired_state document \<Rightarrow> (string + nat option) \<times> plugin_desired_state document" where
  "reload_plugins decode shown path file now current =
     reload_document
       (case file of
          Contents bytes \<Rightarrow> parse_plugin_desired_state decode shown bytes
        | Absent \<Rightarrow> Inr no_plugins
        | IoError e \<Rightarrow> Inl (''reading '' @ path @ '': '' @ e))
       now current"

section \<open>The freeze\<close>

record freeze_record =
  fz_schema :: nat
  fz_reason :: "string option"
  fz_actor :: string
  fz_frozen_at_ms :: int

definition freeze_current :: "(string \<Rightarrow> freeze_record option) \<Rightarrow> file_read \<Rightarrow> freeze_record option" where
  "freeze_current decode file =
     (case file of
        Contents bytes \<Rightarrow>
          Some (case decode bytes of
                  Some r \<Rightarrow> r
                | None \<Rightarrow> \<lparr>fz_schema = 0, fz_reason = Some ''the freeze record is unreadable'', fz_actor = [], fz_frozen_at_ms = 0\<rparr>)
      | _ \<Rightarrow> None)"

definition is_frozen :: "(string \<Rightarrow> freeze_record option) \<Rightarrow> file_read \<Rightarrow> bool" where
  "is_frozen decode file \<longleftrightarrow> freeze_current decode file \<noteq> None"

definition freeze :: "(freeze_record \<Rightarrow> string) \<Rightarrow> string \<Rightarrow> string option \<Rightarrow> int \<Rightarrow> freeze_record \<times> file_read" where
  "freeze encode actor reason now =
     (let r = \<lparr>fz_schema = 1, fz_reason = reason, fz_actor = actor, fz_frozen_at_ms = now\<rparr>
      in (r, Contents (encode r)))"

definition thaw :: "string option \<Rightarrow> file_read \<Rightarrow> (string + unit) \<times> file_read" where
  "thaw refused file =
     (if file = Absent then (Inr (), file)
      else case refused of None \<Rightarrow> (Inr (), Absent) | Some e \<Rightarrow> (Inl e, file))"

section \<open>Properties\<close>

lemma check_component_fresh: "check_component url_of seen c = Inr () \<Longrightarrow> dk_id c \<notin> set seen"
  by (auto simp: check_component_def Let_def split: if_splits)

lemma check_components_ok:
  "check_components url_of seen cs = Inr () \<Longrightarrow>
     distinct (map dk_id cs) \<and> set (map dk_id cs) \<inter> set seen = {}
     \<and> (\<forall>c \<in> set cs. \<exists>seen'. check_component url_of seen' c = Inr ())"
proof (induction cs arbitrary: seen)
  case Nil
  then show ?case by simp
next
  case (Cons c cs)
  then have c: "check_component url_of seen c = Inr ()" and rest: "check_components url_of (dk_id c # seen) cs = Inr ()"
    by auto
  from Cons.IH [OF rest] check_component_fresh [OF c] c show ?case by auto
qed

lemma check_component_ok:
  assumes "check_component url_of seen c = Inr ()"
  shows "\<not> is_blank (dk_version c)" "\<exists>s. dk_signature c = Some s \<and> \<not> is_blank s"
    "length (dk_digest c) = 64 \<and> list_all is_ascii_hex (dk_digest c)" "dk_automatic c \<Longrightarrow> dk_probe c \<noteq> None"
    "\<exists>scheme host. url_of (dk_artifact_url c) = Inr (scheme, host)
       \<and> (scheme = ''https'' \<or> (scheme = ''http'' \<and> host \<in> {Some ''127.0.0.1'', Some ''::1'', Some ''localhost''}))"
  using assms
  by (auto simp: check_component_def Let_def is_blank_def str_trim_def split: if_splits option.splits)

text \<open>An accepted manifest is installable as a whole: no component twice, every one versioned, signed,
  with a SHA-256 digest and fetched over HTTPS or from the own host, and no automatic one without a probe.\<close>

theorem accepted_manifest_installable:
  assumes "parse_manifest decode url_of bytes = Inr cs"
  shows "distinct (map dk_id cs)
     \<and> (\<forall>c \<in> set cs. \<not> is_blank (dk_version c) \<and> (\<exists>s. dk_signature c = Some s \<and> \<not> is_blank s)
          \<and> length (dk_digest c) = 64 \<and> list_all is_ascii_hex (dk_digest c)
          \<and> (dk_automatic c \<longrightarrow> dk_probe c \<noteq> None)
          \<and> (\<exists>scheme host. url_of (dk_artifact_url c) = Inr (scheme, host)
               \<and> (scheme = ''https'' \<or> (scheme = ''http'' \<and> host \<in> {Some ''127.0.0.1'', Some ''::1'', Some ''localhost''}))))"
proof -
  from assms have ok: "check_components url_of [] cs = Inr ()"
    by (auto simp: parse_manifest_def)
  show ?thesis using check_components_ok [OF ok] check_component_ok by blast
qed

definition demo_component :: desired_component where
  "demo_component = \<lparr>dk_id = \<lparr>ci_kind = ProviderCli, ci_slot = ''codex''\<rparr>, dk_version = ''1.0'', dk_generation = ''g1'',
     dk_artifact_url = ''https://x'', dk_digest = replicate 64 CHR ''a'', dk_artifact_format = Raw, dk_entrypoint = None,
     dk_signature = Some ''sig'', dk_deletion_journal = None, dk_probe = Some ([], 5), dk_automatic = True\<rparr>"

lemma demo_words: "\<not> is_blank ''1.0''" "\<not> is_blank ''sig''"
  by code_simp+

lemma demo_component_ok: "check_components (\<lambda>_. Inr (''https'', None)) [] [demo_component] = Inr ()"
  using demo_words
  by (simp add: check_component_def demo_component_def validate_session_deletion_declaration_def
      list_all_iff is_ascii_hex_def byte_of_def)

theorem accepted_manifest_installable_witness:
  "distinct (map dk_id [demo_component])"
proof -
  have "parse_manifest (\<lambda>_. Inr [demo_component]) (\<lambda>_. Inr (''https'', None)) [] = Inr [demo_component]"
    using demo_component_ok by (simp add: parse_manifest_def del: check_components.simps)
  from accepted_manifest_installable [OF this] show ?thesis by blast
qed

text \<open>Re-reading a document changes what is in force only by accepting a different value, under a higher
  generation; a refused one keeps the last accepted value and generation and reports why.\<close>

theorem rejected_reload_keeps_last_accepted:
  assumes "gn_generation current < usize_max"
  shows "(case reload_document outcome now current of
            (Inl e, next) \<Rightarrow> outcome = Inl e \<and> gn_value next = gn_value current
              \<and> gn_generation next = gn_generation current \<and> gn_error next = Some e
          | (Inr None, next) \<Rightarrow> outcome = Inr (gn_value current) \<and> gn_value next = gn_value current
              \<and> gn_generation next = gn_generation current \<and> gn_error next = None
          | (Inr (Some g), next) \<Rightarrow> outcome = Inr (gn_value next) \<and> gn_value next \<noteq> gn_value current
              \<and> gn_generation next = g \<and> g = Suc (gn_generation current) \<and> gn_error next = None)"
  using assms by (auto simp: reload_document_def Let_def usize_add_eq split: sum.split)

theorem rejected_reload_keeps_last_accepted_witness:
  "gn_value (snd (reload_document (Inl ''e'') 5 \<lparr>gn_generation = 1, gn_value = [demo_component], gn_loaded_at_ms = 0,
     gn_error = None\<rparr>)) = [demo_component]"
  using rejected_reload_keeps_last_accepted [of "\<lparr>gn_generation = 1, gn_value = [demo_component], gn_loaded_at_ms = 0,
     gn_error = None\<rparr>" "Inl ''e''" 5]
  by (simp add: usize_max_def reload_document_def)

text \<open>
  The freeze is documented to hold for an unreadable record too. A record that does not decode does
  freeze; one whose file cannot be read does not.
\<close>

lemma unreadable_freeze_does_not_hold:
  "is_frozen decode (Contents bytes) \<and> \<not> is_frozen decode (IoError e)"
  by (simp add: is_frozen_def freeze_current_def)

end
