(* ===== verification/Machine_Convergence.thy ===== *)
theory Machine_Convergence
  imports Machine_Manifest "HOL-Library.AList"
begin

text \<open>
  How the Service brings Machines to the accepted component manifest: the pure plan for one Machine, the
  history of attempts with its backoff (\<^verbatim>\<open>src/src/machine_convergence.rs\<close>), and the loop that claims a
  Machine, counts the dispatch, sends it and records the answer (\<^verbatim>\<open>run_component_convergence\<close> in
  \<^verbatim>\<open>src/components/server/src/server/background_jobs.rs\<close>). The loop's tasks run beside it, so their steps are
  events of a step relation; what the Machine answers is the event's argument. Durations are nanoseconds.
  Proved here: what is dispatched and when, that each Machine has at most one Reconcile under way, and that
  no digest is tried more often than the policy allows.
\<close>

section \<open>Policy and attempts\<close>

record convergence_policy =
  po_first_backoff :: nat
  po_max_backoff :: nat
  po_max_attempts :: nat

definition default_policy :: convergence_policy where
  "default_policy = \<lparr>po_first_backoff = 60 * 10 ^ 9, po_max_backoff = 30 * 60 * 10 ^ 9, po_max_attempts = 4\<rparr>"

text \<open>The longest duration: \<open>u64\<close> seconds and just under one second of nanoseconds.\<close>

definition duration_max :: nat where
  "duration_max = (2 ^ 64 - 1) * 10 ^ 9 + 999999999"

definition backoff :: "convergence_policy \<Rightarrow> nat \<Rightarrow> nat" where
  "backoff p attempts =
     (let exponent = min (attempts - 1) 16;
          scaled = min (po_first_backoff p * min (2 ^ exponent) u32_max) duration_max
      in min scaled (po_max_backoff p))"

definition millis_i64 :: "nat \<Rightarrow> int" where
  "millis_i64 ns = (let ms = int (ns div 10 ^ 6) in if ms \<le> i64_max then ms else i64_max)"

record attempt =
  at_digest :: string
  at_attempts :: nat
  at_next_attempt_at_ms :: int
  at_blocked :: bool
  at_acknowledged :: bool
  at_detail :: "string option"

definition attempt_first :: "desired_component \<Rightarrow> int \<Rightarrow> attempt" where
  "attempt_first c now = \<lparr>at_digest = dk_digest c, at_attempts = 0, at_next_attempt_at_ms = now,
     at_blocked = False, at_acknowledged = False, at_detail = None\<rparr>"

section \<open>The plan for one Machine\<close>

record plan =
  pl_dispatch :: "desired_component list"
  pl_reported :: "component_convergence list"

type_synonym history = "(component_id \<times> attempt) list"

definition installed_of :: "machine_summary \<Rightarrow> desired_component \<Rightarrow> component_inventory option" where
  "installed_of s c = find (\<lambda>i. iv_id i = dk_id c) (ms_components s)"

definition converged :: "machine_summary \<Rightarrow> desired_component \<Rightarrow> bool" where
  "converged s c =
     (case installed_of s c of
        None \<Rightarrow> False
      | Some i \<Rightarrow> iv_state i = Active \<and> same_digest (iv_digest i) (dk_digest c))"

text \<open>A history counts only against the digest it is about.\<close>

definition attempt_of :: "history \<Rightarrow> desired_component \<Rightarrow> attempt option" where
  "attempt_of h c =
     (case map_of h (dk_id c) of
        None \<Rightarrow> None
      | Some a \<Rightarrow> if same_digest (at_digest a) (dk_digest c) then Some a else None)"

definition judge_component ::
    "machine_summary \<Rightarrow> history \<Rightarrow> bool \<Rightarrow> int \<Rightarrow> desired_component \<Rightarrow> component_convergence \<times> bool" where
  "judge_component s h frozen now c =
     (let a = attempt_of h c;
          n = (case a of None \<Rightarrow> 0 | Some a \<Rightarrow> at_attempts a);
          report = (\<lambda>st next detail. \<lparr>cc_id = dk_id c, cc_state = st, cc_attempts = n,
                      cc_next_attempt_at_ms = next, cc_detail = detail\<rparr>)
      in if frozen then (report Frozen None None, False)
         else case a of
           Some a' \<Rightarrow>
             if at_blocked a' then (report Blocked None (at_detail a'), False)
             else if (\<exists>i \<in> set_option (installed_of s c). iv_active_leases i > 0)
             then (report WaitingDrain None None, False)
             else if at_next_attempt_at_ms a' > now
             then (report (if at_acknowledged a' then Verifying else Retrying)
                     (Some (at_next_attempt_at_ms a')) (at_detail a'), False)
             else (report Pending None None, True)
         | None \<Rightarrow>
             if (\<exists>i \<in> set_option (installed_of s c). iv_active_leases i > 0)
             then (report WaitingDrain None None, False)
             else (report Pending None None, True))"

definition plan_machine ::
    "machine_summary \<Rightarrow> desired_component list \<Rightarrow> history \<Rightarrow> bool \<Rightarrow> int \<Rightarrow> plan" where
  "plan_machine s desired h frozen now =
     (if \<not> ms_connected s then \<lparr>pl_dispatch = [], pl_reported = []\<rparr>
      else let open_components = filter (\<lambda>c. dk_automatic c \<and> \<not> converged s c) desired
           in \<lparr>pl_dispatch = filter (\<lambda>c. snd (judge_component s h frozen now c)) open_components,
               pl_reported = map (\<lambda>c. fst (judge_component s h frozen now c)) open_components\<rparr>)"

section \<open>The history of a Machine\<close>

datatype task_stage = Claimed | Sent

record convergence_task =
  tk_machine :: string
  tk_dispatch :: "desired_component list"
  tk_stage :: task_stage

record convergence =
  cv_attempts :: "(string \<times> history) list"
  cv_in_flight :: "string list"
  cv_tasks :: "convergence_task list"

definition convergence_new :: convergence where
  "convergence_new = \<lparr>cv_attempts = [], cv_in_flight = [], cv_tasks = []\<rparr>"

definition machine_history :: "convergence \<Rightarrow> string \<Rightarrow> history" where
  "machine_history st m = (case map_of (cv_attempts st) m of None \<Rightarrow> [] | Some h \<Rightarrow> h)"

definition begin_machine :: "string \<Rightarrow> convergence \<Rightarrow> bool \<times> convergence" where
  "begin_machine m st =
     (if m \<in> set (cv_in_flight st) then (False, st) else (True, st\<lparr>cv_in_flight := m # cv_in_flight st\<rparr>))"

definition finish_machine :: "string \<Rightarrow> convergence \<Rightarrow> convergence" where
  "finish_machine m st = st\<lparr>cv_in_flight := filter (\<lambda>x. x \<noteq> m) (cv_in_flight st)\<rparr>"

definition is_in_flight :: "convergence \<Rightarrow> string \<Rightarrow> bool" where
  "is_in_flight st m \<longleftrightarrow> m \<in> set (cv_in_flight st)"

definition count_dispatch :: "convergence_policy \<Rightarrow> int \<Rightarrow> desired_component \<Rightarrow> attempt option \<Rightarrow> attempt" where
  "count_dispatch p now c old =
     (let entry = (case old of
                     None \<Rightarrow> attempt_first c now
                   | Some a \<Rightarrow> if same_digest (at_digest a) (dk_digest c) then a else attempt_first c now);
          n = min (at_attempts entry + 1) u32_max
      in entry\<lparr>at_attempts := n, at_blocked := po_max_attempts p \<le> n, at_acknowledged := False,
           at_next_attempt_at_ms := i64_add now (millis_i64 (backoff p n))\<rparr>)"

definition record_dispatch ::
    "convergence_policy \<Rightarrow> string \<Rightarrow> desired_component list \<Rightarrow> int \<Rightarrow> convergence \<Rightarrow> convergence" where
  "record_dispatch p m dispatched now st =
     st\<lparr>cv_attempts := AList.update m
          (foldl (\<lambda>h c. AList.update (dk_id c) (count_dispatch p now c (map_of h (dk_id c))) h)
             (machine_history st m) dispatched) (cv_attempts st)\<rparr>"

definition settle_entry :: "string option \<Rightarrow> desired_component \<Rightarrow> history \<Rightarrow> history" where
  "settle_entry detail c h =
     (case map_of h (dk_id c) of
        None \<Rightarrow> h
      | Some a \<Rightarrow>
          if same_digest (at_digest a) (dk_digest c)
          then AList.update (dk_id c) (a\<lparr>at_acknowledged := (detail = None), at_detail := detail\<rparr>) h
          else h)"

definition record_outcome :: "string \<Rightarrow> desired_component list \<Rightarrow> string option \<Rightarrow> convergence \<Rightarrow> convergence" where
  "record_outcome m dispatched detail st =
     (case map_of (cv_attempts st) m of
        None \<Rightarrow> st
      | Some h \<Rightarrow> st\<lparr>cv_attempts := AList.update m (foldl (\<lambda>h c. settle_entry detail c h) h dispatched) (cv_attempts st)\<rparr>)"

definition retain_history :: "string \<Rightarrow> component_id list \<Rightarrow> convergence \<Rightarrow> convergence" where
  "retain_history m keep st =
     (case map_of (cv_attempts st) m of
        None \<Rightarrow> st
      | Some h \<Rightarrow>
          let kept = filter (\<lambda>(i, _). i \<in> set keep) h
          in st\<lparr>cv_attempts := (if kept = [] then AList.delete m (cv_attempts st)
                               else AList.update m kept (cv_attempts st))\<rparr>)"

definition forget_machine :: "string \<Rightarrow> convergence \<Rightarrow> convergence" where
  "forget_machine m st =
     st\<lparr>cv_attempts := AList.delete m (cv_attempts st), cv_in_flight := filter (\<lambda>x. x \<noteq> m) (cv_in_flight st)\<rparr>"

section \<open>The convergence loop\<close>

text \<open>The loop's turn for one Machine. The age of its connection is in seconds.\<close>

definition connection_grace :: nat where
  "connection_grace = 120"

definition visit_machine ::
    "desired_component list \<Rightarrow> bool \<Rightarrow> int \<Rightarrow> nat option \<Rightarrow> machine_summary \<Rightarrow> convergence \<Rightarrow> convergence" where
  "visit_machine desired frozen now age s st =
     (if is_in_flight st (ms_id s) then st
      else let plan = plan_machine s desired (machine_history st (ms_id s)) frozen now;
               st1 = (if ms_connected s then retain_history (ms_id s) (map cc_id (pl_reported plan)) st else st)
           in if pl_dispatch plan = [] then st1
              else if (case age of None \<Rightarrow> True | Some a \<Rightarrow> a < connection_grace) then st1
              else case begin_machine (ms_id s) st1 of
                  (False, st2) \<Rightarrow> st2
                | (True, st2) \<Rightarrow>
                    st2\<lparr>cv_tasks := cv_tasks st2
                          @ [\<lparr>tk_machine = ms_id s, tk_dispatch = pl_dispatch plan, tk_stage = Claimed\<rparr>]\<rparr>)"

definition send_task :: "nat \<Rightarrow> int \<Rightarrow> convergence \<Rightarrow> convergence" where
  "send_task i now st =
     (let t = cv_tasks st ! i
      in record_dispatch default_policy (tk_machine t) (tk_dispatch t) now
           (st\<lparr>cv_tasks := (cv_tasks st)[i := t\<lparr>tk_stage := Sent\<rparr>]\<rparr>))"

definition answer_task :: "nat \<Rightarrow> string option \<Rightarrow> convergence \<Rightarrow> convergence" where
  "answer_task i detail st =
     (let t = cv_tasks st ! i
      in finish_machine (tk_machine t)
           (record_outcome (tk_machine t) (tk_dispatch t) detail (st\<lparr>cv_tasks := remove_nth i (cv_tasks st)\<rparr>)))"

datatype conv_event =
    Visit "desired_component list" bool int "nat option" machine_summary
  | SendTask nat int
  | AnswerTask nat "string option"
  | Revoked string

inductive conv_step :: "convergence \<Rightarrow> conv_event \<Rightarrow> convergence \<Rightarrow> bool" where
  visit: "distinct (map dk_id desired)
     \<Longrightarrow> conv_step st (Visit desired frozen now age s) (visit_machine desired frozen now age s st)"
| send: "i < length (cv_tasks st) \<Longrightarrow> tk_stage (cv_tasks st ! i) = Claimed
     \<Longrightarrow> conv_step st (SendTask i now) (send_task i now st)"
| answer: "i < length (cv_tasks st) \<Longrightarrow> tk_stage (cv_tasks st ! i) = Sent
     \<Longrightarrow> conv_step st (AnswerTask i detail) (answer_task i detail st)"
| revoke: "conv_step st (Revoked m) (forget_machine m st)"

inductive_cases conv_stepE: "conv_step st e st'"

text \<open>A run in which no Machine is revoked while its Reconcile is under way.\<close>

definition unraced :: "convergence \<Rightarrow> conv_event \<Rightarrow> bool" where
  "unraced st e = (case e of Revoked m \<Rightarrow> m \<notin> tk_machine ` set (cv_tasks st) | _ \<Rightarrow> True)"

inductive conv_reach :: "convergence \<Rightarrow> bool" where
  start: "conv_reach convergence_new"
| step: "conv_reach st \<Longrightarrow> unraced st e \<Longrightarrow> conv_step st e st' \<Longrightarrow> conv_reach st'"

section \<open>The plan\<close>

definition leased :: "machine_summary \<Rightarrow> desired_component \<Rightarrow> bool" where
  "leased s c \<longleftrightarrow> (\<exists>i \<in> set_option (installed_of s c). iv_active_leases i > 0)"

definition may_converge :: "machine_summary \<Rightarrow> history \<Rightarrow> bool \<Rightarrow> int \<Rightarrow> desired_component \<Rightarrow> bool" where
  "may_converge s h frozen now c \<longleftrightarrow>
     \<not> frozen \<and> \<not> leased s c
     \<and> (\<forall>a \<in> set_option (attempt_of h c). \<not> at_blocked a \<and> at_next_attempt_at_ms a \<le> now)"

lemma judge_dispatches: "snd (judge_component s h frozen now c) \<longleftrightarrow> may_converge s h frozen now c"
  by (auto simp: judge_component_def may_converge_def leased_def Let_def split: option.split)

lemma judge_id: "cc_id (fst (judge_component s h frozen now c)) = dk_id c"
  by (auto simp: judge_component_def Let_def split: option.split)

lemma judge_pending: "cc_state (fst (judge_component s h frozen now c)) = Pending \<longleftrightarrow> may_converge s h frozen now c"
  by (auto simp: judge_component_def may_converge_def leased_def Let_def split: option.split)

text \<open>The plan dispatches, in the manifest's order, exactly the automatic components a connected Machine does
  not already run that are neither stopped by the freeze, nor leased by a live session, nor given up on, nor
  waiting for their next attempt; and it reports every automatic component the Machine does not run, the
  dispatched ones and no others as pending.\<close>

theorem plan_dispatches_exactly:
  "pl_dispatch (plan_machine s desired h frozen now) =
     filter (\<lambda>c. ms_connected s \<and> dk_automatic c \<and> \<not> converged s c \<and> may_converge s h frozen now c) desired
   \<and> map cc_id (pl_reported (plan_machine s desired h frozen now)) =
     map dk_id (filter (\<lambda>c. ms_connected s \<and> dk_automatic c \<and> \<not> converged s c) desired)
   \<and> map cc_id (filter (\<lambda>r. cc_state r = Pending) (pl_reported (plan_machine s desired h frozen now))) =
     map dk_id (pl_dispatch (plan_machine s desired h frozen now))"
proof (cases "ms_connected s")
  case True
  let ?open = "filter (\<lambda>c. dk_automatic c \<and> \<not> converged s c) desired"
  have "map cc_id (filter (\<lambda>r. cc_state r = Pending) (map (\<lambda>c. fst (judge_component s h frozen now c)) ?open))
      = map dk_id (filter (may_converge s h frozen now) ?open)"
    by (simp add: filter_map o_def judge_id judge_pending)
  with True show ?thesis
    by (simp add: plan_machine_def Let_def judge_dispatches judge_id o_def conj_assoc)
qed (simp add: plan_machine_def)

lemma plan_dispatch_sub:
  "c \<in> set (pl_dispatch (plan_machine s desired h frozen now))
     \<Longrightarrow> c \<in> set desired \<and> may_converge s h frozen now c \<and> ms_connected s
         \<and> dk_id c \<in> cc_id ` set (pl_reported (plan_machine s desired h frozen now))"
  by (auto simp: plan_machine_def Let_def judge_dispatches judge_id image_iff split: if_splits)

lemma plan_dispatch_distinct:
  "distinct (map dk_id desired) \<Longrightarrow> distinct (map dk_id (pl_dispatch (plan_machine s desired h frozen now)))"
  by (simp add: plan_machine_def Let_def distinct_map inj_on_def)

section \<open>The history under the loop's steps\<close>

lemma machine_history_record_dispatch:
  "machine_history (record_dispatch p m cs now st) m' =
     (if m' = m then foldl (\<lambda>h c. AList.update (dk_id c) (count_dispatch p now c (map_of h (dk_id c))) h) (machine_history st m) cs
      else machine_history st m')"
  by (simp add: record_dispatch_def machine_history_def update_conv')

lemma machine_history_forget: "machine_history (forget_machine m st) m' = (if m' = m then [] else machine_history st m')"
  by (simp add: forget_machine_def machine_history_def delete_conv')

lemma machine_history_retain:
  "machine_history (retain_history m keep st) m' =
     (if m' = m then filter (\<lambda>(i, _). i \<in> set keep) (machine_history st m') else machine_history st m')"
  by (auto simp: retain_history_def machine_history_def Let_def update_conv' delete_conv' split: option.split)

lemma map_of_kept: "map_of (filter (\<lambda>(i, _). i \<in> K) h) i = (if i \<in> K then map_of h i else None)"
  by (induction h) auto

lemma machine_history_outcome:
  "machine_history (record_outcome m cs detail st) m' =
     (if m' = m then foldl (\<lambda>h c. settle_entry detail c h) (machine_history st m) cs else machine_history st m')"
proof -
  have "foldl (\<lambda>h c. settle_entry detail c h) [] cs = []"
    by (induction cs) (simp_all add: settle_entry_def)
  then show ?thesis
    by (simp add: record_outcome_def machine_history_def update_conv' split: option.split)
qed

lemma foldl_update_other:
  "i \<notin> dk_id ` set cs
     \<Longrightarrow> map_of (foldl (\<lambda>h c. AList.update (dk_id c) (count_dispatch p now c (map_of h (dk_id c))) h) h cs) i = map_of h i"
  by (induction cs arbitrary: h) (auto simp: update_conv')

lemma foldl_update_once:
  "distinct (map dk_id cs) \<Longrightarrow> c \<in> set cs
     \<Longrightarrow> map_of (foldl (\<lambda>h c. AList.update (dk_id c) (count_dispatch p now c (map_of h (dk_id c))) h) h cs) (dk_id c)
         = Some (count_dispatch p now c (map_of h (dk_id c)))"
proof (induction cs arbitrary: h)
  case (Cons d cs)
  show ?case
  proof (cases "c = d")
    case True
    with Cons.prems show ?thesis by (simp add: foldl_update_other update_conv')
  next
    case False
    with Cons.prems have "c \<in> set cs" "dk_id c \<noteq> dk_id d" by (auto simp: image_iff)
    with Cons show ?thesis by (simp add: update_conv')
  qed
qed simp

lemma settle_keeps:
  "map_of (settle_entry detail c h) i = Some a
     \<Longrightarrow> \<exists>b. map_of h i = Some b \<and> at_digest a = at_digest b \<and> at_attempts a = at_attempts b
           \<and> at_blocked a = at_blocked b \<and> at_next_attempt_at_ms a = at_next_attempt_at_ms b"
  by (auto simp: settle_entry_def update_conv' split: option.splits if_splits)

lemma settle_all_keeps:
  "map_of (foldl (\<lambda>h c. settle_entry detail c h) h cs) i = Some a
     \<Longrightarrow> \<exists>b. map_of h i = Some b \<and> at_digest a = at_digest b \<and> at_attempts a = at_attempts b
           \<and> at_blocked a = at_blocked b \<and> at_next_attempt_at_ms a = at_next_attempt_at_ms b"
proof (induction cs arbitrary: h)
  case (Cons c cs)
  then obtain b where "map_of (settle_entry detail c h) i = Some b" "at_digest a = at_digest b"
      "at_attempts a = at_attempts b" "at_blocked a = at_blocked b"
      "at_next_attempt_at_ms a = at_next_attempt_at_ms b"
    by auto
  then show ?case using settle_keeps by force
qed simp

section \<open>The invariant of the loop\<close>

definition good_entry :: "attempt \<Rightarrow> bool" where
  "good_entry a \<longleftrightarrow> 1 \<le> at_attempts a \<and> at_attempts a \<le> 4 \<and> (at_blocked a \<longleftrightarrow> at_attempts a = 4)"

definition hist_ok :: "convergence \<Rightarrow> bool" where
  "hist_ok st \<longleftrightarrow> (\<forall>m i a. map_of (machine_history st m) i = Some a \<longrightarrow> good_entry a)"

definition claims_ok :: "convergence \<Rightarrow> bool" where
  "claims_ok st \<longleftrightarrow> distinct (map tk_machine (cv_tasks st)) \<and> tk_machine ` set (cv_tasks st) = set (cv_in_flight st)"

definition task_ready :: "history \<Rightarrow> convergence_task \<Rightarrow> bool" where
  "task_ready h t \<longleftrightarrow> tk_stage t = Claimed \<longrightarrow>
     distinct (map dk_id (tk_dispatch t))
     \<and> (\<forall>c \<in> set (tk_dispatch t). \<forall>a \<in> set_option (attempt_of h c). \<not> at_blocked a)"

definition tasks_ready :: "convergence \<Rightarrow> bool" where
  "tasks_ready st \<longleftrightarrow> (\<forall>t \<in> set (cv_tasks st). task_ready (machine_history st (tk_machine t)) t)"

lemma count_dispatch_good:
  assumes "\<forall>a \<in> set_option old. good_entry a"
    and "\<forall>a \<in> set_option old. same_digest (at_digest a) (dk_digest c) \<longrightarrow> \<not> at_blocked a"
  shows "good_entry (count_dispatch default_policy now c old)"
  using assms
  by (auto simp: count_dispatch_def good_entry_def Let_def default_policy_def u32_max_def attempt_first_def
      split: option.split)

lemma frame_tasks [simp]:
  "cv_tasks (record_dispatch p m cs now st) = cv_tasks st" "cv_in_flight (record_dispatch p m cs now st) = cv_in_flight st"
  "cv_tasks (record_outcome m cs d st) = cv_tasks st" "cv_in_flight (record_outcome m cs d st) = cv_in_flight st"
  "cv_tasks (retain_history m keep st) = cv_tasks st" "cv_in_flight (retain_history m keep st) = cv_in_flight st"
  "cv_tasks (forget_machine m st) = cv_tasks st" "machine_history (finish_machine m st) = machine_history st"
  "cv_tasks (finish_machine m st) = cv_tasks st" "machine_history (st\<lparr>cv_tasks := ts\<rparr>) = machine_history st"
  "machine_history (st\<lparr>cv_in_flight := fs\<rparr>) = machine_history st"
  by (auto simp: record_dispatch_def record_outcome_def retain_history_def forget_machine_def finish_machine_def
      machine_history_def Let_def fun_eq_iff split: option.split)

lemma hist_ok_retain: "hist_ok st \<Longrightarrow> hist_ok (retain_history m keep st)"
  by (auto simp: hist_ok_def machine_history_retain map_of_kept split: if_splits)

lemma hist_ok_outcome: "hist_ok st \<Longrightarrow> hist_ok (record_outcome m cs d st)"
  by (auto simp: hist_ok_def machine_history_outcome good_entry_def dest!: settle_all_keeps split: if_splits)

lemma hist_ok_dispatch:
  assumes "hist_ok st" "distinct (map dk_id cs)"
    and "\<forall>c \<in> set cs. \<forall>a \<in> set_option (attempt_of (machine_history st m) c). \<not> at_blocked a"
  shows "hist_ok (record_dispatch default_policy m cs now st)"
  unfolding hist_ok_def
proof (intro allI impI)
  fix m' i a
  assume a: "map_of (machine_history (record_dispatch default_policy m cs now st) m') i = Some a"
  show "good_entry a"
  proof (cases "m' = m \<and> i \<in> dk_id ` set cs")
    case False
    with a assms(1) show ?thesis
      by (auto simp: machine_history_record_dispatch foldl_update_other hist_ok_def split: if_splits)
  next
    case True
    then obtain c where c: "c \<in> set cs" "i = dk_id c" "m' = m" by auto
    with a assms(2) have "a = count_dispatch default_policy now c (map_of (machine_history st m) (dk_id c))"
      by (simp add: machine_history_record_dispatch foldl_update_once)
    moreover have "\<forall>a \<in> set_option (map_of (machine_history st m) (dk_id c)). good_entry a"
      using assms(1) by (auto simp: hist_ok_def)
    moreover have "\<forall>a \<in> set_option (map_of (machine_history st m) (dk_id c)).
        same_digest (at_digest a) (dk_digest c) \<longrightarrow> \<not> at_blocked a"
      using assms(3) c by (fastforce simp: attempt_of_def)
    ultimately show ?thesis by (simp add: count_dispatch_good)
  qed
qed

lemma visit_cases:
  obtains (same) "visit_machine desired frozen now age s st = st"
  | (kept) keep where "visit_machine desired frozen now age s st = retain_history (ms_id s) keep st" "ms_connected s"
      "keep = map cc_id (pl_reported (plan_machine s desired (machine_history st (ms_id s)) frozen now))"
  | (claimed) keep d where "visit_machine desired frozen now age s st =
        (let st1 = retain_history (ms_id s) keep st
         in st1\<lparr>cv_in_flight := ms_id s # cv_in_flight st1,
                cv_tasks := cv_tasks st1 @ [\<lparr>tk_machine = ms_id s, tk_dispatch = d, tk_stage = Claimed\<rparr>]\<rparr>)"
      "ms_id s \<notin> set (cv_in_flight st)" "ms_connected s"
      "d = pl_dispatch (plan_machine s desired (machine_history st (ms_id s)) frozen now)"
      "keep = map cc_id (pl_reported (plan_machine s desired (machine_history st (ms_id s)) frozen now))"
proof -
  let ?plan = "plan_machine s desired (machine_history st (ms_id s)) frozen now"
  have off: "\<not> ms_connected s \<Longrightarrow> pl_dispatch ?plan = []" by (simp add: plan_machine_def)
  show ?thesis
  proof (cases "is_in_flight st (ms_id s)")
    case True
    then show ?thesis using same by (simp add: visit_machine_def)
  next
    case free: False
    show ?thesis
    proof (cases "pl_dispatch ?plan = [] \<or> (case age of None \<Rightarrow> True | Some a \<Rightarrow> a < connection_grace)")
      case True
      then show ?thesis using same kept free by (cases "ms_connected s") (auto simp: visit_machine_def Let_def)
    next
      case False
      then have "ms_connected s" using off by blast
      with False free show ?thesis
        using claimed [of "map cc_id (pl_reported ?plan)" "pl_dispatch ?plan"]
        by (simp add: visit_machine_def Let_def is_in_flight_def begin_machine_def)
    qed
  qed
qed

lemma visit_hist_ok: "hist_ok st \<Longrightarrow> hist_ok (visit_machine desired frozen now age s st)"
  by (rule visit_cases [of desired frozen now age s st])
    (auto simp: Let_def hist_ok_def machine_history_retain map_of_kept split: if_splits)

lemma visit_claims_ok: "claims_ok st \<Longrightarrow> claims_ok (visit_machine desired frozen now age s st)"
  by (rule visit_cases [of desired frozen now age s st]) (auto simp: Let_def claims_ok_def)

lemma attempt_of_filter:
  "a \<in> set_option (attempt_of (filter (\<lambda>(i, _). i \<in> K) h) c) \<Longrightarrow> a \<in> set_option (attempt_of h c)"
  by (auto simp: attempt_of_def map_of_kept split: if_splits option.splits)

lemma task_ready_filter: "task_ready h t \<Longrightarrow> task_ready (filter (\<lambda>(i, _). i \<in> K) h) t"
  unfolding task_ready_def using attempt_of_filter by blast

lemma visit_tasks_ready:
  assumes "tasks_ready st" "distinct (map dk_id desired)"
  shows "tasks_ready (visit_machine desired frozen now age s st)"
proof (rule visit_cases [of desired frozen now age s st])
  assume "visit_machine desired frozen now age s st = st"
  with assms show ?thesis by simp
next
  fix keep assume "visit_machine desired frozen now age s st = retain_history (ms_id s) keep st"
  with assms show ?thesis by (fastforce simp: tasks_ready_def machine_history_retain intro: task_ready_filter)
next
  fix keep d
  assume v: "visit_machine desired frozen now age s st =
        (let st1 = retain_history (ms_id s) keep st
         in st1\<lparr>cv_in_flight := ms_id s # cv_in_flight st1,
                cv_tasks := cv_tasks st1 @ [\<lparr>tk_machine = ms_id s, tk_dispatch = d, tk_stage = Claimed\<rparr>]\<rparr>)"
    and d: "d = pl_dispatch (plan_machine s desired (machine_history st (ms_id s)) frozen now)"
  have "task_ready (machine_history st (ms_id s)) \<lparr>tk_machine = ms_id s, tk_dispatch = d, tk_stage = Claimed\<rparr>"
    using plan_dispatch_distinct [OF assms(2)] plan_dispatch_sub
    by (fastforce simp: task_ready_def d may_converge_def)
  with assms(1) show ?thesis
    unfolding v tasks_ready_def Let_def by (auto simp: machine_history_retain task_ready_filter)
qed

lemma remove_nth_distinct:
  assumes "distinct xs" "i < length xs"
  shows "distinct (remove_nth i xs) \<and> set (remove_nth i xs) = set xs - {xs ! i}"
  using assms
proof (induction xs arbitrary: i)
  case (Cons x xs)
  then show ?case by (cases i) (auto simp: nth_mem)
qed simp

lemma map_remove_nth: "map f (remove_nth i xs) = remove_nth i (map f xs)"
  by (simp add: remove_nth_def take_map drop_map)

definition loop_ok :: "convergence \<Rightarrow> bool" where
  "loop_ok st \<longleftrightarrow> claims_ok st \<and> hist_ok st \<and> tasks_ready st"

lemma other_machine:
  assumes "claims_ok st" "i < length (cv_tasks st)" "t \<in> set (remove_nth i (cv_tasks st))"
  shows "tk_machine t \<noteq> tk_machine (cv_tasks st ! i) \<and> t \<in> set (cv_tasks st)"
proof -
  have "tk_machine t \<in> set (remove_nth i (map tk_machine (cv_tasks st)))"
    using assms(3) by (auto simp flip: map_remove_nth)
  then show ?thesis
    using remove_nth_distinct [of "map tk_machine (cv_tasks st)" i] assms set_remove_nth [of i "cv_tasks st"]
    by (auto simp: claims_ok_def)
qed

lemma answer_loop_ok:
  assumes ok: "loop_ok st" and i: "i < length (cv_tasks st)"
  shows "loop_ok (answer_task i detail st)"
proof -
  let ?t = "cv_tasks st ! i" and ?st = "answer_task i detail st"
  have tasks: "cv_tasks ?st = remove_nth i (cv_tasks st)"
    and flight: "cv_in_flight ?st = filter (\<lambda>x. x \<noteq> tk_machine ?t) (cv_in_flight st)"
    by (simp_all add: answer_task_def Let_def finish_machine_def)
  have hist: "machine_history ?st = machine_history (record_outcome (tk_machine ?t) (tk_dispatch ?t) detail
      (st\<lparr>cv_tasks := remove_nth i (cv_tasks st)\<rparr>))"
    by (simp add: answer_task_def Let_def)
  have "claims_ok ?st"
    using remove_nth_distinct [of "map tk_machine (cv_tasks st)" i] ok i
    unfolding loop_ok_def claims_ok_def tasks flight set_filter list.set_map [symmetric] map_remove_nth
    by auto
  moreover have "hist_ok ?st"
    using ok hist_ok_outcome [of "st\<lparr>cv_tasks := remove_nth i (cv_tasks st)\<rparr>"] hist
    by (simp add: loop_ok_def hist_ok_def)
  moreover have "tasks_ready ?st"
    unfolding tasks_ready_def tasks
  proof
    fix t assume t: "t \<in> set (remove_nth i (cv_tasks st))"
    with ok i other_machine [of st i t] show "task_ready (machine_history ?st (tk_machine t)) t"
      by (simp add: hist machine_history_outcome loop_ok_def tasks_ready_def)
  qed
  ultimately show ?thesis by (simp add: loop_ok_def)
qed

lemma send_loop_ok:
  assumes ok: "loop_ok st" and i: "i < length (cv_tasks st)" and stage: "tk_stage (cv_tasks st ! i) = Claimed"
  shows "loop_ok (send_task i now st)"
proof -
  let ?t = "cv_tasks st ! i" and ?st = "send_task i now st"
  let ?mid = "st\<lparr>cv_tasks := (cv_tasks st)[i := ?t\<lparr>tk_stage := Sent\<rparr>]\<rparr>"
  have machines: "map tk_machine ((cv_tasks st)[i := ?t\<lparr>tk_stage := Sent\<rparr>]) = map tk_machine (cv_tasks st)"
    by (simp add: map_update list_update_same_conv i)
  have tasks: "cv_tasks ?st = (cv_tasks st)[i := ?t\<lparr>tk_stage := Sent\<rparr>]" and flight: "cv_in_flight ?st = cv_in_flight st"
    by (simp_all add: send_task_def Let_def)
  have ready: "task_ready (machine_history st (tk_machine ?t)) ?t"
    using ok i by (simp add: loop_ok_def tasks_ready_def)
  have "claims_ok ?st"
    using ok unfolding loop_ok_def claims_ok_def tasks flight list.set_map [symmetric] machines by blast
  moreover have "hist_ok ?st"
    using ok ready stage hist_ok_dispatch [of ?mid "tk_dispatch ?t" "tk_machine ?t" now]
    by (simp add: send_task_def Let_def loop_ok_def hist_ok_def task_ready_def)
  moreover have "tasks_ready ?st"
    unfolding tasks_ready_def
  proof
    fix u assume u: "u \<in> set (cv_tasks ?st)"
    then obtain j where j: "j < length (cv_tasks st)" "u = (cv_tasks st)[i := ?t\<lparr>tk_stage := Sent\<rparr>] ! j"
      by (auto simp: tasks in_set_conv_nth)
    show "task_ready (machine_history ?st (tk_machine u)) u"
    proof (cases "j = i")
      case True
      with j show ?thesis by (simp add: task_ready_def)
    next
      case False
      with j have u: "u = cv_tasks st ! j" by simp
      have "tk_machine u \<noteq> tk_machine ?t"
        using ok i j(1) False unfolding u loop_ok_def claims_ok_def
        by (metis distinct_conv_nth length_map nth_map)
      then show ?thesis
        using ok j(1) u by (simp add: send_task_def Let_def machine_history_record_dispatch loop_ok_def tasks_ready_def)
    qed
  qed
  ultimately show ?thesis by (simp add: loop_ok_def)
qed

lemma revoke_loop_ok:
  assumes "loop_ok st" "m \<notin> tk_machine ` set (cv_tasks st)"
  shows "loop_ok (forget_machine m st)"
  using assms
  by (auto simp: loop_ok_def claims_ok_def hist_ok_def tasks_ready_def machine_history_forget forget_machine_def
      machine_history_def delete_conv' split: if_splits)

theorem reach_loop_ok: "conv_reach st \<Longrightarrow> loop_ok st"
proof (induction rule: conv_reach.induct)
  case start
  show ?case
    by (simp add: loop_ok_def claims_ok_def hist_ok_def tasks_ready_def convergence_new_def machine_history_def)
next
  case (step st e st')
  from step.hyps(3) show ?case
    using step.IH step.hyps(2)
    by (auto elim!: conv_stepE simp: unraced_def send_loop_ok answer_loop_ok revoke_loop_ok)
      (simp add: loop_ok_def visit_hist_ok visit_claims_ok visit_tasks_ready)
qed

section \<open>Properties of the loop\<close>

text \<open>While no Machine is revoked under a running Reconcile, every Machine has at most one Reconcile claimed
  or sent, and exactly the claimed Machines are marked in flight: two activations never race on one Machine.\<close>

theorem one_reconcile_per_machine:
  assumes "conv_reach st"
  shows "distinct (map tk_machine (cv_tasks st)) \<and> (\<forall>m. is_in_flight st m \<longleftrightarrow> m \<in> tk_machine ` set (cv_tasks st))"
  using reach_loop_ok [OF assms] by (auto simp: loop_ok_def claims_ok_def is_in_flight_def)

definition demo_machine :: machine_summary where
  "demo_machine = \<lparr>ms_id = ''m1'', ms_connected = True, ms_components = []\<rparr>"

definition demo_loop :: convergence where
  "demo_loop = visit_machine [demo_component] False 0 (Some 300) demo_machine convergence_new"

lemma demo_loop_tasks:
  "cv_tasks demo_loop = [\<lparr>tk_machine = ''m1'', tk_dispatch = [demo_component], tk_stage = Claimed\<rparr>]"
  by (simp add: demo_loop_def visit_machine_def is_in_flight_def convergence_new_def machine_history_def demo_machine_def
      plan_machine_def converged_def installed_of_def judge_component_def attempt_of_def Let_def connection_grace_def
      begin_machine_def demo_component_def retain_history_def)

lemma demo_loop_reach: "conv_reach demo_loop"
  unfolding demo_loop_def
  by (rule conv_reach.step [OF conv_reach.start _ conv_step.visit]) (simp_all add: unraced_def)

theorem one_reconcile_per_machine_witness: "is_in_flight demo_loop ''m1''"
  using one_reconcile_per_machine [OF demo_loop_reach] by (simp add: demo_loop_tasks)

lemma backoff_default:
  assumes "1 \<le> n" "n \<le> 4"
  shows "millis_i64 (backoff default_policy n) = 60000 * 2 ^ (n - 1)"
proof -
  have "n \<in> {1, 2, 3, 4}" using assms by auto
  then show ?thesis
    by (auto simp: millis_i64_def backoff_def default_policy_def Let_def u32_max_def duration_max_def i64_max_def)
qed

lemma map_of_sent:
  assumes "loop_ok st" "i < length (cv_tasks st)" "tk_stage (cv_tasks st ! i) = Claimed"
    and "c \<in> set (tk_dispatch (cv_tasks st ! i))"
  shows "map_of (machine_history (send_task i now st) (tk_machine (cv_tasks st ! i))) (dk_id c) =
     Some (count_dispatch default_policy now c (map_of (machine_history st (tk_machine (cv_tasks st ! i))) (dk_id c)))"
proof -
  have "task_ready (machine_history st (tk_machine (cv_tasks st ! i))) (cv_tasks st ! i)"
    using assms by (simp add: loop_ok_def tasks_ready_def)
  with assms show ?thesis
    by (simp add: send_task_def Let_def machine_history_record_dispatch task_ready_def foldl_update_once)
qed

definition tries :: "convergence \<Rightarrow> string \<Rightarrow> desired_component \<Rightarrow> nat" where
  "tries st m c = (case attempt_of (machine_history st m) c of None \<Rightarrow> 0 | Some a \<Rightarrow> at_attempts a)"

lemma same_digest_refl [simp]: "same_digest d d"
  by (simp add: same_digest_def)

lemma count_dispatch_counts:
  assumes "\<forall>a \<in> set_option (map_of h (dk_id c)). good_entry a"
    and "\<forall>a \<in> set_option (attempt_of h c). \<not> at_blocked a"
    and n: "n = (case attempt_of h c of None \<Rightarrow> 0 | Some a \<Rightarrow> at_attempts a)"
  shows "n < 4 \<and> at_attempts (count_dispatch default_policy now c (map_of h (dk_id c))) = Suc n
     \<and> at_blocked (count_dispatch default_policy now c (map_of h (dk_id c))) = (Suc n = 4)
     \<and> at_next_attempt_at_ms (count_dispatch default_policy now c (map_of h (dk_id c))) = i64_add now (60000 * 2 ^ n)
     \<and> same_digest (at_digest (count_dispatch default_policy now c (map_of h (dk_id c)))) (dk_digest c)"
proof -
  let ?entry = "case map_of h (dk_id c) of None \<Rightarrow> attempt_first c now
    | Some a \<Rightarrow> if same_digest (at_digest a) (dk_digest c) then a else attempt_first c now"
  have entry: "at_attempts ?entry = n" "n < 4" "same_digest (at_digest ?entry) (dk_digest c)"
    using assms by (auto simp: attempt_of_def attempt_first_def good_entry_def split: option.splits if_splits)
  have "millis_i64 (backoff default_policy (Suc n)) = 60000 * 2 ^ n"
    using backoff_default [of "Suc n"] entry(2) by simp
  with entry show ?thesis
    by (auto simp: count_dispatch_def Let_def u32_max_def default_policy_def min_def)
qed

text \<open>Every Reconcile sent counts as one more attempt at each digest it carries, of which there are at most
  four: the count grows by exactly one, the fourth blocks the digest, and the next attempt lies a minute,
  then two, four and eight minutes after the dispatch.\<close>

theorem digest_tried_at_most_four_times:
  assumes "conv_reach st" and "i < length (cv_tasks st)" "tk_stage (cv_tasks st ! i) = Claimed"
    and "m = tk_machine (cv_tasks st ! i)" "c \<in> set (tk_dispatch (cv_tasks st ! i))"
  shows "tries st m c < 4
     \<and> (\<exists>a. attempt_of (machine_history (send_task i now st) m) c = Some a \<and> at_attempts a = Suc (tries st m c)
          \<and> at_blocked a = (Suc (tries st m c) = 4)
          \<and> at_next_attempt_at_ms a = i64_add now (60000 * 2 ^ tries st m c))"
proof -
  have ok: "loop_ok st" using assms(1) by (rule reach_loop_ok)
  then have good: "\<forall>a \<in> set_option (map_of (machine_history st m) (dk_id c)). good_entry a"
    by (auto simp: loop_ok_def hist_ok_def)
  have free: "\<forall>a \<in> set_option (attempt_of (machine_history st m) c). \<not> at_blocked a"
    using ok assms by (auto simp: loop_ok_def tasks_ready_def task_ready_def)
  show ?thesis
    using count_dispatch_counts [OF good free tries_def, of now] map_of_sent [OF ok assms(2,3,5), of now]
    by (auto simp: attempt_of_def assms(4))
qed

theorem digest_tried_at_most_four_times_witness:
  "tries (send_task 0 5 demo_loop) ''m1'' demo_component = 1"
proof -
  have zero: "tries demo_loop ''m1'' demo_component = 0"
    by (simp add: tries_def demo_loop_def visit_machine_def is_in_flight_def convergence_new_def machine_history_def
        demo_machine_def plan_machine_def converged_def installed_of_def judge_component_def attempt_of_def Let_def
        connection_grace_def begin_machine_def demo_component_def retain_history_def)
  have "0 < length (cv_tasks demo_loop)" "tk_stage (cv_tasks demo_loop ! 0) = Claimed"
      "''m1'' = tk_machine (cv_tasks demo_loop ! 0)" "demo_component \<in> set (tk_dispatch (cv_tasks demo_loop ! 0))"
    unfolding demo_loop_tasks by simp_all
  from digest_tried_at_most_four_times [OF demo_loop_reach this] obtain a
    where a: "attempt_of (machine_history (send_task 0 5 demo_loop) ''m1'') demo_component = Some a" "at_attempts a = Suc 0"
    unfolding zero by blast
  show ?thesis
    unfolding tries_def a(1) option.case a(2) by (rule One_nat_def [symmetric])
qed

section \<open>A digest that was given up on\<close>

text \<open>Events under which a connected Machine still lacks the component and the manifest still asks for it.\<close>

definition still_wanted :: "string \<Rightarrow> desired_component \<Rightarrow> conv_event \<Rightarrow> bool" where
  "still_wanted m c e =
     (case e of
        Visit desired frozen now age s \<Rightarrow>
          ms_id s = m \<longrightarrow> c \<in> set desired \<and> dk_automatic c \<and> \<not> (ms_connected s \<and> converged s c)
      | Revoked m' \<Rightarrow> m' \<noteq> m
      | _ \<Rightarrow> True)"

inductive later :: "string \<Rightarrow> desired_component \<Rightarrow> convergence \<Rightarrow> convergence \<Rightarrow> bool" for m c where
  refl: "later m c st st"
| step: "later m c st st' \<Longrightarrow> unraced st' e \<Longrightarrow> still_wanted m c e \<Longrightarrow> conv_step st' e st'' \<Longrightarrow> later m c st st''"

definition given_up :: "string \<Rightarrow> desired_component \<Rightarrow> convergence \<Rightarrow> bool" where
  "given_up m c st \<longleftrightarrow>
     (\<exists>a. attempt_of (machine_history st m) c = Some a \<and> at_blocked a)
     \<and> (\<forall>t \<in> set (cv_tasks st). tk_machine t = m \<and> tk_stage t = Claimed \<longrightarrow> dk_id c \<notin> dk_id ` set (tk_dispatch t))"

lemma reported_wanted:
  "ms_connected s \<Longrightarrow> c \<in> set desired \<Longrightarrow> dk_automatic c \<Longrightarrow> \<not> converged s c
     \<Longrightarrow> dk_id c \<in> cc_id ` set (pl_reported (plan_machine s desired h frozen now))"
  by (auto simp: plan_machine_def Let_def judge_id image_iff)

lemma attempt_of_filter_kept:
  "dk_id c \<in> K \<Longrightarrow> attempt_of (filter (\<lambda>(i, _). i \<in> K) h) c = attempt_of h c"
  by (simp add: attempt_of_def map_of_kept)

lemma visit_given_up:
  assumes g: "given_up m c st" and w: "still_wanted m c (Visit desired frozen now age s)" and d: "distinct (map dk_id desired)"
  shows "given_up m c (visit_machine desired frozen now age s st)"
proof (cases "ms_id s = m")
  case False
  then show ?thesis
    using g by (cases rule: visit_cases [of desired frozen now age s st]) (auto simp: given_up_def machine_history_retain Let_def)
next
  case True
  with w have c: "c \<in> set desired" "dk_automatic c" "\<not> (ms_connected s \<and> converged s c)" by (auto simp: still_wanted_def)
  let ?plan = "plan_machine s desired (machine_history st (ms_id s)) frozen now"
  have blocked: "\<not> may_converge s (machine_history st (ms_id s)) frozen now c"
    using g True by (auto simp: given_up_def may_converge_def)
  have fresh: "dk_id c \<notin> dk_id ` set (pl_dispatch ?plan)"
  proof
    assume "dk_id c \<in> dk_id ` set (pl_dispatch ?plan)"
    then obtain x where x: "x \<in> set (pl_dispatch ?plan)" "dk_id x = dk_id c" by auto
    with plan_dispatch_sub have "x \<in> set desired" "may_converge s (machine_history st (ms_id s)) frozen now x" by blast+
    with x d c(1) blocked show False by (metis distinct_map inj_on_eq_iff)
  qed
  show ?thesis
  proof (cases rule: visit_cases [of desired frozen now age s st])
    case same
    with g show ?thesis by simp
  next
    case (kept keep)
    with c have "dk_id c \<in> set keep" using reported_wanted [of s c desired] by simp
    with g kept True show ?thesis by (simp add: given_up_def machine_history_retain attempt_of_filter_kept)
  next
    case (claimed keep d)
    let ?st = "visit_machine desired frozen now age s st"
    from claimed c have "dk_id c \<in> set keep" using reported_wanted [of s c desired] by simp
    then have "attempt_of (machine_history ?st m) c = attempt_of (machine_history st m) c"
      by (simp add: claimed(1) Let_def machine_history_retain attempt_of_filter_kept)
    moreover have "set (cv_tasks ?st) = insert \<lparr>tk_machine = ms_id s, tk_dispatch = d, tk_stage = Claimed\<rparr> (set (cv_tasks st))"
      by (simp add: claimed(1) Let_def)
    ultimately show ?thesis
      using g fresh True unfolding given_up_def claimed(4) by simp
  qed
qed

lemma send_given_up:
  assumes ok: "loop_ok st" and g: "given_up m c st" and i: "i < length (cv_tasks st)"
    and stage: "tk_stage (cv_tasks st ! i) = Claimed"
  shows "given_up m c (send_task i now st)"
proof -
  let ?t = "cv_tasks st ! i"
  have claimed: "t \<in> set (cv_tasks st)" if "t \<in> set (cv_tasks (send_task i now st))" "tk_stage t = Claimed" for t
  proof -
    from that(1) have "t \<in> insert (?t\<lparr>tk_stage := Sent\<rparr>) (set (cv_tasks st))"
      using set_update_subset_insert by (fastforce simp: send_task_def Let_def)
    with that(2) show ?thesis by auto
  qed
  have "map_of (machine_history (send_task i now st) m) (dk_id c) = map_of (machine_history st m) (dk_id c)"
  proof (cases "tk_machine ?t = m")
    case True
    with g i stage have "dk_id c \<notin> dk_id ` set (tk_dispatch ?t)" by (auto simp: given_up_def)
    with True show ?thesis by (simp add: send_task_def Let_def machine_history_record_dispatch foldl_update_other)
  qed (simp add: send_task_def Let_def machine_history_record_dispatch)
  with g claimed show ?thesis by (auto simp: given_up_def attempt_of_def)
qed

lemma settle_has:
  "map_of h i = Some a \<Longrightarrow> \<exists>b. map_of (foldl (\<lambda>h c. settle_entry detail c h) h cs) i = Some b"
proof (induction cs arbitrary: h a)
  case (Cons c cs)
  have "\<exists>b. map_of (settle_entry detail c h) i = Some b"
    using Cons.prems by (auto simp: settle_entry_def update_conv' split: option.split)
  with Cons.IH show ?case by auto
qed simp

lemma answer_given_up:
  assumes g: "given_up m c st"
  shows "given_up m c (answer_task i detail st)"
proof -
  from g obtain a where a: "map_of (machine_history st m) (dk_id c) = Some a" "same_digest (at_digest a) (dk_digest c)" "at_blocked a"
    by (auto simp: given_up_def attempt_of_def split: option.splits if_splits)
  let ?h = "machine_history (answer_task i detail st) m"
  have "?h = machine_history st m
      \<or> ?h = foldl (\<lambda>h c. settle_entry detail c h) (machine_history st m) (tk_dispatch (cv_tasks st ! i))"
    by (auto simp: answer_task_def Let_def machine_history_outcome)
  then have "\<exists>b. map_of ?h (dk_id c) = Some b \<and> same_digest (at_digest b) (dk_digest c) \<and> at_blocked b"
  proof
    assume h: "?h = foldl (\<lambda>h c. settle_entry detail c h) (machine_history st m) (tk_dispatch (cv_tasks st ! i))"
    with settle_has [OF a(1)] obtain b where b: "map_of ?h (dk_id c) = Some b" by metis
    from settle_all_keeps [OF this [unfolded h]] a b show ?thesis by auto
  qed (use a in auto)
  moreover have "set (cv_tasks (answer_task i detail st)) \<subseteq> set (cv_tasks st)"
    by (simp add: answer_task_def Let_def set_remove_nth)
  ultimately show ?thesis using g by (auto simp: given_up_def attempt_of_def)
qed

lemma step_given_up:
  assumes "loop_ok st" "given_up m c st" "still_wanted m c e" "conv_step st e st'"
  shows "given_up m c st'"
  using assms(4,1-3)
proof cases
  case visit
  with assms show ?thesis by (simp add: visit_given_up)
next
  case (revoke m')
  with assms show ?thesis
    by (simp add: still_wanted_def given_up_def machine_history_forget)
qed (simp_all add: send_given_up answer_given_up)

lemma later_given_up:
  "later m c st st' \<Longrightarrow> conv_reach st \<Longrightarrow> given_up m c st \<Longrightarrow> conv_reach st' \<and> given_up m c st'"
proof (induction rule: later.induct)
  case (step st st' e st'')
  then show ?case by (meson conv_reach.step reach_loop_ok step_given_up)
qed simp

lemma fourth_send_gives_up:
  assumes r: "conv_reach st" and t: "i < length (cv_tasks st)" "tk_stage (cv_tasks st ! i) = Claimed"
    and m: "m = tk_machine (cv_tasks st ! i)" and c: "c \<in> set (tk_dispatch (cv_tasks st ! i))" and n: "tries st m c = 3"
  shows "given_up m c (send_task i now st)"
proof -
  have ok: "loop_ok st" using r by (rule reach_loop_ok)
  then have good: "\<forall>a \<in> set_option (map_of (machine_history st m) (dk_id c)). good_entry a"
    by (auto simp: loop_ok_def hist_ok_def)
  have free: "\<forall>a \<in> set_option (attempt_of (machine_history st m) c). \<not> at_blocked a"
    using ok t m c by (auto simp: loop_ok_def tasks_ready_def task_ready_def)
  have "\<exists>a. attempt_of (machine_history (send_task i now st) m) c = Some a \<and> at_blocked a"
    using count_dispatch_counts [OF good free tries_def, of now] map_of_sent [OF ok t c, of now] n
    by (auto simp: attempt_of_def m)
  moreover have "tk_stage u = Sent" if u: "u \<in> set (cv_tasks (send_task i now st))" "tk_machine u = m" for u
  proof -
    have "loop_ok (send_task i now st)" using ok t by (rule send_loop_ok)
    then have d: "distinct (map tk_machine (cv_tasks (send_task i now st)))" by (simp add: loop_ok_def claims_ok_def)
    have sent: "cv_tasks (send_task i now st) ! i = (cv_tasks st ! i)\<lparr>tk_stage := Sent\<rparr>" "i < length (cv_tasks (send_task i now st))"
      using t(1) by (simp_all add: send_task_def Let_def)
    then have "cv_tasks (send_task i now st) ! i \<in> set (cv_tasks (send_task i now st))" by (metis nth_mem)
    with u sent(1) m d have "u = (cv_tasks st ! i)\<lparr>tk_stage := Sent\<rparr>"
      by (metis (no_types, lifting) convergence_task.select_convs(1) convergence_task.surjective
          convergence_task.update_convs(3) distinct_map inj_on_eq_iff)
    then show ?thesis by simp
  qed
  ultimately show ?thesis by (auto simp: given_up_def)
qed

text \<open>C22: A digest that failed its fourth attempt is given up on: as long as the manifest still asks for it, the
  Machine does not run it and is not revoked, no later Reconcile carries the component, whatever reconnects,
  restarts of the loop's pass, answers and other Machines' work come in between.\<close>

theorem given_up_digest_is_never_sent_again:
  assumes "conv_reach st" "i < length (cv_tasks st)" "tk_stage (cv_tasks st ! i) = Claimed"
    and "m = tk_machine (cv_tasks st ! i)" "c \<in> set (tk_dispatch (cv_tasks st ! i))" "tries st m c = 3"
    and "later m c (send_task i now st) st'"
  shows "\<forall>t \<in> set (cv_tasks st'). tk_machine t = m \<and> tk_stage t = Claimed \<longrightarrow> dk_id c \<notin> dk_id ` set (tk_dispatch t)"
proof -
  have "conv_reach (send_task i now st)"
    by (rule conv_reach.step [OF assms(1) _ conv_step.send [OF assms(2,3)]]) (simp add: unraced_def)
  with later_given_up [OF assms(7)] fourth_send_gives_up [OF assms(1-6)] show ?thesis
    by (auto simp: given_up_def)
qed

definition demo_round :: "int \<Rightarrow> convergence \<Rightarrow> convergence" where
  "demo_round now st = visit_machine [demo_component] False (now + 600000) (Some 300) demo_machine
     (answer_task 0 (Some ''timeout'') (send_task 0 now st))"

lemma demo_round_reach:
  assumes "conv_reach st" "0 < length (cv_tasks st)" "tk_stage (cv_tasks st ! 0) = Claimed"
  shows "conv_reach (demo_round now st)"
proof -
  have "conv_reach (send_task 0 now st)"
    by (rule conv_reach.step [OF assms(1) _ conv_step.send [OF assms(2,3)]]) (simp add: unraced_def)
  moreover have "0 < length (cv_tasks (send_task 0 now st))" "tk_stage (cv_tasks (send_task 0 now st) ! 0) = Sent"
    using assms(2) by (simp_all add: send_task_def Let_def)
  ultimately have "conv_reach (answer_task 0 (Some ''timeout'') (send_task 0 now st))"
    by (intro conv_reach.step [OF _ _ conv_step.answer]) (simp_all add: unraced_def)
  then show ?thesis
    unfolding demo_round_def
    by (rule conv_reach.step [OF _ _ conv_step.visit]) (simp_all add: unraced_def)
qed

definition demo_entry :: "nat \<Rightarrow> int \<Rightarrow> attempt" where
  "demo_entry n now = \<lparr>at_digest = dk_digest demo_component, at_attempts = n,
     at_next_attempt_at_ms = i64_add now (60000 * 2 ^ (n - 1)), at_blocked = False, at_acknowledged = False,
     at_detail = Some ''timeout''\<rparr>"

definition demo_state :: "history \<Rightarrow> convergence" where
  "demo_state h = \<lparr>cv_attempts = (if h = [] then [] else [(''m1'', h)]), cv_in_flight = [''m1''],
     cv_tasks = [\<lparr>tk_machine = ''m1'', tk_dispatch = [demo_component], tk_stage = Claimed\<rparr>]\<rparr>"

definition demo_history :: "nat \<Rightarrow> int \<Rightarrow> history" where
  "demo_history n now = (if n = 0 then [] else [(dk_id demo_component, demo_entry n now)])"

lemma demo_sent:
  assumes "n < 3"
  shows "count_dispatch default_policy now demo_component (map_of (demo_history n t) (dk_id demo_component)) =
    (demo_entry (Suc n) now)\<lparr>at_detail := if n = 0 then None else Some ''timeout''\<rparr>"
proof -
  have "millis_i64 (backoff default_policy (Suc n)) = 60000 * 2 ^ n"
    using backoff_default [of "Suc n"] assms by simp
  then show ?thesis
    using assms by (auto simp: demo_history_def demo_entry_def count_dispatch_def Let_def u32_max_def default_policy_def
        attempt_first_def min_def)
qed

lemma demo_round_state:
  assumes "n < 3" "0 \<le> now" "now < 10 ^ 9"
  shows "demo_round now (demo_state (demo_history n t)) = demo_state (demo_history (Suc n) now)"
proof -
  have n: "n = 0 \<or> n = 1 \<or> n = 2" using assms by auto
  have sent: "send_task 0 now (demo_state (demo_history n t)) =
      \<lparr>cv_attempts = [(''m1'', [(dk_id demo_component, (demo_entry (Suc n) now)\<lparr>at_detail := if n = 0 then None else Some ''timeout''\<rparr>)])],
       cv_in_flight = [''m1''], cv_tasks = [\<lparr>tk_machine = ''m1'', tk_dispatch = [demo_component], tk_stage = Sent\<rparr>]\<rparr>"
    using demo_sent [OF assms(1), of now t]
    by (auto simp: send_task_def record_dispatch_def demo_state_def machine_history_def demo_history_def)
  have answered: "answer_task 0 (Some ''timeout'') (send_task 0 now (demo_state (demo_history n t))) =
      \<lparr>cv_attempts = [(''m1'', [(dk_id demo_component, demo_entry (Suc n) now)])], cv_in_flight = [], cv_tasks = []\<rparr>"
    unfolding sent
    by (simp add: answer_task_def record_outcome_def settle_entry_def finish_machine_def demo_entry_def)
  have due: "at_next_attempt_at_ms (demo_entry (Suc n) now) \<le> now + 600000"
    using assms n by (auto simp: demo_entry_def i64_add_def i64_max_def i64_min_def)
  have idle: "converged demo_machine demo_component = False" "installed_of demo_machine demo_component = None"
    by (simp_all add: converged_def installed_of_def demo_machine_def)
  have pending: "judge_component demo_machine [(dk_id demo_component, demo_entry (Suc n) now)] False (now + 600000) demo_component
      = (\<lparr>cc_id = dk_id demo_component, cc_state = Pending, cc_attempts = Suc n, cc_next_attempt_at_ms = None, cc_detail = None\<rparr>, True)"
    using due idle by (simp add: judge_component_def attempt_of_def Let_def) (simp add: demo_entry_def)
  have "dk_automatic demo_component" "ms_id demo_machine = ''m1''" "ms_connected demo_machine"
    by (simp_all add: demo_component_def demo_machine_def)
  then show ?thesis
    unfolding demo_round_def answered
    by (simp add: visit_machine_def is_in_flight_def machine_history_def plan_machine_def Let_def pending idle
        retain_history_def begin_machine_def connection_grace_def demo_state_def demo_history_def)
qed

lemma demo_loop_state: "demo_loop = demo_state (demo_history 0 0)"
  by (simp add: demo_loop_def visit_machine_def is_in_flight_def convergence_new_def machine_history_def demo_machine_def
      plan_machine_def converged_def installed_of_def judge_component_def attempt_of_def Let_def connection_grace_def
      begin_machine_def demo_component_def retain_history_def demo_state_def demo_history_def)

definition demo_fourth :: convergence where
  "demo_fourth = demo_state (demo_history 3 1200000)"

lemma demo_tasks: "cv_tasks (demo_state h) = [\<lparr>tk_machine = ''m1'', tk_dispatch = [demo_component], tk_stage = Claimed\<rparr>]"
  by (simp add: demo_state_def)

lemma demo_fourth_reach: "conv_reach demo_fourth"
proof -
  have next_round: "conv_reach (demo_state (demo_history (Suc n) now))"
    if "conv_reach (demo_state (demo_history n t))" "n < 3" "0 \<le> now" "now < 10 ^ 9" for n t now
    using demo_round_reach [OF that(1), of now] that(2-4) by (simp add: demo_tasks demo_round_state)
  have "conv_reach (demo_state (demo_history (Suc 0) 0))"
    using next_round [of 0 0 0] demo_loop_reach by (simp add: demo_loop_state)
  then have "conv_reach (demo_state (demo_history (Suc (Suc 0)) 600000))" by (rule next_round) simp_all
  then have "conv_reach (demo_state (demo_history (Suc (Suc (Suc 0))) 1200000))" by (rule next_round) simp_all
  then show ?thesis by (simp add: demo_fourth_def numeral_eq_Suc)
qed

theorem given_up_digest_is_never_sent_again_witness:
  "list_all (\<lambda>t. \<not> (tk_machine t = ''m1'' \<and> tk_stage t = Claimed \<and> dk_id demo_component \<in> dk_id ` set (tk_dispatch t)))
     (cv_tasks (send_task 0 1800000 demo_fourth))"
proof -
  have task: "0 < length (cv_tasks demo_fourth)" "tk_stage (cv_tasks demo_fourth ! 0) = Claimed"
    "''m1'' = tk_machine (cv_tasks demo_fourth ! 0)" "demo_component \<in> set (tk_dispatch (cv_tasks demo_fourth ! 0))"
    by (simp_all add: demo_fourth_def demo_tasks)
  have "tries demo_fourth ''m1'' demo_component = 3"
    by (simp add: tries_def demo_fourth_def demo_state_def demo_history_def machine_history_def attempt_of_def)
      (simp add: demo_entry_def)
  from given_up_digest_is_never_sent_again [OF demo_fourth_reach task this later.refl]
  show ?thesis by (auto simp: list_all_iff)
qed

end
