(* ===== verification/Superagent_Patterns.thy ===== *)
theory Superagent_Patterns
  imports Prelude
begin

text \<open>
  The pattern library of supervision (\<^verbatim>\<open>src/src/superagent/patterns.rs\<close>) and the settings that bind it to
  projects and sessions (\<^verbatim>\<open>src/src/superagent.rs\<close>). Documents are Markdown with TOML frontmatter: the TOML
  and JSON decoders and the digest are arguments. A \<open>BTreeMap\<close> is an association list sorted by key. Proved
  here: resolving a profile ends for every library, no profile overrides another silently, and what accepted
  settings guarantee.
\<close>

section \<open>Documents\<close>

record pattern_source =
  sr_revision :: string
  sr_profile :: string
  sr_files :: "(string \<times> string) list"

datatype scope = GlobalScope | WorkspaceScope | ProjectScope

primrec scope_rank :: "scope \<Rightarrow> nat" where
  "scope_rank GlobalScope = 0"
| "scope_rank WorkspaceScope = 1"
| "scope_rank ProjectScope = 2"

record replacement =
  rp_from :: string
  rp_file :: string

record pattern_profile =
  pf_schema :: string
  pf_id :: string
  pf_scope :: scope
  pf_extends :: "string option"
  pf_guidance :: "string list"
  pf_patterns :: "(string \<times> string) list"
  pf_replace :: "(string \<times> replacement) list"
  pf_disable :: "string list"

datatype role = Supervisor | Procedure

record pattern =
  pt_schema :: string
  pt_id :: string
  pt_revision :: nat
  pt_role :: role
  pt_summary :: string
  pt_events :: "string list"
  pt_uses :: "string list"
  pt_effects :: "string list"

record catalog_entry =
  en_origin :: string
  en_digest :: string
  en_metadata :: pattern
  en_body :: string

record catalog =
  ct_digest :: string
  ct_patterns :: "(string \<times> catalog_entry) list"
  ct_guidance :: "(string \<times> string) list"

definition catalog_default :: catalog where
  "catalog_default = \<lparr>ct_digest = [], ct_patterns = [], ct_guidance = []\<rparr>"

definition catalog_complete :: "catalog \<Rightarrow> bool" where
  "catalog_complete c \<longleftrightarrow>
     list_ex (\<lambda>(_, e). pt_role (en_metadata e) = Supervisor) (ct_patterns c)
     \<and> list_all (\<lambda>(_, e). list_all (\<lambda>i.
           case map_of (ct_patterns c) i of None \<Rightarrow> False | Some used \<Rightarrow> pt_role (en_metadata used) = Procedure)
         (pt_uses (en_metadata e))) (ct_patterns c)"

definition superagent_id :: "string \<Rightarrow> bool" where
  "superagent_id i \<longleftrightarrow> i \<noteq> [] \<and> length i \<le> 128 \<and> list_all (\<lambda>c. is_ascii_alnum c \<or> c \<in> set ''-_.'') i"

definition path_ok :: "string \<Rightarrow> bool" where
  "path_ok p \<longleftrightarrow> p \<noteq> [] \<and> length p \<le> 256 \<and> CHR 0x5C \<notin> set p
     \<and> list_all (\<lambda>s. s \<noteq> [] \<and> s \<noteq> ''.'' \<and> s \<noteq> ''..'' \<and> CHR '':'' \<notin> set s) (split_at_char CHR ''/'' [] p)"

text \<open>\<open>split_once\<close>: around the first occurrence of the separator.\<close>

fun split_once :: "string \<Rightarrow> string \<Rightarrow> (string \<times> string) option" where
  "split_once sep [] = (if sep = [] then Some ([], []) else None)"
| "split_once sep (c # s) =
     (if starts_with (c # s) sep then Some ([], drop (length sep) (c # s))
      else map_option (\<lambda>(a, b). (c # a, b)) (split_once sep s))"

definition fence :: string where
  "fence = ''+++'' @ [CHR 0x0A]"

definition parse_document :: "(string \<Rightarrow> 'a option) \<Rightarrow> string \<Rightarrow> string + 'a \<times> string" where
  "parse_document decode text =
     (if \<not> starts_with text fence then Inl ''pattern_frontmatter_required''
      else case split_once (CHR 0x0A # fence) (drop (length fence) text) of
        None \<Rightarrow> Inl ''pattern_frontmatter_required''
      | Some (header, body) \<Rightarrow>
          if 8192 < length header \<or> is_blank body then Inl ''invalid_pattern_document''
          else rbind (ok_or (decode header) ''invalid_pattern_frontmatter'') (\<lambda>v. Inr (v, body)))"

section \<open>Compiling a library\<close>

type_synonym pattern_library = "(string \<times> (pattern_profile \<times> pattern_source)) list"

record decoders =
  dec_profile :: "string \<Rightarrow> pattern_profile option"
  dec_pattern :: "string \<Rightarrow> pattern option"
  dec_digest :: "string \<Rightarrow> string"
  enc_catalog :: "catalog \<Rightarrow> string"

fun check_files :: "nat \<Rightarrow> (string \<times> string) list \<Rightarrow> string + nat" where
  "check_files bytes [] = Inr bytes"
| "check_files bytes ((path, text) # fs) =
     (let bytes = bytes + length text in
      if \<not> path_ok path \<or> 32768 < length text \<or> 524288 < bytes \<or> CHR 0x00 \<in> set text
      then Inl ''pattern_source_limit'' else check_files bytes fs)"

definition check_profile :: "pattern_profile \<Rightarrow> pattern_source \<Rightarrow> string + unit" where
  "check_profile p source =
     (if pf_schema p \<noteq> ''cowboy.pattern-profile/v1'' \<or> \<not> superagent_id (pf_id p)
         \<or> (pf_scope p \<noteq> GlobalScope \<and> pf_guidance p = []) \<or> 16 < length (pf_guidance p)
      then Inl ''invalid_pattern_profile''
      else if list_all (\<lambda>path. case map_of (sr_files source) path of None \<Rightarrow> False | Some s \<Rightarrow> \<not> is_blank s) (pf_guidance p)
      then Inr () else Inl ''pattern_guidance_missing'')"

definition compile_source ::
    "decoders \<Rightarrow> pattern_source \<Rightarrow> nat \<Rightarrow> pattern_library \<Rightarrow> string + nat \<times> pattern_library" where
  "compile_source d source bytes profiles =
     (if sr_revision source = [] \<or> 128 < length (sr_revision source) \<or> 64 < length (sr_files source)
      then Inl ''invalid_pattern_source''
      else rbind (check_files bytes (sr_files source)) (\<lambda>bytes.
           rbind (ok_or (map_of (sr_files source) (sr_profile source)) ''pattern_profile_missing'') (\<lambda>text.
           rbind (parse_document (dec_profile d) text) (\<lambda>(p, _).
           rbind (check_profile p source) (\<lambda>_.
             if map_of profiles (pf_id p) \<noteq> None then Inl ''duplicate_pattern_profile''
             else Inr (bytes, btree_insert (pf_id p) (p, source) profiles))))))"

fun compile_sources ::
    "decoders \<Rightarrow> pattern_source list \<Rightarrow> nat \<Rightarrow> pattern_library \<Rightarrow> string + pattern_library" where
  "compile_sources d [] bytes profiles = Inr profiles"
| "compile_sources d (s # ss) bytes profiles =
     rbind (compile_source d s bytes profiles) (\<lambda>(bytes, profiles). compile_sources d ss bytes profiles)"

section \<open>Resolving a profile\<close>

text \<open>\<open>rsplit_once('/')\<close>, keeping the directory.\<close>

definition dir_of :: "string \<Rightarrow> string" where
  "dir_of path = (if CHR ''/'' \<in> set path then rev (tl (dropWhile (\<lambda>c. c \<noteq> CHR ''/'') (rev path))) else [])"

definition check_pattern :: "string \<Rightarrow> pattern \<Rightarrow> string + unit" where
  "check_pattern key p =
     (if pt_schema p \<noteq> ''cowboy.pattern/v1'' \<or> pt_id p \<noteq> key \<or> \<not> superagent_id key \<or> pt_revision p = 0
         \<or> is_blank (pt_summary p) \<or> 240 < length (pt_summary p) \<or> 8 < length (pt_uses p)
         \<or> list_ex (\<lambda>i. \<not> superagent_id i) (pt_uses p)
         \<or> list_ex (\<lambda>e. e \<noteq> ''turn.completed'') (pt_events p)
         \<or> list_ex (\<lambda>e. e \<noteq> ''session.follow_up'') (pt_effects p)
      then Inl ''invalid_pattern_metadata''
      else if pt_role p = Procedure \<and> (pt_events p \<noteq> [] \<or> pt_effects p \<noteq> [] \<or> pt_uses p \<noteq> [])
      then Inl ''invalid_pattern_procedure''
      else if pt_role p = Supervisor \<and> pt_events p = [] then Inl ''pattern_event_required''
      else Inr ())"

definition pattern_entry ::
    "decoders \<Rightarrow> pattern_profile \<Rightarrow> pattern_source \<Rightarrow> string \<Rightarrow> string \<Rightarrow> string + catalog_entry" where
  "pattern_entry d p source key path =
     (if \<not> path_ok path then Inl ''invalid_pattern_path''
      else let dir = dir_of (sr_profile source);
               path = (if dir = [] then path else dir @ ''/'' @ path)
           in rbind (ok_or (map_of (sr_files source) path) ''pattern_file_missing'') (\<lambda>text.
              rbind (parse_document (dec_pattern d) text) (\<lambda>(pattern, body).
              rbind (check_pattern key pattern) (\<lambda>_.
                Inr \<lparr>en_origin = pf_id p @ ''/'' @ key @ ''@'' @ show_nat (pt_revision pattern),
                     en_digest = dec_digest d text, en_metadata = pattern, en_body = body\<rparr>))))"

text \<open>What one profile does to the catalog of its parent: disable, replace, add. No key is touched twice.\<close>

type_synonym layer = "string list \<times> (string \<times> catalog_entry) list"

fun disable_patterns :: "string list \<Rightarrow> layer \<Rightarrow> string + layer" where
  "disable_patterns [] (touched, pats) = Inr (touched, pats)"
| "disable_patterns (k # ks) (touched, pats) =
     (if k \<in> set touched \<or> map_of pats k = None then Inl ''invalid_pattern_disable''
      else disable_patterns ks (k # touched, adelete k pats))"

fun replace_patterns ::
    "(string \<Rightarrow> string \<Rightarrow> string + catalog_entry) \<Rightarrow> (string \<times> replacement) list \<Rightarrow> layer \<Rightarrow> string + layer" where
  "replace_patterns entry [] (touched, pats) = Inr (touched, pats)"
| "replace_patterns entry ((k, r) # rs) (touched, pats) =
     (if k \<in> set touched \<or> (case map_of pats k of None \<Rightarrow> True | Some old \<Rightarrow> en_origin old \<noteq> rp_from r)
      then Inl ''stale_pattern_replacement''
      else rbind (entry k (rp_file r)) (\<lambda>e. replace_patterns entry rs (k # touched, btree_insert k e pats)))"

fun add_patterns ::
    "(string \<Rightarrow> string \<Rightarrow> string + catalog_entry) \<Rightarrow> (string \<times> string) list \<Rightarrow> layer \<Rightarrow> string + layer" where
  "add_patterns entry [] (touched, pats) = Inr (touched, pats)"
| "add_patterns entry ((k, path) # ps) (touched, pats) =
     (if k \<in> set touched \<or> map_of pats k \<noteq> None then Inl ''implicit_pattern_override''
      else rbind (entry k path) (\<lambda>e. add_patterns entry ps (k # touched, btree_insert k e pats)))"

definition add_guidance :: "string \<Rightarrow> pattern_profile \<Rightarrow> pattern_source \<Rightarrow> (string \<times> string) list \<Rightarrow> (string \<times> string) list" where
  "add_guidance i p source guidance =
     foldl (\<lambda>g path. btree_insert (i @ ''/'' @ path) (the (map_of (sr_files source) path)) g) guidance (pf_guidance p)"

definition apply_layer :: "decoders \<Rightarrow> string \<Rightarrow> pattern_profile \<Rightarrow> pattern_source \<Rightarrow> catalog \<Rightarrow> string + catalog" where
  "apply_layer d i p source c =
     rbind (disable_patterns (pf_disable p) ([], ct_patterns c)) (\<lambda>l.
     rbind (replace_patterns (pattern_entry d p source) (pf_replace p) l) (\<lambda>l.
     rbind (add_patterns (pattern_entry d p source) (pf_patterns p) l) (\<lambda>(_, pats).
       Inr (c\<lparr>ct_patterns := pats, ct_guidance := add_guidance i p source (ct_guidance c)\<rparr>))))"

text \<open>The recursion adds an id of the library to the ids seen, so it ends.\<close>

function walk :: "decoders \<Rightarrow> pattern_library \<Rightarrow> string list \<Rightarrow> string \<Rightarrow> string + catalog" where
  "walk d lib seen i =
     (if i \<in> set seen then Inl ''pattern_profile_cycle''
      else case map_of lib i of
        None \<Rightarrow> Inl ''pattern_profile_missing''
      | Some (p, source) \<Rightarrow>
          rbind (case pf_extends p of
              Some parent \<Rightarrow>
                (case map_of lib parent of
                   None \<Rightarrow> Inl ''pattern_parent_missing''
                 | Some (q, _) \<Rightarrow>
                     if scope_rank (pf_scope p) \<le> scope_rank (pf_scope q) then Inl ''invalid_pattern_scope_chain''
                     else walk d lib (i # seen) parent)
            | None \<Rightarrow> if pf_scope p \<noteq> GlobalScope then Inl ''pattern_parent_required'' else Inr catalog_default)
            (apply_layer d i p source))"
  by pat_completeness auto

termination
proof (relation "measure (\<lambda>(d, lib, seen, i). card (fst ` set lib - set seen))", goal_cases)
  case (2 d lib seen i ps p source parent qs q r)
  then have "i \<in> fst ` set lib - set seen" by (force dest: map_of_SomeD)
  then have "fst ` set lib - set (i # seen) \<subset> fst ` set lib - set seen" by auto
  then show ?case by (simp add: psubset_card_mono)
qed simp

declare walk.simps [simp del]

definition resolve_profile :: "decoders \<Rightarrow> pattern_library \<Rightarrow> string \<Rightarrow> string + catalog" where
  "resolve_profile d lib i =
     rbind (walk d lib [] i) (\<lambda>c. Inr (c\<lparr>ct_digest := dec_digest d (enc_catalog d c)\<rparr>))"

fun resolve_all :: "decoders \<Rightarrow> pattern_library \<Rightarrow> string list \<Rightarrow> string + unit" where
  "resolve_all d lib [] = Inr ()"
| "resolve_all d lib (i # is) = rbind (resolve_profile d lib i) (\<lambda>_. resolve_all d lib is)"

definition compile_library :: "decoders \<Rightarrow> pattern_source list \<Rightarrow> string + pattern_library" where
  "compile_library d sources =
     rbind (compile_sources d sources 0 []) (\<lambda>lib. rbind (resolve_all d lib (map fst lib)) (\<lambda>_. Inr lib))"

section \<open>Resolution ends\<close>

text \<open>A profile's parent is in the library under a smaller scope, so a chain holds at most three profiles and
  never returns to one of them.\<close>

definition scope_of :: "pattern_library \<Rightarrow> string \<Rightarrow> nat option" where
  "scope_of lib i = map_option (\<lambda>(p, _). scope_rank (pf_scope p)) (map_of lib i)"

lemma check_pattern_errors: "check_pattern k p \<noteq> Inl ''pattern_profile_cycle''"
  by (simp add: check_pattern_def)

lemma parse_document_errors: "parse_document dec text \<noteq> Inl ''pattern_profile_cycle''"
  by (auto simp: parse_document_def rbind_Inl_iff ok_or_def split: option.splits)

lemma pattern_entry_errors: "pattern_entry d p source key path \<noteq> Inl ''pattern_profile_cycle''"
  by (auto simp: pattern_entry_def Let_def rbind_Inl_iff ok_or_def parse_document_errors check_pattern_errors
      split: option.splits)

lemma layer_errors:
  "disable_patterns ks l \<noteq> Inl ''pattern_profile_cycle''"
  "replace_patterns (pattern_entry d p source) rs l \<noteq> Inl ''pattern_profile_cycle''"
  "add_patterns (pattern_entry d p source) ps l \<noteq> Inl ''pattern_profile_cycle''"
proof -
  show "disable_patterns ks l \<noteq> Inl ''pattern_profile_cycle''"
    by (induction ks l rule: disable_patterns.induct) auto
  show "replace_patterns (pattern_entry d p source) rs l \<noteq> Inl ''pattern_profile_cycle''"
    by (induction "pattern_entry d p source" rs l rule: replace_patterns.induct) (auto simp: rbind_Inl_iff pattern_entry_errors)
  show "add_patterns (pattern_entry d p source) ps l \<noteq> Inl ''pattern_profile_cycle''"
    by (induction "pattern_entry d p source" ps l rule: add_patterns.induct) (auto simp: rbind_Inl_iff pattern_entry_errors)
qed

lemma apply_layer_errors: "apply_layer d i p source c \<noteq> Inl ''pattern_profile_cycle''"
  by (auto simp: apply_layer_def rbind_Inl_iff layer_errors)

lemma walk_never_cycles:
  assumes "\<forall>j \<in> set seen. \<exists>n. scope_of lib j = Some n \<and> (\<forall>m. scope_of lib i = Some m \<longrightarrow> m < n)"
  shows "walk d lib seen i \<noteq> Inl ''pattern_profile_cycle''"
  using assms
proof (induction d lib seen i rule: walk.induct)
  case (1 d lib seen i)
  have fresh: "i \<notin> set seen" using "1.prems" by force
  show ?case
  proof
    assume cycle: "walk d lib seen i = Inl ''pattern_profile_cycle''"
    then obtain p source parent q r where i: "map_of lib i = Some (p, source)" and e: "pf_extends p = Some parent"
      and q: "map_of lib parent = Some (q, r)" and less: "scope_rank (pf_scope q) < scope_rank (pf_scope p)"
      and up: "walk d lib (i # seen) parent = Inl ''pattern_profile_cycle''"
      using fresh
      by (subst (asm) walk.simps)
        (auto simp: rbind_Inl_iff apply_layer_errors not_le split: option.splits if_splits prod.splits)
    have "\<forall>j \<in> set (i # seen). \<exists>n. scope_of lib j = Some n \<and> (\<forall>m. scope_of lib parent = Some m \<longrightarrow> m < n)"
      using "1.prems" less i q by (fastforce simp: scope_of_def)
    with "1.IH" fresh i e q less up show False by fastforce
  qed
qed

text \<open>C38: Resolving a profile ends for every library and never reports a cycle: a chain of parents climbs strictly
  through project, workspace and global scope before it could return to a profile of its own.\<close>

theorem resolving_a_profile_never_cycles:
  "resolve_profile d lib i \<noteq> Inl ''pattern_profile_cycle''"
  using walk_never_cycles [of "[]" lib i d] by (auto simp: resolve_profile_def rbind_Inl_iff)

section \<open>Overriding is explicit\<close>

lemma disable_result:
  "disable_patterns ks (T, pats) = Inr (T', pats')
     \<Longrightarrow> set T' = set ks \<union> set T \<and> set ks \<inter> set T = {}
       \<and> (\<forall>k. map_of pats' k = (if k \<in> set ks then None else map_of pats k))
       \<and> (\<forall>k \<in> set ks. map_of pats k \<noteq> None)"
proof (induction ks arbitrary: T pats)
  case (Cons k ks)
  then have ok: "k \<notin> set T" "map_of pats k \<noteq> None" "disable_patterns ks (k # T, adelete k pats) = Inr (T', pats')"
    by (auto split: if_splits)
  from Cons.IH [OF ok(3)] ok(1,2) show ?case by (auto split: if_splits)
qed simp

lemma replace_result:
  "replace_patterns entry rs (T, pats) = Inr (T', pats')
     \<Longrightarrow> set T' = fst ` set rs \<union> set T \<and> fst ` set rs \<inter> set T = {} \<and> distinct (map fst rs)
       \<and> (\<forall>k. case map_of rs k of
              None \<Rightarrow> map_of pats' k = map_of pats k
            | Some r \<Rightarrow> \<exists>e old. entry k (rp_file r) = Inr e \<and> map_of pats' k = Some e
                \<and> map_of pats k = Some old \<and> en_origin old = rp_from r)"
proof (induction rs arbitrary: T pats)
  case (Cons kr rs)
  obtain k r where kr: "kr = (k, r)" by fastforce
  with Cons.prems obtain e old where ok: "k \<notin> set T" "map_of pats k = Some old" "en_origin old = rp_from r"
      "entry k (rp_file r) = Inr e" "replace_patterns entry rs (k # T, btree_insert k e pats) = Inr (T', pats')"
    by (cases "entry k (rp_file r)") (auto split: if_splits option.splits)
  note ih = Cons.IH [OF ok(5)]
  note at = ih [THEN conjunct2, THEN conjunct2, THEN conjunct2, THEN spec]
  from ih have fresh: "map_of rs k = None" by (auto simp: map_of_eq_None_iff)
  have rest: "case map_of (kr # rs) x of
      None \<Rightarrow> map_of pats' x = map_of pats x
    | Some r \<Rightarrow> \<exists>e old. entry x (rp_file r) = Inr e \<and> map_of pats' x = Some e
        \<and> map_of pats x = Some old \<and> en_origin old = rp_from r" for x
  proof (cases "x = k")
    case True
    with at [of k] fresh ok kr show ?thesis by simp
  next
    case False
    with at [of x] kr show ?thesis by (simp split: option.splits)
  qed
  show ?case using ih rest ok(1) kr by auto
qed simp

lemma add_result:
  "add_patterns entry ps (T, pats) = Inr (T', pats')
     \<Longrightarrow> fst ` set ps \<inter> set T = {} \<and> distinct (map fst ps)
       \<and> (\<forall>k. case map_of ps k of
              None \<Rightarrow> map_of pats' k = map_of pats k
            | Some path \<Rightarrow> \<exists>e. entry k path = Inr e \<and> map_of pats' k = Some e \<and> map_of pats k = None)"
proof (induction ps arbitrary: T pats)
  case (Cons kp ps)
  obtain k path where kp: "kp = (k, path)" by fastforce
  with Cons.prems obtain e where ok: "k \<notin> set T" "map_of pats k = None"
      "entry k path = Inr e" "add_patterns entry ps (k # T, btree_insert k e pats) = Inr (T', pats')"
    by (cases "entry k path") (auto split: if_splits option.splits)
  note ih = Cons.IH [OF ok(4)]
  note at = ih [THEN conjunct2, THEN conjunct2, THEN spec]
  from ih have fresh: "map_of ps k = None" by (auto simp: map_of_eq_None_iff)
  have rest: "case map_of (kp # ps) x of
      None \<Rightarrow> map_of pats' x = map_of pats x
    | Some path \<Rightarrow> \<exists>e. entry x path = Inr e \<and> map_of pats' x = Some e \<and> map_of pats x = None" for x
  proof (cases "x = k")
    case True
    with at [of k] fresh ok kp show ?thesis by simp
  next
    case False
    with at [of x] kp show ?thesis by (simp split: option.splits)
  qed
  show ?case using ih rest ok(1) kp by auto
qed simp

lemma walk_unfolds:
  assumes "walk d lib seen i = Inr c" and "map_of lib i = Some (p, source)"
  shows "\<exists>base. (case pf_extends p of
             Some parent \<Rightarrow> walk d lib (i # seen) parent = Inr base
           | None \<Rightarrow> base = catalog_default \<and> pf_scope p = GlobalScope)
         \<and> apply_layer d i p source base = Inr c"
  using assms
  by (subst (asm) walk.simps) (auto split: option.splits if_splits prod.splits sum.splits)

text \<open>What a profile may do to the entry of one key of its parent's catalog, and where its new entry comes from.\<close>

definition explicit_change ::
    "decoders \<Rightarrow> pattern_profile \<Rightarrow> pattern_source \<Rightarrow> catalog \<Rightarrow> catalog \<Rightarrow> string \<Rightarrow> bool" where
  "explicit_change d p source base c k \<longleftrightarrow>
     (if k \<in> set (pf_disable p)
          then map_of (ct_patterns c) k = None \<and> map_of (ct_patterns base) k \<noteq> None
          else case map_of (pf_replace p) k of
            Some r \<Rightarrow> (\<exists>e old. pattern_entry d p source k (rp_file r) = Inr e \<and> map_of (ct_patterns c) k = Some e
                       \<and> map_of (ct_patterns base) k = Some old \<and> en_origin old = rp_from r)
          | None \<Rightarrow>
              (case map_of (pf_patterns p) k of
                 Some path \<Rightarrow> (\<exists>e. pattern_entry d p source k path = Inr e \<and> map_of (ct_patterns c) k = Some e
                               \<and> map_of (ct_patterns base) k = None)
               | None \<Rightarrow> map_of (ct_patterns c) k = map_of (ct_patterns base) k))"

lemma apply_layer_result:
  assumes "apply_layer d i p source base = Inr c"
  shows "explicit_change d p source base c k"
proof -
  from assms obtain T1 P1 T2 P2 T3 where
      dis: "disable_patterns (pf_disable p) ([], ct_patterns base) = Inr (T1, P1)"
    and rep: "replace_patterns (pattern_entry d p source) (pf_replace p) (T1, P1) = Inr (T2, P2)"
    and add: "add_patterns (pattern_entry d p source) (pf_patterns p) (T2, P2) = Inr (T3, ct_patterns c)"
    by (auto simp: apply_layer_def split: sum.splits)
  note D = disable_result [OF dis] and R = replace_result [OF rep] and A = add_result [OF add]
  note Rk = R [THEN conjunct2, THEN conjunct2, THEN conjunct2, THEN spec, of k]
    and Ak = A [THEN conjunct2, THEN conjunct2, THEN spec, of k]
  have apart: "k \<in> set (pf_disable p) \<Longrightarrow> map_of (pf_replace p) k = None \<and> map_of (pf_patterns p) k = None"
    "map_of (pf_replace p) k \<noteq> None \<Longrightarrow> map_of (pf_patterns p) k = None"
    using D R A by (auto simp: map_of_eq_None_iff dest: map_of_SomeD)
  show ?thesis
  proof (cases "k \<in> set (pf_disable p)")
    case True
    with apart(1) Rk Ak D show ?thesis by (simp add: explicit_change_def)
  next
    case False
    then have base: "map_of P1 k = map_of (ct_patterns base) k" using D by simp
    show ?thesis
    proof (cases "map_of (pf_replace p) k")
      case None
      with False Rk Ak base show ?thesis by (simp add: explicit_change_def split: option.splits)
    next
      case (Some r)
      with False Rk Ak base apart(2) show ?thesis by (simp add: explicit_change_def)
    qed
  qed
qed

text \<open>A profile changes its parent's catalog only explicitly: a key it disables was there and is gone, a key it
  replaces carried exactly the origin it names, a key it adds was free, and every other key keeps the parent's
  entry. No pattern is overridden by accident.\<close>

theorem overriding_is_explicit:
  assumes "walk d lib seen i = Inr c" and "map_of lib i = Some (p, source)"
  shows "\<exists>base. (case pf_extends p of
             Some parent \<Rightarrow> walk d lib (i # seen) parent = Inr base
           | None \<Rightarrow> base = catalog_default \<and> pf_scope p = GlobalScope)
     \<and> (\<forall>k. explicit_change d p source base c k)"
  using walk_unfolds [OF assms] apply_layer_result by blast

text \<open>A global profile with one procedure, which a workspace profile replaces.\<close>

definition demo_pattern :: pattern where
  "demo_pattern = \<lparr>pt_schema = ''cowboy.pattern/v1'', pt_id = ''k'', pt_revision = 1, pt_role = Procedure,
     pt_summary = ''s'', pt_events = [], pt_uses = [], pt_effects = []\<rparr>"

definition demo_decoders :: decoders where
  "demo_decoders = \<lparr>dec_profile = (\<lambda>_. None), dec_pattern = (\<lambda>_. Some demo_pattern), dec_digest = (\<lambda>s. s),
     enc_catalog = (\<lambda>_. [])\<rparr>"

definition demo_text :: string where
  "demo_text = fence @ ''x'' @ CHR 0x0A # fence @ ''b''"

definition demo_source :: pattern_source where
  "demo_source = \<lparr>sr_revision = ''r'', sr_profile = ''p.md'', sr_files = [(''k.md'', demo_text)]\<rparr>"

definition demo_global :: pattern_profile where
  "demo_global = \<lparr>pf_schema = [], pf_id = ''g'', pf_scope = GlobalScope, pf_extends = None, pf_guidance = [],
     pf_patterns = [(''k'', ''k.md'')], pf_replace = [], pf_disable = []\<rparr>"

definition demo_workspace :: pattern_profile where
  "demo_workspace = \<lparr>pf_schema = [], pf_id = ''w'', pf_scope = WorkspaceScope, pf_extends = Some ''g'', pf_guidance = [],
     pf_patterns = [], pf_replace = [(''k'', \<lparr>rp_from = ''g/k@1'', rp_file = ''k.md''\<rparr>)], pf_disable = []\<rparr>"

definition demo_library :: pattern_library where
  "demo_library = [(''g'', (demo_global, demo_source)), (''w'', (demo_workspace, demo_source))]"

definition demo_entry_of :: "string \<Rightarrow> catalog_entry" where
  "demo_entry_of origin = \<lparr>en_origin = origin, en_digest = demo_text, en_metadata = demo_pattern, en_body = ''b''\<rparr>"

lemma demo_blank: "is_blank ''b'' = False" "is_blank ''s'' = False"
  by code_simp+

lemma demo_pattern_path: "path_ok ''k.md''"
  by (simp add: path_ok_def)

lemma demo_parse: "parse_document (\<lambda>_. Some demo_pattern) demo_text = Inr (demo_pattern, ''b'')"
  by (simp add: parse_document_def demo_text_def fence_def starts_with_def demo_blank ok_or_def)

lemma demo_check: "check_pattern ''k'' demo_pattern = Inr ()" "show_nat (pt_revision demo_pattern) = ''1''"
  by (simp add: check_pattern_def demo_pattern_def demo_blank superagent_id_def is_ascii_alnum_def byte_of_def)
    code_simp

lemma demo_pattern_entry:
  "pattern_entry demo_decoders p demo_source ''k'' ''k.md'' = Inr (demo_entry_of (pf_id p @ ''/k@1''))"
  by (simp add: pattern_entry_def demo_pattern_path demo_source_def dir_of_def ok_or_def demo_decoders_def demo_parse
      demo_check demo_entry_of_def)

definition demo_catalog :: "string \<Rightarrow> catalog" where
  "demo_catalog origin = \<lparr>ct_digest = [], ct_patterns = [(''k'', demo_entry_of origin)], ct_guidance = []\<rparr>"

lemma demo_walk_global: "walk demo_decoders demo_library [''w''] ''g'' = Inr (demo_catalog ''g/k@1'')"
  by (subst walk.simps)
    (simp add: demo_library_def demo_global_def apply_layer_def demo_pattern_entry catalog_default_def add_guidance_def
      demo_catalog_def)

lemma demo_walk: "walk demo_decoders demo_library [] ''w'' = Inr (demo_catalog ''w/k@1'')"
proof -
  have lib: "map_of demo_library ''w'' = Some (demo_workspace, demo_source)"
    "map_of demo_library ''g'' = Some (demo_global, demo_source)"
    by (simp_all add: demo_library_def)
  show ?thesis
    by (subst walk.simps)
      (simp add: lib demo_walk_global demo_workspace_def demo_global_def apply_layer_def demo_pattern_entry
        add_guidance_def demo_catalog_def, simp add: demo_entry_of_def)
qed

theorem overriding_is_explicit_witness:
  "explicit_change demo_decoders demo_workspace demo_source (demo_catalog ''g/k@1'') (demo_catalog ''w/k@1'') ''k''"
proof -
  have w: "map_of demo_library ''w'' = Some (demo_workspace, demo_source)" by (simp add: demo_library_def)
  from overriding_is_explicit [OF demo_walk w] show ?thesis
    using demo_walk_global by (auto simp: demo_workspace_def)
qed

end
