(* ===== verification/Superagent_Settings.thy ===== *)
theory Superagent_Settings
  imports Superagent_Patterns
begin

text \<open>
  The owner's supervision settings (\<^verbatim>\<open>src/src/superagent.rs\<close>): which pattern profile and coordinator a project
  has, which sessions take part, how they are validated and patched, and what a session's participation
  amounts to. Proved here: what accepted settings guarantee to the dispatcher that reads them.
\<close>

datatype supervision_mode = ModeOff | Observe | Coordinate

datatype preset = AstraMax | FableMax

record project =
  pj_profile :: string
  pj_coordinator :: string
  pj_mode :: supervision_mode
  pj_preset :: preset
  pj_max_followups :: nat
  pj_learning :: bool

record participation =
  pa_project :: string
  pa_mode :: "supervision_mode option"
  pa_mandate :: string

record settings =
  st_sources :: "pattern_source list"
  st_projects :: "(string \<times> project) list"
  st_sessions :: "(string \<times> participation) list"

definition default_limit :: nat where
  "default_limit = 2"

definition effective :: "settings \<Rightarrow> string \<Rightarrow> (participation \<times> project \<times> supervision_mode) option" where
  "effective s session =
     (case map_of (st_sessions s) session of
        None \<Rightarrow> None
      | Some pa \<Rightarrow>
          (case map_of (st_projects s) (pa_project pa) of
             None \<Rightarrow> None
           | Some pj \<Rightarrow> Some (pa, pj, case pa_mode pa of None \<Rightarrow> pj_mode pj | Some m \<Rightarrow> m)))"

definition coordinator_of :: "settings \<Rightarrow> string \<Rightarrow> (string \<times> project) option" where
  "coordinator_of s session = find (\<lambda>(_, p). pj_coordinator p = session) (st_projects s)"

fun check_projects ::
    "decoders \<Rightarrow> pattern_library \<Rightarrow> settings \<Rightarrow> string list \<Rightarrow> (string \<times> project) list \<Rightarrow> string + unit" where
  "check_projects d lib s coordinators [] = Inr ()"
| "check_projects d lib s coordinators ((i, p) # ps) =
     (if \<not> superagent_id i \<or> \<not> superagent_id (pj_coordinator p)
         \<or> \<not> (1 \<le> pj_max_followups p \<and> pj_max_followups p \<le> 5)
         \<or> pj_coordinator p \<in> set coordinators
         \<or> map_of (st_sessions s) (pj_coordinator p) \<noteq> None
      then Inl ''invalid_superagent_project''
      else rbind (resolve_profile d lib (pj_profile p)) (\<lambda>catalog.
        if pj_mode p = Coordinate \<and> \<not> catalog_complete catalog then Inl ''superagent_procedure_missing''
        else check_projects d lib s (pj_coordinator p # coordinators) ps))"

fun check_sessions ::
    "decoders \<Rightarrow> pattern_library \<Rightarrow> settings \<Rightarrow> (string \<times> participation) list \<Rightarrow> string + unit" where
  "check_sessions d lib s [] = Inr ()"
| "check_sessions d lib s ((i, pa) # ss) =
     (if \<not> superagent_id i \<or> map_of (st_projects s) (pa_project pa) = None \<or> 2000 < length (pa_mandate pa)
      then Inl ''invalid_superagent_participation''
      else if (case effective s i of None \<Rightarrow> False | Some (_, _, mode) \<Rightarrow> mode = Coordinate)
      then if is_blank (pa_mandate pa) then Inl ''superagent_mandate_required''
        else rbind (resolve_profile d lib (pj_profile (the (map_of (st_projects s) (pa_project pa))))) (\<lambda>catalog.
          if \<not> catalog_complete catalog then Inl ''superagent_procedure_missing'' else check_sessions d lib s ss)
      else check_sessions d lib s ss)"

definition validate_settings :: "decoders \<Rightarrow> settings \<Rightarrow> string + unit" where
  "validate_settings d s =
     (if 32 < length (st_sources s) \<or> 64 < length (st_projects s) \<or> 512 < length (st_sessions s)
      then Inl ''superagent_settings_limit''
      else rbind (compile_library d (st_sources s)) (\<lambda>lib.
           rbind (check_projects d lib s [] (st_projects s)) (\<lambda>_.
             check_sessions d lib s (st_sessions s))))"

section \<open>Patching\<close>

definition patch_shape :: "json \<Rightarrow> bool" where
  "patch_shape changes =
     (case changes of
        JObj kvs \<Rightarrow> length kvs = 1
          \<and> (case map_of kvs ''configuration'' of
               Some (JObj edits) \<Rightarrow> edits \<noteq> []
                 \<and> list_all (\<lambda>(k, _). k \<in> {''sources'', ''projects'', ''sessions''}) edits
             | _ \<Rightarrow> False)
      | _ \<Rightarrow> False)"

definition patch_value :: "decoders \<Rightarrow> (json \<Rightarrow> settings option) \<Rightarrow> json \<Rightarrow> json \<Rightarrow> string + settings" where
  "patch_value d decode current changes =
     (if \<not> patch_shape changes then Inl ''invalid_superagent_settings''
      else case (current, changes) of
        (JObj now, JObj outer) \<Rightarrow>
          (case map_of outer ''configuration'' of
             Some (JObj edits) \<Rightarrow>
               rbind (ok_or (decode (JObj (foldl (\<lambda>m (k, v). btree_insert k v m) now edits))) ''invalid_superagent_settings'')
                 (\<lambda>next. rbind (validate_settings d next) (\<lambda>_. Inr next))
           | _ \<Rightarrow> Inl ''invalid_superagent_settings'')
      | _ \<Rightarrow> Inl ''invalid_superagent_settings'')"

section \<open>What accepted settings guarantee\<close>

lemma check_projects_ok:
  "check_projects d lib s coordinators ps = Inr () \<Longrightarrow>
     distinct (map (pj_coordinator \<circ> snd) ps) \<and> set (map (pj_coordinator \<circ> snd) ps) \<inter> set coordinators = {}
     \<and> (\<forall>(i, p) \<in> set ps. 1 \<le> pj_max_followups p \<and> pj_max_followups p \<le> 5
          \<and> map_of (st_sessions s) (pj_coordinator p) = None
          \<and> (\<exists>c. resolve_profile d lib (pj_profile p) = Inr c \<and> (pj_mode p = Coordinate \<longrightarrow> catalog_complete c)))"
proof (induction ps arbitrary: coordinators)
  case (Cons ip ps)
  obtain i p where ip: "ip = (i, p)" by fastforce
  with Cons.prems obtain c where ok: "1 \<le> pj_max_followups p" "pj_max_followups p \<le> 5"
      "pj_coordinator p \<notin> set coordinators" "map_of (st_sessions s) (pj_coordinator p) = None"
      "resolve_profile d lib (pj_profile p) = Inr c" "pj_mode p = Coordinate \<longrightarrow> catalog_complete c"
      "check_projects d lib s (pj_coordinator p # coordinators) ps = Inr ()"
    by (cases "resolve_profile d lib (pj_profile p)") (auto split: if_splits)
  from Cons.IH [OF ok(7)] ok(1-6) show ?case by (auto simp: ip)
qed simp

lemma check_sessions_ok:
  "check_sessions d lib s ss = Inr () \<Longrightarrow> (i, pa) \<in> set ss \<Longrightarrow>
     map_of (st_projects s) (pa_project pa) \<noteq> None
     \<and> ((\<exists>x y. effective s i = Some (x, y, Coordinate)) \<longrightarrow>
          \<not> is_blank (pa_mandate pa)
          \<and> (\<exists>c. resolve_profile d lib (pj_profile (the (map_of (st_projects s) (pa_project pa)))) = Inr c
               \<and> catalog_complete c))"
proof (induction ss)
  case (Cons jb ss)
  obtain j b where jb: "jb = (j, b)" by fastforce
  from Cons.prems(1) have rest: "check_sessions d lib s ss = Inr ()"
    by (cases "resolve_profile d lib (pj_profile (the (map_of (st_projects s) (pa_project b))))")
      (auto simp: jb split: if_splits option.splits)
  show ?case
  proof (cases "(i, pa) \<in> set ss")
    case True
    with Cons.IH [OF rest] show ?thesis by blast
  next
    case False
    with Cons.prems jb have eq: "j = i" "b = pa" by auto
    show ?thesis
      using Cons.prems(1)
      by (cases "resolve_profile d lib (pj_profile (the (map_of (st_projects s) (pa_project pa))))")
        (auto simp: jb eq split: if_splits)
  qed
qed simp

text \<open>C25: Accepted settings are safe to dispatch from: no two projects share a coordinator, no coordinator is itself
  supervised, every project allows one to five follow-ups and resolves its profile, and a session under
  coordination has a mandate and a project whose catalog has every procedure it uses.\<close>

theorem accepted_settings_are_dispatchable:
  assumes "validate_settings d s = Inr ()"
  shows "\<exists>lib. compile_library d (st_sources s) = Inr lib
     \<and> distinct (map (pj_coordinator \<circ> snd) (st_projects s))
     \<and> (\<forall>(i, p) \<in> set (st_projects s). 1 \<le> pj_max_followups p \<and> pj_max_followups p \<le> 5
          \<and> effective s (pj_coordinator p) = None \<and> (\<exists>c. resolve_profile d lib (pj_profile p) = Inr c))
     \<and> (\<forall>i pa pj. effective s i = Some (pa, pj, Coordinate) \<longrightarrow>
          \<not> is_blank (pa_mandate pa) \<and> pj_coordinator pj \<noteq> i
          \<and> (\<exists>c. resolve_profile d lib (pj_profile pj) = Inr c \<and> catalog_complete c))"
proof -
  from assms obtain lib where lib: "compile_library d (st_sources s) = Inr lib"
    and projects: "check_projects d lib s [] (st_projects s) = Inr ()"
    and sessions: "check_sessions d lib s (st_sessions s) = Inr ()"
    by (auto simp: validate_settings_def split: if_splits sum.splits)
  note P = check_projects_ok [OF projects]
  have coordinated: "\<not> is_blank (pa_mandate pa) \<and> pj_coordinator pj \<noteq> i
      \<and> (\<exists>c. resolve_profile d lib (pj_profile pj) = Inr c \<and> catalog_complete c)"
    if e: "effective s i = Some (pa, pj, Coordinate)" for i pa pj
  proof -
    from e have at: "map_of (st_sessions s) i = Some pa" "map_of (st_projects s) (pa_project pa) = Some pj"
      by (auto simp: effective_def split: option.splits)
    from map_of_SomeD [OF at(1)] check_sessions_ok [OF sessions] e at(2)
    have "\<not> is_blank (pa_mandate pa) \<and> (\<exists>c. resolve_profile d lib (pj_profile pj) = Inr c \<and> catalog_complete c)"
      by fastforce
    moreover have "pj_coordinator pj \<noteq> i"
      using P map_of_SomeD [OF at(2)] at(1) by fastforce
    ultimately show ?thesis by blast
  qed
  have "\<forall>(i, p) \<in> set (st_projects s). 1 \<le> pj_max_followups p \<and> pj_max_followups p \<le> 5
      \<and> effective s (pj_coordinator p) = None \<and> (\<exists>c. resolve_profile d lib (pj_profile p) = Inr c)"
    using P by (fastforce simp: effective_def)
  with lib P coordinated show ?thesis by auto
qed

text \<open>One global profile with a supervisor, one project it coordinates and one session under it.\<close>

definition demo_supervisor :: pattern where
  "demo_supervisor = demo_pattern\<lparr>pt_role := Supervisor, pt_events := [''turn.completed'']\<rparr>"

definition demo_profile :: pattern_profile where
  "demo_profile = demo_global\<lparr>pf_schema := ''cowboy.pattern-profile/v1''\<rparr>"

definition demo_dec :: decoders where
  "demo_dec = \<lparr>dec_profile = (\<lambda>_. Some demo_profile), dec_pattern = (\<lambda>_. Some demo_supervisor), dec_digest = (\<lambda>s. s),
     enc_catalog = (\<lambda>_. [])\<rparr>"

definition demo_src :: pattern_source where
  "demo_src = \<lparr>sr_revision = ''r'', sr_profile = ''p.md'', sr_files = [(''k.md'', demo_text), (''p.md'', demo_text)]\<rparr>"

definition demo_settings :: settings where
  "demo_settings = \<lparr>st_sources = [demo_src],
     st_projects = [(''p'', \<lparr>pj_profile = ''g'', pj_coordinator = ''c'', pj_mode = Coordinate, pj_preset = AstraMax,
                      pj_max_followups = 2, pj_learning = False\<rparr>)],
     st_sessions = [(''w'', \<lparr>pa_project = ''p'', pa_mode = None, pa_mandate = ''b''\<rparr>)]\<rparr>"

lemma demo_parse_any: "parse_document (\<lambda>_. Some x) demo_text = Inr (x, ''b'')"
  by (simp add: parse_document_def demo_text_def fence_def starts_with_def demo_blank ok_or_def)

lemma demo_check_supervisor: "check_pattern ''k'' demo_supervisor = Inr ()"
  by (simp add: check_pattern_def demo_supervisor_def demo_pattern_def demo_blank superagent_id_def is_ascii_alnum_def
      byte_of_def)

lemma demo_supervisor_entry:
  "\<exists>e. pattern_entry demo_dec p demo_src ''k'' ''k.md'' = Inr e \<and> en_metadata e = demo_supervisor"
  by (simp add: pattern_entry_def demo_pattern_path demo_src_def dir_of_def ok_or_def demo_dec_def demo_parse_any demo_check_supervisor)

lemma demo_resolve:
  "\<exists>c. resolve_profile demo_dec [(''g'', (demo_profile, demo_src))] ''g'' = Inr c \<and> catalog_complete c"
proof -
  obtain e where e: "pattern_entry demo_dec demo_profile demo_src ''k'' ''k.md'' = Inr e" "en_metadata e = demo_supervisor"
    using demo_supervisor_entry by blast
  have "walk demo_dec [(''g'', (demo_profile, demo_src))] [] ''g'' =
      Inr \<lparr>ct_digest = [], ct_patterns = [(''k'', e)], ct_guidance = []\<rparr>"
    using e(1) by (subst walk.simps)
      (simp add: apply_layer_def catalog_default_def add_guidance_def demo_profile_def demo_global_def)
  then show ?thesis
    using e(2) by (simp add: resolve_profile_def catalog_complete_def demo_supervisor_def demo_pattern_def)
qed

lemma demo_compile: "compile_library demo_dec [demo_src] = Inr [(''g'', (demo_profile, demo_src))]"
proof -
  have path: "path_ok ''p.md''" by (simp add: path_ok_def)
  have doc: "length demo_text = 11" "CHR 0x00 \<notin> set demo_text"
    by (simp_all add: demo_text_def fence_def)
  have ok: "check_profile demo_profile demo_src = Inr ()" "pf_id demo_profile = ''g''"
    by (simp_all add: check_profile_def demo_profile_def demo_global_def superagent_id_def is_ascii_alnum_def byte_of_def)
  have "compile_sources demo_dec [demo_src] 0 [] = Inr [(''g'', (demo_profile, demo_src))]"
    using ok by (simp add: compile_source_def)
      (simp add: demo_src_def demo_dec_def demo_pattern_path path doc ok_or_def demo_parse_any)
  then show ?thesis
    using demo_resolve by (auto simp: compile_library_def)
qed

lemma demo_settings_valid: "validate_settings demo_dec demo_settings = Inr ()"
proof -
  obtain c where c: "resolve_profile demo_dec [(''g'', (demo_profile, demo_src))] ''g'' = Inr c" "catalog_complete c"
    using demo_resolve by blast
  show ?thesis
    by (simp add: validate_settings_def demo_settings_def demo_compile c effective_def demo_blank superagent_id_def
        is_ascii_alnum_def byte_of_def)
qed

theorem accepted_settings_are_dispatchable_witness:
  "effective demo_settings ''c'' = None"
  using accepted_settings_are_dispatchable [OF demo_settings_valid] by (auto simp: demo_settings_def)

end
