(* ===== verification/Managed_Config.thy ===== *)
theory Managed_Config
  imports Prelude
begin

text \<open>
  The configuration options the host owns (\<^verbatim>\<open>src/src/provider/managed_config.rs\<close>) with the working-context
  budgets (\<^verbatim>\<open>deepseek_context.rs\<close>) and the cache protection (\<^verbatim>\<open>deepseek_cache.rs\<close>) behind them, and their
  merge into the options an adapter advertises. The texts of the cache-protection option come from a
  plugin's manifest and are an argument. Proved here: a budget round-trips through the launch values, a
  launch always gets one, and no adapter can shadow a host-owned option.
\<close>

section \<open>Working-context budgets\<close>

datatype config_behavior = PortableV1 | AcpConfigOptionsV1 | XaiSessionV1 | AnthropicGatewayV1 | OpenaiGatewayV1

primrec behavior_label :: "config_behavior \<Rightarrow> string" where
  "behavior_label PortableV1 = ''PortableV1''"
| "behavior_label AcpConfigOptionsV1 = ''AcpConfigOptionsV1''"
| "behavior_label XaiSessionV1 = ''XaiSessionV1''"
| "behavior_label AnthropicGatewayV1 = ''AnthropicGatewayV1''"
| "behavior_label OpenaiGatewayV1 = ''OpenaiGatewayV1''"

record context_budget =
  cb_profile_id :: string
  cb_context_window :: nat
  cb_auto_compact_token_limit :: nat

record budget_profile =
  bp_id :: string
  bp_label :: string
  bp_context_window :: nat

definition CLAUDE_DEFAULT_PROFILE :: string where "CLAUDE_DEFAULT_PROFILE = ''830k''"

definition CODEX_DEFAULT_PROFILE :: string where "CODEX_DEFAULT_PROFILE = ''680k''"

definition PROFILES :: "budget_profile list" where
  "PROFILES =
     [\<lparr>bp_id = ''128k'', bp_label = ''128K'', bp_context_window = 128000\<rparr>,
      \<lparr>bp_id = ''256k'', bp_label = ''256K'', bp_context_window = 256000\<rparr>,
      \<lparr>bp_id = ''512k'', bp_label = ''512K'', bp_context_window = 512000\<rparr>,
      \<lparr>bp_id = ''680k'', bp_label = ''680K'', bp_context_window = 680000\<rparr>,
      \<lparr>bp_id = ''830k'', bp_label = ''830K'', bp_context_window = 830000\<rparr>]"

definition supported_behavior :: "config_behavior \<Rightarrow> bool" where
  "supported_behavior b \<longleftrightarrow> b = AnthropicGatewayV1 \<or> b = OpenaiGatewayV1"

definition supported_model :: "config_behavior \<Rightarrow> string option \<Rightarrow> bool" where
  "supported_model b model \<longleftrightarrow> supported_behavior b \<and>
     (let m = map ascii_lower (str_trim (case model of None \<Rightarrow> ''default'' | Some m \<Rightarrow> m))
      in m = ''default'' \<or> starts_with m ''deepseek-flash'' \<or> starts_with m ''deepseek-v4-flash''
         \<or> starts_with m ''deepseek-v4-pro'')"

definition default_profile :: "config_behavior \<Rightarrow> string option \<Rightarrow> string option" where
  "default_profile b model =
     (if \<not> supported_model b model then None
      else Some (if b = AnthropicGatewayV1 then CLAUDE_DEFAULT_PROFILE else CODEX_DEFAULT_PROFILE))"

text \<open>\<open>shown\<close> is the debug form of a string, which only the error texts use.\<close>

definition resolve_budget ::
    "(string \<Rightarrow> string) \<Rightarrow> config_behavior \<Rightarrow> string option \<Rightarrow> string \<Rightarrow> string + context_budget" where
  "resolve_budget shown b model profile_id =
     (if \<not> supported_model b model
      then Inl (''context budgets are unavailable for behavior '' @ behavior_label b @ '' model ''
             @ shown (case model of None \<Rightarrow> ''default'' | Some m \<Rightarrow> m))
      else case find (\<lambda>p. bp_id p = profile_id) PROFILES of
        None \<Rightarrow> Inl (''unknown DeepSeek context profile '' @ shown profile_id)
      | Some p \<Rightarrow> Inr \<lparr>cb_profile_id = bp_id p, cb_context_window = bp_context_window p,
            cb_auto_compact_token_limit =
              (if b = AnthropicGatewayV1
               then if bp_id p = CLAUDE_DEFAULT_PROFILE then 819200 else bp_context_window p
               else bp_context_window p * 95 div 100)\<rparr>)"

definition res_ok :: "'e + 'a \<Rightarrow> 'a option" where
  "res_ok r = (case r of Inl _ \<Rightarrow> None | Inr v \<Rightarrow> Some v)"

definition launch_budget ::
    "(string \<Rightarrow> string) \<Rightarrow> config_behavior \<Rightarrow> string option \<Rightarrow> string option \<Rightarrow> context_budget option" where
  "launch_budget shown b model requested =
     (case default_profile b model of
        None \<Rightarrow> None
      | Some d \<Rightarrow>
          (case resolve_budget shown b model (case requested of None \<Rightarrow> d | Some p \<Rightarrow> p) of
             Inr budget \<Rightarrow> Some budget
           | Inl _ \<Rightarrow> res_ok (resolve_budget shown b model d)))"

fun find_launch ::
    "(string \<Rightarrow> string) \<Rightarrow> config_behavior \<Rightarrow> nat \<Rightarrow> nat \<Rightarrow> budget_profile list \<Rightarrow> context_budget option" where
  "find_launch shown b window limit [] = None"
| "find_launch shown b window limit (p # ps) =
     (case res_ok (resolve_budget shown b None (bp_id p)) of
        Some budget \<Rightarrow>
          if cb_context_window budget = window \<and> cb_auto_compact_token_limit budget = limit then Some budget
          else find_launch shown b window limit ps
      | None \<Rightarrow> find_launch shown b window limit ps)"

definition from_launch_values ::
    "(string \<Rightarrow> string) \<Rightarrow> config_behavior \<Rightarrow> nat \<Rightarrow> nat \<Rightarrow> context_budget option" where
  "from_launch_values shown b window limit = find_launch shown b window limit PROFILES"

definition mark :: "string \<Rightarrow> string \<Rightarrow> string" where
  "mark label note_text = label @ [CHR 0x20, CHR 0xC2, CHR 0xB7, CHR 0x20] @ note_text"

definition budget_name :: "config_behavior \<Rightarrow> budget_profile \<Rightarrow> string" where
  "budget_name b p =
     (if (b = AnthropicGatewayV1 \<and> bp_id p = CLAUDE_DEFAULT_PROFILE)
         \<or> (b = OpenaiGatewayV1 \<and> bp_id p = CODEX_DEFAULT_PROFILE)
      then mark (bp_label p) ''recommended''
      else if b = OpenaiGatewayV1 \<and> bp_id p = ''830k'' then mark (bp_label p) ''large''
      else bp_label p)"

definition budget_description :: "config_behavior \<Rightarrow> string option" where
  "budget_description b =
     (case b of
        AnthropicGatewayV1 \<Rightarrow> Some (''DeepSeek V4 working context. The recommended 830K profile compacts at 819.2K and reserves ''
          @ ''128K output. Changing it restarts only this idle session.'')
      | OpenaiGatewayV1 \<Rightarrow> Some (''DeepSeek V4 working context. Codex compacts at 95%; 680K is recommended to leave room for ''
          @ ''DeepSeek's 384K maximum output. Changing it restarts only this idle session.'')
      | _ \<Rightarrow> None)"

definition budget_option ::
    "(string \<Rightarrow> string) \<Rightarrow> config_behavior \<Rightarrow> string option \<Rightarrow> string option \<Rightarrow> string \<Rightarrow> json option" where
  "budget_option shown b model requested option_id =
     (case launch_budget shown b model requested of
        None \<Rightarrow> None
      | Some selected \<Rightarrow>
          map_option (\<lambda>description.
            JObj [(''id'', JStr option_id), (''name'', JStr ''Context budget''), (''description'', JStr description),
              (''category'', JStr ''model_config''), (''type'', JStr ''select''),
              (''currentValue'', JStr (cb_profile_id selected)),
              (''options'', JArr (map (\<lambda>p. JObj [(''value'', JStr (bp_id p)), (''name'', JStr (budget_name b p))]) PROFILES))])
            (budget_description b))"

section \<open>Cache protection\<close>

record cache_policy =
  cp_option_name :: string
  cp_option_description :: string
  cp_option_on :: string
  cp_option_off :: string

definition cache_selected :: "json \<Rightarrow> config_behavior \<Rightarrow> string \<Rightarrow> bool option" where
  "cache_selected preferences b option_id =
     (if supported_behavior b
      then Some (case Option.bind (jget option_id preferences) jbool of None \<Rightarrow> True | Some v \<Rightarrow> v)
      else None)"

definition cache_option :: "cache_policy \<Rightarrow> config_behavior \<Rightarrow> bool \<Rightarrow> string \<Rightarrow> json option" where
  "cache_option pol b enabled option_id =
     (if supported_behavior b
      then Some (JObj [(''id'', JStr option_id), (''name'', JStr (cp_option_name pol)),
        (''description'', JStr (cp_option_description pol)), (''category'', JStr ''model_config''),
        (''type'', JStr ''select''), (''currentValue'', JBool enabled),
        (''options'', JArr [JObj [(''value'', JBool True), (''name'', JStr (cp_option_on pol))],
                           JObj [(''value'', JBool False), (''name'', JStr (cp_option_off pol))]])])
      else None)"

section \<open>Host-owned options\<close>

datatype managed_effect = ContextBudgetV1 | CacheProtectionV1

definition effects :: "config_behavior \<Rightarrow> managed_effect list" where
  "effects b = (if supported_behavior b then [ContextBudgetV1, CacheProtectionV1] else [])"

primrec effect_id :: "managed_effect \<Rightarrow> string" where
  "effect_id ContextBudgetV1 = ''deepseek_context''"
| "effect_id CacheProtectionV1 = ''deepseek_cache_protection''"

definition effect_for_id :: "config_behavior \<Rightarrow> string \<Rightarrow> managed_effect option" where
  "effect_for_id b i = find (\<lambda>e. effect_id e = i) (effects b)"

definition is_managed :: "config_behavior \<Rightarrow> string \<Rightarrow> bool" where
  "is_managed b i \<longleftrightarrow> effect_for_id b i \<noteq> None"

definition context_budget_of :: "(string \<Rightarrow> string) \<Rightarrow> config_behavior \<Rightarrow> json \<Rightarrow> context_budget option" where
  "context_budget_of shown b preferences =
     (if ContextBudgetV1 \<in> set (effects b)
      then launch_budget shown b (jget_str ''model'' preferences) (jget_str (effect_id ContextBudgetV1) preferences)
      else None)"

definition cache_protection :: "config_behavior \<Rightarrow> json \<Rightarrow> bool option" where
  "cache_protection b preferences =
     (if CacheProtectionV1 \<in> set (effects b) then cache_selected preferences b (effect_id CacheProtectionV1) else None)"

definition option_for :: "(string \<Rightarrow> string) \<Rightarrow> cache_policy \<Rightarrow> managed_effect \<Rightarrow> config_behavior \<Rightarrow> json \<Rightarrow> json option" where
  "option_for shown pol e b preferences =
     (case e of
        ContextBudgetV1 \<Rightarrow>
          budget_option shown b (jget_str ''model'' preferences) (jget_str (effect_id e) preferences) (effect_id e)
      | CacheProtectionV1 \<Rightarrow>
          Option.bind (cache_protection b preferences) (\<lambda>on. cache_option pol b on (effect_id e)))"

definition option_id :: "json \<Rightarrow> string option" where
  "option_id v = jget_str ''id'' v"

definition adapter_owned :: "config_behavior \<Rightarrow> json \<Rightarrow> bool" where
  "adapter_owned b v = (case option_id v of None \<Rightarrow> True | Some i \<Rightarrow> effect_for_id b i = None)"

fun insert_effects ::
    "(managed_effect \<Rightarrow> json option) \<Rightarrow> managed_effect list \<Rightarrow> nat \<Rightarrow> json list \<Rightarrow> json list" where
  "insert_effects opt [] i vs = vs"
| "insert_effects opt (e # es) i vs =
     (case opt e of
        None \<Rightarrow> insert_effects opt es i vs
      | Some v \<Rightarrow> insert_effects opt es (Suc i) (take i vs @ v # drop i vs))"

definition projected_options ::
    "(string \<Rightarrow> string) \<Rightarrow> cache_policy \<Rightarrow> config_behavior \<Rightarrow> json \<Rightarrow> json option \<Rightarrow> json option" where
  "projected_options shown pol b preferences options =
     (case (case options of None \<Rightarrow> JArr [] | Some v \<Rightarrow> v) of
        JArr vs \<Rightarrow>
          let kept = filter (adapter_owned b) vs;
              at = (case position (\<lambda>v. option_id v = Some ''model'') kept of None \<Rightarrow> length kept | Some i \<Rightarrow> Suc i);
              merged = insert_effects (\<lambda>e. option_for shown pol e b preferences) (effects b) at kept
          in if options \<noteq> None \<or> effects b \<noteq> [] then Some (JArr merged) else None
      | v \<Rightarrow> Some v)"

definition change_is_unchanged ::
    "(string \<Rightarrow> string) \<Rightarrow> cache_policy \<Rightarrow> managed_effect \<Rightarrow> config_behavior \<Rightarrow> json \<Rightarrow> json \<Rightarrow> string + bool" where
  "change_is_unchanged shown pol e b preferences v =
     (case e of
        ContextBudgetV1 \<Rightarrow>
          rbind (ok_or (jstr v) ''context budget profile must be a string id'') (\<lambda>profile.
          rbind (resolve_budget shown b (jget_str ''model'' preferences) profile) (\<lambda>_.
            Inr (jget_str (effect_id e) preferences = Some profile)))
      | CacheProtectionV1 \<Rightarrow>
          rbind (ok_or (jbool v) (cp_option_name pol @ '' must be a boolean'')) (\<lambda>enabled.
            if \<not> supported_behavior b then Inl (cp_option_name pol @ '' is unavailable for this session'')
            else Inr (cache_protection b preferences = Some enabled)))"

section \<open>Budgets\<close>

lemma profiles_distinct: "distinct (map bp_id PROFILES)" "distinct (map bp_context_window PROFILES)"
  by (simp_all add: PROFILES_def)

lemma find_profile: "find (\<lambda>p. bp_id p = i) PROFILES = Some p \<longleftrightarrow> p \<in> set PROFILES \<and> bp_id p = i"
  using find_distinct [OF profiles_distinct(1), of p] by (auto dest: find_SomeD)

lemma default_supported: "supported_model b None \<longleftrightarrow> supported_behavior b"
proof -
  have "map ascii_lower (str_trim ''default'') = ''default''" by code_simp
  then show ?thesis by (simp add: supported_model_def)
qed

definition budget_at :: "config_behavior \<Rightarrow> budget_profile \<Rightarrow> context_budget" where
  "budget_at b p = \<lparr>cb_profile_id = bp_id p, cb_context_window = bp_context_window p,
     cb_auto_compact_token_limit =
       (if b = AnthropicGatewayV1
        then if bp_id p = CLAUDE_DEFAULT_PROFILE then 819200 else bp_context_window p
        else bp_context_window p * 95 div 100)\<rparr>"

lemma resolve_profile_at:
  "supported_model b model \<Longrightarrow> p \<in> set PROFILES \<Longrightarrow> resolve_budget shown b model (bp_id p) = Inr (budget_at b p)"
  using find_profile [of "bp_id p" p] by (simp add: resolve_budget_def budget_at_def)

lemma find_launch_hit:
  assumes "supported_model b None"
  shows "set ps \<subseteq> set PROFILES \<Longrightarrow> distinct (map bp_context_window ps) \<Longrightarrow> p \<in> set ps
    \<Longrightarrow> find_launch shown b (cb_context_window (budget_at b p)) (cb_auto_compact_token_limit (budget_at b p)) ps
        = Some (budget_at b p)"
proof (induction ps)
  case (Cons q ps)
  have q: "resolve_budget shown b None (bp_id q) = Inr (budget_at b q)"
    using Cons.prems assms by (simp add: resolve_profile_at)
  show ?case
  proof (cases "p = q")
    case True
    with q show ?thesis by (simp add: res_ok_def)
  next
    case False
    with Cons.prems have "p \<in> set ps" "bp_context_window p \<noteq> bp_context_window q" by (auto simp: image_iff)
    with Cons q show ?thesis by (simp add: res_ok_def budget_at_def)
  qed
qed simp

lemma profile_bounds:
  assumes "p \<in> set PROFILES"
  shows "cb_auto_compact_token_limit (budget_at b p) \<le> cb_context_window (budget_at b p)
     \<and> cb_context_window (budget_at b p) < 1000000"
  using assms by (auto simp: PROFILES_def budget_at_def CLAUDE_DEFAULT_PROFILE_def)

lemma resolve_supported: "resolve_budget shown b model i = Inr budget \<Longrightarrow> supported_model b model"
  by (auto simp: resolve_budget_def split: if_splits)

text \<open>A launched session runs within the window it shows: the two numbers a worker is launched with determine
  the budget they came from, for every supported model and profile.\<close>

theorem launch_values_roundtrip:
  assumes "resolve_budget shown b model i = Inr budget"
  shows "from_launch_values shown b (cb_context_window budget) (cb_auto_compact_token_limit budget) = Some budget"
proof -
  have model: "supported_model b model" using assms by (rule resolve_supported)
  then have none: "supported_model b None" unfolding default_supported by (simp add: supported_model_def)
  from assms model obtain p where p: "find (\<lambda>p. bp_id p = i) PROFILES = Some p"
    by (auto simp: resolve_budget_def split: option.splits)
  then have i: "p \<in> set PROFILES" "bp_id p = i" by (simp_all add: find_profile)
  with assms resolve_profile_at [OF model i(1)] have "budget = budget_at b p" by simp
  then show ?thesis
    using find_launch_hit [OF none, of PROFILES p shown] i(1)
    by (simp add: from_launch_values_def profiles_distinct)
qed

theorem launch_values_roundtrip_witness:
  "from_launch_values id OpenaiGatewayV1 680000 646000 =
     Some \<lparr>cb_profile_id = ''680k'', cb_context_window = 680000, cb_auto_compact_token_limit = 646000\<rparr>"
proof -
  have "resolve_budget id OpenaiGatewayV1 None ''680k'' =
      Inr \<lparr>cb_profile_id = ''680k'', cb_context_window = 680000, cb_auto_compact_token_limit = 646000\<rparr>"
    by (simp add: resolve_budget_def default_supported supported_behavior_def PROFILES_def)
  from launch_values_roundtrip [OF this] show ?thesis by simp
qed

text \<open>Every launch of a supported model gets a budget: the one asked for when it is known, the default otherwise;
  and compaction starts within the window.\<close>

lemma launch_is_budgeted:
  assumes "supported_model b model"
  shows "\<exists>budget. launch_budget shown b model requested = Some budget
     \<and> cb_profile_id budget = (case requested of
           Some i \<Rightarrow> if i \<in> bp_id ` set PROFILES then i else the (default_profile b model)
         | None \<Rightarrow> the (default_profile b model))
     \<and> cb_auto_compact_token_limit budget \<le> cb_context_window budget \<and> cb_context_window budget < 1000000"
proof -
  obtain d where d: "default_profile b model = Some d" "d \<in> bp_id ` set PROFILES"
    using assms by (auto simp: default_profile_def PROFILES_def CLAUDE_DEFAULT_PROFILE_def CODEX_DEFAULT_PROFILE_def)
  have known: "\<exists>budget. resolve_budget shown b model i = Inr budget \<and> cb_profile_id budget = i
      \<and> cb_auto_compact_token_limit budget \<le> cb_context_window budget \<and> cb_context_window budget < 1000000"
    if known_id: "i \<in> bp_id ` set PROFILES" for i
  proof -
    from known_id obtain p where p: "p \<in> set PROFILES" "i = bp_id p" by blast
    with resolve_profile_at [OF assms p(1)] profile_bounds [OF p(1)] show ?thesis by (simp add: budget_at_def)
  qed
  have unknown: "\<exists>e. resolve_budget shown b model i = Inl e" if "i \<notin> bp_id ` set PROFILES" for i
  proof -
    have "find (\<lambda>p. bp_id p = i) PROFILES = None" using that by (auto simp: find_None_iff)
    with assms show ?thesis by (simp add: resolve_budget_def)
  qed
  show ?thesis
  proof (cases requested)
    case None
    with d known [OF d(2)] show ?thesis by (auto simp: launch_budget_def)
  next
    case (Some i)
    show ?thesis
    proof (cases "i \<in> bp_id ` set PROFILES")
      case True
      with known [OF True] d Some show ?thesis by (auto simp: launch_budget_def)
    next
      case False
      with unknown [OF False] known [OF d(2)] d Some show ?thesis by (auto simp: launch_budget_def res_ok_def)
    qed
  qed
qed

section \<open>The merge with an adapter's options\<close>

lemma insert_effects_eq:
  "i \<le> length vs \<Longrightarrow> insert_effects opt es i vs = take i vs @ List.map_filter opt es @ drop i vs"
  by (induction es arbitrary: i vs) (auto simp: map_filter_simps split: option.split)

lemma position_bound: "(case position P xs of None \<Rightarrow> length xs | Some i \<Rightarrow> Suc i) \<le> length xs"
  by (auto split: option.split)

lemma option_for_id: "option_for shown pol e b preferences = Some v \<Longrightarrow> option_id v = Some (effect_id e)"
  by (auto simp: option_for_def budget_option_def cache_option_def option_id_def jget_str_def
      split: managed_effect.splits option.splits if_splits Option.bind_splits)

lemma effect_ids: "e \<in> set (effects b) \<Longrightarrow> effect_for_id b (effect_id e) = Some e"
  by (cases e) (auto simp: effects_def effect_for_id_def split: if_splits)

lemma option_for_not_adapter:
  "e \<in> set (effects b) \<Longrightarrow> option_for shown pol e b preferences = Some v \<Longrightarrow> \<not> adapter_owned b v"
  by (simp add: adapter_owned_def option_for_id effect_ids)

lemma filter_host_options:
  "filter (adapter_owned b) (List.map_filter (\<lambda>e. option_for shown pol e b preferences) (effects b)) = []"
  "filter (\<lambda>v. \<not> adapter_owned b v) (List.map_filter (\<lambda>e. option_for shown pol e b preferences) (effects b))
     = List.map_filter (\<lambda>e. option_for shown pol e b preferences) (effects b)"
  using option_for_not_adapter by (auto simp: filter_empty_conv filter_id_conv List.map_filter_def)

lemma projected_eq:
  "projected_options shown pol b preferences (Some (JArr us)) =
     Some (JArr (take (case position (\<lambda>v. option_id v = Some ''model'') (filter (adapter_owned b) us) of
                          None \<Rightarrow> length (filter (adapter_owned b) us) | Some i \<Rightarrow> Suc i) (filter (adapter_owned b) us)
        @ List.map_filter (\<lambda>e. option_for shown pol e b preferences) (effects b)
        @ drop (case position (\<lambda>v. option_id v = Some ''model'') (filter (adapter_owned b) us) of
                  None \<Rightarrow> length (filter (adapter_owned b) us) | Some i \<Rightarrow> Suc i) (filter (adapter_owned b) us)))"
  unfolding projected_options_def by (simp add: Let_def insert_effects_eq [OF position_bound])

lemma projected_array:
  "\<exists>n. projected_options shown pol b preferences (Some (JArr us)) =
     Some (JArr (take n (filter (adapter_owned b) us)
        @ List.map_filter (\<lambda>e. option_for shown pol e b preferences) (effects b) @ drop n (filter (adapter_owned b) us)))"
  using projected_eq by blast

text \<open>The host's options cannot be shadowed or overridden by an adapter: the merged list holds exactly the
  host's own version of every host-owned id, all other options the adapter advertised keep their content and
  order, and merging a merged list again changes nothing.\<close>

theorem host_options_cannot_be_shadowed:
  "\<exists>merged. projected_options shown pol b preferences (Some (JArr vs)) = Some (JArr merged)
     \<and> filter (adapter_owned b) merged = filter (adapter_owned b) vs
     \<and> filter (\<lambda>v. \<not> adapter_owned b v) merged
         = List.map_filter (\<lambda>e. option_for shown pol e b preferences) (effects b)
     \<and> projected_options shown pol b preferences (Some (JArr merged)) = Some (JArr merged)"
proof -
  let ?kept = "filter (adapter_owned b) vs"
  let ?at = "case position (\<lambda>v. option_id v = Some ''model'') ?kept of None \<Rightarrow> length ?kept | Some i \<Rightarrow> Suc i"
  let ?own = "List.map_filter (\<lambda>e. option_for shown pol e b preferences) (effects b)"
  let ?merged = "take ?at ?kept @ ?own @ drop ?at ?kept"
  have same: "filter (adapter_owned b) (take n ?kept) = take n ?kept" "filter (adapter_owned b) (drop n ?kept) = drop n ?kept"
    "filter (\<lambda>v. \<not> adapter_owned b v) (take n ?kept) = []" "filter (\<lambda>v. \<not> adapter_owned b v) (drop n ?kept) = []" for n
    by (auto simp: filter_id_conv filter_empty_conv dest: in_set_takeD in_set_dropD)
  have kept: "filter (adapter_owned b) ?merged = ?kept" by (simp add: same filter_host_options)
  note eq = projected_eq [of shown pol b preferences]
  show ?thesis
  proof (intro exI conjI)
    show "projected_options shown pol b preferences (Some (JArr vs)) = Some (JArr ?merged)" by (rule eq)
    show "filter (adapter_owned b) ?merged = ?kept" by (rule kept)
    show "filter (\<lambda>v. \<not> adapter_owned b v) ?merged = ?own" by (simp add: same filter_host_options)
    show "projected_options shown pol b preferences (Some (JArr ?merged)) = Some (JArr ?merged)"
      unfolding eq kept by (rule refl)
  qed
qed

end
