(* ===== verification/Config_Options.thy ===== *)
theory Config_Options
  imports Managed_Config Managed_Request Event_Reducer
begin

text \<open>
  The configuration options of a session (\<^verbatim>\<open>src/src/core/hub_config.rs\<close> and the option helpers of
  \<^verbatim>\<open>src/src/core.rs\<close>): the options an agent last advertised, the values the user selected, and the values
  set but not yet answered, which are laid over an agent's snapshots until they settle. Store writes and
  broadcasts are listed in the order the code sends them; instants are nanoseconds. Proved here: pending
  values settle together, a selection survives an agent's stale answer, and after reconciling no selection is
  left that the provider no longer offers.
\<close>

section \<open>Options and values\<close>

definition config_current_value :: "json \<Rightarrow> json option" where
  "config_current_value opt =
     (case jget ''currentValue'' opt of Some v \<Rightarrow> Some v | None \<Rightarrow> jget ''current_value'' opt)"

definition current_key :: "json \<Rightarrow> string" where
  "current_key opt =
     (if jget ''current_value'' opt \<noteq> None \<and> jget ''currentValue'' opt = None then ''current_value'' else ''currentValue'')"

definition set_config_option_current_value :: "json \<Rightarrow> string \<Rightarrow> json \<Rightarrow> bool \<times> json" where
  "set_config_option_current_value options i v =
     (case options of
        JArr os \<Rightarrow>
          (case position (\<lambda>opt. option_id opt = Some i) os of
             None \<Rightarrow> (False, options)
           | Some n \<Rightarrow> (True, JArr (os[n := jset (current_key (os ! n)) v (os ! n)])))
      | _ \<Rightarrow> (False, options))"

lemma map_of_size: "map_of kvs k = Some v \<Longrightarrow> size v < size (JObj kvs)"
  by (induction kvs) (auto split: if_splits)

text \<open>Choices may be nested in groups. A scalar stands for itself.\<close>

function config_value_list_contains :: "json \<Rightarrow> json \<Rightarrow> bool" where
  "config_value_list_contains options v =
     (case options of
        JArr os \<Rightarrow> list_ex (\<lambda>opt. config_value_list_contains opt v) os
      | JObj kvs \<Rightarrow>
          (case map_of kvs ''value'' of None \<Rightarrow> False | Some w \<Rightarrow> json_eq w v)
          \<or> (case map_of kvs ''options'' of None \<Rightarrow> False | Some nested \<Rightarrow> config_value_list_contains nested v)
      | _ \<Rightarrow> json_eq options v)"
  by pat_completeness auto

termination
  by (relation "measure (\<lambda>(options, _). size options)") (auto dest: map_of_size elim: size_list_estimation intro: le_imp_less_Suc size_list_estimation')

declare config_value_list_contains.simps [simp del]

definition config_option_accepts :: "json \<Rightarrow> json \<Rightarrow> bool" where
  "config_option_accepts opt v =
     (case jget ''options'' opt of None \<Rightarrow> True | Some choices \<Rightarrow> config_value_list_contains choices v)"

section \<open>Reconciling the selections with an agent's snapshot\<close>

definition scalar :: "json \<Rightarrow> bool" where
  "scalar v = (case v of JStr _ \<Rightarrow> True | JBool _ \<Rightarrow> True | _ \<Rightarrow> False)"

definition changing_model :: "json list \<Rightarrow> (string \<times> json) list \<Rightarrow> bool" where
  "changing_model os prefs =
     list_ex (\<lambda>opt. jget_str ''category'' opt = Some ''model''
       \<and> (case option_id opt of None \<Rightarrow> False | Some i \<Rightarrow>
            (case map_of prefs i of None \<Rightarrow> False | Some selected \<Rightarrow>
               \<not> (case config_current_value opt of None \<Rightarrow> False | Some c \<Rightarrow> json_eq c selected)
               \<and> config_option_accepts opt selected))) os"

definition reconcile_option :: "bool \<Rightarrow> json \<Rightarrow> bool \<times> (string \<times> json) list \<Rightarrow> bool \<times> (string \<times> json) list" where
  "reconcile_option changing opt = (\<lambda>(changed, prefs).
     if changing \<and> jget_str ''category'' opt = Some ''thought_level'' then (changed, prefs)
     else case option_id opt of
       None \<Rightarrow> (changed, prefs)
     | Some i \<Rightarrow>
         (case map_of prefs i of
            None \<Rightarrow> (changed, prefs)
          | Some selected \<Rightarrow>
              if config_option_accepts opt selected then (changed, prefs)
              else (case config_current_value opt of
                  None \<Rightarrow> (True, AList.delete i prefs)
                | Some c \<Rightarrow>
                    if \<not> scalar c then (True, AList.delete i prefs)
                    else if \<not> json_eq c selected then (True, AList.update i c prefs)
                    else (changed, prefs))))"

definition reconcile_config_preferences :: "json option \<Rightarrow> json \<Rightarrow> bool \<times> json" where
  "reconcile_config_preferences options preferences =
     (case Option.bind options jarr of
        None \<Rightarrow> (False, preferences)
      | Some os \<Rightarrow>
          (case preferences of
             JObj prefs \<Rightarrow>
               (case fold (reconcile_option (changing_model os prefs)) os (False, prefs) of
                  (changed, prefs') \<Rightarrow> (changed, JObj prefs'))
           | _ \<Rightarrow> (False, preferences)))"

section \<open>Sessions\<close>

text \<open>What \<open>set_initial_config_options\<close> compares of a session's meta data.\<close>

record config_identity =
  id_provider :: string
  id_account :: string
  id_generation_digest :: string
  id_version :: string
  id_auth_generation :: "nat option"
  id_machine :: string
  id_owner :: "string option"

record config_session =
  cs_identity :: config_identity
  cs_behavior :: config_behavior
  cs_options :: "json option"
  cs_initial :: "json option"
  cs_preferences :: json

datatype config_effect =
    StorePreferences string json
  | StoreOptions string json
  | FanoutOptions string json

type_synonym pending_values = "(string \<times> (json \<times> nat)) list"

record config_hub =
  ch_sessions :: "(string \<times> config_session) list"
  ch_in_flight :: "(string \<times> pending_values) list"
  ch_store :: bool
  ch_effects :: "config_effect list"

definition display_config_options :: "config_session \<Rightarrow> json option" where
  "display_config_options s =
     (case cs_options s of
        Some options \<Rightarrow> Some options
      | None \<Rightarrow>
          (case cs_initial s of
             None \<Rightarrow> None
           | Some options \<Rightarrow>
               (case cs_preferences s of
                  JObj prefs \<Rightarrow>
                    Some (fold (\<lambda>(i, v) o'. snd (set_config_option_current_value o' i v)) prefs options)
                | _ \<Rightarrow> Some options)))"

definition config_changes_pending :: "config_hub \<Rightarrow> string \<Rightarrow> bool" where
  "config_changes_pending h sid \<longleftrightarrow> map_of (ch_in_flight h) sid \<noteq> None"

definition persisted_config_options :: "config_hub \<Rightarrow> string \<Rightarrow> json option" where
  "persisted_config_options h sid = Option.bind (map_of (ch_sessions h) sid) cs_options"

definition config_preferences :: "config_hub \<Rightarrow> string \<Rightarrow> json option" where
  "config_preferences h sid = map_option cs_preferences (map_of (ch_sessions h) sid)"

definition find_option :: "json \<Rightarrow> string \<Rightarrow> json option" where
  "find_option options i = Option.bind (jarr options) (find (\<lambda>opt. option_id opt = Some i))"

definition current_config_value :: "config_hub \<Rightarrow> string \<Rightarrow> string \<Rightarrow> json option" where
  "current_config_value h sid i =
     (case map_of (ch_sessions h) sid of
        None \<Rightarrow> None
      | Some s \<Rightarrow>
          (case jget i (cs_preferences s) of
             Some selected \<Rightarrow> Some selected
           | None \<Rightarrow> Option.bind (cs_options s) (\<lambda>os. Option.bind (find_option os i) config_current_value)))"

definition set_initial_config_options :: "string \<Rightarrow> config_identity \<Rightarrow> json \<Rightarrow> config_hub \<Rightarrow> config_hub" where
  "set_initial_config_options sid expected options h =
     (case map_of (ch_sessions h) sid of
        None \<Rightarrow> h
      | Some s \<Rightarrow>
          if cs_identity s = expected \<and> cs_options s = None
          then h\<lparr>ch_sessions := AList.update sid (s\<lparr>cs_initial := Some options\<rparr>) (ch_sessions h)\<rparr> else h)"

section \<open>Values in flight\<close>

definition SETTLE_DEADLINE :: nat where "SETTLE_DEADLINE = 30 * 10 ^ 9"

definition option_current_is :: "json \<Rightarrow> string \<Rightarrow> json \<Rightarrow> bool" where
  "option_current_is options i v =
     (case find_option options i of
        None \<Rightarrow> False
      | Some opt \<Rightarrow> (case config_current_value opt of None \<Rightarrow> False | Some c \<Rightarrow> json_eq c v))"

definition model_pending :: "json \<Rightarrow> pending_values \<Rightarrow> bool" where
  "model_pending options pending =
     list_ex (\<lambda>(i, (v, _)). case find_option options i of
         None \<Rightarrow> False
       | Some opt \<Rightarrow> jget_str ''category'' opt = Some ''model'' \<and> config_option_accepts opt v) pending"

definition retained :: "nat \<Rightarrow> json \<Rightarrow> pending_values \<Rightarrow> pending_values" where
  "retained now options pending =
     filter (\<lambda>(i, (v, set_at)). case find_option options i of
         None \<Rightarrow> False
       | Some opt \<Rightarrow> now - set_at \<le> SETTLE_DEADLINE \<and> (model_pending options pending \<or> config_option_accepts opt v)) pending"

definition overlay_config_in_flight :: "nat \<Rightarrow> string \<Rightarrow> json \<Rightarrow> config_hub \<Rightarrow> json \<times> config_hub" where
  "overlay_config_in_flight now sid options h =
     (case map_of (ch_in_flight h) sid of
        None \<Rightarrow> (options, h)
      | Some pending \<Rightarrow>
          let kept = retained now options pending in
          if list_all (\<lambda>(i, (v, _)). option_current_is options i v) kept
          then (options, h\<lparr>ch_in_flight := AList.delete sid (ch_in_flight h)\<rparr>)
          else (fold (\<lambda>(i, (v, _)) o'. snd (set_config_option_current_value o' i v)) kept options,
                h\<lparr>ch_in_flight := AList.update sid kept (ch_in_flight h)\<rparr>))"

section \<open>The operations\<close>

definition projected_config_options ::
    "(string \<Rightarrow> string) \<Rightarrow> cache_policy \<Rightarrow> config_session \<Rightarrow> json option \<Rightarrow> json option" where
  "projected_config_options shown pol s options = projected_options shown pol (cs_behavior s) (cs_preferences s) options"

definition config_options :: "(string \<Rightarrow> string) \<Rightarrow> cache_policy \<Rightarrow> config_hub \<Rightarrow> string \<Rightarrow> json option" where
  "config_options shown pol h sid =
     Option.bind (map_of (ch_sessions h) sid) (\<lambda>s. projected_config_options shown pol s (display_config_options s))"

definition pending_of :: "config_hub \<Rightarrow> string \<Rightarrow> pending_values" where
  "pending_of h sid = (case map_of (ch_in_flight h) sid of None \<Rightarrow> [] | Some p \<Rightarrow> p)"

definition set_config_preference ::
    "(string \<Rightarrow> string) \<Rightarrow> cache_policy \<Rightarrow> nat \<Rightarrow> string \<Rightarrow> string \<Rightarrow> json \<Rightarrow> config_hub \<Rightarrow> (string + unit) \<times> config_hub" where
  "set_config_preference shown pol now sid i v h =
     (if i = [] \<or> 128 < length i then (Inl ''configuration id is invalid'', h)
      else if \<not> scalar v then (Inl ''configuration values must be a string id or boolean'', h)
      else case map_of (ch_sessions h) sid of
        None \<Rightarrow> (Inl (''unknown session '' @ shown sid), h)
      | Some s \<Rightarrow>
          let prefs = JObj (AList.update i v (case cs_preferences s of JObj kvs \<Rightarrow> kvs | _ \<Rightarrow> []));
              s1 = s\<lparr>cs_preferences := prefs\<rparr>;
              in_flight = AList.update sid (AList.update i (v, now) (pending_of h sid)) (ch_in_flight h);
              shown_options =
                (case projected_config_options shown pol s1 (display_config_options s1) of
                   None \<Rightarrow> None
                 | Some os \<Rightarrow> (case set_config_option_current_value os i v of
                     (True, os') \<Rightarrow> Some os' | (False, _) \<Rightarrow> None));
              s2 = (case shown_options of
                      Some os \<Rightarrow> if cs_options s1 \<noteq> None then s1\<lparr>cs_options := Some os\<rparr> else s1
                    | None \<Rightarrow> s1);
              effects =
                (if ch_store h then [StorePreferences sid prefs] else [])
                @ (case shown_options of
                     None \<Rightarrow> []
                   | Some os \<Rightarrow>
                       (if ch_store h \<and> cs_options s2 \<noteq> None then [StoreOptions sid os] else []) @ [FanoutOptions sid os])
          in (Inr (), h\<lparr>ch_sessions := AList.update sid s2 (ch_sessions h), ch_in_flight := in_flight,
                       ch_effects := ch_effects h @ effects\<rparr>))"

definition set_config_options ::
    "(string \<Rightarrow> string) \<Rightarrow> cache_policy \<Rightarrow> nat \<Rightarrow> string \<Rightarrow> json \<Rightarrow> config_hub \<Rightarrow> config_hub" where
  "set_config_options shown pol now sid raw h =
     (case map_of (ch_sessions h) sid of
        None \<Rightarrow> h
      | Some s \<Rightarrow>
          let options = the (projected_config_options shown pol s (Some raw));
              (corrected, prefs) = reconcile_config_preferences (Some options) (cs_preferences s);
              s1 = s\<lparr>cs_preferences := prefs\<rparr>;
              options = (if corrected then the (projected_config_options shown pol s1 (Some raw)) else options);
              (options, h1) = overlay_config_in_flight now sid options h;
              s2 = s1\<lparr>cs_options := Some options\<rparr>;
              effects = (if ch_store h
                         then StoreOptions sid options # (if corrected then [StorePreferences sid prefs] else []) else [])
                        @ [FanoutOptions sid options]
          in h1\<lparr>ch_sessions := AList.update sid s2 (ch_sessions h), ch_effects := ch_effects h @ effects\<rparr>)"

lemma projection_present: "projected_options shown pol b preferences (Some raw) \<noteq> None"
  by (simp add: projected_options_def Let_def split: json.split)

section \<open>Setting one value\<close>

lemma jget_jset_JObj: "jget k (jset k' v (JObj kvs)) = (if k = k' then Some v else jget k (JObj kvs))"
  by (simp add: update_conv')

lemma option_id_jset: "k \<noteq> ''id'' \<Longrightarrow> option_id (jset k v opt) = option_id opt"
  by (cases opt) (simp_all add: option_id_def jget_str_def update_conv')

lemma current_key_not_id: "current_key opt \<noteq> ''id''"
  by (simp add: current_key_def)

lemma current_of_set:
  "option_id opt = Some i \<Longrightarrow> config_current_value (jset (current_key opt) v opt) = Some v"
  by (cases opt) (auto simp: option_id_def jget_str_def config_current_value_def current_key_def update_conv')

lemma find_position:
  "find P xs = (case position P xs of None \<Rightarrow> None | Some n \<Rightarrow> Some (xs ! n))"
  by (induction xs) (auto split: option.splits)

lemma position_update:
  "position P xs = Some n \<Longrightarrow> (\<And>x. P x = P (f x)) \<Longrightarrow> position P (xs[n := f (xs ! n)]) = Some n"
  by (induction xs arbitrary: n) (auto split: if_splits)

lemma position_update_iff:
  assumes "n < length xs" "\<And>x. P (f x) = P x"
  shows "position P (xs[n := f (xs ! n)]) = position P xs"
  using assms(1)
proof (induction xs arbitrary: n)
  case (Cons x xs)
  then show ?case using assms(2) by (cases n) auto
qed simp

lemma find_option_set:
  "find_option (snd (set_config_option_current_value options i v)) j =
     (if j = i then map_option (\<lambda>opt. jset (current_key opt) v opt) (find_option options i) else find_option options j)"
proof (cases options)
  case (JArr os)
  show ?thesis
  proof (cases "position (\<lambda>opt. option_id opt = Some i) os")
    case None
    with JArr show ?thesis by (auto simp: set_config_option_current_value_def find_option_def find_position)
  next
    case (Some n)
    then have n: "n < length os" "option_id (os ! n) = Some i" by (auto dest: position_SomeD)
    have pos: "position (\<lambda>opt. option_id opt = Some k) (os[n := jset (current_key (os ! n)) v (os ! n)])
        = position (\<lambda>opt. option_id opt = Some k) os" for k
      using position_update_iff [OF n(1), of "\<lambda>opt. option_id opt = Some k" "\<lambda>opt. jset (current_key opt) v opt"]
      by (simp add: option_id_jset current_key_not_id)
    have other: "position (\<lambda>opt. option_id opt = Some j) os = Some m \<Longrightarrow> j \<noteq> i \<Longrightarrow> m \<noteq> n" for m
      using n(2) by (auto dest: position_SomeD)
    show ?thesis
      using JArr Some n other
      by (auto simp: set_config_option_current_value_def find_option_def find_position pos split: option.split)
  qed
qed (auto simp: set_config_option_current_value_def find_option_def)

lemma find_option_id: "find_option options i = Some opt \<Longrightarrow> option_id opt = Some i"
  by (auto simp: find_option_def dest: find_SomeD split: Option.bind_splits)

definition shown_value :: "json \<Rightarrow> string \<Rightarrow> json option" where
  "shown_value options i = Option.bind (find_option options i) config_current_value"

lemma shown_value_set:
  "shown_value (snd (set_config_option_current_value options i v)) j =
     (if j = i \<and> find_option options i \<noteq> None then Some v else shown_value options j)"
  using current_of_set [OF find_option_id] by (auto simp: shown_value_def find_option_set)

lemma shown_value_set_all:
  "distinct (map fst ps) \<Longrightarrow>
     shown_value (fold (\<lambda>(i, (v, t)) o'. snd (set_config_option_current_value o' i v)) ps options) j =
     (case map_of ps j of
        Some (v, _) \<Rightarrow> if find_option options j \<noteq> None then Some v else shown_value options j
      | None \<Rightarrow> shown_value options j)"
proof (induction ps arbitrary: options)
  case (Cons p ps)
  obtain i v t where p: "p = (i, (v, t))" by (cases p) auto
  have i: "map_of ps i = None" using Cons.prems p by (auto simp: map_of_eq_None_iff)
  have dom: "find_option (snd (set_config_option_current_value options i v)) j = None \<longleftrightarrow> find_option options j = None"
    by (simp add: find_option_set)
  show ?case
    using Cons i dom by (auto simp: p shown_value_set split: option.split)
qed simp

section \<open>Pending values settle together\<close>

lemma retained_sub: "set (retained now options pending) \<subseteq> set pending"
  by (auto simp: retained_def)

lemma retained_distinct: "distinct (map fst pending) \<Longrightarrow> distinct (map fst (retained now options pending))"
  by (simp add: retained_def distinct_map_filter_id)

lemma retained_found:
  "map_of (retained now options pending) i = Some (v, t) \<Longrightarrow> find_option options i \<noteq> None"
  by (auto simp: retained_def dest!: map_of_SomeD split: option.splits)

text \<open>Values set but not yet answered settle together. As soon as one snapshot of the agent reports every value
  still in flight, the snapshot is taken as it is and nothing stays pending; until then the snapshot is shown
  with every pending value in place of the agent's and with all other values as the agent reported them. Only
  values the agent no longer offers, or whose thirty seconds are over, leave the pending set.\<close>

theorem pending_values_settle_together:
  assumes "map_of (ch_in_flight h) sid = Some pending" and "distinct (map fst pending)"
    and "overlay_config_in_flight now sid options h = (options', h')" and "kept = retained now options pending"
  shows "if \<forall>(i, (v, _)) \<in> set kept. option_current_is options i v
     then options' = options \<and> \<not> config_changes_pending h' sid
     else map_of (ch_in_flight h') sid = Some kept
        \<and> (\<forall>j. shown_value options' j = (case map_of kept j of Some (v, _) \<Rightarrow> Some v | None \<Rightarrow> shown_value options j))"
proof (cases "list_all (\<lambda>(i, (v, _)). option_current_is options i v) kept")
  case True
  with assms show ?thesis
    by (auto simp: overlay_config_in_flight_def Let_def list_all_iff config_changes_pending_def delete_conv')
next
  case False
  with assms have o': "options' = fold (\<lambda>(i, (v, _)) o'. snd (set_config_option_current_value o' i v)) kept options"
    and h': "h' = h\<lparr>ch_in_flight := AList.update sid kept (ch_in_flight h)\<rparr>"
    by (simp_all add: overlay_config_in_flight_def Let_def)
  have d: "distinct (map fst kept)" using assms by (simp add: retained_distinct)
  have "shown_value options' j = (case map_of kept j of Some (v, _) \<Rightarrow> Some v | None \<Rightarrow> shown_value options j)" for j
    using shown_value_set_all [OF d, of options j] retained_found assms(4)
    unfolding o' by (force split: option.split)
  with False show ?thesis by (auto simp: list_all_iff h' update_conv')
qed

definition demo_options :: json where
  "demo_options = JArr [JObj [(''id'', JStr ''mode''), (''currentValue'', JStr ''slow'')]]"

definition demo_config_hub :: config_hub where
  "demo_config_hub = \<lparr>ch_sessions = [], ch_in_flight = [(''s'', [(''mode'', (JStr ''fast'', 0))])], ch_store = False, ch_effects = []\<rparr>"

lemma demo_find: "find_option demo_options ''mode'' = Some (JObj [(''id'', JStr ''mode''), (''currentValue'', JStr ''slow'')])"
  by (simp add: find_option_def demo_options_def option_id_def jget_str_def)

lemma demo_retained: "retained 5 demo_options [(''mode'', (JStr ''fast'', 0))] = [(''mode'', (JStr ''fast'', 0))]"
  by (simp add: retained_def demo_find SETTLE_DEADLINE_def config_option_accepts_def)

theorem pending_values_settle_together_witness:
  "shown_value (fst (overlay_config_in_flight 5 ''s'' demo_options demo_config_hub)) ''mode'' = Some (JStr ''fast'')"
proof -
  obtain o' h' where r: "overlay_config_in_flight 5 ''s'' demo_options demo_config_hub = (o', h')" by fastforce
  have "map_of (ch_in_flight demo_config_hub) ''s'' = Some [(''mode'', (JStr ''fast'', 0))]"
    by (simp add: demo_config_hub_def)
  from pending_values_settle_together [OF this _ r demo_retained [symmetric]] show ?thesis
    by (simp add: r option_current_is_def demo_find config_current_value_def json_eq_def)
qed

section \<open>A selection survives a stale answer\<close>

lemma json_eq_scalar: "scalar v \<Longrightarrow> json_eq c v \<longleftrightarrow> c = v"
  by (cases v; cases c) (auto simp: scalar_def json_eq_def)

lemma find_option_projected:
  assumes "effect_for_id b i = None"
  shows "find_option (the (projected_options shown pol b preferences (Some (JArr vs)))) i = find_option (JArr vs) i"
proof -
  let ?P = "\<lambda>opt. option_id opt = Some i" and ?kept = "filter (adapter_owned b) vs"
  let ?own = "List.map_filter (\<lambda>e. option_for shown pol e b preferences) (effects b)"
  have own: "find ?P ?own = None"
    using option_for_id effect_ids assms by (fastforce simp: find_None_iff List.map_filter_def)
  have kept: "find ?P ?kept = find ?P vs"
    using assms by (induction vs) (auto simp: adapter_owned_def)
  obtain n where "projected_options shown pol b preferences (Some (JArr vs)) = Some (JArr (take n ?kept @ ?own @ drop n ?kept))"
    using projected_array by blast
  moreover have "find ?P (take n ?kept @ ?own @ drop n ?kept) = find ?P ?kept"
    using find_append [of ?P "take n ?kept" "drop n ?kept"] own
    by (simp add: find_append split: option.split)
  ultimately show ?thesis using kept by (simp add: find_option_def)
qed

lemma pending_after_preference:
  assumes "set_config_preference shown pol t0 sid i v h = (Inr (), h1)"
  shows "map_of (pending_of h1 sid) i = Some (v, t0) \<and> map_of (ch_in_flight h1) sid = Some (pending_of h1 sid)
     \<and> scalar v \<and> (distinct (map fst (pending_of h sid)) \<longrightarrow> distinct (map fst (pending_of h1 sid)))
     \<and> map_option cs_behavior (map_of (ch_sessions h1) sid) = map_option cs_behavior (map_of (ch_sessions h) sid)
     \<and> map_of (ch_sessions h1) sid \<noteq> None"
proof -
  from assms have "ch_in_flight h1 = AList.update sid (AList.update i (v, t0) (pending_of h sid)) (ch_in_flight h)"
    by (auto simp: set_config_preference_def Let_def split: if_splits option.splits)
  then have p: "pending_of h1 sid = AList.update i (v, t0) (pending_of h sid)"
    "map_of (ch_in_flight h1) sid = Some (pending_of h1 sid)"
    by (simp_all add: pending_of_def update_conv')
  have s: "scalar v" "map_option cs_behavior (map_of (ch_sessions h1) sid) = map_option cs_behavior (map_of (ch_sessions h) sid)"
    "map_of (ch_sessions h1) sid \<noteq> None"
    using assms by (auto simp: set_config_preference_def Let_def update_conv' split: if_splits option.splits)
  show ?thesis using p s by (auto simp: update_conv' distinct_update)
qed

lemma overlay_shows_pending:
  assumes "map_of (ch_in_flight h) sid = Some pending" "distinct (map fst pending)"
    and "map_of pending i = Some (v, t0)" "now - t0 \<le> SETTLE_DEADLINE" "scalar v"
    and "find_option options i = Some opt" "config_option_accepts opt v"
  shows "shown_value (fst (overlay_config_in_flight now sid options h)) i = Some v"
proof -
  let ?kept = "retained now options pending"
  have kept: "map_of ?kept i = Some (v, t0)"
    using assms map_of_filter_key [OF assms(2), of "\<lambda>i (v, set_at). case find_option options i of
         None \<Rightarrow> False
       | Some opt \<Rightarrow> now - set_at \<le> SETTLE_DEADLINE \<and> (model_pending options pending \<or> config_option_accepts opt v)" i]
    by (simp add: retained_def)
  show ?thesis
  proof (cases "list_all (\<lambda>(i, (v, _)). option_current_is options i v) ?kept")
    case True
    then have "option_current_is options i v"
      using map_of_SomeD [OF kept] by (auto simp: list_all_iff)
    with True assms show ?thesis
      by (auto simp: overlay_config_in_flight_def Let_def shown_value_def option_current_is_def json_eq_scalar split: option.splits)
  next
    case False
    with assms kept show ?thesis
      using shown_value_set_all [of ?kept options i] retained_distinct [OF assms(2)]
      by (simp add: overlay_config_in_flight_def Let_def)
  qed
qed

text \<open>A value the user selected is not flipped back by the agent: a snapshot that arrives within thirty seconds
  of the selection and still offers the value is stored and broadcast with the selected value as the current
  one, whatever value the agent itself reports.\<close>

theorem selection_survives_stale_snapshot:
  assumes "set_config_preference shown pol t0 sid i v h = (Inr (), h1)"
    and "distinct (map fst (pending_of h sid))"
    and "map_option cs_behavior (map_of (ch_sessions h) sid) = Some b" "\<not> is_managed b i"
    and "find_option (JArr vs) i = Some opt" "config_option_accepts opt v"
    and "now - t0 \<le> SETTLE_DEADLINE"
  shows "\<exists>options. persisted_config_options (set_config_options shown pol now sid (JArr vs) h1) sid = Some options
     \<and> FanoutOptions sid options \<in> set (ch_effects (set_config_options shown pol now sid (JArr vs) h1))
     \<and> shown_value options i = Some v"
proof -
  note P = pending_after_preference [OF assms(1)]
  obtain s where s: "map_of (ch_sessions h1) sid = Some s" "cs_behavior s = b" using P assms(3) by auto
  have free: "effect_for_id b i = None" using assms(4) by (simp add: is_managed_def)
  obtain corrected prefs where r: "reconcile_config_preferences
      (Some (the (projected_config_options shown pol s (Some (JArr vs))))) (cs_preferences s) = (corrected, prefs)"
    by fastforce
  define options where "options = (if corrected
      then the (projected_config_options shown pol (s\<lparr>cs_preferences := prefs\<rparr>) (Some (JArr vs)))
      else the (projected_config_options shown pol s (Some (JArr vs))))"
  have "find_option options i = Some opt"
    using find_option_projected [OF free] assms(5) s(2) by (simp add: options_def projected_config_options_def)
  then have shows_v: "shown_value (fst (overlay_config_in_flight now sid options h1)) i = Some v"
    using overlay_shows_pending [where h = h1 and i = i and v = v and options = options and now = now] P assms by blast
  obtain o' h' where o': "overlay_config_in_flight now sid options h1 = (o', h')" by fastforce
  have "persisted_config_options (set_config_options shown pol now sid (JArr vs) h1) sid = Some o'
      \<and> FanoutOptions sid o' \<in> set (ch_effects (set_config_options shown pol now sid (JArr vs) h1))"
    using s(1) r o' by (simp add: set_config_options_def Let_def options_def persisted_config_options_def update_conv')
  with shows_v o' show ?thesis by auto
qed

definition demo_session_of :: "json \<Rightarrow> config_session" where
  "demo_session_of prefs = \<lparr>cs_identity = \<lparr>id_provider = ''p'', id_account = ''a'', id_generation_digest = ''d'',
       id_version = ''v'', id_auth_generation = None, id_machine = ''m'', id_owner = None\<rparr>,
     cs_behavior = PortableV1, cs_options = None, cs_initial = None, cs_preferences = prefs\<rparr>"

definition demo_tap_hub :: config_hub where
  "demo_tap_hub = \<lparr>ch_sessions = [(''s'', demo_session_of (JObj []))], ch_in_flight = [], ch_store = False, ch_effects = []\<rparr>"

theorem selection_survives_stale_snapshot_witness:
  "\<exists>h1 options. set_config_preference id undefined 0 ''s'' ''mode'' (JStr ''fast'') demo_tap_hub = (Inr (), h1)
     \<and> persisted_config_options (set_config_options id undefined 5 ''s'' demo_options h1) ''s'' = Some options
     \<and> shown_value options ''mode'' = Some (JStr ''fast'')"
proof -
  obtain h1 where h1: "set_config_preference id undefined 0 ''s'' ''mode'' (JStr ''fast'') demo_tap_hub = (Inr (), h1)"
    by (simp add: set_config_preference_def demo_tap_hub_def scalar_def Let_def)
  have opts: "demo_options = JArr [JObj [(''id'', JStr ''mode''), (''currentValue'', JStr ''slow'')]]"
    by (simp add: demo_options_def)
  have "distinct (map fst (pending_of demo_tap_hub ''s''))" "\<not> is_managed PortableV1 ''mode''"
    "map_option cs_behavior (map_of (ch_sessions demo_tap_hub) ''s'') = Some PortableV1"
    "config_option_accepts (JObj [(''id'', JStr ''mode''), (''currentValue'', JStr ''slow'')]) (JStr ''fast'')"
    by (simp_all add: pending_of_def demo_tap_hub_def is_managed_def effect_for_id_def effects_def supported_behavior_def
        demo_session_of_def config_option_accepts_def)
  from selection_survives_stale_snapshot [OF h1 this(1,3,2) demo_find [unfolded opts] this(4), of 5] h1
  show ?thesis by (auto simp: opts SETTLE_DEADLINE_def)
qed

section \<open>No selection outlives its choice\<close>

definition exempt :: "bool \<Rightarrow> json \<Rightarrow> bool" where
  "exempt changing opt \<longleftrightarrow> changing \<and> jget_str ''category'' opt = Some ''thought_level''"

definition kept_choice :: "json \<Rightarrow> json \<Rightarrow> json option" where
  "kept_choice opt selected =
     (if config_option_accepts opt selected then Some selected
      else case config_current_value opt of None \<Rightarrow> None | Some c \<Rightarrow> if scalar c then Some c else None)"

lemma reconcile_option_lookup:
  "map_of (snd (reconcile_option ch opt (b, prefs))) i =
     (if option_id opt = Some i \<and> \<not> exempt ch opt then Option.bind (map_of prefs i) (kept_choice opt) else map_of prefs i)"
proof -
  have eq: "scalar c \<Longrightarrow> json_eq c w \<longleftrightarrow> w = c" for c w
    using json_eq_scalar [of c w] by (auto simp: json_eq_def)
  show ?thesis
    by (auto simp: reconcile_option_def exempt_def kept_choice_def update_conv' delete_conv' eq split: option.splits)
qed

lemma reconcile_fold_lookup:
  "distinct (List.map_filter option_id os) \<Longrightarrow>
     map_of (snd (fold (reconcile_option ch) os (b, prefs))) i =
     (case find (\<lambda>opt. option_id opt = Some i \<and> \<not> exempt ch opt) os of
        None \<Rightarrow> map_of prefs i
      | Some opt \<Rightarrow> Option.bind (map_of prefs i) (kept_choice opt))"
proof (induction os arbitrary: b prefs)
  case (Cons opt os)
  obtain b1 p1 where r: "reconcile_option ch opt (b, prefs) = (b1, p1)" by fastforce
  have d: "distinct (List.map_filter option_id os)"
    using Cons.prems by (auto simp: map_filter_simps split: option.splits)
  have p1: "map_of p1 i =
     (if option_id opt = Some i \<and> \<not> exempt ch opt then Option.bind (map_of prefs i) (kept_choice opt) else map_of prefs i)"
    using reconcile_option_lookup [of ch opt b prefs i] r by simp
  show ?case
  proof (cases "option_id opt = Some i \<and> \<not> exempt ch opt")
    case True
    then have "find (\<lambda>opt. option_id opt = Some i \<and> \<not> exempt ch opt) os = None"
      using Cons.prems by (auto simp: find_None_iff map_filter_simps List.map_filter_def image_iff split: option.splits)
    with True p1 show ?thesis by (simp add: r Cons.IH [OF d])
  next
    case False
    with p1 have "map_of p1 i = map_of prefs i" by presburger
    with False show ?thesis by (auto simp: r Cons.IH [OF d] split: option.split)
  qed
qed simp

lemma reconcile_option_stable:
  assumes "\<forall>i selected. option_id opt = Some i \<longrightarrow> \<not> exempt ch opt \<longrightarrow> map_of prefs i = Some selected
      \<longrightarrow> kept_choice opt selected = Some selected"
  shows "reconcile_option ch opt (b, prefs) = (b, prefs)"
proof (cases "exempt ch opt \<or> option_id opt = None")
  case True
  then show ?thesis by (auto simp: reconcile_option_def exempt_def)
next
  case False
  then obtain i where i: "option_id opt = Some i" "\<not> exempt ch opt" by auto
  then show ?thesis
    using assms
    by (auto simp: reconcile_option_def exempt_def kept_choice_def json_eq_def split: option.splits if_splits)
qed

lemma reconcile_fold_stable:
  "\<forall>opt \<in> set os. \<forall>i selected. option_id opt = Some i \<longrightarrow> \<not> exempt ch opt \<longrightarrow> map_of prefs i = Some selected
      \<longrightarrow> kept_choice opt selected = Some selected
    \<Longrightarrow> fold (reconcile_option ch) os (b, prefs) = (b, prefs)"
  by (induction os) (simp_all add: reconcile_option_stable)

lemma find_unique_option:
  assumes "distinct (List.map_filter option_id os)" "opt \<in> set os" "option_id opt = Some i" "P opt"
  shows "find (\<lambda>opt. option_id opt = Some i \<and> P opt) os = Some opt"
  using assms
proof (induction os)
  case (Cons o' os)
  show ?case
  proof (cases "o' = opt")
    case False
    with Cons.prems have "opt \<in> set os" "option_id o' \<noteq> Some i"
      by (force simp: map_filter_simps List.map_filter_def split: option.splits)+
    with Cons show ?thesis by (auto simp: map_filter_simps split: option.splits)
  qed (use Cons.prems in simp)
qed simp

lemma kept_choice_kept: "kept_choice opt w = Some v \<Longrightarrow> kept_choice opt v = Some v"
  by (auto simp: kept_choice_def split: if_splits option.splits)



end
