(* ===== verification/Session_Trash.thy ===== *)
theory Session_Trash
  imports Folder_Properties Hub_State
begin

text \<open>
  The Trash of sessions and folders together (\<^verbatim>\<open>src/src/core/session_trash.rs\<close>): a move to Trash takes a folder
  with everything filed below it, a restore brings it back, a claim hands one trashed session to permanent
  deletion. The sessions are those of the Hub, in the order of its hash map, the folders those of the folder
  tree; the title and the sidebar project of a session come with it. Store writes and broadcasts are listed
  in the order the code sends them. Proved here: a move leaves nothing live behind in a trashed folder, a
  restore undoes it, and a crash between the writes never strands a session.
\<close>

section \<open>State\<close>

datatype trash_effect =
    TrashWrite "(unit, unit, unit, session_folder) store_write"
  | FoldersSent
  | SessionListSent

record listed_session =
  ls_session :: session
  ls_title :: string
  ls_project :: "string option"

record trash_state =
  tr_sessions :: "(string \<times> listed_session) list"
  tr_folders :: session_folders
  tr_persisted :: bool
  tr_effects :: "trash_effect list"

record trashed_outcome =
  to_sessions :: "string list"
  to_folders :: "string list"

record restored_outcome =
  ro_sessions :: "string list"
  ro_folders :: "string list"
  ro_notes :: "string list"

definition trash_refusal :: "session \<Rightarrow> string option" where
  "trash_refusal s =
     (if se_closing s then Some ''is being deleted''
      else if se_system s then Some ''is a system session''
      else if se_in_flight s \<or> se_status s = Busy then Some ''is working; stop it first''
      else if se_background_tasks s > 0 then Some ''has background work running; stop it first''
      else None)"

definition session_is_trashed :: "trash_state \<Rightarrow> string \<Rightarrow> bool" where
  "session_is_trashed st i \<longleftrightarrow>
     (case map_of (tr_sessions st) i of None \<Rightarrow> False | Some l \<Rightarrow> se_trashed_at_ms (ls_session l) \<noteq> None)"

definition shown_folder :: "trash_state \<Rightarrow> folder_actor \<Rightarrow> string \<Rightarrow> listed_session \<Rightarrow> string option" where
  "shown_folder st actor i l = display_folder (tr_folders st) actor i (ls_project l)"

definition stamp_sessions ::
    "string list \<Rightarrow> int option \<Rightarrow> (string \<times> listed_session) list \<Rightarrow> (string \<times> listed_session) list" where
  "stamp_sessions chosen v = map (\<lambda>(i, l).
     (i, if i \<in> set chosen then l\<lparr>ls_session := (ls_session l)\<lparr>se_trashed_at_ms := v\<rparr>\<rparr> else l))"

section \<open>Persisting\<close>

definition trash_writes ::
    "string list \<Rightarrow> int option \<Rightarrow> (string \<times> string option) list \<Rightarrow> (folder_owner \<times> session_folder list) list \<Rightarrow> bool
     \<Rightarrow> (unit, unit, unit, session_folder) store_write list" where
  "trash_writes sessions at pins by_owner sessions_first =
     (let session_write = (if sessions = [] then [] else [SetSessionsTrashed sessions at]);
          folder_writes = map (\<lambda>(owner, fs). ReplaceSessionFolders owner fs) by_owner
                          @ (if pins = [] then [] else [UpdateSessionPlacement pins])
      in if sessions_first then session_write @ folder_writes else folder_writes @ session_write)"

definition persist_trash ::
    "string list \<Rightarrow> int option \<Rightarrow> (string \<times> string option) list \<Rightarrow> (folder_owner \<times> session_folder list) list \<Rightarrow> bool
     \<Rightarrow> trash_state \<Rightarrow> trash_state" where
  "persist_trash sessions at pins by_owner sessions_first st =
     st\<lparr>tr_effects := tr_effects st
          @ (if tr_persisted st then map TrashWrite (trash_writes sessions at pins by_owner sessions_first) else [])
          @ [FoldersSent] @ (if sessions = [] then [] else [SessionListSent])\<rparr>"

definition by_owner :: "session_folders \<Rightarrow> folder_owner list \<Rightarrow> (folder_owner \<times> session_folder list) list" where
  "by_owner t owners = map (\<lambda>o'. (o', folders_of (folders t) o')) owners"

section \<open>Moving to Trash\<close>

fun chosen_targets ::
    "trash_state \<Rightarrow> folder_actor \<Rightarrow> string list \<Rightarrow> string + (string \<times> string option) list" where
  "chosen_targets st actor [] = Inr []"
| "chosen_targets st actor (i # is) =
     rbind (ok_or (map_of (tr_sessions st) i) ''Session no longer exists'') (\<lambda>l.
     rbind (chosen_targets st actor is) (\<lambda>rest.
       Inr (if se_trashed_at_ms (ls_session l) \<noteq> None then rest else (i, shown_folder st actor i l) # rest)))"

definition carried_targets ::
    "trash_state \<Rightarrow> folder_actor \<Rightarrow> string list \<Rightarrow> (string \<times> string option) list \<Rightarrow> (string \<times> string option) list" where
  "carried_targets st actor inside chosen =
     (if inside = [] then []
      else List.map_filter (\<lambda>(i, l).
        if se_trashed_at_ms (ls_session l) \<noteq> None \<or> se_managed_child (ls_session l) \<or> i \<in> fst ` set chosen then None
        else case shown_folder st actor i l of
          Some f \<Rightarrow> if f \<in> set inside then Some (i, Some f) else None
        | None \<Rightarrow> None) (tr_sessions st))"

fun check_trash_targets :: "trash_state \<Rightarrow> folder_actor \<Rightarrow> (string \<times> string option) list \<Rightarrow> string + unit" where
  "check_trash_targets st actor [] = Inr ()"
| "check_trash_targets st actor ((i, f) # ts) =
     (case map_of (tr_sessions st) i of
        None \<Rightarrow> Inl ''unreachable''
      | Some l \<Rightarrow>
          if \<not> sees_all actor \<and> se_owner (ls_session l) \<noteq> user_id actor
          then Inl ''not allowed to change this session''
          else case trash_refusal (ls_session l) of
            Some reason \<Rightarrow> Inl (quoted (ls_title l) @ '' '' @ reason)
          | None \<Rightarrow> check_trash_targets st actor ts)"

definition trash_items ::
    "folder_actor \<Rightarrow> string list \<Rightarrow> string list \<Rightarrow> int \<Rightarrow> trash_state \<Rightarrow> string + trashed_outcome \<times> trash_state" where
  "trash_items actor folder_ids session_ids now st =
     rbind (trash (tr_folders st) actor folder_ids now) (\<lambda>((trashed, owners), candidate).
     rbind (chosen_targets st actor session_ids) (\<lambda>chosen.
       let targets = chosen @ carried_targets st actor trashed chosen in
       rbind (check_trash_targets st actor targets) (\<lambda>_.
         let (pins, t) = pin candidate (filter (\<lambda>(_, f). f \<noteq> None) targets);
             st1 = st\<lparr>tr_sessions := stamp_sessions (map fst targets) (Some now) (tr_sessions st), tr_folders := t\<rparr>
         in Inr (\<lparr>to_sessions = map fst targets, to_folders = trashed\<rparr>,
                 persist_trash (map fst targets) (Some now) pins (by_owner t owners) False st1))))"

section \<open>Restoring\<close>

fun chosen_restored :: "trash_state \<Rightarrow> string list \<Rightarrow> string + string list" where
  "chosen_restored st [] = Inr []"
| "chosen_restored st (i # is) =
     rbind (ok_or (map_of (tr_sessions st) i) ''Session no longer exists'') (\<lambda>l.
       if se_trashed_at_ms (ls_session l) = None then Inl (quoted (ls_title l) @ '' is not in Trash'')
       else rbind (chosen_restored st is) (\<lambda>rest. Inr (i # rest)))"

definition carried_restored :: "trash_state \<Rightarrow> session_folders \<Rightarrow> string list \<Rightarrow> string list \<Rightarrow> string list" where
  "carried_restored st t restored chosen =
     map fst (filter (\<lambda>(i, l). se_trashed_at_ms (ls_session l) \<noteq> None \<and> i \<notin> set chosen
       \<and> (case placement_of t i of None \<Rightarrow> False | Some f \<Rightarrow> f \<in> set restored)) (tr_sessions st))"

fun check_restored :: "trash_state \<Rightarrow> folder_actor \<Rightarrow> string list \<Rightarrow> string + unit" where
  "check_restored st actor [] = Inr ()"
| "check_restored st actor (i # is) =
     (case map_of (tr_sessions st) i of
        None \<Rightarrow> Inl ''unreachable''
      | Some l \<Rightarrow>
          if \<not> sees_all actor \<and> se_owner (ls_session l) \<noteq> user_id actor
          then Inl ''not allowed to change this session''
          else if se_closing (ls_session l) then Inl (quoted (ls_title l) @ '' is being deleted permanently'')
          else check_restored st actor is)"

definition moved_pins :: "session_folders \<Rightarrow> string list \<Rightarrow> (string \<times> string option) list" where
  "moved_pins t targets = List.map_filter (\<lambda>i.
     case placement_of t i of
       None \<Rightarrow> None
     | Some f \<Rightarrow>
         if f \<noteq> TOP_LEVEL \<and> nearest_live (folders t) (Some f) \<noteq> Some f
         then Some (i, nearest_live (folders t) (Some f)) else None) targets"

definition restore_items ::
    "folder_actor \<Rightarrow> string list \<Rightarrow> string list \<Rightarrow> trash_state \<Rightarrow> string + restored_outcome \<times> trash_state" where
  "restore_items actor folder_ids session_ids st =
     rbind (restore (tr_folders st) actor folder_ids) (\<lambda>((restored, owners, notes), candidate).
     rbind (chosen_restored st session_ids) (\<lambda>chosen.
       let targets = chosen @ carried_restored st candidate restored chosen in
       rbind (check_restored st actor targets) (\<lambda>_.
         let moves = moved_pins candidate targets;
             moved = length moves;
             (pins, t) = pin candidate moves;
             notes = (if moved > 0 \<and> folder_ids = [] \<and> length session_ids = 1
                      then notes @ [''Its folder is not available, so it was restored to the nearest available folder.'']
                      else if moved > 0
                      then notes @ [show_nat moved @ '' sessions were restored to the nearest available folder.'']
                      else notes);
             st1 = st\<lparr>tr_sessions := stamp_sessions targets None (tr_sessions st), tr_folders := t\<rparr>
         in Inr (\<lparr>ro_sessions = targets, ro_folders = restored, ro_notes = notes\<rparr>,
                 persist_trash targets None pins (by_owner t owners) True st1))))"

section \<open>Deleting for good\<close>

definition purge_trashed_folders :: "folder_actor \<Rightarrow> string list \<Rightarrow> trash_state \<Rightarrow> string list \<times> trash_state" where
  "purge_trashed_folders actor folder_ids st =
     (let occupied = List.map_filter (\<lambda>(i, _). placement_of (tr_folders st) i) (tr_sessions st);
          ((removed, owners), t) = purge (tr_folders st) actor folder_ids occupied;
          st1 = st\<lparr>tr_folders := t\<rparr>
      in (removed, if removed = [] then st1 else persist_trash [] None [] (by_owner t owners) False st1))"

definition check_trashed_folders :: "folder_actor \<Rightarrow> string list \<Rightarrow> trash_state \<Rightarrow> string + unit" where
  "check_trashed_folders actor folder_ids st = check_trashed (folders (tr_folders st)) actor folder_ids"

definition claim_trash_deletion :: "string \<Rightarrow> int option \<Rightarrow> trash_state \<Rightarrow> bool \<times> trash_state" where
  "claim_trash_deletion i expected st =
     (case map_of (tr_sessions st) i of
        None \<Rightarrow> (False, st)
      | Some l \<Rightarrow>
          let s = ls_session l in
          if \<not> se_closing s \<and> se_trashed_at_ms s \<noteq> None \<and> (expected = None \<or> se_trashed_at_ms s = expected)
          then (True, st\<lparr>tr_sessions := AList.update i (l\<lparr>ls_session := s\<lparr>se_closing := True\<rparr>\<rparr>) (tr_sessions st),
                         tr_effects := tr_effects st @ [SessionListSent]\<rparr>)
          else (False, st))"

definition session_folder_placement :: "trash_state \<Rightarrow> string \<Rightarrow> string option" where
  "session_folder_placement st i =
     (case placement_of (tr_folders st) i of None \<Rightarrow> None | Some f \<Rightarrow> if f = TOP_LEVEL then None else Some f)"

definition trash_contents :: "trash_state \<Rightarrow> (string \<times> string option \<times> int) list \<times> session_folder list" where
  "trash_contents st =
     (List.map_filter (\<lambda>(i, l). map_option (\<lambda>at. (i, se_owner (ls_session l), at)) (se_trashed_at_ms (ls_session l)))
        (tr_sessions st),
      trashed_folders (tr_folders st))"

section \<open>What a move to Trash does\<close>

lemma stamp_keys: "map fst (stamp_sessions is v ls) = map fst ls"
  by (induction ls) (auto simp: stamp_sessions_def)

lemma map_of_stamp:
  "map_of (stamp_sessions is v ls) i =
     map_option (\<lambda>l. if i \<in> set is then l\<lparr>ls_session := (ls_session l)\<lparr>se_trashed_at_ms := v\<rparr>\<rparr> else l) (map_of ls i)"
  by (induction ls) (auto simp: stamp_sessions_def)

lemma map_of_pin:
  "map_of (fold (\<lambda>p m. AList.update (fst p) (g p) m) pins m) i =
     (case find (\<lambda>p. fst p = i) (rev pins) of None \<Rightarrow> map_of m i | Some p \<Rightarrow> Some (g p))"
  by (induction pins arbitrary: m) (auto simp: update_conv' find_append split: option.split)

lemma chosen_targets_ok:
  "chosen_targets st actor is = Inr ts \<Longrightarrow>
     set ts = {(i, f). i \<in> set is \<and> (\<exists>l. map_of (tr_sessions st) i = Some l \<and> se_trashed_at_ms (ls_session l) = None
       \<and> f = shown_folder st actor i l)}"
proof (induction "is" arbitrary: ts)
  case (Cons i "is")
  then obtain l rest where l: "map_of (tr_sessions st) i = Some l" "chosen_targets st actor is = Inr rest"
      "ts = (if se_trashed_at_ms (ls_session l) \<noteq> None then rest else (i, shown_folder st actor i l) # rest)"
    by (cases "map_of (tr_sessions st) i"; cases "chosen_targets st actor is") (auto simp: ok_or_def)
  with Cons.IH [OF l(2)] show ?case by auto
qed simp

lemma in_keys: "i \<in> set (map fst xs) \<longleftrightarrow> (\<exists>f. (i, f) \<in> set xs)"
  by force

lemma in_map_filter: "y \<in> set (List.map_filter g xs) \<longleftrightarrow> (\<exists>x \<in> set xs. g x = Some y)"
  by (force simp: List.map_filter_def)

lemma carried_targets_set:
  "(i, f) \<in> set (carried_targets st actor inside chosen) \<longleftrightarrow>
     (\<exists>l g. (i, l) \<in> set (tr_sessions st) \<and> se_trashed_at_ms (ls_session l) = None \<and> \<not> se_managed_child (ls_session l)
       \<and> i \<notin> fst ` set chosen \<and> shown_folder st actor i l = Some g \<and> g \<in> set inside \<and> f = Some g)"
proof -
  let ?G = "\<lambda>(i, l). if se_trashed_at_ms (ls_session l) \<noteq> None \<or> se_managed_child (ls_session l) \<or> i \<in> fst ` set chosen then None
        else case shown_folder st actor i l of
          Some f \<Rightarrow> if f \<in> set inside then Some (i, Some f) else None
        | None \<Rightarrow> None"
  have G: "?G (a, l) = Some (i, f) \<longleftrightarrow> a = i \<and> se_trashed_at_ms (ls_session l) = None \<and> \<not> se_managed_child (ls_session l)
       \<and> i \<notin> fst ` set chosen \<and> (\<exists>g. shown_folder st actor i l = Some g \<and> g \<in> set inside \<and> f = Some g)" for a l
    by (auto split: option.split)
  have "carried_targets st actor inside chosen = (if inside = [] then [] else List.map_filter ?G (tr_sessions st))"
    by (simp only: carried_targets_def)
  moreover have "(i, f) \<in> set (List.map_filter ?G (tr_sessions st)) \<longleftrightarrow>
      (\<exists>a l. (a, l) \<in> set (tr_sessions st) \<and> ?G (a, l) = Some (i, f))"
    unfolding in_map_filter Bex_def split_paired_Ex by (rule refl)
  ultimately show ?thesis unfolding G by auto
qed

lemma check_trash_targets_ok:
  "check_trash_targets st actor ts = Inr () \<Longrightarrow> (i, f) \<in> set ts \<Longrightarrow>
     \<exists>l. map_of (tr_sessions st) i = Some l \<and> trash_refusal (ls_session l) = None
       \<and> (sees_all actor \<or> se_owner (ls_session l) = user_id actor)"
  by (induction st actor ts rule: check_trash_targets.induct) (auto split: option.splits if_splits)

lemma trash_items_cases:
  assumes "trash_items actor folder_ids session_ids now st = Inr (out, st')"
  obtains owners candidate chosen pins t where
    "trash (tr_folders st) actor folder_ids now = Inr ((to_folders out, owners), candidate)"
    "chosen_targets st actor session_ids = Inr chosen"
    "check_trash_targets st actor (chosen @ carried_targets st actor (to_folders out) chosen) = Inr ()"
    "pin candidate (filter (\<lambda>(_, f). f \<noteq> None) (chosen @ carried_targets st actor (to_folders out) chosen)) = (pins, t)"
    "to_sessions out = map fst (chosen @ carried_targets st actor (to_folders out) chosen)"
    "st' = persist_trash (to_sessions out) (Some now) pins (by_owner t owners) False
       (st\<lparr>tr_sessions := stamp_sessions (to_sessions out) (Some now) (tr_sessions st), tr_folders := t\<rparr>)"
proof -
  from assms obtain T owners candidate where tr: "trash (tr_folders st) actor folder_ids now = Inr ((T, owners), candidate)"
    by (cases "trash (tr_folders st) actor folder_ids now") (auto simp: trash_items_def)
  with assms obtain chosen where ch: "chosen_targets st actor session_ids = Inr chosen"
    by (cases "chosen_targets st actor session_ids") (auto simp: trash_items_def)
  let ?targets = "chosen @ carried_targets st actor T chosen"
  from assms tr ch have ck: "check_trash_targets st actor ?targets = Inr ()"
    by (cases "check_trash_targets st actor ?targets") (auto simp: trash_items_def Let_def)
  obtain pins t where p: "pin candidate (filter (\<lambda>(_, f). f \<noteq> None) ?targets) = (pins, t)" by fastforce
  from assms tr ch ck p have out: "to_folders out = T" "to_sessions out = map fst ?targets"
    "st' = persist_trash (map fst ?targets) (Some now) pins (by_owner t owners) False
       (st\<lparr>tr_sessions := stamp_sessions (map fst ?targets) (Some now) (tr_sessions st), tr_folders := t\<rparr>)"
    by (auto simp: trash_items_def Let_def)
  show ?thesis
    by (rule that [of owners candidate chosen pins t]) (use tr ch ck p out in auto)
qed

lemma persist_frame [simp]:
  "tr_sessions (persist_trash a b c d e st) = tr_sessions st" "tr_folders (persist_trash a b c d e st) = tr_folders st"
  by (simp_all add: persist_trash_def)

lemma target_shown:
  assumes "distinct (map fst (tr_sessions st))" "chosen_targets st actor is = Inr chosen"
    and "(i, f) \<in> set (chosen @ carried_targets st actor T chosen)"
  shows "\<exists>l. map_of (tr_sessions st) i = Some l \<and> se_trashed_at_ms (ls_session l) = None \<and> f = shown_folder st actor i l"
  using assms chosen_targets_ok [OF assms(2)] by (auto simp: carried_targets_set)

lemma pin_placement:
  assumes "pin t0 ts = (pins, t)"
  shows "placement_of t i = (case find (\<lambda>p. fst p = i) (rev ts) of
       None \<Rightarrow> placement_of t0 i | Some p \<Rightarrow> Some (case snd p of None \<Rightarrow> TOP_LEVEL | Some f \<Rightarrow> f))"
proof -
  have t: "t = snd (pin t0 ts)" using assms by simp
  have "placement (if ts \<noteq> [] then changed t0 else t0) = placement t0" by (simp add: changed_def)
  then show ?thesis
    unfolding t placement_of_def by (simp add: pin_def Let_def map_of_pin)
qed

lemma pin_target:
  assumes "pin t0 ts = (pins, t)" "i \<in> set (map fst ts)" "\<And>f. (i, f) \<in> set ts \<Longrightarrow> f = Some g"
  shows "placement_of t i = Some g"
proof -
  from assms(2) have "find (\<lambda>p. fst p = i) (rev ts) \<noteq> None" by (auto simp: find_None_iff)
  then obtain p where p: "find (\<lambda>p. fst p = i) (rev ts) = Some p" by blast
  from find_SomeD [OF p] assms(3) have "snd p = Some g" by (cases p) auto
  with p show ?thesis by (simp add: pin_placement [OF assms(1)])
qed

lemma pinned_target:
  assumes d: "distinct (map fst (tr_sessions st))" and c: "chosen_targets st actor is = Inr chosen"
    and l: "map_of (tr_sessions st) i = Some l" "i \<in> set (map fst (chosen @ carried_targets st actor T chosen))"
    and p: "pin candidate (filter (\<lambda>(_, f). f \<noteq> None) (chosen @ carried_targets st actor T chosen)) = (pins, t)"
    and g: "shown_folder st actor i l = Some g"
  shows "placement_of t i = Some g"
proof (rule pin_target [OF p])
  let ?ts = "chosen @ carried_targets st actor T chosen"
  have only: "f = Some g" if "(i, f) \<in> set ?ts" for f
    using target_shown [OF d c that] l(1) g by auto
  from l(2) obtain f where "(i, f) \<in> set ?ts" unfolding in_keys by blast
  with only have "(i, Some g) \<in> set (filter (\<lambda>(_, f). f \<noteq> None) ?ts)" by auto
  then show "i \<in> set (map fst (filter (\<lambda>(_, f). f \<noteq> None) ?ts))" unfolding in_keys by blast
  show "f = Some g" if "(i, f) \<in> set (filter (\<lambda>(_, f). f \<noteq> None) ?ts)" for f
    using only [of f] that unfolding set_filter by blast
qed

text \<open>C26: A move to Trash is complete and takes only what may stop: it stamps exactly the sessions it reports, each of
  them idle, the actor's to change and pinned to the folder it was shown in; and no live session of its own
  is left behind in a folder that went to Trash.\<close>

theorem trash_leaves_nothing_live_behind:
  assumes "trash_items actor folder_ids session_ids now st = Inr (out, st')"
    and "distinct (map fst (tr_sessions st))" and "map_of (tr_sessions st) i = Some l"
  shows "if i \<in> set (to_sessions out)
     then trash_refusal (ls_session l) = None \<and> (sees_all actor \<or> se_owner (ls_session l) = user_id actor)
        \<and> se_trashed_at_ms (ls_session l) = None
        \<and> map_of (tr_sessions st') i = Some (l\<lparr>ls_session := (ls_session l)\<lparr>se_trashed_at_ms := Some now\<rparr>\<rparr>)
        \<and> (\<forall>f. shown_folder st actor i l = Some f \<longrightarrow> placement_of (tr_folders st') i = Some f)
     else map_of (tr_sessions st') i = Some l
        \<and> (se_trashed_at_ms (ls_session l) = None \<longrightarrow> \<not> se_managed_child (ls_session l)
            \<longrightarrow> (\<forall>f \<in> set (to_folders out). shown_folder st actor i l \<noteq> Some f))"
proof -
  from trash_items_cases [OF assms(1)] obtain owners candidate chosen pins t where
      tr: "trash (tr_folders st) actor folder_ids now = Inr ((to_folders out, owners), candidate)"
    and ch: "chosen_targets st actor session_ids = Inr chosen"
    and ck: "check_trash_targets st actor (chosen @ carried_targets st actor (to_folders out) chosen) = Inr ()"
    and p: "pin candidate (filter (\<lambda>(_, f). f \<noteq> None) (chosen @ carried_targets st actor (to_folders out) chosen)) = (pins, t)"
    and out: "to_sessions out = map fst (chosen @ carried_targets st actor (to_folders out) chosen)"
    and st': "st' = persist_trash (to_sessions out) (Some now) pins (by_owner t owners) False
       (st\<lparr>tr_sessions := stamp_sessions (to_sessions out) (Some now) (tr_sessions st), tr_folders := t\<rparr>)"
    by metis
  have at: "map_of (tr_sessions st') i =
      Some (if i \<in> set (to_sessions out) then l\<lparr>ls_session := (ls_session l)\<lparr>se_trashed_at_ms := Some now\<rparr>\<rparr> else l)"
    by (simp add: st' map_of_stamp assms(3))
  show ?thesis
  proof (cases "i \<in> set (to_sessions out)")
    case True
    then obtain f where f: "(i, f) \<in> set (chosen @ carried_targets st actor (to_folders out) chosen)"
      unfolding out in_keys by blast
    have "placement_of (tr_folders st') i = Some g" if "shown_folder st actor i l = Some g" for g
      using pinned_target [OF assms(2) ch assms(3) True [unfolded out] p that] by (simp add: st')
    with True at check_trash_targets_ok [OF ck f] target_shown [OF assms(2) ch f] assms(3) show ?thesis by auto
  next
    case False
    have "shown_folder st actor i l \<noteq> Some g" if "g \<in> set (to_folders out)" "se_trashed_at_ms (ls_session l) = None"
      "\<not> se_managed_child (ls_session l)" for g
    proof
      assume "shown_folder st actor i l = Some g"
      moreover have "i \<notin> fst ` set chosen" using False by (auto simp: out)
      ultimately have "(i, Some g) \<in> set (carried_targets st actor (to_folders out) chosen)"
        unfolding carried_targets_set using that map_of_SomeD [OF assms(3)] by blast
      then show False using False by (force simp: out)
    qed
    with False at show ?thesis by auto
  qed
qed

definition demo_listed :: listed_session where
  "demo_listed = \<lparr>ls_session = new_session False False (Some ''u'') ''m'' ''p'' ''g'' 0, ls_title = ''t'', ls_project = None\<rparr>"

definition demo_trash_state :: trash_state where
  "demo_trash_state = \<lparr>tr_sessions = [(''s1'', demo_listed), (''s2'', demo_listed)], tr_folders = demo_live,
     tr_persisted = True, tr_effects = []\<rparr>"

lemma demo_trash_run:
  obtains out st1 where "trash_items demo_actor [''b''] [] 7 demo_trash_state = Inr (out, st1)"
    "to_sessions out = [''s1'']" "to_folders out = [''b'', ''c'']"
    "map_option (ls_title) (map_of (tr_sessions demo_trash_state) ''s1'') = Some ''t''"
proof -
  have "(case trash_items demo_actor [''b''] [] 7 demo_trash_state of Inl e \<Rightarrow> False
       | Inr (out, st1) \<Rightarrow> to_sessions out = [''s1''] \<and> to_folders out = [''b'', ''c''])"
    by code_simp
  then show thesis using that by (auto simp: demo_trash_state_def demo_listed_def split: sum.splits prod.splits)
qed

lemma demo_sessions: "map_of (tr_sessions demo_trash_state) ''s1'' = Some demo_listed" "distinct (map fst (tr_sessions demo_trash_state))"
  by (simp_all add: demo_trash_state_def)

theorem trash_leaves_nothing_live_behind_witness:
  "\<exists>out st1. trash_items demo_actor [''b''] [] 7 demo_trash_state = Inr (out, st1)
     \<and> map_of (tr_sessions st1) ''s1'' = Some (demo_listed\<lparr>ls_session := (ls_session demo_listed)\<lparr>se_trashed_at_ms := Some 7\<rparr>\<rparr>)"
proof (rule demo_trash_run)
  fix out st1 assume run: "trash_items demo_actor [''b''] [] 7 demo_trash_state = Inr (out, st1)" "to_sessions out = [''s1'']"
  from trash_leaves_nothing_live_behind [OF run(1) demo_sessions(2,1)] run show ?thesis by auto
qed

section \<open>A restore undoes a move\<close>

lemma restore_placement: "restore t actor xs = Inr ((R, owners, msgs), t') \<Longrightarrow> placement t' = placement t"
  by (cases "restore_collect (folders t) actor xs []") (auto simp: restore_def Let_def changed_def split: prod.splits)

lemma trash_placement: "trash t actor xs now = Inr ((T, owners), t') \<Longrightarrow> placement t' = placement t"
  by (cases "trash_collect (folders t) actor xs []") (auto simp: trash_def Let_def changed_def)

lemma pin_folders: "pin t0 ts = (pins, t) \<Longrightarrow> folders t = folders t0"
  by (auto simp: pin_def Let_def changed_def split: if_splits)

lemma nearest_live_self:
  assumes "ids_distinct fs" "f \<in> set fs" "f_trashed f = None"
  shows "nearest_live fs (Some (f_id f)) = Some (f_id f)"
proof -
  have "find_folder fs (f_id f) = Some f" using assms by (simp add: find_folder_Some)
  with assms(3) show ?thesis by (simp add: nearest_live_def)
qed

lemma moved_pins_stays:
  assumes "placement_of t i = Some f" "nearest_live (folders t) (Some f) = Some f"
  shows "i \<notin> fst ` set (moved_pins t xs)"
proof
  assume "i \<in> fst ` set (moved_pins t xs)"
  then obtain g where "(i, g) \<in> set (moved_pins t xs)" by auto
  then show False
    unfolding moved_pins_def in_map_filter using assms by (auto split: option.splits if_splits)
qed

lemma carried_restored_set:
  "i \<in> set (carried_restored st t R chosen) \<longleftrightarrow>
     (\<exists>l. (i, l) \<in> set (tr_sessions st) \<and> se_trashed_at_ms (ls_session l) \<noteq> None \<and> i \<notin> set chosen
       \<and> (\<exists>f. placement_of t i = Some f \<and> f \<in> set R))"
  by (force simp: carried_restored_def split: option.splits)

lemma trash_inside_subtree:
  assumes "tree_ok (folders t)" "trash t actor xs now = Inr ((T, owners), t')"
    and "restore t'' actor xs = Inr ((R, owners', msgs), t3)" "folders t'' = folders t'" "tree_ok (folders t'')"
  shows "set T \<subseteq> set R"
proof
  fix b assume b: "b \<in> set T"
  have stamped: "folders t' = stamp_trashed T (Some now) (folders t)" by (rule trash_spec(1) [OF assms(1,2)])
  from b trash_spec(2) [OF assms(1,2)] obtain x where x: "x \<in> set xs" "(b, x) \<in> (parent_rel (folders t))\<^sup>*" by blast
  have "\<exists>f \<in> set (folders t). f_id f = b"
  proof -
    from trash_spec(3) [OF assms(1,2)] x(1) obtain g where g: "g \<in> set (folders t)" "f_id g = x" by blast
    from x(2) show ?thesis
      by (cases rule: converse_rtranclE) (use g in \<open>auto simp: parent_rel_def\<close>)
  qed
  then obtain f where f: "f \<in> set (folders t)" "f_id f = b" by blast
  have "f\<lparr>f_trashed := Some now\<rparr> \<in> set (folders t'')"
    using f b unfolding assms(4) stamped in_stamp by auto
  then have "is_trashed (folders t'') b"
    using is_trashed_iff [of "folders t''" "f\<lparr>f_trashed := Some now\<rparr>"] tree_okD(1) [OF assms(5)] f(2) by simp
  moreover have "parent_rel (folders t'') = parent_rel (folders t)"
    by (simp add: assms(4) stamped stamp_fields)
  ultimately show "b \<in> set R"
    using restore_spec(2) [OF assms(5,3)] x by auto
qed

lemma restored_is_live:
  assumes "tree_ok (folders t)" "restore t actor xs = Inr ((R, owners, msgs), t')" "b \<in> set R"
  shows "nearest_live (folders t') (Some b) = Some b"
proof -
  from restore_spec(2) [OF assms(1,2)] assms(3) have tr: "is_trashed (folders t) b" by blast
  then obtain f where f: "f \<in> set (folders t)" "f_id f = b"
    by (auto simp: is_trashed_def split: option.splits dest: find_folderD)
  then have "(b, None) \<in># mset (map (\<lambda>f. (f_id f, if f_id f \<in> set R then None else f_trashed f)) (folders t))"
    using assms(3) by force
  then have "(b, None) \<in># mset (map (\<lambda>f. (f_id f, f_trashed f)) (folders t'))"
    using restore_spec(4) [OF assms(1,2)] by simp
  then obtain g where "g \<in> set (folders t')" "f_id g = b" "f_trashed g = None" by auto
  then show ?thesis
    using nearest_live_self tree_okD(1) [OF restore_spec(1) [OF assms(1,2)]] by blast
qed

lemma restore_items_cases:
  assumes "restore_items actor folder_ids session_ids st = Inr (out, st')"
  obtains owners msgs candidate chosen pins t where
    "restore (tr_folders st) actor folder_ids = Inr ((ro_folders out, owners, msgs), candidate)"
    "chosen_restored st session_ids = Inr chosen"
    "ro_sessions out = chosen @ carried_restored st candidate (ro_folders out) chosen"
    "check_restored st actor (ro_sessions out) = Inr ()"
    "pin candidate (moved_pins candidate (ro_sessions out)) = (pins, t)"
    "st' = persist_trash (ro_sessions out) None pins (by_owner t owners) True
       (st\<lparr>tr_sessions := stamp_sessions (ro_sessions out) None (tr_sessions st), tr_folders := t\<rparr>)"
proof -
  from assms obtain R owners msgs candidate where
      re: "restore (tr_folders st) actor folder_ids = Inr ((R, owners, msgs), candidate)"
    by (cases "restore (tr_folders st) actor folder_ids") (auto simp: restore_items_def)
  with assms obtain chosen where ch: "chosen_restored st session_ids = Inr chosen"
    by (cases "chosen_restored st session_ids") (auto simp: restore_items_def)
  let ?targets = "chosen @ carried_restored st candidate R chosen"
  from assms re ch have ck: "check_restored st actor ?targets = Inr ()"
    by (cases "check_restored st actor ?targets") (auto simp: restore_items_def Let_def)
  obtain pins t where p: "pin candidate (moved_pins candidate ?targets) = (pins, t)" by fastforce
  from assms re ch ck p have out: "ro_folders out = R" "ro_sessions out = ?targets"
    "st' = persist_trash ?targets None pins (by_owner t owners) True
       (st\<lparr>tr_sessions := stamp_sessions ?targets None (tr_sessions st), tr_folders := t\<rparr>)"
    by (auto simp: restore_items_def Let_def)
  show ?thesis
    by (rule that [of owners msgs candidate chosen pins t]) (use re ch ck p out in auto)
qed

text \<open>C23: Restoring folders undoes their move to Trash: every session the move took is live again exactly as it was
  and filed in the folder it was shown in before.\<close>

theorem restore_undoes_trash:
  assumes "trash_items actor folder_ids [] now st = Inr (out, st1)"
    and "restore_items actor folder_ids [] st1 = Inr (rst, st2)"
    and "tree_ok (folders (tr_folders st))" "distinct (map fst (tr_sessions st))"
    and "i \<in> set (to_sessions out)" "map_of (tr_sessions st) i = Some l"
  shows "map_of (tr_sessions st2) i = Some l
     \<and> (\<exists>f. shown_folder st actor i l = Some f \<and> placement_of (tr_folders st2) i = Some f)"
proof -
  from trash_items_cases [OF assms(1)] obtain owners candidate chosen pins t where
      tr: "trash (tr_folders st) actor folder_ids now = Inr ((to_folders out, owners), candidate)"
    and ch: "chosen_targets st actor [] = Inr chosen"
    and p: "pin candidate (filter (\<lambda>(_, f). f \<noteq> None) (chosen @ carried_targets st actor (to_folders out) chosen)) = (pins, t)"
    and out: "to_sessions out = map fst (chosen @ carried_targets st actor (to_folders out) chosen)"
    and st1: "st1 = persist_trash (to_sessions out) (Some now) pins (by_owner t owners) False
       (st\<lparr>tr_sessions := stamp_sessions (to_sessions out) (Some now) (tr_sessions st), tr_folders := t\<rparr>)"
    by metis
  from restore_items_cases [OF assms(2)] obtain owners' msgs candidate' chosen' pins' t' where
      re: "restore (tr_folders st1) actor folder_ids = Inr ((ro_folders rst, owners', msgs), candidate')"
    and ch': "chosen_restored st1 [] = Inr chosen'"
    and targets: "ro_sessions rst = chosen' @ carried_restored st1 candidate' (ro_folders rst) chosen'"
    and p': "pin candidate' (moved_pins candidate' (ro_sessions rst)) = (pins', t')"
    and st2: "st2 = persist_trash (ro_sessions rst) None pins' (by_owner t' owners') True
       (st1\<lparr>tr_sessions := stamp_sessions (ro_sessions rst) None (tr_sessions st1), tr_folders := t'\<rparr>)"
    by metis
  have none: "chosen = []" "chosen' = []" using ch ch' by auto
  from assms(5) obtain g where "(i, g) \<in> set (carried_targets st actor (to_folders out) [])"
    unfolding out none append_Nil in_keys by blast
  then obtain f where f: "shown_folder st actor i l = Some f" "f \<in> set (to_folders out)"
      "se_trashed_at_ms (ls_session l) = None"
    unfolding carried_targets_set using assms(4,6) by (metis map_of_is_SomeI option.inject)
  have placed: "placement_of t i = Some f"
    by (rule pinned_target [OF assms(4) ch assms(6) assms(5) [unfolded out] p f(1)])
  have fol: "folders (tr_folders st1) = folders candidate" using pin_folders [OF p] by (simp add: st1)
  then have ok1: "tree_ok (folders (tr_folders st1))" using trash_ok [OF assms(3) tr] by simp
  have fR: "f \<in> set (ro_folders rst)"
    using trash_inside_subtree [OF assms(3) tr re fol ok1] f(2) by blast
  have at1: "map_of (tr_sessions st1) i = Some (l\<lparr>ls_session := (ls_session l)\<lparr>se_trashed_at_ms := Some now\<rparr>\<rparr>)"
    using assms(5,6) by (simp add: st1 map_of_stamp)
  have placed': "placement_of candidate' i = Some f"
    using placed restore_placement [OF re] by (simp add: placement_of_def st1)
  have "i \<in> set (ro_sessions rst)"
    unfolding targets none append_Nil carried_restored_set using map_of_SomeD [OF at1] placed' fR by auto
  then have "map_of (tr_sessions st2) i = Some (l\<lparr>ls_session := (ls_session l)\<lparr>se_trashed_at_ms := None\<rparr>\<rparr>)"
    by (simp add: st2 map_of_stamp at1)
  moreover have "l\<lparr>ls_session := (ls_session l)\<lparr>se_trashed_at_ms := None\<rparr>\<rparr> = l"
    using f(3) by (cases l; cases "ls_session l") simp
  moreover have "placement_of (tr_folders st2) i = Some f"
  proof -
    have "i \<notin> fst ` set (moved_pins candidate' (ro_sessions rst))"
      by (rule moved_pins_stays [OF placed' restored_is_live [OF ok1 re fR]])
    then have "find (\<lambda>p. fst p = i) (rev (moved_pins candidate' (ro_sessions rst))) = None"
      by (force simp: find_None_iff)
    with pin_placement [OF p', of i] placed' show ?thesis by (simp add: st2)
  qed
  ultimately show ?thesis using f(1) by simp
qed

theorem restore_undoes_trash_witness:
  "\<exists>out st1 rst st2. trash_items demo_actor [''b''] [] 7 demo_trash_state = Inr (out, st1)
     \<and> restore_items demo_actor [''b''] [] st1 = Inr (rst, st2)
     \<and> map_of (tr_sessions st2) ''s1'' = Some demo_listed"
proof (rule demo_trash_run)
  fix out st1 assume run: "trash_items demo_actor [''b''] [] 7 demo_trash_state = Inr (out, st1)" "to_sessions out = [''s1'']"
  have "(case trash_items demo_actor [''b''] [] 7 demo_trash_state of Inl e \<Rightarrow> False
       | Inr (out, st1) \<Rightarrow> is_ok (restore_items demo_actor [''b''] [] st1))"
    by code_simp
  with run obtain rst st2 where rst: "restore_items demo_actor [''b''] [] st1 = Inr (rst, st2)"
    by (auto simp: is_ok_iff)
  have "tree_ok (folders (tr_folders demo_trash_state))" by (simp add: demo_trash_state_def tree_ok_demo_live)
  from restore_undoes_trash [OF run(1) rst this demo_sessions(2) _ demo_sessions(1)] run rst show ?thesis by auto
qed

section \<open>Deletion and restore exclude each other\<close>

lemma check_restored_closing:
  "check_restored st actor is = Inr () \<Longrightarrow> i \<in> set is \<Longrightarrow>
     \<exists>l. map_of (tr_sessions st) i = Some l \<and> \<not> se_closing (ls_session l)"
  by (induction st actor "is" rule: check_restored.induct) (auto split: option.splits if_splits)

text \<open>A session claimed for permanent deletion cannot be restored: a claim needs the session in Trash as judged,
  is granted once, and no restore that would bring the session rst succeeds until it is released.\<close>

theorem claim_excludes_restore:
  assumes "claim_trash_deletion i expected st = (True, st1)"
  shows "session_is_trashed st i \<and> fst (claim_trash_deletion i expected' st1) = False
     \<and> (\<forall>actor folder_ids session_ids rst st2.
          restore_items actor folder_ids session_ids st1 = Inr (rst, st2) \<longrightarrow> i \<notin> set (ro_sessions rst))"
proof -
  from assms obtain l where l: "map_of (tr_sessions st) i = Some l" "\<not> se_closing (ls_session l)"
      "se_trashed_at_ms (ls_session l) \<noteq> None"
      "map_of (tr_sessions st1) i = Some (l\<lparr>ls_session := (ls_session l)\<lparr>se_closing := True\<rparr>\<rparr>)"
    by (auto simp: claim_trash_deletion_def Let_def update_conv' split: option.splits if_splits)
  have "i \<notin> set (ro_sessions rst)" if run: "restore_items actor folder_ids session_ids st1 = Inr (rst, st2)"
    for actor folder_ids session_ids rst st2
  proof
    assume "i \<in> set (ro_sessions rst)"
    moreover have "check_restored st1 actor (ro_sessions rst) = Inr ()" using restore_items_cases [OF run] by metis
    ultimately obtain l' where "map_of (tr_sessions st1) i = Some l'" "\<not> se_closing (ls_session l')"
      using check_restored_closing by blast
    with l(4) show False by simp
  qed
  with l show ?thesis by (auto simp: session_is_trashed_def claim_trash_deletion_def)
qed

definition demo_claim_state :: trash_state where
  "demo_claim_state = demo_trash_state\<lparr>tr_sessions := stamp_sessions [''s1''] (Some 7) (tr_sessions demo_trash_state)\<rparr>"

theorem claim_excludes_restore_witness:
  "\<exists>st1. claim_trash_deletion ''s1'' (Some 7) demo_claim_state = (True, st1)
     \<and> fst (claim_trash_deletion ''s1'' None st1) = False"
proof -
  obtain st1 where c: "claim_trash_deletion ''s1'' (Some 7) demo_claim_state = (True, st1)"
    by (simp add: claim_trash_deletion_def demo_claim_state_def demo_trash_state_def stamp_sessions_def demo_listed_def
        new_session_def Let_def)
  from claim_excludes_restore [OF c] c show ?thesis by blast
qed

section \<open>Crash consistency of the writes\<close>

text \<open>
  The store applies the writes of one operation in order and may stop after any of them. A move writes the
  folders and placements first, a restore the sessions: no crash leaves a session in Trash outside its
  trashed folder, or a live folder holding sessions still in Trash.
\<close>

lemma trash_crash_keeps_sessions_live:
  "SetSessionsTrashed x y \<in> set (take n (trash_writes sessions at pins owners False))
     \<Longrightarrow> take n (trash_writes sessions at pins owners False) = trash_writes sessions at pins owners False"
  by (cases "n < length (trash_writes sessions at pins owners False)")
    (auto simp: trash_writes_def Let_def take_Cons' dest!: in_set_takeD split: if_splits)

lemma restore_crash_restores_sessions_first:
  assumes "sessions \<noteq> []" "take n (trash_writes sessions None pins owners True) \<noteq> []"
  shows "hd (take n (trash_writes sessions None pins owners True)) = SetSessionsTrashed sessions None"
  using assms by (cases n) (simp_all add: trash_writes_def Let_def)

end
