(* ===== verification/Execution_Binding.thy ===== *)
theory Execution_Binding
  imports Managed_Request "HOL-Library.Monad_Syntax"
begin

text \<open>
  The durable identity of a session's execution environment:
  \<^verbatim>\<open>src/components/wire/src/execution_environment.rs\<close>. A stored record is a JSON value; the code reads
  it as a launchable binding, as the intent to prepare one, as the intent to recover one, or as a
  managed child, and each reading validates what it read. The readings are those of serde's derived
  deserialisers: an object with no unknown field, or the fields in order as an array.
\<close>

section \<open>Reading structures from JSON\<close>

type_synonym u16 = "16 word"
type_synonym fields_of = "string \<Rightarrow> json option"

definition struct_get :: "string list \<Rightarrow> json \<Rightarrow> fields_of option" where
  "struct_get names v = (case v of
       JObj kvs \<Rightarrow> if list_all (\<lambda>kv. fst kv \<in> set names) kvs then Some (map_of kvs) else None
     | JArr vs \<Rightarrow> if length vs \<le> length names then Some (map_of (zip names vs)) else None
     | _ \<Rightarrow> None)"

definition read_str :: "fields_of \<Rightarrow> string \<Rightarrow> string option" where
  "read_str g k = Option.bind (g k) jstr"

fun json_word :: "json \<Rightarrow> ('w::len) word option" where
  "json_word (JInt n) =
     (if 0 \<le> n \<and> n < 2 ^ LENGTH('w) then Some (word_of_int n) else None)"
| "json_word _ = None"

definition read_word :: "fields_of \<Rightarrow> string \<Rightarrow> ('w::len) word option" where
  "read_word g k = Option.bind (g k) json_word"

text \<open>A unit variant of an enum is its name, or an object of its name and \<open>null\<close>.\<close>

fun unit_variant :: "json \<Rightarrow> string option" where
  "unit_variant (JStr s) = Some s"
| "unit_variant (JObj [(s, JNull)]) = Some s"
| "unit_variant _ = None"

definition read_option :: "(json \<Rightarrow> 'a option) \<Rightarrow> fields_of \<Rightarrow> string \<Rightarrow> 'a option option" where
  "read_option f g k = (case g k of
       None \<Rightarrow> Some None
     | Some JNull \<Rightarrow> Some None
     | Some v \<Rightarrow> map_option Some (f v))"

section \<open>Records\<close>

datatype managed_profile = ReadOnlyV1 | ImageV1

datatype execution_access = AccessProject | AccessHost

record runtime_location =
  rt_machine_id :: string
  rt_cwd :: string

record environment_location =
  xe_machine_id :: string
  xe_id :: string
  xe_incarnation :: string
  xe_executor_digest :: string
  xe_protocol :: u16

record workspace_location =
  xw_id :: string
  xw_worktree_id :: string
  xw_source_path :: string
  xw_cwd :: string

record managed_binding =
  mb_parent_session_id :: string
  mb_profile :: managed_profile

record binding_v1 =
  xb_schema :: u16
  xb_id :: string
  xb_revision :: u64
  xb_runtime :: runtime_location
  xb_environment :: environment_location
  xb_workspace :: workspace_location
  xb_access :: execution_access
  xb_managed :: "managed_binding option"

record managed_child =
  mc_schema :: u16
  mc_phase :: string
  mc_session_id :: string
  mc_parent_session_id :: string
  mc_machine_id :: string
  mc_workspace_id :: string
  mc_cwd :: string
  mc_profile :: managed_profile

record preparation =
  xp_schema :: u16
  xp_phase :: string
  xp_runtime :: runtime_location
  xp_machine_id :: string
  xp_workspace_id :: string
  xp_source_path :: string
  xp_executor_digest :: string

record recovery =
  xr_schema :: u16
  xr_phase :: string
  xr_operation_id :: string
  xr_previous :: binding_v1

section \<open>Validation\<close>

definition EXECUTION_BINDING_SCHEMA :: u16 where "EXECUTION_BINDING_SCHEMA = 1"
definition EXECUTION_PROTOCOL :: u16 where "EXECUTION_PROTOCOL = 1"
definition MAX_BINDING_BYTES :: nat where "MAX_BINDING_BYTES = 16 * 1024"

definition environment_id_ok :: "string \<Rightarrow> bool" where
  "environment_id_ok value \<longleftrightarrow>
     value \<noteq> [] \<and> length value \<le> 256
   \<and> list_all (\<lambda>b. is_ascii_alnum b \<or> b \<in> set ''-_.:/'') value"

definition environment_path_ok :: "string \<Rightarrow> bool" where
  "environment_path_ok value \<longleftrightarrow>
     starts_with value ''/'' \<and> length value \<le> 4096
   \<and> \<not> list_ex is_control (utf8_chars value)
   \<and> \<not> list_ex (\<lambda>part. part = ''.'' \<or> part = ''..'') (split_at_char (CHR ''/'') [] value)"

definition is_digest_char :: "char \<Rightarrow> bool" where
  "is_digest_char c \<longleftrightarrow> (48 \<le> byte_of c \<and> byte_of c \<le> 57) \<or> (97 \<le> byte_of c \<and> byte_of c \<le> 102)"

definition executor_digest_ok :: "string \<Rightarrow> bool" where
  "executor_digest_ok value \<longleftrightarrow>
     starts_with value ''sha256:'' \<and> length (drop 7 value) = 64 \<and> list_all is_digest_char (drop 7 value)"

datatype binding_error =
    UnsupportedBinding
  | NewerBinding
  | InvalidBinding
  | RuntimeMismatch
  | InvalidManagedChild
  | InvalidPreparation
  | InvalidRecovery

definition string_bytes :: "binding_v1 \<Rightarrow> nat" where
  "string_bytes b = sum_list (map length (
     [xb_id b, rt_machine_id (xb_runtime b), rt_cwd (xb_runtime b), xe_machine_id (xb_environment b),
      xe_id (xb_environment b), xe_incarnation (xb_environment b), xe_executor_digest (xb_environment b),
      xw_id (xb_workspace b), xw_worktree_id (xb_workspace b), xw_source_path (xb_workspace b),
      xw_cwd (xb_workspace b)]
     @ (case xb_managed b of None \<Rightarrow> [] | Some m \<Rightarrow> [mb_parent_session_id m])))"

definition managed_binding_ok :: "binding_v1 \<Rightarrow> managed_binding \<Rightarrow> bool" where
  "managed_binding_ok b m \<longleftrightarrow>
     valid_id (mb_parent_session_id m)
   \<and> mb_parent_session_id m \<noteq> xw_worktree_id (xb_workspace b)
   \<and> rt_machine_id (xb_runtime b) \<noteq> xe_machine_id (xb_environment b)
   \<and> xb_access b = AccessProject"

definition validate_binding :: "binding_v1 \<Rightarrow> binding_error + unit" where
  "validate_binding b =
     (if xb_schema b \<noteq> EXECUTION_BINDING_SCHEMA \<or> xe_protocol (xb_environment b) \<noteq> EXECUTION_PROTOCOL
      then Inl NewerBinding
      else if xb_revision b = 0
        \<or> \<not> list_all environment_id_ok
            [xb_id b, rt_machine_id (xb_runtime b), xe_machine_id (xb_environment b),
             xe_id (xb_environment b), xe_incarnation (xb_environment b), xw_id (xb_workspace b),
             xw_worktree_id (xb_workspace b)]
        \<or> xe_machine_id (xb_environment b) = ''local''
        \<or> \<not> list_all environment_path_ok
            [rt_cwd (xb_runtime b), xw_source_path (xb_workspace b), xw_cwd (xb_workspace b)]
        \<or> \<not> executor_digest_ok (xe_executor_digest (xb_environment b))
        \<or> MAX_BINDING_BYTES < string_bytes b
        \<or> (case xb_managed b of None \<Rightarrow> False | Some m \<Rightarrow> \<not> managed_binding_ok b m)
      then Inl InvalidBinding
      else Inr ())"

definition validate_managed_child :: "managed_child \<Rightarrow> binding_error + unit" where
  "validate_managed_child c =
     (if mc_schema c \<noteq> 1 \<or> mc_phase c \<noteq> ''managed_child'' \<or> mc_machine_id c = ''local''
        \<or> mc_session_id c = mc_parent_session_id c
        \<or> \<not> list_all valid_id [mc_session_id c, mc_parent_session_id c, mc_machine_id c, mc_workspace_id c]
        \<or> \<not> environment_path_ok (mc_cwd c)
      then Inl InvalidManagedChild else Inr ())"

definition managed_child_accepts :: "managed_child \<Rightarrow> string \<Rightarrow> string \<Rightarrow> string \<Rightarrow> bool" where
  "managed_child_accepts c session machine cwd \<longleftrightarrow>
     is_ok (validate_managed_child c)
   \<and> mc_session_id c = session \<and> mc_machine_id c = machine \<and> mc_cwd c = cwd"

definition validate_preparation :: "preparation \<Rightarrow> binding_error + unit" where
  "validate_preparation p =
     (if xp_schema p \<noteq> EXECUTION_BINDING_SCHEMA \<or> xp_phase p \<noteq> ''preparing''
        \<or> \<not> list_all environment_id_ok [rt_machine_id (xp_runtime p), xp_machine_id p, xp_workspace_id p]
        \<or> rt_machine_id (xp_runtime p) = ''local'' \<or> xp_machine_id p = ''local''
        \<or> rt_machine_id (xp_runtime p) = xp_machine_id p
        \<or> \<not> environment_path_ok (rt_cwd (xp_runtime p))
        \<or> \<not> environment_path_ok (xp_source_path p)
        \<or> \<not> executor_digest_ok (xp_executor_digest p)
      then Inl InvalidPreparation else Inr ())"

definition preparation_accepts :: "preparation \<Rightarrow> binding_v1 \<Rightarrow> bool" where
  "preparation_accepts p b \<longleftrightarrow>
     is_ok (validate_preparation p) \<and> is_ok (validate_binding b)
   \<and> xb_runtime b = xp_runtime p
   \<and> xe_machine_id (xb_environment b) = xp_machine_id p
   \<and> xe_executor_digest (xb_environment b) = xp_executor_digest p
   \<and> xw_id (xb_workspace b) = xp_workspace_id p
   \<and> xw_source_path (xb_workspace b) = xp_source_path p
   \<and> xb_access b = AccessProject
   \<and> xb_managed b = None"

definition validate_recovery :: "recovery \<Rightarrow> binding_error + unit" where
  "validate_recovery r =
     (if xr_schema r \<noteq> 1 \<or> xr_phase r \<noteq> ''recovering'' \<or> xr_operation_id r = []
        \<or> 128 < length (xr_operation_id r)
        \<or> \<not> list_all (\<lambda>b. is_ascii_alnum b \<or> b \<in> set ''-_'') (xr_operation_id r)
        \<or> xb_revision (xr_previous r) = - 1
      then Inl InvalidRecovery
      else validate_binding (xr_previous r))"

definition recovery_accepts :: "recovery \<Rightarrow> binding_v1 \<Rightarrow> bool" where
  "recovery_accepts r n \<longleftrightarrow>
     is_ok (validate_recovery r) \<and> is_ok (validate_binding n)
   \<and> xb_id n = xb_id (xr_previous r)
   \<and> xb_revision n = xb_revision (xr_previous r) + 1
   \<and> xb_runtime n = xb_runtime (xr_previous r)
   \<and> xb_workspace n = xb_workspace (xr_previous r)
   \<and> xb_access n = xb_access (xr_previous r)
   \<and> xb_managed n = xb_managed (xr_previous r)
   \<and> xe_machine_id (xb_environment n) = xe_machine_id (xb_environment (xr_previous r))
   \<and> xe_executor_digest (xb_environment n) = xe_executor_digest (xb_environment (xr_previous r))
   \<and> xe_protocol (xb_environment n) = xe_protocol (xb_environment (xr_previous r))
   \<and> xe_id (xb_environment n) \<noteq> xe_id (xb_environment (xr_previous r))
   \<and> xe_incarnation (xb_environment n) \<noteq> xe_incarnation (xb_environment (xr_previous r))"

section \<open>Deserialisation\<close>

definition read_profile :: "json \<Rightarrow> managed_profile option" where
  "read_profile v = (case unit_variant v of
       Some s \<Rightarrow> if s = ''read_only_v1'' then Some ReadOnlyV1
                else if s = ''image_v1'' then Some ImageV1 else None
     | None \<Rightarrow> None)"

definition read_access :: "json \<Rightarrow> execution_access option" where
  "read_access v = (case unit_variant v of
       Some s \<Rightarrow> if s = ''project'' then Some AccessProject
                else if s = ''host'' then Some AccessHost else None
     | None \<Rightarrow> None)"

definition read_runtime :: "json \<Rightarrow> runtime_location option" where
  "read_runtime v = do {
     g \<leftarrow> struct_get [''machine_id'', ''cwd''] v;
     m \<leftarrow> read_str g ''machine_id'';
     c \<leftarrow> read_str g ''cwd'';
     Some \<lparr>rt_machine_id = m, rt_cwd = c\<rparr> }"

definition read_environment :: "json \<Rightarrow> environment_location option" where
  "read_environment v = do {
     g \<leftarrow> struct_get [''machine_id'', ''id'', ''incarnation'', ''executor_digest'', ''protocol''] v;
     m \<leftarrow> read_str g ''machine_id'';
     i \<leftarrow> read_str g ''id'';
     n \<leftarrow> read_str g ''incarnation'';
     d \<leftarrow> read_str g ''executor_digest'';
     p \<leftarrow> read_word g ''protocol'';
     Some \<lparr>xe_machine_id = m, xe_id = i, xe_incarnation = n, xe_executor_digest = d, xe_protocol = p\<rparr> }"

definition read_workspace :: "json \<Rightarrow> workspace_location option" where
  "read_workspace v = do {
     g \<leftarrow> struct_get [''id'', ''worktree_id'', ''source_path'', ''cwd''] v;
     i \<leftarrow> read_str g ''id'';
     w \<leftarrow> read_str g ''worktree_id'';
     s \<leftarrow> read_str g ''source_path'';
     c \<leftarrow> read_str g ''cwd'';
     Some \<lparr>xw_id = i, xw_worktree_id = w, xw_source_path = s, xw_cwd = c\<rparr> }"

definition read_managed :: "json \<Rightarrow> managed_binding option" where
  "read_managed v = do {
     g \<leftarrow> struct_get [''parent_session_id'', ''profile''] v;
     p \<leftarrow> read_str g ''parent_session_id'';
     f \<leftarrow> Option.bind (g ''profile'') read_profile;
     Some \<lparr>mb_parent_session_id = p, mb_profile = f\<rparr> }"

definition binding_fields :: "string list" where
  "binding_fields = [''schema'', ''id'', ''revision'', ''runtime'', ''environment'', ''workspace'', ''access'', ''managed'']"

definition read_binding :: "json \<Rightarrow> binding_v1 option" where
  "read_binding v = do {
     g \<leftarrow> struct_get binding_fields v;
     s \<leftarrow> read_word g ''schema'';
     i \<leftarrow> read_str g ''id'';
     r \<leftarrow> read_word g ''revision'';
     t \<leftarrow> Option.bind (g ''runtime'') read_runtime;
     e \<leftarrow> Option.bind (g ''environment'') read_environment;
     w \<leftarrow> Option.bind (g ''workspace'') read_workspace;
     a \<leftarrow> Option.bind (g ''access'') read_access;
     m \<leftarrow> read_option read_managed g ''managed'';
     Some \<lparr>xb_schema = s, xb_id = i, xb_revision = r, xb_runtime = t, xb_environment = e,
           xb_workspace = w, xb_access = a, xb_managed = m\<rparr> }"

definition child_fields :: "string list" where
  "child_fields = [''schema'', ''phase'', ''session_id'', ''parent_session_id'', ''machine_id'',
     ''workspace_id'', ''cwd'', ''profile'']"

definition read_child :: "json \<Rightarrow> managed_child option" where
  "read_child v = do {
     g \<leftarrow> struct_get child_fields v;
     s \<leftarrow> read_word g ''schema'';
     p \<leftarrow> read_str g ''phase'';
     i \<leftarrow> read_str g ''session_id'';
     q \<leftarrow> read_str g ''parent_session_id'';
     m \<leftarrow> read_str g ''machine_id'';
     w \<leftarrow> read_str g ''workspace_id'';
     c \<leftarrow> read_str g ''cwd'';
     f \<leftarrow> Option.bind (g ''profile'') read_profile;
     Some \<lparr>mc_schema = s, mc_phase = p, mc_session_id = i, mc_parent_session_id = q,
           mc_machine_id = m, mc_workspace_id = w, mc_cwd = c, mc_profile = f\<rparr> }"

definition preparation_fields :: "string list" where
  "preparation_fields = [''schema'', ''phase'', ''runtime'', ''machine_id'', ''workspace_id'',
     ''source_path'', ''executor_digest'']"

definition read_preparation :: "json \<Rightarrow> preparation option" where
  "read_preparation v = do {
     g \<leftarrow> struct_get preparation_fields v;
     s \<leftarrow> read_word g ''schema'';
     p \<leftarrow> read_str g ''phase'';
     t \<leftarrow> Option.bind (g ''runtime'') read_runtime;
     m \<leftarrow> read_str g ''machine_id'';
     w \<leftarrow> read_str g ''workspace_id'';
     q \<leftarrow> read_str g ''source_path'';
     d \<leftarrow> read_str g ''executor_digest'';
     Some \<lparr>xp_schema = s, xp_phase = p, xp_runtime = t, xp_machine_id = m, xp_workspace_id = w,
           xp_source_path = q, xp_executor_digest = d\<rparr> }"

definition recovery_fields :: "string list" where
  "recovery_fields = [''schema'', ''phase'', ''operation_id'', ''previous'']"

definition read_recovery :: "json \<Rightarrow> recovery option" where
  "read_recovery v = do {
     g \<leftarrow> struct_get recovery_fields v;
     s \<leftarrow> read_word g ''schema'';
     p \<leftarrow> read_str g ''phase'';
     i \<leftarrow> read_str g ''operation_id'';
     b \<leftarrow> Option.bind (g ''previous'') read_binding;
     Some \<lparr>xr_schema = s, xr_phase = p, xr_operation_id = i, xr_previous = b\<rparr> }"

section \<open>What a stored record is\<close>

definition decode_binding :: "json \<Rightarrow> binding_error + binding_v1" where
  "decode_binding v =
     rbind (ok_or (read_binding v) UnsupportedBinding) (\<lambda>b. rbind (validate_binding b) (\<lambda>_. Inr b))"

definition decode_preparation :: "json \<Rightarrow> preparation option" where
  "decode_preparation v =
     Option.bind (read_preparation v) (\<lambda>p. if is_ok (validate_preparation p) then Some p else None)"

definition decode_recovery :: "json \<Rightarrow> recovery option" where
  "decode_recovery v =
     Option.bind (read_recovery v) (\<lambda>r. if is_ok (validate_recovery r) then Some r else None)"

definition decode_child :: "json \<Rightarrow> managed_child option" where
  "decode_child v =
     Option.bind (read_child v) (\<lambda>c. if is_ok (validate_managed_child c) then Some c else None)"

definition managed_of :: "json \<Rightarrow> managed_binding option" where
  "managed_of v = (case decode_child v of
       Some c \<Rightarrow> Some \<lparr>mb_parent_session_id = mc_parent_session_id c, mb_profile = mc_profile c\<rparr>
     | None \<Rightarrow> (case decode_binding v of Inl _ \<Rightarrow> None | Inr b \<Rightarrow> xb_managed b))"

definition for_runtime :: "json \<Rightarrow> string \<Rightarrow> string \<Rightarrow> binding_error + binding_v1" where
  "for_runtime v machine cwd =
     rbind (decode_binding v) (\<lambda>b.
       if rt_machine_id (xb_runtime b) \<noteq> machine \<or> rt_cwd (xb_runtime b) \<noteq> cwd
       then Inl RuntimeMismatch else Inr b)"

section \<open>Serialisation\<close>

definition word_json :: "('w::len) word \<Rightarrow> json" where
  "word_json w = JInt (uint w)"

definition profile_json :: "managed_profile \<Rightarrow> json" where
  "profile_json p = JStr (case p of ReadOnlyV1 \<Rightarrow> ''read_only_v1'' | ImageV1 \<Rightarrow> ''image_v1'')"

definition access_json :: "execution_access \<Rightarrow> json" where
  "access_json a = JStr (case a of AccessProject \<Rightarrow> ''project'' | AccessHost \<Rightarrow> ''host'')"

definition runtime_json :: "runtime_location \<Rightarrow> json" where
  "runtime_json t = JObj [(''machine_id'', JStr (rt_machine_id t)), (''cwd'', JStr (rt_cwd t))]"

definition environment_json :: "environment_location \<Rightarrow> json" where
  "environment_json e = JObj
     [(''machine_id'', JStr (xe_machine_id e)), (''id'', JStr (xe_id e)),
      (''incarnation'', JStr (xe_incarnation e)), (''executor_digest'', JStr (xe_executor_digest e)),
      (''protocol'', word_json (xe_protocol e))]"

definition workspace_json :: "workspace_location \<Rightarrow> json" where
  "workspace_json w = JObj
     [(''id'', JStr (xw_id w)), (''worktree_id'', JStr (xw_worktree_id w)),
      (''source_path'', JStr (xw_source_path w)), (''cwd'', JStr (xw_cwd w))]"

definition managed_json :: "managed_binding \<Rightarrow> json" where
  "managed_json m = JObj
     [(''parent_session_id'', JStr (mb_parent_session_id m)), (''profile'', profile_json (mb_profile m))]"

definition binding_json :: "binding_v1 \<Rightarrow> json" where
  "binding_json b = JObj
     ([(''schema'', word_json (xb_schema b)), (''id'', JStr (xb_id b)),
       (''revision'', word_json (xb_revision b)), (''runtime'', runtime_json (xb_runtime b)),
       (''environment'', environment_json (xb_environment b)),
       (''workspace'', workspace_json (xb_workspace b)), (''access'', access_json (xb_access b))]
      @ (case xb_managed b of None \<Rightarrow> [] | Some m \<Rightarrow> [(''managed'', managed_json m)]))"

definition recovery_json :: "recovery \<Rightarrow> json" where
  "recovery_json r = JObj
     [(''schema'', word_json (xr_schema r)), (''phase'', JStr (xr_phase r)),
      (''operation_id'', JStr (xr_operation_id r)), (''previous'', binding_json (xr_previous r))]"

section \<open>Round trips\<close>

lemma json_word_json [simp]: "json_word (word_json w) = Some w"
  by (simp add: word_json_def)

lemma struct_get_object:
  "list_all (\<lambda>kv. fst kv \<in> set names) kvs \<Longrightarrow> struct_get names (JObj kvs) = Some (map_of kvs)"
  by (simp add: struct_get_def)

lemma read_profile_json [simp]: "read_profile (profile_json p) = Some p"
  by (cases p) (simp_all add: read_profile_def profile_json_def)

lemma read_access_json [simp]: "read_access (access_json a) = Some a"
  by (cases a) (simp_all add: read_access_def access_json_def)

lemma read_runtime_json [simp]: "read_runtime (runtime_json t) = Some t"
  by (simp add: read_runtime_def runtime_json_def struct_get_object read_str_def)

lemma read_environment_json [simp]: "read_environment (environment_json e) = Some e"
  by (simp add: read_environment_def environment_json_def struct_get_object read_str_def read_word_def)

lemma read_workspace_json [simp]: "read_workspace (workspace_json w) = Some w"
  by (simp add: read_workspace_def workspace_json_def struct_get_object read_str_def)

lemma read_managed_json [simp]: "read_managed (managed_json m) = Some m"
  by (simp add: read_managed_def managed_json_def struct_get_object read_str_def)

lemma read_option_present: "g k = Some v \<Longrightarrow> v \<noteq> JNull \<Longrightarrow> read_option f g k = map_option Some (f v)"
  by (auto simp: read_option_def split: json.splits)

lemma managed_json_not_null [simp]: "managed_json m \<noteq> JNull"
  by (simp add: managed_json_def)

lemma read_option_absent: "g k = None \<Longrightarrow> read_option f g k = Some None"
  by (simp add: read_option_def)

lemma read_binding_json [simp]: "read_binding (binding_json b) = Some b"
  by (cases "xb_managed b")
    (simp_all add: read_binding_def binding_json_def binding_fields_def struct_get_object read_str_def
      read_word_def read_option_present read_option_absent)

lemma read_recovery_json [simp]: "read_recovery (recovery_json r) = Some r"
  by (simp add: read_recovery_def recovery_json_def recovery_fields_def struct_get_object read_str_def
      read_word_def)

text \<open>
  A stored binding reads back as it was written. What a launch for a runtime and directory gets from
  the record of a binding is that binding when it is valid and names that runtime, the binding's own error
  when it is not valid, and a mismatch otherwise; the record of a recovery intent reads back as that intent
  exactly when it is valid.
\<close>

theorem stored_binding_reads_back:
  "for_runtime (binding_json b) machine cwd =
     (case validate_binding b of
        Inl e \<Rightarrow> Inl e
      | Inr _ \<Rightarrow> if rt_machine_id (xb_runtime b) = machine \<and> rt_cwd (xb_runtime b) = cwd
                 then Inr b else Inl RuntimeMismatch)
   \<and> decode_recovery (recovery_json r) = (if is_ok (validate_recovery r) then Some r else None)"
  by (auto simp: for_runtime_def decode_binding_def decode_recovery_def ok_or_def split: sum.splits)

section \<open>A record has one role\<close>

text \<open>The member \<open>k\<close> of a structure: by name in an object, by place in an array.\<close>

definition phase_of :: "json \<Rightarrow> string option" where
  "phase_of v = (case v of
       JObj kvs \<Rightarrow> Option.bind (map_of kvs ''phase'') jstr
     | JArr (_ # p # _) \<Rightarrow> jstr p
     | _ \<Rightarrow> None)"

lemma struct_get_phase:
  "struct_get (''schema'' # ''phase'' # names) v = Some g \<Longrightarrow> read_str g ''phase'' = Some p \<Longrightarrow>
   phase_of v = Some p"
  by (auto simp: struct_get_def phase_of_def read_str_def Option.bind_eq_Some_conv
      split: json.splits if_splits list.splits)

lemma preparation_phase: "decode_preparation v = Some p \<Longrightarrow> phase_of v = Some ''preparing''"
  by (auto simp: decode_preparation_def read_preparation_def preparation_fields_def validate_preparation_def
      Option.bind_eq_Some_conv split: if_splits dest: struct_get_phase)

lemma recovery_phase: "decode_recovery v = Some r \<Longrightarrow> phase_of v = Some ''recovering''"
  by (auto simp: decode_recovery_def read_recovery_def recovery_fields_def validate_recovery_def
      Option.bind_eq_Some_conv split: if_splits dest: struct_get_phase)

lemma child_phase: "decode_child v = Some c \<Longrightarrow> phase_of v = Some ''managed_child''"
  by (auto simp: decode_child_def read_child_def child_fields_def validate_managed_child_def
      Option.bind_eq_Some_conv split: if_splits dest: struct_get_phase)

definition launchable_shape :: "json \<Rightarrow> bool" where
  "launchable_shape v \<longleftrightarrow> (case v of
       JObj kvs \<Rightarrow> map_of kvs ''phase'' = None
     | JArr (_ # _ # JInt _ # _) \<Rightarrow> True
     | _ \<Rightarrow> False)"

lemma json_word_SomeD: "json_word v = Some w \<Longrightarrow> \<exists>n. v = JInt n"
  by (cases v) auto

lemma struct_get_unknown: "struct_get names (JObj kvs) = Some g \<Longrightarrow> k \<notin> set names \<Longrightarrow> map_of kvs k = None"
  by (auto simp: struct_get_def list_all_iff map_of_eq_None_iff split: if_splits)

lemma binding_launchable: "read_binding v = Some b \<Longrightarrow> launchable_shape v"
proof -
  assume "read_binding v = Some b"
  then obtain g and r :: u64 where g: "struct_get binding_fields v = Some g" "read_word g ''revision'' = Some r"
    by (auto simp: read_binding_def Option.bind_eq_Some_conv)
  show ?thesis
  proof (cases v)
    case (JObj kvs)
    with g(1) have "map_of kvs ''phase'' = None"
      by (intro struct_get_unknown [of binding_fields _ g]) (simp_all add: binding_fields_def)
    with JObj show ?thesis by (simp add: launchable_shape_def)
  next
    case (JArr vs)
    from g(2) obtain n where n: "g ''revision'' = Some (JInt n)"
      by (auto simp: read_word_def Option.bind_eq_Some_conv dest: json_word_SomeD)
    have zip: "g = map_of (zip binding_fields vs)"
      using g(1) JArr by (auto simp: struct_get_def split: if_splits)
    obtain a b' c rest where "vs = a # b' # c # rest"
      using n zip by (cases vs rule: remdups_adj.cases; cases "tl (tl vs)") (auto simp: binding_fields_def)
    with n zip JArr show ?thesis by (simp add: launchable_shape_def binding_fields_def)
  qed (use g(1) in \<open>auto simp: struct_get_def\<close>)
qed

lemma phased_not_launchable:
  assumes get: "struct_get (''schema'' # ''phase'' # k # names) v = Some g"
    and phase: "g ''phase'' = Some p" and third: "g k = Some w" "\<And>n. w \<noteq> JInt n"
    and fresh: "k \<noteq> ''schema''" "k \<noteq> ''phase''"
  shows "\<not> launchable_shape v"
proof (cases v)
  case (JObj kvs)
  with get phase show ?thesis
    by (auto simp: struct_get_def launchable_shape_def split: if_splits)
next
  case (JArr vs)
  have g: "g = map_of (zip (''schema'' # ''phase'' # k # names) vs)"
    using get JArr by (auto simp: struct_get_def split: if_splits)
  show ?thesis
  proof
    assume "launchable_shape v"
    then obtain a b n rest where "vs = a # b # JInt n # rest"
      using JArr by (auto simp: launchable_shape_def split: list.splits json.splits)
    with g third fresh show False by auto
  qed
qed (use get in \<open>auto simp: struct_get_def\<close>)

lemma read_str_not_int: "read_str g k = Some s \<Longrightarrow> \<exists>w. g k = Some w \<and> (\<forall>n. w \<noteq> JInt n)"
  by (auto simp: read_str_def Option.bind_eq_Some_conv)

lemma preparation_not_launchable: "read_preparation v = Some p \<Longrightarrow> \<not> launchable_shape v"
proof -
  assume "read_preparation v = Some p"
  then obtain g q w t where g: "struct_get preparation_fields v = Some g" "g ''phase'' = Some q"
    "g ''runtime'' = Some w" "read_runtime w = Some t"
    by (auto simp: read_preparation_def Option.bind_eq_Some_conv read_str_def)
  from g(4) have "w \<noteq> JInt n" for n
    by (auto simp: read_runtime_def struct_get_def)
  then show ?thesis
    by (rule phased_not_launchable [OF g(1) [unfolded preparation_fields_def] g(2,3)]) simp_all
qed

lemma recovery_not_launchable: "read_recovery v = Some r \<Longrightarrow> \<not> launchable_shape v"
proof -
  assume "read_recovery v = Some r"
  then obtain g q i where g: "struct_get recovery_fields v = Some g" "g ''phase'' = Some q"
    "read_str g ''operation_id'' = Some i"
    by (auto simp: read_recovery_def Option.bind_eq_Some_conv read_str_def)
  from read_str_not_int [OF g(3)] obtain w where w: "g ''operation_id'' = Some w" "\<And>n. w \<noteq> JInt n"
    by blast
  then show ?thesis
    by (intro phased_not_launchable [OF g(1) [unfolded recovery_fields_def] g(2) w]) simp_all
qed

lemma child_not_launchable: "read_child v = Some c \<Longrightarrow> \<not> launchable_shape v"
proof -
  assume "read_child v = Some c"
  then obtain g q i where g: "struct_get child_fields v = Some g" "g ''phase'' = Some q"
    "read_str g ''session_id'' = Some i"
    by (auto simp: read_child_def Option.bind_eq_Some_conv read_str_def)
  from read_str_not_int [OF g(3)] obtain w where w: "g ''session_id'' = Some w" "\<And>n. w \<noteq> JInt n"
    by blast
  then show ?thesis
    by (intro phased_not_launchable [OF g(1) [unfolded child_fields_def] g(2) w]) simp_all
qed

lemma decode_binding_reads: "decode_binding v = Inr b \<longleftrightarrow> read_binding v = Some b \<and> validate_binding b = Inr ()"
  by (auto simp: decode_binding_def)

lemma decode_preparation_reads: "decode_preparation v = Some p \<Longrightarrow> read_preparation v = Some p"
  by (auto simp: decode_preparation_def Option.bind_eq_Some_conv split: if_splits)

lemma decode_recovery_reads: "decode_recovery v = Some r \<Longrightarrow> read_recovery v = Some r"
  by (auto simp: decode_recovery_def Option.bind_eq_Some_conv split: if_splits)

lemma decode_child_reads: "decode_child v = Some c \<Longrightarrow> read_child v = Some c"
  by (auto simp: decode_child_def Option.bind_eq_Some_conv split: if_splits)

lemma launchable_excludes:
  "decode_binding v = Inr b \<Longrightarrow>
   decode_preparation v = None \<and> decode_recovery v = None \<and> decode_child v = None"
  using binding_launchable preparation_not_launchable recovery_not_launchable child_not_launchable
  by (metis decode_binding_reads decode_preparation_reads decode_recovery_reads decode_child_reads not_Some_eq)

text \<open>A stored execution record has at most one role. Whatever JSON a session retains, at most one of
  the four readings succeeds: a launchable binding, an intent to prepare an environment, an intent to
  recover one, a managed child. In particular an intent is never launched as if it were a binding, and a
  managed child is never taken for an unrestricted one.
\<close>

theorem record_has_one_role:
  "length (filter (\<lambda>role. role)
     [is_ok (decode_binding v), decode_preparation v \<noteq> None, decode_recovery v \<noteq> None,
      decode_child v \<noteq> None]) \<le> 1"
proof (cases "decode_binding v")
  case (Inl e)
  have "decode_preparation v = None \<or> decode_recovery v = None"
    "decode_preparation v = None \<or> decode_child v = None"
    "decode_recovery v = None \<or> decode_child v = None"
    using preparation_phase [of v] recovery_phase [of v] child_phase [of v] by fastforce+
  with Inl show ?thesis by auto
next
  case (Inr b)
  with launchable_excludes [OF Inr] show ?thesis by simp
qed

section \<open>Recovery\<close>

text \<open>A chain of recoveries: each intent holds the binding before it and accepts the one after.\<close>

inductive recovers :: "binding_v1 \<Rightarrow> nat \<Rightarrow> binding_v1 \<Rightarrow> bool" where
  none: "recovers b 0 b"
| again: "recovers b n c \<Longrightarrow> xr_previous r = c \<Longrightarrow> recovery_accepts r d \<Longrightarrow> recovers b (Suc n) d"

lemma accepted_revision:
  "recovery_accepts r d \<Longrightarrow> unat (xb_revision d) = Suc (unat (xb_revision (xr_previous r)))"
proof -
  assume a: "recovery_accepts r d"
  then have "xb_revision (xr_previous r) \<noteq> - 1"
    by (auto simp: recovery_accepts_def validate_recovery_def is_ok_iff split: if_splits)
  then have "xb_revision (xr_previous r) + 1 \<noteq> 0"
    by (metis add_eq_0_iff minus_equation_iff)
  then have "unat (1 + xb_revision (xr_previous r)) = Suc (unat (xb_revision (xr_previous r)))"
    by (intro unatSuc) (simp add: add.commute)
  with a show ?thesis
    by (simp add: recovery_accepts_def add.commute)
qed

text \<open>The part of a binding a recovery may not change.\<close>

definition recovered_identity :: "binding_v1 \<Rightarrow> string \<times> runtime_location \<times> workspace_location \<times> execution_access
    \<times> managed_binding option \<times> string \<times> string" where
  "recovered_identity b = (xb_id b, xb_runtime b, xb_workspace b, xb_access b, xb_managed b,
     xe_machine_id (xb_environment b), xe_executor_digest (xb_environment b))"

lemma accepted_identity: "recovery_accepts r d \<Longrightarrow> recovered_identity d = recovered_identity (xr_previous r)"
  by (simp add: recovery_accepts_def recovered_identity_def)

lemma recovers_revision: "recovers b n d \<Longrightarrow> unat (xb_revision d) = unat (xb_revision b) + n"
  by (induction rule: recovers.induct) (auto simp: accepted_revision)

lemma recovers_identity: "recovers b n d \<Longrightarrow> recovered_identity d = recovered_identity b"
  by (induction rule: recovers.induct) (auto simp: accepted_identity)

end
