(* ===== verification/Mobile_Review.thy ===== *)
theory Mobile_Review
  imports Session_Order Folder_Defaults Execution_Binding
begin

text \<open>
  The review state a session shares between the devices of its owner: open files, the chosen comparison,
  reading positions and progress (\<open>MobileReviewState\<close> of \<^verbatim>\<open>src/src/core.rs\<close>, its mutations in
  \<^verbatim>\<open>src/src/core/hub_sync.rs\<close> and the bound remote review of \<^verbatim>\<open>src/src/workspace_extensions.rs\<close>). The state is
  stored as one JSON value, read back leniently at startup, and changed by named mutations with JSON arguments.
  A \<open>BTreeMap\<close> is an association list in key order. Objects are written in field order; serde_json's own map
  sorts them, which no lookup depends on.
\<close>

section \<open>State\<close>

definition MOBILE_REVIEW_TAB_CAP :: nat where "MOBILE_REVIEW_TAB_CAP = 12"
definition MOBILE_REVIEW_PROGRESS_CAP :: nat where "MOBILE_REVIEW_PROGRESS_CAP = 512"
definition MOBILE_REVIEW_BINDING_CAP :: nat where "MOBILE_REVIEW_BINDING_CAP = 16"
definition MOBILE_REVIEW_POSITION_CAP :: nat where "MOBILE_REVIEW_POSITION_CAP = 512"

lemmas review_caps =
  MOBILE_REVIEW_TAB_CAP_def MOBILE_REVIEW_PROGRESS_CAP_def MOBILE_REVIEW_BINDING_CAP_def
  MOBILE_REVIEW_POSITION_CAP_def

record review_binding =
  rb_plugin_id :: string
  rb_view :: string
  rb_host :: string
  rb_owner :: string
  rb_repository :: string
  rb_repository_id :: string
  rb_number :: string

record review_tab =
  vt_path :: string
  vt_pinned :: bool

record review_position =
  vp_line :: nat
  vp_revision :: "string option"

record mobile_review =
  mr_open_revision :: nat
  mr_reveal_revision :: nat
  mr_directory :: "string option option"
  mr_future :: "(string \<times> json) list"
  mr_remote_review :: "review_binding option"
  mr_remote_selected :: bool
  mr_comparison :: "string option"
  mr_bindings :: "string list"
  mr_mode :: string
  mr_tabs :: "review_tab list"
  mr_active :: "string option"
  mr_progress :: "(string \<times> string) list"
  mr_positions :: "(string \<times> review_position) list"

definition default_mobile_review_mode :: string where
  "default_mobile_review_mode = ''git''"

definition default_review :: mobile_review where
  "default_review = \<lparr>
     mr_open_revision = 0, mr_reveal_revision = 0, mr_directory = None, mr_future = [],
     mr_remote_review = None, mr_remote_selected = False, mr_comparison = None, mr_bindings = [],
     mr_mode = default_mobile_review_mode, mr_tabs = [], mr_active = None, mr_progress = [],
     mr_positions = []\<rparr>"

section \<open>Validation\<close>

definition review_segment :: "string \<Rightarrow> nat \<Rightarrow> bool" where
  "review_segment s max_len \<longleftrightarrow>
     s \<noteq> [] \<and> length s \<le> max_len \<and> s \<noteq> ''.'' \<and> s \<noteq> ''..''
   \<and> list_all (\<lambda>b. is_ascii_alnum b \<or> b \<in> set ''._-'') s"

definition review_numeric :: "string \<Rightarrow> bool" where
  "review_numeric s \<longleftrightarrow>
     s \<noteq> [] \<and> length s \<le> 24 \<and> list_all (\<lambda>b. 48 \<le> byte_of b \<and> byte_of b \<le> 57) s"

definition review_binding_valid :: "review_binding \<Rightarrow> bool" where
  "review_binding_valid b \<longleftrightarrow>
     review_segment (rb_plugin_id b) 128 \<and> review_segment (rb_view b) 128
   \<and> review_segment (rb_host b) 253 \<and> CHR ''.'' \<in> set (rb_host b)
   \<and> review_segment (rb_owner b) 100 \<and> review_segment (rb_repository b) 100
   \<and> review_numeric (rb_repository_id b) \<and> review_numeric (rb_number b)"

definition valid_mobile_review_binding :: "string \<Rightarrow> bool" where
  "valid_mobile_review_binding context \<longleftrightarrow> context \<noteq> ''project'' \<and> review_directory_valid context"

definition valid_mobile_review_comparison :: "string \<Rightarrow> bool" where
  "valid_mobile_review_comparison value \<longleftrightarrow>
     (let reference = (if starts_with value ''committed:'' then drop 10 value else value)
      in value = []
       \<or> (starts_with reference ''refs/'' \<and> length value \<le> 512
          \<and> \<not> list_ex is_control (utf8_chars value)))"

definition valid_mobile_review_path :: "string \<Rightarrow> bool" where
  "valid_mobile_review_path path \<longleftrightarrow>
     path \<noteq> [] \<and> length path \<le> 4096 \<and> \<not> starts_with path ''/''
   \<and> \<not> list_ex (\<lambda>part. part = [] \<or> part = ''.'' \<or> part = ''..'') (split_at_char (CHR ''/'') [] path)
   \<and> CHR 0x00 \<notin> set path"

definition review_mode_ok :: "string \<Rightarrow> bool" where
  "review_mode_ok mode \<longleftrightarrow> mode = ''files'' \<or> mode = ''git''"

definition review_revision_ok :: "string \<Rightarrow> bool" where
  "review_revision_ok revision \<longleftrightarrow> revision \<noteq> [] \<and> length revision \<le> 512"

definition mobile_review_string_arg :: "json \<Rightarrow> string \<Rightarrow> nat \<Rightarrow> string + string" where
  "mobile_review_string_arg args name max_len =
     (case jget_str name args of
        None \<Rightarrow> Inl (''missing '' @ name)
      | Some value \<Rightarrow>
          if value = [] \<or> max_len < length value \<or> CHR 0x00 \<in> set value then Inl (''invalid '' @ name)
          else Inr value)"

section \<open>Reading a stored state\<close>

text \<open>A derived deserialiser without \<open>deny_unknown_fields\<close>.\<close>

definition open_struct :: "string list \<Rightarrow> json \<Rightarrow> fields_of option" where
  "open_struct names v = (case v of
       JObj kvs \<Rightarrow> Some (map_of kvs)
     | JArr vs \<Rightarrow> if length vs \<le> length names then Some (map_of (zip names vs)) else None
     | _ \<Rightarrow> None)"

definition read_default :: "(json \<Rightarrow> 'a option) \<Rightarrow> 'a \<Rightarrow> fields_of \<Rightarrow> string \<Rightarrow> 'a option" where
  "read_default f d g k = (case g k of None \<Rightarrow> Some d | Some v \<Rightarrow> f v)"

fun json_uint :: "nat \<Rightarrow> json \<Rightarrow> nat option" where
  "json_uint max_value (JInt n) = (if 0 \<le> n \<and> nat n \<le> max_value then Some (nat n) else None)"
| "json_uint max_value _ = None"

fun json_option :: "(json \<Rightarrow> 'a option) \<Rightarrow> json \<Rightarrow> 'a option option" where
  "json_option f JNull = Some None"
| "json_option f v = map_option Some (f v)"

definition json_list :: "(json \<Rightarrow> 'a option) \<Rightarrow> json \<Rightarrow> 'a list option" where
  "json_list f v = Option.bind (jarr v) (\<lambda>vs. those (map f vs))"

definition btree_of :: "(string \<times> 'v) list \<Rightarrow> (string \<times> 'v) list" where
  "btree_of kvs = foldr (\<lambda>(k, v). btree_insert k v) kvs []"

fun json_map :: "(json \<Rightarrow> 'a option) \<Rightarrow> json \<Rightarrow> (string \<times> 'a) list option" where
  "json_map f (JObj kvs) = map_option btree_of (those (map (\<lambda>(k, v). map_option (Pair k) (f v)) kvs))"
| "json_map f _ = None"

definition read_tab :: "json \<Rightarrow> review_tab option" where
  "read_tab v = do {
     g \<leftarrow> open_struct [''path'', ''pinned''] v;
     path \<leftarrow> read_str g ''path'';
     pinned \<leftarrow> read_default jbool False g ''pinned'';
     Some \<lparr>vt_path = path, vt_pinned = pinned\<rparr>
   }"

definition read_position :: "json \<Rightarrow> review_position option" where
  "read_position v = do {
     g \<leftarrow> open_struct [''line'', ''revision''] v;
     line \<leftarrow> Option.bind (g ''line'') (json_uint u32_max);
     revision \<leftarrow> read_default (json_option jstr) None g ''revision'';
     Some \<lparr>vp_line = line, vp_revision = revision\<rparr>
   }"

definition read_review_binding :: "json \<Rightarrow> review_binding option" where
  "read_review_binding v = do {
     g \<leftarrow> struct_get [''pluginId'', ''view'', ''host'', ''owner'', ''repository'', ''repositoryId'', ''number''] v;
     plugin_id \<leftarrow> read_str g ''pluginId'';
     view \<leftarrow> read_str g ''view'';
     host \<leftarrow> read_str g ''host'';
     owner \<leftarrow> read_str g ''owner'';
     repository \<leftarrow> read_str g ''repository'';
     repository_id \<leftarrow> read_str g ''repositoryId'';
     number \<leftarrow> read_str g ''number'';
     Some \<lparr>rb_plugin_id = plugin_id, rb_view = view, rb_host = host, rb_owner = owner,
       rb_repository = repository, rb_repository_id = repository_id, rb_number = number\<rparr>
   }"

definition review_fields :: "string list" where
  "review_fields =
     [''open_revision'', ''reveal_revision'', ''directory'', ''remote_review'', ''remote_selected'',
      ''comparison'', ''bindings'', ''mode'', ''tabs'', ''active'', ''progress'', ''positions'']"

text \<open>The flattened \<open>future\<close> field takes every entry no other field claims; it makes the reading one of
  objects only. \<open>deserialize_override\<close> keeps null apart from an absent directory.\<close>

fun read_review :: "json \<Rightarrow> mobile_review option" where
  "read_review (JObj kvs) = (let g = map_of kvs in do {
     open_revision \<leftarrow> read_default (json_uint usize_max) 0 g ''open_revision'';
     reveal_revision \<leftarrow> read_default (json_uint usize_max) 0 g ''reveal_revision'';
     directory \<leftarrow> read_default (\<lambda>v. map_option Some (json_option jstr v)) None g ''directory'';
     remote_review \<leftarrow> read_default (json_option read_review_binding) None g ''remote_review'';
     remote_selected \<leftarrow> read_default jbool False g ''remote_selected'';
     comparison \<leftarrow> read_default (json_option jstr) None g ''comparison'';
     bindings \<leftarrow> read_default (json_list jstr) [] g ''bindings'';
     mode \<leftarrow> read_default jstr default_mobile_review_mode g ''mode'';
     tabs \<leftarrow> read_default (json_list read_tab) [] g ''tabs'';
     active \<leftarrow> read_default (json_option jstr) None g ''active'';
     progress \<leftarrow> read_default (json_map jstr) [] g ''progress'';
     positions \<leftarrow> read_default (json_map read_position) [] g ''positions'';
     Some \<lparr>
       mr_open_revision = open_revision, mr_reveal_revision = reveal_revision, mr_directory = directory,
       mr_future = btree_of (filter (\<lambda>kv. fst kv \<notin> set review_fields) kvs),
       mr_remote_review = remote_review, mr_remote_selected = remote_selected,
       mr_comparison = comparison, mr_bindings = bindings, mr_mode = mode, mr_tabs = tabs,
       mr_active = active, mr_progress = progress, mr_positions = positions\<rparr>
   })"
| "read_review _ = None"

text \<open>\<open>retain(|tab| seen.insert(tab.path.clone()))\<close>.\<close>

fun dedup_tabs :: "review_tab list \<Rightarrow> review_tab list" where
  "dedup_tabs [] = []"
| "dedup_tabs (t # ts) = t # filter (\<lambda>u. vt_path u \<noteq> vt_path t) (dedup_tabs ts)"

text \<open>Removing the first entry of a map while it is over its cap.\<close>

fun evict_front :: "nat \<Rightarrow> 'a list \<Rightarrow> 'a list" where
  "evict_front cap [] = []"
| "evict_front cap (x # xs) = (if cap < length (x # xs) then evict_front cap xs else x # xs)"

definition stored_progress_ok :: "string \<times> string \<Rightarrow> bool" where
  "stored_progress_ok p \<longleftrightarrow>
     fst p \<noteq> [] \<and> length (fst p) \<le> 2048 \<and> review_revision_ok (snd p)"

definition stored_position_ok :: "string \<times> review_position \<Rightarrow> bool" where
  "stored_position_ok p \<longleftrightarrow>
     valid_mobile_review_path (fst p) \<and> 0 < vp_line (snd p)
   \<and> (case vp_revision (snd p) of None \<Rightarrow> True | Some r \<Rightarrow> review_revision_ok r)"

definition stored_tabs :: "review_tab list \<Rightarrow> review_tab list" where
  "stored_tabs tabs =
     (let kept = dedup_tabs (filter (\<lambda>t. valid_mobile_review_path (vt_path t)) tabs)
      in if MOBILE_REVIEW_TAB_CAP < length kept
         then drop (length kept - MOBILE_REVIEW_TAB_CAP) kept else kept)"

definition repair_review :: "mobile_review \<Rightarrow> mobile_review" where
  "repair_review st =
     (let bad_remote = (case mr_remote_review st of None \<Rightarrow> False | Some b \<Rightarrow> \<not> review_binding_valid b);
          tabs = stored_tabs (mr_tabs st)
      in st\<lparr>
       mr_directory := (case mr_directory st of
           Some (Some d) \<Rightarrow> if review_directory_valid d then Some (Some d) else None
         | d \<Rightarrow> d),
       mr_remote_review := (if bad_remote then None else mr_remote_review st),
       mr_remote_selected := (if bad_remote then False else mr_remote_selected st),
       mr_comparison := (case mr_comparison st of
           Some c \<Rightarrow> if valid_mobile_review_comparison c then Some c else None
         | None \<Rightarrow> None),
       mr_bindings := take MOBILE_REVIEW_BINDING_CAP
         (dedup (filter valid_mobile_review_binding (mr_bindings st))),
       mr_mode := (if review_mode_ok (mr_mode st) then mr_mode st else default_mobile_review_mode),
       mr_tabs := tabs,
       mr_active := (case mr_active st of
           Some path \<Rightarrow> if path \<in> set (map vt_path tabs) then Some path else None
         | None \<Rightarrow> None),
       mr_progress := evict_front MOBILE_REVIEW_PROGRESS_CAP (filter stored_progress_ok (mr_progress st)),
       mr_positions := evict_front MOBILE_REVIEW_POSITION_CAP (filter stored_position_ok (mr_positions st))\<rparr>)"

definition from_stored :: "json \<Rightarrow> mobile_review" where
  "from_stored v = repair_review (case read_review v of None \<Rightarrow> default_review | Some st \<Rightarrow> st)"

section \<open>Writing the state\<close>

definition json_nat :: "nat \<Rightarrow> json" where
  "json_nat n = JInt (int n)"

definition some_field :: "string \<Rightarrow> ('a \<Rightarrow> json) \<Rightarrow> 'a option \<Rightarrow> (string \<times> json) list" where
  "some_field k f v = (case v of None \<Rightarrow> [] | Some x \<Rightarrow> [(k, f x)])"

definition nullable :: "string option \<Rightarrow> json" where
  "nullable v = (case v of None \<Rightarrow> JNull | Some s \<Rightarrow> JStr s)"

definition review_binding_json :: "review_binding \<Rightarrow> json" where
  "review_binding_json b = JObj
     [(''pluginId'', JStr (rb_plugin_id b)), (''view'', JStr (rb_view b)), (''host'', JStr (rb_host b)),
      (''owner'', JStr (rb_owner b)), (''repository'', JStr (rb_repository b)),
      (''repositoryId'', JStr (rb_repository_id b)), (''number'', JStr (rb_number b))]"

definition tab_json :: "review_tab \<Rightarrow> json" where
  "tab_json t = JObj [(''path'', JStr (vt_path t)), (''pinned'', JBool (vt_pinned t))]"

definition position_json :: "review_position \<Rightarrow> json" where
  "position_json p = JObj ((''line'', json_nat (vp_line p)) # some_field ''revision'' JStr (vp_revision p))"

definition review_json :: "mobile_review \<Rightarrow> json" where
  "review_json st = JObj (
     [(''open_revision'', json_nat (mr_open_revision st)),
      (''reveal_revision'', json_nat (mr_reveal_revision st))]
     @ some_field ''directory'' nullable (mr_directory st)
     @ mr_future st
     @ some_field ''remote_review'' review_binding_json (mr_remote_review st)
     @ [(''remote_selected'', JBool (mr_remote_selected st))]
     @ some_field ''comparison'' JStr (mr_comparison st)
     @ (if mr_bindings st = [] then [] else [(''bindings'', JArr (map JStr (mr_bindings st)))])
     @ [(''mode'', JStr (mr_mode st)), (''tabs'', JArr (map tab_json (mr_tabs st)))]
     @ some_field ''active'' JStr (mr_active st)
     @ [(''progress'', JObj (map (\<lambda>(k, v). (k, JStr v)) (mr_progress st))),
        (''positions'', JObj (map (\<lambda>(k, v). (k, position_json v)) (mr_positions st)))])"

section \<open>Mutations\<close>

type_synonym review_result = "string + mobile_review"

definition review_set_directory :: "json \<Rightarrow> mobile_review \<Rightarrow> review_result" where
  "review_set_directory args st =
     (if jget ''inherit'' args = Some (JBool True)
      then (if jget ''directory'' args \<noteq> None then Inl ''inherit cannot also set a directory''
            else Inr (st\<lparr>mr_directory := None\<rparr>))
      else (case jget ''directory'' args of
          Some JNull \<Rightarrow> Inr (st\<lparr>mr_directory := Some None\<rparr>)
        | Some (JStr value) \<Rightarrow>
            if review_directory_valid value then Inr (st\<lparr>mr_directory := Some (Some value)\<rparr>)
            else Inl ''invalid Zed default directory''
        | _ \<Rightarrow> Inl ''invalid Zed default directory''))"

definition review_set_remote :: "json \<Rightarrow> mobile_review \<Rightarrow> review_result" where
  "review_set_remote args st =
     (case jget ''binding'' args of
        None \<Rightarrow> Inl ''missing PR association''
      | Some JNull \<Rightarrow> Inr (st\<lparr>mr_remote_review := None\<rparr>)
      | Some value \<Rightarrow>
          (case read_review_binding value of
             None \<Rightarrow> Inl ''invalid PR association''
           | Some b \<Rightarrow>
               if \<not> review_binding_valid b then Inl ''invalid PR association''
               else Inr (st\<lparr>mr_remote_review := Some b\<rparr>)))"

definition review_select_remote :: "json \<Rightarrow> mobile_review \<Rightarrow> review_result" where
  "review_select_remote args st =
     rbind (ok_or (Option.bind (jget ''selected'' args) jbool) ''invalid PR selection'') (\<lambda>selected.
       Inr (st\<lparr>mr_remote_selected := selected\<rparr>))"

text \<open>Room for one more tab: at the cap the first unpinned tab goes, the first one if all are pinned.\<close>

definition evict_tab :: "mobile_review \<Rightarrow> mobile_review" where
  "evict_tab st =
     (if MOBILE_REVIEW_TAB_CAP \<le> length (mr_tabs st)
      then (let evict = (case position (\<lambda>t. \<not> vt_pinned t) (mr_tabs st) of None \<Rightarrow> 0 | Some i \<Rightarrow> i);
                removed = mr_tabs st ! evict
            in st\<lparr>mr_tabs := remove_nth evict (mr_tabs st),
                  mr_active := (if mr_active st = Some (vt_path removed) then None else mr_active st)\<rparr>)
      else st)"

definition with_tab :: "string \<Rightarrow> mobile_review \<Rightarrow> mobile_review" where
  "with_tab path st =
     (if path \<in> set (map vt_path (mr_tabs st)) then st
      else (let st = evict_tab st
            in st\<lparr>mr_tabs := mr_tabs st @ [\<lparr>vt_path = path, vt_pinned = False\<rparr>]\<rparr>))"

definition review_open :: "json \<Rightarrow> mobile_review \<Rightarrow> review_result" where
  "review_open args st =
     rbind (mobile_review_string_arg args ''path'' 4096) (\<lambda>path.
       if \<not> valid_mobile_review_path path then Inl ''invalid mobile review path''
       else (let st = (with_tab path st)\<lparr>mr_active := Some path, mr_mode := ''files'',
                       mr_open_revision := usize_add (mr_open_revision st) 1\<rparr>
             in Inr (if jget ''reveal'' args = Some (JBool True)
                     then st\<lparr>mr_reveal_revision := usize_add (mr_reveal_revision st) 1,
                             mr_remote_selected := False\<rparr>
                     else st)))"

definition review_close :: "json \<Rightarrow> mobile_review \<Rightarrow> review_result" where
  "review_close args st =
     rbind (mobile_review_string_arg args ''path'' 4096) (\<lambda>path.
       (let tabs = filter (\<lambda>t. vt_path t \<noteq> path) (mr_tabs st)
        in Inr (st\<lparr>mr_tabs := tabs,
                   mr_active := (if mr_active st = Some path
                                 then (if tabs = [] then None else Some (vt_path (last tabs)))
                                 else mr_active st)\<rparr>)))"

definition review_reorder :: "json \<Rightarrow> mobile_review \<Rightarrow> review_result" where
  "review_reorder args st =
     rbind (ok_or (Option.bind (jget ''paths'' args) jarr) ''reorder: missing paths'') (\<lambda>paths.
       (let order = filter valid_mobile_review_path (List.map_filter jstr paths)
        in Inr (st\<lparr>mr_tabs := sort_by_id_order vt_path order (mr_tabs st)\<rparr>)))"

definition review_set_pinned :: "json \<Rightarrow> mobile_review \<Rightarrow> review_result" where
  "review_set_pinned args st =
     rbind (mobile_review_string_arg args ''path'' 4096) (\<lambda>path.
     rbind (ok_or (Option.bind (jget ''pinned'' args) jbool) ''setPinned: missing pinned'') (\<lambda>pinned.
       Inr (st\<lparr>mr_tabs := update_first (\<lambda>t. vt_path t = path) (\<lambda>t. t\<lparr>vt_pinned := pinned\<rparr>) (mr_tabs st)\<rparr>)))"

definition review_activate :: "json \<Rightarrow> mobile_review \<Rightarrow> review_result" where
  "review_activate args st =
     Inr (st\<lparr>mr_active := (case jget_str ''path'' args of
         None \<Rightarrow> None
       | Some path \<Rightarrow> if path \<in> set (map vt_path (mr_tabs st)) then Some path else None)\<rparr>)"

definition review_set_mode :: "json \<Rightarrow> mobile_review \<Rightarrow> review_result" where
  "review_set_mode args st =
     rbind (mobile_review_string_arg args ''mode'' 16) (\<lambda>mode.
       if \<not> review_mode_ok mode then Inl ''invalid mobile review mode''
       else Inr (st\<lparr>mr_mode := mode\<rparr>))"

definition review_set_comparison :: "json \<Rightarrow> mobile_review \<Rightarrow> review_result" where
  "review_set_comparison args st =
     (case jget ''comparison'' args of
        None \<Rightarrow> Inr (st\<lparr>mr_comparison := None\<rparr>)
      | Some JNull \<Rightarrow> Inr (st\<lparr>mr_comparison := None\<rparr>)
      | Some value \<Rightarrow>
          (case jstr value of
             Some c \<Rightarrow> if valid_mobile_review_comparison c then Inr (st\<lparr>mr_comparison := Some c\<rparr>)
                       else Inl ''setComparison: invalid comparison''
           | None \<Rightarrow> Inl ''setComparison: invalid comparison''))"

definition review_bind :: "json \<Rightarrow> mobile_review \<Rightarrow> review_result" where
  "review_bind args st =
     rbind (mobile_review_string_arg args ''context'' 1024) (\<lambda>context.
       if \<not> valid_mobile_review_binding context then Inl ''bind: invalid context''
       else if context \<in> set (mr_bindings st) then Inr st
       else if MOBILE_REVIEW_BINDING_CAP \<le> length (mr_bindings st) then Inl ''bind: too many bindings''
       else Inr (st\<lparr>mr_bindings := mr_bindings st @ [context]\<rparr>))"

definition review_unbind :: "json \<Rightarrow> mobile_review \<Rightarrow> review_result" where
  "review_unbind args st =
     rbind (mobile_review_string_arg args ''context'' 1024) (\<lambda>context.
       Inr (st\<lparr>mr_bindings := filter (\<lambda>bound. bound \<noteq> context) (mr_bindings st)\<rparr>))"

text \<open>A bounded insert: at the cap a new key takes the place of the map's first one.\<close>

definition capped_insert :: "nat \<Rightarrow> string \<Rightarrow> 'v \<Rightarrow> (string \<times> 'v) list \<Rightarrow> (string \<times> 'v) list" where
  "capped_insert cap key value m =
     btree_insert key value
       (if cap \<le> length m \<and> map_of m key = None then drop 1 m else m)"

definition review_mark_reviewed :: "json \<Rightarrow> mobile_review \<Rightarrow> review_result" where
  "review_mark_reviewed args st =
     rbind (mobile_review_string_arg args ''key'' 2048) (\<lambda>key.
       (case jget_str ''revision'' args of
          Some revision \<Rightarrow>
            if review_revision_ok revision
            then Inr (st\<lparr>mr_progress :=
                   capped_insert MOBILE_REVIEW_PROGRESS_CAP key revision (mr_progress st)\<rparr>)
            else Inl ''invalid review revision''
        | None \<Rightarrow> Inr (st\<lparr>mr_progress := adelete key (mr_progress st)\<rparr>)))"

definition position_revision :: "json \<Rightarrow> string + string option" where
  "position_revision args =
     (case jget ''revision'' args of
        None \<Rightarrow> Inr None
      | Some JNull \<Rightarrow> Inr None
      | Some value \<Rightarrow>
          (case jstr value of
             Some r \<Rightarrow> if review_revision_ok r then Inr (Some r) else Inl ''setPosition: invalid revision''
           | None \<Rightarrow> Inl ''setPosition: invalid revision''))"

definition review_set_position :: "json \<Rightarrow> mobile_review \<Rightarrow> review_result" where
  "review_set_position args st =
     rbind (mobile_review_string_arg args ''path'' 4096) (\<lambda>path.
       if \<not> valid_mobile_review_path path then Inl ''invalid mobile review path''
       else
     rbind (ok_or (Option.bind (Option.bind (jget ''line'' args) (json_uint u32_max))
                     (\<lambda>line. if 0 < line then Some line else None)) ''setPosition: invalid line'') (\<lambda>line.
     rbind (position_revision args) (\<lambda>revision.
       Inr (st\<lparr>mr_positions := capped_insert MOBILE_REVIEW_POSITION_CAP path
                 \<lparr>vp_line = line, vp_revision = revision\<rparr> (mr_positions st)\<rparr>))))"

definition mutate_review :: "string \<Rightarrow> json \<Rightarrow> mobile_review \<Rightarrow> review_result" where
  "mutate_review mutation args st =
     (if mutation = ''setDirectory'' then review_set_directory args st
      else if mutation = ''setRemoteReview'' then review_set_remote args st
      else if mutation = ''selectRemoteReview'' then review_select_remote args st
      else if mutation = ''open'' then review_open args st
      else if mutation = ''close'' then review_close args st
      else if mutation = ''reorder'' then review_reorder args st
      else if mutation = ''setPinned'' then review_set_pinned args st
      else if mutation = ''activate'' then review_activate args st
      else if mutation = ''setMode'' then review_set_mode args st
      else if mutation = ''setComparison'' then review_set_comparison args st
      else if mutation = ''bind'' then review_bind args st
      else if mutation = ''unbind'' then review_unbind args st
      else if mutation = ''markReviewed'' then review_mark_reviewed args st
      else if mutation = ''setPosition'' then review_set_position args st
      else Inl (''unknown mobile review mutation '' @ mutation))"

section \<open>Bounded inserts\<close>

lemma btree_of_Nil [simp]: "btree_of [] = []"
  by (simp add: btree_of_def)

lemma btree_of_Cons [simp]: "btree_of ((k, v) # m) = btree_insert k v (btree_of m)"
  by (simp add: btree_of_def)

lemma sorted_keys_btree_of: "sorted_keys (btree_of m)"
  by (induction m) auto

lemma btree_of_sorted: "sorted_keys m \<Longrightarrow> btree_of m = m"
  by (induction m) (auto simp: btree_insert_front)

lemma map_of_btree_of: "map_of (btree_of m) = map_of m"
  by (induction m) auto

lemma set_btree_of: "set (btree_of m) \<subseteq> set m"
  by (induction m) (use btree_insert_members in \<open>fastforce\<close>)+

lemma capped_insert_set:
  "set (capped_insert cap key value m) \<subseteq> insert (key, value) (set m)"
  unfolding capped_insert_def
  by (rule order_trans [OF btree_insert_members]) (auto dest: in_set_dropD)

lemma capped_insert_sorted [intro]: "sorted_keys m \<Longrightarrow> sorted_keys (capped_insert cap key value m)"
  unfolding capped_insert_def by (intro sorted_keys_btree_insert) auto

lemma capped_insert_length:
  assumes "sorted_keys m" and "length m \<le> cap" and "0 < cap"
  shows "length (capped_insert cap key value m) \<le> cap"
proof (cases "map_of m key")
  case None
  then show ?thesis
    using assms length_btree_insert [of key "value" "if cap \<le> length m then drop 1 m else m"]
    by (auto simp: capped_insert_def split: if_splits)
next
  case Some
  then show ?thesis
    using assms by (simp add: capped_insert_def length_btree_insert_present)
qed

lemma evict_front_drop: "evict_front cap xs = drop (length xs - cap) xs"
  by (induction xs) (auto simp: Suc_diff_le not_less)

lemma evict_front_id: "length xs \<le> cap \<Longrightarrow> evict_front cap xs = xs"
  by (simp add: evict_front_drop)

lemma length_evict_front: "length (evict_front cap xs) \<le> cap"
  by (simp add: evict_front_drop)

lemma set_evict_front: "set (evict_front cap xs) \<subseteq> set xs"
  by (simp add: evict_front_drop set_drop_subset)

section \<open>The invariant\<close>

definition future_ok :: "(string \<times> json) list \<Rightarrow> bool" where
  "future_ok m \<longleftrightarrow> sorted_keys m \<and> list_all (\<lambda>p. fst p \<notin> set review_fields) m"

definition bindings_ok :: "string list \<Rightarrow> bool" where
  "bindings_ok bs \<longleftrightarrow>
     length bs \<le> MOBILE_REVIEW_BINDING_CAP \<and> distinct bs \<and> list_all valid_mobile_review_binding bs"

definition tabs_ok :: "review_tab list \<Rightarrow> bool" where
  "tabs_ok ts \<longleftrightarrow>
     length ts \<le> MOBILE_REVIEW_TAB_CAP \<and> distinct (map vt_path ts)
   \<and> list_all valid_mobile_review_path (map vt_path ts)"

definition progress_ok :: "(string \<times> string) list \<Rightarrow> bool" where
  "progress_ok m \<longleftrightarrow>
     length m \<le> MOBILE_REVIEW_PROGRESS_CAP \<and> sorted_keys m \<and> list_all stored_progress_ok m"

definition positions_ok :: "(string \<times> review_position) list \<Rightarrow> bool" where
  "positions_ok m \<longleftrightarrow>
     length m \<le> MOBILE_REVIEW_POSITION_CAP \<and> sorted_keys m
   \<and> list_all (\<lambda>p. stored_position_ok p \<and> vp_line (snd p) \<le> u32_max) m"

definition review_wf :: "mobile_review \<Rightarrow> bool" where
  "review_wf st \<longleftrightarrow>
     mr_open_revision st \<le> usize_max \<and> mr_reveal_revision st \<le> usize_max
   \<and> pred_option (pred_option review_directory_valid) (mr_directory st)
   \<and> future_ok (mr_future st)
   \<and> pred_option review_binding_valid (mr_remote_review st)
   \<and> pred_option valid_mobile_review_comparison (mr_comparison st)
   \<and> bindings_ok (mr_bindings st)
   \<and> review_mode_ok (mr_mode st)
   \<and> tabs_ok (mr_tabs st)
   \<and> pred_option (\<lambda>path. path \<in> set (map vt_path (mr_tabs st))) (mr_active st)
   \<and> progress_ok (mr_progress st)
   \<and> positions_ok (mr_positions st)"

lemma set_dedup_tabs: "set (dedup_tabs ts) \<subseteq> set ts"
  by (induction ts) auto

lemma distinct_dedup_tabs: "distinct (map vt_path (dedup_tabs ts))"
  by (induction ts) (auto intro: distinct_map_filter_id)

lemma dedup_tabs_id: "distinct (map vt_path ts) \<Longrightarrow> dedup_tabs ts = ts"
  by (induction ts) (auto simp: filter_id_conv rev_image_eqI)

lemma dedup_id: "distinct xs \<Longrightarrow> dedup xs = xs"
  by (induction xs) (auto simp: filter_id_conv)

lemma stored_tabs_ok: "tabs_ok (stored_tabs ts)"
proof -
  define kept where "kept = dedup_tabs (filter (\<lambda>t. valid_mobile_review_path (vt_path t)) ts)"
  have valid: "\<forall>t \<in> set kept. valid_mobile_review_path (vt_path t)"
    unfolding kept_def using set_dedup_tabs by fastforce
  have distinct: "distinct (map vt_path kept)"
    unfolding kept_def by (rule distinct_dedup_tabs)
  have eq: "stored_tabs ts = drop (length kept - MOBILE_REVIEW_TAB_CAP) kept"
    by (simp add: stored_tabs_def kept_def Let_def)
  have "distinct (map vt_path (drop n kept))" for n
    using distinct by (metis distinct_drop drop_map)
  then show ?thesis
    using valid unfolding eq tabs_ok_def by (auto simp: list_all_iff dest: in_set_dropD)
qed

lemma stored_tabs_id:
  assumes "tabs_ok ts" shows "stored_tabs ts = ts"
proof -
  have "filter (\<lambda>t. valid_mobile_review_path (vt_path t)) ts = ts"
    using assms by (auto simp: tabs_ok_def list_all_iff intro: filter_True)
  then show ?thesis using assms by (simp add: tabs_ok_def stored_tabs_def dedup_tabs_id)
qed

section \<open>A stored state is repaired\<close>

lemma future_ok_btree_of: "future_ok (btree_of (filter (\<lambda>kv. fst kv \<notin> set review_fields) kvs))"
  using set_btree_of by (fastforce simp: future_ok_def sorted_keys_btree_of list_all_iff)

lemma json_uint_le: "json_uint n v = Some x \<Longrightarrow> x \<le> n"
  by (cases v) (auto split: if_splits)

lemma json_map_sorted: "json_map f v = Some m \<Longrightarrow> sorted_keys m"
  by (cases v) (auto simp: sorted_keys_btree_of)

lemma those_Some: "those xs = Some ys \<longleftrightarrow> xs = map Some ys"
  by (induction xs arbitrary: ys) (auto split: option.splits)

lemma json_map_values:
  assumes "json_map f v = Some m" and "p \<in> set m" shows "\<exists>w. f w = Some (snd p)"
proof -
  obtain kvs ps where v: "v = JObj kvs" and m: "m = btree_of ps"
    and those: "map (\<lambda>(k, v). map_option (Pair k) (f v)) kvs = map Some ps"
    using assms(1) by (cases v) (auto simp: those_Some)
  have "p \<in> set ps" using assms(2) m set_btree_of by blast
  then have "Some p \<in> set (map (\<lambda>(k, v). map_option (Pair k) (f v)) kvs)"
    unfolding those by simp
  then obtain k w where "map_option (Pair k) (f w) = Some p" by (auto simp: eq_commute)
  then show ?thesis by (cases "f w") auto
qed

lemma read_position_line: "read_position v = Some p \<Longrightarrow> vp_line p \<le> u32_max"
  by (auto simp: read_position_def bind_eq_Some_conv dest: json_uint_le)

text \<open>What a reading guarantees before the repair.\<close>

definition review_readable :: "mobile_review \<Rightarrow> bool" where
  "review_readable st \<longleftrightarrow>
     mr_open_revision st \<le> usize_max \<and> mr_reveal_revision st \<le> usize_max
   \<and> future_ok (mr_future st) \<and> sorted_keys (mr_progress st) \<and> sorted_keys (mr_positions st)
   \<and> list_all (\<lambda>p. vp_line (snd p) \<le> u32_max) (mr_positions st)"

lemma read_default_cases:
  assumes "read_default f d g k = Some x"
  obtains "x = d" | v where "f v = Some x"
  using assms that by (cases "g k") (simp_all add: read_default_def)

lemma read_default_uint: "read_default (json_uint n) 0 g k = Some x \<Longrightarrow> x \<le> n"
  by (erule read_default_cases) (auto dest: json_uint_le)

lemma read_default_map: "read_default (json_map f) [] g k = Some m \<Longrightarrow> sorted_keys m"
  by (erule read_default_cases) (auto dest: json_map_sorted)

lemma read_default_lines:
  "read_default (json_map read_position) [] g k = Some m \<Longrightarrow> list_all (\<lambda>p. vp_line (snd p) \<le> u32_max) m"
  by (erule read_default_cases) (auto simp: list_all_iff dest: json_map_values read_position_line)

lemma read_review_readable:
  assumes "read_review v = Some st" shows "review_readable st"
proof -
  obtain kvs where "v = JObj kvs" using assms by (cases v) auto
  then show ?thesis
    using assms unfolding review_readable_def
    by (clarsimp simp: Let_def bind_eq_Some_conv future_ok_btree_of read_default_uint read_default_map
        read_default_lines)
qed

lemma default_review_readable: "review_readable default_review"
  by (simp add: review_readable_def default_review_def future_ok_def)

lemma stored_progress: "sorted_keys m \<Longrightarrow> progress_ok (evict_front MOBILE_REVIEW_PROGRESS_CAP (filter stored_progress_ok m))"
  using set_evict_front [of MOBILE_REVIEW_PROGRESS_CAP "filter stored_progress_ok m"]
  by (auto simp: progress_ok_def length_evict_front evict_front_drop list_all_iff dest: in_set_dropD)

lemma stored_positions:
  "sorted_keys m \<Longrightarrow> list_all (\<lambda>p. vp_line (snd p) \<le> u32_max) m \<Longrightarrow>
   positions_ok (evict_front MOBILE_REVIEW_POSITION_CAP (filter stored_position_ok m))"
  using set_evict_front [of MOBILE_REVIEW_POSITION_CAP "filter stored_position_ok m"]
  by (auto simp: positions_ok_def length_evict_front evict_front_drop list_all_iff dest: in_set_dropD)

lemma stored_bindings:
  "bindings_ok (take MOBILE_REVIEW_BINDING_CAP (dedup (filter valid_mobile_review_binding bs)))"
  by (auto simp: bindings_ok_def list_all_iff dest: in_set_takeD)

lemma repair_review_ok: "review_readable st \<Longrightarrow> review_wf (repair_review st)"
  by (auto simp: review_readable_def review_wf_def repair_review_def Let_def stored_progress stored_positions
      stored_bindings stored_tabs_ok review_mode_ok_def default_mobile_review_mode_def
      split: option.splits)

theorem from_stored_ok: "review_wf (from_stored v)"
  by (auto simp: from_stored_def default_review_readable repair_review_ok read_review_readable
      split: option.splits)

section \<open>Every mutation keeps the invariant\<close>

lemma review_okD:
  assumes "review_wf st"
  shows "tabs_ok (mr_tabs st)" "bindings_ok (mr_bindings st)" "progress_ok (mr_progress st)"
    "positions_ok (mr_positions st)"
  using assms by (auto simp: review_wf_def)

lemma string_arg_ok:
  "mobile_review_string_arg args name n = Inr x \<Longrightarrow> x \<noteq> [] \<and> length x \<le> n"
  by (auto simp: mobile_review_string_arg_def split: option.splits if_splits)

lemma tabs_ok_filter: "tabs_ok ts \<Longrightarrow> tabs_ok (filter P ts)"
  by (auto simp: tabs_ok_def list_all_iff distinct_map_filter_id intro: order_trans [OF length_filter_le])

lemma tabs_ok_mset:
  assumes "mset us = mset ts" shows "tabs_ok us = tabs_ok ts"
proof -
  have "mset (map vt_path us) = mset (map vt_path ts)" using assms by simp
  then show ?thesis
    using assms by (metis (no_types, lifting) list.pred_set mset_eq_imp_distinct_iff mset_eq_length set_mset_mset tabs_ok_def)
qed

lemma tabs_ok_same_paths: "map vt_path us = map vt_path ts \<Longrightarrow> tabs_ok us = tabs_ok ts"
  using map_eq_imp_length_eq unfolding tabs_ok_def by metis

lemma evict_tab_spec:
  assumes "tabs_ok (mr_tabs st)"
  shows "tabs_ok (mr_tabs (evict_tab st)) \<and> length (mr_tabs (evict_tab st)) < MOBILE_REVIEW_TAB_CAP
   \<and> set (mr_tabs (evict_tab st)) \<subseteq> set (mr_tabs st)"
proof (cases "MOBILE_REVIEW_TAB_CAP \<le> length (mr_tabs st)")
  case False
  then show ?thesis using assms by (simp add: evict_tab_def)
next
  case True
  define i where "i = (case position (\<lambda>t. \<not> vt_pinned t) (mr_tabs st) of None \<Rightarrow> 0 | Some i \<Rightarrow> i)"
  have i: "i < length (mr_tabs st)"
    using True by (auto simp: i_def review_caps split: option.splits)
  have eq: "mr_tabs (evict_tab st) = remove_nth i (mr_tabs st)"
    using True by (simp add: evict_tab_def i_def Let_def)
  have "map vt_path (remove_nth i (mr_tabs st)) = remove_nth i (map vt_path (mr_tabs st))"
    by (simp add: remove_nth_def take_map drop_map)
  moreover have "distinct (remove_nth i xs)" if "distinct xs" for xs :: "string list"
    using that by (auto simp: remove_nth_def distinct_drop dest: set_take_disj_set_drop_if_distinct [where i = i and j = "Suc i"])
  ultimately have "distinct (map vt_path (remove_nth i (mr_tabs st)))"
    using assms by (simp add: tabs_ok_def)
  moreover have "list_all valid_mobile_review_path (map vt_path (remove_nth i (mr_tabs st)))"
    using assms set_remove_nth [of i "mr_tabs st"] by (auto simp: tabs_ok_def list_all_iff)
  moreover have "length (remove_nth i (mr_tabs st)) < MOBILE_REVIEW_TAB_CAP"
    using assms i length_remove_nth [OF i] by (auto simp: tabs_ok_def review_caps)
  ultimately show ?thesis
    using set_remove_nth unfolding eq tabs_ok_def by (metis less_imp_le)
qed

lemma progress_ok_insert:
  assumes "progress_ok m" and "stored_progress_ok (k, v)"
  shows "progress_ok (capped_insert MOBILE_REVIEW_PROGRESS_CAP k v m)"
proof -
  have "list_all stored_progress_ok (capped_insert MOBILE_REVIEW_PROGRESS_CAP k v m)"
    using assms capped_insert_set unfolding progress_ok_def list_all_iff by fastforce
  then show ?thesis
    using assms by (simp add: progress_ok_def capped_insert_sorted capped_insert_length review_caps)
qed

lemma positions_ok_insert:
  assumes "positions_ok m" and "stored_position_ok (k, v)" and "vp_line v \<le> u32_max"
  shows "positions_ok (capped_insert MOBILE_REVIEW_POSITION_CAP k v m)"
proof -
  have "list_all (\<lambda>p. stored_position_ok p \<and> vp_line (snd p) \<le> u32_max)
      (capped_insert MOBILE_REVIEW_POSITION_CAP k v m)"
    using assms capped_insert_set unfolding positions_ok_def list_all_iff by fastforce
  then show ?thesis
    using assms by (simp add: positions_ok_def capped_insert_sorted capped_insert_length review_caps)
qed

lemma progress_ok_adelete: "progress_ok m \<Longrightarrow> progress_ok (adelete k m)"
  by (auto simp: progress_ok_def list_all_iff adelete_def intro: order_trans [OF length_filter_le])

lemma bindings_ok_filter: "bindings_ok bs \<Longrightarrow> bindings_ok (filter P bs)"
  by (auto simp: bindings_ok_def list_all_iff intro: order_trans [OF length_filter_le])

lemma bindings_ok_snoc:
  "bindings_ok bs \<Longrightarrow> c \<notin> set bs \<Longrightarrow> length bs < MOBILE_REVIEW_BINDING_CAP \<Longrightarrow>
   valid_mobile_review_binding c \<Longrightarrow> bindings_ok (bs @ [c])"
  by (simp add: bindings_ok_def)

text \<open>A field replaced by a value that satisfies its part of the invariant.\<close>

lemma review_ok_update:
  assumes "review_wf st"
  shows "pred_option (pred_option review_directory_valid) d \<Longrightarrow> review_wf (st\<lparr>mr_directory := d\<rparr>)"
    and "pred_option review_binding_valid b \<Longrightarrow> review_wf (st\<lparr>mr_remote_review := b\<rparr>)"
    and "review_wf (st\<lparr>mr_remote_selected := sel\<rparr>)"
    and "pred_option valid_mobile_review_comparison c \<Longrightarrow> review_wf (st\<lparr>mr_comparison := c\<rparr>)"
    and "bindings_ok bs \<Longrightarrow> review_wf (st\<lparr>mr_bindings := bs\<rparr>)"
    and "review_mode_ok m \<Longrightarrow> review_wf (st\<lparr>mr_mode := m\<rparr>)"
    and "pred_option (\<lambda>path. path \<in> set (map vt_path (mr_tabs st))) act \<Longrightarrow> review_wf (st\<lparr>mr_active := act\<rparr>)"
    and "tabs_ok ts \<Longrightarrow> pred_option (\<lambda>path. path \<in> set (map vt_path ts)) (mr_active st) \<Longrightarrow>
         review_wf (st\<lparr>mr_tabs := ts\<rparr>)"
    and "progress_ok ps \<Longrightarrow> review_wf (st\<lparr>mr_progress := ps\<rparr>)"
    and "positions_ok qs \<Longrightarrow> review_wf (st\<lparr>mr_positions := qs\<rparr>)"
  using assms by (simp_all add: review_wf_def)

lemma review_set_directory_ok: "review_wf st \<Longrightarrow> review_set_directory args st = Inr st' \<Longrightarrow> review_wf st'"
  by (auto simp: review_set_directory_def review_ok_update split: option.splits if_splits json.splits)

lemma review_set_remote_ok: "review_wf st \<Longrightarrow> review_set_remote args st = Inr st' \<Longrightarrow> review_wf st'"
  by (auto simp: review_set_remote_def review_ok_update split: option.splits if_splits json.splits)

lemma review_set_comparison_ok: "review_wf st \<Longrightarrow> review_set_comparison args st = Inr st' \<Longrightarrow> review_wf st'"
  by (auto simp: review_set_comparison_def review_ok_update split: option.splits if_splits json.splits)

lemma review_select_remote_ok: "review_wf st \<Longrightarrow> review_select_remote args st = Inr st' \<Longrightarrow> review_wf st'"
  by (auto simp: review_select_remote_def review_ok_update)

lemma review_close_ok:
  assumes "review_wf st" and "review_close args st = Inr st'" shows "review_wf st'"
proof -
  obtain path where st': "st' = st\<lparr>mr_tabs := filter (\<lambda>t. vt_path t \<noteq> path) (mr_tabs st),
      mr_active := (if mr_active st = Some path
        then (if filter (\<lambda>t. vt_path t \<noteq> path) (mr_tabs st) = [] then None
              else Some (vt_path (last (filter (\<lambda>t. vt_path t \<noteq> path) (mr_tabs st)))))
        else mr_active st)\<rparr>"
    using assms(2) by (auto simp: review_close_def Let_def)
  have act: "pred_option (\<lambda>path. path \<in> set (map vt_path (mr_tabs st))) (mr_active st)"
    using assms(1) by (simp add: review_wf_def)
  have "pred_option (\<lambda>p. p \<in> set (map vt_path (mr_tabs st'))) (mr_active st')"
  proof (cases "mr_active st = Some path")
    case True
    have "vt_path (last ts) \<in> set (map vt_path ts)" if "ts \<noteq> []" for ts
      using that by simp
    from this [of "mr_tabs st'"] show ?thesis
      using True by (simp add: st')
  next
    case False
    then show ?thesis using act by (cases "mr_active st") (auto simp: st')
  qed
  then show ?thesis
    using assms(1) tabs_ok_filter unfolding st' by (simp add: review_wf_def)
qed

lemma review_activate_ok: "review_wf st \<Longrightarrow> review_activate args st = Inr st' \<Longrightarrow> review_wf st'"
  by (auto simp: review_activate_def review_ok_update split: option.splits)

lemma review_set_mode_ok: "review_wf st \<Longrightarrow> review_set_mode args st = Inr st' \<Longrightarrow> review_wf st'"
  by (auto simp: review_set_mode_def review_ok_update split: if_splits)

lemma review_bind_ok: "review_wf st \<Longrightarrow> review_bind args st = Inr st' \<Longrightarrow> review_wf st'"
  using review_okD(2) [of st]
  by (auto simp: review_bind_def split: if_splits intro!: review_ok_update bindings_ok_snoc)

lemma review_unbind_ok: "review_wf st \<Longrightarrow> review_unbind args st = Inr st' \<Longrightarrow> review_wf st'"
  using review_okD(2) [of st]
  by (auto simp: review_unbind_def intro!: review_ok_update bindings_ok_filter)

lemma review_reorder_ok: "review_wf st \<Longrightarrow> review_reorder args st = Inr st' \<Longrightarrow> review_wf st'"
  using tabs_ok_mset [OF mset_sort_by_id_order] by (auto simp: review_reorder_def review_wf_def)

lemma review_set_pinned_ok:
  assumes "review_wf st" and "review_set_pinned args st = Inr st'" shows "review_wf st'"
proof -
  obtain path pinned where st': "st' = st\<lparr>mr_tabs :=
      update_first (\<lambda>t. vt_path t = path) (\<lambda>t. t\<lparr>vt_pinned := pinned\<rparr>) (mr_tabs st)\<rparr>"
    using assms(2) by (auto simp: review_set_pinned_def)
  have "map vt_path (mr_tabs st') = map vt_path (mr_tabs st)"
    unfolding st' by (simp add: map_update_first)
  then have "tabs_ok (mr_tabs st') = tabs_ok (mr_tabs st)"
      "set (map vt_path (mr_tabs st')) = set (map vt_path (mr_tabs st))"
    using tabs_ok_same_paths by (blast, metis)
  then show ?thesis
    using assms(1) by (simp add: review_wf_def st')
qed

lemma review_mark_reviewed_ok:
  assumes "review_wf st" and "review_mark_reviewed args st = Inr st'" shows "review_wf st'"
proof -
  obtain key where key: "mobile_review_string_arg args ''key'' 2048 = Inr key"
    using assms(2) by (auto simp: review_mark_reviewed_def)
  show ?thesis
    using assms string_arg_ok [OF key] review_okD(3) [OF assms(1)]
    by (auto simp: review_mark_reviewed_def key stored_progress_ok_def
        intro!: review_ok_update progress_ok_insert progress_ok_adelete split: option.splits if_splits)
qed

lemma position_revision_ok: "position_revision args = Inr r \<Longrightarrow> pred_option review_revision_ok r"
  by (auto simp: position_revision_def split: option.splits if_splits json.splits)

lemma review_set_position_ok:
  assumes "review_wf st" and "review_set_position args st = Inr st'" shows "review_wf st'"
proof -
  obtain path line v r where "valid_mobile_review_path path" "json_uint u32_max v = Some line" "0 < line"
    and "position_revision args = Inr r"
    and st': "st' = st\<lparr>mr_positions := capped_insert MOBILE_REVIEW_POSITION_CAP path
      \<lparr>vp_line = line, vp_revision = r\<rparr> (mr_positions st)\<rparr>"
    using assms(2) by (auto simp: review_set_position_def bind_eq_Some_conv split: if_splits)
  moreover from this have "pred_option review_revision_ok r" and "line \<le> u32_max"
    by (auto dest: position_revision_ok json_uint_le)
  ultimately show ?thesis
    using review_okD(4) [OF assms(1)] unfolding st'
    by (intro review_ok_update [OF assms(1)] positions_ok_insert)
      (auto simp: stored_position_ok_def split: option.splits)
qed

lemma evict_tab_frame [simp]:
  "mr_open_revision (evict_tab st) = mr_open_revision st" "mr_reveal_revision (evict_tab st) = mr_reveal_revision st"
  "mr_directory (evict_tab st) = mr_directory st" "mr_future (evict_tab st) = mr_future st"
  "mr_remote_review (evict_tab st) = mr_remote_review st" "mr_comparison (evict_tab st) = mr_comparison st"
  "mr_bindings (evict_tab st) = mr_bindings st" "mr_progress (evict_tab st) = mr_progress st"
  "mr_positions (evict_tab st) = mr_positions st" "mr_mode (evict_tab st) = mr_mode st"
  "mr_remote_selected (evict_tab st) = mr_remote_selected st"
  by (simp_all add: evict_tab_def Let_def)

lemma with_tab_frame [simp]:
  "mr_open_revision (with_tab path st) = mr_open_revision st" "mr_reveal_revision (with_tab path st) = mr_reveal_revision st"
  "mr_directory (with_tab path st) = mr_directory st" "mr_future (with_tab path st) = mr_future st"
  "mr_remote_review (with_tab path st) = mr_remote_review st" "mr_comparison (with_tab path st) = mr_comparison st"
  "mr_bindings (with_tab path st) = mr_bindings st" "mr_progress (with_tab path st) = mr_progress st"
  "mr_positions (with_tab path st) = mr_positions st" "mr_mode (with_tab path st) = mr_mode st"
  "mr_remote_selected (with_tab path st) = mr_remote_selected st"
  by (simp_all add: with_tab_def Let_def)

lemma with_tab_ok:
  assumes "tabs_ok (mr_tabs st)" and "valid_mobile_review_path path"
  shows "tabs_ok (mr_tabs (with_tab path st)) \<and> path \<in> set (map vt_path (mr_tabs (with_tab path st)))"
proof (cases "path \<in> set (map vt_path (mr_tabs st))")
  case True
  then show ?thesis using assms(1) by (simp add: with_tab_def)
next
  case False
  then show ?thesis
    using evict_tab_spec [OF assms(1)] assms(2) by (auto simp: with_tab_def Let_def tabs_ok_def)
qed

lemma review_open_ok:
  assumes "review_wf st" and "review_open args st = Inr st'" shows "review_wf st'"
proof -
  obtain path where path: "valid_mobile_review_path path"
      "mobile_review_string_arg args ''path'' 4096 = Inr path"
    using assms(2) by (auto simp: review_open_def split: if_splits)
  show ?thesis
    using assms with_tab_ok [OF review_okD(1) [OF assms(1)] path(1)]
    by (auto simp: review_open_def path Let_def review_wf_def usize_add_le_max review_mode_ok_def)
qed

lemmas review_mutations_ok =
  review_set_directory_ok review_set_remote_ok review_select_remote_ok review_open_ok
  review_close_ok review_reorder_ok review_set_pinned_ok review_activate_ok review_set_mode_ok
  review_set_comparison_ok review_bind_ok review_unbind_ok review_mark_reviewed_ok review_set_position_ok

lemma if_eqE: "(if c then a else b) = x \<Longrightarrow> (a = x \<Longrightarrow> R) \<Longrightarrow> (b = x \<Longrightarrow> R) \<Longrightarrow> R"
  by (cases c) auto

lemma mutate_review_ok: "review_wf st \<Longrightarrow> mutate_review mutation args st = Inr st' \<Longrightarrow> review_wf st'"
  unfolding mutate_review_def
  by (elim if_eqE) ((rule review_mutations_ok, assumption, assumption) | simp)+

section \<open>The stored value reads back\<close>

lemma those_map_Some: "(\<And>x. x \<in> set xs \<Longrightarrow> f x = Some (g x)) \<Longrightarrow> those (map f xs) = Some (map g xs)"
  by (induction xs) auto

lemma read_tab_json [simp]: "read_tab (tab_json t) = Some t"
  by (simp add: read_tab_def tab_json_def open_struct_def read_str_def read_default_def)

lemma read_position_json:
  "vp_line p \<le> u32_max \<Longrightarrow> read_position (position_json p) = Some p"
  by (cases "vp_revision p")
    (simp_all add: read_position_def position_json_def some_field_def json_nat_def open_struct_def read_default_def)

lemma read_review_binding_json [simp]: "read_review_binding (review_binding_json b) = Some b"
  by (simp add: read_review_binding_def review_binding_json_def struct_get_def read_str_def)

lemma json_list_written:
  "(\<And>x. x \<in> set xs \<Longrightarrow> f (g x) = Some x) \<Longrightarrow> json_list f (JArr (map g xs)) = Some xs"
  by (simp add: json_list_def those_map_Some [of xs _ "\<lambda>x. x"] comp_def)

lemma json_map_written:
  assumes "sorted_keys m" and "\<And>p. p \<in> set m \<Longrightarrow> f (g (snd p)) = Some (snd p)"
  shows "json_map f (JObj (map (\<lambda>(k, v). (k, g v)) m)) = Some m"
proof -
  have "those (map ((\<lambda>(k, v). map_option (Pair k) (f v)) \<circ> (\<lambda>(k, v). (k, g v))) m) = Some (map (\<lambda>p. p) m)"
    by (rule those_map_Some) (use assms(2) in force)
  then show ?thesis using btree_of_sorted [OF assms(1)] by simp
qed

lemma map_of_future:
  "future_ok m \<Longrightarrow> k \<in> set review_fields \<Longrightarrow> map_of m k = None"
  by (auto simp: future_ok_def list_all_iff map_of_eq_None_iff)

lemma map_of_some_field: "map_of (some_field k f v) k' = (if k = k' then map_option f v else None)"
  by (simp add: some_field_def split: option.splits)

lemma filter_future: "future_ok m \<Longrightarrow> filter (\<lambda>kv. fst kv \<notin> set review_fields) m = m"
  by (auto simp: future_ok_def list_all_iff intro: filter_True)

lemma filter_some_field:
  "filter P (some_field k f v) = (case v of None \<Rightarrow> [] | Some x \<Rightarrow> if P (k, f x) then [(k, f x)] else [])"
  by (simp add: some_field_def split: option.splits)

lemma json_option_nullable [simp]: "json_option jstr (nullable d) = Some d"
  by (simp add: nullable_def split: option.splits)

lemma json_option_binding [simp]: "json_option read_review_binding (review_binding_json b) = Some (Some b)"
  using read_review_binding_json [of b] unfolding review_binding_json_def by simp

definition review_entries :: "mobile_review \<Rightarrow> (string \<times> json) list" where
  "review_entries st = (case review_json st of JObj kvs \<Rightarrow> kvs | _ \<Rightarrow> [])"

lemma review_json_entries: "review_json st = JObj (review_entries st)"
  by (simp add: review_entries_def review_json_def)

lemma review_entries_get:
  assumes "review_wf st"
  shows "map_of (review_entries st) ''open_revision'' = Some (json_nat (mr_open_revision st))"
    and "map_of (review_entries st) ''reveal_revision'' = Some (json_nat (mr_reveal_revision st))"
    and "map_of (review_entries st) ''directory'' = map_option nullable (mr_directory st)"
    and "map_of (review_entries st) ''remote_review'' = map_option review_binding_json (mr_remote_review st)"
    and "map_of (review_entries st) ''remote_selected'' = Some (JBool (mr_remote_selected st))"
    and "map_of (review_entries st) ''comparison'' = map_option JStr (mr_comparison st)"
    and "map_of (review_entries st) ''bindings'' =
      (if mr_bindings st = [] then None else Some (JArr (map JStr (mr_bindings st))))"
    and "map_of (review_entries st) ''mode'' = Some (JStr (mr_mode st))"
    and "map_of (review_entries st) ''tabs'' = Some (JArr (map tab_json (mr_tabs st)))"
    and "map_of (review_entries st) ''active'' = map_option JStr (mr_active st)"
    and "map_of (review_entries st) ''progress'' = Some (JObj (map (\<lambda>(k, v). (k, JStr v)) (mr_progress st)))"
    and "map_of (review_entries st) ''positions'' =
      Some (JObj (map (\<lambda>(k, v). (k, position_json v)) (mr_positions st)))"
proof -
  have future: "map_of (mr_future st) k = None" if "k \<in> set review_fields" for k
    using assms that map_of_future by (simp add: review_wf_def)
  note get = review_entries_def review_json_def map_of_append map_add_def map_of_some_field
    future review_fields_def
  show "map_of (review_entries st) ''open_revision'' = Some (json_nat (mr_open_revision st))"
    by (simp add: get)
  show "map_of (review_entries st) ''reveal_revision'' = Some (json_nat (mr_reveal_revision st))"
    by (simp add: get)
  show "map_of (review_entries st) ''directory'' = map_option nullable (mr_directory st)"
    by (simp add: get split: option.splits)
  show "map_of (review_entries st) ''remote_review'' = map_option review_binding_json (mr_remote_review st)"
    by (simp add: get split: option.splits)
  show "map_of (review_entries st) ''remote_selected'' = Some (JBool (mr_remote_selected st))"
    by (simp add: get)
  show "map_of (review_entries st) ''comparison'' = map_option JStr (mr_comparison st)"
    by (simp add: get split: option.splits)
  show "map_of (review_entries st) ''bindings'' =
      (if mr_bindings st = [] then None else Some (JArr (map JStr (mr_bindings st))))"
    by (simp add: get split: option.splits)
  show "map_of (review_entries st) ''mode'' = Some (JStr (mr_mode st))"
    by (simp add: get)
  show "map_of (review_entries st) ''tabs'' = Some (JArr (map tab_json (mr_tabs st)))"
    by (simp add: get)
  show "map_of (review_entries st) ''active'' = map_option JStr (mr_active st)"
    by (simp add: get split: option.splits)
  show "map_of (review_entries st) ''progress'' = Some (JObj (map (\<lambda>(k, v). (k, JStr v)) (mr_progress st)))"
    by (simp add: get)
  show "map_of (review_entries st) ''positions'' =
      Some (JObj (map (\<lambda>(k, v). (k, position_json v)) (mr_positions st)))"
    by (simp add: get)
qed

lemma filter_some_field_known:
  "k \<in> set review_fields \<Longrightarrow> filter (\<lambda>kv. fst kv \<notin> set review_fields) (some_field k f v) = []"
  by (simp add: filter_some_field split: option.splits)

lemma review_entries_future:
  assumes "review_wf st"
  shows "filter (\<lambda>kv. fst kv \<notin> set review_fields) (review_entries st) = mr_future st"
proof -
  have fields: "\<forall>k \<in> {''open_revision'', ''reveal_revision'', ''directory'', ''remote_review'', ''remote_selected'',
      ''comparison'', ''bindings'', ''mode'', ''tabs'', ''active'', ''progress'', ''positions''}. k \<in> set review_fields"
    by (simp add: review_fields_def)
  have "future_ok (mr_future st)" using assms by (simp add: review_wf_def)
  then show ?thesis
    using fields by (simp add: review_entries_def review_json_def filter_some_field_known filter_future)
qed

lemma json_uint_nat: "n \<le> m \<Longrightarrow> json_uint m (json_nat n) = Some n"
  by (simp add: json_nat_def)

lemma read_review_json:
  assumes "review_wf st" shows "read_review (review_json st) = Some st"
proof -
  have ok: "mr_open_revision st \<le> usize_max" "mr_reveal_revision st \<le> usize_max"
      "sorted_keys (mr_progress st)" "sorted_keys (mr_positions st)" "sorted_keys (mr_future st)"
      "\<forall>p \<in> set (mr_positions st). vp_line (snd p) \<le> u32_max"
    using assms by (auto simp: review_wf_def progress_ok_def positions_ok_def future_ok_def list_all_iff)
  have lists: "json_list jstr (JArr (map JStr xs)) = Some xs" "json_list read_tab (JArr (map tab_json ts)) = Some ts"
    for xs ts
    by (rule json_list_written, simp)+
  have progress: "json_map jstr (JObj (map (\<lambda>(k, v). (k, JStr v)) (mr_progress st))) = Some (mr_progress st)"
    by (rule json_map_written) (use ok in simp_all)
  have positions: "json_map read_position (JObj (map (\<lambda>(k, v). (k, position_json v)) (mr_positions st))) = Some (mr_positions st)"
    by (rule json_map_written) (use ok read_position_json in simp_all)
  define g where "g = map_of (review_entries st)"
  note get = g_def read_default_def review_entries_get [OF assms]
  have "read_default (json_uint usize_max) 0 g ''open_revision'' = Some (mr_open_revision st)"
    and "read_default (json_uint usize_max) 0 g ''reveal_revision'' = Some (mr_reveal_revision st)"
    and "read_default jbool False g ''remote_selected'' = Some (mr_remote_selected st)"
    and "read_default (json_list jstr) [] g ''bindings'' = Some (mr_bindings st)"
    and "read_default jstr default_mobile_review_mode g ''mode'' = Some (mr_mode st)"
    and "read_default (json_list read_tab) [] g ''tabs'' = Some (mr_tabs st)"
    and "read_default (json_map jstr) [] g ''progress'' = Some (mr_progress st)"
    and "read_default (json_map read_position) [] g ''positions'' = Some (mr_positions st)"
    using ok by (simp_all add: get json_uint_nat lists progress positions del: json_map.simps)
  moreover have "read_default (\<lambda>v. map_option Some (json_option jstr v)) None g ''directory'' = Some (mr_directory st)"
    by (cases "mr_directory st") (simp_all add: get)
  moreover have "read_default (json_option read_review_binding) None g ''remote_review'' = Some (mr_remote_review st)"
    by (cases "mr_remote_review st") (simp_all add: get)
  moreover have "read_default (json_option jstr) None g ''comparison'' = Some (mr_comparison st)"
    by (cases "mr_comparison st") (simp_all add: get)
  moreover have "read_default (json_option jstr) None g ''active'' = Some (mr_active st)"
    by (cases "mr_active st") (simp_all add: get)
  ultimately show ?thesis
    using ok(5) unfolding review_json_entries
    by (simp add: Let_def review_entries_future [OF assms] btree_of_sorted flip: g_def)
qed

lemma repair_review_id:
  assumes "review_wf st" shows "repair_review st = st"
proof -
  have keep: "filter P xs = xs" if "list_all P xs" for P and xs :: "'b list"
    using that by (auto simp: list_all_iff intro: filter_True)
  have "stored_tabs (mr_tabs st) = mr_tabs st"
    using assms by (simp add: stored_tabs_id review_wf_def)
  moreover have "take MOBILE_REVIEW_BINDING_CAP (dedup (filter valid_mobile_review_binding (mr_bindings st))) = mr_bindings st"
    using assms by (simp add: review_wf_def bindings_ok_def keep dedup_id)
  moreover have "evict_front MOBILE_REVIEW_PROGRESS_CAP (filter stored_progress_ok (mr_progress st)) = mr_progress st"
    using assms by (simp add: review_wf_def progress_ok_def keep evict_front_id)
  moreover have "list_all stored_position_ok (mr_positions st)"
    using assms by (auto simp: review_wf_def positions_ok_def list_all_iff)
  then have "evict_front MOBILE_REVIEW_POSITION_CAP (filter stored_position_ok (mr_positions st)) = mr_positions st"
    using assms by (simp add: review_wf_def positions_ok_def keep evict_front_id)
  moreover have "(case mr_directory st of
      Some (Some d) \<Rightarrow> if review_directory_valid d then Some (Some d) else None | d \<Rightarrow> d) = mr_directory st"
    using assms by (auto simp: review_wf_def split: option.splits)
  moreover have "(case mr_comparison st of
      Some c \<Rightarrow> if valid_mobile_review_comparison c then Some c else None | None \<Rightarrow> None) = mr_comparison st"
    using assms by (auto simp: review_wf_def split: option.splits)
  moreover have "(case mr_active st of
      Some path \<Rightarrow> if path \<in> set (map vt_path (stored_tabs (mr_tabs st))) then Some path else None
    | None \<Rightarrow> None) = mr_active st"
    using assms by (auto simp: review_wf_def stored_tabs_id split: option.splits)
  moreover have "\<not> (case mr_remote_review st of None \<Rightarrow> False | Some b \<Rightarrow> \<not> review_binding_valid b)"
    using assms by (auto simp: review_wf_def split: option.splits)
  moreover have "review_mode_ok (mr_mode st)"
    using assms by (simp add: review_wf_def)
  ultimately show ?thesis
    unfolding repair_review_def Let_def by (simp del: set_map)
qed

lemma stored_review_reads_back:
  assumes "review_wf st" shows "from_stored (review_json st) = st"
  using assms by (simp add: from_stored_def read_review_json repair_review_id)

end
