(* ===== verification/Sync_Arbiter.thy ===== *)
theory Sync_Arbiter
  imports Mobile_Review Persist_Queue Folder_Projection Folder_Safety
begin

text \<open>
  The arbiter of the synchronized states (\<^verbatim>\<open>src/src/core/hub_sync.rs\<close>): titles, the session order, the
  folder tree, each owner's workspace order and each session's review state are changed by named mutations
  that carry the client's id. A mutation is validated, applied once, confirmed under a new version of its state
  and broadcast with the state's new value. Also the compare-and-set edits of review directories that agents make
  through the same gate (\<^verbatim>\<open>src/src/core/review_defaults.rs\<close>, \<^verbatim>\<open>src/src/review_directory.rs\<close>) and the
  announcements of drafts and preferences (\<^verbatim>\<open>src/src/core.rs\<close>).

  The gate's lock makes one call one step. \<open>None\<close> is the panic of \<open>merge_session_order\<close>. Writes are the values
  handed to the store queue, which may refuse them; patches are the values broadcast.
\<close>

section \<open>State\<close>

record sync_session =
  ys_title :: string
  ys_owner :: "string option"
  ys_system :: bool
  ys_closing :: bool
  ys_review :: mobile_review

record sync_arbiter =
  ya_version :: u64
  ya_seen :: "string list"

record sync_patch =
  yp_state :: string
  yp_version :: u64
  yp_value :: json
  yp_confirmed :: "string list"
  yp_resync :: bool

type_synonym sync_write = "(unit, unit, unit, session_folder) store_write"

record sync_hub =
  yh_sessions :: "(string \<times> sync_session) list"
  yh_order :: "string list"
  yh_folders :: session_folders
  yh_workspace_orders :: "(string \<times> string list) list"
  yh_drafts :: "(string \<times> (string \<times> json) list) list"
  yh_preferences :: "(string \<times> (string \<times> json) list) list"
  yh_receipts :: "(string \<times> string) list"
  yh_store :: bool
  yh_writes :: "sync_write list"
  yh_sync :: "(string \<times> sync_arbiter) list"
  yh_patches :: "sync_patch list"

definition hand_to_store :: "sync_write \<Rightarrow> sync_hub \<Rightarrow> sync_hub" where
  "hand_to_store w h = (if yh_store h then h\<lparr>yh_writes := yh_writes h @ [w]\<rparr> else h)"

section \<open>Values, versions and patches\<close>

definition REVIEW_PREFIX :: string where "REVIEW_PREFIX = ''mobile-review:''"

definition assoc_json :: "(string \<times> json) list \<Rightarrow> json" where
  "assoc_json m = JObj (btree_of m)"

definition sync_value :: "sync_hub \<Rightarrow> string \<Rightarrow> json" where
  "sync_value h state =
     (if state = ''title'' then assoc_json (map (\<lambda>(i, s). (i, JStr (ys_title s))) (yh_sessions h))
      else if state = ''order'' then JArr (map JStr (yh_order h))
      else if state = ''folders'' then folders_value (yh_folders h)
      else if state = ''workspace-order''
      then assoc_json (map (\<lambda>(owner, order). (owner, JArr (map JStr order))) (yh_workspace_orders h))
      else if state = ''drafts'' then assoc_json (map (\<lambda>(owner, m). (owner, JObj m)) (yh_drafts h))
      else if state = ''preferences'' then assoc_json (map (\<lambda>(owner, m). (owner, JObj m)) (yh_preferences h))
      else if starts_with state REVIEW_PREFIX
      then (case map_of (yh_sessions h) (drop (length REVIEW_PREFIX) state) of
              None \<Rightarrow> JNull
            | Some s \<Rightarrow> review_json (ys_review s))
      else JNull)"

definition arbiter_of :: "sync_hub \<Rightarrow> string \<Rightarrow> sync_arbiter" where
  "arbiter_of h state =
     (case map_of (yh_sync h) state of None \<Rightarrow> \<lparr>ya_version = 0, ya_seen = []\<rparr> | Some e \<Rightarrow> e)"

definition sync_already_seen :: "sync_hub \<Rightarrow> string \<Rightarrow> string \<Rightarrow> bool" where
  "sync_already_seen h state mid =
     (case map_of (yh_sync h) state of None \<Rightarrow> False | Some e \<Rightarrow> mid \<in> set (ya_seen e))"

definition sync_first_seen :: "string \<Rightarrow> string \<Rightarrow> sync_hub \<Rightarrow> bool \<times> sync_hub" where
  "sync_first_seen state mid h =
     (let e = arbiter_of h state;
          new = mid \<notin> set (ya_seen e);
          e = (if new then e\<lparr>ya_seen := ya_seen e @ [mid]\<rparr> else e)
      in (new, h\<lparr>yh_sync := AList.update state e (yh_sync h)\<rparr>))"

definition arbiter_emit :: "string \<Rightarrow> json \<Rightarrow> string list \<Rightarrow> sync_hub \<Rightarrow> sync_hub" where
  "arbiter_emit state v confirmed h =
     (let e = arbiter_of h state;
          version = ya_version e + 1
      in h\<lparr>yh_sync := AList.update state (e\<lparr>ya_version := version\<rparr>) (yh_sync h),
           yh_patches := yh_patches h @
             [\<lparr>yp_state = state, yp_version = version, yp_value = v, yp_confirmed = confirmed, yp_resync = False\<rparr>]\<rparr>)"

definition sync_broadcast :: "string \<Rightarrow> string list \<Rightarrow> sync_hub \<Rightarrow> sync_hub" where
  "sync_broadcast state confirmed h = arbiter_emit state (sync_value h state) confirmed h"

section \<open>The typed mutations\<close>

definition sync_rename :: "string \<Rightarrow> string \<Rightarrow> sync_hub \<Rightarrow> sync_hub" where
  "sync_rename sid title h =
     hand_to_store (UpdateTitle sid title)
       (case map_of (yh_sessions h) sid of
          None \<Rightarrow> h
        | Some s \<Rightarrow> h\<lparr>yh_sessions := AList.update sid (s\<lparr>ys_title := title\<rparr>) (yh_sessions h)\<rparr>)"

definition sync_reorder :: "string list \<Rightarrow> sync_hub \<Rightarrow> sync_hub option" where
  "sync_reorder order h =
     map_option (\<lambda>merged. hand_to_store (UpdateSessionOrder merged) (h\<lparr>yh_order := merged\<rparr>))
       (merge_session_order (yh_order h) order)"

definition folder_writes_of :: "folder_effects \<Rightarrow> session_folders \<Rightarrow> sync_hub \<Rightarrow> sync_hub" where
  "folder_writes_of eff t h =
     (let h = (case replaced_owner eff of
                 None \<Rightarrow> h
               | Some owner \<Rightarrow> hand_to_store (ReplaceSessionFolders owner (folders_of (folders t) owner)) h)
      in if eff_placements eff = [] then h
         else hand_to_store (UpdateSessionPlacement (eff_placements eff)) h)"

definition sync_folders :: "folder_actor \<Rightarrow> string \<Rightarrow> json \<Rightarrow> sync_hub \<Rightarrow> ((string + unit) \<times> sync_hub) option" where
  "sync_folders actor mutation args h =
     map_option (\<lambda>r. case r of
         Inl e \<Rightarrow> (Inl e, h)
       | Inr (eff, t) \<Rightarrow> (Inr (), folder_writes_of eff t (h\<lparr>yh_folders := t\<rparr>)))
       (apply_mutation (yh_folders h) actor mutation args)"

definition sync_review :: "string \<Rightarrow> string \<Rightarrow> json \<Rightarrow> sync_hub \<Rightarrow> (string + unit) \<times> sync_hub" where
  "sync_review sid mutation args h =
     (case map_of (yh_sessions h) sid of
        None \<Rightarrow> (Inl ''unknown mobile review session'', h)
      | Some s \<Rightarrow>
          (case mutate_review mutation args (ys_review s) of
             Inl e \<Rightarrow> (Inl e, h)
           | Inr st \<Rightarrow>
               (Inr (), hand_to_store (UpdateMobileReviewState sid (review_json st))
                  (h\<lparr>yh_sessions := AList.update sid (s\<lparr>ys_review := st\<rparr>) (yh_sessions h)\<rparr>))))"

definition WORKSPACE_ORDER_CAP :: nat where "WORKSPACE_ORDER_CAP = 12000"

definition sync_workspace_order :: "string \<Rightarrow> string list \<Rightarrow> sync_hub \<Rightarrow> sync_hub" where
  "sync_workspace_order owner order h =
     (let current = (case map_of (yh_workspace_orders h) owner of None \<Rightarrow> [] | Some c \<Rightarrow> c);
          retained = filter (\<lambda>key. key \<notin> set order) current;
          current = take WORKSPACE_ORDER_CAP (order @ retained)
      in hand_to_store (UpdateWorkspaceOrder owner current)
           (h\<lparr>yh_workspace_orders := AList.update owner current (yh_workspace_orders h)\<rparr>))"

section \<open>Admission\<close>

datatype sync_op =
    OpWorkspaceOrder string "string list"
  | OpRename string string
  | OpReorder "string list"
  | OpFolders string json
  | OpMobileReview string string json

text \<open>What the first half of the call decides: confirm again, recording the id or not, or apply.\<close>

datatype sync_plan = Confirm bool | Apply sync_op

definition workspace_id :: "string \<Rightarrow> string option" where
  "workspace_id key =
     (if starts_with key ''draft:'' then Some (drop 6 key)
      else if starts_with key ''session:'' then Some (drop 8 key) else None)"

definition workspace_key_ok :: "string \<Rightarrow> bool" where
  "workspace_key_ok key =
     (case workspace_id key of
        None \<Rightarrow> False
      | Some i \<Rightarrow> i \<noteq> [] \<and> length i \<le> 160 \<and> list_all (\<lambda>b. is_ascii_alnum b \<or> b \<in> set ''-_'') i)"

fun workspace_keys :: "json list \<Rightarrow> string list \<Rightarrow> string + string list" where
  "workspace_keys [] order = Inr order"
| "workspace_keys (v # vs) order =
     rbind (ok_or (jstr v) ''invalid workspace item'') (\<lambda>key.
       if \<not> workspace_key_ok key then Inl ''invalid workspace item''
       else workspace_keys vs (if key \<in> set order then order else order @ [key]))"

definition plan_workspace_order :: "folder_actor \<Rightarrow> json \<Rightarrow> string + sync_op" where
  "plan_workspace_order actor args =
     rbind (ok_or (Option.bind (jget ''order'' args) jarr) ''workspace order is missing'') (\<lambda>values.
       if WORKSPACE_ORDER_CAP < length values then Inl ''workspace order is too large''
       else rbind (workspace_keys values []) (\<lambda>order.
         Inr (OpWorkspaceOrder (case user_id actor of None \<Rightarrow> [] | Some u \<Rightarrow> u) order)))"

definition plan_rename :: "json \<Rightarrow> string + sync_op" where
  "plan_rename args =
     rbind (ok_or (jget_str ''session_id'' args) ''rename: missing session_id'') (\<lambda>sid.
       (let title = str_trim (case jget_str ''title'' args of None \<Rightarrow> [] | Some t \<Rightarrow> t)
        in if title = [] then Inl ''title cannot be empty'' else Inr (OpRename sid title)))"

definition plan_reorder :: "json \<Rightarrow> string + sync_op" where
  "plan_reorder args =
     rbind (ok_or (Option.bind (jget ''order'' args) jarr) ''reorder: missing order'') (\<lambda>values.
       Inr (OpReorder (List.map_filter jstr values)))"

definition plan_folders ::
    "sync_hub \<Rightarrow> folder_actor \<Rightarrow> string \<Rightarrow> string \<Rightarrow> string \<Rightarrow> json \<Rightarrow> (string + sync_plan) option" where
  "plan_folders h actor state mid name args =
     (if sync_already_seen h state mid then Some (Inr (Confirm False))
      else if name = ''create'' \<and> is_replayed_create (yh_folders h) actor args then Some (Inr (Confirm True))
      else map_option (\<lambda>r. case r of Inl e \<Rightarrow> Inl e | Inr _ \<Rightarrow> Inr (Apply (OpFolders name args)))
             (apply_mutation (yh_folders h) actor name args))"

definition review_mutation_names :: "string list" where
  "review_mutation_names =
     [''open'', ''setDirectory'', ''setRemoteReview'', ''selectRemoteReview'', ''close'', ''reorder'',
      ''setPinned'', ''activate'', ''setMode'', ''setComparison'', ''bind'', ''unbind'', ''markReviewed'',
      ''setPosition'']"

definition plan_review :: "sync_hub \<Rightarrow> string \<Rightarrow> string \<Rightarrow> json \<Rightarrow> string + sync_op" where
  "plan_review h state name args =
     (let sid = drop (length REVIEW_PREFIX) state
      in if sid = [] \<or> map_of (yh_sessions h) sid = None then Inl ''unknown mobile review session''
         else if name \<notin> set review_mutation_names then Inl (''unknown mobile review mutation '' @ name)
         else Inr (OpMobileReview sid name args))"

definition sync_plan_of ::
    "sync_hub \<Rightarrow> folder_actor \<Rightarrow> string \<Rightarrow> string \<Rightarrow> string \<Rightarrow> json \<Rightarrow> (string + sync_plan) option" where
  "sync_plan_of h actor state mid name args =
     (let applied = (\<lambda>r. Some (rbind r (\<lambda>op. Inr (Apply op))))
      in if state = ''workspace-order'' \<and> name = ''reorder'' then applied (plan_workspace_order actor args)
         else if state = ''title'' \<and> name = ''rename'' then applied (plan_rename args)
         else if state = ''order'' \<and> name = ''reorder'' then applied (plan_reorder args)
         else if state = ''folders'' then plan_folders h actor state mid name args
         else if starts_with state REVIEW_PREFIX then applied (plan_review h state name args)
         else Some (Inl (''unknown sync mutation '' @ state @ ''/'' @ name)))"

definition run_sync_op :: "folder_actor \<Rightarrow> sync_op \<Rightarrow> sync_hub \<Rightarrow> ((string + unit) \<times> sync_hub) option" where
  "run_sync_op actor op h =
     (case op of
        OpWorkspaceOrder owner order \<Rightarrow> Some (Inr (), sync_workspace_order owner order h)
      | OpRename sid title \<Rightarrow> Some (Inr (), sync_rename sid title h)
      | OpReorder order \<Rightarrow> map_option (Pair (Inr ())) (sync_reorder order h)
      | OpFolders mutation args \<Rightarrow> sync_folders actor mutation args h
      | OpMobileReview sid mutation args \<Rightarrow> Some (sync_review sid mutation args h))"

definition sync_apply_as ::
    "folder_actor \<Rightarrow> string \<Rightarrow> string \<Rightarrow> string \<Rightarrow> json \<Rightarrow> sync_hub \<Rightarrow> ((string + unit) \<times> sync_hub) option" where
  "sync_apply_as actor state mid name args h =
     Option.bind (sync_plan_of h actor state mid name args) (\<lambda>plan. case plan of
         Inl e \<Rightarrow> Some (Inl e, h)
       | Inr (Confirm first) \<Rightarrow>
           Some (Inr (), sync_broadcast state [mid] (if first then snd (sync_first_seen state mid h) else h))
       | Inr (Apply op) \<Rightarrow>
           if sync_already_seen h state mid then Some (Inr (), sync_broadcast state [mid] h)
           else Option.bind (run_sync_op actor op h) (\<lambda>(r, h'). case r of
               Inl e \<Rightarrow> Some (Inl e, h')
             | Inr _ \<Rightarrow> Some (Inr (), sync_broadcast state [mid] (snd (sync_first_seen state mid h')))))"

definition sync_apply ::
    "string \<Rightarrow> string \<Rightarrow> string \<Rightarrow> json \<Rightarrow> sync_hub \<Rightarrow> ((string + unit) \<times> sync_hub) option" where
  "sync_apply = sync_apply_as local_actor"

section \<open>Reconnecting clients\<close>

definition always_synced :: "string list" where
  "always_synced = [''title'', ''order'', ''folders'', ''workspace-order'']"

text \<open>The states a reconnecting client is seeded with, each with its version and the ids it confirms.\<close>

fun add_missing :: "sync_hub \<Rightarrow> string list \<Rightarrow> (string \<times> u64 \<times> string list) list \<Rightarrow> (string \<times> u64 \<times> string list) list" where
  "add_missing h [] out = out"
| "add_missing h (state # states) out =
     add_missing h states
       (if state \<in> set (map fst out) then out else out @ [(state, ya_version (arbiter_of h state), [])])"

definition sync_snapshot :: "sync_hub \<Rightarrow> (string \<times> u64 \<times> string list) list" where
  "sync_snapshot h =
     add_missing h (always_synced @ map (\<lambda>(sid, _). REVIEW_PREFIX @ sid) (yh_sessions h))
       (map (\<lambda>(state, e). (state, ya_version e, ya_seen e))
         (filter (\<lambda>(state, _). \<not> starts_with state ''queue:'' \<and> \<not> starts_with state REVIEW_PREFIX) (yh_sync h)))"

definition sync_resync :: "sync_hub \<Rightarrow> sync_patch list" where
  "sync_resync h =
     map (\<lambda>(state, version, confirmed).
           \<lparr>yp_state = state, yp_version = version, yp_value = sync_value h state,
            yp_confirmed = confirmed, yp_resync = True\<rparr>)
       (sync_snapshot h)"

end
