(* ===== verification/Sync_Edits.thy ===== *)
theory Sync_Edits
  imports Sync_Arbiter
begin

text \<open>
  The edits that reach the synchronized states beside the clients' own mutations: the compare-and-set edit of
  a review directory that an agent makes under an operation id (\<^verbatim>\<open>src/src/core/review_defaults.rs\<close>,
  \<^verbatim>\<open>src/src/review_directory.rs\<close>), and the announcements of preferences and draft documents to their
  owner's devices (\<^verbatim>\<open>src/src/core.rs\<close>). The fingerprint of an edit is the parameter \<open>digest\<close> (SHA-256 of the
  serialized change).
\<close>

section \<open>Changes\<close>

record review_change =
  ch_scope :: string
  ch_folder_id :: "string option"
  ch_expected :: json
  ch_change :: json

definition is_scope :: "string \<Rightarrow> bool" where
  "is_scope scope \<longleftrightarrow> scope = ''code'' \<or> scope = ''zed''"

definition override_value :: "string option option \<Rightarrow> json" where
  "override_value v = JObj (some_field ''directory'' nullable v)"

definition parse_change :: "json \<Rightarrow> string + string option option" where
  "parse_change v =
     (case v of
        JObj kvs \<Rightarrow>
          if length kvs \<noteq> 1 then Inl ''invalid_argument''
          else if jget ''inherit'' v = Some (JBool True) then Inr None
          else (case jget ''directory'' v of
              Some JNull \<Rightarrow> Inr (Some None)
            | Some (JStr d) \<Rightarrow>
                if review_directory_valid d then Inr (Some (Some d)) else Inl ''invalid_argument''
            | _ \<Rightarrow> Inl ''invalid_argument'')
      | _ \<Rightarrow> Inl ''invalid_argument'')"

definition change_json :: "review_change \<Rightarrow> json" where
  "change_json c = JObj
     [(''scope'', JStr (ch_scope c)), (''folder_id'', nullable (ch_folder_id c)),
      (''expected'', ch_expected c), (''change'', ch_change c)]"

section \<open>Receipts\<close>

definition RECEIPT_CAP :: nat where "RECEIPT_CAP = 4096"

text \<open>A receipt that is read becomes the youngest; at the cap the oldest makes room.\<close>

definition receipts_get :: "string \<Rightarrow> (string \<times> string) list \<Rightarrow> string option \<times> (string \<times> string) list" where
  "receipts_get operation entries =
     (case position (\<lambda>p. fst p = operation) entries of
        None \<Rightarrow> (None, entries)
      | Some i \<Rightarrow> (Some (snd (entries ! i)), remove_nth i entries @ [entries ! i]))"

definition receipts_insert :: "string \<Rightarrow> string \<Rightarrow> (string \<times> string) list \<Rightarrow> (string \<times> string) list" where
  "receipts_insert operation fingerprint entries =
     (if RECEIPT_CAP \<le> length entries then drop 1 entries else entries) @ [(operation, fingerprint)]"

definition review_default_receipt :: "string \<Rightarrow> sync_hub \<Rightarrow> bool \<times> sync_hub" where
  "review_default_receipt operation h =
     (let (r, entries) = receipts_get operation (yh_receipts h)
      in (r \<noteq> None, h\<lparr>yh_receipts := entries\<rparr>))"

section \<open>The edit\<close>

definition edit_id :: "string \<Rightarrow> string" where
  "edit_id operation = ''zed:'' @ operation"

definition edit_permitted :: "folder_actor \<Rightarrow> sync_session option \<Rightarrow> bool" where
  "edit_permitted actor s =
     (case s of None \<Rightarrow> False | Some s \<Rightarrow> \<not> ys_system s \<and> \<not> ys_closing s \<and> ys_owner s = user_id actor)"

text \<open>The state an edit addresses, the mutation and its arguments, and the override it replaces.\<close>

definition edit_target ::
    "folder_actor \<Rightarrow> string \<Rightarrow> review_change \<Rightarrow> string option option \<Rightarrow> sync_hub
     \<Rightarrow> string + (string \<times> string \<times> json \<times> json)" where
  "edit_target actor sid input directory h =
     (case ch_folder_id input of
        Some fid \<Rightarrow>
          rbind (map_err (\<lambda>_. ''not_found'') (resolve_defaults (yh_folders h) actor fid)) (\<lambda>_.
          rbind (ok_or (find (\<lambda>f. f_id f = fid) (folders_of (folders (yh_folders h)) (user_id actor))) ''not_found'') (\<lambda>f.
            Inr (''folders'', ''defaults'',
                 (case directory of
                    Some v \<Rightarrow> JObj [(''id'', JStr fid), (''values'', JObj [(''review_directory'', nullable v)])]
                  | None \<Rightarrow> JObj [(''id'', JStr fid), (''values'', JObj []),
                                  (''inherit'', JArr [JStr ''review_directory''])]),
                 override_value (f_defaults f ReviewDirectory))))
      | None \<Rightarrow>
          (case map_of (yh_sessions h) sid of
             None \<Rightarrow> Inl ''permission_denied''
           | Some s \<Rightarrow>
               if \<not> edit_permitted actor (Some s) then Inl ''permission_denied''
               else Inr (REVIEW_PREFIX @ sid, ''setDirectory'', ch_change input,
                         override_value (mr_directory (ys_review s)))))"

definition edit_fresh ::
    "folder_actor \<Rightarrow> string \<Rightarrow> string \<Rightarrow> review_change \<Rightarrow> string option option \<Rightarrow> string \<Rightarrow> sync_hub
     \<Rightarrow> ((string + unit) \<times> sync_hub) option" where
  "edit_fresh actor sid operation input directory fingerprint h =
     (if list_ex (\<lambda>(_, e). edit_id operation \<in> set (ya_seen e)) (yh_sync h) then Some (Inl ''receipt_expired'', h)
      else (case edit_target actor sid input directory h of
          Inl e \<Rightarrow> Some (Inl e, h)
        | Inr (state, mutation, args, current) \<Rightarrow>
            if current \<noteq> ch_expected input then Some (Inl ''revision_conflict'', h)
            else map_option (\<lambda>(r, h'). case r of
                Inl _ \<Rightarrow> (Inl ''invalid_argument'', h')
              | Inr _ \<Rightarrow> (Inr (), h'\<lparr>yh_receipts := receipts_insert operation fingerprint (yh_receipts h')\<rparr>))
              (sync_apply_as actor state (edit_id operation) mutation args h)))"

definition review_directory_update ::
    "(json \<Rightarrow> string) \<Rightarrow> folder_actor \<Rightarrow> string \<Rightarrow> string \<Rightarrow> review_change \<Rightarrow> sync_hub
     \<Rightarrow> ((string + unit) \<times> sync_hub) option" where
  "review_directory_update digest actor sid operation input h =
     (if \<not> is_scope (ch_scope input) then Some (Inl ''unknown_scope'', h)
      else (case parse_change (ch_change input) of
          Inl e \<Rightarrow> Some (Inl e, h)
        | Inr directory \<Rightarrow>
            if \<not> edit_permitted actor (map_of (yh_sessions h) sid) then Some (Inl ''permission_denied'', h)
            else (let fingerprint = digest (change_json (input\<lparr>ch_scope := ''zed''\<rparr>));
                      (previous, entries) = receipts_get operation (yh_receipts h);
                      h = h\<lparr>yh_receipts := entries\<rparr>
                  in case previous of
                       Some p \<Rightarrow> Some (if p = fingerprint then Inr () else Inl ''operation_conflict'', h)
                     | None \<Rightarrow> edit_fresh actor sid operation input directory fingerprint h)))"

section \<open>Announcements\<close>

fun json_i64 :: "json \<Rightarrow> int option" where
  "json_i64 (JInt n) = (if i64_min \<le> n \<and> n \<le> i64_max then Some n else None)"
| "json_i64 _ = None"

definition announcements_of :: "string \<Rightarrow> (string \<times> (string \<times> json) list) list \<Rightarrow> (string \<times> json) list" where
  "announcements_of owner all = (case map_of all owner of None \<Rightarrow> [] | Some m \<Rightarrow> m)"

definition announce_preferences :: "string \<Rightarrow> string \<Rightarrow> int \<Rightarrow> sync_hub \<Rightarrow> sync_hub" where
  "announce_preferences owner scope revision h =
     (let scopes = announcements_of owner (yh_preferences h);
          stale = (case Option.bind (map_of scopes scope) json_i64 of None \<Rightarrow> False | Some old \<Rightarrow> revision \<le> old)
      in if stale then h\<lparr>yh_preferences := AList.update owner scopes (yh_preferences h)\<rparr>
         else arbiter_emit ''preferences'' (JObj [(owner, JObj [(scope, JInt revision)])]) []
                (h\<lparr>yh_preferences := AList.update owner (btree_insert scope (JInt revision) scopes) (yh_preferences h)\<rparr>))"

definition announce_draft :: "string \<Rightarrow> json \<Rightarrow> sync_hub \<Rightarrow> sync_hub" where
  "announce_draft owner metadata h =
     (case jget_str ''id'' metadata of
        None \<Rightarrow> h
      | Some did \<Rightarrow>
          (let documents = announcements_of owner (yh_drafts h);
               previous = Option.bind (Option.bind (map_of documents did) (jget ''revision'')) json_i64;
               revision = Option.bind (jget ''revision'' metadata) json_i64;
               newer = (case previous of None \<Rightarrow> True
                        | Some p \<Rightarrow> (case revision of None \<Rightarrow> False | Some r \<Rightarrow> p < r))
           in if \<not> newer then h\<lparr>yh_drafts := AList.update owner documents (yh_drafts h)\<rparr>
              else arbiter_emit ''drafts'' (JObj [(owner, JObj [(did, metadata)])]) []
                     (h\<lparr>yh_drafts := AList.update owner (btree_insert did metadata documents) (yh_drafts h)\<rparr>)))"

end
