(* ===== verification/Sync_Access.thy ===== *)
theory Sync_Access
  imports Sync_Edits
begin

text \<open>
  Who may change a synchronized state and what of it a connected client is shown: the roles of
  \<^verbatim>\<open>src/src/admin.rs\<close>, the principal of \<^verbatim>\<open>src/src/product_auth.rs\<close>, the admission of a client's mutation and
  the projection of a patch (\<open>apply_inbound_sync\<close> and \<open>project_outbound\<close> of
  \<^verbatim>\<open>src/components/server/src/server/client_ws.rs\<close>).
\<close>

section \<open>Principals\<close>

datatype admin_role = RoleOwner | RoleOperator | RoleViewer

fun role_rank :: "admin_role \<Rightarrow> nat" where
  "role_rank RoleViewer = 0"
| "role_rank RoleOperator = 1"
| "role_rank RoleOwner = 2"

definition at_least :: "admin_role \<Rightarrow> admin_role \<Rightarrow> bool" where
  "at_least role minimum \<longleftrightarrow> role_rank minimum \<le> role_rank role"

record product_principal =
  pp_user_id :: string
  pp_username :: string
  pp_role :: admin_role

definition sees_every_session :: "product_principal \<Rightarrow> bool" where
  "sees_every_session p \<longleftrightarrow> pp_role p = RoleOwner"

definition can_reorder :: "product_principal \<Rightarrow> bool" where
  "can_reorder p \<longleftrightarrow> at_least (pp_role p) RoleOperator"

definition can_see :: "product_principal \<Rightarrow> string option \<Rightarrow> bool" where
  "can_see p owner \<longleftrightarrow> sees_every_session p \<or> (case owner of None \<Rightarrow> True | Some u \<Rightarrow> u = pp_user_id p)"

definition can_mutate :: "product_principal \<Rightarrow> string option \<Rightarrow> bool" where
  "can_mutate p owner \<longleftrightarrow>
     at_least (pp_role p) RoleOperator
   \<and> (sees_every_session p \<or> (case owner of None \<Rightarrow> True | Some u \<Rightarrow> u = pp_user_id p))"

definition principal_actor :: "bool \<Rightarrow> product_principal \<Rightarrow> folder_actor" where
  "principal_actor product_auth_enabled p =
     \<lparr>user_id = (if product_auth_enabled then Some (pp_user_id p) else None),
      sees_all = sees_every_session p\<rparr>"

section \<open>Admission of a client's mutation\<close>

definition session_owner :: "sync_hub \<Rightarrow> string \<Rightarrow> string option" where
  "session_owner h sid = Option.bind (map_of (yh_sessions h) sid) ys_owner"

definition session_id_from_sync_state :: "string \<Rightarrow> string option" where
  "session_id_from_sync_state state =
     (let sid = (if starts_with state ''queue:'' then Some (drop 6 state)
                 else if starts_with state REVIEW_PREFIX then Some (drop (length REVIEW_PREFIX) state)
                 else None)
      in case sid of Some s \<Rightarrow> if s = [] then None else Some s | None \<Rightarrow> None)"

definition filter_submitted_order :: "sync_hub \<Rightarrow> product_principal \<Rightarrow> json list \<Rightarrow> string list" where
  "filter_submitted_order h p submitted =
     dedup (filter (\<lambda>sid. case map_of (yh_sessions h) sid of
         None \<Rightarrow> False
       | Some s \<Rightarrow> can_see p (ys_owner s)) (List.map_filter jstr submitted))"

definition mutable_ids :: "sync_hub \<Rightarrow> product_principal \<Rightarrow> json list \<Rightarrow> string list" where
  "mutable_ids h p named =
     filter (\<lambda>sid. case map_of (yh_sessions h) sid of
         None \<Rightarrow> False
       | Some s \<Rightarrow> can_mutate p (ys_owner s)) (List.map_filter jstr named)"

type_synonym sync_answer = "((string + unit) \<times> sync_hub) option"

definition inbound_order :: "product_principal \<Rightarrow> string \<Rightarrow> string \<Rightarrow> json \<Rightarrow> sync_hub \<Rightarrow> sync_answer" where
  "inbound_order p mid name args h =
     (if \<not> can_reorder p then Some (Inl ''viewers cannot reorder sessions'', h)
      else (case Option.bind (jget ''order'' args) jarr of
          None \<Rightarrow> Some (Inl ''reorder: missing order'', h)
        | Some submitted \<Rightarrow>
            sync_apply ''order'' mid name
              (JObj [(''order'', JArr (map JStr (filter_submitted_order h p submitted)))]) h))"

definition inbound_workspace_order :: "product_principal \<Rightarrow> string \<Rightarrow> string \<Rightarrow> json \<Rightarrow> sync_hub \<Rightarrow> sync_answer" where
  "inbound_workspace_order p mid name args h =
     (if \<not> can_reorder p then Some (Inl ''viewers cannot organize the workspace'', h)
      else sync_apply_as \<lparr>user_id = Some (pp_user_id p), sees_all = False\<rparr> ''workspace-order'' mid name args h)"

definition inbound_folders :: "bool \<Rightarrow> product_principal \<Rightarrow> string \<Rightarrow> string \<Rightarrow> json \<Rightarrow> sync_hub \<Rightarrow> sync_answer" where
  "inbound_folders product_auth_enabled p mid name args h =
     (let actor = principal_actor product_auth_enabled p
      in if \<not> can_reorder p then Some (Inl ''viewers cannot organize sessions'', h)
         else if name = ''place''
         then (case Option.bind (jget ''session_ids'' args) jarr of
             None \<Rightarrow> Some (Inl ''place: missing session_ids'', h)
           | Some named \<Rightarrow>
               sync_apply_as actor ''folders'' mid name
                 (JObj [(''session_ids'', JArr (map JStr (mutable_ids h p named))),
                        (''folder'', (case jget ''folder'' args of None \<Rightarrow> JNull | Some f \<Rightarrow> f))]) h)
         else sync_apply_as actor ''folders'' mid name args h)"

definition inbound_title :: "product_principal \<Rightarrow> string \<Rightarrow> string \<Rightarrow> json \<Rightarrow> sync_hub \<Rightarrow> sync_answer" where
  "inbound_title p mid name args h =
     (case jget_str ''session_id'' args of
        None \<Rightarrow> Some (Inl ''rename: missing session_id'', h)
      | Some sid \<Rightarrow>
          if \<not> can_mutate p (session_owner h sid) then Some (Inl ''not allowed to rename this session'', h)
          else sync_apply ''title'' mid name args h)"

definition apply_inbound_sync ::
    "bool \<Rightarrow> product_principal \<Rightarrow> string \<Rightarrow> string \<Rightarrow> string \<Rightarrow> json \<Rightarrow> sync_hub \<Rightarrow> sync_answer" where
  "apply_inbound_sync product_auth_enabled p state mid name args h =
     (if state = ''order'' then inbound_order p mid name args h
      else if state = ''workspace-order'' then inbound_workspace_order p mid name args h
      else if state = ''folders'' then inbound_folders product_auth_enabled p mid name args h
      else if state = ''title'' then inbound_title p mid name args h
      else (case session_id_from_sync_state state of
          Some sid \<Rightarrow>
            if \<not> can_mutate p (session_owner h sid) then Some (Inl ''not allowed to mutate this session'', h)
            else sync_apply state mid name args h
        | None \<Rightarrow> Some (Inl (''unknown sync mutation '' @ state @ ''/'' @ name), h)))"

section \<open>What a client is shown\<close>

definition session_is_visible :: "sync_hub \<Rightarrow> product_principal \<Rightarrow> string \<Rightarrow> bool" where
  "session_is_visible h p sid \<longleftrightarrow>
     map_of (yh_sessions h) sid \<noteq> None
   \<and> (sees_every_session p \<or> session_owner h sid = None \<or> session_owner h sid = Some (pp_user_id p))"

definition visible_session_ids :: "sync_hub \<Rightarrow> product_principal \<Rightarrow> string list" where
  "visible_session_ids h p = filter (\<lambda>sid. case map_of (yh_sessions h) sid of
       None \<Rightarrow> False
     | Some s \<Rightarrow> can_see p (ys_owner s)) (yh_order h)"

definition project_sync_value :: "string \<Rightarrow> json \<Rightarrow> string list \<Rightarrow> json" where
  "project_sync_value state v visible =
     (if state = ''title''
      then (case v of JObj kvs \<Rightarrow> JObj (filter (\<lambda>kv. fst kv \<in> set visible) kvs) | _ \<Rightarrow> v)
      else if state = ''order''
      then (case v of
              JArr vs \<Rightarrow> JArr (filter (\<lambda>i. case jstr i of None \<Rightarrow> False | Some sid \<Rightarrow> sid \<in> set visible) vs)
            | _ \<Rightarrow> v)
      else v)"

text \<open>The projection of a patch; \<open>None\<close> is not sent.\<close>

definition project_patch ::
    "sync_hub \<Rightarrow> product_principal \<Rightarrow> string list \<Rightarrow> sync_patch \<Rightarrow> sync_patch option" where
  "project_patch h p visible patch =
     (let state = yp_state patch; v = yp_value patch
      in if state = ''title'' \<or> state = ''order''
         then Some (patch\<lparr>yp_value := project_sync_value state v visible\<rparr>)
         else if state = ''workspace-order''
         then Some (patch\<lparr>yp_value := (case jget (pp_user_id p) v of None \<Rightarrow> JArr [] | Some own \<Rightarrow> own)\<rparr>)
         else if state = ''drafts'' \<or> state = ''preferences''
         then map_option (\<lambda>own. patch\<lparr>yp_value := own\<rparr>) (jget (pp_user_id p) v)
         else if state = ''folders''
         then Some (patch\<lparr>yp_value := project_folders_value v visible (can_see p)\<rparr>)
         else (case session_id_from_sync_state state of
             Some sid \<Rightarrow> if session_is_visible h p sid then Some patch else None
           | None \<Rightarrow> Some patch))"

end
