(* ===== verification/Sync_Safety.thy ===== *)
theory Sync_Safety
  imports Sync_Access
begin

text \<open>
  What the arbiter guarantees: a rejected mutation changes nothing, an accepted one is applied once whatever
  happens between its retries, every answer but a refusal is one patch under the next version, the typed states stay well
  formed, an agent's edit takes effect once under its operation id, and nobody changes or is shown what is
  another owner's.
\<close>

section \<open>Frames\<close>

definition seen :: "sync_hub \<Rightarrow> string \<Rightarrow> string set" where
  "seen h state = set (ya_seen (arbiter_of h state))"

definition typed_part :: "sync_hub \<Rightarrow> sync_hub" where
  "typed_part h = h\<lparr>yh_sync := [], yh_patches := []\<rparr>"

lemma sync_already_seen_iff [simp]: "sync_already_seen h state mid \<longleftrightarrow> mid \<in> seen h state"
  by (simp add: sync_already_seen_def seen_def arbiter_of_def split: option.splits)

lemma arbiter_of_update:
  "arbiter_of (h\<lparr>yh_sync := AList.update state e (yh_sync h)\<rparr>) s = (if s = state then e else arbiter_of h s)"
  by (simp add: arbiter_of_def update_conv')

lemma arbiter_of_patches [simp]: "arbiter_of (h\<lparr>yh_patches := ps\<rparr>) = arbiter_of h"
  by (simp add: arbiter_of_def fun_eq_iff)

lemma arbiter_of_emit:
  "arbiter_of (arbiter_emit state v c h) s =
     (if s = state then (arbiter_of h s)\<lparr>ya_version := ya_version (arbiter_of h s) + 1\<rparr> else arbiter_of h s)"
  by (simp add: arbiter_emit_def Let_def arbiter_of_def update_conv')

lemma seen_emit [simp]: "seen (arbiter_emit state v c h) = seen h"
  by (simp add: seen_def arbiter_of_emit fun_eq_iff)

lemma receipts_emit [simp]: "yh_receipts (arbiter_emit state v c h) = yh_receipts h"
  by (simp add: arbiter_emit_def Let_def)

lemma seen_broadcast [simp]: "seen (sync_broadcast state c h) = seen h"
  by (simp add: sync_broadcast_def)

lemma seen_first: "seen (snd (sync_first_seen state mid h)) s = (if s = state then insert mid (seen h s) else seen h s)"
  by (auto simp: sync_first_seen_def Let_def seen_def arbiter_of_update)

lemma version_first [simp]: "ya_version (arbiter_of (snd (sync_first_seen state mid h)) s) = ya_version (arbiter_of h s)"
  by (auto simp: sync_first_seen_def Let_def arbiter_of_update)

lemma typed_emit [simp]: "typed_part (arbiter_emit state v c h) = typed_part h"
  by (simp add: arbiter_emit_def typed_part_def Let_def)

lemma typed_broadcast [simp]: "typed_part (sync_broadcast state c h) = typed_part h"
  by (simp add: sync_broadcast_def)

lemma typed_first [simp]: "typed_part (snd (sync_first_seen state mid h)) = typed_part h"
  by (simp add: sync_first_seen_def typed_part_def Let_def)

lemma patches_first [simp]: "yh_patches (snd (sync_first_seen state mid h)) = yh_patches h"
  by (simp add: sync_first_seen_def Let_def)

lemma typed_fields:
  assumes "typed_part h = typed_part h'"
  shows "yh_sessions h = yh_sessions h'" "yh_order h = yh_order h'" "yh_folders h = yh_folders h'"
    "yh_workspace_orders h = yh_workspace_orders h'" "yh_drafts h = yh_drafts h'"
    "yh_preferences h = yh_preferences h'" "yh_receipts h = yh_receipts h'" "yh_store h = yh_store h'"
    "yh_writes h = yh_writes h'"
  using assms by (cases h; cases h'; simp add: typed_part_def)+

lemma sync_value_typed: "typed_part h = typed_part h' \<Longrightarrow> sync_value h = sync_value h'"
  by (rule ext) (simp add: sync_value_def typed_fields [of h h'])

lemma hand_to_store_frame [simp]:
  "yh_sessions (hand_to_store w h) = yh_sessions h" "yh_order (hand_to_store w h) = yh_order h"
  "yh_folders (hand_to_store w h) = yh_folders h" "yh_workspace_orders (hand_to_store w h) = yh_workspace_orders h"
  "yh_drafts (hand_to_store w h) = yh_drafts h" "yh_preferences (hand_to_store w h) = yh_preferences h"
  "yh_receipts (hand_to_store w h) = yh_receipts h" "yh_sync (hand_to_store w h) = yh_sync h"
  "yh_patches (hand_to_store w h) = yh_patches h"
  by (simp_all add: hand_to_store_def)

lemma folder_writes_frame [simp]:
  "yh_sessions (folder_writes_of eff t h) = yh_sessions h" "yh_order (folder_writes_of eff t h) = yh_order h"
  "yh_folders (folder_writes_of eff t h) = yh_folders h"
  "yh_workspace_orders (folder_writes_of eff t h) = yh_workspace_orders h"
  "yh_drafts (folder_writes_of eff t h) = yh_drafts h" "yh_preferences (folder_writes_of eff t h) = yh_preferences h"
  "yh_receipts (folder_writes_of eff t h) = yh_receipts h" "yh_sync (folder_writes_of eff t h) = yh_sync h"
  "yh_patches (folder_writes_of eff t h) = yh_patches h"
  by (simp_all add: folder_writes_of_def Let_def split: option.splits)

lemma sync_folders_frames:
  "sync_folders actor mutation args h = Some (r, h') \<Longrightarrow>
   yh_sync h' = yh_sync h \<and> yh_patches h' = yh_patches h \<and> yh_receipts h' = yh_receipts h
   \<and> yh_drafts h' = yh_drafts h \<and> yh_preferences h' = yh_preferences h"
  by (auto simp: sync_folders_def map_option_case split: option.splits sum.splits prod.splits)

lemma run_sync_op_frames:
  "run_sync_op actor op h = Some (r, h') \<Longrightarrow>
   yh_sync h' = yh_sync h \<and> yh_patches h' = yh_patches h \<and> yh_receipts h' = yh_receipts h
   \<and> yh_drafts h' = yh_drafts h \<and> yh_preferences h' = yh_preferences h"
  by (cases op)
    (auto simp: run_sync_op_def sync_workspace_order_def sync_rename_def sync_reorder_def
      sync_review_def Let_def split: option.splits sum.splits dest: sync_folders_frames)

lemma run_sync_op_frame:
  assumes "run_sync_op actor op h = Some (r, h')"
  shows "yh_sync h' = yh_sync h" "yh_patches h' = yh_patches h" "yh_receipts h' = yh_receipts h"
    "yh_drafts h' = yh_drafts h" "yh_preferences h' = yh_preferences h"
  using run_sync_op_frames [OF assms] by simp_all

lemma sync_folders_refused: "sync_folders actor mutation args h = Some (Inl e, h') \<Longrightarrow> h' = h"
  by (auto simp: sync_folders_def map_option_case split: option.splits sum.splits prod.splits)

lemma sync_review_refused: "sync_review sid mutation args h = (Inl e, h') \<Longrightarrow> h' = h"
  by (auto simp: sync_review_def split: option.splits sum.splits)

lemma run_sync_op_refused: "run_sync_op actor op h = Some (Inl e, h') \<Longrightarrow> h' = h"
  by (cases op) (auto simp: run_sync_op_def dest: sync_folders_refused sync_review_refused)

lemma arbiter_of_cong: "yh_sync h' = yh_sync h \<Longrightarrow> arbiter_of h' = arbiter_of h"
  by (simp add: arbiter_of_def fun_eq_iff)

lemma run_sync_op_arbiter: "run_sync_op actor op h = Some (r, h') \<Longrightarrow> arbiter_of h' = arbiter_of h"
  by (rule arbiter_of_cong) (rule run_sync_op_frame)

lemma run_sync_op_seen: "run_sync_op actor op h = Some (r, h') \<Longrightarrow> seen h' = seen h"
  using run_sync_op_arbiter by (auto simp: seen_def fun_eq_iff)

section \<open>The three outcomes of a mutation\<close>

lemma plan_folders_confirm:
  "plan_folders h actor state mid name args = Some (Inr (Confirm first)) \<Longrightarrow> first \<or> mid \<in> seen h state"
  by (auto simp: plan_folders_def map_option_case split: if_splits option.splits sum.splits prod.splits)

lemma plan_folders_confirm_first:
  "plan_folders h actor state mid name args = Some (Inr (Confirm True)) \<Longrightarrow> mid \<notin> seen h state"
  by (auto simp: plan_folders_def map_option_case split: if_splits option.splits sum.splits prod.splits)

lemma plan_confirm:
  assumes "sync_plan_of h actor state mid name args = Some (Inr (Confirm first))"
  shows "first \<longleftrightarrow> mid \<notin> seen h state"
proof -
  have "plan_folders h actor state mid name args = Some (Inr (Confirm first))"
    using assms by (auto simp: sync_plan_of_def Let_def split: if_splits)
  then show ?thesis
    using plan_folders_confirm [of h actor state mid name args first]
      plan_folders_confirm_first [of h actor state mid name args] by (cases first) auto
qed

lemma plan_confirm_state: "sync_plan_of h actor state mid name args = Some (Inr (Confirm first)) \<Longrightarrow> state = ''folders''"
  by (auto simp: sync_plan_of_def Let_def split: if_splits)

lemma sync_apply_as_cases:
  assumes "sync_apply_as actor state mid name args h = Some (r, h')"
  obtains (refused) e where "r = Inl e" "h' = h"
  | (retried) "r = Inr ()" "mid \<in> seen h state" "h' = sync_broadcast state [mid] h"
  | (recovered) "r = Inr ()" "state = ''folders''" "mid \<notin> seen h state" "h' = sync_broadcast state [mid] (snd (sync_first_seen state mid h))"
  | (applied) op h1 where "r = Inr ()" "mid \<notin> seen h state"
      "sync_plan_of h actor state mid name args = Some (Inr (Apply op))"
      "run_sync_op actor op h = Some (Inr (), h1)"
      "h' = sync_broadcast state [mid] (snd (sync_first_seen state mid h1))"
proof -
  obtain plan where plan: "sync_plan_of h actor state mid name args = Some plan"
    using assms by (cases "sync_plan_of h actor state mid name args") (auto simp: sync_apply_as_def)
  note eq = assms [unfolded sync_apply_as_def plan, simplified]
  show thesis
  proof (cases plan)
    case (Inl e)
    then show thesis using eq by (intro refused) auto
  next
    case (Inr d)
    show thesis
    proof (cases d)
      case (Confirm first)
      then show thesis
        using eq Inr plan_confirm [of h actor state mid name args first] plan_confirm_state [of h actor state mid name args first]
            plan retried recovered by (cases first) auto
    next
      case (Apply op)
      show thesis
      proof (cases "mid \<in> seen h state")
        case True
        then show thesis using eq Inr Apply by (intro retried) auto
      next
        case False
        then obtain r1 h1 where run: "run_sync_op actor op h = Some (r1, h1)"
          using eq Inr Apply by (cases "run_sync_op actor op h") auto
        show thesis
        proof (cases r1)
          case (Inl e)
          then show thesis
            using eq Inr Apply False run run_sync_op_refused by (intro refused) auto
        next
          case (Inr u)
          then show thesis
            using eq \<open>plan = Inr d\<close> Apply False run plan by (intro applied) auto
        qed
      qed
    qed
  qed
qed

lemma apply_refused: "sync_apply_as actor state mid name args h = Some (Inl e, h') \<Longrightarrow> h' = h"
  by (erule sync_apply_as_cases) auto

lemma apply_records:
  assumes "sync_apply_as actor state mid name args h = Some (Inr (), h')" shows "mid \<in> seen h' state"
  using assms by (rule sync_apply_as_cases) (auto simp: seen_first)

lemma apply_seen_mono:
  assumes "sync_apply_as actor state mid name args h = Some (r, h')" shows "seen h s \<subseteq> seen h' s"
  using assms
proof (cases rule: sync_apply_as_cases)
  case (applied op h1)
  then show ?thesis using run_sync_op_seen [OF applied(4)] by (auto simp: seen_first)
qed (auto simp: seen_first)

lemma apply_seen_only:
  assumes "sync_apply_as actor state mid name args h = Some (r, h')" and "x \<in> seen h' s"
  shows "x \<in> seen h s \<or> (x = mid \<and> s = state)"
  using assms(1)
proof (cases rule: sync_apply_as_cases)
  case (applied op h1)
  then show ?thesis
    using run_sync_op_seen [OF applied(4)] assms(2) by (auto simp: seen_first split: if_splits)
qed (use assms(2) in \<open>auto simp: seen_first split: if_splits\<close>)

lemma apply_retry:
  assumes "sync_apply_as actor state mid name args h = Some (r, h')" and "mid \<in> seen h state"
  shows "h' = h \<and> (\<exists>e. r = Inl e) \<or> h' = sync_broadcast state [mid] h \<and> r = Inr ()"
  using assms(1) by (rule sync_apply_as_cases) (use assms(2) in auto)

text \<open>An accepted mutation is one patch: the next version, the new value, the id confirmed.\<close>

lemma broadcast_patch:
  "yh_patches (sync_broadcast state c h) = yh_patches h @
     [\<lparr>yp_state = state, yp_version = ya_version (arbiter_of h state) + 1,
       yp_value = sync_value (sync_broadcast state c h) state, yp_confirmed = c, yp_resync = False\<rparr>]"
  using sync_value_typed [OF typed_broadcast [of state c h]] by (simp add: sync_broadcast_def arbiter_emit_def Let_def)

lemma apply_patch:
  assumes "sync_apply_as actor state mid name args h = Some (Inr (), h')"
  shows "yh_patches h' = yh_patches h @
     [\<lparr>yp_state = state, yp_version = ya_version (arbiter_of h state) + 1, yp_value = sync_value h' state,
       yp_confirmed = [mid], yp_resync = False\<rparr>]"
    and "ya_version (arbiter_of h' s) = ya_version (arbiter_of h s) + (if s = state then 1 else 0)"
proof -
  have emit: "ya_version (arbiter_of (sync_broadcast st c g) s) = ya_version (arbiter_of g s) + (if s = st then 1 else 0)"
    for st c g by (simp add: sync_broadcast_def arbiter_of_emit)
  show "yh_patches h' = yh_patches h @
     [\<lparr>yp_state = state, yp_version = ya_version (arbiter_of h state) + 1, yp_value = sync_value h' state,
       yp_confirmed = [mid], yp_resync = False\<rparr>]"
    using assms
  proof (cases rule: sync_apply_as_cases)
    case (applied op h1)
    then show ?thesis
      using run_sync_op_arbiter [OF applied(4)] run_sync_op_frame(2) [OF applied(4)] by (simp add: broadcast_patch)
  qed (simp_all add: broadcast_patch)
  show "ya_version (arbiter_of h' s) = ya_version (arbiter_of h s) + (if s = state then 1 else 0)"
    using assms
  proof (cases rule: sync_apply_as_cases)
    case (applied op h1)
    then show ?thesis using run_sync_op_arbiter [OF applied(4)] by (simp add: emit)
  qed (simp_all add: emit)
qed

section \<open>Histories\<close>

text \<open>
  What may happen between two calls: another mutation, an agent's edit, an announcement, or a change of the
  rest of the Hub (sessions come and go, queues publish their own patches), which forgets no id and leaves the receipts alone.
\<close>

inductive sync_step :: "(json \<Rightarrow> string) \<Rightarrow> sync_hub \<Rightarrow> sync_hub \<Rightarrow> bool" for digest where
  mutation: "sync_apply_as actor state mid name args h = Some (r, h') \<Longrightarrow> sync_step digest h h'"
| edit: "review_directory_update digest actor sid operation input h = Some (r, h') \<Longrightarrow> sync_step digest h h'"
| receipt: "review_default_receipt operation h = (found, h') \<Longrightarrow> sync_step digest h h'"
| preferences: "sync_step digest h (announce_preferences owner scope revision h)"
| draft: "sync_step digest h (announce_draft owner metadata h)"
| rest: "(\<And>s. seen h s \<subseteq> seen h' s) \<Longrightarrow> yh_receipts h' = yh_receipts h \<Longrightarrow> sync_step digest h h'"

lemma seen_update [simp]:
  "seen (h\<lparr>yh_receipts := rs\<rparr>) = seen h" "seen (h\<lparr>yh_preferences := ps\<rparr>) = seen h" "seen (h\<lparr>yh_drafts := ds\<rparr>) = seen h"
  by (simp_all add: seen_def arbiter_of_def fun_eq_iff)

lemma announce_frame:
  "seen (announce_preferences owner scope revision h) = seen h"
  "yh_receipts (announce_preferences owner scope revision h) = yh_receipts h"
  "seen (announce_draft owner metadata h) = seen h"
  "yh_receipts (announce_draft owner metadata h) = yh_receipts h"
  by (simp_all add: announce_preferences_def announce_draft_def Let_def split: option.splits)

lemma apply_receipts:
  assumes "sync_apply_as actor state mid name args h = Some (r, h')" shows "yh_receipts h' = yh_receipts h"
proof -
  have "yh_receipts (sync_broadcast state c g) = yh_receipts g" "yh_receipts (snd (sync_first_seen state mid g)) = yh_receipts g"
    for c g by (simp_all add: sync_broadcast_def arbiter_emit_def sync_first_seen_def Let_def)
  then show ?thesis
    using assms by (elim sync_apply_as_cases) (auto dest: run_sync_op_frame(3))
qed

section \<open>Receipts\<close>

lemma receipts_get_None:
  "receipts_get operation entries = (None, es) \<Longrightarrow> es = entries \<and> operation \<notin> fst ` set entries"
  by (auto simp: receipts_get_def position_None_iff split: option.splits)

lemma receipts_get_Some:
  assumes "receipts_get operation entries = (Some p, es)"
  shows "set es = set entries \<and> (operation, p) \<in> set entries"
proof -
  obtain i where i: "position (\<lambda>p. fst p = operation) entries = Some i"
      and p: "p = snd (entries ! i)" "es = remove_nth i entries @ [entries ! i]"
    using assms by (auto simp: receipts_get_def split: option.splits)
  then have "i < length entries" "fst (entries ! i) = operation" by (auto dest: position_SomeD)
  then show ?thesis
    using mset_remove_nth [of i entries] p
    by (metis (no_types, lifting) list.set(1) list.simps(15) nth_mem prod.collapse set_append set_mset_add_mset_insert
        set_mset_mset Un_insert_right sup_bot_right)
qed

lemma set_receipts_insert: "set (receipts_insert operation fp entries) \<subseteq> insert (operation, fp) (set entries)"
  by (cases entries) (auto simp: receipts_insert_def)

lemma edit_id_inj [simp]: "edit_id a = edit_id b \<longleftrightarrow> a = b"
  by (simp add: edit_id_def)

lemma seen_somewhere: "x \<in> seen h s \<Longrightarrow> list_ex (\<lambda>(_, e). x \<in> set (ya_seen e)) (yh_sync h)"
  by (auto simp: seen_def arbiter_of_def list_ex_iff dest: map_of_SomeD split: option.splits)

definition edit_fingerprint :: "(json \<Rightarrow> string) \<Rightarrow> review_change \<Rightarrow> string" where
  "edit_fingerprint digest input = digest (change_json (input\<lparr>ch_scope := ''zed''\<rparr>))"

lemma edit_fresh_cases:
  assumes "edit_fresh actor sid operation input directory fp h = Some (r, h')"
  obtains (refused) e where "r = Inl e" "h' = h"
  | (applied) state mutation args h1 where "r = Inr ()" "\<And>s. edit_id operation \<notin> seen h s"
      "edit_target actor sid input directory h = Inr (state, mutation, args, ch_expected input)"
      "sync_apply_as actor state (edit_id operation) mutation args h = Some (Inr (), h1)"
      "h' = h1\<lparr>yh_receipts := receipts_insert operation fp (yh_receipts h)\<rparr>"
proof (cases "list_ex (\<lambda>(_, e). edit_id operation \<in> set (ya_seen e)) (yh_sync h)")
  case True
  then show thesis using assms by (intro refused) (auto simp: edit_fresh_def)
next
  case False
  then have unseen: "edit_id operation \<notin> seen h s" for s using seen_somewhere by blast
  show thesis
  proof (cases "edit_target actor sid input directory h")
    case (Inl e)
    then show thesis using assms False by (intro refused) (auto simp: edit_fresh_def)
  next
    case (Inr t)
    obtain state mutation args current where t: "t = (state, mutation, args, current)" by (cases t)
    show thesis
    proof (cases "current = ch_expected input")
      case neq: False
      then show thesis using assms False Inr t by (intro refused) (auto simp: edit_fresh_def)
    next
      case True
      then obtain r1 h1 where run: "sync_apply_as actor state (edit_id operation) mutation args h = Some (r1, h1)"
        using assms False Inr t by (auto simp: edit_fresh_def)
      show thesis
      proof (cases r1)
        case (Inl e)
        then show thesis
          using assms False \<open>edit_target _ _ _ _ _ = _\<close> t True run apply_refused [of actor state _ mutation args h e h1]
          by (intro refused) (auto simp: edit_fresh_def)
      next
        case Inr': (Inr u)
        then show thesis
          using assms False Inr t True run unseen apply_receipts [OF run]
          by (intro applied) (auto simp: edit_fresh_def)
      qed
    qed
  qed
qed

lemma edit_cases:
  assumes "review_directory_update digest actor sid operation input h = Some (r, h')"
  obtains (refused) e where "r = Inl e" "h' = h"
  | (known) p es where "receipts_get operation (yh_receipts h) = (Some p, es)" "h' = h\<lparr>yh_receipts := es\<rparr>"
      "r = (if p = edit_fingerprint digest input then Inr () else Inl ''operation_conflict'')"
  | (applied) directory state mutation args h1 where "r = Inr ()" "operation \<notin> fst ` set (yh_receipts h)"
      "\<And>s. edit_id operation \<notin> seen h s" "parse_change (ch_change input) = Inr directory"
      "edit_permitted actor (map_of (yh_sessions h) sid)"
      "edit_target actor sid input directory h = Inr (state, mutation, args, ch_expected input)"
      "sync_apply_as actor state (edit_id operation) mutation args h = Some (Inr (), h1)"
      "h' = h1\<lparr>yh_receipts := receipts_insert operation (edit_fingerprint digest input) (yh_receipts h)\<rparr>"
proof -
  note eq = assms [unfolded review_directory_update_def, folded edit_fingerprint_def]
  show thesis
  proof (cases "is_scope (ch_scope input) \<and> edit_permitted actor (map_of (yh_sessions h) sid)")
    case False
    then have "\<exists>e. r = Inl e \<and> h' = h" using eq by (auto split: if_splits sum.splits)
    then show thesis using refused by blast
  next
    case ok: True
    show thesis
    proof (cases "parse_change (ch_change input)")
      case (Inl e)
      then show thesis using eq ok by (intro refused) auto
    next
      case (Inr directory)
      obtain previous es where get: "receipts_get operation (yh_receipts h) = (previous, es)" by fastforce
      show thesis
      proof (cases previous)
        case (Some p)
        then show thesis using eq ok Inr get by (intro known) (auto simp: Let_def)
      next
        case None
        then have "es = yh_receipts h" "operation \<notin> fst ` set (yh_receipts h)"
          using get receipts_get_None by auto
        moreover from this have "edit_fresh actor sid operation input directory (edit_fingerprint digest input) h = Some (r, h')"
          using eq ok Inr get None by (simp add: Let_def)
        ultimately show thesis
          using ok Inr by (elim edit_fresh_cases) (auto intro: refused applied)
      qed
    qed
  qed
qed

section \<open>Once, over any history\<close>

lemma edit_seen_mono:
  assumes "review_directory_update digest actor sid operation input h = Some (r, h')" shows "seen h s \<subseteq> seen h' s"
  using assms by (rule edit_cases) (use apply_seen_mono in \<open>auto\<close>)

lemma step_seen_mono: "sync_step digest h h' \<Longrightarrow> seen h s \<subseteq> seen h' s"
proof (induction rule: sync_step.induct)
  case (receipt operation h found h')
  then show ?case by (auto simp: review_default_receipt_def split: prod.splits)
qed (auto simp: announce_frame dest: apply_seen_mono edit_seen_mono)

lemma run_seen_mono: "(sync_step digest)\<^sup>*\<^sup>* h h' \<Longrightarrow> seen h s \<subseteq> seen h' s"
  by (induction rule: rtranclp_induct) (auto dest: step_seen_mono)

text \<open>Every receipt belongs to a recorded id, and an operation has one fingerprint.\<close>

definition receipts_ok :: "sync_hub \<Rightarrow> bool" where
  "receipts_ok h \<longleftrightarrow>
     (\<forall>(operation, f) \<in> set (yh_receipts h). \<exists>s. edit_id operation \<in> seen h s)
   \<and> (\<forall>operation f g. (operation, f) \<in> set (yh_receipts h) \<longrightarrow> (operation, g) \<in> set (yh_receipts h) \<longrightarrow> f = g)"

text \<open>The trace an accepted edit leaves.\<close>

definition edit_done :: "string \<Rightarrow> string \<Rightarrow> sync_hub \<Rightarrow> bool" where
  "edit_done operation fp h \<longleftrightarrow>
     (\<exists>s. edit_id operation \<in> seen h s) \<and> (\<forall>f. (operation, f) \<in> set (yh_receipts h) \<longrightarrow> f = fp)"

lemma step_receipts:
  assumes "sync_step digest h h'"
  shows "set (yh_receipts h') \<subseteq> set (yh_receipts h) \<or>
    (\<exists>operation f s. set (yh_receipts h') \<subseteq> insert (operation, f) (set (yh_receipts h))
       \<and> operation \<notin> fst ` set (yh_receipts h) \<and> edit_id operation \<in> seen h' s \<and> (\<forall>s. edit_id operation \<notin> seen h s))"
  using assms
proof (cases rule: sync_step.cases)
  case (edit actor sid operation input r)
  show ?thesis
    using edit
  proof (cases rule: edit_cases)
    case (known p es)
    then show ?thesis using receipts_get_Some [OF known(1)] by simp
  next
    case (applied directory state mutation args h1)
    then show ?thesis
      using set_receipts_insert apply_records [OF applied(7)]
      by (intro disjI2 exI [of _ operation] exI [of _ "edit_fingerprint digest input"] exI [of _ state]) auto
  qed simp
next
  case (receipt operation found)
  then show ?thesis
    by (cases "receipts_get operation (yh_receipts h)"; cases "fst (receipts_get operation (yh_receipts h))")
      (auto simp: review_default_receipt_def dest: receipts_get_None receipts_get_Some)
qed (auto simp: announce_frame apply_receipts)

lemma receipts_okI:
  assumes "\<And>operation f. (operation, f) \<in> set (yh_receipts h) \<Longrightarrow> \<exists>s. edit_id operation \<in> seen h s"
    and "\<And>operation f g. (operation, f) \<in> set (yh_receipts h) \<Longrightarrow> (operation, g) \<in> set (yh_receipts h) \<Longrightarrow> f = g"
  shows "receipts_ok h"
  using assms unfolding receipts_ok_def by blast

lemma receipts_okD:
  assumes "receipts_ok h" and "(operation, f) \<in> set (yh_receipts h)"
  shows "\<exists>s. edit_id operation \<in> seen h s" and "(operation, g) \<in> set (yh_receipts h) \<Longrightarrow> f = g"
  using assms unfolding receipts_ok_def by blast+

lemma step_receipts_ok:
  assumes step: "sync_step digest h h'" and ok: "receipts_ok h" shows "receipts_ok h'"
  using step_receipts [OF step]
proof (elim disjE exE conjE)
  assume sub: "set (yh_receipts h') \<subseteq> set (yh_receipts h)"
  show ?thesis
    by (rule receipts_okI) (use sub receipts_okD [OF ok] step_seen_mono [OF step] in blast)+
next
  fix op f s
  assume sub: "set (yh_receipts h') \<subseteq> insert (op, f) (set (yh_receipts h))"
    and fresh: "op \<notin> fst ` set (yh_receipts h)" and seen: "edit_id op \<in> seen h' s"
  have new: "g = f" if "(op, g) \<in> set (yh_receipts h')" for g
    using that sub fresh by force
  have old: "(q, g) \<in> set (yh_receipts h)" if "(q, g) \<in> set (yh_receipts h')" "q \<noteq> op" for q g
    using that sub by auto
  show ?thesis
  proof (rule receipts_okI)
    fix q g assume q: "(q, g) \<in> set (yh_receipts h')"
    show "\<exists>s. edit_id q \<in> seen h' s"
      using seen old [OF q] receipts_okD(1) [OF ok] step_seen_mono [OF step] by (cases "q = op") blast+
    show "g = g'" if "(q, g') \<in> set (yh_receipts h')" for g'
      using that q new old receipts_okD(2) [OF ok] by (cases "q = op") blast+
  qed
qed

lemma step_edit_done: "sync_step digest h h' \<Longrightarrow> edit_done operation fp h \<Longrightarrow> edit_done operation fp h'"
  using step_receipts [of digest h h'] step_seen_mono [of digest h h'] unfolding edit_done_def by blast

lemma run_edit_done: "(sync_step digest)\<^sup>*\<^sup>* h h' \<Longrightarrow> edit_done operation fp h \<Longrightarrow> edit_done operation fp h'"
  by (induction rule: rtranclp_induct) (auto dest: step_edit_done)

lemma accepted_edit_done:
  assumes "receipts_ok h" and "review_directory_update digest actor sid operation input h = Some (Inr (), h')"
  shows "edit_done operation (edit_fingerprint digest input) h'"
  using assms(2)
proof (cases rule: edit_cases)
  case (known p es)
  then have p: "p = edit_fingerprint digest input" by (auto split: if_splits)
  show ?thesis
    using receipts_get_Some [OF known(1)] receipts_okD [OF assms(1)] known(2) p by (simp add: edit_done_def) blast
next
  case (applied directory state mutation args h1)
  have "set (yh_receipts h') \<subseteq> insert (operation, edit_fingerprint digest input) (set (yh_receipts h))"
    using set_receipts_insert applied(8) by simp
  moreover have "edit_id operation \<in> seen h' state"
    using apply_records [OF applied(7)] applied(8) by simp
  ultimately show ?thesis
    using applied(2) unfolding edit_done_def by force
qed simp

lemma repeated_edit:
  assumes "edit_done operation fp h"
    and "review_directory_update digest actor sid operation input h = Some (r, h')"
  shows "h'\<lparr>yh_receipts := []\<rparr> = h\<lparr>yh_receipts := []\<rparr> \<and> (r = Inr () \<longrightarrow> edit_fingerprint digest input = fp)"
  using assms(2)
proof (cases rule: edit_cases)
  case (known p es)
  then show ?thesis
    using receipts_get_Some [OF known(1)] assms(1) by (auto simp: edit_done_def split: if_splits)
next
  case (applied directory state mutation args h1)
  then show ?thesis using assms(1) by (auto simp: edit_done_def)
qed simp

section \<open>The typed states stay well formed\<close>

definition workspace_order_ok :: "string list \<Rightarrow> bool" where
  "workspace_order_ok order \<longleftrightarrow>
     length order \<le> WORKSPACE_ORDER_CAP \<and> distinct order \<and> list_all workspace_key_ok order"

definition sync_wf :: "sync_hub \<Rightarrow> bool" where
  "sync_wf h \<longleftrightarrow>
     distinct (map fst (yh_sessions h)) \<and> list_all (\<lambda>p. review_wf (ys_review (snd p))) (yh_sessions h)
   \<and> distinct (yh_order h)
   \<and> tree_ok (folders (yh_folders h))
   \<and> distinct (map fst (yh_workspace_orders h))
   \<and> list_all (\<lambda>p. workspace_order_ok (snd p)) (yh_workspace_orders h)"

lemma sync_wf_typed: "typed_part h = typed_part h' \<Longrightarrow> sync_wf h = sync_wf h'"
  by (simp add: sync_wf_def typed_fields [of h h'])

lemma sync_wf_store [simp]: "sync_wf (hand_to_store w h) = sync_wf h"
  by (simp add: sync_wf_def)

lemma sync_wf_folder_writes [simp]: "sync_wf (folder_writes_of eff t h) = sync_wf h"
  by (simp add: sync_wf_def)

lemma distinct_keys_update: "distinct (map fst (AList.update k v m)) \<longleftrightarrow> distinct (map fst m)"
  by (induction m) (auto simp: update_keys)

lemma in_update: "p \<in> set (AList.update k v m) \<Longrightarrow> p = (k, v) \<or> p \<in> set m"
  by (induction m) (auto split: if_splits)

lemma list_all_update: "list_all P m \<Longrightarrow> P (k, v) \<Longrightarrow> list_all P (AList.update k v m)"
  using in_update [of _ k v m] by (auto simp: list_all_iff)

lemma workspace_keys_ok:
  "workspace_keys vs order = Inr out \<Longrightarrow> distinct order \<Longrightarrow> list_all workspace_key_ok order \<Longrightarrow>
   distinct out \<and> list_all workspace_key_ok out"
  by (induction vs order rule: workspace_keys.induct) (auto split: if_splits)

lemma workspace_order_ok_merge:
  assumes "distinct order" "list_all workspace_key_ok order" and "distinct current" "list_all workspace_key_ok current"
  shows "workspace_order_ok (take WORKSPACE_ORDER_CAP (order @ filter (\<lambda>key. key \<notin> set order) current))"
  using assms
  by (auto simp: workspace_order_ok_def list_all_iff intro!: distinct_take dest!: in_set_takeD)

lemma sync_workspace_order_wf:
  assumes "sync_wf h" and "distinct order" "list_all workspace_key_ok order"
  shows "sync_wf (sync_workspace_order owner order h)"
proof -
  define current where "current = (case map_of (yh_workspace_orders h) owner of None \<Rightarrow> [] | Some c \<Rightarrow> c)"
  have "workspace_order_ok current"
    using assms(1) map_of_SomeD [of "yh_workspace_orders h" owner]
    by (fastforce simp: sync_wf_def current_def list_all_iff workspace_order_ok_def split: option.splits)
  then have "workspace_order_ok (take WORKSPACE_ORDER_CAP (order @ filter (\<lambda>key. key \<notin> set order) current))"
    using assms(2,3) workspace_order_ok_merge by (simp add: workspace_order_ok_def)
  then show ?thesis
    using assms(1)
    by (simp add: sync_workspace_order_def Let_def sync_wf_def distinct_keys_update list_all_update flip: current_def)
qed

lemma sync_rename_wf: "sync_wf h \<Longrightarrow> sync_wf (sync_rename sid title h)"
proof -
  assume wf: "sync_wf h"
  have "review_wf (ys_review s)" if "map_of (yh_sessions h) sid = Some s" for s
    using wf map_of_SomeD [OF that] by (auto simp: sync_wf_def list_all_iff)
  then show ?thesis
    using wf by (auto simp: sync_rename_def sync_wf_def distinct_keys_update list_all_update split: option.splits)
qed

lemma sync_review_wf:
  assumes wf: "sync_wf h" and run: "sync_review sid mutation args h = (r, h')" shows "sync_wf h'"
proof (cases "h' = h")
  case False
  then obtain s st where s: "map_of (yh_sessions h) sid = Some s"
      and st: "mutate_review mutation args (ys_review s) = Inr st"
      and h': "h' = hand_to_store (UpdateMobileReviewState sid (review_json st))
        (h\<lparr>yh_sessions := AList.update sid (s\<lparr>ys_review := st\<rparr>) (yh_sessions h)\<rparr>)"
    using run by (auto simp: sync_review_def split: option.splits sum.splits)
  have "review_wf (ys_review s)"
    using wf map_of_SomeD [OF s] by (auto simp: sync_wf_def list_all_iff)
  then have "review_wf st" using st mutate_review_ok by blast
  then have "list_all (\<lambda>p. review_wf (ys_review (snd p))) (AList.update sid (s\<lparr>ys_review := st\<rparr>) (yh_sessions h))"
    using wf by (intro list_all_update) (simp_all add: sync_wf_def)
  then show ?thesis
    using wf by (simp add: h' sync_wf_def distinct_keys_update)
qed (use wf in simp)

lemma merge_total:
  assumes "distinct existing"
  obtains merged where "merge_session_order existing submitted = Some merged" "distinct merged"
    "\<And>i. i < length existing \<Longrightarrow> existing ! i \<notin> set submitted \<Longrightarrow> i < length merged \<and> merged ! i = existing ! i"
    "set merged = set existing \<union> set submitted"
proof -
  obtain ys where ys: "merge_session_order existing submitted = Some (ys @ filter (\<lambda>x. x \<notin> set existing) (dedup submitted))"
      "length ys = length existing" "mset ys = mset existing"
      "\<And>i. i < length existing \<Longrightarrow> existing ! i \<notin> set submitted \<Longrightarrow> ys ! i = existing ! i"
    using merge_session_order_spec [OF assms, of submitted] by metis
  have "set ys = set existing" "distinct ys"
    using ys(3) assms by (metis mset_eq_setD, metis mset_eq_imp_distinct_iff)
  then show thesis
    using ys by (intro that [of "ys @ filter (\<lambda>x. x \<notin> set existing) (dedup submitted)"]) (auto simp: nth_append)
qed

lemma sync_reorder_wf:
  assumes "sync_wf h" obtains h' where "sync_reorder order h = Some h'" "sync_wf h'"
proof -
  obtain merged where "merge_session_order (yh_order h) order = Some merged" "distinct merged"
    using merge_total [of "yh_order h" order] assms unfolding sync_wf_def by metis
  then show thesis
    using assms by (intro that [of "hand_to_store (UpdateSessionOrder merged) (h\<lparr>yh_order := merged\<rparr>)"])
      (auto simp: sync_reorder_def sync_wf_def)
qed

lemma sync_folders_wf: "sync_wf h \<Longrightarrow> sync_folders actor mutation args h = Some (r, h') \<Longrightarrow> sync_wf h'"
  using apply_mutation_ok [of "yh_folders h" actor mutation args]
  by (auto simp: sync_folders_def map_option_case sync_wf_def split: option.splits sum.splits prod.splits)

lemma apply_mutation_answers: "sync_wf h \<Longrightarrow> apply_mutation (yh_folders h) actor mutation args \<noteq> None"
  by (rule apply_mutation_total) (simp add: sync_wf_def tree_okD)

lemma plan_answers: "sync_wf h \<Longrightarrow> sync_plan_of h actor state mid name args \<noteq> None"
  using apply_mutation_answers by (auto simp: sync_plan_of_def Let_def plan_folders_def)

lemma plan_folders_op:
  "plan_folders h actor state mid name args = Some (Inr (Apply op)) \<Longrightarrow> op = OpFolders name args"
  by (auto simp: plan_folders_def map_option_case split: if_splits option.splits sum.splits prod.splits)

lemma plan_workspace_ok:
  assumes "sync_plan_of h actor state mid name args = Some (Inr (Apply (OpWorkspaceOrder owner order)))"
  shows "distinct order \<and> list_all workspace_key_ok order"
proof -
  have "plan_workspace_order actor args = Inr (OpWorkspaceOrder owner order)"
    using assms plan_folders_op [of h actor state mid name args "OpWorkspaceOrder owner order"]
    by (auto simp: sync_plan_of_def Let_def plan_rename_def plan_reorder_def plan_review_def split: if_splits)
  then show ?thesis
    by (auto simp: plan_workspace_order_def dest!: workspace_keys_ok split: if_splits)
qed

lemma run_sync_op_wf:
  assumes "sync_wf h" and "sync_plan_of h actor state mid name args = Some (Inr (Apply op))"
  shows "run_sync_op actor op h \<noteq> None \<and> (\<forall>r h'. run_sync_op actor op h = Some (r, h') \<longrightarrow> sync_wf h')"
proof (cases op)
  case (OpWorkspaceOrder owner order)
  then show ?thesis
    using assms plan_workspace_ok [of h actor state mid name args owner order] sync_workspace_order_wf
    by (simp add: run_sync_op_def)
next
  case op: (OpReorder order)
  show ?thesis
    by (rule sync_reorder_wf [OF assms(1), of order]) (simp add: run_sync_op_def op)
next
  case (OpFolders m a)
  then show ?thesis
    using apply_mutation_answers [OF assms(1), of actor m a] sync_folders_wf [OF assms(1), of actor m a]
    by (auto simp: run_sync_op_def sync_folders_def)
qed (use assms(1) sync_rename_wf sync_review_wf in \<open>auto simp: run_sync_op_def\<close>)

lemma apply_wf:
  assumes "sync_wf h"
  shows "sync_apply_as actor state mid name args h \<noteq> None"
    and "sync_apply_as actor state mid name args h = Some (r, h') \<Longrightarrow> sync_wf h'"
proof -
  show "sync_apply_as actor state mid name args h \<noteq> None"
    using plan_answers [OF assms, of actor state mid name args] run_sync_op_wf [OF assms, of actor state mid name args]
    by (auto simp: sync_apply_as_def split: sum.splits sync_plan.splits)
  show "sync_wf h'" if "sync_apply_as actor state mid name args h = Some (r, h')"
    using that
  proof (cases rule: sync_apply_as_cases)
    case (applied op h1)
    then have "sync_wf h1" using run_sync_op_wf [OF assms] by blast
    then show ?thesis using applied(5) sync_wf_typed typed_broadcast typed_first by metis
  qed (use assms sync_wf_typed typed_broadcast typed_first in \<open>metis+\<close>)
qed

section \<open>What a client can change\<close>

lemma apply_effect:
  assumes "sync_apply_as actor state mid name args h = Some (r, h')"
  shows "typed_part h' = typed_part h \<or>
    (\<exists>op h1. sync_plan_of h actor state mid name args = Some (Inr (Apply op))
       \<and> run_sync_op actor op h = Some (Inr (), h1) \<and> typed_part h' = typed_part h1)"
  using assms by (rule sync_apply_as_cases) auto

lemma plan_of_title:
  "sync_plan_of h actor ''title'' mid name args = Some (Inr (Apply op)) \<Longrightarrow>
   \<exists>sid title. op = OpRename sid title \<and> jget_str ''session_id'' args = Some sid"
  by (auto simp: sync_plan_of_def Let_def plan_rename_def starts_with_def REVIEW_PREFIX_def split: if_splits)

lemma plan_of_order:
  "sync_plan_of h actor ''order'' mid name args = Some (Inr (Apply op)) \<Longrightarrow>
   \<exists>vs. op = OpReorder (List.map_filter jstr vs) \<and> Option.bind (jget ''order'' args) jarr = Some vs"
  by (auto simp: sync_plan_of_def Let_def plan_reorder_def starts_with_def REVIEW_PREFIX_def split: if_splits)

lemma plan_of_workspace_order:
  "sync_plan_of h actor ''workspace-order'' mid name args = Some (Inr (Apply op)) \<Longrightarrow>
   \<exists>order. op = OpWorkspaceOrder (case user_id actor of None \<Rightarrow> [] | Some u \<Rightarrow> u) order"
  by (auto simp: sync_plan_of_def Let_def plan_workspace_order_def starts_with_def REVIEW_PREFIX_def split: if_splits)

lemma plan_of_folders:
  "sync_plan_of h actor ''folders'' mid name args = Some (Inr (Apply op)) \<Longrightarrow> op = OpFolders name args"
  by (auto simp: sync_plan_of_def Let_def dest: plan_folders_op split: if_splits)

lemma plan_of_session_state:
  assumes "sync_plan_of h actor state mid name args = Some (Inr (Apply op))"
    and "state \<noteq> ''title''" "state \<noteq> ''order''" "state \<noteq> ''workspace-order''" "state \<noteq> ''folders''"
  shows "op = OpMobileReview (drop (length REVIEW_PREFIX) state) name args
    \<and> session_id_from_sync_state state = Some (drop (length REVIEW_PREFIX) state)"
proof -
  have "starts_with state REVIEW_PREFIX" and op: "plan_review h state name args = Inr op"
    using assms by (auto simp: sync_plan_of_def Let_def split: if_splits)
  moreover have "\<not> starts_with state ''queue:''" if "starts_with state REVIEW_PREFIX"
    using that by (cases state) (auto simp: starts_with_def REVIEW_PREFIX_def)
  ultimately show ?thesis
    by (auto simp: plan_review_def Let_def session_id_from_sync_state_def split: if_splits)
qed

text \<open>The fields one operation leaves alone.\<close>

lemma run_rename_fields:
  "yh_order (sync_rename sid title h) = yh_order h" "yh_folders (sync_rename sid title h) = yh_folders h"
  "yh_workspace_orders (sync_rename sid title h) = yh_workspace_orders h"
  "sid' \<noteq> sid \<Longrightarrow> map_of (yh_sessions (sync_rename sid title h)) sid' = map_of (yh_sessions h) sid'"
  by (simp_all add: sync_rename_def update_conv' split: option.splits)

lemma run_review_fields:
  assumes "sync_review sid mutation args h = (r, h')"
  shows "yh_order h' = yh_order h" "yh_folders h' = yh_folders h" "yh_workspace_orders h' = yh_workspace_orders h"
    "sid' \<noteq> sid \<Longrightarrow> map_of (yh_sessions h') sid' = map_of (yh_sessions h) sid'"
  using assms by (auto simp: sync_review_def update_conv' split: option.splits sum.splits)

lemma run_folders_fields:
  assumes "sync_folders actor mutation args h = Some (r, h')"
  shows "yh_order h' = yh_order h" "yh_sessions h' = yh_sessions h" "yh_workspace_orders h' = yh_workspace_orders h"
  using assms by (auto simp: sync_folders_def map_option_case split: option.splits sum.splits prod.splits)

lemma run_reorder_fields:
  assumes "sync_reorder order h = Some h'"
  shows "yh_sessions h' = yh_sessions h" "yh_folders h' = yh_folders h" "yh_workspace_orders h' = yh_workspace_orders h"
    "merge_session_order (yh_order h) order = Some (yh_order h')"
  using assms by (auto simp: sync_reorder_def)

lemma run_workspace_fields:
  "yh_sessions (sync_workspace_order owner order h) = yh_sessions h"
  "yh_order (sync_workspace_order owner order h) = yh_order h"
  "yh_folders (sync_workspace_order owner order h) = yh_folders h"
  "owner' \<noteq> owner \<Longrightarrow> map_of (yh_workspace_orders (sync_workspace_order owner order h)) owner' = map_of (yh_workspace_orders h) owner'"
  by (simp_all add: sync_workspace_order_def Let_def update_conv')

lemma map_filter_jstr [simp]: "List.map_filter jstr (map JStr xs) = xs"
  by (induction xs) (auto simp: List.map_filter_def)

text \<open>The slot of a session the principal may not see, or that the Hub does not know.\<close>

definition hidden :: "sync_hub \<Rightarrow> product_principal \<Rightarrow> string \<Rightarrow> bool" where
  "hidden h p sid \<longleftrightarrow> (case map_of (yh_sessions h) sid of None \<Rightarrow> True | Some s \<Rightarrow> \<not> can_see p (ys_owner s))"

lemma filtered_not_hidden: "sid \<in> set (filter_submitted_order h p vs) \<Longrightarrow> \<not> hidden h p sid"
  by (auto simp: filter_submitted_order_def hidden_def split: option.splits)

text \<open>What an admitted mutation leaves untouched.\<close>

definition others_kept :: "product_principal \<Rightarrow> sync_hub \<Rightarrow> sync_hub \<Rightarrow> bool" where
  "others_kept p h h' \<longleftrightarrow>
     (\<forall>sid s. map_of (yh_sessions h) sid = Some s \<longrightarrow> \<not> can_mutate p (ys_owner s) \<longrightarrow>
        map_of (yh_sessions h') sid = Some s)
   \<and> (\<forall>owner. owner \<noteq> pp_user_id p \<longrightarrow> map_of (yh_workspace_orders h') owner = map_of (yh_workspace_orders h) owner)
   \<and> (\<forall>i < length (yh_order h). hidden h p (yh_order h ! i) \<longrightarrow>
        i < length (yh_order h') \<and> yh_order h' ! i = yh_order h ! i)"

lemma others_kept_same:
  "yh_sessions h' = yh_sessions h \<Longrightarrow> yh_workspace_orders h' = yh_workspace_orders h \<Longrightarrow> yh_order h' = yh_order h \<Longrightarrow>
   others_kept p h h'"
  by (simp add: others_kept_def)

lemma others_kept_cong: "typed_part h' = typed_part h1 \<Longrightarrow> others_kept p h h' = others_kept p h h1"
  by (simp add: others_kept_def typed_fields [of h' h1])

lemma can_mutate_reorder: "\<not> can_reorder p \<Longrightarrow> \<not> can_mutate p owner"
  by (simp add: can_reorder_def can_mutate_def)

lemma inbound_order_kept:
  assumes "sync_wf h" and "inbound_order p mid name args h = Some (r, h')" shows "others_kept p h h'"
proof -
  have "h' = h \<or> (\<exists>vs. sync_apply_as local_actor ''order'' mid name
      (JObj [(''order'', JArr (map JStr (filter_submitted_order h p vs)))]) h = Some (r, h'))"
    using assms(2) by (auto simp: inbound_order_def sync_apply_def split: if_splits option.splits)
  then show ?thesis
  proof (elim disjE exE)
    fix vs
    let ?order = "filter_submitted_order h p vs"
    assume run: "sync_apply_as local_actor ''order'' mid name (JObj [(''order'', JArr (map JStr ?order))]) h = Some (r, h')"
    show ?thesis
      using apply_effect [OF run]
    proof (elim disjE exE conjE)
      assume "typed_part h' = typed_part h"
      then show ?thesis by (simp add: others_kept_cong [of h' h] others_kept_same)
    next
      fix op h1
      assume plan: "sync_plan_of h local_actor ''order'' mid name (JObj [(''order'', JArr (map JStr ?order))]) = Some (Inr (Apply op))"
        and run: "run_sync_op local_actor op h = Some (Inr (), h1)" and eq: "typed_part h' = typed_part h1"
      have "op = OpReorder ?order" using plan_of_order [OF plan] by auto
      then have reorder: "sync_reorder ?order h = Some h1" using run by (auto simp: run_sync_op_def)
      note f = run_reorder_fields [OF reorder]
      have "distinct (yh_order h)" using assms(1) by (simp add: sync_wf_def)
      then obtain merged where "merge_session_order (yh_order h) ?order = Some merged"
          "\<And>i. i < length (yh_order h) \<Longrightarrow> yh_order h ! i \<notin> set ?order \<Longrightarrow> i < length merged \<and> merged ! i = yh_order h ! i"
        using merge_total by metis
      then have "i < length (yh_order h1) \<and> yh_order h1 ! i = yh_order h ! i"
        if "i < length (yh_order h)" "hidden h p (yh_order h ! i)" for i
        using that f(4) filtered_not_hidden by fastforce
      then show ?thesis
        using f(1,3) unfolding others_kept_cong [OF eq] by (simp add: others_kept_def)
    qed
  qed (simp add: others_kept_same)
qed

lemma inbound_workspace_kept:
  assumes "inbound_workspace_order p mid name args h = Some (r, h')" shows "others_kept p h h'"
proof -
  let ?actor = "\<lparr>user_id = Some (pp_user_id p), sees_all = False\<rparr>"
  have "h' = h \<or> sync_apply_as ?actor ''workspace-order'' mid name args h = Some (r, h')"
    using assms by (auto simp: inbound_workspace_order_def split: if_splits)
  then show ?thesis
  proof
    assume run: "sync_apply_as ?actor ''workspace-order'' mid name args h = Some (r, h')"
    show ?thesis
      using apply_effect [OF run]
    proof (elim disjE exE conjE)
      fix op h1
      assume plan: "sync_plan_of h ?actor ''workspace-order'' mid name args = Some (Inr (Apply op))"
        and "run_sync_op ?actor op h = Some (Inr (), h1)" and eq: "typed_part h' = typed_part h1"
      then obtain order where "h1 = sync_workspace_order (pp_user_id p) order h"
        using plan_of_workspace_order [OF plan] by (auto simp: run_sync_op_def)
      then show ?thesis
        unfolding others_kept_cong [OF eq] by (simp add: others_kept_def run_workspace_fields)
    qed (simp add: others_kept_cong [of h' h] others_kept_same)
  qed (simp add: others_kept_same)
qed

lemma folders_kept:
  assumes "sync_apply_as actor ''folders'' mid name args h = Some (r, h')" shows "others_kept p h h'"
  using apply_effect [OF assms]
proof (elim disjE exE conjE)
  fix op h1
  assume plan: "sync_plan_of h actor ''folders'' mid name args = Some (Inr (Apply op))"
    and run: "run_sync_op actor op h = Some (Inr (), h1)" and eq: "typed_part h' = typed_part h1"
  then have run: "sync_folders actor name args h = Some (Inr (), h1)"
    using plan_of_folders [OF plan] by (simp add: run_sync_op_def)
  show ?thesis
    unfolding others_kept_cong [OF eq] by (rule others_kept_same) (simp_all add: run_folders_fields [OF run])
qed (simp add: others_kept_cong [of h' h] others_kept_same)

lemma inbound_folders_kept:
  "inbound_folders auth p mid name args h = Some (r, h') \<Longrightarrow> others_kept p h h'"
  by (auto simp: inbound_folders_def Let_def others_kept_same intro: folders_kept split: if_splits option.splits)

lemma session_owner_known: "map_of (yh_sessions h) sid = Some s \<Longrightarrow> session_owner h sid = ys_owner s"
  by (simp add: session_owner_def)

lemma inbound_title_kept:
  assumes "inbound_title p mid name args h = Some (r, h')" shows "others_kept p h h'"
proof -
  have "h' = h \<or> (\<exists>sid. jget_str ''session_id'' args = Some sid \<and> can_mutate p (session_owner h sid)
      \<and> sync_apply_as local_actor ''title'' mid name args h = Some (r, h'))"
    using assms by (auto simp: inbound_title_def sync_apply_def split: if_splits option.splits)
  then show ?thesis
  proof (elim disjE exE conjE)
    fix sid
    assume sid: "jget_str ''session_id'' args = Some sid" "can_mutate p (session_owner h sid)"
      and run: "sync_apply_as local_actor ''title'' mid name args h = Some (r, h')"
    show ?thesis
      using apply_effect [OF run]
    proof (elim disjE exE conjE)
      fix op h1
      assume plan: "sync_plan_of h local_actor ''title'' mid name args = Some (Inr (Apply op))"
        and "run_sync_op local_actor op h = Some (Inr (), h1)" and eq: "typed_part h' = typed_part h1"
      then obtain title where h1: "h1 = sync_rename sid title h"
        using plan_of_title [OF plan] sid(1) by (auto simp: run_sync_op_def)
      have "map_of (yh_sessions h1) k = Some s"
        if "map_of (yh_sessions h) k = Some s" "\<not> can_mutate p (ys_owner s)" for k s
        using that sid(2) session_owner_known [OF that(1)] run_rename_fields(4) [of k sid title h] h1
        by (cases "k = sid") auto
      then show ?thesis
        using h1 unfolding others_kept_cong [OF eq] by (simp add: others_kept_def run_rename_fields(1,3))
    qed (simp add: others_kept_cong [of h' h] others_kept_same)
  qed (simp add: others_kept_same)
qed

lemma inbound_review_kept:
  assumes "session_id_from_sync_state state = Some sid" "can_mutate p (session_owner h sid)"
    and "sync_apply_as local_actor state mid name args h = Some (r, h')"
    and "state \<noteq> ''title''" "state \<noteq> ''order''" "state \<noteq> ''workspace-order''" "state \<noteq> ''folders''"
  shows "others_kept p h h'"
  using apply_effect [OF assms(3)]
proof (elim disjE exE conjE)
  fix op h1
  assume plan: "sync_plan_of h local_actor state mid name args = Some (Inr (Apply op))"
    and "run_sync_op local_actor op h = Some (Inr (), h1)" and eq: "typed_part h' = typed_part h1"
  then have run: "sync_review sid name args h = (Inr (), h1)"
    using plan_of_session_state [OF plan assms(4-7)] assms(1) by (auto simp: run_sync_op_def)
  have "map_of (yh_sessions h1) k = Some s"
    if "map_of (yh_sessions h) k = Some s" "\<not> can_mutate p (ys_owner s)" for k s
    using that assms(2) session_owner_known [OF that(1)] run_review_fields(4) [OF run, of k] by (cases "k = sid") auto
  then show ?thesis
    using run_review_fields(1,3) [OF run] unfolding others_kept_cong [OF eq] by (simp add: others_kept_def)
qed (simp add: others_kept_cong [of h' h] others_kept_same)

lemma inbound_kept:
  assumes "sync_wf h" and "apply_inbound_sync auth p state mid name args h = Some (r, h')"
  shows "others_kept p h h'"
  using assms inbound_order_kept [OF assms(1)] inbound_workspace_kept inbound_folders_kept inbound_title_kept
    inbound_review_kept [of state _ p h mid name args r h']
  by (auto simp: apply_inbound_sync_def sync_apply_def others_kept_same split: if_splits option.splits)

lemma viewer_refused:
  "\<not> can_reorder p \<Longrightarrow> apply_inbound_sync auth p state mid name args h = Some (r, h') \<Longrightarrow> h' = h \<and> (\<exists>e. r = Inl e)"
  using can_mutate_reorder [of p]
  by (auto simp: apply_inbound_sync_def inbound_order_def inbound_workspace_order_def inbound_folders_def
      inbound_title_def Let_def split: if_splits option.splits)

section \<open>What a client is shown\<close>

lemma jget_assoc_json: "jget k (assoc_json m) = map_of m k"
  by (simp add: assoc_json_def map_of_btree_of)

lemma map_of_map_second: "map_of (map (\<lambda>(k, v). (k, f v)) m) k = map_option f (map_of m k)"
  by (induction m) auto

lemma visible_iff: "sid \<in> set (visible_session_ids h p) \<longleftrightarrow> sid \<in> set (yh_order h) \<and> \<not> hidden h p sid"
  by (auto simp: visible_session_ids_def hidden_def split: option.splits)

lemma visible_not_hidden: "session_is_visible h p sid \<Longrightarrow> \<not> hidden h p sid"
  by (auto simp: session_is_visible_def hidden_def can_see_def session_owner_def split: option.splits)

lemma projected_titles:
  "jget sid (project_sync_value ''title'' (sync_value h ''title'') (visible_session_ids h p)) = Some v \<Longrightarrow> \<not> hidden h p sid"
  by (auto simp: project_sync_value_def sync_value_def assoc_json_def visible_iff dest!: map_of_SomeD)

lemma projected_order:
  "project_sync_value ''order'' (sync_value h ''order'') (visible_session_ids h p)
     = JArr (map JStr (filter (\<lambda>sid. \<not> hidden h p sid) (yh_order h)))"
  by (auto simp: project_sync_value_def sync_value_def filter_map comp_def visible_iff intro!: arg_cong [where f = "map JStr"] filter_cong)

section \<open>Comparing before setting\<close>

lemma parse_change_sets:
  assumes "parse_change v = Inr d" shows "review_set_directory v st = Inr (st\<lparr>mr_directory := d\<rparr>)"
proof -
  obtain k w where v: "v = JObj [(k, w)]"
    using assms by (auto simp: parse_change_def length_Suc_conv split: json.splits if_splits)
  show ?thesis
    using assms by (auto simp: v parse_change_def review_set_directory_def split: if_splits option.splits json.splits)
qed

lemma sync_review_directory:
  assumes "map_of (yh_sessions h) sid = Some s" and "parse_change v = Inr d"
  shows "sync_review sid ''setDirectory'' v h =
    (Inr (), hand_to_store (UpdateMobileReviewState sid (review_json ((ys_review s)\<lparr>mr_directory := d\<rparr>)))
       (h\<lparr>yh_sessions := AList.update sid (s\<lparr>ys_review := (ys_review s)\<lparr>mr_directory := d\<rparr>\<rparr>) (yh_sessions h)\<rparr>))"
  using assms parse_change_sets [OF assms(2)] by (simp add: sync_review_def mutate_review_def)

lemma session_edit_sets:
  assumes "review_directory_update digest actor sid operation input h = Some (Inr (), h')"
    and "operation \<notin> fst ` set (yh_receipts h)" and "ch_folder_id input = None"
    and "map_of (yh_sessions h) sid = Some s"
  shows "\<exists>d. parse_change (ch_change input) = Inr d
    \<and> override_value (mr_directory (ys_review s)) = ch_expected input
    \<and> ys_owner s = user_id actor \<and> \<not> ys_system s \<and> \<not> ys_closing s
    \<and> map_of (yh_sessions h') sid = Some (s\<lparr>ys_review := (ys_review s)\<lparr>mr_directory := d\<rparr>\<rparr>)"
  using assms(1)
proof (cases rule: edit_cases)
  case (known p es)
  then show ?thesis using assms(2) receipts_get_Some [OF known(1)] by force
next
  case (applied d state mutation args h1)
  have target: "state = REVIEW_PREFIX @ sid" "mutation = ''setDirectory''" "args = ch_change input"
      "override_value (mr_directory (ys_review s)) = ch_expected input"
    using applied(6) assms(3,4) by (auto simp: edit_target_def split: if_splits)
  have state: "state \<noteq> ''title''" "state \<noteq> ''order''" "state \<noteq> ''workspace-order''" "state \<noteq> ''folders''"
    unfolding target REVIEW_PREFIX_def by simp_all
  have "\<exists>op h2. sync_plan_of h actor state (edit_id operation) mutation args = Some (Inr (Apply op))
      \<and> run_sync_op actor op h = Some (Inr (), h2) \<and> typed_part h1 = typed_part h2"
    using applied(7)
  proof (cases rule: sync_apply_as_cases)
    case recovered
    then show ?thesis using state by simp
  next
    case (applied op h2)
    then show ?thesis by auto
  qed (use applied(3) in auto)
  then obtain op h2 where plan: "sync_plan_of h actor state (edit_id operation) mutation args = Some (Inr (Apply op))"
      and run: "run_sync_op actor op h = Some (Inr (), h2)" and eq: "typed_part h1 = typed_part h2"
    by blast
  have "sync_review sid ''setDirectory'' (ch_change input) h = (Inr (), h2)"
    using plan_of_session_state [OF plan state] run target by (simp add: run_sync_op_def)
  then show ?thesis
    using sync_review_directory [OF assms(4) applied(4)] applied(4,5,8) target assms(4) typed_fields(1) [OF eq]
    by (auto simp: edit_permitted_def update_conv')
qed simp

end
