(* ===== verification/Sync_Properties.thy ===== *)
theory Sync_Properties
  imports Sync_Safety Folder_Properties
begin

text \<open>
  The properties of the synchronized states, each applied to a small Hub: the session \<open>s1\<close> of the user \<open>u\<close> and
  the session \<open>s2\<close> of the user \<open>v\<close>.
\<close>

section \<open>A small Hub\<close>

definition demo_sync_session :: "string \<Rightarrow> string \<Rightarrow> sync_session" where
  "demo_sync_session title owner =
     \<lparr>ys_title = title, ys_owner = Some owner, ys_system = False, ys_closing = False, ys_review = default_review\<rparr>"

definition demo_sync :: sync_hub where
  "demo_sync = \<lparr>
     yh_sessions = [(''s1'', demo_sync_session ''One'' ''u''), (''s2'', demo_sync_session ''Two'' ''v'')],
     yh_order = [''s1'', ''s2''], yh_folders = empty_folders, yh_workspace_orders = [], yh_drafts = [],
     yh_preferences = [], yh_receipts = [], yh_store = True, yh_writes = [], yh_sync = [], yh_patches = []\<rparr>"

definition demo_rename :: json where
  "demo_rename = JObj [(''session_id'', JStr ''s1''), (''title'', JStr '' Uno '')]"

definition demo_renamed :: sync_hub where
  "demo_renamed = (case sync_apply ''title'' ''m1'' ''rename'' demo_rename demo_sync of
     Some (_, h) \<Rightarrow> h | None \<Rightarrow> demo_sync)"

definition demo_principal :: product_principal where
  "demo_principal = \<lparr>pp_user_id = ''u'', pp_username = ''u'', pp_role = RoleOperator\<rparr>"

definition demo_edit :: review_change where
  "demo_edit = \<lparr>ch_scope = ''code'', ch_folder_id = None, ch_expected = JObj [],
     ch_change = JObj [(''directory'', JStr ''project'')]\<rparr>"

text \<open>A stand-in for SHA-256, on which the demonstration's fingerprints are computed.\<close>

definition demo_edit_digest :: "json \<Rightarrow> string" where
  "demo_edit_digest v = (case jget ''scope'' v of Some (JStr s) \<Rightarrow> s | _ \<Rightarrow> [])"

definition demo_edited :: sync_hub where
  "demo_edited = (case review_directory_update demo_edit_digest demo_actor ''s1'' ''op'' demo_edit demo_sync of
     Some (_, h) \<Rightarrow> h | None \<Rightarrow> demo_sync)"

lemma default_review_wf: "review_wf default_review"
  using from_stored_ok [of JNull] by (simp add: from_stored_def, simp add: default_review_def repair_review_def
      stored_tabs_def MOBILE_REVIEW_TAB_CAP_def review_mode_ok_def default_mobile_review_mode_def)

lemma demo_sync_wf: "sync_wf demo_sync"
  by (simp add: sync_wf_def demo_sync_def demo_sync_session_def default_review_wf empty_folders_def tree_ok_Nil)

lemma demo_rename_run: "sync_apply ''title'' ''m1'' ''rename'' demo_rename demo_sync = Some (Inr (), demo_renamed)"
proof -
  have "case sync_apply ''title'' ''m1'' ''rename'' demo_rename demo_sync of Some (Inr _, _) \<Rightarrow> True | _ \<Rightarrow> False"
    by code_simp
  then show ?thesis by (auto simp: demo_renamed_def split: option.splits sum.splits)
qed

lemma demo_edit_run:
  "review_directory_update demo_edit_digest demo_actor ''s1'' ''op'' demo_edit demo_sync = Some (Inr (), demo_edited)"
proof -
  have "case review_directory_update demo_edit_digest demo_actor ''s1'' ''op'' demo_edit demo_sync of
      Some (Inr _, _) \<Rightarrow> True | _ \<Rightarrow> False"
    by code_simp
  then show ?thesis by (auto simp: demo_edited_def split: option.splits sum.splits)
qed

section \<open>Properties\<close>



text \<open>A refused mutation changes nothing; an accepted one is one patch with the next version of its state, its
  new value and the id confirmed, and moves no other state's version.\<close>

theorem accepted_mutation_is_one_patch:
  assumes "sync_apply_as actor state mid name args h = Some (r, h')"
  shows "case r of
      Inl e \<Rightarrow> h' = h
    | Inr _ \<Rightarrow> yh_patches h' = yh_patches h @
          [\<lparr>yp_state = state, yp_version = ya_version (arbiter_of h state) + 1, yp_value = sync_value h' state,
            yp_confirmed = [mid], yp_resync = False\<rparr>]
        \<and> ya_version (arbiter_of h' s) = ya_version (arbiter_of h s) + (if s = state then 1 else 0)
        \<and> mid \<in> seen h' state"
  using assms apply_refused apply_patch [of actor state mid name args h h'] apply_records by (cases r) fastforce+

text \<open>C18: a mutation of a synchronized state always answers, never panics, and leaves the states well formed: every
  session's review state within its bounds with valid tabs, bindings and positions, a session order and workspace
  orders without repetition, the latter capped and of valid keys, a folder tree without cycles.\<close>

theorem synchronized_states_stay_well_formed:
  assumes "sync_wf h"
  shows "\<exists>r h'. sync_apply_as actor state mid name args h = Some (r, h') \<and> sync_wf h'"
  using apply_wf [OF assms, of actor state mid name args] by fastforce

theorem synchronized_states_stay_well_formed_witness:
  "\<exists>r h'. sync_apply_as local_actor (REVIEW_PREFIX @ ''s1'') ''m2'' ''open'' (JObj [(''path'', JStr ''src/main.rs'')]) demo_sync
     = Some (r, h') \<and> sync_wf h'"
  by (rule synchronized_states_stay_well_formed [OF demo_sync_wf])



text \<open>C8: a client's mutation never changes the title or review state of a session its principal may not change,
  another user's workspace order, or the slot of a session it may not see in the session order, and a viewer's
  mutation is refused with nothing changed.\<close>

theorem clients_change_only_their_own:
  assumes "sync_wf h" and "apply_inbound_sync auth p state mid name args h = Some (r, h')"
  shows "others_kept p h h' \<and> (\<not> can_reorder p \<longrightarrow> h' = h \<and> (\<exists>e. r = Inl e))"
  using inbound_kept [OF assms] viewer_refused [OF _ assms(2)] by blast

theorem clients_change_only_their_own_witness:
  "\<exists>r h'. apply_inbound_sync True demo_principal ''order'' ''m3'' ''reorder''
       (JObj [(''order'', JArr [JStr ''s2'', JStr ''s1''])]) demo_sync = Some (r, h')
     \<and> yh_order h' = [''s1'', ''s2''] \<and> others_kept demo_principal demo_sync h'"
proof -
  let ?run = "apply_inbound_sync True demo_principal ''order'' ''m3'' ''reorder''
       (JObj [(''order'', JArr [JStr ''s2'', JStr ''s1''])]) demo_sync"
  have "map_option (yh_order \<circ> snd) ?run = Some [''s1'', ''s2'']" by code_simp
  then obtain r h' where run: "?run = Some (r, h')" "yh_order h' = [''s1'', ''s2'']" by auto
  with clients_change_only_their_own [OF demo_sync_wf run(1)] show ?thesis by blast
qed

text \<open>An edit of a session's directory is accepted only where the current override is the expected one, on an open
  session of the actor's own, and changes nothing of the session but that override.\<close>

theorem agent_edit_compares_before_setting:
  assumes "review_directory_update digest actor sid operation input h = Some (Inr (), h')"
    and "operation \<notin> fst ` set (yh_receipts h)" and "ch_folder_id input = None"
    and "map_of (yh_sessions h) sid = Some s"
  shows "\<exists>d. parse_change (ch_change input) = Inr d
    \<and> override_value (mr_directory (ys_review s)) = ch_expected input
    \<and> ys_owner s = user_id actor \<and> \<not> ys_system s \<and> \<not> ys_closing s
    \<and> map_of (yh_sessions h') sid = Some (s\<lparr>ys_review := (ys_review s)\<lparr>mr_directory := d\<rparr>\<rparr>)"
  by (rule session_edit_sets [OF assms])

theorem agent_edit_compares_before_setting_witness:
  "\<exists>d. parse_change (ch_change demo_edit) = Inr d
    \<and> override_value (mr_directory (ys_review (demo_sync_session ''One'' ''u''))) = ch_expected demo_edit
    \<and> map_option (mr_directory \<circ> ys_review) (map_of (yh_sessions demo_edited) ''s1'') = Some d"
proof -
  have "map_of (yh_sessions demo_sync) ''s1'' = Some (demo_sync_session ''One'' ''u'')" by (simp add: demo_sync_def)
  from agent_edit_compares_before_setting [OF demo_edit_run _ _ this] show ?thesis
    by (auto simp: demo_sync_def demo_edit_def)
qed



section \<open>The review state over restarts\<close>

definition review_after :: "(string \<times> json) list \<Rightarrow> mobile_review \<Rightarrow> mobile_review" where
  "review_after mutations st =
     fold (\<lambda>(mutation, args) st. case mutate_review mutation args st of Inl _ \<Rightarrow> st | Inr st' \<Rightarrow> st') mutations st"

lemma review_after_wf: "review_wf st \<Longrightarrow> review_wf (review_after mutations st)"
proof (induction mutations arbitrary: st)
  case Nil
  then show ?case by (simp add: review_after_def)
next
  case (Cons m mutations)
  obtain mutation args where m: "m = (mutation, args)" by (cases m)
  show ?case
  proof (cases "mutate_review mutation args st")
    case (Inl e)
    then show ?thesis using Cons by (simp add: review_after_def m)
  next
    case (Inr st')
    then have "review_wf st'" using Cons.prems mutate_review_ok by blast
    then show ?thesis using Cons.IH Inr by (simp add: review_after_def m)
  qed
qed

text \<open>C24: whatever value is stored for a session's review state, what is read back is within all bounds, stays so
  under any sequence of mutations, and is read back unchanged after it is written and the service restarts.\<close>

theorem review_state_survives_restart:
  "review_wf (review_after mutations (from_stored v))
   \<and> from_stored (review_json (review_after mutations (from_stored v))) = review_after mutations (from_stored v)"
  using review_after_wf [OF from_stored_ok] stored_review_reads_back by blast

text \<open>A full set of tabs gives up an unpinned one, and a pinned one only when every tab is pinned.\<close>

lemma opening_keeps_pinned_tabs:
  assumes "review_wf st" and "review_open args st = Inr st'"
    and "t \<in> set (mr_tabs st)" "vt_pinned t" and "\<exists>u \<in> set (mr_tabs st). \<not> vt_pinned u"
  shows "t \<in> set (mr_tabs st')"
proof -
  obtain path where st': "mr_tabs st' = mr_tabs (with_tab path st)"
    using assms(2) by (auto simp: review_open_def Let_def split: if_splits)
  obtain i where i: "position (\<lambda>t. \<not> vt_pinned t) (mr_tabs st) = Some i"
    using assms(5) position_None_iff [of "\<lambda>t. \<not> vt_pinned t" "mr_tabs st"] by (cases "position (\<lambda>t. \<not> vt_pinned t) (mr_tabs st)") auto
  then have "i < length (mr_tabs st)" "t \<noteq> mr_tabs st ! i"
    using assms(4) position_SomeD [OF i] by auto
  then have "t \<in> set (remove_nth i (mr_tabs st))"
    using assms(3) mset_remove_nth [of i "mr_tabs st"] by (metis insert_iff set_mset_add_mset_insert set_mset_mset)
  then show ?thesis
    using assms(3) i by (simp add: st' with_tab_def evict_tab_def Let_def)
qed

text \<open>The entry a full map of reading positions gives up is the one with the least path, whatever its age.\<close>

theorem full_positions_evict_least_path:
  assumes "length m = MOBILE_REVIEW_POSITION_CAP" and "sorted_keys m" and "map_of m path = None"
  shows "map_of (capped_insert MOBILE_REVIEW_POSITION_CAP path pos m) = (map_of m)(fst (hd m) := None, path \<mapsto> pos)
    \<and> (\<forall>q \<in> set (tl m). fst (hd m) < fst q)"
proof -
  obtain p rest where m: "m = p # rest" using assms(1) by (cases m) (auto simp: review_caps)
  have "map_of rest (fst p) = None" using assms(2) by (auto simp: m map_of_eq_None_iff)
  then show ?thesis
    using assms by (cases p) (auto simp: m capped_insert_def fun_eq_iff)
qed

end
