(* ===== verification/Plugin_Evidence.thy ===== *)
theory Plugin_Evidence
  imports Prelude
begin

text \<open>
  The uninstall step a Machine is asked to perform and the evidence it returns
  (\<^verbatim>\<open>src/components/wire/src/machine_protocol/plugin_step.rs\<close>, \<^verbatim>\<open>plugin_recovery.rs\<close> and
  \<^verbatim>\<open>installation_revision.rs\<close>). SHA-256, the JSON text of a value and the semantic-version parser are
  third-party code: they are the fields of \<open>codec\<close>, the first argument of what uses them. Proved here: the
  exact evidence that counts as the removal of one step.
\<close>

section \<open>Text checks\<close>

definition is_digit :: "char \<Rightarrow> bool" where
  "is_digit c \<longleftrightarrow> 48 \<le> byte_of c \<and> byte_of c \<le> 57"

definition is_lower_hex :: "char \<Rightarrow> bool" where
  "is_lower_hex c \<longleftrightarrow> is_digit c \<or> (97 \<le> byte_of c \<and> byte_of c \<le> 102)"

definition SHA_PREFIX :: string where "SHA_PREFIX = ''sha256:''"

definition REVISION_PREFIX :: string where "REVISION_PREFIX = ''installation-''"

definition hex_after :: "string \<Rightarrow> string \<Rightarrow> bool" where
  "hex_after p s \<longleftrightarrow>
     starts_with s p \<and> length (drop (length p) s) = 64 \<and> list_all is_lower_hex (drop (length p) s)"

definition is_digest :: "string \<Rightarrow> bool" where
  "is_digest s = hex_after SHA_PREFIX s"

definition id_char :: "char \<Rightarrow> bool" where
  "id_char c \<longleftrightarrow> is_ascii_alnum c \<or> c = CHR ''-'' \<or> c = CHR ''_''"

definition step_id :: "string \<Rightarrow> bool" where
  "step_id s \<longleftrightarrow> s \<noteq> [] \<and> length s \<le> 128 \<and> list_all id_char s"

definition no_control :: "string \<Rightarrow> bool" where
  "no_control s = list_all (\<lambda>c. \<not> is_control c) (utf8_chars s)"

section \<open>The step\<close>

type_synonym installation_revision = string

definition revision_try_from :: "string \<Rightarrow> string + installation_revision" where
  "revision_try_from s =
     (if hex_after REVISION_PREFIX s then Inr s else Inl ''invalid installation revision'')"

record uninstall_step =
  us_schema :: nat
  us_operation_id :: string
  us_service_id :: string
  us_machine_id :: string
  us_plan_digest :: string
  us_plugin_id :: string
  us_plugin_version :: string
  us_generation_digest :: string
  us_installation_revision :: "installation_revision option"
  us_contract_fingerprint :: string
  us_expires_at_ms :: int

record ('intent, 'operation, 'resolution) codec =
  cd_sha256 :: "string \<Rightarrow> string"
  cd_version_ok :: "string \<Rightarrow> bool"
  cd_time_ok :: "int \<Rightarrow> bool"
  cd_step_json :: "uninstall_step \<Rightarrow> string"
  cd_intent_json :: "'intent \<Rightarrow> string"
  cd_intent_of_json :: "string \<Rightarrow> 'intent option"
  cd_operation_json :: "'operation \<Rightarrow> string"
  cd_resolution_json :: "'resolution \<Rightarrow> string"
  cd_resolution_of_json :: "string \<Rightarrow> 'resolution option"

definition digest :: "('i, 'o, 'r) codec \<Rightarrow> string \<Rightarrow> string" where
  "digest cd bytes = SHA_PREFIX @ cd_sha256 cd bytes"

definition schema_ok :: "nat \<Rightarrow> installation_revision option \<Rightarrow> bool" where
  "schema_ok schema revision \<longleftrightarrow> (schema = 1 \<and> revision = None) \<or> (schema = 2 \<and> revision \<noteq> None)"

definition JS_SAFE_MAX :: int where "JS_SAFE_MAX = 9007199254740991"

definition step_validate :: "('i, 'o, 'r) codec \<Rightarrow> uninstall_step \<Rightarrow> string + unit" where
  "step_validate cd s =
     (if \<not> schema_ok (us_schema s) (us_installation_revision s)
      then Inl ''unsupported Machine step schema or installation revision''
      else if \<not> (step_id (us_operation_id s) \<and> 16 \<le> length (us_operation_id s)
                 \<and> step_id (us_machine_id s) \<and> step_id (us_plugin_id s))
      then Inl ''invalid Machine step identity''
      else if us_service_id s = [] \<or> 128 < length (us_service_id s) \<or> \<not> no_control (us_service_id s)
      then Inl ''invalid Machine step owner''
      else if \<not> (length (us_plugin_version s) \<le> 128 \<and> cd_version_ok cd (us_plugin_version s))
      then Inl ''invalid Machine step version''
      else if \<not> list_all is_digest [us_plan_digest s, us_generation_digest s, us_contract_fingerprint s]
      then Inl ''invalid Machine step digest''
      else if \<not> (0 < us_expires_at_ms s \<and> us_expires_at_ms s \<le> JS_SAFE_MAX)
      then Inl ''invalid Machine step deadline''
      else Inr ())"

definition request_digest :: "('i, 'o, 'r) codec \<Rightarrow> uninstall_step \<Rightarrow> string + string" where
  "request_digest cd s =
     rbind (step_validate cd s) (\<lambda>_. Inr (digest cd (cd_step_json cd s)))"

section \<open>What the Machine reports\<close>

datatype step_rejection = Expired | TargetChanged

datatype step_uncertainty = StepInterrupted | EffectFailure

datatype step_outcome = Applied | Rejected step_rejection | Unknown step_uncertainty

record step_receipt =
  sr_step :: uninstall_step
  sr_request_digest :: string
  sr_outcome :: step_outcome

definition receipt_matches :: "('i, 'o, 'r) codec \<Rightarrow> step_receipt \<Rightarrow> uninstall_step \<Rightarrow> bool" where
  "receipt_matches cd r s \<longleftrightarrow> sr_step r = s \<and> request_digest cd s = Inr (sr_request_digest r)"

datatype step_unavailable =
  ReaderOnly | WrongOwner | InvalidRequest | IdentityConflict | StepSlotFenced | Capacity | Storage

datatype step_lookup = NotFound | Found step_receipt | LookupUnavailable step_unavailable

datatype installation_unavailable = InstallationStorage | ActiveLinkMismatch

datatype installation_evidence =
    Untracked
  | Installed installation_revision string
  | Removed installation_revision installation_revision string
  | PendingInstallation installation_revision
  | InstallationUnavailable installation_unavailable

record recovery_snapshot =
  rs_request_digest :: string
  rs_receipt :: "step_receipt option"
  rs_installation :: installation_evidence
  rs_slot_fenced :: bool

datatype recovery_observation = Observed recovery_snapshot | ObservationUnavailable step_unavailable

datatype recovery_uncertainty =
  MissingForwardReceipt | ForwardOutcome | InstallationPending | InstallationUnknown

datatype recovery_basis =
    MatchingRemoval installation_revision
  | ForwardRejected step_rejection
  | UnknownBasis recovery_uncertainty
  | LegacyUntracked
  | InstallationChanged
  | SlotFenced
  | UnavailableBasis step_unavailable

definition is_unknown :: "step_outcome \<Rightarrow> bool" where
  "is_unknown v \<longleftrightarrow> (case v of Unknown _ \<Rightarrow> True | _ \<Rightarrow> False)"

definition installation_consistent :: "recovery_snapshot \<Rightarrow> bool" where
  "installation_consistent sn \<longleftrightarrow> (case rs_installation sn of
       Installed _ generation \<Rightarrow> is_digest generation
     | Removed revision previous request \<Rightarrow> revision \<noteq> previous \<and> is_digest request
     | PendingInstallation _ \<Rightarrow> rs_slot_fenced sn
     | _ \<Rightarrow> True)"

definition observation_matches ::
    "('i, 'o, 'r) codec \<Rightarrow> recovery_observation \<Rightarrow> uninstall_step \<Rightarrow> bool" where
  "observation_matches cd ob s =
     (case request_digest cd s of
        Inl _ \<Rightarrow> False
      | Inr expected \<Rightarrow> (case ob of
          ObservationUnavailable _ \<Rightarrow> True
        | Observed sn \<Rightarrow>
            if rs_request_digest sn \<noteq> expected
               \<or> (case rs_receipt sn of None \<Rightarrow> False | Some r \<Rightarrow> \<not> receipt_matches cd r s)
            then False
            else if (case rs_receipt sn of None \<Rightarrow> False | Some r \<Rightarrow> is_unknown (sr_outcome r))
                    \<and> \<not> rs_slot_fenced sn
            then False
            else installation_consistent sn))"

definition evidence_basis ::
    "('i, 'o, 'r) codec \<Rightarrow> recovery_observation \<Rightarrow> uninstall_step \<Rightarrow> recovery_basis" where
  "evidence_basis cd ob s =
     (if \<not> observation_matches cd ob s then UnavailableBasis InvalidRequest
      else case ob of
        ObservationUnavailable reason \<Rightarrow> UnavailableBasis reason
      | Observed sn \<Rightarrow> (case rs_receipt sn of
          None \<Rightarrow> UnknownBasis MissingForwardReceipt
        | Some r \<Rightarrow> (case sr_outcome r of
            Unknown _ \<Rightarrow> UnknownBasis ForwardOutcome
          | Rejected reason \<Rightarrow> ForwardRejected reason
          | Applied \<Rightarrow> (case us_installation_revision s of
              None \<Rightarrow> LegacyUntracked
            | Some expected \<Rightarrow> (case rs_installation sn of
                PendingInstallation _ \<Rightarrow> UnknownBasis InstallationPending
              | InstallationUnavailable _ \<Rightarrow> UnknownBasis InstallationUnknown
              | _ \<Rightarrow>
                  if rs_slot_fenced sn then SlotFenced
                  else (case rs_installation sn of
                      Removed revision previous request \<Rightarrow>
                        if previous = expected \<and> request = rs_request_digest sn
                        then MatchingRemoval revision else InstallationChanged
                    | _ \<Rightarrow> InstallationChanged))))))"

section \<open>What a matching removal proves\<close>

definition proves_removal ::
    "('i, 'o, 'r) codec \<Rightarrow> recovery_observation \<Rightarrow> uninstall_step \<Rightarrow> bool" where
  "proves_removal cd ob s =
     (case evidence_basis cd ob s of MatchingRemoval _ \<Rightarrow> True | _ \<Rightarrow> False)"

lemma request_digest_Inr:
  "request_digest cd s = Inr d \<longleftrightarrow> step_validate cd s = Inr () \<and> d = digest cd (cd_step_json cd s)"
  by (auto simp: request_digest_def)

lemma observed_matches:
  "observation_matches cd (Observed sn) s \<longleftrightarrow>
     request_digest cd s = Inr (rs_request_digest sn)
   \<and> (\<forall>r. rs_receipt sn = Some r \<longrightarrow>
        receipt_matches cd r s \<and> (is_unknown (sr_outcome r) \<longrightarrow> rs_slot_fenced sn))
   \<and> installation_consistent sn"
  by (auto simp: observation_matches_def split: sum.splits option.splits)

theorem matching_removal_exact:
  "evidence_basis cd ob s = MatchingRemoval revision \<longleftrightarrow>
     (\<exists>sn r previous. ob = Observed sn \<and> rs_receipt sn = Some r \<and> receipt_matches cd r s
        \<and> sr_outcome r = Applied \<and> us_installation_revision s = Some previous
        \<and> rs_installation sn = Removed revision previous (rs_request_digest sn)
        \<and> revision \<noteq> previous \<and> is_digest (rs_request_digest sn)
        \<and> request_digest cd s = Inr (rs_request_digest sn) \<and> \<not> rs_slot_fenced sn)"
proof (cases ob)
  case (Observed sn)
  then show ?thesis
    by (auto simp: evidence_basis_def observed_matches installation_consistent_def is_unknown_def
        split: option.splits step_outcome.splits installation_evidence.splits if_splits)
qed (auto simp: evidence_basis_def split: if_splits)

lemma proves_removal_iff: "proves_removal cd ob s \<longleftrightarrow> (\<exists>revision. evidence_basis cd ob s = MatchingRemoval revision)"
  by (auto simp: proves_removal_def split: recovery_basis.splits)

lemma matching_removal_exact_iff:
  "proves_removal cd ob s \<longleftrightarrow>
     (\<exists>sn r revision previous. ob = Observed sn \<and> rs_receipt sn = Some r \<and> receipt_matches cd r s
        \<and> sr_outcome r = Applied \<and> us_installation_revision s = Some previous
        \<and> rs_installation sn = Removed revision previous (rs_request_digest sn)
        \<and> revision \<noteq> previous \<and> is_digest (rs_request_digest sn)
        \<and> request_digest cd s = Inr (rs_request_digest sn) \<and> \<not> rs_slot_fenced sn)"
  unfolding proves_removal_iff matching_removal_exact by blast

end
