(* ===== verification/Plugin_Operation.thy ===== *)
theory Plugin_Operation
  imports Plugin_Evidence Operation_Budget
begin

text \<open>
  The Service's own record of an uninstall and of the decision that closes an interrupted one
  (\<^verbatim>\<open>src/src/plugin_operation.rs\<close>, \<^verbatim>\<open>src/src/plugin_operation/resolution.rs\<close>): the approved intent and its
  checks, the phases and their transitions, and the resolution intent with the evidence it must match.
  A session set that passed the checks is strictly sorted, so its binary search is membership.
\<close>

section \<open>Intent\<close>

datatype actor = Product string | Admin string

record uninstall_intent =
  ui_schema :: nat
  ui_operation_id :: string
  ui_service_id :: string
  ui_actor :: actor
  ui_machine_id :: string
  ui_plugin_id :: string
  ui_plugin_version :: string
  ui_generation_digest :: string
  ui_installation_revision :: "installation_revision option"
  ui_contract_fingerprint :: string
  ui_session_ids :: "string list"
  ui_active_session_ids :: "string list"
  ui_live_session_ids :: "string list"
  ui_purge_after_ms :: int
  ui_expires_at_ms :: int

definition MAX_OPERATIONS :: nat where "MAX_OPERATIONS = 4096"
definition MAX_INTENT_BYTES :: nat where "MAX_INTENT_BYTES = 262144"
definition MAX_RESOLUTION_BYTES :: nat where "MAX_RESOLUTION_BYTES = 4096"

fun approver :: "actor \<Rightarrow> string" where
  "approver (Product u) = u"
| "approver (Admin a) = a"

definition bounded_text :: "string \<Rightarrow> nat \<Rightarrow> bool" where
  "bounded_text s n \<longleftrightarrow> s \<noteq> [] \<and> length s \<le> n \<and> no_control s"

definition operation_id_ok :: "string \<Rightarrow> bool" where
  "operation_id_ok s \<longleftrightarrow> 16 \<le> length s \<and> length s \<le> 128 \<and> list_all id_char s"

definition target_id_ok :: "string \<Rightarrow> bool" where
  "target_id_ok s \<longleftrightarrow> bounded_text s 128 \<and> list_all id_char s"

fun strictly_sorted :: "string list \<Rightarrow> bool" where
  "strictly_sorted (a # b # xs) \<longleftrightarrow> a < b \<and> strictly_sorted (b # xs)"
| "strictly_sorted _ \<longleftrightarrow> True"

definition subset_ok :: "string list \<Rightarrow> string list \<Rightarrow> bool" where
  "subset_ok whole part \<longleftrightarrow>
     length part \<le> length whole \<and> strictly_sorted part \<and> list_all (\<lambda>i. i \<in> set whole) part"

definition intent_validate :: "(uninstall_intent, 'o, 'r) codec \<Rightarrow> uninstall_intent \<Rightarrow> string + unit" where
  "intent_validate cd i =
     (if \<not> schema_ok (ui_schema i) (ui_installation_revision i)
      then Inl ''unsupported uninstall intent schema or installation revision''
      else if \<not> operation_id_ok (ui_operation_id i) then Inl ''invalid uninstall operation identity''
      else if \<not> (bounded_text (approver (ui_actor i)) 256 \<and> bounded_text (ui_service_id i) 128)
      then Inl ''invalid uninstall owner''
      else if \<not> list_all target_id_ok [ui_machine_id i, ui_plugin_id i] then Inl ''invalid uninstall target''
      else if \<not> (length (ui_plugin_version i) \<le> 128 \<and> cd_version_ok cd (ui_plugin_version i)
                 \<and> is_digest (ui_generation_digest i) \<and> is_digest (ui_contract_fingerprint i))
      then Inl ''invalid uninstall release''
      else if \<not> (length (ui_session_ids i) \<le> 1024
                 \<and> list_all (\<lambda>s. bounded_text s 128) (ui_session_ids i) \<and> strictly_sorted (ui_session_ids i))
      then Inl ''uninstall session set must be bounded, sorted and unique''
      else if \<not> list_all (subset_ok (ui_session_ids i)) [ui_active_session_ids i, ui_live_session_ids i]
      then Inl ''uninstall session subset is invalid''
      else if \<not> (0 < ui_expires_at_ms i \<and> ui_expires_at_ms i < ui_purge_after_ms i
                 \<and> cd_time_ok cd (ui_purge_after_ms i))
      then Inl ''invalid uninstall deadlines''
      else Inr ())"

definition machine_step :: "(uninstall_intent, 'o, 'r) codec \<Rightarrow> uninstall_intent \<Rightarrow> string + uninstall_step" where
  "machine_step cd i =
     rbind (intent_validate cd i) (\<lambda>_.
       let step =
         \<lparr>us_schema = (if ui_installation_revision i \<noteq> None then 2 else 1),
          us_operation_id = ui_operation_id i, us_service_id = ui_service_id i,
          us_machine_id = ui_machine_id i, us_plan_digest = digest cd (cd_intent_json cd i),
          us_plugin_id = ui_plugin_id i, us_plugin_version = ui_plugin_version i,
          us_generation_digest = ui_generation_digest i,
          us_installation_revision = ui_installation_revision i,
          us_contract_fingerprint = ui_contract_fingerprint i, us_expires_at_ms = ui_expires_at_ms i\<rparr>
       in rbind (step_validate cd step) (\<lambda>_. Inr step))"

section \<open>Phases\<close>

datatype uninstall_phase =
    Prepared | StoppingSessions | Uninstalling | MachineUninstalled | RestoringMachine
  | RestoringSessions | Completed | Compensated | Aborted | NeedsAttention

fun phase_str :: "uninstall_phase \<Rightarrow> string" where
  "phase_str Prepared = ''prepared''"
| "phase_str StoppingSessions = ''stopping_sessions''"
| "phase_str Uninstalling = ''uninstalling''"
| "phase_str MachineUninstalled = ''machine_uninstalled''"
| "phase_str RestoringMachine = ''restoring_machine''"
| "phase_str RestoringSessions = ''restoring_sessions''"
| "phase_str Completed = ''completed''"
| "phase_str Compensated = ''compensated''"
| "phase_str Aborted = ''aborted''"
| "phase_str NeedsAttention = ''needs_attention''"

definition phase_terminal :: "uninstall_phase \<Rightarrow> bool" where
  "phase_terminal p \<longleftrightarrow> p = Completed \<or> p = Compensated \<or> p = Aborted"

definition phase_permits :: "uninstall_phase \<Rightarrow> uninstall_phase \<Rightarrow> bool" where
  "phase_permits p q \<longleftrightarrow>
     (if \<not> phase_terminal p \<and> p \<noteq> NeedsAttention \<and> q = NeedsAttention then True
      else case p of
        Prepared \<Rightarrow> q = StoppingSessions \<or> q = Aborted
      | StoppingSessions \<Rightarrow> q = Uninstalling
      | Uninstalling \<Rightarrow> q = MachineUninstalled \<or> q = RestoringMachine
      | MachineUninstalled \<Rightarrow> q = Completed \<or> q = RestoringMachine
      | RestoringMachine \<Rightarrow> q = RestoringSessions
      | RestoringSessions \<Rightarrow> q = Compensated
      | _ \<Rightarrow> False)"

datatype problem =
    Interrupted | PreconditionsChanged | MachineUnavailable | MachineRejected
  | UnknownMachineOutcome | StorageFailure | CompensationFailed | WorkerRecoveryUnverified

record operation =
  op_intent :: uninstall_intent
  op_phase :: uninstall_phase
  op_problem :: "problem option"
  op_cause :: "problem option"
  op_attention_from :: "uninstall_phase option"
  op_created_at_ms :: int
  op_updated_at_ms :: int

section \<open>Resolution\<close>

datatype resolution_action = AbortBeforeEffects | CompleteVerifiedRemoval

fun terminal_phase :: "resolution_action \<Rightarrow> uninstall_phase" where
  "terminal_phase AbortBeforeEffects = Aborted"
| "terminal_phase CompleteVerifiedRemoval = Completed"

definition can_complete_removal :: "operation \<Rightarrow> bool" where
  "can_complete_removal op \<longleftrightarrow>
     op_phase op = NeedsAttention \<and> op_attention_from op = Some Uninstalling
   \<and> (op_problem op = Some UnknownMachineOutcome \<or> op_problem op = Some Interrupted)
   \<and> op_cause op = None \<and> ui_session_ids (op_intent op) = []
   \<and> ui_live_session_ids (op_intent op) = [] \<and> ui_active_session_ids (op_intent op) = []
   \<and> ui_installation_revision (op_intent op) \<noteq> None"

definition can_abort_before_effects :: "operation \<Rightarrow> bool" where
  "can_abort_before_effects op \<longleftrightarrow>
     op_phase op = NeedsAttention \<and> op_attention_from op = Some Prepared
   \<and> (op_problem op = Some Interrupted \<or> op_problem op = Some StorageFailure)
   \<and> op_cause op = None"

record resolution_intent =
  ri_schema :: nat
  ri_resolution_id :: string
  ri_operation_id :: string
  ri_service_id :: string
  ri_machine_id :: string
  ri_plugin_id :: string
  ri_actor :: actor
  ri_action :: resolution_action
  ri_operation_digest :: string
  ri_before_updated_at_ms :: int
  ri_expires_at_ms :: int
  ri_machine_evidence :: "recovery_observation option"

type_synonym plugin_codec = "(uninstall_intent, operation, resolution_intent) codec"

definition operation_digest :: "plugin_codec \<Rightarrow> operation \<Rightarrow> string" where
  "operation_digest cd op = digest cd (cd_operation_json cd op)"

definition resolution_validate :: "resolution_intent \<Rightarrow> string + unit" where
  "resolution_validate r =
     (if \<not> (case ri_action r of AbortBeforeEffects \<Rightarrow> ri_machine_evidence r = None
               | CompleteVerifiedRemoval \<Rightarrow> ri_machine_evidence r \<noteq> None)
      then Inl ''resolution evidence does not match action''
      else if \<not> (ri_schema r = 1 \<and> bounded_text (approver (ri_actor r)) 256)
      then Inl ''invalid resolution owner or schema''
      else if \<not> (list_all operation_id_ok [ri_resolution_id r, ri_operation_id r]
                 \<and> bounded_text (ri_service_id r) 128 \<and> list_all target_id_ok [ri_machine_id r, ri_plugin_id r])
      then Inl ''invalid resolution identity''
      else if \<not> (is_digest (ri_operation_digest r) \<and> 0 < ri_expires_at_ms r)
      then Inl ''invalid resolution evidence or deadline''
      else Inr ())"

definition resolution_candidate :: "plugin_codec \<Rightarrow> resolution_intent \<Rightarrow> operation \<Rightarrow> bool" where
  "resolution_candidate cd r op =
     (case ri_action r of
        AbortBeforeEffects \<Rightarrow> can_abort_before_effects op
      | CompleteVerifiedRemoval \<Rightarrow>
          can_complete_removal op
        \<and> (case ri_machine_evidence r of
             None \<Rightarrow> False
           | Some ob \<Rightarrow> (case machine_step cd (op_intent op) of
                 Inl _ \<Rightarrow> False | Inr step \<Rightarrow> proves_removal cd ob step)))"

definition resolution_matches :: "plugin_codec \<Rightarrow> resolution_intent \<Rightarrow> operation \<Rightarrow> string + bool" where
  "resolution_matches cd r op =
     rbind (resolution_validate r) (\<lambda>_. Inr
       (resolution_candidate cd r op
        \<and> ri_operation_id r = ui_operation_id (op_intent op)
        \<and> ri_service_id r = ui_service_id (op_intent op)
        \<and> ri_machine_id r = ui_machine_id (op_intent op)
        \<and> ri_plugin_id r = ui_plugin_id (op_intent op)
        \<and> ri_before_updated_at_ms r = op_updated_at_ms op
        \<and> ri_operation_digest r = operation_digest cd op))"

text \<open>The fields \<open>ResolutionIntent::new\<close> and \<open>complete_removal\<close> copy from the operation.\<close>

definition resolution_of ::
    "plugin_codec \<Rightarrow> string \<Rightarrow> actor \<Rightarrow> operation \<Rightarrow> int \<Rightarrow> resolution_action \<Rightarrow> recovery_observation option
     \<Rightarrow> resolution_intent" where
  "resolution_of cd rid a op expires act evidence =
     \<lparr>ri_schema = 1, ri_resolution_id = rid, ri_operation_id = ui_operation_id (op_intent op),
      ri_service_id = ui_service_id (op_intent op), ri_machine_id = ui_machine_id (op_intent op),
      ri_plugin_id = ui_plugin_id (op_intent op), ri_actor = a, ri_action = act,
      ri_operation_digest = operation_digest cd op, ri_before_updated_at_ms = op_updated_at_ms op,
      ri_expires_at_ms = expires, ri_machine_evidence = evidence\<rparr>"

definition resolution_new ::
    "plugin_codec \<Rightarrow> string \<Rightarrow> actor \<Rightarrow> operation \<Rightarrow> int \<Rightarrow> string + resolution_intent" where
  "resolution_new cd rid a op expires =
     (if \<not> can_abort_before_effects op then Inl ''operation may already have effects''
      else rbind (intent_validate cd (op_intent op)) (\<lambda>_.
        let r = resolution_of cd rid a op expires AbortBeforeEffects None
        in rbind (resolution_validate r) (\<lambda>_. Inr r)))"

definition complete_removal ::
    "plugin_codec \<Rightarrow> string \<Rightarrow> actor \<Rightarrow> operation \<Rightarrow> int \<Rightarrow> recovery_observation \<Rightarrow> string + resolution_intent" where
  "complete_removal cd rid a op expires evidence =
     (if \<not> can_complete_removal op then Inl ''uninstall is not eligible for receipt completion''
      else rbind (intent_validate cd (op_intent op)) (\<lambda>_.
        let r = resolution_of cd rid a op expires CompleteVerifiedRemoval (Some evidence)
        in rbind (resolution_matches cd r op) (\<lambda>ok.
             if ok then Inr r else Inl ''Machine removal is not verified'')))"

record resolution_permit =
  rp_intent :: resolution_intent
  rp_budget :: operation_budget

definition within_budget :: "time_sample \<Rightarrow> resolution_permit \<Rightarrow> bool \<times> resolution_permit" where
  "within_budget s p =
     (let (expired, b) = check_at s (rp_budget p) in (\<not> expired, p\<lparr>rp_budget := b\<rparr>))"

record resolution_receipt =
  rr_intent :: resolution_intent
  rr_resolved_at_ms :: int

definition matches_completed :: "plugin_codec \<Rightarrow> resolution_receipt \<Rightarrow> operation \<Rightarrow> string + bool" where
  "matches_completed cd rr op =
     (if op_phase op \<noteq> terminal_phase (ri_action (rr_intent rr)) \<or> op_updated_at_ms op \<noteq> rr_resolved_at_ms rr
      then Inr False
      else resolution_matches cd (rr_intent rr)
             (op\<lparr>op_phase := NeedsAttention, op_updated_at_ms := ri_before_updated_at_ms (rr_intent rr)\<rparr>))"

section \<open>Facts about phases\<close>

lemma phase_str_inj [simp]: "phase_str p = phase_str q \<longleftrightarrow> p = q"
  by (cases p; cases q) simp_all

lemma phase_terminal_simps [simp]:
  "phase_terminal Completed" "phase_terminal Compensated" "phase_terminal Aborted" "\<not> phase_terminal Prepared"
  "\<not> phase_terminal StoppingSessions" "\<not> phase_terminal Uninstalling" "\<not> phase_terminal MachineUninstalled"
  "\<not> phase_terminal RestoringMachine" "\<not> phase_terminal RestoringSessions" "\<not> phase_terminal NeedsAttention"
  by (simp_all add: phase_terminal_def)

lemma permits_not_from_terminal: "phase_permits p q \<Longrightarrow> \<not> phase_terminal p \<and> p \<noteq> NeedsAttention"
  by (auto simp: phase_permits_def split: uninstall_phase.splits if_splits)

lemma resolution_matches_True:
  "resolution_matches cd r op = Inr True \<longleftrightarrow>
     resolution_validate r = Inr () \<and> resolution_candidate cd r op
   \<and> ri_operation_id r = ui_operation_id (op_intent op) \<and> ri_service_id r = ui_service_id (op_intent op)
   \<and> ri_machine_id r = ui_machine_id (op_intent op) \<and> ri_plugin_id r = ui_plugin_id (op_intent op)
   \<and> ri_before_updated_at_ms r = op_updated_at_ms op \<and> ri_operation_digest r = operation_digest cd op"
  by (auto simp: resolution_matches_def)

lemma candidate_needs_attention: "resolution_candidate cd r op \<Longrightarrow> op_phase op = NeedsAttention"
  by (auto simp: resolution_candidate_def can_abort_before_effects_def can_complete_removal_def
      split: resolution_action.splits)

lemma candidate_complete_no_sessions:
  "resolution_candidate cd r op \<Longrightarrow> ri_action r = CompleteVerifiedRemoval \<Longrightarrow> ui_session_ids (op_intent op) = []"
  by (simp add: resolution_candidate_def can_complete_removal_def)

lemma strictly_sorted_Cons: "strictly_sorted (a # xs) \<Longrightarrow> (\<forall>x \<in> set xs. a < x) \<and> strictly_sorted xs"
proof (induction xs arbitrary: a)
  case (Cons b xs)
  then have "a < b" "strictly_sorted (b # xs)" by simp_all
  then show ?case using Cons.IH [of b] by (auto intro: less_trans)
qed simp

lemma strictly_sorted_distinct: "strictly_sorted xs \<Longrightarrow> distinct xs"
  by (induction xs) (auto dest: strictly_sorted_Cons)

lemma intent_validate_sessions: "intent_validate cd i = Inr () \<Longrightarrow> distinct (ui_session_ids i)"
  by (auto simp: intent_validate_def strictly_sorted_distinct split: if_splits)

end
