(* ===== verification/Plugin_Journal.thy ===== *)
theory Plugin_Journal
  imports Plugin_Operation
begin

text \<open>
  The uninstall journal of the Service's database (\<^verbatim>\<open>src/src/store/plugin_operations.rs\<close>, the tables of
  migrations 0044 and 0045). Each operation is one transaction: it returns the new tables, or an error and
  leaves them as they were. A phase or problem column holds the value its text stands for; the intent column
  keeps its text, which every read decodes and checks. \<open>journal_step\<close> interleaves the transactions with the
  session and installation tables changing on their own.
\<close>

section \<open>Tables\<close>

record uninstall_row =
  rw_operation_id :: string
  rw_service_id :: string
  rw_machine_id :: string
  rw_plugin_id :: string
  rw_document :: string
  rw_sha256 :: string
  rw_phase :: uninstall_phase
  rw_problem :: "problem option"
  rw_cause :: "problem option"
  rw_attention_from :: "uninstall_phase option"
  rw_created_at_ms :: int
  rw_updated_at_ms :: int

record resolution_row =
  rz_operation_id :: string
  rz_resolution_id :: string
  rz_document :: string
  rz_sha256 :: string
  rz_resolved_at_ms :: int

datatype install_phase =
    InstallPrepared | SyncingAuthentication | Installing | MachineAcknowledged
  | InstallCompleted | AuthenticationPending | InstallAborted | InstallNeedsAttention

record install_row =
  ir_operation_id :: string
  ir_machine_id :: string
  ir_plugin_id :: string
  ir_phase :: install_phase

record session_row =
  sw_id :: string
  sw_machine_id :: string
  sw_provider :: string
  sw_deleted_at_ms :: "int option"
  sw_purge_after_at_ms :: "int option"

record plugin_store =
  ps_uninstalls :: "uninstall_row list"
  ps_resolutions :: "resolution_row list"
  ps_installs :: "install_row list"
  ps_staging_resolved :: "string list"
  ps_sessions :: "session_row list"

text \<open>\<open>UPDATE \<dots> WHERE P\<close> with \<open>rows_affected\<close>.\<close>

definition sql_update :: "('a \<Rightarrow> bool) \<Rightarrow> ('a \<Rightarrow> 'a) \<Rightarrow> 'a list \<Rightarrow> 'a list \<times> nat" where
  "sql_update P f rows = (map (\<lambda>r. if P r then f r else r) rows, length (filter P rows))"

section \<open>Reading\<close>

definition row_intent :: "plugin_codec \<Rightarrow> uninstall_row \<Rightarrow> string + uninstall_intent" where
  "row_intent cd r =
     (if MAX_INTENT_BYTES < length (rw_document r) then Inl ''uninstall intent exceeds its budget''
      else if rw_sha256 r \<noteq> cd_sha256 cd (rw_document r) then Inl ''uninstall intent digest mismatch''
      else rbind (ok_or (cd_intent_of_json cd (rw_document r)) ''invalid persisted uninstall intent'') (\<lambda>i.
           rbind (intent_validate cd i) (\<lambda>_.
             if ui_operation_id i = rw_operation_id r \<and> ui_service_id i = rw_service_id r
                \<and> ui_machine_id i = rw_machine_id r \<and> ui_plugin_id i = rw_plugin_id r
             then Inr i else Inl ''uninstall journal identity mismatch'')))"

definition operation_of :: "uninstall_intent \<Rightarrow> uninstall_row \<Rightarrow> operation" where
  "operation_of i r =
     \<lparr>op_intent = i, op_phase = rw_phase r, op_problem = rw_problem r, op_cause = rw_cause r,
      op_attention_from = rw_attention_from r, op_created_at_ms = rw_created_at_ms r,
      op_updated_at_ms = rw_updated_at_ms r\<rparr>"

definition decode_row :: "plugin_codec \<Rightarrow> uninstall_row \<Rightarrow> string + operation" where
  "decode_row cd r = rbind (row_intent cd r) (\<lambda>i. Inr (operation_of i r))"

definition decode_resolution :: "plugin_codec \<Rightarrow> resolution_row \<Rightarrow> string + resolution_receipt" where
  "decode_resolution cd r =
     (if MAX_RESOLUTION_BYTES < length (rz_document r) \<or> rz_sha256 r \<noteq> cd_sha256 cd (rz_document r)
      then Inl ''resolution evidence is invalid''
      else rbind (ok_or (cd_resolution_of_json cd (rz_document r)) ''invalid resolution intent'') (\<lambda>i.
           rbind (resolution_validate i) (\<lambda>_.
             if ri_operation_id i = rz_operation_id r \<and> ri_resolution_id i = rz_resolution_id r
                \<and> 0 < rz_resolved_at_ms r
             then Inr \<lparr>rr_intent = i, rr_resolved_at_ms = rz_resolved_at_ms r\<rparr>
             else Inl ''resolution identity is invalid'')))"

fun decode_rows :: "plugin_codec \<Rightarrow> uninstall_row list \<Rightarrow> string + operation list" where
  "decode_rows cd [] = Inr []"
| "decode_rows cd (r # rs) =
     rbind (decode_row cd r) (\<lambda>op. rbind (decode_rows cd rs) (\<lambda>ops. Inr (op # ops)))"

definition row_of :: "plugin_store \<Rightarrow> string \<Rightarrow> uninstall_row option" where
  "row_of st i = find (\<lambda>r. rw_operation_id r = i) (ps_uninstalls st)"

definition uninstall_operation :: "plugin_codec \<Rightarrow> string \<Rightarrow> plugin_store \<Rightarrow> string + operation option" where
  "uninstall_operation cd i st =
     (case row_of st i of
        None \<Rightarrow> Inr None
      | Some r \<Rightarrow> rbind (decode_row cd r) (\<lambda>op. Inr (Some op)))"

definition uninstall_resolution ::
    "plugin_codec \<Rightarrow> string \<Rightarrow> plugin_store \<Rightarrow> string + resolution_receipt option" where
  "uninstall_resolution cd i st =
     (case find (\<lambda>r. rz_operation_id r = i) (ps_resolutions st) of
        None \<Rightarrow> Inr None
      | Some r \<Rightarrow> rbind (decode_resolution cd r) (\<lambda>rr. Inr (Some rr)))"

section \<open>Opening an operation\<close>

definition install_open :: "plugin_store \<Rightarrow> string \<Rightarrow> string \<Rightarrow> bool" where
  "install_open st machine plugin =
     list_ex (\<lambda>r. ir_machine_id r = machine \<and> ir_plugin_id r = plugin
                 \<and> ir_phase r \<notin> {InstallCompleted, AuthenticationPending, InstallAborted}
                 \<and> ir_operation_id r \<notin> set (ps_staging_resolved st)) (ps_installs st)"

definition slot :: "uninstall_row \<Rightarrow> string \<times> string" where
  "slot r = (rw_machine_id r, rw_plugin_id r)"

definition row_open :: "uninstall_row \<Rightarrow> bool" where
  "row_open r \<longleftrightarrow> \<not> phase_terminal (rw_phase r)"

definition new_row :: "plugin_codec \<Rightarrow> uninstall_intent \<Rightarrow> int \<Rightarrow> uninstall_row" where
  "new_row cd i now =
     \<lparr>rw_operation_id = ui_operation_id i, rw_service_id = ui_service_id i, rw_machine_id = ui_machine_id i,
      rw_plugin_id = ui_plugin_id i, rw_document = cd_intent_json cd i,
      rw_sha256 = cd_sha256 cd (cd_intent_json cd i), rw_phase = Prepared, rw_problem = None, rw_cause = None,
      rw_attention_from = None, rw_created_at_ms = now, rw_updated_at_ms = now\<rparr>"

definition begin_uninstall ::
    "plugin_codec \<Rightarrow> int \<Rightarrow> int \<Rightarrow> uninstall_intent \<Rightarrow> plugin_store \<Rightarrow> string + plugin_store" where
  "begin_uninstall cd checked now i st =
     rbind (intent_validate cd i) (\<lambda>_.
       if ui_expires_at_ms i < checked then Inl ''uninstall approval expired''
       else if MAX_INTENT_BYTES < length (cd_intent_json cd i) then Inl ''uninstall intent exceeds its budget''
       else if \<not> length (ps_uninstalls st) < MAX_OPERATIONS \<or> install_open st (ui_machine_id i) (ui_plugin_id i)
       then Inl ''uninstall journal capacity exhausted; retained evidence requires review''
       else if row_of st (ui_operation_id i) \<noteq> None then Inl ''duplicate key: operation_id''
       else if list_ex (\<lambda>r. row_open r \<and> slot r = (ui_machine_id i, ui_plugin_id i)) (ps_uninstalls st)
       then Inl ''duplicate key: plugin_uninstall_open_slot''
       else Inr (st\<lparr>ps_uninstalls := ps_uninstalls st @ [new_row cd i now]\<rparr>))"

section \<open>Advancing an operation\<close>

definition advance_row :: "uninstall_phase \<Rightarrow> problem option \<Rightarrow> int \<Rightarrow> uninstall_row \<Rightarrow> uninstall_row" where
  "advance_row to pr now r =
     r\<lparr>rw_attention_from := (if to = NeedsAttention \<and> rw_phase r \<noteq> NeedsAttention then Some (rw_phase r)
                            else rw_attention_from r),
       rw_cause := (if to = RestoringMachine then pr else rw_cause r),
       rw_phase := to, rw_problem := pr, rw_updated_at_ms := now\<rparr>"

definition advance_uninstall ::
    "string \<Rightarrow> uninstall_phase \<Rightarrow> uninstall_phase \<Rightarrow> problem option \<Rightarrow> int \<Rightarrow> plugin_store \<Rightarrow> string + plugin_store" where
  "advance_uninstall i from to pr now st =
     (if \<not> (phase_permits from to \<and> to \<noteq> Completed) then Inl ''invalid uninstall transition''
      else let (rows, n) = sql_update (\<lambda>r. rw_operation_id r = i \<and> rw_phase r = from) (advance_row to pr now)
                             (ps_uninstalls st)
           in if n = 1 then Inr (st\<lparr>ps_uninstalls := rows\<rparr>)
              else Inl ''uninstall phase changed; reconcile the same operation'')"

section \<open>Committing the deletion\<close>

definition delete_session ::
    "uninstall_intent \<Rightarrow> int \<Rightarrow> string \<Rightarrow> session_row list \<Rightarrow> session_row list \<times> nat" where
  "delete_session i now s =
     sql_update (\<lambda>r. sw_id r = s \<and> sw_machine_id r = ui_machine_id i \<and> sw_provider r = ui_plugin_id i
                    \<and> sw_deleted_at_ms r = None)
       (\<lambda>r. r\<lparr>sw_deleted_at_ms := Some now, sw_purge_after_at_ms := Some (ui_purge_after_ms i)\<rparr>)"

fun delete_sessions ::
    "uninstall_intent \<Rightarrow> int \<Rightarrow> string list \<Rightarrow> session_row list \<Rightarrow> string + session_row list" where
  "delete_sessions i now [] rows = Inr rows"
| "delete_sessions i now (s # ss) rows =
     (let (rows', n) = delete_session i now s rows
      in if n = 1 then delete_sessions i now ss rows'
         else Inl ''uninstall session identity or deletion state changed'')"

definition commit_row :: "int \<Rightarrow> uninstall_row \<Rightarrow> uninstall_row" where
  "commit_row now r = r\<lparr>rw_phase := Completed, rw_problem := None, rw_updated_at_ms := now\<rparr>"

definition commit_uninstall ::
    "plugin_codec \<Rightarrow> int \<Rightarrow> int \<Rightarrow> uninstall_intent \<Rightarrow> plugin_store \<Rightarrow> string + plugin_store" where
  "commit_uninstall cd stamp now i st =
     (let (rows, n) = sql_update (\<lambda>r. rw_operation_id r = ui_operation_id i \<and> rw_phase r = MachineUninstalled)
                        (commit_row stamp) (ps_uninstalls st)
      in if n \<noteq> 1 then Inl ''uninstall completion precondition changed''
         else rbind (uninstall_operation cd (ui_operation_id i) (st\<lparr>ps_uninstalls := rows\<rparr>)) (\<lambda>saved.
                if map_option op_intent saved \<noteq> Some i then Inl ''uninstall intent changed before commit''
                else rbind (delete_sessions i now (ui_session_ids i) (ps_sessions st)) (\<lambda>sessions.
                       Inr (st\<lparr>ps_uninstalls := rows, ps_sessions := sessions\<rparr>))))"

section \<open>Recovery at startup\<close>

definition interrupt_row :: "int \<Rightarrow> uninstall_row \<Rightarrow> uninstall_row" where
  "interrupt_row now r =
     r\<lparr>rw_attention_from := Some (rw_phase r), rw_phase := NeedsAttention, rw_problem := Some Interrupted,
       rw_updated_at_ms := now\<rparr>"

definition interrupt_operation :: "int \<Rightarrow> operation \<Rightarrow> operation" where
  "interrupt_operation now op =
     (if op_phase op \<noteq> NeedsAttention
      then op\<lparr>op_attention_from := Some (op_phase op), op_phase := NeedsAttention,
              op_problem := Some Interrupted, op_updated_at_ms := now\<rparr>
      else op)"

definition recover_uninstalls ::
    "plugin_codec \<Rightarrow> string \<Rightarrow> int \<Rightarrow> plugin_store \<Rightarrow> string + operation list \<times> plugin_store" where
  "recover_uninstalls cd service now st =
     (let rows = take 4097 (filter row_open (ps_uninstalls st)) in
      if \<not> length rows \<le> MAX_OPERATIONS then Inl ''uninstall recovery budget exceeded''
      else rbind (decode_rows cd rows) (\<lambda>ops.
        if \<not> list_all (\<lambda>op. ui_service_id (op_intent op) = service) ops
        then Inl ''unfinished uninstall belongs to another Service''
        else Inr (map (interrupt_operation now) ops,
                  st\<lparr>ps_uninstalls :=
                       fst (sql_update (\<lambda>r. row_open r \<and> rw_phase r \<noteq> NeedsAttention) (interrupt_row now)
                              (ps_uninstalls st))\<rparr>)))"

section \<open>Resolving\<close>

definition resolution_row_of :: "plugin_codec \<Rightarrow> resolution_intent \<Rightarrow> int \<Rightarrow> resolution_row" where
  "resolution_row_of cd i now =
     \<lparr>rz_operation_id = ri_operation_id i, rz_resolution_id = ri_resolution_id i,
      rz_document = cd_resolution_json cd i, rz_sha256 = cd_sha256 cd (cd_resolution_json cd i),
      rz_resolved_at_ms = now\<rparr>"

definition resolve_row :: "uninstall_phase \<Rightarrow> int \<Rightarrow> uninstall_row \<Rightarrow> uninstall_row" where
  "resolve_row to now r = r\<lparr>rw_phase := to, rw_updated_at_ms := now\<rparr>"

definition resolve_uninstall ::
    "plugin_codec \<Rightarrow> time_sample \<Rightarrow> time_sample \<Rightarrow> time_sample \<Rightarrow> int \<Rightarrow> resolution_permit \<Rightarrow> plugin_store
     \<Rightarrow> string + resolution_receipt \<times> plugin_store" where
  "resolve_uninstall cd s1 s2 s3 now permit st =
     (let i = rp_intent permit in
      rbind (resolution_validate i) (\<lambda>_.
      let (open1, p1) = within_budget s1 permit in
      if \<not> open1 then Inl ''resolution approval expired''
      else if length (filter (\<lambda>r. rw_operation_id r = ri_operation_id i \<and> rw_phase r = NeedsAttention)
                       (ps_uninstalls st)) \<noteq> 1
      then Inl ''resolution phase changed''
      else rbind (uninstall_operation cd (ri_operation_id i) st) (\<lambda>found.
           case found of
             None \<Rightarrow> Inl ''no row''
           | Some before \<Rightarrow>
               rbind (resolution_matches cd i before) (\<lambda>ok.
               if \<not> ok then Inl ''resolution evidence changed''
               else let (open2, p2) = within_budget s2 p1 in
               if \<not> open2 then Inl ''resolution approval expired while waiting''
               else if MAX_RESOLUTION_BYTES < length (cd_resolution_json cd i)
               then Inl ''resolution evidence exceeds budget''
               else if list_ex (\<lambda>r. rz_operation_id r = ri_operation_id i \<or> rz_resolution_id r = ri_resolution_id i)
                         (ps_resolutions st)
               then Inl ''duplicate key: resolution''
               else let (rows, n) = sql_update (\<lambda>r. rw_operation_id r = ri_operation_id i)
                                      (resolve_row (terminal_phase (ri_action i)) now) (ps_uninstalls st) in
               if n \<noteq> 1 then Inl ''resolution completion was not persisted''
               else let (open3, p3) = within_budget s3 p2 in
               if \<not> open3 then Inl ''resolution approval expired before commit''
               else Inr (\<lparr>rr_intent = i, rr_resolved_at_ms = now\<rparr>,
                         st\<lparr>ps_uninstalls := rows,
                            ps_resolutions := ps_resolutions st @ [resolution_row_of cd i now]\<rparr>)))))"

section \<open>Interleaved transactions\<close>

inductive session_change :: "session_row list \<Rightarrow> session_row list \<Rightarrow> bool" where
  session_created: "s \<notin> sw_id ` set rows \<Longrightarrow>
     session_change rows (rows @ [\<lparr>sw_id = s, sw_machine_id = m, sw_provider = p, sw_deleted_at_ms = None,
                                   sw_purge_after_at_ms = None\<rparr>])"
| session_deleted: "session_change rows
     (map (\<lambda>r. if sw_id r = s \<and> sw_deleted_at_ms r = None
               then r\<lparr>sw_deleted_at_ms := Some now, sw_purge_after_at_ms := Some later\<rparr> else r) rows)"

inductive journal_step :: "plugin_codec \<Rightarrow> plugin_store \<Rightarrow> plugin_store \<Rightarrow> bool" for cd where
  step_begin: "begin_uninstall cd checked now i st = Inr st' \<Longrightarrow> journal_step cd st st'"
| step_advance: "advance_uninstall i from to pr now st = Inr st' \<Longrightarrow> journal_step cd st st'"
| step_commit: "commit_uninstall cd stamp now i st = Inr st' \<Longrightarrow> journal_step cd st st'"
| step_recover: "recover_uninstalls cd service now st = Inr (ops, st') \<Longrightarrow> journal_step cd st st'"
| step_resolve: "resolve_uninstall cd s1 s2 s3 now permit st = Inr (receipt, st') \<Longrightarrow> journal_step cd st st'"
| step_sessions: "session_change (ps_sessions st) rows \<Longrightarrow> journal_step cd st (st\<lparr>ps_sessions := rows\<rparr>)"
| step_installs: "journal_step cd st (st\<lparr>ps_installs := installs, ps_staging_resolved := resolved\<rparr>)"

inductive journal_reachable :: "plugin_codec \<Rightarrow> plugin_store \<Rightarrow> bool" for cd where
  reach_empty: "ps_uninstalls st = [] \<Longrightarrow> ps_resolutions st = []
     \<Longrightarrow> journal_reachable cd st"
| reach_step: "journal_reachable cd st \<Longrightarrow> journal_step cd st st' \<Longrightarrow> journal_reachable cd st'"

end
