(* ===== verification/Plugin_Safety.thy ===== *)
theory Plugin_Safety
  imports Plugin_Journal
begin

text \<open>
  What the uninstall journal guarantees whatever transactions are interleaved: how one row may move
  (\<open>moved\<close>), the invariant of the tables, that a finished operation is never touched again, that an operation
  that needs attention is closed only by evidence that matches it, and that a completed operation has left
  none of its sessions alive.
\<close>

section \<open>How a row moves\<close>

definition frozen :: "uninstall_row \<Rightarrow> string \<times> string \<times> string \<times> string \<times> string \<times> string \<times> int" where
  "frozen r = (rw_operation_id r, rw_service_id r, rw_machine_id r, rw_plugin_id r, rw_document r,
     rw_sha256 r, rw_created_at_ms r)"

definition session_deleted :: "session_row list \<Rightarrow> string \<Rightarrow> bool" where
  "session_deleted rows s \<longleftrightarrow> (\<exists>x \<in> set rows. sw_id x = s \<and> sw_deleted_at_ms x \<noteq> None)"

definition deleted_sessions_kept :: "session_row list \<Rightarrow> session_row list \<Rightarrow> bool" where
  "deleted_sessions_kept rows rows' \<longleftrightarrow> (\<forall>x \<in> set rows. sw_deleted_at_ms x \<noteq> None \<longrightarrow> x \<in> set rows')"

definition all_sessions_deleted :: "plugin_codec \<Rightarrow> plugin_store \<Rightarrow> uninstall_row \<Rightarrow> bool" where
  "all_sessions_deleted cd st r \<longleftrightarrow>
     (\<exists>i. row_intent cd r = Inr i \<and> list_all (session_deleted (ps_sessions st)) (ui_session_ids i))"

definition resolved_by :: "plugin_codec \<Rightarrow> plugin_store \<Rightarrow> uninstall_row \<Rightarrow> uninstall_row \<Rightarrow> bool" where
  "resolved_by cd st' r r' \<longleftrightarrow>
     (\<exists>i op t. decode_row cd r = Inr op \<and> resolution_matches cd i op = Inr True
        \<and> resolution_row_of cd i t \<in> set (ps_resolutions st')
        \<and> r' = resolve_row (terminal_phase (ri_action i)) t r)"

definition moved :: "plugin_codec \<Rightarrow> plugin_store \<Rightarrow> uninstall_row \<Rightarrow> uninstall_row \<Rightarrow> bool" where
  "moved cd st' r r' \<longleftrightarrow>
     frozen r' = frozen r
   \<and> (r' = r
      \<or> phase_permits (rw_phase r) (rw_phase r')
        \<and> (rw_phase r' = NeedsAttention \<longrightarrow> rw_attention_from r' = Some (rw_phase r))
        \<and> (rw_phase r' = Completed \<longrightarrow> all_sessions_deleted cd st' r)
      \<or> rw_phase r = NeedsAttention \<and> resolved_by cd st' r r')"

definition rows_moved :: "plugin_codec \<Rightarrow> plugin_store \<Rightarrow> plugin_store \<Rightarrow> bool" where
  "rows_moved cd st st' \<longleftrightarrow>
     (\<exists>g. ps_uninstalls st' = map g (ps_uninstalls st)
        \<and> list_all (\<lambda>r. moved cd st' r (g r)) (ps_uninstalls st)
        \<and> deleted_sessions_kept (ps_sessions st) (ps_sessions st'))"

definition admitted :: "plugin_codec \<Rightarrow> plugin_store \<Rightarrow> uninstall_intent \<Rightarrow> bool" where
  "admitted cd st i \<longleftrightarrow>
     intent_validate cd i = Inr () \<and> length (cd_intent_json cd i) \<le> MAX_INTENT_BYTES
   \<and> length (ps_uninstalls st) < MAX_OPERATIONS
   \<and> ui_operation_id i \<notin> rw_operation_id ` set (ps_uninstalls st)
   \<and> (\<forall>r \<in> set (ps_uninstalls st). row_open r \<longrightarrow> slot r \<noteq> (ui_machine_id i, ui_plugin_id i))"

lemma row_intent_frozen: "frozen r' = frozen r \<Longrightarrow> row_intent cd r' = row_intent cd r"
  by (simp add: frozen_def row_intent_def)

lemma frozen_slot: "frozen r' = frozen r \<Longrightarrow> slot r' = slot r"
  by (simp add: frozen_def slot_def)

lemma frozen_id: "frozen r' = frozen r \<Longrightarrow> rw_operation_id r' = rw_operation_id r"
  by (simp add: frozen_def)

lemma frozen_updates [simp]:
  "frozen (advance_row to pr now r) = frozen r" "frozen (commit_row now r) = frozen r"
  "frozen (interrupt_row now r) = frozen r" "frozen (resolve_row to now r) = frozen r"
  by (simp_all add: frozen_def advance_row_def commit_row_def interrupt_row_def resolve_row_def)

lemma moved_refl [simp]: "moved cd st r r"
  by (simp add: moved_def)

lemma rows_movedI:
  "ps_uninstalls st' = map g (ps_uninstalls st) \<Longrightarrow> (\<And>r. r \<in> set (ps_uninstalls st) \<Longrightarrow> moved cd st' r (g r))
     \<Longrightarrow> deleted_sessions_kept (ps_sessions st) (ps_sessions st') \<Longrightarrow> rows_moved cd st st'"
  by (auto simp: rows_moved_def list_all_iff)

lemma row_of_None: "row_of st i = None \<longleftrightarrow> i \<notin> rw_operation_id ` set (ps_uninstalls st)"
  by (auto simp: row_of_def find_None_iff)

lemma row_of_SomeD: "row_of st i = Some r \<Longrightarrow> r \<in> set (ps_uninstalls st) \<and> rw_operation_id r = i"
  by (auto simp: row_of_def find_Some_iff)

lemma deleted_kept_refl [simp]: "deleted_sessions_kept rows rows"
  by (simp add: deleted_sessions_kept_def)

lemma deleted_kept_trans: "deleted_sessions_kept a b \<Longrightarrow> deleted_sessions_kept b c \<Longrightarrow> deleted_sessions_kept a c"
  by (auto simp: deleted_sessions_kept_def)

lemma session_deleted_mono: "deleted_sessions_kept a b \<Longrightarrow> session_deleted a s \<Longrightarrow> session_deleted b s"
  by (auto simp: deleted_sessions_kept_def session_deleted_def)

lemma delete_session_kept: "deleted_sessions_kept rows (fst (delete_session i now s rows))"
  by (auto simp: deleted_sessions_kept_def delete_session_def sql_update_def intro!: rev_image_eqI)

lemma delete_session_done:
  assumes "snd (delete_session i now s rows) = 1"
  shows "session_deleted (fst (delete_session i now s rows)) s"
proof -
  let ?P = "\<lambda>r. sw_id r = s \<and> sw_machine_id r = ui_machine_id i \<and> sw_provider r = ui_plugin_id i
                \<and> sw_deleted_at_ms r = None"
  have "filter ?P rows \<noteq> []"
    using assms by (auto simp: delete_session_def sql_update_def)
  then obtain x where "x \<in> set rows" "?P x" by (auto simp: filter_empty_conv)
  then show ?thesis
    unfolding session_deleted_def
    by (intro bexI [of _ "x\<lparr>sw_deleted_at_ms := Some now, sw_purge_after_at_ms := Some (ui_purge_after_ms i)\<rparr>"])
      (auto simp: delete_session_def sql_update_def image_iff intro: rev_bexI [of x])
qed

lemma delete_sessions_kept:
  "delete_sessions i now ss rows = Inr rows' \<Longrightarrow> deleted_sessions_kept rows rows'"
proof (induction ss arbitrary: rows)
  case (Cons s ss)
  then have "deleted_sessions_kept (fst (delete_session i now s rows)) rows'"
    by (auto simp: Let_def split_beta split: if_splits)
  then show ?case using delete_session_kept deleted_kept_trans by blast
qed simp

lemma delete_sessions_done:
  "delete_sessions i now ss rows = Inr rows' \<Longrightarrow> list_all (session_deleted rows') ss"
proof (induction ss arbitrary: rows)
  case (Cons s ss)
  then have *: "snd (delete_session i now s rows) = 1"
      "delete_sessions i now ss (fst (delete_session i now s rows)) = Inr rows'"
    by (auto simp: Let_def split_beta split: if_splits)
  then have "session_deleted rows' s"
    using delete_session_done delete_sessions_kept session_deleted_mono by blast
  then show ?case using Cons.IH [OF *(2)] by simp
qed simp

section \<open>Every transaction moves rows\<close>

lemma begin_admitted:
  assumes "begin_uninstall cd checked now i st = Inr st'"
  shows "admitted cd st i \<and> st' = st\<lparr>ps_uninstalls := ps_uninstalls st @ [new_row cd i now]\<rparr>"
  using assms by (auto simp: begin_uninstall_def admitted_def row_of_None list_ex_iff Let_def split: if_splits)

lemma advance_moves:
  assumes "advance_uninstall i from to pr now st = Inr st'"
  shows "rows_moved cd st st'"
proof -
  let ?g = "\<lambda>r. if rw_operation_id r = i \<and> rw_phase r = from then advance_row to pr now r else r"
  have st': "st' = st\<lparr>ps_uninstalls := map ?g (ps_uninstalls st)\<rparr>" and p: "phase_permits from to" "to \<noteq> Completed"
    using assms by (auto simp: advance_uninstall_def sql_update_def Let_def split: if_splits)
  have "moved cd st' r (?g r)" for r
    using p permits_not_from_terminal [OF p(1)] by (auto simp: moved_def) (auto simp: advance_row_def)
  then show ?thesis using st' by (intro rows_movedI [of st' ?g]) simp_all
qed

definition commit_g :: "uninstall_intent \<Rightarrow> int \<Rightarrow> uninstall_row \<Rightarrow> uninstall_row" where
  "commit_g i stamp r =
     (if rw_operation_id r = ui_operation_id i \<and> rw_phase r = MachineUninstalled then commit_row stamp r else r)"

definition resolve_g :: "resolution_intent \<Rightarrow> int \<Rightarrow> uninstall_row \<Rightarrow> uninstall_row" where
  "resolve_g i now r =
     (if rw_operation_id r = ri_operation_id i then resolve_row (terminal_phase (ri_action i)) now r else r)"

lemma frozen_g [simp]: "frozen (commit_g i stamp r) = frozen r" "frozen (resolve_g j now r) = frozen r"
  by (simp_all add: commit_g_def resolve_g_def)

lemma commit_effect:
  assumes "commit_uninstall cd stamp now i st = Inr st'"
  obtains sessions q where
    "st' = st\<lparr>ps_uninstalls := map (commit_g i stamp) (ps_uninstalls st), ps_sessions := sessions\<rparr>"
    "delete_sessions i now (ui_session_ids i) (ps_sessions st) = Inr sessions"
    "length (filter (\<lambda>r. rw_operation_id r = ui_operation_id i \<and> rw_phase r = MachineUninstalled)
       (ps_uninstalls st)) = 1"
    "row_of (st\<lparr>ps_uninstalls := map (commit_g i stamp) (ps_uninstalls st)\<rparr>) (ui_operation_id i) = Some q"
    "row_intent cd q = Inr i"
  using assms
  by (auto simp: commit_uninstall_def sql_update_def uninstall_operation_def decode_row_def operation_of_def Let_def
      commit_g_def [abs_def] split: if_splits option.splits)

text \<open>Primary keys make the row a read returns the row an update touches.\<close>

lemma row_of_unique:
  "distinct (map rw_operation_id (ps_uninstalls st)) \<Longrightarrow> r \<in> set (ps_uninstalls st) \<Longrightarrow>
     row_of st (rw_operation_id r) = Some r"
proof -
  assume d: "distinct (map rw_operation_id (ps_uninstalls st))" and r: "r \<in> set (ps_uninstalls st)"
  obtain q where q: "row_of st (rw_operation_id r) = Some q"
    using r row_of_None [of st "rw_operation_id r"] by (cases "row_of st (rw_operation_id r)") auto
  then have "q = r" using row_of_SomeD [OF q] r d by (auto simp: distinct_map dest: inj_onD)
  then show ?thesis using q by simp
qed

lemma find_map_same: "(\<And>r. P (g r) = P r) \<Longrightarrow> find P (map g xs) = map_option g (find P xs)"
  by (induction xs) auto

lemma row_of_map:
  "(\<And>r. rw_operation_id (g r) = rw_operation_id r) \<Longrightarrow>
     row_of (st\<lparr>ps_uninstalls := map g (ps_uninstalls st)\<rparr>) i = map_option g (row_of st i)"
  by (simp add: row_of_def find_map_same)

lemma commit_moves:
  assumes c: "commit_uninstall cd stamp now i st = Inr st'"
    and d: "distinct (map rw_operation_id (ps_uninstalls st))"
  shows "rows_moved cd st st'"
proof -
  let ?g = "commit_g i stamp"
  obtain sessions q where st': "st' = st\<lparr>ps_uninstalls := map ?g (ps_uninstalls st), ps_sessions := sessions\<rparr>"
      and del: "delete_sessions i now (ui_session_ids i) (ps_sessions st) = Inr sessions"
      and q: "row_of (st\<lparr>ps_uninstalls := map ?g (ps_uninstalls st)\<rparr>) (ui_operation_id i) = Some q"
      and qi: "row_intent cd q = Inr i"
    using c by (rule commit_effect)
  have idg: "rw_operation_id (?g r) = rw_operation_id r" for r by (rule frozen_id) simp
  have "moved cd st' r (?g r)" if r: "r \<in> set (ps_uninstalls st)" for r
  proof (cases "rw_operation_id r = ui_operation_id i \<and> rw_phase r = MachineUninstalled")
    case True
    then have "row_of st (ui_operation_id i) = Some r" using row_of_unique [OF d r] by simp
    then have "q = ?g r" using q row_of_map [of ?g st "ui_operation_id i", OF idg] by simp
    then have "row_intent cd r = Inr i" using qi row_intent_frozen [OF frozen_g(1)] by metis
    then have "all_sessions_deleted cd st' r"
      using delete_sessions_done [OF del] by (simp add: all_sessions_deleted_def st')
    then show ?thesis using True by (simp add: moved_def phase_permits_def) (simp add: commit_g_def commit_row_def)
  next
    case False
    then show ?thesis by (auto simp: commit_g_def)
  qed
  then show ?thesis using st' delete_sessions_kept [OF del] by (intro rows_movedI [of st' ?g]) simp_all
qed

lemma recover_moves:
  assumes "recover_uninstalls cd service now st = Inr (ops, st')"
  shows "rows_moved cd st st'"
proof -
  let ?g = "\<lambda>r. if row_open r \<and> rw_phase r \<noteq> NeedsAttention then interrupt_row now r else r"
  have st': "st' = st\<lparr>ps_uninstalls := map ?g (ps_uninstalls st)\<rparr>"
    using assms by (auto simp: recover_uninstalls_def sql_update_def Let_def split: if_splits)
  have "moved cd st' r (?g r)" for r
    by (auto simp: moved_def phase_permits_def row_open_def) (auto simp: interrupt_row_def)
  then show ?thesis using st' by (intro rows_movedI [of st' ?g]) simp_all
qed

lemma resolve_effect:
  assumes "resolve_uninstall cd s1 s2 s3 now permit st = Inr (receipt, st')"
  obtains op where
    "uninstall_operation cd (ri_operation_id (rp_intent permit)) st = Inr (Some op)"
    "resolution_matches cd (rp_intent permit) op = Inr True"
    "receipt = \<lparr>rr_intent = rp_intent permit, rr_resolved_at_ms = now\<rparr>"
    "st' = st\<lparr>ps_uninstalls := map (resolve_g (rp_intent permit) now) (ps_uninstalls st),
              ps_resolutions := ps_resolutions st @ [resolution_row_of cd (rp_intent permit) now]\<rparr>"
    "length (cd_resolution_json cd (rp_intent permit)) \<le> MAX_RESOLUTION_BYTES"
  using assms
  by (auto simp: resolve_uninstall_def sql_update_def Let_def split_beta resolve_g_def [abs_def]
      split: if_splits option.splits)

lemma resolve_moves:
  assumes c: "resolve_uninstall cd s1 s2 s3 now permit st = Inr (receipt, st')"
    and d: "distinct (map rw_operation_id (ps_uninstalls st))"
  shows "rows_moved cd st st'"
proof -
  let ?i = "rp_intent permit" and ?g = "resolve_g (rp_intent permit) now"
  obtain op where op: "uninstall_operation cd (ri_operation_id ?i) st = Inr (Some op)"
      and ok: "resolution_matches cd ?i op = Inr True"
      and st': "st' = st\<lparr>ps_uninstalls := map ?g (ps_uninstalls st),
                  ps_resolutions := ps_resolutions st @ [resolution_row_of cd ?i now]\<rparr>"
    using c by (rule resolve_effect)
  have "moved cd st' r (?g r)" if r: "r \<in> set (ps_uninstalls st)" for r
  proof (cases "rw_operation_id r = ri_operation_id ?i")
    case True
    then have dec: "decode_row cd r = Inr op"
      using op row_of_unique [OF d r] by (auto simp: uninstall_operation_def)
    then have "op_phase op = rw_phase r" by (auto simp: decode_row_def operation_of_def)
    then have "rw_phase r = NeedsAttention"
      using ok candidate_needs_attention by (auto simp: resolution_matches_True)
    moreover have "resolved_by cd st' r (?g r)"
      unfolding resolved_by_def using dec ok True
      by (intro exI [of _ ?i] exI [of _ op] exI [of _ now]) (simp add: st' resolve_g_def)
    ultimately show ?thesis by (simp add: moved_def)
  next
    case False
    then show ?thesis by (simp add: resolve_g_def)
  qed
  then show ?thesis using st' by (intro rows_movedI [of st' ?g]) simp_all
qed

section \<open>The invariant of the tables\<close>

definition row_inv :: "plugin_codec \<Rightarrow> plugin_store \<Rightarrow> uninstall_row \<Rightarrow> bool" where
  "row_inv cd st r \<longleftrightarrow>
     is_ok (row_intent cd r)
   \<and> (rw_phase r = Completed \<longrightarrow> all_sessions_deleted cd st r)
   \<and> (rw_phase r = NeedsAttention \<longrightarrow>
        (\<exists>p. rw_attention_from r = Some p \<and> \<not> phase_terminal p \<and> p \<noteq> NeedsAttention))"

definition journal_inv :: "plugin_codec \<Rightarrow> plugin_store \<Rightarrow> bool" where
  "journal_inv cd st \<longleftrightarrow>
     distinct (map rw_operation_id (ps_uninstalls st))
   \<and> distinct (map slot (filter row_open (ps_uninstalls st)))
   \<and> length (ps_uninstalls st) \<le> MAX_OPERATIONS
   \<and> list_all (row_inv cd st) (ps_uninstalls st)"

text \<open>\<open>serde_json\<close> reads back an intent, or a resolution, whose text is within the budget of its column.\<close>

definition codec_faithful :: "plugin_codec \<Rightarrow> bool" where
  "codec_faithful cd \<longleftrightarrow>
     (\<forall>i. length (cd_intent_json cd i) \<le> MAX_INTENT_BYTES \<longrightarrow> cd_intent_of_json cd (cd_intent_json cd i) = Some i)
   \<and> (\<forall>r. length (cd_resolution_json cd r) \<le> MAX_RESOLUTION_BYTES \<longrightarrow>
        cd_resolution_of_json cd (cd_resolution_json cd r) = Some r)"

lemma session_change_kept: "session_change rows rows' \<Longrightarrow> deleted_sessions_kept rows rows'"
  by (induction rule: session_change.induct) (auto simp: deleted_sessions_kept_def intro!: rev_image_eqI)

lemma rows_moved_id:
  "ps_uninstalls st' = ps_uninstalls st \<Longrightarrow> deleted_sessions_kept (ps_sessions st) (ps_sessions st') \<Longrightarrow>
     rows_moved cd st st'"
  unfolding rows_moved_def by (intro exI [of _ id]) (simp add: list_all_iff)

lemma journal_step_cases:
  assumes "journal_step cd st st'" and d: "distinct (map rw_operation_id (ps_uninstalls st))"
  shows "(\<exists>i now. admitted cd st i \<and> st' = st\<lparr>ps_uninstalls := ps_uninstalls st @ [new_row cd i now]\<rparr>)
       \<or> rows_moved cd st st'"
  using assms(1)
proof cases
  case (step_begin checked now i)
  then show ?thesis using begin_admitted by blast
next
  case (step_advance i "from" to pr now)
  then show ?thesis using advance_moves by blast
next
  case (step_commit stamp now i)
  then show ?thesis using commit_moves d by blast
next
  case (step_recover service now ops)
  then show ?thesis using recover_moves by blast
next
  case (step_resolve s1 s2 s3 now permit receipt)
  then show ?thesis using resolve_moves d by blast
next
  case (step_sessions rows)
  then show ?thesis by (intro disjI2 rows_moved_id) (simp_all add: session_change_kept)
next
  case (step_installs installs resolved)
  then show ?thesis by (intro disjI2 rows_moved_id) simp_all
qed

lemma all_sessions_deleted_mono:
  "all_sessions_deleted cd st r \<Longrightarrow> frozen r' = frozen r \<Longrightarrow> deleted_sessions_kept (ps_sessions st) (ps_sessions st') \<Longrightarrow>
     all_sessions_deleted cd st' r'"
  using row_intent_frozen [of r' r cd]
  by (auto simp: all_sessions_deleted_def list_all_iff intro: session_deleted_mono)

lemma moved_open: "moved cd st r r' \<Longrightarrow> row_open r' \<Longrightarrow> row_open r"
  by (auto simp: moved_def row_open_def dest: permits_not_from_terminal)

lemma terminal_phase_terminal [simp]: "phase_terminal (terminal_phase a)"
  by (cases a) simp_all

lemma resolved_completed:
  assumes "resolved_by cd st' r r'" "rw_phase r' = Completed"
  shows "all_sessions_deleted cd st' r"
proof -
  obtain i op where dec: "decode_row cd r = Inr op" and m: "resolution_candidate cd i op"
      and t: "terminal_phase (ri_action i) = Completed"
    using assms by (auto simp: resolved_by_def resolution_matches_True resolve_row_def)
  have "ri_action i = CompleteVerifiedRemoval" using t by (cases "ri_action i") simp_all
  then have "ui_session_ids (op_intent op) = []" using m by (rule candidate_complete_no_sessions [rotated])
  then show ?thesis using dec by (auto simp: decode_row_def operation_of_def all_sessions_deleted_def)
qed

lemma moved_row_inv:
  assumes m: "moved cd st' r r'" and inv: "row_inv cd st r"
    and keep: "deleted_sessions_kept (ps_sessions st) (ps_sessions st')"
  shows "row_inv cd st' r'"
proof -
  have f: "frozen r' = frozen r" using m by (simp add: moved_def)
  consider "r' = r"
    | "phase_permits (rw_phase r) (rw_phase r')" "rw_phase r' = NeedsAttention \<longrightarrow> rw_attention_from r' = Some (rw_phase r)"
      "rw_phase r' = Completed \<longrightarrow> all_sessions_deleted cd st' r"
    | "resolved_by cd st' r r'"
    using m by (auto simp: moved_def)
  then show ?thesis
  proof cases
    case 1
    then show ?thesis using inv all_sessions_deleted_mono [OF _ refl keep] by (auto simp: row_inv_def)
  next
    case 2
    then show ?thesis
      using inv permits_not_from_terminal [OF 2(1)] all_sessions_deleted_mono [OF _ f deleted_kept_refl]
      by (auto simp: row_inv_def row_intent_frozen [OF f])
  next
    case 3
    have "phase_terminal (rw_phase r')" using 3 by (auto simp: resolved_by_def resolve_row_def)
    then have "rw_phase r' \<noteq> NeedsAttention" by auto
    then show ?thesis
      using inv resolved_completed [OF 3] all_sessions_deleted_mono [OF _ f deleted_kept_refl]
      by (auto simp: row_inv_def row_intent_frozen [OF f])
  qed
qed

lemma distinct_filter_map:
  assumes "distinct (map k (filter P xs))" "\<And>x. x \<in> set xs \<Longrightarrow> P (g x) \<Longrightarrow> P x" "\<And>x. x \<in> set xs \<Longrightarrow> k (g x) = k x"
  shows "distinct (map k (filter P (map g xs)))"
  using assms
proof (induction xs)
  case (Cons x xs)
  have IH: "distinct (map k (filter P (map g xs)))" using Cons by (auto split: if_splits)
  show ?case
  proof (cases "P (g x)")
    case True
    then have px: "P x" using Cons.prems by auto
    have "k (g x) \<noteq> k (g y)" if "y \<in> set xs" "P (g y)" for y
    proof -
      have "P y" "k (g y) = k y" using that Cons.prems by auto
      then have "k x \<noteq> k y" using Cons.prems(1) px that(1) by auto
      then show ?thesis using \<open>k (g y) = k y\<close> Cons.prems(3) by auto
    qed
    then show ?thesis using True IH by auto
  next
    case False
    then show ?thesis using IH by simp
  qed
qed simp

lemma row_intent_new:
  assumes "codec_faithful cd" "admitted cd st i"
  shows "row_intent cd (new_row cd i now) = Inr i"
  using assms by (auto simp: codec_faithful_def admitted_def row_intent_def new_row_def)

lemma journal_step_inv:
  assumes step: "journal_step cd st st'" and inv: "journal_inv cd st" and cd: "codec_faithful cd"
  shows "journal_inv cd st'"
proof -
  have d: "distinct (map rw_operation_id (ps_uninstalls st))" using inv by (simp add: journal_inv_def)
  from journal_step_cases [OF step d] show ?thesis
  proof (elim disjE exE conjE)
    fix i now assume a: "admitted cd st i" and st': "st' = st\<lparr>ps_uninstalls := ps_uninstalls st @ [new_row cd i now]\<rparr>"
    have "list_all (row_inv cd st') (ps_uninstalls st')"
      using inv row_intent_new [OF cd a, of now]
      by (auto simp: st' journal_inv_def list_all_iff row_inv_def all_sessions_deleted_def new_row_def)
    then show ?thesis
      using inv a by (auto simp: st' journal_inv_def admitted_def new_row_def slot_def)
  next
    assume "rows_moved cd st st'"
    then obtain g where g: "ps_uninstalls st' = map g (ps_uninstalls st)"
        and m: "\<And>r. r \<in> set (ps_uninstalls st) \<Longrightarrow> moved cd st' r (g r)"
        and keep: "deleted_sessions_kept (ps_sessions st) (ps_sessions st')"
      by (auto simp: rows_moved_def list_all_iff)
    have f: "frozen (g r) = frozen r" if "r \<in> set (ps_uninstalls st)" for r
      using m [OF that] by (simp add: moved_def)
    have "map rw_operation_id (ps_uninstalls st') = map rw_operation_id (ps_uninstalls st)"
      using frozen_id [OF f] by (simp add: g)
    then have "distinct (map rw_operation_id (ps_uninstalls st'))" using d by metis
    moreover have "distinct (map slot (filter row_open (map g (ps_uninstalls st))))"
      using inv by (intro distinct_filter_map) (auto simp: journal_inv_def intro: moved_open [OF m] frozen_slot [OF f])
    moreover have "list_all (row_inv cd st') (ps_uninstalls st')"
      using inv moved_row_inv [OF m _ keep] by (auto simp: g list_all_iff journal_inv_def)
    ultimately show ?thesis using inv by (simp add: journal_inv_def g)
  qed
qed

lemma reachable_inv: "journal_reachable cd st \<Longrightarrow> codec_faithful cd \<Longrightarrow> journal_inv cd st"
  by (induction rule: journal_reachable.induct) (simp add: journal_inv_def, blast intro: journal_step_inv)

section \<open>A concrete codec and journal\<close>

definition demo_sha :: string where
  "demo_sha = SHA_PREFIX @ replicate 64 (CHR ''a'')"

definition demo_intent :: uninstall_intent where
  "demo_intent =
     \<lparr>ui_schema = 1, ui_operation_id = ''operation-0000001'', ui_service_id = ''service'',
      ui_actor = Product ''user'', ui_machine_id = ''hawk'', ui_plugin_id = ''victoria'',
      ui_plugin_version = ''1.1.0'', ui_generation_digest = demo_sha, ui_installation_revision = None,
      ui_contract_fingerprint = demo_sha, ui_session_ids = [''s1'', ''s2''],
      ui_active_session_ids = [], ui_live_session_ids = [''s2''], ui_purge_after_ms = 2000,
      ui_expires_at_ms = 1000\<rparr>"

definition demo_decision :: resolution_intent where
  "demo_decision =
     \<lparr>ri_schema = 1, ri_resolution_id = ''resolution-0000001'', ri_operation_id = ''operation-0000001'',
      ri_service_id = ''service'', ri_machine_id = ''hawk'', ri_plugin_id = ''victoria'',
      ri_actor = Admin ''root'', ri_action = AbortBeforeEffects, ri_operation_digest = demo_sha,
      ri_before_updated_at_ms = 9, ri_expires_at_ms = 500, ri_machine_evidence = None\<rparr>"

definition demo_codec :: plugin_codec where
  "demo_codec =
     \<lparr>cd_sha256 = (\<lambda>s. replicate 64 (CHR ''a'')), cd_version_ok = (\<lambda>v. v \<noteq> []), cd_time_ok = (\<lambda>t. 0 \<le> t),
      cd_step_json = us_operation_id,
      cd_intent_json = (\<lambda>i. if i = demo_intent then ''demo'' else replicate (Suc MAX_INTENT_BYTES) (CHR ''x'')),
      cd_intent_of_json = (\<lambda>s. if s = ''demo'' then Some demo_intent else None),
      cd_operation_json = (\<lambda>op. phase_str (op_phase op)),
      cd_resolution_json = (\<lambda>r. if r = demo_decision then ''decision''
                                  else replicate (Suc MAX_RESOLUTION_BYTES) (CHR ''x'')),
      cd_resolution_of_json = (\<lambda>s. if s = ''decision'' then Some demo_decision else None)\<rparr>"

definition demo_store :: plugin_store where
  "demo_store =
     \<lparr>ps_uninstalls = [], ps_resolutions = [], ps_installs = [], ps_staging_resolved = [],
      ps_sessions = map (\<lambda>s. \<lparr>sw_id = s, sw_machine_id = ''hawk'', sw_provider = ''victoria'',
                             sw_deleted_at_ms = None, sw_purge_after_at_ms = None\<rparr>) [''s1'', ''s2'']\<rparr>"

definition demo_open :: plugin_store where
  "demo_open = demo_store\<lparr>ps_uninstalls := [new_row demo_codec demo_intent 7]\<rparr>"

lemma demo_faithful: "codec_faithful demo_codec"
  by (simp add: codec_faithful_def demo_codec_def)

lemma demo_valid: "intent_validate demo_codec demo_intent = Inr ()"
  by code_simp

lemma demo_intent_id [simp]: "ui_operation_id demo_intent = ''operation-0000001''"
  by (simp add: demo_intent_def)

lemma demo_json [simp]: "cd_intent_json demo_codec demo_intent = ''demo''"
  by (simp add: demo_codec_def)

lemma demo_begin: "begin_uninstall demo_codec 7 7 demo_intent demo_store = Inr demo_open"
  by (simp add: begin_uninstall_def demo_valid demo_open_def demo_store_def install_open_def row_of_def
      MAX_INTENT_BYTES_def MAX_OPERATIONS_def) (simp add: demo_intent_def)

lemma demo_reachable: "journal_reachable demo_codec demo_open"
proof (rule reach_step)
  show "journal_reachable demo_codec demo_store" by (rule reach_empty) (simp_all add: demo_store_def)
  show "journal_step demo_codec demo_store demo_open" using demo_begin by (rule step_begin)
qed

definition demo_row :: "uninstall_phase \<Rightarrow> problem option \<Rightarrow> uninstall_phase option \<Rightarrow> int \<Rightarrow> uninstall_row" where
  "demo_row ph pr att now =
     (new_row demo_codec demo_intent 7)\<lparr>rw_phase := ph, rw_problem := pr, rw_attention_from := att, rw_updated_at_ms := now\<rparr>"

definition demo_at :: "uninstall_phase \<Rightarrow> problem option \<Rightarrow> uninstall_phase option \<Rightarrow> int \<Rightarrow> plugin_store" where
  "demo_at ph pr att now = demo_store\<lparr>ps_uninstalls := [demo_row ph pr att now]\<rparr>"

lemma demo_row_id [simp]: "rw_operation_id (demo_row ph pr att now) = ''operation-0000001''"
  by (simp add: demo_row_def new_row_def)

lemma demo_row_phase [simp]: "rw_phase (demo_row ph pr att now) = ph" "rw_attention_from (demo_row ph pr att now) = att"
  by (simp_all add: demo_row_def)

lemma demo_open_at: "demo_open = demo_at Prepared None None 7"
  by (simp add: demo_open_def demo_at_def demo_row_def new_row_def)

lemma demo_row_of [simp]: "row_of (demo_at ph pr att now) ''operation-0000001'' = Some (demo_row ph pr att now)"
  by (simp add: row_of_def demo_at_def)

lemma demo_advance:
  "phase_permits ph to \<Longrightarrow> to \<noteq> Completed \<Longrightarrow> to \<noteq> RestoringMachine \<Longrightarrow> to \<noteq> NeedsAttention \<Longrightarrow>
     advance_uninstall ''operation-0000001'' ph to p later (demo_at ph pr att now) = Inr (demo_at to p att later)"
  by (simp add: advance_uninstall_def sql_update_def demo_at_def advance_row_def demo_row_def new_row_def)

lemma demo_advance_reachable:
  assumes "journal_reachable demo_codec (demo_at ph pr att now)" "phase_permits ph to" "to \<noteq> Completed"
    "to \<noteq> RestoringMachine" "to \<noteq> NeedsAttention"
  shows "journal_reachable demo_codec (demo_at to p att later)"
  using assms by (blast intro: reach_step step_advance demo_advance)

lemma demo_at_machine: "journal_reachable demo_codec (demo_at MachineUninstalled None None 7)"
proof -
  have "journal_reachable demo_codec (demo_at StoppingSessions None None 7)"
    by (rule demo_advance_reachable [OF demo_reachable [unfolded demo_open_at]]) (simp_all add: phase_permits_def)
  then have "journal_reachable demo_codec (demo_at Uninstalling None None 7)"
    by (rule demo_advance_reachable) (simp_all add: phase_permits_def)
  then show ?thesis
    by (rule demo_advance_reachable) (simp_all add: phase_permits_def)
qed

lemma demo_row_intent [simp]: "row_intent demo_codec (demo_row ph pr att now) = Inr demo_intent"
proof -
  have "row_intent demo_codec (new_row demo_codec demo_intent 7) = Inr demo_intent"
    using reachable_inv [OF demo_reachable demo_faithful] demo_begin
    by (intro row_intent_new [OF demo_faithful, of demo_store]) (auto dest: begin_admitted)
  moreover have "frozen (demo_row ph pr att now) = frozen (new_row demo_codec demo_intent 7)"
    by (simp add: demo_row_def frozen_def)
  ultimately show ?thesis using row_intent_frozen by metis
qed

definition demo_done_at :: "int \<Rightarrow> plugin_store" where
  "demo_done_at t =
     (demo_at Completed None None t)\<lparr>ps_sessions :=
        map (\<lambda>s. \<lparr>sw_id = s, sw_machine_id = ''hawk'', sw_provider = ''victoria'',
                  sw_deleted_at_ms = Some t, sw_purge_after_at_ms = Some 2000\<rparr>) [''s1'', ''s2'']\<rparr>"

definition demo_done :: plugin_store where
  "demo_done = demo_done_at 9"

lemma demo_commit: "commit_uninstall demo_codec t t demo_intent (demo_at MachineUninstalled None None 7) = Inr (demo_done_at t)"
proof -
  have "commit_row t (demo_row MachineUninstalled None None 7) = demo_row Completed None None t"
    by (simp add: commit_row_def demo_row_def)
  moreover have "delete_sessions demo_intent t (ui_session_ids demo_intent) (ps_sessions (demo_at MachineUninstalled None None 7))
      = Inr (ps_sessions (demo_done_at t))"
    by (simp add: demo_at_def demo_done_at_def demo_store_def demo_intent_def delete_session_def sql_update_def)
  ultimately show ?thesis
    by (simp add: commit_uninstall_def sql_update_def demo_at_def demo_done_at_def uninstall_operation_def row_of_def
        decode_row_def operation_of_def)
qed

lemma demo_done_reachable: "journal_reachable demo_codec demo_done"
  unfolding demo_done_def using demo_at_machine demo_commit by (blast intro: reach_step step_commit)

section \<open>Properties\<close>

lemma row_of_kept:
  assumes "journal_step cd st st'" "journal_inv cd st" "codec_faithful cd" "row_of st i = Some r"
  shows "\<exists>r'. row_of st' i = Some r' \<and> moved cd st' r r'"
proof -
  have d: "distinct (map rw_operation_id (ps_uninstalls st))" using assms(2) by (simp add: journal_inv_def)
  have d': "distinct (map rw_operation_id (ps_uninstalls st'))"
    using journal_step_inv [OF assms(1-3)] by (simp add: journal_inv_def)
  have r: "r \<in> set (ps_uninstalls st)" "rw_operation_id r = i" using row_of_SomeD [OF assms(4)] by auto
  from journal_step_cases [OF assms(1) d] obtain r' where r': "r' \<in> set (ps_uninstalls st')" "moved cd st' r r'"
  proof (elim disjE exE conjE)
    fix j now assume that: "\<And>r'. r' \<in> set (ps_uninstalls st') \<Longrightarrow> moved cd st' r r' \<Longrightarrow> thesis"
      and "st' = st\<lparr>ps_uninstalls := ps_uninstalls st @ [new_row cd j now]\<rparr>"
    then show thesis using r(1) by (intro that [of r]) simp_all
  next
    assume that: "\<And>r'. r' \<in> set (ps_uninstalls st') \<Longrightarrow> moved cd st' r r' \<Longrightarrow> thesis" and "rows_moved cd st st'"
    then show thesis using r(1) by (fastforce simp: rows_moved_def list_all_iff)
  qed
  have "rw_operation_id r' = i" using r'(2) r(2) by (auto simp: moved_def dest: frozen_id)
  then show ?thesis using row_of_unique [OF d' r'(1)] r'(2) by auto
qed

lemma moved_terminal: "moved cd st r r' \<Longrightarrow> phase_terminal (rw_phase r) \<Longrightarrow> r' = r"
  by (auto simp: moved_def dest: permits_not_from_terminal)

text \<open>C16: A finished uninstall is final: once an operation is completed, compensated or aborted, no transaction
  of the journal, no restart and no resolution ever changes its record again.\<close>

theorem finished_uninstall_is_final:
  assumes "journal_reachable cd st" "codec_faithful cd"
    and "(journal_step cd)\<^sup>*\<^sup>* st st'" and "row_of st i = Some r" and "phase_terminal (rw_phase r)"
  shows "row_of st' i = Some r"
proof -
  have "journal_inv cd st' \<and> row_of st' i = Some r"
    using assms(3)
  proof (induction rule: rtranclp_induct)
    case base
    then show ?case using reachable_inv [OF assms(1,2)] assms(4) by simp
  next
    case (step y z)
    then show ?case
      using row_of_kept [OF step(2) _ assms(2)] journal_step_inv [OF step(2) _ assms(2)]
        moved_terminal [OF _ assms(5)] by blast
  qed
  then show ?thesis ..
qed

theorem finished_uninstall_is_final_witness:
  "row_of (demo_done\<lparr>ps_installs := [], ps_staging_resolved := []\<rparr>) ''operation-0000001''
     = Some (demo_row Completed None None 9)"
  by (rule finished_uninstall_is_final [OF demo_done_reachable demo_faithful])
    (auto simp: demo_done_def demo_done_at_def row_of_def demo_at_def intro: step_installs)

text \<open>At most one uninstall of a Plugin on a Machine is open at any time, and the journal never outgrows
  its capacity.\<close>

theorem one_open_uninstall_per_slot:
  assumes "journal_reachable cd st" "codec_faithful cd"
  shows "distinct (map slot (filter row_open (ps_uninstalls st))) \<and> length (ps_uninstalls st) \<le> 4096"
  using reachable_inv [OF assms] by (simp add: journal_inv_def MAX_OPERATIONS_def)

theorem one_open_uninstall_per_slot_witness:
  "distinct (map slot (filter row_open (ps_uninstalls demo_open))) \<and> length (ps_uninstalls demo_open) \<le> 4096"
  by (rule one_open_uninstall_per_slot [OF demo_reachable demo_faithful])

lemma completed_left_no_session:
  assumes "journal_reachable cd st" "codec_faithful cd" "row_of st i = Some r" "rw_phase r = Completed"
  shows "\<exists>op. uninstall_operation cd i st = Inr (Some op)
           \<and> list_all (session_deleted (ps_sessions st)) (ui_session_ids (op_intent op))"
proof -
  have "row_inv cd st r"
    using reachable_inv [OF assms(1,2)] row_of_SomeD [OF assms(3)] by (auto simp: journal_inv_def list_all_iff)
  then show ?thesis
    using assms(3,4) by (auto simp: row_inv_def all_sessions_deleted_def uninstall_operation_def decode_row_def operation_of_def)
qed

text \<open>A completed uninstall has left none of its sessions alive: whichever path completed it, the commit
  of the coordinator or a verified resolution, every session of the approved intent is deleted in the same
  database, and its stored intent still decodes to what was approved.\<close>

theorem completed_uninstall_left_no_session:
  assumes "journal_reachable cd st" "codec_faithful cd" "row_of st i = Some r" "rw_phase r = Completed"
  shows "\<exists>op. uninstall_operation cd i st = Inr (Some op)
           \<and> list_all (session_deleted (ps_sessions st)) (ui_session_ids (op_intent op))"
  using assms by (rule completed_left_no_session)

theorem completed_uninstall_left_no_session_witness:
  "\<exists>op. uninstall_operation demo_codec ''operation-0000001'' demo_done = Inr (Some op)
      \<and> list_all (session_deleted (ps_sessions demo_done)) (ui_session_ids (op_intent op))"
  by (rule completed_uninstall_left_no_session [OF demo_done_reachable demo_faithful])
    (auto simp: demo_done_def demo_done_at_def row_of_def demo_at_def)

text \<open>C15: An uninstall that needs attention is left only by a decision stored beside it and matching it
  exactly: either nothing had been done, so it is aborted, or the Machine's own receipt says the step was
  applied and the exact installation is gone, so it is completed.\<close>

theorem attention_closed_only_by_evidence:
  assumes "journal_reachable cd st" "codec_faithful cd" "journal_step cd st st'"
    and "row_of st i = Some r" "rw_phase r = NeedsAttention" and "row_of st' i \<noteq> Some r"
  shows "\<exists>op decision t. decode_row cd r = Inr op \<and> resolution_matches cd decision op = Inr True
           \<and> resolution_row_of cd decision t \<in> set (ps_resolutions st')
           \<and> row_of st' i = Some (resolve_row (terminal_phase (ri_action decision)) t r)
           \<and> (case ri_action decision of
                AbortBeforeEffects \<Rightarrow> rw_attention_from r = Some Prepared
              | CompleteVerifiedRemoval \<Rightarrow>
                  (\<exists>step sn receipt. machine_step cd (op_intent op) = Inr step
                     \<and> ri_machine_evidence decision = Some (Observed sn) \<and> rs_receipt sn = Some receipt
                     \<and> receipt_matches cd receipt step \<and> sr_outcome receipt = Applied))"
proof -
  obtain r' where r': "row_of st' i = Some r'" "moved cd st' r r'"
    using row_of_kept [OF assms(3) reachable_inv [OF assms(1,2)] assms(2,4)] by blast
  have "resolved_by cd st' r r'"
    using r' assms(5,6) by (auto simp: moved_def dest: permits_not_from_terminal)
  then obtain decision op t where dec: "decode_row cd r = Inr op" and m: "resolution_matches cd decision op = Inr True"
      and t: "resolution_row_of cd decision t \<in> set (ps_resolutions st')"
      and eq: "r' = resolve_row (terminal_phase (ri_action decision)) t r"
    by (auto simp: resolved_by_def)
  have att: "op_attention_from op = rw_attention_from r"
    using dec by (auto simp: decode_row_def operation_of_def)
  have "case ri_action decision of
          AbortBeforeEffects \<Rightarrow> rw_attention_from r = Some Prepared
        | CompleteVerifiedRemoval \<Rightarrow>
            (\<exists>step sn receipt. machine_step cd (op_intent op) = Inr step
               \<and> ri_machine_evidence decision = Some (Observed sn) \<and> rs_receipt sn = Some receipt
               \<and> receipt_matches cd receipt step \<and> sr_outcome receipt = Applied)"
    using m att
    by (auto simp: resolution_matches_True resolution_candidate_def can_abort_before_effects_def
        matching_removal_exact_iff split: resolution_action.splits option.splits sum.splits)
  then show ?thesis using dec m t eq r'(1) by blast
qed

lemma demo_recover:
  "recover_uninstalls demo_codec ''service'' 9 demo_open
     = Inr ([operation_of demo_intent (demo_row NeedsAttention (Some Interrupted) (Some Prepared) 9)],
            demo_at NeedsAttention (Some Interrupted) (Some Prepared) 9)"
proof -
  have "decode_row demo_codec (demo_row Prepared None None 7) = Inr (operation_of demo_intent (demo_row Prepared None None 7))"
    by (simp add: decode_row_def)
  moreover have "interrupt_row 9 (demo_row Prepared None None 7) = demo_row NeedsAttention (Some Interrupted) (Some Prepared) 9"
    by (simp add: interrupt_row_def demo_row_def)
  moreover have "interrupt_operation 9 (operation_of demo_intent (demo_row Prepared None None 7))
      = operation_of demo_intent (demo_row NeedsAttention (Some Interrupted) (Some Prepared) 9)"
    by (simp add: interrupt_operation_def operation_of_def demo_row_def new_row_def)
  moreover have "ui_service_id demo_intent = ''service''" by (simp add: demo_intent_def)
  ultimately show ?thesis
    unfolding demo_open_at
    by (simp add: recover_uninstalls_def demo_at_def sql_update_def row_open_def MAX_OPERATIONS_def)
      (simp add: operation_of_def sql_update_def row_open_def)
qed

lemma demo_attention_reachable:
  "journal_reachable demo_codec (demo_at NeedsAttention (Some Interrupted) (Some Prepared) 9)"
  using demo_reachable demo_recover by (blast intro: reach_step step_recover)

definition demo_permit :: resolution_permit where
  "demo_permit = \<lparr>rp_intent = demo_decision,
     rp_budget = new_budget 500 5000000000 \<lparr>ts_monotonic = 7, ts_wall_ms = 400\<rparr>\<rparr>"

definition demo_sample :: time_sample where
  "demo_sample = \<lparr>ts_monotonic = 8, ts_wall_ms = 450\<rparr>"

definition demo_resolved :: plugin_store where
  "demo_resolved =
     (demo_at Aborted (Some Interrupted) (Some Prepared) 11)
       \<lparr>ps_resolutions := [resolution_row_of demo_codec demo_decision 11]\<rparr>"

lemma demo_decision_valid: "resolution_validate demo_decision = Inr ()"
  by code_simp

lemma demo_decision_matches:
  "resolution_matches demo_codec demo_decision
     (operation_of demo_intent (demo_row NeedsAttention (Some Interrupted) (Some Prepared) 9)) = Inr True"
  unfolding resolution_matches_True
  by (simp add: demo_decision_valid)
    (simp add: resolution_candidate_def can_abort_before_effects_def operation_of_def demo_decision_def demo_row_def
      new_row_def operation_digest_def digest_def demo_sha_def demo_codec_def demo_intent_def)

lemma demo_budget_open:
  "within_budget demo_sample demo_permit = (True, demo_permit\<lparr>rp_budget := snd (check_at demo_sample (rp_budget demo_permit))\<rparr>)"
  "within_budget demo_sample (demo_permit\<lparr>rp_budget := snd (check_at demo_sample (rp_budget demo_permit))\<rparr>)
     = (True, demo_permit\<lparr>rp_budget := snd (check_at demo_sample (rp_budget demo_permit))\<rparr>)"
  by (simp_all add: within_budget_def demo_permit_def demo_sample_def new_budget_def check_at_def i64_sub_def
      i64_max_def i64_min_def NANOS_PER_MS_def)

lemma demo_resolution_step:
  "resolve_uninstall demo_codec demo_sample demo_sample demo_sample 11 demo_permit
      (demo_at NeedsAttention (Some Interrupted) (Some Prepared) 9)
   = Inr (\<lparr>rr_intent = demo_decision, rr_resolved_at_ms = 11\<rparr>, demo_resolved)"
proof -
  have "uninstall_operation demo_codec ''operation-0000001'' (demo_at NeedsAttention (Some Interrupted) (Some Prepared) 9)
      = Inr (Some (operation_of demo_intent (demo_row NeedsAttention (Some Interrupted) (Some Prepared) 9)))"
    by (simp add: uninstall_operation_def decode_row_def)
  moreover have "rp_intent demo_permit = demo_decision" by (simp add: demo_permit_def)
  moreover have "ri_operation_id demo_decision = ''operation-0000001''" "ri_action demo_decision = AbortBeforeEffects"
    by (simp_all add: demo_decision_def)
  moreover have "length (cd_resolution_json demo_codec demo_decision) \<le> MAX_RESOLUTION_BYTES"
    by (simp add: demo_codec_def MAX_RESOLUTION_BYTES_def)
  moreover have "resolve_row Aborted 11 (demo_row NeedsAttention (Some Interrupted) (Some Prepared) 9)
      = demo_row Aborted (Some Interrupted) (Some Prepared) 11"
    by (simp add: resolve_row_def demo_row_def)
  ultimately show ?thesis
    by (simp add: resolve_uninstall_def demo_decision_valid demo_decision_matches demo_budget_open Let_def
        demo_at_def demo_store_def sql_update_def)
      (simp add: demo_decision_matches demo_budget_open sql_update_def demo_resolved_def demo_at_def demo_store_def)
qed

theorem attention_closed_only_by_evidence_witness:
  "\<exists>op decision t. decode_row demo_codec (demo_row NeedsAttention (Some Interrupted) (Some Prepared) 9) = Inr op
     \<and> resolution_matches demo_codec decision op = Inr True
     \<and> resolution_row_of demo_codec decision t \<in> set (ps_resolutions demo_resolved)
     \<and> row_of demo_resolved ''operation-0000001''
         = Some (resolve_row (terminal_phase (ri_action decision)) t
                   (demo_row NeedsAttention (Some Interrupted) (Some Prepared) 9))"
proof -
  have "row_of demo_resolved ''operation-0000001'' \<noteq> Some (demo_row NeedsAttention (Some Interrupted) (Some Prepared) 9)"
    by (simp add: demo_resolved_def demo_at_def row_of_def) (simp add: demo_row_def new_row_def)
  from attention_closed_only_by_evidence [OF demo_attention_reachable demo_faithful
      step_resolve [OF demo_resolution_step] demo_row_of _ this]
  show ?thesis by (simp only: demo_row_phase) blast
qed

lemma decode_rows_ok:
  "list_all (\<lambda>r. is_ok (row_intent cd r)) rows \<Longrightarrow>
     \<exists>ops. decode_rows cd rows = Inr ops
       \<and> list_all2 (\<lambda>op r. row_intent cd r = Inr (op_intent op) \<and> op = operation_of (op_intent op) r) ops rows"
  by (induction rows) (auto simp: is_ok_iff decode_row_def operation_of_def)

lemma recovery_total:
  assumes "journal_reachable cd st" "codec_faithful cd"
    and "list_all (\<lambda>r. rw_service_id r = service) (filter row_open (ps_uninstalls st))"
  shows "\<exists>ops st'. recover_uninstalls cd service now st = Inr (ops, st')
           \<and> list_all2 (\<lambda>op r. (ui_machine_id (op_intent op), ui_plugin_id (op_intent op)) = slot r
                \<and> op_phase op = NeedsAttention) ops (filter row_open (ps_uninstalls st))
           \<and> list_all (\<lambda>r. rw_phase r = NeedsAttention) (filter row_open (ps_uninstalls st'))
           \<and> map slot (filter row_open (ps_uninstalls st')) = map slot (filter row_open (ps_uninstalls st))"
proof -
  let ?rows = "filter row_open (ps_uninstalls st)"
  have inv: "journal_inv cd st" using assms(1,2) by (rule reachable_inv)
  have len: "length ?rows \<le> MAX_OPERATIONS"
    using inv le_trans [OF length_filter_le] by (auto simp: journal_inv_def)
  then have take: "take 4097 ?rows = ?rows" by (simp add: MAX_OPERATIONS_def)
  have "list_all (\<lambda>r. is_ok (row_intent cd r)) ?rows"
    using inv by (auto simp: journal_inv_def list_all_iff row_inv_def)
  then obtain ops where ops: "decode_rows cd ?rows = Inr ops"
      and rel: "list_all2 (\<lambda>op r. row_intent cd r = Inr (op_intent op) \<and> op = operation_of (op_intent op) r) ops ?rows"
    using decode_rows_ok by blast
  have names: "row_intent cd r = Inr i \<Longrightarrow> ui_service_id i = rw_service_id r
      \<and> (ui_machine_id i, ui_plugin_id i) = slot r" for r i
    by (auto simp: row_intent_def slot_def split: if_splits)
  have service: "list_all (\<lambda>op. ui_service_id (op_intent op) = service) ops"
    using rel assms(3) names by (fastforce simp: list_all2_conv_all_nth list_all_length)
  have slots: "list_all2 (\<lambda>op r. (ui_machine_id (op_intent op), ui_plugin_id (op_intent op)) = slot r
      \<and> op_phase op = NeedsAttention) (map (interrupt_operation now) ops) ?rows"
    using rel names
    by (simp add: list_all2_map1) (erule list_all2_mono, auto simp: interrupt_operation_def)
  let ?st = "st\<lparr>ps_uninstalls := fst (sql_update (\<lambda>r. row_open r \<and> rw_phase r \<noteq> NeedsAttention) (interrupt_row now)
      (ps_uninstalls st))\<rparr>"
  have "recover_uninstalls cd service now st = Inr (map (interrupt_operation now) ops, ?st)"
    using len take ops service by (simp add: recover_uninstalls_def)
  moreover have "list_all (\<lambda>r. rw_phase r = NeedsAttention) (filter row_open (ps_uninstalls ?st))"
    by (auto simp: list_all_iff sql_update_def interrupt_row_def)
  moreover have "map slot (filter row_open (map (\<lambda>r. if row_open r \<and> rw_phase r \<noteq> NeedsAttention
      then interrupt_row now r else r) rows)) = map slot (filter row_open rows)" for rows
    by (induction rows) (auto simp: row_open_def interrupt_row_def slot_def)
  ultimately show ?thesis using slots by (auto simp: sql_update_def)
qed

text \<open>Recovery at startup finds every uninstall that was left open and leaves none running: the scan
  never exceeds its budget, every open record decodes, and afterwards all of them need attention.\<close>

theorem recovery_finds_every_open_uninstall:
  assumes "journal_reachable cd st" "codec_faithful cd"
    and "list_all (\<lambda>r. rw_service_id r = service) (filter row_open (ps_uninstalls st))"
  shows "\<exists>ops st'. recover_uninstalls cd service now st = Inr (ops, st')
           \<and> list_all2 (\<lambda>op r. (ui_machine_id (op_intent op), ui_plugin_id (op_intent op)) = slot r
                \<and> op_phase op = NeedsAttention) ops (filter row_open (ps_uninstalls st))
           \<and> list_all (\<lambda>r. rw_phase r = NeedsAttention) (filter row_open (ps_uninstalls st'))
           \<and> map slot (filter row_open (ps_uninstalls st')) = map slot (filter row_open (ps_uninstalls st))"
  using assms by (rule recovery_total)

theorem recovery_finds_every_open_uninstall_witness:
  "\<exists>ops st'. recover_uninstalls demo_codec ''service'' 9 demo_open = Inr (ops, st')
     \<and> list_all2 (\<lambda>op r. (ui_machine_id (op_intent op), ui_plugin_id (op_intent op)) = slot r
          \<and> op_phase op = NeedsAttention) ops (filter row_open (ps_uninstalls demo_open))
     \<and> list_all (\<lambda>r. rw_phase r = NeedsAttention) (filter row_open (ps_uninstalls st'))
     \<and> map slot (filter row_open (ps_uninstalls st')) = map slot (filter row_open (ps_uninstalls demo_open))"
  by (rule recovery_finds_every_open_uninstall [OF demo_reachable demo_faithful])
    (simp add: demo_open_def new_row_def demo_intent_def)

end
