(* ===== verification/Plugin_Uninstall.thy ===== *)
theory Plugin_Uninstall
  imports Plugin_Safety
begin

text \<open>
  The Service's uninstall coordinator (\<^verbatim>\<open>src/components/server/src/server/plugin_uninstall.rs\<close>): the slot
  fence held in memory, the admission checks, \<open>execute\<close> and its compensation, the admitted run, and the
  recovery of the fences at startup. A program is a function of the world: the journal, the fences, a clock
  tick and the trace of what was done. What the code asks of its surroundings (the wall clock, the operator's
  authority, workers, the Machine, the database) is answered by functions of the tick, so that every
  sequence of answers is covered; a database call may fail before its commit or lose the answer of a commit
  that succeeded.
\<close>

section \<open>The world\<close>

datatype fence_state = FenceInstalling | FenceUninstalling | FenceUninstalled | FenceNeedsReconcile

datatype uninstall_effect = StopSession string | UninstallOnMachine | ReactivateOnMachine | ReloadSession string

datatype trace_entry = Checked bool | Did uninstall_effect "uninstall_phase option"

datatype database_fault = NoFault | FailsBefore | AnswerLost

datatype command_failure = NotSent | CommandRejected | OutcomeUnknown

record uninstall_world =
  uw_store :: plugin_store
  uw_fences :: "string \<times> string \<Rightarrow> fence_state option"
  uw_tick :: nat
  uw_trace :: "trace_entry list"

record surroundings =
  sr_codec :: plugin_codec
  sr_now :: "nat \<Rightarrow> int"
  sr_fault :: "nat \<Rightarrow> database_fault"
  sr_authorized :: "nat \<Rightarrow> bool"
  sr_stop :: "string \<Rightarrow> nat \<Rightarrow> bool"
  sr_reload :: "string \<Rightarrow> nat \<Rightarrow> bool"
  sr_uninstall :: "uninstall_intent \<Rightarrow> nat \<Rightarrow> command_failure + unit"
  sr_reactivate :: "uninstall_intent \<Rightarrow> nat \<Rightarrow> command_failure + unit"

type_synonym 'a prog = "surroundings \<Rightarrow> uninstall_world \<Rightarrow> (string + 'a) \<times> uninstall_world"

definition return :: "'a \<Rightarrow> 'a prog" where
  "return x env w = (Inr x, w)"

definition fail :: "string \<Rightarrow> 'a prog" where
  "fail e env w = (Inl e, w)"

definition bind :: "'a prog \<Rightarrow> ('a \<Rightarrow> 'b prog) \<Rightarrow> 'b prog" where
  "bind m k env w = (case m env w of (Inl e, w') \<Rightarrow> (Inl e, w') | (Inr x, w') \<Rightarrow> k x env w')"

text \<open>The result of a call as a value, for a caller that handles its error.\<close>

definition catching :: "'a prog \<Rightarrow> (string + 'a) prog" where
  "catching m env w = (case m env w of (r, w') \<Rightarrow> (Inr r, w'))"

definition now_ms :: "int prog" where
  "now_ms env w = (Inr (sr_now env (uw_tick w)), w\<lparr>uw_tick := Suc (uw_tick w)\<rparr>)"

definition transaction :: "(plugin_codec \<Rightarrow> int \<Rightarrow> plugin_store \<Rightarrow> string + plugin_store) \<Rightarrow> unit prog" where
  "transaction tx env w =
     (let w' = w\<lparr>uw_tick := Suc (uw_tick w)\<rparr>; fault = sr_fault env (uw_tick w) in
      if fault = FailsBefore then (Inl ''database unavailable'', w')
      else case tx (sr_codec env) (sr_now env (uw_tick w)) (uw_store w) of
        Inl e \<Rightarrow> (Inl e, w')
      | Inr st \<Rightarrow> ((if fault = AnswerLost then Inl ''commit answer lost'' else Inr ()), w'\<lparr>uw_store := st\<rparr>))"

definition read_operation :: "string \<Rightarrow> operation option prog" where
  "read_operation i env w =
     (let w' = w\<lparr>uw_tick := Suc (uw_tick w)\<rparr> in
      if sr_fault env (uw_tick w) \<noteq> NoFault then (Inl ''database unavailable'', w')
      else (uninstall_operation (sr_codec env) i (uw_store w), w'))"

definition advance :: "uninstall_intent \<Rightarrow> uninstall_phase \<Rightarrow> uninstall_phase \<Rightarrow> problem option \<Rightarrow> unit prog" where
  "advance i from to pr = transaction (\<lambda>cd now. advance_uninstall (ui_operation_id i) from to pr now)"

definition authorized :: "uninstall_intent \<Rightarrow> bool prog" where
  "authorized i env w =
     (let b = sr_authorized env (uw_tick w)
      in (Inr b, w\<lparr>uw_tick := Suc (uw_tick w), uw_trace := Checked b # uw_trace w\<rparr>))"

definition perform :: "uninstall_intent \<Rightarrow> uninstall_effect \<Rightarrow> (surroundings \<Rightarrow> nat \<Rightarrow> 'a) \<Rightarrow> 'a prog" where
  "perform i e answer env w =
     (Inr (answer env (uw_tick w)),
      w\<lparr>uw_tick := Suc (uw_tick w),
        uw_trace := Did e (map_option rw_phase (row_of (uw_store w) (ui_operation_id i))) # uw_trace w\<rparr>)"

section \<open>Live effects\<close>

text \<open>\<open>require_applied_step\<close> and the effects of the deployed coordinator on the Machine: what the
  connection answers is \<open>reply\<close>.\<close>

fun require_applied_step :: "step_lookup \<Rightarrow> command_failure + unit" where
  "require_applied_step (Found receipt) = (case sr_outcome receipt of
       Applied \<Rightarrow> Inr () | Rejected _ \<Rightarrow> Inl CommandRejected | Unknown _ \<Rightarrow> Inl OutcomeUnknown)"
| "require_applied_step NotFound = Inl OutcomeUnknown"
| "require_applied_step (LookupUnavailable _) = Inl OutcomeUnknown"

definition live_uninstall ::
    "plugin_codec \<Rightarrow> (nat \<Rightarrow> command_failure + step_lookup) \<Rightarrow> uninstall_intent \<Rightarrow> nat \<Rightarrow> command_failure + unit" where
  "live_uninstall cd reply i t =
     (case machine_step cd i of
        Inl _ \<Rightarrow> Inl NotSent
      | Inr step \<Rightarrow> rbind (reply t) require_applied_step)"

definition live_reactivate :: "uninstall_intent \<Rightarrow> nat \<Rightarrow> command_failure + unit" where
  "live_reactivate i t = Inl NotSent"

definition deployed :: "(nat \<Rightarrow> command_failure + step_lookup) \<Rightarrow> surroundings \<Rightarrow> surroundings" where
  "deployed reply env =
     env\<lparr>sr_uninstall := live_uninstall (sr_codec env) reply, sr_reactivate := live_reactivate\<rparr>"

section \<open>Execution\<close>

definition to_attention :: "uninstall_intent \<Rightarrow> uninstall_phase \<Rightarrow> problem \<Rightarrow> uninstall_phase prog" where
  "to_attention i from pr = bind (advance i from NeedsAttention (Some pr)) (\<lambda>_. return NeedsAttention)"

text \<open>\<open>now_ms() > expires || !authorized\<close>, the second asked only when the first is false.\<close>

definition stale :: "uninstall_intent \<Rightarrow> bool prog" where
  "stale i = bind now_ms (\<lambda>now.
     if now > ui_expires_at_ms i then return True else bind (authorized i) (\<lambda>ok. return (\<not> ok)))"

text \<open>The loops stop at the first session that fails: \<open>False\<close> leads to the attention of the caller.\<close>

fun reload_sessions :: "uninstall_intent \<Rightarrow> string list \<Rightarrow> bool prog" where
  "reload_sessions i [] = return True"
| "reload_sessions i (s # ss) = bind (authorized i) (\<lambda>ok.
     if \<not> ok then return False
     else bind (perform i (ReloadSession s) (\<lambda>env. sr_reload env s)) (\<lambda>ok.
       if \<not> ok then return False else reload_sessions i ss))"

fun stop_sessions :: "uninstall_intent \<Rightarrow> string list \<Rightarrow> bool prog" where
  "stop_sessions i [] = return True"
| "stop_sessions i (s # ss) = bind (authorized i) (\<lambda>ok.
     if \<not> ok then return False
     else bind (perform i (StopSession s) (\<lambda>env. sr_stop env s)) (\<lambda>stopped.
       if stopped \<noteq> (s \<in> set (ui_live_session_ids i)) then return False else stop_sessions i ss))"

definition reactivate :: "uninstall_intent \<Rightarrow> bool prog" where
  "reactivate i = bind (stale i) (\<lambda>old.
     if old then return False
     else bind (perform i ReactivateOnMachine (\<lambda>env. sr_reactivate env i)) (\<lambda>r. return (is_ok r)))"

definition committed_after_all :: "uninstall_intent \<Rightarrow> uninstall_phase prog" where
  "committed_after_all i =
     bind (read_operation (ui_operation_id i)) (\<lambda>found.
       if (case found of None \<Rightarrow> False | Some op \<Rightarrow> op_phase op = Completed) then return Completed
       else fail ''uninstall compensation could not establish its durably precondition'')"

definition restore_sessions :: "uninstall_intent \<Rightarrow> problem \<Rightarrow> uninstall_phase prog" where
  "restore_sessions i cause =
     bind (advance i RestoringMachine RestoringSessions (Some cause)) (\<lambda>_.
     bind (reload_sessions i (ui_live_session_ids i)) (\<lambda>ok.
       if \<not> ok then to_attention i RestoringSessions CompensationFailed
       else if ui_live_session_ids i \<noteq> [] then to_attention i RestoringSessions WorkerRecoveryUnverified
       else bind (advance i RestoringSessions Compensated (Some cause)) (\<lambda>_. return Compensated)))"

definition compensate :: "uninstall_intent \<Rightarrow> uninstall_phase \<Rightarrow> problem \<Rightarrow> uninstall_phase prog" where
  "compensate i from cause =
     bind (catching (advance i from RestoringMachine (Some cause))) (\<lambda>r. case r of
       Inl _ \<Rightarrow> committed_after_all i
     | Inr _ \<Rightarrow> bind (reactivate i) (\<lambda>ok.
         if \<not> ok then to_attention i RestoringMachine CompensationFailed else restore_sessions i cause))"

definition commit :: "uninstall_intent \<Rightarrow> unit prog" where
  "commit i = bind now_ms (\<lambda>stamp. transaction (\<lambda>cd now. commit_uninstall cd stamp now i))"

definition execute :: "uninstall_intent \<Rightarrow> uninstall_phase prog" where
  "execute i =
     bind (stale i) (\<lambda>old.
     if old then bind (advance i Prepared Aborted (Some PreconditionsChanged)) (\<lambda>_. return Aborted)
     else bind (advance i Prepared StoppingSessions None) (\<lambda>_.
     bind (stop_sessions i (ui_session_ids i)) (\<lambda>stopped.
     if \<not> stopped then to_attention i StoppingSessions PreconditionsChanged
     else bind (advance i StoppingSessions Uninstalling None) (\<lambda>_.
     bind (authorized i) (\<lambda>ok.
     if \<not> ok then to_attention i Uninstalling PreconditionsChanged
     else bind (perform i UninstallOnMachine (\<lambda>env. sr_uninstall env i)) (\<lambda>r.
     case r of
       Inl CommandRejected \<Rightarrow> compensate i Uninstalling MachineRejected
     | Inl NotSent \<Rightarrow> to_attention i Uninstalling MachineUnavailable
     | Inl OutcomeUnknown \<Rightarrow> to_attention i Uninstalling UnknownMachineOutcome
     | Inr _ \<Rightarrow>
         bind (advance i Uninstalling MachineUninstalled None) (\<lambda>_.
         bind (stale i) (\<lambda>old.
         if old then to_attention i MachineUninstalled PreconditionsChanged
         else bind (catching (commit i)) (\<lambda>r. case r of
                Inr _ \<Rightarrow> return Completed
              | Inl _ \<Rightarrow> compensate i MachineUninstalled StorageFailure)))))))))"

section \<open>The fence\<close>

record operation_fence =
  fence_key :: "string \<times> string"
  fence_keep :: bool
  fence_finished :: bool

definition set_fence :: "string \<times> string \<Rightarrow> fence_state option \<Rightarrow> uninstall_world \<Rightarrow> uninstall_world" where
  "set_fence k v w = w\<lparr>uw_fences := (uw_fences w)(k := v)\<rparr>"

definition acquire :: "string \<times> string \<Rightarrow> uninstall_world \<Rightarrow> string + operation_fence \<times> uninstall_world" where
  "acquire k w =
     (if uw_fences w k \<noteq> None then Inl ''Plugin lifecycle is changing or requires reconciliation''
      else Inr (\<lparr>fence_key = k, fence_keep = False, fence_finished = False\<rparr>,
                set_fence k (Some FenceUninstalling) w))"

definition acquire_resolution ::
    "string \<times> string \<Rightarrow> uninstall_world \<Rightarrow> string + operation_fence \<times> uninstall_world" where
  "acquire_resolution k w =
     (if uw_fences w k \<noteq> Some FenceNeedsReconcile then Inl ''operation is not available for resolution''
      else Inr (\<lparr>fence_key = k, fence_keep = True, fence_finished = False\<rparr>,
                set_fence k (Some FenceUninstalling) w))"

definition fence_finish :: "uninstall_phase \<Rightarrow> operation_fence \<Rightarrow> uninstall_world \<Rightarrow> operation_fence \<times> uninstall_world" where
  "fence_finish p f w =
     (f\<lparr>fence_finished := True\<rparr>,
      set_fence (fence_key f)
        (case p of Completed \<Rightarrow> Some FenceUninstalled | Compensated \<Rightarrow> None | Aborted \<Rightarrow> None
         | _ \<Rightarrow> Some FenceNeedsReconcile) w)"

definition fence_drop :: "operation_fence \<Rightarrow> uninstall_world \<Rightarrow> uninstall_world" where
  "fence_drop f w =
     (if fence_finished f then w
      else set_fence (fence_key f) (if fence_keep f then Some FenceNeedsReconcile else None) w)"

section \<open>The admitted run\<close>

text \<open>What \<open>execute\<close> left when it failed: the durable phase, moved to attention unless it is final.\<close>

definition settle :: "uninstall_intent \<Rightarrow> uninstall_phase prog" where
  "settle i =
     bind (read_operation (ui_operation_id i)) (\<lambda>found. case found of
       None \<Rightarrow> fail ''uninstall journal unavailable''
     | Some op \<Rightarrow>
         if phase_terminal (op_phase op) \<or> op_phase op = NeedsAttention then return (op_phase op)
         else to_attention i (op_phase op) StorageFailure)"

definition admitted_phase :: "uninstall_intent \<Rightarrow> uninstall_phase prog" where
  "admitted_phase i =
     bind now_ms (\<lambda>checked.
     bind (transaction (\<lambda>cd now. begin_uninstall cd checked now i)) (\<lambda>_.
     bind (catching (execute i)) (\<lambda>r. case r of Inr p \<Rightarrow> return p | Inl _ \<Rightarrow> settle i)))"

datatype uninstall_response = UninstallDone "string list" | UninstallConflict

text \<open>\<open>admission\<close> is the outcome of everything before the intent is written: the approved intent, or the
  refusal of one of the checks (\<open>validate_intent\<close> below, the Machine's preflight, the authority).\<close>

definition run_admitted ::
    "surroundings \<Rightarrow> string + uninstall_intent \<Rightarrow> operation_fence \<Rightarrow> uninstall_world \<Rightarrow> uninstall_response \<times> uninstall_world" where
  "run_admitted env admission fence w =
     (case admission of
        Inl _ \<Rightarrow> (UninstallConflict, fence_drop fence w)
      | Inr i \<Rightarrow>
          let fence = fence\<lparr>fence_keep := True\<rparr> in
          case admitted_phase i env w of
            (Inl _, w') \<Rightarrow> (UninstallConflict, fence_drop fence w')
          | (Inr p, w') \<Rightarrow>
              let (fence, w'') = fence_finish p fence w'
              in (if p = Completed then UninstallDone (ui_session_ids i) else UninstallConflict,
                  fence_drop fence w''))"

section \<open>Startup\<close>

definition recover_fences ::
    "string + (string \<times> string) list \<Rightarrow> string + operation list \<Rightarrow> string + (string \<times> string \<Rightarrow> fence_state option)" where
  "recover_fences installs uninstalls =
     rbind installs (\<lambda>slots. rbind uninstalls (\<lambda>ops.
       Inr (fold (\<lambda>k m. m(k \<mapsto> FenceNeedsReconcile))
              (slots @ map (\<lambda>op. (ui_machine_id (op_intent op), ui_plugin_id (op_intent op))) ops) Map.empty)))"

end
