(* ===== verification/Plugin_Execution.thy ===== *)
theory Plugin_Execution
  imports Plugin_Uninstall
begin

text \<open>
  What the uninstall coordinator guarantees under every sequence of answers and database faults, proved with
  a small Hoare logic over the programs of \<open>Plugin_Uninstall\<close>: an effect happens only while the journal
  stands in the phase that announces it and right after a fresh authorization, the phase returned is the
  durable one, the Machine is asked at most once, and a slot is released only when its operation is final.
\<close>

section \<open>A Hoare logic of the programs\<close>

definition hoare ::
    "surroundings \<Rightarrow> (uninstall_world \<Rightarrow> bool) \<Rightarrow> 'a prog \<Rightarrow> ('a \<Rightarrow> uninstall_world \<Rightarrow> bool) \<Rightarrow> (uninstall_world \<Rightarrow> bool) \<Rightarrow> bool" where
  "hoare env P m Q E \<longleftrightarrow>
     (\<forall>w. P w \<longrightarrow> (case m env w of (Inr x, w') \<Rightarrow> Q x w' | (Inl e, w') \<Rightarrow> E w'))"

lemma hoareI:
  "(\<And>w x w'. P w \<Longrightarrow> m env w = (Inr x, w') \<Longrightarrow> Q x w') \<Longrightarrow>
   (\<And>w e w'. P w \<Longrightarrow> m env w = (Inl e, w') \<Longrightarrow> E w') \<Longrightarrow> hoare env P m Q E"
  by (simp add: hoare_def split: prod.splits sum.splits)

lemma hoareD:
  "hoare env P m Q E \<Longrightarrow> P w \<Longrightarrow> m env w = (Inr x, w') \<Longrightarrow> Q x w'"
  "hoare env P m Q E \<Longrightarrow> P w \<Longrightarrow> m env w = (Inl e, w') \<Longrightarrow> E w'"
  by (simp_all add: hoare_def) force+

lemma hoare_return: "(\<And>w. P w \<Longrightarrow> Q x w) \<Longrightarrow> hoare env P (return x) Q E"
  by (simp add: hoare_def return_def)

lemma hoare_fail: "(\<And>w. P w \<Longrightarrow> E w) \<Longrightarrow> hoare env P (fail e) Q E"
  by (simp add: hoare_def fail_def)

lemma bind_Inr: "bind m k env w = (Inr y, w'') \<longleftrightarrow> (\<exists>x w'. m env w = (Inr x, w') \<and> k x env w' = (Inr y, w''))"
  by (auto simp: bind_def split: prod.splits sum.splits)

lemma bind_Inl: "bind m k env w = (Inl e, w'')
     \<longleftrightarrow> m env w = (Inl e, w'') \<or> (\<exists>x w'. m env w = (Inr x, w') \<and> k x env w' = (Inl e, w''))"
  by (auto simp: bind_def split: prod.splits sum.splits)

lemma hoare_bind:
  assumes m: "hoare env P m R E" and k: "\<And>x. hoare env (R x) (k x) Q E"
  shows "hoare env P (bind m k) Q E"
  by (rule hoareI) (auto simp: bind_Inr bind_Inl dest: hoareD [OF m] intro: hoareD [OF k])

lemma attempt_Inr: "catching m env w = (Inr r, w') \<longleftrightarrow> m env w = (r, w')"
  by (auto simp: catching_def split: prod.splits)

lemma attempt_Inl: "catching m env w \<noteq> (Inl e, w')"
  by (simp add: catching_def split: prod.splits)

lemma hoare_attempt:
  assumes m: "hoare env P m Q E" and x: "\<And>x. hoare env (Q x) (k (Inr x)) R F"
    and e: "\<And>e. hoare env (E) (k (Inl e)) R F"
  shows "hoare env P (bind (catching m) k) R F"
proof (rule hoareI)
  fix w y w'' assume P: "P w" and eq: "bind (catching m) k env w = (Inr y, w'')"
  then obtain r w' where r: "m env w = (r, w')" "k r env w' = (Inr y, w'')"
    by (auto simp: bind_Inr attempt_Inr)
  then show "R y w''" using P by (cases r) (auto intro: hoareD(1) [OF x] hoareD(1) [OF e] hoareD [OF m])
next
  fix w y w'' assume P: "P w" and eq: "bind (catching m) k env w = (Inl y, w'')"
  then obtain r w' where r: "m env w = (r, w')" "k r env w' = (Inl y, w'')"
    by (auto simp: bind_Inl attempt_Inr attempt_Inl)
  then show "F w''" using P by (cases r) (auto intro: hoareD(2) [OF x] hoareD(2) [OF e] hoareD [OF m])
qed

lemma hoare_weaken:
  assumes h: "hoare env P m Q E" and "\<And>w. P' w \<Longrightarrow> P w" "\<And>x w. Q x w \<Longrightarrow> Q' x w" "\<And>w. E w \<Longrightarrow> E' w"
  shows "hoare env P' m Q' E'"
proof (rule hoareI)
  show "Q' x w'" if "P' w" "m env w = (Inr x, w')" for w x w'
    using hoareD(1) [OF h assms(2) [OF that(1)] that(2)] by (rule assms(3))
  show "E' w'" if "P' w" "m env w = (Inl e, w')" for w e w'
    using hoareD(2) [OF h assms(2) [OF that(1)] that(2)] by (rule assms(4))
qed

lemma hoare_pre:
  assumes h: "hoare env P m Q E" and "\<And>w. P' w \<Longrightarrow> P w"
  shows "hoare env P' m Q E"
  by (rule hoare_weaken [OF h]) (simp_all add: assms(2))

lemma hoare_if: "(b \<Longrightarrow> hoare env P m Q E) \<Longrightarrow> (\<not> b \<Longrightarrow> hoare env P n Q E) \<Longrightarrow> hoare env P (if b then m else n) Q E"
  by simp

section \<open>The trace\<close>

fun announcing :: "uninstall_effect \<Rightarrow> uninstall_phase" where
  "announcing (StopSession s) = StoppingSessions"
| "announcing UninstallOnMachine = Uninstalling"
| "announcing ReactivateOnMachine = RestoringMachine"
| "announcing (ReloadSession s) = RestoringSessions"

text \<open>The newest entry comes first: every effect directly follows a check that passed, and was made while
  the journal stood in the phase that announces it.\<close>

fun announced :: "trace_entry list \<Rightarrow> bool" where
  "announced [] \<longleftrightarrow> True"
| "announced (Checked b # t) \<longleftrightarrow> announced t"
| "announced (Did e p # t) \<longleftrightarrow> p = Some (announcing e) \<and> (\<exists>t'. t = Checked True # t') \<and> announced t"

definition machine_requests :: "trace_entry list \<Rightarrow> nat" where
  "machine_requests t = length (filter (\<lambda>x. case x of Did UninstallOnMachine _ \<Rightarrow> True | _ \<Rightarrow> False) t)"

lemma machine_requests_simps [simp]:
  "machine_requests [] = 0" "machine_requests (Checked b # t) = machine_requests t"
  "machine_requests (Did (StopSession s) p # t) = machine_requests t"
  "machine_requests (Did (ReloadSession s) p # t) = machine_requests t"
  "machine_requests (Did ReactivateOnMachine p # t) = machine_requests t"
  "machine_requests (Did UninstallOnMachine p # t) = Suc (machine_requests t)"
  by (simp_all add: machine_requests_def)

definition ids_unique :: "plugin_store \<Rightarrow> bool" where
  "ids_unique st \<longleftrightarrow> distinct (map rw_operation_id (ps_uninstalls st))"

definition sound :: "nat \<Rightarrow> uninstall_world \<Rightarrow> bool" where
  "sound n w \<longleftrightarrow> ids_unique (uw_store w) \<and> announced (uw_trace w) \<and> machine_requests (uw_trace w) \<le> n"

definition phase_is :: "uninstall_intent \<Rightarrow> uninstall_phase \<Rightarrow> uninstall_world \<Rightarrow> bool" where
  "phase_is i p w \<longleftrightarrow> map_option rw_phase (row_of (uw_store w) (ui_operation_id i)) = Some p"

definition just_checked :: "uninstall_world \<Rightarrow> bool" where
  "just_checked w \<longleftrightarrow> (\<exists>t. uw_trace w = Checked True # t)"

abbreviation standing :: "nat \<Rightarrow> uninstall_intent \<Rightarrow> uninstall_phase \<Rightarrow> uninstall_world \<Rightarrow> bool" where
  "standing n i p w \<equiv> sound n w \<and> phase_is i p w"

lemma sound_mono: "sound m w \<Longrightarrow> m \<le> n \<Longrightarrow> sound n w"
  by (simp add: sound_def)

section \<open>Rules of the calls\<close>

lemma advance_uninstall_phase:
  assumes "advance_uninstall i from to pr now st = Inr st'" "ids_unique st"
  shows "ids_unique st' \<and> map_option rw_phase (row_of st' i) = Some to \<and> phase_permits from to"
proof -
  let ?g = "\<lambda>r. if rw_operation_id r = i \<and> rw_phase r = from then advance_row to pr now r else r"
  have st': "st' = st\<lparr>ps_uninstalls := map ?g (ps_uninstalls st)\<rparr>" and perm: "phase_permits from to"
      and one: "length (filter (\<lambda>r. rw_operation_id r = i \<and> rw_phase r = from) (ps_uninstalls st)) = 1"
    using assms(1) by (auto simp: advance_uninstall_def sql_update_def Let_def split: if_splits)
  have idg: "rw_operation_id (?g r) = rw_operation_id r" for r by (simp add: advance_row_def)
  have "filter (\<lambda>r. rw_operation_id r = i \<and> rw_phase r = from) (ps_uninstalls st) \<noteq> []"
    using one by auto
  then obtain r where r: "r \<in> set (ps_uninstalls st)" "rw_operation_id r = i" "rw_phase r = from"
    by (auto simp: filter_empty_conv)
  have "row_of st i = Some r" using row_of_unique [of st r] assms(2) r by (simp add: ids_unique_def)
  then have "row_of st' i = Some (?g r)" using row_of_map [of ?g st i, OF idg] st' by simp
  moreover have "map rw_operation_id (ps_uninstalls st') = map rw_operation_id (ps_uninstalls st)"
    using idg by (simp add: st')
  ultimately show ?thesis using assms(2) r perm by (simp add: ids_unique_def advance_row_def)
qed

lemma commit_uninstall_phase:
  assumes "commit_uninstall cd stamp now i st = Inr st'" "ids_unique st"
  shows "ids_unique st' \<and> map_option rw_phase (row_of st' (ui_operation_id i)) = Some Completed"
proof -
  obtain sessions where st': "st' = st\<lparr>ps_uninstalls := map (commit_g i stamp) (ps_uninstalls st), ps_sessions := sessions\<rparr>"
      and one: "length (filter (\<lambda>r. rw_operation_id r = ui_operation_id i \<and> rw_phase r = MachineUninstalled)
        (ps_uninstalls st)) = 1"
    using assms(1) by (rule commit_effect)
  have idg: "rw_operation_id (commit_g i stamp r) = rw_operation_id r" for r by (rule frozen_id) simp
  have "filter (\<lambda>r. rw_operation_id r = ui_operation_id i \<and> rw_phase r = MachineUninstalled) (ps_uninstalls st) \<noteq> []"
    using one by auto
  then obtain r where r: "r \<in> set (ps_uninstalls st)" "rw_operation_id r = ui_operation_id i" "rw_phase r = MachineUninstalled"
    by (auto simp: filter_empty_conv)
  have "row_of st (ui_operation_id i) = Some r" using row_of_unique [of st r] assms(2) r by (simp add: ids_unique_def)
  then have "row_of st' (ui_operation_id i) = Some (commit_g i stamp r)"
    using row_of_map [of "commit_g i stamp" st "ui_operation_id i", OF idg] st' by (simp add: row_of_def)
  moreover have "map rw_operation_id (ps_uninstalls st') = map rw_operation_id (ps_uninstalls st)"
    using idg by (simp add: st')
  ultimately show ?thesis using assms(2) r by (simp add: ids_unique_def commit_g_def commit_row_def)
qed

lemma hoare_transaction:
  assumes "\<And>cd now st st'. tx cd now st = Inr st' \<Longrightarrow> ids_unique st \<Longrightarrow> ids_unique st' \<and> R st'"
  shows "hoare env (sound n) (transaction tx) (\<lambda>_ w. sound n w \<and> R (uw_store w)) (sound n)"
  unfolding hoare_def
proof (intro allI impI)
  fix w assume w: "sound n w"
  show "case transaction tx env w of (Inr x, w') \<Rightarrow> sound n w' \<and> R (uw_store w') | (Inl e, w') \<Rightarrow> sound n w'"
  proof (cases "tx (sr_codec env) (sr_now env (uw_tick w)) (uw_store w)")
    case (Inl e)
    then show ?thesis using w by (simp add: transaction_def Let_def sound_def)
  next
    case (Inr st')
    then show ?thesis using w assms [OF Inr] by (simp add: transaction_def Let_def sound_def)
  qed
qed

lemma hoare_advance:
  "hoare env (sound n) (advance i from to pr) (\<lambda>_. standing n i to) (sound n)"
  unfolding advance_def phase_is_def
  by (rule hoare_transaction) (auto dest: advance_uninstall_phase)

lemma hoare_now: "hoare env (\<lambda>w. sound n w \<and> phase_is i p w) now_ms (\<lambda>_ w. sound n w \<and> phase_is i p w) E"
  by (simp add: hoare_def now_ms_def sound_def phase_is_def)

lemma hoare_commit: "hoare env (sound n) (commit i) (\<lambda>_. standing n i Completed) (sound n)"
  unfolding commit_def phase_is_def
  by (rule hoare_bind [where R = "\<lambda>_. sound n"], simp add: hoare_def now_ms_def sound_def)
    (rule hoare_transaction, auto dest: commit_uninstall_phase)

lemma hoare_read:
  "hoare env (sound n) (read_operation (ui_operation_id i))
     (\<lambda>found w. sound n w \<and> (\<forall>op. found = Some op \<longrightarrow> phase_is i (op_phase op) w)) (sound n)"
  unfolding hoare_def read_operation_def Let_def
  by (auto simp: sound_def phase_is_def uninstall_operation_def decode_row_def operation_of_def
      split: option.splits sum.splits)

lemma hoare_authorized:
  "hoare env (standing n i p) (authorized i) (\<lambda>ok w. standing n i p w \<and> (ok \<longrightarrow> just_checked w)) E"
  by (simp add: hoare_def authorized_def Let_def sound_def phase_is_def just_checked_def)

lemma hoare_perform:
  "hoare env (\<lambda>w. standing n i (announcing e) w \<and> just_checked w) (perform i e answer)
     (\<lambda>_. standing (if e = UninstallOnMachine then Suc n else n) i (announcing e)) E"
  by (cases e) (auto simp: hoare_def perform_def sound_def phase_is_def just_checked_def)

section \<open>The programs\<close>

lemma hoare_attention: "hoare env (sound n) (to_attention i from pr) (\<lambda>q w. q = NeedsAttention \<and> standing n i q w) (sound n)"
  unfolding to_attention_def
  by (rule hoare_bind [OF hoare_advance]) (auto intro: hoare_return)

lemma hoare_then: "hoare env (sound n) (bind (advance i from to pr) (\<lambda>_. return to)) (\<lambda>q w. q = to \<and> standing n i q w) (sound n)"
  by (rule hoare_bind [OF hoare_advance]) (auto intro: hoare_return)

lemma hoare_stale:
  "hoare env (standing n i p) (stale i) (\<lambda>old w. standing n i p w \<and> (\<not> old \<longrightarrow> just_checked w)) (sound n)"
  unfolding stale_def
  by (rule hoare_bind [OF hoare_now], rule hoare_if, rule hoare_return, simp,
      rule hoare_bind [OF hoare_authorized], rule hoare_return, simp)

lemma hoare_step:
  assumes "p = announcing e" "e \<noteq> UninstallOnMachine"
    and "\<And>x. hoare env (standing n i p) (k x) Q (sound n)"
    and "hoare env (standing n i p) no Q (sound n)"
  shows "hoare env (standing n i p) (bind (authorized i) (\<lambda>ok. if \<not> ok then no else bind (perform i e answer) k)) Q (sound n)"
proof (rule hoare_bind [OF hoare_authorized])
  fix ok
  have "hoare env (\<lambda>w. standing n i (announcing e) w \<and> just_checked w) (perform i e answer)
      (\<lambda>_. standing n i (announcing e)) (sound n)"
    using hoare_perform [of env n i e answer "sound n"] assms(2) by simp
  then have "hoare env (\<lambda>w. standing n i p w \<and> just_checked w) (bind (perform i e answer) k) Q (sound n)"
    using assms(1,3) by (auto intro: hoare_bind)
  then show "hoare env (\<lambda>w. standing n i p w \<and> (ok \<longrightarrow> just_checked w))
      (if \<not> ok then no else bind (perform i e answer) k) Q (sound n)"
    using assms(4) by (cases ok) (auto intro: hoare_pre)
qed

lemma hoare_reload:
  "hoare env (standing n i RestoringSessions) (reload_sessions i ss) (\<lambda>_. standing n i RestoringSessions) (sound n)"
proof (induction ss)
  case Nil
  then show ?case by (simp add: hoare_return)
next
  case (Cons s ss)
  then show ?case
    by (simp only: reload_sessions.simps) (rule hoare_step; auto intro: hoare_return)
qed

lemma hoare_stop:
  "hoare env (standing n i StoppingSessions) (stop_sessions i ss) (\<lambda>_. standing n i StoppingSessions) (sound n)"
proof (induction ss)
  case Nil
  then show ?case by (simp add: hoare_return)
next
  case (Cons s ss)
  then show ?case
    by (simp only: stop_sessions.simps) (rule hoare_step; auto intro: hoare_return)
qed

lemma hoare_reactivate:
  "hoare env (standing n i RestoringMachine) (reactivate i) (\<lambda>_. standing n i RestoringMachine) (sound n)"
  unfolding reactivate_def
proof (rule hoare_bind [OF hoare_stale])
  fix old
  have "hoare env (\<lambda>w. standing n i RestoringMachine w \<and> just_checked w)
      (perform i ReactivateOnMachine (\<lambda>env. sr_reactivate env i)) (\<lambda>_. standing n i RestoringMachine) (sound n)"
    using hoare_perform [of env n i ReactivateOnMachine "\<lambda>env. sr_reactivate env i" "sound n"] by simp
  then show "hoare env (\<lambda>w. standing n i RestoringMachine w \<and> (\<not> old \<longrightarrow> just_checked w))
      (if old then return False
       else bind (perform i ReactivateOnMachine (\<lambda>env. sr_reactivate env i)) (\<lambda>r. return (is_ok r)))
      (\<lambda>_. standing n i RestoringMachine) (sound n)"
    by (cases old) (auto intro: hoare_return hoare_bind)
qed

definition phase_settled :: "uninstall_phase \<Rightarrow> bool" where
  "phase_settled p \<longleftrightarrow> phase_terminal p \<or> p = NeedsAttention"

lemma phase_settled_simps [simp]: "phase_settled NeedsAttention" "phase_settled Completed" "phase_settled Compensated" "phase_settled Aborted"
  by (simp_all add: phase_settled_def)

abbreviation settles_as :: "nat \<Rightarrow> uninstall_intent \<Rightarrow> uninstall_phase \<Rightarrow> uninstall_world \<Rightarrow> bool" where
  "settles_as n i q w \<equiv> phase_settled q \<and> standing n i q w"

lemma hoare_attention': "hoare env (standing n i p) (to_attention i from pr) (settles_as n i) (sound n)"
  by (rule hoare_weaken [OF hoare_attention]) auto

lemma hoare_then': "phase_settled to \<Longrightarrow>
     hoare env (standing n i p) (bind (advance i from to pr) (\<lambda>_. return to)) (settles_as n i) (sound n)"
  by (rule hoare_weaken [OF hoare_then]) auto

lemma hoare_advance': "hoare env (standing n i p) (advance i from to pr) (\<lambda>_. standing n i to) (sound n)"
  by (rule hoare_pre [OF hoare_advance]) simp

lemma hoare_restore_sessions:
  "hoare env (standing n i RestoringMachine) (restore_sessions i cause) (settles_as n i) (sound n)"
  unfolding restore_sessions_def
  by (rule hoare_bind [OF hoare_advance'], rule hoare_bind [OF hoare_reload])
    (intro hoare_if hoare_attention' hoare_then', simp)

lemma hoare_committed_after_all: "hoare env (sound n) (committed_after_all i) (settles_as n i) (sound n)"
  unfolding committed_after_all_def
  by (rule hoare_bind [OF hoare_read]) (auto intro!: hoare_if hoare_return hoare_fail split: option.splits)

lemma hoare_compensate: "hoare env (sound n) (compensate i from cause) (settles_as n i) (sound n)"
  unfolding compensate_def
proof (rule hoare_attempt [OF hoare_advance])
  show "hoare env (standing n i RestoringMachine) (case Inr x of
       Inl _ \<Rightarrow> committed_after_all i
     | Inr _ \<Rightarrow> bind (reactivate i) (\<lambda>ok.
         if \<not> ok then to_attention i RestoringMachine CompensationFailed else restore_sessions i cause))
     (settles_as n i) (sound n)" for x :: unit
    unfolding sum.case
    by (rule hoare_bind [OF hoare_reactivate]) (intro hoare_if hoare_attention' hoare_restore_sessions)
qed (simp add: hoare_committed_after_all)

lemma hoare_answered:
  "hoare env (standing n i Uninstalling)
     (case r of
       Inl CommandRejected \<Rightarrow> compensate i Uninstalling MachineRejected
     | Inl NotSent \<Rightarrow> to_attention i Uninstalling MachineUnavailable
     | Inl OutcomeUnknown \<Rightarrow> to_attention i Uninstalling UnknownMachineOutcome
     | Inr _ \<Rightarrow>
         bind (advance i Uninstalling MachineUninstalled None) (\<lambda>_.
         bind (stale i) (\<lambda>old.
         if old then to_attention i MachineUninstalled PreconditionsChanged
         else bind (catching (commit i)) (\<lambda>r. case r of
                Inr _ \<Rightarrow> return Completed
              | Inl _ \<Rightarrow> compensate i MachineUninstalled StorageFailure))))
     (settles_as n i) (sound n)"
proof (cases r)
  case (Inl f)
  then show ?thesis
    by (cases f) (auto intro: hoare_attention' hoare_pre [OF hoare_compensate])
next
  case (Inr u)
  have "hoare env (\<lambda>w. standing n i MachineUninstalled w \<and> (\<not> old \<longrightarrow> just_checked w))
      (if old then to_attention i MachineUninstalled PreconditionsChanged
       else bind (catching (commit i)) (\<lambda>r. case r of
                Inr _ \<Rightarrow> return Completed
              | Inl _ \<Rightarrow> compensate i MachineUninstalled StorageFailure)) (settles_as n i) (sound n)" for old
  proof (cases old)
    case True
    then show ?thesis by (simp add: hoare_pre [OF hoare_attention'])
  next
    case False
    have "hoare env (standing n i MachineUninstalled) (bind (catching (commit i)) (\<lambda>r. case r of
                Inr _ \<Rightarrow> return Completed
              | Inl _ \<Rightarrow> compensate i MachineUninstalled StorageFailure)) (settles_as n i) (sound n)"
      by (rule hoare_attempt [OF hoare_pre [OF hoare_commit]]) (auto intro: hoare_return hoare_compensate)
    then show ?thesis using False by (auto intro: hoare_pre)
  qed
  then show ?thesis
    unfolding Inr sum.case
    by (intro hoare_bind [OF hoare_advance'] hoare_bind [OF hoare_stale])
qed

text \<open>A part that does not ask the Machine keeps the count, whatever bound the rest needs.\<close>

lemma hoare_lift:
  assumes "hoare env P m Q (sound 0)"
  shows "hoare env P m Q (sound 1)"
  by (rule hoare_weaken [OF assms]) (auto intro: sound_mono)

lemma hoare_lift_outcome:
  assumes "hoare env P m (settles_as 0 i) (sound 0)"
  shows "hoare env P m (settles_as 1 i) (sound 1)"
  by (rule hoare_weaken [OF assms]) (auto intro: sound_mono)

lemma hoare_ask_machine:
  assumes "\<And>r. hoare env (standing 1 i Uninstalling) (k r) (settles_as 1 i) (sound 1)"
  shows "hoare env (standing 0 i Uninstalling)
      (bind (authorized i) (\<lambda>ok. if \<not> ok then to_attention i Uninstalling PreconditionsChanged
        else bind (perform i UninstallOnMachine (\<lambda>env. sr_uninstall env i)) k)) (settles_as 1 i) (sound 1)"
proof (rule hoare_bind [OF hoare_authorized])
  fix ok
  have "hoare env (\<lambda>w. standing 0 i Uninstalling w \<and> just_checked w)
      (perform i UninstallOnMachine (\<lambda>env. sr_uninstall env i)) (\<lambda>_. standing 1 i Uninstalling) (sound 1)"
    using hoare_perform [of env 0 i UninstallOnMachine "\<lambda>env. sr_uninstall env i" "sound 1"] by simp
  then have "hoare env (\<lambda>w. standing 0 i Uninstalling w \<and> just_checked w)
      (bind (perform i UninstallOnMachine (\<lambda>env. sr_uninstall env i)) k) (settles_as 1 i) (sound 1)"
    using assms by (rule hoare_bind)
  then show "hoare env (\<lambda>w. standing 0 i Uninstalling w \<and> (ok \<longrightarrow> just_checked w))
      (if \<not> ok then to_attention i Uninstalling PreconditionsChanged
       else bind (perform i UninstallOnMachine (\<lambda>env. sr_uninstall env i)) k) (settles_as 1 i) (sound 1)"
    using hoare_lift_outcome [OF hoare_attention']
    by (cases ok) (simp_all del: One_nat_def)
qed

lemma hoare_execute: "hoare env (standing 0 i Prepared) (execute i) (settles_as 1 i) (sound 1)"
proof -
  have started: "hoare env (standing 0 i Prepared)
      (bind (advance i Prepared StoppingSessions None) (\<lambda>_.
       bind (stop_sessions i (ui_session_ids i)) (\<lambda>stopped.
       if \<not> stopped then to_attention i StoppingSessions PreconditionsChanged
       else bind (advance i StoppingSessions Uninstalling None) (\<lambda>_.
       bind (authorized i) (\<lambda>ok. if \<not> ok then to_attention i Uninstalling PreconditionsChanged
        else bind (perform i UninstallOnMachine (\<lambda>env. sr_uninstall env i)) k))))) (settles_as 1 i) (sound 1)"
    if "\<And>r. hoare env (standing 1 i Uninstalling) (k r) (settles_as 1 i) (sound 1)" for k
    by (intro hoare_bind [OF hoare_lift [OF hoare_advance']] hoare_bind [OF hoare_lift [OF hoare_stop]]
        hoare_if hoare_lift_outcome [OF hoare_attention'] hoare_ask_machine that)
  show ?thesis
    unfolding execute_def
    by (rule hoare_bind [OF hoare_lift [OF hoare_stale]], rule hoare_pre [where P = "standing 0 i Prepared"],
        rule hoare_if, rule hoare_lift_outcome [OF hoare_then'], simp, rule started, rule hoare_answered, simp)
qed

section \<open>The admitted run\<close>

lemma begin_uninstall_phase:
  assumes "begin_uninstall cd checked now i st = Inr st'" "ids_unique st"
  shows "ids_unique st' \<and> map_option rw_phase (row_of st' (ui_operation_id i)) = Some Prepared"
proof -
  have a: "admitted cd st i" and st': "st' = st\<lparr>ps_uninstalls := ps_uninstalls st @ [new_row cd i now]\<rparr>"
    using begin_admitted [OF assms(1)] by auto
  then have "ids_unique st'" using assms(2) by (auto simp: ids_unique_def admitted_def new_row_def)
  then have "row_of st' (rw_operation_id (new_row cd i now)) = Some (new_row cd i now)"
    unfolding ids_unique_def by (rule row_of_unique) (simp add: st')
  then show ?thesis using \<open>ids_unique st'\<close> by (simp add: new_row_def)
qed

lemma hoare_settle: "hoare env (sound n) (settle i) (settles_as n i) (sound n)"
  unfolding settle_def
proof (rule hoare_bind [OF hoare_read])
  fix found
  show "hoare env (\<lambda>w. sound n w \<and> (\<forall>op. found = Some op \<longrightarrow> phase_is i (op_phase op) w))
     (case found of None \<Rightarrow> fail ''uninstall journal unavailable''
      | Some op \<Rightarrow> if phase_terminal (op_phase op) \<or> op_phase op = NeedsAttention then return (op_phase op)
                   else to_attention i (op_phase op) StorageFailure) (settles_as n i) (sound n)"
    by (cases found)
      (auto intro!: hoare_fail hoare_return hoare_if hoare_pre [OF hoare_attention'] simp: phase_settled_def [symmetric])
qed

lemma hoare_attempt_execute:
  "hoare env (standing 0 i Prepared) (bind (catching (execute i)) (\<lambda>r. case r of Inr p \<Rightarrow> return p | Inl _ \<Rightarrow> settle i))
     (settles_as 1 i) (sound 1)"
  by (rule hoare_attempt [OF hoare_execute])
    (auto intro: hoare_return hoare_settle simp del: One_nat_def)

lemma hoare_admitted_phase: "hoare env (sound 0) (admitted_phase i) (settles_as 1 i) (sound 1)"
proof -
  have clock: "hoare env (sound 0) now_ms (\<lambda>_. sound 0) (sound 1)"
    by (simp add: hoare_def now_ms_def sound_def)
  have start: "hoare env (sound 0) (transaction (\<lambda>cd now. begin_uninstall cd checked now i)) (\<lambda>_. standing 0 i Prepared)
      (sound 1)" for checked
    unfolding phase_is_def by (intro hoare_lift hoare_transaction) (auto dest: begin_uninstall_phase)
  show ?thesis
    unfolding admitted_phase_def by (intro hoare_bind [OF clock] hoare_bind [OF start] hoare_attempt_execute)
qed

lemma set_fence_simps [simp]:
  "uw_store (set_fence k v w) = uw_store w" "uw_trace (set_fence k v w) = uw_trace w"
  "uw_fences (set_fence k v w) = (uw_fences w)(k := v)"
  by (simp_all add: set_fence_def)

lemma fence_drop_simps [simp]: "uw_store (fence_drop f w) = uw_store w" "uw_trace (fence_drop f w) = uw_trace w"
  by (simp_all add: fence_drop_def)

lemma run_admitted_cases:
  assumes "run_admitted env admission fence w = (resp, w')"
  obtains e where "admission = Inl e" "resp = UninstallConflict" "w' = fence_drop fence w"
  | i e w1 where "admission = Inr i" "admitted_phase i env w = (Inl e, w1)" "resp = UninstallConflict"
      "w' = fence_drop (fence\<lparr>fence_keep := True\<rparr>) w1"
  | i p w1 where "admission = Inr i" "admitted_phase i env w = (Inr p, w1)"
      "resp = (if p = Completed then UninstallDone (ui_session_ids i) else UninstallConflict)"
      "w' = snd (fence_finish p (fence\<lparr>fence_keep := True\<rparr>) w1)"
  using assms
  by (auto simp: run_admitted_def Let_def fence_finish_def fence_drop_def split: sum.splits prod.splits)

lemma run_sound:
  assumes "sound 0 w" "run_admitted env admission fence w = (resp, w')"
  shows "sound 1 w'"
proof -
  have frame: "sound 1 w1 \<Longrightarrow> uw_store w' = uw_store w1 \<Longrightarrow> uw_trace w' = uw_trace w1 \<Longrightarrow> sound 1 w'" for w1
    by (simp add: sound_def)
  from assms(2) show ?thesis
  proof (cases rule: run_admitted_cases)
    case (1 e)
    then show ?thesis using sound_mono [OF assms(1), of 1] by (intro frame [of w]) simp_all
  next
    case (2 i e w1)
    then show ?thesis
      using hoareD(2) [OF hoare_admitted_phase assms(1) 2(2)] by (intro frame [of w1]) simp_all
  next
    case (3 i p w1)
    then show ?thesis
      using hoareD(1) [OF hoare_admitted_phase assms(1) 3(2)] by (intro frame [of w1]) (simp_all add: fence_finish_def)
  qed
qed

lemma reachable_sound:
  "journal_reachable cd (uw_store w) \<Longrightarrow> codec_faithful cd \<Longrightarrow> uw_trace w = [] \<Longrightarrow> sound 0 w"
  using reachable_inv by (auto simp: sound_def ids_unique_def journal_inv_def)

section \<open>Every run is a sequence of journal transactions\<close>

abbreviation reach :: "surroundings \<Rightarrow> uninstall_world \<Rightarrow> bool" where
  "reach env w \<equiv> journal_reachable (sr_codec env) (uw_store w)"

abbreviation keeps_reach :: "surroundings \<Rightarrow> 'a prog \<Rightarrow> bool" where
  "keeps_reach env m \<equiv> hoare env (reach env) m (\<lambda>_. reach env) (reach env)"

lemma keeps_transaction:
  assumes "\<And>now st st'. tx (sr_codec env) now st = Inr st' \<Longrightarrow> journal_step (sr_codec env) st st'"
  shows "keeps_reach env (transaction tx)"
  unfolding hoare_def
proof (intro allI impI)
  fix w assume w: "reach env w"
  show "case transaction tx env w of (Inr x, w') \<Rightarrow> reach env w' | (Inl e, w') \<Rightarrow> reach env w'"
  proof (cases "tx (sr_codec env) (sr_now env (uw_tick w)) (uw_store w)")
    case (Inr st')
    then show ?thesis using w reach_step [OF w assms [OF Inr]] by (simp add: transaction_def Let_def)
  qed (simp add: transaction_def Let_def w)
qed

lemma keeps_bind: "keeps_reach env m \<Longrightarrow> (\<And>x. keeps_reach env (k x)) \<Longrightarrow> keeps_reach env (bind m k)"
  by (rule hoare_bind)

lemma keeps_attempt:
  assumes "keeps_reach env m"
  shows "keeps_reach env (catching m)"
proof (rule hoareI)
  fix w r w' assume w: "reach env w" and "catching m env w = (Inr r, w')"
  then have m: "m env w = (r, w')" by (simp add: attempt_Inr)
  show "reach env w'"
  proof (cases r)
    case (Inl e)
    show ?thesis using hoareD(2) [OF assms w m [unfolded Inl]] .
  next
    case (Inr x)
    show ?thesis using hoareD(1) [OF assms w m [unfolded Inr]] .
  qed
qed (simp add: attempt_Inl)

lemma keeps_calls:
  "keeps_reach env (return x)" "keeps_reach env (fail e)" "keeps_reach env now_ms"
  "keeps_reach env (authorized i)" "keeps_reach env (perform i eff answer)" "keeps_reach env (read_operation j)"
  by (simp_all add: hoare_def return_def fail_def now_ms_def authorized_def perform_def read_operation_def Let_def
      split: sum.splits)

lemma keeps_advance: "keeps_reach env (advance i from to pr)"
  unfolding advance_def by (rule keeps_transaction) (rule step_advance)

lemma keeps_commit: "keeps_reach env (commit i)"
  unfolding commit_def by (intro keeps_bind keeps_calls keeps_transaction) (rule step_commit)

lemmas keeps_rules = keeps_bind keeps_attempt keeps_calls keeps_advance keeps_commit

lemma keeps_attention: "keeps_reach env (to_attention i from pr)"
  unfolding to_attention_def by (intro keeps_rules)

lemma keeps_stale: "keeps_reach env (stale i)"
  unfolding stale_def by (intro keeps_rules hoare_if)

lemma keeps_reload: "keeps_reach env (reload_sessions i ss)"
  by (induction ss) (auto intro!: keeps_rules hoare_if)

lemma keeps_stop: "keeps_reach env (stop_sessions i ss)"
  by (induction ss) (auto intro!: keeps_rules hoare_if)

lemma keeps_compensate: "keeps_reach env (compensate i from cause)"
proof -
  have "keeps_reach env (restore_sessions i cause)"
    unfolding restore_sessions_def by (intro keeps_rules hoare_if keeps_reload keeps_attention)
  moreover have "keeps_reach env (committed_after_all i)"
    unfolding committed_after_all_def by (intro keeps_rules hoare_if)
  moreover have "keeps_reach env (reactivate i)"
    unfolding reactivate_def by (intro keeps_rules hoare_if keeps_stale)
  ultimately show ?thesis
    unfolding compensate_def
    by (intro keeps_rules) (auto split: sum.splits intro!: keeps_bind hoare_if keeps_attention)
qed

lemma keeps_execute: "keeps_reach env (execute i)"
  unfolding execute_def
  by (intro keeps_rules keeps_stale keeps_stop keeps_attention hoare_if)
    (auto split: sum.splits command_failure.splits
       intro!: keeps_rules keeps_stale keeps_attention keeps_compensate hoare_if)

lemma keeps_admitted_phase: "keeps_reach env (admitted_phase i)"
  unfolding admitted_phase_def settle_def
  by (intro keeps_rules keeps_execute keeps_transaction step_begin)
    (auto split: sum.splits option.splits intro!: keeps_rules keeps_attention hoare_if)

section \<open>A concrete run\<close>

definition demo_env :: surroundings where
  "demo_env =
     \<lparr>sr_codec = demo_codec, sr_now = (\<lambda>_. 7), sr_fault = (\<lambda>_. NoFault), sr_authorized = (\<lambda>_. True),
      sr_stop = (\<lambda>s _. s = ''s2''), sr_reload = (\<lambda>_ _. True), sr_uninstall = (\<lambda>_ _. Inr ()),
      sr_reactivate = (\<lambda>_ _. Inr ())\<rparr>"

definition demo_world :: uninstall_world where
  "demo_world = \<lparr>uw_store = demo_store, uw_fences = Map.empty((''hawk'', ''victoria'') \<mapsto> FenceUninstalling),
     uw_tick = 0, uw_trace = []\<rparr>"

definition demo_fence :: operation_fence where
  "demo_fence = \<lparr>fence_key = (''hawk'', ''victoria''), fence_keep = False, fence_finished = False\<rparr>"

lemma demo_env_simps [simp]:
  "sr_codec demo_env = demo_codec" "sr_now demo_env t = 7" "sr_fault demo_env t = NoFault"
  "sr_authorized demo_env t" "sr_stop demo_env s t = (s = ''s2'')" "sr_uninstall demo_env i t = Inr ()"
  by (simp_all add: demo_env_def)

lemma demo_env_advance:
  assumes "uw_store w = demo_at p None None 7" "phase_permits p q" "q \<noteq> Completed" "q \<noteq> RestoringMachine" "q \<noteq> NeedsAttention"
  shows "advance demo_intent p q None demo_env w = (Inr (), w\<lparr>uw_tick := Suc (uw_tick w), uw_store := demo_at q None None 7\<rparr>)"
  using demo_advance [OF assms(2-), of None 7 None None 7] assms(1)
  by (simp add: advance_def transaction_def)

lemma demo_env_stop:
  "uw_store w = demo_at StoppingSessions None None 7 \<Longrightarrow>
     \<exists>n t. stop_sessions demo_intent [''s1'', ''s2''] demo_env w = (Inr True, w\<lparr>uw_tick := n, uw_trace := t\<rparr>)"
  by (auto simp: bind_def authorized_def perform_def return_def Let_def demo_intent_def)

lemma demo_stale: "\<exists>n t. stale demo_intent demo_env w = (Inr False, w\<lparr>uw_tick := n, uw_trace := t\<rparr>)"
  by (auto simp: stale_def bind_def now_ms_def authorized_def return_def Let_def demo_intent_def)

lemma demo_commit_run:
  "uw_store w = demo_at MachineUninstalled None None 7 \<Longrightarrow>
     \<exists>n. commit demo_intent demo_env w = (Inr (), w\<lparr>uw_tick := n, uw_store := demo_done_at 7\<rparr>)"
  using demo_commit [of 7] by (auto simp: commit_def bind_def now_ms_def transaction_def)

lemma demo_execute:
  assumes "uw_store w = demo_at Prepared None None 7"
  shows "\<exists>n t. execute demo_intent demo_env w = (Inr Completed, w\<lparr>uw_tick := n, uw_trace := t, uw_store := demo_done_at 7\<rparr>)"
proof -
  obtain n1 t1 where 1: "stale demo_intent demo_env w = (Inr False, w\<lparr>uw_tick := n1, uw_trace := t1\<rparr>)"
    using demo_stale by blast
  let ?w2 = "w\<lparr>uw_tick := Suc n1, uw_trace := t1, uw_store := demo_at StoppingSessions None None 7\<rparr>"
  have 2: "advance demo_intent Prepared StoppingSessions None demo_env (w\<lparr>uw_tick := n1, uw_trace := t1\<rparr>) = (Inr (), ?w2)"
    by (subst demo_env_advance) (simp_all add: assms phase_permits_def)
  obtain n3 t3 where 3: "stop_sessions demo_intent (ui_session_ids demo_intent) demo_env ?w2 = (Inr True, ?w2\<lparr>uw_tick := n3, uw_trace := t3\<rparr>)"
    using demo_env_stop [of ?w2] by (auto simp: demo_intent_def)
  let ?w4 = "w\<lparr>uw_tick := Suc n3, uw_trace := t3, uw_store := demo_at Uninstalling None None 7\<rparr>"
  have 4: "advance demo_intent StoppingSessions Uninstalling None demo_env (?w2\<lparr>uw_tick := n3, uw_trace := t3\<rparr>) = (Inr (), ?w4)"
    by (subst demo_env_advance) (simp_all add: phase_permits_def)
  obtain n5 t5 where 5: "authorized demo_intent demo_env ?w4 = (Inr True, ?w4\<lparr>uw_tick := n5, uw_trace := t5\<rparr>)"
    by (simp add: authorized_def)
  obtain n6 t6 where 6: "perform demo_intent UninstallOnMachine (\<lambda>env. sr_uninstall env demo_intent) demo_env
      (?w4\<lparr>uw_tick := n5, uw_trace := t5\<rparr>) = (Inr (Inr ()), ?w4\<lparr>uw_tick := n6, uw_trace := t6\<rparr>)"
    by (simp add: perform_def)
  let ?w7 = "w\<lparr>uw_tick := Suc n6, uw_trace := t6, uw_store := demo_at MachineUninstalled None None 7\<rparr>"
  have 7: "advance demo_intent Uninstalling MachineUninstalled None demo_env (?w4\<lparr>uw_tick := n6, uw_trace := t6\<rparr>) = (Inr (), ?w7)"
    by (subst demo_env_advance) (simp_all add: phase_permits_def)
  obtain n8 t8 where 8: "stale demo_intent demo_env ?w7 = (Inr False, ?w7\<lparr>uw_tick := n8, uw_trace := t8\<rparr>)"
    using demo_stale by blast
  obtain n9 where 9: "commit demo_intent demo_env (?w7\<lparr>uw_tick := n8, uw_trace := t8\<rparr>)
      = (Inr (), ?w7\<lparr>uw_tick := n9, uw_trace := t8, uw_store := demo_done_at 7\<rparr>)"
    using demo_commit_run [of "?w7\<lparr>uw_tick := n8, uw_trace := t8\<rparr>"] by (cases w) auto
  show ?thesis
    by (auto simp: execute_def bind_def 1 2 [simplified] 3 [simplified] 4 [simplified] 5 [simplified]
        6 [simplified] 7 [simplified] 8 [simplified] 9 [simplified] catching_def return_def)
qed

lemma demo_run:
  "\<exists>w'. run_admitted demo_env (Inr demo_intent) demo_fence demo_world = (UninstallDone [''s1'', ''s2''], w')"
proof -
  let ?w = "demo_world\<lparr>uw_tick := Suc (Suc 0), uw_store := demo_at Prepared None None 7\<rparr>"
  have start: "bind now_ms (\<lambda>checked. bind (transaction (\<lambda>cd now. begin_uninstall cd checked now demo_intent)) k) demo_env demo_world
      = k () demo_env ?w" for k :: "unit \<Rightarrow> uninstall_phase prog"
    using demo_begin
    by (simp add: bind_def now_ms_def transaction_def demo_open_at demo_world_def)
  obtain n t where "execute demo_intent demo_env ?w = (Inr Completed, ?w\<lparr>uw_tick := n, uw_trace := t, uw_store := demo_done_at 7\<rparr>)"
    using demo_execute [of ?w] by auto
  then have "\<exists>w'. admitted_phase demo_intent demo_env demo_world = (Inr Completed, w')"
    by (simp add: admitted_phase_def start) (simp add: bind_def catching_def return_def)
  moreover have "ui_session_ids demo_intent = [''s1'', ''s2'']" by (simp add: demo_intent_def)
  ultimately show ?thesis
    by (auto simp: run_admitted_def fence_finish_def fence_drop_def)
qed

lemma demo_fence_key: "fence_key demo_fence = (''hawk'', ''victoria'')"
  by (simp add: demo_fence_def)

lemma demo_world_facts: "codec_faithful (sr_codec demo_env)" "uw_trace demo_world = []"
  by (simp_all add: demo_faithful demo_world_def)

lemma demo_world_reachable: "journal_reachable (sr_codec demo_env) (uw_store demo_world)"
  by (simp add: demo_world_def) (rule reach_empty, simp_all add: demo_store_def)

section \<open>Properties\<close>

text \<open>C12: Every effect follows its announcement: whatever the database, the workers and the Machine answer, a
  session is stopped, the Machine asked, reactivated or a session reloaded only while the journal durably
  stands in the phase that announces it and directly after an authorization check that passed, and the
  Machine is asked to uninstall at most once.\<close>

theorem effects_follow_their_announcement:
  assumes "journal_reachable (sr_codec env) (uw_store w)" "codec_faithful (sr_codec env)" "uw_trace w = []"
    and "run_admitted env admission fence w = (resp, w')"
  shows "announced (uw_trace w') \<and> machine_requests (uw_trace w') \<le> 1"
  using run_sound [OF reachable_sound [OF assms(1-3)] assms(4)] by (simp add: sound_def)

theorem effects_follow_their_announcement_witness:
  "\<exists>w'. run_admitted demo_env (Inr demo_intent) demo_fence demo_world = (UninstallDone [''s1'', ''s2''], w')
      \<and> announced (uw_trace w') \<and> machine_requests (uw_trace w') \<le> 1"
proof -
  obtain w' where "run_admitted demo_env (Inr demo_intent) demo_fence demo_world = (UninstallDone [''s1'', ''s2''], w')"
    using demo_run by blast
  then show ?thesis
    using effects_follow_their_announcement [OF demo_world_reachable demo_world_facts] by blast
qed



text \<open>C13: A slot is released only when its operation is final: after an admitted run the slot is free only if
  the admission was refused and nothing was written, or the journal has the operation aborted or
  compensated; it is marked uninstalled only if the journal has it completed; in every other case, a lost
  answer of the database included, it waits for reconciliation.\<close>

theorem slot_released_only_when_final:
  assumes "journal_reachable (sr_codec env) (uw_store w)" "codec_faithful (sr_codec env)" "uw_trace w = []"
    and "run_admitted env admission fence w = (resp, w')" "\<not> fence_keep fence" "\<not> fence_finished fence"
  shows "case uw_fences w' (fence_key fence) of
           None \<Rightarrow> (\<exists>e. admission = Inl e \<and> uw_store w' = uw_store w)
             \<or> (\<exists>i. admission = Inr i \<and> (phase_is i Aborted w' \<or> phase_is i Compensated w'))
         | Some FenceUninstalled \<Rightarrow> \<exists>i. admission = Inr i \<and> phase_is i Completed w'
         | Some FenceNeedsReconcile \<Rightarrow> resp = UninstallConflict
         | Some _ \<Rightarrow> False"
  using assms(4)
proof (cases rule: run_admitted_cases)
  case (1 e)
  then show ?thesis using assms(5,6) by (simp add: fence_drop_def)
next
  case (2 i e w1)
  then show ?thesis using assms(6) by (simp add: fence_drop_def)
next
  case (3 i p w1)
  have "phase_settled p" "phase_is i p w1"
    using hoareD(1) [OF hoare_admitted_phase reachable_sound [OF assms(1-3)] 3(2)] by simp_all
  then have "phase_settled p" "phase_is i p w'" using 3(4) by (simp_all add: fence_finish_def phase_is_def)
  then show ?thesis using 3(1,3,4) by (cases p) (auto simp: fence_finish_def phase_settled_def)
qed

theorem slot_released_only_when_final_witness:
  "\<exists>resp w'. run_admitted demo_env (Inl ''expired'') demo_fence demo_world = (resp, w')
      \<and> uw_fences w' (''hawk'', ''victoria'') = None \<and> uw_store w' = demo_store"
proof -
  have run: "run_admitted demo_env (Inl ''expired'') demo_fence demo_world = (UninstallConflict, fence_drop demo_fence demo_world)"
    by (simp add: run_admitted_def)
  have "uw_fences (fence_drop demo_fence demo_world) (fence_key demo_fence) = None"
    by (simp add: fence_drop_def demo_fence_def)
  with slot_released_only_when_final [OF demo_world_reachable demo_world_facts run]
  have "uw_store (fence_drop demo_fence demo_world) = demo_store"
    by (simp add: demo_world_def demo_fence_def)
  then show ?thesis using run by (auto simp: fence_drop_def demo_fence_def)
qed

section \<open>The deployed coordinator\<close>

lemma hoare_true: "hoare env P m (\<lambda>_ _. True) (\<lambda>_. True)"
  by (rule hoareI) simp_all

abbreviation not_compensated :: "uninstall_phase \<Rightarrow> uninstall_world \<Rightarrow> bool" where
  "not_compensated p w \<equiv> p \<noteq> Compensated"

lemma live_never_reactivates:
  "hoare (deployed reply env) P (reactivate i) (\<lambda>ok _. \<not> ok) (\<lambda>_. True)"
  by (rule hoareI)
    (auto simp: reactivate_def bind_Inr return_def deployed_def live_reactivate_def perform_def split: if_splits)

lemma hoare_sequel: "(\<And>x. hoare env (\<lambda>_. True) (k x) Q (\<lambda>_. True)) \<Longrightarrow> hoare env P (bind m k) Q (\<lambda>_. True)"
  by (rule hoare_bind [OF hoare_true])

lemma attention_not_compensated: "hoare env P (to_attention i from pr) not_compensated (\<lambda>_. True)"
  unfolding to_attention_def by (rule hoare_sequel) (simp add: hoare_return)

lemma then_not_compensated: "q \<noteq> Compensated \<Longrightarrow> hoare env P (bind m (\<lambda>_. return q)) not_compensated (\<lambda>_. True)"
  by (rule hoare_sequel) (simp add: hoare_return)

lemma compensate_not_compensated:
  "hoare (deployed reply env) P (compensate i from cause) not_compensated (\<lambda>_. True)"
  unfolding compensate_def
proof (rule hoare_sequel)
  fix r :: "string + unit"
  show "hoare (deployed reply env) (\<lambda>_. True) (case r of
       Inl _ \<Rightarrow> committed_after_all i
     | Inr _ \<Rightarrow> bind (reactivate i) (\<lambda>ok.
         if \<not> ok then to_attention i RestoringMachine CompensationFailed else restore_sessions i cause))
     not_compensated (\<lambda>_. True)"
  proof (cases r)
    case (Inl e)
    have "hoare (deployed reply env) (\<lambda>_. True) (committed_after_all i) not_compensated (\<lambda>_. True)"
      unfolding committed_after_all_def
      by (rule hoare_sequel) (auto intro!: hoare_if hoare_return hoare_fail)
    then show ?thesis using Inl by simp
  next
    case (Inr u)
    have "hoare (deployed reply env) (\<lambda>_. True) (bind (reactivate i) (\<lambda>ok.
         if \<not> ok then to_attention i RestoringMachine CompensationFailed else restore_sessions i cause))
       not_compensated (\<lambda>_. True)"
    proof (rule hoare_bind [OF live_never_reactivates])
      show "hoare (deployed reply env) (\<lambda>_. \<not> ok)
          (if \<not> ok then to_attention i RestoringMachine CompensationFailed else restore_sessions i cause)
          not_compensated (\<lambda>_. True)" for ok
        using attention_not_compensated by (cases ok) (simp_all add: hoare_def)
    qed
    then show ?thesis using Inr by simp
  qed
qed

lemma execute_not_compensated: "hoare (deployed reply env) P (execute i) not_compensated (\<lambda>_. True)"
  unfolding execute_def
  by (intro hoare_sequel hoare_if then_not_compensated attention_not_compensated)
    (auto split: sum.splits command_failure.splits
       intro!: hoare_sequel hoare_if hoare_return attention_not_compensated compensate_not_compensated)

text \<open>The deployed coordinator never compensates: it performs no inverse on the Machine, so an uninstall
  ends completed, aborted before any effect, or waiting for attention.\<close>

theorem deployed_uninstall_never_compensates:
  assumes "execute i (deployed reply env) w = (Inr p, w')" "ids_unique (uw_store w)" "uw_trace w = []"
    and "phase_is i Prepared w"
  shows "(p = Completed \<or> p = Aborted \<or> p = NeedsAttention) \<and> phase_is i p w'"
proof -
  have "standing 0 i Prepared w" using assms(2-) by (simp add: sound_def)
  then have "phase_settled p \<and> phase_is i p w'" using hoareD(1) [OF hoare_execute _ assms(1)] by simp
  moreover have "p \<noteq> Compensated" using hoareD(1) [OF execute_not_compensated _ assms(1)] by simp
  ultimately show ?thesis by (auto simp: phase_settled_def phase_terminal_def)
qed

theorem deployed_uninstall_never_compensates_witness:
  "\<exists>p w'. execute demo_intent (deployed (\<lambda>_. Inr NotFound) (demo_env\<lparr>sr_now := \<lambda>_. 2000\<rparr>))
        (demo_world\<lparr>uw_store := demo_open\<rparr>) = (Inr p, w')
      \<and> (p = Completed \<or> p = Aborted \<or> p = NeedsAttention) \<and> phase_is demo_intent p w'"
proof -
  let ?env = "deployed (\<lambda>_. Inr NotFound) (demo_env\<lparr>sr_now := \<lambda>_. 2000\<rparr>)" and ?w = "demo_world\<lparr>uw_store := demo_open\<rparr>"
  have "advance_uninstall ''operation-0000001'' Prepared Aborted (Some PreconditionsChanged) 2000 demo_open
      = Inr (demo_at Aborted (Some PreconditionsChanged) None 2000)"
    unfolding demo_open_at by (rule demo_advance) (simp_all add: phase_permits_def)
  then have "advance demo_intent Prepared Aborted (Some PreconditionsChanged) ?env (?w\<lparr>uw_tick := n\<rparr>)
      = (Inr (), ?w\<lparr>uw_tick := Suc n, uw_store := demo_at Aborted (Some PreconditionsChanged) None 2000\<rparr>)" for n
    by (simp add: advance_def transaction_def deployed_def demo_env_def)
  moreover have "stale demo_intent ?env ?w = (Inr True, ?w\<lparr>uw_tick := Suc (uw_tick ?w)\<rparr>)"
    by (simp add: stale_def bind_def now_ms_def return_def deployed_def demo_intent_def)
  ultimately obtain w' where w': "execute demo_intent ?env ?w = (Inr Aborted, w')"
    by (auto simp: execute_def bind_def return_def)
  have "ids_unique (uw_store ?w)" by (simp add: ids_unique_def demo_open_def)
  moreover have "uw_trace ?w = []" by (simp add: demo_world_def)
  moreover have "phase_is demo_intent Prepared ?w" by (simp add: phase_is_def demo_open_at)
  ultimately show ?thesis
    using w' deployed_uninstall_never_compensates [OF w'] by blast
qed

section \<open>Restart\<close>

lemma fold_upd: "fold (\<lambda>k m. m(k \<mapsto> v)) ks m k = (if k \<in> set ks then Some v else m k)"
  by (induction ks arbitrary: m) auto

text \<open>After a restart every slot with an open uninstall is fenced, and every slot an installation left open:
  none of them is free for another operation until it is reconciled.\<close>

theorem recovered_fences_cover_open_uninstalls:
  assumes "journal_reachable cd st" "codec_faithful cd"
    and "list_all (\<lambda>r. rw_service_id r = service) (filter row_open (ps_uninstalls st))"
  shows "\<exists>ops st' fences. recover_uninstalls cd service now st = Inr (ops, st')
           \<and> recover_fences (Inr installs) (Inr ops) = Inr fences
           \<and> list_all (\<lambda>r. fences (slot r) = Some FenceNeedsReconcile) (filter row_open (ps_uninstalls st'))
           \<and> list_all (\<lambda>k. fences k = Some FenceNeedsReconcile) installs"
proof -
  obtain ops st' where rec: "recover_uninstalls cd service now st = Inr (ops, st')"
      and ops: "list_all2 (\<lambda>op r. (ui_machine_id (op_intent op), ui_plugin_id (op_intent op)) = slot r
                \<and> op_phase op = NeedsAttention) ops (filter row_open (ps_uninstalls st))"
      and slots: "map slot (filter row_open (ps_uninstalls st')) = map slot (filter row_open (ps_uninstalls st))"
    using recovery_total [OF assms] by blast
  have keys: "map (\<lambda>op. (ui_machine_id (op_intent op), ui_plugin_id (op_intent op))) ops
      = map slot (filter row_open (ps_uninstalls st'))"
    using ops unfolding slots by (auto simp: list_all2_conv_all_nth list_eq_iff_nth_eq)
  then have "set (map (\<lambda>op. (ui_machine_id (op_intent op), ui_plugin_id (op_intent op))) ops)
      = slot ` set (filter row_open (ps_uninstalls st'))"
    by (metis set_map)
  then show ?thesis
    using rec by (auto simp: recover_fences_def list_all_iff fold_upd simp del: set_filter)
qed

theorem recovered_fences_cover_open_uninstalls_witness:
  "\<exists>ops st' fences. recover_uninstalls demo_codec ''service'' 9 demo_open = Inr (ops, st')
      \<and> recover_fences (Inr [(''hawk'', ''other'')]) (Inr ops) = Inr fences
      \<and> list_all (\<lambda>r. fences (slot r) = Some FenceNeedsReconcile) (filter row_open (ps_uninstalls st'))
      \<and> list_all (\<lambda>k. fences k = Some FenceNeedsReconcile) [(''hawk'', ''other'')]"
  by (rule recovered_fences_cover_open_uninstalls [OF demo_reachable demo_faithful])
    (simp add: demo_open_def new_row_def demo_intent_def)

end
