(* ===== verification/Plugin_Resolution.thy ===== *)
theory Plugin_Resolution
  imports Plugin_Execution
begin

text \<open>
  What stands before and after an uninstall run: the preview an operator confirms and its validation against
  the present state (\<^verbatim>\<open>src/components/server/src/server/plugin_uninstall.rs\<close>), and the resolution of an
  interrupted operation with its own previews (\<^verbatim>\<open>plugin_uninstall/resolution.rs\<close>). A hash map of previews is an
  association list. Proved here: a preview is consumed at most once and by its owner for its target, the
  intent written is the plan that was confirmed, and a resolution releases the slot only when its decision is
  durable, even when the answer of the commit is lost.
\<close>

section \<open>The uninstall preview\<close>

record uninstall_plan =
  up_actor :: actor
  up_machine_id :: string
  up_plugin_id :: string
  up_plugin_version :: string
  up_generation_digest :: string
  up_installation_revision :: "installation_revision option"
  up_contract_fingerprint :: string
  up_session_ids :: "string list"
  up_active_session_ids :: "string list"
  up_purge_after_ms :: int
  up_expires_at_ms :: int

record uninstall_request =
  uq_plan_id :: string
  uq_confirm_active_sessions :: bool

definition consume_preview ::
    "(string \<times> uninstall_plan) list \<Rightarrow> actor \<Rightarrow> string \<Rightarrow> string \<Rightarrow> uninstall_request \<Rightarrow> int
     \<Rightarrow> string + uninstall_plan \<times> (string \<times> uninstall_plan) list" where
  "consume_preview plans a machine plugin q now =
     rbind (ok_or (map_of plans (uq_plan_id q))
       ''uninstall preview missing or consumed; inspect operations before retrying'') (\<lambda>plan.
       if up_actor plan \<noteq> a \<or> up_machine_id plan \<noteq> machine \<or> up_plugin_id plan \<noteq> plugin
          \<or> up_expires_at_ms plan < now
       then Inl ''uninstall preview owner, target or expiry changed''
       else if up_active_session_ids plan \<noteq> [] \<and> \<not> uq_confirm_active_sessions q
       then Inl ''active sessions require an explicit second confirmation''
       else Inr (plan, adelete (uq_plan_id q) plans))"

section \<open>Validation against the present state\<close>

datatype plugin_kind = AgentProvider | AuthenticationProvider | CapabilityPlugin

record current_plugin =
  cp_kind :: plugin_kind
  cp_plugin_version :: string
  cp_generation_digest :: string
  cp_installation_revision :: "installation_revision option"
  cp_contract_fingerprint :: string

record affected_session =
  ss_id :: string
  ss_machine_id :: string
  ss_provider :: string
  ss_busy :: bool

definition INSTALLATION_CAS_ENABLED :: bool where "INSTALLATION_CAS_ENABLED = True"

definition affected_sessions :: "uninstall_plan \<Rightarrow> current_plugin \<Rightarrow> affected_session list \<Rightarrow> affected_session list" where
  "affected_sessions plan current sessions =
     sort_key ss_id (filter (\<lambda>s. cp_kind current = AgentProvider \<and> ss_machine_id s = up_machine_id plan
                               \<and> ss_provider s = up_plugin_id plan) sessions)"

text \<open>\<open>current\<close> is the Machine's installed Plugin and \<open>trusted\<close> the contract fingerprint of the catalog's
  verified release, each an error when it is not to be had; \<open>live\<close> tells which sessions have a worker.\<close>

definition validate_intent ::
    "plugin_codec \<Rightarrow> string \<Rightarrow> int \<Rightarrow> string + current_plugin \<Rightarrow> string + string \<Rightarrow> affected_session list
     \<Rightarrow> (string \<Rightarrow> bool) \<Rightarrow> string \<Rightarrow> uninstall_plan \<Rightarrow> string + uninstall_intent" where
  "validate_intent cd service now current trusted sessions live oid plan =
     (if \<not> now \<le> up_expires_at_ms plan then Inl ''uninstall preview expired''
      else if \<not> (INSTALLATION_CAS_ENABLED \<or> up_installation_revision plan = None)
      then Inl ''installation CAS is reader-only''
      else rbind current (\<lambda>cur.
      if \<not> (cp_generation_digest cur = up_generation_digest plan \<and> cp_plugin_version cur = up_plugin_version plan
            \<and> cp_contract_fingerprint cur = up_contract_fingerprint plan)
      then Inl ''Plugin release changed; refresh the uninstall plan''
      else if cp_installation_revision cur \<noteq> up_installation_revision plan
      then Inl ''Plugin installation changed; refresh the uninstall plan''
      else rbind trusted (\<lambda>fingerprint.
      if fingerprint \<noteq> up_contract_fingerprint plan then Inl ''uninstall release is not trusted''
      else
        let affected = affected_sessions plan cur sessions;
            ids = map ss_id affected;
            active = map ss_id (filter ss_busy affected) in
        if \<not> (ids = up_session_ids plan \<and> active = up_active_session_ids plan)
        then Inl ''uninstall impact changed; refresh the plan''
        else
          let i = \<lparr>ui_schema = (if up_installation_revision plan \<noteq> None then 2 else 1), ui_operation_id = oid,
                   ui_service_id = service, ui_actor = up_actor plan, ui_machine_id = up_machine_id plan,
                   ui_plugin_id = up_plugin_id plan, ui_plugin_version = up_plugin_version plan,
                   ui_generation_digest = up_generation_digest plan,
                   ui_installation_revision = up_installation_revision plan,
                   ui_contract_fingerprint = up_contract_fingerprint plan, ui_session_ids = ids,
                   ui_active_session_ids = active, ui_live_session_ids = filter live ids,
                   ui_purge_after_ms = up_purge_after_ms plan, ui_expires_at_ms = up_expires_at_ms plan\<rparr>
          in rbind (intent_validate cd i) (\<lambda>_. Inr i))))"

section \<open>Resolution previews\<close>

record resolution_preview =
  pv_intent :: resolution_intent
  pv_budget :: operation_budget

record resolution_confirmation =
  rc_plan_id :: string
  rc_action :: resolution_action

definition TWO_MINUTES :: nat where "TWO_MINUTES = 120000000000"

text \<open>Every check of a budget reads the clock; \<open>retain\<close> reads it once for each preview.\<close>

definition retain_open ::
    "(nat \<Rightarrow> time_sample) \<Rightarrow> (string \<times> resolution_preview) list \<Rightarrow> (string \<times> resolution_preview) list" where
  "retain_open clock plans =
     List.map_filter (\<lambda>(n, k, p).
       let (expired, b) = check_at (clock n) (pv_budget p) in if expired then None else Some (k, p\<lparr>pv_budget := b\<rparr>))
       (List.enumerate 0 plans)"

definition insert_preview ::
    "(nat \<Rightarrow> time_sample) \<Rightarrow> time_sample \<Rightarrow> time_sample \<Rightarrow> resolution_intent \<Rightarrow> (string \<times> resolution_preview) list
     \<Rightarrow> (string + unit) \<times> (string \<times> resolution_preview) list" where
  "insert_preview clock received checked i plans =
     (case resolution_validate i of
        Inl e \<Rightarrow> (Inl e, plans)
      | Inr _ \<Rightarrow>
          let plans = retain_open clock plans in
          if \<not> length plans < 256 then (Inl ''resolution preview capacity exhausted'', plans)
          else if map_of plans (ri_resolution_id i) \<noteq> None then (Inl ''resolution preview identity reused'', plans)
          else let (expired, b) = check_at checked (new_budget (ri_expires_at_ms i) TWO_MINUTES received) in
          if expired then (Inl ''resolution preview expired'', plans)
          else (Inr (), (ri_resolution_id i, \<lparr>pv_intent = i, pv_budget = b\<rparr>) # plans))"

text \<open>The budget is asked last, only when everything else agrees; asking it moves its wall clock.\<close>

definition consume_resolution ::
    "time_sample \<Rightarrow> actor \<Rightarrow> string \<Rightarrow> string \<times> string \<times> string \<Rightarrow> resolution_confirmation
     \<Rightarrow> (string \<times> resolution_preview) list \<Rightarrow> (string + resolution_intent) \<times> (string \<times> resolution_preview) list" where
  "consume_resolution s a service target q plans =
     (case map_of plans (rc_plan_id q) of
        None \<Rightarrow> (Inl ''resolution preview missing or consumed'', plans)
      | Some p \<Rightarrow>
          let i = pv_intent p; (machine, plugin, op) = target in
          if \<not> (ri_actor i = a \<and> ri_service_id i = service \<and> ri_machine_id i = machine \<and> ri_plugin_id i = plugin
                \<and> ri_operation_id i = op \<and> ri_action i = rc_action q)
          then (Inl ''resolution preview owner, action, target or expiry changed'', plans)
          else let (expired, b) = check_at s (pv_budget p) in
          if expired
          then (Inl ''resolution preview owner, action, target or expiry changed'',
                map (\<lambda>(k, v). if k = rc_plan_id q then (k, v\<lparr>pv_budget := b\<rparr>) else (k, v)) plans)
          else (Inr i, adelete (rc_plan_id q) plans))"

definition candidates :: "operation \<Rightarrow> resolution_action list" where
  "candidates op = (if can_abort_before_effects op then [AbortBeforeEffects] else [])"

section \<open>Resolving\<close>

definition read_resolution :: "string \<Rightarrow> resolution_receipt option prog" where
  "read_resolution i env w =
     (let w' = w\<lparr>uw_tick := Suc (uw_tick w)\<rparr> in
      if sr_fault env (uw_tick w) \<noteq> NoFault then (Inl ''database unavailable'', w')
      else (uninstall_resolution (sr_codec env) i (uw_store w), w'))"

text \<open>The transaction's receipt carries the clock reading of its commit.\<close>

definition resolve :: "time_sample \<times> time_sample \<times> time_sample \<Rightarrow> resolution_permit \<Rightarrow> resolution_receipt prog" where
  "resolve samples permit env w =
     (let (s1, s2, s3) = samples in
      bind (transaction (\<lambda>cd now st. rbind (resolve_uninstall cd s1 s2 s3 now permit st) (\<lambda>(_, st'). Inr st')))
        (\<lambda>_. return \<lparr>rr_intent = rp_intent permit, rr_resolved_at_ms = sr_now env (uw_tick w)\<rparr>) env w)"

definition lift_result :: "string + 'a \<Rightarrow> 'a prog" where
  "lift_result r env w = (r, w)"

definition confirm_saved :: "resolution_permit \<Rightarrow> string \<Rightarrow> resolution_receipt prog" where
  "confirm_saved permit e =
     bind (read_resolution (ri_operation_id (rp_intent permit))) (\<lambda>found. case found of
       None \<Rightarrow> fail e
     | Some saved \<Rightarrow>
         if rr_intent saved \<noteq> rp_intent permit then fail ''another resolution owns this result''
         else bind (read_operation (ri_operation_id (rr_intent saved))) (\<lambda>op. case op of
                None \<Rightarrow> fail ''resolution operation unavailable''
              | Some op \<Rightarrow> bind (\<lambda>env. lift_result (matches_completed (sr_codec env) saved op) env) (\<lambda>ok.
                  if \<not> ok then fail ''resolution result is inconsistent'' else return saved)))"

definition resolve_receipt :: "time_sample \<times> time_sample \<times> time_sample \<Rightarrow> resolution_permit \<Rightarrow> resolution_receipt prog" where
  "resolve_receipt samples permit =
     bind (catching (resolve samples permit)) (\<lambda>r. case r of Inr receipt \<Rightarrow> return receipt | Inl e \<Rightarrow> confirm_saved permit e)"

definition resolve_no_effect ::
    "surroundings \<Rightarrow> time_sample \<times> time_sample \<times> time_sample \<Rightarrow> resolution_permit \<Rightarrow> operation_fence \<Rightarrow> uninstall_world
     \<Rightarrow> (string + resolution_receipt) \<times> uninstall_world" where
  "resolve_no_effect env samples permit fence w =
     (case resolve_receipt samples permit env w of
        (Inl e, w') \<Rightarrow> (Inl e, fence_drop fence w')
      | (Inr receipt, w') \<Rightarrow>
          let (fence, w'') = fence_finish (terminal_phase (ri_action (rr_intent receipt))) fence w'
          in (Inr receipt, fence_drop fence w''))"

section \<open>Entry points\<close>

text \<open>\<open>confirmed_uninstall\<close>: consume the preview, take the slot, run. The admission checks see the plan that
  was consumed and the world the fence left.\<close>

definition confirmed_uninstall ::
    "surroundings \<Rightarrow> (uninstall_plan \<Rightarrow> string + uninstall_intent) \<Rightarrow> actor \<Rightarrow> string \<Rightarrow> string \<Rightarrow> uninstall_request \<Rightarrow> int
     \<Rightarrow> (string \<times> uninstall_plan) list \<times> uninstall_world
     \<Rightarrow> (string + uninstall_response) \<times> (string \<times> uninstall_plan) list \<times> uninstall_world" where
  "confirmed_uninstall env admission a machine plugin q now pw =
     (let (plans, w) = pw in
      case consume_preview plans a machine plugin q now of
        Inl e \<Rightarrow> (Inl e, plans, w)
      | Inr (plan, plans) \<Rightarrow> (case acquire (machine, plugin) w of
          Inl e \<Rightarrow> (Inl e, plans, w)
        | Inr (fence, w) \<Rightarrow>
            let (response, w) = run_admitted env (admission plan) fence w in (Inr response, plans, w)))"

text \<open>\<open>reconcile_uninstall\<close>: a receipt already stored is returned as it is; otherwise the Machine's evidence completes
  the operation under the slot's fence. \<open>evidence\<close> is what the Machine observes and \<open>authorize\<close> the budget
  the operator's authority grants to the resolution, each an error when it is not to be had.\<close>

definition reconcile_known :: "string \<Rightarrow> operation \<Rightarrow> (resolution_receipt + operation) prog" where
  "reconcile_known oid before =
     bind (read_resolution oid) (\<lambda>stored. case stored of
       Some receipt \<Rightarrow> bind (\<lambda>env. lift_result (matches_completed (sr_codec env) receipt before) env) (\<lambda>ok.
         if \<not> (ok \<and> ri_action (rr_intent receipt) = CompleteVerifiedRemoval)
         then fail ''resolution evidence changed'' else return (Inl receipt))
     | None \<Rightarrow>
         if \<not> can_complete_removal before then fail ''operation is not a completion candidate''
         else return (Inr before))"

definition reconcile_start :: "string \<Rightarrow> string \<times> string \<Rightarrow> string \<Rightarrow> (resolution_receipt + operation) prog" where
  "reconcile_start service target oid =
     bind (read_operation oid) (\<lambda>found. case found of
       None \<Rightarrow> fail ''operation missing''
     | Some before \<Rightarrow>
         if \<not> (ui_service_id (op_intent before) = service
               \<and> (ui_machine_id (op_intent before), ui_plugin_id (op_intent before)) = target)
         then fail ''operation identity changed''
         else reconcile_known oid before)"

definition reconcile_uninstall ::
    "surroundings \<Rightarrow> time_sample \<times> time_sample \<times> time_sample \<Rightarrow> bool \<Rightarrow> string \<Rightarrow> string \<times> string \<Rightarrow> string \<Rightarrow> string \<Rightarrow> actor
     \<Rightarrow> string + recovery_observation \<Rightarrow> (resolution_intent \<Rightarrow> string + operation_budget) \<Rightarrow> int \<Rightarrow> uninstall_world
     \<Rightarrow> (string + resolution_receipt) \<times> uninstall_world" where
  "reconcile_uninstall env samples operator service target oid rid a evidence authorize now w =
     (if \<not> operator then (Inl ''Operator authority ended'', w)
      else case reconcile_start service target oid env w of
        (Inl e, w) \<Rightarrow> (Inl e, w)
      | (Inr (Inl receipt), w) \<Rightarrow> (Inr receipt, w)
      | (Inr (Inr before), w) \<Rightarrow> (case acquire_resolution target w of
          Inl e \<Rightarrow> (Inl e, w)
        | Inr (fence, w) \<Rightarrow>
            (case rbind (machine_step (sr_codec env) (op_intent before)) (\<lambda>_.
                  rbind evidence (\<lambda>ob.
                  rbind (complete_removal (sr_codec env) rid a before (now + 60000) ob) (\<lambda>i.
                  rbind (authorize i) (\<lambda>budget. Inr \<lparr>rp_intent = i, rp_budget = budget\<rparr>)))) of
               Inl e \<Rightarrow> (Inl e, fence_drop fence w)
             | Inr permit \<Rightarrow> resolve_no_effect env samples permit fence w)))"

section \<open>Previews are single use\<close>

text \<open>A confirmed preview is consumed: it was the actor's own, for this target and not expired, its active
  sessions were confirmed, and the same confirmation is refused from then on.\<close>

theorem preview_is_consumed_once:
  assumes "consume_preview plans a machine plugin q now = Inr (plan, plans')"
  shows "map_of plans (uq_plan_id q) = Some plan \<and> up_actor plan = a \<and> up_machine_id plan = machine
       \<and> up_plugin_id plan = plugin \<and> now \<le> up_expires_at_ms plan
       \<and> (up_active_session_ids plan = [] \<or> uq_confirm_active_sessions q)
       \<and> consume_preview plans' a' machine' plugin' (q\<lparr>uq_confirm_active_sessions := c\<rparr>) now'
           = Inl ''uninstall preview missing or consumed; inspect operations before retrying''"
  using assms by (auto simp: consume_preview_def ok_or_def split: if_splits option.splits)

definition demo_plan :: uninstall_plan where
  "demo_plan =
     \<lparr>up_actor = Product ''user'', up_machine_id = ''hawk'', up_plugin_id = ''victoria'',
      up_plugin_version = ''1.1.0'', up_generation_digest = demo_sha, up_installation_revision = None,
      up_contract_fingerprint = demo_sha, up_session_ids = [''s1'', ''s2''], up_active_session_ids = [],
      up_purge_after_ms = 2000, up_expires_at_ms = 1000\<rparr>"

theorem preview_is_consumed_once_witness:
  "consume_preview [(''plan'', demo_plan)] (Product ''user'') ''hawk'' ''victoria''
      \<lparr>uq_plan_id = ''plan'', uq_confirm_active_sessions = False\<rparr> 900 = Inr (demo_plan, [])
   \<and> consume_preview [] (Product ''user'') ''hawk'' ''victoria''
      \<lparr>uq_plan_id = ''plan'', uq_confirm_active_sessions = True\<rparr> 901
        = Inl ''uninstall preview missing or consumed; inspect operations before retrying''"
proof -
  have "consume_preview [(''plan'', demo_plan)] (Product ''user'') ''hawk'' ''victoria''
      \<lparr>uq_plan_id = ''plan'', uq_confirm_active_sessions = False\<rparr> 900 = Inr (demo_plan, [])"
    by (simp add: consume_preview_def demo_plan_def adelete_def)
  then show ?thesis
    using preview_is_consumed_once [of "[(''plan'', demo_plan)]" "Product ''user''" "''hawk''" "''victoria''"
        "\<lparr>uq_plan_id = ''plan'', uq_confirm_active_sessions = False\<rparr>" 900 demo_plan "[]"
        "Product ''user''" "''hawk''" "''victoria''" True 901]
    by simp
qed

lemma retained_length: "length (retain_open clock plans) \<le> length plans"
  by (simp add: retain_open_def List.map_filter_def le_trans [OF length_filter_le])

lemma preview_capacity:
  "length plans \<le> 256 \<Longrightarrow> length (snd (insert_preview clock received checked i plans)) \<le> 256"
  using retained_length [of clock plans]
  by (auto simp: insert_preview_def Let_def split_beta split: sum.splits)

text \<open>What is written is what was confirmed: an admitted intent is the reviewed plan under the operation's
  identity, for exactly the sessions that exist now, and it passes the checks of the journal.\<close>

theorem validated_intent_is_the_confirmed_plan:
  assumes "validate_intent cd service now current trusted sessions live oid plan = Inr i"
  shows "intent_validate cd i = Inr () \<and> ui_operation_id i = oid \<and> ui_actor i = up_actor plan
       \<and> ui_machine_id i = up_machine_id plan \<and> ui_plugin_id i = up_plugin_id plan
       \<and> ui_generation_digest i = up_generation_digest plan \<and> ui_expires_at_ms i = up_expires_at_ms plan
       \<and> ui_session_ids i = up_session_ids plan \<and> ui_active_session_ids i = up_active_session_ids plan
       \<and> (\<exists>cur. current = Inr cur \<and> cp_generation_digest cur = up_generation_digest plan
            \<and> (cp_kind cur = AgentProvider \<longrightarrow> set (ui_session_ids i)
                 = ss_id ` {s \<in> set sessions. ss_machine_id s = up_machine_id plan \<and> ss_provider s = up_plugin_id plan}))"
proof -
  obtain cur where cur: "current = Inr cur" "cp_generation_digest cur = up_generation_digest plan"
      and ids: "up_session_ids plan = map ss_id (affected_sessions plan cur sessions)"
      and i: "intent_validate cd i = Inr () \<and> ui_operation_id i = oid \<and> ui_actor i = up_actor plan
       \<and> ui_machine_id i = up_machine_id plan \<and> ui_plugin_id i = up_plugin_id plan
       \<and> ui_generation_digest i = up_generation_digest plan \<and> ui_expires_at_ms i = up_expires_at_ms plan
       \<and> ui_session_ids i = up_session_ids plan \<and> ui_active_session_ids i = up_active_session_ids plan"
    using assms by (auto simp: validate_intent_def Let_def split: if_splits)
  have "cp_kind cur = AgentProvider \<Longrightarrow> set (up_session_ids plan)
      = ss_id ` {s \<in> set sessions. ss_machine_id s = up_machine_id plan \<and> ss_provider s = up_plugin_id plan}"
    unfolding ids by (simp add: affected_sessions_def)
  then show ?thesis using cur i by auto
qed

definition demo_affected :: "string \<Rightarrow> affected_session" where
  "demo_affected s = \<lparr>ss_id = s, ss_machine_id = ''hawk'', ss_provider = ''victoria'', ss_busy = False\<rparr>"

definition demo_current :: current_plugin where
  "demo_current = \<lparr>cp_kind = AgentProvider, cp_plugin_version = ''1.1.0'', cp_generation_digest = demo_sha,
     cp_installation_revision = None, cp_contract_fingerprint = demo_sha\<rparr>"

theorem validated_intent_is_the_confirmed_plan_witness:
  "ui_actor demo_intent = up_actor demo_plan \<and> ui_session_ids demo_intent = up_session_ids demo_plan
   \<and> validate_intent demo_codec ''service'' 900 (Inr demo_current) (Inr demo_sha) (map demo_affected [''s2'', ''s1''])
        (\<lambda>s. s = ''s2'') ''operation-0000001'' demo_plan = Inr demo_intent"
proof -
  have "validate_intent demo_codec ''service'' 900 (Inr demo_current) (Inr demo_sha) (map demo_affected [''s2'', ''s1''])
        (\<lambda>s. s = ''s2'') ''operation-0000001'' demo_plan = Inr demo_intent"
    by code_simp
  then show ?thesis using validated_intent_is_the_confirmed_plan by blast
qed

section \<open>A resolution releases the slot only when it is durably\<close>

abbreviation durably :: "string \<Rightarrow> uninstall_phase \<Rightarrow> uninstall_world \<Rightarrow> bool" where
  "durably i p w \<equiv> map_option rw_phase (row_of (uw_store w) i) = Some p"

lemma resolve_durable:
  assumes "resolve samples permit env w = (Inr receipt, w')"
  shows "rr_intent receipt = rp_intent permit
       \<and> durably (ri_operation_id (rp_intent permit)) (terminal_phase (ri_action (rp_intent permit))) w'"
proof -
  let ?i = "rp_intent permit"
  obtain s1 s2 s3 st' rc now where res: "resolve_uninstall (sr_codec env) s1 s2 s3 now permit (uw_store w) = Inr (rc, st')"
      and st: "uw_store w' = st'" and rr: "rr_intent receipt = ?i"
    using assms
    by (auto simp: resolve_def bind_Inr transaction_def Let_def return_def split: prod.splits if_splits sum.splits)
  obtain op where op: "uninstall_operation (sr_codec env) (ri_operation_id ?i) (uw_store w) = Inr (Some op)"
      and st': "st' = (uw_store w)\<lparr>ps_uninstalls := map (resolve_g ?i now) (ps_uninstalls (uw_store w)),
                 ps_resolutions := ps_resolutions (uw_store w) @ [resolution_row_of (sr_codec env) ?i now]\<rparr>"
    using res by (rule resolve_effect)
  obtain r where r: "row_of (uw_store w) (ri_operation_id ?i) = Some r"
    using op by (auto simp: uninstall_operation_def split: option.splits)
  have idg: "rw_operation_id (resolve_g ?i now r) = rw_operation_id r" for r by (rule frozen_id) simp
  have "row_of st' (ri_operation_id ?i) = Some (resolve_g ?i now r)"
    using r row_of_map [of "resolve_g ?i now" "uw_store w" "ri_operation_id ?i", OF idg]
    by (simp add: st' row_of_def)
  then show ?thesis
    using rr st row_of_SomeD [OF r] by (simp add: resolve_g_def resolve_row_def)
qed

lemma read_operation_durable:
  "read_operation i env w = (Inr (Some op), w') \<Longrightarrow> durably i (op_phase op) w'"
  by (auto simp: read_operation_def Let_def uninstall_operation_def decode_row_def operation_of_def
      split: option.splits if_splits)

lemma confirm_saved_durable:
  assumes "confirm_saved permit e env w = (Inr receipt, w')"
  shows "rr_intent receipt = rp_intent permit
       \<and> durably (ri_operation_id (rp_intent permit)) (terminal_phase (ri_action (rp_intent permit))) w'"
proof -
  from assms obtain saved w1 where 1: "(if rr_intent saved \<noteq> rp_intent permit then fail ''another resolution owns this result''
         else bind (read_operation (ri_operation_id (rr_intent saved))) (\<lambda>op. case op of
                None \<Rightarrow> fail ''resolution operation unavailable''
              | Some op \<Rightarrow> bind (\<lambda>env. lift_result (matches_completed (sr_codec env) saved op) env) (\<lambda>ok.
                  if \<not> ok then fail ''resolution result is inconsistent'' else return saved))) env w1 = (Inr receipt, w')"
    unfolding confirm_saved_def bind_Inr by (auto simp: fail_def split: option.splits)
  then have same: "rr_intent saved = rp_intent permit" by (auto simp: fail_def split: if_splits)
  with 1 obtain op w2 where 2: "read_operation (ri_operation_id (rr_intent saved)) env w1 = (Inr (Some op), w2)"
      and 3: "bind (\<lambda>env. lift_result (matches_completed (sr_codec env) saved op) env) (\<lambda>ok.
                  if \<not> ok then fail ''resolution result is inconsistent'' else return saved) env w2 = (Inr receipt, w')"
    by (auto simp: bind_Inr fail_def split: option.splits)
  from 3 have "matches_completed (sr_codec env) saved op = Inr True" "receipt = saved" "w' = w2"
    by (auto simp: bind_Inr lift_result_def fail_def return_def split: if_splits)
  moreover from this(1) have "op_phase op = terminal_phase (ri_action (rr_intent saved))"
    by (auto simp: matches_completed_def split: if_splits)
  ultimately show ?thesis using read_operation_durable [OF 2] same by simp
qed

lemma resolve_receipt_durable:
  assumes "resolve_receipt samples permit env w = (Inr receipt, w')"
  shows "rr_intent receipt = rp_intent permit
       \<and> durably (ri_operation_id (rp_intent permit)) (terminal_phase (ri_action (rp_intent permit))) w'"
proof -
  obtain r w1 where r: "resolve samples permit env w = (r, w1)"
      "(case r of Inr receipt \<Rightarrow> return receipt | Inl e \<Rightarrow> confirm_saved permit e) env w1 = (Inr receipt, w')"
    using assms by (auto simp: resolve_receipt_def bind_Inr attempt_Inr)
  then show ?thesis
    using resolve_durable confirm_saved_durable by (cases r) (auto simp: return_def)
qed



lemma complete_removal_intent:
  "complete_removal cd rid a op expires ob = Inr i \<Longrightarrow>
     ri_operation_id i = ui_operation_id (op_intent op) \<and> ri_action i = CompleteVerifiedRemoval"
  by (auto simp: complete_removal_def Let_def resolution_of_def split: if_splits)

lemma read_operation_id:
  "read_operation oid env w = (Inr (Some op), w') \<Longrightarrow> ui_operation_id (op_intent op) = oid"
  by (auto simp: read_operation_def Let_def uninstall_operation_def decode_row_def operation_of_def row_intent_def
      split: option.splits if_splits dest: row_of_SomeD)

lemma reconcile_known_cases:
  assumes "reconcile_known oid before env w1 = (Inr v, w')"
  shows "uw_store w' = uw_store w1 \<and> (case v of Inl receipt \<Rightarrow> op_phase before = Completed | Inr b \<Rightarrow> b = before)"
proof -
  obtain stored w2 where r: "read_resolution oid env w1 = (Inr stored, w2)"
      and k: "(case stored of
         Some receipt \<Rightarrow> bind (\<lambda>env. lift_result (matches_completed (sr_codec env) receipt before) env) (\<lambda>ok.
           if \<not> (ok \<and> ri_action (rr_intent receipt) = CompleteVerifiedRemoval)
           then fail ''resolution evidence changed'' else return (Inl receipt))
       | None \<Rightarrow>
           if \<not> can_complete_removal before then fail ''operation is not a completion candidate''
           else return (Inr before)) env w2 = (Inr v, w')"
    using assms unfolding reconcile_known_def bind_Inr by blast
  have "uw_store w2 = uw_store w1"
    using r by (auto simp: read_resolution_def Let_def split: if_splits)
  then show ?thesis
    using k by (cases stored)
      (auto simp: bind_Inr fail_def return_def lift_result_def matches_completed_def split: if_splits)
qed

lemma reconcile_start_cases:
  assumes "reconcile_start service target oid env w = (Inr v, w')"
  shows "case v of Inl receipt \<Rightarrow> durably oid Completed w' | Inr before \<Rightarrow> ui_operation_id (op_intent before) = oid"
proof -
  obtain before w1 where 1: "read_operation oid env w = (Inr (Some before), w1)"
      and 2: "reconcile_known oid before env w1 = (Inr v, w')"
    using assms by (auto simp: reconcile_start_def bind_Inr fail_def split: option.splits if_splits)
  show ?thesis
    using reconcile_known_cases [OF 2] read_operation_durable [OF 1] read_operation_id [OF 1] by (cases v) simp_all
qed

text \<open>A reconciliation that succeeds has completed the operation it names, durably.\<close>

theorem reconciled_uninstall_is_completed:
  assumes "reconcile_uninstall env samples operator service target oid rid a evidence authorize now w = (Inr receipt, w')"
  shows "durably oid Completed w'"
proof -
  obtain v w1 where v: "reconcile_start service target oid env w = (Inr v, w1)"
    using assms by (auto simp: reconcile_uninstall_def split: if_splits prod.splits sum.splits)
  show ?thesis
  proof (cases v)
    case (Inl r)
    then show ?thesis using assms v reconcile_start_cases [OF v] by (auto simp: reconcile_uninstall_def split: if_splits)
  next
    case (Inr before)
    then have id: "ui_operation_id (op_intent before) = oid" using reconcile_start_cases [OF v] by simp
    obtain fence w2 i budget ob where p: "resolve_no_effect env samples \<lparr>rp_intent = i, rp_budget = budget\<rparr> fence w2 = (Inr receipt, w')"
        and i: "complete_removal (sr_codec env) rid a before (now + 60000) ob = Inr i"
      using assms v Inr by (auto simp: reconcile_uninstall_def rbind_Inl_iff split: if_splits prod.splits sum.splits)
    obtain w3 where "resolve_receipt samples \<lparr>rp_intent = i, rp_budget = budget\<rparr> env w2 = (Inr receipt, w3)"
        "uw_store w' = uw_store w3"
      using p by (auto simp: resolve_no_effect_def fence_finish_def fence_drop_def split: prod.splits sum.splits)
    then show ?thesis using resolve_receipt_durable complete_removal_intent [OF i] id by fastforce
  qed
qed

end
