(* ===== verification/Execution_Protocol.thy ===== *)
theory Execution_Protocol
  imports Execution_Binding Event_Reducer
begin

text \<open>
  The execution protocol between a worker and the keeper of a session's execution environment:
  \<^verbatim>\<open>src/components/wire/src/execution_protocol.rs\<close>, the launch contract a keeper accepts
  (\<^verbatim>\<open>validate_contract\<close> of \<^verbatim>\<open>src/components/machine/src/execution_host.rs\<close> and
  \<^verbatim>\<open>src/src/execution_target_environment.rs\<close>) and the read-only constraint of a managed child
  (\<^verbatim>\<open>src/components/machine/src/execution_host/read_only.rs\<close>). JSON printing (serde_json), SHA-256
  (sha2) and file URLs (url) belong to libraries and are parameters.
\<close>

record execution_codec =
  xc_encode :: "json \<Rightarrow> string"
  xc_sha256 :: "string \<Rightarrow> string"
  xc_file_url :: "string \<Rightarrow> string option"

section \<open>Messages\<close>

definition WIRE_SCHEMA :: u16 where "WIRE_SCHEMA = 1"
definition MAX_EXECUTION_FRAME_BYTES :: nat where "MAX_EXECUTION_FRAME_BYTES = 14 * 1024 * 1024"
definition MAX_WAIT_MS :: nat where "MAX_WAIT_MS = 20000"

record execution_scope =
  sc_binding_id :: string
  sc_revision :: u64
  sc_incarnation :: string

definition scope_of_binding :: "binding_v1 \<Rightarrow> execution_scope" where
  "scope_of_binding b = \<lparr>sc_binding_id = xb_id b, sc_revision = xb_revision b,
     sc_incarnation = xe_incarnation (xb_environment b)\<rparr>"

record invocation =
  iv_operation_id :: string
  iv_method :: string
  iv_params :: json

datatype command =
    Describe
  | Shutdown
  | Invoke invocation nat
  | Observe string nat
  | EventsAfter nat nat

record execution_request =
  xq_schema :: u16
  xq_scope :: execution_scope
  xq_capability :: string
  xq_command :: command

datatype execution_outcome =
    OutPending
  | OutCompleted json
  | OutUnknown
  | OutExpired
  | OutMissing

record execution_event =
  ev_sequence :: nat
  ev_message :: json

datatype refusal =
    RefUnauthorized
  | RefInvalidRequest
  | RefEnvironmentLost
  | RefWorkspaceChanged
  | RefOperationConflict
  | RefCapacity
  | RefCursorExpired

datatype response =
    RespClosed
  | RespReady execution_scope json nat
  | RespOperation execution_outcome
  | RespEvents "execution_event list" nat
  | RespRefused refusal

definition TIMED_SUFFIX :: string where "TIMED_SUFFIX = ''-t''"
definition EXECUTED_MS :: string where "EXECUTED_MS = ''cowboy_executed_ms''"

definition valid_operation_id :: "string \<Rightarrow> bool" where
  "valid_operation_id value \<longleftrightarrow>
     value \<noteq> [] \<and> length value \<le> 128
   \<and> list_all (\<lambda>b. is_ascii_alnum b \<or> b \<in> set ''-_'') value"

definition invocation_json :: "invocation \<Rightarrow> json" where
  "invocation_json i = JObj [(''operation_id'', JStr (iv_operation_id i)), (''method'', JStr (iv_method i)),
     (''params'', iv_params i)]"

definition is_object :: "json \<Rightarrow> bool" where
  "is_object v \<longleftrightarrow> (case v of JObj _ \<Rightarrow> True | _ \<Rightarrow> False)"

definition validate_invocation :: "(json \<Rightarrow> string) \<Rightarrow> invocation \<Rightarrow> bool" where
  "validate_invocation encode i \<longleftrightarrow>
     valid_operation_id (iv_operation_id i)
   \<and> iv_method i \<noteq> [] \<and> length (iv_method i) \<le> 128
   \<and> list_all (\<lambda>b. is_ascii_alnum b \<or> b \<in> set ''/_'') (iv_method i)
   \<and> iv_method i \<noteq> ''initialize'' \<and> iv_method i \<noteq> ''initialized''
   \<and> is_object (iv_params i)
   \<and> length (encode (invocation_json i)) \<le> MAX_EXECUTION_FRAME_BYTES div 2"

definition CALL_CONTEXT_ENV :: string where "CALL_CONTEXT_ENV = ''COWBOY_CALL_CONTEXT''"

definition with_call_context :: "string \<Rightarrow> json \<Rightarrow> string option \<Rightarrow> json" where
  "with_call_context method params context =
     (if method = ''process/start''
      then (case context of
          None \<Rightarrow> params
        | Some c \<Rightarrow> (case jget ''env'' params of
            Some (JObj kvs) \<Rightarrow> jset ''env'' (jset CALL_CONTEXT_ENV (JStr c) (JObj kvs)) params
          | _ \<Rightarrow> params))
      else params)"

section \<open>The launch contract\<close>

record managed_execution =
  me_profile :: managed_profile
  me_round_path :: string

record executor =
  ex_command :: string
  ex_sha256 :: string
  ex_version :: string

record launch_contract =
  lc_schema :: u16
  lc_session_id :: string
  lc_binding :: binding_v1
  lc_executor :: executor
  lc_capability :: string
  lc_environment :: "(string \<times> string) list"
  lc_call_context :: "string option"
  lc_managed :: "managed_execution option"

definition BASE_VARIABLES :: "string list" where
  "BASE_VARIABLES = [''HOME'', ''USER'', ''LOGNAME'', ''PATH'', ''SHELL'', ''TMPDIR'', ''LANG'', ''LC_ALL'',
     ''XDG_CACHE_HOME'', ''XDG_CONFIG_HOME'', ''XDG_DATA_HOME'', ''XDG_STATE_HOME'']"

definition MAX_VARIABLES :: nat where "MAX_VARIABLES = 32"

definition RESERVED_PREFIXES :: "string list" where
  "RESERVED_PREFIXES = [''COWBOY_'', ''CODEX_'', ''ANTHROPIC_'', ''CLAUDE_'', ''OPENAI_'', ''DEEPSEEK_'',
     ''GEMINI_'', ''GROK_'', ''LD_'', ''DYLD_'']"

definition RESERVED_SUFFIXES :: "string list" where
  "RESERVED_SUFFIXES = [''_KEY'', ''_TOKEN'', ''_SECRET'', ''_PASSWORD'', ''_CREDENTIALS'']"

definition RESERVED_VARIABLES :: "string list" where
  "RESERVED_VARIABLES = [''BASH_ENV'', ''ENV'', ''IFS'', ''PROMPT_COMMAND'', ''SHELLOPTS'', ''NODE_OPTIONS'']"

definition is_ascii_upper :: "char \<Rightarrow> bool" where
  "is_ascii_upper c \<longleftrightarrow> 65 \<le> byte_of c \<and> byte_of c \<le> 90"

definition is_ascii_number :: "char \<Rightarrow> bool" where
  "is_ascii_number c \<longleftrightarrow> 48 \<le> byte_of c \<and> byte_of c \<le> 57"

definition operator_name_allowed :: "string \<Rightarrow> bool" where
  "operator_name_allowed name \<longleftrightarrow>
     length name \<le> 64
   \<and> (case name of [] \<Rightarrow> False | c # _ \<Rightarrow> is_ascii_upper c)
   \<and> list_all (\<lambda>c. is_ascii_upper c \<or> is_ascii_number c \<or> c = CHR ''_'') name
   \<and> name \<notin> set BASE_VARIABLES \<and> name \<notin> set RESERVED_VARIABLES
   \<and> \<not> list_ex (\<lambda>p. starts_with name p) RESERVED_PREFIXES
   \<and> \<not> list_ex (\<lambda>p. ends_with name p) RESERVED_SUFFIXES"

definition variable_allowed :: "string \<Rightarrow> bool" where
  "variable_allowed name \<longleftrightarrow> name \<in> set BASE_VARIABLES \<or> operator_name_allowed name"

definition is_ascii_hexdigit :: "char \<Rightarrow> bool" where
  "is_ascii_hexdigit c \<longleftrightarrow> is_digest_char c \<or> (65 \<le> byte_of c \<and> byte_of c \<le> 70)"

definition has_nul :: "string \<Rightarrow> bool" where
  "has_nul s \<longleftrightarrow> list_ex (\<lambda>c. byte_of c = 0) s"

definition private_path_ok :: "string \<Rightarrow> bool" where
  "private_path_ok path \<longleftrightarrow> starts_with path ''/'' \<and> length path \<le> 4096 \<and> \<not> has_nul path"

datatype contract_error =
    ContractBinding binding_error
  | ContractLaunch
  | ContractCapability
  | ContractExecutor
  | ContractVersion
  | ContractEnvironment
  | ContractContext
  | ContractManaged

definition ensure :: "bool \<Rightarrow> 'e \<Rightarrow> 'e + unit" where
  "ensure b e = (if b then Inr () else Inl e)"

definition validate_contract :: "launch_contract \<Rightarrow> contract_error + unit" where
  "validate_contract c =
     rbind (map_err ContractBinding (validate_binding (lc_binding c))) (\<lambda>_.
     rbind (ensure (lc_schema c = WIRE_SCHEMA \<and> valid_operation_id (lc_session_id c)) ContractLaunch) (\<lambda>_.
     rbind (ensure (length (lc_capability c) = 64 \<and> list_all is_ascii_hexdigit (lc_capability c)) ContractCapability) (\<lambda>_.
     rbind (ensure (starts_with (ex_command (lc_executor c)) ''/'' \<and> length (ex_sha256 (lc_executor c)) = 64
         \<and> list_all is_ascii_hexdigit (ex_sha256 (lc_executor c))
         \<and> xe_executor_digest (xb_environment (lc_binding c)) = ''sha256:'' @ ex_sha256 (lc_executor c))
       ContractExecutor) (\<lambda>_.
     rbind (ensure (ex_version (lc_executor c) \<noteq> [] \<and> length (ex_version (lc_executor c)) \<le> 64) ContractVersion) (\<lambda>_.
     rbind (ensure (length (lc_environment c) \<le> MAX_VARIABLES
         \<and> list_all (\<lambda>(name, value). variable_allowed name \<and> length value \<le> 8192 \<and> \<not> has_nul value)
             (lc_environment c)) ContractEnvironment) (\<lambda>_.
     rbind (ensure (case lc_call_context c of None \<Rightarrow> True | Some path \<Rightarrow> private_path_ok path)
       ContractContext) (\<lambda>_.
     ensure ((lc_managed c \<noteq> None) = (xb_managed (lc_binding c) \<noteq> None)
         \<and> (case lc_managed c of None \<Rightarrow> True | Some m \<Rightarrow>
               lc_call_context c = None \<and> private_path_ok (me_round_path m)
             \<and> map_option mb_profile (xb_managed (lc_binding c)) = Some (me_profile m)))
       ContractManaged)))))))"

section \<open>The read-only constraint of a managed child\<close>

definition OBSERVING :: "string list" where
  "OBSERVING = [''environment/info'', ''environment/status'', ''environmentConfig/read'',
     ''capabilityRoots/discoverV1'', ''fs/canonicalize'', ''fs/getMetadata'', ''fs/open'', ''fs/readBlock'',
     ''fs/close'', ''fs/readDirectory'', ''fs/readFile'', ''fs/walk'', ''process/read'', ''process/write'',
     ''process/signal'', ''process/terminate'']"

datatype decision = Forward json | RefuseNative json

definition sandbox :: "(string \<Rightarrow> string option) \<Rightarrow> string \<Rightarrow> json option" where
  "sandbox file_url cwd = map_option (\<lambda>url. JObj
     [(''permissions'', JObj
        [(''type'', JStr ''managed''),
         (''file_system'', JObj
            [(''type'', JStr ''restricted''),
             (''entries'', JArr [JObj
                [(''path'', JObj [(''type'', JStr ''special''), (''value'', JObj [(''kind'', JStr ''root'')])]),
                 (''access'', JStr ''read'')]])]),
         (''network'', JStr ''restricted'')]),
      (''cwd'', JStr url),
      (''windowsSandboxLevel'', JStr ''disabled'')]) (file_url cwd)"

definition read_only_refusal :: "string \<Rightarrow> json" where
  "read_only_refusal method = JObj [(''error'', JObj
     [(''code'', JInt (- 32000)),
      (''message'', JStr (''This is a read-only managed call: '' @ method
          @ '' is unavailable. Inspect the snapshot and report findings instead of changing files.''))])]"

definition jremove :: "string \<Rightarrow> json \<Rightarrow> json" where
  "jremove k v = (case v of JObj kvs \<Rightarrow> JObj (adelete k kvs) | _ \<Rightarrow> v)"

definition decide :: "(string \<Rightarrow> string option) \<Rightarrow> string \<Rightarrow> json \<Rightarrow> string \<Rightarrow> decision" where
  "decide file_url method params cwd =
     (if method = ''process/start''
      then (if is_object params
            then (case sandbox file_url cwd of
                None \<Rightarrow> RefuseNative (read_only_refusal method)
              | Some s \<Rightarrow> Forward
                  (jset ''sandbox'' s (jset ''enforceManagedNetwork'' (JBool False)
                     (jremove ''managedNetwork'' (jremove ''networkProxy'' params)))))
            else RefuseNative (read_only_refusal method))
      else if method \<in> set OBSERVING then Forward params
      else RefuseNative (read_only_refusal method))"

section \<open>Facts\<close>

lemma jget_jset_object [simp]: "is_object v \<Longrightarrow> jget k (jset k' w v) = (if k = k' then Some w else jget k v)"
  by (cases v) (simp_all add: is_object_def update_conv)

lemma is_object_jset [simp]: "is_object (jset k w v) = is_object v"
  by (cases v) (simp_all add: is_object_def)

lemma jget_jremove [simp]: "jget k (jremove k' v) = (if k = k' then None else jget k v)"
  by (cases v) (simp_all add: jremove_def)

lemma is_object_jremove [simp]: "is_object (jremove k v) = is_object v"
  by (cases v) (simp_all add: jremove_def is_object_def)

text \<open>What a read-only environment may forward to its executor.\<close>

definition read_only_native :: "(string \<Rightarrow> string option) \<Rightarrow> string \<Rightarrow> string \<Rightarrow> json \<Rightarrow> bool" where
  "read_only_native file_url cwd method params \<longleftrightarrow>
     (if method = ''process/start''
      then (\<exists>s. sandbox file_url cwd = Some s \<and> jget ''sandbox'' params = Some s)
         \<and> jget ''enforceManagedNetwork'' params = Some (JBool False)
         \<and> jget ''networkProxy'' params = None \<and> jget ''managedNetwork'' params = None
      else method \<in> set OBSERVING)"

lemma decide_forwards_read_only:
  "decide file_url method params cwd = Forward native \<Longrightarrow> read_only_native file_url cwd method native"
  by (auto simp: decide_def read_only_native_def split: if_splits option.splits)

lemma decide_keeps_other_members:
  "decide file_url method params cwd = Forward native \<Longrightarrow>
   k \<notin> {''sandbox'', ''enforceManagedNetwork'', ''networkProxy'', ''managedNetwork''} \<Longrightarrow>
   jget k native = jget k params"
  by (auto simp: decide_def split: if_splits option.splits)

lemma with_call_context_other:
  "k \<noteq> ''env'' \<Longrightarrow> jget k (with_call_context method params context) = jget k params"
  by (cases params) (auto simp: with_call_context_def update_conv split: option.splits json.splits)

lemma with_call_context_read_only:
  "read_only_native file_url cwd method (with_call_context method params context)
     = read_only_native file_url cwd method params"
  by (simp add: read_only_native_def with_call_context_other)

lemma ensure_Inr [simp]: "ensure b e = Inr u \<longleftrightarrow> b"
  by (simp add: ensure_def)

lemma managed_contract_constrained:
  "validate_contract c = Inr () \<Longrightarrow> xb_managed (lc_binding c) = Some m \<Longrightarrow>
   \<exists>e. lc_managed c = Some e \<and> me_profile e = mb_profile m \<and> lc_call_context c = None"
  by (auto simp: validate_contract_def)

end
