(* ===== verification/Execution_Ledger.thy ===== *)
theory Execution_Ledger
  imports Execution_Protocol
begin

text \<open>
  The keeper's bounded ownership of effects: \<^verbatim>\<open>src/components/machine/src/execution_host/ledger.rs\<close>.
  An instant is a number of nanoseconds and every operation that reads the clock takes it as an
  argument. A watch channel is a cell of \<open>lg_cells\<close>: an entry holds its sender and a caller its receiver,
  so a reader sees what the ledger writes after it subscribed, even when the entry is gone. The two
  notification channels keep the last value sent.
\<close>

section \<open>State\<close>

definition MAX_LEDGER_OPERATIONS :: nat where "MAX_LEDGER_OPERATIONS = 65536"
definition MAX_PENDING :: nat where "MAX_PENDING = 64"
definition MAX_PENDING_BYTES :: nat where "MAX_PENDING_BYTES = 16 * 1024 * 1024"
definition MAX_RESULTS_BYTES :: nat where "MAX_RESULTS_BYTES = 16 * 1024 * 1024"
definition MAX_EVENTS_BYTES :: nat where "MAX_EVENTS_BYTES = 4 * 1024 * 1024"
definition MAX_EVENT_BATCH_BYTES :: nat where "MAX_EVENT_BATCH_BYTES = 2 * 1024 * 1024"
definition MAX_EVENTS :: nat where "MAX_EVENTS = 8192"
definition TOMBSTONE_RETENTION :: nat where "TOMBSTONE_RETENTION = 15 * 60 * 1000000000"
definition MAX_PROCESSES :: nat where "MAX_PROCESSES = 4096"

record ledger_entry =
  le_digest :: string
  le_cell :: nat
  le_bytes :: nat
  le_request_bytes :: nat
  le_timed :: "nat option"

record ledger =
  lg_operations :: "(string \<times> ledger_entry) list"
  lg_pending :: "(nat \<times> string) list"
  lg_next_id :: nat
  lg_pending_bytes :: nat
  lg_completed :: "string list"
  lg_result_bytes :: nat
  lg_tombstones :: "(nat \<times> string) list"
  lg_retention :: nat
  lg_lost :: bool
  lg_events :: "(execution_event \<times> nat) list"
  lg_event_bytes :: nat
  lg_sequence :: nat
  lg_acknowledged :: nat
  lg_event_changed :: nat
  lg_event_space :: nat
  lg_processes :: "string list"
  lg_cells :: "execution_outcome list"

definition new_ledger :: ledger where
  "new_ledger = \<lparr>lg_operations = [], lg_pending = [], lg_next_id = 1, lg_pending_bytes = 0,
     lg_completed = [], lg_result_bytes = 0, lg_tombstones = [], lg_retention = TOMBSTONE_RETENTION,
     lg_lost = False, lg_events = [], lg_event_bytes = 0, lg_sequence = 0, lg_acknowledged = 0,
     lg_event_changed = 0, lg_event_space = 0, lg_processes = [], lg_cells = []\<rparr>"

datatype admission = Existing nat | Admitted nat nat

section \<open>Admission\<close>

definition take_processes :: "ledger \<Rightarrow> string list \<times> ledger" where
  "take_processes lg = (lg_processes lg, lg\<lparr>lg_processes := []\<rparr>)"

text \<open>One turn of the eviction loop: the front tombstone \<open>op\<close> is already taken off.\<close>

definition drop_tombstone :: "string \<Rightarrow> ledger \<Rightarrow> ledger" where
  "drop_tombstone op lg =
     (let lg = (case map_of (lg_operations lg) op of
           None \<Rightarrow> lg
         | Some e \<Rightarrow> lg\<lparr>lg_operations := adelete op (lg_operations lg),
                        lg_result_bytes := lg_result_bytes lg - le_bytes e\<rparr>)
      in lg\<lparr>lg_completed := dropWhile (\<lambda>id. map_of (lg_operations lg) id = None) (lg_completed lg)\<rparr>)"

lemma tombstones_drop_tombstone [simp]: "lg_tombstones (drop_tombstone op lg) = lg_tombstones lg"
  by (simp add: drop_tombstone_def Let_def split: option.splits)

function evict_tombstones :: "nat \<Rightarrow> ledger \<Rightarrow> ledger" where
  "evict_tombstones now lg =
     (if length (lg_operations lg) < MAX_LEDGER_OPERATIONS then lg
      else (case lg_tombstones lg of
          [] \<Rightarrow> lg
        | (completed, op) # rest \<Rightarrow>
            if now - completed < lg_retention lg then lg
            else evict_tombstones now (drop_tombstone op (lg\<lparr>lg_tombstones := rest\<rparr>))))"
  by pat_completeness auto

termination
  by (relation "measure (\<lambda>(now, lg). length (lg_tombstones lg))") auto

declare evict_tombstones.simps [simp del]

definition track_process :: "invocation \<Rightarrow> ledger \<Rightarrow> ledger" where
  "track_process i lg =
     (if iv_method i = ''process/start'' then
        (case jget_str ''processId'' (iv_params i) of
           None \<Rightarrow> lg
         | Some p \<Rightarrow> if length (lg_processes lg) < MAX_PROCESSES
                     then lg\<lparr>lg_processes := insort_insert p (lg_processes lg)\<rparr> else lg)
      else lg)"

definition enroll :: "nat \<Rightarrow> string \<Rightarrow> nat \<Rightarrow> string \<Rightarrow> ledger \<Rightarrow> admission \<times> ledger" where
  "enroll now digest request op lg =
     (let cell = length (lg_cells lg); n = lg_next_id lg;
          e = \<lparr>le_digest = digest, le_cell = cell, le_bytes = 0, le_request_bytes = request,
               le_timed = (if ends_with op TIMED_SUFFIX then Some now else None)\<rparr>
      in (Admitted n cell,
          lg\<lparr>lg_cells := lg_cells lg @ [OutPending], lg_next_id := n + 1,
             lg_pending_bytes := lg_pending_bytes lg + request,
             lg_pending := (n, op) # lg_pending lg,
             lg_operations := (op, e) # lg_operations lg\<rparr>))"

definition admit :: "execution_codec \<Rightarrow> nat \<Rightarrow> invocation \<Rightarrow> ledger \<Rightarrow> (refusal + admission) \<times> ledger" where
  "admit c now i lg =
     (if \<not> validate_invocation (xc_encode c) i then (Inl RefInvalidRequest, lg)
      else let serialized = xc_encode c (invocation_json i); digest = xc_sha256 c serialized in
      case map_of (lg_operations lg) (iv_operation_id i) of
        Some e \<Rightarrow> if le_digest e \<noteq> digest then (Inl RefOperationConflict, lg)
                  else (Inr (Existing (le_cell e)), lg)
      | None \<Rightarrow>
          if lg_lost lg then (Inl RefEnvironmentLost, lg)
          else let lg = evict_tombstones now lg in
            if MAX_PENDING \<le> length (lg_pending lg) \<or> MAX_LEDGER_OPERATIONS \<le> length (lg_operations lg)
               \<or> MAX_PENDING_BYTES < lg_pending_bytes lg + length serialized
            then (Inl RefCapacity, lg)
            else (case enroll now digest (length serialized) (iv_operation_id i) (track_process i lg) of
                    (a, lg) \<Rightarrow> (Inr a, lg)))"

definition observe_operation :: "string \<Rightarrow> ledger \<Rightarrow> nat option" where
  "observe_operation op lg = map_option le_cell (map_of (lg_operations lg) op)"

section \<open>Completion and loss\<close>

function expire_results :: "ledger \<Rightarrow> bool \<times> ledger" where
  "expire_results lg =
     (if lg_result_bytes lg \<le> MAX_RESULTS_BYTES then (True, lg)
      else (case lg_completed lg of
          [] \<Rightarrow> (False, lg)
        | op # rest \<Rightarrow>
            (case map_of (lg_operations lg) op of
               None \<Rightarrow> expire_results (lg\<lparr>lg_completed := rest\<rparr>)
             | Some e \<Rightarrow> expire_results
                 (lg\<lparr>lg_completed := rest, lg_result_bytes := lg_result_bytes lg - le_bytes e,
                    lg_operations := AList.update op (e\<lparr>le_bytes := 0\<rparr>) (lg_operations lg),
                    lg_cells := (lg_cells lg)[le_cell e := OutExpired]\<rparr>))))"
  by pat_completeness auto

termination
  by (relation "measure (\<lambda>lg. length (lg_completed lg))") auto

declare expire_results.simps [simp del]

definition executed_reply :: "nat \<Rightarrow> nat option \<Rightarrow> json \<Rightarrow> json" where
  "executed_reply now timed reply = (case timed of
       None \<Rightarrow> reply
     | Some admitted \<Rightarrow>
         jset EXECUTED_MS (JInt (int (min usize_max ((now - admitted) div 1000000)))) reply)"

definition finish_operation :: "execution_codec \<Rightarrow> nat \<Rightarrow> nat \<Rightarrow> json \<Rightarrow> ledger \<Rightarrow> bool \<times> ledger" where
  "finish_operation c now n reply lg =
     (case map_of (lg_pending lg) n of
        None \<Rightarrow> (False, lg)
      | Some op \<Rightarrow>
          let lg = lg\<lparr>lg_pending := adelete n (lg_pending lg)\<rparr> in
          case map_of (lg_operations lg) op of
            None \<Rightarrow> (False, lg)
          | Some e \<Rightarrow>
              let reply = executed_reply now (le_timed e) reply;
                  bytes = length (xc_encode c reply)
              in expire_results
                   (lg\<lparr>lg_pending_bytes := lg_pending_bytes lg - le_request_bytes e,
                      lg_operations := AList.update op (e\<lparr>le_request_bytes := 0, le_bytes := bytes\<rparr>)
                        (lg_operations lg),
                      lg_cells := (lg_cells lg)[le_cell e := OutCompleted reply],
                      lg_result_bytes := lg_result_bytes lg + bytes,
                      lg_completed := lg_completed lg @ [op],
                      lg_tombstones := lg_tombstones lg @ [(now, op)]\<rparr>))"

definition lose_pending :: "(string \<times> ledger_entry) list \<Rightarrow> (nat \<times> string) list \<Rightarrow> execution_outcome list \<Rightarrow> execution_outcome list" where
  "lose_pending ops pending cells =
     fold (\<lambda>(_, op) cs. case map_of ops op of None \<Rightarrow> cs | Some e \<Rightarrow> cs[le_cell e := OutUnknown]) pending cells"

definition lose :: "ledger \<Rightarrow> ledger" where
  "lose lg = lg\<lparr>lg_lost := True, lg_pending_bytes := 0,
     lg_cells := lose_pending (lg_operations lg) (lg_pending lg) (lg_cells lg),
     lg_pending := [], lg_event_changed := lg_sequence lg\<rparr>"

section \<open>Events\<close>

datatype push_result = PushOk | PushFull json | PushInvalid

definition closed_process :: "json \<Rightarrow> string option" where
  "closed_process message =
     (if jget ''method'' message = Some (JStr ''process/closed'')
      then Option.bind (jget ''params'' message) (jget_str ''processId'') else None)"

definition push_event :: "execution_codec \<Rightarrow> json \<Rightarrow> ledger \<Rightarrow> push_result \<times> ledger" where
  "push_event c message lg =
     (let bytes = length (xc_encode c message) in
      if MAX_EVENT_BATCH_BYTES < bytes then (PushInvalid, lg)
      else if MAX_EVENTS_BYTES < lg_event_bytes lg + bytes \<or> MAX_EVENTS \<le> length (lg_events lg)
      then (PushFull message, lg)
      else
        let lg = (case closed_process message of
              None \<Rightarrow> lg
            | Some p \<Rightarrow> lg\<lparr>lg_processes := filter (\<lambda>q. q \<noteq> p) (lg_processes lg)\<rparr>);
            next = lg_sequence lg + 1
        in (PushOk, lg\<lparr>lg_sequence := next,
              lg_events := lg_events lg @ [(\<lparr>ev_sequence = next, ev_message = message\<rparr>, bytes)],
              lg_event_bytes := lg_event_bytes lg + bytes,
              lg_event_changed := next\<rparr>))"

fun release_events :: "nat \<Rightarrow> ledger \<Rightarrow> (execution_event \<times> nat) list \<Rightarrow> ledger" where
  "release_events after lg [] = lg\<lparr>lg_events := []\<rparr>"
| "release_events after lg ((event, sz) # rest) =
     (if ev_sequence event \<le> after
      then release_events after (lg\<lparr>lg_event_bytes := lg_event_bytes lg - sz\<rparr>) rest
      else lg\<lparr>lg_events := (event, sz) # rest\<rparr>)"

fun collect_batch :: "nat \<Rightarrow> nat \<Rightarrow> nat \<Rightarrow> (execution_event \<times> nat) list \<Rightarrow> execution_event list \<times> nat" where
  "collect_batch after bytes through [] = ([], through)"
| "collect_batch after bytes through ((event, sz) # rest) =
     (if ev_sequence event \<le> after then collect_batch after bytes through rest
      else if MAX_EVENT_BATCH_BYTES < bytes + sz then ([], through)
      else (case collect_batch after (bytes + sz) (ev_sequence event) rest of
              (events, end_of) \<Rightarrow> (event # events, end_of)))"

definition events_after :: "nat \<Rightarrow> ledger \<Rightarrow> (refusal + execution_event list \<times> nat) \<times> ledger" where
  "events_after after lg =
     (if lg_sequence lg < after then (Inl RefInvalidRequest, lg)
      else if after < lg_acknowledged lg then (Inl RefCursorExpired, lg)
      else
        let lg = (if lg_acknowledged lg < after
                  then (release_events after lg (lg_events lg))\<lparr>lg_acknowledged := after, lg_event_space := after\<rparr>
                  else lg)
        in (Inr (collect_batch after 0 after (lg_events lg)), lg))"

definition event_cursor :: "ledger \<Rightarrow> nat" where
  "event_cursor lg = lg_sequence lg"

end
