(* ===== verification/Execution_Ledger_Safety.thy ===== *)
theory Execution_Ledger_Safety
  imports Execution_Ledger
begin

text \<open>
  The invariant of the keeper's ledger and what every operation keeps of it: the tables agree with
  each other and with the outcome cells, the byte counters are exact, the bounds hold and the buffered
  events are the unacknowledged ones.
\<close>

section \<open>Sums over association lists\<close>

lemma sum_update:
  "map_of m k = Some e \<Longrightarrow>
   sum_list (map (\<lambda>p. f (snd p)) (AList.update k e' m)) + f e = sum_list (map (\<lambda>p. f (snd p)) m) + (f e' :: nat)"
  by (induction m) auto

lemma sum_adelete:
  "distinct (map fst m) \<Longrightarrow> map_of m k = Some e \<Longrightarrow>
   sum_list (map (\<lambda>p. f (snd p)) (adelete k m)) + f e = (sum_list (map (\<lambda>p. f (snd p)) m) :: nat)"
proof (induction m)
  case (Cons p m)
  show ?case
  proof (cases "fst p = k")
    case True
    with Cons.prems have "adelete k m = m"
      by (auto simp: adelete_def filter_id_conv image_iff)
    with True Cons.prems(2) show ?thesis by (cases p) (simp add: adelete_def)
  next
    case False
    with Cons show ?thesis by (cases p) (simp add: adelete_def)
  qed
qed simp

lemma map_update_same:
  "map_of m k = Some e \<Longrightarrow> f e' = f e \<Longrightarrow>
   map (\<lambda>p. f (snd p)) (AList.update k e' m) = map (\<lambda>p. f (snd p)) m"
  by (induction m) auto

lemma keys_update: "k \<in> fst ` set m \<Longrightarrow> map fst (AList.update k e m) = map fst m"
  by (induction m) auto

lemma length_update: "k \<in> fst ` set m \<Longrightarrow> length (AList.update k e m) = length m"
  by (metis keys_update length_map)

lemma length_adelete_le: "length (adelete k m) \<le> length m"
  by (simp add: adelete_def)

lemma distinct_map_adelete: "distinct (map f m) \<Longrightarrow> distinct (map f (adelete k m))"
  by (simp add: adelete_def distinct_map_filter_id)

lemma set_adelete: "set (adelete k m) = {p \<in> set m. fst p \<noteq> k}"
  by (auto simp: adelete_def)

section \<open>The invariant\<close>

definition op_status :: "ledger \<Rightarrow> string \<Rightarrow> execution_outcome option" where
  "op_status lg op = map_option (\<lambda>e. lg_cells lg ! le_cell e) (map_of (lg_operations lg) op)"

definition cells_ok :: "ledger \<Rightarrow> bool" where
  "cells_ok lg \<longleftrightarrow>
     distinct (map fst (lg_operations lg))
   \<and> distinct (map (\<lambda>p. le_cell (snd p)) (lg_operations lg))
   \<and> (\<forall>p \<in> set (lg_operations lg). le_cell (snd p) < length (lg_cells lg))
   \<and> length (lg_operations lg) \<le> MAX_LEDGER_OPERATIONS"

definition roles_ok :: "ledger \<Rightarrow> bool" where
  "roles_ok lg \<longleftrightarrow>
     distinct (map fst (lg_pending lg))
   \<and> distinct (map snd (lg_pending lg) @ map snd (lg_tombstones lg))
   \<and> set (map snd (lg_pending lg) @ map snd (lg_tombstones lg)) \<subseteq> dom (map_of (lg_operations lg))
   \<and> (\<forall>p \<in> set (lg_pending lg). fst p < lg_next_id lg)
   \<and> (lg_lost lg \<longrightarrow> lg_pending lg = [])"

definition answered :: "execution_outcome \<Rightarrow> bool" where
  "answered v \<longleftrightarrow> (case v of OutCompleted _ \<Rightarrow> True | OutExpired \<Rightarrow> True | _ \<Rightarrow> False)"

definition status_ok :: "ledger \<Rightarrow> bool" where
  "status_ok lg \<longleftrightarrow> (\<forall>op v. op_status lg op = Some v \<longrightarrow>
     (if op \<in> set (map snd (lg_pending lg)) then v = OutPending
      else if op \<in> set (map snd (lg_tombstones lg)) then answered v
      else v = OutUnknown))"

lemma status_okD:
  "status_ok lg \<Longrightarrow> op_status lg op = Some v \<Longrightarrow>
   if op \<in> set (map snd (lg_pending lg)) then v = OutPending
   else if op \<in> set (map snd (lg_tombstones lg)) then answered v else v = OutUnknown"
  unfolding status_ok_def by blast

definition results_ok :: "ledger \<Rightarrow> bool" where
  "results_ok lg \<longleftrightarrow>
     lg_result_bytes lg = sum_list (map (\<lambda>p. le_bytes (snd p)) (lg_operations lg))
   \<and> (\<forall>op e. map_of (lg_operations lg) op = Some e \<longrightarrow> 0 < le_bytes e \<longrightarrow> op \<in> set (lg_completed lg))
   \<and> (\<exists>ts. map snd (lg_tombstones lg) = ts @ lg_completed lg)"

definition request_bytes :: "ledger \<Rightarrow> string \<Rightarrow> nat" where
  "request_bytes lg op = (case map_of (lg_operations lg) op of None \<Rightarrow> 0 | Some e \<Rightarrow> le_request_bytes e)"

definition requests_ok :: "ledger \<Rightarrow> bool" where
  "requests_ok lg \<longleftrightarrow>
     lg_pending_bytes lg = sum_list (map (\<lambda>p. request_bytes lg (snd p)) (lg_pending lg))
   \<and> lg_pending_bytes lg \<le> MAX_PENDING_BYTES
   \<and> length (lg_pending lg) \<le> MAX_PENDING"

definition events_ok :: "execution_codec \<Rightarrow> ledger \<Rightarrow> bool" where
  "events_ok c lg \<longleftrightarrow>
     lg_acknowledged lg \<le> lg_sequence lg
   \<and> map (\<lambda>p. ev_sequence (fst p)) (lg_events lg) = [Suc (lg_acknowledged lg) ..< Suc (lg_sequence lg)]
   \<and> (\<forall>p \<in> set (lg_events lg). snd p = length (xc_encode c (ev_message (fst p))) \<and> snd p \<le> MAX_EVENT_BATCH_BYTES)
   \<and> lg_event_bytes lg = sum_list (map snd (lg_events lg))
   \<and> lg_event_bytes lg \<le> MAX_EVENTS_BYTES
   \<and> length (lg_events lg) \<le> MAX_EVENTS"

definition processes_ok :: "ledger \<Rightarrow> bool" where
  "processes_ok lg \<longleftrightarrow> sorted (lg_processes lg) \<and> distinct (lg_processes lg) \<and> length (lg_processes lg) \<le> MAX_PROCESSES"

text \<open>Between two steps of one operation the results may still exceed their budget.\<close>

definition tables_ok :: "execution_codec \<Rightarrow> ledger \<Rightarrow> bool" where
  "tables_ok c lg \<longleftrightarrow> cells_ok lg \<and> roles_ok lg \<and> status_ok lg \<and> results_ok lg \<and> requests_ok lg
     \<and> events_ok c lg \<and> processes_ok lg"

definition ledger_ok :: "execution_codec \<Rightarrow> ledger \<Rightarrow> bool" where
  "ledger_ok c lg \<longleftrightarrow> tables_ok c lg \<and> lg_result_bytes lg \<le> MAX_RESULTS_BYTES"

lemma new_ledger_ok: "ledger_ok c new_ledger"
  by (simp add: ledger_ok_def tables_ok_def new_ledger_def cells_ok_def roles_ok_def status_ok_def op_status_def
      results_ok_def requests_ok_def events_ok_def processes_ok_def)

lemma status_None: "op_status lg op = None \<longleftrightarrow> map_of (lg_operations lg) op = None"
  by (simp add: op_status_def)

lemma events_ok_frame:
  "lg_events lg' = lg_events lg \<Longrightarrow> lg_event_bytes lg' = lg_event_bytes lg \<Longrightarrow>
   lg_sequence lg' = lg_sequence lg \<Longrightarrow> lg_acknowledged lg' = lg_acknowledged lg \<Longrightarrow>
   events_ok c lg' = events_ok c lg"
  unfolding events_ok_def by (simp only:)

lemma processes_ok_frame: "lg_processes lg' = lg_processes lg \<Longrightarrow> processes_ok lg' = processes_ok lg"
  unfolding processes_ok_def by (simp only:)

lemma cells_distinct:
  assumes "cells_ok lg" and "map_of (lg_operations lg) op = Some e" and "map_of (lg_operations lg) op' = Some e'"
    and "le_cell e = le_cell e'"
  shows "op = op'"
proof -
  have "inj_on (\<lambda>p. le_cell (snd p)) (set (lg_operations lg))"
    using assms(1) by (simp add: cells_ok_def distinct_map)
  moreover have "(op, e) \<in> set (lg_operations lg)" "(op', e') \<in> set (lg_operations lg)"
    using assms(2,3) by (auto dest: map_of_SomeD)
  ultimately have "(op, e) = (op', e')" using assms(4) by (elim inj_onD) simp_all
  then show ?thesis by simp
qed

lemma cell_bound: "cells_ok lg \<Longrightarrow> map_of (lg_operations lg) op = Some e \<Longrightarrow> le_cell e < length (lg_cells lg)"
  by (auto simp: cells_ok_def dest: map_of_SomeD)

section \<open>Eviction\<close>

text \<open>What one turn of the eviction loop does to a ledger in order.\<close>

definition forget :: "string \<Rightarrow> ledger_entry \<Rightarrow> (nat \<times> string) list \<Rightarrow> ledger \<Rightarrow> ledger" where
  "forget op e rest lg = lg\<lparr>lg_tombstones := rest, lg_operations := adelete op (lg_operations lg),
     lg_result_bytes := lg_result_bytes lg - le_bytes e,
     lg_completed := (if length (lg_completed lg) = Suc (length rest) then map snd rest else lg_completed lg)\<rparr>"

lemma forget_fields [simp]:
  "lg_tombstones (forget op e rest lg) = rest"
  "lg_operations (forget op e rest lg) = adelete op (lg_operations lg)"
  "lg_pending (forget op e rest lg) = lg_pending lg"
  "lg_pending_bytes (forget op e rest lg) = lg_pending_bytes lg"
  "lg_cells (forget op e rest lg) = lg_cells lg"
  "lg_lost (forget op e rest lg) = lg_lost lg"
  "lg_retention (forget op e rest lg) = lg_retention lg"
  by (simp_all add: forget_def)

lemma suffix_cases:
  assumes "x # xs = ts @ ys"
  shows "(length ys = Suc (length xs) \<and> ys = x # xs) \<or> (length ys \<noteq> Suc (length xs) \<and> (\<exists>ts'. xs = ts' @ ys))"
  using assms by (cases ts) auto

lemma drop_front:
  assumes roles: "roles_ok lg" and results: "results_ok lg"
    and front: "lg_tombstones lg = (t, op) # rest" and e: "map_of (lg_operations lg) op = Some e"
  shows "drop_tombstone op (lg\<lparr>lg_tombstones := rest\<rparr>) = forget op e rest lg"
    and "\<exists>ts. map snd rest = ts @ lg_completed (forget op e rest lg)"
proof -
  obtain ts where ts: "op # map snd rest = ts @ lg_completed lg"
    using results front by (auto simp: results_ok_def)
  let ?live = "\<lambda>i. map_of (adelete op (lg_operations lg)) i \<noteq> None"
  have live: "?live i" if "i \<in> set (map snd rest)" for i
    using that roles front by (auto simp: roles_ok_def)
  have keep: "dropWhile (\<lambda>i. map_of (adelete op (lg_operations lg)) i = None) xs = xs"
    if "set xs \<subseteq> set (map snd rest)" for xs
  proof (cases xs)
    case (Cons i ys)
    with that have "?live i" by (intro live) simp
    with Cons show ?thesis by (auto split: if_splits)
  qed simp
  show "drop_tombstone op (lg\<lparr>lg_tombstones := rest\<rparr>) = forget op e rest lg"
    using suffix_cases [OF ts]
  proof (elim disjE conjE exE)
    assume c: "lg_completed lg = op # map snd rest"
    then show ?thesis
      using e keep [of "map snd rest"] by (simp add: drop_tombstone_def forget_def)
  next
    fix ts' assume c: "length (lg_completed lg) \<noteq> Suc (length (map snd rest))" "map snd rest = ts' @ lg_completed lg"
    then have "set (lg_completed lg) \<subseteq> set (map snd rest)" by auto
    with c(1) e keep [of "lg_completed lg"] show ?thesis
      by (simp add: drop_tombstone_def forget_def)
  qed
  show "\<exists>ts. map snd rest = ts @ lg_completed (forget op e rest lg)"
    using suffix_cases [OF ts] by (auto simp: forget_def)
qed

lemma status_forget:
  "op_status (forget op e rest lg) i = (if i = op then None else op_status lg i)"
  by (simp add: op_status_def forget_def)

lemma forget_tables:
  assumes ok: "tables_ok c lg" and front: "lg_tombstones lg = (t, op) # rest"
    and e: "map_of (lg_operations lg) op = Some e"
  shows "tables_ok c (forget op e rest lg)" and "lg_result_bytes (forget op e rest lg) \<le> lg_result_bytes lg"
proof -
  let ?lg = "forget op e rest lg"
  from ok have parts: "cells_ok lg" "roles_ok lg" "status_ok lg" "results_ok lg" "requests_ok lg"
    "events_ok c lg" "processes_ok lg"
    by (auto simp: tables_ok_def)
  have op: "op \<notin> snd ` set rest" "op \<notin> snd ` set (lg_pending lg)"
    using parts(2) front by (auto simp: roles_ok_def)
  have "cells_ok ?lg"
    using parts(1) length_adelete_le [of op "lg_operations lg"]
    by (simp add: cells_ok_def forget_def distinct_map_adelete set_adelete distinct_adelete)
  moreover have "roles_ok ?lg"
    using parts(2) front op by (auto simp: roles_ok_def forget_def)
  moreover have "status_ok ?lg"
    unfolding status_ok_def
  proof (intro allI impI)
    fix i v assume "op_status ?lg i = Some v"
    then have i: "i \<noteq> op" "op_status lg i = Some v" by (auto simp: status_forget split: if_splits)
    from status_okD [OF parts(3) i(2)] i(1) front
    show "if i \<in> set (map snd (lg_pending ?lg)) then v = OutPending
          else if i \<in> set (map snd (lg_tombstones ?lg)) then answered v else v = OutUnknown"
      by (simp add: forget_def)
  qed
  moreover have "results_ok ?lg"
  proof -
    have "lg_result_bytes ?lg = sum_list (map (\<lambda>p. le_bytes (snd p)) (lg_operations ?lg))"
      using parts(4) sum_adelete [OF _ e, of le_bytes] parts(1)
      by (simp add: results_ok_def cells_ok_def forget_def)
    moreover have "i \<in> set (lg_completed ?lg)"
      if i: "map_of (lg_operations ?lg) i = Some e'" "0 < le_bytes e'" for i e'
    proof -
      from i have "i \<noteq> op" "i \<in> set (lg_completed lg)"
        using parts(4) by (auto simp: results_ok_def forget_def split: if_splits)
      moreover obtain ts where "op # map snd rest = ts @ lg_completed lg"
        using parts(4) front by (auto simp: results_ok_def)
      ultimately have "lg_completed lg = op # map snd rest \<or> length (lg_completed lg) \<noteq> Suc (length rest)"
        using suffix_cases [of op "map snd rest" ts "lg_completed lg"] by auto
      with \<open>i \<noteq> op\<close> \<open>i \<in> set (lg_completed lg)\<close> show ?thesis by (elim disjE) (simp_all add: forget_def)
    qed
    ultimately show ?thesis
      using drop_front(2) [OF parts(2,4) front e] by (auto simp: results_ok_def forget_def)
  qed
  moreover have "requests_ok ?lg"
  proof -
    have "sum_list (map (\<lambda>p. request_bytes ?lg (snd p)) (lg_pending lg))
        = sum_list (map (\<lambda>p. request_bytes lg (snd p)) (lg_pending lg))"
      using op by (intro arg_cong [where f = sum_list] map_cong) (auto simp: request_bytes_def)
    with parts(5) show ?thesis by (simp add: requests_ok_def)
  qed
  moreover have "events_ok c ?lg" "processes_ok ?lg"
    using parts(6,7) events_ok_frame [of ?lg lg c] processes_ok_frame [of ?lg lg]
    by (simp_all add: forget_def)
  ultimately show "tables_ok c ?lg"
    by (simp add: tables_ok_def)
qed (simp add: forget_def)

text \<open>The loop as a whole: a chain of turns, each on a tombstone past the retention.\<close>

inductive forgets :: "nat \<Rightarrow> ledger \<Rightarrow> ledger \<Rightarrow> bool" for now where
  stop: "forgets now lg lg"
| turn: "lg_tombstones lg = (t, op) # rest \<Longrightarrow> map_of (lg_operations lg) op = Some e \<Longrightarrow>
         lg_retention lg \<le> now - t \<Longrightarrow> forgets now (forget op e rest lg) lg' \<Longrightarrow> forgets now lg lg'"

lemma tables_parts:
  assumes "tables_ok c lg"
  shows "cells_ok lg" "roles_ok lg" "status_ok lg" "results_ok lg" "requests_ok lg" "events_ok c lg" "processes_ok lg"
  using assms by (auto simp: tables_ok_def)

lemma tombstone_entry: "roles_ok lg \<Longrightarrow> (t, op) \<in> set (lg_tombstones lg) \<Longrightarrow> \<exists>e. map_of (lg_operations lg) op = Some e"
  by (force simp: roles_ok_def)

lemma pending_entry: "roles_ok lg \<Longrightarrow> map_of (lg_pending lg) n = Some op \<Longrightarrow> \<exists>e. map_of (lg_operations lg) op = Some e"
  by (force simp: roles_ok_def dest: map_of_SomeD)

lemma evict_forgets:
  "tables_ok c lg \<Longrightarrow> forgets now lg (evict_tombstones now lg)"
proof (induction now lg rule: evict_tombstones.induct)
  case (1 now lg)
  show ?case
  proof (cases "length (lg_operations lg) < MAX_LEDGER_OPERATIONS")
    case True
    then show ?thesis by (simp add: evict_tombstones.simps [of now lg] forgets.stop)
  next
    case more: False
    show ?thesis
    proof (cases "lg_tombstones lg")
      case Nil
      with more show ?thesis by (simp add: evict_tombstones.simps [of now lg] forgets.stop)
    next
      case (Cons p rest)
      obtain t op where p: "p = (t, op)" by (cases p)
      show ?thesis
      proof (cases "now - t < lg_retention lg")
        case True
        with more Cons p show ?thesis by (simp add: evict_tombstones.simps [of now lg] forgets.stop)
      next
        case False
        note front = Cons [unfolded p]
        obtain e where e: "map_of (lg_operations lg) op = Some e"
          using tombstone_entry [OF tables_parts(2) [OF 1(2)]] front by fastforce
        note turn = drop_front(1) [OF tables_parts(2,4) [OF 1(2)] front e]
        have "forgets now (forget op e rest lg) (evict_tombstones now (forget op e rest lg))"
          using 1(1) [OF more front refl False] forget_tables(1) [OF 1(2) front e] by (simp add: turn)
        then have "forgets now lg (evict_tombstones now (forget op e rest lg))"
          using False by (intro forgets.turn [OF front e]) simp_all
        with more front False turn show ?thesis by (simp add: evict_tombstones.simps [of now lg])
      qed
    qed
  qed
qed

lemma forgets_tables:
  "forgets now lg lg' \<Longrightarrow> tables_ok c lg \<Longrightarrow> tables_ok c lg' \<and> lg_result_bytes lg' \<le> lg_result_bytes lg"
  by (induction rule: forgets.induct) (force dest: forget_tables)+

lemma forgets_frame:
  "forgets now lg lg' \<Longrightarrow>
     lg_pending lg' = lg_pending lg \<and> lg_cells lg' = lg_cells lg \<and> lg_lost lg' = lg_lost lg
   \<and> lg_next_id lg' = lg_next_id lg \<and> lg_pending_bytes lg' = lg_pending_bytes lg
   \<and> lg_retention lg' = lg_retention lg \<and> set (lg_tombstones lg') \<subseteq> set (lg_tombstones lg)
   \<and> lg_events lg' = lg_events lg \<and> lg_sequence lg' = lg_sequence lg
   \<and> lg_acknowledged lg' = lg_acknowledged lg \<and> lg_processes lg' = lg_processes lg"
proof (induction rule: forgets.induct)
  case (turn lg t op rest e lg')
  then show ?case by (auto simp: forget_def)
qed simp

lemma forgets_entry:
  "forgets now lg lg' \<Longrightarrow>
     map_of (lg_operations lg') i = map_of (lg_operations lg) i
   \<or> (map_of (lg_operations lg') i = None \<and> (\<exists>t. (t, i) \<in> set (lg_tombstones lg) \<and> lg_retention lg \<le> now - t))"
proof (induction rule: forgets.induct)
  case (turn lg t op rest e lg')
  from turn.IH show ?case
  proof (elim disjE conjE exE)
    assume "map_of (lg_operations lg') i = map_of (lg_operations (forget op e rest lg)) i"
    with turn.hyps show ?thesis by (cases "i = op") auto
  qed (use turn.hyps in auto)
qed simp

section \<open>Admission\<close>

lemma insort_insert_ok:
  "sorted xs \<Longrightarrow> distinct xs \<Longrightarrow> sorted (insort_insert x xs) \<and> distinct (insort_insert x xs)
     \<and> length (insort_insert x xs) \<le> Suc (length xs)"
  by (simp add: sorted_insort_insert distinct_insort_insert) (simp add: insort_insert_key_def)

lemma track_process_fields [simp]:
  "lg_pending (track_process i lg) = lg_pending lg"
  "lg_operations (track_process i lg) = lg_operations lg"
  "lg_cells (track_process i lg) = lg_cells lg"
  "lg_lost (track_process i lg) = lg_lost lg"
  "lg_next_id (track_process i lg) = lg_next_id lg"
  "lg_pending_bytes (track_process i lg) = lg_pending_bytes lg"
  "lg_result_bytes (track_process i lg) = lg_result_bytes lg"
  "lg_completed (track_process i lg) = lg_completed lg"
  "lg_retention (track_process i lg) = lg_retention lg"
  "lg_tombstones (track_process i lg) = lg_tombstones lg"
  "lg_events (track_process i lg) = lg_events lg"
  "lg_event_bytes (track_process i lg) = lg_event_bytes lg"
  "lg_sequence (track_process i lg) = lg_sequence lg"
  "lg_acknowledged (track_process i lg) = lg_acknowledged lg"
  by (auto simp: track_process_def split: option.splits)

lemma track_process_ok: "processes_ok lg \<Longrightarrow> processes_ok (track_process i lg)"
proof -
  assume "processes_ok lg"
  with insort_insert_ok [of "lg_processes lg"] show ?thesis
    by (auto simp: track_process_def processes_ok_def split: option.splits) (metis Suc_leI le_trans)
qed

lemma enroll_fields [simp]:
  "lg_lost (snd (enroll now d b op lg)) = lg_lost lg"
  "lg_result_bytes (snd (enroll now d b op lg)) = lg_result_bytes lg"
  "lg_completed (snd (enroll now d b op lg)) = lg_completed lg"
  "lg_retention (snd (enroll now d b op lg)) = lg_retention lg"
  "lg_tombstones (snd (enroll now d b op lg)) = lg_tombstones lg"
  "lg_events (snd (enroll now d b op lg)) = lg_events lg"
  "lg_event_bytes (snd (enroll now d b op lg)) = lg_event_bytes lg"
  "lg_sequence (snd (enroll now d b op lg)) = lg_sequence lg"
  "lg_acknowledged (snd (enroll now d b op lg)) = lg_acknowledged lg"
  "lg_processes (snd (enroll now d b op lg)) = lg_processes lg"
  "lg_next_id (snd (enroll now d b op lg)) = Suc (lg_next_id lg)"
  "lg_pending (snd (enroll now d b op lg)) = (lg_next_id lg, op) # lg_pending lg"
  "fst (enroll now d b op lg) = Admitted (lg_next_id lg) (length (lg_cells lg))"
  by (simp_all add: enroll_def Let_def)

lemma status_enroll:
  assumes "cells_ok lg"
  shows "op_status (snd (enroll now d b op lg)) i = (if i = op then Some OutPending else op_status lg i)"
  using cell_bound [OF assms, of i]
  by (cases "map_of (lg_operations lg) i") (auto simp: op_status_def enroll_def Let_def nth_append)

lemma enroll_tables:
  assumes ok: "tables_ok c lg" and live: "\<not> lg_lost lg"
    and fresh: "map_of (lg_operations lg) op = None"
    and room: "length (lg_pending lg) < MAX_PENDING" "length (lg_operations lg) < MAX_LEDGER_OPERATIONS"
      "lg_pending_bytes lg + b \<le> MAX_PENDING_BYTES"
  shows "tables_ok c (snd (enroll now d b op lg))"
proof -
  let ?lg = "snd (enroll now d b op lg)"
  note parts = tables_parts [OF ok]
  have op: "op \<notin> set (map snd (lg_pending lg) @ map snd (lg_tombstones lg))"
    using parts(2) fresh by (auto simp: roles_ok_def)
  have cells: "length (lg_cells ?lg) = Suc (length (lg_cells lg))"
    by (simp add: enroll_def Let_def)
  have ops: "\<exists>e. lg_operations ?lg = (op, e) # lg_operations lg \<and> le_cell e = length (lg_cells lg)
      \<and> le_bytes e = 0 \<and> le_request_bytes e = b"
    by (simp add: enroll_def Let_def)
  then obtain e where e: "lg_operations ?lg = (op, e) # lg_operations lg" "le_cell e = length (lg_cells lg)"
    "le_bytes e = 0" "le_request_bytes e = b" by blast
  have "cells_ok ?lg"
    using parts(1) fresh room(2) cells
    by (auto simp: cells_ok_def e map_of_eq_None_iff intro: less_SucI)
  moreover have "roles_ok ?lg"
    using parts(2) op live by (auto simp: roles_ok_def e intro: less_SucI)
  moreover have "status_ok ?lg"
    unfolding status_ok_def
  proof (intro allI impI)
    fix i v assume v: "op_status ?lg i = Some v"
    show "if i \<in> set (map snd (lg_pending ?lg)) then v = OutPending
          else if i \<in> set (map snd (lg_tombstones ?lg)) then answered v else v = OutUnknown"
    proof (cases "i = op")
      case True
      with v show ?thesis by (simp add: status_enroll [OF parts(1)])
    next
      case False
      with v have "op_status lg i = Some v" by (simp add: status_enroll [OF parts(1)])
      from status_okD [OF parts(3) this] False show ?thesis by simp
    qed
  qed
  moreover have "results_ok ?lg"
    using parts(4) by (simp add: results_ok_def e)
  moreover have "requests_ok ?lg"
  proof -
    have "sum_list (map (\<lambda>p. request_bytes ?lg (snd p)) (lg_pending lg))
        = sum_list (map (\<lambda>p. request_bytes lg (snd p)) (lg_pending lg))"
      using op by (intro arg_cong [where f = sum_list] map_cong) (auto simp: request_bytes_def e)
    moreover have "request_bytes ?lg op = b" by (simp add: request_bytes_def e)
    moreover have "lg_pending_bytes ?lg = lg_pending_bytes lg + b" by (simp add: enroll_def Let_def)
    ultimately show ?thesis
      using parts(5) room by (simp add: requests_ok_def)
  qed
  moreover have "events_ok c ?lg" "processes_ok ?lg"
    using parts(6,7) events_ok_frame [of ?lg lg c] processes_ok_frame [of ?lg lg] by simp_all
  ultimately show ?thesis by (simp add: tables_ok_def)
qed

lemma track_tables: "tables_ok c lg \<Longrightarrow> tables_ok c (track_process i lg)"
proof -
  assume ok: "tables_ok c lg"
  note parts = tables_parts [OF ok]
  let ?lg = "track_process i lg"
  have "op_status ?lg = op_status lg" "request_bytes ?lg = request_bytes lg"
    by (simp_all add: op_status_def request_bytes_def fun_eq_iff)
  with parts(1-5) have "cells_ok ?lg" "roles_ok ?lg" "status_ok ?lg" "results_ok ?lg" "requests_ok ?lg"
    by (simp_all add: cells_ok_def roles_ok_def status_ok_def results_ok_def requests_ok_def)
  moreover have "events_ok c ?lg"
    using parts(6) events_ok_frame [of ?lg lg c] by simp
  ultimately show ?thesis
    using track_process_ok [OF parts(7)] by (simp add: tables_ok_def)
qed

text \<open>The outcomes of an admission.\<close>

lemma admit_cases:
  assumes "admit c now i lg = (r, lg')"
  obtains
    (invalid) "\<not> validate_invocation (xc_encode c) i" "r = Inl RefInvalidRequest" "lg' = lg"
  | (conflict) e where "map_of (lg_operations lg) (iv_operation_id i) = Some e"
      "le_digest e \<noteq> xc_sha256 c (xc_encode c (invocation_json i))" "r = Inl RefOperationConflict" "lg' = lg"
  | (existing) e where "map_of (lg_operations lg) (iv_operation_id i) = Some e"
      "le_digest e = xc_sha256 c (xc_encode c (invocation_json i))" "r = Inr (Existing (le_cell e))" "lg' = lg"
  | (lost) "map_of (lg_operations lg) (iv_operation_id i) = None" "lg_lost lg" "r = Inl RefEnvironmentLost" "lg' = lg"
  | (full) "map_of (lg_operations lg) (iv_operation_id i) = None" "\<not> lg_lost lg" "r = Inl RefCapacity"
      "lg' = evict_tombstones now lg"
  | (admitted) "validate_invocation (xc_encode c) i"
      "map_of (lg_operations lg) (iv_operation_id i) = None" "\<not> lg_lost lg"
      "length (lg_pending (evict_tombstones now lg)) < MAX_PENDING"
      "length (lg_operations (evict_tombstones now lg)) < MAX_LEDGER_OPERATIONS"
      "lg_pending_bytes (evict_tombstones now lg) + length (xc_encode c (invocation_json i)) \<le> MAX_PENDING_BYTES"
      "r = Inr (fst (enroll now (xc_sha256 c (xc_encode c (invocation_json i)))
          (length (xc_encode c (invocation_json i))) (iv_operation_id i) (track_process i (evict_tombstones now lg))))"
      "lg' = snd (enroll now (xc_sha256 c (xc_encode c (invocation_json i)))
          (length (xc_encode c (invocation_json i))) (iv_operation_id i) (track_process i (evict_tombstones now lg)))"
proof (cases "validate_invocation (xc_encode c) i")
  case False
  with assms have "r = Inl RefInvalidRequest" "lg' = lg" by (simp_all add: admit_def)
  with False show ?thesis by (rule invalid)
next
  case valid: True
  show ?thesis
  proof (cases "map_of (lg_operations lg) (iv_operation_id i)")
    case (Some e)
    show ?thesis
    proof (cases "le_digest e = xc_sha256 c (xc_encode c (invocation_json i))")
      case True
      with assms valid Some have "r = Inr (Existing (le_cell e))" "lg' = lg"
        by (simp_all add: admit_def Let_def)
      with Some True show ?thesis by (rule existing)
    next
      case False
      with assms valid Some have "r = Inl RefOperationConflict" "lg' = lg"
        by (simp_all add: admit_def Let_def)
      with Some False show ?thesis by (rule conflict)
    qed
  next
    case None
    show ?thesis
    proof (cases "lg_lost lg")
      case True
      with assms valid None have "r = Inl RefEnvironmentLost" "lg' = lg"
        by (simp_all add: admit_def Let_def)
      with None True show ?thesis by (rule lost)
    next
      case False
      let ?lg = "evict_tombstones now lg"
      let ?bytes = "length (xc_encode c (invocation_json i))"
      let ?new = "enroll now (xc_sha256 c (xc_encode c (invocation_json i))) ?bytes (iv_operation_id i) (track_process i ?lg)"
      let ?full = "MAX_PENDING \<le> length (lg_pending ?lg) \<or> MAX_LEDGER_OPERATIONS \<le> length (lg_operations ?lg)
        \<or> MAX_PENDING_BYTES < lg_pending_bytes ?lg + ?bytes"
      show ?thesis
      proof (cases ?full)
        case True
        with assms valid None False have "r = Inl RefCapacity" "lg' = ?lg"
          by (simp_all add: admit_def Let_def)
        with None False show ?thesis by (rule full)
      next
        case room: False
        have "(r, lg') = (Inr (fst ?new), snd ?new)"
          using assms valid None False room by (simp add: admit_def Let_def prod.case_eq_if)
        with valid None False room show ?thesis
          by (intro admitted) simp_all
      qed
    qed
  qed
qed

lemma admit_ok:
  assumes ok: "ledger_ok c lg" and adm: "admit c now i lg = (r, lg')"
  shows "ledger_ok c lg'"
proof -
  have tables: "tables_ok c lg" and budget: "lg_result_bytes lg \<le> MAX_RESULTS_BYTES"
    using ok by (simp_all add: ledger_ok_def)
  let ?lg = "evict_tombstones now lg"
  note evict = evict_forgets [OF tables, of now]
  have evicted: "tables_ok c ?lg" "lg_result_bytes ?lg \<le> MAX_RESULTS_BYTES"
    using forgets_tables [OF evict tables] budget by auto
  from adm show ?thesis
  proof (cases rule: admit_cases)
    case admitted
    have "map_of (lg_operations ?lg) (iv_operation_id i) = None"
      using forgets_entry [OF evict, of "iv_operation_id i"] admitted(2) by auto
    then have "tables_ok c lg'"
      unfolding admitted(8)
      using admitted(3-6) track_tables [OF evicted(1)] forgets_frame [OF evict]
      by (intro enroll_tables) simp_all
    with evicted(2) show ?thesis by (simp add: ledger_ok_def admitted(8))
  qed (use ok evicted in \<open>simp_all add: ledger_ok_def\<close>)
qed

section \<open>Completion\<close>

text \<open>Rewriting one entry and its cell.\<close>

lemma status_touch:
  assumes "cells_ok lg" and e: "map_of (lg_operations lg) op = Some e" and "le_cell e' = le_cell e"
    and "lg_operations lg' = AList.update op e' (lg_operations lg)"
    and "lg_cells lg' = (lg_cells lg)[le_cell e := v]"
  shows "op_status lg' i = (if i = op then Some v else op_status lg i)"
proof (cases "i = op")
  case True
  with assms cell_bound [OF assms(1) e] show ?thesis by (simp add: op_status_def update_conv)
next
  case False
  then have "le_cell f \<noteq> le_cell e" if "map_of (lg_operations lg) i = Some f" for f
    using cells_distinct [OF assms(1) that e] by blast
  with False assms(3-5) show ?thesis
    by (cases "map_of (lg_operations lg) i") (simp_all add: op_status_def update_conv)
qed

lemma key_in: "map_of m k = Some e \<Longrightarrow> k \<in> fst ` set m"
  by (force dest: map_of_SomeD)

lemma cells_ok_touch:
  assumes "cells_ok lg" and e: "map_of (lg_operations lg) op = Some e" and "le_cell e' = le_cell e"
    and ops: "lg_operations lg' = AList.update op e' (lg_operations lg)"
    and cells: "length (lg_cells lg') = length (lg_cells lg)"
  shows "cells_ok lg'"
proof -
  have same: "map (\<lambda>p. le_cell (snd p)) (lg_operations lg') = map (\<lambda>p. le_cell (snd p)) (lg_operations lg)"
    unfolding ops by (rule map_update_same [OF e assms(3)])
  have "\<forall>n \<in> set (map (\<lambda>p. le_cell (snd p)) (lg_operations lg)). n < length (lg_cells lg)"
    using assms(1) by (simp add: cells_ok_def)
  then have "\<forall>n \<in> set (map (\<lambda>p. le_cell (snd p)) (lg_operations lg')). n < length (lg_cells lg')"
    by (simp only: same cells)
  then have "\<forall>p \<in> set (lg_operations lg'). le_cell (snd p) < length (lg_cells lg')" by simp
  with same assms(1) ops show ?thesis
    using keys_update [OF key_in [OF e], of e'] length_update [OF key_in [OF e], of e']
    by (simp add: cells_ok_def)
qed

lemma request_bytes_touch:
  "lg_operations lg' = AList.update op e' (lg_operations lg) \<Longrightarrow>
   request_bytes lg' i = (if i = op then le_request_bytes e' else request_bytes lg i)"
  by (simp add: request_bytes_def update_conv)

definition expire_front :: "string \<Rightarrow> ledger_entry \<Rightarrow> string list \<Rightarrow> ledger \<Rightarrow> ledger" where
  "expire_front op e rest lg = lg\<lparr>lg_completed := rest, lg_result_bytes := lg_result_bytes lg - le_bytes e,
     lg_operations := AList.update op (e\<lparr>le_bytes := 0\<rparr>) (lg_operations lg),
     lg_cells := (lg_cells lg)[le_cell e := OutExpired]\<rparr>"

lemma expire_front_fields [simp]:
  "lg_operations (expire_front op e rest lg) = AList.update op (e\<lparr>le_bytes := 0\<rparr>) (lg_operations lg)"
  "lg_cells (expire_front op e rest lg) = (lg_cells lg)[le_cell e := OutExpired]"
  "lg_completed (expire_front op e rest lg) = rest"
  "lg_result_bytes (expire_front op e rest lg) = lg_result_bytes lg - le_bytes e"
  "lg_pending (expire_front op e rest lg) = lg_pending lg"
  "lg_pending_bytes (expire_front op e rest lg) = lg_pending_bytes lg"
  "lg_tombstones (expire_front op e rest lg) = lg_tombstones lg"
  "lg_lost (expire_front op e rest lg) = lg_lost lg"
  "lg_next_id (expire_front op e rest lg) = lg_next_id lg"
  "lg_retention (expire_front op e rest lg) = lg_retention lg"
  by (simp_all add: expire_front_def)

lemma completed_entry:
  assumes "roles_ok lg" and "results_ok lg" and "op \<in> set (lg_completed lg)"
  shows "op \<in> set (map snd (lg_tombstones lg)) \<and> (\<exists>e. map_of (lg_operations lg) op = Some e)"
proof -
  obtain ts where "map snd (lg_tombstones lg) = ts @ lg_completed lg"
    using assms(2) by (auto simp: results_ok_def)
  with assms(3) have "op \<in> set (map snd (lg_tombstones lg))" by (metis Un_iff set_append)
  with assms(1) show ?thesis by (auto simp: roles_ok_def)
qed

lemma expire_front_tables:
  assumes ok: "tables_ok c lg" and front: "lg_completed lg = op # rest"
    and e: "map_of (lg_operations lg) op = Some e"
  shows "tables_ok c (expire_front op e rest lg)"
proof -
  let ?lg = "expire_front op e rest lg"
  note parts = tables_parts [OF ok]
  have op: "op \<in> set (map snd (lg_tombstones lg))"
    using completed_entry [OF parts(2,4)] front by simp
  have pending: "op \<notin> set (map snd (lg_pending lg))"
    using op parts(2) by (auto simp: roles_ok_def)
  have op_status: "op_status ?lg i = (if i = op then Some OutExpired else op_status lg i)" for i
    by (rule status_touch [OF parts(1) e]) simp_all
  have "cells_ok ?lg"
    by (rule cells_ok_touch [OF parts(1) e]) simp_all
  moreover have "roles_ok ?lg"
    using parts(2) e by (auto simp: roles_ok_def update_conv)
  moreover have "status_ok ?lg"
    unfolding status_ok_def
  proof (intro allI impI)
    fix i v assume v: "op_status ?lg i = Some v"
    show "if i \<in> set (map snd (lg_pending ?lg)) then v = OutPending
          else if i \<in> set (map snd (lg_tombstones ?lg)) then answered v else v = OutUnknown"
    proof (cases "i = op")
      case True
      with v op pending show ?thesis by (simp add: op_status answered_def)
    next
      case False
      with v have "op_status lg i = Some v" by (simp add: op_status)
      from status_okD [OF parts(3) this] show ?thesis by simp
    qed
  qed
  moreover have "results_ok ?lg"
  proof -
    have "lg_result_bytes ?lg = sum_list (map (\<lambda>p. le_bytes (snd p)) (lg_operations ?lg))"
      using parts(4) sum_update [OF e, of le_bytes "e\<lparr>le_bytes := 0\<rparr>"] by (simp add: results_ok_def)
    moreover obtain ts where "map snd (lg_tombstones lg) = (ts @ [op]) @ rest"
      using parts(4) front by (auto simp: results_ok_def)
    then have "\<exists>ts. map snd (lg_tombstones lg) = ts @ rest" by blast
    moreover have "i \<in> set rest" if "map_of (lg_operations ?lg) i = Some f" "0 < le_bytes f" for i f
      using that parts(4) front by (auto simp: results_ok_def update_conv split: if_splits)
    ultimately show ?thesis by (simp add: results_ok_def)
  qed
  moreover have "requests_ok ?lg"
  proof -
    have "request_bytes ?lg = request_bytes lg"
      using e by (auto simp: fun_eq_iff request_bytes_touch [of ?lg op "e\<lparr>le_bytes := 0\<rparr>" lg]) (simp add: request_bytes_def)
    with parts(5) show ?thesis by (simp add: requests_ok_def)
  qed
  moreover have "events_ok c ?lg" "processes_ok ?lg"
    using parts(6,7) events_ok_frame [of ?lg lg c] processes_ok_frame [of ?lg lg]
    by (simp_all add: expire_front_def)
  ultimately show ?thesis by (simp add: tables_ok_def)
qed

text \<open>The expiry loop always reaches its budget, and only turns retained results into expired ones.\<close>

definition only_expired :: "ledger \<Rightarrow> ledger \<Rightarrow> bool" where
  "only_expired lg lg' \<longleftrightarrow>
     (\<forall>i. op_status lg' i = op_status lg i
        \<or> (i \<in> set (map snd (lg_tombstones lg)) \<and> op_status lg i \<noteq> None \<and> op_status lg' i = Some OutExpired))
   \<and> (\<forall>i. map_option (\<lambda>e. (le_digest e, le_cell e)) (map_of (lg_operations lg') i)
         = map_option (\<lambda>e. (le_digest e, le_cell e)) (map_of (lg_operations lg) i))
   \<and> lg_pending lg' = lg_pending lg \<and> lg_tombstones lg' = lg_tombstones lg \<and> lg_lost lg' = lg_lost lg
   \<and> lg_next_id lg' = lg_next_id lg \<and> lg_retention lg' = lg_retention lg
   \<and> lg_events lg' = lg_events lg \<and> lg_sequence lg' = lg_sequence lg
   \<and> lg_acknowledged lg' = lg_acknowledged lg \<and> lg_processes lg' = lg_processes lg"

lemma only_expired_refl: "only_expired lg lg"
  by (simp add: only_expired_def)

lemma only_expired_trans: "only_expired lg lg1 \<Longrightarrow> only_expired lg1 lg2 \<Longrightarrow> only_expired lg lg2"
  unfolding only_expired_def by (elim conjE, intro conjI) (metis | simp)+

lemma expire_front_only:
  assumes ok: "tables_ok c lg" and front: "lg_completed lg = op # rest"
    and e: "map_of (lg_operations lg) op = Some e"
  shows "only_expired lg (expire_front op e rest lg)"
proof -
  note parts = tables_parts [OF ok]
  have op: "op \<in> set (map snd (lg_tombstones lg))"
    using completed_entry [OF parts(2,4)] front by simp
  have "op_status (expire_front op e rest lg) i = (if i = op then Some OutExpired else op_status lg i)" for i
    by (rule status_touch [OF parts(1) e]) simp_all
  with op e show ?thesis
    by (simp add: only_expired_def status_None update_conv) (simp add: expire_front_def)
qed

lemma expire_results_ok:
  "tables_ok c lg \<Longrightarrow>
   fst (expire_results lg) \<and> ledger_ok c (snd (expire_results lg)) \<and> only_expired lg (snd (expire_results lg))"
proof (induction lg rule: expire_results.induct)
  case (1 lg)
  note parts = tables_parts [OF 1(3)]
  show ?case
  proof (cases "lg_result_bytes lg \<le> MAX_RESULTS_BYTES")
    case True
    with 1(3) show ?thesis
      by (simp add: expire_results.simps [of lg] ledger_ok_def only_expired_refl)
  next
    case over: False
    show ?thesis
    proof (cases "lg_completed lg")
      case Nil
      have "le_bytes f = 0" if "(i, f) \<in> set (lg_operations lg)" for i f
        using map_of_is_SomeI [OF _ that] parts(1,4) Nil by (auto simp: results_ok_def cells_ok_def)
      then have "lg_result_bytes lg = 0"
        using parts(4) by (auto simp: results_ok_def)
      with over show ?thesis by simp
    next
      case (Cons op rest)
      obtain e where e: "map_of (lg_operations lg) op = Some e"
        using completed_entry [OF parts(2,4)] Cons by auto
      have step: "expire_results lg = expire_results (expire_front op e rest lg)"
        using over Cons e by (simp add: expire_results.simps [of lg] expire_front_def)
      have "fst (expire_results (expire_front op e rest lg))
          \<and> ledger_ok c (snd (expire_results (expire_front op e rest lg)))
          \<and> only_expired (expire_front op e rest lg) (snd (expire_results (expire_front op e rest lg)))"
        using 1(2) [OF over Cons e] expire_front_tables [OF 1(3) Cons e] by (simp add: expire_front_def)
      with only_expired_trans [OF expire_front_only [OF 1(3) Cons e]] show ?thesis
        by (simp add: step)
    qed
  qed
qed

definition record_reply :: "nat \<Rightarrow> nat \<Rightarrow> string \<Rightarrow> ledger_entry \<Rightarrow> json \<Rightarrow> nat \<Rightarrow> ledger \<Rightarrow> ledger" where
  "record_reply now n op e reply bytes lg =
     lg\<lparr>lg_pending := adelete n (lg_pending lg),
        lg_pending_bytes := lg_pending_bytes lg - le_request_bytes e,
        lg_operations := AList.update op (e\<lparr>le_request_bytes := 0, le_bytes := bytes\<rparr>) (lg_operations lg),
        lg_cells := (lg_cells lg)[le_cell e := OutCompleted reply],
        lg_result_bytes := lg_result_bytes lg + bytes,
        lg_completed := lg_completed lg @ [op],
        lg_tombstones := lg_tombstones lg @ [(now, op)]\<rparr>"

lemma record_reply_fields [simp]:
  "lg_operations (record_reply now n op e reply b lg)
     = AList.update op (e\<lparr>le_request_bytes := 0, le_bytes := b\<rparr>) (lg_operations lg)"
  "lg_cells (record_reply now n op e reply b lg) = (lg_cells lg)[le_cell e := OutCompleted reply]"
  "lg_completed (record_reply now n op e reply b lg) = lg_completed lg @ [op]"
  "lg_result_bytes (record_reply now n op e reply b lg) = lg_result_bytes lg + b"
  "lg_pending (record_reply now n op e reply b lg) = adelete n (lg_pending lg)"
  "lg_pending_bytes (record_reply now n op e reply b lg) = lg_pending_bytes lg - le_request_bytes e"
  "lg_tombstones (record_reply now n op e reply b lg) = lg_tombstones lg @ [(now, op)]"
  "lg_lost (record_reply now n op e reply b lg) = lg_lost lg"
  "lg_next_id (record_reply now n op e reply b lg) = lg_next_id lg"
  "lg_retention (record_reply now n op e reply b lg) = lg_retention lg"
  "lg_events (record_reply now n op e reply b lg) = lg_events lg"
  "lg_event_bytes (record_reply now n op e reply b lg) = lg_event_bytes lg"
  "lg_sequence (record_reply now n op e reply b lg) = lg_sequence lg"
  "lg_acknowledged (record_reply now n op e reply b lg) = lg_acknowledged lg"
  "lg_processes (record_reply now n op e reply b lg) = lg_processes lg"
  by (simp_all add: record_reply_def)

lemma pending_disjoint:
  assumes "roles_ok lg" and n: "map_of (lg_pending lg) n = Some op"
  shows "op \<in> set (map snd (lg_pending lg))" "op \<notin> set (map snd (lg_tombstones lg))"
    "op \<notin> set (map snd (adelete n (lg_pending lg)))"
proof -
  have mem: "(n, op) \<in> set (lg_pending lg)" using n by (rule map_of_SomeD)
  then show "op \<in> set (map snd (lg_pending lg))" by force
  with assms(1) show "op \<notin> set (map snd (lg_tombstones lg))" by (auto simp: roles_ok_def)
  have "inj_on snd (set (lg_pending lg))" using assms(1) by (simp add: roles_ok_def distinct_map)
  then have "m = n" if "(m, op) \<in> set (lg_pending lg)" for m
    using inj_onD [of snd "set (lg_pending lg)" "(m, op)" "(n, op)"] mem that by simp
  then show "op \<notin> set (map snd (adelete n (lg_pending lg)))"
    by (auto simp: set_adelete)
qed

lemma pending_adelete:
  assumes "roles_ok lg" and n: "map_of (lg_pending lg) n = Some op"
  shows "set (map snd (adelete n (lg_pending lg))) = set (map snd (lg_pending lg)) - {op}"
proof -
  have "distinct (map fst (lg_pending lg))" using assms(1) by (simp add: roles_ok_def)
  then have "i = op" if "(n, i) \<in> set (lg_pending lg)" for i
    using map_of_is_SomeI [OF _ that] n by simp
  then have "set (map snd (lg_pending lg)) - {op} \<subseteq> set (map snd (adelete n (lg_pending lg)))"
    by (auto simp: set_adelete image_iff)
  moreover have "set (map snd (adelete n (lg_pending lg))) \<subseteq> set (map snd (lg_pending lg))"
    by (auto simp: set_adelete)
  ultimately show ?thesis using pending_disjoint(3) [OF assms] by blast
qed

lemma record_reply_status:
  "cells_ok lg \<Longrightarrow> map_of (lg_operations lg) op = Some e \<Longrightarrow>
   op_status (record_reply now n op e reply b lg) i = (if i = op then Some (OutCompleted reply) else op_status lg i)"
  by (rule status_touch) simp_all

lemma record_reply_tables:
  assumes ok: "tables_ok c lg" and n: "map_of (lg_pending lg) n = Some op"
    and e: "map_of (lg_operations lg) op = Some e"
  shows "tables_ok c (record_reply now n op e reply b lg)"
proof -
  let ?lg = "record_reply now n op e reply b lg"
  note parts = tables_parts [OF ok]
  note op = pending_disjoint [OF parts(2) n]
  have "op \<notin> set (lg_completed lg)" using completed_entry [OF parts(2,4)] op(2) by blast
  then have idle: "le_bytes e = 0" using parts(4) e by (auto simp: results_ok_def)
  have "cells_ok ?lg"
    by (rule cells_ok_touch [OF parts(1) e]) simp_all
  moreover have "roles_ok ?lg"
  proof -
    have "distinct (map fst (adelete n (lg_pending lg)))" "distinct (map snd (adelete n (lg_pending lg)))"
      using parts(2) by (auto simp: roles_ok_def distinct_map_adelete)
    with parts(2) op e show ?thesis
      by (auto simp: roles_ok_def update_conv set_adelete adelete_def)
  qed
  moreover have "status_ok ?lg"
    unfolding status_ok_def
  proof (intro allI impI)
    fix i v assume v: "op_status ?lg i = Some v"
    show "if i \<in> set (map snd (lg_pending ?lg)) then v = OutPending
          else if i \<in> set (map snd (lg_tombstones ?lg)) then answered v else v = OutUnknown"
    proof (cases "i = op")
      case True
      with v have "v = OutCompleted reply" by (simp add: record_reply_status [OF parts(1) e])
      with True op(3) show ?thesis by (simp add: answered_def)
    next
      case False
      with v have s: "op_status lg i = Some v" by (simp add: record_reply_status [OF parts(1) e])
      from status_okD [OF parts(3) s] pending_adelete [OF parts(2) n] False show ?thesis by simp
    qed
  qed
  moreover have "results_ok ?lg"
  proof -
    have "lg_result_bytes ?lg = sum_list (map (\<lambda>p. le_bytes (snd p)) (lg_operations ?lg))"
      using parts(4) idle sum_update [OF e, of le_bytes "e\<lparr>le_request_bytes := 0, le_bytes := b\<rparr>"]
      by (simp add: results_ok_def)
    with parts(4) show ?thesis by (auto simp: results_ok_def update_conv)
  qed
  moreover have "requests_ok ?lg"
  proof -
    have "sum_list (map (\<lambda>p. request_bytes ?lg (snd p)) (adelete n (lg_pending lg)))
        = sum_list (map (\<lambda>p. request_bytes lg (snd p)) (adelete n (lg_pending lg)))"
      using op(3) by (intro arg_cong [where f = sum_list] map_cong refl)
        (auto simp: request_bytes_def update_conv)
    moreover have "sum_list (map (\<lambda>p. request_bytes lg (snd p)) (adelete n (lg_pending lg))) + le_request_bytes e
        = sum_list (map (\<lambda>p. request_bytes lg (snd p)) (lg_pending lg))"
      using sum_adelete [OF _ n, of "request_bytes lg"] parts(2) e by (simp add: roles_ok_def request_bytes_def)
    ultimately have "lg_pending_bytes lg
        = sum_list (map (\<lambda>p. request_bytes ?lg (snd p)) (adelete n (lg_pending lg))) + le_request_bytes e"
      using parts(5) by (simp add: requests_ok_def)
    then have "lg_pending_bytes ?lg = sum_list (map (\<lambda>p. request_bytes ?lg (snd p)) (lg_pending ?lg))"
      by simp
    moreover have "lg_pending_bytes ?lg \<le> MAX_PENDING_BYTES"
      using parts(5) unfolding requests_ok_def record_reply_fields by (meson diff_le_self le_trans)
    ultimately show ?thesis
      using parts(5) length_adelete_le [of n "lg_pending lg"] by (simp add: requests_ok_def)
  qed
  moreover have "events_ok c ?lg" "processes_ok ?lg"
    using parts(6,7) events_ok_frame [of ?lg lg c] processes_ok_frame [of ?lg lg] by simp_all
  ultimately show ?thesis by (simp add: tables_ok_def)
qed

lemma finish_unfold:
  assumes "map_of (lg_pending lg) n = Some op" and "map_of (lg_operations lg) op = Some e"
  shows "finish_operation c now n reply lg
    = expire_results (record_reply now n op e (executed_reply now (le_timed e) reply)
        (length (xc_encode c (executed_reply now (le_timed e) reply))) lg)"
  using assms by (simp add: finish_operation_def record_reply_def Let_def)

lemma finish_ok:
  assumes ok: "ledger_ok c lg"
  shows "ledger_ok c (snd (finish_operation c now n reply lg))
    \<and> (fst (finish_operation c now n reply lg) \<longleftrightarrow> map_of (lg_pending lg) n \<noteq> None)"
proof (cases "map_of (lg_pending lg) n")
  case None
  with ok show ?thesis by (simp add: finish_operation_def)
next
  case (Some op)
  have tables: "tables_ok c lg" using ok by (simp add: ledger_ok_def)
  obtain e where e: "map_of (lg_operations lg) op = Some e"
    using pending_entry [OF tables_parts(2) [OF tables] Some] by blast
  from expire_results_ok [OF record_reply_tables [OF tables Some e]] Some show ?thesis
    by (simp add: finish_unfold [OF Some e])
qed

section \<open>Loss\<close>

lemma lose_pending_other:
  "(\<And>p e. p \<in> set pending \<Longrightarrow> map_of ops (snd p) = Some e \<Longrightarrow> le_cell e \<noteq> k) \<Longrightarrow>
   lose_pending ops pending cells ! k = cells ! k"
proof (induction pending arbitrary: cells)
  case (Cons p pending)
  show ?case
  proof (cases "map_of ops (snd p)")
    case None
    with Cons show ?thesis by (auto simp: lose_pending_def case_prod_beta)
  next
    case (Some e)
    with Cons.prems [of p e] have "le_cell e \<noteq> k" by simp
    with Some Cons.IH [of "cells[le_cell e := OutUnknown]"] Cons.prems show ?thesis
      by (auto simp: lose_pending_def case_prod_beta)
  qed
qed (simp add: lose_pending_def)

lemma length_lose_pending [simp]: "length (lose_pending ops pending cells) = length cells"
proof (induction pending arbitrary: cells)
  case (Cons p pending)
  then show ?case by (auto simp: lose_pending_def case_prod_beta split: option.splits)
qed (simp add: lose_pending_def)

lemma lose_pending_hit:
  "p \<in> set pending \<Longrightarrow> map_of ops (snd p) = Some e \<Longrightarrow> le_cell e < length cells \<Longrightarrow>
   lose_pending ops pending cells ! le_cell e = OutUnknown"
proof (induction pending rule: rev_induct)
  case (snoc q pending)
  let ?cs = "lose_pending ops pending cells"
  have last: "lose_pending ops (pending @ [q]) cells
      = (case map_of ops (snd q) of None \<Rightarrow> ?cs | Some f \<Rightarrow> ?cs[le_cell f := OutUnknown])"
    by (cases "map_of ops (snd q)") (simp_all add: lose_pending_def case_prod_beta)
  have len: "length ?cs = length cells" by simp
  show ?case
  proof (cases "p \<in> set pending")
    case True
    with snoc have hit: "?cs ! le_cell e = OutUnknown" by simp
    show ?thesis
    proof (cases "map_of ops (snd q)")
      case (Some f)
      with hit snoc.prems(3) show ?thesis by (cases "le_cell f = le_cell e") (simp_all add: last)
    qed (simp add: last hit)
  next
    case False
    with snoc.prems have "q = p" by auto
    with snoc.prems len last show ?thesis by simp
  qed
qed simp

lemma status_lose:
  assumes "cells_ok lg" and "roles_ok lg"
  shows "op_status (lose lg) i =
    (if i \<in> set (map snd (lg_pending lg)) then Some OutUnknown else op_status lg i)"
proof (cases "map_of (lg_operations lg) i")
  case None
  with assms(2) show ?thesis by (auto simp: op_status_def lose_def roles_ok_def)
next
  case (Some e)
  note bound = cell_bound [OF assms(1) Some]
  show ?thesis
  proof (cases "i \<in> set (map snd (lg_pending lg))")
    case True
    then obtain p where "p \<in> set (lg_pending lg)" "snd p = i" by auto
    with lose_pending_hit [of p "lg_pending lg" "lg_operations lg" e "lg_cells lg"] Some bound True
    show ?thesis by (simp add: op_status_def lose_def)
  next
    case False
    have "lose_pending (lg_operations lg) (lg_pending lg) (lg_cells lg) ! le_cell e = lg_cells lg ! le_cell e"
    proof (rule lose_pending_other)
      fix p f assume p: "p \<in> set (lg_pending lg)" "map_of (lg_operations lg) (snd p) = Some f"
      with False have "snd p \<noteq> i" by auto
      with cells_distinct [OF assms(1) p(2) Some] show "le_cell f \<noteq> le_cell e" by blast
    qed
    with Some False show ?thesis by (simp add: op_status_def lose_def)
  qed
qed

lemma lose_fields [simp]:
  "lg_operations (lose lg) = lg_operations lg" "lg_pending (lose lg) = []" "lg_lost (lose lg) = True"
  "lg_pending_bytes (lose lg) = 0" "lg_tombstones (lose lg) = lg_tombstones lg"
  "lg_completed (lose lg) = lg_completed lg" "lg_result_bytes (lose lg) = lg_result_bytes lg"
  "length (lg_cells (lose lg)) = length (lg_cells lg)" "lg_events (lose lg) = lg_events lg"
  "lg_event_bytes (lose lg) = lg_event_bytes lg" "lg_sequence (lose lg) = lg_sequence lg"
  "lg_acknowledged (lose lg) = lg_acknowledged lg" "lg_processes (lose lg) = lg_processes lg"
  "lg_retention (lose lg) = lg_retention lg" "lg_next_id (lose lg) = lg_next_id lg"
  by (simp_all add: lose_def)

lemma lose_ok:
  assumes ok: "ledger_ok c lg"
  shows "ledger_ok c (lose lg)"
proof -
  have tables: "tables_ok c lg" using ok by (simp add: ledger_ok_def)
  note parts = tables_parts [OF tables]
  have "cells_ok (lose lg)" using parts(1) by (simp add: cells_ok_def)
  moreover have "roles_ok (lose lg)" using parts(2) by (auto simp: roles_ok_def)
  moreover have "status_ok (lose lg)"
    unfolding status_ok_def
  proof (intro allI impI)
    fix i v assume v: "op_status (lose lg) i = Some v"
    show "if i \<in> set (map snd (lg_pending (lose lg))) then v = OutPending
          else if i \<in> set (map snd (lg_tombstones (lose lg))) then answered v else v = OutUnknown"
    proof (cases "i \<in> set (map snd (lg_pending lg))")
      case True
      with v have "v = OutUnknown" by (simp add: status_lose [OF parts(1,2)])
      moreover have "i \<notin> set (map snd (lg_tombstones lg))"
        using True parts(2) by (auto simp: roles_ok_def)
      ultimately show ?thesis by simp
    next
      case False
      with v have "op_status lg i = Some v" by (simp add: status_lose [OF parts(1,2)])
      from status_okD [OF parts(3) this] False show ?thesis by simp
    qed
  qed
  moreover have "results_ok (lose lg)" using parts(4) by (simp add: results_ok_def)
  moreover have "requests_ok (lose lg)" by (simp add: requests_ok_def)
  moreover have "events_ok c (lose lg)" "processes_ok (lose lg)"
    using parts(6,7) events_ok_frame [of "lose lg" lg c] processes_ok_frame [of "lose lg" lg] by simp_all
  ultimately show ?thesis using ok by (simp add: ledger_ok_def tables_ok_def)
qed

section \<open>Events\<close>

lemma push_fields:
  assumes "push_event c m lg = (r, lg')"
  shows "lg_operations lg' = lg_operations lg" "lg_pending lg' = lg_pending lg" "lg_lost lg' = lg_lost lg"
    "lg_pending_bytes lg' = lg_pending_bytes lg" "lg_tombstones lg' = lg_tombstones lg"
    "lg_completed lg' = lg_completed lg" "lg_result_bytes lg' = lg_result_bytes lg"
    "lg_cells lg' = lg_cells lg" "lg_next_id lg' = lg_next_id lg" "lg_acknowledged lg' = lg_acknowledged lg"
    "lg_retention lg' = lg_retention lg"
  using assms by (auto simp: push_event_def Let_def split: if_splits option.splits)

lemma frame_tables:
  assumes "tables_ok c lg"
    and "lg_operations lg' = lg_operations lg" "lg_pending lg' = lg_pending lg" "lg_lost lg' = lg_lost lg"
    "lg_pending_bytes lg' = lg_pending_bytes lg" "lg_tombstones lg' = lg_tombstones lg"
    "lg_completed lg' = lg_completed lg" "lg_result_bytes lg' = lg_result_bytes lg"
    "lg_cells lg' = lg_cells lg" "lg_next_id lg' = lg_next_id lg"
    and "events_ok c lg'" "processes_ok lg'"
  shows "tables_ok c lg'"
proof -
  have "op_status lg' = op_status lg" "request_bytes lg' = request_bytes lg"
    using assms(2,9) by (simp_all add: op_status_def request_bytes_def fun_eq_iff)
  with assms show ?thesis
    by (simp add: tables_ok_def cells_ok_def roles_ok_def status_ok_def results_ok_def requests_ok_def)
qed

lemma push_events_ok:
  assumes ok: "events_ok c lg" and push: "push_event c m lg = (r, lg')"
  shows "events_ok c lg'"
proof (cases r)
  case PushOk
  let ?b = "length (xc_encode c m)"
  have room: "?b \<le> MAX_EVENT_BATCH_BYTES" "lg_event_bytes lg + ?b \<le> MAX_EVENTS_BYTES" "length (lg_events lg) < MAX_EVENTS"
    and new: "lg_sequence lg' = Suc (lg_sequence lg)" "lg_event_bytes lg' = lg_event_bytes lg + ?b"
      "lg_events lg' = lg_events lg @ [(\<lparr>ev_sequence = Suc (lg_sequence lg), ev_message = m\<rparr>, ?b)]"
    using push PushOk by (auto simp: push_event_def Let_def split: if_splits option.splits)
  with ok show ?thesis
    by (auto simp: events_ok_def push_fields(10) [OF push])
qed (use assms in \<open>auto simp: push_event_def Let_def split: if_splits option.splits\<close>)

lemma push_ok:
  assumes ok: "ledger_ok c lg" and push: "push_event c m lg = (r, lg')"
  shows "ledger_ok c lg'"
proof -
  have tables: "tables_ok c lg" using ok by (simp add: ledger_ok_def)
  note parts = tables_parts [OF tables]
  have "processes_ok lg'"
    using push parts(7) le_trans [OF length_filter_le]
    by (auto simp: push_event_def Let_def processes_ok_def sorted_filter [of id, simplified] split: if_splits option.splits)
  with frame_tables [OF tables push_fields(1-9) [OF push] push_events_ok [OF parts(6) push]] ok push_fields(7) [OF push]
  show ?thesis by (simp add: ledger_ok_def)
qed

lemma release_fields [simp]:
  "lg_operations (release_events a lg evs) = lg_operations lg"
  "lg_pending (release_events a lg evs) = lg_pending lg" "lg_lost (release_events a lg evs) = lg_lost lg"
  "lg_pending_bytes (release_events a lg evs) = lg_pending_bytes lg"
  "lg_tombstones (release_events a lg evs) = lg_tombstones lg"
  "lg_completed (release_events a lg evs) = lg_completed lg"
  "lg_result_bytes (release_events a lg evs) = lg_result_bytes lg"
  "lg_cells (release_events a lg evs) = lg_cells lg" "lg_next_id (release_events a lg evs) = lg_next_id lg"
  "lg_sequence (release_events a lg evs) = lg_sequence lg"
  "lg_acknowledged (release_events a lg evs) = lg_acknowledged lg"
  "lg_processes (release_events a lg evs) = lg_processes lg"
  "lg_retention (release_events a lg evs) = lg_retention lg"
  by (induction a lg evs rule: release_events.induct) auto

lemma release_events_rest:
  "lg_events (release_events a lg evs) = dropWhile (\<lambda>p. ev_sequence (fst p) \<le> a) evs"
  by (induction a lg evs rule: release_events.induct) auto

lemma release_events_bytes:
  "sum_list (map snd evs) \<le> lg_event_bytes lg \<Longrightarrow>
   lg_event_bytes (release_events a lg evs) + sum_list (map snd (takeWhile (\<lambda>p. ev_sequence (fst p) \<le> a) evs))
     = lg_event_bytes lg"
proof (induction a lg evs rule: release_events.induct)
  case (2 a lg event sz rest)
  from 2(2) have "sum_list (map snd rest) \<le> lg_event_bytes lg - sz" "sz \<le> lg_event_bytes lg" by simp_all
  with 2(1) show ?case by (cases "ev_sequence event \<le> a") simp_all
qed simp

lemma sum_take_drop_while:
  "sum_list (map f (takeWhile P xs)) + sum_list (map f (dropWhile P xs)) = (sum_list (map f xs) :: nat)"
  by (metis map_append sum_list_append takeWhile_dropWhile_id)

lemma dropWhile_upt: "dropWhile (\<lambda>n. n \<le> a) [m ..< k] = [max (Suc a) m ..< k]"
proof (induction "k - m" arbitrary: m)
  case (Suc d)
  then have "m < k" by simp
  with Suc(1) [of "Suc m"] Suc(2) show ?case
    by (auto simp: upt_conv_Cons max_def not_less_eq_eq)
qed simp

lemma dropWhile_map: "map f (dropWhile (\<lambda>x. P (f x)) xs) = dropWhile P (map f xs)"
  by (induction xs) auto

lemma events_after_ok:
  assumes ok: "events_ok c lg" and ev: "events_after a lg = (r, lg')"
  shows "events_ok c lg'"
proof (cases "lg_sequence lg < a \<or> a \<le> lg_acknowledged lg")
  case True
  with ok ev show ?thesis by (auto simp: events_after_def Let_def split: if_splits)
next
  case False
  let ?lg = "release_events a lg (lg_events lg)"
  have lg': "lg' = ?lg\<lparr>lg_acknowledged := a, lg_event_space := a\<rparr>"
    using ev False by (auto simp: events_after_def Let_def)
  have sum: "lg_event_bytes lg = sum_list (map snd (lg_events lg))" using ok by (simp add: events_ok_def)
  have "map (\<lambda>p. ev_sequence (fst p)) (lg_events ?lg) = [Suc a ..< Suc (lg_sequence lg)]"
    using ok False
    using dropWhile_map [of "\<lambda>p. ev_sequence (fst p)" "\<lambda>n. n \<le> a" "lg_events lg"]
    by (simp add: release_events_rest dropWhile_upt events_ok_def max_def del: upt_Suc)
  moreover have "lg_event_bytes ?lg = sum_list (map snd (lg_events ?lg))"
    using release_events_bytes [of "lg_events lg" lg a] sum
      sum_take_drop_while [of snd "\<lambda>p. ev_sequence (fst p) \<le> a" "lg_events lg"]
    by (simp add: release_events_rest)
  moreover have "lg_event_bytes ?lg \<le> lg_event_bytes lg"
    using release_events_bytes [of "lg_events lg" lg a] sum by simp
  moreover have "length (lg_events ?lg) \<le> length (lg_events lg)"
    by (simp add: release_events_rest length_dropWhile_le)
  moreover have "set (lg_events ?lg) \<subseteq> set (lg_events lg)"
    by (auto simp: release_events_rest dest: set_dropWhileD)
  ultimately show ?thesis
    using ok False lg' by (auto simp: events_ok_def simp del: upt_Suc)
qed

lemma events_after_fields:
  assumes "events_after a lg = (r, lg')"
  shows "lg_operations lg' = lg_operations lg" "lg_pending lg' = lg_pending lg" "lg_lost lg' = lg_lost lg"
    "lg_pending_bytes lg' = lg_pending_bytes lg" "lg_tombstones lg' = lg_tombstones lg"
    "lg_completed lg' = lg_completed lg" "lg_result_bytes lg' = lg_result_bytes lg"
    "lg_cells lg' = lg_cells lg" "lg_next_id lg' = lg_next_id lg" "lg_sequence lg' = lg_sequence lg"
    "lg_processes lg' = lg_processes lg" "lg_retention lg' = lg_retention lg"
  using assms by (auto simp: events_after_def Let_def split: if_splits)

lemma events_after_ledger_ok:
  assumes ok: "ledger_ok c lg" and ev: "events_after a lg = (r, lg')"
  shows "ledger_ok c lg'"
proof -
  have tables: "tables_ok c lg" using ok by (simp add: ledger_ok_def)
  note parts = tables_parts [OF tables] and frame = events_after_fields [OF ev]
  have "processes_ok lg'" using parts(7) frame(11) processes_ok_frame by blast
  with frame_tables [OF tables frame(1-9) events_after_ok [OF parts(6) ev]] ok frame(7) show ?thesis
    by (simp add: ledger_ok_def)
qed

lemma take_processes_ok: "ledger_ok c lg \<Longrightarrow> ledger_ok c (snd (take_processes lg))"
proof -
  assume ok: "ledger_ok c lg"
  then have tables: "tables_ok c lg" by (simp add: ledger_ok_def)
  let ?lg = "snd (take_processes lg)"
  have "events_ok c ?lg"
    using tables_parts(6) [OF tables] events_ok_frame [of ?lg lg c] by (simp add: take_processes_def)
  then have "tables_ok c ?lg"
    by (intro frame_tables [OF tables]) (simp_all add: take_processes_def processes_ok_def)
  with ok show ?thesis by (simp add: ledger_ok_def take_processes_def)
qed

end
