(* ===== verification/Event_Stream.thy ===== *)
theory Event_Stream
  imports Prelude
begin

text \<open>
  The interface of an acknowledged event stream and its one consumer. A producer appends messages or is
  pushed back; the consumer polls with the cursor it has reached, which also acknowledges everything up to
  it. The keeper's ledger provides the stream, the worker's endpoint consumes it.
\<close>

text \<open>
  What can happen between the two: the producer offers a message; the consumer polls and takes the
  answer; it polls and the answer is lost; a delayed duplicate of an earlier poll arrives.
\<close>

datatype 'm stream_op = Offer 'm | Poll | PollLost | Late nat

locale acknowledged_stream =
  fixes inv :: "'q \<Rightarrow> bool"
    and rest :: "nat \<Rightarrow> 'q \<Rightarrow> 'm list"
    and acked :: "'q \<Rightarrow> nat" and latest :: "'q \<Rightarrow> nat"
    and push :: "'m \<Rightarrow> 'q \<Rightarrow> bool \<times> 'q"
    and poll :: "nat \<Rightarrow> 'q \<Rightarrow> ('m list \<times> nat) option \<times> 'q"
  assumes inv_push: "inv q \<Longrightarrow> inv (snd (push m q))"
    and inv_poll: "inv q \<Longrightarrow> inv (snd (poll a q))"
    and push_rest: "inv q \<Longrightarrow> acked q \<le> a \<Longrightarrow> a \<le> latest q \<Longrightarrow>
          rest a (snd (push m q)) = (if fst (push m q) then rest a q @ [m] else rest a q)"
    and push_marks: "inv q \<Longrightarrow> acked (snd (push m q)) = acked q \<and> latest q \<le> latest (snd (push m q))"
    and poll_refused: "inv q \<Longrightarrow> fst (poll a q) = None \<longleftrightarrow> a < acked q \<or> latest q < a"
    and poll_marks: "inv q \<Longrightarrow> latest (snd (poll a q)) = latest q
          \<and> acked (snd (poll a q)) = (if a \<le> latest q then max (acked q) a else acked q)"
    and poll_rest: "inv q \<Longrightarrow> a \<le> x \<Longrightarrow> rest x (snd (poll a q)) = rest x q"
    and poll_batch: "inv q \<Longrightarrow> fst (poll a q) = Some (ms, b) \<Longrightarrow>
          rest a q = ms @ rest b q \<and> a \<le> b \<and> b \<le> latest q \<and> (rest a q \<noteq> [] \<longrightarrow> ms \<noteq> [])"
begin

text \<open>A run returns what the producer got accepted, what the consumer received and where both are.\<close>

fun consume :: "'m stream_op \<Rightarrow> 'm list \<times> 'm list \<times> nat \<times> 'q \<Rightarrow> 'm list \<times> 'm list \<times> nat \<times> 'q" where
  "consume (Offer m) (accepted, received, a, q) =
     (if fst (push m q) then accepted @ [m] else accepted, received, a, snd (push m q))"
| "consume Poll (accepted, received, a, q) =
     (case fst (poll a q) of
        None \<Rightarrow> (accepted, received, a, snd (poll a q))
      | Some (ms, b) \<Rightarrow> (accepted, received @ ms, b, snd (poll a q)))"
| "consume PollLost (accepted, received, a, q) = (accepted, received, a, snd (poll a q))"
| "consume (Late b) (accepted, received, a, q) = (accepted, received, a, snd (poll (min b a) q))"

definition in_step :: "'m list \<times> 'm list \<times> nat \<times> 'q \<Rightarrow> bool" where
  "in_step s \<longleftrightarrow> (case s of (accepted, received, a, q) \<Rightarrow>
     inv q \<and> acked q \<le> a \<and> a \<le> latest q \<and> accepted = received @ rest a q)"

lemma consume_in_step: "in_step s \<Longrightarrow> in_step (consume ev s)"
proof -
  obtain accepted received a q where s: "s = (accepted, received, a, q)" by (cases s)
  assume "in_step s"
  then have q: "inv q" "acked q \<le> a" "a \<le> latest q" "accepted = received @ rest a q"
    by (auto simp: in_step_def s)
  show ?thesis
  proof (cases ev)
    case (Offer m)
    with q push_rest [OF q(1-3), of m] push_marks [OF q(1), of m] inv_push [OF q(1), of m]
    show ?thesis by (auto simp: in_step_def s)
  next
    case Poll
    obtain ms b where ms: "fst (poll a q) = Some (ms, b)"
      using poll_refused [OF q(1), of a] q(2,3) by force
    from poll_batch [OF q(1) ms] have b: "rest a q = ms @ rest b q" "a \<le> b" "b \<le> latest q" by auto
    with Poll ms q poll_rest [OF q(1) b(2)] poll_marks [OF q(1), of a] inv_poll [OF q(1), of a]
    show ?thesis by (auto simp: in_step_def s)
  next
    case PollLost
    with q poll_rest [OF q(1), of a a] poll_marks [OF q(1), of a] inv_poll [OF q(1), of a]
    show ?thesis by (auto simp: in_step_def s)
  next
    case (Late b)
    with q poll_rest [OF q(1), of "min b a" a] poll_marks [OF q(1), of "min b a"] inv_poll [OF q(1), of "min b a"]
    show ?thesis by (auto simp: in_step_def s)
  qed
qed

lemma run_in_step: "in_step s \<Longrightarrow> in_step (fold consume evs s)"
  by (induction evs arbitrary: s) (simp_all only: fold_simps consume_in_step)

text \<open>Nothing is lost, repeated or reordered.\<close>

lemma run_lossless:
  assumes "inv q" and "acked q \<le> a" and "a \<le> latest q" and "rest a q = []"
    and "fold consume evs ([], [], a, q) = (accepted, received, b, q')"
  shows "accepted = received @ rest b q'"
  using run_in_step [of "([], [], a, q)" evs] assms by (simp add: in_step_def)

text \<open>A poll is never refused and gets at least one message when there is one.\<close>

lemma poll_progress:
  assumes "in_step (accepted, received, a, q)" and "rest a q \<noteq> []"
  obtains ms b where "fst (poll a q) = Some (ms, b)" "ms \<noteq> []" "length (rest b (snd (poll a q))) < length (rest a q)"
proof -
  from assms(1) have q: "inv q" "acked q \<le> a" "a \<le> latest q" by (auto simp: in_step_def)
  obtain ms b where ms: "fst (poll a q) = Some (ms, b)"
    using poll_refused [OF q(1), of a] q(2,3) by force
  from poll_batch [OF q(1) ms] assms(2) have b: "rest a q = ms @ rest b q" "a \<le> b" "ms \<noteq> []" by auto
  moreover have "rest b (snd (poll a q)) = rest b q" using poll_rest [OF q(1) b(2)] .
  ultimately show ?thesis using ms that by simp
qed

text \<open>Polling as often as there are messages delivers them all.\<close>

lemma polls_drain:
  "in_step (accepted, received, a, q) \<Longrightarrow> length (rest a q) \<le> n \<Longrightarrow>
   \<exists>b q'. fold consume (replicate n Poll) (accepted, received, a, q) = (accepted, accepted, b, q')"
proof (induction n arbitrary: received a q)
  case 0
  then show ?case by (simp add: in_step_def)
next
  case (Suc n)
  show ?case
  proof (cases "rest a q = []")
    case True
    from Suc.prems(1) have q: "inv q" "acked q \<le> a" "a \<le> latest q" by (auto simp: in_step_def)
    obtain ms b where ms: "fst (poll a q) = Some (ms, b)"
      using poll_refused [OF q(1), of a] q(2,3) by force
    from poll_batch [OF q(1) ms] True have none: "ms = []" "rest b q = []" "a \<le> b" by auto
    have step: "consume Poll (accepted, received, a, q) = (accepted, received, b, snd (poll a q))"
      using ms none by simp
    have "in_step (accepted, received, b, snd (poll a q))"
      using consume_in_step [OF Suc.prems(1), of Poll] unfolding step .
    moreover have "rest b (snd (poll a q)) = []" using poll_rest [OF q(1) none(3)] none(2) by simp
    ultimately show ?thesis
      using Suc.IH [of received b "snd (poll a q)"] step by (simp del: consume.simps)
  next
    case False
    obtain ms b where ms: "fst (poll a q) = Some (ms, b)" "length (rest b (snd (poll a q))) < length (rest a q)"
      using poll_progress [OF Suc.prems(1) False] by metis
    have step: "consume Poll (accepted, received, a, q) = (accepted, received @ ms, b, snd (poll a q))"
      using ms by simp
    have "in_step (accepted, received @ ms, b, snd (poll a q))"
      using consume_in_step [OF Suc.prems(1), of Poll] unfolding step .
    then show ?thesis
      using Suc.IH [of "received @ ms" b "snd (poll a q)"] ms(2) Suc.prems(2) step by (simp del: consume.simps)
  qed
qed

end

end
