(* ===== verification/Execution_Events.thy ===== *)
theory Execution_Events
  imports Execution_Ledger_Safety Event_Stream
begin

text \<open>
  The keeper's event buffer is an acknowledged stream: its unacknowledged events are what the interface
  calls the rest, its sequence numbers the cursors.
\<close>

definition stream_rest :: "nat \<Rightarrow> ledger \<Rightarrow> json list" where
  "stream_rest a lg = map (\<lambda>p. ev_message (fst p)) (filter (\<lambda>p. a < ev_sequence (fst p)) (lg_events lg))"

definition stream_push :: "execution_codec \<Rightarrow> json \<Rightarrow> ledger \<Rightarrow> bool \<times> ledger" where
  "stream_push c m lg = (fst (push_event c m lg) = PushOk, snd (push_event c m lg))"

definition stream_poll :: "nat \<Rightarrow> ledger \<Rightarrow> (json list \<times> nat) option \<times> ledger" where
  "stream_poll a lg =
     (case fst (events_after a lg) of
        Inl _ \<Rightarrow> None
      | Inr (events, through) \<Rightarrow> Some (map ev_message events, through), snd (events_after a lg))"

lemma upt_member: "map f xs = [m ..< k] \<Longrightarrow> x \<in> set xs \<Longrightarrow> m \<le> f x \<and> f x < k"
  by (metis atLeastLessThan_iff image_eqI list.set_map set_upt)

lemma event_range:
  assumes "events_ok c lg" and "p \<in> set (lg_events lg)"
  shows "lg_acknowledged lg < ev_sequence (fst p) \<and> ev_sequence (fst p) \<le> lg_sequence lg"
proof -
  have "map (\<lambda>p. ev_sequence (fst p)) (lg_events lg) = [Suc (lg_acknowledged lg) ..< Suc (lg_sequence lg)]"
    using assms(1) unfolding events_ok_def by blast
  from upt_member [OF this assms(2)] show ?thesis by simp
qed

lemma push_event_ok_iff:
  "fst (push_event c m lg) = PushOk \<Longrightarrow>
     lg_events (snd (push_event c m lg)) = lg_events lg @
       [(\<lparr>ev_sequence = Suc (lg_sequence lg), ev_message = m\<rparr>, length (xc_encode c m))]
   \<and> lg_sequence (snd (push_event c m lg)) = Suc (lg_sequence lg)"
  by (auto simp: push_event_def Let_def split: if_splits option.splits)

lemma push_event_refused:
  "fst (push_event c m lg) \<noteq> PushOk \<Longrightarrow> snd (push_event c m lg) = lg"
proof (cases "push_event c m lg")
  case (Pair r lg')
  then have "r \<noteq> PushOk \<Longrightarrow> lg' = lg"
    by (auto simp: push_event_def Let_def split: if_splits)
  then show "fst (push_event c m lg) \<noteq> PushOk \<Longrightarrow> snd (push_event c m lg) = lg"
    by (simp add: Pair)
qed

lemma collect_batch_split:
  assumes "collect_batch a bytes through xs = (evs, b)" and "sorted_wrt (<) (map (\<lambda>p. ev_sequence (fst p)) xs)"
    and "\<forall>p \<in> set xs. a < ev_sequence (fst p)" and "\<forall>p \<in> set xs. through < ev_sequence (fst p)"
  shows "\<exists>pre post. xs = pre @ post \<and> evs = map fst pre \<and> through \<le> b
     \<and> (\<forall>p \<in> set pre. ev_sequence (fst p) \<le> b) \<and> (\<forall>p \<in> set post. b < ev_sequence (fst p))
     \<and> (pre \<noteq> [] \<longrightarrow> b = ev_sequence (fst (last pre))) \<and> (pre = [] \<longrightarrow> b = through)"
  using assms
proof (induction a bytes through xs arbitrary: evs b rule: collect_batch.induct)
  case (2 a bytes through event sz rest)
  from 2(5) have new: "a < ev_sequence event" by simp
  show ?case
  proof (cases "MAX_EVENT_BATCH_BYTES < bytes + sz")
    case True
    with 2(3) new have "evs = []" "b = through" by auto
    with 2(6) show ?thesis by (intro exI [of _ "[]"] exI [of _ "(event, sz) # rest"]) simp
  next
    case False
    obtain es d where tail: "collect_batch a (bytes + sz) (ev_sequence event) rest = (es, d)" by fastforce
    from 2(3) new False tail have evs: "evs = event # es" "b = d" by auto
    from 2(2) [OF _ False tail] new 2(4,5) obtain pre post where
      p: "rest = pre @ post" "es = map fst pre" "ev_sequence event \<le> d"
        "\<forall>p \<in> set pre. ev_sequence (fst p) \<le> d" "\<forall>p \<in> set post. d < ev_sequence (fst p)"
        "pre \<noteq> [] \<longrightarrow> d = ev_sequence (fst (last pre))" "pre = [] \<longrightarrow> d = ev_sequence event"
      by auto
    with evs 2(6) show ?thesis
      by (intro exI [of _ "(event, sz) # pre"] exI [of _ post]) auto
  qed
qed auto

lemma events_after_batch:
  assumes ok: "events_ok c lg" and ev: "events_after a lg = (Inr (evs, b), lg')"
  obtains pre post where "lg_events lg' = pre @ post" "evs = map fst pre" "a \<le> b" "b \<le> lg_sequence lg"
    "\<forall>p \<in> set pre. ev_sequence (fst p) \<le> b" "\<forall>p \<in> set post. b < ev_sequence (fst p)"
    "\<forall>p \<in> set (lg_events lg'). a < ev_sequence (fst p)" "pre = [] \<longrightarrow> lg_events lg' = []"
proof -
  have ok': "events_ok c lg'" by (rule events_after_ok [OF ok ev])
  have range: "lg_acknowledged lg \<le> a" "a \<le> lg_sequence lg" and ack: "lg_acknowledged lg' = a"
    and batch: "collect_batch a 0 a (lg_events lg') = (evs, b)"
    using ev by (auto simp: events_after_def Let_def split: if_splits)
  have above: "\<forall>p \<in> set (lg_events lg'). a < ev_sequence (fst p)"
    using event_range [OF ok'] ack by auto
  have "sorted_wrt (<) (map (\<lambda>p. ev_sequence (fst p)) (lg_events lg'))"
    using ok' by (simp add: events_ok_def sorted_wrt_upt del: upt_Suc)
  from collect_batch_split [OF batch this above above] obtain pre post where
    p: "lg_events lg' = pre @ post" "evs = map fst pre" "a \<le> b" "\<forall>p \<in> set pre. ev_sequence (fst p) \<le> b"
      "\<forall>p \<in> set post. b < ev_sequence (fst p)" "pre \<noteq> [] \<longrightarrow> b = ev_sequence (fst (last pre))"
      "pre = [] \<longrightarrow> b = a" by auto
  have "b \<le> lg_sequence lg"
  proof (cases "pre = []")
    case False
    then have "last pre \<in> set (lg_events lg')" using p(1) by simp
    from event_range [OF ok' this] p(6) False events_after_fields(10) [OF ev] show ?thesis by simp
  qed (use p(7) range in simp)
  moreover have "pre = [] \<longrightarrow> lg_events lg' = []"
  proof (cases "lg_events lg'")
    case (Cons e rest)
    obtain event sz where e: "e = (event, sz)" by (cases e)
    have "sz \<le> MAX_EVENT_BATCH_BYTES" "a < ev_sequence event"
      using ok' above Cons e by (auto simp: events_ok_def)
    with batch Cons e have "evs \<noteq> []" by (auto split: prod.splits)
    with p(2) show ?thesis by simp
  qed simp
  ultimately show ?thesis using that p above by blast
qed

lemma stream_rest_after:
  assumes ok: "events_ok c lg" and ev: "events_after a lg = (r, lg')" and "a \<le> x"
  shows "stream_rest x lg' = stream_rest x lg"
proof (cases "lg_sequence lg < a \<or> a \<le> lg_acknowledged lg")
  case True
  with ev show ?thesis by (auto simp: events_after_def Let_def stream_rest_def split: if_splits)
next
  case False
  then have evs: "lg_events lg' = dropWhile (\<lambda>p. ev_sequence (fst p) \<le> a) (lg_events lg)"
    using ev by (auto simp: events_after_def Let_def release_events_rest split: if_splits)
  have "filter (\<lambda>p. x < ev_sequence (fst p)) (takeWhile (\<lambda>p. ev_sequence (fst p) \<le> a) (lg_events lg)) = []"
    using assms(3) by (auto simp: filter_empty_conv dest!: set_takeWhileD)
  then have "filter (\<lambda>p. x < ev_sequence (fst p)) (lg_events lg)
      = filter (\<lambda>p. x < ev_sequence (fst p)) (dropWhile (\<lambda>p. ev_sequence (fst p) \<le> a) (lg_events lg))"
    by (metis append_Nil filter_append takeWhile_dropWhile_id)
  with evs show ?thesis by (simp add: stream_rest_def)
qed

interpretation keeper_stream: acknowledged_stream "events_ok c" stream_rest lg_acknowledged lg_sequence
  "stream_push c" stream_poll for c
proof
  fix q :: ledger and m a
  assume q: "events_ok c q"
  show "events_ok c (snd (stream_push c m q))"
    using push_events_ok [OF q prod.collapse [symmetric], of m] by (simp add: stream_push_def)
  show "events_ok c (snd (stream_poll a q))"
    using events_after_ok [OF q prod.collapse [symmetric], of a] by (simp add: stream_poll_def)
  show "lg_acknowledged (snd (stream_push c m q)) = lg_acknowledged q
      \<and> lg_sequence q \<le> lg_sequence (snd (stream_push c m q))"
    using push_fields(10) [OF prod.collapse [symmetric], of c m q] push_event_ok_iff [of c m q] push_event_refused [of c m q]
    by (cases "fst (push_event c m q) = PushOk") (simp_all add: stream_push_def)
  show "fst (stream_poll a q) = None \<longleftrightarrow> a < lg_acknowledged q \<or> lg_sequence q < a"
    by (auto simp: stream_poll_def events_after_def Let_def split: sum.splits prod.splits)
  show "lg_sequence (snd (stream_poll a q)) = lg_sequence q
      \<and> lg_acknowledged (snd (stream_poll a q)) = (if a \<le> lg_sequence q then max (lg_acknowledged q) a else lg_acknowledged q)"
    by (auto simp: stream_poll_def events_after_def Let_def)
next
  fix q :: ledger and m a
  assume q: "events_ok c q" "lg_acknowledged q \<le> a" "a \<le> lg_sequence q"
  show "stream_rest a (snd (stream_push c m q)) =
      (if fst (stream_push c m q) then stream_rest a q @ [m] else stream_rest a q)"
    using q push_event_ok_iff [of c m q] push_event_refused [of c m q]
    by (auto simp: stream_push_def stream_rest_def)
next
  fix q :: ledger and a x :: nat
  assume "events_ok c q" "a \<le> x"
  then show "stream_rest x (snd (stream_poll a q)) = stream_rest x q"
    using stream_rest_after [of c q a _ "snd (events_after a q)" x]
    by (simp add: stream_poll_def prod_eq_iff)
next
  fix q :: ledger and a b and ms
  assume q: "events_ok c q" and ms: "fst (stream_poll a q) = Some (ms, b)"
  then obtain evs lg' where ev: "events_after a q = (Inr (evs, b), lg')" and m: "ms = map ev_message evs"
    by (cases "events_after a q") (auto simp: stream_poll_def split: sum.splits)
  from events_after_batch [OF q ev] obtain pre post where p: "lg_events lg' = pre @ post" "evs = map fst pre"
    "a \<le> b" "b \<le> lg_sequence q" "\<forall>p \<in> set pre. ev_sequence (fst p) \<le> b" "\<forall>p \<in> set post. b < ev_sequence (fst p)"
    "\<forall>p \<in> set (lg_events lg'). a < ev_sequence (fst p)" "pre = [] \<longrightarrow> lg_events lg' = []" .
  have "filter (\<lambda>p. a < ev_sequence (fst p)) (pre @ post) = pre @ post"
    using p(1,7) by (simp add: filter_id_conv)
  moreover have "filter (\<lambda>p. b < ev_sequence (fst p)) (pre @ post) = post"
    using p(5,6) by (auto simp: filter_empty_conv filter_id_conv)
  ultimately have "stream_rest a lg' = ms @ stream_rest b lg'"
    using p(1,2) m by (simp add: stream_rest_def)
  then have "stream_rest a q = ms @ stream_rest b q"
    using stream_rest_after [OF q ev] p(3) by simp
  moreover have "stream_rest a q = [] \<or> ms \<noteq> []"
  proof (cases "pre = []")
    case True
    with p(8) have "stream_rest a lg' = []" by (simp add: stream_rest_def)
    then show ?thesis using stream_rest_after [OF q ev, of a] by simp
  qed (simp add: p(2) m)
  ultimately show "stream_rest a q = ms @ stream_rest b q \<and> a \<le> b \<and> b \<le> lg_sequence q
      \<and> (stream_rest a q \<noteq> [] \<longrightarrow> ms \<noteq> [])"
    using p(3,4) by blast
qed

end
