(* ===== verification/Execution_Host.thy ===== *)
theory Execution_Host
  imports Execution_Ledger
begin

text \<open>
  The execution keeper: \<^verbatim>\<open>src/components/machine/src/execution_host.rs\<close>. Its lock makes every request
  one step on the ledger; a request that waits is answered by a later step. The bounded queue of the
  native writer, the frames written to the executor and the backend's pending event are fields of the
  state. What the keeper reads from outside (the clock, the metadata of the workspace directory, the
  executor's frames) is an argument of the step that reads it.
\<close>

section \<open>State\<close>

record keeper_config =
  kc_scope :: execution_scope
  kc_call_context :: "string option"
  kc_read_only :: bool
  kc_capability_digest :: string
  kc_initialization :: json
  kc_cwd :: string
  kc_inode :: "nat \<times> nat"

definition WRITER_QUEUE :: nat where "WRITER_QUEUE = 64"
definition UNATTENDED_PROCESS_REAP :: nat where "UNATTENDED_PROCESS_REAP = 30 * 60 * 1000000000"

record keeper =
  kp_ledger :: ledger
  kp_queue :: "json list"
  kp_input :: "json list"
  kp_attended :: nat
  kp_event :: "json option"
  kp_running :: bool
  kp_stopped :: bool
  kp_reaps :: nat

definition keeper_config_of :: "execution_codec \<Rightarrow> launch_contract \<Rightarrow> json \<Rightarrow> string \<Rightarrow> nat \<times> nat \<Rightarrow> keeper_config" where
  "keeper_config_of c contract initialization cwd inode =
     \<lparr>kc_scope = scope_of_binding (lc_binding contract), kc_call_context = lc_call_context contract,
      kc_read_only = (lc_managed contract \<noteq> None),
      kc_capability_digest = xc_sha256 c (lc_capability contract),
      kc_initialization = initialization, kc_cwd = cwd, kc_inode = inode\<rparr>"

definition new_keeper :: "nat \<Rightarrow> keeper" where
  "new_keeper now = \<lparr>kp_ledger = new_ledger, kp_queue = [], kp_input = [], kp_attended = now,
     kp_event = None, kp_running = True, kp_stopped = False, kp_reaps = 0\<rparr>"

section \<open>Admission to the executor\<close>

definition native_frame :: "nat \<Rightarrow> string \<Rightarrow> json \<Rightarrow> json" where
  "native_frame n method params =
     JObj [(''id'', JInt (int n)), (''method'', JStr method), (''params'', params)]"

definition host_admit ::
  "keeper_config \<Rightarrow> execution_codec \<Rightarrow> nat \<Rightarrow> invocation \<Rightarrow> json \<Rightarrow> keeper \<Rightarrow> (refusal + admission) \<times> keeper" where
  "host_admit cfg c now i native k =
     (let lg = kp_ledger k in
      if observe_operation (iv_operation_id i) lg \<noteq> None \<or> lg_lost lg
      then (case admit c now i lg of (r, lg') \<Rightarrow> (r, k\<lparr>kp_ledger := lg'\<rparr>))
      else if WRITER_QUEUE \<le> length (kp_queue k) then (Inl RefCapacity, k)
      else (case admit c now i lg of (r, lg') \<Rightarrow>
        (case r of
           Inr (Admitted n cell) \<Rightarrow>
             (r, k\<lparr>kp_ledger := lg', kp_queue := kp_queue k @
               [native_frame n (iv_method i) (with_call_context (iv_method i) native (kc_call_context cfg))]\<rparr>)
         | _ \<Rightarrow> (r, k\<lparr>kp_ledger := lg'\<rparr>))))"

section \<open>Requests\<close>

datatype answer =
    Answer response
  | WaitOutcome nat
  | WaitEvents nat
  | WaitStopped

definition refuse :: "refusal \<Rightarrow> answer" where
  "refuse reason = Answer (RespRefused reason)"

definition wait_outcome :: "nat \<Rightarrow> nat \<Rightarrow> ledger \<Rightarrow> answer" where
  "wait_outcome cell wait lg =
     (if lg_cells lg ! cell = OutPending \<and> 0 < wait then WaitOutcome cell
      else Answer (RespOperation (lg_cells lg ! cell)))"

definition host_events :: "nat \<Rightarrow> nat \<Rightarrow> ledger \<Rightarrow> answer \<times> ledger" where
  "host_events after wait lg =
     (case events_after after lg of
        (Inl reason, lg) \<Rightarrow> (refuse reason, lg)
      | (Inr (events, through), lg) \<Rightarrow>
          if events = [] \<and> lg_lost lg then (refuse RefEnvironmentLost, lg)
          else if events = [] \<and> 0 < wait then (WaitEvents after, lg)
          else (Answer (RespEvents events through), lg))"

definition attends :: "command \<Rightarrow> bool" where
  "attends cmd = (case cmd of Invoke _ _ \<Rightarrow> True | Observe _ _ \<Rightarrow> True | EventsAfter _ _ \<Rightarrow> True | _ \<Rightarrow> False)"

definition native_decision :: "keeper_config \<Rightarrow> execution_codec \<Rightarrow> invocation \<Rightarrow> decision" where
  "native_decision cfg c i =
     (if kc_read_only cfg then decide (xc_file_url c) (iv_method i) (iv_params i) (kc_cwd cfg)
      else Forward (iv_params i))"

definition host_invoke ::
  "keeper_config \<Rightarrow> execution_codec \<Rightarrow> nat \<Rightarrow> (nat \<times> nat) option \<Rightarrow> invocation \<Rightarrow> nat \<Rightarrow> keeper \<Rightarrow> answer \<times> keeper" where
  "host_invoke cfg c now workspace i wait k =
     (if MAX_WAIT_MS < wait then (refuse RefInvalidRequest, k)
      else if workspace \<noteq> Some (kc_inode cfg) then (refuse RefWorkspaceChanged, k)
      else (case native_decision cfg c i of
          RefuseNative reply \<Rightarrow> (Answer (RespOperation (OutCompleted reply)), k)
        | Forward native \<Rightarrow>
            (case host_admit cfg c now i native k of
               (Inl reason, k) \<Rightarrow> (refuse reason, k)
             | (Inr (Existing cell), k) \<Rightarrow> (wait_outcome cell wait (kp_ledger k), k)
             | (Inr (Admitted n cell), k) \<Rightarrow> (wait_outcome cell wait (kp_ledger k), k))))"

definition host_request ::
  "keeper_config \<Rightarrow> execution_codec \<Rightarrow> nat \<Rightarrow> (nat \<times> nat) option \<Rightarrow> execution_request \<Rightarrow> keeper \<Rightarrow> answer \<times> keeper" where
  "host_request cfg c now workspace q k =
     (if xq_schema q \<noteq> WIRE_SCHEMA \<or> xq_scope q \<noteq> kc_scope cfg
         \<or> xc_sha256 c (xq_capability q) \<noteq> kc_capability_digest cfg
      then (refuse RefUnauthorized, k)
      else
        let k = (if attends (xq_command q) then k\<lparr>kp_attended := now\<rparr> else k); lg = kp_ledger k in
        case xq_command q of
          Shutdown \<Rightarrow>
            (if kp_stopped k then Answer RespClosed else WaitStopped, k\<lparr>kp_ledger := lose lg\<rparr>)
        | Describe \<Rightarrow>
            (if lg_lost lg then refuse RefEnvironmentLost
             else if workspace \<noteq> Some (kc_inode cfg) then refuse RefWorkspaceChanged
             else Answer (RespReady (kc_scope cfg) (kc_initialization cfg) (event_cursor lg)), k)
        | Invoke i wait \<Rightarrow> host_invoke cfg c now workspace i wait k
        | Observe op wait \<Rightarrow>
            (if MAX_WAIT_MS < wait \<or> \<not> valid_operation_id op then refuse RefInvalidRequest
             else (case observe_operation op lg of
                     None \<Rightarrow> Answer (RespOperation OutMissing)
                   | Some cell \<Rightarrow> wait_outcome cell wait lg), k)
        | EventsAfter after wait \<Rightarrow>
            (if MAX_WAIT_MS < wait then (refuse RefInvalidRequest, k)
             else (case host_events after wait lg of (a, lg) \<Rightarrow> (a, k\<lparr>kp_ledger := lg\<rparr>))))"

text \<open>The end of a wait: the channel changed or the wait ran out, the keeper reads again.\<close>

definition resume_wait :: "answer \<Rightarrow> keeper \<Rightarrow> response \<times> keeper" where
  "resume_wait a k =
     (case a of
        Answer r \<Rightarrow> (r, k)
      | WaitOutcome cell \<Rightarrow> (RespOperation (lg_cells (kp_ledger k) ! cell), k)
      | WaitEvents after \<Rightarrow>
          (case events_after after (kp_ledger k) of
             (Inl reason, lg) \<Rightarrow> (RespRefused reason, k\<lparr>kp_ledger := lg\<rparr>)
           | (Inr (events, through), lg) \<Rightarrow> (RespEvents events through, k\<lparr>kp_ledger := lg\<rparr>))
      | WaitStopped \<Rightarrow> (if kp_stopped k then RespClosed else RespRefused RefEnvironmentLost, k))"

section \<open>Unattended processes\<close>

definition reap_invocation :: "nat \<Rightarrow> string \<Rightarrow> invocation" where
  "reap_invocation n process =
     \<lparr>iv_operation_id = ''cowboy-unattended-reap-'' @ show_nat n, iv_method = ''process/terminate'',
      iv_params = JObj [(''processId'', JStr process)]\<rparr>"

primrec reap_each ::
  "keeper_config \<Rightarrow> execution_codec \<Rightarrow> nat \<Rightarrow> string list \<Rightarrow> nat \<Rightarrow> keeper \<Rightarrow> nat \<times> keeper" where
  "reap_each cfg c now [] reaped k = (reaped, k)"
| "reap_each cfg c now (p # ps) reaped k =
     (let n = kp_reaps k + 1; i = reap_invocation n p in
      case host_admit cfg c now i (iv_params i) (k\<lparr>kp_reaps := n\<rparr>) of
        (r, k) \<Rightarrow> reap_each cfg c now ps (if is_ok r then reaped + 1 else reaped) k)"

definition reap_unattended :: "keeper_config \<Rightarrow> execution_codec \<Rightarrow> nat \<Rightarrow> keeper \<Rightarrow> nat \<times> keeper" where
  "reap_unattended cfg c now k =
     (if now - kp_attended k < UNATTENDED_PROCESS_REAP \<or> lg_lost (kp_ledger k) then (0, k)
      else (case take_processes (kp_ledger k) of
              (processes, lg) \<Rightarrow> reap_each cfg c now processes 0 (k\<lparr>kp_ledger := lg\<rparr>)))"

section \<open>The backend\<close>

definition stop_backend :: "keeper \<Rightarrow> keeper" where
  "stop_backend k = k\<lparr>kp_ledger := lose (kp_ledger k), kp_running := False\<rparr>"

text \<open>The writer moves one queued frame to the executor.\<close>

definition write_native :: "keeper \<Rightarrow> keeper" where
  "write_native k =
     (case kp_queue k of
        [] \<Rightarrow> k
      | frame # rest \<Rightarrow> if kp_running k then k\<lparr>kp_queue := rest, kp_input := kp_input k @ [frame]\<rparr> else k)"

text \<open>The top of the loop: the pending event is offered to the ledger.\<close>

definition flush_event :: "execution_codec \<Rightarrow> keeper \<Rightarrow> keeper" where
  "flush_event c k =
     (if \<not> kp_running k then k
      else (case kp_event k of
          None \<Rightarrow> k
        | Some m \<Rightarrow>
            (case push_event c m (kp_ledger k) of
               (PushOk, lg) \<Rightarrow> k\<lparr>kp_ledger := lg, kp_event := None\<rparr>
             | (PushFull m, lg) \<Rightarrow> k\<lparr>kp_ledger := lg, kp_event := Some m\<rparr>
             | (PushInvalid, lg) \<Rightarrow> stop_backend (k\<lparr>kp_ledger := lg, kp_event := None\<rparr>))))"

definition reply_id :: "json \<Rightarrow> nat option" where
  "reply_id m = (case jget ''id'' m of
       Some (JInt n) \<Rightarrow> if 0 \<le> n \<and> n < 2 ^ 64 then Some (nat n) else None
     | _ \<Rightarrow> None)"

definition oversized_reply :: json where
  "oversized_reply = JObj [(''error'', JObj [(''code'', JInt (- 32000)), (''message'',
     JStr ''Execution finished, but its reply exceeds the retained transport limit; do not repeat a write or command. Use a bounded read to inspect the result.'')])]"

definition retained_reply :: "execution_codec \<Rightarrow> json \<Rightarrow> json" where
  "retained_reply c m =
     (let m = jremove ''id'' m
      in if MAX_EXECUTION_FRAME_BYTES - 4096 < length (xc_encode c m) then oversized_reply else m)"

definition native_message :: "execution_codec \<Rightarrow> nat \<Rightarrow> json \<Rightarrow> keeper \<Rightarrow> keeper" where
  "native_message c now m k =
     (if \<not> kp_running k \<or> kp_event k \<noteq> None then k
      else (case reply_id m of
          Some n \<Rightarrow>
            if jget ''method'' m \<noteq> None \<or> (jget ''result'' m \<noteq> None) = (jget ''error'' m \<noteq> None)
            then stop_backend k
            else (case finish_operation c now n (retained_reply c m) (kp_ledger k) of
                    (ok, lg) \<Rightarrow> if ok then k\<lparr>kp_ledger := lg\<rparr> else stop_backend (k\<lparr>kp_ledger := lg\<rparr>))
        | None \<Rightarrow>
            if jget_str ''method'' m \<noteq> None then k\<lparr>kp_event := Some m\<rparr> else stop_backend k))"

section \<open>Runs\<close>

datatype keeper_event =
    KRequest "(nat \<times> nat) option" execution_request
  | KResume answer
  | KWrite
  | KFlush
  | KNative json
  | KReap
  | KStop
  | KFinished

definition keeper_step :: "keeper_config \<Rightarrow> execution_codec \<Rightarrow> nat \<times> keeper_event \<Rightarrow> keeper \<Rightarrow> keeper" where
  "keeper_step cfg c ev k =
     (case ev of (now, e) \<Rightarrow>
       (case e of
          KRequest workspace q \<Rightarrow> snd (host_request cfg c now workspace q k)
        | KResume a \<Rightarrow> snd (resume_wait a k)
        | KWrite \<Rightarrow> write_native k
        | KFlush \<Rightarrow> flush_event c k
        | KNative m \<Rightarrow> native_message c now m k
        | KReap \<Rightarrow> snd (reap_unattended cfg c now k)
        | KStop \<Rightarrow> stop_backend k
        | KFinished \<Rightarrow> if kp_running k then k else k\<lparr>kp_stopped := True\<rparr>))"

definition keeper_run :: "keeper_config \<Rightarrow> execution_codec \<Rightarrow> (nat \<times> keeper_event) list \<Rightarrow> keeper \<Rightarrow> keeper" where
  "keeper_run cfg c evs k = fold (keeper_step cfg c) evs k"

text \<open>Every frame the keeper ever handed to its executor, in order: those written and those queued.\<close>

definition native_frames :: "keeper \<Rightarrow> json list" where
  "native_frames k = kp_input k @ kp_queue k"

end
