(* ===== verification/Execution_Keeper.thy ===== *)
theory Execution_Keeper
  imports Execution_Events Execution_Host
begin

text \<open>
  What the keeper guarantees in every run: the ledger's invariant, which frames reach the executor, what
  a resent request is answered with and what is left after a loss.
\<close>

section \<open>Invariants of the ledger along a run\<close>

definition completes :: "nat \<Rightarrow> keeper_event \<Rightarrow> bool" where
  "completes n e \<longleftrightarrow> (case e of KNative m \<Rightarrow> reply_id m = Some n | _ \<Rightarrow> False)"

text \<open>
  The interface the keeper uses of its ledger, as far as a property \<open>P\<close> of it is concerned: \<open>timely\<close> says
  at which times an admission keeps \<open>P\<close>, \<open>completable\<close> at which times a completion does.
\<close>

locale ledger_invariant =
  fixes c :: execution_codec and P :: "ledger \<Rightarrow> bool"
    and timely :: "nat \<Rightarrow> bool" and completable :: "nat \<Rightarrow> nat \<Rightarrow> bool"
  assumes P_admit: "P lg \<Longrightarrow> timely now \<Longrightarrow> P (snd (admit c now i lg))"
    and P_finish: "P lg \<Longrightarrow> completable now n \<Longrightarrow> P (snd (finish_operation c now n reply lg))"
    and P_lose: "P lg \<Longrightarrow> P (lose lg)"
    and P_push: "P lg \<Longrightarrow> P (snd (push_event c m lg))"
    and P_events: "P lg \<Longrightarrow> P (snd (events_after a lg))"
    and P_take: "P lg \<Longrightarrow> P (snd (take_processes lg))"
begin

lemma host_admit: "P (kp_ledger k) \<Longrightarrow> timely now \<Longrightarrow> P (kp_ledger (snd (host_admit cfg c now i native k)))"
  using P_admit [of "kp_ledger k" now i]
  by (auto simp: host_admit_def Let_def split: prod.splits sum.splits admission.splits)

lemma host_invoke:
  "P (kp_ledger k) \<Longrightarrow> timely now \<Longrightarrow> P (kp_ledger (snd (host_invoke cfg c now ws i w k)))"
proof -
  assume k: "P (kp_ledger k)" "timely now"
  have "P (kp_ledger (snd (host_admit cfg c now i native k)))" for native
    by (rule host_admit [OF k])
  with k(1) show ?thesis
    by (auto simp: host_invoke_def split: decision.splits prod.splits sum.splits admission.splits)
      (metis snd_conv)+
qed

lemma host_events: "P lg \<Longrightarrow> P (snd (host_events a w lg))"
  using P_events [of lg a] by (auto simp: host_events_def split: prod.splits sum.splits)

lemma host_request:
  "P (kp_ledger k) \<Longrightarrow> timely now \<Longrightarrow> P (kp_ledger (snd (host_request cfg c now ws q k)))"
  using host_invoke [of "k\<lparr>kp_attended := now\<rparr>" now] host_events [of "kp_ledger k"] P_lose [of "kp_ledger k"]
  by (auto simp: host_request_def Let_def attends_def split: command.splits prod.splits)
    (metis snd_conv)+

lemma resume_wait: "P (kp_ledger k) \<Longrightarrow> P (kp_ledger (snd (resume_wait a k)))"
  using P_events [of "kp_ledger k"]
  by (auto simp: resume_wait_def split: answer.splits prod.splits sum.splits) (metis snd_conv)+

lemma reap_each:
  "P (kp_ledger k) \<Longrightarrow> timely now \<Longrightarrow> P (kp_ledger (snd (reap_each cfg c now ps reaped k)))"
proof (induction ps arbitrary: reaped k)
  case (Cons p ps)
  let ?n = "kp_reaps k + 1"
  obtain r k' where h: "host_admit cfg c now (reap_invocation ?n p) (iv_params (reap_invocation ?n p)) (k\<lparr>kp_reaps := ?n\<rparr>) = (r, k')"
    by fastforce
  have "P (kp_ledger k')"
    using host_admit [of "k\<lparr>kp_reaps := ?n\<rparr>" now cfg "reap_invocation ?n p" "iv_params (reap_invocation ?n p)"] Cons.prems h
    by simp
  with Cons.IH Cons.prems(2) show ?case by (simp add: Let_def h del: One_nat_def)
qed simp

lemma step:
  assumes "P (kp_ledger k)" and "timely now" and "\<And>n. completes n e \<Longrightarrow> completable now n"
  shows "P (kp_ledger (keeper_step cfg c (now, e) k))"
proof (cases e)
  case (KRequest ws q)
  with host_request [OF assms(1,2)] show ?thesis by (simp add: keeper_step_def)
next
  case (KResume a)
  with resume_wait [OF assms(1)] show ?thesis by (simp add: keeper_step_def)
next
  case KWrite
  with assms(1) show ?thesis by (simp add: keeper_step_def write_native_def split: list.splits)
next
  case KFlush
  have push: "P lg" if "push_event c m (kp_ledger k) = (r, lg)" for m r lg
    using P_push [OF assms(1), of m] that by simp
  with KFlush assms(1) P_lose show ?thesis
    by (auto simp: keeper_step_def flush_event_def stop_backend_def split: option.splits prod.splits push_result.splits)
next
  case (KNative m)
  have "P lg" if "finish_operation c now n reply (kp_ledger k) = (ok, lg)" "reply_id m = Some n" for n reply ok lg
    using P_finish [OF assms(1), of now n reply] assms(3) [of n] that KNative by (simp add: completes_def)
  with KNative assms(1) P_lose show ?thesis
    by (auto simp: keeper_step_def native_message_def stop_backend_def split: option.splits prod.splits)
next
  case KReap
  have "P (kp_ledger (k\<lparr>kp_ledger := snd (take_processes (kp_ledger k))\<rparr>))"
    using P_take [OF assms(1)] by simp
  from reap_each [OF this assms(2)] KReap assms(1) show ?thesis
    by (simp add: keeper_step_def reap_unattended_def prod.case_eq_if)
next
  case KStop
  with P_lose [OF assms(1)] show ?thesis by (simp add: keeper_step_def stop_backend_def)
next
  case KFinished
  with assms(1) show ?thesis by (simp add: keeper_step_def)
qed

lemma run:
  "P (kp_ledger k) \<Longrightarrow> (\<And>now e. (now, e) \<in> set evs \<Longrightarrow> timely now \<and> (\<forall>n. completes n e \<longrightarrow> completable now n)) \<Longrightarrow>
   P (kp_ledger (keeper_run cfg c evs k))"
proof (induction evs arbitrary: k)
  case (Cons ev evs)
  obtain now e where ev: "ev = (now, e)" by (cases ev)
  have "P (kp_ledger (keeper_step cfg c (now, e) k))"
    using Cons.prems(2) [of now e] ev by (intro step [OF Cons.prems(1)]) auto
  then have "P (kp_ledger (keeper_run cfg c evs (keeper_step cfg c (now, e) k)))"
  proof (rule Cons.IH)
    fix t x assume "(t, x) \<in> set evs"
    with Cons.prems(2) [of t x] show "timely t \<and> (\<forall>n. completes n x \<longrightarrow> completable t n)" by simp
  qed
  then show ?case by (simp add: keeper_run_def ev)
qed (simp add: keeper_run_def)

end

interpretation intact: ledger_invariant c "ledger_ok c" "\<lambda>_. True" "\<lambda>_ _. True" for c
  by unfold_locales
    (auto intro: admit_ok [OF _ prod.collapse [symmetric]] push_ok [OF _ prod.collapse [symmetric]]
      events_after_ledger_ok [OF _ prod.collapse [symmetric]] lose_ok take_processes_ok finish_ok [THEN conjunct1])

section \<open>A held effect\<close>

text \<open>
  The ledger holds the operation \<open>op\<close> until \<open>T\<close>: it has its entry, with the digest and the cell of its
  admission, and no completion of it is old enough at \<open>T\<close> to be forgotten.
\<close>

definition held :: "nat \<Rightarrow> string \<Rightarrow> nat \<Rightarrow> nat \<Rightarrow> string \<Rightarrow> ledger \<Rightarrow> bool" where
  "held T op n cell d lg \<longleftrightarrow>
     (\<exists>e. map_of (lg_operations lg) op = Some e \<and> le_cell e = cell \<and> le_digest e = d)
   \<and> (\<forall>t. (t, op) \<in> set (lg_tombstones lg) \<longrightarrow> T < t + TOMBSTONE_RETENTION)
   \<and> (\<forall>m. (m, op) \<in> set (lg_pending lg) \<longrightarrow> m = n)
   \<and> lg_retention lg = TOMBSTONE_RETENTION"

lemma retention_positive: "0 < TOMBSTONE_RETENTION"
  by (simp add: TOMBSTONE_RETENTION_def)

lemma held_forgets:
  assumes "forgets now lg lg'" and "held T op n cell d lg" and "now \<le> T"
  shows "held T op n cell d lg' \<and> map_of (lg_operations lg') op = map_of (lg_operations lg) op"
proof -
  have late: "\<not> TOMBSTONE_RETENTION \<le> now - t" if "(t, op) \<in> set (lg_tombstones lg)" for t
  proof -
    have "T < t + TOMBSTONE_RETENTION" using assms(2) that by (auto simp: held_def)
    with assms(3) retention_positive show ?thesis by linarith
  qed
  then have "map_of (lg_operations lg') op = map_of (lg_operations lg) op"
    using forgets_entry [OF assms(1), of op] assms(2) late unfolding held_def by metis
  with forgets_frame [OF assms(1)] assms(2) show ?thesis
    by (auto simp: held_def)
qed

lemma held_enroll:
  "held T op n cell d lg \<Longrightarrow> i \<noteq> op \<Longrightarrow> held T op n cell d (snd (enroll now dg b i lg))"
  by (auto simp: held_def enroll_def Let_def)

lemma held_track: "held T op n cell d (track_process i lg) = held T op n cell d lg"
  by (simp add: held_def)

lemma held_admit:
  assumes ok: "ledger_ok c lg" and held: "held T op n cell d lg" and "now \<le> T"
    and adm: "admit c now i lg = (r, lg')"
  shows "held T op n cell d lg'"
proof -
  have tables: "tables_ok c lg" using ok by (simp add: ledger_ok_def)
  have h: "held T op n cell d (evict_tombstones now lg)"
    using held_forgets [OF evict_forgets [OF tables] held assms(3)] by blast
  from adm show ?thesis
  proof (cases rule: admit_cases)
    case admitted
    have "iv_operation_id i \<noteq> op" using admitted(2) held by (auto simp: held_def)
    with h show ?thesis unfolding admitted(8) by (intro held_enroll) (simp_all add: held_track)
  qed (use held h in simp_all)
qed

lemma held_expired:
  assumes only: "only_expired lg lg'" and held: "held T op n cell d lg"
  shows "held T op n cell d lg'"
proof -
  obtain e where e: "map_of (lg_operations lg) op = Some e" "le_cell e = cell" "le_digest e = d"
    using held by (auto simp: held_def)
  have "map_option (\<lambda>e. (le_digest e, le_cell e)) (map_of (lg_operations lg') op) = Some (d, cell)"
    using only e by (simp add: only_expired_def)
  then obtain e' where "map_of (lg_operations lg') op = Some e'" "le_cell e' = cell" "le_digest e' = d"
    by (auto simp: map_option_eq_Some)
  with only held show ?thesis by (simp add: only_expired_def held_def)
qed

lemma held_finish:
  assumes ok: "ledger_ok c lg" and held: "held T op n cell d lg" and window: "m = n \<Longrightarrow> T < now + TOMBSTONE_RETENTION"
  shows "held T op n cell d (snd (finish_operation c now m reply lg))"
proof (cases "map_of (lg_pending lg) m")
  case None
  with held show ?thesis by (simp add: finish_operation_def)
next
  case (Some i)
  have tables: "tables_ok c lg" using ok by (simp add: ledger_ok_def)
  obtain e where e: "map_of (lg_operations lg) i = Some e"
    using pending_entry [OF tables_parts(2) [OF tables] Some] by blast
  let ?reply = "executed_reply now (le_timed e) reply"
  let ?lg = "record_reply now m i e ?reply (length (xc_encode c ?reply)) lg"
  have "T < now + TOMBSTONE_RETENTION" if "i = op"
    using window held map_of_SomeD [OF Some] that by (auto simp: held_def)
  with held e have "held T op n cell d ?lg"
    by (auto simp: held_def update_conv set_adelete)
  then have "held T op n cell d lg'" if "only_expired ?lg lg'" for lg'
    using held_expired [OF that] by blast
  with expire_results_ok [OF record_reply_tables [OF tables Some e]] show ?thesis
    by (simp add: finish_unfold [OF Some e])
qed

lemma held_frame:
  "lg_operations lg' = lg_operations lg \<Longrightarrow> lg_tombstones lg' = lg_tombstones lg \<Longrightarrow>
   set (lg_pending lg') \<subseteq> set (lg_pending lg) \<Longrightarrow> lg_retention lg' = lg_retention lg \<Longrightarrow>
   held T op n cell d lg \<Longrightarrow> held T op n cell d lg'"
  by (auto simp: held_def)

interpretation holding: ledger_invariant c "\<lambda>lg. ledger_ok c lg \<and> held T op n cell d lg"
  "\<lambda>now. now \<le> T" "\<lambda>now m. m = n \<longrightarrow> T < now + TOMBSTONE_RETENTION" for c T op n cell d
proof
  fix lg now i a m reply
  assume ok: "ledger_ok c lg \<and> held T op n cell d lg"
  then have ok': "ledger_ok c lg" and held: "held T op n cell d lg" by blast+
  show "now \<le> T \<Longrightarrow> ledger_ok c (snd (admit c now i lg)) \<and> held T op n cell d (snd (admit c now i lg))"
    using intact.P_admit [OF ok'] held_admit [OF ok' held _ prod.collapse [symmetric]] by blast
  show "m = n \<longrightarrow> T < now + TOMBSTONE_RETENTION \<Longrightarrow>
      ledger_ok c (snd (finish_operation c now m reply lg)) \<and> held T op n cell d (snd (finish_operation c now m reply lg))"
    using intact.P_finish [OF ok'] held_finish [OF ok' held] by blast
  show "ledger_ok c (lose lg) \<and> held T op n cell d (lose lg)"
    using intact.P_lose [OF ok'] held_frame [OF _ _ _ _ held, of "lose lg"] by simp
  show "ledger_ok c (snd (push_event c a lg)) \<and> held T op n cell d (snd (push_event c a lg))"
    using intact.P_push [OF ok'] push_fields [OF prod.collapse [symmetric], of c a lg]
      held_frame [OF _ _ _ _ held, of "snd (push_event c a lg)"] by simp
next
  fix lg a
  assume ok: "ledger_ok c lg \<and> held T op n cell d lg"
  then have ok': "ledger_ok c lg" and held: "held T op n cell d lg" by blast+
  show "ledger_ok c (snd (events_after a lg)) \<and> held T op n cell d (snd (events_after a lg))"
    using intact.P_events [OF ok'] events_after_fields [OF prod.collapse [symmetric], of a lg]
      held_frame [OF _ _ _ _ held, of "snd (events_after a lg)"] by simp
  show "ledger_ok c (snd (take_processes lg)) \<and> held T op n cell d (snd (take_processes lg))"
    using intact.P_take [OF ok'] held_frame [OF _ _ _ _ held, of "snd (take_processes lg)"]
    by (simp add: take_processes_def)
qed

end
