(* ===== verification/Execution_Safety.thy ===== *)
theory Execution_Safety
  imports Execution_Keeper
begin

text \<open>
  The properties of the execution keeper: an admitted effect reaches the executor once, what reaches it in
  a read-only environment, the bounds every run keeps, events without loss, what a loss leaves behind,
  and the refusal of requests made to an earlier lifetime of the environment.
\<close>

section \<open>Frames\<close>

definition sendable :: "keeper_config \<Rightarrow> execution_codec \<Rightarrow> nat \<times> string \<times> json \<Rightarrow> bool" where
  "sendable cfg c x \<longleftrightarrow> (case x of (n, method, params) \<Rightarrow>
     kc_read_only cfg \<longrightarrow> read_only_native (xc_file_url c) (kc_cwd cfg) method params)"

definition frame_of :: "nat \<times> string \<times> json \<Rightarrow> json" where
  "frame_of x = (case x of (n, method, params) \<Rightarrow> native_frame n method params)"

text \<open>A step appends frames with fresh, increasing identities.\<close>

definition extends :: "keeper_config \<Rightarrow> execution_codec \<Rightarrow> keeper \<Rightarrow> keeper \<Rightarrow> bool" where
  "extends cfg c k k' \<longleftrightarrow> (\<exists>new.
     native_frames k' = native_frames k @ map frame_of new
   \<and> sorted_wrt (<) (map fst new)
   \<and> list_all (\<lambda>x. lg_next_id (kp_ledger k) \<le> fst x \<and> fst x < lg_next_id (kp_ledger k')) new
   \<and> lg_next_id (kp_ledger k) \<le> lg_next_id (kp_ledger k')
   \<and> list_all (sendable cfg c) new)"

lemma extends_same:
  "native_frames k' = native_frames k \<Longrightarrow> lg_next_id (kp_ledger k') = lg_next_id (kp_ledger k) \<Longrightarrow> extends cfg c k k'"
  by (auto simp: extends_def intro: exI [of _ "[]"])

lemma extends_trans:
  assumes "extends cfg c k k1" and "extends cfg c k1 k2"
  shows "extends cfg c k k2"
proof -
  obtain xs where x: "native_frames k1 = native_frames k @ map frame_of xs" "sorted_wrt (<) (map fst xs)"
    "list_all (\<lambda>x. lg_next_id (kp_ledger k) \<le> fst x \<and> fst x < lg_next_id (kp_ledger k1)) xs"
    "lg_next_id (kp_ledger k) \<le> lg_next_id (kp_ledger k1)" "list_all (sendable cfg c) xs"
    using assms(1) by (auto simp: extends_def)
  obtain ys where y: "native_frames k2 = native_frames k1 @ map frame_of ys" "sorted_wrt (<) (map fst ys)"
    "list_all (\<lambda>x. lg_next_id (kp_ledger k1) \<le> fst x \<and> fst x < lg_next_id (kp_ledger k2)) ys"
    "lg_next_id (kp_ledger k1) \<le> lg_next_id (kp_ledger k2)" "list_all (sendable cfg c) ys"
    using assms(2) by (auto simp: extends_def)
  have "sorted_wrt (<) (map fst (xs @ ys))"
    using x(2,3) y(2,3) by (fastforce simp: sorted_wrt_append list_all_iff)
  moreover have "list_all (\<lambda>x. lg_next_id (kp_ledger k) \<le> fst x \<and> fst x < lg_next_id (kp_ledger k2)) (xs @ ys)"
    using x(3,4) y(3,4) by (fastforce simp: list_all_iff)
  ultimately show ?thesis
    using x y unfolding extends_def by (intro exI [of _ "xs @ ys"]) simp
qed

lemma admit_next_id:
  assumes "ledger_ok c lg" and "admit c now i lg = (r, lg')"
  shows "(case r of Inr (Admitted n cell) \<Rightarrow> n = lg_next_id lg \<and> lg_next_id lg' = Suc n | _ \<Rightarrow> lg_next_id lg' = lg_next_id lg)"
proof -
  have tables: "tables_ok c lg" using assms(1) by (simp add: ledger_ok_def)
  note frame = forgets_frame [OF evict_forgets [OF tables, of now]]
  from assms(2) show ?thesis
    by (cases rule: admit_cases) (simp_all add: frame)
qed

lemma finish_next_id:
  assumes "ledger_ok c lg"
  shows "lg_next_id (snd (finish_operation c now m reply lg)) = lg_next_id lg"
proof (cases "map_of (lg_pending lg) m")
  case None
  then show ?thesis by (simp add: finish_operation_def)
next
  case (Some op)
  have tables: "tables_ok c lg" using assms by (simp add: ledger_ok_def)
  obtain e where e: "map_of (lg_operations lg) op = Some e"
    using pending_entry [OF tables_parts(2) [OF tables] Some] by blast
  from expire_results_ok [OF record_reply_tables [OF tables Some e]] show ?thesis
    by (auto simp: finish_unfold [OF Some e] only_expired_def)
qed

text \<open>An admission puts exactly one frame in the queue, and only an admission does.\<close>

lemma host_admit_frames:
  assumes "host_admit cfg c now i native k = (r, k')"
  shows "native_frames k' = native_frames k @ (case r of
      Inr (Admitted n cell) \<Rightarrow>
        [native_frame n (iv_method i) (with_call_context (iv_method i) native (kc_call_context cfg))]
    | _ \<Rightarrow> [])"
proof (cases "observe_operation (iv_operation_id i) (kp_ledger k) \<noteq> None \<or> lg_lost (kp_ledger k)")
  case True
  obtain r' lg' where adm: "admit c now i (kp_ledger k) = (r', lg')" by fastforce
  with assms True have k': "r = r'" "k' = k\<lparr>kp_ledger := lg'\<rparr>" by (auto simp: host_admit_def Let_def)
  from adm True show ?thesis
    by (cases rule: admit_cases) (auto simp: k' native_frames_def observe_operation_def)
next
  case False
  then show ?thesis
    using assms by (auto simp: host_admit_def Let_def native_frames_def split: if_splits prod.splits sum.splits admission.splits)
qed

lemma host_admit_ledger:
  assumes "host_admit cfg c now i native k = (r, k')"
  shows "kp_ledger k' = snd (admit c now i (kp_ledger k)) \<and> r = fst (admit c now i (kp_ledger k))
    \<or> kp_ledger k' = kp_ledger k \<and> r = Inl RefCapacity"
  using assms by (auto simp: host_admit_def Let_def split: if_splits prod.splits sum.splits admission.splits)

lemma host_admit_extends:
  assumes ok: "ledger_ok c (kp_ledger k)" and adm: "host_admit cfg c now i native k = (r, k')"
    and native: "kc_read_only cfg \<Longrightarrow> read_only_native (xc_file_url c) (kc_cwd cfg) (iv_method i) native"
  shows "extends cfg c k k'"
proof (cases "kp_ledger k' = kp_ledger k \<and> r = Inl RefCapacity")
  case True
  then show ?thesis using host_admit_frames [OF adm] by (intro extends_same) simp_all
next
  case False
  then have led: "admit c now i (kp_ledger k) = (r, kp_ledger k')"
    using host_admit_ledger [OF adm] by (auto simp: prod_eq_iff)
  note next_id = admit_next_id [OF ok led]
  show ?thesis
  proof (cases "\<exists>n cell. r = Inr (Admitted n cell)")
    case True
    then obtain n cell where r: "r = Inr (Admitted n cell)" by blast
    let ?new = "(n, iv_method i, with_call_context (iv_method i) native (kc_call_context cfg))"
    have "sendable cfg c ?new"
      using native by (simp add: sendable_def with_call_context_read_only)
    with next_id r host_admit_frames [OF adm] show ?thesis
      unfolding extends_def by (intro exI [of _ "[?new]"]) (simp add: frame_of_def)
  next
    case False
    with next_id host_admit_frames [OF adm] show ?thesis
      by (intro extends_same) (auto split: sum.splits admission.splits)
  qed
qed

lemma decision_forwards:
  "native_decision cfg c i = Forward native \<Longrightarrow> kc_read_only cfg \<Longrightarrow>
   read_only_native (xc_file_url c) (kc_cwd cfg) (iv_method i) native"
  by (auto simp: native_decision_def dest: decide_forwards_read_only)

lemma host_invoke_cases:
  obtains "snd (host_invoke cfg c now ws i w k) = k"
  | native r k' where "native_decision cfg c i = Forward native" "host_admit cfg c now i native k = (r, k')"
      "snd (host_invoke cfg c now ws i w k) = k'"
proof (cases "MAX_WAIT_MS < w \<or> ws \<noteq> Some (kc_inode cfg)")
  case True
  then have "snd (host_invoke cfg c now ws i w k) = k" by (auto simp: host_invoke_def)
  then show ?thesis by (rule that(1))
next
  case False
  show ?thesis
  proof (cases "native_decision cfg c i")
    case (RefuseNative reply)
    with False have "snd (host_invoke cfg c now ws i w k) = k" by (simp add: host_invoke_def)
    then show ?thesis by (rule that(1))
  next
    case (Forward native)
    obtain r k' where h: "host_admit cfg c now i native k = (r, k')" by fastforce
    have "snd (host_invoke cfg c now ws i w k) = k'"
      using False Forward h by (auto simp: host_invoke_def split: sum.splits admission.splits)
    with Forward h show ?thesis by (rule that(2))
  qed
qed

lemma host_invoke_extends:
  assumes "ledger_ok c (kp_ledger k)"
  shows "extends cfg c k (snd (host_invoke cfg c now ws i w k))"
proof (rule host_invoke_cases [of cfg c now ws i w k])
  fix native r k'
  assume h: "native_decision cfg c i = Forward native" "host_admit cfg c now i native k = (r, k')"
    "snd (host_invoke cfg c now ws i w k) = k'"
  with host_admit_extends [OF assms h(2) decision_forwards [OF h(1)]] show ?thesis by simp
qed (simp add: extends_same)

lemma host_events_frame: "lg_next_id (snd (host_events a w lg)) = lg_next_id lg"
  using events_after_fields(9) [of a lg]
  by (auto simp: host_events_def split: prod.splits sum.splits)

lemma host_request_extends:
  assumes "ledger_ok c (kp_ledger k)"
  shows "extends cfg c k (snd (host_request cfg c now ws q k))"
proof -
  let ?k = "if attends (xq_command q) then k\<lparr>kp_attended := now\<rparr> else k"
  have pre: "extends cfg c k ?k" by (intro extends_same) (simp_all add: native_frames_def)
  show ?thesis
  proof (cases "xq_command q")
    case (Invoke i w)
    have "ledger_ok c (kp_ledger ?k)" using assms by simp
    from extends_trans [OF pre host_invoke_extends [OF this, of cfg now ws i w]] Invoke show ?thesis
      by (simp add: host_request_def Let_def extends_same)
  next
    case (EventsAfter a w)
    with host_events_frame [of a w "kp_ledger k"] show ?thesis
      by (auto simp: host_request_def Let_def native_frames_def attends_def split: prod.splits intro!: extends_same)
  qed (auto simp: host_request_def Let_def native_frames_def attends_def intro!: extends_same)
qed

lemma resume_extends: "extends cfg c k (snd (resume_wait a k))"
  using events_after_fields(9) [of _ "kp_ledger k"]
  by (auto simp: resume_wait_def native_frames_def split: answer.splits prod.splits sum.splits intro!: extends_same)

lemma reap_each_extends:
  "ledger_ok c (kp_ledger k) \<Longrightarrow> extends cfg c k (snd (reap_each cfg c now ps reaped k))"
proof (induction ps arbitrary: reaped k)
  case (Cons p ps)
  let ?n = "kp_reaps k + 1"
  let ?i = "reap_invocation ?n p"
  let ?k = "k\<lparr>kp_reaps := ?n\<rparr>"
  obtain r k' where h: "host_admit cfg c now ?i (iv_params ?i) ?k = (r, k')" by fastforce
  have ok: "ledger_ok c (kp_ledger ?k)" using Cons.prems by simp
  have second: "extends cfg c ?k k'"
    by (rule host_admit_extends [OF ok h]) (simp add: reap_invocation_def read_only_native_def OBSERVING_def)
  have first: "extends cfg c k ?k" by (intro extends_same) (simp_all add: native_frames_def)
  have "ledger_ok c (kp_ledger k')"
    using intact.host_admit [OF ok, where now = now and cfg = cfg and i = ?i and native = "iv_params ?i"] h by simp
  from extends_trans [OF extends_trans [OF first second] Cons.IH [OF this]] show ?case
    by (simp add: Let_def h del: One_nat_def)
qed (simp add: extends_same)

lemma step_extends:
  assumes ok: "ledger_ok c (kp_ledger k)"
  shows "extends cfg c k (keeper_step cfg c (now, e) k)"
proof (cases e)
  case (KRequest ws q)
  with host_request_extends [OF ok] show ?thesis by (simp add: keeper_step_def)
next
  case (KResume a)
  with resume_extends show ?thesis by (simp add: keeper_step_def)
next
  case KWrite
  then show ?thesis
    by (intro extends_same) (auto simp: keeper_step_def write_native_def native_frames_def split: list.splits)
next
  case KFlush
  with push_fields(9) [of c _ "kp_ledger k"] show ?thesis
    by (intro extends_same)
      (auto simp: keeper_step_def flush_event_def stop_backend_def native_frames_def
        split: option.splits prod.splits push_result.splits)
next
  case (KNative m)
  have "lg_next_id lg = lg_next_id (kp_ledger k)"
    if "finish_operation c now n reply (kp_ledger k) = (b, lg)" for n reply b lg
    using finish_next_id [OF ok, of now n reply] that by simp
  with KNative show ?thesis
    by (intro extends_same)
      (auto simp: keeper_step_def native_message_def stop_backend_def native_frames_def
        split: option.splits prod.splits)
next
  case KReap
  let ?k = "k\<lparr>kp_ledger := snd (take_processes (kp_ledger k))\<rparr>"
  have "extends cfg c k ?k" by (intro extends_same) (simp_all add: native_frames_def take_processes_def)
  moreover have "ledger_ok c (kp_ledger ?k)" using take_processes_ok [OF ok] by simp
  ultimately have "extends cfg c k (snd (reap_each cfg c now ps 0 ?k))" for ps
    using reap_each_extends extends_trans by blast
  with KReap show ?thesis
    by (simp add: keeper_step_def reap_unattended_def prod.case_eq_if extends_same)
next
  case KStop
  then show ?thesis by (intro extends_same) (simp_all add: keeper_step_def stop_backend_def native_frames_def)
next
  case KFinished
  then show ?thesis by (intro extends_same) (simp_all add: keeper_step_def native_frames_def)
qed

lemma run_extends:
  "ledger_ok c (kp_ledger k) \<Longrightarrow> extends cfg c k (keeper_run cfg c evs k)"
proof (induction evs arbitrary: k)
  case (Cons ev evs)
  obtain now e where ev: "ev = (now, e)" by (cases ev)
  have "ledger_ok c (kp_ledger (keeper_step cfg c (now, e) k))"
    by (rule intact.step [OF Cons.prems]) simp_all
  from extends_trans [OF step_extends [OF Cons.prems] Cons.IH [OF this]] show ?case
    by (simp add: keeper_run_def ev)
qed (simp add: keeper_run_def extends_same)

lemma new_keeper_ledger [simp]: "kp_ledger (new_keeper t) = new_ledger"
  by (simp add: new_keeper_def)

lemma run_ok: "ledger_ok c (kp_ledger (keeper_run cfg c evs (new_keeper t)))"
  by (rule intact.run) (simp_all add: new_ledger_ok)

lemma frames_of_run:
  obtains ms where "native_frames (keeper_run cfg c evs (new_keeper t)) = map frame_of ms"
    "sorted_wrt (<) (map fst ms)" "list_all (sendable cfg c) ms"
    "list_all (\<lambda>x. fst x < lg_next_id (kp_ledger (keeper_run cfg c evs (new_keeper t)))) ms"
proof -
  have "ledger_ok c (kp_ledger (new_keeper t))" by (simp add: new_ledger_ok)
  from run_extends [OF this, of cfg evs] obtain ms where m:
    "native_frames (keeper_run cfg c evs (new_keeper t)) = native_frames (new_keeper t) @ map frame_of ms"
    "sorted_wrt (<) (map fst ms)" "list_all (sendable cfg c) ms"
    "list_all (\<lambda>x. lg_next_id (kp_ledger (new_keeper t)) \<le> fst x
        \<and> fst x < lg_next_id (kp_ledger (keeper_run cfg c evs (new_keeper t)))) ms"
    unfolding extends_def by blast
  show ?thesis
    by (rule that [of ms]) (use m in \<open>auto simp: native_frames_def new_keeper_def list_all_iff\<close>)
qed

section \<open>One effect per operation\<close>

interpretation steady: ledger_invariant c "\<lambda>lg. ledger_ok c lg \<and> lg_retention lg = TOMBSTONE_RETENTION"
  "\<lambda>_. True" "\<lambda>_ _. True" for c
proof
  fix lg now i a m reply
  assume ok: "ledger_ok c lg \<and> lg_retention lg = TOMBSTONE_RETENTION"
  then have ok': "ledger_ok c lg" and ret: "lg_retention lg = TOMBSTONE_RETENTION" by blast+
  have tables: "tables_ok c lg" using ok' by (simp add: ledger_ok_def)
  have "lg_retention (snd (admit c now i lg)) = lg_retention lg"
  proof (cases "admit c now i lg")
    case (Pair r lg')
    then have "lg_retention lg' = lg_retention lg"
      by (cases rule: admit_cases) (simp_all add: forgets_frame [OF evict_forgets [OF tables, of now]])
    with Pair show ?thesis by simp
  qed
  with ret intact.P_admit [OF ok', where now = now and i = i]
  show "ledger_ok c (snd (admit c now i lg)) \<and> lg_retention (snd (admit c now i lg)) = TOMBSTONE_RETENTION" by simp
  have "lg_retention (snd (finish_operation c now m reply lg)) = lg_retention lg"
  proof (cases "map_of (lg_pending lg) m")
    case (Some op)
    obtain e where e: "map_of (lg_operations lg) op = Some e"
      using pending_entry [OF tables_parts(2) [OF tables] Some] by blast
    from expire_results_ok [OF record_reply_tables [OF tables Some e]] show ?thesis
      by (auto simp: finish_unfold [OF Some e] only_expired_def)
  qed (simp add: finish_operation_def)
  with ret intact.P_finish [OF ok', where now = now and n = m and reply = reply]
  show "ledger_ok c (snd (finish_operation c now m reply lg))
      \<and> lg_retention (snd (finish_operation c now m reply lg)) = TOMBSTONE_RETENTION" by simp
  show "ledger_ok c (lose lg) \<and> lg_retention (lose lg) = TOMBSTONE_RETENTION"
    using intact.P_lose [OF ok'] ret by simp
  show "ledger_ok c (snd (push_event c a lg)) \<and> lg_retention (snd (push_event c a lg)) = TOMBSTONE_RETENTION"
    using intact.P_push [OF ok', of a] push_fields(11) [OF prod.collapse [symmetric], of c a lg] ret by simp
next
  fix lg a
  assume ok: "ledger_ok c lg \<and> lg_retention lg = TOMBSTONE_RETENTION"
  then have ok': "ledger_ok c lg" and ret: "lg_retention lg = TOMBSTONE_RETENTION" by blast+
  show "ledger_ok c (snd (events_after a lg)) \<and> lg_retention (snd (events_after a lg)) = TOMBSTONE_RETENTION"
    using intact.P_events [OF ok', of a] events_after_fields(12) [OF prod.collapse [symmetric], of a lg] ret by simp
  show "ledger_ok c (snd (take_processes lg)) \<and> lg_retention (snd (take_processes lg)) = TOMBSTONE_RETENTION"
    using intact.P_take [OF ok'] ret by (simp add: take_processes_def)
qed

lemma run_steady: "lg_retention (kp_ledger (keeper_run cfg c evs (new_keeper t))) = TOMBSTONE_RETENTION"
  using steady.run [of c "new_keeper t" evs cfg]
  by (simp add: new_ledger_ok) (simp add: new_ledger_def)

definition request_digest_of :: "execution_codec \<Rightarrow> invocation \<Rightarrow> string" where
  "request_digest_of c i = xc_sha256 c (xc_encode c (invocation_json i))"

lemma admitted_held:
  assumes ok: "ledger_ok c (kp_ledger k)" and ret: "lg_retention (kp_ledger k) = TOMBSTONE_RETENTION"
    and adm: "host_admit cfg c now i native k = (Inr (Admitted n cell), k1)"
  shows "ledger_ok c (kp_ledger k1) \<and> held T (iv_operation_id i) n cell (request_digest_of c i) (kp_ledger k1)"
proof -
  have led: "admit c now i (kp_ledger k) = (Inr (Admitted n cell), kp_ledger k1)"
    using host_admit_ledger [OF adm] by (auto simp: prod_eq_iff)
  have ok1: "ledger_ok c (kp_ledger k1)" by (rule admit_ok [OF ok led])
  let ?lg = "evict_tombstones now (kp_ledger k)"
  have tables: "tables_ok c (kp_ledger k)" using ok by (simp add: ledger_ok_def)
  note evict = evict_forgets [OF tables, of now]
  have roles: "roles_ok ?lg" using forgets_tables [OF evict tables] tables_parts(2) by blast
  from led show ?thesis
  proof (cases rule: admit_cases)
    case admitted
    have none: "map_of (lg_operations ?lg) (iv_operation_id i) = None"
      using forgets_entry [OF evict, of "iv_operation_id i"] admitted(2) by auto
    with roles have fresh: "(t, iv_operation_id i) \<notin> set (lg_tombstones ?lg)"
      "(m, iv_operation_id i) \<notin> set (lg_pending ?lg)" for t m
      by (force simp: roles_ok_def)+
    have "n = lg_next_id ?lg" "cell = length (lg_cells ?lg)"
      using admitted(7) by simp_all
    with fresh ret forgets_frame [OF evict] have "held T (iv_operation_id i) n cell (request_digest_of c i) (kp_ledger k1)"
      unfolding admitted(8) by (auto simp: held_def enroll_def Let_def request_digest_of_def)
    with ok1 show ?thesis by blast
  qed simp_all
qed

lemma host_admit_held:
  assumes "held T op n cell d (kp_ledger k)" and "iv_operation_id j = op"
  shows "host_admit cfg c now j native k =
    (if \<not> validate_invocation (xc_encode c) j then Inl RefInvalidRequest
     else if request_digest_of c j \<noteq> d then Inl RefOperationConflict
     else Inr (Existing cell), k)"
  using assms by (auto simp: host_admit_def admit_def observe_operation_def held_def request_digest_of_def Let_def)

lemma held_invoke_frames:
  assumes "held T op n cell d (kp_ledger k)" and "iv_operation_id j = op"
  shows "snd (host_invoke cfg c now ws j w k) = k"
  using assms by (auto simp: host_invoke_def host_admit_held [OF assms] split: decision.splits)

text \<open>What an invocation that reached the queue did.\<close>

lemma sent_admits:
  assumes "xq_command q = Invoke i w" and "host_request cfg c now ws q k = (a, k1)"
    and "native_frames k1 = native_frames k @ [native_frame n (iv_method i) params]"
  obtains native cell where
    "host_admit cfg c now i native (k\<lparr>kp_attended := now\<rparr>) = (Inr (Admitted n cell), k1)"
proof -
  let ?k = "k\<lparr>kp_attended := now\<rparr>"
  have frames: "native_frames ?k = native_frames k" by (simp add: native_frames_def)
  have auth: "xq_schema q = WIRE_SCHEMA \<and> xq_scope q = kc_scope cfg
      \<and> xc_sha256 c (xq_capability q) = kc_capability_digest cfg"
    using assms(2,3) by (auto simp: host_request_def split: if_splits)
  then have k1: "k1 = snd (host_invoke cfg c now ws i w ?k)"
    using assms(1,2) by (simp add: host_request_def attends_def)
  show ?thesis
  proof (rule host_invoke_cases [of cfg c now ws i w ?k])
    assume "snd (host_invoke cfg c now ws i w ?k) = ?k"
    with k1 frames assms(3) show ?thesis by simp
  next
    fix native r k'
    assume h: "host_admit cfg c now i native ?k = (r, k')" "snd (host_invoke cfg c now ws i w ?k) = k'"
    then have r: "native_frames k1 = native_frames k @ (case r of
        Inr (Admitted n cell) \<Rightarrow>
          [native_frame n (iv_method i) (with_call_context (iv_method i) native (kc_call_context cfg))]
      | _ \<Rightarrow> [])"
      using host_admit_frames [OF h(1)] k1 frames by simp
    with assms(3) obtain m cell where "r = Inr (Admitted m cell)" "m = n"
      by (auto simp: native_frame_def split: sum.splits admission.splits)
    with h k1 show ?thesis by (intro that [of native cell]) simp
  qed
qed

section \<open>After a loss\<close>

interpretation sunk: ledger_invariant c "\<lambda>lg. ledger_ok c lg \<and> lg_lost lg" "\<lambda>_. True" "\<lambda>_ _. True" for c
proof
  fix lg now i a m reply
  assume ok: "ledger_ok c lg \<and> lg_lost lg"
  then have ok': "ledger_ok c lg" and lost: "lg_lost lg" by blast+
  have "lg_lost (snd (admit c now i lg))"
    using lost by (auto simp: admit_def Let_def split: option.splits)
  with intact.P_admit [OF ok', where now = now and i = i]
  show "ledger_ok c (snd (admit c now i lg)) \<and> lg_lost (snd (admit c now i lg))" by blast
  have "lg_pending lg = []" using tables_parts(2) [of c lg] ok' lost by (simp add: ledger_ok_def roles_ok_def)
  then have "lg_lost (snd (finish_operation c now m reply lg))"
    using lost by (simp add: finish_operation_def)
  with intact.P_finish [OF ok', where now = now and n = m and reply = reply]
  show "ledger_ok c (snd (finish_operation c now m reply lg)) \<and> lg_lost (snd (finish_operation c now m reply lg))"
    by blast
  show "ledger_ok c (lose lg) \<and> lg_lost (lose lg)" using intact.P_lose [OF ok'] by simp
  show "ledger_ok c (snd (push_event c a lg)) \<and> lg_lost (snd (push_event c a lg))"
    using intact.P_push [OF ok', of a] push_fields(3) [OF prod.collapse [symmetric], of c a lg] lost by simp
next
  fix lg a
  assume ok: "ledger_ok c lg \<and> lg_lost lg"
  then have ok': "ledger_ok c lg" and lost: "lg_lost lg" by blast+
  show "ledger_ok c (snd (events_after a lg)) \<and> lg_lost (snd (events_after a lg))"
    using intact.P_events [OF ok', of a] events_after_fields(3) [OF prod.collapse [symmetric], of a lg] lost by simp
  show "ledger_ok c (snd (take_processes lg)) \<and> lg_lost (snd (take_processes lg))"
    using intact.P_take [OF ok'] lost by (simp add: take_processes_def)
qed

lemma lost_admit_frames:
  assumes "lg_lost (kp_ledger k)" and "host_admit cfg c now i native k = (r, k')"
  shows "native_frames k' = native_frames k"
proof -
  have "r \<noteq> Inr (Admitted n cell)" for n cell
    using host_admit_ledger [OF assms(2)] assms(1)
    by (auto simp: admit_def Let_def split: if_splits option.splits)
  then show ?thesis
    using host_admit_frames [OF assms(2)] by (auto split: sum.splits admission.splits)
qed

lemma lost_invoke_frames:
  assumes "lg_lost (kp_ledger k)"
  shows "native_frames (snd (host_invoke cfg c now ws i w k)) = native_frames k"
  by (rule host_invoke_cases [of cfg c now ws i w k]) (use lost_admit_frames [OF assms] in auto)

lemma lost_step_frames:
  assumes lost: "lg_lost (kp_ledger k)"
  shows "native_frames (keeper_step cfg c (now, e) k) = native_frames k"
proof (cases e)
  case (KRequest ws q)
  have "native_frames (snd (host_invoke cfg c now ws i w (k\<lparr>kp_attended := now\<rparr>))) = native_frames k" for i w
    using lost_invoke_frames [of "k\<lparr>kp_attended := now\<rparr>" cfg c now ws i w] lost by (simp add: native_frames_def)
  with KRequest show ?thesis
    by (auto simp: keeper_step_def host_request_def Let_def attends_def native_frames_def split: command.splits prod.splits)
next
  case (KResume a)
  then show ?thesis
    by (auto simp: keeper_step_def resume_wait_def native_frames_def split: answer.splits prod.splits sum.splits)
next
  case KWrite
  then show ?thesis by (auto simp: keeper_step_def write_native_def native_frames_def split: list.splits)
next
  case KFlush
  then show ?thesis
    by (auto simp: keeper_step_def flush_event_def stop_backend_def native_frames_def
        split: option.splits prod.splits push_result.splits)
next
  case (KNative m)
  then show ?thesis
    by (auto simp: keeper_step_def native_message_def stop_backend_def native_frames_def
        split: option.splits prod.splits)
next
  case KReap
  with lost show ?thesis by (simp add: keeper_step_def reap_unattended_def)
qed (simp_all add: keeper_step_def stop_backend_def native_frames_def)

lemma lost_run_frames:
  "ledger_ok c (kp_ledger k) \<Longrightarrow> lg_lost (kp_ledger k) \<Longrightarrow>
   native_frames (keeper_run cfg c evs k) = native_frames k"
proof (induction evs arbitrary: k)
  case (Cons ev evs)
  obtain now e where ev: "ev = (now, e)" by (cases ev)
  have "ledger_ok c (kp_ledger (keeper_step cfg c (now, e) k)) \<and> lg_lost (kp_ledger (keeper_step cfg c (now, e) k))"
    by (rule sunk.step) (use Cons.prems in simp_all)
  with Cons.IH have "native_frames (keeper_run cfg c evs (keeper_step cfg c (now, e) k))
      = native_frames (keeper_step cfg c (now, e) k)" by blast
  with lost_step_frames [OF Cons.prems(2)] show ?case by (simp add: keeper_run_def ev)
qed (simp add: keeper_run_def)

lemma lost_not_pending:
  assumes "ledger_ok c lg" and "lg_lost lg" and "observe_operation op lg = Some cell"
  shows "lg_cells lg ! cell \<noteq> OutPending"
proof -
  have tables: "tables_ok c lg" using assms(1) by (simp add: ledger_ok_def)
  note parts = tables_parts [OF tables]
  have "lg_pending lg = []" using parts(2) assms(2) by (simp add: roles_ok_def)
  moreover obtain e where "map_of (lg_operations lg) op = Some e" "le_cell e = cell"
    using assms(3) by (auto simp: observe_operation_def)
  then have "op_status lg op = Some (lg_cells lg ! cell)" by (simp add: op_status_def)
  ultimately show ?thesis
    using status_okD [OF parts(3)] by (fastforce simp: answered_def split: if_splits execution_outcome.splits)
qed

lemma lost_refuses:
  assumes "lg_lost (kp_ledger k)" and "observe_operation (iv_operation_id i) (kp_ledger k) = None"
  shows "fst (host_admit cfg c now i native k) \<in> {Inl RefInvalidRequest, Inl RefEnvironmentLost}"
proof -
  have "map_of (lg_operations (kp_ledger k)) (iv_operation_id i) = None"
    using assms(2) by (simp add: observe_operation_def)
  with assms(1) show ?thesis
    by (simp add: host_admit_def admit_def Let_def observe_operation_def prod.case_eq_if)
qed

section \<open>The writer's queue\<close>

definition queue_bounded :: "keeper \<Rightarrow> bool" where
  "queue_bounded k \<longleftrightarrow> length (kp_queue k) \<le> WRITER_QUEUE"

lemma host_admit_queue: "queue_bounded k \<Longrightarrow> queue_bounded (snd (host_admit cfg c now i native k))"
  by (auto simp: host_admit_def queue_bounded_def Let_def split: prod.splits sum.splits admission.splits)

lemma host_invoke_queue: "queue_bounded k \<Longrightarrow> queue_bounded (snd (host_invoke cfg c now ws i w k))"
  by (rule host_invoke_cases [of cfg c now ws i w k]) (use host_admit_queue in \<open>metis snd_conv\<close>)+

lemma reap_each_queue: "queue_bounded k \<Longrightarrow> queue_bounded (snd (reap_each cfg c now ps reaped k))"
proof (induction ps arbitrary: reaped k)
  case (Cons p ps)
  have "queue_bounded (k\<lparr>kp_reaps := kp_reaps k + 1\<rparr>)" using Cons.prems by (simp add: queue_bounded_def)
  from Cons.IH [OF host_admit_queue [OF this]] show ?case by (simp add: Let_def prod.case_eq_if)
qed simp

lemma step_queue: "queue_bounded k \<Longrightarrow> queue_bounded (keeper_step cfg c (now, e) k)"
proof (cases e)
  case (KRequest ws q)
  assume k: "queue_bounded k"
  have "queue_bounded (snd (host_invoke cfg c now ws i w (k\<lparr>kp_attended := now\<rparr>)))" for i w
    by (rule host_invoke_queue) (use k in \<open>simp add: queue_bounded_def\<close>)
  with k KRequest show ?thesis
    by (auto simp: keeper_step_def host_request_def Let_def attends_def queue_bounded_def split: command.splits prod.splits)
next
  case (KResume a)
  assume "queue_bounded k"
  with KResume show ?thesis
    by (auto simp: keeper_step_def resume_wait_def queue_bounded_def split: answer.splits prod.splits sum.splits)
next
  case KWrite
  assume "queue_bounded k"
  with KWrite show ?thesis by (auto simp: keeper_step_def write_native_def queue_bounded_def split: list.splits)
next
  case KFlush
  assume "queue_bounded k"
  with KFlush show ?thesis
    by (auto simp: keeper_step_def flush_event_def stop_backend_def queue_bounded_def
        split: option.splits prod.splits push_result.splits)
next
  case (KNative m)
  assume "queue_bounded k"
  with KNative show ?thesis
    by (auto simp: keeper_step_def native_message_def stop_backend_def queue_bounded_def
        split: option.splits prod.splits)
next
  case KReap
  assume k: "queue_bounded k"
  then have "queue_bounded (snd (reap_each cfg c now ps 0 (k\<lparr>kp_ledger := lg\<rparr>)))" for ps lg
    by (intro reap_each_queue) (simp add: queue_bounded_def)
  with k KReap show ?thesis by (simp add: keeper_step_def reap_unattended_def prod.case_eq_if)
qed (simp_all add: keeper_step_def stop_backend_def queue_bounded_def)

lemma run_queue: "queue_bounded (keeper_run cfg c evs (new_keeper t))"
proof -
  have "queue_bounded k \<Longrightarrow> queue_bounded (fold (keeper_step cfg c) evs k)" for k
    by (induction evs arbitrary: k) (auto intro: step_queue)
  then show ?thesis by (simp add: keeper_run_def queue_bounded_def new_keeper_def)
qed

section \<open>Reaping at capacity\<close>

text \<open>
  The keeper takes the tracked processes out of the ledger before it admits their terminations. A
  termination that is refused because the executor's queue or the pending table is full is not tried
  again: nothing is sent for its process, and the process is no longer tracked.
\<close>

definition at_capacity :: "keeper \<Rightarrow> bool" where
  "at_capacity k \<longleftrightarrow> WRITER_QUEUE \<le> length (kp_queue k) \<or> MAX_PENDING \<le> length (lg_pending (kp_ledger k))"

lemma full_admit:
  assumes ok: "ledger_ok c (kp_ledger k)" and full: "at_capacity k"
    and adm: "host_admit cfg c now i native k = (r, k')" and kind: "iv_method i \<noteq> ''process/start''"
  shows "native_frames k' = native_frames k \<and> at_capacity k' \<and> lg_processes (kp_ledger k') = lg_processes (kp_ledger k)"
proof -
  have tables: "tables_ok c (kp_ledger k)" using ok by (simp add: ledger_ok_def)
  note frame = forgets_frame [OF evict_forgets [OF tables, of now]]
  have kept: "lg_pending lg' = lg_pending (kp_ledger k) \<and> lg_processes lg' = lg_processes (kp_ledger k)
      \<and> (\<forall>n cell. r' \<noteq> Inr (Admitted n cell))"
    if a: "admit c now i (kp_ledger k) = (r', lg')" and no: "MAX_PENDING \<le> length (lg_pending (kp_ledger k))
        \<or> observe_operation (iv_operation_id i) (kp_ledger k) \<noteq> None \<or> lg_lost (kp_ledger k)" for r' lg'
    using a
  proof (cases rule: admit_cases)
    case admitted
    with no frame show ?thesis by (auto simp: observe_operation_def)
  qed (simp_all add: frame)
  show ?thesis
  proof (cases "kp_ledger k' = kp_ledger k \<and> r = Inl RefCapacity")
    case True
    with host_admit_frames [OF adm] have "native_frames k' = native_frames k" by simp
    moreover have "kp_queue k' = kp_queue k"
      using adm True by (auto simp: host_admit_def Let_def split: if_splits prod.splits sum.splits admission.splits)
    ultimately show ?thesis using True full by (simp add: at_capacity_def)
  next
    case False
    then have a: "admit c now i (kp_ledger k) = (r, kp_ledger k')"
      using host_admit_ledger [OF adm] by (auto simp: prod_eq_iff)
    have no: "MAX_PENDING \<le> length (lg_pending (kp_ledger k))
        \<or> observe_operation (iv_operation_id i) (kp_ledger k) \<noteq> None \<or> lg_lost (kp_ledger k)"
    proof (rule ccontr)
      assume n: "\<not> ?thesis"
      then have "WRITER_QUEUE \<le> length (kp_queue k)" using full by (simp add: at_capacity_def)
      with n adm have "kp_ledger k' = kp_ledger k \<and> r = Inl RefCapacity"
        by (auto simp: host_admit_def Let_def)
      with False show "False" ..
    qed
    note k = kept [OF a no]
    have "native_frames k' = native_frames k"
      using host_admit_frames [OF adm] k by (auto split: sum.splits admission.splits)
    moreover have "kp_queue k' = kp_queue k"
      using adm k by (auto simp: host_admit_def Let_def split: if_splits prod.splits sum.splits admission.splits)
    ultimately show ?thesis using k full by (simp add: at_capacity_def)
  qed
qed

lemma full_reap_each:
  "ledger_ok c (kp_ledger k) \<Longrightarrow> at_capacity k \<Longrightarrow>
   native_frames (snd (reap_each cfg c now ps reaped k)) = native_frames k
   \<and> lg_processes (kp_ledger (snd (reap_each cfg c now ps reaped k))) = lg_processes (kp_ledger k)"
proof (induction ps arbitrary: reaped k)
  case (Cons p ps)
  let ?n = "kp_reaps k + 1"
  let ?i = "reap_invocation ?n p"
  let ?k = "k\<lparr>kp_reaps := ?n\<rparr>"
  obtain r k' where h: "host_admit cfg c now ?i (iv_params ?i) ?k = (r, k')" by fastforce
  have ok: "ledger_ok c (kp_ledger ?k)" "at_capacity ?k"
    using Cons.prems by (simp_all add: at_capacity_def)
  have one: "native_frames k' = native_frames k \<and> at_capacity k' \<and> lg_processes (kp_ledger k') = lg_processes (kp_ledger k)"
    using full_admit [OF ok h] by (simp add: reap_invocation_def native_frames_def)
  have "ledger_ok c (kp_ledger k')"
    using intact.host_admit [OF ok(1), where now = now and cfg = cfg and i = ?i and native = "iv_params ?i"] h by simp
  from Cons.IH [OF this] one show ?case
    by (simp add: Let_def h del: One_nat_def)
qed simp

theorem refused_reaping_forgets_processes:
  assumes "ledger_ok c (kp_ledger k)" and "at_capacity k" and "\<not> lg_lost (kp_ledger k)"
    and "UNATTENDED_PROCESS_REAP \<le> now - kp_attended k"
  shows "native_frames (snd (reap_unattended cfg c now k)) = native_frames k
    \<and> lg_processes (kp_ledger (snd (reap_unattended cfg c now k))) = []"
proof -
  let ?k = "k\<lparr>kp_ledger := snd (take_processes (kp_ledger k))\<rparr>"
  have "ledger_ok c (kp_ledger ?k)" "at_capacity ?k"
    using take_processes_ok [OF assms(1)] assms(2) by (simp_all add: at_capacity_def take_processes_def)
  from full_reap_each [OF this] assms(3,4) show ?thesis
    by (simp add: reap_unattended_def prod.case_eq_if native_frames_def take_processes_def)
qed

end
