(* ===== verification/Execution_Client.thy ===== *)
theory Execution_Client
  imports Execution_Ledger
begin

text \<open>
  The worker's side of the execution protocol: \<^verbatim>\<open>src/src/worker_execution.rs\<close>. The client keeps its
  outstanding calls in a table bounded in count and bytes, forwards them until they are answered, and
  reads the keeper's events with a cursor that outlives its connections. A call that is still awaited has
  its channel open. The length of a serialised request is a parameter.
\<close>

section \<open>State\<close>

record runtime_request =
  rr_session_id :: string
  rr_worker_epoch :: string
  rr_request_id :: string
  rr_binding :: binding_v1
  rr_command :: command

datatype machine_refusal =
    MachineUnavailable
  | MachineInvalidRequest
  | MachineIdentityMismatch
  | MachineWorkspaceUnavailable
  | MachineEnvironmentLost
  | MachinePreparationFailed
  | MachineCapacity

text \<open>The responses the client does not read have no data here.\<close>

datatype machine_response = MachineCall response | MachineRefused machine_refusal | MachineOther

record runtime_reply =
  ry_session_id :: string
  ry_worker_epoch :: string
  ry_request_id :: string
  ry_scope :: execution_scope
  ry_response :: machine_response

record pending_call =
  pc_request :: runtime_request
  pc_open :: bool
  pc_sent :: "nat option"
  pc_bytes :: nat

record client =
  cl_session :: string
  cl_epoch :: string
  cl_binding :: binding_v1
  cl_pending :: "(string \<times> pending_call) list"
  cl_event_cursor :: "nat option"

definition CLIENT_PENDING :: nat where "CLIENT_PENDING = 24"
definition CLIENT_PENDING_BYTES :: nat where "CLIENT_PENDING_BYTES = 16 * 1024 * 1024"
definition MAX_CONTROL_BYTES :: nat where "MAX_CONTROL_BYTES = 64 * 1024"
definition CONTROL_RESERVE_BYTES :: nat where "CONTROL_RESERVE_BYTES = CLIENT_PENDING * MAX_CONTROL_BYTES"
definition RETRY :: nat where "RETRY = 30 * 1000000000"
definition ONE_SECOND :: nat where "ONE_SECOND = 1000000000"

definition new_client :: "string \<Rightarrow> string \<Rightarrow> binding_v1 \<Rightarrow> client" where
  "new_client session epoch binding = \<lparr>cl_session = session, cl_epoch = epoch, cl_binding = binding,
     cl_pending = [], cl_event_cursor = None\<rparr>"

section \<open>Calls\<close>

definition is_invoke :: "command \<Rightarrow> bool" where
  "is_invoke cmd = (case cmd of Invoke _ _ \<Rightarrow> True | _ \<Rightarrow> False)"

definition retain_awaited :: "(string \<times> pending_call) list \<Rightarrow> (string \<times> pending_call) list" where
  "retain_awaited ps = filter (\<lambda>p. pc_open (snd p)) ps"

definition total_bytes :: "(string \<times> pending_call) list \<Rightarrow> nat" where
  "total_bytes ps = sum_list (map (\<lambda>p. pc_bytes (snd p)) ps)"

datatype transport_error = RequestTooLarge | TransportCapacity

definition client_request :: "client \<Rightarrow> string \<Rightarrow> command \<Rightarrow> runtime_request" where
  "client_request cl i cmd = \<lparr>rr_session_id = cl_session cl, rr_worker_epoch = cl_epoch cl, rr_request_id = i,
     rr_binding = cl_binding cl, rr_command = cmd\<rparr>"

definition start_call ::
  "(runtime_request \<Rightarrow> nat) \<Rightarrow> string \<Rightarrow> command \<Rightarrow> client \<Rightarrow> (transport_error + unit) \<times> client" where
  "start_call serial i cmd cl =
     (let request = client_request cl i cmd; bytes = serial request; invocation = is_invoke cmd in
      if (if invocation then MAX_EXECUTION_FRAME_BYTES else MAX_CONTROL_BYTES) < bytes then (Inl RequestTooLarge, cl)
      else
        let pending = retain_awaited (cl_pending cl);
            count_limit = (if invocation then CLIENT_PENDING - 1 else CLIENT_PENDING);
            byte_limit = (if invocation then CLIENT_PENDING_BYTES - CONTROL_RESERVE_BYTES else CLIENT_PENDING_BYTES)
        in if length pending < count_limit \<and> total_bytes pending + bytes \<le> byte_limit
           then (Inr (), cl\<lparr>cl_pending := btree_insert i
                   \<lparr>pc_request = request, pc_open = True, pc_sent = None, pc_bytes = bytes\<rparr> pending\<rparr>)
           else (Inl TransportCapacity, cl\<lparr>cl_pending := pending\<rparr>))"

text \<open>A call that ends removes its entry; one that is dropped only closes its channel.\<close>

definition end_call :: "string \<Rightarrow> client \<Rightarrow> client" where
  "end_call i cl = cl\<lparr>cl_pending := adelete i (cl_pending cl)\<rparr>"

definition drop_call :: "string \<Rightarrow> client \<Rightarrow> client" where
  "drop_call i cl = cl\<lparr>cl_pending :=
     map (\<lambda>(k, p). if k = i then (k, p\<lparr>pc_open := False\<rparr>) else (k, p)) (cl_pending cl)\<rparr>"

definition due :: "bool \<Rightarrow> nat \<Rightarrow> pending_call \<Rightarrow> bool" where
  "due reconnect now p \<longleftrightarrow> reconnect \<or> (case pc_sent p of None \<Rightarrow> True | Some sent \<Rightarrow> RETRY \<le> now - sent)"

definition client_frames :: "bool \<Rightarrow> nat \<Rightarrow> client \<Rightarrow> runtime_request list \<times> client" where
  "client_frames reconnect now cl =
     (let pending = retain_awaited (cl_pending cl) in
      (map (\<lambda>p. pc_request (snd p)) (filter (\<lambda>p. due reconnect now (snd p)) pending),
       cl\<lparr>cl_pending := map (\<lambda>(k, p). if due reconnect now p then (k, p\<lparr>pc_sent := Some now\<rparr>) else (k, p)) pending\<rparr>))"

text \<open>The answer delivered to the waiting call, if it is still waiting.\<close>

definition client_complete :: "nat \<Rightarrow> runtime_reply \<Rightarrow> client \<Rightarrow> (string \<times> machine_response) option \<times> client" where
  "client_complete now reply cl =
     (if ry_session_id reply \<noteq> cl_session cl \<or> ry_worker_epoch reply \<noteq> cl_epoch cl
         \<or> ry_scope reply \<noteq> scope_of_binding (cl_binding cl)
      then (None, cl)
      else if ry_response reply = MachineRefused MachineUnavailable
        \<or> ry_response reply = MachineRefused MachineCapacity
      then (None, cl\<lparr>cl_pending := map (\<lambda>(k, p).
             if k = ry_request_id reply then (k, p\<lparr>pc_sent := Some (now - (RETRY - ONE_SECOND))\<rparr>) else (k, p))
           (cl_pending cl)\<rparr>)
      else (case map_of (cl_pending cl) (ry_request_id reply) of
          None \<Rightarrow> (None, cl)
        | Some p \<Rightarrow> (if pc_open p then Some (ry_request_id reply, ry_response reply) else None,
                    end_call (ry_request_id reply) cl)))"

section \<open>Invocations and events\<close>

text \<open>One turn of the loop of \<open>invoke\<close>: the answer of a call decides the next command.\<close>

datatype invoke_turn = InvokeDone json | InvokeNext command | InvokeFailed

definition invoke_turn_of :: "string \<Rightarrow> response \<Rightarrow> invoke_turn" where
  "invoke_turn_of op resp =
     (case resp of
        RespOperation (OutCompleted reply) \<Rightarrow> InvokeDone (jremove EXECUTED_MS reply)
      | RespOperation OutPending \<Rightarrow> InvokeNext (Observe op MAX_WAIT_MS)
      | _ \<Rightarrow> InvokeFailed)"

text \<open>The commands a tool call sends while its calls are answered by \<open>resps\<close>, and its result.\<close>

fun invoke_loop :: "string \<Rightarrow> command \<Rightarrow> response list \<Rightarrow> command list \<times> invoke_turn" where
  "invoke_loop op cmd [] = ([cmd], InvokeFailed)"
| "invoke_loop op cmd (resp # resps) =
     (case invoke_turn_of op resp of
        InvokeNext cmd' \<Rightarrow> (case invoke_loop op cmd' resps of (cmds, r) \<Rightarrow> (cmd # cmds, r))
      | r \<Rightarrow> ([cmd], r))"

definition tool_call :: "(json \<Rightarrow> string) \<Rightarrow> invocation \<Rightarrow> response list \<Rightarrow> command list \<times> invoke_turn" where
  "tool_call encode i resps =
     (if validate_invocation encode i then invoke_loop (iv_operation_id i) (Invoke i MAX_WAIT_MS) resps
      else ([], InvokeFailed))"

text \<open>The event branch of \<open>serve\<close>: what is written to the native client and whether it goes on.\<close>

definition connect_cursor :: "nat \<Rightarrow> client \<Rightarrow> nat \<times> client" where
  "connect_cursor start cl =
     (case cl_event_cursor cl of
        Some cursor \<Rightarrow> (cursor, cl)
      | None \<Rightarrow> (start, cl\<lparr>cl_event_cursor := Some start\<rparr>))"

datatype serve_turn = ServeEvents "json list" nat | ServeRestart | ServeFailed

definition serve_event :: "response \<Rightarrow> client \<Rightarrow> serve_turn \<times> client" where
  "serve_event resp cl =
     (case resp of
        RespEvents batch through \<Rightarrow>
          (ServeEvents (map ev_message batch) through, cl\<lparr>cl_event_cursor := Some through\<rparr>)
      | RespRefused RefCursorExpired \<Rightarrow> (ServeRestart, cl\<lparr>cl_event_cursor := None\<rparr>)
      | _ \<Rightarrow> (ServeFailed, cl))"

section \<open>The transport's budget\<close>

definition control_count :: "(string \<times> pending_call) list \<Rightarrow> nat" where
  "control_count ps = length (filter (\<lambda>p. \<not> is_invoke (rr_command (pc_request (snd p)))) ps)"

definition invoke_bytes :: "(string \<times> pending_call) list \<Rightarrow> nat" where
  "invoke_bytes ps = total_bytes (filter (\<lambda>p. is_invoke (rr_command (pc_request (snd p)))) ps)"

definition client_ok :: "client \<Rightarrow> bool" where
  "client_ok cl \<longleftrightarrow>
     length (cl_pending cl) \<le> CLIENT_PENDING
   \<and> invoke_bytes (cl_pending cl) \<le> CLIENT_PENDING_BYTES - CONTROL_RESERVE_BYTES
   \<and> (\<forall>p \<in> set (cl_pending cl). is_invoke (rr_command (pc_request (snd p))) \<or> pc_bytes (snd p) \<le> MAX_CONTROL_BYTES)"

datatype client_event =
    CStart string command
  | CEnd string
  | CDrop string
  | CFrames bool nat
  | CComplete nat runtime_reply
  | CServe response

definition client_step :: "(runtime_request \<Rightarrow> nat) \<Rightarrow> client_event \<Rightarrow> client \<Rightarrow> client" where
  "client_step serial ev cl =
     (case ev of
        CStart i cmd \<Rightarrow> snd (start_call serial i cmd cl)
      | CEnd i \<Rightarrow> end_call i cl
      | CDrop i \<Rightarrow> drop_call i cl
      | CFrames reconnect now \<Rightarrow> snd (client_frames reconnect now cl)
      | CComplete now reply \<Rightarrow> snd (client_complete now reply cl)
      | CServe resp \<Rightarrow> snd (serve_event resp cl))"

lemma total_bytes_simps [simp]:
  "total_bytes [] = 0" "total_bytes (p # ps) = pc_bytes (snd p) + total_bytes ps"
  by (simp_all add: total_bytes_def)

lemma total_bytes_filter: "total_bytes (filter P ps) \<le> total_bytes ps"
  by (induction ps) auto

lemma invoke_bytes_simps [simp]:
  "invoke_bytes [] = 0"
  "invoke_bytes (p # ps) = (if is_invoke (rr_command (pc_request (snd p))) then pc_bytes (snd p) else 0) + invoke_bytes ps"
  by (simp_all add: invoke_bytes_def)

lemma control_count_simps [simp]:
  "control_count [] = 0"
  "control_count (p # ps) = (if is_invoke (rr_command (pc_request (snd p))) then 0 else 1) + control_count ps"
  by (simp_all add: control_count_def)

lemma invoke_bytes_filter: "invoke_bytes (filter P ps) \<le> invoke_bytes ps"
  by (induction ps) auto

lemma invoke_bytes_le_total: "invoke_bytes ps \<le> total_bytes ps"
  by (simp add: invoke_bytes_def total_bytes_filter)

lemma total_bytes_split:
  "(\<forall>p \<in> set ps. is_invoke (rr_command (pc_request (snd p))) \<or> pc_bytes (snd p) \<le> MAX_CONTROL_BYTES) \<Longrightarrow>
   total_bytes ps \<le> invoke_bytes ps + control_count ps * MAX_CONTROL_BYTES"
  by (induction ps) auto

lemma control_count_le: "control_count ps \<le> length ps"
  by (simp add: control_count_def)

lemma invoke_bytes_insert:
  "invoke_bytes (btree_insert k v m) \<le>
     (if is_invoke (rr_command (pc_request v)) then pc_bytes v else 0) + invoke_bytes m"
  by (induction m) auto

lemma client_ok_filter:
  assumes "client_ok cl"
  shows "client_ok (cl\<lparr>cl_pending := filter P (cl_pending cl)\<rparr>)"
proof -
  have "length (filter P (cl_pending cl)) \<le> CLIENT_PENDING"
    using assms unfolding client_ok_def by (meson le_trans length_filter_le)
  with assms invoke_bytes_filter [of P "cl_pending cl"] show ?thesis
    by (auto simp: client_ok_def)
qed

lemma client_ok_map:
  assumes "client_ok cl" and "\<And>k p. pc_request (snd (f (k, p))) = pc_request p \<and> pc_bytes (snd (f (k, p))) = pc_bytes p"
  shows "client_ok (cl\<lparr>cl_pending := map f (cl_pending cl)\<rparr>)"
proof -
  have same: "pc_request (snd (f p)) = pc_request (snd p)" "pc_bytes (snd (f p)) = pc_bytes (snd p)" for p
    using assms(2) [of "fst p" "snd p"] by simp_all
  have "invoke_bytes (map f ps) = invoke_bytes ps" for ps
    by (induction ps) (simp_all add: same)
  with assms(1) show ?thesis by (simp add: client_ok_def same)
qed

lemma start_call_ok:
  assumes "client_ok cl"
  shows "client_ok (snd (start_call serial i cmd cl))"
proof -
  let ?pending = "retain_awaited (cl_pending cl)"
  let ?b = "serial (client_request cl i cmd)"
  let ?p = "\<lparr>pc_request = client_request cl i cmd, pc_open = True, pc_sent = None, pc_bytes = ?b\<rparr>"
  have pending: "client_ok (cl\<lparr>cl_pending := ?pending\<rparr>)"
    unfolding retain_awaited_def by (rule client_ok_filter [OF assms])
  have cmd: "rr_command (client_request cl i cmd) = cmd" by (simp add: client_request_def)
  have "client_ok (cl\<lparr>cl_pending := btree_insert i ?p ?pending\<rparr>)"
    if room: "length ?pending < (if is_invoke cmd then CLIENT_PENDING - 1 else CLIENT_PENDING)"
      "total_bytes ?pending + ?b \<le> (if is_invoke cmd then CLIENT_PENDING_BYTES - CONTROL_RESERVE_BYTES else CLIENT_PENDING_BYTES)"
      and size: "?b \<le> (if is_invoke cmd then MAX_EXECUTION_FRAME_BYTES else MAX_CONTROL_BYTES)"
  proof -
    have "invoke_bytes (btree_insert i ?p ?pending) \<le> CLIENT_PENDING_BYTES - CONTROL_RESERVE_BYTES"
      using invoke_bytes_insert [of i ?p ?pending] invoke_bytes_le_total [of ?pending] pending room(2) cmd
      by (auto simp: client_ok_def split: if_splits)
    moreover have "length (btree_insert i ?p ?pending) \<le> CLIENT_PENDING"
      using length_btree_insert [of i ?p ?pending] room(1) by (simp split: if_splits)
    moreover have "\<forall>q \<in> set (btree_insert i ?p ?pending).
        is_invoke (rr_command (pc_request (snd q))) \<or> pc_bytes (snd q) \<le> MAX_CONTROL_BYTES"
      using btree_insert_members [of i ?p ?pending] pending size cmd
      by (auto simp: client_ok_def split: if_splits)
    ultimately show ?thesis by (simp add: client_ok_def)
  qed
  with pending assms show ?thesis
    by (simp add: start_call_def Let_def)
qed

lemma client_step_ok: "client_ok cl \<Longrightarrow> client_ok (client_step serial ev cl)"
proof -
  assume ok: "client_ok cl"
  have frames: "client_ok (snd (client_frames r now cl))" for r now
    using client_ok_map [OF client_ok_filter [OF ok, of "\<lambda>p. pc_open (snd p)"],
        of "\<lambda>(k, p). if due r now p then (k, p\<lparr>pc_sent := Some now\<rparr>) else (k, p)"]
    by (simp add: client_frames_def Let_def retain_awaited_def)
  have del: "client_ok (end_call i cl)" for i
    using client_ok_filter [OF ok] by (simp add: end_call_def adelete_def)
  have drop: "client_ok (drop_call i cl)" for i
    unfolding drop_call_def by (rule client_ok_map [OF ok]) simp
  have retry: "client_ok (cl\<lparr>cl_pending := map (\<lambda>(k, p). if k = i then (k, p\<lparr>pc_sent := t\<rparr>) else (k, p)) (cl_pending cl)\<rparr>)" for i t
    by (rule client_ok_map [OF ok]) simp
  have cursor: "client_ok (cl\<lparr>cl_event_cursor := x\<rparr>)" for x
    using ok by (simp add: client_ok_def)
  show ?thesis
    using start_call_ok [OF ok] frames del drop retry ok cursor
    by (cases ev) (auto simp: client_step_def client_complete_def serve_event_def
        split: option.splits response.splits refusal.splits)
qed

lemma client_run_ok: "client_ok cl \<Longrightarrow> client_ok (fold (client_step serial) evs cl)"
  by (induction evs arbitrary: cl) (auto intro: client_step_ok)

text \<open>With a free slot, a control command always finds its bytes.\<close>

lemma control_fits:
  assumes "client_ok cl" and "length (cl_pending cl) < CLIENT_PENDING" and "b \<le> MAX_CONTROL_BYTES"
  shows "total_bytes (cl_pending cl) + b \<le> CLIENT_PENDING_BYTES"
proof -
  have "total_bytes (cl_pending cl) \<le> invoke_bytes (cl_pending cl) + control_count (cl_pending cl) * MAX_CONTROL_BYTES"
    using assms(1) by (intro total_bytes_split) (simp add: client_ok_def)
  moreover have "control_count (cl_pending cl) * MAX_CONTROL_BYTES \<le> 23 * MAX_CONTROL_BYTES"
    using control_count_le [of "cl_pending cl"] assms(2) by (intro mult_le_mono1) (simp add: CLIENT_PENDING_def)
  ultimately show ?thesis
    using assms(1,3) by (simp add: client_ok_def CLIENT_PENDING_BYTES_def CONTROL_RESERVE_BYTES_def CLIENT_PENDING_def MAX_CONTROL_BYTES_def)
qed

lemma run_control:
  assumes "client_ok cl" and "\<not> is_invoke cmd" and "serial (client_request cl i cmd) \<le> MAX_CONTROL_BYTES"
  shows "fst (start_call serial i cmd cl) =
    (if length (retain_awaited (cl_pending cl)) < CLIENT_PENDING then Inr () else Inl TransportCapacity)"
proof -
  have "client_ok (cl\<lparr>cl_pending := retain_awaited (cl_pending cl)\<rparr>)"
    unfolding retain_awaited_def by (rule client_ok_filter [OF assms(1)])
  from control_fits [OF this _ assms(3)] assms(2,3) show ?thesis
    by (simp add: start_call_def Let_def)
qed

lemma new_client_ok: "client_ok (new_client session epoch binding)"
  by (simp add: client_ok_def new_client_def)

section \<open>A tool call is one invocation\<close>

text \<open>A tool call sends its invocation once and then only observes its operation.\<close>

lemma invoke_loop_observes:
  "fst (invoke_loop op cmd resps) \<noteq> [] \<and> hd (fst (invoke_loop op cmd resps)) = cmd
   \<and> set (tl (fst (invoke_loop op cmd resps))) \<subseteq> {Observe op MAX_WAIT_MS}"
proof (induction op cmd resps rule: invoke_loop.induct)
  case (2 op cmd resp resps)
  show ?case
  proof (cases "invoke_turn_of op resp")
    case (InvokeNext cmd')
    then have "cmd' = Observe op MAX_WAIT_MS"
      by (auto simp: invoke_turn_of_def split: response.splits execution_outcome.splits)
    moreover have "set (fst (invoke_loop op cmd' resps)) \<subseteq> {Observe op MAX_WAIT_MS}"
      using 2 [OF InvokeNext] \<open>cmd' = _\<close>
      by (cases "fst (invoke_loop op cmd' resps)") auto
    ultimately show ?thesis using InvokeNext by (simp add: prod.case_eq_if)
  qed simp_all
qed simp

lemma executed_reply_removed:
  "jget EXECUTED_MS reply = None \<Longrightarrow> jremove EXECUTED_MS (executed_reply now timed reply) = reply"
proof (cases reply)
  case (JObj kvs)
  assume none: "jget EXECUTED_MS reply = None"
  then have "EXECUTED_MS \<notin> fst ` set kvs" by (simp add: JObj map_of_eq_None_iff)
  then have "adelete EXECUTED_MS kvs = kvs" "adelete EXECUTED_MS (AList.update EXECUTED_MS v kvs) = kvs" for v
    by (induction kvs) (auto simp: adelete_def)
  then show ?thesis by (simp add: JObj executed_reply_def jremove_def split: option.splits)
qed (simp_all add: executed_reply_def jremove_def split: option.splits)

end
