(* ===== verification/Execution_Properties.thy ===== *)
theory Execution_Properties
  imports Execution_Safety Execution_Client
begin

text \<open>
  The properties of the execution environment: what its keeper promises to the worker it serves, in every
  run from a fresh keeper. The demonstration values apply each property at a concrete run.
\<close>

section \<open>Demonstration values\<close>

definition keeper_codec :: execution_codec where
  "keeper_codec = \<lparr>xc_encode = (\<lambda>_. ''{}''), xc_sha256 = (\<lambda>s. s), xc_file_url = (\<lambda>p. Some (''file://'' @ p))\<rparr>"

definition demo_scope :: execution_scope where
  "demo_scope = \<lparr>sc_binding_id = ''b'', sc_revision = 1, sc_incarnation = ''i''\<rparr>"

definition demo_keeper_config :: "bool \<Rightarrow> keeper_config" where
  "demo_keeper_config read_only = \<lparr>kc_scope = demo_scope, kc_call_context = None, kc_read_only = read_only,
     kc_capability_digest = ''cap'', kc_initialization = JNull, kc_cwd = ''/w'', kc_inode = (1, 2)\<rparr>"

definition demo_invocation :: "string \<Rightarrow> string \<Rightarrow> invocation" where
  "demo_invocation op method = \<lparr>iv_operation_id = op, iv_method = method, iv_params = JObj []\<rparr>"

definition demo_command :: "command \<Rightarrow> execution_request" where
  "demo_command cmd = \<lparr>xq_schema = 1, xq_scope = demo_scope, xq_capability = ''cap'', xq_command = cmd\<rparr>"

definition demo_reply :: json where
  "demo_reply = JObj [(''id'', JInt 1), (''result'', JNull)]"

lemmas demo_keeper_defs = keeper_codec_def demo_scope_def demo_keeper_config_def demo_invocation_def
  demo_command_def demo_reply_def

lemma demo_invocation_valid:
  "validate_invocation (xc_encode keeper_codec) (demo_invocation ''op'' ''fs/readFile'')"
  by (simp add: validate_invocation_def valid_operation_id_def demo_keeper_defs is_ascii_alnum_def byte_of_def
      is_object_def MAX_EXECUTION_FRAME_BYTES_def)

lemma new_ledger_fields [simp]:
  "lg_operations new_ledger = []" "lg_pending new_ledger = []" "lg_next_id new_ledger = 1"
  "lg_pending_bytes new_ledger = 0" "lg_completed new_ledger = []" "lg_result_bytes new_ledger = 0"
  "lg_tombstones new_ledger = []" "lg_retention new_ledger = TOMBSTONE_RETENTION" "\<not> lg_lost new_ledger"
  "lg_events new_ledger = []" "lg_event_bytes new_ledger = 0" "lg_sequence new_ledger = 0"
  "lg_acknowledged new_ledger = 0" "lg_processes new_ledger = []" "lg_cells new_ledger = []"
  by (simp_all add: new_ledger_def)

lemma new_ledger_evict [simp]: "evict_tombstones now new_ledger = new_ledger"
  by (simp add: evict_tombstones.simps new_ledger_def MAX_LEDGER_OPERATIONS_def)

text \<open>The keeper after its first admission, and after the executor answered it.\<close>

definition demo_sent :: keeper where
  "demo_sent = snd (host_request (demo_keeper_config False) keeper_codec 0 (Some (1, 2))
     (demo_command (Invoke (demo_invocation ''op'' ''fs/readFile'') 0)) (new_keeper 0))"

lemma demo_keeper_fields [simp]:
  "iv_operation_id (demo_invocation op method) = op" "iv_method (demo_invocation op method) = method"
  "iv_params (demo_invocation op method) = JObj []"
  "xc_encode keeper_codec v = ''{}''" "xc_sha256 keeper_codec s = s" "xc_file_url keeper_codec p = Some (''file://'' @ p)"
  by (simp_all add: demo_invocation_def keeper_codec_def)

lemma demo_admit:
  "admit keeper_codec 0 (demo_invocation ''op'' ''fs/readFile'') new_ledger
    = (Inr (Admitted 1 0), snd (enroll 0 ''{}'' 2 ''op'' new_ledger))"
  using demo_invocation_valid unfolding admit_def
  by (simp add: Let_def track_process_def prod.case_eq_if MAX_PENDING_def MAX_LEDGER_OPERATIONS_def
      MAX_PENDING_BYTES_def numeral_2_eq_2)

lemma demo_sent_eq:
  "demo_sent = (new_keeper 0)\<lparr>kp_ledger := snd (enroll 0 ''{}'' 2 ''op'' new_ledger),
     kp_queue := [native_frame 1 ''fs/readFile'' (JObj [])]\<rparr>"
  by (simp add: demo_sent_def host_request_def host_invoke_def native_decision_def host_admit_def Let_def
      demo_command_def demo_keeper_config_def WIRE_SCHEMA_def attends_def MAX_WAIT_MS_def new_keeper_def
      observe_operation_def WRITER_QUEUE_def wait_outcome_def with_call_context_def demo_admit)

text \<open>The run after it: the writer passes the frame on, the executor answers.\<close>

definition demo_run :: "(nat \<times> keeper_event) list" where
  "demo_run = [(1, KWrite), (2, KNative demo_reply)]"

lemma demo_sent_frames: "native_frames demo_sent = native_frames (new_keeper 0) @
    [native_frame 1 (iv_method (demo_invocation ''op'' ''fs/readFile'')) (JObj [])]"
  by (simp add: demo_sent_eq native_frames_def new_keeper_def demo_invocation_def)

lemma demo_run_window: "(now, e) \<in> set demo_run \<Longrightarrow> now \<le> 3 \<and> (completes 1 e \<longrightarrow> 3 < now + TOMBSTONE_RETENTION)"
  by (auto simp: demo_run_def TOMBSTONE_RETENTION_def)

text \<open>A binding of a managed child, its recovery and its launch contract.\<close>

definition demo_digest_hex :: string where
  "demo_digest_hex = replicate 64 (CHR ''a'')"

definition demo_binding :: "u64 \<Rightarrow> string \<Rightarrow> binding_v1" where
  "demo_binding revision lifetime = \<lparr>xb_schema = 1, xb_id = ''b'', xb_revision = revision,
     xb_runtime = \<lparr>rt_machine_id = ''ovh'', rt_cwd = ''/r''\<rparr>,
     xb_environment = \<lparr>xe_machine_id = ''hawk'', xe_id = lifetime, xe_incarnation = lifetime,
       xe_executor_digest = ''sha256:'' @ demo_digest_hex, xe_protocol = 1\<rparr>,
     xb_workspace = \<lparr>xw_id = ''w'', xw_worktree_id = ''t'', xw_source_path = ''/s'', xw_cwd = ''/w''\<rparr>,
     xb_access = AccessProject,
     xb_managed = Some \<lparr>mb_parent_session_id = ''p'', mb_profile = ReadOnlyV1\<rparr>\<rparr>"

definition demo_contract :: launch_contract where
  "demo_contract = \<lparr>lc_schema = 1, lc_session_id = ''s'', lc_binding = demo_binding 1 ''i'',
     lc_executor = \<lparr>ex_command = ''/x'', ex_sha256 = demo_digest_hex, ex_version = ''1''\<rparr>,
     lc_capability = demo_digest_hex, lc_environment = [(''HOME'', ''/h'')], lc_call_context = None,
     lc_managed = Some \<lparr>me_profile = ReadOnlyV1, me_round_path = ''/m''\<rparr>\<rparr>"

lemma demo_digest_ok:
  "executor_digest_ok (''sha256:'' @ demo_digest_hex)" "list_all is_ascii_hexdigit demo_digest_hex"
  "length demo_digest_hex = 64"
  by (simp_all add: executor_digest_ok_def demo_digest_hex_def list_all_iff is_digest_char_def is_ascii_hexdigit_def
      byte_of_def starts_with_def)

lemmas demo_id_defs = environment_id_ok_def environment_path_ok_def is_ascii_alnum_def byte_of_def
  is_control_def is_continuation_def starts_with_def valid_id_def

lemma demo_binding_valid:
  assumes "revision \<noteq> 0" and "lifetime = ''i'' \<or> lifetime = ''j''"
  shows "validate_binding (demo_binding revision lifetime) = Inr ()"
  using assms demo_digest_ok
  by (auto simp: validate_binding_def demo_binding_def EXECUTION_BINDING_SCHEMA_def EXECUTION_PROTOCOL_def
      demo_id_defs string_bytes_def MAX_BINDING_BYTES_def managed_binding_ok_def)

lemma demo_recovers: "recovers (demo_binding 1 ''i'') 1 (demo_binding 2 ''j'')"
proof -
  let ?r = "\<lparr>xr_schema = 1, xr_phase = ''recovering'', xr_operation_id = ''o'', xr_previous = demo_binding 1 ''i''\<rparr>"
  have "validate_recovery ?r = Inr ()"
    using demo_binding_valid [of 1 "''i''"]
    by (simp add: validate_recovery_def is_ascii_alnum_def byte_of_def) (simp add: demo_binding_def)
  then have "recovery_accepts ?r (demo_binding 2 ''j'')"
    using demo_binding_valid [of 2 "''j''"] by (simp add: recovery_accepts_def) (simp add: demo_binding_def)
  from recovers.again [OF recovers.none _ this] show ?thesis by simp
qed

lemma demo_contract_valid: "validate_contract demo_contract = Inr ()"
  using demo_binding_valid [of 1 "''i''"] demo_digest_ok
  by (simp add: validate_contract_def demo_contract_def WIRE_SCHEMA_def valid_operation_id_def
      is_ascii_alnum_def byte_of_def MAX_VARIABLES_def variable_allowed_def BASE_VARIABLES_def has_nul_def
      private_path_ok_def starts_with_def)
    (simp add: demo_binding_def)

section \<open>One effect per operation\<close>

text \<open>C7: An admitted effect is handed to the executor once. Take any keeper that a run reached and an
  invocation that put a frame in the executor's queue. Whatever happens afterwards (other requests,
  replies, events, backpressure, reaping, the loss of the executor), a request that repeats the operation
  identity hands the executor nothing, with the same arguments or with others, as long as no completion of
  the first is older than the retention of its tombstone. In particular while it is still running, or after
  the executor was lost, there is no such limit.
\<close>

theorem effect_reaches_executor_once:
  assumes k: "k = keeper_run cfg c evs0 (new_keeper t0)"
    and first: "xq_command q = Invoke i w" "host_request cfg c now ws q k = (a, k1)"
      "native_frames k1 = native_frames k @ [native_frame n (iv_method i) params]"
    and window: "\<And>s e. (s, e) \<in> set evs \<Longrightarrow> s \<le> T \<and> (completes n e \<longrightarrow> T < s + TOMBSTONE_RETENTION)"
    and again: "xq_command r = Invoke j v" "iv_operation_id j = iv_operation_id i"
  shows "native_frames (snd (host_request cfg c T ws' r (keeper_run cfg c evs k1)))
    = native_frames (keeper_run cfg c evs k1)"
proof -
  let ?k = "k\<lparr>kp_attended := now\<rparr>" and ?k2 = "keeper_run cfg c evs k1"
  obtain native cell where adm: "host_admit cfg c now i native ?k = (Inr (Admitted n cell), k1)"
    using sent_admits [OF first] by blast
  have "ledger_ok c (kp_ledger ?k)" "lg_retention (kp_ledger ?k) = TOMBSTONE_RETENTION"
    by (simp_all add: k run_ok run_steady)
  from admitted_held [OF this adm] window
  have held: "held T (iv_operation_id i) n cell (request_digest_of c i) (kp_ledger ?k2)"
    using holding.run [where c = c and T = T and op = "iv_operation_id i" and n = n and cell = cell
        and d = "request_digest_of c i" and k = k1 and evs = evs and cfg = cfg] by blast
  have "held T (iv_operation_id i) n cell (request_digest_of c i) (kp_ledger (?k2\<lparr>kp_attended := T\<rparr>))"
    using held by simp
  from held_invoke_frames [OF this again(2)] show ?thesis
    by (auto simp: host_request_def Let_def again(1) attends_def native_frames_def)
qed

lemma effect_reaches_executor_once_witness:
  "native_frames (snd (host_request (demo_keeper_config False) keeper_codec 3 (Some (1, 2))
      (demo_command (Invoke (demo_invocation ''op'' ''fs/remove'') 0))
      (keeper_run (demo_keeper_config False) keeper_codec demo_run demo_sent)))
    = native_frames (keeper_run (demo_keeper_config False) keeper_codec demo_run demo_sent)"
proof (rule effect_reaches_executor_once [where T = 3 and evs = demo_run and n = 1
      and i = "demo_invocation ''op'' ''fs/readFile''" and params = "JObj []"])
  show "new_keeper 0 = keeper_run (demo_keeper_config False) keeper_codec [] (new_keeper 0)"
    by (simp add: keeper_run_def)
  show "host_request (demo_keeper_config False) keeper_codec 0 (Some (1, 2))
      (demo_command (Invoke (demo_invocation ''op'' ''fs/readFile'') 0)) (new_keeper 0)
    = (fst (host_request (demo_keeper_config False) keeper_codec 0 (Some (1, 2))
        (demo_command (Invoke (demo_invocation ''op'' ''fs/readFile'') 0)) (new_keeper 0)), demo_sent)"
    by (simp add: demo_sent_def)
qed (use demo_sent_frames demo_run_window in \<open>auto simp: demo_command_def demo_invocation_def\<close>)

text \<open>C19: A resent invocation reads the outcome of the first. Within the same window, an authorised and
  valid request with the identity of an admitted operation is answered from the cell of that admission when
  its invocation has the same digest, and is refused as a conflict when it has another one.
\<close>

theorem resend_reads_first_outcome:
  assumes k: "k = keeper_run cfg c evs0 (new_keeper t0)"
    and first: "xq_command q = Invoke i w" "host_request cfg c now ws q k = (a, k1)"
      "native_frames k1 = native_frames k @ [native_frame n (iv_method i) params]"
      "observe_operation (iv_operation_id i) (kp_ledger k1) = Some cell"
    and window: "\<And>s e. (s, e) \<in> set evs \<Longrightarrow> s \<le> T \<and> (completes n e \<longrightarrow> T < s + TOMBSTONE_RETENTION)"
    and again: "xq_command r = Invoke j v" "iv_operation_id j = iv_operation_id i"
    and authorised: "xq_schema r = WIRE_SCHEMA" "xq_scope r = kc_scope cfg"
      "xc_sha256 c (xq_capability r) = kc_capability_digest cfg"
    and served: "v \<le> MAX_WAIT_MS" "native_decision cfg c j = Forward native'" "validate_invocation (xc_encode c) j"
  shows "fst (host_request cfg c T (Some (kc_inode cfg)) r (keeper_run cfg c evs k1)) =
    (if request_digest_of c j = request_digest_of c i
     then wait_outcome cell v (kp_ledger (keeper_run cfg c evs k1))
     else refuse RefOperationConflict)"
proof -
  let ?k = "k\<lparr>kp_attended := now\<rparr>" and ?k2 = "keeper_run cfg c evs k1"
  obtain native cell' where adm: "host_admit cfg c now i native ?k = (Inr (Admitted n cell'), k1)"
    using sent_admits [OF first(1-3)] by blast
  have "ledger_ok c (kp_ledger ?k)" "lg_retention (kp_ledger ?k) = TOMBSTONE_RETENTION"
    by (simp_all add: k run_ok run_steady)
  note start = admitted_held [OF this adm]
  have "cell' = cell"
    using start [of T] first(4) by (auto simp: held_def observe_operation_def)
  with start window have "held T (iv_operation_id i) n cell (request_digest_of c i) (kp_ledger ?k2)"
    using holding.run [where c = c and T = T and op = "iv_operation_id i" and n = n and cell = cell
        and d = "request_digest_of c i" and k = k1 and evs = evs and cfg = cfg] by blast
  then have "held T (iv_operation_id i) n cell (request_digest_of c i) (kp_ledger (?k2\<lparr>kp_attended := T\<rparr>))"
    by simp
  from host_admit_held [OF this again(2)] served authorised again(1) show ?thesis
    by (simp add: host_request_def host_invoke_def Let_def attends_def)
qed

lemma resend_reads_first_outcome_witness:
  "fst (host_request (demo_keeper_config False) keeper_codec 3 (Some (kc_inode (demo_keeper_config False)))
      (demo_command (Invoke (demo_invocation ''op'' ''fs/readFile'') 0))
      (keeper_run (demo_keeper_config False) keeper_codec demo_run demo_sent))
    = wait_outcome 0 0 (kp_ledger (keeper_run (demo_keeper_config False) keeper_codec demo_run demo_sent))"
proof -
  let ?i = "demo_invocation ''op'' ''fs/readFile''"
  have "fst (host_request (demo_keeper_config False) keeper_codec 3 (Some (kc_inode (demo_keeper_config False)))
      (demo_command (Invoke ?i 0)) (keeper_run (demo_keeper_config False) keeper_codec demo_run demo_sent))
    = (if request_digest_of keeper_codec ?i = request_digest_of keeper_codec ?i
       then wait_outcome 0 0 (kp_ledger (keeper_run (demo_keeper_config False) keeper_codec demo_run demo_sent))
       else refuse RefOperationConflict)"
  proof (rule resend_reads_first_outcome [where T = 3 and evs = demo_run and n = 1 and i = ?i and params = "JObj []"])
    show "new_keeper 0 = keeper_run (demo_keeper_config False) keeper_codec [] (new_keeper 0)"
      by (simp add: keeper_run_def)
    show "host_request (demo_keeper_config False) keeper_codec 0 (Some (1, 2)) (demo_command (Invoke ?i 0)) (new_keeper 0)
      = (fst (host_request (demo_keeper_config False) keeper_codec 0 (Some (1, 2)) (demo_command (Invoke ?i 0))
          (new_keeper 0)), demo_sent)"
      by (simp add: demo_sent_def)
    show "observe_operation (iv_operation_id ?i) (kp_ledger demo_sent) = Some 0"
      by (simp add: demo_sent_eq observe_operation_def enroll_def Let_def demo_invocation_def)
  qed (use demo_sent_frames demo_run_window demo_invocation_valid in
      \<open>auto simp: demo_command_def demo_keeper_config_def WIRE_SCHEMA_def keeper_codec_def native_decision_def MAX_WAIT_MS_def\<close>)
  then show ?thesis by simp
qed

section \<open>Loss, bounds and the read-only constraint\<close>



text \<open>C32: Every run of the keeper stays within its budgets, and its counters are exact. The operation table,
  the pending calls and their request bytes, the retained results, the unacknowledged events and their
  bytes, the tracked processes and the writer's queue never exceed their limits; the byte counters are the
  sums of what they count.
\<close>

theorem keeper_within_bounds:
  "let k = keeper_run cfg c evs (new_keeper t); lg = kp_ledger k in
     length (lg_operations lg) \<le> MAX_LEDGER_OPERATIONS \<and> length (lg_pending lg) \<le> MAX_PENDING
   \<and> lg_pending_bytes lg \<le> MAX_PENDING_BYTES \<and> lg_result_bytes lg \<le> MAX_RESULTS_BYTES
   \<and> lg_event_bytes lg \<le> MAX_EVENTS_BYTES \<and> length (lg_events lg) \<le> MAX_EVENTS
   \<and> length (lg_processes lg) \<le> MAX_PROCESSES \<and> length (kp_queue k) \<le> WRITER_QUEUE
   \<and> lg_result_bytes lg = sum_list (map (\<lambda>p. le_bytes (snd p)) (lg_operations lg))
   \<and> lg_pending_bytes lg = sum_list (map (\<lambda>p. request_bytes lg (snd p)) (lg_pending lg))
   \<and> lg_event_bytes lg = sum_list (map snd (lg_events lg))"
proof -
  let ?k = "keeper_run cfg c evs (new_keeper t)"
  have ok: "ledger_ok c (kp_ledger ?k)" by (rule run_ok)
  then have "tables_ok c (kp_ledger ?k)" by (simp add: ledger_ok_def)
  note parts = tables_parts [OF this]
  from parts ok run_queue [of cfg c evs t] show ?thesis
    unfolding Let_def cells_ok_def requests_ok_def results_ok_def events_ok_def processes_ok_def
      ledger_ok_def queue_bounded_def by blast
qed


text \<open>C34: A recovered environment refuses its earlier lifetimes. After any number of recoveries, a keeper
  launched for the recovered binding answers a request bound to the original one as unauthorised, and its
  state is unchanged, whatever capability the request carries.
\<close>

theorem earlier_lifetime_is_refused:
  assumes "recovers b n d" and "0 < n" and "lc_binding contract = d"
    and "cfg = keeper_config_of c contract initialization cwd inode" and "xq_scope q = scope_of_binding b"
  shows "host_request cfg c now ws q k = (refuse RefUnauthorized, k)"
proof -
  have "xb_revision b \<noteq> xb_revision d"
    using recovers_revision [OF assms(1)] assms(2) by auto
  then have "xq_scope q \<noteq> kc_scope cfg"
    by (simp add: assms(3,4,5) keeper_config_of_def scope_of_binding_def)
  then show ?thesis by (simp add: host_request_def)
qed

lemma earlier_lifetime_is_refused_witness:
  "host_request (keeper_config_of keeper_codec (demo_contract\<lparr>lc_binding := demo_binding 2 ''j''\<rparr>) JNull ''/w'' (1, 2))
     keeper_codec 0 None
     \<lparr>xq_schema = 1, xq_scope = scope_of_binding (demo_binding 1 ''i''), xq_capability = demo_digest_hex, xq_command = Shutdown\<rparr>
     (new_keeper 0) = (refuse RefUnauthorized, new_keeper 0)"
  by (rule earlier_lifetime_is_refused [OF demo_recovers _ _ refl]) simp_all


section \<open>Events\<close>

text \<open>C17: The keeper's events reach their consumer without loss, repetition or reordering. Start from a fresh
  ledger and let anything happen to the stream: events are offered, accepted or pushed back; the consumer
  polls with its cursor; a poll's answer is lost; a delayed duplicate of an earlier poll arrives. What was
  received is always the accepted events up to the cursor, in order, and polling once per outstanding event
  delivers them all.
\<close>

theorem keeper_events_are_lossless:
  assumes "fold (keeper_stream.consume c) evs ([], [], 0, new_ledger) = (accepted, received, cursor, lg)"
  shows "accepted = received @ stream_rest cursor lg
    \<and> (\<exists>cursor' lg'. fold (keeper_stream.consume c) (replicate (length (stream_rest cursor lg)) Poll)
         (accepted, received, cursor, lg) = (accepted, accepted, cursor', lg'))"
proof -
  have "events_ok c new_ledger"
    using tables_parts(6) [of c new_ledger] new_ledger_ok [of c] by (simp add: ledger_ok_def)
  then have "keeper_stream.in_step c ([], [], 0, new_ledger)"
    by (simp add: keeper_stream.in_step_def stream_rest_def)
  from keeper_stream.run_in_step [OF this, of evs] assms
  have in_step: "keeper_stream.in_step c (accepted, received, cursor, lg)" by simp
  then have "accepted = received @ stream_rest cursor lg" by (simp add: keeper_stream.in_step_def)
  with keeper_stream.polls_drain [OF in_step order_refl] show ?thesis by blast
qed

lemma keeper_events_are_lossless_witness:
  "\<exists>cursor lg. fold (keeper_stream.consume keeper_codec) [Offer JNull, PollLost, Offer demo_reply, Poll, Late 1]
      ([], [], 0, new_ledger) = ([JNull, demo_reply], [JNull, demo_reply] , cursor, lg)
    \<and> [JNull, demo_reply] = [JNull, demo_reply] @ stream_rest cursor lg"
proof -
  obtain cursor lg where run: "fold (keeper_stream.consume keeper_codec)
      [Offer JNull, PollLost, Offer demo_reply, Poll, Late 1] ([], [], 0, new_ledger)
      = ([JNull, demo_reply], [JNull, demo_reply], cursor, lg)"
    by (simp add: stream_push_def stream_poll_def push_event_def Let_def events_after_def closed_process_def
        demo_reply_def new_ledger_def MAX_EVENT_BATCH_BYTES_def MAX_EVENTS_BYTES_def MAX_EVENTS_def)
  from keeper_events_are_lossless [OF run] run show ?thesis by blast
qed

section \<open>The worker's transport\<close>



end
