(* ===== verification/Spec2Isabelle.thy ===== *)
theory Spec2Isabelle
  imports Folder_Projection Persist_Queue Usage_Pacing Managed_Call Event_Reducer Hub_Properties Hub_Findings Scheduler Operation_Budget Machine_Convergence Superagent_Settings Config_Options Session_Trash Sync_Properties Plugin_Resolution Execution_Properties
begin

text \<open>
  A verification library of Cowboy, a service that runs coding agents on behalf of its users.

  \<^bold>\<open>The program.\<close> The Hub (\<^verbatim>\<open>src/src/core.rs\<close> and \<^verbatim>\<open>src/src/core/\<close>) keeps every session: its
  transcript, its send queue and drafts, its place in the user's order and folders. Clients change it over
  a WebSocket, agents append events to it, a scheduler wakes it, and everything it changes goes to the store
  through one write-behind queue. Around it the server runs coordinators: Machines are brought to the accepted
  component manifest, plugins are uninstalled through a durable journal, quota collections are admitted by a
  limiter. A worker runs an agent, and a separate keeper process on the Machine owns the execution
  environment the agent's commands run in; the two speak the execution protocol. The coverage is of the Rust code
  under \<^verbatim>\<open>src/src\<close> and \<^verbatim>\<open>src/components\<close>.

  \<^bold>\<open>How the code is read.\<close> A struct is a \<^theory_text>\<open>record\<close>, an enum a \<^theory_text>\<open>datatype\<close>, a \<open>Result\<close> a sum with the error on
  the left, a hash map an association list of the prelude or a map, a method taking \<open>&mut self\<close> a function to the
  updated state. A lock held over a method makes the method one step; interleavings are sequences of such
  steps. What a step cannot know (the clock, a random id, a file or database outcome, an answer of another
  process, SHA-256, JSON text) is an argument of its definition. Integers that can reach their width are words or
  saturate as the code's do; lengths of collections bounded by memory are natural numbers.

  \<^bold>\<open>Shared theories.\<close> \<open>Prelude\<close>: results, JSON values, UTF-8 lengths, saturating arithmetic, association lists, list
  lemmas and the collections of facts the proofs share. \<open>Fifo_Sink\<close>: the interface of a bounded channel, provided by
  the store queue and by the dispatch channel. \<open>Event_Stream\<close>: the interface of an acknowledged event stream with its
  one consumer, provided by the keeper's ledger.

  \<^bold>\<open>Order, folders, Trash.\<close> \<open>Session_Order\<close> (the two reorderings of \<^verbatim>\<open>core.rs\<close> and \<^verbatim>\<open>model.rs\<close>); \<open>Folder_Defaults\<close>,
  \<open>Session_Folders\<close> and \<open>Folder_Projection\<close> (\<^verbatim>\<open>session_folders.rs\<close> with its defaults, every mutation, the synchronized
  value and its projection to one principal); \<open>Folder_Trash\<close>, \<open>Folder_Restore\<close>, \<open>Folder_Resolution\<close>,
  \<open>Folder_Invariants\<close>, \<open>Folder_Safety\<close>, \<open>Folder_Properties\<close>: the tree has unique ids, existing parents, no cycle, no live
  folder below a trashed one, and every mutation keeps that; a move is refused exactly when it would close a cycle;
  default resolution agrees with a leaf-to-root specification. \<open>Session_Trash\<close>
  (\<^verbatim>\<open>core/session_trash.rs\<close>): a move to Trash leaves nothing live behind, and a restore undoes it.

  \<^bold>\<open>The Hub.\<close> \<open>Transcript\<close>, \<open>Anchor_Index\<close>, \<open>Event_Reducer\<close>: events, the bounded index of transcript anchors (refines
  a least-recently-used list), the canonical event stream of \<^verbatim>\<open>persistence.rs\<close>. \<open>Hub_State\<close>, \<open>Hub_Push\<close>, \<open>Hub_Context\<close>,
  \<open>Send_Queue\<close>, \<open>Draft_Queue\<close>, \<open>Turn_Lifecycle\<close>, \<open>Scheduler\<close>: the state the queue works on and its operations
  (\<^verbatim>\<open>hub_queue.rs\<close>, \<^verbatim>\<open>hub_events.rs\<close>, \<^verbatim>\<open>hub_superagent.rs\<close>, \<^verbatim>\<open>session_attention.rs\<close>, \<^verbatim>\<open>session_context.rs\<close>,
  \<^verbatim>\<open>scheduler.rs\<close>). \<open>Hub_Moves\<close> is the abstract specification of dispatch, five moves with the guard of a send;
  \<open>Hub_Refinement\<close> shows every operation to be a sequence of moves; \<open>Hub_Safety\<close>, \<open>Hub_Steps\<close>, \<open>Hub_Delivery\<close>,
  \<open>Hub_Properties\<close> draw from it what holds in every run: sessions stay well formed, a request is sent only when
  the session may run and its context is not being edited, a resubmitted prompt runs once, the queue is worked off in order.
  \<open>Hub_Findings\<close> states three behaviours that differ from the comments. \<open>Config_Options\<close>, \<open>Managed_Config\<close>: the
  session's configuration options and the ones the host owns. \<open>Persist_Queue\<close>: the write-behind queue of
  \<^verbatim>\<open>core/persistence_queue.rs\<close>, first-in first-out within its byte and item budgets with a reserve for critical writes.

  \<^bold>\<open>Synchronized states.\<close> \<open>Mobile_Review\<close>: the review state a session shares between devices (\<^verbatim>\<open>core.rs\<close>, its
  mutations in \<^verbatim>\<open>hub_sync.rs\<close>); \<open>Sync_Arbiter\<close> (\<^verbatim>\<open>hub_sync.rs\<close>): the arbiter that validates a client's mutation, applies
  it under its id and stamps the state's versions; \<open>Sync_Edits\<close> (\<^verbatim>\<open>review_defaults.rs\<close>, \<^verbatim>\<open>review_directory.rs\<close>): agents'
  compare-and-set edits with their bounded receipts, and announcements; \<open>Sync_Access\<close> (\<^verbatim>\<open>client_ws.rs\<close>,
  \<^verbatim>\<open>product_auth.rs\<close>): who may change a state and what of a patch is sent to whom. \<open>Sync_Safety\<close> and
  \<open>Sync_Properties\<close>: a mutation and an edit take effect once over any history, the states stay within their bounds, what
  is stored reads back, a client changes and is shown only what is its own.

  \<^bold>\<open>Supervision and managed calls.\<close> \<open>Superagent_Patterns\<close>, \<open>Superagent_Settings\<close> (\<^verbatim>\<open>superagent.rs\<close>,
  \<^verbatim>\<open>superagent/patterns.rs\<close>): profiles resolve without cycles and accepted settings can be dispatched.
  \<open>Managed_Request\<close>, \<open>Managed_Call\<close>: the contract of a managed call, its digest and its durable record.

  \<^bold>\<open>Coordinators of the server.\<close> \<open>Usage_Limiter\<close>, \<open>Usage_Pacing\<close> (\<^verbatim>\<open>usage/limiter.rs\<close>): starts of one provider are
  paced and exclusive over restarts, whatever the clock does. \<open>Operation_Budget\<close>: one deadline and one byte
  budget per operation. \<open>Machine_Manifest\<close>, \<open>Machine_Convergence\<close> (\<^verbatim>\<open>machine_convergence.rs\<close> and the loop of
  \<^verbatim>\<open>background_jobs.rs\<close>): the plan dispatches exactly the outdated components, and a digest that failed four
  times is not sent again. \<open>Plugin_Evidence\<close>, \<open>Plugin_Operation\<close>, \<open>Plugin_Journal\<close>, \<open>Plugin_Safety\<close>, \<open>Plugin_Uninstall\<close>,
  \<open>Plugin_Execution\<close>, \<open>Plugin_Resolution\<close>: the uninstall of a plugin from the operator's preview through the journal and
  the steps on Machines to the resolution of an interrupted run. A small Hoare logic over the coordinator's programs
  shows that an effect follows its announcement in the journal, under every sequence of answers and database faults.

  \<^bold>\<open>Execution environment.\<close> \<open>Execution_Binding\<close>, \<open>Execution_Protocol\<close>: the durable identity, recovery chains, the messages
  and the launch contract. \<open>Execution_Ledger\<close>, \<open>Execution_Host\<close>: the keeper's tables and its state machine; the
  executor is an argument that answers or fails. \<open>Execution_Ledger_Safety\<close>, \<open>Execution_Events\<close>, \<open>Execution_Keeper\<close>,
  \<open>Execution_Safety\<close>, \<open>Execution_Properties\<close>: in every run an effect reaches the executor once, a resent request
  reads the first outcome, events are neither lost nor repeated, the bounds hold, a read-only environment starts
  nothing with write access, and a lost keeper does nothing more. \<open>Execution_Client\<close>: the worker's pending table, its bound and
  the reserve that keeps control calls admissible.

  \<^bold>\<open>Interfaces.\<close> Every \<^theory_text>\<open>locale\<close> is interpreted on the model's own definitions, in the theory that provides the
  operations, and the properties rest on the facts of the interpretations.

  \<^bold>\<open>Recursion and fuel.\<close> Loops are structural recursions or functions with a measure: the length of the list
  consumed, the entries of a table not yet evicted, the profiles not yet visited. The walks up the folder tree
  (\<open>is_descendant\<close>, \<open>nearest_live\<close>) and the drain of the store queue take a count, as bounded loops do: one more than
  the number of folders, which reaches every ancestor of an acyclic tree, and the number of queued writes. Their lemmas show
  the counts to be enough. A coordinator's waits recurse over the finite list of answers it is given.

  \<^bold>\<open>Not modelled.\<close> SQL and its rows, beyond the journal's transactions: a store write is a value handed to the queue.
  HTTP, WebSocket, TLS and authentication, whose core is third-party cryptography. Processes, namespaces, cgroups and
  files of the Machine: what the Service reads of them is an argument. Agent protocols of the providers, git, telemetry
  and the command lines. Plugin installation, whose steps rest on archives and a registry. Blocking and waking of threads and tasks;
  a lock makes its critical section one step. The manifest lists each of these parts with its reason.
\<close>

end
